(* ===== verification/Prelude.thy ===== *)
theory Prelude imports Main "HOL-Library.Word" begin

text \<open>
  Shared vocabulary of the development: names of the machine integer types the kernel is
  written in, the fact collections the component theories fill and use, and the generic lemmas
  on lists, modular indices and alignment that more than one component needs.

  A comment \<^verbatim>\<open>(*@ path:first-last symbol *)\<close> in front of a definition names the lines under
  \<^verbatim>\<open>src/\<close> it translates.
\<close>

unbundle bit_operations_syntax

type_synonym u8 = "8 word"
type_synonym u16 = "16 word"
type_synonym u32 = "32 word"
type_synonym u64 = "64 word"

named_theorems inv_defs "definitions of the component invariants"
named_theorems step_defs "definitions of the operations of a component"

section \<open>Positions in a ring\<close>

lemma ring_index_unfold:
  fixes r c i :: nat
  assumes "i < c"
  shows "(r + i) mod c = (if r mod c + i < c then r mod c + i else r mod c + i - c)"
proof -
  have "r mod c < c" using assms by simp
  then have lt: "r mod c + i - c < c" using assms by linarith
  have "(r mod c + i) mod c = (if r mod c + i < c then r mod c + i else r mod c + i - c)"
    using lt by (simp add: mod_if [of "r mod c + i" c])
  then show ?thesis by (simp add: mod_add_left_eq)
qed

lemma ring_index_inj:
  fixes r c i j :: nat
  assumes "i < c" "j < c"
  shows "(r + i) mod c = (r + j) mod c \<longleftrightarrow> i = j"
  using assms by (auto simp: ring_index_unfold split: if_splits)

lemma ring_next:
  fixes p c :: nat
  assumes "p < c"
  shows "(if Suc p = c then 0 else Suc p) = Suc p mod c"
  using assms by (simp add: mod_Suc)

section \<open>Single bits of a word\<close>

lemma bit_set_word:
  fixes w :: "'a::len word"
  shows "k < LENGTH('a) \<Longrightarrow> bit (w OR 2 ^ k) j \<longleftrightarrow> bit w j \<or> j = k"
  by (auto simp: bit_or_iff bit_exp_iff)

lemma bit_clear_word:
  fixes w :: "'a::len word"
  shows "k < LENGTH('a) \<Longrightarrow> bit (w AND NOT (2 ^ k)) j \<longleftrightarrow> bit w j \<and> j \<noteq> k"
  by (auto simp: bit_and_iff bit_not_iff bit_exp_iff dest: bit_imp_le_length)

section \<open>Writing several entries of a table\<close>

lemma fold_update_length [simp]: "length (fold (\<lambda>(i, v) l. l[i := v]) ws l) = length l"
  by (induction ws arbitrary: l) (auto split: prod.splits)

lemma fold_update_other:
  "i \<notin> fst ` set ws \<Longrightarrow> fold (\<lambda>(i, v) l. l[i := v]) ws l ! i = l ! i"
  by (induction ws arbitrary: l) (auto split: prod.splits)

lemma fold_update_nth:
  "distinct (map fst ws) \<Longrightarrow> (i, v) \<in> set ws \<Longrightarrow> i < length l \<Longrightarrow>
    fold (\<lambda>(i, v) l. l[i := v]) ws l ! i = v"
  by (induction ws arbitrary: l) (force simp: fold_update_other split: prod.splits)+

end
