(* ===== verification/Bit_Field.thy ===== *)
theory Bit_Field imports Prelude begin

text \<open>
  The packed bit fields of the hardware structures (segment and interrupt descriptors, page map
  entries, TRBs, MSI capabilities, device registers): a field is an offset and a width inside one
  machine word. Reading a field after writing it gives the written bits; writing a field leaves
  every disjoint field as it is. The component theories compute layouts with these three facts.
\<close>

definition get_field :: "nat \<Rightarrow> nat \<Rightarrow> 'a::len word \<Rightarrow> 'a word" where
  "get_field off w x = take_bit w (drop_bit off x)"

definition put_field :: "nat \<Rightarrow> nat \<Rightarrow> 'a::len word \<Rightarrow> 'a word \<Rightarrow> 'a word" where
  "put_field off w v x = (x AND NOT (push_bit off (mask w))) OR push_bit off (take_bit w v)"

named_theorems field_simps_bits "reading and writing packed fields"

lemma bit_get_field:
  "bit (get_field off w x) n \<longleftrightarrow> n < w \<and> bit x (off + n)"
  by (auto simp: get_field_def bit_take_bit_iff bit_drop_bit_eq)

lemma bit_put_field:
  fixes x :: "'a::len word"
  shows "bit (put_field off w v x) n \<longleftrightarrow>
    n < LENGTH('a) \<and> (if off \<le> n \<and> n < off + w then bit v (n - off) else bit x n)"
  by (auto simp: put_field_def bit_or_iff bit_and_iff bit_not_iff bit_push_bit_iff bit_take_bit_iff
      bit_mask_iff dest: bit_imp_le_length)

lemma get_put_field [field_simps_bits]:
  fixes x :: "'a::len word"
  assumes "off + w \<le> LENGTH('a)"
  shows "get_field off w (put_field off w v x) = take_bit w v"
  using assms by (intro bit_eqI) (auto simp: bit_get_field bit_put_field bit_take_bit_iff)

lemma get_put_field_other [field_simps_bits]:
  fixes x :: "'a::len word"
  assumes "off + w \<le> off' \<or> off' + w' \<le> off"
  shows "get_field off w (put_field off' w' v x) = get_field off w x"
proof (intro bit_eqI)
  fix n
  assume "possible_bit TYPE('a word) n"
  show "bit (get_field off w (put_field off' w' v x)) n = bit (get_field off w x) n"
    using assms by (auto simp: bit_get_field bit_put_field dest: bit_imp_le_length)
qed

lemma get_field_zero [field_simps_bits]: "get_field off w 0 = 0"
  by (simp add: get_field_def)

lemma get_field_bound: "get_field off w x = take_bit w (get_field off w x)"
  by (simp add: get_field_def)

lemma get_field_1_iff:
  fixes x :: "'a::len word"
  shows "get_field off 1 x = 1 \<longleftrightarrow> bit x off"
proof -
  have "get_field off 1 x = of_bool (bit x off)"
    by (intro bit_eqI) (auto simp: bit_get_field bit_1_iff)
  then show ?thesis by simp
qed

lemma get_field_1_bool:
  fixes x :: "'a::len word"
  shows "get_field off 1 x = of_bool (bit x off)"
  by (intro bit_eqI) (auto simp: bit_get_field bit_1_iff)

text \<open>The low half and the high half of an address put together again, as the hardware does with a
  register that is written in two parts.\<close>

lemma low_high_parts:
  fixes v :: "'a::len word"
  assumes "k \<le> LENGTH('a)"
  shows "take_bit k v OR push_bit k (drop_bit k v) = v"
proof (intro bit_eqI)
  fix n
  show "bit (take_bit k v OR push_bit k (drop_bit k v)) n = bit v n"
    by (cases "n < k")
      (auto simp: bit_or_iff bit_take_bit_iff bit_push_bit_iff bit_drop_bit_eq dest: bit_imp_le_length)
qed

lemma three_parts:
  fixes v :: "'a::len word"
  assumes "i \<le> j" "j \<le> LENGTH('a)"
  shows "take_bit i v OR push_bit i (take_bit (j - i) (drop_bit i v)) OR push_bit j (drop_bit j v) = v"
proof (intro bit_eqI)
  fix n
  consider "n < i" | "i \<le> n" "n < j" | "j \<le> n" by linarith
  then show "bit (take_bit i v OR push_bit i (take_bit (j - i) (drop_bit i v)) OR push_bit j (drop_bit j v)) n = bit v n"
    using assms by cases
      (auto simp: bit_or_iff bit_take_bit_iff bit_push_bit_iff bit_drop_bit_eq dest: bit_imp_le_length)
qed

end
