(* ===== verification/Kernel_Error.thy ===== *)
theory Kernel_Error imports Prelude begin

text \<open>
  \<^verbatim>\<open>Kernel/error.hpp\<close>: the kernel's error codes and the table of their printable names. A
  \<^verbatim>\<open>WithError<T>\<close> is modelled as a sum (\<open>Inl\<close> the code, \<open>Inr\<close> the value) where the callers look
  at the value only when there is no error, and as a pair elsewhere. The file and line members of
  an error only reach log output and are not modelled.
\<close>

(*@ Kernel/error.hpp:8-39 Error::Code *)
datatype error_code =
    kSuccess | kFull | kEmpty | kNoEnoughMemory | kIndexOutOfRange | kHostControllerNotHalted
  | kInvalidSlotID | kPortNotConnected | kInvalidEndpointNumber | kTransferRingNotSet
  | kAlreadyAllocated | kNotImplemented | kInvalidDescriptor | kBufferTooSmall | kUnknownDevice
  | kNoCorrespondingSetupStage | kTransferFailed | kInvalidPhase | kUnknownXHCISpeedID | kNoWaiter
  | kNoPCIMSI | kUnknownPixelFormat | kNoSuchTask | kInvalidFormat | kFrameTooSmall | kInvalidFile
  | kIsDirectory | kNoSuchEntry | kFreeTypeError | kLastOfCode

(*@ Kernel/error.hpp:106-110 WithError *)
type_synonym 'a result = "error_code + 'a"

text \<open>The enumerators are numbered from 0 in the order of their declaration.\<close>

definition all_codes :: "error_code list" where
  "all_codes =
    [kSuccess, kFull, kEmpty, kNoEnoughMemory, kIndexOutOfRange, kHostControllerNotHalted,
     kInvalidSlotID, kPortNotConnected, kInvalidEndpointNumber, kTransferRingNotSet,
     kAlreadyAllocated, kNotImplemented, kInvalidDescriptor, kBufferTooSmall, kUnknownDevice,
     kNoCorrespondingSetupStage, kTransferFailed, kInvalidPhase, kUnknownXHCISpeedID, kNoWaiter,
     kNoPCIMSI, kUnknownPixelFormat, kNoSuchTask, kInvalidFormat, kFrameTooSmall, kInvalidFile,
     kIsDirectory, kNoSuchEntry, kFreeTypeError, kLastOfCode]"

fun index_of :: "'a \<Rightarrow> 'a list \<Rightarrow> nat" where
  "index_of x [] = 0"
| "index_of x (y # ys) = (if x = y then 0 else Suc (index_of x ys))"

definition code_value :: "error_code \<Rightarrow> nat" where
  "code_value c = index_of c all_codes"

(*@ Kernel/error.hpp:41-73 Error::code_names_ *)
definition code_names :: "string list" where
  "code_names =
    [''kSuccess'', ''kFull'', ''kEmpty'', ''kNoEnoughMemory'', ''kIndexOutOfRange'',
     ''kHostControllerNotHalted'', ''kInvalidSlotID'', ''kPortNotConnected'',
     ''kInvalidEndpointNumber'', ''kTransferRingNotSet'', ''kAlreadyAllocated'',
     ''kNotImplemented'', ''kInvalidDescriptor'', ''kBufferTooSmall'', ''kUnknownDevice'',
     ''kNoCorrespondingSetupStage'', ''kTransferFailed'', ''kInvalidPhase'',
     ''kUnknownXHCISpeedID'', ''kNoWaiter'', ''kNoPCIMSI'', ''kUnknownPixelFormat'',
     ''kNoSuchTask'', ''kInvalidFormat'', ''kFrameTooSmall'', ''kInvalidFile'',
     ''kIsDirectory'', ''kFreeTypeError'', ''kNoSuchEntry'']"

(*@ Kernel/error.hpp:82-84 Error::operator bool *)
definition is_error :: "error_code \<Rightarrow> bool" where
  "is_error c \<longleftrightarrow> c \<noteq> kSuccess"

(*@ Kernel/error.hpp:86-88 Error::Name *)
definition error_name :: "error_code \<Rightarrow> string" where
  "error_name c = code_names ! code_value c"

text \<open>What the table is meant to hold: for each code, the spelling of its enumerator.\<close>

fun enumerator_name :: "error_code \<Rightarrow> string" where
  "enumerator_name kSuccess = ''kSuccess''"
| "enumerator_name kFull = ''kFull''"
| "enumerator_name kEmpty = ''kEmpty''"
| "enumerator_name kNoEnoughMemory = ''kNoEnoughMemory''"
| "enumerator_name kIndexOutOfRange = ''kIndexOutOfRange''"
| "enumerator_name kHostControllerNotHalted = ''kHostControllerNotHalted''"
| "enumerator_name kInvalidSlotID = ''kInvalidSlotID''"
| "enumerator_name kPortNotConnected = ''kPortNotConnected''"
| "enumerator_name kInvalidEndpointNumber = ''kInvalidEndpointNumber''"
| "enumerator_name kTransferRingNotSet = ''kTransferRingNotSet''"
| "enumerator_name kAlreadyAllocated = ''kAlreadyAllocated''"
| "enumerator_name kNotImplemented = ''kNotImplemented''"
| "enumerator_name kInvalidDescriptor = ''kInvalidDescriptor''"
| "enumerator_name kBufferTooSmall = ''kBufferTooSmall''"
| "enumerator_name kUnknownDevice = ''kUnknownDevice''"
| "enumerator_name kNoCorrespondingSetupStage = ''kNoCorrespondingSetupStage''"
| "enumerator_name kTransferFailed = ''kTransferFailed''"
| "enumerator_name kInvalidPhase = ''kInvalidPhase''"
| "enumerator_name kUnknownXHCISpeedID = ''kUnknownXHCISpeedID''"
| "enumerator_name kNoWaiter = ''kNoWaiter''"
| "enumerator_name kNoPCIMSI = ''kNoPCIMSI''"
| "enumerator_name kUnknownPixelFormat = ''kUnknownPixelFormat''"
| "enumerator_name kNoSuchTask = ''kNoSuchTask''"
| "enumerator_name kInvalidFormat = ''kInvalidFormat''"
| "enumerator_name kFrameTooSmall = ''kFrameTooSmall''"
| "enumerator_name kInvalidFile = ''kInvalidFile''"
| "enumerator_name kIsDirectory = ''kIsDirectory''"
| "enumerator_name kNoSuchEntry = ''kNoSuchEntry''"
| "enumerator_name kFreeTypeError = ''kFreeTypeError''"
| "enumerator_name kLastOfCode = ''kLastOfCode''"

lemma all_codes_complete: "c \<in> set all_codes"
  by (cases c) (simp_all add: all_codes_def)

lemma code_names_size: "length code_names = code_value kLastOfCode"
  by (simp add: code_names_def code_value_def all_codes_def)

text \<open>The printable name of an error code is the spelling of its enumerator exactly when the
  code is neither \<open>kNoSuchEntry\<close> nor \<open>kFreeTypeError\<close>; those two print each other's name, because
  the name table lists them in the opposite order. The sentinel \<open>kLastOfCode\<close> has no name.\<close>

theorem error_name_correct:
  "c \<noteq> kLastOfCode \<Longrightarrow>
     (error_name c = enumerator_name c \<longleftrightarrow> c \<noteq> kNoSuchEntry \<and> c \<noteq> kFreeTypeError)
   \<and> error_name kNoSuchEntry = enumerator_name kFreeTypeError
   \<and> error_name kFreeTypeError = enumerator_name kNoSuchEntry"
  by (cases c) (simp_all add: error_name_def code_value_def all_codes_def code_names_def)

theorem error_name_correct_witness: "error_name kNoSuchEntry \<noteq> enumerator_name kNoSuchEntry"
  using error_name_correct [of kNoSuchEntry] by simp

end
