(* ===== verification/Array_Queue.thy ===== *)
theory Array_Queue imports Kernel_Error begin

text \<open>
  \<^verbatim>\<open>Kernel/queue.hpp\<close>: the fixed-capacity ring queue \<^verbatim>\<open>ArrayQueue\<close>. The locale \<open>bounded_fifo\<close> is its
  contract (a list with room for a fixed number of elements); the record \<open>array_queue\<close> with
  \<open>aq_push\<close> and \<open>aq_pop\<close> is the code, and the interpretation at the end shows that the code
  keeps the contract.
\<close>

section \<open>The contract of a bounded FIFO queue\<close>

text \<open>Pushing a list of values one after the other, and draining a queue by \<open>front\<close> and \<open>pop\<close>.\<close>

fun push_all :: "('a \<Rightarrow> 'q \<Rightarrow> error_code \<times> 'q) \<Rightarrow> 'a list \<Rightarrow> 'q \<Rightarrow> 'q" where
  "push_all push [] q = q"
| "push_all push (v # vs) q = push_all push vs (snd (push v q))"

fun drain :: "('q \<Rightarrow> 'a) \<Rightarrow> ('q \<Rightarrow> error_code \<times> 'q) \<Rightarrow> nat \<Rightarrow> 'q \<Rightarrow> 'a list" where
  "drain front pop 0 q = []"
| "drain front pop (Suc n) q = front q # drain front pop n (snd (pop q))"

locale bounded_fifo =
  fixes push :: "'a \<Rightarrow> 'q \<Rightarrow> error_code \<times> 'q"
    and pop :: "'q \<Rightarrow> error_code \<times> 'q"
    and front :: "'q \<Rightarrow> 'a"
    and cap :: "'q \<Rightarrow> nat"
    and elems :: "'q \<Rightarrow> 'a list"
    and ok :: "'q \<Rightarrow> bool"
  assumes push_ok: "ok q \<Longrightarrow> ok (snd (push v q)) \<and> cap (snd (push v q)) = cap q"
    and push_room: "ok q \<Longrightarrow> length (elems q) < cap q \<Longrightarrow>
      fst (push v q) = kSuccess \<and> elems (snd (push v q)) = elems q @ [v]"
    and push_full: "ok q \<Longrightarrow> length (elems q) = cap q \<Longrightarrow> push v q = (kFull, q)"
    and pop_ok: "ok q \<Longrightarrow> ok (snd (pop q)) \<and> cap (snd (pop q)) = cap q"
    and pop_some: "ok q \<Longrightarrow> elems q \<noteq> [] \<Longrightarrow>
      fst (pop q) = kSuccess \<and> elems (snd (pop q)) = tl (elems q)"
    and pop_none: "ok q \<Longrightarrow> elems q = [] \<Longrightarrow> pop q = (kEmpty, q)"
    and front_hd: "ok q \<Longrightarrow> elems q \<noteq> [] \<Longrightarrow> front q = hd (elems q)"
    and elems_cap: "ok q \<Longrightarrow> length (elems q) \<le> cap q"
begin

lemma push_all_elems:
  "ok q \<Longrightarrow> ok (push_all push vs q) \<and> cap (push_all push vs q) = cap q \<and>
     elems (push_all push vs q) = elems q @ take (cap q - length (elems q)) vs"
proof (induction vs arbitrary: q)
  case Nil
  then show ?case by simp
next
  case (Cons v vs)
  note ok = push_ok [OF Cons.prems, of v]
  show ?case
  proof (cases "length (elems q) < cap q")
    case True
    with Cons.IH [of "snd (push v q)"] ok push_room [OF Cons.prems True, of v]
    show ?thesis by (simp add: Suc_diff_Suc flip: take_Suc_Cons)
  next
    case False
    with elems_cap [OF Cons.prems] have full: "length (elems q) = cap q" by simp
    with Cons.IH [OF Cons.prems] push_full [OF Cons.prems full, of v]
    show ?thesis by simp
  qed
qed

lemma drain_elems: "ok q \<Longrightarrow> n \<le> length (elems q) \<Longrightarrow> drain front pop n q = take n (elems q)"
proof (induction n arbitrary: q)
  case 0
  then show ?case by simp
next
  case (Suc n)
  then have ne: "elems q \<noteq> []" by auto
  with Suc pop_some [OF Suc.prems(1) ne] pop_ok [OF Suc.prems(1)] front_hd [OF Suc.prems(1) ne]
  show ?case by (cases "elems q") auto
qed

end

section \<open>ArrayQueue\<close>

(*@ Kernel/queue.hpp:4-19 ArrayQueue *)
record 'a array_queue =
  aq_data :: "'a list"
  aq_read_pos :: nat
  aq_write_pos :: nat
  aq_count :: nat
  aq_capacity :: nat

(*@ Kernel/queue.hpp:21-27 ArrayQueue::ArrayQueue *)
definition aq_new :: "'a list \<Rightarrow> 'a array_queue" where
  "aq_new buf = \<lparr>aq_data = buf, aq_read_pos = 0, aq_write_pos = 0, aq_count = 0,
     aq_capacity = length buf\<rparr>"

(*@ Kernel/queue.hpp:29-43 ArrayQueue::Push *)
definition aq_push :: "'a \<Rightarrow> 'a array_queue \<Rightarrow> error_code \<times> 'a array_queue" where
  "aq_push v q =
    (if aq_count q = aq_capacity q then (kFull, q)
     else
       let q1 = q\<lparr>aq_data := (aq_data q)[aq_write_pos q := v], aq_count := aq_count q + 1,
                  aq_write_pos := aq_write_pos q + 1\<rparr>
       in (kSuccess,
           if aq_write_pos q1 = aq_capacity q1 then q1\<lparr>aq_write_pos := 0\<rparr> else q1))"

(*@ Kernel/queue.hpp:45-57 ArrayQueue::Pop *)
definition aq_pop :: "'a array_queue \<Rightarrow> error_code \<times> 'a array_queue" where
  "aq_pop q =
    (if aq_count q = 0 then (kEmpty, q)
     else
       let q1 = q\<lparr>aq_count := aq_count q - 1, aq_read_pos := aq_read_pos q + 1\<rparr>
       in (kSuccess,
           if aq_read_pos q1 = aq_capacity q1 then q1\<lparr>aq_read_pos := 0\<rparr> else q1))"

(*@ Kernel/queue.hpp:69-72 ArrayQueue::Front *)
definition aq_front :: "'a array_queue \<Rightarrow> 'a" where
  "aq_front q = aq_data q ! aq_read_pos q"

definition aq_inv :: "'a array_queue \<Rightarrow> bool" where
  "aq_inv q \<longleftrightarrow> length (aq_data q) = aq_capacity q \<and> aq_count q \<le> aq_capacity q \<and>
     (0 < aq_capacity q \<longrightarrow> aq_read_pos q < aq_capacity q \<and>
        aq_write_pos q = (aq_read_pos q + aq_count q) mod aq_capacity q)"

definition aq_elems :: "'a array_queue \<Rightarrow> 'a list" where
  "aq_elems q =
     map (\<lambda>i. aq_data q ! ((aq_read_pos q + i) mod aq_capacity q)) [0..<aq_count q]"

lemma aq_new_inv: "aq_inv (aq_new buf)" and aq_new_elems: "aq_elems (aq_new buf) = []"
  by (auto simp: aq_inv_def aq_new_def aq_elems_def)

lemma aq_push_room:
  assumes "aq_inv q" "aq_count q < aq_capacity q"
  shows "fst (aq_push v q) = kSuccess" "aq_inv (snd (aq_push v q))"
    "aq_elems (snd (aq_push v q)) = aq_elems q @ [v]" "aq_capacity (snd (aq_push v q)) = aq_capacity q"
proof -
  let ?c = "aq_capacity q" and ?r = "aq_read_pos q" and ?n = "aq_count q"
  have c: "0 < ?c" and w: "aq_write_pos q = (?r + ?n) mod ?c" and len: "length (aq_data q) = ?c"
    using assms by (auto simp: aq_inv_def)
  have wl: "aq_write_pos q < ?c" using w c by simp
  show "fst (aq_push v q) = kSuccess" "aq_capacity (snd (aq_push v q)) = ?c"
    using assms by (auto simp: aq_push_def Let_def)
  have next_w: "Suc ((?r + ?n) mod ?c) mod ?c = Suc (?r + ?n) mod ?c" by (simp add: mod_Suc_eq)
  show "aq_inv (snd (aq_push v q))"
    using assms wl w ring_next [OF wl] next_w by (auto simp: aq_push_def aq_inv_def Let_def split: if_splits)
  have keep: "(aq_data q)[aq_write_pos q := v] ! ((?r + i) mod ?c) = aq_data q ! ((?r + i) mod ?c)"
    if "i < ?n" for i
    using that assms(2) w ring_index_inj [of i ?c ?n ?r] by auto
  have last: "(aq_data q)[aq_write_pos q := v] ! ((?r + ?n) mod ?c) = v"
    using wl len w by simp
  show "aq_elems (snd (aq_push v q)) = aq_elems q @ [v]"
    using assms(2) keep last by (auto simp: aq_push_def aq_elems_def Let_def)
qed

lemma aq_pop_some:
  assumes "aq_inv q" "0 < aq_count q"
  shows "fst (aq_pop q) = kSuccess" "aq_inv (snd (aq_pop q))"
    "aq_elems (snd (aq_pop q)) = tl (aq_elems q)" "aq_capacity (snd (aq_pop q)) = aq_capacity q"
proof -
  let ?c = "aq_capacity q" and ?r = "aq_read_pos q" and ?n = "aq_count q"
  have c: "0 < ?c" and r: "?r < ?c" and w: "aq_write_pos q = (?r + ?n) mod ?c"
    using assms by (auto simp: aq_inv_def)
  show "fst (aq_pop q) = kSuccess" "aq_capacity (snd (aq_pop q)) = ?c"
    using assms by (auto simp: aq_pop_def Let_def)
  have shift: "(Suc ?r mod ?c + i) mod ?c = (?r + Suc i) mod ?c" for i
    by (simp add: mod_add_left_eq)
  have r': "aq_read_pos (snd (aq_pop q)) = Suc ?r mod ?c"
    using assms ring_next [OF r] by (auto simp: aq_pop_def Let_def split: if_splits)
  have rest: "aq_count (snd (aq_pop q)) = ?n - 1" "aq_data (snd (aq_pop q)) = aq_data q"
    "aq_write_pos (snd (aq_pop q)) = aq_write_pos q" "aq_capacity (snd (aq_pop q)) = ?c"
    using assms by (auto simp: aq_pop_def Let_def)
  show "aq_inv (snd (aq_pop q))"
    using assms c w shift [of "?n - 1"] by (auto simp: aq_inv_def r' rest)
  show "aq_elems (snd (aq_pop q)) = tl (aq_elems q)"
    unfolding aq_elems_def r' rest shift
    using assms(2) by (intro nth_equalityI) (auto simp: nth_tl)
qed

lemma aq_elems_length [simp]: "length (aq_elems q) = aq_count q"
  by (simp add: aq_elems_def)

lemma aq_elems_Nil_iff: "aq_elems q = [] \<longleftrightarrow> aq_count q = 0"
  by (simp add: aq_elems_def)

interpretation aq: bounded_fifo aq_push aq_pop aq_front aq_capacity aq_elems aq_inv
proof unfold_locales
  fix q :: "'a array_queue" and v
  assume q: "aq_inv q"
  then have le: "aq_count q \<le> aq_capacity q" by (simp add: aq_inv_def)
  show "aq_inv (snd (aq_push v q)) \<and> aq_capacity (snd (aq_push v q)) = aq_capacity q"
    using q le aq_push_room [OF q]
    by (cases "aq_count q = aq_capacity q") (auto simp: aq_push_def)
  show "aq_inv (snd (aq_pop q)) \<and> aq_capacity (snd (aq_pop q)) = aq_capacity q"
    using q aq_pop_some [OF q] by (cases "aq_count q = 0") (auto simp: aq_pop_def)
  show "length (aq_elems q) \<le> aq_capacity q" using le by simp
  show "aq_front q = hd (aq_elems q)" if "aq_elems q \<noteq> []"
    using that q by (auto simp: aq_front_def aq_elems_def aq_inv_def hd_map)
qed (simp_all add: aq_push_room aq_pop_some aq_elems_Nil_iff, simp_all add: aq_push_def aq_pop_def)

text \<open>The ring queue is a FIFO: from a new queue over a buffer, after pushing any list of
  values (those that find the queue full are refused with \<open>kFull\<close> and change nothing), taking
  \<open>Front\<close> and \<open>Pop\<close> as often as there are elements returns the first \<open>capacity\<close> of the pushed
  values in the order they were pushed.\<close>

theorem array_queue_fifo:
  "drain aq_front aq_pop (min (length buf) (length vs)) (push_all aq_push vs (aq_new buf)) =
     take (length buf) vs"
proof -
  let ?q = "push_all aq_push vs (aq_new buf)"
  note p = aq.push_all_elems [OF aq_new_inv, of vs buf]
  have cap: "aq_capacity (aq_new buf) = length buf" by (simp add: aq_new_def)
  have el: "aq_elems ?q = take (length buf) vs"
    using p by (simp only: aq_new_elems cap) simp
  have "length (aq_elems ?q) = min (length buf) (length vs)"
    unfolding el by simp
  then have "drain aq_front aq_pop (min (length buf) (length vs)) ?q = take (min (length buf) (length vs)) (aq_elems ?q)"
    using aq.drain_elems [of ?q "min (length buf) (length vs)"] p by linarith
  then show ?thesis by (simp only: el) (simp add: min_def)
qed

end
