(* ===== verification/Array_Map.thy ===== *)
theory Array_Map imports Prelude begin

text \<open>
  \<^verbatim>\<open>Kernel/usb/arraymap.hpp\<close>: the fixed-size association table \<^verbatim>\<open>ArrayMap\<close> of the USB stack. Its
  slots are a list of optional keys with values. The locale \<open>waiter_map\<close> is what the USB device
  code needs of it: a request that is put while its key is unused and a slot is free is found
  again, and deleting it restores the map.
\<close>

section \<open>The contract\<close>

locale waiter_map =
  fixes get :: "'m \<Rightarrow> 'k \<Rightarrow> 'v option"
    and put :: "'m \<Rightarrow> 'k \<Rightarrow> 'v \<Rightarrow> 'm"
    and del :: "'m \<Rightarrow> 'k \<Rightarrow> 'm"
    and free :: "'m \<Rightarrow> nat"
    and ok :: "'m \<Rightarrow> bool"
  assumes put_ok: "ok m \<Longrightarrow> get m k = None \<Longrightarrow> ok (put m k v)"
    and del_ok: "ok m \<Longrightarrow> ok (del m k)"
    and get_put: "ok m \<Longrightarrow> get m k = None \<Longrightarrow> 0 < free m \<Longrightarrow>
      get (put m k v) = (get m)(k := Some v)"
    and get_del: "ok m \<Longrightarrow> get (del m k) = (get m)(k := None)"
    and free_put: "ok m \<Longrightarrow> free (put m k v) = free m - 1"
    and put_full: "free m = 0 \<Longrightarrow> put m k v = m"
begin

text \<open>Registering a batch of waiters with distinct fresh keys.\<close>

lemma get_fold_put:
  assumes "ok m" "length kvs \<le> free m" "distinct (map fst kvs)"
    "\<forall>(k, v) \<in> set kvs. get m k = None"
  shows "ok (fold (\<lambda>(k, v) m. put m k v) kvs m) \<and>
    get (fold (\<lambda>(k, v) m. put m k v) kvs m) = (\<lambda>x. case map_of kvs x of None \<Rightarrow> get m x | Some v \<Rightarrow> Some v)"
  using assms
proof (induction kvs arbitrary: m)
  case Nil
  then show ?case by simp
next
  case (Cons kv kvs)
  obtain k v where kv: "kv = (k, v)" by (cases kv)
  have k: "get m k = None" "0 < free m" using Cons.prems kv by auto
  have gp: "get (put m k v) = (get m)(k := Some v)"
    using get_put Cons.prems(1) k by blast
  have "\<forall>(k', v') \<in> set kvs. get (put m k v) k' = None"
    using Cons.prems(3,4) kv gp by (auto simp: rev_image_eqI)
  with Cons.IH [of "put m k v"] Cons.prems k kv gp put_ok free_put
  show ?case by (auto simp: fun_eq_iff rev_image_eqI split: option.splits)
qed

lemma put_del_restores:
  "ok m \<Longrightarrow> get m k = None \<Longrightarrow> 0 < free m \<Longrightarrow> get (del (put m k v) k) = get m"
  by (simp add: get_del put_ok get_put fun_upd_idem)

end

section \<open>ArrayMap\<close>

(*@ Kernel/usb/arraymap.hpp:44-45 ArrayMap::table_ *)
type_synonym ('k, 'v) array_map = "('k option \<times> 'v) list"

(*@ Kernel/usb/arraymap.hpp:16-23 ArrayMap::Get *)
fun am_get :: "('k, 'v) array_map \<Rightarrow> 'k \<Rightarrow> 'v option" where
  "am_get [] key = None"
| "am_get ((opt_k, v) # t) key = (if opt_k = Some key then Some v else am_get t key)"

(*@ Kernel/usb/arraymap.hpp:25-33 ArrayMap::Put *)
fun am_put :: "('k, 'v) array_map \<Rightarrow> 'k \<Rightarrow> 'v \<Rightarrow> ('k, 'v) array_map" where
  "am_put [] key val = []"
| "am_put ((opt_k, v) # t) key val =
    (if opt_k = None then (Some key, val) # t else (opt_k, v) # am_put t key val)"

(*@ Kernel/usb/arraymap.hpp:35-42 ArrayMap::Delete *)
fun am_delete :: "('k, 'v) array_map \<Rightarrow> 'k \<Rightarrow> ('k, 'v) array_map" where
  "am_delete [] key = []"
| "am_delete ((opt_k, v) # t) key =
    (if opt_k = Some key then (None, v) # t else (opt_k, v) # am_delete t key)"

definition am_keys :: "('k, 'v) array_map \<Rightarrow> 'k list" where
  "am_keys t = List.map_filter fst t"

definition am_free :: "('k, 'v) array_map \<Rightarrow> nat" where
  "am_free t = length (filter (\<lambda>s. fst s = None) t)"

definition am_inv :: "('k, 'v) array_map \<Rightarrow> bool" where
  "am_inv t \<longleftrightarrow> distinct (am_keys t)"

lemma am_keys_simps [simp]:
  "am_keys [] = []"
  "am_keys ((opt_k, v) # t) = (case opt_k of None \<Rightarrow> am_keys t | Some k \<Rightarrow> k # am_keys t)"
  by (simp_all add: am_keys_def map_filter_simps split: option.split)

lemma am_free_simps [simp]:
  "am_free [] = 0"
  "am_free ((opt_k, v) # t) = (case opt_k of None \<Rightarrow> Suc (am_free t) | Some k \<Rightarrow> am_free t)"
  by (simp_all add: am_free_def split: option.split)

lemma am_get_None: "am_get t k = None \<longleftrightarrow> k \<notin> set (am_keys t)"
  by (induction t k rule: am_get.induct) (auto split: option.splits)

lemma am_put_size: "length (am_put t k v) = length t"
  by (induction t k v rule: am_put.induct) auto

lemma am_delete_size: "length (am_delete t k) = length t"
  by (induction t k rule: am_delete.induct) auto

lemma am_put_full: "am_free t = 0 \<Longrightarrow> am_put t k v = t"
  by (induction t k v rule: am_put.induct) (auto split: option.splits)

lemma am_put_free: "am_free (am_put t k v) = am_free t - 1"
  by (induction t k v rule: am_put.induct) (auto split: option.splits)

lemma am_put_keys: "set (am_keys (am_put t k v)) = set (am_keys t) \<union> (if am_free t = 0 then {} else {k})"
  by (induction t k v rule: am_put.induct) (auto split: option.splits)

lemma am_put_inv: "am_inv t \<Longrightarrow> k \<notin> set (am_keys t) \<Longrightarrow> am_inv (am_put t k v)"
  by (induction t k v rule: am_put.induct)
    (auto simp: am_inv_def am_put_keys split: option.splits if_splits)

lemma am_get_put_fresh:
  "k \<notin> set (am_keys t) \<Longrightarrow> 0 < am_free t \<Longrightarrow> am_get (am_put t k v) x = (if x = k then Some v else am_get t x)"
  by (induction t k v rule: am_put.induct) (auto split: option.splits)

lemma am_delete_keys: "am_inv t \<Longrightarrow> set (am_keys (am_delete t k)) = set (am_keys t) - {k}"
  by (induction t k rule: am_delete.induct) (auto simp: am_inv_def split: option.splits)

lemma am_delete_inv: "am_inv t \<Longrightarrow> am_inv (am_delete t k)"
  by (induction t k rule: am_delete.induct)
    (auto simp: am_inv_def am_delete_keys [unfolded am_inv_def] split: option.splits)

lemma am_get_delete: "am_inv t \<Longrightarrow> am_get (am_delete t k) x = (if x = k then None else am_get t x)"
  by (induction t k rule: am_delete.induct) (auto simp: am_inv_def am_get_None split: option.splits)

interpretation amap: waiter_map am_get am_put am_delete am_free am_inv
  by unfold_locales
    (auto simp: am_put_inv am_delete_inv am_get_put_fresh am_get_delete am_put_free am_put_full
      am_get_None [symmetric] fun_eq_iff)

end
