(* ===== verification/Memory_Manager.thy ===== *)
theory Memory_Manager imports Kernel_Error begin

text \<open>
  \<^verbatim>\<open>Kernel/memory_map.hpp\<close>, \<^verbatim>\<open>Kernel/memory_manager.{hpp,cpp}\<close> and the heap of
  \<^verbatim>\<open>Kernel/newlib_support.c\<close>: the physical frame allocator on a bitmap, its initialisation from the
  firmware's memory map, and \<^verbatim>\<open>sbrk\<close>. Frame numbers and physical addresses are naturals (the
  map describes real memory, far below \<open>2 ^ 64\<close>); the bitmap lines are 64-bit words. A bit of a
  frame past the bitmap is an out-of-bounds access in the code; every theorem about a bit carries
  the bound \<open>frame < frame_capacity\<close>.

  The locale \<open>frame_allocator\<close> is the contract that paging and the task segment rely on.
\<close>

section \<open>The contract of a frame allocator\<close>

locale frame_allocator =
  fixes alloc :: "'m \<Rightarrow> nat \<Rightarrow> nat result \<times> 'm"
    and dealloc :: "'m \<Rightarrow> nat \<Rightarrow> nat \<Rightarrow> 'm"
    and used :: "'m \<Rightarrow> nat set"
    and lo :: "'m \<Rightarrow> nat"
    and hi :: "'m \<Rightarrow> nat"
    and ok :: "'m \<Rightarrow> bool"
  assumes alloc_fresh: "ok m \<Longrightarrow> alloc m n = (Inr s, m') \<Longrightarrow>
      lo m \<le> s \<and> (0 < n \<longrightarrow> s + n \<le> hi m) \<and> {s..<s + n} \<inter> used m = {}"
    and alloc_used: "ok m \<Longrightarrow> alloc m n = (Inr s, m') \<Longrightarrow> used m' = used m \<union> {s..<s + n}"
    and alloc_keeps: "ok m \<Longrightarrow> alloc m n = (r, m') \<Longrightarrow> ok m' \<and> lo m' = lo m \<and> hi m' = hi m"
    and alloc_fail: "ok m \<Longrightarrow> alloc m n = (Inl e, m') \<Longrightarrow> e = kNoEnoughMemory \<and> m' = m"
    and alloc_fail_iff: "ok m \<Longrightarrow> (\<exists>e. fst (alloc m n) = Inl e) \<longleftrightarrow>
      0 < n \<and> (\<nexists>s. lo m \<le> s \<and> s + n \<le> hi m \<and> {s..<s + n} \<inter> used m = {})"
    and dealloc_used: "ok m \<Longrightarrow> s + n \<le> hi m \<Longrightarrow> used (dealloc m s n) = used m - {s..<s + n}"
    and dealloc_keeps: "ok m \<Longrightarrow> s + n \<le> hi m \<Longrightarrow>
      ok (dealloc m s n) \<and> lo (dealloc m s n) = lo m \<and> hi (dealloc m s n) = hi m"
begin

lemma alloc_dealloc:
  assumes "ok m" "alloc m n = (Inr s, m')" "0 < n"
  shows "used (dealloc m' s n) = used m"
  using alloc_fresh [OF assms(1,2)] alloc_used [OF assms(1,2)] alloc_keeps [OF assms(1,2)] assms(3)
  by (subst dealloc_used) auto

lemma alloc_disjoint:
  assumes "ok m" "alloc m n = (Inr s, m1)" "alloc m1 k = (Inr t, m2)"
  shows "{s..<s + n} \<inter> {t..<t + k} = {}"
proof -
  have "{t..<t + k} \<inter> used m1 = {}"
    using alloc_fresh [of m1 k t m2] alloc_keeps [OF assms(1,2)] assms(3) by simp
  then show ?thesis
    unfolding alloc_used [OF assms(1,2)] by blast
qed

end

section \<open>The firmware's memory map\<close>

(*@ Kernel/memory_map.hpp:14-20 MemoryDescriptor *)
record memory_descriptor =
  md_type :: u32
  md_physical_start :: nat
  md_number_of_pages :: nat

(*@ Kernel/memory_map.hpp:23-40 MemoryType *)
datatype memory_type =
    kEfiReservedMemoryType | kEfiLoaderCode | kEfiLoaderData | kEfiBootServicesCode
  | kEfiBootServicesData | kEfiRuntimeServicesCode | kEfiRuntimeServicesData
  | kEfiConventionalMemory | kEfiUnusableMemory | kEfiACPIReclaimMemory | kEfiACPIMemoryNVS
  | kEfiMemoryMappedIO | kEfiMemoryMappedIOPortSpace | kEfiPalCode | kEfiPersistentMemory
  | kEfiMaxMemoryType

fun memory_type_value :: "memory_type \<Rightarrow> u32" where
  "memory_type_value kEfiReservedMemoryType = 0"
| "memory_type_value kEfiLoaderCode = 1"
| "memory_type_value kEfiLoaderData = 2"
| "memory_type_value kEfiBootServicesCode = 3"
| "memory_type_value kEfiBootServicesData = 4"
| "memory_type_value kEfiRuntimeServicesCode = 5"
| "memory_type_value kEfiRuntimeServicesData = 6"
| "memory_type_value kEfiConventionalMemory = 7"
| "memory_type_value kEfiUnusableMemory = 8"
| "memory_type_value kEfiACPIReclaimMemory = 9"
| "memory_type_value kEfiACPIMemoryNVS = 10"
| "memory_type_value kEfiMemoryMappedIO = 11"
| "memory_type_value kEfiMemoryMappedIOPortSpace = 12"
| "memory_type_value kEfiPalCode = 13"
| "memory_type_value kEfiPersistentMemory = 14"
| "memory_type_value kEfiMaxMemoryType = 15"

(*@ Kernel/memory_map.hpp:50-55 IsAvailable *)
definition is_available :: "u32 \<Rightarrow> bool" where
  "is_available ty \<longleftrightarrow>
     ty = memory_type_value kEfiBootServicesCode \<or>
     ty = memory_type_value kEfiBootServicesData \<or>
     ty = memory_type_value kEfiConventionalMemory"

(*@ Kernel/memory_map.hpp:56-56 kUEFIPageSize *)
definition kUEFIPageSize :: nat where "kUEFIPageSize = 4096"

section \<open>BitmapMemoryManager\<close>

(*@ Kernel/memory_manager.hpp:15-30 kBytesPerFrame *)
definition kBytesPerFrame :: nat where "kBytesPerFrame = 4 * 1024"

(*@ Kernel/memory_manager.hpp:58-61 BitmapMemoryManager::kFrameCount *)
definition kFrameCount :: nat where "kFrameCount = 128 * 1024 * 1024 * 1024 div kBytesPerFrame"

(*@ Kernel/memory_manager.hpp:63-66 BitmapMemoryManager::kBitsPerMapLine *)
definition kBitsPerMapLine :: nat where "kBitsPerMapLine = 64"

(*@ Kernel/memory_manager.hpp:32-40 FrameID::Frame *)
definition frame_address :: "nat \<Rightarrow> nat" where
  "frame_address frame = frame * kBytesPerFrame"

(*@ Kernel/memory_manager.hpp:44-47 MemoryStat *)
record memory_stat =
  allocated_frames :: nat
  total_frames :: nat

(*@ Kernel/memory_manager.hpp:56-93 BitmapMemoryManager *)
record memory_manager =
  alloc_map :: "u64 list"
  range_begin :: nat
  range_end :: nat

(*@ Kernel/memory_manager.cpp:6-8 BitmapMemoryManager::BitmapMemoryManager *)
definition new_memory_manager :: memory_manager where
  "new_memory_manager =
     \<lparr>alloc_map = replicate (kFrameCount div kBitsPerMapLine) 0, range_begin = 0, range_end = kFrameCount\<rparr>"

(*@ Kernel/memory_manager.cpp:56-61 BitmapMemoryManager::GetBit *)
definition get_bit :: "memory_manager \<Rightarrow> nat \<Rightarrow> bool" where
  "get_bit m frame =
    (let line_index = frame div kBitsPerMapLine; bit_index = frame mod kBitsPerMapLine
     in (alloc_map m ! line_index) AND push_bit bit_index 1 \<noteq> 0)"

(*@ Kernel/memory_manager.cpp:63-72 BitmapMemoryManager::SetBit *)
definition set_bit_frame :: "memory_manager \<Rightarrow> nat \<Rightarrow> bool \<Rightarrow> memory_manager" where
  "set_bit_frame m frame allocated =
    (let line_index = frame div kBitsPerMapLine; bit_index = frame mod kBitsPerMapLine;
         line = alloc_map m ! line_index
     in m\<lparr>alloc_map := (alloc_map m)[line_index :=
            if allocated then line OR push_bit bit_index 1
            else line AND NOT (push_bit bit_index 1)]\<rparr>)"

(*@ Kernel/memory_manager.cpp:44-48 BitmapMemoryManager::MarkAllocated *)
definition mark_allocated :: "memory_manager \<Rightarrow> nat \<Rightarrow> nat \<Rightarrow> memory_manager" where
  "mark_allocated m start n = fold (\<lambda>i m. set_bit_frame m (start + i) True) [0..<n] m"

(*@ Kernel/memory_manager.cpp:37-42 BitmapMemoryManager::Free *)
definition free_frames :: "memory_manager \<Rightarrow> nat \<Rightarrow> nat \<Rightarrow> memory_manager" where
  "free_frames m start n = fold (\<lambda>i m. set_bit_frame m (start + i) False) [0..<n] m"

text \<open>The inner loop of \<^verbatim>\<open>Allocate\<close>: it leaves the range, stops at a used frame, or finds \<open>n\<close> free
  frames.\<close>

datatype scan_result = Scan_End | Scan_Hit nat | Scan_Free

(*@ Kernel/memory_manager.cpp:14-24 BitmapMemoryManager::Allocate *)
function alloc_scan :: "memory_manager \<Rightarrow> nat \<Rightarrow> nat \<Rightarrow> nat \<Rightarrow> scan_result" where
  "alloc_scan m start n i =
    (if i < n then
       if range_end m \<le> start + i then Scan_End
       else if get_bit m (start + i) then Scan_Hit i
       else alloc_scan m start n (i + 1)
     else Scan_Free)"
  by pat_completeness auto
termination
  by (relation "measure (\<lambda>(m, start, n, i). n - i)") auto

declare alloc_scan.simps [simp del]

lemma alloc_scan_cases:
  "case alloc_scan m start n i of
     Scan_End \<Rightarrow> (\<forall>j. i \<le> j \<longrightarrow> start + j < range_end m \<longrightarrow> j < n \<longrightarrow> \<not> get_bit m (start + j)) \<and> i < n \<and> range_end m < start + n
   | Scan_Hit j \<Rightarrow> i \<le> j \<and> j < n \<and> start + j < range_end m \<and> get_bit m (start + j)
   | Scan_Free \<Rightarrow> \<forall>j. i \<le> j \<longrightarrow> j < n \<longrightarrow> start + j < range_end m \<and> \<not> get_bit m (start + j)"
proof (induction m start n i rule: alloc_scan.induct)
  case (1 m start n i)
  have split_j: "(i::nat) \<le> j \<Longrightarrow> j = i \<or> i + 1 \<le> j" for j by auto
  show ?case
  proof (cases "i < n \<and> start + i < range_end m \<and> \<not> get_bit m (start + i)")
    case True
    with 1 have "case alloc_scan m start n (i + 1) of
     Scan_End \<Rightarrow> (\<forall>j. i + 1 \<le> j \<longrightarrow> start + j < range_end m \<longrightarrow> j < n \<longrightarrow> \<not> get_bit m (start + j)) \<and> i + 1 < n \<and> range_end m < start + n
   | Scan_Hit j \<Rightarrow> i + 1 \<le> j \<and> j < n \<and> start + j < range_end m \<and> get_bit m (start + j)
   | Scan_Free \<Rightarrow> \<forall>j. i + 1 \<le> j \<longrightarrow> j < n \<longrightarrow> start + j < range_end m \<and> \<not> get_bit m (start + j)"
      by auto
    moreover have "alloc_scan m start n i = alloc_scan m start n (i + 1)"
      using True by (simp add: alloc_scan.simps [of m start n i])
    ultimately show ?thesis
      using True by (auto split: scan_result.splits dest!: split_j)
  next
    case False
    then show ?thesis by (auto simp: alloc_scan.simps [of m start n i])
  qed
qed

text \<open>The outer loop: after a used frame at offset \<open>i\<close> the search goes on behind it.\<close>

(*@ Kernel/memory_manager.cpp:13-34 BitmapMemoryManager::Allocate *)
function alloc_from :: "memory_manager \<Rightarrow> nat \<Rightarrow> nat \<Rightarrow> nat result \<times> memory_manager" where
  "alloc_from m n start =
    (case alloc_scan m start n 0 of
       Scan_End \<Rightarrow> (Inl kNoEnoughMemory, m)
     | Scan_Free \<Rightarrow> (Inr start, mark_allocated m start n)
     | Scan_Hit i \<Rightarrow> alloc_from m n (start + i + 1))"
  by pat_completeness auto
termination
proof (relation "measure (\<lambda>(m, n, start). range_end m - start)")
  fix m n start i
  assume "alloc_scan m start n 0 = Scan_Hit i"
  with alloc_scan_cases [where m = m and start = start and n = n and i = 0]
  show "((m, n, start + i + 1), (m, n, start)) \<in> measure (\<lambda>(m, n, start). range_end m - start)"
    by auto
qed simp

declare alloc_from.simps [simp del]

(*@ Kernel/memory_manager.cpp:11-35 BitmapMemoryManager::Allocate *)
definition allocate :: "memory_manager \<Rightarrow> nat \<Rightarrow> nat result \<times> memory_manager" where
  "allocate m num_frames = alloc_from m num_frames (range_begin m)"

(*@ Kernel/memory_manager.cpp:51-54 BitmapMemoryManager::SetMemoryRange *)
definition set_memory_range :: "memory_manager \<Rightarrow> nat \<Rightarrow> nat \<Rightarrow> memory_manager" where
  "set_memory_range m b e = m\<lparr>range_begin := b, range_end := e\<rparr>"

definition line_count :: "u64 \<Rightarrow> nat" where
  "line_count w = length (filter (bit w) [0..<64])"

(*@ Kernel/memory_manager.cpp:74-81 BitmapMemoryManager::Stat *)
definition stat_frames :: "memory_manager \<Rightarrow> memory_stat" where
  "stat_frames m =
     \<lparr>allocated_frames =
        fold (\<lambda>i sum. sum + line_count (alloc_map m ! i))
          [range_begin m div kBitsPerMapLine..<range_end m div kBitsPerMapLine] 0,
      total_frames = range_end m - range_begin m\<rparr>"


section \<open>Bits of the map\<close>

definition frame_capacity :: "memory_manager \<Rightarrow> nat" where
  "frame_capacity m = kBitsPerMapLine * length (alloc_map m)"

definition used_frames :: "memory_manager \<Rightarrow> nat set" where
  "used_frames m = {f. f < frame_capacity m \<and> get_bit m f}"

definition mm_inv :: "memory_manager \<Rightarrow> bool" where
  "mm_inv m \<longleftrightarrow> range_end m \<le> frame_capacity m"

lemma get_bit_alt: "get_bit m f = bit (alloc_map m ! (f div 64)) (f mod 64)"
  by (simp add: get_bit_def Let_def kBitsPerMapLine_def bit_iff_and_push_bit_not_eq_0)

lemma set_bit_frame_keeps [simp]:
  "length (alloc_map (set_bit_frame m f b)) = length (alloc_map m)"
  "range_begin (set_bit_frame m f b) = range_begin m"
  "range_end (set_bit_frame m f b) = range_end m"
  "frame_capacity (set_bit_frame m f b) = frame_capacity m"
  by (simp_all add: set_bit_frame_def Let_def frame_capacity_def)

lemma div_mod_64_eq: "(f::nat) div 64 = g div 64 \<Longrightarrow> f mod 64 = g mod 64 \<Longrightarrow> f = g"
  by (metis div_mult_mod_eq)

lemma get_bit_set_bit_frame:
  assumes "f < frame_capacity m"
  shows "get_bit (set_bit_frame m f b) g = (if g = f then b else get_bit m g)"
proof -
  have len: "f div 64 < length (alloc_map m)"
    using assms by (simp add: frame_capacity_def kBitsPerMapLine_def less_mult_imp_div_less mult.commute)
  show ?thesis
  proof (cases "f div 64 = g div 64")
    case True
    then have "(g = f) = (f mod 64 = g mod 64)" using div_mod_64_eq [of f g] by auto
    with True len show ?thesis
      by (auto simp: get_bit_alt set_bit_frame_def Let_def kBitsPerMapLine_def bit_set_word bit_clear_word)
  next
    case False
    then have "g \<noteq> f" by auto
    with False show ?thesis
      by (simp add: get_bit_alt set_bit_frame_def Let_def kBitsPerMapLine_def)
  qed
qed

lemma fold_set_bit_frame:
  assumes "start + n \<le> frame_capacity m"
  shows "(\<forall>g. get_bit (fold (\<lambda>i m. set_bit_frame m (start + i) b) [0..<n] m) g
      = (if start \<le> g \<and> g < start + n then b else get_bit m g))
    \<and> frame_capacity (fold (\<lambda>i m. set_bit_frame m (start + i) b) [0..<n] m) = frame_capacity m
    \<and> range_begin (fold (\<lambda>i m. set_bit_frame m (start + i) b) [0..<n] m) = range_begin m
    \<and> range_end (fold (\<lambda>i m. set_bit_frame m (start + i) b) [0..<n] m) = range_end m"
  using assms
proof (induction n)
  case 0
  then show ?case by auto
next
  case (Suc n)
  then show ?case by (auto simp: get_bit_set_bit_frame)
qed

lemma get_bit_mark_allocated:
  "start + n \<le> frame_capacity m \<Longrightarrow>
     get_bit (mark_allocated m start n) g \<longleftrightarrow> (start \<le> g \<and> g < start + n) \<or> get_bit m g"
  using fold_set_bit_frame [of start n m True] by (auto simp: mark_allocated_def)

lemma get_bit_free_frames:
  "start + n \<le> frame_capacity m \<Longrightarrow>
     get_bit (free_frames m start n) g \<longleftrightarrow> \<not> (start \<le> g \<and> g < start + n) \<and> get_bit m g"
  using fold_set_bit_frame [of start n m False] by (auto simp: free_frames_def)

lemma fold_set_bit_keeps:
  "length (alloc_map (fold (\<lambda>i m. set_bit_frame m (start + i) b) is m)) = length (alloc_map m)"
  "range_begin (fold (\<lambda>i m. set_bit_frame m (start + i) b) is m) = range_begin m"
  "range_end (fold (\<lambda>i m. set_bit_frame m (start + i) b) is m) = range_end m"
  by (induction "is" arbitrary: m) simp_all

lemma mark_allocated_keeps [simp]:
  "range_begin (mark_allocated m s n) = range_begin m" "range_end (mark_allocated m s n) = range_end m"
  "frame_capacity (mark_allocated m s n) = frame_capacity m"
  by (simp_all add: mark_allocated_def frame_capacity_def fold_set_bit_keeps)

lemma free_frames_keeps [simp]:
  "range_begin (free_frames m s n) = range_begin m" "range_end (free_frames m s n) = range_end m"
  "frame_capacity (free_frames m s n) = frame_capacity m"
  by (simp_all add: free_frames_def frame_capacity_def fold_set_bit_keeps)

lemma used_mark_allocated:
  "start + n \<le> frame_capacity m \<Longrightarrow> used_frames (mark_allocated m start n) = used_frames m \<union> {start..<start + n}"
  by (auto simp: used_frames_def get_bit_mark_allocated)

lemma used_free_frames:
  "start + n \<le> frame_capacity m \<Longrightarrow> used_frames (free_frames m start n) = used_frames m - {start..<start + n}"
  by (auto simp: used_frames_def get_bit_free_frames)

section \<open>First fit\<close>

text \<open>What \<^verbatim>\<open>Allocate\<close> looks for: a start in the range from which \<open>n\<close> frames are in the range and
  free. The naive search tries every start; the code skips past each used frame it meets.\<close>

definition fits :: "memory_manager \<Rightarrow> nat \<Rightarrow> nat \<Rightarrow> bool" where
  "fits m n s \<longleftrightarrow> range_begin m \<le> s \<and> (\<forall>i<n. s + i < range_end m \<and> \<not> get_bit m (s + i))"

lemma fits_iff:
  "mm_inv m \<Longrightarrow> 0 < n \<Longrightarrow>
     fits m n s \<longleftrightarrow> range_begin m \<le> s \<and> s + n \<le> range_end m \<and> {s..<s + n} \<inter> used_frames m = {}"
proof -
  assume inv: "mm_inv m" and n: "0 < n"
  have "(\<forall>i<n. s + i < range_end m) \<longleftrightarrow> s + n \<le> range_end m"
    using n by (auto dest: spec [of _ "n - 1"])
  moreover have "(\<forall>i<n. \<not> get_bit m (s + i)) \<longleftrightarrow> (\<forall>f\<in>{s..<s + n}. \<not> get_bit m f)"
    by (auto simp: le_iff_add)
  ultimately show ?thesis
    using inv by (fastforce simp: fits_def used_frames_def mm_inv_def)
qed

lemma alloc_from_spec:
  assumes "range_begin m \<le> start" "\<forall>s. fits m n s \<longrightarrow> start \<le> s"
  shows "case alloc_from m n start of
      (Inl e, m') \<Rightarrow> e = kNoEnoughMemory \<and> m' = m \<and> (\<nexists>s. fits m n s)
    | (Inr s, m') \<Rightarrow> fits m n s \<and> (\<forall>t. fits m n t \<longrightarrow> s \<le> t) \<and> m' = mark_allocated m s n"
  using assms
proof (induction m n start rule: alloc_from.induct)
  case (1 m n start)
  note cases = alloc_scan_cases [where m = m and start = start and n = n and i = 0]
  show ?case
  proof (cases "alloc_scan m start n 0")
    case Scan_End
    have "\<not> fits m n s" for s
    proof
      assume fit: "fits m n s"
      with "1.prems"(2) have "start \<le> s" by blast
      moreover from cases Scan_End have "0 < n" "range_end m < start + n" by auto
      ultimately show False using fit [unfolded fits_def] by (auto dest: spec [of _ "n - 1"])
    qed
    with Scan_End show ?thesis by (simp add: alloc_from.simps [of m n start])
  next
    case (Scan_Hit i)
    with cases have hit: "i < n" "start + i < range_end m" "get_bit m (start + i)" by auto
    have "start + i + 1 \<le> s" if fit: "fits m n s" for s
    proof (rule ccontr)
      assume "\<not> start + i + 1 \<le> s"
      with "1.prems"(2) fit have "start \<le> s" "s \<le> start + i" by auto
      then have "start + i - s < n" "s + (start + i - s) = start + i" using hit by auto
      with fit hit(3) show False unfolding fits_def by metis
    qed
    with "1.IH" [OF Scan_Hit] "1.prems"(1) Scan_Hit show ?thesis
      by (simp add: alloc_from.simps [of m n start])
  next
    case Scan_Free
    with cases "1.prems" show ?thesis
      by (auto simp: alloc_from.simps [of m n start] fits_def)
  qed
qed

lemma allocate_spec:
  "case allocate m n of
      (Inl e, m') \<Rightarrow> e = kNoEnoughMemory \<and> m' = m \<and> (\<nexists>s. fits m n s)
    | (Inr s, m') \<Rightarrow> fits m n s \<and> (\<forall>t. fits m n t \<longrightarrow> s \<le> t) \<and> m' = mark_allocated m s n"
  unfolding allocate_def by (rule alloc_from_spec) (auto simp: fits_def)


text \<open>C15: \<^verbatim>\<open>Allocate\<close>, whose search jumps behind every used frame it meets, is the naive first-fit
  search: if some start in the range has the requested number of free frames behind it, the least
  such start is returned and exactly those frames are marked; otherwise \<open>kNoEnoughMemory\<close> is
  returned and nothing changes.\<close>

theorem allocate_first_fit:
  "allocate m n =
    (if \<exists>s. fits m n s then (Inr (LEAST s. fits m n s), mark_allocated m (LEAST s. fits m n s) n)
     else (Inl kNoEnoughMemory, m))"
proof -
  have least: "(LEAST s. fits m n s) = s" if "fits m n s" "\<forall>t. fits m n t \<longrightarrow> s \<le> t" for s
    using that by (blast intro: Least_equality)
  obtain r m' where r: "allocate m n = (r, m')" by fastforce
  with allocate_spec [of m n] least show ?thesis by (cases r) auto
qed

interpretation frames: frame_allocator allocate free_frames used_frames range_begin range_end mm_inv
proof unfold_locales
  fix m n s t m' e r
  assume inv: "mm_inv m"
  note spec = allocate_spec [of m n]
  show "range_begin m \<le> s \<and> (0 < n \<longrightarrow> s + n \<le> range_end m) \<and> {s..<s + n} \<inter> used_frames m = {}"
    if "allocate m n = (Inr s, m')"
    using that spec fits_iff [OF inv, of n s] by (cases "n = 0") (auto simp: fits_def)
  show "used_frames m' = used_frames m \<union> {s..<s + n}" if a: "allocate m n = (Inr s, m')"
  proof (cases "n = 0")
    case True
    with a spec show ?thesis by (auto simp: mark_allocated_def)
  next
    case False
    then have "s + n \<le> frame_capacity m"
      using a spec fits_iff [OF inv, of n s] inv by (auto simp: mm_inv_def)
    then show ?thesis using a spec by (simp add: used_mark_allocated)
  qed
  show "mm_inv m' \<and> range_begin m' = range_begin m \<and> range_end m' = range_end m"
    if "allocate m n = (r, m')"
    using that spec inv by (cases r) (auto simp: mm_inv_def)
  show "e = kNoEnoughMemory \<and> m' = m" if "allocate m n = (Inl e, m')"
    using that spec by simp
  show "(\<exists>e. fst (allocate m n) = Inl e) \<longleftrightarrow>
      0 < n \<and> (\<nexists>s. range_begin m \<le> s \<and> s + n \<le> range_end m \<and> {s..<s + n} \<inter> used_frames m = {})"
    using fits_iff [OF inv, of n] by (cases "n = 0") (auto simp: allocate_first_fit fits_def)
  show "used_frames (free_frames m s n) = used_frames m - {s..<s + n}" if "s + n \<le> range_end m"
    using that inv by (intro used_free_frames) (simp add: mm_inv_def)
  show "mm_inv (free_frames m s n) \<and> range_begin (free_frames m s n) = range_begin m \<and>
      range_end (free_frames m s n) = range_end m"
    using inv by (simp add: mm_inv_def)
qed

section \<open>Memory statistics\<close>

lemma line_count_card: "line_count w = card {i. i < 64 \<and> bit w i}"
proof -
  have "length (filter (bit w) [0..<64]) = card (set (filter (bit w) [0..<64]))"
    by (rule distinct_card [symmetric]) simp
  moreover have "set (filter (bit w) [0..<64]) = {i. i < 64 \<and> bit w i}" by auto
  ultimately show ?thesis by (simp add: line_count_def)
qed

lemma line_frames_card:
  "card {f. 64 * l \<le> f \<and> f < 64 * Suc l \<and> get_bit m f} = line_count (alloc_map m ! l)"
proof -
  have "{f. 64 * l \<le> f \<and> f < 64 * Suc l \<and> get_bit m f} = (\<lambda>i. 64 * l + i) ` {i. i < 64 \<and> bit (alloc_map m ! l) i}"
  proof (rule set_eqI, rule iffI)
    fix f assume f: "f \<in> {f. 64 * l \<le> f \<and> f < 64 * Suc l \<and> get_bit m f}"
    then obtain i where i: "f = 64 * l + i" "i < 64" by (auto simp: le_iff_add)
    with f show "f \<in> (\<lambda>i. 64 * l + i) ` {i. i < 64 \<and> bit (alloc_map m ! l) i}"
      by (auto simp: get_bit_alt)
  qed (auto simp: get_bit_alt)
  then show ?thesis by (simp add: line_count_card card_image)
qed

lemma stat_sum:
  "b \<le> e \<Longrightarrow> fold (\<lambda>i sum. sum + line_count (alloc_map m ! i)) [b..<e] 0 =
     card {f. 64 * b \<le> f \<and> f < 64 * e \<and> get_bit m f}"
proof (induction e)
  case 0
  then show ?case by simp
next
  case (Suc e)
  show ?case
  proof (cases "b = Suc e")
    case True
    then show ?thesis by simp
  next
    case False
    with Suc.prems have be: "b \<le> e" by simp
    have split: "{f. 64 * b \<le> f \<and> f < 64 * Suc e \<and> get_bit m f} =
      {f. 64 * b \<le> f \<and> f < 64 * e \<and> get_bit m f} \<union> {f. 64 * e \<le> f \<and> f < 64 * Suc e \<and> get_bit m f}"
      using be by auto
    have "card {f. 64 * b \<le> f \<and> f < 64 * Suc e \<and> get_bit m f} =
      card {f. 64 * b \<le> f \<and> f < 64 * e \<and> get_bit m f} + line_count (alloc_map m ! e)"
      unfolding split line_frames_card [symmetric] by (rule card_Un_disjoint) auto
    then show ?thesis using Suc.IH [OF be] be by simp
  qed
qed

text \<open>\<^verbatim>\<open>Stat\<close> counts whole bitmap lines: the number of allocated frames it reports is the number
  of used frames between the start of the line of \<open>range_begin\<close> and the start of the line of
  \<open>range_end\<close>, so used frames below \<open>range_begin\<close> in its line are counted and the used frames of
  the last, partial line of the range are not.\<close>

theorem stat_counts_lines:
  assumes "mm_inv m" "range_begin m \<le> range_end m"
  shows "allocated_frames (stat_frames m) =
      card {f \<in> used_frames m. 64 * (range_begin m div 64) \<le> f \<and> f < 64 * (range_end m div 64)}
    \<and> total_frames (stat_frames m) = range_end m - range_begin m"
proof -
  have "64 * (range_end m div 64) \<le> range_end m" by simp
  also have "\<dots> \<le> frame_capacity m" using assms(1) by (simp add: mm_inv_def)
  finally have "{f. 64 * (range_begin m div 64) \<le> f \<and> f < 64 * (range_end m div 64) \<and> get_bit m f} =
    {f \<in> used_frames m. 64 * (range_begin m div 64) \<le> f \<and> f < 64 * (range_end m div 64)}"
    by (auto simp: used_frames_def)
  then show ?thesis
    using stat_sum [OF div_le_mono [OF assms(2), of 64], of m]
    by (simp add: stat_frames_def kBitsPerMapLine_def)
qed

definition example_manager :: memory_manager where
  "example_manager = \<lparr>alloc_map = [0b1011, 0], range_begin = 1, range_end = 70\<rparr>"

lemma example_manager_inv: "mm_inv example_manager"
  by (simp add: mm_inv_def example_manager_def frame_capacity_def kBitsPerMapLine_def)

lemma example_manager_allocate: "fst (allocate example_manager 2) = Inr 4"
  by code_simp

theorem stat_counts_lines_witness:
  "card {f \<in> used_frames example_manager. f < 64} = 3"
  using stat_counts_lines [of example_manager] example_manager_inv
  by (simp add: example_manager_def stat_frames_def kBitsPerMapLine_def line_count_def upt_rec)

section \<open>Initialisation from the memory map\<close>

text \<open>The loop of \<^verbatim>\<open>InitializeMemoryManager\<close> over the descriptors; \<open>available_end\<close> is the end of the
  last available region seen.\<close>

(*@ Kernel/memory_manager.cpp:106-127 InitializeMemoryManager *)
fun mark_memory_map :: "memory_descriptor list \<Rightarrow> nat \<Rightarrow> memory_manager \<Rightarrow> nat \<times> memory_manager" where
  "mark_memory_map [] available_end m = (available_end, m)"
| "mark_memory_map (desc # descs) available_end m =
    (let m1 = (if available_end < md_physical_start desc
               then mark_allocated m (available_end div kBytesPerFrame)
                      ((md_physical_start desc - available_end) div kBytesPerFrame)
               else m);
         physical_end = md_physical_start desc + md_number_of_pages desc * kUEFIPageSize
     in if is_available (md_type desc) then mark_memory_map descs physical_end m1
        else mark_memory_map descs available_end
               (mark_allocated m1 (md_physical_start desc div kBytesPerFrame)
                  (md_number_of_pages desc * kUEFIPageSize div kBytesPerFrame)))"

record heap =
  program_break :: int
  program_break_end :: int

(*@ Kernel/memory_manager.cpp:85-98 InitializeHeap *)
definition initialize_heap :: "memory_manager \<Rightarrow> heap result \<times> memory_manager" where
  "initialize_heap m =
    (let kHeapFrames = 64 * 512 in
     case allocate m kHeapFrames of
       (Inl e, m') \<Rightarrow> (Inl e, m')
     | (Inr heap_start, m') \<Rightarrow>
         (Inr \<lparr>program_break = int (heap_start * kBytesPerFrame),
               program_break_end = int (heap_start * kBytesPerFrame) + int (kHeapFrames * kBytesPerFrame)\<rparr>, m'))"

text \<open>\<open>None\<close> is the exit of the kernel when the heap cannot be allocated.\<close>

(*@ Kernel/memory_manager.cpp:103-136 InitializeMemoryManager *)
definition initialize_memory_manager :: "memory_descriptor list \<Rightarrow> (heap \<times> memory_manager) option" where
  "initialize_memory_manager memory_map =
    (let (available_end, m) = mark_memory_map memory_map 0 new_memory_manager;
         m' = set_memory_range m 1 (available_end div kBytesPerFrame)
     in case initialize_heap m' of
          (Inl e, m'') \<Rightarrow> None
        | (Inr h, m'') \<Rightarrow> Some (h, m''))"

fun sorted_map :: "nat \<Rightarrow> memory_descriptor list \<Rightarrow> nat \<Rightarrow> bool" where
  "sorted_map pos [] limit \<longleftrightarrow> pos \<le> limit"
| "sorted_map pos (d # ds) limit \<longleftrightarrow> pos \<le> md_physical_start d \<and> md_physical_start d mod 4096 = 0 \<and>
     sorted_map (md_physical_start d + md_number_of_pages d * 4096) ds limit"

definition desc_frames :: "memory_descriptor \<Rightarrow> nat set" where
  "desc_frames d = {md_physical_start d div 4096..<md_physical_start d div 4096 + md_number_of_pages d}"

definition avail_frames :: "memory_descriptor list \<Rightarrow> nat set" where
  "avail_frames ds = (\<Union>d\<in>{d \<in> set ds. is_available (md_type d)}. desc_frames d)"

lemma avail_frames_simps [simp]:
  "avail_frames [] = {}"
  "avail_frames (d # ds) = (if is_available (md_type d) then desc_frames d else {}) \<union> avail_frames ds"
  by (auto simp: avail_frames_def)

lemma sorted_map_bounds:
  "sorted_map pos ds limit \<Longrightarrow> pos \<le> limit \<and> (\<forall>f\<in>avail_frames ds. pos div 4096 \<le> f)"
proof (induction ds arbitrary: pos)
  case Nil
  then show ?case by simp
next
  case (Cons d ds)
  let ?pe = "md_physical_start d + md_number_of_pages d * 4096"
  have lim: "?pe \<le> limit" and late: "\<forall>f\<in>avail_frames ds. ?pe div 4096 \<le> f"
    using Cons.IH [of ?pe] Cons.prems by auto
  have le: "pos \<le> md_physical_start d" using Cons.prems by simp
  then have "pos div 4096 \<le> md_physical_start d div 4096" "pos div 4096 \<le> ?pe div 4096"
    by (auto intro: div_le_mono)
  with late have "\<forall>f\<in>avail_frames (d # ds). pos div 4096 \<le> f"
    by (auto simp: desc_frames_def intro: le_trans split: if_splits)
  with lim le show ?case by simp
qed


lemma mark_memory_map_used:
  assumes "sorted_map pos ds limit" "limit \<le> frame_capacity m * 4096" "ae \<le> pos" "ae mod 4096 = 0"
    "used_frames m \<subseteq> {..<pos div 4096}" "mark_memory_map ds ae m = (ae', m')"
  shows "ae \<le> ae' \<and> frame_capacity m' = frame_capacity m \<and> ae' \<le> limit \<and> ae' mod 4096 = 0 \<and>
    used_frames m' \<inter> {..<ae' div 4096} =
      (used_frames m \<inter> {..<ae div 4096}) \<union> ({ae div 4096..<ae' div 4096} - avail_frames ds)"
  using assms
proof (induction ds arbitrary: pos ae m)
  case Nil
  then show ?case by auto
next
  case (Cons d ds)
  define st where "st = md_physical_start d div 4096"
  define n where "n = md_number_of_pages d"
  let ?pe = "md_physical_start d + md_number_of_pages d * 4096"
  have start: "md_physical_start d = st * 4096"
    using Cons.prems(1) unfolding st_def by auto
  obtain a where ae: "ae = a * 4096" using Cons.prems(4) by (metis mod_0_imp_dvd dvd_def mult.commute)
  have pe: "?pe = (st + n) * 4096" by (simp add: start n_def algebra_simps)
  have rest: "sorted_map ?pe ds limit" and pos: "pos \<le> md_physical_start d" using Cons.prems(1) by auto
  have a_st: "a \<le> st" using pos Cons.prems(3) start ae by simp
  have pd: "pos div 4096 \<le> st" unfolding st_def using pos by (rule div_le_mono)
  have late: "\<forall>f\<in>avail_frames ds. st + n \<le> f" and "?pe \<le> limit"
    using sorted_map_bounds [OF rest] pe by auto
  then have cap: "st + n \<le> frame_capacity m" using Cons.prems(2) pe by simp
  define m1 where "m1 = (if ae < md_physical_start d
    then mark_allocated m (ae div kBytesPerFrame) ((md_physical_start d - ae) div kBytesPerFrame) else m)"
  have cap1: "frame_capacity m1 = frame_capacity m" by (simp add: m1_def)
  have used1: "used_frames m1 = used_frames m \<union> {a..<st}"
  proof (cases "a < st")
    case True
    have "m1 = mark_allocated m a (st - a)"
      using True by (simp add: m1_def start ae kBytesPerFrame_def flip: diff_mult_distrib)
    then show ?thesis using True cap by (simp add: used_mark_allocated)
  qed (use a_st in \<open>simp add: m1_def start ae\<close>)
  have old: "\<forall>f\<in>used_frames m. f < st" using Cons.prems(5) pd by auto
  have avail_d: "desc_frames d = {st..<st + n}" by (simp add: desc_frames_def st_def n_def)
  show ?case
  proof (cases "is_available (md_type d)")
    case True
    then have "mark_memory_map ds ?pe m1 = (ae', m')"
      using Cons.prems(6) by (simp add: m1_def Let_def kUEFIPageSize_def)
    moreover have "used_frames m1 \<subseteq> {..<?pe div 4096}" using used1 old by (auto simp: pe)
    ultimately have ih: "?pe \<le> ae' \<and> frame_capacity m' = frame_capacity m1 \<and> ae' \<le> limit \<and> ae' mod 4096 = 0 \<and>
        used_frames m' \<inter> {..<ae' div 4096} =
        (used_frames m1 \<inter> {..<?pe div 4096}) \<union> ({?pe div 4096..<ae' div 4096} - avail_frames ds)"
      using Cons.IH [OF rest, of m1 ?pe] Cons.prems(2) cap1 by (simp add: pe)
    then have "st + n \<le> ae' div 4096" using pe div_le_mono [of ?pe ae' 4096] by simp
    moreover have "used_frames m1 \<inter> {..<st + n} \<union> ({st + n..<ae' div 4096} - avail_frames ds) =
        used_frames m \<inter> {..<a} \<union> ({a..<ae' div 4096} - (desc_frames d \<union> avail_frames ds))"
    proof (rule set_eqI)
      fix f
      have "f \<in> used_frames m \<longrightarrow> f < st" "f \<in> avail_frames ds \<longrightarrow> st + n \<le> f" using old late by auto
      then show "f \<in> used_frames m1 \<inter> {..<st + n} \<union> ({st + n..<ae' div 4096} - avail_frames ds) \<longleftrightarrow>
        f \<in> used_frames m \<inter> {..<a} \<union> ({a..<ae' div 4096} - (desc_frames d \<union> avail_frames ds))"
        unfolding used1 avail_d using calculation a_st by auto
    qed
    moreover have "ae \<le> ae'" using ih Cons.prems(3) pos by linarith
    ultimately show ?thesis using ih True cap1 by (simp add: pe ae)
  next
    case False
    define m2 where "m2 = mark_allocated m1 st n"
    have m2: "mark_memory_map ds ae m2 = (ae', m')"
      using Cons.prems(6) False
      by (simp add: m2_def m1_def Let_def kUEFIPageSize_def kBytesPerFrame_def st_def n_def)
    have used2: "used_frames m2 = used_frames m \<union> {a..<st} \<union> {st..<st + n}"
      using cap cap1 used1 by (simp add: m2_def used_mark_allocated)
    then have "used_frames m2 \<subseteq> {..<?pe div 4096}" using old by (auto simp: pe)
    with Cons.IH [OF rest, of m2 ae] m2 Cons.prems(2,3,4) cap1 pos
    have "ae \<le> ae' \<and> frame_capacity m' = frame_capacity m2 \<and> ae' \<le> limit \<and> ae' mod 4096 = 0 \<and>
        used_frames m' \<inter> {..<ae' div 4096} =
        (used_frames m2 \<inter> {..<ae div 4096}) \<union> ({ae div 4096..<ae' div 4096} - avail_frames ds)"
      by (simp add: m2_def)
    moreover have "used_frames m2 \<inter> {..<a} = used_frames m \<inter> {..<a}"
      using a_st by (auto simp: used2)
    ultimately show ?thesis using False cap1 by (simp add: ae m2_def)
  qed
qed



text \<open>For a memory map whose descriptors are page-aligned, sorted and disjoint (gaps allowed), the
  loop of \<^verbatim>\<open>InitializeMemoryManager\<close>, started on an empty bitmap that covers the map, leaves free
  below the end of the last available region exactly the frames of available regions: every gap
  and every region of another type is marked used.\<close>

theorem memory_map_marks_unavailable:
  assumes "sorted_map 0 memory_map limit" "limit \<le> frame_capacity m * 4096" "used_frames m = {}"
    "mark_memory_map memory_map 0 m = (available_end, m')"
  shows "{f. f < available_end div 4096 \<and> \<not> get_bit m' f} = avail_frames memory_map \<inter> {..<available_end div 4096}"
proof -
  note main = mark_memory_map_used [OF assms(1,2) _ _ _ assms(4)]
  have eq: "used_frames m' \<inter> {..<available_end div 4096} = {..<available_end div 4096} - avail_frames memory_map"
    and cap: "frame_capacity m' = frame_capacity m" and le: "available_end \<le> limit"
    using main assms(3) by auto
  have "available_end \<le> frame_capacity m' * 4096" using le assms(2) cap by simp
  then have "available_end div 4096 \<le> frame_capacity m'" by simp
  moreover have "f \<in> used_frames m' \<longleftrightarrow> f \<notin> avail_frames memory_map" if "f < available_end div 4096" for f
    using eq that by blast
  ultimately show ?thesis by (auto simp: used_frames_def)
qed

definition example_map :: "memory_descriptor list" where
  "example_map =
    [\<lparr>md_type = 7, md_physical_start = 0, md_number_of_pages = 2\<rparr>,
     \<lparr>md_type = 0, md_physical_start = 8192, md_number_of_pages = 1\<rparr>,
     \<lparr>md_type = 4, md_physical_start = 16384, md_number_of_pages = 3\<rparr>]"

definition blank_manager :: memory_manager where
  "blank_manager = \<lparr>alloc_map = [0], range_begin = 0, range_end = 64\<rparr>"

lemma blank_manager_used: "used_frames blank_manager = {}" "frame_capacity blank_manager = 64"
  by (auto simp: used_frames_def blank_manager_def get_bit_alt frame_capacity_def kBitsPerMapLine_def)

lemma example_map_marks: "fst (mark_memory_map example_map 0 blank_manager) = 28672"
  by (simp add: example_map_def is_available_def kUEFIPageSize_def kBytesPerFrame_def)

theorem memory_map_marks_unavailable_witness:
  "{f. f < 7 \<and> \<not> get_bit (snd (mark_memory_map example_map 0 blank_manager)) f}
     = avail_frames example_map \<inter> {..<7}"
proof -
  have "mark_memory_map example_map 0 blank_manager = (28672, snd (mark_memory_map example_map 0 blank_manager))"
    using example_map_marks by (metis prod.collapse)
  from memory_map_marks_unavailable [OF _ _ _ this, of 28672] show ?thesis
    by (simp add: example_map_def blank_manager_used)
qed

section \<open>The heap\<close>

(*@ Kernel/newlib_support.c:9-20 sbrk *)
definition sbrk :: "heap \<Rightarrow> int \<Rightarrow> int option \<times> heap" where
  "sbrk h incr =
    (if program_break h = 0 \<or> program_break_end h \<le> program_break h + incr then (None, h)
     else (Some (program_break h), h\<lparr>program_break := program_break h + incr\<rparr>))"

fun sbrk_all :: "heap \<Rightarrow> int list \<Rightarrow> (int \<times> int) list \<times> heap" where
  "sbrk_all h [] = ([], h)"
| "sbrk_all h (n # ns) =
    (case sbrk h n of
       (None, h') \<Rightarrow> sbrk_all h' ns
     | (Some p, h') \<Rightarrow> (let (rs, h'') = sbrk_all h' ns in ((p, p + n) # rs, h'')))"

lemma sbrk_all_regions:
  assumes "\<forall>n\<in>set ns. 0 \<le> n" "sbrk_all h ns = (rs, h')"
  shows "program_break_end h' = program_break_end h \<and> program_break h \<le> program_break h' \<and>
    sorted_wrt (\<lambda>(p, e) (q, e'). e \<le> q) rs \<and>
    (\<forall>(p, e)\<in>set rs. program_break h \<le> p \<and> p \<le> e \<and> e \<le> program_break h' \<and> e < program_break_end h)"
  using assms
proof (induction ns arbitrary: h rs)
  case Nil
  then show ?case by simp
next
  case (Cons n ns)
  show ?case
  proof (cases "program_break h = 0 \<or> program_break_end h \<le> program_break h + n")
    case True
    with Cons show ?thesis by (auto simp: sbrk_def)
  next
    case False
    let ?h1 = "h\<lparr>program_break := program_break h + n\<rparr>"
    obtain rs1 where rs: "sbrk_all ?h1 ns = (rs1, h')" "rs = (program_break h, program_break h + n) # rs1"
      using Cons.prems False by (auto simp: sbrk_def split: prod.splits)
    from Cons.IH [OF _ rs(1)] Cons.prems(1) False rs(2) show ?thesis by fastforce
  qed
qed

lemma initialize_heap_frames:
  assumes "mm_inv m" "initialize_heap m = (Inr h, m')"
  shows "\<exists>s. program_break h = int (s * 4096) \<and> program_break_end h = int ((s + 32768) * 4096) \<and>
    {s..<s + 32768} \<inter> used_frames m = {} \<and> used_frames m' = used_frames m \<union> {s..<s + 32768} \<and>
    range_begin m \<le> s \<and> mm_inv m'"
proof -
  obtain s where a: "allocate m 32768 = (Inr s, m')"
    and h: "h = \<lparr>program_break = int (s * 4096), program_break_end = int (s * 4096) + int (32768 * 4096)\<rparr>"
    using assms(2) by (auto simp: initialize_heap_def Let_def kBytesPerFrame_def split: sum.splits prod.splits)
  then show ?thesis
    using frames.alloc_fresh [OF assms(1) a] frames.alloc_used [OF assms(1) a] frames.alloc_keeps [OF assms(1) a]
    by (intro exI [of _ s]) auto
qed

text \<open>The heap the kernel hands to \<^verbatim>\<open>sbrk\<close> consists of frames that were free, and whatever
  sequence of non-negative requests follows, the regions \<^verbatim>\<open>sbrk\<close> grants are pairwise disjoint, in
  order, and lie inside those frames.\<close>

theorem sbrk_regions_in_heap_frames:
  assumes "mm_inv m" "initialize_heap m = (Inr h, m')" "\<forall>n\<in>set ns. 0 \<le> n"
    "sbrk_all h ns = (rs, h')"
  shows "sorted_wrt (\<lambda>(p, e) (q, e'). e \<le> q) rs \<and>
    (\<forall>(p, e)\<in>set rs. \<forall>a. p \<le> a \<and> a < e \<longrightarrow>
       nat a div 4096 \<in> used_frames m' \<and> nat a div 4096 \<notin> used_frames m)"
proof -
  obtain s where s: "program_break h = int (s * 4096)" "program_break_end h = int ((s + 32768) * 4096)"
    "{s..<s + 32768} \<inter> used_frames m = {}" "used_frames m' = used_frames m \<union> {s..<s + 32768}"
    using initialize_heap_frames [OF assms(1,2)] by blast
  note regions = sbrk_all_regions [OF assms(3,4)]
  have "nat a div 4096 \<in> {s..<s + 32768}" if "(p, e) \<in> set rs" "p \<le> a" "a < e" for p e a
  proof -
    from regions that s(1,2) have "int (s * 4096) \<le> a" "a < int ((s + 32768) * 4096)" by fastforce+
    then have "s * 4096 \<le> nat a" "nat a < (s + 32768) * 4096" by linarith+
    then show ?thesis by (simp add: less_eq_div_iff_mult_less_eq div_less_iff_less_mult)
  qed
  with regions s(3,4) show ?thesis by fastforce
qed


definition large_manager :: memory_manager where
  "large_manager = \<lparr>alloc_map = replicate 1024 0, range_begin = 1, range_end = 65000\<rparr>"

lemma large_manager_free: "f < 65536 \<Longrightarrow> \<not> get_bit large_manager f"
  by (simp add: get_bit_alt large_manager_def nth_replicate div_less_iff_less_mult)

lemma large_manager_inv: "mm_inv large_manager"
  by (simp add: mm_inv_def large_manager_def frame_capacity_def kBitsPerMapLine_def)

lemma large_manager_heap:
  "initialize_heap large_manager =
     (Inr \<lparr>program_break = 4096, program_break_end = 134221824\<rparr>, mark_allocated large_manager 1 32768)"
proof -
  have fit: "fits large_manager 32768 1"
    using large_manager_free by (simp add: fits_def) (simp add: large_manager_def)
  have "(LEAST s. fits large_manager 32768 s) = 1"
    using fit by (rule Least_equality) (simp add: fits_def large_manager_def)
  then show ?thesis
    using fit by (auto simp: initialize_heap_def Let_def allocate_first_fit kBytesPerFrame_def)
qed

theorem sbrk_regions_in_heap_frames_witness:
  "1 \<in> used_frames (mark_allocated large_manager 1 32768) \<and> 1 \<notin> used_frames large_manager"
proof -
  have "sbrk_all \<lparr>program_break = 4096, program_break_end = 134221824\<rparr> [4096, 100] =
     ([(4096, 8192), (8192, 8292)], \<lparr>program_break = 8292, program_break_end = 134221824\<rparr>)"
    by (simp add: sbrk_def)
  from sbrk_regions_in_heap_frames [OF large_manager_inv large_manager_heap _ this]
  show ?thesis by (auto dest!: spec [of _ 4096])
qed

end
