(* ===== verification/Segment.thy ===== *)
theory Segment imports Bit_Field Memory_Manager begin

text \<open>
  \<^verbatim>\<open>Kernel/segment.{hpp,cpp}\<close> and \<^verbatim>\<open>Kernel/x86_descriptor.hpp\<close>: the global descriptor table and the task state
  segment. A descriptor is one 64-bit word whose packed fields are written with \<open>put_field\<close>.
  \<open>segment_base\<close>, \<open>segment_limit\<close> and \<open>system_base\<close> read a descriptor as the processor
  does, and the theorems show that they give back what the code was asked to encode.
  \<^verbatim>\<open>exit\<close> after a failed stack allocation is the error value; \<^verbatim>\<open>LoadGDT\<close>, \<^verbatim>\<open>SetDSAll\<close>,
  \<^verbatim>\<open>SetCSSS\<close> and \<^verbatim>\<open>LoadTR\<close> are assembly and not part of the state.
\<close>

section \<open>Descriptors\<close>

(*@ Kernel/x86_descriptor.hpp:3-14 DescriptorType *)
datatype descriptor_type =
    kUpper8Bytes | kLDT | kTSSAvailable | kTSSBusy | kCallGate | kInterruptGate | kTrapGate
  | kReadWrite | kExecuteRead

fun descriptor_type_value :: "descriptor_type \<Rightarrow> 'a::len word" where
  "descriptor_type_value kUpper8Bytes = 0"
| "descriptor_type_value kLDT = 2"
| "descriptor_type_value kTSSAvailable = 9"
| "descriptor_type_value kTSSBusy = 11"
| "descriptor_type_value kCallGate = 12"
| "descriptor_type_value kInterruptGate = 14"
| "descriptor_type_value kTrapGate = 15"
| "descriptor_type_value kReadWrite = 2"
| "descriptor_type_value kExecuteRead = 10"

(*@ Kernel/segment.hpp:44-44 kKernelCS *)
definition kKernelCS :: u64 where "kKernelCS = 8"

(*@ Kernel/segment.hpp:45-45 kKernelSS *)
definition kKernelSS :: u64 where "kKernelSS = 16"

(*@ Kernel/segment.hpp:47-47 kTSS *)
definition kTSS :: nat where "kTSS = 40"

(*@ Kernel/segment.cpp:29-51 SetCodeSegment *)
definition set_code_segment :: "descriptor_type \<Rightarrow> u64 \<Rightarrow> u32 \<Rightarrow> u32 \<Rightarrow> u64" where
  "set_code_segment ty dpl base limit =
    (let desc = 0;
         desc = put_field 16 16 (ucast (base AND 0xffff)) desc;
         desc = put_field 32 8 (ucast (drop_bit 16 base AND 0xff)) desc;
         desc = put_field 56 8 (ucast (drop_bit 24 base AND 0xff)) desc;
         desc = put_field 0 16 (ucast (limit AND 0xffff)) desc;
         desc = put_field 48 4 (ucast (drop_bit 16 limit AND 0xf)) desc;
         desc = put_field 40 4 (descriptor_type_value ty) desc;
         desc = put_field 44 1 1 desc;
         desc = put_field 45 2 dpl desc;
         desc = put_field 47 1 1 desc;
         desc = put_field 52 1 0 desc;
         desc = put_field 53 1 1 desc;
         desc = put_field 54 1 0 desc
     in put_field 55 1 1 desc)"

(*@ Kernel/segment.cpp:53-61 SetDataSegment *)
definition set_data_segment :: "descriptor_type \<Rightarrow> u64 \<Rightarrow> u32 \<Rightarrow> u32 \<Rightarrow> u64" where
  "set_data_segment ty dpl base limit =
    (let desc = set_code_segment ty dpl base limit;
         desc = put_field 53 1 0 desc
     in put_field 54 1 1 desc)"

(*@ Kernel/segment.cpp:63-71 SetSystemSegment *)
definition set_system_segment :: "descriptor_type \<Rightarrow> u64 \<Rightarrow> u32 \<Rightarrow> u32 \<Rightarrow> u64" where
  "set_system_segment ty dpl base limit =
    (let desc = set_code_segment ty dpl base limit;
         desc = put_field 44 1 0 desc
     in put_field 53 1 0 desc)"

text \<open>What the processor reads.\<close>

definition segment_base :: "u64 \<Rightarrow> u64" where
  "segment_base d = get_field 16 16 d OR push_bit 16 (get_field 32 8 d) OR push_bit 24 (get_field 56 8 d)"

definition segment_limit :: "u64 \<Rightarrow> u64" where
  "segment_limit d = get_field 0 16 d OR push_bit 16 (get_field 48 4 d)"

definition system_base :: "u64 \<Rightarrow> u64 \<Rightarrow> u64" where
  "system_base lower upper = segment_base lower OR push_bit 32 (take_bit 32 upper)"

lemma mask_ands:
  "w AND 0xffff = take_bit 16 (w :: u32)" "w AND 0xff = take_bit 8 (w :: u32)"
  "w AND 0xf = take_bit 4 (w :: u32)"
  by (simp_all add: take_bit_eq_mask mask_eq_exp_minus_1)

lemma take_bit_ucast: "k \<le> LENGTH('a) \<Longrightarrow> take_bit k (ucast (w :: 'a::len word) :: 'b::len word) = ucast (take_bit k w)"
  by (intro bit_eqI) (auto simp: bit_take_bit_iff bit_unsigned_iff)

lemmas segment_defs = set_code_segment_def set_data_segment_def set_system_segment_def Let_def

lemma code_fields:
  fixes base limit :: u32
  shows "get_field 16 16 (set_code_segment ty dpl base limit) = ucast (take_bit 16 base)"
    "get_field 32 8 (set_code_segment ty dpl base limit) = ucast (take_bit 8 (drop_bit 16 base))"
    "get_field 56 8 (set_code_segment ty dpl base limit) = ucast (take_bit 8 (drop_bit 24 base))"
    "get_field 0 16 (set_code_segment ty dpl base limit) = ucast (take_bit 16 limit)"
    "get_field 48 4 (set_code_segment ty dpl base limit) = ucast (take_bit 4 (drop_bit 16 limit))"
    "get_field 40 4 (set_code_segment ty dpl base limit) = descriptor_type_value ty"
    "get_field 45 2 (set_code_segment ty dpl base limit) = take_bit 2 dpl"
    "get_field 47 1 (set_code_segment ty dpl base limit) = 1"
    "get_field 44 1 (set_code_segment ty dpl base limit) = 1"
    "get_field 53 1 (set_code_segment ty dpl base limit) = 1"
    "get_field 54 1 (set_code_segment ty dpl base limit) = 0"
    "get_field 55 1 (set_code_segment ty dpl base limit) = 1"
  by (simp_all add: segment_defs field_simps_bits mask_ands take_bit_ucast) (cases ty; simp)

lemma data_system_fields:
  assumes "off + w \<le> 53 \<or> 55 \<le> off"
  shows "get_field off w (set_data_segment ty dpl base limit) = get_field off w (set_code_segment ty dpl base limit)"
    and "off + w \<le> 44 \<or> 45 \<le> off \<Longrightarrow>
      get_field off w (set_system_segment ty dpl base limit) = get_field off w (set_code_segment ty dpl base limit)"
  using assms by (auto simp: set_data_segment_def set_system_segment_def Let_def get_put_field_other)

lemma base_32:
  fixes base :: u32
  shows "ucast (take_bit 16 base) OR push_bit 16 (ucast (take_bit 8 (drop_bit 16 base))) OR
     push_bit 24 (ucast (take_bit 8 (drop_bit 24 base))) = (ucast base :: u64)"
proof (intro bit_eqI)
  fix n :: nat
  consider "n < 16" | "16 \<le> n" "n < 24" | "24 \<le> n" by linarith
  then show "bit (ucast (take_bit 16 base) OR push_bit 16 (ucast (take_bit 8 (drop_bit 16 base))) OR
     push_bit 24 (ucast (take_bit 8 (drop_bit 24 base))) :: u64) n = bit (ucast base :: u64) n"
    by cases (auto simp: bit_or_iff bit_take_bit_iff bit_push_bit_iff bit_drop_bit_eq bit_unsigned_iff
        dest: bit_imp_le_length)
qed

lemma limit_20:
  fixes limit :: u32
  shows "ucast (take_bit 16 limit) OR push_bit 16 (ucast (take_bit 4 (drop_bit 16 limit))) = (ucast (take_bit 20 limit) :: u64)"
proof (intro bit_eqI)
  fix n :: nat
  consider "n < 16" | "16 \<le> n" by linarith
  then show "bit (ucast (take_bit 16 limit) OR push_bit 16 (ucast (take_bit 4 (drop_bit 16 limit))) :: u64) n =
      bit (ucast (take_bit 20 limit) :: u64) n"
    by cases (auto simp: bit_or_iff bit_take_bit_iff bit_push_bit_iff bit_drop_bit_eq bit_unsigned_iff
        dest: bit_imp_le_length)
qed

lemma segment_decodes:
  "segment_base (set_code_segment ty dpl base limit) = ucast base"
  "segment_limit (set_code_segment ty dpl base limit) = ucast (take_bit 20 limit)"
  "segment_base (set_data_segment ty dpl base limit) = ucast base"
  "segment_limit (set_data_segment ty dpl base limit) = ucast (take_bit 20 limit)"
  "segment_base (set_system_segment ty dpl base limit) = ucast base"
  "segment_limit (set_system_segment ty dpl base limit) = ucast (take_bit 20 limit)"
  by (simp_all only: segment_base_def segment_limit_def code_fields base_32 limit_20
      data_system_fields less_eq_nat.simps) (simp_all add: data_system_fields code_fields base_32 limit_20)

section \<open>The tables\<close>

(*@ Kernel/segment.cpp:8-10 gdt *)
record segment_tables =
  gdt :: "u64 list"
  tss :: "u32 list"

definition zero_tables :: segment_tables where
  "zero_tables = \<lparr>gdt = replicate 7 0, tss = replicate 26 0\<rparr>"

(*@ Kernel/segment.cpp:14-17 SetTSS *)
definition set_tss :: "nat \<Rightarrow> u64 \<Rightarrow> segment_tables \<Rightarrow> segment_tables" where
  "set_tss index val s = s\<lparr>tss := (tss s)[index := ucast (val AND 0xffffffff),
      index + 1 := ucast (drop_bit 32 val)]\<rparr>"

(*@ Kernel/segment.cpp:73-84 SetupSegments *)
definition setup_segments :: "segment_tables \<Rightarrow> segment_tables" where
  "setup_segments s = s\<lparr>gdt := (gdt s)[0 := 0,
      1 := set_code_segment kExecuteRead 0 0 0xfffff,
      2 := set_data_segment kReadWrite 0 0 0xfffff,
      3 := set_data_segment kReadWrite 3 0 0xfffff,
      4 := set_code_segment kExecuteRead 3 0 0xfffff]\<rparr>"

(*@ Kernel/segment.cpp:19-26 AllocateStackArea *)
definition allocate_stack_area :: "nat \<Rightarrow> memory_manager \<Rightarrow> nat result \<times> memory_manager" where
  "allocate_stack_area num_4kframes m =
    (case allocate m num_4kframes of
       (Inl err, m') \<Rightarrow> (Inl err, m')
     | (Inr stk, m') \<Rightarrow> (Inr (frame_address stk + num_4kframes * 4096), m'))"

(*@ Kernel/interrupt.hpp:55-55 kISTForTimer *)
definition kISTForTimer :: nat where "kISTForTimer = 1"

(*@ Kernel/segment.cpp:93-103 InitializeTSS *)
definition initialize_tss ::
  "u64 \<Rightarrow> memory_manager \<Rightarrow> segment_tables \<Rightarrow> (segment_tables result) \<times> memory_manager" where
  "initialize_tss tss_addr m s =
    (case allocate_stack_area 8 m of
       (Inl err, m1) \<Rightarrow> (Inl err, m1)
     | (Inr stk0, m1) \<Rightarrow>
       (let s1 = set_tss 1 (of_nat stk0) s in
        case allocate_stack_area 8 m1 of
          (Inl err, m2) \<Rightarrow> (Inl err, m2)
        | (Inr stk1, m2) \<Rightarrow>
          (let s2 = set_tss (7 + 2 * kISTForTimer) (of_nat stk1) s1;
               s3 = s2\<lparr>gdt := (gdt s2)[kTSS div 8 := set_system_segment kTSSAvailable 0
                       (ucast (tss_addr AND 0xffffffff)) (of_nat (26 * 4 - 1))]\<rparr>
           in (Inr (s3\<lparr>gdt := (gdt s3)[kTSS div 8 + 1 := drop_bit 32 tss_addr]\<rparr>), m2))))"

text \<open>The 64-bit field of the task state segment at a word index.\<close>

definition tss_field :: "nat \<Rightarrow> segment_tables \<Rightarrow> u64" where
  "tss_field index s = ucast (tss s ! index) OR push_bit 32 (ucast (tss s ! (index + 1)))"

lemma halves_64: "ucast (ucast (take_bit 32 v) :: u32) OR push_bit 32 (ucast (ucast (drop_bit 32 v) :: u32)) = (v :: u64)"
proof (intro bit_eqI)
  fix n :: nat
  consider "n < 32" | "32 \<le> n" by linarith
  then show "bit (ucast (ucast (take_bit 32 v) :: u32) OR push_bit 32 (ucast (ucast (drop_bit 32 v) :: u32)) :: u64) n = bit v n"
    by cases (auto simp: bit_or_iff bit_take_bit_iff bit_push_bit_iff bit_drop_bit_eq bit_unsigned_iff
        dest: bit_imp_le_length)
qed

lemma and_low_32: "v AND 0xffffffff = take_bit 32 (v :: u64)"
  by (simp add: take_bit_eq_mask mask_eq_exp_minus_1)

lemma set_tss_field:
  assumes "index + 1 < length (tss s)"
  shows "tss_field index (set_tss index v s) = v"
    and "index' + 1 < index \<or> index + 1 < index' \<Longrightarrow> tss_field index' (set_tss index v s) = tss_field index' s"
    and "length (tss (set_tss index v s)) = length (tss s)" "gdt (set_tss index v s) = gdt s"
  using assms halves_64 [of v] by (auto simp: tss_field_def set_tss_def and_low_32 nth_list_update)

lemma system_base_tss:
  "system_base (set_system_segment ty dpl (ucast (tss_addr AND 0xffffffff)) limit) (drop_bit 32 tss_addr) = tss_addr"
proof -
  have "ucast (ucast (take_bit 32 tss_addr) :: u32) OR push_bit 32 (take_bit 32 (drop_bit 32 tss_addr)) = tss_addr"
  proof (intro bit_eqI)
    fix n :: nat
    consider "n < 32" | "32 \<le> n" by linarith
    then show "bit (ucast (ucast (take_bit 32 tss_addr) :: u32) OR push_bit 32 (take_bit 32 (drop_bit 32 tss_addr))) n = bit tss_addr n"
      by cases (auto simp: bit_or_iff bit_take_bit_iff bit_push_bit_iff bit_drop_bit_eq bit_unsigned_iff
        dest: bit_imp_le_length)
  qed
  then show ?thesis by (simp add: system_base_def segment_decodes and_low_32)
qed

text \<open>When \<^verbatim>\<open>InitializeTSS\<close> succeeds, the processor finds through the two descriptors of the
  selector \<open>kTSS\<close> a present, available task state segment at the address of the table with the
  limit 103; the kernel stack pointer (word 1) and the timer's interrupt stack (word 9) point to the
  ends of two stacks of eight frames each; the two stacks do not overlap and were free before; and
  the code and data descriptors of the table are untouched.\<close>

theorem initialize_tss_correct:
  assumes "mm_inv m" "length (gdt s) = 7" "length (tss s) = 26"
    "initialize_tss tss_addr m s = (Inr s', m')"
  shows "\<exists>a b. tss_field 1 s' = of_nat (frame_address (a + 8)) \<and> tss_field 9 s' = of_nat (frame_address (b + 8)) \<and>
      {a..<a + 8} \<inter> {b..<b + 8} = {} \<and> used_frames m \<inter> ({a..<a + 8} \<union> {b..<b + 8}) = {} \<and>
      used_frames m' = used_frames m \<union> {a..<a + 8} \<union> {b..<b + 8} \<and>
      system_base (gdt s' ! 5) (gdt s' ! 6) = tss_addr \<and> segment_limit (gdt s' ! 5) = 103 \<and>
      get_field 40 4 (gdt s' ! 5) = 9 \<and> get_field 44 1 (gdt s' ! 5) = 0 \<and>
      get_field 45 2 (gdt s' ! 5) = 0 \<and> get_field 47 1 (gdt s' ! 5) = 1 \<and>
      (\<forall>i < 5. gdt s' ! i = gdt s ! i)"
proof -
  obtain a m1 where a: "allocate m 8 = (Inr a, m1)"
    using assms(4) by (auto simp: initialize_tss_def allocate_stack_area_def split: prod.splits sum.splits)
  obtain b where b: "allocate m1 8 = (Inr b, m')"
    using assms(4) a by (auto simp: initialize_tss_def allocate_stack_area_def Let_def split: prod.splits sum.splits)
  let ?s1 = "set_tss 1 (of_nat (frame_address a + 8 * 4096)) s"
  let ?s2 = "set_tss 9 (of_nat (frame_address b + 8 * 4096)) ?s1"
  have s': "tss s' = tss ?s2" "gdt s' = (gdt s)[5 := set_system_segment kTSSAvailable 0 (ucast (tss_addr AND 0xffffffff)) 103,
     6 := drop_bit 32 tss_addr]"
    using assms(4) a b
    by (auto simp: initialize_tss_def allocate_stack_area_def Let_def kISTForTimer_def kTSS_def set_tss_field assms(3))
  have addr: "frame_address (x + 8) = frame_address x + 8 * 4096" for x
    by (simp add: frame_address_def kBytesPerFrame_def)
  have f: "tss_field 9 ?s2 = of_nat (frame_address b + 8 * 4096)" "tss_field 1 ?s2 = of_nat (frame_address a + 8 * 4096)"
    by (simp_all add: set_tss_field assms(3))
  then have fields: "tss_field 1 s' = of_nat (frame_address (a + 8))" "tss_field 9 s' = of_nat (frame_address (b + 8))"
    unfolding addr using s'(1) by (simp_all add: tss_field_def)
  have m1: "mm_inv m1" using frames.alloc_keeps [OF assms(1) a] by simp
  have "get_field 44 1 (set_system_segment kTSSAvailable 0 base 103) = 0"
    "get_field 45 2 (set_system_segment kTSSAvailable 0 base 103) = 0"
    "get_field 47 1 (set_system_segment kTSSAvailable 0 base 103) = 1" for base
    by (simp_all add: segment_defs field_simps_bits)
  moreover have "get_field 40 4 (set_system_segment kTSSAvailable 0 base limit) = (9 :: u64)" for base limit
    by (simp add: data_system_fields code_fields)
  moreover have "segment_limit (set_system_segment kTSSAvailable 0 base 103) = 103" for base
    by (simp add: segment_decodes)
  moreover have "system_base (gdt s' ! 5) (gdt s' ! 6) = tss_addr"
    by (simp add: s' assms(2) system_base_tss)
  ultimately show ?thesis
    using fields frames.alloc_disjoint [OF assms(1) a b] frames.alloc_used [OF assms(1) a] frames.alloc_used [OF m1 b]
      frames.alloc_fresh [OF assms(1) a] frames.alloc_fresh [OF m1 b]
    by (intro exI [of _ a] exI [of _ b]) (auto simp: s' assms(2) nth_list_update)
qed

lemma initialize_tss_succeeds:
  assumes "mm_inv m" "used_frames m = {}" "range_begin m + 24 \<le> range_end m"
  shows "\<exists>s' m'. initialize_tss tss_addr m s = (Inr s', m')"
proof -
  have "\<nexists>e. fst (allocate m 8) = Inl e"
    using assms by (subst frames.alloc_fail_iff) (auto intro!: exI [of _ "range_begin m"])
  then obtain a m1 where a: "allocate m 8 = (Inr a, m1)"
    by (cases "allocate m 8"; cases "fst (allocate m 8)") auto
  have m1: "mm_inv m1 \<and> range_begin m1 = range_begin m \<and> range_end m1 = range_end m" "used_frames m1 = {a..<a + 8}"
    using frames.alloc_keeps [OF assms(1) a] frames.alloc_used [OF assms(1) a] assms(2) by auto
  have "\<nexists>e. fst (allocate m1 8) = Inl e"
    using assms m1 by (subst frames.alloc_fail_iff)
      (auto intro!: exI [of _ "if range_begin m + 8 \<le> a then range_begin m else range_begin m + 16"] split: if_splits)
  then obtain b m2 where b: "allocate m1 8 = (Inr b, m2)"
    by (cases "allocate m1 8"; cases "fst (allocate m1 8)") auto
  show ?thesis using a b by (simp add: initialize_tss_def allocate_stack_area_def Let_def)
qed

lemma empty_line_unused: "used_frames \<lparr>alloc_map = [0], range_begin = b, range_end = e\<rparr> = {}"
  by (auto simp: used_frames_def frame_capacity_def kBitsPerMapLine_def get_bit_def)

theorem initialize_tss_correct_witness:
  "\<exists>s' m'. initialize_tss 0x1234567890 \<lparr>alloc_map = [0], range_begin = 1, range_end = 64\<rparr> zero_tables = (Inr s', m') \<and>
     system_base (gdt s' ! 5) (gdt s' ! 6) = 0x1234567890"
proof -
  let ?m = "\<lparr>alloc_map = [0], range_begin = 1, range_end = 64\<rparr>"
  have m: "mm_inv ?m" by (simp add: mm_inv_def frame_capacity_def kBitsPerMapLine_def)
  obtain s' m' where *: "initialize_tss 0x1234567890 ?m zero_tables = (Inr s', m')"
    using initialize_tss_succeeds [OF m empty_line_unused] by fastforce
  then show ?thesis
    using initialize_tss_correct [OF m _ _ *] by (auto simp: zero_tables_def)
qed

end
