(* ===== verification/Interrupt.thy ===== *)
theory Interrupt imports Segment begin

text \<open>
  \<^verbatim>\<open>Kernel/interrupt.{hpp,cpp}\<close>: gate descriptors and the interrupt descriptor table, the decision of the
  fault handlers, and the hexadecimal digits the fault screen shows. Handler addresses are assembly
  labels: the model takes the function that gives them.
\<close>

section \<open>Gate descriptors\<close>

(*@ Kernel/interrupt.hpp:30-37 InterruptDescriptor *)
record interrupt_descriptor =
  offset_low :: u16
  segment_selector :: u16
  idt_attr :: u16
  offset_middle :: u16
  offset_high :: u32
  idt_reserved :: u32

(*@ Kernel/interrupt.hpp:41-53 MakeIDTAttr *)
definition make_idt_attr :: "descriptor_type \<Rightarrow> u8 \<Rightarrow> bool \<Rightarrow> u8 \<Rightarrow> u16" where
  "make_idt_attr ty dpl present ist =
    (let attr = 0;
         attr = put_field 0 3 (ucast ist) attr;
         attr = put_field 8 4 (descriptor_type_value ty) attr;
         attr = put_field 13 2 (ucast dpl) attr
     in put_field 15 1 (of_bool present) attr)"

(*@ Kernel/interrupt.cpp:21-30 SetIDTEntry *)
definition set_idt_entry :: "interrupt_descriptor \<Rightarrow> u16 \<Rightarrow> u64 \<Rightarrow> u16 \<Rightarrow> interrupt_descriptor" where
  "set_idt_entry desc attr offset selector = desc\<lparr>idt_attr := attr,
     offset_low := ucast (offset AND 0xffff),
     offset_middle := ucast (drop_bit 16 offset AND 0xffff),
     offset_high := ucast (drop_bit 32 offset),
     segment_selector := selector\<rparr>"

definition gate_offset :: "interrupt_descriptor \<Rightarrow> u64" where
  "gate_offset d = ucast (offset_low d) OR push_bit 16 (ucast (offset_middle d)) OR push_bit 32 (ucast (offset_high d))"

lemma and_low_16: "v AND 0xffff = take_bit 16 (v :: u64)"
  by (simp add: take_bit_eq_mask mask_eq_exp_minus_1)

lemma gate_offset_set: "gate_offset (set_idt_entry d attr offset sel) = offset"
proof (intro bit_eqI)
  fix n :: nat
  consider "n < 16" | "16 \<le> n" "n < 32" | "32 \<le> n" by linarith
  then show "bit (gate_offset (set_idt_entry d attr offset sel)) n = bit offset n"
    by cases (auto simp: gate_offset_def set_idt_entry_def and_low_16 bit_or_iff bit_take_bit_iff bit_push_bit_iff
        bit_drop_bit_eq bit_unsigned_iff dest: bit_imp_le_length)
qed

lemma idt_attr_fields:
  "get_field 8 4 (make_idt_attr ty dpl present ist) = descriptor_type_value ty"
  "get_field 0 3 (make_idt_attr ty dpl present ist) = ucast (take_bit 3 ist)"
  "get_field 13 2 (make_idt_attr ty dpl present ist) = ucast (take_bit 2 dpl)"
  "get_field 15 1 (make_idt_attr ty dpl present ist) = of_bool present"
  by (simp_all add: make_idt_attr_def Let_def field_simps_bits take_bit_ucast) (cases ty; simp)

section \<open>The table\<close>

datatype int_handler =
    H_XHCI | H_LAPIC_Timer | H_DE | H_DB | H_BP | H_OF | H_BR | H_UD | H_NM | H_DF | H_TS | H_NP
  | H_SS | H_GP | H_PF | H_MF | H_AC | H_MC | H_XM | H_VE

(*@ Kernel/interrupt.hpp:62-68 InterruptVector *)
definition interrupt_vector_xhci :: nat where "interrupt_vector_xhci = 0x40"

definition interrupt_vector_timer :: nat where "interrupt_vector_timer = 0x41"

text \<open>The calls of \<^verbatim>\<open>InitializeInterrupt\<close> in their order: vector, stack table entry, handler.\<close>

(*@ Kernel/interrupt.cpp:139-164 InitializeInterrupt *)
definition idt_settings :: "(nat \<times> u8 \<times> int_handler) list" where
  "idt_settings =
    [(interrupt_vector_xhci, 0, H_XHCI), (interrupt_vector_timer, of_nat kISTForTimer, H_LAPIC_Timer),
     (0, 0, H_DE), (1, 0, H_DB), (3, 0, H_BP), (4, 0, H_OF), (5, 0, H_BR), (6, 0, H_UD), (7, 0, H_NM),
     (8, 0, H_DF), (10, 0, H_TS), (11, 0, H_NP), (12, 0, H_SS), (13, 0, H_GP), (14, 0, H_PF),
     (16, 0, H_MF), (17, 0, H_AC), (18, 0, H_MC), (19, 0, H_XM), (20, 0, H_VE)]"

(*@ Kernel/interrupt.cpp:131-166 InitializeInterrupt *)
definition initialize_interrupt ::
  "(int_handler \<Rightarrow> u64) \<Rightarrow> interrupt_descriptor list \<Rightarrow> interrupt_descriptor list" where
  "initialize_interrupt address idt =
    fold (\<lambda>(irq, ist, h) idt. idt[irq := set_idt_entry (idt ! irq) (make_idt_attr kInterruptGate 0 True ist)
        (address h) (ucast kKernelCS)]) idt_settings idt"

lemma fold_modify_length:
  "length (fold (\<lambda>(i, a, h) l. l[i := f (l ! i) a h]) ws l) = length l"
  by (induction ws arbitrary: l) (auto split: prod.splits)

lemma fold_modify_other:
  "i \<notin> fst ` set ws \<Longrightarrow> fold (\<lambda>(i, a, h) l. l[i := f (l ! i) a h]) ws l ! i = l ! i"
  by (induction ws arbitrary: l) (auto split: prod.splits)

lemma fold_modify_nth:
  "distinct (map fst ws) \<Longrightarrow> (i, a, h) \<in> set ws \<Longrightarrow> i < length l \<Longrightarrow>
    fold (\<lambda>(i, a, h) l. l[i := f (l ! i) a h]) ws l ! i = f (l ! i) a h"
proof (induction ws arbitrary: l)
  case (Cons w ws)
  obtain i' a' h' where w: "w = (i', a', h')" by (cases w)
  show ?case
  proof (cases "i = i'")
    case True
    then have "i \<notin> fst ` set ws" "(a, h) = (a', h')" using Cons.prems w by (auto simp: rev_image_eqI)
    then show ?thesis using True Cons.prems w by (simp add: fold_modify_other)
  next
    case False
    then show ?thesis using Cons.prems w Cons.IH [of "l[i' := f (l ! i') a' h']"] by auto
  qed
qed simp

lemma initialize_interrupt_alt:
  "initialize_interrupt address idt =
    fold (\<lambda>(i, a, h) l. l[i := (\<lambda>e ist h. set_idt_entry e (make_idt_attr kInterruptGate 0 True ist) (address h)
      (ucast kKernelCS)) (l ! i) a h]) idt_settings idt"
  by (simp add: initialize_interrupt_def)

lemma initialize_interrupt_length: "length (initialize_interrupt address idt) = length idt"
  unfolding initialize_interrupt_alt by (rule fold_modify_length)

lemma initialize_interrupt_other:
  "irq \<notin> fst ` set idt_settings \<Longrightarrow> initialize_interrupt address idt ! irq = idt ! irq"
  unfolding initialize_interrupt_alt by (rule fold_modify_other)

lemma idt_settings_ok:
  "distinct (map fst idt_settings)"
  "(irq, ist, h) \<in> set idt_settings \<Longrightarrow> irq < 256 \<and> ist = (if h = H_LAPIC_Timer then 1 else 0)"
  by (auto simp: idt_settings_def interrupt_vector_xhci_def interrupt_vector_timer_def kISTForTimer_def)

lemma set_gate_fields:
  assumes "length idt = 256" "(irq, ist, h) \<in> set idt_settings"
  shows "gate_offset (initialize_interrupt address idt ! irq) = address h"
    "segment_selector (initialize_interrupt address idt ! irq) = 8"
    "get_field 8 4 (idt_attr (initialize_interrupt address idt ! irq)) = 14"
    "get_field 13 2 (idt_attr (initialize_interrupt address idt ! irq)) = 0"
    "get_field 15 (Suc 0) (idt_attr (initialize_interrupt address idt ! irq)) = 1"
    "get_field 0 3 (idt_attr (initialize_interrupt address idt ! irq)) = (if h = H_LAPIC_Timer then 1 else 0)"
proof -
  have "initialize_interrupt address idt ! irq =
      set_idt_entry (idt ! irq) (make_idt_attr kInterruptGate 0 True ist) (address h) (ucast kKernelCS)"
    unfolding initialize_interrupt_alt
    by (rule fold_modify_nth [OF idt_settings_ok(1) assms(2)]) (use assms idt_settings_ok(2) [OF assms(2)] in simp)
  then show "gate_offset (initialize_interrupt address idt ! irq) = address h"
    "segment_selector (initialize_interrupt address idt ! irq) = 8"
    "get_field 8 4 (idt_attr (initialize_interrupt address idt ! irq)) = 14"
    "get_field 13 2 (idt_attr (initialize_interrupt address idt ! irq)) = 0"
    "get_field 15 (Suc 0) (idt_attr (initialize_interrupt address idt ! irq)) = 1"
    "get_field 0 3 (idt_attr (initialize_interrupt address idt ! irq)) = (if h = H_LAPIC_Timer then 1 else 0)"
    using idt_settings_ok(2) [OF assms(2)]
    by (simp_all add: gate_offset_set)
      (simp_all add: set_idt_entry_def idt_attr_fields idt_attr_fields [unfolded One_nat_def] kKernelCS_def)
qed

text \<open>After \<^verbatim>\<open>InitializeInterrupt\<close> every vector it sets is a present interrupt gate of
  privilege level 0 in the kernel code segment whose three offset parts put together are the address
  of that vector's handler; only the timer's gate switches to interrupt stack 1; and every other
  vector of the table is untouched.\<close>

theorem initialize_interrupt_gates:
  assumes "length idt = 256"
  shows "(\<forall>(irq, ist, h) \<in> set idt_settings. let d = initialize_interrupt address idt ! irq in
      gate_offset d = address h \<and> segment_selector d = 8 \<and> get_field 8 4 (idt_attr d) = 14 \<and>
      get_field 13 2 (idt_attr d) = 0 \<and> get_field 15 1 (idt_attr d) = 1 \<and>
      get_field 0 3 (idt_attr d) = (if h = H_LAPIC_Timer then 1 else 0)) \<and>
    (\<forall>irq. irq \<notin> fst ` set idt_settings \<longrightarrow> initialize_interrupt address idt ! irq = idt ! irq) \<and>
    length (initialize_interrupt address idt) = 256"
proof (intro conjI)
  show "\<forall>(irq, ist, h) \<in> set idt_settings. let d = initialize_interrupt address idt ! irq in
      gate_offset d = address h \<and> segment_selector d = 8 \<and> get_field 8 4 (idt_attr d) = 14 \<and>
      get_field 13 2 (idt_attr d) = 0 \<and> get_field 15 1 (idt_attr d) = 1 \<and>
      get_field 0 3 (idt_attr d) = (if h = H_LAPIC_Timer then 1 else 0)"
    by (clarsimp simp: Let_def set_gate_fields [OF assms])
qed (use assms in \<open>auto simp: initialize_interrupt_length initialize_interrupt_other\<close>)

lemma sample_idt_length: "length (replicate 256 e) = (256 :: nat)"
  by simp

theorem initialize_interrupt_gates_witness:
  "let idt = initialize_interrupt (\<lambda>h. if h = H_PF then 0x123456789a else 0)
      (replicate 256 \<lparr>offset_low = 0, segment_selector = 0, idt_attr = 0, offset_middle = 0, offset_high = 0, idt_reserved = 0\<rparr>)
   in gate_offset (idt ! 14) = 0x123456789a \<and> segment_selector (idt ! 14) = 8"
proof -
  have "(14, 0, H_PF) \<in> set idt_settings" by (simp add: idt_settings_def)
  then show ?thesis
    using initialize_interrupt_gates [OF sample_idt_length, of "\<lambda>h. if h = H_PF then 0x123456789a else 0"
      "\<lparr>offset_low = 0, segment_selector = 0, idt_attr = 0, offset_middle = 0, offset_high = 0, idt_reserved = 0\<rparr>"]
    by (auto simp: Let_def)
qed

section \<open>Faults\<close>

datatype fault_outcome = Resume | Exit_App (exit_stack: u64) (exit_code: int) | Halt

(*@ Kernel/interrupt.cpp:69-78 KillApp *)
definition kill_app :: "u64 \<Rightarrow> u64 \<Rightarrow> fault_outcome option" where
  "kill_app cs os_stack_ptr =
    (let cpl = cs AND 3 in if cpl \<noteq> 3 then None else Some (Exit_App os_stack_ptr (128 + 11)))"

(*@ Kernel/interrupt.cpp:80-91 IntHandlerPF *)
definition int_handler_pf :: "error_code \<Rightarrow> u64 \<Rightarrow> u64 \<Rightarrow> fault_outcome" where
  "int_handler_pf err cs os_stack_ptr =
    (if \<not> is_error err then Resume
     else case kill_app cs os_stack_ptr of Some out \<Rightarrow> out | None \<Rightarrow> Halt)"

(*@ Kernel/interrupt.cpp:93-109 FaultHandlerWithError *)
definition fault_handler :: "u64 \<Rightarrow> u64 \<Rightarrow> fault_outcome" where
  "fault_handler cs os_stack_ptr =
    (case kill_app cs os_stack_ptr of Some out \<Rightarrow> out | None \<Rightarrow> Halt)"

section \<open>PrintHex\<close>

(*@ Kernel/interrupt.cpp:46-56 PrintHex *)
definition print_hex :: "u64 \<Rightarrow> nat \<Rightarrow> int \<Rightarrow> (int \<times> int) list" where
  "print_hex val width pos =
    map (\<lambda>i. (let x = uint (drop_bit (4 * (width - i - 1)) val AND 0xf);
                  x = (if 10 \<le> x then x + (97 - 10) else x + 48)
              in (pos + 8 * int i, x))) [0..<width]"

definition hex_digit :: "int \<Rightarrow> int" where
  "hex_digit c = (if 97 \<le> c then c - 97 + 10 else c - 48)"

definition read_hex :: "int list \<Rightarrow> int" where
  "read_hex cs = foldl (\<lambda>v c. 16 * v + hex_digit c) 0 cs"

lemma nibble: "uint (drop_bit (4 * k) val AND 0xf :: u64) = uint val div 16 ^ k mod 16"
proof -
  have "drop_bit (4 * k) val AND 0xf = take_bit 4 (drop_bit (4 * k) val)"
    by (simp add: take_bit_eq_mask mask_eq_exp_minus_1)
  then have "uint (drop_bit (4 * k) val AND 0xf) = take_bit 4 (drop_bit (4 * k) (uint val))"
    using unsigned_less [of val, where ?'a = int] by (simp only: unsigned_take_bit_eq unsigned_drop_bit_eq) (simp add: take_bit_int_eq_self)
  then show ?thesis by (simp add: take_bit_eq_mod drop_bit_eq_div power_mult)
qed

lemma read_hex_digits:
  "foldl (\<lambda>v c. 16 * v + hex_digit c) 0
     (map (\<lambda>i. let x = (n :: int) div 16 ^ (w + k - i - 1) mod 16 in if 10 \<le> x then x + (97 - 10) else x + 48) [0..<w]) =
   n div 16 ^ k mod 16 ^ w"
proof (induction w arbitrary: k)
  case (Suc w)
  have d: "hex_digit (let x = n div 16 ^ k mod 16 in if 10 \<le> x then x + (97 - 10) else x + 48) = n div 16 ^ k mod 16"
    using pos_mod_bound [of 16 "n div 16 ^ k"] pos_mod_sign [of 16 "n div 16 ^ k"]
    by (auto simp: hex_digit_def Let_def)
  have m: "Suc w + k - i - 1 = w + Suc k - i - 1" for i by simp
  have "n div 16 ^ Suc k = n div 16 ^ k div 16"
    by (simp add: zdiv_zmult2_eq mult.commute [of 16])
  then have "16 * (n div 16 ^ Suc k mod 16 ^ w) + n div 16 ^ k mod 16 = n div 16 ^ k mod 16 ^ Suc w"
    by (simp add: zmod_zmult2_eq)
  then show ?case
    using Suc.IH [of "Suc k"] d by (simp add: m del: power_Suc)
qed simp

text \<open>The digits the fault screen prints for a value, \<^verbatim>\<open>PrintHex(value, width)\<close>, read back as a
  hexadecimal number are the value modulo \<open>16 ^ width\<close>, every character is a digit 0-9 or a-f, and
  the characters stand eight pixels apart from the given position on.\<close>

theorem print_hex_reads_back:
  "read_hex (map snd (print_hex val width pos)) = uint val mod 16 ^ width \<and>
   (\<forall>c \<in> set (map snd (print_hex val width pos)). c \<in> {48..57} \<union> {97..102}) \<and>
   map fst (print_hex val width pos) = map (\<lambda>i. pos + 8 * int i) [0..<width]"
proof (intro conjI)
  show "read_hex (map snd (print_hex val width pos)) = uint val mod 16 ^ width"
    using read_hex_digits [where n = "uint val" and w = width and k = 0]
    by (simp add: read_hex_def print_hex_def comp_def nibble Let_def)
  have "0 \<le> x mod 16" "x mod 16 < 16" for x :: int by simp_all
  then show "\<forall>c \<in> set (map snd (print_hex val width pos)). c \<in> {48..57} \<union> {97..102}"
    by (auto simp: print_hex_def nibble Let_def)
  show "map fst (print_hex val width pos) = map (\<lambda>i. pos + 8 * int i) [0..<width]"
    by (simp add: print_hex_def Let_def)
qed

theorem print_hex_reads_back_witness:
  "read_hex (map snd (print_hex 0x1f 2 500)) = 31 \<and> map fst (print_hex 0x1f 2 500) = [500, 508]"
  using print_hex_reads_back [of "0x1f" 2 500] by (simp add: upt_rec)

end
