(* ===== verification/Message.thy ===== *)
theory Message imports Kernel_Error begin

text \<open>
  \<^verbatim>\<open>Kernel/message.hpp\<close>: the messages tasks exchange. The code's tagged union is a record of a tag,
  the sender and the union's member; the member is a datatype with one constructor per arm.
\<close>

(*@ Kernel/message.hpp:3-5 LayerOperation *)
datatype layer_operation = Op_Move | Op_MoveRelative | Op_Draw | Op_DrawArea

(*@ Kernel/message.hpp:8-19 Message::Type *)
datatype message_type =
    kInterruptXHCI | kTimerTimeout | kKeyPush | kLayer | kLayerFinish | kMouseMove | kMouseButton
  | kWindowActive | kPipe | kWindowClose

(*@ Kernel/message.hpp:22-65 Message::arg *)
datatype message_arg =
    No_Arg
  | Timer_Arg (timer_timeout: nat) (timer_value: int)
  | Keyboard_Arg (key_modifier: u8) (key_keycode: u8) (key_ascii: u8) (key_press: bool)
  | Layer_Arg (larg_op: layer_operation) (larg_id: nat) (larg_x: int) (larg_y: int) (larg_w: int) (larg_h: int)
  | Mouse_Move_Arg (mm_x: int) (mm_y: int) (mm_dx: int) (mm_dy: int) (mm_buttons: u8)
  | Mouse_Button_Arg (mb_x: int) (mb_y: int) (mb_press: int) (mb_button: int)
  | Window_Active_Arg (wa_activate: int)
  | Pipe_Arg (pipe_data: "u8 list") (pipe_len: nat)
  | Window_Close_Arg (wc_layer_id: nat)

(*@ Kernel/message.hpp:7-21 Message *)
record message =
  msg_type :: message_type
  msg_src_task :: nat
  msg_arg :: message_arg

definition plain_message :: "message_type \<Rightarrow> message" where
  "plain_message ty = \<lparr>msg_type = ty, msg_src_task = 0, msg_arg = No_Arg\<rparr>"


section \<open>Sending messages\<close>

text \<open>What the senders (timers, keyboard, windows, pipes) rely on: a message to an existing task is
  appended to its queue and the task becomes runnable; a message to any other id is refused and
  changes nothing.\<close>

locale mailbox =
  fixes send :: "nat \<Rightarrow> message \<Rightarrow> 's \<Rightarrow> error_code \<times> 's"
    and inbox :: "'s \<Rightarrow> nat \<Rightarrow> message list option"
    and runnable :: "'s \<Rightarrow> nat \<Rightarrow> bool"
    and ok :: "'s \<Rightarrow> bool"
  assumes send_ok: "ok s \<Longrightarrow> ok (snd (send i m s))"
    and send_inbox: "ok s \<Longrightarrow> inbox (snd (send i m s)) = (inbox s)(i := map_option (\<lambda>ms. ms @ [m]) (inbox s i))"
    and send_err: "ok s \<Longrightarrow> fst (send i m s) = (if inbox s i = None then kNoSuchTask else kSuccess)"
    and send_runnable: "ok s \<Longrightarrow> runnable (snd (send i m s)) j \<longleftrightarrow> runnable s j \<or> j = i \<and> inbox s i \<noteq> None"
begin

definition send_all :: "(nat \<times> message) list \<Rightarrow> 's \<Rightarrow> 's" where
  "send_all ms s = fold (\<lambda>(i, m) s. snd (send i m s)) ms s"

lemma send_all_simps [simp]:
  "send_all [] s = s" "send_all ((i, m) # ms) s = send_all ms (snd (send i m s))"
  by (simp_all add: send_all_def)

lemma send_all_ok: "ok s \<Longrightarrow> ok (send_all ms s)"
  by (induction ms arbitrary: s) (auto simp: send_ok)

lemma send_all_inbox:
  "ok s \<Longrightarrow> inbox (send_all ms s) i =
     map_option (\<lambda>old. old @ map snd (filter (\<lambda>x. fst x = i) ms)) (inbox s i)"
  by (induction ms arbitrary: s) (auto simp: send_ok send_inbox option.map_comp comp_def option.map_ident)

lemma send_keeps_inboxes: "ok s \<Longrightarrow> inbox (snd (send i m s)) j = None \<longleftrightarrow> inbox s j = None"
  by (simp add: send_inbox)

lemma send_all_runnable:
  "ok s \<Longrightarrow> runnable (send_all ms s) j \<longleftrightarrow> runnable s j \<or> j \<in> fst ` set ms \<and> inbox s j \<noteq> None"
proof (induction ms arbitrary: s)
  case (Cons x ms)
  obtain i m where x: "x = (i, m)" by (cases x)
  show ?case
    using Cons.IH [of "snd (send i m s)"] Cons.prems send_ok [of s i m] send_runnable [of s i m j] send_keeps_inboxes [of s i m j]
    by (auto simp: x)
qed simp

end

end
