(* ===== verification/Task.thy ===== *)
theory Task imports Message Segment begin

text \<open>
  \<^verbatim>\<open>Kernel/task.{hpp,cpp}\<close>: tasks, the multi-level run queues and the scheduler.

  A \<^verbatim>\<open>Task*\<close> is the task's id: ids are handed out once (\<open>latest_id\<close>) and a task's address
  never changes. \<open>tasks\<close> is the vector \<^verbatim>\<open>tasks_\<close> in its order, \<open>runq\<close> the array \<^verbatim>\<open>running_\<close> of
  deques by level, \<open>finish_tasks\<close> and \<open>finish_waiter\<close> the two \<^verbatim>\<open>std::map\<close>s. An operation that ends
  in the assembly routines \<^verbatim>\<open>SwitchContext\<close> or \<^verbatim>\<open>RestoreContext\<close> returns which contexts they
  get as a value of \<open>cpu_action\<close>.

  \<open>sched_inv\<close> is the invariant of the scheduler. The relation \<open>sched_step\<close> lets interrupts and
  the running task call the operations in any order; a task inside the loop of \<^verbatim>\<open>WaitFinish\<close> is
  recorded in \<open>waiting\<close>.
\<close>

section \<open>Tasks\<close>

(*@ Kernel/task.hpp:16-22 TaskContext *)
record task_context =
  c_cr3 :: u64   c_rip :: u64   c_rflags :: u64   c_reserved1 :: u64
  c_cs :: u64    c_ss :: u64    c_fs :: u64       c_gs :: u64
  c_rax :: u64   c_rbx :: u64   c_rcx :: u64      c_rdx :: u64
  c_rdi :: u64   c_rsi :: u64   c_rsp :: u64      c_rbp :: u64
  c_r8to15 :: "u64 list"
  c_fxsave_area :: "u8 list"

(*@ Kernel/task.hpp:28-31 FileMapping *)
record file_mapping =
  fm_fd :: nat
  fm_vaddr_begin :: u64
  fm_vaddr_end :: u64

(*@ Kernel/task.hpp:57-68 Task *)
record task =
  task_id :: nat
  task_context :: task_context
  os_stack_ptr :: u64
  msgs :: "message list"
  task_level :: nat
  task_running :: bool
  task_files :: "nat option list"
  dpaging_begin :: u64
  dpaging_end :: u64
  file_map_end :: u64
  file_maps :: "file_mapping list"

definition zero_context :: task_context where
  "zero_context =
    \<lparr>c_cr3 = 0, c_rip = 0, c_rflags = 0, c_reserved1 = 0, c_cs = 0, c_ss = 0, c_fs = 0, c_gs = 0,
     c_rax = 0, c_rbx = 0, c_rcx = 0, c_rdx = 0, c_rdi = 0, c_rsi = 0, c_rsp = 0, c_rbp = 0,
     c_r8to15 = replicate 8 0, c_fxsave_area = replicate 512 0\<rparr>"

(*@ Kernel/task.cpp:21-23 Task::Task *)
definition new_task_record :: "nat \<Rightarrow> task" where
  "new_task_record tid =
    \<lparr>task_id = tid, task_context = zero_context, os_stack_ptr = 0, msgs = [], task_level = 1,
     task_running = False, task_files = [], dpaging_begin = 0, dpaging_end = 0, file_map_end = 0,
     file_maps = []\<rparr>"

text \<open>\<^verbatim>\<open>InitContext\<close>: the stack's end address, CR3 and the entry point come from outside.\<close>

(*@ Kernel/task.cpp:25-44 Task::InitContext *)
definition init_context :: "u64 \<Rightarrow> u64 \<Rightarrow> u64 \<Rightarrow> u64 \<Rightarrow> task \<Rightarrow> task" where
  "init_context stack_end cr3 f data t =
    t\<lparr>task_context := zero_context\<lparr>
        c_cr3 := cr3, c_rflags := 0x202, c_cs := kKernelCS, c_ss := kKernelSS,
        c_rsp := (stack_end AND NOT 0xf) - 8,
        c_rip := f, c_rdi := of_nat (task_id t), c_rsi := data,
        c_fxsave_area := (replicate 512 0)[24 := 0x80, 25 := 0x1f, 26 := 0, 27 := 0]\<rparr>\<rparr>"

(*@ Kernel/task.cpp:72-80 Task::ReceiveMessage *)
definition receive_message :: "task \<Rightarrow> message option \<times> task" where
  "receive_message t =
    (case msgs t of [] \<Rightarrow> (None, t) | m # ms \<Rightarrow> (Some m, t\<lparr>msgs := ms\<rparr>))"

section \<open>TaskManager\<close>

(*@ Kernel/task.hpp:95-105 TaskManager *)
record task_manager =
  tasks :: "task list"
  latest_id :: nat
  runq :: "nat \<Rightarrow> nat list"
  current_level :: nat
  level_changed :: bool
  finish_tasks :: "nat \<rightharpoonup> int"
  finish_waiter :: "nat \<rightharpoonup> nat"

(*@ Kernel/task.hpp:80-82 TaskManager::kMaxLevel *)
definition kMaxLevel :: nat where "kMaxLevel = 3"

datatype cpu_action =
    Stay
  | Restore_Context (restored: nat)
  | Switch_Context (switch_next: nat) (switch_prev: nat)

text \<open>\<^verbatim>\<open>std::find_if\<close> over \<^verbatim>\<open>tasks_\<close>, and writing through the found pointer.\<close>

definition find_task :: "task_manager \<Rightarrow> nat \<Rightarrow> task option" where
  "find_task tm tid = find (\<lambda>t. task_id t = tid) (tasks tm)"

definition update_task :: "nat \<Rightarrow> (task \<Rightarrow> task) \<Rightarrow> task_manager \<Rightarrow> task_manager" where
  "update_task tid f tm = tm\<lparr>tasks := map (\<lambda>t. if task_id t = tid then f t else t) (tasks tm)\<rparr>"

definition level_of :: "task_manager \<Rightarrow> nat \<Rightarrow> nat" where
  "level_of tm tid = (case find_task tm tid of Some t \<Rightarrow> task_level t | None \<Rightarrow> 0)"

definition is_running :: "task_manager \<Rightarrow> nat \<Rightarrow> bool" where
  "is_running tm tid = (case find_task tm tid of Some t \<Rightarrow> task_running t | None \<Rightarrow> False)"

(*@ Kernel/task.hpp:70-71 Task::SetLevel *)
definition set_level :: "nat \<Rightarrow> nat \<Rightarrow> task_manager \<Rightarrow> task_manager" where
  "set_level tid level = update_task tid (\<lambda>t. t\<lparr>task_level := level\<rparr>)"

definition set_running :: "nat \<Rightarrow> bool \<Rightarrow> task_manager \<Rightarrow> task_manager" where
  "set_running tid r = update_task tid (\<lambda>t. t\<lparr>task_running := r\<rparr>)"

definition set_runq :: "nat \<Rightarrow> nat list \<Rightarrow> task_manager \<Rightarrow> task_manager" where
  "set_runq lv q tm = tm\<lparr>runq := (runq tm)(lv := q)\<rparr>"

(*@ Kernel/task.cpp:10-14 Erase *)
definition erase :: "nat \<Rightarrow> nat list \<Rightarrow> nat list" where
  "erase val c = filter (\<lambda>x. x \<noteq> val) c"

(*@ Kernel/task.cpp:213-215 TaskManager::CurrentTask *)
definition current_task :: "task_manager \<Rightarrow> nat" where
  "current_task tm = hd (runq tm (current_level tm))"

(*@ Kernel/task.cpp:127-130 TaskManager::NewTask *)
definition new_task :: "task_manager \<Rightarrow> nat \<times> task_manager" where
  "new_task tm =
    (let tid = latest_id tm + 1
     in (tid, tm\<lparr>latest_id := tid, tasks := tasks tm @ [new_task_record tid]\<rparr>))"

text \<open>The loop over the levels from the highest down.\<close>

(*@ Kernel/task.cpp:292-297 TaskManager::RotateCurrentRunQueue *)
definition highest_level :: "task_manager \<Rightarrow> nat" where
  "highest_level tm =
    (case find (\<lambda>lv. runq tm lv \<noteq> []) (rev [0..<kMaxLevel + 1]) of
       Some lv \<Rightarrow> lv | None \<Rightarrow> current_level tm)"

(*@ Kernel/task.cpp:278-300 TaskManager::RotateCurrentRunQueue *)
definition rotate_current_run_queue :: "bool \<Rightarrow> task_manager \<Rightarrow> nat \<times> task_manager" where
  "rotate_current_run_queue current_sleep tm =
    (let lv = current_level tm;
         cur = hd (runq tm lv);
         tm1 = set_runq lv (tl (runq tm lv) @ (if current_sleep then [] else [cur])) tm;
         tm2 = (if runq tm1 lv = [] then tm1\<lparr>level_changed := True\<rparr> else tm1);
         tm3 = (if level_changed tm2
                then tm2\<lparr>level_changed := False, current_level := highest_level tm2\<rparr> else tm2)
     in (cur, tm3))"

(*@ Kernel/task.cpp:133-140 TaskManager::SwitchTask *)
definition switch_task :: "task_context \<Rightarrow> task_manager \<Rightarrow> cpu_action \<times> task_manager" where
  "switch_task ctx tm =
    (let tm1 = update_task (current_task tm) (\<lambda>t. t\<lparr>task_context := ctx\<rparr>) tm;
         (cur, tm2) = rotate_current_run_queue False tm1
     in (if current_task tm2 \<noteq> cur then Restore_Context (current_task tm2) else Stay, tm2))"

(*@ Kernel/task.cpp:143-157 TaskManager::Sleep *)
definition sleep_task :: "nat \<Rightarrow> task_manager \<Rightarrow> cpu_action \<times> task_manager" where
  "sleep_task tid tm =
    (if \<not> is_running tm tid then (Stay, tm)
     else
       let tm1 = set_running tid False tm in
       if tid = hd (runq tm1 (current_level tm1)) then
         let (cur, tm2) = rotate_current_run_queue True tm1
         in (Switch_Context (current_task tm2) cur, tm2)
       else
         let lv = level_of tm1 tid in (Stay, set_runq lv (erase tid (runq tm1 lv)) tm1))"

(*@ Kernel/task.cpp:159-168 TaskManager::Sleep *)
definition sleep_id :: "nat \<Rightarrow> task_manager \<Rightarrow> error_code \<times> cpu_action \<times> task_manager" where
  "sleep_id tid tm =
    (case find_task tm tid of None \<Rightarrow> (kNoSuchTask, Stay, tm) | Some t \<Rightarrow> (kSuccess, sleep_task tid tm))"

(*@ Kernel/task.cpp:252-276 TaskManager::ChangeLevelRunning *)
definition change_level_running :: "nat \<Rightarrow> int \<Rightarrow> task_manager \<Rightarrow> task_manager" where
  "change_level_running tid level tm =
    (if level < 0 \<or> level = int (level_of tm tid) then tm
     else
       let lv = nat level in
       if tid \<noteq> hd (runq tm (current_level tm)) then
         let old = level_of tm tid;
             tm1 = set_runq old (erase tid (runq tm old)) tm;
             tm2 = set_runq lv (runq tm1 lv @ [tid]) tm1;
             tm3 = set_level tid lv tm2
         in if current_level tm3 < lv then tm3\<lparr>level_changed := True\<rparr> else tm3
       else
         let cl = current_level tm;
             tm1 = set_runq cl (tl (runq tm cl)) tm;
             tm2 = set_runq lv (tid # runq tm1 lv) tm1;
             tm3 = set_level tid lv tm2
         in if current_level tm3 \<le> lv then tm3\<lparr>current_level := lv\<rparr>
            else tm3\<lparr>current_level := lv, level_changed := True\<rparr>)"

(*@ Kernel/task.cpp:170-188 TaskManager::Wakeup *)
definition wakeup_task :: "nat \<Rightarrow> int \<Rightarrow> task_manager \<Rightarrow> task_manager" where
  "wakeup_task tid level tm =
    (if is_running tm tid then change_level_running tid level tm
     else
       let lv = (if level < 0 then level_of tm tid else nat level);
           tm1 = set_running tid True (set_level tid lv tm);
           tm2 = set_runq lv (runq tm1 lv @ [tid]) tm1
       in if current_level tm2 < lv then tm2\<lparr>level_changed := True\<rparr> else tm2)"

(*@ Kernel/task.cpp:190-199 TaskManager::Wakeup *)
definition wakeup_id :: "nat \<Rightarrow> int \<Rightarrow> task_manager \<Rightarrow> error_code \<times> task_manager" where
  "wakeup_id tid level tm =
    (case find_task tm tid of None \<Rightarrow> (kNoSuchTask, tm) | Some t \<Rightarrow> (kSuccess, wakeup_task tid level tm))"

(*@ Kernel/task.cpp:67-70 Task::SendMessage *)
definition task_send_message :: "nat \<Rightarrow> message \<Rightarrow> task_manager \<Rightarrow> task_manager" where
  "task_send_message tid msg tm =
    wakeup_task tid (- 1) (update_task tid (\<lambda>t. t\<lparr>msgs := msgs t @ [msg]\<rparr>) tm)"

(*@ Kernel/task.cpp:201-211 TaskManager::SendMessage *)
definition send_message :: "nat \<Rightarrow> message \<Rightarrow> task_manager \<Rightarrow> error_code \<times> task_manager" where
  "send_message tid msg tm =
    (case find_task tm tid of None \<Rightarrow> (kNoSuchTask, tm) | Some t \<Rightarrow> (kSuccess, task_send_message tid msg tm))"

text \<open>\<^verbatim>\<open>tasks_.erase(it)\<close> removes the first (only) entry of the finishing task.\<close>

fun remove_task :: "nat \<Rightarrow> task list \<Rightarrow> task list" where
  "remove_task tid [] = []"
| "remove_task tid (t # ts) = (if task_id t = tid then ts else t # remove_task tid ts)"

(*@ Kernel/task.cpp:217-235 TaskManager::Finish *)
definition finish :: "int \<Rightarrow> task_manager \<Rightarrow> cpu_action \<times> task_manager" where
  "finish code tm =
    (let (tid, tm1) = rotate_current_run_queue True tm;
         tm2 = tm1\<lparr>tasks := remove_task tid (tasks tm1), finish_tasks := (finish_tasks tm1)(tid \<mapsto> code)\<rparr>;
         tm3 = (case finish_waiter tm2 tid of
                  Some waiter \<Rightarrow> wakeup_task waiter (- 1) (tm2\<lparr>finish_waiter := (finish_waiter tm2)(tid := None)\<rparr>)
                | None \<Rightarrow> tm2)
     in (Restore_Context (current_task tm3), tm3))"

text \<open>One pass through the loop of \<^verbatim>\<open>WaitFinish\<close>: it returns the exit code, or registers the caller,
  puts it to sleep, and the loop goes on when the task runs again.\<close>

(*@ Kernel/task.cpp:237-250 TaskManager::WaitFinish *)
definition wait_finish_pass :: "nat \<Rightarrow> nat \<Rightarrow> task_manager \<Rightarrow> (cpu_action + int) \<times> task_manager" where
  "wait_finish_pass tid cur tm =
    (case finish_tasks tm tid of
       Some code \<Rightarrow> (Inr code, tm\<lparr>finish_tasks := (finish_tasks tm)(tid := None)\<rparr>)
     | None \<Rightarrow>
         let tm1 = tm\<lparr>finish_waiter := (finish_waiter tm)(tid \<mapsto> cur)\<rparr>;
             (act, tm2) = sleep_task cur tm1
         in (Inl act, tm2))"

(*@ Kernel/task.cpp:114-125 TaskManager::TaskManager *)
definition new_task_manager :: "u64 \<Rightarrow> u64 \<Rightarrow> u64 \<Rightarrow> task_manager" where
  "new_task_manager stack_end cr3 task_idle =
    (let tm0 = \<lparr>tasks = [], latest_id = 0, runq = (\<lambda>_. []), current_level = kMaxLevel,
                level_changed = False, finish_tasks = Map.empty, finish_waiter = Map.empty\<rparr>;
         (task, tm1) = new_task tm0;
         tm2 = set_running task True (set_level task (current_level tm1) tm1);
         tm3 = set_runq (current_level tm2) (runq tm2 (current_level tm2) @ [task]) tm2;
         (idle, tm4) = new_task tm3;
         tm5 = set_running idle True (set_level idle 0 (update_task idle (init_context stack_end cr3 task_idle 0) tm4))
     in set_runq 0 (runq tm5 0 @ [idle]) tm5)"

end
