(* ===== verification/Scheduler.thy ===== *)
theory Scheduler imports Task begin

text \<open>
  The scheduler of \<^verbatim>\<open>Kernel/task.cpp\<close> keeps its invariant under every operation, in any
  interleaving, and what follows from it: the running task has the highest priority after a switch,
  tasks of a level take turns, and a task that waits for another is not forgotten.
\<close>

section \<open>The invariant\<close>

definition queues_ok :: "task_manager \<Rightarrow> bool" where
  "queues_ok tm \<longleftrightarrow> (\<forall>lv. distinct (runq tm lv)) \<and>
     (\<forall>lv i. i \<in> set (runq tm lv) \<longleftrightarrow> is_running tm i \<and> level_of tm i = lv) \<and>
     (\<forall>i. level_of tm i \<le> kMaxLevel)"

definition ids_ok :: "task_manager \<Rightarrow> bool" where
  "ids_ok tm \<longleftrightarrow> distinct (map task_id (tasks tm)) \<and> (\<forall>i \<in> set (map task_id (tasks tm)). i \<le> latest_id tm)"

definition top_ok :: "task_manager \<Rightarrow> bool" where
  "top_ok tm \<longleftrightarrow> level_changed tm \<or> (\<forall>lv > current_level tm. runq tm lv = [])"

definition sched_inv :: "task_manager \<Rightarrow> bool" where
  "sched_inv tm \<longleftrightarrow> ids_ok tm \<and> queues_ok tm \<and> top_ok tm \<and> current_level tm \<le> kMaxLevel \<and>
     runq tm (current_level tm) \<noteq> [] \<and> is_running tm 2"

lemmas sched_defs = sched_inv_def ids_ok_def queues_ok_def top_ok_def

section \<open>Looking up tasks\<close>

lemma find_map_id:
  "(\<And>t. task_id (f t) = task_id t) \<Longrightarrow>
   find (\<lambda>t. task_id t = j) (map (\<lambda>t. if task_id t = i then f t else t) ts) =
     (if i = j then map_option f (find (\<lambda>t. task_id t = j) ts) else find (\<lambda>t. task_id t = j) ts)"
  by (induction ts) auto

lemma find_task_update:
  "(\<And>t. task_id (f t) = task_id t) \<Longrightarrow>
   find_task (update_task i f tm) j = (if i = j then map_option f (find_task tm j) else find_task tm j)"
  by (simp add: find_task_def update_task_def find_map_id)

lemma update_task_keeps [simp]:
  "latest_id (update_task i f tm) = latest_id tm" "runq (update_task i f tm) = runq tm"
  "current_level (update_task i f tm) = current_level tm"
  "level_changed (update_task i f tm) = level_changed tm"
  "finish_tasks (update_task i f tm) = finish_tasks tm"
  "finish_waiter (update_task i f tm) = finish_waiter tm"
  by (simp_all add: update_task_def)

lemma update_task_ids:
  "(\<And>t. task_id (f t) = task_id t) \<Longrightarrow> map task_id (tasks (update_task i f tm)) = map task_id (tasks tm)"
  by (simp add: update_task_def comp_def if_distrib cong: if_cong)

lemma update_ids_ok:
  assumes "\<And>t. task_id (f t) = task_id t"
  shows "ids_ok (update_task i f tm) = ids_ok tm"
  by (simp only: ids_ok_def update_task_ids [OF assms] update_task_keeps)

lemma set_runq_keeps [simp]:
  "latest_id (set_runq lv q tm) = latest_id tm" "tasks (set_runq lv q tm) = tasks tm"
  "current_level (set_runq lv q tm) = current_level tm"
  "level_changed (set_runq lv q tm) = level_changed tm"
  "finish_tasks (set_runq lv q tm) = finish_tasks tm"
  "finish_waiter (set_runq lv q tm) = finish_waiter tm"
  "runq (set_runq lv q tm) = (runq tm)(lv := q)"
  by (simp_all add: set_runq_def)

lemma lookups_only_tasks:
  assumes "tasks tm' = tasks tm"
  shows "find_task tm' = find_task tm" "is_running tm' = is_running tm" "level_of tm' = level_of tm"
  using assms by (simp_all add: fun_eq_iff find_task_def is_running_def level_of_def)

lemma lookups_queue [simp]:
  "find_task (set_runq lv q tm) = find_task tm" "is_running (set_runq lv q tm) = is_running tm"
  "level_of (set_runq lv q tm) = level_of tm"
  "find_task (tm\<lparr>level_changed := b\<rparr>) = find_task tm" "is_running (tm\<lparr>level_changed := b\<rparr>) = is_running tm"
  "level_of (tm\<lparr>level_changed := b\<rparr>) = level_of tm"
  "find_task (tm\<lparr>current_level := l\<rparr>) = find_task tm" "is_running (tm\<lparr>current_level := l\<rparr>) = is_running tm"
  "level_of (tm\<lparr>current_level := l\<rparr>) = level_of tm"
  "find_task (tm\<lparr>finish_waiter := w\<rparr>) = find_task tm" "is_running (tm\<lparr>finish_waiter := w\<rparr>) = is_running tm"
  "level_of (tm\<lparr>finish_waiter := w\<rparr>) = level_of tm"
  "find_task (tm\<lparr>finish_tasks := ft\<rparr>) = find_task tm" "is_running (tm\<lparr>finish_tasks := ft\<rparr>) = is_running tm"
  "level_of (tm\<lparr>finish_tasks := ft\<rparr>) = level_of tm"
  by (rule lookups_only_tasks; simp)+

lemma ids_ok_only_tasks:
  "tasks tm' = tasks tm \<Longrightarrow> latest_id tm' = latest_id tm \<Longrightarrow> ids_ok tm' = ids_ok tm"
  by (simp add: ids_ok_def)

lemma ids_ok_queue [simp]:
  "ids_ok (set_runq lv q tm) = ids_ok tm" "ids_ok (tm\<lparr>level_changed := b\<rparr>) = ids_ok tm"
  "ids_ok (tm\<lparr>current_level := l\<rparr>) = ids_ok tm" "ids_ok (tm\<lparr>finish_waiter := w\<rparr>) = ids_ok tm"
  "ids_ok (tm\<lparr>finish_tasks := ft\<rparr>) = ids_ok tm"
  by (rule ids_ok_only_tasks; simp)+

lemma set_level_keeps [simp]:
  "latest_id (set_level i l tm) = latest_id tm" "runq (set_level i l tm) = runq tm"
  "current_level (set_level i l tm) = current_level tm" "level_changed (set_level i l tm) = level_changed tm"
  "finish_tasks (set_level i l tm) = finish_tasks tm" "finish_waiter (set_level i l tm) = finish_waiter tm"
  "ids_ok (set_level i l tm) = ids_ok tm"
  "is_running (set_level i l tm) j = is_running tm j"
  "find_task (set_level i l tm) j = None \<longleftrightarrow> find_task tm j = None"
  by (simp_all add: set_level_def update_ids_ok is_running_def find_task_update split: option.split)

lemma level_of_set_level [simp]:
  "level_of (set_level i l tm) j = (if i = j \<and> find_task tm j \<noteq> None then l else level_of tm j)"
  by (auto simp: set_level_def level_of_def find_task_update)

lemma set_running_keeps [simp]:
  "latest_id (set_running i b tm) = latest_id tm" "runq (set_running i b tm) = runq tm"
  "current_level (set_running i b tm) = current_level tm" "level_changed (set_running i b tm) = level_changed tm"
  "finish_tasks (set_running i b tm) = finish_tasks tm" "finish_waiter (set_running i b tm) = finish_waiter tm"
  "ids_ok (set_running i b tm) = ids_ok tm"
  "level_of (set_running i b tm) j = level_of tm j"
  "find_task (set_running i b tm) j = None \<longleftrightarrow> find_task tm j = None"
  by (simp_all add: set_running_def update_ids_ok level_of_def find_task_update split: option.split)

lemma is_running_set_running [simp]:
  "is_running (set_running i b tm) j = (if i = j then b \<and> find_task tm j \<noteq> None else is_running tm j)"
  by (auto simp: set_running_def is_running_def find_task_update split: option.split)

lemma running_found: "is_running tm i \<Longrightarrow> find_task tm i \<noteq> None"
  by (auto simp: is_running_def split: option.splits)

text \<open>Changing a task in a field other than its id, level and flag.\<close>

lemma update_lookups:
  assumes "\<And>t. task_id (f t) = task_id t" "\<And>t. task_level (f t) = task_level t"
    "\<And>t. task_running (f t) = task_running t"
  shows "is_running (update_task i f tm) = is_running tm" "level_of (update_task i f tm) = level_of tm"
  using assms by (auto simp: fun_eq_iff is_running_def level_of_def find_task_update split: option.split)

lemma sched_inv_update:
  assumes "\<And>t. task_id (f t) = task_id t" "\<And>t. task_level (f t) = task_level t"
    "\<And>t. task_running (f t) = task_running t"
  shows "sched_inv (update_task i f tm) = sched_inv tm"
  by (simp add: sched_inv_def queues_ok_def top_ok_def update_ids_ok update_lookups assms)

section \<open>Choosing the next task\<close>

lemma highest_level_spec:
  assumes "\<exists>lv \<le> kMaxLevel. runq tm lv \<noteq> []"
  shows "runq tm (highest_level tm) \<noteq> []" "highest_level tm \<le> kMaxLevel"
    "\<forall>lv. highest_level tm < lv \<and> lv \<le> kMaxLevel \<longrightarrow> runq tm lv = []"
proof -
  have r: "rev [0..<kMaxLevel + 1] = [3, 2, 1, 0]" by (simp add: kMaxLevel_def upt_rec)
  have *: "\<exists>lv \<in> {0, 1, 2, 3}. runq tm lv \<noteq> []"
    using assms by (auto simp: kMaxLevel_def le_Suc_eq numeral_3_eq_3 numeral_2_eq_2)
  show "runq tm (highest_level tm) \<noteq> []" "highest_level tm \<le> kMaxLevel"
    unfolding highest_level_def r using * by (auto simp: kMaxLevel_def)
  show "\<forall>lv. highest_level tm < lv \<and> lv \<le> kMaxLevel \<longrightarrow> runq tm lv = []"
  proof (intro allI impI)
    fix lv assume a: "highest_level tm < lv \<and> lv \<le> kMaxLevel"
    then have "lv \<in> {0, 1, 2, 3}" by (auto simp: kMaxLevel_def)
    then show "runq tm lv = []"
      using a * unfolding highest_level_def r by (auto split: if_splits)
  qed
qed

lemma highest_level_flag [simp]: "highest_level (tm\<lparr>level_changed := b\<rparr>) = highest_level tm"
  by (simp add: highest_level_def cong: option.case_cong)

text \<open>What a rotation needs: its caller may have cleared the running flag of the current task
  already.\<close>

lemma rotate_result:
  assumes "rotate_current_run_queue b tm = (cur, tm')"
  shows "cur = current_task tm" "tasks tm' = tasks tm" "latest_id tm' = latest_id tm"
    "finish_tasks tm' = finish_tasks tm" "finish_waiter tm' = finish_waiter tm"
    "runq tm' = (runq tm)(current_level tm := tl (runq tm (current_level tm)) @ (if b then [] else [cur]))"
  using assms by (auto simp: rotate_current_run_queue_def Let_def current_task_def split: if_splits)

lemma rotate_top:
  assumes "rotate_current_run_queue b tm = (cur, tm')" "top_ok tm" "current_level tm \<le> kMaxLevel"
    "\<forall>lv > kMaxLevel. runq tm lv = []" "\<exists>lv. runq tm' lv \<noteq> []"
  shows "current_level tm' \<le> kMaxLevel" "runq tm' (current_level tm') \<noteq> []"
    "\<forall>lv > current_level tm'. runq tm' lv = []" "\<not> level_changed tm'"
proof -
  define q where "q = tl (runq tm (current_level tm)) @ (if b then [] else [current_task tm])"
  define tm1 where "tm1 = set_runq (current_level tm) q tm"
  define ch where "ch = (level_changed tm \<or> q = [])"
  have tm': "tm' = (if ch then tm1\<lparr>level_changed := False, current_level := highest_level tm1\<rparr> else tm1)"
    using assms(1) unfolding rotate_current_run_queue_def Let_def tm1_def q_def ch_def current_task_def
    by (auto simp del: set_runq_keeps simp: set_runq_keeps(3,4,7) split: if_splits)
  have rq: "runq tm' = runq tm1" by (simp add: tm')
  have above: "\<forall>lv > kMaxLevel. runq tm1 lv = []" using assms(3,4) by (auto simp: tm1_def)
  have ex: "\<exists>lv \<le> kMaxLevel. runq tm1 lv \<noteq> []"
    using assms(5) above unfolding rq by (metis leI)
  show "current_level tm' \<le> kMaxLevel"
    using highest_level_spec(2) [OF ex] assms(3) by (simp add: tm' tm1_def)
  show "runq tm' (current_level tm') \<noteq> []"
    using highest_level_spec(1) [OF ex] by (auto simp: tm' tm1_def ch_def)
  show "\<not> level_changed tm'" by (auto simp: tm' tm1_def ch_def)
  show "\<forall>lv > current_level tm'. runq tm' lv = []"
  proof (cases ch)
    case True
    then show ?thesis using highest_level_spec(3) [OF ex] above by (auto simp: tm') (metis leI)
  next
    case False
    then show ?thesis using assms(2) by (auto simp: tm' tm1_def ch_def top_ok_def)
  qed
qed


section \<open>Every operation keeps the invariant\<close>

lemma above_empty: "queues_ok tm \<Longrightarrow> \<forall>lv > kMaxLevel. runq tm lv = []"
  unfolding queues_ok_def by (metis leD last_in_set)

lemma current_in_queue:
  assumes "sched_inv tm"
  shows "runq tm (current_level tm) = current_task tm # tl (runq tm (current_level tm))"
    "is_running tm (current_task tm)" "level_of tm (current_task tm) = current_level tm"
proof -
  show q: "runq tm (current_level tm) = current_task tm # tl (runq tm (current_level tm))"
    using assms by (simp add: sched_inv_def current_task_def)
  have "current_task tm \<in> set (runq tm (current_level tm))" by (subst q) simp
  then show "is_running tm (current_task tm)" "level_of tm (current_task tm) = current_level tm"
    using assms by (auto simp: sched_inv_def queues_ok_def)
qed

lemma in_queue_iff:
  "sched_inv tm \<Longrightarrow> i \<in> set (runq tm lv) \<longleftrightarrow> is_running tm i \<and> level_of tm i = lv"
  "sched_inv tm \<Longrightarrow> distinct (runq tm lv)"
  by (simp_all add: sched_inv_def queues_ok_def)

lemma rotate_stay_inv:
  assumes inv: "sched_inv tm" and rot: "rotate_current_run_queue False tm = (cur, tm')"
  shows "sched_inv tm'" "\<forall>lv > current_level tm'. runq tm' lv = []"
proof -
  note r = rotate_result [OF rot]
  have q: "runq tm (current_level tm) = cur # tl (runq tm (current_level tm))"
    using current_in_queue(1) [OF inv] r(1) by simp
  obtain rest where rest: "runq tm (current_level tm) = cur # rest" using q by blast
  have qs: "set (runq tm' lv) = set (runq tm lv)" "distinct (runq tm' lv) = distinct (runq tm lv)" for lv
    by (cases "lv = current_level tm"; auto simp: r(6) rest)+
  have ex: "\<exists>lv. runq tm' lv \<noteq> []"
    by (rule exI [of _ "current_level tm"]) (simp add: r(6))
  have lk: "is_running tm' = is_running tm" "level_of tm' = level_of tm" "ids_ok tm' = ids_ok tm"
    using lookups_only_tasks [OF r(2)] r(2,3) by (simp_all add: ids_ok_def)
  have ok: "queues_ok tm" "top_ok tm" "current_level tm \<le> kMaxLevel" "ids_ok tm" "is_running tm 2"
    using inv by (simp_all add: sched_inv_def)
  have "queues_ok tm'" using ok(1) by (simp add: queues_ok_def qs lk)
  then show "sched_inv tm'" "\<forall>lv > current_level tm'. runq tm' lv = []"
    using rotate_top [OF rot ok(2,3) above_empty [OF ok(1)] ex] ok by (simp_all add: sched_inv_def top_ok_def lk)
qed

text \<open>The current task leaves the queues: its flag is cleared (\<^verbatim>\<open>Sleep\<close>) or it is removed
  (\<^verbatim>\<open>Finish\<close>). Apart from the lookups the two cases are the same.\<close>

lemma rotate_leave_queues:
  assumes inv: "sched_inv tm" and c: "current_task tm \<noteq> 2"
    and rot: "rotate_current_run_queue True tm1 = (cur, tm')"
    and same: "runq tm1 = runq tm" "current_level tm1 = current_level tm" "level_changed tm1 = level_changed tm"
  shows "cur = current_task tm" "\<forall>lv. distinct (runq tm' lv)"
    "\<forall>lv i. i \<in> set (runq tm' lv) \<longleftrightarrow> i \<noteq> current_task tm \<and> is_running tm i \<and> level_of tm i = lv"
    "current_level tm' \<le> kMaxLevel" "runq tm' (current_level tm') \<noteq> []" "\<forall>lv > current_level tm'. runq tm' lv = []"
proof -
  note r = rotate_result [OF rot]
  show cur: "cur = current_task tm" using r(1) same by (simp add: current_task_def)
  note q = current_in_queue [OF inv]
  have rq: "runq tm' = (runq tm)(current_level tm := tl (runq tm (current_level tm)))"
    using r(6) same by simp
  have d: "distinct (runq tm lv)" for lv using inv by (simp add: sched_inv_def queues_ok_def)
  show "\<forall>lv. distinct (runq tm' lv)" using d by (auto simp: rq distinct_tl)
  show mem: "\<forall>lv i. i \<in> set (runq tm' lv) \<longleftrightarrow> i \<noteq> current_task tm \<and> is_running tm i \<and> level_of tm i = lv"
  proof (intro allI)
    fix lv i
    have "i \<in> set (tl (runq tm (current_level tm))) \<longleftrightarrow> i \<noteq> current_task tm \<and> i \<in> set (runq tm (current_level tm))"
      using q(1) d [of "current_level tm"] by (metis distinct.simps(2) set_ConsD list.set_intros(2))
    then show "i \<in> set (runq tm' lv) \<longleftrightarrow> i \<noteq> current_task tm \<and> is_running tm i \<and> level_of tm i = lv"
      using inv q(3) by (auto simp: rq sched_inv_def queues_ok_def)
  qed
  have two: "2 \<in> set (runq tm' (level_of tm 2))" using mem c inv by (simp add: sched_inv_def)
  then have ex: "\<exists>lv. runq tm' lv \<noteq> []" by (metis list.distinct(1) list.set_cases)
  have "top_ok tm1" "current_level tm1 \<le> kMaxLevel" "\<forall>lv > kMaxLevel. runq tm1 lv = []"
    using inv above_empty [of tm] same by (auto simp: sched_inv_def top_ok_def)
  note top = rotate_top [OF rot this ex]
  show "current_level tm' \<le> kMaxLevel" "runq tm' (current_level tm') \<noteq> []" "\<forall>lv > current_level tm'. runq tm' lv = []"
    by (fact top)+
qed

lemma switch_task_inv:
  assumes "sched_inv tm"
  shows "sched_inv (snd (switch_task ctx tm))"
    "\<forall>lv > current_level (snd (switch_task ctx tm)). runq (snd (switch_task ctx tm)) lv = []"
proof -
  let ?tm1 = "update_task (current_task tm) (\<lambda>t. t\<lparr>task_context := ctx\<rparr>) tm"
  have "sched_inv ?tm1" using assms by (simp add: sched_inv_update)
  then show "sched_inv (snd (switch_task ctx tm))"
    "\<forall>lv > current_level (snd (switch_task ctx tm)). runq (snd (switch_task ctx tm)) lv = []"
    by (auto simp: switch_task_def Let_def split: prod.splits dest: rotate_stay_inv)
qed

lemma sleep_current:
  assumes inv: "sched_inv tm" and c: "current_task tm \<noteq> 2"
  obtains tm' where
    "sleep_task (current_task tm) tm = (Switch_Context (current_task tm') (current_task tm), tm')"
    "sched_inv tm'" "\<forall>lv > current_level tm'. runq tm' lv = []"
    "is_running tm' = (is_running tm)(current_task tm := False)" "level_of tm' = level_of tm"
    "tasks tm' = tasks (set_running (current_task tm) False tm)"
    "finish_tasks tm' = finish_tasks tm" "finish_waiter tm' = finish_waiter tm" "latest_id tm' = latest_id tm"
proof -
  let ?c = "current_task tm" and ?tm1 = "set_running (current_task tm) False tm"
  obtain cur tm' where rot: "rotate_current_run_queue True ?tm1 = (cur, tm')" by fastforce
  note q = current_in_queue [OF inv]
  note l = rotate_leave_queues [OF inv c rot] and r = rotate_result [OF rot]
  have s: "sleep_task ?c tm = (Switch_Context (current_task tm') ?c, tm')"
    using q rot l(1) by (simp add: sleep_task_def Let_def) (simp add: current_task_def)
  have lk: "is_running tm' = (is_running tm)(?c := False)" "level_of tm' = level_of tm" "ids_ok tm' = ids_ok ?tm1"
    using lookups_only_tasks [OF r(2)] r(2,3) by (auto simp: ids_ok_def fun_eq_iff)
  have "sched_inv tm'"
    using l inv c unfolding sched_inv_def queues_ok_def top_ok_def lk by auto
  then show thesis using that s l(6) lk(1,2) r by simp
qed

lemma sleep_other:
  assumes inv: "sched_inv tm" and i: "i \<noteq> current_task tm" "i \<noteq> 2"
  shows "sched_inv (snd (sleep_task i tm))" "\<not> is_running (snd (sleep_task i tm)) i"
    "current_task (snd (sleep_task i tm)) = current_task tm"
    "is_running (snd (sleep_task i tm)) = (is_running tm)(i := False)"
    "finish_tasks (snd (sleep_task i tm)) = finish_tasks tm"
    "finish_waiter (snd (sleep_task i tm)) = finish_waiter tm"
    "map task_id (tasks (snd (sleep_task i tm))) = map task_id (tasks tm)"
proof -
  note q = current_in_queue [OF inv]
  have hd: "i \<noteq> hd (runq tm (current_level tm))" using i by (simp add: current_task_def)
  let ?r = "set_runq (level_of tm i) (erase i (runq tm (level_of tm i))) (set_running i False tm)"
  have s: "sleep_task i tm = (if is_running tm i then (Stay, ?r) else (Stay, tm))"
    using hd by (simp add: sleep_task_def Let_def)
  have ne: "is_running tm i \<Longrightarrow> level_of tm i = current_level tm \<Longrightarrow> erase i (runq tm (current_level tm)) = current_task tm # erase i (tl (runq tm (current_level tm)))"
    by (subst q(1)) (use i in \<open>simp add: erase_def\<close>)
  have ids: "map task_id (tasks (set_running i False tm)) = map task_id (tasks tm)"
    unfolding set_running_def by (rule update_task_ids) simp
  show "sched_inv (snd (sleep_task i tm))"
    using inv i ne running_found [of tm i]
    by (auto simp: s sched_inv_def queues_ok_def top_ok_def erase_def)
  show "\<not> is_running (snd (sleep_task i tm)) i" by (simp add: s)
  show "current_task (snd (sleep_task i tm)) = current_task tm"
    using ne by (auto simp: s current_task_def)
  show "is_running (snd (sleep_task i tm)) = (is_running tm)(i := False)"
    by (auto simp: s fun_eq_iff)
  show "finish_tasks (snd (sleep_task i tm)) = finish_tasks tm"
    "finish_waiter (snd (sleep_task i tm)) = finish_waiter tm"
    "map task_id (tasks (snd (sleep_task i tm))) = map task_id (tasks tm)"
    by (simp_all add: s ids)
qed


lemma sleep_any:
  assumes inv: "sched_inv tm" and i: "i \<noteq> 2"
  shows "sched_inv (snd (sleep_task i tm))"
    "is_running (snd (sleep_task i tm)) = (is_running tm)(i := False)"
    "finish_tasks (snd (sleep_task i tm)) = finish_tasks tm"
    "finish_waiter (snd (sleep_task i tm)) = finish_waiter tm"
proof -
  have "sched_inv (snd (sleep_task i tm)) \<and> is_running (snd (sleep_task i tm)) = (is_running tm)(i := False) \<and>
    finish_tasks (snd (sleep_task i tm)) = finish_tasks tm \<and> finish_waiter (snd (sleep_task i tm)) = finish_waiter tm"
  proof (cases "i = current_task tm")
    case True
    show ?thesis by (rule sleep_current [OF inv]) (use True i in auto)
  next
    case False
    then show ?thesis using sleep_other [OF inv _ i] by simp
  qed
  then show "sched_inv (snd (sleep_task i tm))"
    "is_running (snd (sleep_task i tm)) = (is_running tm)(i := False)"
    "finish_tasks (snd (sleep_task i tm)) = finish_tasks tm"
    "finish_waiter (snd (sleep_task i tm)) = finish_waiter tm" by simp_all
qed

lemma wakeup_sleeping:
  assumes inv: "sched_inv tm" and i: "find_task tm i \<noteq> None" "\<not> is_running tm i" and l: "level \<le> int kMaxLevel"
  shows "sched_inv (wakeup_task i level tm)" "current_task (wakeup_task i level tm) = current_task tm"
    "is_running (wakeup_task i level tm) = (is_running tm)(i := True)"
    "finish_tasks (wakeup_task i level tm) = finish_tasks tm"
    "finish_waiter (wakeup_task i level tm) = finish_waiter tm"
proof -
  define lv where "lv = (if level < 0 then level_of tm i else nat level)"
  define tm2 where "tm2 = set_runq lv (runq tm lv @ [i]) (set_running i True (set_level i lv tm))"
  have w: "wakeup_task i level tm = (if current_level tm < lv then tm2\<lparr>level_changed := True\<rparr> else tm2)"
    using i by (simp add: wakeup_task_def Let_def lv_def tm2_def)
  have lv: "lv \<le> kMaxLevel" using inv l by (auto simp: lv_def sched_inv_def queues_ok_def)
  have q: "i \<notin> set (runq tm l)" for l using inv i by (simp add: in_queue_iff)
  have run: "is_running tm2 = (is_running tm)(i := True)" "level_of tm2 = (level_of tm)(i := lv)"
    using i by (auto simp: tm2_def fun_eq_iff)
  have ok: "ids_ok tm2" "\<forall>l. distinct (runq tm2 l)" "\<forall>l j. j \<in> set (runq tm2 l) \<longleftrightarrow> is_running tm2 j \<and> level_of tm2 j = l"
    "\<forall>j. level_of tm2 j \<le> kMaxLevel" "current_level tm2 = current_level tm"
    using inv i q lv by (auto simp: run sched_inv_def queues_ok_def) (auto simp: tm2_def in_queue_iff [OF inv] dest: running_found split: if_splits)
  have top: "current_level tm < lv \<or> top_ok tm2"
    using inv by (auto simp: tm2_def sched_inv_def top_ok_def)
  have ne: "runq tm2 (current_level tm) \<noteq> []"
    using inv by (simp add: tm2_def sched_inv_def)
  show "sched_inv (wakeup_task i level tm)"
    using ok top ne inv unfolding w
    by (auto simp: sched_inv_def queues_ok_def run) (auto simp: top_ok_def)
  show "current_task (wakeup_task i level tm) = current_task tm"
    using inv by (auto simp: w tm2_def current_task_def sched_inv_def)
  show "is_running (wakeup_task i level tm) = (is_running tm)(i := True)"
    by (simp add: w run)
  show "finish_tasks (wakeup_task i level tm) = finish_tasks tm"
    "finish_waiter (wakeup_task i level tm) = finish_waiter tm"
    by (simp_all add: w tm2_def)
qed

lemma change_level_keeps:
  assumes inv: "sched_inv tm" and i: "is_running tm i" and l: "level \<le> int kMaxLevel"
  shows "sched_inv (change_level_running i level tm)"
    "current_task (change_level_running i level tm) = current_task tm"
    "is_running (change_level_running i level tm) = is_running tm"
    "finish_tasks (change_level_running i level tm) = finish_tasks tm"
    "finish_waiter (change_level_running i level tm) = finish_waiter tm"
proof -
  define lv where "lv = nat level"
  define old where "old = level_of tm i"
  let ?w = "change_level_running i level tm"
  have goal: "sched_inv ?w \<and> current_task ?w = current_task tm \<and> is_running ?w = is_running tm \<and>
      finish_tasks ?w = finish_tasks tm \<and> finish_waiter ?w = finish_waiter tm"
  proof (cases "level < 0 \<or> level = int old")
    case True
    then show ?thesis using inv by (simp add: change_level_running_def old_def)
  next
    case False
    then have neq: "lv \<noteq> old" "lv \<le> kMaxLevel" using l by (auto simp: lv_def)
    have found: "find_task tm i \<noteq> None" using i by (rule running_found)
    have iq: "i \<in> set (runq tm old)" "i \<notin> set (runq tm lv)" using neq i by (auto simp: in_queue_iff [OF inv] old_def)
    show ?thesis
    proof (cases "i = current_task tm")
      case cur: True
      have old: "old = current_level tm" using current_in_queue(3) [OF inv] cur by (simp add: old_def)
      define tm3 where "tm3 = set_level i lv (set_runq lv (i # runq tm lv) (set_runq old (tl (runq tm old)) tm))"
      have w: "?w = (if current_level tm \<le> lv then tm3\<lparr>current_level := lv\<rparr> else tm3\<lparr>current_level := lv, level_changed := True\<rparr>)"
        using False cur neq(1) current_in_queue(3) [OF inv, unfolded current_task_def]
        by (simp add: change_level_running_def Let_def current_task_def old lv_def tm3_def)
      have q: "runq tm old = i # tl (runq tm old)" using current_in_queue(1) [OF inv] cur old by simp
      have run: "is_running tm3 = is_running tm" "level_of tm3 = (level_of tm)(i := lv)"
        using found by (auto simp: tm3_def fun_eq_iff)
      obtain rest where rest: "runq tm old = i # rest" using q by blast
      have d: "distinct (i # rest)" "distinct (runq tm lv)"
        using in_queue_iff(2) [OF inv, of old] rest in_queue_iff(2) [OF inv, of lv] by simp_all
      have rq: "runq tm3 = (runq tm)(old := rest, lv := i # runq tm lv)" by (simp add: tm3_def rest neq)
      have mem: "j \<in> set (runq tm3 l) \<longleftrightarrow> is_running tm3 j \<and> level_of tm3 j = l" for j l
      proof -
        have "j \<in> set rest \<longleftrightarrow> j \<noteq> i \<and> j \<in> set (runq tm old)" using d rest by auto
        then show ?thesis using i neq by (auto simp: rq run in_queue_iff [OF inv] old_def)
      qed
      have "queues_ok tm3"
        unfolding queues_ok_def using mem d iq neq in_queue_iff(2) [OF inv] inv
        by (auto simp: rq run sched_inv_def queues_ok_def)
      moreover have "ids_ok tm3" using inv by (simp add: tm3_def sched_inv_def)
      moreover have "current_level tm \<le> lv \<Longrightarrow> level_changed tm \<or> (\<forall>l > lv. runq tm3 l = [])"
        using inv by (auto simp: rq sched_inv_def top_ok_def old)
      moreover have "queues_ok (tm3\<lparr>current_level := lv\<rparr>) = queues_ok tm3"
        "queues_ok (tm3\<lparr>current_level := lv, level_changed := True\<rparr>) = queues_ok tm3"
        by (simp_all add: queues_ok_def)
      moreover have "finish_tasks tm3 = finish_tasks tm" "finish_waiter tm3 = finish_waiter tm"
        "level_changed tm3 = level_changed tm" by (simp_all add: tm3_def)
      moreover have "is_running tm 2" using inv by (simp add: sched_inv_def)
      ultimately show ?thesis unfolding w using neq(2)
        by (simp add: sched_inv_def top_ok_def run rq cur [symmetric]) (simp add: current_task_def rq)
    next
      case other: False
      define tm3 where "tm3 = set_level i lv (set_runq lv (runq tm lv @ [i]) (set_runq old (erase i (runq tm old)) tm))"
      have w: "?w = (if current_level tm < lv then tm3\<lparr>level_changed := True\<rparr> else tm3)"
        using False other neq(1) by (simp add: change_level_running_def Let_def current_task_def old_def [symmetric] lv_def tm3_def)
      have run: "is_running tm3 = is_running tm" "level_of tm3 = (level_of tm)(i := lv)"
        using found by (auto simp: tm3_def fun_eq_iff)
      have rq: "runq tm3 = (runq tm)(old := erase i (runq tm old), lv := runq tm lv @ [i])" using neq by (simp add: tm3_def)
      have "queues_ok tm3"
        unfolding queues_ok_def using iq neq i inv
        by (auto simp: rq run erase_def in_queue_iff [OF inv] old_def sched_inv_def queues_ok_def)
      moreover have "ids_ok tm3" using inv by (simp add: tm3_def sched_inv_def)
      moreover have "runq tm3 (current_level tm) \<noteq> [] \<and> hd (runq tm3 (current_level tm)) = current_task tm"
      proof -
        have "erase i (runq tm (current_level tm)) = current_task tm # erase i (tl (runq tm (current_level tm)))"
          by (subst current_in_queue(1) [OF inv]) (use other in \<open>simp add: erase_def\<close>)
        moreover have "runq tm (current_level tm) \<noteq> []" using inv by (simp add: sched_inv_def)
        ultimately show ?thesis by (auto simp: rq current_task_def)
      qed
      moreover have "current_level tm3 = current_level tm" "level_changed tm3 = level_changed tm" by (simp_all add: tm3_def)
      moreover have "lv \<le> current_level tm \<Longrightarrow> level_changed tm \<or> (\<forall>l > current_level tm. runq tm3 l = [])"
        using inv by (auto simp: rq sched_inv_def top_ok_def erase_def)
      ultimately show ?thesis using inv neq
        by (auto simp: w sched_inv_def queues_ok_def top_ok_def run current_task_def) (auto simp: tm3_def)
    qed
  qed
  then show "sched_inv ?w" "current_task ?w = current_task tm" "is_running ?w = is_running tm"
      "finish_tasks ?w = finish_tasks tm" "finish_waiter ?w = finish_waiter tm" by simp_all
qed

lemma wakeup_keeps:
  assumes inv: "sched_inv tm" and i: "find_task tm i \<noteq> None" and l: "level \<le> int kMaxLevel"
  shows "sched_inv (wakeup_task i level tm)" "current_task (wakeup_task i level tm) = current_task tm"
    "is_running (wakeup_task i level tm) = (is_running tm)(i := True)"
    "finish_tasks (wakeup_task i level tm) = finish_tasks tm"
    "finish_waiter (wakeup_task i level tm) = finish_waiter tm"
proof -
  have w: "wakeup_task i level tm = change_level_running i level tm" if "is_running tm i"
    using that by (simp add: wakeup_task_def)
  show "sched_inv (wakeup_task i level tm)" "current_task (wakeup_task i level tm) = current_task tm"
    "is_running (wakeup_task i level tm) = (is_running tm)(i := True)"
    "finish_tasks (wakeup_task i level tm) = finish_tasks tm"
    "finish_waiter (wakeup_task i level tm) = finish_waiter tm"
    using wakeup_sleeping [OF inv i _ l] change_level_keeps [OF inv _ l]
    by (cases "is_running tm i"; auto simp: w fun_eq_iff)+
qed


lemma new_task_keeps:
  assumes inv: "sched_inv tm"
  shows "sched_inv (snd (new_task tm))" "is_running (snd (new_task tm)) = is_running tm"
    "current_task (snd (new_task tm)) = current_task tm" "find_task tm i \<noteq> None \<Longrightarrow> find_task (snd (new_task tm)) i \<noteq> None"
    "finish_tasks (snd (new_task tm)) = finish_tasks tm" "finish_waiter (snd (new_task tm)) = finish_waiter tm"
    "find_task tm (fst (new_task tm)) = None"
proof -
  let ?n = "latest_id tm + 1" and ?tm = "snd (new_task tm)"
  have le: "\<forall>t \<in> set (tasks tm). task_id t \<le> latest_id tm" using inv by (simp add: sched_inv_def ids_ok_def)
  then have none: "find (\<lambda>t. task_id t = ?n) (tasks tm) = None" by (fastforce simp: find_None_iff)
  have app: "find (\<lambda>t. task_id t = j) (ts @ [u]) =
      (case find (\<lambda>t. task_id t = j) ts of Some t \<Rightarrow> Some t | None \<Rightarrow> if task_id u = j then Some u else None)" for ts u j
    by (induction ts) auto
  have f: "find_task ?tm j = (if j = ?n then Some (new_task_record ?n) else find_task tm j)" for j
    using none by (auto simp: find_task_def new_task_def Let_def app new_task_record_def split: option.split)
  have fn: "find_task tm ?n = None" using none by (simp add: find_task_def)
  show run: "is_running ?tm = is_running tm"
    using fn by (auto simp: fun_eq_iff is_running_def f new_task_record_def)
  have lev: "level_of ?tm j = (if j = ?n then 1 else level_of tm j)" for j
    by (simp add: level_of_def f new_task_record_def)
  have nr: "\<not> is_running tm ?n" using fn running_found by blast
  have "ids_ok ?tm" using inv le by (auto simp: sched_inv_def ids_ok_def new_task_def Let_def new_task_record_def)
  moreover have "queues_ok ?tm"
    using inv nr by (auto simp: queues_ok_def run lev sched_inv_def kMaxLevel_def) (auto simp: new_task_def Let_def)
  ultimately show "sched_inv ?tm"
    using inv by (simp add: sched_inv_def run) (simp add: top_ok_def new_task_def Let_def)
  show "current_task ?tm = current_task tm" "finish_tasks ?tm = finish_tasks tm" "finish_waiter ?tm = finish_waiter tm"
    by (simp_all add: current_task_def new_task_def Let_def)
  show "find_task tm i \<noteq> None \<Longrightarrow> find_task ?tm i \<noteq> None" by (simp add: f)
  show "find_task tm (fst (new_task tm)) = None" using fn by (simp add: new_task_def Let_def)
qed

lemma send_keeps:
  assumes inv: "sched_inv tm"
  shows "sched_inv (snd (send_message i m tm))" "current_task (snd (send_message i m tm)) = current_task tm"
    "is_running (snd (send_message i m tm)) = (if find_task tm i = None then is_running tm else (is_running tm)(i := True))"
    "finish_tasks (snd (send_message i m tm)) = finish_tasks tm"
    "finish_waiter (snd (send_message i m tm)) = finish_waiter tm"
proof -
  let ?tm1 = "update_task i (\<lambda>t. t\<lparr>msgs := msgs t @ [m]\<rparr>) tm"
  have s: "snd (send_message i m tm) = (if find_task tm i = None then tm else wakeup_task i (- 1) ?tm1)"
    by (simp add: send_message_def task_send_message_def split: option.split)
  have inv1: "sched_inv ?tm1" using inv by (simp add: sched_inv_update)
  have run: "is_running ?tm1 = is_running tm" by (simp add: update_lookups)
  have f1: "find_task ?tm1 i \<noteq> None" if "find_task tm i \<noteq> None" using that by (simp add: find_task_update)
  note w = wakeup_keeps [OF inv1 f1, of "- 1"]
  show "sched_inv (snd (send_message i m tm))" "current_task (snd (send_message i m tm)) = current_task tm"
    "is_running (snd (send_message i m tm)) = (if find_task tm i = None then is_running tm else (is_running tm)(i := True))"
    "finish_tasks (snd (send_message i m tm)) = finish_tasks tm"
    "finish_waiter (snd (send_message i m tm)) = finish_waiter tm"
    using inv w by (auto simp: s run current_task_def kMaxLevel_def)
qed

text \<open>Which tasks exist, under the operations.\<close>

definition live :: "task_manager \<Rightarrow> nat set" where
  "live tm = task_id ` set (tasks tm)"

lemma find_task_live: "find_task tm i \<noteq> None \<longleftrightarrow> i \<in> live tm"
  unfolding find_task_def live_def by (auto simp: find_None_iff)

lemma live_update: "(\<And>t. task_id (f t) = task_id t) \<Longrightarrow> live (update_task i f tm) = live tm"
  unfolding live_def using update_task_ids by (metis set_map)

lemma live_simps [simp]:
  "live (set_level i l tm) = live tm" "live (set_running i b tm) = live tm" "live (set_runq lv q tm) = live tm"
  "live (tm\<lparr>level_changed := c\<rparr>) = live tm" "live (tm\<lparr>current_level := l\<rparr>) = live tm"
  "live (tm\<lparr>finish_waiter := w\<rparr>) = live tm" "live (tm\<lparr>finish_tasks := ft\<rparr>) = live tm"
  by (simp_all add: set_level_def set_running_def live_update) (simp_all add: live_def)

lemma live_rotate: "live (snd (rotate_current_run_queue b tm)) = live tm"
  using rotate_result(2) [of b tm] by (metis live_def prod.collapse)

lemma live_ops:
  "live (wakeup_task i level tm) = live tm" "live (snd (sleep_task i tm)) = live tm"
  "live (snd (send_message i m tm)) = live tm" "live (snd (switch_task ctx tm)) = live tm"
proof -
  show w: "live (wakeup_task i level tm) = live tm" for i level tm
    by (simp add: wakeup_task_def change_level_running_def Let_def if_distrib [where f = live])
  show "live (snd (sleep_task i tm)) = live tm"
    by (simp add: sleep_task_def Let_def case_prod_unfold live_rotate)
  show "live (snd (send_message i m tm)) = live tm"
    by (simp add: send_message_def task_send_message_def w live_update split: option.split)
  show "live (snd (switch_task ctx tm)) = live tm"
    by (simp add: switch_task_def Let_def live_update live_rotate case_prod_unfold)
qed

section \<open>Finish\<close>

lemma remove_task_ids: "map task_id (remove_task i ts) = remove1 i (map task_id ts)"
  by (induction i ts rule: remove_task.induct) auto

lemma find_remove_task:
  "distinct (map task_id ts) \<Longrightarrow>
   find (\<lambda>t. task_id t = j) (remove_task i ts) = (if j = i then None else find (\<lambda>t. task_id t = j) ts)"
  by (induction i ts rule: remove_task.induct) (auto simp: find_None_iff image_iff)

text \<open>What \<^verbatim>\<open>Finish\<close> does before it looks for a waiter.\<close>

lemma finish_removed:
  fixes code :: int
  assumes inv: "sched_inv tm" and c: "current_task tm \<noteq> 2"
    and rot: "rotate_current_run_queue True tm = (i, tm1)"
  defines "tm2 \<equiv> tm1\<lparr>tasks := remove_task i (tasks tm1), finish_tasks := (finish_tasks tm1)(i \<mapsto> code)\<rparr>"
  shows "i = current_task tm" "sched_inv tm2" "is_running tm2 = (is_running tm)(i := False)"
    "live tm2 = live tm - {i}" "\<forall>lv > current_level tm2. runq tm2 lv = []"
proof -
  note r = rotate_result [OF rot] and l = rotate_leave_queues [OF inv c rot refl refl refl]
  show i: "i = current_task tm" by (fact l(1))
  have d: "distinct (map task_id (tasks tm))" using inv by (simp add: sched_inv_def ids_ok_def)
  have f: "find_task tm2 j = (if j = i then None else find_task tm j)" for j
    by (simp add: tm2_def find_task_def r(2) find_remove_task [OF d])
  show run: "is_running tm2 = (is_running tm)(i := False)"
    by (auto simp: fun_eq_iff is_running_def f)
  have lev: "level_of tm2 j = (if j = i then 0 else level_of tm j)" for j
    by (simp add: level_of_def f)
  have ids: "map task_id (tasks tm2) = remove1 i (map task_id (tasks tm))"
    by (simp add: tm2_def r(2) remove_task_ids)
  show "live tm2 = live tm - {i}"
    using d unfolding live_def set_map [symmetric] ids by simp
  have "ids_ok tm2"
    using inv set_remove1_subset [of i "map task_id (tasks tm)"] unfolding sched_inv_def ids_ok_def ids
    by (auto simp: tm2_def r(3) distinct_remove1)
  moreover have "queues_ok tm2"
    unfolding queues_ok_def run lev using l(2,3) inv by (auto simp: tm2_def i sched_inv_def queues_ok_def)
  moreover have tops: "current_level tm2 = current_level tm1" "runq tm2 = runq tm1" by (simp_all add: tm2_def)
  ultimately show "sched_inv tm2"
    using l(4-6) inv c i by (simp add: sched_inv_def top_ok_def run)
  show "\<forall>lv > current_level tm2. runq tm2 lv = []" using l(6) tops by simp
qed

lemma finish_keeps:
  assumes inv: "sched_inv tm" and c: "current_task tm \<noteq> 2"
    and w: "\<forall>a. finish_waiter tm (current_task tm) = Some a \<longrightarrow> a \<in> live tm \<and> a \<noteq> current_task tm"
  shows "sched_inv (snd (finish code tm))"
    "is_running (snd (finish code tm)) = (\<lambda>i. (i \<noteq> current_task tm \<and> is_running tm i) \<or> finish_waiter tm (current_task tm) = Some i)"
    "live (snd (finish code tm)) = live tm - {current_task tm}"
    "finish_tasks (snd (finish code tm)) = (finish_tasks tm)(current_task tm \<mapsto> code)"
    "finish_waiter (snd (finish code tm)) = (finish_waiter tm)(current_task tm := None)"
    "fst (finish code tm) = Restore_Context (current_task (snd (finish code tm)))"
proof -
  obtain i tm1 where rot: "rotate_current_run_queue True tm = (i, tm1)" by fastforce
  define tm2 where "tm2 = tm1\<lparr>tasks := remove_task i (tasks tm1), finish_tasks := (finish_tasks tm1)(i \<mapsto> code)\<rparr>"
  note f = finish_removed(1) [OF inv c rot] finish_removed(2-5) [OF inv c rot, where code = code, folded tm2_def]
    and r = rotate_result [OF rot]
  have fw: "finish_waiter tm2 = finish_waiter tm" "finish_tasks tm2 = (finish_tasks tm)(i \<mapsto> code)"
    by (simp_all add: tm2_def r)
  define tm2' where "tm2' = tm2\<lparr>finish_waiter := (finish_waiter tm)(i := None)\<rparr>"
  have inv': "sched_inv tm2'" using f(2) by (simp add: tm2'_def sched_inv_def queues_ok_def top_ok_def)
  have fin: "snd (finish code tm) = (case finish_waiter tm i of Some a \<Rightarrow> wakeup_task a (- 1) tm2' | None \<Rightarrow> tm2)"
    using rot fw by (simp add: finish_def Let_def r(5) tm2_def [symmetric] tm2'_def split: option.split)
  have wk: "sched_inv (wakeup_task a (- 1) tm2') \<and> is_running (wakeup_task a (- 1) tm2') = (is_running tm2)(a := True) \<and>
      finish_tasks (wakeup_task a (- 1) tm2') = finish_tasks tm2 \<and>
      finish_waiter (wakeup_task a (- 1) tm2') = (finish_waiter tm)(i := None) \<and> live (wakeup_task a (- 1) tm2') = live tm2"
    if "finish_waiter tm i = Some a" for a
  proof -
    have "a \<in> live tm2'" using w that f(1,4) by (simp add: tm2'_def)
    then have "find_task tm2' a \<noteq> None" by (simp only: find_task_live)
    from wakeup_keeps [OF inv' this, of "- 1"] show ?thesis by (simp add: tm2'_def kMaxLevel_def live_ops)
  qed
  have none: "(finish_waiter tm)(i := None) = finish_waiter tm" if "finish_waiter tm i = None"
    using that by auto
  show "sched_inv (snd (finish code tm))"
    "is_running (snd (finish code tm)) = (\<lambda>j. (j \<noteq> current_task tm \<and> is_running tm j) \<or> finish_waiter tm (current_task tm) = Some j)"
    "live (snd (finish code tm)) = live tm - {current_task tm}"
    "finish_tasks (snd (finish code tm)) = (finish_tasks tm)(current_task tm \<mapsto> code)"
    "finish_waiter (snd (finish code tm)) = (finish_waiter tm)(current_task tm := None)"
    using f wk fw none w unfolding fin by (auto simp: fun_eq_iff split: option.split)
  show "fst (finish code tm) = Restore_Context (current_task (snd (finish code tm)))"
    by (simp add: finish_def Let_def case_prod_unfold)
qed


section \<open>The running system\<close>

text \<open>
  The state of the system: the task manager, and which task is inside the loop of \<^verbatim>\<open>WaitFinish\<close> for
  which other task. Interrupts may switch, wake up and send at any time; the other operations are calls of
  the current task, which only runs the loop while it is inside it. Assumed of the callers (the code
  satisfies it): the idle task never sleeps, waits or finishes, nobody puts a task to sleep that is
  inside \<^verbatim>\<open>WaitFinish\<close>, a level is at most \<open>kMaxLevel\<close>, and one task is waited for by one task
  at a time.
\<close>

type_synonym sched_state = "task_manager \<times> (nat \<rightharpoonup> nat)"

inductive sched_step :: "sched_state \<Rightarrow> sched_state \<Rightarrow> bool" where
  Step_New: "sched_step (tm, w) (snd (new_task tm), w)"
| Step_Switch: "sched_step (tm, w) (snd (switch_task ctx tm), w)"
| Step_Wakeup: "level \<le> int kMaxLevel \<Longrightarrow> sched_step (tm, w) (snd (wakeup_id i level tm), w)"
| Step_Send: "sched_step (tm, w) (snd (send_message i m tm), w)"
| Step_Receive: "w (current_task tm) = None \<Longrightarrow>
    sched_step (tm, w) (update_task (current_task tm) (\<lambda>t. snd (receive_message t)) tm, w)"
| Step_Sleep: "i \<noteq> 2 \<Longrightarrow> w i = None \<Longrightarrow> sched_step (tm, w) (snd (snd (sleep_id i tm)), w)"
| Step_Finish: "current_task tm \<noteq> 2 \<Longrightarrow> w (current_task tm) = None \<Longrightarrow>
    sched_step (tm, w) (snd (finish code tm), w)"
| Step_Wait_Begin: "current_task tm \<noteq> 2 \<Longrightarrow> w (current_task tm) = None \<Longrightarrow> i \<notin> ran w \<Longrightarrow>
    sched_step (tm, w) (tm, w(current_task tm \<mapsto> i))"
| Step_Wait_Loop: "w (current_task tm) = Some i \<Longrightarrow>
    wait_finish_pass i (current_task tm) tm = (Inl act, tm') \<Longrightarrow> sched_step (tm, w) (tm', w)"
| Step_Wait_Done: "w (current_task tm) = Some i \<Longrightarrow>
    wait_finish_pass i (current_task tm) tm = (Inr code, tm') \<Longrightarrow>
    sched_step (tm, w) (tm', w(current_task tm := None))"

inductive_cases sched_stepE: "sched_step s s'"

inductive sched_reachable :: "u64 \<Rightarrow> u64 \<Rightarrow> u64 \<Rightarrow> sched_state \<Rightarrow> bool" for stack_end cr3 task_idle where
  Reach_Init: "sched_reachable stack_end cr3 task_idle (new_task_manager stack_end cr3 task_idle, Map.empty)"
| Reach_Step: "sched_reachable stack_end cr3 task_idle s \<Longrightarrow> sched_step s s' \<Longrightarrow>
    sched_reachable stack_end cr3 task_idle s'"

definition wait_inv :: "sched_state \<Rightarrow> bool" where
  "wait_inv s \<longleftrightarrow> (case s of (tm, w) \<Rightarrow>
     (\<forall>i a. finish_waiter tm i = Some a \<longrightarrow> w a = Some i \<and> finish_tasks tm i = None) \<and>
     (\<forall>a i. w a = Some i \<longrightarrow> a \<noteq> 2 \<and> a \<in> live tm \<and>
        (is_running tm a \<or> finish_waiter tm i = Some a \<and> finish_tasks tm i = None)) \<and>
     (\<forall>a b i. w a = Some i \<longrightarrow> w b = Some i \<longrightarrow> a = b))"

lemma initial_sched_inv: "sched_inv (new_task_manager se cr3 ti)"
proof -
  let ?tm = "new_task_manager se cr3 ti"
  have tasks: "tasks ?tm = [(new_task_record 1)\<lparr>task_level := 3, task_running := True\<rparr>,
      (init_context se cr3 ti 0 (new_task_record 2))\<lparr>task_level := 0, task_running := True\<rparr>]"
    by (simp add: new_task_manager_def new_task_def Let_def set_running_def set_level_def update_task_def
        set_runq_def new_task_record_def init_context_def kMaxLevel_def)
  have rest: "runq ?tm = (\<lambda>_. [])(3 := [1], 0 := [2])" "current_level ?tm = 3" "level_changed ?tm = False" "latest_id ?tm = 2"
    by (simp_all add: new_task_manager_def new_task_def Let_def kMaxLevel_def set_runq_def fun_eq_iff)
  have lk: "is_running ?tm i \<longleftrightarrow> i = 1 \<or> i = 2" "level_of ?tm i = (if i = 1 then 3 else 0)" for i
    by (auto simp: is_running_def level_of_def find_task_def tasks new_task_record_def init_context_def)
  show ?thesis
    unfolding sched_inv_def ids_ok_def queues_ok_def top_ok_def rest lk
    by (auto simp: tasks kMaxLevel_def new_task_record_def init_context_def)
qed

lemma wait_invI:
  assumes "\<And>i a. finish_waiter tm i = Some a \<Longrightarrow> w a = Some i \<and> finish_tasks tm i = None"
    "\<And>a i. w a = Some i \<Longrightarrow> a \<noteq> 2 \<and> a \<in> live tm \<and> (is_running tm a \<or> finish_waiter tm i = Some a \<and> finish_tasks tm i = None)"
    "\<And>a b i. w a = Some i \<Longrightarrow> w b = Some i \<Longrightarrow> a = b"
  shows "wait_inv (tm, w)"
  using assms by (simp add: wait_inv_def)

lemma wait_invD:
  assumes "wait_inv (tm, w)"
  shows "finish_waiter tm i = Some a \<Longrightarrow> w a = Some i \<and> finish_tasks tm i = None"
    "w a = Some i \<Longrightarrow> a \<noteq> 2 \<and> a \<in> live tm \<and> (is_running tm a \<or> finish_waiter tm i = Some a \<and> finish_tasks tm i = None)"
    "w a = Some i \<Longrightarrow> w b = Some i \<Longrightarrow> a = b"
  using assms unfolding wait_inv_def by blast+

lemma waiting_kept:
  assumes "wait_inv (tm, w)"
    and "finish_waiter tm' = finish_waiter tm" "finish_tasks tm' = finish_tasks tm"
    "\<And>i. is_running tm i \<Longrightarrow> w i \<noteq> None \<Longrightarrow> is_running tm' i" "live tm \<subseteq> live tm'"
  shows "wait_inv (tm', w)"
proof (rule wait_invI)
  show "w a = Some i \<and> finish_tasks tm' i = None" if "finish_waiter tm' i = Some a" for i a
    using that wait_invD(1) [OF assms(1)] assms(2,3) by simp
  show "a = b" if "w a = Some i" "w b = Some i" for a b i
    using that wait_invD(3) [OF assms(1)] by blast
  show "a \<noteq> 2 \<and> a \<in> live tm' \<and> (is_running tm' a \<or> finish_waiter tm' i = Some a \<and> finish_tasks tm' i = None)"
    if "w a = Some i" for a i
    using that wait_invD(2) [OF assms(1) that] assms(2,3,5) assms(4) [of a] by auto
qed

lemma switch_task_keeps:
  "is_running (snd (switch_task ctx tm)) = is_running tm"
  "finish_tasks (snd (switch_task ctx tm)) = finish_tasks tm"
  "finish_waiter (snd (switch_task ctx tm)) = finish_waiter tm"
proof -
  let ?tm1 = "update_task (current_task tm) (\<lambda>t. t\<lparr>task_context := ctx\<rparr>) tm"
  obtain cur tm2 where rot: "rotate_current_run_queue False ?tm1 = (cur, tm2)" by fastforce
  have s: "snd (switch_task ctx tm) = tm2" by (simp add: switch_task_def Let_def rot)
  note r = rotate_result [OF rot]
  show "is_running (snd (switch_task ctx tm)) = is_running tm"
    unfolding s lookups_only_tasks(2) [OF r(2)] by (simp add: update_lookups)
  show "finish_tasks (snd (switch_task ctx tm)) = finish_tasks tm"
    "finish_waiter (snd (switch_task ctx tm)) = finish_waiter tm"
    by (simp_all add: s r)
qed

lemma wakeup_id_step:
  assumes inv: "sched_inv tm" and wi: "wait_inv (tm, w)" and l: "level \<le> int kMaxLevel"
  shows "sched_inv (snd (wakeup_id i level tm)) \<and> wait_inv (snd (wakeup_id i level tm), w)"
proof (cases "find_task tm i = None")
  case False
  then have s: "snd (wakeup_id i level tm) = wakeup_task i level tm" by (auto simp: wakeup_id_def)
  note k = wakeup_keeps [OF inv False l]
  have "wait_inv (wakeup_task i level tm, w)"
    by (rule waiting_kept [OF wi]) (simp_all add: k live_ops)
  with k(1) show ?thesis by (simp add: s)
qed (use assms in \<open>simp add: wakeup_id_def\<close>)

lemma sleep_id_step:
  assumes inv: "sched_inv tm" and wi: "wait_inv (tm, w)" and i: "i \<noteq> 2" "w i = None"
  shows "sched_inv (snd (snd (sleep_id i tm))) \<and> wait_inv (snd (snd (sleep_id i tm)), w)"
proof (cases "find_task tm i = None")
  case False
  then have s: "snd (snd (sleep_id i tm)) = snd (sleep_task i tm)" by (auto simp: sleep_id_def)
  note k = sleep_any [OF inv i(1)]
  have "wait_inv (snd (sleep_task i tm), w)"
    by (rule waiting_kept [OF wi]) (use i(2) in \<open>auto simp: k live_ops\<close>)
  with k(1) show ?thesis by (simp add: s)
qed (use assms in \<open>simp add: sleep_id_def\<close>)

lemma finish_step:
  assumes inv: "sched_inv tm" and wi: "wait_inv (tm, w)" and c: "current_task tm \<noteq> 2" "w (current_task tm) = None"
  shows "sched_inv (snd (finish code tm)) \<and> wait_inv (snd (finish code tm), w)"
proof -
  let ?c = "current_task tm"
  have wt: "\<forall>a. finish_waiter tm ?c = Some a \<longrightarrow> a \<in> live tm \<and> a \<noteq> ?c"
    using wait_invD(1,2) [OF wi] c by (metis option.distinct(1))
  note f = finish_keeps [OF inv c(1) wt, of code]
  have "wait_inv (snd (finish code tm), w)"
  proof (rule wait_invI, unfold f)
    show "w a = Some i \<and> ((finish_tasks tm)(?c \<mapsto> code)) i = None" if "((finish_waiter tm)(?c := None)) i = Some a" for i a
      using that wait_invD(1) [OF wi, of i a] by (cases "i = ?c") auto
    show "a = b" if "w a = Some i" "w b = Some i" for a b i
      using that wait_invD(3) [OF wi] by blast
    show "a \<noteq> 2 \<and> a \<in> live tm - {?c} \<and> ((a \<noteq> ?c \<and> is_running tm a \<or> finish_waiter tm ?c = Some a) \<or>
        ((finish_waiter tm)(?c := None)) i = Some a \<and> ((finish_tasks tm)(?c \<mapsto> code)) i = None)"
      if "w a = Some i" for a i
      using wait_invD(2) [OF wi that] that c(2) by (cases "i = ?c") auto
  qed
  with f(1) show ?thesis by simp
qed

lemma wait_begin_step:
  assumes inv: "sched_inv tm" and wi: "wait_inv (tm, w)" and c: "current_task tm \<noteq> 2" "w (current_task tm) = None"
    and i: "i \<notin> ran w"
  shows "wait_inv (tm, w(current_task tm \<mapsto> i))"
proof (rule wait_invI)
  let ?c = "current_task tm"
  have cur: "is_running tm ?c" "?c \<in> live tm"
    using current_in_queue(2) [OF inv] running_found find_task_live by blast+
  show "(w(?c \<mapsto> i)) a = Some j \<and> finish_tasks tm j = None" if "finish_waiter tm j = Some a" for j a
    using wait_invD(1) [OF wi that] c(2) by auto
  show "a \<noteq> 2 \<and> a \<in> live tm \<and> (is_running tm a \<or> finish_waiter tm j = Some a \<and> finish_tasks tm j = None)"
    if "(w(?c \<mapsto> i)) a = Some j" for a j
    using that cur c(1) wait_invD(2) [OF wi, of a j] by (cases "a = ?c") auto
  show "a = b" if "(w(?c \<mapsto> i)) a = Some j" "(w(?c \<mapsto> i)) b = Some j" for a b j
    using that i wait_invD(3) [OF wi, of a j b] by (cases "a = ?c"; cases "b = ?c") (auto simp: ran_def)
qed

lemma wait_loop_step:
  assumes inv: "sched_inv tm" and wi: "wait_inv (tm, w)" and w: "w (current_task tm) = Some i"
    and pass: "wait_finish_pass i (current_task tm) tm = (Inl act, tm')"
  shows "sched_inv tm' \<and> wait_inv (tm', w)"
proof -
  let ?c = "current_task tm" and ?tm1 = "tm\<lparr>finish_waiter := (finish_waiter tm)(i \<mapsto> current_task tm)\<rparr>"
  have none: "finish_tasks tm i = None" and tm': "tm' = snd (sleep_task ?c ?tm1)"
    using pass by (auto simp: wait_finish_pass_def Let_def split: option.splits prod.splits)
  have inv1: "sched_inv ?tm1" using inv by (simp add: sched_inv_def queues_ok_def top_ok_def)
  have c2: "?c \<noteq> 2" using wait_invD(2) [OF wi w] by simp
  note s = sleep_any [OF inv1 c2]
  have "wait_inv (tm', w)"
  proof (rule wait_invI, unfold tm' s live_ops live_simps)
    show "w a = Some j \<and> finish_tasks ?tm1 j = None" if "finish_waiter ?tm1 j = Some a" for j a
      using that none w wait_invD(1) [OF wi, of j a] by (cases "j = i") auto
    show "a = b" if "w a = Some j" "w b = Some j" for a b j
      using that wait_invD(3) [OF wi] by blast
    show "a \<noteq> 2 \<and> a \<in> live tm \<and> (((is_running ?tm1)(?c := False)) a \<or> finish_waiter ?tm1 j = Some a \<and> finish_tasks ?tm1 j = None)"
      if "w a = Some j" for a j
      using that none w wait_invD(2) [OF wi that] wait_invD(3) [OF wi, of a j ?c] by (cases "a = ?c"; cases "j = i") auto
  qed
  with s(1) show ?thesis by (simp add: tm')
qed

lemma wait_done_step:
  assumes inv: "sched_inv tm" and wi: "wait_inv (tm, w)" and w: "w (current_task tm) = Some i"
    and pass: "wait_finish_pass i (current_task tm) tm = (Inr code, tm')"
  shows "sched_inv tm' \<and> wait_inv (tm', w(current_task tm := None))"
proof -
  let ?c = "current_task tm"
  have tm': "tm' = tm\<lparr>finish_tasks := (finish_tasks tm)(i := None)\<rparr>" and some: "finish_tasks tm i = Some code"
    using pass by (auto simp: wait_finish_pass_def Let_def split: option.splits prod.splits)
  have "wait_inv (tm', w(?c := None))"
  proof (rule wait_invI, unfold tm' live_simps lookups_queue)
    let ?tm1 = "tm\<lparr>finish_tasks := (finish_tasks tm)(i := None)\<rparr>"
    show "(w(?c := None)) a = Some j \<and> finish_tasks ?tm1 j = None" if "finish_waiter ?tm1 j = Some a" for j a
      using that some w wait_invD(1) [OF wi, of j a] by (cases "j = i") auto
    show "a = b" if "(w(?c := None)) a = Some j" "(w(?c := None)) b = Some j" for a b j
      using that wait_invD(3) [OF wi, of a j b] by (auto split: if_splits)
    show "a \<noteq> 2 \<and> a \<in> live tm \<and> (is_running tm a \<or> finish_waiter ?tm1 j = Some a \<and> finish_tasks ?tm1 j = None)"
      if "(w(?c := None)) a = Some j" for a j
      using that wait_invD(2) [OF wi, of a j] by (auto split: if_splits)
  qed
  then show ?thesis using inv by (simp add: tm' sched_inv_def queues_ok_def top_ok_def)
qed

lemma new_task_step:
  assumes inv: "sched_inv tm" and wi: "wait_inv (tm, w)" 
  shows "sched_inv (snd (new_task tm)) \<and> wait_inv (snd (new_task tm), w)"
proof -
  have "live tm \<subseteq> live (snd (new_task tm))" by (auto simp: live_def new_task_def Let_def)
  then have "wait_inv (snd (new_task tm), w)"
    by (intro waiting_kept [OF wi]) (simp_all add: new_task_keeps [OF inv])
  with new_task_keeps(1) [OF inv] show ?thesis by simp
qed

lemma switch_task_step:
  assumes inv: "sched_inv tm" and wi: "wait_inv (tm, w)" 
  shows "sched_inv (snd (switch_task ctx tm)) \<and> wait_inv (snd (switch_task ctx tm), w)"
proof -
  have "wait_inv (snd (switch_task ctx tm), w)"
    by (rule waiting_kept [OF wi]) (simp_all add: switch_task_keeps live_ops)
  with inv switch_task_inv(1) [of tm ctx] show ?thesis by simp
qed

lemma send_message_step:
  assumes inv: "sched_inv tm" and wi: "wait_inv (tm, w)" 
  shows "sched_inv (snd (send_message i m tm)) \<and> wait_inv (snd (send_message i m tm), w)"
proof -
  have "wait_inv (snd (send_message i m tm), w)"
    by (rule waiting_kept [OF wi]) (simp_all add: send_keeps [OF inv] live_ops)
  with send_keeps(1) [OF inv] show ?thesis by simp
qed

lemma receive_step:
  assumes inv: "sched_inv tm" and wi: "wait_inv (tm, w)" 
  shows "sched_inv (update_task (current_task tm) (\<lambda>t. snd (receive_message t)) tm) \<and> wait_inv (update_task (current_task tm) (\<lambda>t. snd (receive_message t)) tm, w)"
proof -
  have r: "task_id (snd (receive_message t)) = task_id t" "task_level (snd (receive_message t)) = task_level t"
    "task_running (snd (receive_message t)) = task_running t" for t
    by (simp_all add: receive_message_def split: list.split)
  have "wait_inv (update_task (current_task tm) (\<lambda>t. snd (receive_message t)) tm, w)"
    by (rule waiting_kept [OF wi]) (simp_all add: r update_lookups live_update)
  with inv show ?thesis by (simp add: sched_inv_update r)
qed
lemma step_keeps:
  assumes "sched_step s s'" "sched_inv (fst s)" "wait_inv s"
  
  shows "sched_inv (fst s') \<and> wait_inv s'"
  using assms
proof (cases rule: sched_step.cases)
  case (Step_New tm w)
  then show ?thesis using new_task_step [of tm w] assms by simp
next
  case (Step_Switch tm w ctx)
  then show ?thesis using switch_task_step [of tm w ctx] assms by simp
next
  case (Step_Wakeup level tm w i)
  then show ?thesis using wakeup_id_step [of tm w level i] assms by simp
next
  case (Step_Send tm w i m)
  then show ?thesis using send_message_step [of tm w i m] assms by simp
next
  case (Step_Receive w tm)
  then show ?thesis using receive_step [of tm w] assms by simp
next
  case (Step_Sleep i w tm)
  then show ?thesis using sleep_id_step [of tm w i] assms by simp
next
  case (Step_Finish tm w code)
  then show ?thesis using finish_step [of tm w code] assms by simp
next
  case (Step_Wait_Begin tm w i)
  then show ?thesis using wait_begin_step [of tm w i] assms by simp
next
  case (Step_Wait_Loop w tm i act tm')
  then show ?thesis using wait_loop_step [of tm w i act tm'] assms by simp
next
  case (Step_Wait_Done w tm i code tm')
  then show ?thesis using wait_done_step [of tm w i code tm'] assms by simp
qed

lemma reachable_inv:
  "sched_reachable se cr3 ti s \<Longrightarrow> sched_inv (fst s) \<and> wait_inv s"
proof (induction rule: sched_reachable.induct)
  case Reach_Init
  have "finish_waiter (new_task_manager se cr3 ti) = Map.empty"
    by (simp add: new_task_manager_def new_task_def Let_def)
  then show ?case by (simp add: initial_sched_inv wait_inv_def)
qed (use step_keeps in blast)


section \<open>What the scheduler guarantees\<close>

text \<open>C4: In every state the system reaches, the run queues and the tasks agree: a task is in the
  queue of its level exactly when its running flag is set, in no other queue and never twice; ids
  are distinct; the current level's queue is not empty and its head exists and is runnable; the idle task
  is runnable; and no higher queue has a task unless a level change is pending.\<close>

theorem scheduler_invariant:
  assumes "sched_reachable se cr3 ti (tm, w)"
  shows "distinct (map task_id (tasks tm)) \<and> (\<forall>lv. distinct (runq tm lv)) \<and>
    (\<forall>i lv. i \<in> set (runq tm lv) \<longleftrightarrow> is_running tm i \<and> level_of tm i = lv) \<and>
    runq tm (current_level tm) \<noteq> [] \<and> is_running tm (current_task tm) \<and> is_running tm 2 \<and>
    (level_changed tm \<or> (\<forall>lv > current_level tm. runq tm lv = []))"
proof -
  have inv: "sched_inv tm" using reachable_inv [OF assms] by simp
  show ?thesis
    using inv current_in_queue(2) [OF inv] by (auto simp: sched_inv_def ids_ok_def queues_ok_def top_ok_def)
qed

lemma initial_reachable_after_new:
  "sched_reachable se cr3 ti (snd (new_task (new_task_manager se cr3 ti)), Map.empty)"
  by (rule Reach_Step [OF Reach_Init Step_New])

theorem scheduler_invariant_witness:
  "\<exists>tm. sched_reachable 0 0 0 (tm, Map.empty) \<and> is_running tm 2 \<and> \<not> is_running tm 3 \<and> 3 \<in> live tm"
proof -
  let ?tm = "snd (new_task (new_task_manager 0 0 0))"
  have "is_running ?tm 2" using scheduler_invariant [OF initial_reachable_after_new] by blast
  moreover have "3 \<in> live ?tm" "\<not> is_running ?tm 3"
    by (simp_all add: new_task_manager_def new_task_def Let_def live_def is_running_def find_task_def
        set_running_def set_level_def update_task_def set_runq_def new_task_record_def init_context_def)
  ultimately show ?thesis using initial_reachable_after_new by blast
qed

text \<open>A small reachable state for the witnesses: a third task at the highest level.\<close>

definition two_tasks :: task_manager where
  "two_tasks = snd (wakeup_id 3 3 (snd (new_task (new_task_manager 0 0 0))))"

lemma two_tasks_reachable: "sched_reachable 0 0 0 (two_tasks, Map.empty)"
  unfolding two_tasks_def
  by (rule Reach_Step [OF initial_reachable_after_new Step_Wakeup]) (simp add: kMaxLevel_def)

lemmas task_eval = new_task_manager_def new_task_def Let_def find_task_def set_running_def set_level_def
  update_task_def set_runq_def new_task_record_def init_context_def kMaxLevel_def is_running_def level_of_def

lemma two_tasks_queues:
  "runq two_tasks (current_level two_tasks) = [1, 3]" "\<not> level_changed two_tasks" "current_task two_tasks = 1"
  by (simp_all add: two_tasks_def wakeup_id_def wakeup_task_def task_eval current_task_def)

lemma find_rotate_current:
  "find_task (snd (switch_task ctx tm)) i =
    (if i = current_task tm then map_option (\<lambda>t. t\<lparr>task_context := ctx\<rparr>) (find_task tm i) else find_task tm i)"
proof -
  let ?tm1 = "update_task (current_task tm) (\<lambda>t. t\<lparr>task_context := ctx\<rparr>) tm"
  obtain cur tm2 where rot: "rotate_current_run_queue False ?tm1 = (cur, tm2)" by fastforce
  have "snd (switch_task ctx tm) = tm2" by (simp add: switch_task_def Let_def rot)
  then show ?thesis
    by (simp add: lookups_only_tasks(1) [OF rotate_result(2) [OF rot]] find_task_update)
qed

text \<open>C6: The timer's \<^verbatim>\<open>SwitchTask\<close> saves the interrupted registers in the task that was running and
  then runs a task of the highest level that has a runnable task; it restores a context exactly
  when the running task changes; and no task's level, flag or messages change.\<close>

theorem switch_task_priority:
  assumes "sched_reachable se cr3 ti (tm, w)" "switch_task ctx tm = (act, tm')"
  shows "(\<forall>i. is_running tm' i \<longrightarrow> level_of tm' i \<le> level_of tm' (current_task tm')) \<and>
    is_running tm' (current_task tm') \<and>
    act = (if current_task tm' = current_task tm then Stay else Restore_Context (current_task tm')) \<and>
    (\<forall>i. find_task tm' i = (if i = current_task tm then map_option (\<lambda>t. t\<lparr>task_context := ctx\<rparr>) (find_task tm i)
       else find_task tm i))"
proof -
  have inv: "sched_inv tm" using reachable_inv [OF assms(1)] by simp
  have tm': "tm' = snd (switch_task ctx tm)" using assms(2) by simp
  have inv': "sched_inv tm'" and top: "\<forall>lv > current_level tm'. runq tm' lv = []"
    using switch_task_inv [OF inv] by (simp_all add: tm')
  have "level_of tm' i \<le> current_level tm'" if "is_running tm' i" for i
    using that top in_queue_iff(1) [OF inv', of i "level_of tm' i"] by (metis empty_iff leI list.set(1))
  moreover have "act = (if current_task tm' = current_task tm then Stay else Restore_Context (current_task tm'))"
    using assms(2) rotate_result(1) [of False "update_task (current_task tm) (\<lambda>t. t\<lparr>task_context := ctx\<rparr>) tm"]
    by (auto simp: switch_task_def Let_def current_task_def split: prod.splits)
  ultimately show ?thesis
    using current_in_queue(2,3) [OF inv'] find_rotate_current by (simp add: tm')
qed

theorem switch_task_priority_witness:
  "current_task (snd (switch_task zero_context two_tasks)) = 3 \<and>
   fst (switch_task zero_context two_tasks) = Restore_Context 3"
proof -
  have cur: "current_task (snd (switch_task zero_context two_tasks)) = 3"
    by (simp add: switch_task_def rotate_current_run_queue_def Let_def two_tasks_queues)
      (simp add: current_task_def two_tasks_queues)
  show ?thesis
    using switch_task_priority [OF two_tasks_reachable prod.collapse [symmetric], of zero_context] cur
    by (simp add: two_tasks_queues)
qed

text \<open>Several ticks of the task timer.\<close>

definition switch_tasks :: "task_context list \<Rightarrow> task_manager \<Rightarrow> task_manager" where
  "switch_tasks ctxs tm = fold (\<lambda>ctx tm. snd (switch_task ctx tm)) ctxs tm"

lemma switch_rotates:
  fixes ctx :: task_context
  assumes inv: "sched_inv tm" and nc: "\<not> level_changed tm"
  defines "tm' \<equiv> snd (switch_task ctx tm)"
  shows "runq tm' (current_level tm') = rotate1 (runq tm (current_level tm))" "\<not> level_changed tm'"
    "current_level tm' = current_level tm"
proof -
  have q: "runq tm (current_level tm) = current_task tm # tl (runq tm (current_level tm))"
    by (rule current_in_queue(1) [OF inv])
  obtain rest where rest: "runq tm (current_level tm) = current_task tm # rest" using q by blast
  have hd: "hd (runq tm (current_level tm)) = current_task tm" by (simp add: current_task_def)
  have r: "tm' = set_runq (current_level tm) (rest @ [current_task tm])
      (update_task (current_task tm) (\<lambda>t. t\<lparr>task_context := ctx\<rparr>) tm)"
    using nc by (simp add: tm'_def switch_task_def rotate_current_run_queue_def Let_def hd rest)
  show "runq tm' (current_level tm') = rotate1 (runq tm (current_level tm))" "\<not> level_changed tm'"
    "current_level tm' = current_level tm"
    using nc by (simp_all add: r rest)
qed

lemma switch_tasks_rotate:
  assumes "sched_inv tm" "\<not> level_changed tm"
  shows "sched_inv (switch_tasks ctxs tm) \<and>
    runq (switch_tasks ctxs tm) (current_level (switch_tasks ctxs tm)) = rotate (length ctxs) (runq tm (current_level tm))"
  using assms
proof (induction ctxs arbitrary: tm)
  case (Cons ctx ctxs)
  note r = switch_rotates [OF Cons.prems, of ctx]
  show ?case
    using Cons.IH [OF switch_task_inv(1) [OF Cons.prems(1)] r(2)] r(1)
    by (simp add: switch_tasks_def rotate_def funpow_swap1)
qed (simp add: switch_tasks_def)

text \<open>C7: Tasks of the running level take turns: while no task changes level, wakes up or sleeps, the
  task that stands at place \<open>k\<close> of the current queue is the running task after exactly \<open>k\<close> ticks
  of the task timer, so each of the \<open>n\<close> tasks of the level runs once in every \<open>n\<close> ticks.\<close>

theorem round_robin_turn:
  assumes "sched_reachable se cr3 ti (tm, w)" "\<not> level_changed tm"
    "length ctxs = k" "k < length (runq tm (current_level tm))"
  shows "current_task (switch_tasks ctxs tm) = runq tm (current_level tm) ! k"
proof -
  have "sched_inv tm" using reachable_inv [OF assms(1)] by simp
  from switch_tasks_rotate [OF this assms(2), of ctxs]
  have "current_task (switch_tasks ctxs tm) = hd (rotate k (runq tm (current_level tm)))"
    by (simp add: current_task_def assms(3))
  moreover have "runq tm (current_level tm) \<noteq> []" using assms(4) by auto
  ultimately show ?thesis using assms(4) by (simp add: hd_rotate_conv_nth)
qed

theorem round_robin_turn_witness:
  "current_task (switch_tasks [zero_context] two_tasks) = 3"
  using round_robin_turn [OF two_tasks_reachable, where ctxs = "[zero_context]" and k = 1] two_tasks_queues
  by simp

text \<open>C5: No waiter is forgotten: if a task is inside \<^verbatim>\<open>WaitFinish(i)\<close> and task \<open>i\<close> has finished,
  the waiting task is runnable, and its next pass through the loop returns the exit code that \<open>i\<close>
  finished with; as long as it sleeps, it is registered as the waiter of \<open>i\<close> and \<open>i\<close> has no
  exit code that it could have missed.\<close>

theorem wait_finish_no_lost_wakeup:
  assumes "sched_reachable se cr3 ti (tm, w)" "w a = Some i"
  shows "(\<forall>code. finish_tasks tm i = Some code \<longrightarrow> is_running tm a \<and>
      wait_finish_pass i a tm = (Inr code, tm\<lparr>finish_tasks := (finish_tasks tm)(i := None)\<rparr>)) \<and>
    (\<not> is_running tm a \<longrightarrow> finish_waiter tm i = Some a \<and> finish_tasks tm i = None)"
proof -
  have "wait_inv (tm, w)" using reachable_inv [OF assms(1)] by simp
  from wait_invD(2) [OF this assms(2)] show ?thesis by (auto simp: wait_finish_pass_def)
qed

theorem wait_finish_no_lost_wakeup_witness:
  "\<exists>tm. sched_reachable 0 0 0 (tm, [1 \<mapsto> 3]) \<and> \<not> is_running tm 1 \<and> finish_waiter tm 3 = Some 1"
proof -
  have none: "finish_tasks two_tasks 3 = None"
    by (simp add: two_tasks_def wakeup_id_def wakeup_task_def task_eval)
  let ?tm1 = "two_tasks\<lparr>finish_waiter := (finish_waiter two_tasks)(3 \<mapsto> 1)\<rparr>"
  obtain act tm' where pass: "wait_finish_pass 3 1 two_tasks = (Inl act, tm')"
    and tm': "tm' = snd (sleep_task 1 ?tm1)"
    using none by (cases "sleep_task 1 ?tm1") (simp add: wait_finish_pass_def Let_def)
  have inv: "sched_inv ?tm1"
    using reachable_inv [OF two_tasks_reachable] by (simp add: sched_inv_def queues_ok_def top_ok_def)
  have "sched_reachable 0 0 0 (two_tasks, [1 \<mapsto> 3])"
    using Reach_Step [OF two_tasks_reachable Step_Wait_Begin [of two_tasks Map.empty 3]] by (simp add: two_tasks_queues)
  then have r: "sched_reachable 0 0 0 (tm', [1 \<mapsto> 3])"
    by (rule Reach_Step) (rule Step_Wait_Loop [where i = 3 and act = act], use pass in \<open>simp_all add: two_tasks_queues\<close>)
  have s: "\<not> is_running tm' 1" using sleep_any(2) [OF inv, of 1] by (simp add: tm')
  show ?thesis using wait_finish_no_lost_wakeup [OF r, of 1 3] s r by auto
qed

section \<open>Messages\<close>

definition inbox :: "task_manager \<Rightarrow> nat \<Rightarrow> message list option" where
  "inbox tm i = map_option msgs (find_task tm i)"

lemma inbox_simps [simp]:
  "inbox (set_level j l tm) i = inbox tm i" "inbox (set_running j b tm) i = inbox tm i"
  "inbox (set_runq lv q tm) i = inbox tm i" "inbox (tm\<lparr>level_changed := c\<rparr>) i = inbox tm i"
  "inbox (tm\<lparr>current_level := c'\<rparr>) i = inbox tm i"
  by (simp_all add: inbox_def set_level_def set_running_def find_task_update option.map_comp comp_def)

lemma inbox_wakeup [simp]: "inbox (wakeup_task j l tm) i = inbox tm i"
  by (simp add: wakeup_task_def change_level_running_def Let_def if_distrib [where f = "\<lambda>tm. inbox tm i"])

lemma inbox_send:
  "inbox (snd (send_message i m tm)) = (inbox tm)(i := map_option (\<lambda>ms. ms @ [m]) (inbox tm i))"
proof (cases "find_task tm i")
  case (Some t)
  have "inbox (update_task i (\<lambda>t. t\<lparr>msgs := msgs t @ [m]\<rparr>) tm) j =
      ((inbox tm)(i := map_option (\<lambda>ms. ms @ [m]) (inbox tm i))) j" for j
    by (simp add: inbox_def find_task_update option.map_comp comp_def)
  then show ?thesis by (simp add: fun_eq_iff send_message_def task_send_message_def Some)
qed (auto simp: fun_eq_iff send_message_def inbox_def)

interpretation mail: mailbox send_message inbox is_running sched_inv
proof unfold_locales
  fix tm i m j
  assume inv: "sched_inv tm"
  show "sched_inv (snd (send_message i m tm))" by (rule send_keeps(1) [OF inv])
  show "inbox (snd (send_message i m tm)) = (inbox tm)(i := map_option (\<lambda>ms. ms @ [m]) (inbox tm i))"
    by (rule inbox_send)
  show "fst (send_message i m tm) = (if inbox tm i = None then kNoSuchTask else kSuccess)"
    by (simp add: send_message_def inbox_def split: option.split)
  show "is_running (snd (send_message i m tm)) j = (is_running tm j \<or> j = i \<and> inbox tm i \<noteq> None)"
    by (auto simp: send_keeps(3) [OF inv] inbox_def)
qed

end
