(* ===== verification/Timer.thy ===== *)
theory Timer imports Scheduler "HOL-Library.Multiset" begin

text \<open>
  \<^verbatim>\<open>Kernel/timer.{hpp,cpp}\<close>: the timer queue and the tick of the local APIC timer. The
  \<^verbatim>\<open>std::priority_queue\<close> orders timers by their timeout, the smallest first; which of several
  timers with the same timeout comes first is not specified, the model takes the one added first.
  The locale \<open>min_queue\<close> is what the tick relies on. Ticks and timeouts are naturals; the
  sentinel the constructor pushes is the largest \<open>unsigned long\<close>, which the tick count does not
  reach (at 100 ticks a second that takes billions of years), so the queue is never empty.
\<close>

section \<open>The contract of the queue\<close>

locale min_queue =
  fixes key :: "'e \<Rightarrow> nat"
    and push :: "'e \<Rightarrow> 'q \<Rightarrow> 'q"
    and top :: "'q \<Rightarrow> 'e"
    and pop :: "'q \<Rightarrow> 'q"
    and elems :: "'q \<Rightarrow> 'e multiset"
    and ok :: "'q \<Rightarrow> bool"
  assumes push_ok: "ok q \<Longrightarrow> ok (push e q)"
    and push_elems: "ok q \<Longrightarrow> elems (push e q) = add_mset e (elems q)"
    and pop_ok: "ok q \<Longrightarrow> elems q \<noteq> {#} \<Longrightarrow> ok (pop q)"
    and pop_elems: "ok q \<Longrightarrow> elems q \<noteq> {#} \<Longrightarrow> elems (pop q) = elems q - {#top q#}"
    and top_in: "ok q \<Longrightarrow> elems q \<noteq> {#} \<Longrightarrow> top q \<in># elems q"
    and top_min: "ok q \<Longrightarrow> e \<in># elems q \<Longrightarrow> key (top q) \<le> key e"
begin

lemma top_late: "ok q \<Longrightarrow> t < key (top q) \<Longrightarrow> {#e \<in># elems q. key e \<le> t#} = {#}"
proof (rule ccontr)
  assume "ok q" "t < key (top q)" "{#e \<in># elems q. key e \<le> t#} \<noteq> {#}"
  moreover from this obtain e where "e \<in># {#e \<in># elems q. key e \<le> t#}" by (elim multiset_nonemptyE)
  ultimately show False using top_min [of q e] by simp
qed

lemma pop_due:
  assumes "ok q" "elems q \<noteq> {#}" "key (top q) \<le> t"
  shows "{#e \<in># elems q. key e \<le> t#} = add_mset (top q) {#e \<in># elems (pop q). key e \<le> t#}"
    and "{#e \<in># elems (pop q). t < key e#} = {#e \<in># elems q. t < key e#}"
proof -
  obtain M where "elems q = add_mset (top q) M"
    using top_in [OF assms(1,2)] by (meson mset_add)
  then show "{#e \<in># elems q. key e \<le> t#} = add_mset (top q) {#e \<in># elems (pop q). key e \<le> t#}"
    "{#e \<in># elems (pop q). t < key e#} = {#e \<in># elems q. t < key e#}"
    using pop_elems [OF assms(1,2)] assms(3) by simp_all
qed

end

section \<open>Timers\<close>

(*@ Kernel/timer.hpp:15-24 Timer *)
record timer =
  timeout :: nat
  timer_val :: int
  timer_task :: nat

(*@ Kernel/timer.hpp:31-39 TimerManager *)
record timer_manager =
  tick :: nat
  timers :: "timer list"

text \<open>The queue: a list sorted by timeout.\<close>

(*@ Kernel/timer.hpp:27-29 operator< *)
definition timer_less :: "timer \<Rightarrow> timer \<Rightarrow> bool" where
  "timer_less lhs rhs \<longleftrightarrow> timeout rhs < timeout lhs"

fun push_timer :: "timer \<Rightarrow> timer list \<Rightarrow> timer list" where
  "push_timer e [] = [e]"
| "push_timer e (x # xs) = (if timer_less x e then e # x # xs else x # push_timer e xs)"

lemma push_timer_mset: "mset (push_timer e q) = add_mset e (mset q)"
  by (induction e q rule: push_timer.induct) auto

lemma push_timer_sorted: "sorted (map timeout q) \<Longrightarrow> sorted (map timeout (push_timer e q))"
proof (induction e q rule: push_timer.induct)
  case (2 e x xs)
  have "set (push_timer e xs) = insert e (set xs)" for xs
    using arg_cong [OF push_timer_mset, of set_mset e xs] by simp
  with 2 show ?case by (auto simp: timer_less_def)
qed simp

lemma hd_min: "sorted (map timeout q) \<Longrightarrow> e \<in> set q \<Longrightarrow> timeout (hd q) \<le> timeout e"
  by (cases q) auto

interpretation tq: min_queue timeout push_timer hd tl mset "\<lambda>q. sorted (map timeout q)"
  by unfold_locales
    (auto simp: push_timer_sorted push_timer_mset sorted_tl map_tl neq_Nil_conv hd_min)

(*@ Kernel/timer.hpp:44-46 kTaskTimerPeriod *)
definition kTaskTimerPeriod :: nat where "kTaskTimerPeriod = 2"

(*@ Kernel/timer.hpp:47-47 kTaskTimerValue *)
definition kTaskTimerValue :: int where "kTaskTimerValue = 2 ^ 31 - 1"

definition timer_sentinel :: nat where "timer_sentinel = 2 ^ 64 - 1"

(*@ Kernel/timer.cpp:50-52 TimerManager::TimerManager *)
definition new_timer_manager :: timer_manager where
  "new_timer_manager = \<lparr>tick = 0, timers = push_timer \<lparr>timeout = timer_sentinel, timer_val = 0, timer_task = 0\<rparr> []\<rparr>"

(*@ Kernel/timer.cpp:54-56 TimerManager::AddTimer *)
definition add_timer :: "timer \<Rightarrow> timer_manager \<Rightarrow> timer_manager" where
  "add_timer t m = m\<lparr>timers := push_timer t (timers m)\<rparr>"

definition timeout_message :: "timer \<Rightarrow> message" where
  "timeout_message t = \<lparr>msg_type = kTimerTimeout, msg_src_task = 0, msg_arg = Timer_Arg (timeout t) (timer_val t)\<rparr>"

definition task_timer :: "nat \<Rightarrow> timer" where
  "task_timer now = \<lparr>timeout = now + kTaskTimerPeriod, timer_val = kTaskTimerValue, timer_task = 1\<rparr>"

text \<open>The loop of \<^verbatim>\<open>Tick\<close>. \<^verbatim>\<open>top()\<close> of an empty queue is undefined: \<open>None\<close>. It ends: every round
  takes a due timer out, and the only timer pushed is due later.\<close>

(*@ Kernel/timer.cpp:62-82 TimerManager::Tick *)
function tick_loop :: "nat \<Rightarrow> timer list \<Rightarrow> bool \<Rightarrow> task_manager \<Rightarrow> (bool \<times> timer list \<times> task_manager) option" where
  "tick_loop now q task_timer_timeout tm =
    (case q of
       [] \<Rightarrow> None
     | t # _ \<Rightarrow>
         if now < timeout t then Some (task_timer_timeout, q, tm)
         else if timer_val t = kTaskTimerValue then
           tick_loop now (push_timer (task_timer now) (tl q)) True tm
         else
           tick_loop now (tl q) task_timer_timeout (snd (send_message (timer_task t) (timeout_message t) tm)))"
  by pat_completeness auto
termination
proof (relation "measure (\<lambda>(now, q, b, tm). size {#t \<in># mset q. timeout t \<le> now#})")
  fix now :: nat and q :: "timer list" and b :: bool and tm t ts
  assume "q = t # ts" "\<not> now < timeout t"
  then show "((now, push_timer (task_timer now) (tl q), True, tm), now, q, b, tm) \<in>
      measure (\<lambda>(now, q, b, tm). size {#t \<in># mset q. timeout t \<le> now#})"
    by (simp add: push_timer_mset task_timer_def kTaskTimerPeriod_def)
qed (auto simp del: size_filter_mset_lesseq)

declare tick_loop.simps [simp del]

(*@ Kernel/timer.cpp:58-84 TimerManager::Tick *)
definition timer_tick :: "timer_manager \<Rightarrow> task_manager \<Rightarrow> (bool \<times> timer_manager \<times> task_manager) option" where
  "timer_tick m tm =
    (let now = tick m + 1
     in case tick_loop now (timers m) False tm of
          None \<Rightarrow> None
        | Some (timed_out, q, tm') \<Rightarrow> Some (timed_out, \<lparr>tick = now, timers = q\<rparr>, tm'))"

(*@ Kernel/timer.cpp:89-96 LAPICTimerOnInterrupt *)
definition lapic_timer_on_interrupt ::
  "task_context \<Rightarrow> timer_manager \<Rightarrow> task_manager \<Rightarrow> (cpu_action \<times> timer_manager \<times> task_manager) option" where
  "lapic_timer_on_interrupt ctx m tm =
    (case timer_tick m tm of
       None \<Rightarrow> None
     | Some (task_timer_timeout, m', tm') \<Rightarrow>
         if task_timer_timeout then (let (act, tm'') = switch_task ctx tm' in Some (act, m', tm''))
         else Some (Stay, m', tm'))"

(*@ Kernel/task.cpp:304-311 InitializeTask *)
definition initialize_task :: "u64 \<Rightarrow> u64 \<Rightarrow> u64 \<Rightarrow> timer_manager \<Rightarrow> task_manager \<times> timer_manager" where
  "initialize_task stack_end cr3 task_idle m =
    (new_task_manager stack_end cr3 task_idle,
     add_timer \<lparr>timeout = tick m + kTaskTimerPeriod, timer_val = kTaskTimerValue, timer_task = 1\<rparr> m)"

section \<open>The tick\<close>

definition timer_inv :: "timer_manager \<Rightarrow> bool" where
  "timer_inv m \<longleftrightarrow> sorted (map timeout (timers m)) \<and> tick m < timer_sentinel \<and>
     (\<exists>t \<in> set (timers m). timeout t = timer_sentinel \<and> timer_val t \<noteq> kTaskTimerValue)"

definition due :: "nat \<Rightarrow> timer list \<Rightarrow> timer list" where
  "due now q = filter (\<lambda>t. timeout t \<le> now) q"

definition is_task_timer :: "timer \<Rightarrow> bool" where
  "is_task_timer t \<longleftrightarrow> timer_val t = kTaskTimerValue"

definition timer_messages :: "timer list \<Rightarrow> (nat \<times> message) list" where
  "timer_messages ts = map (\<lambda>t. (timer_task t, timeout_message t)) (filter (\<lambda>t. \<not> is_task_timer t) ts)"

lemma due_push_task_timer:
  "due now (push_timer (task_timer now) q) = due now q"
  unfolding due_def
  by (induction "task_timer now" q rule: push_timer.induct) (auto simp: task_timer_def kTaskTimerPeriod_def)

lemma late_push_task_timer:
  "{#t \<in># mset (push_timer (task_timer now) q). now < timeout t#} =
     add_mset (task_timer now) {#t \<in># mset q. now < timeout t#}"
  by (simp add: push_timer_mset task_timer_def kTaskTimerPeriod_def)

lemma due_sorted_hd:
  "sorted (map timeout (t # q)) \<Longrightarrow> now < timeout t \<Longrightarrow> due now (t # q) = []"
  by (auto simp: due_def filter_empty_conv)

lemma tick_loop_result:
  assumes "sorted (map timeout q)" "\<exists>t \<in> set q. now < timeout t"
  shows "\<exists>q'. tick_loop now q b tm =
      Some (b \<or> (\<exists>t \<in> set (due now q). is_task_timer t), q', mail.send_all (timer_messages (due now q)) tm) \<and>
    sorted (map timeout q') \<and>
    mset q' = mset (filter (\<lambda>t. now < timeout t) q) +
      replicate_mset (length (filter is_task_timer (due now q))) (task_timer now)"
  using assms
proof (induction now q b tm rule: tick_loop.induct)
  case (1 now q b tm)
  then obtain t ts where q: "q = t # ts" by (cases q) auto
  have ts: "sorted (map timeout ts)" using 1(3) q by simp
  show ?case
  proof (cases "now < timeout t")
    case True
    have "filter (\<lambda>t. now < timeout t) q = q"
      using True 1(3) q by (auto intro!: filter_True)
    then show ?thesis
      using True 1(3) due_sorted_hd [of t ts now] by (simp add: tick_loop.simps [of now "t # ts"] q timer_messages_def)
  next
    case late: False
    have ex: "\<exists>t \<in> set ts. now < timeout t" using 1(4) late q by auto
    show ?thesis
    proof (cases "timer_val t = kTaskTimerValue")
      case True
      let ?q = "push_timer (task_timer now) ts"
      have m: "set ?q = insert (task_timer now) (set ts)"
        using arg_cong [OF push_timer_mset, of set_mset "task_timer now" ts] by simp
      obtain q' where q': "tick_loop now ?q True tm =
          Some (True, q', mail.send_all (timer_messages (due now ?q)) tm)" "sorted (map timeout q')"
        "mset q' = mset (filter (\<lambda>t. now < timeout t) ?q) + replicate_mset (length (filter is_task_timer (due now ?q))) (task_timer now)"
        using 1(1) [of t ts] q late True push_timer_sorted [OF ts] ex m by auto
      have "due now q = t # due now ts" using late q by (simp add: due_def)
      then show ?thesis
        using q' late True
        by (simp add: tick_loop.simps [of now "t # ts"] q due_push_task_timer late_push_task_timer is_task_timer_def [abs_def] timer_messages_def)
    next
      case False
      have "due now q = t # due now ts" using late q by (simp add: due_def)
      then show ?thesis
        using 1(2) [of t ts] q late False ts ex
        by (simp add: tick_loop.simps [of now "t # ts"] q is_task_timer_def timer_messages_def)
    qed
  qed
qed

text \<open>C8: A tick of the timer always finishes. It sends a \<open>kTimerTimeout\<close> message with its timeout and
  value for every due timer that is not a task timer, to that timer's task, in the order of the
  timeouts; it keeps exactly the timers that are not due, plus one task timer two ticks ahead for
  every due task timer; it reports a task timeout iff a task timer was due; and the queue
  stays sorted with its sentinel.\<close>

theorem timer_tick_fires_due:
  assumes "timer_inv m" "tick m + 1 < timer_sentinel"
  shows "\<exists>m'. timer_tick m tm = Some (\<exists>t \<in> set (due (tick m + 1) (timers m)). is_task_timer t, m',
        mail.send_all (timer_messages (due (tick m + 1) (timers m))) tm) \<and>
     tick m' = tick m + 1 \<and> timer_inv m' \<and> (\<forall>t \<in> set (timers m'). tick m' < timeout t) \<and>
     mset (timers m') = mset (filter (\<lambda>t. tick m + 1 < timeout t) (timers m)) +
       replicate_mset (length (filter is_task_timer (due (tick m + 1) (timers m)))) (task_timer (tick m + 1))"
proof -
  obtain s where s: "s \<in> set (timers m)" "timeout s = timer_sentinel" "timer_val s \<noteq> kTaskTimerValue"
    using assms(1) by (auto simp: timer_inv_def)
  have "sorted (map timeout (timers m))" "\<exists>t \<in> set (timers m). tick m + 1 < timeout t"
    using assms s by (auto simp: timer_inv_def intro!: bexI [of _ s])
  from tick_loop_result [OF this, of False tm] obtain q' where
    q': "tick_loop (tick m + 1) (timers m) False tm = Some (\<exists>t \<in> set (due (tick m + 1) (timers m)). is_task_timer t, q',
          mail.send_all (timer_messages (due (tick m + 1) (timers m))) tm)" "sorted (map timeout q')"
      "mset q' = mset (filter (\<lambda>t. tick m + 1 < timeout t) (timers m)) +
       replicate_mset (length (filter is_task_timer (due (tick m + 1) (timers m)))) (task_timer (tick m + 1))" by auto
  have set_q': "set q' \<subseteq> {t. tick m + 1 < timeout t}" "s \<in> set q'"
    using arg_cong [OF q'(3), of set_mset] s assms(2)
    by (auto simp: task_timer_def kTaskTimerPeriod_def split: if_splits)
  show ?thesis
    by (rule exI [of _ "\<lparr>tick = tick m + 1, timers = q'\<rparr>"])
      (use q' set_q' s assms in \<open>auto simp: timer_tick_def Let_def timer_inv_def\<close>)
qed

theorem timer_tick_fires_due_witness:
  "let t = \<lparr>timeout = 1, timer_val = 7, timer_task = 1\<rparr>; m = add_timer t new_timer_manager
   in \<exists>m'. timer_tick m two_tasks = Some (False, m', mail.send_all [(1, timeout_message t)] two_tasks) \<and> tick m' = 1"
proof -
  let ?t = "\<lparr>timeout = 1, timer_val = 7, timer_task = 1\<rparr>"
  let ?m = "add_timer ?t new_timer_manager"
  have m: "timers ?m = [?t, \<lparr>timeout = timer_sentinel, timer_val = 0, timer_task = 0\<rparr>]" "tick ?m = 0"
    by (simp_all add: add_timer_def new_timer_manager_def timer_less_def timer_sentinel_def)
  have "timer_inv ?m" "tick ?m + 1 < timer_sentinel"
    unfolding timer_inv_def m by (simp_all add: timer_sentinel_def kTaskTimerValue_def)
  from timer_tick_fires_due [OF this, of two_tasks] show ?thesis
    unfolding Let_def m by (auto simp: due_def timer_messages_def is_task_timer_def kTaskTimerValue_def timer_sentinel_def)
qed

section \<open>The period of the task timer\<close>

definition task_timers :: "timer_manager \<Rightarrow> timer multiset" where
  "task_timers m = {#t \<in># mset (timers m). is_task_timer t#}"

lemma is_task_timer_task_timer [simp]: "is_task_timer (task_timer now)"
  by (simp add: is_task_timer_def task_timer_def)

lemma timeout_task_timer [simp]: "timeout (task_timer now) = now + 2"
  by (simp add: task_timer_def kTaskTimerPeriod_def)

lemma task_timers_replicate:
  "filter_mset is_task_timer (replicate_mset n (task_timer k)) = replicate_mset n (task_timer k)"
  by (induction n) auto

lemma tick_task_timer:
  assumes inv: "timer_inv m" "tick m + 1 < timer_sentinel" and one: "task_timers m = {#task_timer a#}"
    and a: "a \<le> tick m" "tick m < a + 2"
    and step: "timer_tick m tm = Some (b, m', tm')"
  shows "b \<longleftrightarrow> tick m + 1 = a + 2" "tick m' = tick m + 1" "timer_inv m'"
    "task_timers m' = {#task_timer (if tick m + 1 = a + 2 then a + 2 else a)#}"
proof -
  let ?now = "tick m + 1"
  have dues: "mset (filter is_task_timer (due ?now (timers m))) = {#t \<in># task_timers m. timeout t \<le> ?now#}"
    by (simp add: due_def task_timers_def filter_filter_mset conj_commute)
  have len: "length (filter is_task_timer (due ?now (timers m))) = (if tick m + 1 = a + 2 then 1 else 0)"
    using arg_cong [OF dues, of size] a unfolding one size_mset by (cases "tick m = a + 1") auto
  have late: "filter_mset is_task_timer (mset (filter (\<lambda>t. ?now < timeout t) (timers m))) = {#t \<in># task_timers m. ?now < timeout t#}"
    by (simp add: task_timers_def filter_filter_mset conj_commute)
  obtain m1 where m1: "timer_tick m tm = Some (\<exists>t \<in> set (due ?now (timers m)). is_task_timer t, m1,
        mail.send_all (timer_messages (due ?now (timers m))) tm)"
     "tick m1 = ?now" "timer_inv m1"
     "mset (timers m1) = mset (filter (\<lambda>t. ?now < timeout t) (timers m)) +
       replicate_mset (length (filter is_task_timer (due ?now (timers m)))) (task_timer ?now)"
    using timer_tick_fires_due [OF inv] by blast
  show "tick m' = tick m + 1" "timer_inv m'" using step m1 by simp_all
  have "b \<longleftrightarrow> length (filter is_task_timer (due ?now (timers m))) \<noteq> 0"
    using step m1(1) by (auto simp: filter_empty_conv)
  then show "b \<longleftrightarrow> tick m + 1 = a + 2" unfolding len by simp
  have "task_timers m1 = {#t \<in># task_timers m. ?now < timeout t#} +
      replicate_mset (length (filter is_task_timer (due ?now (timers m)))) (task_timer ?now)"
    unfolding task_timers_def m1(4) filter_union_mset late [unfolded task_timers_def] task_timers_replicate by simp
  then show "task_timers m' = {#task_timer (if tick m + 1 = a + 2 then a + 2 else a)#}"
    using step m1(1) a unfolding one len by (cases "tick m = a + 1") auto
qed

text \<open>The ticks after \<^verbatim>\<open>InitializeTask\<close>, with what each reports.\<close>

fun run_ticks :: "nat \<Rightarrow> timer_manager \<Rightarrow> task_manager \<Rightarrow> bool list option" where
  "run_ticks 0 m tm = Some []"
| "run_ticks (Suc n) m tm =
    (case timer_tick m tm of None \<Rightarrow> None
     | Some (b, m', tm') \<Rightarrow> map_option (\<lambda>bs. b # bs) (run_ticks n m' tm'))"

lemma run_ticks_period:
  assumes "timer_inv m" "tick m + n < timer_sentinel" "task_timers m = {#task_timer a#}"
    "a \<le> tick m" "tick m < a + 2"
  shows "run_ticks n m tm = Some (map (\<lambda>i. even (tick m + i + 1 - a)) [0..<n])"
  using assms
proof (induction n arbitrary: m tm a)
  case (Suc n)
  then have s: "tick m + 1 < timer_sentinel" by simp
  obtain b m' tm' where step: "timer_tick m tm = Some (b, m', tm')"
    using timer_tick_fires_due [OF Suc.prems(1) s] by blast
  note t = tick_task_timer [OF Suc.prems(1) s Suc.prems(3-5) step]
  let ?a = "if tick m + 1 = a + 2 then a + 2 else a"
  have IH: "run_ticks n m' tm' = Some (map (\<lambda>i. even (tick m' + i + 1 - ?a)) [0..<n])"
    using Suc.prems(2,4,5) by (intro Suc.IH t) (auto simp: t)
  have "even (tick m' + i + 1 - ?a) = even (tick m + Suc i + 1 - a)" for i
    using Suc.prems(4,5) by (auto simp: t)
  moreover have "b = even (tick m + 0 + 1 - a)"
    using Suc.prems(4,5) t(1) less_Suc_eq by (cases "tick m = a") (auto simp: less_Suc_eq_le le_Suc_eq)
  ultimately show ?case
    unfolding map_upt_Suc by (simp only: run_ticks.simps step IH option.case prod.case option.map)
qed simp

text \<open>The task timer that \<^verbatim>\<open>InitializeTask\<close> starts runs for ever with its period: whatever other
  tasks do in between, the \<open>k\<close>-th tick after it reports a task timeout exactly when \<open>k\<close> is even,
  so the scheduler switches tasks every 20 ms; and no tick fails.\<close>

theorem task_timer_period:
  assumes "timer_inv m" "tick m + n < timer_sentinel" "task_timers m = {#}"
    "initialize_task stack_end cr3 task_idle m = (tm0, m0)"
  shows "run_ticks n m0 tm = Some (map (\<lambda>i. even (i + 1)) [0..<n])"
proof -
  have m0: "m0 = add_timer (task_timer (tick m)) m"
    using assms(4) by (simp add: initialize_task_def task_timer_def)
  have "set (push_timer e q) = insert e (set q)" for e q
    using arg_cong [OF push_timer_mset, of set_mset e q] by simp
  then have "timer_inv m0" using assms(1) push_timer_sorted by (simp add: timer_inv_def m0 add_timer_def)
  moreover have "task_timers m0 = {#task_timer (tick m)#}" "tick m0 = tick m"
    using assms(3) by (simp_all add: task_timers_def m0 add_timer_def push_timer_mset)
  ultimately show ?thesis
    using run_ticks_period [of m0 n "tick m" tm] assms(2) by simp
qed

theorem task_timer_period_witness:
  "run_ticks 4 (snd (initialize_task 0 0 0 new_timer_manager)) two_tasks = Some [False, True, False, True]"
proof -
  have "timer_inv new_timer_manager" "tick new_timer_manager + 4 < timer_sentinel" "task_timers new_timer_manager = {#}"
    by (simp_all add: timer_inv_def new_timer_manager_def task_timers_def is_task_timer_def)
      (simp_all add: timer_sentinel_def kTaskTimerValue_def)
  from task_timer_period [OF this prod.collapse [symmetric], of 0 0 0 two_tasks]
  show ?thesis by (simp add: upt_rec)
qed

end
