(* ===== verification/Page_Table.thy ===== *)
theory Page_Table imports Bit_Field Memory_Manager begin

text \<open>
  \<^verbatim>\<open>Kernel/paging.hpp\<close>: 4-level linear addresses, page map entries, and page tables in physical
  memory. Physical memory is a function from frame numbers to the 512 64-bit words of the frame; a
  \<^verbatim>\<open>PageMapEntry*\<close> that points to a page map is the number of its frame (all of them are frame-aligned
  and identity-mapped). \<open>walk\<close> follows a path of table indices from a page map, as the processor's
  translation does; a path of length 4 from the root is the index form of a page address, and \<open>digits\<close>
  relates it to page numbers.
\<close>

section \<open>Linear addresses\<close>

text \<open>The bit position of a part: the offset is 12 bits wide, every other part 9.\<close>

(*@ Kernel/paging.hpp:43-52 LinearAddress4Level::Part *)
fun part :: "nat \<Rightarrow> u64 \<Rightarrow> nat" where
  "part lv addr =
    (if lv = 0 then unat (get_field 0 12 addr)
     else if lv = 1 then unat (get_field 12 9 addr)
     else if lv = 2 then unat (get_field 21 9 addr)
     else if lv = 3 then unat (get_field 30 9 addr)
     else if lv = 4 then unat (get_field 39 9 addr)
     else 0)"

(*@ Kernel/paging.hpp:54-62 LinearAddress4Level::SetPart *)
fun set_part :: "nat \<Rightarrow> nat \<Rightarrow> u64 \<Rightarrow> u64" where
  "set_part lv val addr =
    (if lv = 0 then put_field 0 12 (of_nat val) addr
     else if lv = 1 then put_field 12 9 (of_nat val) addr
     else if lv = 2 then put_field 21 9 (of_nat val) addr
     else if lv = 3 then put_field 30 9 (of_nat val) addr
     else if lv = 4 then put_field 39 9 (of_nat val) addr
     else addr)"

declare part.simps [simp del] set_part.simps [simp del]

text \<open>The page number below a level: the parts \<open>k, \<dots>, 1\<close> as one number.\<close>

definition rel_page :: "nat \<Rightarrow> u64 \<Rightarrow> nat" where
  "rel_page k addr = unat addr div 4096 mod 512 ^ k"

lemma unat_get_field: "unat (get_field off w (x :: u64)) = unat x div 2 ^ off mod 2 ^ w"
proof -
  have "unat (get_field off w x) = take_bit w (drop_bit off (take_bit 64 (unat x)))"
    by (simp only: get_field_def unsigned_take_bit_eq unsigned_drop_bit_eq) simp
  moreover have "take_bit 64 (unat x) = unat x"
    using unsigned_less [of x, where ?'a = nat] by (simp add: take_bit_nat_eq_self)
  ultimately show ?thesis by (simp add: take_bit_eq_mod drop_bit_eq_div)
qed

lemma part_eq: "1 \<le> k \<Longrightarrow> k \<le> 4 \<Longrightarrow> part k addr = unat addr div 4096 div 512 ^ (k - 1) mod 512"
proof -
  assume "1 \<le> k" "k \<le> 4"
  then consider "k = 1" | "k = 2" | "k = 3" | "k = 4" by linarith
  then show ?thesis
    by cases (simp_all add: part.simps unat_get_field div_mult2_eq [symmetric])
qed

lemma part_less: "1 \<le> k \<Longrightarrow> k \<le> 4 \<Longrightarrow> part k addr < 512"
  by (simp add: part_eq)

lemma rel_page_less: "rel_page k addr < 512 ^ k"
  by (simp add: rel_page_def)

lemma part_rel: "1 \<le> k \<Longrightarrow> k \<le> 4 \<Longrightarrow> part k addr = rel_page k addr div 512 ^ (k - 1)"
  by (cases k) (simp_all add: part_eq rel_page_def mod_mult2_eq mult.commute [of 512])

lemma rel_page_pred: "1 \<le> k \<Longrightarrow> rel_page (k - 1) addr = rel_page k addr mod 512 ^ (k - 1)"
  by (cases k) (simp_all add: rel_page_def mod_mod_cancel)

text \<open>Setting parts.\<close>

lemma part_set_part:
  assumes "1 \<le> j" "j \<le> 4" "1 \<le> k" "k \<le> 4" "v < 512"
  shows "part j (set_part k v addr) = (if j = k then v else part j addr)"
proof -
  have v: "unat (take_bit 9 (word_of_nat v :: u64)) = v"
    using assms(5) by (simp add: unsigned_take_bit_eq unsigned_of_nat take_bit_nat_eq_self)
  from assms(1,2) consider "j = 1" | "j = 2" | "j = 3" | "j = 4" by linarith
  then show ?thesis
  proof cases
    case 1
    from assms(3,4) consider "k = 1" | "k = 2" | "k = 3" | "k = 4" by linarith
    then show ?thesis by cases (simp_all add: 1 part.simps set_part.simps field_simps_bits v)
  next
    case 2
    from assms(3,4) consider "k = 1" | "k = 2" | "k = 3" | "k = 4" by linarith
    then show ?thesis by cases (simp_all add: 2 part.simps set_part.simps field_simps_bits v)
  next
    case 3
    from assms(3,4) consider "k = 1" | "k = 2" | "k = 3" | "k = 4" by linarith
    then show ?thesis by cases (simp_all add: 3 part.simps set_part.simps field_simps_bits v)
  next
    case 4
    from assms(3,4) consider "k = 1" | "k = 2" | "k = 3" | "k = 4" by linarith
    then show ?thesis by cases (simp_all add: 4 part.simps set_part.simps field_simps_bits v)
  qed
qed

text \<open>The address of the first page behind entry \<open>i\<close> of level \<open>k\<close>.\<close>

(*@ Kernel/paging.cpp:89-92 SetupPageMap *)
definition next_entry :: "nat \<Rightarrow> nat \<Rightarrow> u64 \<Rightarrow> u64" where
  "next_entry k i addr = fold (\<lambda>lv a. set_part lv 0 a) (rev [1..<k]) (set_part k (i + 1) addr)"

lemma part_clear_parts:
  assumes "1 \<le> j" "j \<le> 4" "\<forall>l \<in> set ls. 1 \<le> l \<and> l \<le> 4"
  shows "part j (fold (\<lambda>lv a. set_part lv 0 a) ls addr) = (if j \<in> set ls then 0 else part j addr)"
  using assms by (induction ls arbitrary: addr) (auto simp: part_set_part)

lemma part_next_entry:
  assumes "1 \<le> j" "j \<le> k" "k \<le> 4" "i + 1 < 512"
  shows "part j (next_entry k i addr) = (if j = k then i + 1 else 0)"
  using assms by (subst next_entry_def, subst part_clear_parts) (auto simp: part_set_part)

lemma rel_page_Suc:
  "Suc k \<le> 4 \<Longrightarrow> rel_page (Suc k) addr = part (Suc k) addr * 512 ^ k + rel_page k addr"
  using part_rel [of "Suc k" addr] rel_page_pred [of "Suc k" addr]
    div_mult_mod_eq [of "rel_page (Suc k) addr" "512 ^ k"] by simp

lemma rel_page_zero_parts: "k \<le> 4 \<Longrightarrow> (\<And>j. 1 \<le> j \<Longrightarrow> j \<le> k \<Longrightarrow> part j addr = 0) \<Longrightarrow> rel_page k addr = 0"
  by (induction k) (auto simp: rel_page_Suc, simp add: rel_page_def)

lemma rel_page_next_entry:
  assumes "1 \<le> k" "k \<le> 4" "i + 1 < 512"
  shows "rel_page k (next_entry k i addr) = (i + 1) * 512 ^ (k - 1)"
proof (cases k)
  case (Suc k')
  have "rel_page k' (next_entry k i addr) = 0"
    using assms Suc by (intro rel_page_zero_parts) (auto simp: part_next_entry)
  then show ?thesis using assms Suc by (simp add: rel_page_Suc part_next_entry)
qed (use assms in simp)

section \<open>Page map entries\<close>

(*@ Kernel/paging.hpp:65-82 PageMapEntry *)
type_synonym page_map_entry = u64

definition e_present :: "page_map_entry \<Rightarrow> bool" where "e_present e \<longleftrightarrow> get_field 0 1 e = 1"
definition e_writable :: "page_map_entry \<Rightarrow> bool" where "e_writable e \<longleftrightarrow> get_field 1 1 e = 1"
definition e_user :: "page_map_entry \<Rightarrow> bool" where "e_user e \<longleftrightarrow> get_field 2 1 e = 1"

(*@ Kernel/paging.hpp:84-86 PageMapEntry::Pointer *)
definition e_pointer :: "page_map_entry \<Rightarrow> nat" where "e_pointer e = unat (get_field 12 40 e)"

(*@ Kernel/paging.hpp:88-90 PageMapEntry::SetPointer *)
definition e_set_pointer :: "nat \<Rightarrow> page_map_entry \<Rightarrow> page_map_entry" where
  "e_set_pointer f e = put_field 12 40 (of_nat f) e"

definition e_set_present :: "bool \<Rightarrow> page_map_entry \<Rightarrow> page_map_entry" where
  "e_set_present b e = put_field 0 1 (of_bool b) e"
definition e_set_writable :: "bool \<Rightarrow> page_map_entry \<Rightarrow> page_map_entry" where
  "e_set_writable b e = put_field 1 1 (of_bool b) e"
definition e_set_user :: "bool \<Rightarrow> page_map_entry \<Rightarrow> page_map_entry" where
  "e_set_user b e = put_field 2 1 (of_bool b) e"

lemma take_bit_1_of_bool: "take_bit (Suc 0) (of_bool b :: u64) = of_bool b"
  by simp

lemmas e_defs = e_present_def e_writable_def e_user_def e_pointer_def e_set_present_def e_set_writable_def
  e_set_user_def e_set_pointer_def

lemma e_simps [simp]:
  "e_present (e_set_present b e) = b" "e_present (e_set_writable b e) = e_present e"
  "e_present (e_set_user b e) = e_present e" "e_present (e_set_pointer f e) = e_present e"
  "e_writable (e_set_writable b e) = b" "e_writable (e_set_present b e) = e_writable e"
  "e_writable (e_set_user b e) = e_writable e" "e_writable (e_set_pointer f e) = e_writable e"
  "e_user (e_set_user b e) = b" "e_user (e_set_present b e) = e_user e"
  "e_user (e_set_writable b e) = e_user e" "e_user (e_set_pointer f e) = e_user e"
  "e_pointer (e_set_present b e) = e_pointer e" "e_pointer (e_set_writable b e) = e_pointer e"
  "e_pointer (e_set_user b e) = e_pointer e" "\<not> e_present 0" "\<not> e_writable 0"
  by (simp_all add: e_defs field_simps_bits)

lemma e_pointer_set [simp]: "f < 2 ^ 40 \<Longrightarrow> e_pointer (e_set_pointer f e) = f"
  by (simp add: e_defs field_simps_bits unsigned_take_bit_eq unsigned_of_nat take_bit_nat_eq_self min_def)

lemma e_pointer_less: "e_pointer e < 2 ^ 40"
  by (simp add: e_pointer_def unat_get_field)

section \<open>Memory and translation\<close>

type_synonym phys_mem = "nat \<Rightarrow> nat \<Rightarrow> u64"

fun walk :: "phys_mem \<Rightarrow> nat \<Rightarrow> nat list \<Rightarrow> nat option" where
  "walk mem f [] = Some f"
| "walk mem f (i # q) = (if e_present (mem f i) then walk mem (e_pointer (mem f i)) q else None)"

text \<open>The indices of a page below level \<open>k\<close>, the highest level first, and the page an address is in.\<close>

fun digits :: "nat \<Rightarrow> nat \<Rightarrow> nat list" where
  "digits 0 x = []"
| "digits (Suc k) x = (x div 512 ^ k) # digits k (x mod 512 ^ k)"

definition page_path :: "u64 \<Rightarrow> nat list" where
  "page_path addr = [part 4 addr, part 3 addr, part 2 addr, part 1 addr]"

definition zero_frame :: "nat \<Rightarrow> u64" where "zero_frame = (\<lambda>_. 0)"

lemma walk_append: "walk mem f (p @ q) = (case walk mem f p of None \<Rightarrow> None | Some g \<Rightarrow> walk mem g q)"
  by (induction mem f p rule: walk.induct) auto

lemma walk_snoc: "walk mem f (p @ [i]) = (case walk mem f p of None \<Rightarrow> None
    | Some g \<Rightarrow> if e_present (mem g i) then Some (e_pointer (mem g i)) else None)"
  by (simp add: walk_append split: option.split)

lemma digits_length [simp]: "length (digits k x) = k"
  by (induction k arbitrary: x) auto

lemma digits_less: "x < 512 ^ k \<Longrightarrow> i \<in> set (digits k x) \<Longrightarrow> i < 512"
proof (induction k arbitrary: x)
  case (Suc k)
  have "i \<in> set (digits k (x mod 512 ^ k)) \<Longrightarrow> i < 512" using Suc.IH [of "x mod 512 ^ k"] by simp
  with Suc.prems show ?case by (auto simp: less_mult_imp_div_less mult.commute)
qed simp

lemma digits_inj: "x < 512 ^ k \<Longrightarrow> y < 512 ^ k \<Longrightarrow> digits k x = digits k y \<Longrightarrow> x = y"
proof (induction k arbitrary: x y)
  case (Suc k)
  then have "x div 512 ^ k = y div 512 ^ k" "x mod 512 ^ k = y mod 512 ^ k" by auto
  then show ?case by (metis div_mult_mod_eq)
qed simp

lemma digits_rel_page:
  "Suc k \<le> 4 \<Longrightarrow> digits (Suc k) (rel_page (Suc k) addr) = part (Suc k) addr # digits k (rel_page k addr)"
  using part_rel [of "Suc k" addr] rel_page_pred [of "Suc k" addr] by simp

lemma page_path_digits: "page_path addr = digits 4 (rel_page 4 addr)"
proof -
  have n: "4 = Suc 3" "3 = Suc 2" "2 = Suc 1" "1 = Suc 0" by simp_all
  show ?thesis
    using digits_rel_page [of 3 addr] digits_rel_page [of 2 addr] digits_rel_page [of 1 addr] digits_rel_page [of 0 addr]
    unfolding page_path_def by (simp add: n [symmetric] del: digits.simps(2) One_nat_def)
qed

lemma digits_split: "x < 512 ^ k \<Longrightarrow> i < 512 \<Longrightarrow> digits (Suc k) (i * 512 ^ k + x) = i # digits k x"
  by simp

end
