(* ===== verification/Paging.thy ===== *)
theory Paging imports Page_Table Task begin

text \<open>
  \<^verbatim>\<open>Kernel/paging.cpp\<close>: building, cleaning and copying page maps, and the page fault handler. The state
  is physical memory and the frame allocator; the root page map (CR3) is an argument. A
  \<^verbatim>\<open>memcpy\<close> from a virtual page reads the frame the page is mapped to; where it is not mapped the
  handler would fault again (\<open>None\<close>). Levels other than 1 to 4 do not occur.

  \<open>pages_ok\<close> says that no frame is reached twice from the root through the user half
  (indices 256 and up of the root), and that what is reached is allocated. \<open>maps_ext\<close> relates the
  states before and after mapping: nothing that was mapped changes, new frames are fresh.
\<close>

record paging_state =
  pg_mem :: phys_mem
  pg_alloc :: memory_manager

definition set_entry :: "nat \<Rightarrow> nat \<Rightarrow> page_map_entry \<Rightarrow> paging_state \<Rightarrow> paging_state" where
  "set_entry f i e st = st\<lparr>pg_mem := (pg_mem st)(f := (pg_mem st f)(i := e))\<rparr>"

section \<open>The operations\<close>

(*@ Kernel/paging.cpp:176-185 NewPageMap *)
definition new_page_map :: "paging_state \<Rightarrow> nat result \<times> paging_state" where
  "new_page_map st =
    (case allocate (pg_alloc st) 1 of
       (Inl err, a) \<Rightarrow> (Inl err, st\<lparr>pg_alloc := a\<rparr>)
     | (Inr frame, a) \<Rightarrow> (Inr frame, st\<lparr>pg_alloc := a, pg_mem := (pg_mem st)(frame := zero_frame)\<rparr>))"

(*@ Kernel/paging.cpp:187-190 FreePageMap *)
definition free_page_map :: "nat \<Rightarrow> paging_state \<Rightarrow> paging_state" where
  "free_page_map f st = st\<lparr>pg_alloc := free_frames (pg_alloc st) f 1\<rparr>"

(*@ Kernel/paging.cpp:43-57 SetNewPageMapIfNotPresent *)
definition set_new_page_map_if_not_present :: "nat \<Rightarrow> nat \<Rightarrow> paging_state \<Rightarrow> nat result \<times> paging_state" where
  "set_new_page_map_if_not_present f i st =
    (let entry = pg_mem st f i in
     if e_present entry then (Inr (e_pointer entry), st)
     else case new_page_map st of
            (Inl err, st1) \<Rightarrow> (Inl err, st1)
          | (Inr child_map, st1) \<Rightarrow>
              (Inr child_map, set_entry f i (e_set_present True (e_set_pointer child_map (pg_mem st1 f i))) st1))"

(*@ Kernel/paging.cpp:60-96 SetupPageMap *)
function setup_page_map :: "bool \<Rightarrow> nat \<Rightarrow> nat \<Rightarrow> u64 \<Rightarrow> nat \<Rightarrow> paging_state \<Rightarrow> nat result \<times> paging_state" where
  "setup_page_map writable level page_map addr num st =
    (if num = 0 \<or> level = 0 \<or> 4 < level then (Inr num, st)
     else
       let i = part level addr in
       case set_new_page_map_if_not_present page_map i st of
         (Inl err, st1) \<Rightarrow> (Inl err, st1)
       | (Inr child_map, st1) \<Rightarrow>
           let st2 = set_entry page_map i (e_set_user True (pg_mem st1 page_map i)) st1 in
           if level = 1 then
             let st3 = set_entry page_map i (e_set_writable writable (pg_mem st2 page_map i)) st2 in
             if i = 511 then (Inr (num - 1), st3)
             else setup_page_map writable level page_map (next_entry level i addr) (num - 1) st3
           else
             let st3 = set_entry page_map i (e_set_writable True (pg_mem st2 page_map i)) st2 in
             case setup_page_map writable (level - 1) child_map addr num st3 of
               (Inl err, st4) \<Rightarrow> (Inl err, st4)
             | (Inr num_remain, st4) \<Rightarrow>
                 if i = 511 then (Inr num_remain, st4)
                 else setup_page_map writable level page_map (next_entry level i addr) num_remain st4)"
  by pat_completeness auto
termination
proof (relation "inv_image (less_than <*lex*> less_than)
    (\<lambda>(w, level, pm, addr, n, st). (level, 512 - part level addr))")
  have *: "512 - part level (next_entry level (part level addr) addr) < 512 - part level addr"
    if "level \<noteq> 0" "\<not> 4 < level" "part level addr \<noteq> 511" for level addr
    using that part_less [of level addr] by (subst part_next_entry) auto
  show "((w, level, pm, next_entry level i addr, num - 1, st3), (w, level, pm, addr, num, st)) \<in>
      inv_image (less_than <*lex*> less_than) (\<lambda>(w, level, pm, addr, n, st). (level, 512 - part level addr))"
    if "\<not> (num = 0 \<or> level = 0 \<or> 4 < level)" "i = part level addr" "i \<noteq> 511"
    for w level pm addr num i st st3
    using that * [of level addr] by simp
  show "((w, level, pm, next_entry level i addr, n', st3), (w, level, pm, addr, num, st)) \<in>
      inv_image (less_than <*lex*> less_than) (\<lambda>(w, level, pm, addr, n, st). (level, 512 - part level addr))"
    if "\<not> (num = 0 \<or> level = 0 \<or> 4 < level)" "i = part level addr" "i \<noteq> 511"
    for w level pm addr num i st st3 n'
    using that * [of level addr] by simp
qed auto

declare setup_page_map.simps [simp del]

(*@ Kernel/paging.cpp:192-195 SetupPageMaps *)
definition setup_page_maps :: "nat \<Rightarrow> u64 \<Rightarrow> nat \<Rightarrow> bool \<Rightarrow> paging_state \<Rightarrow> error_code \<times> paging_state" where
  "setup_page_maps cr3 addr num writable st =
    (case setup_page_map writable 4 cr3 addr num st of
       (Inl err, st') \<Rightarrow> (err, st') | (Inr _, st') \<Rightarrow> (kSuccess, st'))"

text \<open>The loop of \<^verbatim>\<open>CleanPageMap\<close> from entry \<open>i\<close> on. \<^verbatim>\<open>Free\<close> always succeeds.\<close>

(*@ Kernel/paging.cpp:100-122 CleanPageMap *)
function clean_from :: "nat \<Rightarrow> nat \<Rightarrow> u64 \<Rightarrow> nat \<Rightarrow> paging_state \<Rightarrow> paging_state" where
  "clean_from level page_map addr i st =
    (if 512 \<le> i then st
     else
       let entry = pg_mem st page_map i in
       if \<not> e_present entry then clean_from level page_map addr (i + 1) st
       else
         let st1 = (if 1 < level then clean_from (level - 1) (e_pointer entry) addr (part (level - 1) addr) st else st);
             st2 = (if e_writable entry then free_page_map (e_pointer entry) st1 else st1);
             st3 = set_entry page_map i 0 st2
         in clean_from level page_map addr (i + 1) st3)"
  by pat_completeness auto
termination
  by (relation "inv_image (less_than <*lex*> less_than) (\<lambda>(level, pm, addr, i, st). (level, 512 - i))") auto

declare clean_from.simps [simp del]

(*@ Kernel/paging.cpp:98-123 CleanPageMap *)
definition clean_page_map :: "nat \<Rightarrow> nat \<Rightarrow> u64 \<Rightarrow> paging_state \<Rightarrow> error_code \<times> paging_state" where
  "clean_page_map level page_map addr st = (kSuccess, clean_from level page_map addr (part level addr) st)"

(*@ Kernel/paging.cpp:197-200 CleanPageMaps *)
definition clean_page_maps :: "nat \<Rightarrow> u64 \<Rightarrow> paging_state \<Rightarrow> error_code \<times> paging_state" where
  "clean_page_maps cr3 addr st = clean_page_map 4 cr3 addr st"

(*@ Kernel/paging.cpp:202-229 CopyPageMaps *)
function copy_page_maps :: "nat \<Rightarrow> nat \<Rightarrow> nat \<Rightarrow> nat \<Rightarrow> paging_state \<Rightarrow> error_code \<times> paging_state" where
  "copy_page_maps dest src level i st =
    (if 512 \<le> i then (kSuccess, st)
     else if \<not> e_present (pg_mem st src i) then copy_page_maps dest src level (i + 1) st
     else if level \<le> 1 then
       let st1 = set_entry dest i (pg_mem st src i) st;
           st2 = set_entry dest i (e_set_writable False (pg_mem st1 dest i)) st1
       in copy_page_maps dest src level (i + 1) st2
     else case new_page_map st of
            (Inl err, st1) \<Rightarrow> (err, st1)
          | (Inr table, st1) \<Rightarrow>
              let st2 = set_entry dest i (pg_mem st1 src i) st1;
                  st3 = set_entry dest i (e_set_pointer table (pg_mem st2 dest i)) st2
              in case copy_page_maps table (e_pointer (pg_mem st3 src i)) (level - 1) 0 st3 of
                   (err, st4) \<Rightarrow> if is_error err then (err, st4) else copy_page_maps dest src level (i + 1) st4)"
  by pat_completeness auto
termination
  by (relation "inv_image (less_than <*lex*> less_than) (\<lambda>(dest, src, level, i, st). (level, 512 - i))") auto

declare copy_page_maps.simps [simp del]

(*@ Kernel/paging.cpp:151-162 SetPageContent *)
fun set_page_content :: "nat \<Rightarrow> nat \<Rightarrow> u64 \<Rightarrow> nat \<Rightarrow> paging_state \<Rightarrow> error_code \<times> paging_state" where
  "set_page_content table 0 addr content st = (kSuccess, st)"
| "set_page_content table (Suc n) addr content st =
    (let i = part (Suc n) addr in
     if n = 0 then
       let st1 = set_entry table i (e_set_pointer content (pg_mem st table i)) st
       in (kSuccess, set_entry table i (e_set_writable True (pg_mem st1 table i)) st1)
     else set_page_content (e_pointer (pg_mem st table i)) n addr content st)"

(*@ Kernel/paging.cpp:164-173 CopyOnePage *)
definition copy_one_page :: "nat \<Rightarrow> u64 \<Rightarrow> paging_state \<Rightarrow> (error_code \<times> paging_state) option" where
  "copy_one_page cr3 causal_addr st =
    (case new_page_map st of
       (Inl err, st1) \<Rightarrow> Some (err, st1)
     | (Inr p, st1) \<Rightarrow>
         let aligned_addr = causal_addr AND 0xfffffffffffff000 in
         case walk (pg_mem st1) cr3 (page_path aligned_addr) of
           None \<Rightarrow> None
         | Some src \<Rightarrow>
             Some (set_page_content cr3 4 causal_addr p (st1\<lparr>pg_mem := (pg_mem st1)(p := pg_mem st1 src)\<rparr>)))"

(*@ Kernel/paging.cpp:125-133 FindFileMapping *)
fun find_file_mapping :: "file_mapping list \<Rightarrow> u64 \<Rightarrow> file_mapping option" where
  "find_file_mapping [] causal_vaddr = None"
| "find_file_mapping (m # ms) causal_vaddr =
    (if fm_vaddr_begin m \<le> causal_vaddr \<and> causal_vaddr < fm_vaddr_end m then Some m
     else find_file_mapping ms causal_vaddr)"

text \<open>\<^verbatim>\<open>fd.Load(buf, 4096, offset)\<close> is a parameter: what the loading descriptor makes of the page.\<close>

type_synonym page_load = "nat \<Rightarrow> u64 \<Rightarrow> (nat \<Rightarrow> u64) \<Rightarrow> (nat \<Rightarrow> u64)"

(*@ Kernel/paging.cpp:135-147 PreparePageCache *)
definition prepare_page_cache ::
  "page_load \<Rightarrow> nat \<Rightarrow> file_mapping \<Rightarrow> u64 \<Rightarrow> paging_state \<Rightarrow> (error_code \<times> paging_state) option" where
  "prepare_page_cache load cr3 m causal_vaddr st =
    (let page_vaddr = put_field 0 12 0 causal_vaddr in
     case setup_page_maps cr3 page_vaddr 1 True st of
       (err, st1) \<Rightarrow>
         if is_error err then Some (err, st1)
         else let file_offset = page_vaddr - fm_vaddr_begin m in
           case walk (pg_mem st1) cr3 (page_path page_vaddr) of
             None \<Rightarrow> None
           | Some f \<Rightarrow> Some (kSuccess, st1\<lparr>pg_mem := (pg_mem st1)(f := load (fm_fd m) file_offset (pg_mem st1 f))\<rparr>))"

(*@ Kernel/paging.cpp:231-252 HandlePageFault *)
definition handle_page_fault ::
  "page_load \<Rightarrow> task \<Rightarrow> nat \<Rightarrow> u64 \<Rightarrow> u64 \<Rightarrow> paging_state \<Rightarrow> (error_code \<times> paging_state) option" where
  "handle_page_fault load task cr3 err_bits causal_addr st =
    (let present = bit err_bits 0; rw = bit err_bits 1; user = bit err_bits 2 in
     if present \<and> rw \<and> user then copy_one_page cr3 causal_addr st
     else if present then Some (kAlreadyAllocated, st)
     else if dpaging_begin task \<le> causal_addr \<and> causal_addr < dpaging_end task then
       Some (setup_page_maps cr3 causal_addr 1 True st)
     else case find_file_mapping (file_maps task) causal_addr of
            Some m \<Rightarrow> prepare_page_cache load cr3 m causal_addr st
          | None \<Rightarrow> Some (kIndexOutOfRange, st))"

section \<open>The identity mapping of the kernel\<close>

(*@ Kernel/paging.hpp:14-20 kPageDirectoryCount *)
definition kPageDirectoryCount :: nat where "kPageDirectoryCount = 64"

text \<open>The tables \<^verbatim>\<open>pml4_table\<close>, \<^verbatim>\<open>pdp_table\<close> and \<^verbatim>\<open>page_directory\<close>, with the addresses they are
  linked at.\<close>

record identity_tables =
  pml4_table :: "nat \<Rightarrow> u64"
  pdp_table :: "nat \<Rightarrow> u64"
  page_directory :: "nat \<Rightarrow> nat \<Rightarrow> u64"

(*@ Kernel/paging.cpp:21-32 SetupIdentityPageTable *)
definition setup_identity_page_table :: "u64 \<Rightarrow> (nat \<Rightarrow> u64) \<Rightarrow> identity_tables \<Rightarrow> identity_tables" where
  "setup_identity_page_table pdp_addr dir_addr t =
    fold (\<lambda>i_pdpt t.
        fold (\<lambda>i_pd t. t\<lparr>page_directory := (page_directory t)(i_pdpt := (page_directory t i_pdpt)
               (i_pd := (of_nat i_pdpt * (512 * (512 * 4096)) + of_nat i_pd * (512 * 4096)) OR 0x083))\<rparr>)
          [0..<512] (t\<lparr>pdp_table := (pdp_table t)(i_pdpt := dir_addr i_pdpt OR 0x003)\<rparr>))
      [0..<kPageDirectoryCount] (t\<lparr>pml4_table := (pml4_table t)(0 := pdp_addr OR 0x003)\<rparr>)"

end
