(* ===== verification/Paging_Maps.thy ===== *)
theory Paging_Maps imports Paging begin

text \<open>
  What the operations of \<^verbatim>\<open>Kernel/paging.cpp\<close> do to the translation of the user half. \<open>maps_ext r R\<close>
  relates the states before and after mapping: every path that was mapped still leads to the same frame,
  new frames were free, only pages of the region \<open>R\<close> become mapped and start zeroed, and neither
  other pages' entries nor any other allocated frame changes.
\<close>

section \<open>The invariant and the frame condition\<close>

definition user_path :: "nat list \<Rightarrow> bool" where
  "user_path q \<longleftrightarrow> (\<forall>i \<in> set q. i < 512) \<and> (q \<noteq> [] \<longrightarrow> 256 \<le> hd q)"

abbreviation used :: "paging_state \<Rightarrow> nat set" where
  "used st \<equiv> used_frames (pg_alloc st)"

definition pages_ok :: "nat \<Rightarrow> paging_state \<Rightarrow> bool" where
  "pages_ok r st \<longleftrightarrow> mm_inv (pg_alloc st) \<and> range_end (pg_alloc st) \<le> 2 ^ 40 \<and>
     (\<forall>q f. user_path q \<and> length q \<le> 4 \<and> walk (pg_mem st) r q = Some f \<longrightarrow> f \<in> used st) \<and>
     (\<forall>p q f. user_path p \<and> length p \<le> 4 \<and> user_path q \<and> length q \<le> 4 \<and>
        walk (pg_mem st) r p = Some f \<and> walk (pg_mem st) r q = Some f \<longrightarrow> p = q)"

definition tables :: "nat \<Rightarrow> paging_state \<Rightarrow> nat set" where
  "tables r st = {f. \<exists>q. user_path q \<and> length q \<le> 3 \<and> walk (pg_mem st) r q = Some f}"

definition maps_ext :: "nat \<Rightarrow> nat list set \<Rightarrow> paging_state \<Rightarrow> paging_state \<Rightarrow> bool" where
  "maps_ext r R st st' \<longleftrightarrow>
     used st \<subseteq> used st' \<and> range_end (pg_alloc st') = range_end (pg_alloc st) \<and>
     (\<forall>q f. user_path q \<and> length q \<le> 4 \<and> walk (pg_mem st) r q = Some f \<longrightarrow> walk (pg_mem st') r q = Some f) \<and>
     (\<forall>q f. user_path q \<and> length q \<le> 4 \<and> walk (pg_mem st') r q = Some f \<and> walk (pg_mem st) r q = None \<longrightarrow>
        f \<notin> used st \<and> (length q = 4 \<longrightarrow> q \<in> R \<and> pg_mem st' f = zero_frame)) \<and>
     (\<forall>f \<in> used st. f \<notin> Paging_Maps.tables r st \<longrightarrow> pg_mem st' f = pg_mem st f) \<and>
     (\<forall>p g i. user_path (p @ [i]) \<and> length p = 3 \<and> walk (pg_mem st) r p = Some g \<and> p @ [i] \<notin> R \<longrightarrow>
        pg_mem st' g i = pg_mem st g i) \<and>
     (\<forall>p g i. user_path (p @ [i]) \<and> length p \<le> 2 \<and> walk (pg_mem st) r p = Some g \<and>
        e_present (pg_mem st g i) \<and> e_user (pg_mem st g i) \<and> e_writable (pg_mem st g i) \<longrightarrow>
        e_user (pg_mem st' g i) \<and> e_writable (pg_mem st' g i)) \<and>
     (\<forall>i < 256. pg_mem st' r i = pg_mem st r i)"

text \<open>A page can be reached by a user program: all entries present and user, the upper ones writable,
  the last one as asked.\<close>

fun grants :: "bool \<Rightarrow> phys_mem \<Rightarrow> nat \<Rightarrow> nat list \<Rightarrow> bool" where
  "grants w mem f [] = True"
| "grants w mem f (i # q) =
    (e_present (mem f i) \<and> e_user (mem f i) \<and> e_writable (mem f i) = (q \<noteq> [] \<or> w) \<and>
     grants w mem (e_pointer (mem f i)) q)"

lemma pages_okD:
  assumes "pages_ok r st"
  shows "mm_inv (pg_alloc st)" "range_end (pg_alloc st) \<le> 2 ^ 40"
    "user_path q \<Longrightarrow> length q \<le> 4 \<Longrightarrow> walk (pg_mem st) r q = Some f \<Longrightarrow> f \<in> used st"
    "user_path p \<Longrightarrow> length p \<le> 4 \<Longrightarrow> user_path q \<Longrightarrow> length q \<le> 4 \<Longrightarrow>
      walk (pg_mem st) r p = Some f \<Longrightarrow> walk (pg_mem st) r q = Some f \<Longrightarrow> p = q"
  using assms unfolding pages_ok_def by blast+

lemma pages_okI:
  assumes "mm_inv (pg_alloc st)" "range_end (pg_alloc st) \<le> 2 ^ 40"
    "\<And>q f. user_path q \<Longrightarrow> length q \<le> 4 \<Longrightarrow> walk (pg_mem st) r q = Some f \<Longrightarrow> f \<in> used st"
    "\<And>p q f. user_path p \<Longrightarrow> length p \<le> 4 \<Longrightarrow> user_path q \<Longrightarrow> length q \<le> 4 \<Longrightarrow>
      walk (pg_mem st) r p = Some f \<Longrightarrow> walk (pg_mem st) r q = Some f \<Longrightarrow> p = q"
  shows "pages_ok r st"
  using assms unfolding pages_ok_def by blast

lemma maps_extD:
  assumes "maps_ext r R st st'"
  shows "used st \<subseteq> used st'" "range_end (pg_alloc st') = range_end (pg_alloc st)"
    "user_path q \<Longrightarrow> length q \<le> 4 \<Longrightarrow> walk (pg_mem st) r q = Some f \<Longrightarrow> walk (pg_mem st') r q = Some f"
    "user_path q \<Longrightarrow> length q \<le> 4 \<Longrightarrow> walk (pg_mem st') r q = Some f \<Longrightarrow> walk (pg_mem st) r q = None \<Longrightarrow>
      f \<notin> used st \<and> (length q = 4 \<longrightarrow> q \<in> R \<and> pg_mem st' f = zero_frame)"
    "f \<in> used st \<Longrightarrow> f \<notin> Paging_Maps.tables r st \<Longrightarrow> pg_mem st' f = pg_mem st f"
    "user_path (p @ [i]) \<Longrightarrow> length p = 3 \<Longrightarrow> walk (pg_mem st) r p = Some g \<Longrightarrow> p @ [i] \<notin> R \<Longrightarrow>
      pg_mem st' g i = pg_mem st g i"
    "user_path (p @ [i]) \<Longrightarrow> length p \<le> 2 \<Longrightarrow> walk (pg_mem st) r p = Some g \<Longrightarrow>
      e_present (pg_mem st g i) \<Longrightarrow> e_user (pg_mem st g i) \<Longrightarrow> e_writable (pg_mem st g i) \<Longrightarrow>
      e_user (pg_mem st' g i) \<and> e_writable (pg_mem st' g i)"
    "i < 256 \<Longrightarrow> pg_mem st' r i = pg_mem st r i"
  using assms unfolding maps_ext_def by blast+

lemma user_path_prefix: "user_path (p @ q) \<Longrightarrow> user_path p"
  by (cases p) (auto simp: user_path_def)

lemma user_path_table: "user_path (p @ [i]) \<Longrightarrow> i < 512" "user_path [i] \<Longrightarrow> 256 \<le> i"
  by (auto simp: user_path_def)

lemma in_tables: "user_path q \<Longrightarrow> length q \<le> 3 \<Longrightarrow> walk (pg_mem st) r q = Some f \<Longrightarrow> f \<in> Paging_Maps.tables r st"
  by (auto simp: tables_def)

lemma maps_ext_refl: "maps_ext r R st st"
  by (auto simp: maps_ext_def)

lemma maps_ext_mono: "maps_ext r R st st' \<Longrightarrow> R \<subseteq> R' \<Longrightarrow> maps_ext r R' st st'"
  unfolding maps_ext_def by blast

lemma maps_ext_upper:
  assumes "maps_ext r R st st'" "\<forall>q \<in> R. length q \<noteq> 4"
  shows "maps_ext r R' st st'"
proof -
  have "p @ [i] \<notin> R" if "length p = 3" for p i using assms(2) that by auto
  then show ?thesis using assms unfolding maps_ext_def by blast
qed

lemma maps_ext_trans:
  assumes ok1: "pages_ok r st1" and e1: "maps_ext r R1 st st1" and e2: "maps_ext r R2 st1 st2"
  shows "maps_ext r (R1 \<union> R2) st st2"
  unfolding maps_ext_def
proof (intro conjI allI ballI impI; (elim conjE)?)
  note d1 = maps_extD [OF e1] and d2 = maps_extD [OF e2]
  show "used st \<subseteq> used st2" using d1(1) d2(1) by blast
  show "range_end (pg_alloc st2) = range_end (pg_alloc st)" using d1(2) d2(2) by simp
  show "walk (pg_mem st2) r q = Some f" if "user_path q" "length q \<le> 4" "walk (pg_mem st) r q = Some f" for q f
    using d2(3) [OF that(1,2)] d1(3) [OF that] by simp
  show "pg_mem st2 f = pg_mem st f" if f: "f \<in> used st" "f \<notin> Paging_Maps.tables r st" for f
  proof -
    have "f \<notin> Paging_Maps.tables r st1"
    proof
      assume "f \<in> Paging_Maps.tables r st1"
      then obtain q where q: "user_path q" "length q \<le> 3" "walk (pg_mem st1) r q = Some f" by (auto simp: tables_def)
      show False
      proof (cases "walk (pg_mem st) r q")
        case None
        then show False using d1(4) [OF q(1) _ q(3)] q(2) f(1) by simp
      next
        case (Some g)
        then have "g = f" using d1(3) [OF q(1) _ Some] q(2,3) by simp
        then show False using in_tables [OF q(1,2) Some] f(2) by simp
      qed
    qed
    then show ?thesis using d1(5) [OF f] d2(5) [of f] d1(1) f(1) by auto
  qed
  show "f \<notin> used st" if q: "user_path q" "length q \<le> 4" "walk (pg_mem st2) r q = Some f" "walk (pg_mem st) r q = None" for q f
  proof (cases "walk (pg_mem st1) r q")
    case None
    then show ?thesis using d2(4) [OF q(1-3)] d1(1) by blast
  next
    case (Some g)
    then show ?thesis using d2(3) [OF q(1,2) Some] d1(4) [OF q(1,2) Some q(4)] q(3) by simp
  qed
  show "q \<in> R1 \<union> R2" if q: "user_path q" "length q \<le> 4" "walk (pg_mem st2) r q = Some f" "walk (pg_mem st) r q = None" "length q = 4" for q f
  proof (cases "walk (pg_mem st1) r q")
    case None
    then show ?thesis using d2(4) [OF q(1-3)] q(5) by blast
  next
    case (Some g)
    then show ?thesis using d1(4) [OF q(1,2) Some q(4)] q(5) by simp
  qed
  show "pg_mem st2 f = zero_frame" if q: "user_path q" "length q \<le> 4" "walk (pg_mem st2) r q = Some f" "walk (pg_mem st) r q = None" "length q = 4" for q f
  proof (cases "walk (pg_mem st1) r q")
    case None
    then show ?thesis using d2(4) [OF q(1-3)] q(5) by blast
  next
    case (Some g)
    then have g: "g = f" using d2(3) [OF q(1,2) Some] q(3) by simp
    have z: "pg_mem st1 f = zero_frame" using d1(4) [OF q(1,2) Some q(4)] q(5) g by simp
    have u: "f \<in> used st1" using pages_okD(3) [OF ok1 q(1,2) Some] g by simp
    have "f \<notin> Paging_Maps.tables r st1"
    proof
      assume "f \<in> Paging_Maps.tables r st1"
      then obtain p where p: "user_path p" "length p \<le> 3" "walk (pg_mem st1) r p = Some f" by (auto simp: tables_def)
      have "p = q" using pages_okD(4) [OF ok1 p(1) _ q(1,2) p(3)] p(2) Some g by simp
      then show False using p(2) q(5) by simp
    qed
    then show ?thesis using d2(5) [OF u] z by simp
  qed
  show "pg_mem st2 g i = pg_mem st g i" if p: "user_path (p @ [i])" "length p = 3" "walk (pg_mem st) r p = Some g" "p @ [i] \<notin> R1 \<union> R2" for p g i
  proof -
    have "walk (pg_mem st1) r p = Some g" using d1(3) [OF user_path_prefix [OF p(1)] _ p(3)] p(2) by simp
    then show ?thesis using d1(6) [OF p(1-3)] d2(6) [OF p(1,2)] p(4) by simp
  qed
  have flags: "e_user (pg_mem st2 g i) \<and> e_writable (pg_mem st2 g i)"
    if p: "user_path (p @ [i])" "length p \<le> 2" "walk (pg_mem st) r p = Some g" "e_present (pg_mem st g i)"
    "e_user (pg_mem st g i)" "e_writable (pg_mem st g i)" for p g i
  proof -
    have w1: "walk (pg_mem st1) r p = Some g" using d1(3) [OF user_path_prefix [OF p(1)] _ p(3)] p(2) by simp
    have "walk (pg_mem st1) r (p @ [i]) = Some (e_pointer (pg_mem st g i))"
      using d1(3) [OF p(1), of "e_pointer (pg_mem st g i)"] p(2-4) by (simp add: walk_snoc)
    then have "e_present (pg_mem st1 g i)" using w1 by (simp add: walk_snoc split: if_splits)
    then show ?thesis using d1(7) [OF p] d2(7) [OF p(1,2) w1] by blast
  qed
  show "e_user (pg_mem st2 g i)" if "user_path (p @ [i])" "length p \<le> 2" "walk (pg_mem st) r p = Some g" "e_present (pg_mem st g i)"
    "e_user (pg_mem st g i)" "e_writable (pg_mem st g i)" for p g i using flags that by blast
  show "e_writable (pg_mem st2 g i)" if "user_path (p @ [i])" "length p \<le> 2" "walk (pg_mem st) r p = Some g" "e_present (pg_mem st g i)"
    "e_user (pg_mem st g i)" "e_writable (pg_mem st g i)" for p g i using flags that by blast
  show "pg_mem st2 r i = pg_mem st r i" if "i < 256" for i
    using d1(8) [OF that] d2(8) [OF that] by simp
qed

lemma grants_kept:
  assumes ext: "maps_ext r R st st'"
  shows "walk (pg_mem st) r t = Some g \<Longrightarrow> user_path (t @ s) \<Longrightarrow> length (t @ s) = 4 \<Longrightarrow> t @ s \<notin> R \<Longrightarrow>
    grants w (pg_mem st) g s \<Longrightarrow> grants w (pg_mem st') g s"
proof (induction s arbitrary: t g)
  case (Cons i s)
  note d = maps_extD [OF ext]
  let ?e = "pg_mem st g i" and ?e' = "pg_mem st' g i"
  have ut: "user_path (t @ [i])" "user_path t"
    using Cons.prems(2) user_path_prefix [of "t @ [i]" s] user_path_prefix [of t "i # s"] by simp_all
  have lt: "length t \<le> 3" using Cons.prems(3) by simp
  have e: "e_present ?e" "e_user ?e" "e_writable ?e = (s \<noteq> [] \<or> w)" "grants w (pg_mem st) (e_pointer ?e) s"
    using Cons.prems(5) by simp_all
  have w: "walk (pg_mem st) r (t @ [i]) = Some (e_pointer ?e)" using Cons.prems(1) e(1) by (simp add: walk_snoc)
  have "walk (pg_mem st') r t = Some g" "walk (pg_mem st') r (t @ [i]) = Some (e_pointer ?e)"
    using d(3) [OF ut(2) _ Cons.prems(1)] d(3) [OF ut(1) _ w] lt by simp_all
  then have e': "e_present ?e'" "e_pointer ?e' = e_pointer ?e" by (simp_all add: walk_snoc split: if_splits)
  have "grants w (pg_mem st') (e_pointer ?e) s"
    using Cons.IH [OF w] Cons.prems e(4) by simp
  moreover have "e_user ?e' \<and> e_writable ?e' = (s \<noteq> [] \<or> w)"
  proof (cases "s = []")
    case True
    then have "?e' = ?e" using d(6) [OF ut(1) _ Cons.prems(1)] Cons.prems(3,4) by simp
    then show ?thesis using e by simp
  next
    case False
    then have "length t \<le> 2" using Cons.prems(3) by (cases s) auto
    then show ?thesis using d(7) [OF ut(1) _ Cons.prems(1) e(1,2)] e(3) False by blast
  qed
  ultimately show ?case using e' by simp
qed simp

section \<open>Writing one entry\<close>

lemma walk_same_links:
  assumes "\<And>g i. e_present (mem' g i) = e_present (mem g i) \<and> (e_present (mem g i) \<longrightarrow> e_pointer (mem' g i) = e_pointer (mem g i))"
  shows "walk mem' f q = walk mem f q"
  using assms by (induction mem f q rule: walk.induct) auto

lemma pg_mem_set_entry: "pg_mem (set_entry g i e st) = (\<lambda>f j. if f = g \<and> j = i then e else pg_mem st f j)"
  by (auto simp: set_entry_def fun_eq_iff)

lemma set_entry_alloc [simp]: "pg_alloc (set_entry g i e st) = pg_alloc st"
  by (simp add: set_entry_def)

lemma root_entry_user:
  assumes "pages_ok r st" "walk (pg_mem st) r p = Some g" "user_path (p @ [i])" "length p \<le> 4" "g = r"
  shows "256 \<le> i"
proof -
  have "p = []"
    using pages_okD(4) [OF assms(1) user_path_prefix [OF assms(3)] assms(4), of "[]" g] assms(2,5)
    by (simp add: user_path_def)
  then show ?thesis using assms(3) by (simp add: user_path_def)
qed

text \<open>Changing only the flags of a present entry.\<close>

lemma set_flags:
  assumes ok: "pages_ok r st" and p: "walk (pg_mem st) r p = Some g" "user_path (p @ [i])" "length p \<le> 3"
    and e: "e_present (pg_mem st g i)" "e_present e" "e_pointer e = e_pointer (pg_mem st g i)"
      "length p \<le> 2 \<Longrightarrow> e_user (pg_mem st g i) \<Longrightarrow> e_writable (pg_mem st g i) \<Longrightarrow> e_user e \<and> e_writable e"
    and R: "length p = 3 \<Longrightarrow> p @ [i] \<in> R"
  shows "pages_ok r (set_entry g i e st)" "maps_ext r R st (set_entry g i e st)"
    "walk (pg_mem (set_entry g i e st)) f q = walk (pg_mem st) f q"
proof -
  let ?st = "set_entry g i e st"
  have w: "walk (pg_mem ?st) f q = walk (pg_mem st) f q" for f q
    by (rule walk_same_links) (use e in \<open>simp add: pg_mem_set_entry\<close>)
  then show "walk (pg_mem (set_entry g i e st)) f q = walk (pg_mem st) f q" .
  show "pages_ok r ?st" using ok by (simp add: pages_ok_def w)
  have up: "user_path p" using p(2) user_path_prefix by blast
  have g: "g \<in> Paging_Maps.tables r st" by (rule in_tables [OF up p(3,1)])
  have uniq: "p' = p" if "user_path (p' @ [j])" "length p' \<le> 3" "walk (pg_mem st) r p' = Some g" for p' j
    using pages_okD(4) [OF ok user_path_prefix [OF that(1)] _ up _ that(3) p(1)] that(2) p(3) by simp
  show "maps_ext r R st ?st"
    unfolding maps_ext_def
  proof (intro conjI allI ballI impI; (elim conjE)?)
    show "pg_mem ?st f = pg_mem st f" if "f \<in> used st" "f \<notin> Paging_Maps.tables r st" for f
      using that g by (auto simp: pg_mem_set_entry fun_eq_iff)
    show "pg_mem ?st g' j = pg_mem st g' j"
      if "user_path (p' @ [j])" "length p' = 3" "walk (pg_mem st) r p' = Some g'" "p' @ [j] \<notin> R" for p' g' j
      using that uniq [of p' j] R by (auto simp: pg_mem_set_entry)
    show "e_user (pg_mem ?st g' j)" "e_writable (pg_mem ?st g' j)"
      if "user_path (p' @ [j])" "length p' \<le> 2" "walk (pg_mem st) r p' = Some g'" "e_present (pg_mem st g' j)"
        "e_user (pg_mem st g' j)" "e_writable (pg_mem st g' j)" for p' g' j
      using that uniq [of p' j] e(4) by (auto simp: pg_mem_set_entry)
    show "pg_mem ?st r j = pg_mem st r j" if "j < 256" for j
      using that root_entry_user [OF ok p(1,2)] p(3) by (auto simp: pg_mem_set_entry)
  qed (simp_all add: w)
qed


section \<open>A new table or page\<close>

lemma walk_new_child:
  assumes ok: "pages_ok r st" and p: "walk (pg_mem st) r p = Some g" "user_path (p @ [i])" "length p \<le> 3"
    and none: "\<not> e_present (pg_mem st g i)" and c: "c \<notin> used st"
    and e: "e_present e" "e_pointer e = c"
  defines "mem' \<equiv> \<lambda>f j. if f = g \<and> j = i then e else if f = c then 0 else pg_mem st f j"
  shows "walk (pg_mem st) r t = Some f \<Longrightarrow> user_path (t @ s) \<Longrightarrow> length (t @ s) \<le> 4 \<Longrightarrow>
    walk mem' f s = (if t @ s = p @ [i] then Some c else walk (pg_mem st) f s)"
proof (induction s arbitrary: t f)
  case Nil
  have "t \<noteq> p @ [i]" using Nil.prems(1) p(1) none by (auto simp: walk_snoc)
  then show ?case by simp
next
  case (Cons j s)
  have up: "user_path p" "user_path t" "user_path (t @ [j])"
    using p(2) Cons.prems(2) user_path_prefix [of t "j # s"] user_path_prefix [of "t @ [j]" s] user_path_prefix [of p "[i]"] by simp_all
  have fused: "f \<in> used st" using pages_okD(3) [OF ok up(2) _ Cons.prems(1)] Cons.prems(3) by simp
  have gused: "g \<in> used st" using pages_okD(3) [OF ok up(1) _ p(1)] p(3) by simp
  have fc: "f \<noteq> c" "g \<noteq> c" using fused gused c by auto
  show ?case
  proof (cases "f = g \<and> j = i")
    case True
    then have t: "t = p"
      using pages_okD(4) [OF ok up(2) _ up(1) _ Cons.prems(1)] p(1,3) Cons.prems(3) by simp
    have m: "mem' f j = e" using True by (simp add: mem'_def)
    have z: "walk mem' c s = (if s = [] then Some c else None)"
      using fc(2) by (cases s) (simp_all add: mem'_def)
    show ?thesis using m z t True none e by simp
  next
    case False
    then have m: "mem' f j = pg_mem st f j" using fc by (auto simp: mem'_def)
    show ?thesis
    proof (cases "e_present (pg_mem st f j)")
      case True
      have "walk (pg_mem st) r (t @ [j]) = Some (e_pointer (pg_mem st f j))"
        using Cons.prems(1) True by (simp add: walk_snoc)
      from Cons.IH [OF this] Cons.prems True m show ?thesis by simp
    next
      case np: False
      have "t @ j # s \<noteq> p @ [i]"
      proof
        assume eq: "t @ j # s = p @ [i]"
        show False
        proof (cases s rule: rev_cases)
          case Nil
          then have "t = p" "j = i" using eq by simp_all
          then show False using False Cons.prems(1) p(1) by simp
        next
          case (snoc s' x)
          then have "p = t @ j # s'" using eq by simp
          then have "walk (pg_mem st) r p = None" using Cons.prems(1) np by (simp add: walk_append)
          then show False using p(1) by simp
        qed
      qed
      then show ?thesis using m np by simp
    qed
  qed
qed

lemma set_new_child:
  assumes ok: "pages_ok r st" and p: "walk (pg_mem st) r p = Some g" "user_path (p @ [i])" "length p \<le> 3"
    and res: "set_new_page_map_if_not_present g i st = (Inr c, st1)"
  shows "pages_ok r st1 \<and> maps_ext r {p @ [i]} st st1 \<and> e_present (pg_mem st1 g i) \<and> e_pointer (pg_mem st1 g i) = c"
proof (cases "e_present (pg_mem st g i)")
  case True
  then have "st1 = st" "c = e_pointer (pg_mem st g i)" using res by (auto simp: set_new_page_map_if_not_present_def)
  then show ?thesis using ok maps_ext_refl True by simp
next
  case False
  have up: "user_path p" using p(2) user_path_prefix by blast
  have gused: "g \<in> used st" using pages_okD(3) [OF ok up _ p(1)] p(3) by simp
  obtain a where a: "allocate (pg_alloc st) 1 = (Inr c, a)"
    using res False
    by (auto simp: set_new_page_map_if_not_present_def new_page_map_def Let_def split: prod.splits sum.splits)
  note mm = pages_okD(1) [OF ok]
  have c: "c \<notin> used st" "c < 2 ^ 40"
    using frames.alloc_fresh [OF mm a] pages_okD(2) [OF ok] by auto
  have fc: "g \<noteq> c" using gused c(1) by auto
  define e where "e = e_set_present True (e_set_pointer c (pg_mem st g i))"
  have e: "e_present e" "e_pointer e = c" using c(2) by (simp_all add: e_def)
  have st1: "pg_alloc st1 = a" "pg_mem st1 = (\<lambda>f j. if f = g \<and> j = i then e else if f = c then 0 else pg_mem st f j)"
    using res False a fc
    by (auto simp: set_new_page_map_if_not_present_def new_page_map_def Let_def e_def fun_eq_iff zero_frame_def pg_mem_set_entry)
  note keep = frames.alloc_keeps [OF mm a] and us = frames.alloc_used [OF mm a]
  have used1: "used st1 = insert c (used st)" using us st1(1) by auto
  have wk: "walk (pg_mem st1) r q = (if q = p @ [i] then Some c else walk (pg_mem st) r q)"
    if "user_path q" "length q \<le> 4" for q
    using walk_new_child [OF ok p False c(1) e, of "[]" r q] that by (simp add: st1(2))
  have none: "walk (pg_mem st) r (p @ [i]) = None" using p(1) False by (simp add: walk_snoc)
  have ok1: "pages_ok r st1"
    unfolding pages_ok_def
  proof (intro conjI allI impI; (elim conjE)?)
    show "mm_inv (pg_alloc st1)" "range_end (pg_alloc st1) \<le> 2 ^ 40"
      using keep pages_okD(2) [OF ok] by (simp_all add: st1)
    show "f \<in> used st1" if "user_path q" "length q \<le> 4" "walk (pg_mem st1) r q = Some f" for q f
      using that wk [OF that(1,2)] pages_okD(3) [OF ok that(1,2)] by (auto simp: used1 split: if_splits)
    show "p1 = p2" if "user_path p1" "length p1 \<le> 4" "user_path p2" "length p2 \<le> 4"
      "walk (pg_mem st1) r p1 = Some f" "walk (pg_mem st1) r p2 = Some f" for p1 p2 f
      using that(5,6) wk [OF that(1,2)] wk [OF that(3,4)] c(1) pages_okD(3) [OF ok that(1,2), of c]
        pages_okD(3) [OF ok that(3,4), of c] pages_okD(4) [OF ok that(1-4), of f]
      by (auto split: if_splits)
  qed
  have uniq: "p' = p" if "user_path (p' @ [j])" "length p' \<le> 3" "walk (pg_mem st) r p' = Some g" for p' j
    using pages_okD(4) [OF ok user_path_prefix [OF that(1)] _ up _ that(3) p(1)] that(2) p(3) by simp
  have old: "pg_mem st1 g' j = pg_mem st g' j" if "g' \<in> used st" "g' \<noteq> g \<or> j \<noteq> i" for g' j
    using that c(1) by (auto simp: st1)
  have ext: "maps_ext r {p @ [i]} st st1"
    unfolding maps_ext_def
  proof (intro conjI allI ballI impI; (elim conjE)?)
    show "used st \<subseteq> used st1" by (auto simp: used1)
    show "range_end (pg_alloc st1) = range_end (pg_alloc st)" using keep by (simp add: st1)
    show "walk (pg_mem st1) r q = Some f" if "user_path q" "length q \<le> 4" "walk (pg_mem st) r q = Some f" for q f
      using that none wk [OF that(1,2)] by auto
    show "f \<notin> used st" "q \<in> {p @ [i]}" "pg_mem st1 f = zero_frame"
      if "user_path q" "length q \<le> 4" "walk (pg_mem st1) r q = Some f" "walk (pg_mem st) r q = None" for q f
      using that wk [OF that(1,2)] c(1) fc by (auto simp: st1(2) zero_frame_def fun_eq_iff split: if_splits)
    show "pg_mem st1 f = pg_mem st f" if "f \<in> used st" "f \<notin> Paging_Maps.tables r st" for f
      using that in_tables [OF up p(3,1)] by (intro HOL.ext old) auto
    show "pg_mem st1 g' j = pg_mem st g' j"
      if "user_path (p' @ [j])" "length p' = 3" "walk (pg_mem st) r p' = Some g'" "p' @ [j] \<notin> {p @ [i]}" for p' g' j
      using that uniq [of p' j] pages_okD(3) [OF ok user_path_prefix [OF that(1)] _ that(3)] by (intro old) auto
    show "e_user (pg_mem st1 g' j)" "e_writable (pg_mem st1 g' j)"
      if "user_path (p' @ [j])" "length p' \<le> 2" "walk (pg_mem st) r p' = Some g'" "e_present (pg_mem st g' j)"
        "e_user (pg_mem st g' j)" "e_writable (pg_mem st g' j)" for p' g' j
    proof -
      have "g' \<noteq> g \<or> j \<noteq> i" using that(4) False by auto
      then have "pg_mem st1 g' j = pg_mem st g' j"
        using pages_okD(3) [OF ok user_path_prefix [OF that(1)] _ that(3)] that(2) by (intro old) auto
      then show "e_user (pg_mem st1 g' j)" "e_writable (pg_mem st1 g' j)" using that(5,6) by simp_all
    qed
    show "pg_mem st1 r j = pg_mem st r j" if "j < 256" for j
    proof (rule old)
      show "r \<in> used st" using pages_okD(3) [OF ok, of "[]" r] by (simp add: user_path_def)
      show "r \<noteq> g \<or> j \<noteq> i" using that root_entry_user [OF ok p(1,2)] p(3) by auto
    qed
  qed
  show ?thesis using ok1 ext e by (simp add: st1(2))
qed

lemma set_new_child_fails:
  assumes ok: "pages_ok r st" and res: "set_new_page_map_if_not_present g i st = (Inl err, st1)"
  shows "st1 = st \<and> err = kNoEnoughMemory"
proof -
  obtain a where a: "allocate (pg_alloc st) 1 = (Inl err, a)" "st1 = st\<lparr>pg_alloc := a\<rparr>"
    using res by (auto simp: set_new_page_map_if_not_present_def new_page_map_def Let_def split: if_splits prod.splits sum.splits)
  then show ?thesis using frames.alloc_fail [OF pages_okD(1) [OF ok] a(1)] by simp
qed


section \<open>SetupPageMap\<close>

text \<open>The pages below a table reached by \<open>p\<close> that a call has to map.\<close>

definition region :: "nat list \<Rightarrow> nat \<Rightarrow> nat \<Rightarrow> nat \<Rightarrow> nat list set" where
  "region p k lo num = {p @ digits k x |x. lo \<le> x \<and> x < lo + num \<and> x < 512 ^ k}"

definition setup_result :: "nat \<Rightarrow> nat list \<Rightarrow> bool \<Rightarrow> nat \<Rightarrow> nat \<Rightarrow> nat \<Rightarrow> nat \<Rightarrow> paging_state \<Rightarrow> nat result \<times> paging_state \<Rightarrow> bool" where
  "setup_result r p w k pm lo num st out \<longleftrightarrow>
     (case out of (res, st') \<Rightarrow> pages_ok r st' \<and> maps_ext r (region p k lo num) st st' \<and>
       (case res of
          Inl err \<Rightarrow> err = kNoEnoughMemory
        | Inr m \<Rightarrow> m = num - (512 ^ k - lo) \<and>
            (\<forall>x. lo \<le> x \<and> x < lo + num \<and> x < 512 ^ k \<longrightarrow> grants w (pg_mem st') pm (digits k x))))"

lemma region_child:
  assumes "i < 512" "c < 512 ^ k"
  shows "region (p @ [i]) k c num \<subseteq> region p (Suc k) (i * 512 ^ k + c) num"
proof
  fix q assume "q \<in> region (p @ [i]) k c num"
  then obtain y where y: "q = (p @ [i]) @ digits k y" "c \<le> y" "y < c + num" "y < 512 ^ k" by (auto simp: region_def)
  have "i * 512 ^ k + y < 512 ^ Suc k"
  proof -
    have "i * 512 ^ k + y < (i + 1) * 512 ^ k" using y(4) by simp
    also have "\<dots> \<le> 512 * 512 ^ k" using assms(1) by (intro mult_right_mono) auto
    finally show ?thesis by simp
  qed
  then show "q \<in> region p (Suc k) (i * 512 ^ k + c) num"
    unfolding region_def using y digits_split [OF y(4) assms(1)]
    by (intro CollectI exI [of _ "i * 512 ^ k + y"]) (auto simp: add.commute)
qed

lemma region_rest:
  assumes "lo < B" "n' \<le> num - (B - lo)"
  shows "region p k B n' \<subseteq> region p k lo num"
  using assms by (fastforce simp: region_def)

lemma region_disjoint:
  assumes "x < 512 ^ k" "x < lo"
  shows "p @ digits k x \<notin> region p k lo num"
  using assms digits_inj [of x k] by (auto simp: region_def)

text \<open>The arithmetic of one round: entry \<open>i\<close> of level \<open>k + 1\<close> covers the page numbers from
  \<open>i * 512 ^ k\<close> on.\<close>

lemma round_arith:
  fixes i c B num :: nat
  assumes "c < B" "i < 512"
  shows "num - (B - c) - (512 * B - (i + 1) * B) = num - (512 * B - (i * B + c))"
    "i * B + c < (i + 1) * B" "(i + 1) * B \<le> 512 * B"
    "(i + 1) * B \<le> x \<Longrightarrow> x < i * B + c + num \<Longrightarrow> x < (i + 1) * B + (num - (B - c))"
proof -
  show le: "(i + 1) * B \<le> 512 * B" using assms(2) by (intro mult_right_mono) auto
  show "i * B + c < (i + 1) * B" using assms(1) by simp
  show "x < (i + 1) * B + (num - (B - c))" if "(i + 1) * B \<le> x" "x < i * B + c + num"
    using that assms(1) by (cases "B - c \<le> num") (auto simp: algebra_simps)
  have "(B - c) + (512 * B - (i + 1) * B) = 512 * B - (i * B + c)"
    using le assms(1) by (simp add: algebra_simps)
  then show "num - (B - c) - (512 * B - (i + 1) * B) = num - (512 * B - (i * B + c))"
    by (simp only: diff_diff_left)
qed

text \<open>Putting a round together: entry \<open>i\<close> has been handled down to the state \<open>st4\<close> with \<open>m\<close> pages
  left, and the loop either ends behind entry 511 or goes on.\<close>

lemma setup_round:
  assumes lev: "k < 4" "length p = 3 - k" and up: "user_path (p @ [i])"
    and pm: "walk (pg_mem st) r p = Some pm"
    and lo: "lo = i * 512 ^ k + c" "c < 512 ^ k"
    and child: "pages_ok r st4" "maps_ext r (region p (Suc k) lo num) st st4"
      "\<forall>y. c \<le> y \<and> y < c + num \<and> y < 512 ^ k \<longrightarrow> grants w (pg_mem st4) pm (i # digits k y)"
    and m: "m = num - (512 ^ k - c)"
    and rest: "i = 511 \<and> out = (Inr m, st4) \<or>
      i \<noteq> 511 \<and> setup_result r p w (Suc k) pm ((i + 1) * 512 ^ k) m st4 out"
  shows "setup_result r p w (Suc k) pm lo num st out"
proof -
  let ?B = "512 ^ k"
  have i: "i < 512" using user_path_table(1) [OF up] .
  note ar = round_arith(1) [OF lo(2) i, of num] round_arith(2,3) [OF lo(2) i] round_arith(4) [OF lo(2) i, of x num for x]
  have here: "grants w (pg_mem st4) pm (digits (Suc k) x)"
    if "lo \<le> x" "x < lo + num" "x < (i + 1) * ?B" for x
  proof -
    define y where "y = x - i * ?B"
    have y: "x = i * ?B + y" "c \<le> y" "y < c + num" "y < ?B" using that lo(1) by (auto simp: y_def)
    then show ?thesis using child(3) digits_split [OF y(4) i] by simp
  qed
  show ?thesis
  proof (cases "i = 511")
    case True
    then have out: "out = (Inr m, st4)" using rest by simp
    have "m = num - (512 ^ Suc k - lo)" using m ar(1) lo(1) True by simp
    moreover have "x < (i + 1) * ?B" if "x < 512 ^ Suc k" for x using that True by simp
    ultimately show ?thesis using child(1,2) here by (simp add: setup_result_def out)
  next
    case False
    obtain res st' where out: "out = (res, st')" by (cases out)
    have r: "setup_result r p w (Suc k) pm ((i + 1) * ?B) m st4 (res, st')" using rest False out by simp
    let ?R2 = "region p (Suc k) ((i + 1) * ?B) m"
    have ok: "pages_ok r st'" and e2: "maps_ext r ?R2 st4 st'" using r by (auto simp: setup_result_def)
    have "?R2 \<subseteq> region p (Suc k) lo num"
      by (rule region_rest) (use ar lo(1) m in auto)
    then have e: "maps_ext r (region p (Suc k) lo num) st st'"
      using maps_ext_trans [OF child(1,2) e2] by (simp add: Un_absorb2)
    have pm4: "walk (pg_mem st4) r p = Some pm"
      using maps_extD(3) [OF child(2) user_path_prefix [OF up] _ pm] lev by simp
    have "m - (512 ^ Suc k - (i + 1) * ?B) = num - (512 ^ Suc k - lo)"
      using ar(1) by (simp add: m lo(1))
    moreover have "grants w (pg_mem st') pm (digits (Suc k) x)"
      if x: "lo \<le> x" "x < lo + num" "x < 512 ^ Suc k" and fin: "\<forall>x. (i + 1) * ?B \<le> x \<and> x < (i + 1) * ?B + m \<and> x < 512 ^ Suc k \<longrightarrow>
        grants w (pg_mem st') pm (digits (Suc k) x)" for x
    proof (cases "x < (i + 1) * ?B")
      case True
      have up': "user_path (p @ digits (Suc k) x)"
      proof -
        have "lo div ?B \<le> x div ?B" using x(1) by (rule div_le_mono)
        then have "i \<le> x div ?B" using lo by simp
        moreover have "x div ?B \<le> i" using True by (metis Suc_eq_plus1 less_Suc_eq_le less_mult_imp_div_less)
        moreover have "\<forall>j \<in> set (digits k (x mod ?B)). j < 512" using digits_less [of "x mod ?B" k] by simp
        ultimately show ?thesis using up by (auto simp: user_path_def hd_append split: if_splits)
      qed
      show ?thesis
        by (rule grants_kept [OF e2 pm4 up' _ region_disjoint [OF x(3) True] here [OF x(1,2) True]])
          (use lev in simp)
    next
      case False
      have "x < (i + 1) * ?B + m" using False x(2) ar(4) [of x] m lo(1) by (simp add: not_less)
      then show ?thesis using fin False x(3) by simp
    qed
    ultimately show ?thesis
      using ok e r by (auto simp: setup_result_def out split: sum.splits)
  qed
qed


text \<open>The handling of one entry before the recursion: its table or page exists, and the user and writable
  flags are set.\<close>

lemma prepare_entry:
  assumes ok: "pages_ok r st" and p: "walk (pg_mem st) r p = Some g" "user_path (p @ [i])" "length p \<le> 3"
    and res: "set_new_page_map_if_not_present g i st = (Inr c, st1)"
    and b: "length p \<le> 2 \<longrightarrow> b"
  defines "st2 \<equiv> set_entry g i (e_set_user True (pg_mem st1 g i)) st1"
  defines "st3 \<equiv> set_entry g i (e_set_writable b (pg_mem st2 g i)) st2"
  shows "pages_ok r st3" "maps_ext r {p @ [i]} st st3" "walk (pg_mem st3) r (p @ [i]) = Some c"
    "walk (pg_mem st3) r p = Some g" "e_present (pg_mem st3 g i)" "e_pointer (pg_mem st3 g i) = c"
    "e_user (pg_mem st3 g i)" "e_writable (pg_mem st3 g i) = b"
proof -
  note n = set_new_child [OF ok p res]
  then have ok1: "pages_ok r st1" and e1: "maps_ext r {p @ [i]} st st1" and pr: "e_present (pg_mem st1 g i)" "e_pointer (pg_mem st1 g i) = c"
    by simp_all
  have w1: "walk (pg_mem st1) r p = Some g"
    using maps_extD(3) [OF e1 user_path_prefix [OF p(2)] _ p(1)] p(3) by simp
  have x2: "pages_ok r st2" "maps_ext r {p @ [i]} st1 st2" "\<And>f q. walk (pg_mem st2) f q = walk (pg_mem st1) f q"
    using set_flags [OF ok1 w1 p(2,3) pr(1), where e = "e_set_user True (pg_mem st1 g i)" and R = "{p @ [i]}", folded st2_def]
      pr by simp_all
  have m2: "pg_mem st2 g i = e_set_user True (pg_mem st1 g i)" by (simp add: st2_def pg_mem_set_entry)
  have w2: "walk (pg_mem st2) r p = Some g" using w1 x2(3) by simp
  have x3: "pages_ok r st3" "maps_ext r {p @ [i]} st2 st3" "\<And>f q. walk (pg_mem st3) f q = walk (pg_mem st2) f q"
    using set_flags [OF x2(1) w2 p(2,3), where e = "e_set_writable b (pg_mem st2 g i)" and R = "{p @ [i]}", folded st3_def]
      pr b by (simp_all add: m2)
  have m3: "pg_mem st3 g i = e_set_writable b (e_set_user True (pg_mem st1 g i))"
    by (simp add: st3_def pg_mem_set_entry m2)
  show "pages_ok r st3" by (fact x3(1))
  show "maps_ext r {p @ [i]} st st3"
    using maps_ext_trans [OF ok1 e1 maps_ext_trans [OF x2(1) x2(2) x3(2)]] by simp
  show w3: "walk (pg_mem st3) r p = Some g" using w2 x3(3) by simp
  show "e_present (pg_mem st3 g i)" "e_pointer (pg_mem st3 g i) = c"
    "e_user (pg_mem st3 g i)" "e_writable (pg_mem st3 g i) = b" using pr by (simp_all add: m3)
  then show "walk (pg_mem st3) r (p @ [i]) = Some c" using w3 by (simp add: walk_snoc)
qed

lemma digits_1: "digits 1 x = [x]" by simp

lemma setup_page_map_spec:
  "pages_ok r st \<Longrightarrow> walk (pg_mem st) r p = Some pm \<Longrightarrow> 1 \<le> level \<Longrightarrow> level \<le> 4 \<Longrightarrow> length p = 4 - level \<Longrightarrow>
   user_path p \<Longrightarrow> (p = [] \<Longrightarrow> 256 \<le> part level addr) \<Longrightarrow>
   setup_result r p w level pm (rel_page level addr) num st (setup_page_map w level pm addr num st)"
proof (induction w level pm addr num st arbitrary: p rule: setup_page_map.induct)
  case (1 w level pm addr num st)
  show ?case
  proof (cases "num = 0")
    case True
    then show ?thesis
      using "1.prems"(1) by (auto simp: setup_page_map.simps [of w level] setup_result_def maps_ext_refl)
  next
    case num: False
    define i where "i = part level addr"
    define k where "k = level - 1"
    have lev: "level = Suc k" "k < 4" "length p = 3 - k" using "1.prems"(3-5) by (auto simp: k_def)
    have i: "i < 512" using part_less "1.prems"(3,4) by (simp add: i_def)
    have up: "user_path (p @ [i])"
      using "1.prems"(6,7) i by (cases p) (auto simp: user_path_def i_def)
    define c where "c = rel_page k addr"
    have rel: "rel_page level addr = i * 512 ^ k + c" "c < 512 ^ k"
      using rel_page_Suc [of k addr] lev rel_page_less by (simp_all add: i_def c_def)
    have next_ok: "rel_page level (next_entry level i addr) = (i + 1) * 512 ^ k"
      "part level (next_entry level i addr) = i + 1" if "i \<noteq> 511"
      using that i "1.prems"(3,4) rel_page_next_entry [of level i addr] part_next_entry [of level level i addr]
      by (simp_all add: k_def)
    have lp: "length p \<le> 3" using lev by simp
    have guard: "\<not> (num = 0 \<or> level = 0 \<or> 4 < level)" using num "1.prems"(3,4) by simp
    note unf = setup_page_map.simps [of w level pm addr num st]
    show ?thesis
    proof (cases "set_new_page_map_if_not_present pm i st")
      case (Pair res st1)
      show ?thesis
      proof (cases res)
        case (Inl err)
        then have "st1 = st" "err = kNoEnoughMemory" using set_new_child_fails [OF "1.prems"(1)] Pair by auto
        then show ?thesis
          using guard Pair Inl "1.prems"(1) by (simp add: unf i_def [symmetric] setup_result_def maps_ext_refl)
      next
        case (Inr child)
        define st2 where "st2 = set_entry pm i (e_set_user True (pg_mem st1 pm i)) st1"
        define b where "b = (level = 1 \<longrightarrow> w)"
        define st3 where "st3 = set_entry pm i (e_set_writable b (pg_mem st2 pm i)) st2"
        have bp: "length p \<le> 2 \<longrightarrow> b" using lev by (auto simp: b_def)
        note pe = prepare_entry [OF "1.prems"(1,2) up lp Pair [unfolded Inr] bp, folded st2_def, folded st3_def]
        show ?thesis
        proof (cases "level = 1")
          case True
          then have k0: "k = 0" "b = w" "c = 0" using lev rel(2) by (auto simp: b_def)
          define out where "out = (if i = 511 then (Inr (num - 1), st3)
            else setup_page_map w level pm (next_entry level i addr) (num - 1) st3)"
          have eq: "setup_page_map w level pm addr num st = out"
            unfolding unf i_def [symmetric] using guard Pair Inr True k0(2)
            by (simp add: out_def st3_def st2_def Let_def)
          have reg: "p @ [i] \<in> region p (Suc k) (rel_page level addr) num"
            using num i by (auto simp: region_def k0 rel intro!: exI [of _ i])
          have "setup_result r p w (Suc k) pm (rel_page level addr) num st out"
          proof (rule setup_round [OF lev(2,3) up "1.prems"(2) rel])
            show "pages_ok r st3" by (fact pe(1))
            show "maps_ext r (region p (Suc k) (rel_page level addr) num) st st3"
              by (rule maps_ext_mono [OF pe(2)]) (use reg in simp)
            show "\<forall>y. c \<le> y \<and> y < c + num \<and> y < 512 ^ k \<longrightarrow> grants w (pg_mem st3) pm (i # digits k y)"
              using pe k0 by simp
            show "num - 1 = num - (512 ^ k - c)" by (simp add: k0)
            show "i = 511 \<and> out = (Inr (num - 1), st3) \<or>
              i \<noteq> 511 \<and> setup_result r p w (Suc k) pm ((i + 1) * 512 ^ k) (num - 1) st3 out"
            proof (cases "i = 511")
              case False
              have "setup_result r p w level pm (rel_page level (next_entry level i addr)) (num - 1) st3
                  (setup_page_map w level pm (next_entry level i addr) (num - 1) st3)"
              proof (rule "1.IH"(1) [OF guard i_def Pair [symmetric] Inr st2_def True _ False pe(1,4) "1.prems"(3-6)])
                show "st3 = set_entry pm i (e_set_writable w (pg_mem st2 pm i)) st2" by (simp add: st3_def k0(2))
                show "256 \<le> part level (next_entry level i addr)" if "p = []"
                  using "1.prems"(7) [OF that] next_ok(2) [OF False] by (simp add: i_def)
              qed
              then show ?thesis using False next_ok(1) [OF False] by (simp add: out_def lev(1) [symmetric])
            qed (simp add: out_def)
          qed
          then show ?thesis by (simp add: eq lev(1) [symmetric])
        next
          case False
          then have b: "b" and k1: "1 \<le> k" using lev(1) by (auto simp: b_def)
          obtain res4 st4 where c4: "setup_page_map w (level - 1) child addr num st3 = (res4, st4)" by fastforce
          have "setup_result r (p @ [i]) w (level - 1) child (rel_page (level - 1) addr) num st3 (setup_page_map w (level - 1) child addr num st3)"
          proof (rule "1.IH"(2) [OF guard i_def Pair [symmetric] Inr st2_def False _ pe(1,3)])
            show "st3 = set_entry pm i (e_set_writable True (pg_mem st2 pm i)) st2" using b by (simp add: st3_def)
          qed (use lev k1 up in auto)
          then have ch: "setup_result r (p @ [i]) w k child c num st3 (res4, st4)"
            using c4 by (simp only: k_def [symmetric] c_def [symmetric])
          define out where "out = (case res4 of Inl err \<Rightarrow> (Inl err, st4)
            | Inr n' \<Rightarrow> if i = 511 then (Inr n', st4) else setup_page_map w level pm (next_entry level i addr) n' st4)"
          have eq: "setup_page_map w level pm addr num st = out"
            unfolding unf i_def [symmetric] using guard Pair Inr False b c4
            by (simp add: out_def st3_def st2_def Let_def split: sum.split)
          have e3: "maps_ext r {} st st3"
            by (rule maps_ext_upper [OF pe(2)]) (use lev k1 in simp)
          have ok4: "pages_ok r st4" and e34: "maps_ext r (region (p @ [i]) k c num) st3 st4"
            using ch by (auto simp: setup_result_def)
          have ext: "maps_ext r (region p (Suc k) (rel_page level addr) num) st st4"
            by (rule maps_ext_mono [OF maps_ext_trans [OF pe(1) e3 e34]])
              (use region_child [OF i rel(2)] rel(1) in auto)
          have pm3: "walk (pg_mem st3) r p = Some pm" by (fact pe(4))
          have entry4: "e_present (pg_mem st4 pm i)" "e_pointer (pg_mem st4 pm i) = child"
            "e_user (pg_mem st4 pm i)" "e_writable (pg_mem st4 pm i)"
          proof -
            have "walk (pg_mem st4) r p = Some pm" "walk (pg_mem st4) r (p @ [i]) = Some child"
              using maps_extD(3) [OF e34 user_path_prefix [OF up] _ pm3] maps_extD(3) [OF e34 up _ pe(3)] lp by simp_all
            then show "e_present (pg_mem st4 pm i)" "e_pointer (pg_mem st4 pm i) = child"
              by (simp_all add: walk_snoc split: if_splits)
            show "e_user (pg_mem st4 pm i)" "e_writable (pg_mem st4 pm i)"
              using maps_extD(7) [OF e34 up _ pm3 pe(5,7)] pe(8) b lev k1 by auto
          qed
          have "setup_result r p w (Suc k) pm (rel_page level addr) num st out"
          proof (cases res4)
            case (Inl err)
            then show ?thesis using ch ok4 ext by (simp add: out_def setup_result_def)
          next
            case (Inr n')
            have n': "n' = num - (512 ^ k - c)"
              "\<forall>y. c \<le> y \<and> y < c + num \<and> y < 512 ^ k \<longrightarrow> grants w (pg_mem st4) child (digits k y)"
              using ch Inr by (auto simp: setup_result_def)
            have dk: "digits k y \<noteq> []" for y using k1 by (cases k) auto
            show ?thesis
            proof (rule setup_round [OF lev(2,3) up "1.prems"(2) rel ok4 ext _ n'(1)])
              show "\<forall>y. c \<le> y \<and> y < c + num \<and> y < 512 ^ k \<longrightarrow> grants w (pg_mem st4) pm (i # digits k y)"
                using n'(2) entry4 dk by simp
              show "i = 511 \<and> out = (Inr n', st4) \<or>
                i \<noteq> 511 \<and> setup_result r p w (Suc k) pm ((i + 1) * 512 ^ k) n' st4 out"
              proof (cases "i = 511")
                case False
                have w4: "walk (pg_mem st4) r p = Some pm"
                  using maps_extD(3) [OF e34 user_path_prefix [OF up] _ pm3] lp by simp
                have "setup_result r p w level pm (rel_page level (next_entry level i addr)) n' st4
                    (setup_page_map w level pm (next_entry level i addr) n' st4)"
                proof (rule "1.IH"(3) [OF guard i_def Pair [symmetric] \<open>res = Inr child\<close> st2_def \<open>level \<noteq> 1\<close> _ c4 [symmetric] Inr False ok4 w4 "1.prems"(3-6)])
                  show "st3 = set_entry pm i (e_set_writable True (pg_mem st2 pm i)) st2" using b by (simp add: st3_def)
                  show "256 \<le> part level (next_entry level i addr)" if "p = []"
                    using "1.prems"(7) [OF that] next_ok(2) [OF False] by (simp add: i_def)
                qed
                then show ?thesis using False next_ok(1) [OF False] Inr by (simp add: out_def lev(1) [symmetric])
              qed (simp add: out_def Inr)
            qed
          qed
          then show ?thesis by (simp add: eq lev(1) [symmetric])
        qed
      qed
    qed
  qed
qed


section \<open>SetupPageMaps\<close>

lemma grants_walk: "grants w mem f q \<Longrightarrow> \<exists>g. walk mem f q = Some g"
  by (induction w mem f q rule: grants.induct) auto

lemma user_page_path:
  assumes "256 \<le> part 4 addr" "rel_page 4 addr \<le> x" "x < 512 ^ 4"
  shows "user_path (digits 4 x)"
proof -
  have "part 4 addr = rel_page 4 addr div 512 ^ 3" using part_rel [of 4 addr] by simp
  then have "256 \<le> x div 512 ^ 3" using assms(1,2) div_le_mono [of "rel_page 4 addr" x "512 ^ 3"] by linarith
  moreover have "digits 4 x = (x div 512 ^ 3) # digits 3 (x mod 512 ^ 3)"
    using digits.simps(2) [of 3 x] by (simp del: digits.simps)
  ultimately show ?thesis
    using digits_less [OF assms(3)] by (simp add: user_path_def del: digits.simps)
qed

lemma setup_page_maps_result:
  assumes ok: "pages_ok cr3 st" and a: "256 \<le> part 4 addr"
    and run: "setup_page_maps cr3 addr num w st = (err, st')"
  shows "pages_ok cr3 st' \<and> maps_ext cr3 (region [] 4 (rel_page 4 addr) num) st st' \<and>
    (err = kSuccess \<or> err = kNoEnoughMemory) \<and>
    (err = kSuccess \<longrightarrow> (\<forall>x. rel_page 4 addr \<le> x \<and> x < rel_page 4 addr + num \<and> x < 512 ^ 4 \<longrightarrow>
       grants w (pg_mem st') cr3 (digits 4 x)))"
proof -
  have "setup_result cr3 [] w 4 cr3 (rel_page 4 addr) num st (setup_page_map w 4 cr3 addr num st)"
    by (rule setup_page_map_spec) (use ok a in \<open>simp_all add: user_path_def\<close>)
  then show ?thesis
    using run by (auto simp: setup_page_maps_def setup_result_def split: prod.splits sum.splits)
qed

lemma other_pages:
  assumes "maps_ext r R st st'" "user_path q" "length q = 4" "q \<notin> R"
  shows "walk (pg_mem st') r q = walk (pg_mem st) r q"
  using maps_extD(3,4) [OF assms(1,2)] assms(3,4)
  by (cases "walk (pg_mem st) r q"; cases "walk (pg_mem st') r q") auto

lemma setup_page_maps_correct_aux:
  assumes "pages_ok cr3 st" "256 \<le> part 4 addr" "setup_page_maps cr3 addr num w st = (err, st')"
  shows "pages_ok cr3 st' \<and> (err = kSuccess \<or> err = kNoEnoughMemory) \<and>
    (err = kSuccess \<longrightarrow> (\<forall>x. rel_page 4 addr \<le> x \<and> x < rel_page 4 addr + num \<and> x < 512 ^ 4 \<longrightarrow>
       (\<exists>f. walk (pg_mem st') cr3 (digits 4 x) = Some f \<and> grants w (pg_mem st') cr3 (digits 4 x) \<and>
          (case walk (pg_mem st) cr3 (digits 4 x) of
             Some g \<Rightarrow> g = f | None \<Rightarrow> f \<notin> used st \<and> pg_mem st' f = zero_frame)))) \<and>
    (\<forall>q. user_path q \<and> length q = 4 \<and> q \<notin> region [] 4 (rel_page 4 addr) num \<longrightarrow>
       walk (pg_mem st') cr3 q = walk (pg_mem st) cr3 q) \<and>
    (\<forall>f \<in> used st. f \<notin> Paging_Maps.tables cr3 st \<longrightarrow> pg_mem st' f = pg_mem st f)"
proof -
  note r = setup_page_maps_result [OF assms]
  then have ext: "maps_ext cr3 (region [] 4 (rel_page 4 addr) num) st st'" by blast
  have "\<exists>f. walk (pg_mem st') cr3 (digits 4 x) = Some f \<and> grants w (pg_mem st') cr3 (digits 4 x) \<and>
          (case walk (pg_mem st) cr3 (digits 4 x) of
             Some g \<Rightarrow> g = f | None \<Rightarrow> f \<notin> used st \<and> pg_mem st' f = zero_frame)"
    if "err = kSuccess" "rel_page 4 addr \<le> x" "x < rel_page 4 addr + num" "x < 512 ^ 4" for x
  proof -
    have g: "grants w (pg_mem st') cr3 (digits 4 x)" using r that by blast
    then obtain f where f: "walk (pg_mem st') cr3 (digits 4 x) = Some f" using grants_walk by blast
    have up: "user_path (digits 4 x)" using user_page_path assms(2) that by blast
    show ?thesis
      using g f maps_extD(3,4) [OF ext up, of f] maps_extD(3) [OF ext up] by (auto split: option.split)
  qed
  then show ?thesis using r other_pages [OF ext] maps_extD(5) [OF ext] by blast
qed

text \<open>C1: \<^verbatim>\<open>SetupPageMaps\<close> on the user half keeps the invariant that no frame is reached twice. When it
  succeeds, every page number from the address's on, as many as asked (up to the end of the address space),
  is mapped with user access and the asked write permission; a page that was mapped keeps its frame, any
  other gets a frame that was free, filled with zeroes. In any case, also after running out of memory,
  every other user page translates as before and every frame that was allocated and is not a page table
  keeps its contents.\<close>

theorem setup_page_maps_correct:
  assumes "pages_ok cr3 st" "256 \<le> part 4 addr" "setup_page_maps cr3 addr num w st = (err, st')"
  shows "pages_ok cr3 st' \<and> (err = kSuccess \<or> err = kNoEnoughMemory) \<and>
    (err = kSuccess \<longrightarrow> (\<forall>x. rel_page 4 addr \<le> x \<and> x < rel_page 4 addr + num \<and> x < 512 ^ 4 \<longrightarrow>
       (\<exists>f. walk (pg_mem st') cr3 (digits 4 x) = Some f \<and> grants w (pg_mem st') cr3 (digits 4 x) \<and>
          (case walk (pg_mem st) cr3 (digits 4 x) of
             Some g \<Rightarrow> g = f | None \<Rightarrow> f \<notin> used st \<and> pg_mem st' f = zero_frame)))) \<and>
    (\<forall>q. user_path q \<and> length q = 4 \<and> q \<notin> region [] 4 (rel_page 4 addr) num \<longrightarrow>
       walk (pg_mem st') cr3 q = walk (pg_mem st) cr3 q) \<and>
    (\<forall>f \<in> used st. f \<notin> Paging_Maps.tables cr3 st \<longrightarrow> pg_mem st' f = pg_mem st f)"
  by (rule setup_page_maps_correct_aux [OF assms])

section \<open>Page faults\<close>

lemma region_one: "x < 512 ^ 4 \<Longrightarrow> region [] 4 x 1 = {digits 4 x}"
  by (auto simp: region_def) (metis le_less_Suc_eq)



section \<open>Copy on write\<close>

lemma page_path_aligned: "page_path (va AND 0xfffffffffffff000) = page_path va"
proof -
  have m: "(0xfffffffffffff000 :: u64) = NOT (mask 12)" by (simp add: mask_eq_exp_minus_1)
  have "get_field off w (va AND 0xfffffffffffff000) = get_field off w va" if "12 \<le> off" for off w
    unfolding m using that
    by (intro bit_eqI) (auto simp: bit_get_field bit_and_iff bit_not_iff bit_mask_iff dest: bit_imp_le_length)
  then show ?thesis by (simp add: page_path_def part.simps)
qed

lemma user_page_path_va: "256 \<le> part 4 va \<Longrightarrow> user_path (page_path va)"
  using user_page_path [of va "rel_page 4 va"] rel_page_less [of 4 va] by (simp add: page_path_digits)

lemma walk_relink:
  assumes ok: "pages_ok r st" and p: "walk (pg_mem st) r p = Some g" "user_path (p @ [i])" "length p = 3"
    and e: "e_present e"
  defines "mem' \<equiv> \<lambda>f j. if f = g \<and> j = i then e else pg_mem st f j"
  shows "walk (pg_mem st) r t = Some f \<Longrightarrow> user_path (t @ s) \<Longrightarrow> length (t @ s) \<le> 4 \<Longrightarrow> t \<noteq> p @ [i] \<Longrightarrow>
    walk mem' f s = (if t @ s = p @ [i] then Some (e_pointer e) else walk (pg_mem st) f s)"
proof (induction s arbitrary: t f)
  case (Cons j s)
  have up: "user_path p" "user_path t"
    using p(2) Cons.prems(2) user_path_prefix [of t "j # s"] user_path_prefix [of p "[i]"] by simp_all
  show ?case
  proof (cases "f = g \<and> j = i")
    case True
    then have t: "t = p"
      using pages_okD(4) [OF ok up(2) _ up(1) _ Cons.prems(1)] p(1,3) Cons.prems(3) by simp
    then show ?thesis using True Cons.prems(3) p(3) e by (simp add: mem'_def)
  next
    case False
    then have m: "mem' f j = pg_mem st f j" by (auto simp: mem'_def)
    show ?thesis
    proof (cases "t @ [j] = p @ [i]")
      case True
      then show ?thesis using False Cons.prems(1) p(1) by simp
    next
      case tj: False
      show ?thesis
      proof (cases "e_present (pg_mem st f j)")
        case True
        have "walk (pg_mem st) r (t @ [j]) = Some (e_pointer (pg_mem st f j))"
          using Cons.prems(1) True by (simp add: walk_snoc)
        from Cons.IH [OF this] Cons.prems tj True m show ?thesis by simp
      next
        case np: False
        have "t @ j # s \<noteq> p @ [i]"
        proof
          assume eq: "t @ j # s = p @ [i]"
          then obtain s' where "p = t @ j # s'" using tj by (cases s rule: rev_cases) auto
          then show False using p(1) Cons.prems(1) np by (simp add: walk_append)
        qed
        then show ?thesis using m np by simp
      qed
    qed
  qed
qed simp

lemma set_entry_twice: "set_entry g i e (set_entry g i e' st) = set_entry g i e st"
  by (simp add: set_entry_def)

text \<open>\<^verbatim>\<open>SetPageContent\<close> follows the mapped path down and rewrites the last entry.\<close>

lemma set_page_content_path:
  assumes "walk (pg_mem st) r [part 4 va, part 3 va, part 2 va] = Some g"
  shows "set_page_content r 4 va c st =
    (kSuccess, set_entry g (part 1 va) (e_set_writable True (e_set_pointer c (pg_mem st g (part 1 va)))) st)"
proof -
  have s: "set_page_content f 4 va c st = set_page_content (e_pointer (pg_mem st f (part 4 va))) 3 va c st"
    "set_page_content f 3 va c st = set_page_content (e_pointer (pg_mem st f (part 3 va))) 2 va c st"
    "set_page_content f 2 va c st = set_page_content (e_pointer (pg_mem st f (part 2 va))) 1 va c st" for f
    using set_page_content.simps(2) [of f 3 va c st] set_page_content.simps(2) [of f 2 va c st]
      set_page_content.simps(2) [of f 1 va c st] by (simp_all add: Let_def numeral_eq_Suc)
  have "set_page_content r 4 va c st = set_page_content g 1 va c st"
    using assms unfolding s by (simp split: if_splits)
  also have "\<dots> = (kSuccess, set_entry g (part 1 va) (e_set_writable True (e_set_pointer c (pg_mem st g (part 1 va)))) st)"
    by (simp add: Let_def pg_mem_set_entry set_entry_twice)
  finally show ?thesis .
qed

lemma copy_one_page_result:
  assumes ok: "pages_ok cr3 st" and a: "256 \<le> part 4 va" and src: "walk (pg_mem st) cr3 (page_path va) = Some src"
  shows "copy_one_page cr3 va st = Some (kNoEnoughMemory, st) \<or>
    (\<exists>p st'. copy_one_page cr3 va st = Some (kSuccess, st') \<and> p \<notin> used st \<and> pages_ok cr3 st' \<and>
       (\<forall>q. user_path q \<and> length q \<le> 4 \<longrightarrow>
          walk (pg_mem st') cr3 q = (if q = page_path va then Some p else walk (pg_mem st) cr3 q)) \<and>
       (\<forall>g. walk (pg_mem st) cr3 [part 4 va, part 3 va, part 2 va] = Some g \<longrightarrow> e_writable (pg_mem st' g (part 1 va))) \<and>
       pg_mem st' p = pg_mem st src \<and>
       (\<forall>f \<in> used st. f \<notin> Paging_Maps.tables cr3 st \<longrightarrow> pg_mem st' f = pg_mem st f))"
proof (cases "allocate (pg_alloc st) 1")
  case (Pair res al)
  note mm = pages_okD(1) [OF ok]
  show ?thesis
  proof (cases res)
    case (Inl err)
    then have "err = kNoEnoughMemory" "al = pg_alloc st" using frames.alloc_fail [OF mm] Pair by auto
    then show ?thesis using Pair Inl by (simp add: copy_one_page_def new_page_map_def)
  next
    case (Inr p)
    let ?path = "page_path va" and ?i = "part 1 va" and ?up = "[part 4 va, part 3 va, part 2 va]"
    have p: "p \<notin> used st" "p < 2 ^ 40"
      using frames.alloc_fresh [OF mm Pair [unfolded Inr]] pages_okD(2) [OF ok] by auto
    have us: "used_frames al = insert p (used st)" using frames.alloc_used [OF mm Pair [unfolded Inr]] by auto
    note keep = frames.alloc_keeps [OF mm Pair [unfolded Inr]]
    have path: "?path = ?up @ [?i]" by (simp add: page_path_def)
    have upath: "user_path (?up @ [?i])" using user_page_path_va [OF a] by (simp add: page_path_def)
    define st1 where "st1 = st\<lparr>pg_alloc := al, pg_mem := (pg_mem st)(p := zero_frame)\<rparr>"
    have same: "walk ((pg_mem st)(p := z)) f q = walk (pg_mem st) f q"
      if "walk (pg_mem st) cr3 t = Some f" "user_path (t @ q)" "length (t @ q) \<le> 4" for z f q t
      using that
    proof (induction q arbitrary: f t)
      case (Cons j q)
      have "f \<in> used st"
        using pages_okD(3) [OF ok user_path_prefix [OF Cons.prems(2)] _ Cons.prems(1)] Cons.prems(3) by simp
      then have "f \<noteq> p" using p(1) by auto
      then show ?case
        using Cons.IH [of "t @ [j]"] Cons.prems by (simp add: walk_snoc)
    qed simp
    have root: "walk ((pg_mem st)(p := z)) cr3 q = walk (pg_mem st) cr3 q" if "user_path q" "length q \<le> 4" for q z
      using same [of "[]" cr3 q z] that by simp
    obtain g where g: "walk (pg_mem st) cr3 ?up = Some g" "e_present (pg_mem st g ?i)" "src = e_pointer (pg_mem st g ?i)"
      using src unfolding path walk_snoc by (auto split: option.splits if_splits)
    have gu: "g \<in> used st" "src \<in> used st"
      using pages_okD(3) [OF ok user_path_prefix [OF upath] _ g(1)] pages_okD(3) [OF ok upath _ src [unfolded path]] by simp_all
    then have ne: "g \<noteq> p" "src \<noteq> p" using p(1) by auto
    define st2 where "st2 = st1\<lparr>pg_mem := (pg_mem st)(p := pg_mem st src)\<rparr>"
    define e where "e = e_set_writable True (e_set_pointer p (pg_mem st g ?i))"
    define st' where "st' = set_entry g ?i e st2"
    have "walk (pg_mem st1) cr3 ?path = Some src"
      using root [OF upath] src by (simp add: st1_def path)
    moreover have "st1\<lparr>pg_mem := (pg_mem st1)(p := pg_mem st1 src)\<rparr> = st2"
      using ne by (simp add: st1_def st2_def)
    moreover have "walk (pg_mem st2) cr3 ?up = Some g"
      using root [OF user_path_prefix [OF upath]] g(1) by (simp add: st2_def)
    then have "set_page_content cr3 4 va p st2 = (kSuccess, st')"
      using set_page_content_path [of st2 cr3 va g p] ne by (simp add: st'_def e_def st2_def)
    ultimately have run: "copy_one_page cr3 va st = Some (kSuccess, st')"
      using Pair Inr by (simp add: copy_one_page_def new_page_map_def Let_def page_path_aligned st1_def [symmetric])
    have e: "e_present e" "e_pointer e = p" "e_writable e" using g(2) p(2) by (simp_all add: e_def)
    have memst': "pg_mem st' = (\<lambda>f j. if f = g \<and> j = ?i then e else pg_mem st2 f j)" by (simp add: st'_def pg_mem_set_entry)
    have memst: "pg_mem st' = (\<lambda>f j. if f = g \<and> j = ?i then e else pg_mem st f j)(p := pg_mem st src)"
      using ne by (auto simp: memst' st2_def fun_eq_iff)
    have w2: "walk (pg_mem st2) cr3 q = walk (pg_mem st) cr3 q" if "user_path q" "length q \<le> 4" for q
      using root [OF that] by (simp add: st2_def)
    have u2: "used st2 = insert p (used st)" by (simp add: st2_def st1_def us)
    have ok2: "pages_ok cr3 st2"
    proof (rule pages_okI)
      show "mm_inv (pg_alloc st2)" "range_end (pg_alloc st2) \<le> 2 ^ 40"
        using keep pages_okD(2) [OF ok] by (simp_all add: st2_def st1_def)
      show "f \<in> used st2" if "user_path q" "length q \<le> 4" "walk (pg_mem st2) cr3 q = Some f" for q f
        using that(3) pages_okD(3) [OF ok that(1,2)] unfolding w2 [OF that(1,2)] u2 by simp
      show "p1 = p2" if "user_path p1" "length p1 \<le> 4" "user_path p2" "length p2 \<le> 4"
        "walk (pg_mem st2) cr3 p1 = Some f" "walk (pg_mem st2) cr3 p2 = Some f" for p1 p2 f
        using that(5,6) unfolding w2 [OF that(1,2)] w2 [OF that(3,4)] by (rule pages_okD(4) [OF ok that(1-4)])
    qed
    have wk: "walk (pg_mem st') cr3 q = (if q = ?path then Some p else walk (pg_mem st) cr3 q)"
      if "user_path q" "length q \<le> 4" for q
    proof -
      have up2: "walk (pg_mem st2) cr3 ?up = Some g" using w2 [OF user_path_prefix [OF upath]] g(1) by simp
      have "walk (pg_mem st') cr3 q = (if [] @ q = ?up @ [?i] then Some (e_pointer e) else walk (pg_mem st2) cr3 q)"
        unfolding memst' by (rule walk_relink [OF ok2 up2 upath _ e(1)]) (use that in simp_all)
      then show ?thesis unfolding path w2 [OF that] e(2) by simp
    qed
    have usd: "used st' = insert p (used st)" by (simp add: st'_def st2_def st1_def us)
    have "pages_ok cr3 st'"
    proof (rule pages_okI)
      show "mm_inv (pg_alloc st')" "range_end (pg_alloc st') \<le> 2 ^ 40"
        using keep pages_okD(2) [OF ok] by (simp_all add: st'_def st2_def st1_def)
      show "f \<in> used st'" if "user_path q" "length q \<le> 4" "walk (pg_mem st') cr3 q = Some f" for q f
        using that(3) pages_okD(3) [OF ok that(1,2), of f] unfolding wk [OF that(1,2)] usd by (simp split: if_splits)
      show "p1 = p2" if "user_path p1" "length p1 \<le> 4" "user_path p2" "length p2 \<le> 4"
        "walk (pg_mem st') cr3 p1 = Some f" "walk (pg_mem st') cr3 p2 = Some f" for p1 p2 f
        using that(5,6) p(1) pages_okD(3) [OF ok that(1,2), of f] pages_okD(3) [OF ok that(3,4), of f]
          pages_okD(4) [OF ok that(1-4), of f]
        unfolding wk [OF that(1,2)] wk [OF that(3,4)] by (simp split: if_splits)
    qed
    moreover have "pg_mem st' p = pg_mem st src" by (simp add: memst)
    moreover have "pg_mem st' f = pg_mem st f" if "f \<in> used st" "f \<notin> Paging_Maps.tables cr3 st" for f
      using that p(1) in_tables [OF user_path_prefix [OF upath] _ g(1)] by (auto simp: memst)
    moreover have "e_writable (pg_mem st' g (part 1 va))" using e(3) ne by (simp add: memst)
    ultimately show ?thesis
      using run wk p(1) g(1) by (intro disjI2 exI [of _ p] exI [of _ st'] conjI allI impI ballI) simp_all
  qed
qed



section \<open>A small address space for the witnesses\<close>

text \<open>Frames 1 to 4 are the tables and frame 5 is the page of the address \<open>0xffff800000000000\<close>.\<close>

definition chain_index :: "nat \<Rightarrow> nat" where "chain_index f = (if f = 1 then 256 else 0)"

definition chain_mem :: phys_mem where
  "chain_mem f i = (if 1 \<le> f \<and> f \<le> 4 \<and> i = chain_index f
     then e_set_present True (e_set_pointer (f + 1) 0) else 0)"

definition chain_state :: paging_state where
  "chain_state = \<lparr>pg_mem = chain_mem, pg_alloc = \<lparr>alloc_map = [62], range_begin = 1, range_end = 64\<rparr>\<rparr>"

lemma chain_entry:
  "e_present (chain_mem f i) \<longleftrightarrow> 1 \<le> f \<and> f \<le> 4 \<and> i = chain_index f"
  "1 \<le> f \<Longrightarrow> f \<le> 4 \<Longrightarrow> i = chain_index f \<Longrightarrow> e_pointer (chain_mem f i) = f + 1"
  by (simp_all add: chain_mem_def)

lemma chain_walk:
  "walk chain_mem f q = Some g \<Longrightarrow>
   g = f + length q \<and> (\<forall>k < length q. q ! k = chain_index (f + k)) \<and> (q \<noteq> [] \<longrightarrow> f + length q \<le> 5)"
proof (induction q arbitrary: f)
  case (Cons i q)
  then have e: "1 \<le> f" "f \<le> 4" "i = chain_index f" and w: "walk chain_mem (f + 1) q = Some g"
    by (auto simp: chain_entry split: if_splits)
  show ?case using Cons.IH [OF w] e by (cases q) (auto simp: nth_Cons split: nat.split)
qed simp

lemma chain_used: "f \<in> used chain_state \<longleftrightarrow> 1 \<le> f \<and> f \<le> 5"
proof -
  have e: "(62 :: u64) = put_field 1 5 (mask 5) 0" by (simp add: put_field_def mask_eq_exp_minus_1)
  have "bit (62 :: u64) k \<longleftrightarrow> 1 \<le> k \<and> k \<le> 5" if "k < 64" for k
    unfolding e bit_put_field using that by (auto simp: bit_mask_iff)
  then show ?thesis
    by (auto simp: chain_state_def used_frames_def frame_capacity_def kBitsPerMapLine_def get_bit_alt)
qed

lemma chain_ok: "pages_ok 1 chain_state"
proof (rule pages_okI)
  show "mm_inv (pg_alloc chain_state)" "range_end (pg_alloc chain_state) \<le> 2 ^ 40"
    by (simp_all add: chain_state_def mm_inv_def frame_capacity_def kBitsPerMapLine_def)
  show "f \<in> used chain_state" if "length q \<le> 4" "walk (pg_mem chain_state) 1 q = Some f" for q f
    using chain_walk [of 1 q f] that by (cases "q = []") (simp_all add: chain_used, simp_all add: chain_state_def)
  show "p = q" if "walk (pg_mem chain_state) 1 p = Some f" "walk (pg_mem chain_state) 1 q = Some f" for p q f
    using chain_walk [of 1 p f] chain_walk [of 1 q f] that by (simp add: chain_state_def nth_equalityI)
qed

definition chain_va :: u64 where "chain_va = 0xffff800000000000"

lemma chain_parts: "part 4 chain_va = 256" "part 3 chain_va = 0" "part 2 chain_va = 0" "part 1 chain_va = 0"
  by (simp_all add: part.simps chain_va_def get_field_def)

lemma chain_page: "page_path chain_va = [256, 0, 0, 0]" "walk (pg_mem chain_state) 1 [256, 0, 0, 0] = Some 5"
  by (simp_all add: page_path_def chain_parts chain_parts(4) [unfolded One_nat_def] chain_state_def chain_mem_def chain_index_def)

theorem setup_page_maps_correct_witness:
  "\<exists>err st'. setup_page_maps 1 chain_va 2 True chain_state = (err, st') \<and> pages_ok 1 st' \<and>
     walk (pg_mem st') 1 [257, 0, 0, 0] = None"
proof -
  obtain err st' where run: "setup_page_maps 1 chain_va 2 True chain_state = (err, st')" by fastforce
  have a: "256 \<le> part 4 chain_va" by (simp add: chain_parts)
  have "walk (pg_mem chain_state) 1 [257, 0, 0, 0] = None"
    by (simp add: chain_state_def chain_mem_def chain_index_def)
  moreover have "[257, 0, 0, 0] \<notin> region [] 4 (rel_page 4 chain_va) 2"
  proof
    assume "[257, 0, 0, 0] \<in> region [] 4 (rel_page 4 chain_va) 2"
    then obtain x where x: "digits 4 x = [257, 0, 0, 0]" "x < rel_page 4 chain_va + 2" by (auto simp: region_def)
    have "rel_page 4 chain_va = 256 * 512 ^ 3" by (simp add: rel_page_def chain_va_def)
    moreover have "digits 4 x = (x div 512 ^ 3) # digits 3 (x mod 512 ^ 3)"
      using digits.simps(2) [of 3 x] by (simp del: digits.simps)
    ultimately show False
      using x div_times_less_eq_dividend [of x "512 ^ 3"] by (simp del: digits.simps)
  qed
  moreover have "user_path [257, 0, 0, 0]" by (simp add: user_path_def)
  ultimately show ?thesis
    using setup_page_maps_correct [OF chain_ok a run] run by auto
qed



end
