(* ===== verification/File_Descriptor.thy ===== *)
theory File_Descriptor imports Prelude begin

text \<open>
  \<^verbatim>\<open>Kernel/file.{hpp,cpp}\<close>: the interface \<^verbatim>\<open>FileDescriptor\<close> and \<^verbatim>\<open>ReadDelim\<close>. C strings and
  buffers are lists of bytes, without the final zero byte. The locale \<open>byte_source\<close> is what a
  descriptor that fills the buffer promises its reader, \<open>byte_reader\<close> the weaker contract of one that may
  return fewer bytes than asked: \<^verbatim>\<open>Read(buf, len)\<close> hands out the next bytes of a stream, none only
  at its end. The FAT file descriptor interprets the first, the pipe the second.
\<close>

type_synonym bytes = "u8 list"

definition bytes_of :: "string \<Rightarrow> bytes" where
  "bytes_of s = map (\<lambda>c. of_nat (of_char c)) s"

text \<open>The loop of \<^verbatim>\<open>ReadDelim\<close>: \<open>i\<close> bytes are in the buffer already. The reader is an argument, as
  \<^verbatim>\<open>fd.Read\<close> is a virtual call.\<close>

(*@ Kernel/file.cpp:20-28 ReadDelim *)
function read_delim_loop :: "('s \<Rightarrow> nat \<Rightarrow> bytes \<times> 's) \<Rightarrow> u8 \<Rightarrow> nat \<Rightarrow> bytes \<Rightarrow> 's \<Rightarrow> bytes \<times> 's" where
  "read_delim_loop read delim len buf s =
    (if length buf < len - 1 then
       case read s 1 of
         ([], s') \<Rightarrow> (buf, s')
       | (b # _, s') \<Rightarrow> if b = delim then (buf @ [b], s') else read_delim_loop read delim len (buf @ [b]) s'
     else (buf, s))"
  by pat_completeness auto
termination
  by (relation "measure (\<lambda>(read, delim, len, buf, s). len - 1 - length buf)") auto

declare read_delim_loop.simps [simp del]

(*@ Kernel/file.cpp:18-31 ReadDelim *)
definition read_delim :: "('s \<Rightarrow> nat \<Rightarrow> bytes \<times> 's) \<Rightarrow> u8 \<Rightarrow> nat \<Rightarrow> 's \<Rightarrow> bytes \<times> 's" where
  "read_delim read delim len s = read_delim_loop read delim len [] s"

text \<open>The line a reader should get: up to and with the delimiter.\<close>

fun first_line :: "u8 \<Rightarrow> bytes \<Rightarrow> bytes" where
  "first_line d [] = []"
| "first_line d (b # bs) = (if b = d then [b] else b # first_line d bs)"

lemma take_first_line: "take (length (take n (first_line d bs))) bs = take n (first_line d bs)"
proof -
  have "take (length (first_line d bs)) bs = first_line d bs" by (induction bs) auto
  from arg_cong [OF this, of "take n"] show ?thesis by (simp add: min.commute)
qed

locale byte_reader =
  fixes read :: "'s \<Rightarrow> nat \<Rightarrow> bytes \<times> 's"
    and rest :: "'s \<Rightarrow> bytes"
    and ok :: "'s \<Rightarrow> bool"
  assumes read_split: "ok s \<Longrightarrow> rest s = fst (read s n) @ rest (snd (read s n))"
    and read_length: "ok s \<Longrightarrow> length (fst (read s n)) \<le> n"
    and read_progress: "ok s \<Longrightarrow> 0 < n \<Longrightarrow> rest s \<noteq> [] \<Longrightarrow> fst (read s n) \<noteq> []"
    and read_keeps_ok: "ok s \<Longrightarrow> ok (snd (read s n))"
begin

lemma read_one:
  assumes "ok s"
  shows "rest s = [] \<Longrightarrow> \<exists>s'. read s 1 = ([], s') \<and> ok s' \<and> rest s' = []"
    "\<And>b bs. rest s = b # bs \<Longrightarrow> \<exists>s'. read s 1 = ([b], s') \<and> ok s' \<and> rest s' = bs"
proof -
  obtain xs s' where r: "read s 1 = (xs, s')" by fastforce
  note facts = read_split [OF assms, of 1] read_length [OF assms, of 1] read_progress [OF assms, of 1]
    read_keeps_ok [OF assms, of 1]
  show "\<exists>s'. read s 1 = ([], s') \<and> ok s' \<and> rest s' = []" if "rest s = []"
    using facts that unfolding r by auto
  show "\<exists>s'. read s 1 = ([b], s') \<and> ok s' \<and> rest s' = bs" if "rest s = b # bs" for b bs
  proof -
    have "xs \<noteq> []" using facts(3) that unfolding r by simp
    then show ?thesis using facts(1,2,4) that unfolding r by (cases xs) auto
  qed
qed

lemma read_delim_loop_line:
  assumes "ok s" "length buf \<le> len - 1"
  shows "\<exists>s'. read_delim_loop read d len buf s = (buf @ take (len - 1 - length buf) (first_line d (rest s)), s') \<and>
     ok s' \<and> rest s' = drop (length (take (len - 1 - length buf) (first_line d (rest s)))) (rest s)"
  using assms
proof (induction "len - 1 - length buf" arbitrary: buf s)
  case 0
  then show ?case by (auto simp: read_delim_loop.simps [of read d len buf])
next
  case (Suc n)
  then have room: "length buf < len - 1" by simp
  show ?case
  proof (cases "rest s")
    case Nil
    then obtain s' where "read s 1 = ([], s')" "ok s'" "rest s' = []" using read_one(1) [OF Suc.prems(1)] by blast
    then show ?thesis using room Nil by (simp add: read_delim_loop.simps [of read d len buf])
  next
    case (Cons b bs)
    then obtain s' where s': "read s 1 = ([b], s')" "ok s'" "rest s' = bs" using read_one(2) [OF Suc.prems(1)] by blast
    have m: "len - 1 - length buf = Suc (len - 1 - length (buf @ [b]))" using room by simp
    show ?thesis
    proof (cases "b = d")
      case True
      then show ?thesis
        using room s' Cons by (simp add: read_delim_loop.simps [of read d len buf] take_Cons' split: nat.split)
    next
      case False
      have "n = len - 1 - length (buf @ [b])" "length (buf @ [b]) \<le> len - 1" using Suc.hyps(2) room by simp_all
      from Suc.hyps(1) [OF this(1) s'(2) this(2)] obtain s'' where
        "read_delim_loop read d len (buf @ [b]) s' =
           ((buf @ [b]) @ take (len - 1 - length (buf @ [b])) (first_line d bs), s'')" "ok s''"
        "rest s'' = drop (length (take (len - 1 - length (buf @ [b])) (first_line d bs))) bs"
        using s'(3) by auto
      then show ?thesis
        unfolding m using room s' Cons False by (simp add: read_delim_loop.simps [of read d len buf])
    qed
  qed
qed

text \<open>\<^verbatim>\<open>ReadDelim\<close> returns the next line, cut to the buffer, and leaves the reader right behind it.\<close>

lemma read_delim_line:
  assumes "ok s"
  shows "fst (read_delim read d len s) = take (len - 1) (first_line d (rest s))"
    "rest (snd (read_delim read d len s)) = drop (length (take (len - 1) (first_line d (rest s)))) (rest s)"
    "ok (snd (read_delim read d len s))"
  using read_delim_loop_line [OF assms, of "[]" len d] by (auto simp: read_delim_def)

end

text \<open>A descriptor that fills the buffer as long as there are bytes, as a file does.\<close>

locale byte_source =
  fixes read :: "'s \<Rightarrow> nat \<Rightarrow> bytes \<times> 's"
    and rest :: "'s \<Rightarrow> bytes"
    and ok :: "'s \<Rightarrow> bool"
  assumes read_bytes: "ok s \<Longrightarrow> fst (read s n) = take n (rest s)"
    and read_rest: "ok s \<Longrightarrow> rest (snd (read s n)) = drop n (rest s)"
    and read_ok: "ok s \<Longrightarrow> ok (snd (read s n))"

sublocale byte_source \<subseteq> byte_reader
  by unfold_locales (simp_all add: read_bytes read_rest read_ok)

end
