(* ===== verification/Fat.thy ===== *)
theory Fat imports File_Descriptor Kernel_Error "HOL-Library.Monad_Syntax" begin

text \<open>
  \<^verbatim>\<open>Kernel/fat.{hpp,cpp}\<close>: the FAT file system on the volume image in memory. The image is the file
  allocation table and the data clusters, each a list of bytes; \<open>get_cluster_addr\<close> is where a cluster
  stands in the image, and \<open>Fat_Chain\<close> shows that clusters do not overlap each other or the table. A
  \<^verbatim>\<open>DirectoryEntry*\<close> is the cluster and the index of its 32 bytes.

  \<open>None\<close> stands for a run the code does not survive: a read or write outside the image, a path element
  that overflows \<^verbatim>\<open>path_elem\<close>, a chain that is a cycle. Paths are C strings without their zero byte.
\<close>

section \<open>The volume\<close>

(*@ Kernel/fat.hpp:11-39 BPB *)
record bpb =
  jump_boot :: bytes
  oem_name :: bytes
  bytes_per_sector :: u16
  sectors_per_cluster :: u8
  reserved_sector_count :: u16
  num_fats :: u8
  root_entry_count :: u16
  total_sectors_16 :: u16
  media :: u8
  fat_size_16 :: u16
  sectors_per_track :: u16
  num_heads :: u16
  hidden_sectors :: u32
  total_sectors_32 :: u32
  fat_size_32 :: u32
  ext_flags :: u16
  fs_version :: u16
  root_cluster :: u32
  fs_info :: u16
  backup_boot_sector :: u16
  reserved_bytes :: bytes
  drive_number :: u8
  reserved1 :: u8
  boot_signature :: u8
  volume_id :: u32
  volume_label :: bytes
  fs_type :: bytes

record volume = bpb +
  fat_table :: "u32 list"
  data_clusters :: "bytes list"

(*@ Kernel/fat.cpp:28-33 Initialize *)
definition bytes_per_cluster :: "volume \<Rightarrow> nat" where
  "bytes_per_cluster v = unat (bytes_per_sector v) * unat (sectors_per_cluster v)"

text \<open>\<^verbatim>\<open>num_fats * fat_size_32\<close> is a 32-bit product in the code, and the sector sum is 64 bits wide.\<close>

(*@ Kernel/fat.cpp:35-42 GetClusterAddr *)
definition get_cluster_addr :: "volume \<Rightarrow> u64 \<Rightarrow> u64 \<Rightarrow> u64" where
  "get_cluster_addr v boot_volume_image cluster =
    (let sector_num = ucast (ucast (reserved_sector_count v) + ucast (num_fats v) * fat_size_32 v :: u32)
           + (cluster - 2) * ucast (sectors_per_cluster v);
         offset = sector_num * ucast (bytes_per_sector v)
     in boot_volume_image + offset)"

(*@ Kernel/fat.cpp:70-77 GetFAT *)
definition get_fat_addr :: "volume \<Rightarrow> u64 \<Rightarrow> u64" where
  "get_fat_addr v boot_volume_image =
     boot_volume_image + ucast (reserved_sector_count v) * ucast (bytes_per_sector v)"

(*@ Kernel/fat.hpp:78-81 GetSectorByCluster *)
definition cluster_bytes :: "volume \<Rightarrow> nat \<Rightarrow> bytes option" where
  "cluster_bytes v c =
    (if 2 \<le> c \<and> c < length (data_clusters v) + 2 then Some (data_clusters v ! (c - 2)) else None)"

definition set_cluster :: "nat \<Rightarrow> bytes \<Rightarrow> volume \<Rightarrow> volume" where
  "set_cluster c bs v = v\<lparr>data_clusters := (data_clusters v)[c - 2 := bs]\<rparr>"

(*@ Kernel/fat.hpp:86-86 kEndOfClusterchain *)
definition end_of_clusterchain :: nat where
  "end_of_clusterchain = 0x0fffffff"

(*@ Kernel/fat.cpp:66-68 IsEndOfClusterChain *)
definition is_end_of_cluster_chain :: "nat \<Rightarrow> bool" where
  "is_end_of_cluster_chain c \<longleftrightarrow> 0x0ffffff8 \<le> c"

definition fat_at :: "volume \<Rightarrow> nat \<Rightarrow> nat option" where
  "fat_at v c = (if c < length (fat_table v) then Some (unat (fat_table v ! c)) else None)"

(*@ Kernel/fat.cpp:78-84 NextCluster *)
definition next_cluster :: "volume \<Rightarrow> nat \<Rightarrow> nat option" where
  "next_cluster v c =
    do { n \<leftarrow> fat_at v c; Some (if is_end_of_cluster_chain n then end_of_clusterchain else n) }"

section \<open>Directory entries\<close>

text \<open>A directory entry is its 32 bytes, with the members at their packed offsets.\<close>

(*@ Kernel/fat.hpp:51-69 DirectoryEntry *)
type_synonym dir_entry = bytes

(*@ Kernel/fat.hpp:52-52 DirectoryEntry::name *)
definition entry_name :: "dir_entry \<Rightarrow> bytes" where
  "entry_name e = take 11 e"

(*@ Kernel/fat.hpp:53-53 DirectoryEntry::attr *)
definition entry_attr :: "dir_entry \<Rightarrow> u8" where
  "entry_attr e = e ! 11"

(*@ Kernel/fat.hpp:41-49 Attribute *)
definition attribute_directory :: u8 where
  "attribute_directory = 0x10"

definition le16 :: "bytes \<Rightarrow> nat \<Rightarrow> u32" where
  "le16 bs i = ucast (bs ! i) OR push_bit 8 (ucast (bs ! (i + 1)))"

(*@ Kernel/fat.hpp:65-68 DirectoryEntry::FirstCluster *)
definition first_cluster :: "dir_entry \<Rightarrow> nat" where
  "first_cluster e = unat (le16 e 26 OR push_bit 16 (le16 e 20))"

(*@ Kernel/fat.hpp:63-63 DirectoryEntry::file_size *)
definition file_size :: "dir_entry \<Rightarrow> nat" where
  "file_size e = unat (le16 e 28 OR push_bit 16 (le16 e 30))"

definition put16 :: "nat \<Rightarrow> u32 \<Rightarrow> bytes \<Rightarrow> bytes" where
  "put16 i w bs = bs[i := ucast w, i + 1 := ucast (drop_bit 8 w)]"

(*@ Kernel/fat.cpp:309-310 Write *)
definition set_first_cluster :: "nat \<Rightarrow> dir_entry \<Rightarrow> dir_entry" where
  "set_first_cluster c e =
     put16 20 (drop_bit 16 (of_nat c) AND 0xffff) (put16 26 (of_nat c AND 0xffff) e)"

(*@ Kernel/fat.cpp:337-337 Write *)
definition set_file_size :: "nat \<Rightarrow> dir_entry \<Rightarrow> dir_entry" where
  "set_file_size n e = put16 30 (drop_bit 16 (of_nat n)) (put16 28 (of_nat n) e)"

type_synonym entry_ref = "nat \<times> nat"

definition slice :: "bytes \<Rightarrow> nat \<Rightarrow> dir_entry" where
  "slice bs i = take 32 (drop (32 * i) bs)"

definition entries :: "bytes \<Rightarrow> dir_entry list" where
  "entries bs = map (slice bs) [0..<length bs div 32]"

definition get_entry :: "volume \<Rightarrow> entry_ref \<Rightarrow> dir_entry option" where
  "get_entry v r =
    do { bs \<leftarrow> cluster_bytes v (fst r); if 32 * snd r + 32 \<le> length bs then Some (slice bs (snd r)) else None }"

definition splice :: "nat \<Rightarrow> bytes \<Rightarrow> bytes \<Rightarrow> bytes" where
  "splice off new bs = take off bs @ new @ drop (off + length new) bs"

definition set_dir_entry :: "entry_ref \<Rightarrow> dir_entry \<Rightarrow> volume \<Rightarrow> volume" where
  "set_dir_entry r e v =
    (case cluster_bytes v (fst r) of
       None \<Rightarrow> v
     | Some bs \<Rightarrow> set_cluster (fst r) (splice (32 * snd r) e bs) v)"

section \<open>Names\<close>

definition to_upper :: "u8 \<Rightarrow> u8" where
  "to_upper b = (if 0x61 \<le> b \<and> b \<le> 0x7a then b - 0x20 else b)"

abbreviation dot :: u8 where "dot \<equiv> 0x2e"
abbreviation slash :: u8 where "slash \<equiv> 0x2f"
abbreviation space :: u8 where "space \<equiv> 0x20"

text \<open>The bytes of a C string in a buffer.\<close>

definition c_str :: "bytes \<Rightarrow> bytes" where
  "c_str bs = takeWhile (\<lambda>b. b \<noteq> 0) bs"

definition strip_spaces :: "bytes \<Rightarrow> bytes" where
  "strip_spaces bs = rev (dropWhile (\<lambda>b. b = space) (rev bs))"

(*@ Kernel/fat.cpp:44-56 ReadName *)
definition read_name :: "dir_entry \<Rightarrow> bytes \<times> bytes" where
  "read_name e = (c_str (strip_spaces (take 8 e)), c_str (strip_spaces (take 3 (drop 8 e))))"

(*@ Kernel/fat.cpp:58-64 FormatName *)
definition format_name :: "dir_entry \<Rightarrow> bytes" where
  "format_name e = (case read_name e of (base, ext) \<Rightarrow> if ext \<noteq> [] then base @ dot # ext else base)"

(*@ Kernel/fat.cpp:126-132 NameIsEqual *)
fun name83_loop :: "bytes \<Rightarrow> nat \<Rightarrow> bytes \<Rightarrow> bytes" where
  "name83_loop [] i83 name83 = name83"
| "name83_loop (b # name) i83 name83 =
    (if i83 < 11
     then if b = dot then name83_loop name 8 name83
          else name83_loop name (i83 + 1) (name83[i83 := to_upper b])
     else name83)"

(*@ Kernel/fat.cpp:120-135 NameIsEqual *)
definition name_is_equal :: "dir_entry \<Rightarrow> bytes \<Rightarrow> bool" where
  "name_is_equal e name \<longleftrightarrow> entry_name e = name83_loop name 0 (replicate 11 space)"

text \<open>\<^verbatim>\<open>strrchr(s, c)\<close>: what stands before the last \<open>c\<close> and what stands behind it.\<close>

definition split_last :: "u8 \<Rightarrow> bytes \<Rightarrow> (bytes \<times> bytes) option" where
  "split_last c s =
    (if c \<in> set s then
       Some (rev (tl (dropWhile (\<lambda>b. b \<noteq> c) (rev s))), rev (takeWhile (\<lambda>b. b \<noteq> c) (rev s)))
     else None)"

(*@ Kernel/fat.cpp:205-220 SetFileName *)
definition set_file_name :: "bytes \<Rightarrow> dir_entry \<Rightarrow> dir_entry" where
  "set_file_name name e =
    (let pad = (\<lambda>n s. let t = map to_upper (take n s) in t @ replicate (n - length t) space)
     in (case split_last dot name of
           Some (base, ext) \<Rightarrow> pad 8 base @ pad 3 ext
         | None \<Rightarrow> pad 8 name @ replicate 3 space) @ drop 11 e)"

section \<open>Finding a file\<close>

(*@ Kernel/fat.cpp:9-21 NextPathElement *)
definition next_path_element :: "bytes \<Rightarrow> (bytes \<times> bytes option) option" where
  "next_path_element path =
    (let path_elem = takeWhile (\<lambda>b. b \<noteq> slash) path
     in if 13 \<le> length path_elem then None
        else if path_elem = path then Some (path_elem, None)
        else Some (path_elem, Some (drop (length path_elem + 1) path)))"

datatype scan = Found nat | Dir_End | Go_On

(*@ Kernel/fat.cpp:101-113 Findfile *)
fun scan_dir :: "bytes \<Rightarrow> dir_entry list \<Rightarrow> nat \<Rightarrow> scan" where
  "scan_dir path_elem [] i = Go_On"
| "scan_dir path_elem (e # es) i =
    (if e ! 0 = 0 then Dir_End
     else if name_is_equal e path_elem then Found i
     else scan_dir path_elem es (i + 1))"

(*@ Kernel/fat.cpp:99-115 Findfile *)
partial_function (option) scan_chain :: "volume \<Rightarrow> bytes \<Rightarrow> nat \<Rightarrow> entry_ref option option" where
  "scan_chain v path_elem directory_cluster =
    (if directory_cluster = end_of_clusterchain then Some None
     else do {
       bs \<leftarrow> cluster_bytes v directory_cluster;
       case scan_dir path_elem (entries bs) 0 of
         Found i \<Rightarrow> Some (Some (directory_cluster, i))
       | Dir_End \<Rightarrow> Some None
       | Go_On \<Rightarrow> do { n \<leftarrow> next_cluster v directory_cluster; scan_chain v path_elem n }
     })"

definition strip_root :: "volume \<Rightarrow> bytes \<Rightarrow> nat \<Rightarrow> nat \<times> bytes" where
  "strip_root v path directory_cluster =
    (if path \<noteq> [] \<and> hd path = slash then (unat (root_cluster v), tl path)
     else if directory_cluster = 0 then (unat (root_cluster v), path)
     else (directory_cluster, path))"

text \<open>The result is the entry, if there is one, and whether the element found was followed by a slash.\<close>

(*@ Kernel/fat.cpp:86-118 Findfile *)
function find_file :: "volume \<Rightarrow> bytes \<Rightarrow> nat \<Rightarrow> (entry_ref option \<times> bool) option" where
  "find_file v path directory_cluster =
    (case strip_root v path directory_cluster of (directory_cluster, path) \<Rightarrow>
     case next_path_element path of
       None \<Rightarrow> None
     | Some (path_elem, next_path) \<Rightarrow>
         let post_slash = next_path \<noteq> None;
             path_last = next_path = None \<or> next_path = Some []
         in case scan_chain v path_elem directory_cluster of
              None \<Rightarrow> None
            | Some None \<Rightarrow> Some (None, post_slash)
            | Some (Some r) \<Rightarrow>
                (case get_entry v r of
                   None \<Rightarrow> None
                 | Some e \<Rightarrow>
                     if entry_attr e = attribute_directory \<and> \<not> path_last
                     then find_file v (the next_path) (first_cluster e)
                     else Some (Some r, post_slash)))"
  by pat_completeness auto
termination
proof (relation "measure (\<lambda>(v, path, c). length path)", simp, goal_cases)
  case (1 v path c d path' b elem rest ps pl a r e)
  then show ?case
    by (cases path) (auto simp: strip_root_def next_path_element_def Let_def split: if_splits)
qed

declare find_file.simps [simp del]

section \<open>Reading a whole file\<close>

(*@ Kernel/fat.cpp:146-156 LoadFile *)
partial_function (option) load_loop :: "volume \<Rightarrow> nat \<Rightarrow> bytes \<Rightarrow> nat \<Rightarrow> bytes option" where
  "load_loop v len buf cluster =
    (if cluster \<noteq> 0 \<and> cluster \<noteq> end_of_clusterchain then do {
       sec \<leftarrow> cluster_bytes v cluster;
       if len - length buf \<le> bytes_per_cluster v then Some (buf @ take (len - length buf) sec)
       else do { n \<leftarrow> next_cluster v cluster; load_loop v len (buf @ sec) n }
     } else Some buf)"

(*@ Kernel/fat.cpp:137-158 LoadFile *)
definition load_file :: "volume \<Rightarrow> nat \<Rightarrow> dir_entry \<Rightarrow> bytes option" where
  "load_file v len e = load_loop v len [] (first_cluster e)"

section \<open>Allocating clusters\<close>

(*@ Kernel/fat.cpp:164-166 ExtendCluster *)
partial_function (option) last_cluster :: "volume \<Rightarrow> nat \<Rightarrow> nat option" where
  "last_cluster v eoc_cluster =
    do { n \<leftarrow> fat_at v eoc_cluster;
         if is_end_of_cluster_chain n then Some eoc_cluster else last_cluster v n }"

text \<open>The scan for free clusters has no bound: past the end of the table it reads other memory.\<close>

(*@ Kernel/fat.cpp:168-180 ExtendCluster *)
function extend_loop :: "u32 list \<Rightarrow> nat \<Rightarrow> nat \<Rightarrow> nat \<Rightarrow> (u32 list \<times> nat) option" where
  "extend_loop fat current n candidate =
    (if n = 0 then Some (fat[current := of_nat end_of_clusterchain], current)
     else if candidate < length fat then
       if fat ! candidate \<noteq> 0 then extend_loop fat current n (candidate + 1)
       else extend_loop (fat[current := of_nat candidate]) candidate (n - 1) (candidate + 1)
     else None)"
  by pat_completeness auto
termination
  by (relation "measure (\<lambda>(fat, current, n, candidate). length fat - candidate)") auto

declare extend_loop.simps [simp del]

(*@ Kernel/fat.cpp:162-182 ExtendCluster *)
definition extend_cluster :: "volume \<Rightarrow> nat \<Rightarrow> nat \<Rightarrow> (volume \<times> nat) option" where
  "extend_cluster v eoc_cluster n =
    do { eoc \<leftarrow> last_cluster v eoc_cluster;
         (fat, current) \<leftarrow> extend_loop (fat_table v) eoc n 2;
         Some (v\<lparr>fat_table := fat\<rparr>, current) }"

definition first_free :: "u32 list \<Rightarrow> nat option" where
  "first_free fat = find (\<lambda>c. fat ! c = 0) [2..<length fat]"

(*@ Kernel/fat.cpp:253-268 AllocateClusterChain *)
definition allocate_cluster_chain :: "volume \<Rightarrow> nat \<Rightarrow> (volume \<times> nat) option" where
  "allocate_cluster_chain v n =
    do { first \<leftarrow> first_free (fat_table v);
         let v1 = v\<lparr>fat_table := (fat_table v)[first := of_nat end_of_clusterchain]\<rparr>;
         if 1 < n then do { (v2, _) \<leftarrow> extend_cluster v1 first (n - 1); Some (v2, first) }
         else Some (v1, first) }"

section \<open>Creating a file\<close>

definition free_slot :: "dir_entry list \<Rightarrow> nat option" where
  "free_slot es = find (\<lambda>i. es ! i ! 0 = 0 \<or> es ! i ! 0 = 0xe5) [0..<length es]"

(*@ Kernel/fat.cpp:184-203 AllocateEntry *)
partial_function (option) allocate_entry :: "volume \<Rightarrow> nat \<Rightarrow> (volume \<times> entry_ref) option" where
  "allocate_entry v dir_cluster =
    do { bs \<leftarrow> cluster_bytes v dir_cluster;
         case free_slot (entries bs) of
           Some i \<Rightarrow> Some (v, (dir_cluster, i))
         | None \<Rightarrow>
             do { next \<leftarrow> next_cluster v dir_cluster;
                  if next = end_of_clusterchain then
                    do { (v1, c) \<leftarrow> extend_cluster v dir_cluster 1;
                         _ \<leftarrow> cluster_bytes v1 c;
                         Some (set_cluster c (replicate (bytes_per_cluster v1) 0) v1, (c, 0)) }
                  else allocate_entry v next } }"

definition split_path :: "bytes \<Rightarrow> bytes \<times> bytes" where
  "split_path path = (case split_last slash path of None \<Rightarrow> ([], path) | Some (dir, name) \<Rightarrow> (dir, name))"

(*@ Kernel/fat.cpp:222-251 CreateFile *)
definition create_file :: "volume \<Rightarrow> bytes \<Rightarrow> (entry_ref result \<times> volume) option" where
  "create_file v path =
    (case split_path path of (parent_dir_name, filename) \<Rightarrow>
     if slash \<in> set path \<and> filename = [] then Some (Inl kIsDirectory, v)
     else do {
       parent \<leftarrow>
         (if parent_dir_name = [] then Some (Some (unat (root_cluster v)))
          else do {
            (parent_dir, post_slash2) \<leftarrow> find_file v parent_dir_name 0;
            case parent_dir of
              None \<Rightarrow> Some None
            | Some r \<Rightarrow> do { e \<leftarrow> get_entry v r; Some (Some (first_cluster e)) } });
       case parent of
         None \<Rightarrow> Some (Inl kNoSuchEntry, v)
       | Some parent_dir_cluster \<Rightarrow>
           do { (v1, r) \<leftarrow> allocate_entry v parent_dir_cluster;
                e \<leftarrow> get_entry v1 r;
                Some (Inr r, set_dir_entry r (set_file_size 0 (set_file_name filename e)) v1) } })"

section \<open>File descriptors\<close>

(*@ Kernel/fat.hpp:97-112 FileDescriptor *)
record fat_fd =
  fat_entry :: entry_ref
  rd_off :: nat
  rd_cluster :: nat
  rd_cluster_off :: nat
  wr_off :: nat
  wr_cluster :: nat
  wr_cluster_off :: nat

(*@ Kernel/fat.cpp:270-272 FileDescriptor::FileDescriptor *)
definition new_fd :: "entry_ref \<Rightarrow> fat_fd" where
  "new_fd r = \<lparr>fat_entry = r, rd_off = 0, rd_cluster = 0, rd_cluster_off = 0,
                wr_off = 0, wr_cluster = 0, wr_cluster_off = 0\<rparr>"

(*@ Kernel/fat.hpp:103-103 FileDescriptor::Size *)
definition fd_size :: "volume \<Rightarrow> fat_fd \<Rightarrow> nat option" where
  "fd_size v fd = do { e \<leftarrow> get_entry v (fat_entry fd); Some (file_size e) }"

text \<open>\<^verbatim>\<open>size_t\<close> subtraction.\<close>

definition size_sub :: "nat \<Rightarrow> nat \<Rightarrow> nat" where
  "size_sub a b = (if b \<le> a then a - b else a + 2 ^ 64 - b)"

(*@ Kernel/fat.cpp:282-293 FileDescriptor::Read *)
partial_function (option) read_loop :: "volume \<Rightarrow> nat \<Rightarrow> bytes \<Rightarrow> nat \<Rightarrow> nat \<Rightarrow> (bytes \<times> nat \<times> nat) option" where
  "read_loop v len buf cluster off =
    (if length buf < len then do {
       sec \<leftarrow> cluster_bytes v cluster;
       let n = min (len - length buf) (bytes_per_cluster v - off);
       let buf1 = buf @ take n (drop off sec);
       if off + n = bytes_per_cluster v then do {
         next \<leftarrow> next_cluster v cluster;
         read_loop v len buf1 next 0 }
       else read_loop v len buf1 cluster (off + n)
     } else Some (buf, cluster, off))"

(*@ Kernel/fat.cpp:274-297 FileDescriptor::Read *)
definition fd_read :: "volume \<Rightarrow> fat_fd \<Rightarrow> nat \<Rightarrow> (bytes \<times> fat_fd) option" where
  "fd_read v fd len =
    do { e \<leftarrow> get_entry v (fat_entry fd);
         let cluster = (if rd_cluster fd = 0 then first_cluster e else rd_cluster fd);
         let len = min len (size_sub (file_size e) (rd_off fd));
         (buf, cluster, off) \<leftarrow> read_loop v len [] cluster (rd_cluster_off fd);
         Some (buf, fd\<lparr>rd_cluster := cluster, rd_cluster_off := off, rd_off := rd_off fd + length buf\<rparr>) }"

(*@ Kernel/fat.cpp:346-349 FileDescriptor::Load *)
partial_function (option) load_seek :: "volume \<Rightarrow> nat \<Rightarrow> nat \<Rightarrow> (nat \<times> nat) option" where
  "load_seek v cluster offset =
    (if bytes_per_cluster v \<le> offset
     then do { next \<leftarrow> next_cluster v cluster; load_seek v next (offset - bytes_per_cluster v) }
     else Some (cluster, offset))"

(*@ Kernel/fat.cpp:341-354 FileDescriptor::Load *)
definition fd_load :: "volume \<Rightarrow> fat_fd \<Rightarrow> nat \<Rightarrow> nat \<Rightarrow> bytes option" where
  "fd_load v fd len offset =
    do { e \<leftarrow> get_entry v (fat_entry fd);
         (cluster, off) \<leftarrow> load_seek v (first_cluster e) offset;
         (buf, _) \<leftarrow> fd_read v ((new_fd (fat_entry fd))\<lparr>rd_off := offset, rd_cluster := cluster, rd_cluster_off := off\<rparr>) len;
         Some buf }"

(*@ Kernel/fat.cpp:300-302 num_cluster *)
definition num_cluster :: "volume \<Rightarrow> nat \<Rightarrow> nat" where
  "num_cluster v bytes = (bytes + bytes_per_cluster v - 1) div bytes_per_cluster v"

text \<open>The loop of \<^verbatim>\<open>Write\<close>. The copy length is the minimum of the whole length and the room in the
  cluster, so a later iteration copies what stands behind the caller's data: the buffer is memory
  from the caller's pointer on.\<close>

(*@ Kernel/fat.cpp:317-334 FileDescriptor::Write *)
partial_function (option) write_loop ::
    "volume \<Rightarrow> (nat \<Rightarrow> u8) \<Rightarrow> nat \<Rightarrow> nat \<Rightarrow> nat \<Rightarrow> nat \<Rightarrow> (volume \<times> nat \<times> nat \<times> nat) option" where
  "write_loop v buf8 len tot cluster off =
    (if tot < len then do {
       (v1, cluster1, off1) \<leftarrow>
         (if off = bytes_per_cluster v then do {
            next \<leftarrow> next_cluster v cluster;
            if next = end_of_clusterchain then do {
              (v1, c) \<leftarrow> extend_cluster v cluster (num_cluster v (len - tot)); Some (v1, c, 0) }
            else Some (v, next, 0) }
          else Some (v, cluster, off));
       sec \<leftarrow> cluster_bytes v1 cluster1;
       let n = min len (bytes_per_cluster v1 - off1);
       write_loop (set_cluster cluster1 (splice off1 (map buf8 [tot..<tot + n]) sec) v1)
         buf8 len (tot + n) cluster1 (off1 + n)
     } else Some (v, tot, cluster, off))"

(*@ Kernel/fat.cpp:304-312 FileDescriptor::Write *)
definition write_start :: "volume \<Rightarrow> fat_fd \<Rightarrow> nat \<Rightarrow> (volume \<times> nat) option" where
  "write_start v fd len =
    (if wr_cluster fd = 0 then do {
       e \<leftarrow> get_entry v (fat_entry fd);
       if first_cluster e \<noteq> 0 then Some (v, first_cluster e)
       else do {
         (v1, c) \<leftarrow> allocate_cluster_chain v (num_cluster v len);
         Some (set_dir_entry (fat_entry fd) (set_first_cluster c e) v1, c) } }
     else Some (v, wr_cluster fd))"

(*@ Kernel/fat.cpp:299-339 FileDescriptor::Write *)
definition fd_write :: "volume \<Rightarrow> fat_fd \<Rightarrow> (nat \<Rightarrow> u8) \<Rightarrow> nat \<Rightarrow> (nat \<times> fat_fd \<times> volume) option" where
  "fd_write v fd buf len =
    do { (v1, cluster) \<leftarrow> write_start v fd len;
         (v2, tot, cluster, off) \<leftarrow> write_loop v1 buf len 0 cluster (wr_cluster_off fd);
         e \<leftarrow> get_entry v2 (fat_entry fd);
         Some (tot, fd\<lparr>wr_off := wr_off fd + tot, wr_cluster := cluster, wr_cluster_off := off\<rparr>,
           set_dir_entry (fat_entry fd) (set_file_size (wr_off fd + tot) e) v2) }"

end
