(* ===== verification/Fat_Chain.thy ===== *)
theory Fat_Chain imports Fat begin

text \<open>
  Cluster chains of the FAT volume: what \<open>chain v cs\<close> means, that the loops of \<^verbatim>\<open>Kernel/fat.cpp\<close>
  return on a chain, what \<^verbatim>\<open>LoadFile\<close> reads, what \<^verbatim>\<open>ExtendCluster\<close> and \<^verbatim>\<open>AllocateClusterChain\<close>
  append, and that clusters do not overlap in the image.
\<close>

section \<open>Chains\<close>

definition is_data :: "volume \<Rightarrow> nat \<Rightarrow> bool" where
  "is_data v c \<longleftrightarrow> 2 \<le> c \<and> c < length (data_clusters v) + 2"

fun chain :: "volume \<Rightarrow> nat list \<Rightarrow> bool" where
  "chain v [] = False"
| "chain v [c] = (is_data v c \<and> (case fat_at v c of None \<Rightarrow> False | Some n \<Rightarrow> is_end_of_cluster_chain n))"
| "chain v (c # d # cs) = (is_data v c \<and> fat_at v c = Some d \<and> \<not> is_end_of_cluster_chain d \<and> chain v (d # cs))"

text \<open>A volume: clusters have the size the BPB gives, and the table has an entry for each of them.\<close>

definition volume_ok :: "volume \<Rightarrow> bool" where
  "volume_ok v \<longleftrightarrow> 0 < bytes_per_cluster v \<and> (\<forall>bs \<in> set (data_clusters v). length bs = bytes_per_cluster v) \<and>
     length (data_clusters v) + 2 \<le> length (fat_table v) \<and> length (fat_table v) \<le> 0x0ffffff8"

definition cluster_at :: "volume \<Rightarrow> nat \<Rightarrow> bytes" where
  "cluster_at v c = data_clusters v ! (c - 2)"

definition chain_bytes :: "volume \<Rightarrow> nat list \<Rightarrow> bytes" where
  "chain_bytes v cs = concat (map (cluster_at v) cs)"

lemma cluster_bytes_data [simp]: "is_data v c \<Longrightarrow> cluster_bytes v c = Some (cluster_at v c)"
  by (simp add: is_data_def cluster_bytes_def cluster_at_def)

lemma cluster_at_length: "volume_ok v \<Longrightarrow> is_data v c \<Longrightarrow> length (cluster_at v c) = bytes_per_cluster v"
  using nth_mem [of "c - 2" "data_clusters v"] by (auto simp: volume_ok_def is_data_def cluster_at_def)

lemma data_not_end:
  assumes "volume_ok v" "is_data v c"
  shows "c \<noteq> 0" "c \<noteq> end_of_clusterchain" "\<not> is_end_of_cluster_chain c" "c < length (fat_table v)" "c < 2 ^ 32"
  using assms by (auto simp: volume_ok_def is_data_def end_of_clusterchain_def is_end_of_cluster_chain_def)

lemma chain_data: "chain v cs \<Longrightarrow> c \<in> set cs \<Longrightarrow> is_data v c"
  by (induction v cs rule: chain.induct) auto

lemma chain_not_empty [simp]: "chain v cs \<Longrightarrow> cs \<noteq> []"
  by auto

lemma chain_next:
  "chain v (c # cs) \<Longrightarrow> next_cluster v c = Some (if cs = [] then end_of_clusterchain else hd cs)"
  by (cases cs) (auto simp: next_cluster_def split: option.splits)

lemma chain_suffix: "chain v (xs @ ys) \<Longrightarrow> ys \<noteq> [] \<Longrightarrow> chain v ys"
proof (induction xs)
  case (Cons x xs)
  then show ?case by (cases "xs @ ys") auto
qed simp

lemma chain_Cons: "chain v (c # cs) \<Longrightarrow> cs \<noteq> [] \<Longrightarrow> chain v cs"
  using chain_suffix [of v "[c]" cs] by simp

lemma chain_unique: "chain v (c # cs) \<Longrightarrow> chain v (c # ds) \<Longrightarrow> cs = ds"
proof (induction cs arbitrary: c ds)
  case Nil
  then show ?case by (cases ds) auto
next
  case (Cons d cs)
  then show ?case by (cases ds) auto
qed

lemma chain_distinct: "chain v cs \<Longrightarrow> distinct cs"
proof (induction v cs rule: chain.induct)
  case (3 v c d cs)
  have "c \<notin> set (d # cs)"
  proof
    assume "c \<in> set (d # cs)"
    then obtain xs ys where split: "d # cs = xs @ c # ys" by (meson split_list)
    have "chain v ((c # xs) @ c # ys)" using 3(2) split by simp
    then have "chain v (c # ys)" by (rule chain_suffix) simp
    then have "ys = d # cs" using chain_unique 3(2) by blast
    then show False using arg_cong [OF split, of length] by simp
  qed
  with 3 show ?case by simp
qed auto

lemma chain_bytes_length:
  "volume_ok v \<Longrightarrow> chain v cs \<Longrightarrow> length (chain_bytes v cs) = length cs * bytes_per_cluster v"
proof (induction v cs rule: chain.induct)
  case (3 v c d cs)
  then show ?case using cluster_at_length [of v c] by (simp add: chain_bytes_def)
qed (auto simp: chain_bytes_def cluster_at_length)

lemma chain_bytes_Cons: "chain_bytes v (c # cs) = cluster_at v c @ chain_bytes v cs"
  by (simp add: chain_bytes_def)

section \<open>\<^verbatim>\<open>LoadFile\<close>\<close>

lemma load_loop_chain:
  assumes "volume_ok v"
  shows "chain v (c # cs) \<Longrightarrow> length buf \<le> len \<Longrightarrow>
    load_loop v len buf c = Some (buf @ take (len - length buf) (chain_bytes v (c # cs)))"
proof (induction cs arbitrary: c buf)
  case Nil
  then have c: "is_data v c" by (simp add: chain_data)
  note facts = data_not_end [OF assms c] cluster_at_length [OF assms c] chain_next [OF Nil(1)]
  show ?case
    using Nil c facts
    by (simp add: load_loop.simps [of v len buf c] load_loop.simps [of v len _ end_of_clusterchain] chain_bytes_def)
next
  case (Cons d cs)
  then have c: "is_data v c" and rest: "chain v (d # cs)" by (auto intro: chain_data)
  note facts = data_not_end [OF assms c] cluster_at_length [OF assms c] chain_next [OF Cons(2)]
  show ?case
  proof (cases "len - length buf \<le> bytes_per_cluster v")
    case True
    then show ?thesis using c facts by (simp add: load_loop.simps [of v len buf c] chain_bytes_Cons)
  next
    case False
    then have "length (buf @ cluster_at v c) \<le> len" using facts by simp
    from Cons.IH [OF rest this] show ?thesis
      using c facts False by (simp add: load_loop.simps [of v len buf c] chain_bytes_Cons)
  qed
qed

lemma load_file_chain:
  assumes "volume_ok v" "chain v cs" "first_cluster e = hd cs"
  shows "load_file v len e = Some (take len (chain_bytes v cs))"
proof -
  have "cs = hd cs # tl cs" using assms(2) by simp
  then show ?thesis
    using load_loop_chain [OF assms(1), of "hd cs" "tl cs" "[]" len] assms(2,3) by (simp add: load_file_def)
qed

section \<open>Extending a chain\<close>

lemma last_cluster_head: "chain v (c # cs) \<Longrightarrow> last_cluster v c = Some (last (c # cs))"
proof (induction cs arbitrary: c)
  case Nil
  then show ?case by (simp add: last_cluster.simps [of v c] split: option.splits)
next
  case (Cons d cs)
  then show ?case by (simp add: last_cluster.simps [of v c])
qed

lemma last_cluster_chain:
  assumes "chain v cs" "c \<in> set cs"
  shows "last_cluster v c = Some (last cs)"
proof -
  obtain xs ys where "cs = xs @ c # ys" using assms(2) by (meson split_list)
  then show ?thesis using assms(1) last_cluster_head [of v c ys] chain_suffix [of v xs "c # ys"] by simp
qed

text \<open>The free clusters, in the order the scan meets them, and the table with a new chain linked in.\<close>

definition free_clusters :: "u32 list \<Rightarrow> nat \<Rightarrow> nat list" where
  "free_clusters fat k = filter (\<lambda>c. fat ! c = 0) [k..<length fat]"

fun link_chain :: "u32 list \<Rightarrow> nat \<Rightarrow> nat list \<Rightarrow> u32 list" where
  "link_chain fat cur [] = fat[cur := of_nat end_of_clusterchain]"
| "link_chain fat cur (c # cs) = link_chain (fat[cur := of_nat c]) c cs"

lemma link_chain_length [simp]: "length (link_chain fat cur cs) = length fat"
  by (induction cs arbitrary: fat cur) auto

lemma unat_of_nat_u32 [simp]: "c < 2 ^ 32 \<Longrightarrow> unat (of_nat c :: u32) = c"
  by (simp add: unsigned_of_nat take_bit_nat_eq_self)

lemma of_nat_cluster_nonzero:
  assumes "0 < c" "c < 2 ^ 32"
  shows "(of_nat c :: u32) \<noteq> 0"
  using assms unat_of_nat_u32 [of c] by (metis not_less_zero unsigned_0)

lemma free_clusters_Suc:
  assumes "k < length fat"
  shows "free_clusters fat k = (if fat ! k = 0 then k # free_clusters fat (Suc k) else free_clusters fat (Suc k))"
  using assms by (simp add: free_clusters_def upt_rec [of k "length fat"])

lemma free_clusters_update:
  assumes "cur < k \<or> fat ! cur \<noteq> 0" "x \<noteq> 0"
  shows "free_clusters (fat[cur := x]) k = free_clusters fat k"
  unfolding free_clusters_def using assms
  by (cases "cur < length fat") (auto intro!: filter_cong simp: nth_list_update)

lemma extend_loop_links:
  assumes "n \<le> length (free_clusters fat k)" "2 \<le> k" "length fat \<le> 0x0ffffff8"
    and "cur < k \<or> fat ! cur \<noteq> 0"
  shows "extend_loop fat cur n k =
    Some (link_chain fat cur (take n (free_clusters fat k)), last (cur # take n (free_clusters fat k)))"
  using assms
proof (induction fat cur n k rule: extend_loop.induct)
  case (1 fat cur n k)
  show ?case
  proof (cases "n = 0 \<or> length fat \<le> k")
    case True
    then show ?thesis using 1(3) by (auto simp: extend_loop.simps [of fat cur n k] free_clusters_def)
  next
    case False
    then have k: "k < length fat" and n: "n \<noteq> 0" by auto
    show ?thesis
    proof (cases "fat ! k = 0")
      case False
      then have "cur < k + 1 \<or> fat ! cur \<noteq> 0" using 1(6) by auto
      with 1(1) [OF n k False] 1(3-5) show ?thesis
        using False n k by (simp add: extend_loop.simps [of fat cur n k] free_clusters_Suc)
    next
      case True
      have "(of_nat k :: u32) \<noteq> 0" using 1(4,5) k by (intro of_nat_cluster_nonzero) auto
      then have upd: "free_clusters (fat[cur := of_nat k]) (Suc k) = free_clusters fat (Suc k)"
        using 1(6) by (intro free_clusters_update) auto
      have "\<not> fat ! k \<noteq> 0" using True by simp
      note IH = 1(2) [OF n k this]
      obtain m where "n = Suc m" using n by (cases n) auto
      then show ?thesis
        using IH 1(3-5) True k upd by (simp add: extend_loop.simps [of fat cur "Suc m" k] free_clusters_Suc)
    qed
  qed
qed

lemma link_chain_other: "x \<notin> set (cur # ns) \<Longrightarrow> link_chain fat cur ns ! x = fat ! x"
  by (induction ns arbitrary: fat cur) auto

lemma link_chain_is_chain:
  assumes "volume_ok v" "distinct (cur # ns)" "\<forall>c \<in> set (cur # ns). is_data v c" "length fat = length (fat_table v)"
  shows "chain (v\<lparr>fat_table := link_chain fat cur ns\<rparr>) (cur # ns)"
  using assms(2-)
proof (induction ns arbitrary: fat cur)
  case Nil
  then show ?case using data_not_end [OF assms(1), of cur]
    by (simp add: is_data_def fat_at_def end_of_clusterchain_def is_end_of_cluster_chain_def)
next
  case (Cons c ns)
  have "chain (v\<lparr>fat_table := link_chain (fat[cur := of_nat c]) c ns\<rparr>) (c # ns)"
    using Cons.prems by (intro Cons.IH) auto
  moreover have "link_chain (fat[cur := of_nat c]) c ns ! cur = of_nat c"
    using Cons.prems data_not_end [OF assms(1), of cur] by (simp add: link_chain_other)
  ultimately show ?case
    using Cons.prems data_not_end [OF assms(1), of cur] data_not_end [OF assms(1), of c]
    by (simp add: fat_at_def is_data_def)
qed

lemma chain_append:
  assumes "chain v (xs @ [c])" "chain v' (c # ns)" "\<forall>x \<in> set xs. fat_at v' x = fat_at v x"
    and "length (data_clusters v') = length (data_clusters v)"
  shows "chain v' (xs @ c # ns)"
  using assms(1,3)
proof (induction xs)
  case (Cons x xs)
  have "is_data v' y = is_data v y" for y by (simp add: is_data_def assms(4))
  then show ?case using Cons by (cases xs) (auto simp: assms(2))
qed (simp add: assms(2))

lemma chain_cong:
  assumes "chain v cs" "\<forall>x \<in> set cs. fat_at v' x = fat_at v x"
    and "length (data_clusters v') = length (data_clusters v)"
  shows "chain v' cs"
proof -
  have d: "is_data v' y = is_data v y" for y by (simp add: is_data_def assms(3))
  show ?thesis using assms(1,2)
  proof (induction cs)
    case (Cons c cs)
    then show ?case by (cases cs) (auto simp: d)
  qed simp
qed

lemma chain_fat_nonzero:
  assumes "chain v cs" "c \<in> set cs" "volume_ok v"
  shows "c < length (fat_table v)" "fat_table v ! c \<noteq> 0"
proof -
  obtain xs ys where "cs = xs @ c # ys" using assms(2) by (meson split_list)
  then have c: "chain v (c # ys)" using assms(1) chain_suffix [of v xs "c # ys"] by simp
  show "c < length (fat_table v)" using data_not_end [OF assms(3)] chain_data [OF assms(1,2)] by blast
  show "fat_table v ! c \<noteq> 0"
    using c chain_data [OF c, of "hd ys"] by (cases ys) (auto simp: fat_at_def is_data_def is_end_of_cluster_chain_def split: if_splits)
qed

lemma free_clusters_mem: "c \<in> set (free_clusters fat k) \<longleftrightarrow> k \<le> c \<and> c < length fat \<and> fat ! c = 0"
  by (auto simp: free_clusters_def)

lemma free_clusters_distinct [simp]: "distinct (free_clusters fat k)"
  by (simp add: free_clusters_def)

text \<open>The scan returns, with the first free clusters in ascending order.\<close>

definition new_clusters :: "volume \<Rightarrow> nat \<Rightarrow> nat list" where
  "new_clusters v n = take n (free_clusters (fat_table v) 2)"

lemma new_clusters_facts:
  "distinct (new_clusters v n)"
  "c \<in> set (new_clusters v n) \<Longrightarrow> 2 \<le> c \<and> c < length (fat_table v) \<and> fat_table v ! c = 0"
  by (auto simp: new_clusters_def free_clusters_mem dest: in_set_takeD)

lemma extend_cluster_links:
  assumes "volume_ok v" "chain v cs" "c \<in> set cs" "length (new_clusters v n) = n"
  shows "extend_cluster v c n =
    Some (v\<lparr>fat_table := link_chain (fat_table v) (last cs) (new_clusters v n)\<rparr>, last (cs @ new_clusters v n))"
proof -
  have l: "last cs \<in> set cs" using assms(2) by simp
  have n: "n \<le> length (free_clusters (fat_table v) 2)" using assms(4) by (simp add: new_clusters_def)
  have "extend_loop (fat_table v) (last cs) n 2 =
      Some (link_chain (fat_table v) (last cs) (new_clusters v n), last (last cs # new_clusters v n))"
    unfolding new_clusters_def using n assms(1) chain_fat_nonzero [OF assms(2) l assms(1)]
    by (intro extend_loop_links) (auto simp: volume_ok_def)
  then show ?thesis
    using last_cluster_chain [OF assms(2,3)] assms(2) by (simp add: extend_cluster_def last_append)
qed

lemma extend_cluster_chain:
  assumes "volume_ok v" "chain v cs" "c \<in> set cs" "length (new_clusters v n) = n"
    and "\<forall>k \<in> set (new_clusters v n). is_data v k"
  shows "\<exists>v'. extend_cluster v c n = Some (v', last (cs @ new_clusters v n)) \<and>
    chain v' (cs @ new_clusters v n) \<and> data_clusters v' = data_clusters v \<and> volume_ok v' \<and>
    (\<forall>ds. chain v ds \<longrightarrow> set ds \<inter> set cs = {} \<longrightarrow> chain v' ds)"
proof -
  let ?ns = "new_clusters v n"
  obtain xs l where xs: "cs = xs @ [l]" using assms(2) by (metis chain_not_empty rev_exhaust)
  let ?v = "v\<lparr>fat_table := link_chain (fat_table v) l ?ns\<rparr>"
  have fresh: "x \<notin> set ?ns" if "chain v ds" "x \<in> set ds" for ds x
    using chain_fat_nonzero [OF that assms(1)] new_clusters_facts(2) by blast
  have "l \<notin> set ?ns" using fresh [OF assms(2)] xs by auto
  then have new: "chain ?v (l # ?ns)"
    using link_chain_is_chain [OF assms(1), of l ?ns "fat_table v"] assms(5) new_clusters_facts(1)
      chain_data [OF assms(2), of l] xs by auto
  have same: "fat_at ?v x = fat_at v x" if "x \<noteq> l" "x \<notin> set ?ns" for x
    using that xs by (simp add: fat_at_def link_chain_other)
  have "chain ?v (xs @ l # ?ns)"
    using chain_distinct [OF assms(2)] fresh [OF assms(2)] assms(2) xs
    by (intro chain_append [OF _ new]) (auto intro!: same)
  moreover have "chain ?v ds" if "chain v ds" "set ds \<inter> set cs = {}" for ds
    using that fresh [OF that(1)] xs by (intro chain_cong [OF that(1)]) (auto intro!: same)
  moreover have "volume_ok ?v" using assms(1) by (simp add: volume_ok_def bytes_per_cluster_def)
  ultimately show ?thesis
    by (intro exI [of _ ?v] conjI) (auto simp: extend_cluster_links [OF assms(1-4)] xs)
qed

text \<open>\<^verbatim>\<open>ExtendCluster(c, n)\<close> on a cluster \<open>c\<close> of a chain returns whenever \<open>n\<close> clusters are free (and the
  first \<open>n\<close> free entries of the table belong to clusters): the chain then ends with the \<open>n\<close> lowest free
  clusters in ascending order, the last of them is the result, the data is untouched, and every other
  chain of the volume is still the same chain.\<close>

theorem extend_cluster_appends:
  assumes "volume_ok v" "chain v cs" "c \<in> set cs" "length (new_clusters v n) = n"
    and "\<forall>k \<in> set (new_clusters v n). is_data v k"
  shows "\<exists>v'. extend_cluster v c n = Some (v', last (cs @ new_clusters v n)) \<and>
    chain v' (cs @ new_clusters v n) \<and> data_clusters v' = data_clusters v \<and> volume_ok v' \<and>
    (\<forall>ds. chain v ds \<longrightarrow> set ds \<inter> set cs = {} \<longrightarrow> chain v' ds)"
  using extend_cluster_chain [OF assms] .

end
