(* ===== verification/Fat_Name.thy ===== *)
theory Fat_Name imports Fat begin

text \<open>
  8.3 names: the name \<^verbatim>\<open>SetFileName\<close> stores is the one \<^verbatim>\<open>NameIsEqual\<close> compares with and
  \<^verbatim>\<open>FormatName\<close> prints, for names that fit.
\<close>

text \<open>A name of at most eight bytes, with an extension of one to three bytes or none.\<close>

definition name_ok :: "bytes \<Rightarrow> bytes \<Rightarrow> bool" where
  "name_ok base ext \<longleftrightarrow> 0 < length base \<and> length base \<le> 8 \<and> length ext \<le> 3 \<and>
     0 \<notin> set base \<and> 0 \<notin> set ext \<and> dot \<notin> set base \<and> dot \<notin> set ext"

definition dotted :: "bytes \<Rightarrow> bytes \<Rightarrow> bytes" where
  "dotted base ext = (if ext = [] then base else base @ dot # ext)"

definition pad :: "nat \<Rightarrow> bytes \<Rightarrow> bytes" where
  "pad n s = map to_upper s @ replicate (n - length s) space"

lemma pad_length [simp]: "length s \<le> n \<Longrightarrow> length (pad n s) = n"
  by (simp add: pad_def)

lemma split_last_none [simp]: "c \<notin> set s \<Longrightarrow> split_last c s = None"
  by (simp add: split_last_def)

lemma split_last_append:
  assumes "c \<notin> set t"
  shows "split_last c (s @ c # t) = Some (s, t)"
proof -
  have "takeWhile (\<lambda>b. b \<noteq> c) (rev t @ c # rev s) = rev t"
    using assms by (induction "rev t" arbitrary: t rule: list.induct) (auto simp: takeWhile_tail)
  moreover have "dropWhile (\<lambda>b. b \<noteq> c) (rev t @ c # rev s) = c # rev s"
    using assms by (subst dropWhile_append2) auto
  ultimately show ?thesis by (simp add: split_last_def)
qed

lemma set_file_name_padded:
  assumes "name_ok base ext"
  shows "set_file_name (dotted base ext) e = pad 8 base @ pad 3 ext @ drop 11 e"
proof (cases "ext = []")
  case True
  then show ?thesis using assms by (simp add: set_file_name_def dotted_def name_ok_def pad_def Let_def)
next
  case False
  have "split_last dot (base @ dot # ext) = Some (base, ext)"
    using assms by (intro split_last_append) (simp add: name_ok_def)
  then show ?thesis using assms False by (simp add: set_file_name_def dotted_def name_ok_def pad_def Let_def)
qed

text \<open>The comparison name: a run without a dot fills the positions from \<open>i83\<close> on.\<close>

lemma name83_run:
  "dot \<notin> set s \<Longrightarrow> i + length s \<le> 11 \<Longrightarrow> length name = 11 \<Longrightarrow>
    name83_loop (s @ t) i name =
      name83_loop t (i + length s) (take i name @ map to_upper s @ drop (i + length s) name)"
proof (induction s arbitrary: i name)
  case (Cons b s)
  have "take (i + 1) (name[i := to_upper b]) = take i name @ [to_upper b]"
    using Cons.prems by (simp add: take_Suc_conv_app_nth)
  then show ?case using Cons by (simp add: drop_update_cancel)
qed simp

lemma name83_dotted:
  assumes "name_ok base ext"
  shows "name83_loop (dotted base ext) 0 (replicate 11 space) = pad 8 base @ pad 3 ext"
proof -
  have b: "dot \<notin> set base" "length base \<le> 8" and x: "dot \<notin> set ext" "length ext \<le> 3"
    using assms by (auto simp: name_ok_def)
  have fill: "(replicate (11 - n) space :: bytes) = replicate (8 - n) space @ replicate 3 space" if "n \<le> 8" for n
    using that by (simp add: replicate_add [symmetric])
  have base: "name83_loop (base @ t) 0 (replicate 11 space) =
      name83_loop t (length base) (pad 8 base @ replicate 3 space)" for t
    using name83_run [of base 0 "replicate 11 space" t] b fill [of "length base"] by (simp add: pad_def)
  show ?thesis
  proof (cases "ext = []")
    case True
    then show ?thesis using base [of "[]"] by (simp add: dotted_def pad_def)
  next
    case False
    have "name83_loop (dot # ext) (length base) (pad 8 base @ replicate 3 space) =
        name83_loop ext 8 (pad 8 base @ replicate 3 space)" using b by simp
    also have "\<dots> = pad 8 base @ pad 3 ext"
      using name83_run [of ext 8 "pad 8 base @ replicate 3 space" "[]"] x b by (simp add: pad_def [of 3])
    finally show ?thesis using base [of "dot # ext"] False by (simp add: dotted_def)
  qed
qed

lemma name_is_equal_set:
  assumes "name_ok base ext"
  shows "name_is_equal (set_file_name (dotted base ext) e) (dotted base ext)"
proof -
  have "length base \<le> 8" "length ext \<le> 3" using assms by (auto simp: name_ok_def)
  then show ?thesis
    using assms by (simp add: name_is_equal_def entry_name_def set_file_name_padded name83_dotted)
qed

lemma to_upper_zero [simp]: "to_upper b = 0 \<longleftrightarrow> b = 0"
  by (auto simp: to_upper_def word_le_nat_alt)

lemma strip_pad:
  assumes "space \<notin> set s" "length s \<le> n"
  shows "strip_spaces (pad n s) = map to_upper s"
proof -
  have up: "to_upper b \<noteq> space" if "b \<in> set s" for b
  proof
    assume b: "to_upper b = space"
    show False
    proof (cases "0x61 \<le> b \<and> b \<le> 0x7a")
      case True
      then have "b = 0x40" using b by (simp add: to_upper_def diff_eq_eq)
      then show False using True by simp
    next
      case False
      then have "b = space" using b unfolding to_upper_def if_not_P [OF False] by simp
      then show False using assms(1) that by simp
    qed
  qed
  have "dropWhile (\<lambda>b. b = space) (rev (map to_upper s)) = rev (map to_upper s)"
    using up by (cases s rule: rev_cases) auto
  moreover have "dropWhile (\<lambda>b. b = space) (replicate k space @ t) = dropWhile (\<lambda>b. b = space) t" for k t
    by (induction k) auto
  ultimately show ?thesis by (simp add: strip_spaces_def pad_def rev_map)
qed

lemma c_str_id: "0 \<notin> set s \<Longrightarrow> c_str s = s"
  unfolding c_str_def by (rule takeWhile_eq_all_conv [THEN iffD2]) auto

text \<open>The directory entry \<^verbatim>\<open>SetFileName\<close> fills for a name of at most eight bytes with an extension
  of at most three is the entry \<^verbatim>\<open>NameIsEqual\<close> accepts for that name, and, when the name has no
  spaces, \<^verbatim>\<open>FormatName\<close> prints the name back in upper case; the other 21 bytes of the entry stay.\<close>

theorem set_file_name_roundtrip:
  assumes "name_ok base ext" "length e = 32"
  shows "name_is_equal (set_file_name (dotted base ext) e) (dotted base ext) \<and>
    (space \<notin> set (dotted base ext) \<longrightarrow>
      format_name (set_file_name (dotted base ext) e) = map to_upper (dotted base ext)) \<and>
    drop 11 (set_file_name (dotted base ext) e) = drop 11 e"
proof -
  have len: "length base \<le> 8" "length ext \<le> 3" and z: "0 \<notin> set base" "0 \<notin> set ext"
    using assms by (auto simp: name_ok_def)
  have rest: "drop 11 (set_file_name (dotted base ext) e) = drop 11 e"
    using assms(1) len by (simp add: set_file_name_padded)
  have str: "c_str (map to_upper t) = map to_upper t" if "0 \<notin> set t" for t
  proof (rule c_str_id)
    show "0 \<notin> set (map to_upper t)"
    proof
      assume "0 \<in> set (map to_upper t)"
      then obtain b where b: "b \<in> set t" "0 = to_upper b" by auto
      from b(2) [symmetric] have "b = 0" by simp
      then show False using b(1) that by simp
    qed
  qed
  have format: "format_name (set_file_name (dotted base ext) e) = map to_upper (dotted base ext)"
    if "space \<notin> set (dotted base ext)"
  proof -
    have s: "space \<notin> set base" "space \<notin> set ext" using that by (auto simp: dotted_def split: if_splits)
    have "read_name (set_file_name (dotted base ext) e) = (map to_upper base, map to_upper ext)"
      using assms(1) len s z by (simp add: read_name_def set_file_name_padded strip_pad str)
    moreover have "to_upper dot = dot" by (simp add: to_upper_def)
    ultimately show ?thesis by (simp add: format_name_def dotted_def)
  qed
  show ?thesis using name_is_equal_set [OF assms(1), of e] format rest by simp
qed

theorem set_file_name_roundtrip_witness:
  "name_is_equal (set_file_name (dotted (bytes_of ''rpn'') (bytes_of ''exe'')) (replicate 32 0))
      (dotted (bytes_of ''rpn'') (bytes_of ''exe'')) \<and>
   format_name (set_file_name (dotted (bytes_of ''rpn'') (bytes_of ''exe'')) (replicate 32 0)) = bytes_of ''RPN.EXE''"
proof -
  have ok: "name_ok (bytes_of ''rpn'') (bytes_of ''exe'')" by code_simp
  have s: "space \<notin> set (dotted (bytes_of ''rpn'') (bytes_of ''exe''))" by code_simp
  have "map to_upper (dotted (bytes_of ''rpn'') (bytes_of ''exe'')) = bytes_of ''RPN.EXE''" by code_simp
  then show ?thesis
    using set_file_name_roundtrip [OF ok, of "replicate 32 0"] s by simp
qed

end
