(* ===== verification/Fat_Read.thy ===== *)
theory Fat_Read imports Fat_Chain begin

text \<open>
  Reading files: a \<^verbatim>\<open>fat::FileDescriptor\<close> at offset \<open>p\<close> of a file hands out the bytes of the file from \<open>p\<close>
  on, \<^verbatim>\<open>Load\<close> any part of it. \<open>fat_source\<close> interprets \<open>byte_source\<close> on the descriptor, so that
  \<^verbatim>\<open>ReadDelim\<close> returns the lines of the file.
\<close>

section \<open>Positions\<close>

definition cluster_no :: "nat list \<Rightarrow> nat \<Rightarrow> nat" where
  "cluster_no cs i = (if i < length cs then cs ! i else end_of_clusterchain)"

lemma next_cluster_no:
  assumes "chain v cs" "i < length cs"
  shows "next_cluster v (cs ! i) = Some (cluster_no cs (i + 1))"
proof -
  have "cs = take i cs @ cs ! i # drop (Suc i) cs" using assms(2) by (rule id_take_nth_drop)
  then have "chain v (cs ! i # drop (Suc i) cs)" using assms(1) by (metis chain_suffix list.discI)
  from chain_next [OF this] show ?thesis using assms(2) by (auto simp: cluster_no_def hd_drop_conv_nth)
qed

lemma drop_chain_bytes:
  assumes "volume_ok v" "chain v cs" "i < length cs" "off \<le> bytes_per_cluster v"
  shows "drop (i * bytes_per_cluster v + off) (chain_bytes v cs) =
    drop off (cluster_at v (cs ! i)) @ drop ((i + 1) * bytes_per_cluster v) (chain_bytes v cs)"
  using assms(2,3)
proof (induction cs arbitrary: i)
  case (Cons c cs)
  have len: "length (cluster_at v c) = bytes_per_cluster v"
    using cluster_at_length [OF assms(1) chain_data [OF Cons.prems(1)]] by simp
  show ?case
  proof (cases i)
    case 0
    then show ?thesis using len assms(4) by (simp add: chain_bytes_Cons)
  next
    case (Suc j)
    then have "j < length cs" using Cons.prems by simp
    moreover from this have "chain v cs" using Cons.prems chain_Cons [of v c cs] by fastforce
    ultimately have "chain v cs" "j < length cs" by auto
    from Cons.IH [OF this] show ?thesis using len Suc by (simp add: chain_bytes_Cons add.assoc)
  qed
qed simp

section \<open>\<^verbatim>\<open>Read\<close>\<close>

lemma div_mod_position:
  fixes r b i :: nat
  assumes "r < b"
  shows "(i * b + r) div b = i" "(i * b + r) mod b = r"
  using assms by simp_all

lemma read_loop_chain:
  assumes v: "volume_ok v" "chain v cs" and b: "b = bytes_per_cluster v"
  shows "p + (len - length buf) \<le> length (chain_bytes v cs) \<Longrightarrow> length buf \<le> len \<Longrightarrow>
    read_loop v len buf (cluster_no cs (p div b)) (p mod b) =
      (let q = p + (len - length buf) in
       Some (buf @ take (len - length buf) (drop p (chain_bytes v cs)), cluster_no cs (q div b), q mod b))"
proof (induction "len - length buf" arbitrary: buf p rule: less_induct)
  case less
  let ?i = "p div b" and ?off = "p mod b"
  have pos: "0 < b" using v(1) b by (simp add: volume_ok_def)
  show ?case
  proof (cases "length buf < len")
    case False
    then show ?thesis using less.prems(2) by (simp add: read_loop.simps [of v len buf] Let_def)
  next
    case True
    have size: "length (chain_bytes v cs) = length cs * b" using chain_bytes_length v b by simp
    have "p < length cs * b" using less.prems(1) True size by linarith
    then have i: "?i < length cs" using pos by (simp add: less_mult_imp_div_less)
    have off: "?off < b" using pos by simp
    let ?c = "cs ! ?i"
    have c: "is_data v ?c" using chain_data [OF v(2)] i by simp
    have clen: "length (cluster_at v ?c) = b" using cluster_at_length [OF v(1) c] b by simp
    have p: "p = ?i * b + ?off" by simp
    have data: "drop p (chain_bytes v cs) =
        drop ?off (cluster_at v ?c) @ drop ((?i + 1) * b) (chain_bytes v cs)"
      using drop_chain_bytes [OF v i, of ?off] off b by simp
    define n where "n = min (len - length buf) (b - ?off)"
    define buf1 where "buf1 = buf @ take n (drop ?off (cluster_at v ?c))"
    have len1: "length buf1 = length buf + n" using clen off by (simp add: buf1_def n_def)
    have n: "0 < n" "n \<le> len - length buf" using True off by (auto simp: n_def)
    have rest: "len - length buf1 = len - length buf - n" using len1 by simp
    have IH: "read_loop v len buf1 (cluster_no cs ((p + n) div b)) ((p + n) mod b) =
      (let q = p + (len - length buf) in
       Some (buf1 @ take (len - length buf - n) (drop (p + n) (chain_bytes v cs)), cluster_no cs (q div b), q mod b))"
      using less.hyps [of buf1 "p + n"] less.prems n len1 True rest by (auto simp: Let_def)
    have split: "take (len - length buf) (drop p (chain_bytes v cs)) =
        take n (drop ?off (cluster_at v ?c)) @ take (len - length buf - n) (drop (p + n) (chain_bytes v cs))"
    proof -
      have "take (len - length buf) (drop p (chain_bytes v cs)) =
          take n (drop p (chain_bytes v cs)) @ take (len - length buf - n) (drop (n + p) (chain_bytes v cs))"
        using n take_add [of n "len - length buf - n" "drop p (chain_bytes v cs)"] by simp
      moreover have "take n (drop p (chain_bytes v cs)) = take n (drop ?off (cluster_at v ?c))"
        unfolding data using clen by (simp add: n_def)
      ultimately show ?thesis by (simp add: add.commute)
    qed
    have step: "read_loop v len buf (cluster_no cs ?i) ?off =
        read_loop v len buf1 (cluster_no cs ((p + n) div b)) ((p + n) mod b)"
    proof (cases "?off + n = b")
      case True
      have "(?i + 1) * b = ?i * b + b" by simp
      then have "p + n = (?i + 1) * b" using True p by linarith
      then have "(p + n) div b = ?i + 1" "(p + n) mod b = 0" using pos by simp_all
      then show ?thesis
        using \<open>length buf < len\<close> c i next_cluster_no [OF v(2) i] True b
        by (simp add: read_loop.simps [of v len buf] cluster_no_def Let_def buf1_def n_def)
    next
      case False
      then have lt: "?off + n < b" using off by (simp add: n_def)
      have "p + n = ?i * b + (?off + n)" using p by linarith
      then have "(p + n) div b = ?i" "(p + n) mod b = ?off + n"
        using div_mod_position [OF lt, of ?i] by argo+
      then show ?thesis
        using \<open>length buf < len\<close> c i False b
        by (simp add: read_loop.simps [of v len buf] cluster_no_def Let_def buf1_def n_def)
    qed
    show ?thesis unfolding step IH Let_def split by (simp add: buf1_def)
  qed
qed

text \<open>A file: its entry, its clusters (none for an empty file) and its bytes.\<close>

definition file_ok :: "volume \<Rightarrow> dir_entry \<Rightarrow> nat list \<Rightarrow> bool" where
  "file_ok v e cs \<longleftrightarrow> volume_ok v \<and>
    (if first_cluster e = 0 then cs = [] \<and> file_size e = 0
     else chain v cs \<and> first_cluster e = hd cs \<and> file_size e \<le> length (chain_bytes v cs))"

definition file_bytes :: "volume \<Rightarrow> dir_entry \<Rightarrow> nat list \<Rightarrow> bytes" where
  "file_bytes v e cs = take (file_size e) (chain_bytes v cs)"

lemma file_bytes_length: "file_ok v e cs \<Longrightarrow> length (file_bytes v e cs) = file_size e"
  by (auto simp: file_ok_def file_bytes_def chain_bytes_def split: if_splits)

lemma load_file_bytes:
  assumes "file_ok v e cs"
  shows "load_file v (file_size e) e = Some (file_bytes v e cs)"
proof (cases "first_cluster e = 0")
  case True
  then show ?thesis
    using assms by (simp add: file_ok_def load_file_def load_loop.simps [of v 0 "[]" 0] file_bytes_def)
next
  case False
  then have "volume_ok v" "chain v cs" "first_cluster e = hd cs" using assms by (simp_all add: file_ok_def)
  from load_file_chain [OF this] show ?thesis by (simp add: file_bytes_def)
qed

text \<open>The reader's side of a descriptor stands at \<open>rd_off\<close>. \<open>rd_cluster\<close> 0 means that nothing was read.\<close>

definition reader_ok :: "volume \<Rightarrow> nat list \<Rightarrow> fat_fd \<Rightarrow> bool" where
  "reader_ok v cs fd \<longleftrightarrow>
    (\<exists>e. get_entry v (fat_entry fd) = Some e \<and> file_ok v e cs \<and> rd_off fd \<le> file_size e \<and>
      rd_cluster_off fd = rd_off fd mod bytes_per_cluster v \<and>
      (rd_cluster fd = cluster_no cs (rd_off fd div bytes_per_cluster v) \<or> rd_cluster fd = 0 \<and> rd_off fd = 0))"

lemma new_fd_reader_ok:
  "get_entry v r = Some e \<Longrightarrow> file_ok v e cs \<Longrightarrow> reader_ok v cs (new_fd r)"
  by (simp add: reader_ok_def new_fd_def)

lemma read_loop_len_zero: "len \<le> length buf \<Longrightarrow> read_loop v len buf c off = Some (buf, c, off)"
  by (simp add: read_loop.simps [of v len buf])

lemma fd_read_correct:
  assumes r: "reader_ok v cs fd" and e: "get_entry v (fat_entry fd) = Some e"
  shows "\<exists>fd'. fd_read v fd len = Some (take len (drop (rd_off fd) (file_bytes v e cs)), fd') \<and>
    reader_ok v cs fd' \<and> fat_entry fd' = fat_entry fd \<and>
    rd_off fd' = rd_off fd + length (take len (drop (rd_off fd) (file_bytes v e cs)))"
proof -
  let ?b = "bytes_per_cluster v" and ?p = "rd_off fd"
  define len1 where "len1 = min len (size_sub (file_size e) ?p)"
  define c where "c = (if rd_cluster fd = 0 then first_cluster e else rd_cluster fd)"
  have f: "file_ok v e cs" and off: "?p \<le> file_size e" "rd_cluster_off fd = ?p mod ?b"
    and rc: "rd_cluster fd = cluster_no cs (?p div ?b) \<or> rd_cluster fd = 0 \<and> ?p = 0"
    using r e by (auto simp: reader_ok_def)
  have len1: "len1 = min len (file_size e - ?p)" using off(1) by (simp add: len1_def size_sub_def)
  have bytes: "take len (drop ?p (file_bytes v e cs)) = take len1 (drop ?p (chain_bytes v cs))"
    by (simp add: file_bytes_def len1 drop_take min.commute)
  show ?thesis
  proof (cases "cs = []")
    case True
    then have z: "file_size e = 0" "first_cluster e = 0" using f by (auto simp: file_ok_def split: if_splits)
    then have "fd_read v fd len = Some ([], fd\<lparr>rd_cluster := c\<rparr>)"
      using e off by (simp add: fd_read_def Let_def size_sub_def read_loop_len_zero c_def)
    moreover have "reader_ok v cs (fd\<lparr>rd_cluster := c\<rparr>)"
      using e f off rc z True by (auto simp: reader_ok_def c_def cluster_no_def)
    ultimately show ?thesis using True by (simp add: file_bytes_def chain_bytes_def)
  next
    case False
    then have ch: "volume_ok v" "chain v cs" "first_cluster e = hd cs" "file_size e \<le> length (chain_bytes v cs)"
      using f by (auto simp: file_ok_def split: if_splits)
    have cc: "c = cluster_no cs (?p div ?b)"
      using rc ch(3) False data_not_end(1) [OF ch(1) chain_data [OF ch(2)], of "cs ! (?p div ?b)"]
      by (auto simp: c_def cluster_no_def hd_conv_nth end_of_clusterchain_def)
    have len: "length (take len1 (drop ?p (chain_bytes v cs))) = len1" using ch(4) off len1 by simp
    have "fd_read v fd len = Some (take len1 (drop ?p (chain_bytes v cs)),
        fd\<lparr>rd_cluster := cluster_no cs ((?p + len1) div ?b), rd_cluster_off := (?p + len1) mod ?b, rd_off := ?p + len1\<rparr>)"
      using read_loop_chain [OF ch(1,2) refl, of ?p len1 "[]"] ch(4) off len1 len
      unfolding fd_read_def e by (simp add: Let_def cc [symmetric] len1_def [symmetric] c_def [symmetric])
    moreover have "?p + len1 \<le> file_size e" using len1 off by simp
    ultimately show ?thesis using e f len by (simp add: bytes reader_ok_def)
  qed
qed

section \<open>\<^verbatim>\<open>Load\<close>\<close>

lemma load_seek_chain:
  assumes "volume_ok v" "chain v cs"
  shows "i * bytes_per_cluster v + offset \<le> length (chain_bytes v cs) \<Longrightarrow>
    load_seek v (cluster_no cs i) offset =
      Some (cluster_no cs (i + offset div bytes_per_cluster v), offset mod bytes_per_cluster v)"
proof (induction offset arbitrary: i rule: less_induct)
  case (less offset)
  let ?b = "bytes_per_cluster v"
  have pos: "0 < ?b" using assms(1) by (simp add: volume_ok_def)
  show ?case
  proof (cases "?b \<le> offset")
    case True
    have "(i + 1) * ?b \<le> length cs * ?b"
      using less.prems True chain_bytes_length [OF assms] by (simp add: algebra_simps)
    then have "i + 1 \<le> length cs" using pos mult_le_cancel2 by blast
    then have i: "i < length cs" by simp
    have "offset div ?b = Suc ((offset - ?b) div ?b)" "offset mod ?b = (offset - ?b) mod ?b"
      using True pos by (auto simp: le_div_geq le_mod_geq)
    moreover have "load_seek v (cluster_no cs (i + 1)) (offset - ?b) =
        Some (cluster_no cs (i + 1 + (offset - ?b) div ?b), (offset - ?b) mod ?b)"
      using less.IH [of "offset - ?b" "i + 1"] less.prems True pos by (simp add: algebra_simps)
    ultimately show ?thesis
      using True i next_cluster_no [OF assms(2) i]
      by (simp add: load_seek.simps [of v _ offset] cluster_no_def)
  next
    case False
    then show ?thesis by (simp add: load_seek.simps [of v _ offset])
  qed
qed

text \<open>\<^verbatim>\<open>FileDescriptor::Load(buf, len, offset)\<close> returns for every offset up to the size of the file,
  with the \<open>len\<close> bytes of the file at the offset, cut at its end. The bytes are those \<^verbatim>\<open>LoadFile\<close> reads
  along the cluster chain. The page fault handler maps files with it.\<close>

theorem fd_load_correct:
  assumes e: "get_entry v (fat_entry fd) = Some e" and f: "file_ok v e cs" and o: "offset \<le> file_size e"
  shows "\<exists>bs. load_file v (file_size e) e = Some bs \<and> length bs = file_size e \<and>
    fd_load v fd len offset = Some (take len (drop offset bs))"
proof (cases "cs = []")
  case True
  note bytes = load_file_bytes [OF f] file_bytes_length [OF f]
  have z: "first_cluster e = 0" "file_size e = 0" "0 < bytes_per_cluster v"
    using f True by (auto simp: file_ok_def volume_ok_def split: if_splits)
  have "reader_ok v cs (new_fd (fat_entry fd))" using new_fd_reader_ok [OF e f] .
  from fd_read_correct [OF this, of e len] show ?thesis
    using e o z bytes by (auto simp: fd_load_def load_seek.simps [of v 0 0] new_fd_def)
next
  case False
  let ?b = "bytes_per_cluster v"
  have ch: "volume_ok v" "chain v cs" "first_cluster e = hd cs" "file_size e \<le> length (chain_bytes v cs)"
    using f False by (auto simp: file_ok_def split: if_splits)
  let ?fd = "(new_fd (fat_entry fd))\<lparr>rd_off := offset, rd_cluster := cluster_no cs (offset div ?b), rd_cluster_off := offset mod ?b\<rparr>"
  have "reader_ok v cs ?fd" using e f o by (simp add: reader_ok_def new_fd_def)
  from fd_read_correct [OF this, of e len]
  obtain fd' where "fd_read v ?fd len = Some (take len (drop offset (file_bytes v e cs)), fd')"
    using e by (auto simp: new_fd_def)
  moreover have "load_seek v (first_cluster e) offset = Some (cluster_no cs (offset div ?b), offset mod ?b)"
    using load_seek_chain [OF ch(1,2), of 0 offset] ch o False by (simp add: cluster_no_def hd_conv_nth)
  ultimately have "fd_load v fd len offset = Some (take len (drop offset (file_bytes v e cs)))"
    by (simp add: fd_load_def e)
  then show ?thesis using load_file_bytes [OF f] file_bytes_length [OF f] by simp
qed

section \<open>The descriptor as a byte source\<close>

text \<open>Reading never changes the volume. Where \<open>fd_read\<close> does not return, the source has ended.\<close>

definition fat_read :: "volume \<times> fat_fd \<Rightarrow> nat \<Rightarrow> bytes \<times> (volume \<times> fat_fd)" where
  "fat_read s len = (case fd_read (fst s) (snd s) len of None \<Rightarrow> ([], s) | Some (bs, fd) \<Rightarrow> (bs, (fst s, fd)))"

definition fat_file :: "volume \<Rightarrow> fat_fd \<Rightarrow> bytes" where
  "fat_file v fd = the (do { e \<leftarrow> get_entry v (fat_entry fd); load_file v (file_size e) e })"

definition fat_rest :: "volume \<times> fat_fd \<Rightarrow> bytes" where
  "fat_rest s = drop (rd_off (snd s)) (fat_file (fst s) (snd s))"

definition fat_reader_ok :: "volume \<times> fat_fd \<Rightarrow> bool" where
  "fat_reader_ok s \<longleftrightarrow> (\<exists>cs. reader_ok (fst s) cs (snd s))"

lemma fat_file_bytes:
  assumes "get_entry v (fat_entry fd) = Some e" "file_ok v e cs"
  shows "fat_file v fd = file_bytes v e cs"
  by (simp add: fat_file_def assms(1) load_file_bytes [OF assms(2)])

lemma fat_read_spec:
  assumes "fat_reader_ok s"
  shows "fat_reader_ok (snd (fat_read s n)) \<and> fst (snd (fat_read s n)) = fst s \<and>
    fst (fat_read s n) = take n (fat_rest s) \<and>
    fat_entry (snd (snd (fat_read s n))) = fat_entry (snd s) \<and>
    rd_off (snd (snd (fat_read s n))) = rd_off (snd s) + length (take n (fat_rest s))"
proof -
  obtain v fd where s: "s = (v, fd)" by fastforce
  obtain cs e where r: "reader_ok v cs fd" and e: "get_entry v (fat_entry fd) = Some e" and f: "file_ok v e cs"
    using assms s by (auto simp: fat_reader_ok_def reader_ok_def)
  show ?thesis
    using fd_read_correct [OF r e, of n] fat_file_bytes [OF e f]
    by (auto simp: s fat_read_def fat_rest_def fat_reader_ok_def)
qed

interpretation fat_source: byte_source fat_read fat_rest fat_reader_ok
proof unfold_locales
  fix s n assume ok: "fat_reader_ok s"
  note spec = fat_read_spec [OF ok, of n]
  show "fst (fat_read s n) = take n (fat_rest s)" "fat_reader_ok (snd (fat_read s n))" using spec by auto
  have "fat_file (fst (snd (fat_read s n))) (snd (snd (fat_read s n))) = fat_file (fst s) (snd s)"
    using spec by (simp add: fat_file_def)
  then show "fat_rest (snd (fat_read s n)) = drop n (fat_rest s)"
    using spec
    by (cases "n \<le> length (fat_file (fst s) (snd s)) - rd_off (snd s)")
      (auto simp: fat_rest_def add.commute min_def)
qed

text \<open>\<^verbatim>\<open>ReadDelim\<close> on a file descriptor returns the file's next line, with its delimiter, cut to the
  buffer less one byte for the closing zero, and leaves the descriptor right behind it, so that a loop over
  \<^verbatim>\<open>ReadDelim\<close> hands out all bytes of the file in order; at the end of the file it returns nothing.\<close>

theorem fat_read_delim_line:
  assumes "fat_reader_ok (v, fd)"
  shows "\<exists>s. read_delim fat_read d len (v, fd) = (take (len - 1) (first_line d (fat_rest (v, fd))), s) \<and>
    fat_reader_ok s \<and> fat_rest (v, fd) = fst (read_delim fat_read d len (v, fd)) @ fat_rest s"
  using fat_source.read_delim_line [OF assms, of d len] take_first_line [of "len - 1" d "fat_rest (v, fd)"]
    append_take_drop_id [of "length (take (len - 1) (first_line d (fat_rest (v, fd))))" "fat_rest (v, fd)"]
  by (intro exI [of _ "snd (read_delim fat_read d len (v, fd))"]) (auto simp: prod_eq_iff simp del: length_take)

end
