(* ===== verification/Fat_Create.thy ===== *)
theory Fat_Create imports Fat_Chain Fat_Name begin

text \<open>
  Creating files: a file \<^verbatim>\<open>CreateFile\<close> made in the root directory is the one \<^verbatim>\<open>Findfile\<close> finds.
\<close>

section \<open>Entries in a cluster\<close>

lemma splice_length [simp]: "off + length new \<le> length bs \<Longrightarrow> length (splice off new bs) = length bs"
  by (simp add: splice_def)

lemma splice_nth:
  "off + length new \<le> length bs \<Longrightarrow> k < length bs \<Longrightarrow>
    splice off new bs ! k = (if off \<le> k \<and> k < off + length new then new ! (k - off) else bs ! k)"
  by (auto simp: splice_def nth_append)

lemma entries_length [simp]: "length (entries bs) = length bs div 32"
  by (simp add: entries_def)

lemma entries_nth: "i < length bs div 32 \<Longrightarrow> entries bs ! i = slice bs i"
  by (simp add: entries_def)

lemma entries_splice:
  assumes "length e = 32" "i < length bs div 32"
  shows "entries (splice (32 * i) e bs) = (entries bs)[i := e]"
proof -
  have room: "32 * i + 32 \<le> length bs" using assms(2) by linarith
  have slice: "slice (splice (32 * i) e bs) j = (if j = i then e else slice bs j)" if j: "j < length bs div 32" for j
  proof -
    have jroom: "32 * j + 32 \<le> length bs" using j by linarith
    show ?thesis
    proof (rule nth_equalityI)
      show "length (slice (splice (32 * i) e bs) j) = length (if j = i then e else slice bs j)"
        using assms room jroom by (simp add: slice_def)
      fix k assume "k < length (slice (splice (32 * i) e bs) j)"
      then have k: "k < 32" by (simp add: slice_def)
      have "slice bs' j ! k = bs' ! (32 * j + k)" if "length bs' = length bs" for bs' :: bytes
        using that k jroom by (simp add: slice_def)
      moreover have "(32 * i \<le> 32 * j + k \<and> 32 * j + k < 32 * i + 32) = (j = i)" using k by linarith
      ultimately show "slice (splice (32 * i) e bs) j ! k = (if j = i then e else slice bs j) ! k"
        using splice_nth [of "32 * i" e bs "32 * j + k"] assms room jroom k by simp
    qed
  qed
  show ?thesis
    by (rule nth_equalityI) (use assms room in \<open>simp_all add: entries_nth slice nth_list_update\<close>)
qed

lemma get_entry_cluster:
  assumes "is_data v c"
  shows "get_entry v (c, i) = (if i < length (cluster_at v c) div 32 then Some (entries (cluster_at v c) ! i) else None)"
proof -
  have "32 * i + 32 \<le> length (cluster_at v c) \<longleftrightarrow> i < length (cluster_at v c) div 32" by linarith
  then show ?thesis using assms by (simp add: get_entry_def entries_nth)
qed

lemma set_dir_entry_at:
  assumes "is_data v c" "i < length (cluster_at v c) div 32" "length e = 32"
  shows "entries (cluster_at (set_dir_entry (c, i) e v) c) = (entries (cluster_at v c))[i := e]"
    and "\<And>x. x \<noteq> c \<Longrightarrow> is_data v x \<Longrightarrow> cluster_at (set_dir_entry (c, i) e v) x = cluster_at v x"
    and "\<And>x. is_data (set_dir_entry (c, i) e v) x = is_data v x"
    and "\<And>x. next_cluster (set_dir_entry (c, i) e v) x = next_cluster v x"
proof -
  have c: "2 \<le> c" "c - 2 < length (data_clusters v)" using assms(1) by (auto simp: is_data_def)
  have s: "set_dir_entry (c, i) e v = set_cluster c (splice (32 * i) e (cluster_at v c)) v"
    using assms(1) by (simp add: set_dir_entry_def)
  show "entries (cluster_at (set_dir_entry (c, i) e v) c) = (entries (cluster_at v c))[i := e]"
    using c entries_splice [OF assms(3,2)] unfolding s by (simp add: set_cluster_def cluster_at_def)
  show "cluster_at (set_dir_entry (c, i) e v) x = cluster_at v x" if "x \<noteq> c" "is_data v x" for x
  proof -
    have "x - 2 \<noteq> c - 2" using that c by (auto simp: is_data_def)
    then show ?thesis unfolding s by (simp add: set_cluster_def cluster_at_def)
  qed
  show "is_data (set_dir_entry (c, i) e v) x = is_data v x" for x
    unfolding s by (simp add: set_cluster_def is_data_def)
  show "next_cluster (set_dir_entry (c, i) e v) x = next_cluster v x" for x
    unfolding s by (simp add: set_cluster_def next_cluster_def fat_at_def)
qed

section \<open>Scanning a directory\<close>

lemma scan_dir_found:
  "i < length es \<Longrightarrow> \<forall>j<i. es ! j ! 0 \<noteq> 0 \<and> \<not> name_is_equal (es ! j) name \<Longrightarrow>
    es ! i ! 0 \<noteq> 0 \<Longrightarrow> name_is_equal (es ! i) name \<Longrightarrow> scan_dir name es k = Found (k + i)"
proof (induction es arbitrary: i k)
  case (Cons e es)
  show ?case
  proof (cases i)
    case (Suc m)
    have "\<forall>j<m. es ! j ! 0 \<noteq> 0 \<and> \<not> name_is_equal (es ! j) name"
    proof (intro allI impI)
      fix j assume "j < m"
      then show "es ! j ! 0 \<noteq> 0 \<and> \<not> name_is_equal (es ! j) name" using Cons.prems(2) [rule_format, of "Suc j"] Suc by simp
    qed
    then show ?thesis
      using Cons.IH [of m "k + 1"] Cons.prems Cons.prems(2) [rule_format, of 0] Suc by simp
  qed (use Cons.prems in simp)
qed simp

lemma scan_dir_missed:
  "\<forall>i. scan_dir name es k \<noteq> Found i \<Longrightarrow> n \<le> length es \<Longrightarrow> \<forall>j<n. es ! j ! 0 \<noteq> 0 \<Longrightarrow>
    \<forall>j<n. \<not> name_is_equal (es ! j) name"
proof (induction es arbitrary: n k)
  case (Cons e es)
  show ?case
  proof (cases n)
    case (Suc m)
    then have e: "e ! 0 \<noteq> 0" using Cons.prems(3) by force
    then have "\<not> name_is_equal e name" "\<forall>i. scan_dir name es (k + 1) \<noteq> Found i"
      using Cons.prems(1) by (auto split: if_splits)
    moreover have "\<forall>j<m. es ! j ! 0 \<noteq> 0" using Cons.prems(3) Suc by force
    ultimately show ?thesis using Cons.IH [of "k + 1" m] Cons.prems(2) Suc by (auto simp: less_Suc_eq_0_disj)
  qed simp
qed simp

lemma scan_dir_go_on:
  "\<forall>j<length es. es ! j ! 0 \<noteq> 0 \<Longrightarrow> \<forall>i. scan_dir name es k \<noteq> Found i \<Longrightarrow> scan_dir name es k = Go_On"
proof (induction es arbitrary: k)
  case (Cons e es)
  have "e ! 0 \<noteq> 0" "\<forall>j<length es. es ! j ! 0 \<noteq> 0" using Cons.prems(1) by force+
  then show ?case using Cons.IH [of "k + 1"] Cons.prems(2) by (auto split: if_splits)
qed simp

lemma free_slot_Some:
  "free_slot es = Some i \<Longrightarrow> i < length es \<and> (\<forall>j<i. es ! j ! 0 \<noteq> 0)"
  by (auto simp: free_slot_def find_Some_iff)

lemma free_slot_None: "free_slot es = None \<Longrightarrow> \<forall>j<length es. es ! j ! 0 \<noteq> 0"
  by (auto simp: free_slot_def find_None_iff)

definition scan_at :: "volume \<Rightarrow> bytes \<Rightarrow> nat \<Rightarrow> scan" where
  "scan_at v name c = scan_dir name (entries (cluster_at v c)) 0"

lemma scan_chain_step:
  assumes "chain v (c # cs)" "volume_ok v"
  shows "scan_chain v name c =
    (case scan_at v name c of Found i \<Rightarrow> Some (Some (c, i)) | Dir_End \<Rightarrow> Some None
     | Go_On \<Rightarrow> if cs = [] then Some None else scan_chain v name (hd cs))"
proof -
  have c: "is_data v c" using assms(1) by (rule chain_data) simp
  show ?thesis
    using c chain_next [OF assms(1)] data_not_end [OF assms(2) c]
    by (auto simp: scan_chain.simps [of v name c] scan_chain.simps [of v name end_of_clusterchain] scan_at_def
        split: scan.splits)
qed

lemma scan_chain_found:
  assumes "volume_ok v"
  shows "chain v (xs @ c # ys) \<Longrightarrow> \<forall>x \<in> set xs. scan_at v name x = Go_On \<Longrightarrow> scan_at v name c = Found i \<Longrightarrow>
    scan_chain v name (hd (xs @ [c])) = Some (Some (c, i))"
proof (induction xs)
  case Nil
  then show ?case using scan_chain_step [OF _ assms] by simp
next
  case (Cons x xs)
  have "chain v (xs @ c # ys)" using Cons.prems(1) chain_suffix [of v "[x]" "xs @ c # ys"] by simp
  then have "scan_chain v name (hd (xs @ [c])) = Some (Some (c, i))" using Cons by simp
  moreover have "hd (xs @ c # ys) = hd (xs @ [c])" by (cases xs) auto
  ultimately show ?case using scan_chain_step [OF _ assms, of x "xs @ c # ys" name] Cons.prems by simp
qed

lemma scan_chain_missed:
  assumes "volume_ok v"
  shows "chain v cs \<Longrightarrow> scan_chain v name (hd cs) = Some None \<Longrightarrow> cs = xs @ ys \<Longrightarrow>
    \<forall>x \<in> set xs. free_slot (entries (cluster_at v x)) = None \<Longrightarrow>
    (\<forall>x \<in> set xs. scan_at v name x = Go_On) \<and> (ys \<noteq> [] \<longrightarrow> (\<forall>i. scan_at v name (hd ys) \<noteq> Found i))"
proof (induction cs arbitrary: xs)
  case (Cons c cs)
  note step = scan_chain_step [OF Cons.prems(1) assms, of name]
  have miss: "\<forall>i. scan_at v name c \<noteq> Found i" using step Cons.prems(2) by auto
  show ?case
  proof (cases xs)
    case Nil
    then show ?thesis using Cons.prems(3) miss by auto
  next
    case (Cons x xs')
    then have x: "x = c" "cs = xs' @ ys" using Cons.prems(3) by auto
    have "free_slot (entries (cluster_at v c)) = None" using Cons.prems(4) Cons x by simp
    from free_slot_None [OF this] have go: "scan_at v name c = Go_On"
      using miss unfolding scan_at_def by (intro scan_dir_go_on) auto
    show ?thesis
    proof (cases "cs = []")
      case True
      then show ?thesis using x Cons go by simp
    next
      case False
      then have "chain v cs" using Cons.prems(1) chain_Cons by blast
      moreover have "scan_chain v name (hd cs) = Some None" using step go False Cons.prems(2) by simp
      ultimately show ?thesis using Cons.IH x Cons Cons.prems(4) go by auto
    qed
  qed
qed simp

section \<open>\<^verbatim>\<open>AllocateEntry\<close>\<close>

lemma cluster_bytes_SomeD: "cluster_bytes v c = Some bs \<Longrightarrow> is_data v c"
  by (simp add: cluster_bytes_def is_data_def split: if_splits)

lemma allocate_entry_chain:
  assumes "volume_ok v"
  shows "chain v cs \<Longrightarrow> allocate_entry v (hd cs) = Some (v1, r) \<Longrightarrow>
    (\<exists>xs c ys i. cs = xs @ c # ys \<and> (\<forall>x \<in> set xs. free_slot (entries (cluster_at v x)) = None) \<and>
       free_slot (entries (cluster_at v c)) = Some i \<and> v1 = v \<and> r = (c, i)) \<or>
    (\<exists>c v0. (\<forall>x \<in> set cs. free_slot (entries (cluster_at v x)) = None) \<and>
       extend_cluster v (last cs) 1 = Some (v0, c) \<and> is_data v0 c \<and>
       v1 = set_cluster c (replicate (bytes_per_cluster v0) 0) v0 \<and> r = (c, 0))"
proof (induction cs)
  case (Cons c cs)
  have c: "is_data v c" using Cons.prems(1) by (rule chain_data) simp
  note next_c = chain_next [OF Cons.prems(1)] and alloc = allocate_entry.simps [of v c]
  show ?case
  proof (cases "free_slot (entries (cluster_at v c))")
    case (Some i)
    then have "v1 = v \<and> r = (c, i)" using Cons.prems(2) c by (simp add: alloc)
    then show ?thesis using Some by (intro disjI1 exI [of _ "[]"]) auto
  next
    case None
    show ?thesis
    proof (cases "cs = []")
      case True
      obtain v0 d where "extend_cluster v c 1 = Some (v0, d)" "is_data v0 d"
          "v1 = set_cluster d (replicate (bytes_per_cluster v0) 0) v0" "r = (d, 0)"
        using Cons.prems(2) c None next_c True
        by (auto simp: alloc bind_eq_Some_conv dest: cluster_bytes_SomeD)
      then show ?thesis using True None by (intro disjI2 exI [of _ d] exI [of _ v0]) simp
    next
      case False
      then have tail: "chain v cs" using Cons.prems(1) chain_Cons by blast
      then have "hd cs \<noteq> end_of_clusterchain"
        using data_not_end(2) [OF assms chain_data [OF tail]] by (metis chain_not_empty list.set_sel(1))
      then have "allocate_entry v (hd cs) = Some (v1, r)"
        using Cons.prems(2) c None next_c False by (simp add: alloc)
      from Cons.IH [OF tail this] show ?thesis
      proof (elim disjE exE conjE)
        fix xs d ys i
        assume "cs = xs @ d # ys" "\<forall>x \<in> set xs. free_slot (entries (cluster_at v x)) = None"
          "free_slot (entries (cluster_at v d)) = Some i" "v1 = v" "r = (d, i)"
        then show ?thesis using None by (intro disjI1 exI [of _ "c # xs"]) auto
      next
        fix d v0
        assume "\<forall>x \<in> set cs. free_slot (entries (cluster_at v x)) = None"
          "extend_cluster v (last cs) 1 = Some (v0, d)" "is_data v0 d"
          "v1 = set_cluster d (replicate (bytes_per_cluster v0) 0) v0" "r = (d, 0)"
        then show ?thesis using None False by (intro disjI2) auto
      qed
    qed
  qed
qed simp

section \<open>A created file is found\<close>

lemma extend_loop_None:
  assumes "length (free_clusters fat k) < n" "2 \<le> k" "length fat \<le> 0x0ffffff8"
    and "cur < k \<or> fat ! cur \<noteq> 0"
  shows "extend_loop fat cur n k = None"
  using assms
proof (induction fat cur n k rule: extend_loop.induct)
  case (1 fat cur n k)
  have n: "n \<noteq> 0" using 1(3) by auto
  show ?case
  proof (cases "k < length fat")
    case False
    then show ?thesis using n by (simp add: extend_loop.simps [of fat cur n k])
  next
    case k: True
    show ?thesis
    proof (cases "fat ! k = 0")
      case False
      then have "cur < k + 1 \<or> fat ! cur \<noteq> 0" using 1(6) by auto
      with 1(1) [OF n k False] 1(3-5) show ?thesis
        using False n k by (simp add: extend_loop.simps [of fat cur n k] free_clusters_Suc)
    next
      case True
      have "(of_nat k :: u32) \<noteq> 0" using 1(4,5) k by (intro of_nat_cluster_nonzero) auto
      then have upd: "free_clusters (fat[cur := of_nat k]) (Suc k) = free_clusters fat (Suc k)"
        using 1(6) by (intro free_clusters_update) auto
      have "\<not> fat ! k \<noteq> 0" using True by simp
      note IH = 1(2) [OF n k this]
      obtain m where "n = Suc m" using n by (cases n) auto
      then show ?thesis
        using IH 1(3-5) True k upd by (simp add: extend_loop.simps [of fat cur "Suc m" k] free_clusters_Suc)
    qed
  qed
qed

lemma extend_cluster_Some:
  assumes "volume_ok v" "chain v cs" "extend_cluster v (last cs) n = Some r"
  shows "length (new_clusters v n) = n"
proof (rule ccontr)
  assume "length (new_clusters v n) \<noteq> n"
  then have "length (free_clusters (fat_table v) 2) < n" by (auto simp: new_clusters_def)
  moreover have l: "last cs \<in> set cs" using assms(2) by simp
  ultimately have "extend_loop (fat_table v) (last cs) n 2 = None"
    using assms(1) chain_fat_nonzero [OF assms(2) l assms(1)]
    by (intro extend_loop_None) (auto simp: volume_ok_def)
  then show False using assms(3) last_cluster_chain [OF assms(2) l] by (simp add: extend_cluster_def)
qed

lemma volume_ok_set_entry:
  assumes "volume_ok v" "is_data v c" "i < length (cluster_at v c) div 32" "length e = 32"
  shows "volume_ok (set_dir_entry (c, i) e v)"
proof -
  have "length (splice (32 * i) e (cluster_at v c)) = bytes_per_cluster v"
    using assms(3,4) cluster_at_length [OF assms(1,2)] by (subst splice_length) auto
  then show ?thesis
    using assms(1,2) by (auto simp: volume_ok_def set_dir_entry_def set_cluster_def bytes_per_cluster_def
        dest!: set_update_subset_insert [THEN subsetD])
qed

lemma scan_new_entry:
  assumes v: "volume_ok v" "chain v (xs @ c # ys)" and miss: "\<forall>x \<in> set xs. scan_at v name x = Go_On"
    and i: "i < length (cluster_at v c) div 32"
    and before: "\<forall>j<i. entries (cluster_at v c) ! j ! 0 \<noteq> 0 \<and> \<not> name_is_equal (entries (cluster_at v c) ! j) name"
    and e: "length e = 32" "e ! 0 \<noteq> 0" "name_is_equal e name"
  shows "scan_chain (set_dir_entry (c, i) e v) name (hd (xs @ [c])) = Some (Some (c, i))"
proof -
  let ?v = "set_dir_entry (c, i) e v"
  have c: "is_data v c" using v(2) by (rule chain_data) simp
  note upd = set_dir_entry_at [OF c i e(1)]
  have "chain ?v (xs @ c # ys)"
    using c by (intro chain_cong [OF v(2)]) (auto simp: set_dir_entry_def set_cluster_def fat_at_def)
  moreover have "scan_at ?v name x = Go_On" if "x \<in> set xs" for x
  proof -
    have "x \<noteq> c" using chain_distinct [OF v(2)] that by auto
    moreover have "is_data v x" using v(2) by (rule chain_data) (use that in simp)
    ultimately show ?thesis using miss that upd(2) by (simp add: scan_at_def)
  qed
  moreover have "scan_at ?v name c = Found i"
    unfolding scan_at_def upd(1)
    using scan_dir_found [of i "(entries (cluster_at v c))[i := e]" name 0] i before e by simp
  ultimately show ?thesis
    using scan_chain_found [OF volume_ok_set_entry [OF v(1) c i e(1)]] by blast
qed

definition created_entry :: "bytes \<Rightarrow> dir_entry \<Rightarrow> dir_entry" where
  "created_entry name e = set_file_size 0 (set_file_name name e)"

lemma created_entry_facts:
  assumes "name_ok base ext" "length e = 32"
  shows "length (created_entry (dotted base ext) e) = 32" "created_entry (dotted base ext) e ! 0 \<noteq> 0"
    "name_is_equal (created_entry (dotted base ext) e) (dotted base ext)"
proof -
  let ?s = "set_file_name (dotted base ext) e"
  have len: "length base \<le> 8" "length ext \<le> 3" "base \<noteq> []" "0 \<notin> set base" using assms by (auto simp: name_ok_def)
  have s: "?s = pad 8 base @ pad 3 ext @ drop 11 e" by (rule set_file_name_padded [OF assms(1)])
  then have ls: "length ?s = 32" using assms(2) len by simp
  show "length (created_entry (dotted base ext) e) = 32"
    using ls by (simp add: created_entry_def set_file_size_def put16_def)
  have same: "created_entry (dotted base ext) e ! k = ?s ! k" if "k < 11" for k
    using that by (simp add: created_entry_def set_file_size_def put16_def)
  have take: "take 11 (created_entry (dotted base ext) e) = take 11 ?s"
    using ls by (intro nth_equalityI) (auto simp: created_entry_def set_file_size_def put16_def)
  show "name_is_equal (created_entry (dotted base ext) e) (dotted base ext)"
    using name_is_equal_set [OF assms(1), of e] by (simp add: name_is_equal_def entry_name_def take)
  obtain b bs where "base = b # bs" using len(3) by (cases base) auto
  then have "?s ! 0 = to_upper b" unfolding s by (simp add: pad_def)
  moreover have "to_upper b \<noteq> 0" using len(4) \<open>base = b # bs\<close> by simp
  ultimately show "created_entry (dotted base ext) e ! 0 \<noteq> 0" using same [of 0] by simp
qed

text \<open>Where \<^verbatim>\<open>AllocateEntry\<close> takes its slot, no entry that the scan for an absent name meets before it matches.\<close>

lemma allocated_slot:
  assumes v: "volume_ok v" "chain v cs" and miss: "scan_chain v p (hd cs) = Some None"
    and alloc: "allocate_entry v (hd cs) = Some (v1, (c, i))"
  shows "\<exists>xs ys. volume_ok v1 \<and> chain v1 (xs @ c # ys) \<and> hd (xs @ [c]) = hd cs \<and>
    root_cluster v1 = root_cluster v \<and> (\<forall>x \<in> set xs. scan_at v1 p x = Go_On) \<and>
    (\<forall>j<i. entries (cluster_at v1 c) ! j ! 0 \<noteq> 0 \<and> \<not> name_is_equal (entries (cluster_at v1 c) ! j) p)"
  using allocate_entry_chain [OF v(1,2) alloc]
proof (elim disjE exE conjE)
  fix xs d ys k
  assume a: "cs = xs @ d # ys" "\<forall>x \<in> set xs. free_slot (entries (cluster_at v x)) = None"
    "free_slot (entries (cluster_at v d)) = Some k" "v1 = v" "(c, i) = (d, k)"
  have m: "(\<forall>x \<in> set xs. scan_at v p x = Go_On) \<and> (\<forall>i. scan_at v p d \<noteq> Found i)"
    using scan_chain_missed [OF v(1,2) miss a(1,2)] by simp
  have k: "k < length (entries (cluster_at v d))" "\<forall>j<k. entries (cluster_at v d) ! j ! 0 \<noteq> 0"
    using free_slot_Some [OF a(3)] by auto
  then have "\<forall>j<k. \<not> name_is_equal (entries (cluster_at v d) ! j) p"
    using m by (intro scan_dir_missed [of p _ 0]) (auto simp: scan_at_def)
  moreover have "hd (xs @ [d]) = hd cs" using a(1) by (cases xs) auto
  ultimately show ?thesis using v a m k by blast
next
  fix d v0
  assume a: "\<forall>x \<in> set cs. free_slot (entries (cluster_at v x)) = None"
    "extend_cluster v (last cs) 1 = Some (v0, d)" "is_data v0 d"
    "v1 = set_cluster d (replicate (bytes_per_cluster v0) 0) v0" "(c, i) = (d, 0)"
  have one: "length (new_clusters v 1) = 1" by (rule extend_cluster_Some [OF v(1,2) a(2)])
  then obtain x where x: "new_clusters v 1 = [x]" by (auto simp: length_Suc_conv)
  have l: "last cs \<in> set cs" using v(2) by simp
  note links = extend_cluster_links [OF v(1,2) l one]
  have "d = x" using links a(2) x by simp
  have "is_data v d" using a(2,3) links by (auto simp: is_data_def)
  then have "\<forall>k \<in> set (new_clusters v 1). is_data v k" unfolding x using \<open>d = x\<close> by simp
  from extend_cluster_chain [OF v(1,2) l one this]
  have ext: "chain v0 (cs @ [d])" "data_clusters v0 = data_clusters v" "volume_ok v0"
    using a(2) x \<open>d = x\<close> by auto
  have root: "root_cluster v1 = root_cluster v" using links a(2,4) by (auto simp: set_cluster_def)
  have "\<forall>x \<in> set cs. scan_at v p x = Go_On"
    using scan_chain_missed [OF v(1,2) miss, of cs "[]"] a(1) by simp
  moreover have same: "cluster_at v1 y = cluster_at v y" if "y \<in> set cs" for y
  proof -
    have "y \<noteq> d" using chain_distinct [OF ext(1)] that by auto
    moreover have "2 \<le> y" "2 \<le> d" using chain_data [OF v(2) that] a(3) by (auto simp: is_data_def)
    ultimately have "y - 2 \<noteq> d - 2" by arith
    then show ?thesis using a(4) ext(2) by (simp add: set_cluster_def cluster_at_def)
  qed
  ultimately have go: "\<forall>x \<in> set cs. scan_at v1 p x = Go_On" by (simp add: scan_at_def)
  have "chain v1 (cs @ [d])"
    using a(4) by (intro chain_cong [OF ext(1)]) (auto simp: set_cluster_def fat_at_def)
  moreover have "volume_ok v1"
    using ext(3) a(4) by (auto simp: volume_ok_def set_cluster_def bytes_per_cluster_def
        dest!: set_update_subset_insert [THEN subsetD])
  moreover have "hd (cs @ [d]) = hd cs" using v(2) by (simp add: hd_append)
  ultimately show ?thesis using go root a(5) by auto
qed

lemma plain_path:
  assumes "name_ok base ext" "slash \<notin> set (dotted base ext)"
  shows "find_file v (dotted base ext) 0 =
      (case scan_chain v (dotted base ext) (unat (root_cluster v)) of
         None \<Rightarrow> None
       | Some None \<Rightarrow> Some (None, False)
       | Some (Some r) \<Rightarrow> (case get_entry v r of None \<Rightarrow> None | Some e \<Rightarrow> Some (Some r, False)))"
    and "split_path (dotted base ext) = ([], dotted base ext)"
proof -
  let ?p = "dotted base ext"
  have p: "?p \<noteq> []" "length ?p \<le> 12" using assms(1) by (auto simp: dotted_def name_ok_def)
  have "hd ?p \<noteq> slash" using p(1) assms(2) by (metis list.set_sel(1))
  then have "strip_root v ?p 0 = (unat (root_cluster v), ?p)" by (simp add: strip_root_def)
  moreover have tw: "takeWhile (\<lambda>b. b \<noteq> slash) ?p = ?p"
    using assms(2) by (intro takeWhile_eq_all_conv [THEN iffD2]) auto
  have "next_path_element ?p = Some (?p, None)"
    unfolding next_path_element_def Let_def tw using p(2) by simp
  ultimately show "find_file v ?p 0 =
      (case scan_chain v ?p (unat (root_cluster v)) of
         None \<Rightarrow> None
       | Some None \<Rightarrow> Some (None, False)
       | Some (Some r) \<Rightarrow> (case get_entry v r of None \<Rightarrow> None | Some e \<Rightarrow> Some (Some r, False)))"
    by (auto simp: find_file.simps [of v ?p 0] split: option.splits)
  show "split_path ?p = ([], ?p)" using assms(2) by (simp add: split_path_def)
qed

text \<open>C27: \<^verbatim>\<open>CreateFile\<close> of a name that fits an 8.3 entry and is not in the root directory, when it returns,
  returns an entry, and \<^verbatim>\<open>Findfile\<close> of the name on the new volume returns that entry. The entry may be
  a free slot of the directory or the first of a new cluster the directory was extended with. The new
  file has size 0.\<close>

theorem create_file_found:
  assumes v: "volume_ok v" "chain v cs" "hd cs = unat (root_cluster v)"
    and n: "name_ok base ext" "slash \<notin> set (dotted base ext)"
    and absent: "find_file v (dotted base ext) 0 = Some (None, s)"
    and create: "create_file v (dotted base ext) = Some (res, v')"
  shows "\<exists>r e. res = Inr r \<and> find_file v' (dotted base ext) 0 = Some (Some r, False) \<and>
    get_entry v' r = Some e \<and> file_size e = 0"
proof -
  let ?p = "dotted base ext"
  note path = plain_path [OF n]
  have miss: "scan_chain v ?p (hd cs) = Some None"
    using absent v(3) by (auto simp: path(1) split: option.splits)
  obtain v1 c i e where alloc: "allocate_entry v (hd cs) = Some (v1, (c, i))" and e: "get_entry v1 (c, i) = Some e"
    and res: "res = Inr (c, i)" and v': "v' = set_dir_entry (c, i) (created_entry ?p e) v1"
    using create n(2) v(3) by (auto simp: create_file_def path(2) bind_eq_Some_conv created_entry_def)
  obtain xs ys where v1: "volume_ok v1" "chain v1 (xs @ c # ys)" "hd (xs @ [c]) = hd cs" "root_cluster v1 = root_cluster v"
    and go: "\<forall>x \<in> set xs. scan_at v1 ?p x = Go_On"
    and before: "\<forall>j<i. entries (cluster_at v1 c) ! j ! 0 \<noteq> 0 \<and> \<not> name_is_equal (entries (cluster_at v1 c) ! j) ?p"
    using allocated_slot [OF v(1,2) miss alloc] by blast
  have c: "is_data v1 c" using v1(2) by (rule chain_data) simp
  then have i: "i < length (cluster_at v1 c) div 32" "e = entries (cluster_at v1 c) ! i"
    using e get_entry_cluster [of v1 c i] by (auto split: if_splits)
  then have len: "length e = 32" by (simp add: entries_nth slice_def)
  note new = created_entry_facts [OF n(1) len]
  have scan: "scan_chain v' ?p (hd cs) = Some (Some (c, i))"
    using scan_new_entry [OF v1(1,2) go i(1) before new] v1(3) v' by simp
  have upd: "entries (cluster_at v' c) = (entries (cluster_at v1 c))[i := created_entry ?p e]" "is_data v' c"
    using set_dir_entry_at [OF c i(1) new(1)] c v' by auto
  have "length (cluster_at v' c) div 32 = length (cluster_at v1 c) div 32" using arg_cong [OF upd(1), of length] by simp
  then have ge: "get_entry v' (c, i) = Some (created_entry ?p e)"
    using get_entry_cluster [OF upd(2), of i] upd(1) i(1) by simp
  have "root_cluster v' = root_cluster v" using v1(4) v' c by (simp add: set_dir_entry_def set_cluster_def)
  then have "find_file v' ?p 0 = Some (Some (c, i), False)" using scan ge v(3) by (simp add: path(1))
  moreover have "length (set_file_name ?p e) = 32" using set_file_name_padded [OF n(1)] len n(1) by (simp add: name_ok_def)
  then have "file_size (created_entry ?p e) = 0"
    by (simp add: created_entry_def file_size_def set_file_size_def put16_def le16_def)
  ultimately show ?thesis using ge res by blast
qed

end
