(* ===== verification/Fat_Write.thy ===== *)
theory Fat_Write imports Fat_Create Fat_Read begin

text \<open>
  Writing files: what a \<^verbatim>\<open>Write\<close> that fits the rest of the current cluster, or one new cluster, does.
  \<open>writer_ok v fd cs bs\<close> says that the descriptor has written \<open>bs\<close> and stands at its end.
\<close>

section \<open>Numbers in an entry\<close>

lemma le16_put16 [simp]:
  assumes "i + 1 < length bs"
  shows "le16 (put16 i w bs) i = w AND 0xffff"
proof -
  have "ucast (ucast w :: u8) OR push_bit 8 (ucast (ucast (drop_bit 8 w) :: u8)) = w AND (mask 16 :: u32)"
    by (rule bit_word_eqI)
      (auto simp: bit_or_iff bit_push_bit_iff bit_unsigned_iff bit_and_iff bit_mask_iff bit_drop_bit_eq)
  moreover have "(mask 16 :: u32) = 0xffff" by (simp add: mask_eq_exp_minus_1)
  ultimately show ?thesis using assms by (simp add: le16_def put16_def)
qed

lemma le16_put16_other [simp]:
  "i + 1 < j \<or> j + 1 < i \<Longrightarrow> le16 (put16 j w bs) i = le16 bs i"
  by (auto simp: le16_def put16_def)

lemma put16_length [simp]: "length (put16 i w bs) = length bs"
  by (simp add: put16_def)

lemma low_high_u32: "(w AND 0xffff) OR push_bit 16 (drop_bit 16 w AND 0xffff) = (w :: u32)"
proof -
  have "(w AND mask 16) OR push_bit 16 (drop_bit 16 w AND mask 16) = w"
    by (rule bit_word_eqI)
      (auto simp: bit_or_iff bit_push_bit_iff bit_and_iff bit_mask_iff bit_drop_bit_eq dest: bit_imp_le_length)
  then show ?thesis by (simp add: mask_eq_exp_minus_1)
qed

lemmas low_high_u32_simps [simp] = low_high_u32 [simplified]

lemma set_file_size_facts:
  assumes "length e = 32" "n < 2 ^ 32"
  shows "file_size (set_file_size n e) = n" "first_cluster (set_file_size n e) = first_cluster e"
    "length (set_file_size n e) = 32" "take 12 (set_file_size n e) = take 12 e"
proof -
  show "file_size (set_file_size n e) = n" using assms by (simp add: file_size_def set_file_size_def)
  show "first_cluster (set_file_size n e) = first_cluster e" by (simp add: first_cluster_def set_file_size_def)
qed (use assms in \<open>simp_all add: set_file_size_def put16_def\<close>)

lemma set_first_cluster_facts:
  assumes "length e = 32" "n < 2 ^ 32"
  shows "first_cluster (set_first_cluster n e) = n" "length (set_first_cluster n e) = 32"
    "take 12 (set_first_cluster n e) = take 12 e"
proof -
  have "(of_nat n AND 0xffff) AND 0xffff = (of_nat n AND 0xffff :: u32)"
    "(drop_bit 16 (of_nat n) AND 0xffff) AND 0xffff = (drop_bit 16 (of_nat n) AND 0xffff :: u32)"
    by (simp_all add: and.assoc)
  then show "first_cluster (set_first_cluster n e) = n"
    using assms by (simp add: first_cluster_def set_first_cluster_def)
qed (use assms in \<open>simp_all add: set_first_cluster_def put16_def\<close>)

section \<open>Writing into one cluster\<close>

lemma write_loop_done: "write_loop v buf len len c off = Some (v, len, c, off)"
  by (simp add: write_loop.simps [of v buf len len])

lemma write_loop_one:
  assumes "0 < len" "off + len \<le> bytes_per_cluster v" "is_data v c"
  shows "write_loop v buf len 0 c off =
    Some (set_cluster c (splice off (map buf [0..<len]) (cluster_at v c)) v, len, c, off + len)"
  using assms
  by (simp add: write_loop.simps [of v buf len 0] write_loop_done Let_def)

lemma set_cluster_facts:
  assumes "is_data v c"
  shows "cluster_at (set_cluster c bs v) c = bs"
    and "\<And>x. x \<noteq> c \<Longrightarrow> 2 \<le> x \<Longrightarrow> cluster_at (set_cluster c bs v) x = cluster_at v x"
    and "\<And>x. is_data (set_cluster c bs v) x = is_data v x"
    and "\<And>cs. chain (set_cluster c bs v) cs = chain v cs"
    and "bytes_per_cluster (set_cluster c bs v) = bytes_per_cluster v"
    and "volume_ok v \<Longrightarrow> length bs = bytes_per_cluster v \<Longrightarrow> volume_ok (set_cluster c bs v)"
proof -
  have c: "2 \<le> c" "c - 2 < length (data_clusters v)" using assms by (auto simp: is_data_def)
  show "cluster_at (set_cluster c bs v) c = bs" using c by (simp add: set_cluster_def cluster_at_def)
  show "cluster_at (set_cluster c bs v) x = cluster_at v x" if "x \<noteq> c" "2 \<le> x" for x
  proof -
    have "x - 2 \<noteq> c - 2" using that c by arith
    then show ?thesis by (simp add: set_cluster_def cluster_at_def)
  qed
  show "is_data (set_cluster c bs v) x = is_data v x" for x by (simp add: set_cluster_def is_data_def)
  show "chain (set_cluster c bs v) cs = chain v cs" for cs
    using chain_cong [of "set_cluster c bs v" cs v] chain_cong [of v cs "set_cluster c bs v"]
    by (auto simp: set_cluster_def fat_at_def)
  show "bytes_per_cluster (set_cluster c bs v) = bytes_per_cluster v"
    by (simp add: set_cluster_def bytes_per_cluster_def)
  show "volume_ok (set_cluster c bs v)" if "volume_ok v" "length bs = bytes_per_cluster v"
    using that by (auto simp: volume_ok_def set_cluster_def bytes_per_cluster_def
        dest!: set_update_subset_insert [THEN subsetD])
qed

lemma chain_bytes_cong:
  "\<forall>x \<in> set cs. cluster_at v' x = cluster_at v x \<Longrightarrow> chain_bytes v' cs = chain_bytes v cs"
  unfolding chain_bytes_def by (metis map_eq_conv)

text \<open>The bytes written so far are those of the file, its last cluster is the current one, and the
  directory entry is in a cluster of another chain.\<close>

definition writer_ok :: "volume \<Rightarrow> fat_fd \<Rightarrow> nat list \<Rightarrow> bytes \<Rightarrow> bool" where
  "writer_ok v fd cs bs \<longleftrightarrow>
    (\<exists>e. get_entry v (fat_entry fd) = Some e \<and> length e = 32 \<and> chain v cs \<and> first_cluster e = hd cs \<and>
      file_size e = length bs \<and> bs = take (length bs) (chain_bytes v cs) \<and> volume_ok v \<and>
      wr_off fd = length bs \<and> wr_cluster fd = last cs \<and> wr_cluster_off fd \<le> bytes_per_cluster v \<and>
      length bs = (length cs - 1) * bytes_per_cluster v + wr_cluster_off fd \<and>
      (\<exists>ds. chain v ds \<and> fst (fat_entry fd) \<in> set ds \<and> set ds \<inter> set cs = {}))"

text \<open>The data of a chain after its last cluster was written at its current end.\<close>

lemma chain_bytes_write:
  assumes "volume_ok v" "chain v (xs @ [l])" "off + length new \<le> bytes_per_cluster v"
    and "bs = take (length bs) (chain_bytes v (xs @ [l]))"
    and "length bs = length xs * bytes_per_cluster v + off"
  shows "take (length bs + length new) (chain_bytes (set_cluster l (splice off new (cluster_at v l)) v) (xs @ [l])) = bs @ new"
proof -
  let ?b = "bytes_per_cluster v" and ?v = "set_cluster l (splice off new (cluster_at v l)) v"
  have l: "is_data v l" using assms(2) by (rule chain_data) simp
  have x: "cluster_at ?v x = cluster_at v x" if "x \<in> set xs" for x
  proof (rule set_cluster_facts(2) [OF l])
    show "x \<noteq> l" using chain_distinct [OF assms(2)] that by auto
    show "2 \<le> x" using chain_data [OF assms(2), of x] that by (simp add: is_data_def)
  qed
  have xs: "length (chain_bytes v xs) = length xs * ?b"
  proof (cases "xs = []")
    case False
    have len: "length (cluster_at v x) = ?b" if "x \<in> set xs" for x
      using cluster_at_length [OF assms(1) chain_data [OF assms(2)]] that by simp
    have "length (chain_bytes v ys) = length ys * ?b" if "set ys \<subseteq> set xs" for ys
      using that by (induction ys) (auto simp: chain_bytes_def len)
    then show ?thesis by simp
  qed (simp add: chain_bytes_def)
  have old: "bs = chain_bytes v xs @ take off (cluster_at v l)"
    using assms(4,5) xs by (simp add: chain_bytes_def)
  have "chain_bytes ?v (xs @ [l]) = chain_bytes v xs @ splice off new (cluster_at v l)"
    using chain_bytes_cong [of xs ?v v] x set_cluster_facts(1) [OF l] by (simp add: chain_bytes_def)
  moreover have "take (off + length new) (splice off new (cluster_at v l)) = take off (cluster_at v l) @ new"
    using cluster_at_length [OF assms(1) l] assms(3) by (simp add: splice_def)
  ultimately show ?thesis using assms(5) xs by (subst (2) old) simp
qed

section \<open>\<^verbatim>\<open>Write\<close> appends\<close>

lemma set_dir_entry_facts:
  assumes "volume_ok v" "is_data v (fst r)" "get_entry v r = Some e" "length e' = 32"
  shows "get_entry (set_dir_entry r e' v) r = Some e'"
    and "\<And>x. x \<noteq> fst r \<Longrightarrow> is_data v x \<Longrightarrow> cluster_at (set_dir_entry r e' v) x = cluster_at v x"
    and "\<And>cs. chain (set_dir_entry r e' v) cs = chain v cs"
    and "volume_ok (set_dir_entry r e' v)"
    and "bytes_per_cluster (set_dir_entry r e' v) = bytes_per_cluster v"
proof -
  obtain c i where r: "r = (c, i)" by fastforce
  have i: "i < length (cluster_at v c) div 32"
    using assms(2,3) r get_entry_cluster [of v c i] by (auto split: if_splits)
  have c: "is_data v c" using assms(2) r by simp
  note at = set_dir_entry_at [OF c i assms(4)]
  have s: "set_dir_entry r e' v = set_cluster c (splice (32 * i) e' (cluster_at v c)) v"
    using c r by (simp add: set_dir_entry_def)
  have "length (cluster_at (set_dir_entry (c, i) e' v) c) div 32 = length (cluster_at v c) div 32"
    using arg_cong [OF at(1), of length] by simp
  then show "get_entry (set_dir_entry r e' v) r = Some e'"
    using get_entry_cluster [of "set_dir_entry (c, i) e' v" c i] at(1,3) c i r by simp
  show "cluster_at (set_dir_entry r e' v) x = cluster_at v x" if "x \<noteq> fst r" "is_data v x" for x
    using at(2) that r by simp
  show "chain (set_dir_entry r e' v) cs = chain v cs" for cs
    unfolding s by (rule set_cluster_facts(4) [OF c])
  show "volume_ok (set_dir_entry r e' v)" using volume_ok_set_entry [OF assms(1) c i assms(4)] r by simp
  show "bytes_per_cluster (set_dir_entry r e' v) = bytes_per_cluster v"
    unfolding s by (rule set_cluster_facts(5) [OF c])
qed

text \<open>The last step of \<^verbatim>\<open>Write\<close>: the data is in place and the size is stored.\<close>

lemma writer_ok_size:
  assumes v: "volume_ok v" "chain v cs" and e: "get_entry v (fat_entry fd) = Some e" "length e = 32" "first_cluster e = hd cs"
    and bs: "bs = take (length bs) (chain_bytes v cs)" "length bs < 2 ^ 32"
      "length bs = (length cs - 1) * bytes_per_cluster v + off" "off \<le> bytes_per_cluster v"
    and ds: "chain v ds" "fst (fat_entry fd) \<in> set ds" "set ds \<inter> set cs = {}"
  shows "writer_ok (set_dir_entry (fat_entry fd) (set_file_size (length bs) e) v)
    (fd\<lparr>wr_off := length bs, wr_cluster := last cs, wr_cluster_off := off\<rparr>) cs bs"
proof -
  let ?v = "set_dir_entry (fat_entry fd) (set_file_size (length bs) e) v"
  have d: "is_data v (fst (fat_entry fd))" using chain_data [OF ds(1,2)] .
  note size = set_file_size_facts [OF e(2) bs(2)]
  note upd = set_dir_entry_facts [OF v(1) d e(1) size(3)]
  have "chain_bytes ?v cs = chain_bytes v cs"
  proof (rule chain_bytes_cong, rule ballI)
    fix x assume "x \<in> set cs"
    then show "cluster_at ?v x = cluster_at v x" using upd(2) [of x] ds(2,3) chain_data [OF v(2)] by auto
  qed
  then show ?thesis
    unfolding writer_ok_def using upd size v e(3) bs ds by (intro exI [of _ "set_file_size (length bs) e"]) auto
qed

lemma set_cluster_get_entry:
  assumes "is_data v c" "fst r \<noteq> c" "2 \<le> fst r"
  shows "get_entry (set_cluster c bs v) r = get_entry v r"
proof -
  have "fst r - 2 \<noteq> c - 2" using assms by (auto simp: is_data_def)
  then show ?thesis by (simp add: get_entry_def cluster_bytes_def set_cluster_def)
qed

text \<open>Data written into the last cluster of the chain, then the size stored.\<close>

lemma write_last_cluster:
  assumes v: "volume_ok v" "chain v cs" and e: "get_entry v (fat_entry fd) = Some e" "length e = 32" "first_cluster e = hd cs"
    and bs: "bs = take (length bs) (chain_bytes v cs)" "length bs + len < 2 ^ 32"
      "length bs = (length cs - 1) * bytes_per_cluster v + off" "off + len \<le> bytes_per_cluster v"
    and ds: "chain v ds" "fst (fat_entry fd) \<in> set ds" "set ds \<inter> set cs = {}"
    and v2: "v2 = set_cluster (last cs) (splice off (map buf [0..<len]) (cluster_at v (last cs))) v"
  shows "get_entry v2 (fat_entry fd) = Some e \<and>
    writer_ok (set_dir_entry (fat_entry fd) (set_file_size (length bs + len) e) v2)
      (fd\<lparr>wr_off := length bs + len, wr_cluster := last cs, wr_cluster_off := off + len\<rparr>) cs (bs @ map buf [0..<len])"
proof -
  obtain xs l where cs: "cs = xs @ [l]" using v(2) by (metis chain_not_empty rev_exhaust)
  have l: "is_data v l" using v(2) cs by (auto intro: chain_data)
  note upd = set_cluster_facts [OF l, where bs = "splice off (map buf [0..<len]) (cluster_at v l)"]
  have len: "length (splice off (map buf [0..<len]) (cluster_at v l)) = bytes_per_cluster v"
    using bs(4) cluster_at_length [OF v(1) l] by (subst splice_length) auto
  have v2': "v2 = set_cluster l (splice off (map buf [0..<len]) (cluster_at v l)) v" using v2 cs by simp
  have "take (length bs + length (map buf [0..<len])) (chain_bytes v2 cs) = bs @ map buf [0..<len]"
    unfolding v2' cs using v(1,2) bs cs by (intro chain_bytes_write) auto
  then have data: "bs @ map buf [0..<len] = take (length (bs @ map buf [0..<len])) (chain_bytes v2 cs)" by simp
  have "2 \<le> fst (fat_entry fd)" using chain_data [OF ds(1,2)] by (simp add: is_data_def)
  moreover have "fst (fat_entry fd) \<noteq> l" using ds(2,3) cs by auto
  ultimately have ge: "get_entry v2 (fat_entry fd) = Some e"
    using set_cluster_get_entry [OF l] e(1) v2' by simp
  have "volume_ok v2" "chain v2 cs" "chain v2 ds" using upd(4,6) v len ds(1) v2' by simp_all
  from writer_ok_size [OF this(1,2) ge e(2,3) data _ _ _ this(3) ds(2,3), of "off + len"] show ?thesis
    using ge bs upd(5) v2' by (simp add: add.assoc)
qed

text \<open>A write fits when it ends within the current cluster, or begins at its end and needs one more.\<close>

definition write_fits :: "volume \<Rightarrow> fat_fd \<Rightarrow> nat \<Rightarrow> bool" where
  "write_fits v fd len \<longleftrightarrow> 0 < len \<and> wr_off fd + len < 2 ^ 32 \<and>
    (if wr_cluster_off fd = bytes_per_cluster v
     then len \<le> bytes_per_cluster v \<and> length (new_clusters v 1) = 1 \<and> (\<forall>c \<in> set (new_clusters v 1). is_data v c)
     else wr_cluster_off fd + len \<le> bytes_per_cluster v)"

lemma num_cluster_one: "0 < len \<Longrightarrow> len \<le> bytes_per_cluster v \<Longrightarrow> num_cluster v len = 1"
  by (simp add: num_cluster_def div_nat_eqI)

text \<open>The chain of a file, grown by one cluster.\<close>

lemma extend_for_write:
  assumes v: "volume_ok v" "chain v cs"
    and new: "length (new_clusters v 1) = 1" "\<forall>c \<in> set (new_clusters v 1). is_data v c"
    and ds: "chain v ds" "set ds \<inter> set cs = {}" and bs: "bs = take (length bs) (chain_bytes v cs)"
  shows "\<exists>v1 d. extend_cluster v (last cs) 1 = Some (v1, d) \<and> chain v1 (cs @ [d]) \<and> volume_ok v1 \<and>
    data_clusters v1 = data_clusters v \<and> chain v1 ds \<and> set ds \<inter> set (cs @ [d]) = {} \<and>
    bytes_per_cluster v1 = bytes_per_cluster v \<and> is_data v1 d \<and>
    next_cluster v (last cs) = Some end_of_clusterchain \<and> bs = take (length bs) (chain_bytes v1 (cs @ [d]))"
proof -
  obtain d where d: "new_clusters v 1 = [d]" using new(1) by (auto simp: length_Suc_conv)
  have lc: "last cs \<in> set cs" using v(2) by simp
  obtain v1 where v1: "extend_cluster v (last cs) 1 = Some (v1, d)" "chain v1 (cs @ [d])" "volume_ok v1"
      "data_clusters v1 = data_clusters v" "chain v1 ds"
    using extend_cluster_chain [OF v lc new] ds d by auto
  have b1: "bytes_per_cluster v1 = bytes_per_cluster v"
    using v1(1) extend_cluster_links [OF v lc new(1)] by (auto simp: bytes_per_cluster_def)
  have same: "cluster_at v1 = cluster_at v" by (simp add: fun_eq_iff cluster_at_def v1(4))
  have bytes: "chain_bytes v1 (cs @ [d]) = chain_bytes v cs @ cluster_at v d"
    by (simp add: chain_bytes_def same)
  have "length bs \<le> length (chain_bytes v cs)" using bs by (metis length_take min.cobounded1 min.commute)
  then have bs1: "bs = take (length bs) (chain_bytes v1 (cs @ [d]))" using bs by (simp add: bytes)
  have "fat_table v ! d = 0" using new_clusters_facts(2) [of d v 1] d by simp
  then have "d \<notin> set ds" using chain_fat_nonzero(2) [OF ds(1) _ v(1)] by blast
  then have disj: "set ds \<inter> set (cs @ [d]) = {}" using ds(2) by auto
  have "cs = butlast cs @ [last cs]" using v(2) by simp
  then have "chain v [last cs]" using v(2) chain_suffix [of v "butlast cs" "[last cs]"] by simp
  from chain_next [OF this] have "next_cluster v (last cs) = Some end_of_clusterchain" by simp
  moreover have "is_data v1 d" using v1(2) by (rule chain_data) simp
  ultimately show ?thesis using v1 b1 disj bs1 by blast
qed


end
