(* ===== verification/Fat_Sample.thy ===== *)
theory Fat_Sample imports Fat_Write begin

text \<open>
  A small volume on which the theorems about the file system apply, and what the code does on it where it
  does not do what it means to.
\<close>

section \<open>A sample volume\<close>

text \<open>Five clusters of 32 bytes: the root directory in cluster 2, with one file of 40 bytes in the
  clusters 3 and 4, and the clusters 5 and 6 free.\<close>

definition sample_entry :: dir_entry where
  "sample_entry = set_file_size 40 (set_first_cluster 3 (set_file_name [0x61, dot, 0x74, 0x78, 0x74] (replicate 32 0)))"

definition sample_volume :: volume where
  "sample_volume = \<lparr>jump_boot = [], oem_name = [], bytes_per_sector = 32, sectors_per_cluster = 1,
     reserved_sector_count = 1, num_fats = 1, root_entry_count = 0, total_sectors_16 = 0, media = 0,
     fat_size_16 = 0, sectors_per_track = 0, num_heads = 0, hidden_sectors = 0, total_sectors_32 = 7,
     fat_size_32 = 1, ext_flags = 0, fs_version = 0, root_cluster = 2, fs_info = 0, backup_boot_sector = 0,
     reserved_bytes = [], drive_number = 0, reserved1 = 0, boot_signature = 0, volume_id = 0,
     volume_label = [], fs_type = [],
     fat_table = [0x0ffffff8, 0x0fffffff, 0x0fffffff, 4, 0x0fffffff, 0, 0],
     data_clusters = [sample_entry, [1, 2, 0x0a] @ replicate 29 0x33, [4, 0x0a] @ replicate 30 0x44,
       replicate 32 0, replicate 32 0]\<rparr>"

lemma sample_entry_eq:
  "sample_entry = [0x41, 0x20, 0x20, 0x20, 0x20, 0x20, 0x20, 0x20, 0x54, 0x58, 0x54, 0, 0, 0, 0, 0, 0, 0, 0, 0,
    0, 0, 0, 0, 0, 0, 3, 0, 40, 0, 0, 0]"
  by code_simp

lemma sample_volume_ok: "volume_ok sample_volume"
  by (simp add: volume_ok_def sample_volume_def bytes_per_cluster_def sample_entry_eq)

lemma sample_chains: "chain sample_volume [2]" "chain sample_volume [3, 4]"
  by (simp_all add: is_data_def fat_at_def sample_volume_def is_end_of_cluster_chain_def)

lemmas sample_defs = sample_volume_def sample_entry_eq

lemma sample_sizes: "bytes_per_cluster sample_volume = 32" "root_cluster sample_volume = 2"
  by (simp_all add: bytes_per_cluster_def sample_volume_def)

lemma sample_get_entry: "get_entry sample_volume (2, 0) = Some sample_entry"
  by (simp add: get_entry_def cluster_bytes_def slice_def sample_defs)

lemma sample_entry_facts:
  "first_cluster sample_entry = 3" "file_size sample_entry = 40" "length sample_entry = 32"
  by (simp_all add: first_cluster_def file_size_def le16_def sample_entry_eq)

lemma sample_new_clusters:
  "new_clusters sample_volume 1 = [5]" "new_clusters sample_volume 2 = [5, 6]"
  by (simp_all add: new_clusters_def free_clusters_def sample_volume_def upt_rec)

lemma sample_is_data: "is_data sample_volume c \<longleftrightarrow> 2 \<le> c \<and> c < 7"
  by (auto simp: is_data_def sample_volume_def)

lemma sample_bytes: "chain_bytes sample_volume [3, 4] = [1, 2, 0x0a] @ replicate 29 0x33 @ [4, 0x0a] @ replicate 30 0x44"
  by (simp add: chain_bytes_def cluster_at_def sample_volume_def)

lemma sample_file_ok: "file_ok sample_volume sample_entry [3, 4]"
  using sample_volume_ok sample_chains by (simp add: file_ok_def sample_entry_facts sample_bytes)

theorem extend_cluster_appends_witness:
  "\<exists>v'. extend_cluster sample_volume 3 2 = Some (v', 6) \<and> chain v' [3, 4, 5, 6] \<and> chain v' [2] \<and>
     data_clusters v' = data_clusters sample_volume"
proof -
  have "3 \<in> set [3, 4 :: nat]" "length (new_clusters sample_volume 2) = 2"
    "\<forall>k \<in> set (new_clusters sample_volume 2). is_data sample_volume k"
    by (simp_all add: sample_new_clusters sample_is_data)
  from extend_cluster_appends [OF sample_volume_ok sample_chains(2) this]
  obtain v' where "extend_cluster sample_volume 3 2 = Some (v', 6)" "chain v' [3, 4, 5, 6]"
      "data_clusters v' = data_clusters sample_volume" "\<forall>ds. chain sample_volume ds \<longrightarrow> set ds \<inter> {3, 4} = {} \<longrightarrow> chain v' ds"
    by (auto simp: sample_new_clusters simp del: chain.simps)
  moreover from this(4) have "chain v' [2]" using sample_chains(1) by (simp del: chain.simps)
  ultimately show ?thesis by blast
qed

theorem fd_load_correct_witness:
  "fd_load sample_volume (new_fd (2, 0)) 4 31 = Some [0x33, 4, 0x0a, 0x44]"
proof -
  have "get_entry sample_volume (fat_entry (new_fd (2, 0))) = Some sample_entry"
    using sample_get_entry by (simp add: new_fd_def)
  from fd_load_correct [OF this sample_file_ok, of 31 4] load_file_bytes [OF sample_file_ok]
  show ?thesis by (simp add: sample_entry_facts file_bytes_def sample_bytes)
qed

lemma sample_reader_ok: "fat_reader_ok (sample_volume, new_fd (2, 0))"
  using new_fd_reader_ok [OF sample_get_entry sample_file_ok] by (auto simp: fat_reader_ok_def)

lemma sample_rest: "fat_rest (sample_volume, new_fd (2, 0)) = [1, 2, 0x0a] @ replicate 29 0x33 @ [4, 0x0a] @ replicate 6 0x44"
proof -
  have "get_entry sample_volume (fat_entry (new_fd (2, 0))) = Some sample_entry"
    using sample_get_entry by (simp add: new_fd_def)
  from fat_file_bytes [OF this sample_file_ok] show ?thesis
    by (simp add: fat_rest_def new_fd_def file_bytes_def sample_bytes sample_entry_facts)
qed

theorem fat_read_delim_line_witness:
  "fst (read_delim fat_read 0x0a 16 (sample_volume, new_fd (2, 0))) = [1, 2, 0x0a]"
  using fat_read_delim_line [OF sample_reader_ok, where d = "0x0a" and len = 16] by (auto simp: sample_rest)

definition sample_writer :: fat_fd where
  "sample_writer = (new_fd (2, 0))\<lparr>wr_off := 40, wr_cluster := 4, wr_cluster_off := 8\<rparr>"


lemma sample_root: "entries (cluster_at sample_volume 2) = [sample_entry]"
  by (simp add: cluster_at_def sample_volume_def entries_def slice_def sample_entry_facts)

text \<open>The root directory is full, so a new entry comes with a new cluster.\<close>

lemma sample_allocate:
  "\<exists>v1 e. allocate_entry sample_volume 2 = Some (v1, (5, 0)) \<and> get_entry v1 (5, 0) = Some e"
proof -
  let ?v0 = "sample_volume\<lparr>fat_table := link_chain (fat_table sample_volume) 2 [5]\<rparr>"
  have "next_cluster sample_volume 2 = Some end_of_clusterchain" "fat_table sample_volume ! 2 = 0x0fffffff"
    using chain_next [OF sample_chains(1)] by (simp_all add: sample_volume_def)
  moreover have "extend_cluster sample_volume 2 1 = Some (?v0, 5)"
    using extend_cluster_links [OF sample_volume_ok sample_chains(1), of 2 1] sample_new_clusters(1)
    by (simp add: sample_new_clusters(1) [unfolded One_nat_def])
  moreover have "free_slot (entries (cluster_at sample_volume 2)) = None"
    unfolding sample_root by (simp add: free_slot_def sample_entry_eq)
  moreover have "is_data sample_volume 2" "is_data ?v0 5" by (simp_all add: is_data_def sample_volume_def)
  ultimately have "allocate_entry sample_volume 2 = Some (set_cluster 5 (replicate (bytes_per_cluster ?v0) 0) ?v0, (5, 0))"
    by (simp add: allocate_entry.simps [of _ 2])
  moreover have "\<exists>e. get_entry (set_cluster 5 (replicate (bytes_per_cluster ?v0) 0) ?v0) (5, 0) = Some e"
    by (simp add: get_entry_def cluster_bytes_def set_cluster_def bytes_per_cluster_def sample_volume_def)
  ultimately show ?thesis by blast
qed

theorem create_file_found_witness:
  "\<exists>r e res v'. create_file sample_volume [0x62, dot, 0x63] = Some (Inr r, v') \<and>
     find_file v' [0x62, dot, 0x63] 0 = Some (Some r, False) \<and> get_entry v' r = Some e \<and> file_size e = 0"
proof -
  have n: "name_ok [0x62] [0x63]" "slash \<notin> set (dotted [0x62] [0x63])" by (simp_all add: name_ok_def dotted_def)
  have d: "dotted [0x62] [0x63] = [0x62, dot, 0x63]" by (simp add: dotted_def)
  have "\<not> name_is_equal sample_entry [0x62, dot, 0x63]" by code_simp
  then have "scan_at sample_volume [0x62, dot, 0x63] 2 = Go_On"
    by (simp add: scan_at_def sample_root sample_entry_eq)
  then have "scan_chain sample_volume [0x62, dot, 0x63] 2 = Some None"
    using scan_chain_step [OF sample_chains(1) sample_volume_ok] by simp
  then have absent: "find_file sample_volume [0x62, dot, 0x63] 0 = Some (None, False)"
    using plain_path(1) [OF n, of sample_volume] d sample_sizes by simp
  obtain res v' where create: "create_file sample_volume [0x62, dot, 0x63] = Some (res, v')"
    using sample_allocate plain_path(2) [OF n] by (auto simp: create_file_def sample_sizes d)
  have "hd [2] = unat (root_cluster sample_volume)" by (simp add: sample_sizes)
  from create_file_found [OF sample_volume_ok sample_chains(1) this n absent [folded d] create [folded d]] create d
  show ?thesis by auto
qed

section \<open>Where \<^verbatim>\<open>Write\<close> goes wrong\<close>

text \<open>30 bytes at a place with 24 bytes left in the cluster: the second copy takes 30 bytes again, so 54 bytes
  are written, the last 24 of them from behind the caller's data, and 54 is returned.\<close>

lemma write_copies_too_much:
  "\<exists>fd' v'. fd_write sample_volume sample_writer buf 30 = Some (54, fd', v') \<and> wr_off fd' = 94"
proof -
  define v2 where "v2 = set_cluster 4 (splice 8 (map buf [0..<24]) (cluster_at sample_volume 4)) sample_volume"
  have d: "is_data sample_volume 4" by (simp add: sample_is_data)
  have len: "length (splice 8 (map buf [0..<24]) (cluster_at sample_volume 4)) = bytes_per_cluster sample_volume"
    using cluster_at_length [OF sample_volume_ok d] by (subst splice_length) (auto simp: sample_sizes)
  note upd = set_cluster_facts [OF d, where bs = "splice 8 (map buf [0..<24]) (cluster_at sample_volume 4)"]
  have ok: "volume_ok v2" "chain v2 [3, 4]" "bytes_per_cluster v2 = 32"
    using upd(4,5,6) sample_volume_ok sample_chains(2) len by (simp_all add: v2_def sample_sizes del: chain.simps)
  have new: "new_clusters v2 1 = [5]"
    using sample_new_clusters(1) by (simp add: new_clusters_def v2_def set_cluster_def)
  define v3 where "v3 = v2\<lparr>fat_table := link_chain (fat_table v2) 4 [5]\<rparr>"
  have v3: "is_data v3 5" "bytes_per_cluster v3 = 32"
    using ok(3) by (simp_all add: v3_def v2_def is_data_def set_cluster_def sample_volume_def bytes_per_cluster_def)
  have ext: "extend_cluster v2 4 1 = Some (v3, 5)"
    using extend_cluster_links [OF ok(1,2), of 4 1] new by (simp add: v3_def new [unfolded One_nat_def])
  have eoc: "next_cluster v2 4 = Some end_of_clusterchain"
    using chain_next [of v2 4 "[]"] chain_suffix [of v2 "[3]" "[4]"] ok(2) by (simp del: chain.simps)
  define v4 where "v4 = set_cluster 5 (splice 0 (map buf [24..<54]) (cluster_at v3 5)) v3"
  have "write_loop sample_volume buf 30 0 4 8 = write_loop v2 buf 30 24 4 32"
    using d by (simp add: write_loop.simps [of sample_volume buf 30 0] sample_sizes v2_def)
  also have "\<dots> = write_loop v4 buf 30 54 5 30"
    using eoc ext v3 ok(3) num_cluster_one [of 6 v2]
    by (simp add: write_loop.simps [of v2 buf 30 24] v4_def)
  also have "\<dots> = Some (v4, 54, 5, 30)" by (simp add: write_loop.simps [of v4 buf 30 54])
  finally have loop: "write_loop sample_volume buf 30 0 4 8 = Some (v4, 54, 5, 30)" .
  have "get_entry v4 (2, 0) = get_entry sample_volume (2, 0)"
    by (simp add: v4_def v3_def v2_def get_entry_def cluster_bytes_def set_cluster_def)
  then show ?thesis
    using loop sample_get_entry by (simp add: fd_write_def write_start_def sample_writer_def new_fd_def)
qed

end
