(* ===== verification/Graphics.thy ===== *)
theory Graphics imports File_Descriptor Kernel_Error begin

text \<open>
  \<^verbatim>\<open>Kernel/graphics.{hpp,cpp}\<close> and \<^verbatim>\<open>Kernel/font.cpp\<close>: points, rectangles, colours, and drawing. A
  function that draws on a \<^verbatim>\<open>PixelWriter&\<close> is the list of its calls of \<^verbatim>\<open>Write(pos, c)\<close> in order, so
  that it can be applied to every writer. C++ \<^verbatim>\<open>int\<close> coordinates are integers. The font file
  \<^verbatim>\<open>hankaku.bin\<close> and the answers of the FreeType library are arguments.
\<close>

section \<open>Points and rectangles\<close>

(*@ Kernel/graphics.hpp:26-57 Vector2D *)
datatype vec2 = Vec (vx: int) (vy: int)

instantiation vec2 :: "{plus, minus}"
begin

definition plus_vec2 :: "vec2 \<Rightarrow> vec2 \<Rightarrow> vec2" where
  "plus_vec2 p q = Vec (vx p + vx q) (vy p + vy q)"

definition minus_vec2 :: "vec2 \<Rightarrow> vec2 \<Rightarrow> vec2" where
  "minus_vec2 p q = Vec (vx p - vx q) (vy p - vy q)"

instance ..

end

lemma vec_plus [simp]: "Vec a b + Vec c d = Vec (a + c) (b + d)"
  by (simp add: plus_vec2_def)

lemma vec_minus [simp]: "Vec a b - Vec c d = Vec (a - c) (b - d)"
  by (simp add: minus_vec2_def)

lemma vec_sel [simp]: "vx (p + q) = vx p + vx q" "vy (p + q) = vy p + vy q"
    "vx (p - q) = vx p - vx q" "vy (p - q) = vy p - vy q"
  by (simp_all add: plus_vec2_def minus_vec2_def)

(*@ Kernel/graphics.hpp:59-62 ElementMax *)
definition element_max :: "vec2 \<Rightarrow> vec2 \<Rightarrow> vec2" where
  "element_max p q = Vec (max (vx p) (vx q)) (max (vy p) (vy q))"

(*@ Kernel/graphics.hpp:64-67 ElementMin *)
definition element_min :: "vec2 \<Rightarrow> vec2 \<Rightarrow> vec2" where
  "element_min p q = Vec (min (vx p) (vx q)) (min (vy p) (vy q))"

(*@ Kernel/graphics.hpp:69-72 Rectangle *)
datatype rect = Rect (rpos: vec2) (rsize: vec2)

(*@ Kernel/graphics.hpp:74-86 operator& *)
definition rect_inter :: "rect \<Rightarrow> rect \<Rightarrow> rect" where
  "rect_inter lhs rhs =
    (let lhs_end = rpos lhs + rsize lhs; rhs_end = rpos rhs + rsize rhs
     in if vx lhs_end < vx (rpos rhs) \<or> vy lhs_end < vy (rpos rhs) \<or>
           vx rhs_end < vx (rpos lhs) \<or> vy rhs_end < vy (rpos lhs)
        then Rect (Vec 0 0) (Vec 0 0)
        else let new_pos = element_max (rpos lhs) (rpos rhs)
             in Rect new_pos (element_min lhs_end rhs_end - new_pos))"

text \<open>The points of a rectangle; the intersection has exactly the common ones.\<close>

definition in_rect :: "vec2 \<Rightarrow> rect \<Rightarrow> bool" where
  "in_rect p r \<longleftrightarrow> vx (rpos r) \<le> vx p \<and> vx p < vx (rpos r) + vx (rsize r) \<and>
     vy (rpos r) \<le> vy p \<and> vy p < vy (rpos r) + vy (rsize r)"

lemma in_rect_inter [simp]: "in_rect p (rect_inter a b) \<longleftrightarrow> in_rect p a \<and> in_rect p b"
  by (auto simp: in_rect_def rect_inter_def element_max_def element_min_def Let_def)

lemma rect_inter_size:
  assumes "0 \<le> vx (rsize a)" "0 \<le> vy (rsize a)" "0 \<le> vx (rsize b)" "0 \<le> vy (rsize b)"
  shows "0 \<le> vx (rsize (rect_inter a b))" "0 \<le> vy (rsize (rect_inter a b))"
  using assms by (auto simp: rect_inter_def element_max_def element_min_def Let_def)

section \<open>Colours and drawings\<close>

(*@ Kernel/graphics.hpp:6-8 PixelColor *)
record pixel_color =
  red :: u8
  green :: u8
  blue :: u8

abbreviation rgb :: "u8 \<Rightarrow> u8 \<Rightarrow> u8 \<Rightarrow> pixel_color" where
  "rgb r g b \<equiv> \<lparr>red = r, green = g, blue = b\<rparr>"

(*@ Kernel/graphics.hpp:10-16 ToColor *)
definition to_color :: "u32 \<Rightarrow> pixel_color" where
  "to_color c = rgb (ucast (drop_bit 16 c AND 0xff)) (ucast (drop_bit 8 c AND 0xff)) (ucast (c AND 0xff))"

type_synonym drawing = "(vec2 \<times> pixel_color) list"

(*@ Kernel/graphics.cpp:17-28 DrawRectangle *)
definition draw_rectangle :: "vec2 \<Rightarrow> vec2 \<Rightarrow> pixel_color \<Rightarrow> drawing" where
  "draw_rectangle pos sz c =
    concat (map (\<lambda>dx. [(pos + Vec dx 0, c), (pos + Vec dx (vy sz - 1), c)]) [0..vx sz - 1]) @
    concat (map (\<lambda>dy. [(pos + Vec 0 dy, c), (pos + Vec (vx sz - 1) dy, c)]) [1..vy sz - 2])"

(*@ Kernel/graphics.cpp:30-37 FillRectangle *)
definition fill_rectangle :: "vec2 \<Rightarrow> vec2 \<Rightarrow> pixel_color \<Rightarrow> drawing" where
  "fill_rectangle pos sz c =
    concat (map (\<lambda>dy. map (\<lambda>dx. (pos + Vec dx dy, c)) [0..vx sz - 1]) [0..vy sz - 1])"

(*@ Kernel/graphics.hpp:131-131 kDesktopBGColor *)
definition desktop_bg_color :: pixel_color where
  "desktop_bg_color = rgb 45 118 237"

(*@ Kernel/graphics.hpp:132-132 kDesktopFGColor *)
definition desktop_fg_color :: pixel_color where
  "desktop_fg_color = rgb 255 255 255"

text \<open>\<^verbatim>\<open>width / 5\<close> is a division of a non-negative \<^verbatim>\<open>int\<close>.\<close>

(*@ Kernel/graphics.cpp:39-62 DrawDesktop *)
definition draw_desktop :: "int \<Rightarrow> int \<Rightarrow> drawing" where
  "draw_desktop width height =
     fill_rectangle (Vec 0 0) (Vec width (height - 50)) desktop_bg_color @
     fill_rectangle (Vec 0 (height - 50)) (Vec width 50) (rgb 1 8 17) @
     fill_rectangle (Vec 0 (height - 50)) (Vec (width div 5) 50) (rgb 80 80 80) @
     draw_rectangle (Vec 10 (height - 40)) (Vec 30 30) (rgb 160 160 160)"

lemma fill_rectangle_points:
  "(p, c') \<in> set (fill_rectangle pos sz c) \<longleftrightarrow> c' = c \<and> in_rect p (Rect pos sz)"
proof
  assume "(p, c') \<in> set (fill_rectangle pos sz c)"
  then show "c' = c \<and> in_rect p (Rect pos sz)" by (auto simp: fill_rectangle_def in_rect_def)
next
  assume r: "c' = c \<and> in_rect p (Rect pos sz)"
  have "vx p - vx pos \<in> {0..vx sz - 1}" "vy p - vy pos \<in> {0..vy sz - 1}"
    using r by (auto simp: in_rect_def)
  moreover have p: "p = pos + Vec (vx p - vx pos) (vy p - vy pos)" by (cases p; cases pos) simp
  ultimately have "\<exists>dy \<in> {0..vy sz - 1}. \<exists>dx \<in> {0..vx sz - 1}. p = pos + Vec dx dy" by blast
  then show "(p, c') \<in> set (fill_rectangle pos sz c)" using r by (auto simp: fill_rectangle_def)
qed

section \<open>Fonts\<close>

text \<open>\<^verbatim>\<open>char\<close> is signed, so a byte from \<open>0x80\<close> on gives a huge index and no glyph.\<close>

(*@ Kernel/font.cpp:21-27 GetFont *)
definition get_font :: "bytes \<Rightarrow> u8 \<Rightarrow> bytes option" where
  "get_font hankaku c =
    (let index = 16 * (scast c :: u32)
     in if length hankaku \<le> unat index then None else Some (drop (unat index) hankaku))"

(*@ Kernel/font.cpp:29-41 WriteAscii *)
definition write_ascii :: "bytes \<Rightarrow> vec2 \<Rightarrow> u8 \<Rightarrow> pixel_color \<Rightarrow> drawing" where
  "write_ascii hankaku pos c color =
    (case get_font hankaku c of
       None \<Rightarrow> []
     | Some font \<Rightarrow>
         concat (map (\<lambda>dy. map (\<lambda>dx. (pos + Vec (int dx) (int dy), color))
           (filter (\<lambda>dx. bit (font ! dy) (7 - dx)) [0..<8])) [0..<16]))"

(*@ Kernel/font.cpp:43-54 CountUTF8Size *)
definition count_utf8_size :: "u8 \<Rightarrow> nat" where
  "count_utf8_size c =
    (if c < 0x80 then 1
     else if 0xc0 \<le> c \<and> c < 0xe0 then 2
     else if 0xe0 \<le> c \<and> c < 0xf0 then 3
     else if 0xf0 \<le> c \<and> c < 0xf8 then 4
     else 0)"

text \<open>Byte \<open>i\<close> of a C string: its closing zero stands at its end, and behind that is no byte of it.\<close>

definition c_byte :: "bytes \<Rightarrow> nat \<Rightarrow> u32 option" where
  "c_byte s i = (if i < length s then Some (ucast (s ! i)) else if i = length s then Some 0 else None)"

text \<open>Where the first byte is no leading byte the function has no \<^verbatim>\<open>return\<close>.\<close>

(*@ Kernel/font.cpp:56-85 ConvertUTF8To32 *)
definition convert_utf8_to_32 :: "bytes \<Rightarrow> (u32 \<times> nat) option" where
  "convert_utf8_to_32 s =
    (case c_byte s 0 of
       None \<Rightarrow> None
     | Some b0 \<Rightarrow>
         if count_utf8_size (ucast b0) = 1 then Some (b0, 1)
         else if count_utf8_size (ucast b0) = 2 then
           Option.bind (c_byte s 1) (\<lambda>b1.
           Some (push_bit 6 (b0 AND 0x1f) OR (b1 AND 0x3f), 2))
         else if count_utf8_size (ucast b0) = 3 then
           Option.bind (c_byte s 1) (\<lambda>b1. Option.bind (c_byte s 2) (\<lambda>b2.
           Some (push_bit 12 (b0 AND 0x0f) OR push_bit 6 (b1 AND 0x3f) OR (b2 AND 0x3f), 3)))
         else if count_utf8_size (ucast b0) = 4 then
           Option.bind (c_byte s 1) (\<lambda>b1. Option.bind (c_byte s 2) (\<lambda>b2. Option.bind (c_byte s 3) (\<lambda>b3.
           Some (push_bit 18 (b0 AND 0x07) OR push_bit 12 (b1 AND 0x3f) OR push_bit 6 (b2 AND 0x3f) OR (b3 AND 0x3f), 4))))
         else None)"

(*@ Kernel/font.cpp:87-89 IsHankaku *)
definition is_hankaku :: "u32 \<Rightarrow> bool" where
  "is_hankaku c \<longleftrightarrow> c \<le> 0x7f"

text \<open>What FreeType renders for a character: the bitmap with its pitch in bytes, and where it stands
  relative to the baseline. \<open>None\<close> where one of its calls fails.\<close>

record ft_glyph =
  ft_rows :: nat
  ft_width :: nat
  ft_pitch :: int
  ft_buffer :: "int \<Rightarrow> u8"
  ft_left :: int
  ft_top :: int
  ft_baseline :: int

(*@ Kernel/font.cpp:116-158 WriteUnicode *)
definition write_unicode :: "bytes \<Rightarrow> (u32 \<Rightarrow> ft_glyph option) \<Rightarrow> vec2 \<Rightarrow> u32 \<Rightarrow> pixel_color \<Rightarrow> error_code \<times> drawing" where
  "write_unicode hankaku free_type pos c color =
    (if c \<le> 0x7f then (kSuccess, write_ascii hankaku pos (ucast c) color)
     else case free_type c of
       None \<Rightarrow>
         (kFreeTypeError, write_ascii hankaku pos 0x3f color @ write_ascii hankaku (pos + Vec 8 0) 0x3f color)
     | Some g \<Rightarrow>
         (let topleft = pos + Vec (ft_left g) (ft_baseline g - ft_top g);
              line = (\<lambda>dy. ft_pitch g * int dy - (if ft_pitch g < 0 then ft_pitch g * int (ft_rows g) else 0))
          in (kSuccess,
              concat (map (\<lambda>dy. map (\<lambda>dx. (topleft + Vec (int dx) (int dy), color))
                (filter (\<lambda>dx. bit (ft_buffer g (line dy + int (dx div 8))) (7 - dx mod 8)) [0..<ft_width g]))
                [0..<ft_rows g]))))"

text \<open>\<^verbatim>\<open>WriteString\<close>: the characters from column \<open>x\<close> on. A string with a byte that starts no character
  is outside what the code handles.\<close>

(*@ Kernel/font.cpp:160-168 WriteString *)
function write_string_from :: "bytes \<Rightarrow> (u32 \<Rightarrow> ft_glyph option) \<Rightarrow> vec2 \<Rightarrow> bytes \<Rightarrow> pixel_color \<Rightarrow> int \<Rightarrow> drawing option" where
  "write_string_from hankaku free_type pos s color x =
    (if s = [] then Some []
     else case convert_utf8_to_32 s of
       None \<Rightarrow> None
     | Some (c, n) \<Rightarrow>
         if n = 0 \<or> length s < n then None
         else Option.bind (write_string_from hankaku free_type pos (drop n s) color (x + (if is_hankaku c then 1 else 2)))
           (\<lambda>rest. Some (snd (write_unicode hankaku free_type (pos + Vec (8 * x) 0) c color) @ rest)))"
  by pat_completeness auto
termination
  by (relation "measure (\<lambda>(h, f, pos, s, color, x). length s)") auto

declare write_string_from.simps [simp del]

definition write_string :: "bytes \<Rightarrow> (u32 \<Rightarrow> ft_glyph option) \<Rightarrow> vec2 \<Rightarrow> bytes \<Rightarrow> pixel_color \<Rightarrow> drawing option" where
  "write_string hankaku free_type pos s color = write_string_from hankaku free_type pos s color 0"

section \<open>UTF-8\<close>

text \<open>The encoding of a character of at most 21 bits, as the standard has it.\<close>

definition utf8_tail :: "nat \<Rightarrow> u32 \<Rightarrow> u8" where
  "utf8_tail k c = 0x80 OR ucast (take_bit 6 (drop_bit k c))"

definition utf8_encode :: "u32 \<Rightarrow> bytes" where
  "utf8_encode c =
    (if c < 0x80 then [ucast c]
     else if c < 0x800 then [0xc0 OR ucast (drop_bit 6 c), utf8_tail 0 c]
     else if c < 0x10000 then [0xe0 OR ucast (drop_bit 12 c), utf8_tail 6 c, utf8_tail 0 c]
     else [0xf0 OR ucast (drop_bit 18 c), utf8_tail 12 c, utf8_tail 6 c, utf8_tail 0 c])"

lemma lead_size:
  "k < 128 \<Longrightarrow> count_utf8_size (of_nat k) = 1"
  "k < 32 \<Longrightarrow> count_utf8_size (0xc0 OR of_nat k) = 2"
  "k < 16 \<Longrightarrow> count_utf8_size (0xe0 OR of_nat k) = 3"
  "k < 8 \<Longrightarrow> count_utf8_size (0xf0 OR of_nat k) = 4"
proof -
  have "list_all (\<lambda>k. count_utf8_size (of_nat k) = 1) [0..<128]"
    "list_all (\<lambda>k. count_utf8_size (0xc0 OR of_nat k) = 2) [0..<32]"
    "list_all (\<lambda>k. count_utf8_size (0xe0 OR of_nat k) = 3) [0..<16]"
    "list_all (\<lambda>k. count_utf8_size (0xf0 OR of_nat k) = 4) [0..<8]"
    by code_simp+
  then show "k < 128 \<Longrightarrow> count_utf8_size (of_nat k) = 1"
    "k < 32 \<Longrightarrow> count_utf8_size (0xc0 OR of_nat k) = 2"
    "k < 16 \<Longrightarrow> count_utf8_size (0xe0 OR of_nat k) = 3"
    "k < 8 \<Longrightarrow> count_utf8_size (0xf0 OR of_nat k) = 4"
    by (simp_all add: list_all_iff)
qed

lemma lead_bits:
  fixes w :: u32
  assumes "j \<le> k" "k \<le> 8"
  shows "(ucast (push_bit k (mask (8 - k)) OR ucast w :: u8) :: u32) AND mask j = take_bit j w"
  using assms by (intro bit_word_eqI) (auto simp: bit_simps)

lemma tail_bits: "(ucast (utf8_tail k c) :: u32) AND 0x3f = take_bit 6 (drop_bit k c)"
proof -
  have "(ucast (utf8_tail k c) :: u32) AND mask 6 = take_bit 6 (drop_bit k c)"
  proof (rule bit_word_eqI)
    fix n
    show "bit ((ucast (utf8_tail k c) :: u32) AND mask 6) n = bit (take_bit 6 (drop_bit k c)) n"
      using bit_exp_iff [where 'a = "8 word", of 7 n]
      by (auto simp: utf8_tail_def bit_simps)
  qed
  then show ?thesis by (simp add: mask_eq_exp_minus_1)
qed

lemmas tail_shifted =
  arg_cong [OF tail_bits, of "push_bit 6", simplified] arg_cong [OF tail_bits, of "push_bit 12", simplified]

lemma lead_values:
  fixes w :: u32
  shows "(ucast (0xc0 OR ucast w :: u8) :: u32) AND 0x1f = take_bit 5 w"
    "(ucast (0xe0 OR ucast w :: u8) :: u32) AND 0x0f = take_bit 4 w"
    "(ucast (0xf0 OR ucast w :: u8) :: u32) AND 0x07 = take_bit 3 w"
  using lead_bits [of 5 6 w] lead_bits [of 4 5 w] lead_bits [of 3 4 w]
  by (simp_all add: mask_eq_exp_minus_1 push_bit_eq_mult)

lemma lead_ucast:
  fixes w :: u32
  shows "(ucast w :: u8) = of_nat (unat w)"
  by (simp add: unsigned_ucast_eq word_eq_iff_unsigned unsigned_of_nat)

text \<open>The parts of a character of \<open>m\<close> bits.\<close>

lemma small_bits:
  fixes c :: u32
  assumes "unat c < 2 ^ m" "bit c n"
  shows "n < m"
proof (rule ccontr)
  assume "\<not> n < m"
  moreover have "take_bit m (unat c) = unat c" using assms(1) by (rule take_bit_nat_eq_self)
  moreover have "bit (unat c) n" using assms(2) by (simp add: bit_simps bit_imp_le_length)
  ultimately show False by (metis bit_take_bit_iff)
qed

lemma utf8_parts:
  fixes c :: u32
  shows "unat c < 2 ^ 11 \<Longrightarrow> push_bit 6 (take_bit 5 (drop_bit 6 c)) OR take_bit 6 c = c"
    "unat c < 2 ^ 16 \<Longrightarrow> push_bit 12 (take_bit 4 (drop_bit 12 c)) OR push_bit 6 (take_bit 6 (drop_bit 6 c)) OR take_bit 6 c = c"
    "unat c < 2 ^ 21 \<Longrightarrow> push_bit 18 (take_bit 3 (drop_bit 18 c)) OR push_bit 12 (take_bit 6 (drop_bit 12 c)) OR
       push_bit 6 (take_bit 6 (drop_bit 6 c)) OR take_bit 6 c = c"
proof -
  assume c: "unat c < 2 ^ 11"
  show "push_bit 6 (take_bit 5 (drop_bit 6 c)) OR take_bit 6 c = c"
    by (rule bit_word_eqI) (auto simp: bit_simps dest: small_bits [OF c])
next
  assume c: "unat c < 2 ^ 16"
  show "push_bit 12 (take_bit 4 (drop_bit 12 c)) OR push_bit 6 (take_bit 6 (drop_bit 6 c)) OR take_bit 6 c = c"
  proof (rule bit_word_eqI)
    fix n
    show "bit (push_bit 12 (take_bit 4 (drop_bit 12 c)) OR push_bit 6 (take_bit 6 (drop_bit 6 c)) OR take_bit 6 c) n = bit c n"
      by (cases "n < 6"; cases "n < 12") (auto simp: bit_simps dest: small_bits [OF c] bit_imp_le_length)
  qed
next
  assume c: "unat c < 2 ^ 21"
  show "push_bit 18 (take_bit 3 (drop_bit 18 c)) OR push_bit 12 (take_bit 6 (drop_bit 12 c)) OR
       push_bit 6 (take_bit 6 (drop_bit 6 c)) OR take_bit 6 c = c"
  proof (rule bit_word_eqI)
    fix n :: nat
    consider "n < 6" | "6 \<le> n" "n < 12" | "12 \<le> n" "n < 18" | "18 \<le> n" by linarith
    then show "bit (push_bit 18 (take_bit 3 (drop_bit 18 c)) OR push_bit 12 (take_bit 6 (drop_bit 12 c)) OR
        push_bit 6 (take_bit 6 (drop_bit 6 c)) OR take_bit 6 c) n = bit c n"
      by cases (auto simp: bit_simps dest: small_bits [OF c] bit_imp_le_length)
  qed
qed

lemma lead_count:
  fixes w :: u32
  shows "unat w < 2 ^ 7 \<Longrightarrow> count_utf8_size (ucast w) = 1"
    "unat w < 2 ^ 5 \<Longrightarrow> count_utf8_size (0xc0 OR ucast w) = 2"
    "unat w < 2 ^ 4 \<Longrightarrow> count_utf8_size (0xe0 OR ucast w) = 3"
    "unat w < 2 ^ 3 \<Longrightarrow> count_utf8_size (0xf0 OR ucast w) = 4"
  unfolding lead_ucast by (rule lead_size; simp)+

text \<open>Decoding with \<^verbatim>\<open>ConvertUTF8To32\<close> the UTF-8 encoding of a character of at most 21 bits returns
  that character and the length of its encoding, whatever follows it in the string.\<close>

theorem utf8_roundtrip:
  assumes "c < 0x200000"
  shows "convert_utf8_to_32 (utf8_encode c @ s) = Some (c, length (utf8_encode c))"
proof -
  have drop: "unat (drop_bit k c) < 2 ^ m" if "unat c < 2 ^ (k + m)" for k m
    using that unfolding unat_drop_bit_eq drop_bit_eq_div [of k "unat c"]
    by (simp add: less_mult_imp_div_less power_add mult.commute)
  have ucast: "(ucast (ucast b :: u32) :: u8) = b" for b :: u8
    by (rule bit_word_eqI) (auto simp: bit_simps dest: bit_imp_le_length)
  consider "c < 0x80" | "0x80 \<le> c" "c < 0x800" | "0x800 \<le> c" "c < 0x10000" | "0x10000 \<le> c" "c < 0x200000"
    using assms by (meson linorder_not_le)
  then show ?thesis
  proof cases
    case 1
    then have c: "unat c < 2 ^ 7" by (simp add: word_less_nat_alt)
    then have "(ucast (ucast c :: u8) :: u32) = c"
      by (intro bit_word_eqI) (auto simp: bit_simps dest: small_bits [OF c])
    then show ?thesis using 1 c lead_count(1) [of c] by (simp add: utf8_encode_def convert_utf8_to_32_def c_byte_def ucast tail_shifted)
  next
    case 2
    then have c: "unat c < 2 ^ 11" by (simp add: word_less_nat_alt)
    then have "unat (drop_bit 6 c) < 2 ^ 5" by (intro drop) simp
    note count = lead_count(2) [OF this]
    have big: "\<not> c < 0x80" using 2(1) by (simp_all add: word_le_nat_alt word_less_nat_alt)
    show ?thesis
      using big 2(2) count utf8_parts(1) [OF c] tail_bits [of 0 c] tail_bits [of 6 c] tail_bits [of 12 c] lead_values(1) [of "drop_bit 6 c"]
      by (simp add: utf8_encode_def convert_utf8_to_32_def c_byte_def ucast tail_shifted)
  next
    case 3
    then have c: "unat c < 2 ^ 16" by (simp add: word_less_nat_alt)
    then have "unat (drop_bit 12 c) < 2 ^ 4" by (intro drop) simp
    note count = lead_count(3) [OF this]
    have big: "\<not> c < 0x80" "\<not> c < 0x800" using 3(1) by (simp_all add: word_le_nat_alt word_less_nat_alt)
    show ?thesis
      using big 3(2) count utf8_parts(2) [OF c] tail_bits [of 0 c] tail_bits [of 6 c] tail_bits [of 12 c] lead_values(2) [of "drop_bit 12 c"]
      by (simp add: utf8_encode_def convert_utf8_to_32_def c_byte_def ucast tail_shifted)
  next
    case 4
    then have c: "unat c < 2 ^ 21" by (simp add: word_less_nat_alt)
    then have "unat (drop_bit 18 c) < 2 ^ 3" by (intro drop) simp
    note count = lead_count(4) [OF this]
    have big: "\<not> c < 0x80" "\<not> c < 0x800" "\<not> c < 0x10000" using 4(1) by (simp_all add: word_le_nat_alt word_less_nat_alt)
    show ?thesis
      using big 4(2) count utf8_parts(3) [OF c] tail_bits [of 0 c] tail_bits [of 6 c] tail_bits [of 12 c] lead_values(3) [of "drop_bit 18 c"]
      by (simp add: utf8_encode_def convert_utf8_to_32_def c_byte_def ucast tail_shifted)
  qed
qed

theorem utf8_roundtrip_witness:
  "convert_utf8_to_32 (utf8_encode 0x3042 @ []) = Some (0x3042, 3)"
  using utf8_roundtrip [of "0x3042" "[]"] by (simp add: utf8_encode_def)

end
