(* ===== verification/Frame_Buffer.thy ===== *)
theory Frame_Buffer imports Graphics begin

text \<open>
  \<^verbatim>\<open>Kernel/frame_buffer.{hpp,cpp}\<close> and the pixel writers of \<^verbatim>\<open>Kernel/graphics.cpp\<close>: a frame buffer is its
  configuration and the bytes from its address on. \<open>pixel_at\<close> reads a pixel back; the section at the end
  says which pixels \<^verbatim>\<open>Copy\<close> and \<^verbatim>\<open>Move\<close> change and to what.
\<close>

text \<open>\<open>kPixelUnknown\<close> is any other value of the field.\<close>

(*@ Kernel/frame_buffer_config.hpp:5-8 PixelFormat *)
datatype pixel_format = kPixelRGBResv8BitPerColor | kPixelBGRResv8BitPerColor | kPixelUnknown

type_synonym mem = "int \<Rightarrow> u8"

(*@ Kernel/frame_buffer_config.hpp:10-16 FrameBufferConfig *)
record frame_buffer_config =
  frame_buffer_null :: bool
  pixels_per_scan_line :: u32
  horizontal_resolution :: u32
  vertical_resolution :: u32
  pixel_format :: pixel_format

(*@ Kernel/frame_buffer.hpp:10-22 FrameBuffer *)
record frame_buffer =
  fb_config :: frame_buffer_config
  fb_mem :: mem

(*@ Kernel/frame_buffer.cpp:4-10 BytesPerPixel *)
definition bytes_per_pixel :: "pixel_format \<Rightarrow> int" where
  "bytes_per_pixel f = (case f of kPixelRGBResv8BitPerColor \<Rightarrow> 4 | kPixelBGRResv8BitPerColor \<Rightarrow> 4 | kPixelUnknown \<Rightarrow> -1)"

text \<open>The offset from \<^verbatim>\<open>config.frame_buffer\<close>, a 32-bit product.\<close>

(*@ Kernel/frame_buffer.cpp:12-15 FrameAddrAt *)
definition frame_addr_at :: "vec2 \<Rightarrow> frame_buffer_config \<Rightarrow> int" where
  "frame_addr_at pos config =
    uint (of_int (bytes_per_pixel (pixel_format config)) *
      (pixels_per_scan_line config * of_int (vy pos) + of_int (vx pos)) :: u32)"

(*@ Kernel/graphics.hpp:105-107 PixelAt *)
definition pixel_addr :: "vec2 \<Rightarrow> frame_buffer_config \<Rightarrow> int" where
  "pixel_addr pos config = uint (4 * (pixels_per_scan_line config * of_int (vy pos) + of_int (vx pos)) :: u32)"

(*@ Kernel/frame_buffer.cpp:17-19 BytesPerScanLine *)
definition bytes_per_scan_line :: "frame_buffer_config \<Rightarrow> int" where
  "bytes_per_scan_line config =
    sint (of_int (bytes_per_pixel (pixel_format config)) * pixels_per_scan_line config :: u32)"

(*@ Kernel/frame_buffer.cpp:21-24 FrameBufferSize *)
definition frame_buffer_size :: "frame_buffer_config \<Rightarrow> vec2" where
  "frame_buffer_size config = Vec (sint (horizontal_resolution config)) (sint (vertical_resolution config))"

text \<open>\<^verbatim>\<open>Initialize\<close> with the device's memory, or with a zeroed buffer where the address is null.\<close>

(*@ Kernel/frame_buffer.cpp:27-57 Initialize *)
definition fb_initialize :: "mem \<Rightarrow> frame_buffer_config \<Rightarrow> error_code \<times> frame_buffer" where
  "fb_initialize device config =
    (if bytes_per_pixel (pixel_format config) \<le> 0
     then (kUnknownPixelFormat, \<lparr>fb_config = config, fb_mem = device\<rparr>)
     else if \<not> frame_buffer_null config then (kSuccess, \<lparr>fb_config = config, fb_mem = device\<rparr>)
     else (kSuccess, \<lparr>fb_config = config\<lparr>frame_buffer_null := False,
              pixels_per_scan_line := horizontal_resolution config\<rparr>, fb_mem = (\<lambda>_. 0)\<rparr>))"

(*@ Kernel/graphics.cpp:3-15 Write *)
definition write_pixel :: "vec2 \<times> pixel_color \<Rightarrow> frame_buffer \<Rightarrow> frame_buffer" where
  "write_pixel w fb =
    (case w of (pos, c) \<Rightarrow>
     let p = pixel_addr pos (fb_config fb)
     in case pixel_format (fb_config fb) of
          kPixelRGBResv8BitPerColor \<Rightarrow> fb\<lparr>fb_mem := (fb_mem fb)(p := red c, p + 1 := green c, p + 2 := blue c)\<rparr>
        | kPixelBGRResv8BitPerColor \<Rightarrow> fb\<lparr>fb_mem := (fb_mem fb)(p := blue c, p + 1 := green c, p + 2 := red c)\<rparr>
        | kPixelUnknown \<Rightarrow> fb)"

definition copy_bytes :: "int \<Rightarrow> int \<Rightarrow> int \<Rightarrow> mem \<Rightarrow> mem \<Rightarrow> mem" where
  "copy_bytes d s n dm sm = (\<lambda>a. if d \<le> a \<and> a < d + n then sm (a - d + s) else dm a)"

(*@ Kernel/frame_buffer.cpp:79-83 Copy *)
primrec copy_rows :: "nat \<Rightarrow> int \<Rightarrow> int \<Rightarrow> int \<Rightarrow> int \<Rightarrow> int \<Rightarrow> mem \<Rightarrow> mem \<Rightarrow> mem" where
  "copy_rows 0 d s n dline sline dm sm = dm"
| "copy_rows (Suc k) d s n dline sline dm sm =
     copy_rows k (d + dline) (s + sline) n dline sline (copy_bytes d s n dm sm) sm"

(*@ Kernel/frame_buffer.cpp:70-74 Copy *)
definition copy_area :: "frame_buffer_config \<Rightarrow> vec2 \<Rightarrow> frame_buffer_config \<Rightarrow> rect \<Rightarrow> rect" where
  "copy_area config dst_pos src_config src_area =
    rect_inter
      (rect_inter (Rect (Vec 0 0) (frame_buffer_size config))
        (Rect (dst_pos - rpos src_area) (frame_buffer_size src_config)))
      (Rect dst_pos (rsize src_area))"

(*@ Kernel/frame_buffer.cpp:59-86 Copy *)
definition fb_copy :: "vec2 \<Rightarrow> frame_buffer \<Rightarrow> rect \<Rightarrow> frame_buffer \<Rightarrow> error_code \<times> frame_buffer" where
  "fb_copy dst_pos src src_area fb =
    (let config = fb_config fb; bpp = bytes_per_pixel (pixel_format config)
     in if pixel_format config \<noteq> pixel_format (fb_config src) then (kUnknownPixelFormat, fb)
        else if bpp \<le> 0 then (kUnknownPixelFormat, fb)
        else
          let area = copy_area config dst_pos (fb_config src) src_area;
              src_start_pos = rpos area - (dst_pos - rpos src_area)
          in (kSuccess, fb\<lparr>fb_mem :=
                copy_rows (nat (vy (rsize area)))
                  (frame_addr_at (rpos area) config) (frame_addr_at src_start_pos (fb_config src))
                  (bpp * vx (rsize area)) (bytes_per_scan_line config) (bytes_per_scan_line (fb_config src))
                  (fb_mem fb) (fb_mem src)\<rparr>))"

(*@ Kernel/frame_buffer.cpp:95-107 Move *)
primrec move_rows :: "nat \<Rightarrow> int \<Rightarrow> int \<Rightarrow> int \<Rightarrow> int \<Rightarrow> mem \<Rightarrow> mem" where
  "move_rows 0 d s n step m = m"
| "move_rows (Suc k) d s n step m = move_rows k (d + step) (s + step) n step (copy_bytes d s n m m)"

(*@ Kernel/frame_buffer.cpp:88-109 Move *)
definition fb_move :: "vec2 \<Rightarrow> rect \<Rightarrow> frame_buffer \<Rightarrow> frame_buffer" where
  "fb_move dst_pos src fb =
    (let config = fb_config fb; n = bytes_per_pixel (pixel_format config) * vx (rsize src);
         line = bytes_per_scan_line config; h = vy (rsize src)
     in fb\<lparr>fb_mem :=
          (if vy dst_pos < vy (rpos src)
           then move_rows (nat h) (frame_addr_at dst_pos config) (frame_addr_at (rpos src) config) n line (fb_mem fb)
           else move_rows (nat h) (frame_addr_at (dst_pos + Vec 0 (h - 1)) config)
                  (frame_addr_at (rpos src + Vec 0 (h - 1)) config) n (- line) (fb_mem fb))\<rparr>)"

section \<open>Pixels\<close>

definition pixel_at :: "frame_buffer \<Rightarrow> vec2 \<Rightarrow> pixel_color" where
  "pixel_at fb p =
    (let a = pixel_addr p (fb_config fb); m = fb_mem fb
     in case pixel_format (fb_config fb) of
          kPixelRGBResv8BitPerColor \<Rightarrow> rgb (m a) (m (a + 1)) (m (a + 2))
        | _ \<Rightarrow> rgb (m (a + 2)) (m (a + 1)) (m a))"

text \<open>A configuration the boot loader or \<^verbatim>\<open>Initialize\<close> gives: a known format, lines at least as long as
  the screen is wide, and less than two gigabytes of pixels.\<close>

definition config_ok :: "frame_buffer_config \<Rightarrow> bool" where
  "config_ok c \<longleftrightarrow> pixel_format c \<noteq> kPixelUnknown \<and> 0 < pixels_per_scan_line c \<and> horizontal_resolution c \<le> pixels_per_scan_line c \<and>
     4 * uint (pixels_per_scan_line c) * (uint (vertical_resolution c) + 1) < 2 ^ 31"

abbreviation screen :: "frame_buffer \<Rightarrow> rect" where
  "screen fb \<equiv> Rect (Vec 0 0) (frame_buffer_size (fb_config fb))"

definition line_of :: "frame_buffer_config \<Rightarrow> int" where
  "line_of c = uint (pixels_per_scan_line c)"

lemma uint_small [simp]: "0 \<le> k \<Longrightarrow> k < 2 ^ 32 \<Longrightarrow> uint (of_int k :: u32) = k"
  by (simp add: unsigned_of_int take_bit_int_eq_self)

lemma config_ok_bounds:
  assumes "config_ok c"
  shows "bytes_per_pixel (pixel_format c) = 4" "uint (horizontal_resolution c) \<le> line_of c" "0 < line_of c"
    "4 * line_of c * (uint (vertical_resolution c) + 1) < 2 ^ 31"
  using assms by (auto simp: config_ok_def bytes_per_pixel_def line_of_def word_le_def word_less_def split: pixel_format.splits)

lemma config_ok_line:
  assumes "config_ok c"
  shows "4 * line_of c < 2 ^ 31" "uint (vertical_resolution c) < 2 ^ 31"
proof -
  note b = config_ok_bounds [OF assms]
  have v: "0 \<le> uint (vertical_resolution c)" by simp
  have "4 * line_of c * 1 \<le> 4 * line_of c * (uint (vertical_resolution c) + 1)" using b(3) v by (intro mult_left_mono) auto
  then show "4 * line_of c < 2 ^ 31" using b(4) by linarith
  have "1 * (uint (vertical_resolution c) + 1) \<le> 4 * line_of c * (uint (vertical_resolution c) + 1)"
    using b(3) v by (intro mult_right_mono) auto
  from le_less_trans [OF this b(4)] show "uint (vertical_resolution c) < 2 ^ 31" by simp
qed

lemma sint_small:
  assumes "uint (w :: u32) < 2 ^ 31"
  shows "sint w = uint w"
proof -
  have "signed_take_bit 31 (uint w) = uint w"
    using assms by (intro signed_take_bit_int_eq_self) (auto intro: order_trans [of _ 0])
  then show ?thesis by (simp add: sint_uint)
qed

lemma config_ok_size:
  assumes "config_ok c"
  shows "frame_buffer_size c = Vec (uint (horizontal_resolution c)) (uint (vertical_resolution c))"
    and "bytes_per_scan_line c = 4 * line_of c"
proof -
  note b = config_ok_bounds [OF assms] config_ok_line [OF assms]
  show "frame_buffer_size c = Vec (uint (horizontal_resolution c)) (uint (vertical_resolution c))"
    using b by (simp add: frame_buffer_size_def sint_small)
  have "(4 * pixels_per_scan_line c :: u32) = of_int (4 * line_of c)" by (simp add: line_of_def)
  then have u: "uint (4 * pixels_per_scan_line c) = 4 * line_of c" using b(3,5) uint_small [of "4 * line_of c"] by simp
  then show "bytes_per_scan_line c = 4 * line_of c"
    using b(1,5) sint_small [of "4 * pixels_per_scan_line c"] by (simp add: bytes_per_scan_line_def)
qed

text \<open>The address of a pixel of the screen.\<close>

definition addr :: "frame_buffer_config \<Rightarrow> vec2 \<Rightarrow> int" where
  "addr c p = 4 * (line_of c * vy p + vx p)"

lemma addr_eq:
  assumes "config_ok c" "0 \<le> vx p" "vx p \<le> line_of c" "0 \<le> vy p" "vy p \<le> uint (vertical_resolution c)"
  shows "frame_addr_at p c = addr c p" "pixel_addr p c = addr c p"
proof -
  note b = config_ok_bounds [OF assms(1)]
  have "line_of c * vy p + vx p \<le> line_of c * uint (vertical_resolution c) + line_of c"
    using assms b(3) by (intro add_mono mult_left_mono) auto
  then have "addr c p < 2 ^ 31" using b(4) by (simp add: addr_def algebra_simps)
  moreover have "0 \<le> addr c p" using assms b(3) by (simp add: addr_def)
  ultimately have u: "uint (of_int (addr c p) :: u32) = addr c p" by simp
  have w: "(4 * (pixels_per_scan_line c * of_int (vy p) + of_int (vx p)) :: u32) = of_int (addr c p)"
    by (simp add: addr_def line_of_def)
  show "pixel_addr p c = addr c p" using u w by (simp add: pixel_addr_def)
  show "frame_addr_at p c = addr c p" using u w b(1) by (simp add: frame_addr_at_def)
qed

lemma screen_addr:
  assumes "config_ok (fb_config fb)" "in_rect p (screen fb)"
  shows "frame_addr_at p (fb_config fb) = addr (fb_config fb) p" "pixel_addr p (fb_config fb) = addr (fb_config fb) p"
    "0 \<le> vx p" "vx p < line_of (fb_config fb)"
  using assms config_ok_bounds [OF assms(1)] config_ok_size [OF assms(1)]
  by (auto simp: in_rect_def intro!: addr_eq)

text \<open>A byte of a pixel is in row \<open>k\<close> of a block only if the pixel is.\<close>

lemma addr_in_row:
  assumes "0 < l" "0 \<le> x" "x < l" "0 \<le> cx" "cx + w \<le> l" "0 \<le> b" "b < 4"
  shows "4 * (l * cy + cx) \<le> 4 * (l * y + x) + b \<and> 4 * (l * y + x) + b < 4 * (l * cy + cx) + 4 * w \<longleftrightarrow>
    y = cy \<and> cx \<le> x \<and> x < cx + (w :: int)"
proof (cases y cy rule: linorder_cases)
  case less
  then have "l * (y + 1) \<le> l * cy" using assms(1) by (intro mult_left_mono) auto
  then show ?thesis using less assms by (simp add: algebra_simps)
next
  case greater
  then have "l * (cy + 1) \<le> l * y" using assms(1) by (intro mult_left_mono) auto
  then show ?thesis using greater assms by (simp add: algebra_simps)
next
  case equal
  then show ?thesis using assms by auto
qed

lemma copy_rows_miss:
  "\<forall>k<h. \<not> (d + int k * dl \<le> a \<and> a < d + int k * dl + n) \<Longrightarrow> copy_rows h d s n dl sl dm sm a = dm a"
proof (induction h arbitrary: d s dm)
  case (Suc h)
  have "\<not> (d \<le> a \<and> a < d + n)" using Suc.prems [rule_format, of 0] by simp
  moreover have "\<forall>k<h. \<not> (d + dl + int k * dl \<le> a \<and> a < d + dl + int k * dl + n)"
    using Suc.prems [rule_format, of "Suc _"] by (simp add: algebra_simps)
  ultimately show ?case using Suc.IH [of "d + dl" "s + sl" "copy_bytes d s n dm sm"] by (auto simp: copy_bytes_def)
qed simp

lemma copy_rows_hit:
  assumes "n \<le> dl \<or> n \<le> - dl"
  shows "k < h \<Longrightarrow> 0 \<le> j \<Longrightarrow> j < n \<Longrightarrow>
    copy_rows h d s n dl sl dm sm (d + int k * dl + j) = sm (s + int k * sl + j)"
proof (induction h arbitrary: d s dm k)
  case (Suc h)
  show ?case
  proof (cases k)
    case 0
    have "\<forall>i<h. \<not> (d + dl + int i * dl \<le> d + j \<and> d + j < d + dl + int i * dl + n)"
    proof (intro allI impI)
      fix i
      have "n \<le> dl \<longrightarrow> 0 \<le> int i * dl" "n \<le> - dl \<longrightarrow> int i * dl \<le> 0"
        using Suc.prems by (auto intro: mult_nonneg_nonneg mult_nonneg_nonpos)
      then show "\<not> (d + dl + int i * dl \<le> d + j \<and> d + j < d + dl + int i * dl + n)" using Suc.prems assms by linarith
    qed
    then show ?thesis
      using copy_rows_miss [of h "d + dl" dl "d + j" n "s + sl" sl "copy_bytes d s n dm sm" sm] Suc.prems 0
      by (simp add: copy_bytes_def add.commute)
  next
    case (Suc i)
    then show ?thesis
      using Suc.IH [of i "d + dl" "s + sl" "copy_bytes d s n dm sm"] Suc.prems
      by (simp add: algebra_simps)
  qed
qed simp

section \<open>\<^verbatim>\<open>Copy\<close>\<close>

text \<open>Rows of \<open>w\<close> pixels copied from \<open>sp\<close> on to \<open>dp\<close> on, seen at a byte of a pixel of the destination.\<close>

lemma copy_rows_pixel:
  assumes l: "0 < line_of dc" "0 \<le> vx p" "vx p < line_of dc" "0 \<le> vx dp" "vx dp + w \<le> line_of dc" "0 \<le> b" "b < 4"
  shows "copy_rows h (addr dc dp) (addr sc sp) (4 * w) (4 * line_of dc) (4 * line_of sc) dm sm (addr dc p + b) =
    (if in_rect p (Rect dp (Vec w (int h))) then sm (addr sc (p - dp + sp) + b) else dm (addr dc p + b))"
proof (cases "in_rect p (Rect dp (Vec w (int h)))")
  case True
  define k where "k = nat (vy p - vy dp)"
  define j where "j = 4 * (vx p - vx dp) + b"
  have k: "k < h" "int k = vy p - vy dp" and j: "0 \<le> j" "j < 4 * w"
    using True l by (auto simp: in_rect_def k_def j_def)
  have "addr dc p + b = addr dc dp + int k * (4 * line_of dc) + j"
    by (simp add: addr_def k j_def algebra_simps)
  moreover have "addr sc (p - dp + sp) + b = addr sc sp + int k * (4 * line_of sc) + j"
    by (simp add: addr_def k j_def algebra_simps)
  ultimately show ?thesis using copy_rows_hit [of "4 * w" "4 * line_of dc" k h j] k j l True by simp
next
  case False
  have "\<not> (addr dc dp + int k * (4 * line_of dc) \<le> addr dc p + b \<and>
      addr dc p + b < addr dc dp + int k * (4 * line_of dc) + 4 * w)" if k: "k < h" for k
  proof -
    have "addr dc dp + int k * (4 * line_of dc) = 4 * (line_of dc * (vy dp + int k) + vx dp)"
      by (simp add: addr_def algebra_simps)
    then show ?thesis
      using addr_in_row [of "line_of dc" "vx p" "vx dp" w b "vy dp + int k" "vy p"] l False k
      by (auto simp: addr_def in_rect_def)
  qed
  then have "copy_rows h (addr dc dp) (addr sc sp) (4 * w) (4 * line_of dc) (4 * line_of sc) dm sm (addr dc p + b) = dm (addr dc p + b)"
    by (intro copy_rows_miss) blast
  then show ?thesis using False by simp
qed

lemma copy_rows_zero_width: "n \<le> 0 \<Longrightarrow> copy_rows h d s n dl sl dm sm = dm"
proof (induction h arbitrary: d s dm)
  case (Suc h)
  have "copy_bytes d s n dm sm = dm" using Suc.prems by (auto simp: copy_bytes_def fun_eq_iff)
  then show ?case using Suc by simp
qed simp

lemma fb_copy_byte:
  assumes c: "config_ok (fb_config fb)" "config_ok (fb_config src)" "pixel_format (fb_config fb) = pixel_format (fb_config src)"
    and p: "in_rect p (screen fb)" and b: "0 \<le> b" "b < 4"
    and area: "area = copy_area (fb_config fb) dst_pos (fb_config src) src_area" "0 \<le> vy (rsize src_area)"
  shows "fb_mem (snd (fb_copy dst_pos src src_area fb)) (addr (fb_config fb) p + b) =
    (if in_rect p area then fb_mem src (addr (fb_config src) (p - dst_pos + rpos src_area) + b)
     else fb_mem fb (addr (fb_config fb) p + b))"
proof -
  let ?d = "fb_config fb" and ?s = "fb_config src" and ?sp = "rpos area - (dst_pos - rpos src_area)"
  note bd = config_ok_bounds [OF c(1)] config_ok_size [OF c(1)] and bs = config_ok_bounds [OF c(2)] config_ok_size [OF c(2)]
  have in_area: "in_rect q area \<longleftrightarrow> in_rect q (screen fb) \<and> in_rect (q - dst_pos + rpos src_area) (screen src) \<and>
      in_rect q (Rect dst_pos (rsize src_area))" for q
    unfolding area copy_area_def in_rect_inter by (auto simp: in_rect_def)
  have mem: "fb_mem (snd (fb_copy dst_pos src src_area fb)) =
      copy_rows (nat (vy (rsize area))) (frame_addr_at (rpos area) ?d) (frame_addr_at ?sp ?s) (4 * vx (rsize area))
        (4 * line_of ?d) (4 * line_of ?s) (fb_mem fb) (fb_mem src)"
    using bd bs c(3) by (simp add: fb_copy_def area Let_def)
  show ?thesis
  proof (cases "0 < vx (rsize area) \<and> 0 < vy (rsize area)")
    case False
    then have "\<not> in_rect p area" by (auto simp: in_rect_def)
    moreover have "fb_mem (snd (fb_copy dst_pos src src_area fb)) = fb_mem fb"
      unfolding mem using False copy_rows_zero_width by (cases "0 < vy (rsize area)") auto
    ultimately show ?thesis by simp
  next
    case True
    let ?first = "rpos area" and ?last = "rpos area + Vec (vx (rsize area) - 1) 0"
    have corners: "in_rect ?first area" "in_rect ?last area" using True by (auto simp: in_rect_def)
    then have f: "in_rect ?first (screen fb)" "in_rect ?sp (screen src)" and l: "in_rect ?last (screen fb)"
      unfolding in_area by (auto simp: in_rect_def)
    have width: "0 \<le> vx ?first" "vx ?first + vx (rsize area) \<le> line_of ?d"
      using f(1) l bd by (auto simp: in_rect_def)
    have "area = Rect ?first (Vec (vx (rsize area)) (int (nat (vy (rsize area)))))"
      using True by (cases area; cases "rsize area") auto
    then have r: "in_rect p (Rect ?first (Vec (vx (rsize area)) (int (nat (vy (rsize area)))))) = in_rect p area" by simp
    have q: "p - ?first + ?sp = p - dst_pos + rpos src_area"
      by (cases p; cases dst_pos; cases "rpos area"; cases "rpos src_area") simp
    show ?thesis
      unfolding mem screen_addr(1) [OF c(1) f(1)] screen_addr(1) [OF c(2) f(2)]
      using copy_rows_pixel [of ?d p ?first "vx (rsize area)" b "nat (vy (rsize area))" ?s ?sp "fb_mem fb" "fb_mem src"]
        bd(3) screen_addr(3,4) [OF c(1) p] width b unfolding r q by blast
  qed
qed

lemma fb_copy_pixels_here:
  assumes "config_ok (fb_config fb)" "config_ok (fb_config src)" "pixel_format (fb_config fb) = pixel_format (fb_config src)"
    and "0 \<le> vx (rsize src_area)" "0 \<le> vy (rsize src_area)" and p: "in_rect p (screen fb)"
  shows "fst (fb_copy dst_pos src src_area fb) = kSuccess \<and>
    pixel_at (snd (fb_copy dst_pos src src_area fb)) p =
      (let q = p - dst_pos + rpos src_area
       in if in_rect q src_area \<and> in_rect q (screen src) then pixel_at src q else pixel_at fb p)"
proof -
  let ?q = "p - dst_pos + rpos src_area"
  let ?fb = "snd (fb_copy dst_pos src src_area fb)"
  define area where "area = copy_area (fb_config fb) dst_pos (fb_config src) src_area"
  have in_area: "in_rect p area \<longleftrightarrow> in_rect ?q src_area \<and> in_rect ?q (screen src)"
    using p unfolding area_def copy_area_def in_rect_inter by (auto simp: in_rect_def)
  have bytes: "fb_mem ?fb (addr (fb_config fb) p + b) =
      (if in_rect p area then fb_mem src (addr (fb_config src) ?q + b) else fb_mem fb (addr (fb_config fb) p + b))"
    if "0 \<le> b" "b < 4" for b
    using fb_copy_byte [OF assms(1-3) p that area_def assms(5)] .
  have conf: "fb_config ?fb = fb_config fb" and ok: "fst (fb_copy dst_pos src src_area fb) = kSuccess"
    using config_ok_bounds(1) [OF assms(1)] assms(3) by (simp_all add: fb_copy_def Let_def)
  have pa: "pixel_addr p (fb_config fb) = addr (fb_config fb) p" using screen_addr(2) [OF assms(1) p] .
  have "pixel_at ?fb p = (if in_rect p area then pixel_at src ?q else pixel_at fb p)"
  proof (cases "in_rect p area")
    case True
    then have "pixel_addr ?q (fb_config src) = addr (fb_config src) ?q"
      using screen_addr(2) [OF assms(2)] in_area by blast
    then show ?thesis
      using bytes [of 0] bytes [of 1] bytes [of 2] pa conf assms(3) True
      by (simp add: pixel_at_def Let_def split: pixel_format.splits)
  next
    case False
    then show ?thesis
      using bytes [of 0] bytes [of 1] bytes [of 2] pa conf
      by (simp add: pixel_at_def Let_def split: pixel_format.splits)
  qed
  then show ?thesis using ok in_area by (simp add: Let_def)
qed

text \<open>\<^verbatim>\<open>FrameBuffer::Copy(dst_pos, src, src_area)\<close> between buffers of one pixel format: a pixel of the
  destination whose counterpart in the source lies in \<^verbatim>\<open>src_area\<close> and in the source's screen gets that
  pixel's colour, and every other pixel of the destination keeps its own. Areas that reach over an edge of
  either buffer are clipped.\<close>

theorem fb_copy_pixels:
  assumes "config_ok (fb_config fb)" "config_ok (fb_config src)" "pixel_format (fb_config fb) = pixel_format (fb_config src)"
    and "0 \<le> vx (rsize src_area)" "0 \<le> vy (rsize src_area)" and p: "in_rect p (screen fb)"
  shows "fst (fb_copy dst_pos src src_area fb) = kSuccess \<and>
    pixel_at (snd (fb_copy dst_pos src src_area fb)) p =
      (let q = p - dst_pos + rpos src_area
       in if in_rect q src_area \<and> in_rect q (screen src) then pixel_at src q else pixel_at fb p)"
  by (rule fb_copy_pixels_here [OF assms])

section \<open>\<^verbatim>\<open>Move\<close>\<close>

text \<open>Moving rows within one memory is copying them from the old memory, as long as no row is read after
  it was overwritten.\<close>

lemma move_rows_copy:
  "\<forall>k<h. \<forall>a. s + int k * st \<le> a \<and> a < s + int k * st + n \<longrightarrow> m' a = m a \<Longrightarrow>
   \<forall>k<h. \<forall>i<k. \<forall>a. s + int k * st \<le> a \<and> a < s + int k * st + n \<longrightarrow>
     \<not> (d + int i * st \<le> a \<and> a < d + int i * st + n) \<Longrightarrow>
   move_rows h d s n st m' = copy_rows h d s n st st m' m"
proof (induction h arbitrary: d s m')
  case (Suc h)
  have first: "copy_bytes d s n m' m' = copy_bytes d s n m' m"
    using Suc.prems(1) [rule_format, of 0] by (auto simp: copy_bytes_def fun_eq_iff)
  have read: "copy_bytes d s n m' m a = m a"
    if "k < h" "s + st + int k * st \<le> a \<and> a < s + st + int k * st + n" for k a
    using Suc.prems(1) [rule_format, of "Suc k" a] Suc.prems(2) [rule_format, of "Suc k" 0 a] that
    by (auto simp: copy_bytes_def algebra_simps)
  have "move_rows h (d + st) (s + st) n st (copy_bytes d s n m' m) =
      copy_rows h (d + st) (s + st) n st st (copy_bytes d s n m' m) m"
  proof (rule Suc.IH)
    show "\<forall>k<h. \<forall>a. s + st + int k * st \<le> a \<and> a < s + st + int k * st + n \<longrightarrow> copy_bytes d s n m' m a = m a"
      using read by blast
    show "\<forall>k<h. \<forall>i<k. \<forall>a. s + st + int k * st \<le> a \<and> a < s + st + int k * st + n \<longrightarrow>
        \<not> (d + st + int i * st \<le> a \<and> a < d + st + int i * st + n)"
      using Suc.prems(2) [rule_format, of "Suc _" "Suc _"] by (simp add: algebra_simps)
  qed
  then show ?case using first by simp
qed simp

text \<open>Copying the rows from the last to the first gives the same pixels.\<close>

lemma copy_rows_pixel_down:
  assumes l: "0 < line_of c" "0 \<le> vx p" "vx p < line_of c" "0 \<le> vx dp" "vx dp + w \<le> line_of c" "0 \<le> b" "b < 4"
  shows "copy_rows h (addr c (dp + Vec 0 (int h - 1))) (addr c (sp + Vec 0 (int h - 1))) (4 * w) (- (4 * line_of c)) (- (4 * line_of c)) dm sm (addr c p + b) =
    (if in_rect p (Rect dp (Vec w (int h))) then sm (addr c (p - dp + sp) + b) else dm (addr c p + b))"
proof (cases "in_rect p (Rect dp (Vec w (int h)))")
  case True
  define k where "k = nat (vy dp + int h - 1 - vy p)"
  define j where "j = 4 * (vx p - vx dp) + b"
  have k: "k < h" "int k = vy dp + int h - 1 - vy p" and j: "0 \<le> j" "j < 4 * w"
    using True l by (auto simp: in_rect_def k_def j_def)
  have "addr c p + b = addr c (dp + Vec 0 (int h - 1)) + int k * (- (4 * line_of c)) + j"
    by (simp add: addr_def k j_def algebra_simps)
  moreover have "addr c (p - dp + sp) + b = addr c (sp + Vec 0 (int h - 1)) + int k * (- (4 * line_of c)) + j"
    by (simp add: addr_def k j_def algebra_simps)
  ultimately show ?thesis using copy_rows_hit [of "4 * w" "- (4 * line_of c)" k h j] k j l True by simp
next
  case False
  have "\<not> (addr c (dp + Vec 0 (int h - 1)) + int k * (- (4 * line_of c)) \<le> addr c p + b \<and>
      addr c p + b < addr c (dp + Vec 0 (int h - 1)) + int k * (- (4 * line_of c)) + 4 * w)" if k: "k < h" for k
  proof -
    have "addr c (dp + Vec 0 (int h - 1)) + int k * (- (4 * line_of c)) =
        4 * (line_of c * (vy dp + int h - 1 - int k) + vx dp)"
      by (simp add: addr_def algebra_simps)
    then show ?thesis
      using addr_in_row [of "line_of c" "vx p" "vx dp" w b "vy dp + int h - 1 - int k" "vy p"] l False k
      by (auto simp: addr_def in_rect_def)
  qed
  then have "copy_rows h (addr c (dp + Vec 0 (int h - 1))) (addr c (sp + Vec 0 (int h - 1))) (4 * w) (- (4 * line_of c)) (- (4 * line_of c)) dm sm (addr c p + b) = dm (addr c p + b)"
    by (intro copy_rows_miss) blast
  then show ?thesis using False by simp
qed

text \<open>Two row segments of different lines have no byte in common.\<close>

lemma rows_disjoint:
  assumes "0 < l" "0 \<le> x" "x + w \<le> l" "0 \<le> x'" "x' + w \<le> l" "y \<noteq> y'"
    and "4 * (l * y + x) \<le> a" "a < 4 * (l * y + x) + 4 * w"
  shows "\<not> (4 * (l * y' + x') \<le> a \<and> a < 4 * (l * y' + x') + 4 * (w :: int))"
proof (cases "y < y'")
  case True
  then have "l * (y + 1) \<le> l * y'" using assms(1) by (intro mult_left_mono) auto
  then show ?thesis using assms by (simp add: algebra_simps)
next
  case False
  then have "l * (y' + 1) \<le> l * y" using assms(1,6) by (intro mult_left_mono) auto
  then show ?thesis using assms by (simp add: algebra_simps)
qed

lemma fb_move_byte:
  assumes c: "config_ok (fb_config fb)" and p: "in_rect p (screen fb)" and b: "0 \<le> b" "b < 4"
    and inside: "in_rect dst_pos (screen fb)" "in_rect (rpos src) (screen fb)"
      "in_rect (dst_pos + rsize src - Vec 1 1) (screen fb)" "in_rect (rpos src + rsize src - Vec 1 1) (screen fb)"
    and sizes: "0 < vx (rsize src)" "0 < vy (rsize src)" and diff: "vy dst_pos \<noteq> vy (rpos src)"
  shows "fb_mem (fb_move dst_pos src fb) (addr (fb_config fb) p + b) =
    (if in_rect p (Rect dst_pos (rsize src)) then fb_mem fb (addr (fb_config fb) (p - dst_pos + rpos src) + b)
     else fb_mem fb (addr (fb_config fb) p + b))"
proof -
  let ?c = "fb_config fb" and ?w = "vx (rsize src)" and ?h = "nat (vy (rsize src))" and ?m = "fb_mem fb"
  note bd = config_ok_bounds [OF c] config_ok_size [OF c]
  have h: "int ?h = vy (rsize src)" using sizes by simp
  have rs: "Vec ?w (int ?h) = rsize src" using h by (cases "rsize src") simp
  have x: "0 \<le> vx dst_pos" "vx dst_pos + ?w \<le> line_of ?c" "0 \<le> vx (rpos src)" "vx (rpos src) + ?w \<le> line_of ?c"
    using inside bd by (auto simp: in_rect_def)
  have end_pos: "in_rect (dst_pos + Vec 0 (vy (rsize src) - 1)) (screen fb)"
      "in_rect (rpos src + Vec 0 (vy (rsize src) - 1)) (screen fb)"
    using inside sizes by (auto simp: in_rect_def)
  note px = screen_addr(3,4) [OF c p]
  show ?thesis
  proof (cases "vy dst_pos < vy (rpos src)")
    case True
    let ?d = "addr ?c dst_pos" and ?s = "addr ?c (rpos src)" and ?st = "4 * line_of ?c"
    have "fb_mem (fb_move dst_pos src fb) = move_rows ?h ?d ?s (4 * ?w) ?st ?m"
      using True bd screen_addr(1) [OF c inside(1)] screen_addr(1) [OF c inside(2)] by (simp add: fb_move_def Let_def)
    also have "\<dots> = copy_rows ?h ?d ?s (4 * ?w) ?st ?st ?m ?m"
    proof (rule move_rows_copy)
      show "\<forall>k<?h. \<forall>i<k. \<forall>a. ?s + int k * ?st \<le> a \<and> a < ?s + int k * ?st + 4 * ?w \<longrightarrow>
          \<not> (?d + int i * ?st \<le> a \<and> a < ?d + int i * ?st + 4 * ?w)"
      proof (intro allI impI, elim conjE)
        fix k i a assume "k < ?h" "i < k" "?s + int k * ?st \<le> a" "a < ?s + int k * ?st + 4 * ?w"
        then show "\<not> (?d + int i * ?st \<le> a \<and> a < ?d + int i * ?st + 4 * ?w)"
          using rows_disjoint [of "line_of ?c" "vx (rpos src)" ?w "vx dst_pos" "vy (rpos src) + int k" "vy dst_pos + int i" a]
            True x bd(3) by (simp add: addr_def algebra_simps)
      qed
    qed simp
    finally show ?thesis
      using copy_rows_pixel [of ?c p dst_pos ?w b ?h ?c "rpos src" ?m ?m] bd(3) px x(1,2) b rs by simp
  next
    case False
    let ?d = "addr ?c (dst_pos + Vec 0 (int ?h - 1))" and ?s = "addr ?c (rpos src + Vec 0 (int ?h - 1))"
      and ?st = "- (4 * line_of ?c)"
    have "fb_mem (fb_move dst_pos src fb) = move_rows ?h ?d ?s (4 * ?w) ?st ?m"
      using False bd screen_addr(1) [OF c end_pos(1)] screen_addr(1) [OF c end_pos(2)] h by (simp add: fb_move_def Let_def)
    also have "\<dots> = copy_rows ?h ?d ?s (4 * ?w) ?st ?st ?m ?m"
    proof (rule move_rows_copy)
      show "\<forall>k<?h. \<forall>i<k. \<forall>a. ?s + int k * ?st \<le> a \<and> a < ?s + int k * ?st + 4 * ?w \<longrightarrow>
          \<not> (?d + int i * ?st \<le> a \<and> a < ?d + int i * ?st + 4 * ?w)"
      proof (intro allI impI, elim conjE)
        fix k i a assume "k < ?h" "i < k" "?s + int k * ?st \<le> a" "a < ?s + int k * ?st + 4 * ?w"
        then show "\<not> (?d + int i * ?st \<le> a \<and> a < ?d + int i * ?st + 4 * ?w)"
          using rows_disjoint [of "line_of ?c" "vx (rpos src)" ?w "vx dst_pos" "vy (rpos src) + int ?h - 1 - int k" "vy dst_pos + int ?h - 1 - int i" a]
            False diff x bd(3) by (simp add: addr_def algebra_simps)
      qed
    qed simp
    finally show ?thesis
      using copy_rows_pixel_down [of ?c p dst_pos ?w b ?h "rpos src" ?m ?m] bd(3) px x(1,2) b rs by simp
  qed
qed

text \<open>\<^verbatim>\<open>FrameBuffer::Move(dst_pos, src)\<close> of a block to another line, both within the screen and
  overlapping or not: every pixel of the destination block gets the colour the pixel of \<^verbatim>\<open>src\<close> had before,
  and every other pixel of the screen keeps its own. The order of the rows (downwards when moving up,
  upwards when moving down) is what makes this hold for overlapping blocks.\<close>

theorem fb_move_pixels:
  assumes c: "config_ok (fb_config fb)" and p: "in_rect p (screen fb)"
    and inside: "in_rect dst_pos (screen fb)" "in_rect (rpos src) (screen fb)"
      "in_rect (dst_pos + rsize src - Vec 1 1) (screen fb)" "in_rect (rpos src + rsize src - Vec 1 1) (screen fb)"
    and sizes: "0 < vx (rsize src)" "0 < vy (rsize src)" and diff: "vy dst_pos \<noteq> vy (rpos src)"
  shows "pixel_at (fb_move dst_pos src fb) p =
    (if in_rect p (Rect dst_pos (rsize src)) then pixel_at fb (p - dst_pos + rpos src) else pixel_at fb p)"
proof -
  note bytes = fb_move_byte [OF c p _ _ inside sizes diff]
  have conf: "fb_config (fb_move dst_pos src fb) = fb_config fb" by (simp add: fb_move_def Let_def)
  have pa: "pixel_addr p (fb_config fb) = addr (fb_config fb) p" using screen_addr(2) [OF c p] .
  show ?thesis
  proof (cases "in_rect p (Rect dst_pos (rsize src))")
    case True
    then have "in_rect (p - dst_pos + rpos src) (screen fb)" using inside by (auto simp: in_rect_def)
    then have "pixel_addr (p - dst_pos + rpos src) (fb_config fb) = addr (fb_config fb) (p - dst_pos + rpos src)"
      using screen_addr(2) [OF c] by blast
    then show ?thesis
      using bytes [of 0] bytes [of 1] bytes [of 2] pa conf True by (simp add: pixel_at_def Let_def split: pixel_format.splits)
  next
    case False
    then show ?thesis
      using bytes [of 0] bytes [of 1] bytes [of 2] pa conf by (simp add: pixel_at_def Let_def split: pixel_format.splits)
  qed
qed

section \<open>Single pixels\<close>

lemma write_pixel_config [simp]: "fb_config (write_pixel w fb) = fb_config fb"
  by (simp add: write_pixel_def Let_def split: prod.split pixel_format.split)

lemma pixel_at_write:
  assumes c: "config_ok (fb_config fb)" and p: "in_rect p (screen fb)" and q: "in_rect q (screen fb)"
  shows "pixel_at (write_pixel (q, col) fb) p = (if p = q then col else pixel_at fb p)"
proof -
  let ?l = "line_of (fb_config fb)"
  note pa = screen_addr [OF c p] and qa = screen_addr [OF c q]
  have f: "pixel_format (fb_config fb) \<noteq> kPixelUnknown" using c by (simp add: config_ok_def)
  show ?thesis
  proof (cases "p = q")
    case True
    then show ?thesis using f by (cases "pixel_format (fb_config fb)") (simp_all add: pixel_at_def write_pixel_def Let_def)
  next
    case False
    have "\<not> (addr (fb_config fb) q \<le> addr (fb_config fb) p + b \<and> addr (fb_config fb) p + b < addr (fb_config fb) q + 4)"
      if "0 \<le> b" "b < 4" for b
      using addr_in_row [of ?l "vx p" "vx q" 1 b "vy q" "vy p"] pa(3,4) qa(3,4) that False
      by (auto simp: addr_def vec2.expand)
    then have ne: "addr (fb_config fb) p + b \<noteq> addr (fb_config fb) q + k" if "0 \<le> b" "b < 4" "0 \<le> k" "k < 4" for b k
      using that by force
    have other: "((fb_mem fb)(addr (fb_config fb) q := x, addr (fb_config fb) q + 1 := y, addr (fb_config fb) q + 2 := z))
        (addr (fb_config fb) p + b) = fb_mem fb (addr (fb_config fb) p + b)" if "0 \<le> b" "b < 4" for x y z b
      using ne [OF that, of 0] ne [OF that, of 1] ne [OF that, of 2] by simp
    show ?thesis
      using False other [of 0] other [of 1] other [of 2] f pa(2) qa(2)
      by (cases "pixel_format (fb_config fb)") (simp_all add: pixel_at_def write_pixel_def Let_def)
  qed
qed

end
