(* ===== verification/Window.thy ===== *)
theory Window imports Frame_Buffer begin

text \<open>
  \<^verbatim>\<open>Kernel/window.{hpp,cpp}\<close>: windows with their pixels and the shadow buffer they are copied to the screen
  from. A \<^verbatim>\<open>ToplevelWindow\<close> is a window with a title. The section at the end says what \<^verbatim>\<open>DrawTo\<close> puts on
  the destination.
\<close>

(*@ Kernel/window.hpp:9-14 WindowRegion *)
datatype window_region = kTitleBar | kCloseButton | kBorder | kOther

(*@ Kernel/window.hpp:16-61 Window *)
record window =
  win_width :: int
  win_height :: int
  win_data :: "vec2 \<Rightarrow> pixel_color"
  transparent_color :: "pixel_color option"
  shadow_buffer :: frame_buffer
  win_title :: "bytes option"

definition win_size :: "window \<Rightarrow> vec2" where
  "win_size w = Vec (win_width w) (win_height w)"

text \<open>Where the shadow buffer has an unknown format the constructor only logs it.\<close>

(*@ Kernel/window.cpp:47-63 Window::Window *)
definition new_window :: "int \<Rightarrow> int \<Rightarrow> pixel_format \<Rightarrow> window" where
  "new_window width height shadow_format =
    \<lparr>win_width = width, win_height = height, win_data = (\<lambda>_. rgb 0 0 0), transparent_color = None,
     shadow_buffer = snd (fb_initialize (\<lambda>_. 0)
       \<lparr>frame_buffer_null = True, pixels_per_scan_line = 0, horizontal_resolution = of_int width,
        vertical_resolution = of_int height, pixel_format = shadow_format\<rparr>),
     win_title = None\<rparr>"

(*@ Kernel/window.cpp:101-104 Window::Write *)
definition win_write :: "vec2 \<times> pixel_color \<Rightarrow> window \<Rightarrow> window" where
  "win_write d w =
    w\<lparr>win_data := (win_data w)(fst d := snd d), shadow_buffer := write_pixel d (shadow_buffer w)\<rparr>"

definition win_draw :: "drawing \<Rightarrow> window \<Rightarrow> window" where
  "win_draw ds w = fold win_write ds w"

(*@ Kernel/window.cpp:72-87 Window::DrawTo *)
definition transparent_pixels :: "pixel_color \<Rightarrow> window \<Rightarrow> vec2 \<Rightarrow> frame_buffer_config \<Rightarrow> drawing" where
  "transparent_pixels tc w pos dst =
    concat (map (\<lambda>y. concat (map (\<lambda>x.
        if win_data w (Vec x y) \<noteq> tc then [(pos + Vec x y, win_data w (Vec x y))] else [])
      [max 0 (0 - vx pos)..min (win_width w) (vx (frame_buffer_size dst) - vx pos) - 1]))
    [max 0 (0 - vy pos)..min (win_height w) (vy (frame_buffer_size dst) - vy pos) - 1])"

(*@ Kernel/window.cpp:65-87 Window::DrawTo *)
definition win_draw_to :: "window \<Rightarrow> vec2 \<Rightarrow> rect \<Rightarrow> frame_buffer \<Rightarrow> frame_buffer" where
  "win_draw_to w pos area dst =
    (case transparent_color w of
       None \<Rightarrow>
         let intersection = rect_inter area (Rect pos (win_size w))
         in snd (fb_copy (rpos intersection) (shadow_buffer w) (Rect (rpos intersection - pos) (rsize intersection)) dst)
     | Some tc \<Rightarrow> fold write_pixel (transparent_pixels tc w pos (fb_config dst)) dst)"

(*@ Kernel/window.cpp:118-120 Window::Move *)
definition win_move :: "vec2 \<Rightarrow> rect \<Rightarrow> window \<Rightarrow> window" where
  "win_move dst_pos src w = w\<lparr>shadow_buffer := fb_move dst_pos src (shadow_buffer w)\<rparr>"

section \<open>Toplevel windows\<close>

(*@ Kernel/window.hpp:66-66 kTopLeftMargin *)
definition top_left_margin :: vec2 where
  "top_left_margin = Vec 4 24"

(*@ Kernel/window.hpp:67-67 kBottomRightMargin *)
definition bottom_right_margin :: vec2 where
  "bottom_right_margin = Vec 4 4"

text \<open>Drawing through \<^verbatim>\<open>InnerAreaWriter\<close>.\<close>

(*@ Kernel/window.hpp:74-76 InnerAreaWriter::Write *)
definition inner_area :: "drawing \<Rightarrow> drawing" where
  "inner_area ds = map (\<lambda>(p, c). (p + top_left_margin, c)) ds"

(*@ Kernel/window.cpp:142-144 ToplevelWindow::InnerSize *)
definition inner_size :: "window \<Rightarrow> vec2" where
  "inner_size w = win_size w - top_left_margin - bottom_right_margin"

(*@ Kernel/window.cpp:122-124 Window::GetWindowRegion *)
definition plain_region :: "vec2 \<Rightarrow> window_region" where
  "plain_region pos = kOther"

(*@ Kernel/window.cpp:146-158 ToplevelWindow::GetWindowRegion *)
definition toplevel_region :: "window \<Rightarrow> vec2 \<Rightarrow> window_region" where
  "toplevel_region w pos =
    (if vx pos < 2 \<or> win_width w - 2 \<le> vx pos \<or> vy pos < 2 \<or> win_height w - 2 \<le> vy pos then kBorder
     else if vy pos < vy top_left_margin then
       if win_width w - 5 - 16 \<le> vx pos \<and> vx pos < win_width w - 5 \<and> 5 \<le> vy pos \<and> vy pos < 5 + 14
       then kCloseButton else kTitleBar
     else kOther)"

definition window_region_at :: "window \<Rightarrow> vec2 \<Rightarrow> window_region" where
  "window_region_at w pos = (if win_title w = None then plain_region pos else toplevel_region w pos)"

(*@ Kernel/window.cpp:7-22 DrawTextbox *)
definition draw_box :: "vec2 \<Rightarrow> vec2 \<Rightarrow> pixel_color \<Rightarrow> pixel_color \<Rightarrow> pixel_color \<Rightarrow> drawing" where
  "draw_box pos sz background border_light border_dark =
     fill_rectangle (pos + Vec 1 1) (sz - Vec 2 2) background @
     fill_rectangle pos (Vec (vx sz) 1) border_dark @
     fill_rectangle pos (Vec 1 (vy sz)) border_dark @
     fill_rectangle (pos + Vec 0 (vy sz)) (Vec (vx sz) 1) border_light @
     fill_rectangle (pos + Vec (vx sz) 0) (Vec 1 (vy sz)) border_light"

(*@ Kernel/window.cpp:181-184 DrawTextbox *)
definition draw_textbox :: "vec2 \<Rightarrow> vec2 \<Rightarrow> drawing" where
  "draw_textbox pos sz = draw_box pos sz (to_color 0xffffff) (to_color 0xc6c6c6) (to_color 0x848484)"

(*@ Kernel/window.cpp:186-189 DrawTerminal *)
definition draw_terminal :: "vec2 \<Rightarrow> vec2 \<Rightarrow> drawing" where
  "draw_terminal pos sz = draw_box pos sz (to_color 0) (to_color 0xc6c6c6) (to_color 0x848484)"

(*@ Kernel/window.cpp:26-44 close_button *)
definition close_button :: "string list" where
  "close_button =
    [''...............@'', ''.:::::::::::::$@'', ''.:::::::::::::$@'', ''.:::@@::::@@::$@'',
     ''.::::@@::@@:::$@'', ''.:::::@@@@::::$@'', ''.::::::@@:::::$@'', ''.:::::@@@@::::$@'',
     ''.::::@@::@@:::$@'', ''.:::@@::::@@::$@'', ''.:::::::::::::$@'', ''.:::::::::::::$@'',
     ''.$$$$$$$$$$$$$$@'', ''@@@@@@@@@@@@@@@@'']"

(*@ Kernel/window.cpp:201-212 DrawWindowTitle *)
definition draw_close_button :: "int \<Rightarrow> drawing" where
  "draw_close_button win_w =
    concat (map (\<lambda>y. map (\<lambda>x.
        let b = close_button ! y ! x
        in (Vec (win_w - 5 - 16 + int x) (5 + int y),
            if b = CHR ''@'' then to_color 0 else if b = CHR ''$'' then to_color 0x848484
            else if b = CHR '':'' then to_color 0xc6c6c6 else to_color 0xffffff))
      [0..<16]) [0..<14])"

text \<open>\<open>fonts\<close> is the font file and FreeType's answers.\<close>

type_synonym fonts = "bytes \<times> (u32 \<Rightarrow> ft_glyph option)"

(*@ Kernel/window.cpp:191-214 DrawWindowTitle *)
definition draw_window_title :: "fonts \<Rightarrow> int \<Rightarrow> bytes \<Rightarrow> bool \<Rightarrow> drawing option" where
  "draw_window_title fonts win_w title active =
    Option.bind (write_string (fst fonts) (snd fonts) (Vec 24 4) title (to_color 0xffffff)) (\<lambda>text.
      Some (fill_rectangle (Vec 3 3) (Vec (win_w - 6) 18) (to_color (if active then 0x000084 else 0x848484)) @
            text @ draw_close_button win_w))"

(*@ Kernel/window.cpp:160-179 DrawWindow *)
definition draw_window :: "fonts \<Rightarrow> int \<Rightarrow> int \<Rightarrow> bytes \<Rightarrow> drawing option" where
  "draw_window fonts win_w win_h title =
    Option.bind (draw_window_title fonts win_w title False) (\<lambda>title_bar. Some (
      fill_rectangle (Vec 0 0) (Vec win_w 1) (to_color 0xc6c6c6) @
      fill_rectangle (Vec 1 1) (Vec (win_w - 2) 1) (to_color 0xffffff) @
      fill_rectangle (Vec 0 0) (Vec 1 win_h) (to_color 0xc6c6c6) @
      fill_rectangle (Vec 1 1) (Vec 1 (win_h - 2)) (to_color 0xffffff) @
      fill_rectangle (Vec (win_w - 2) 1) (Vec 1 (win_h - 2)) (to_color 0x848484) @
      fill_rectangle (Vec (win_w - 1) 0) (Vec 1 win_h) (to_color 0x000000) @
      fill_rectangle (Vec 2 2) (Vec (win_w - 4) (win_h - 4)) (to_color 0xc6c6c6) @
      fill_rectangle (Vec 1 (win_h - 2)) (Vec (win_w - 2) 1) (to_color 0x848484) @
      fill_rectangle (Vec 0 (win_h - 1)) (Vec win_w 1) (to_color 0x000000) @ title_bar))"

(*@ Kernel/window.cpp:126-130 ToplevelWindow::ToplevelWindow *)
definition new_toplevel_window :: "fonts \<Rightarrow> int \<Rightarrow> int \<Rightarrow> pixel_format \<Rightarrow> bytes \<Rightarrow> window option" where
  "new_toplevel_window fonts width height shadow_format title =
    Option.bind (draw_window fonts width height title) (\<lambda>ds.
      Some (win_draw ds ((new_window width height shadow_format)\<lparr>win_title := Some title\<rparr>)))"

text \<open>\<^verbatim>\<open>Activate\<close> and \<^verbatim>\<open>Deactivate\<close>, the virtual ones: nothing for a plain window.\<close>

(*@ Kernel/window.cpp:132-140 ToplevelWindow::Activate *)
definition win_set_active :: "fonts \<Rightarrow> bool \<Rightarrow> window \<Rightarrow> window option" where
  "win_set_active fonts active w =
    (case win_title w of
       None \<Rightarrow> Some w
     | Some title \<Rightarrow>
         Option.bind (draw_window_title fonts (win_width w) title active) (\<lambda>ds. Some (win_draw ds w)))"

section \<open>What \<^verbatim>\<open>DrawTo\<close> draws\<close>

text \<open>The pixel a window at \<open>pos\<close> shows at \<open>p\<close>, if it shows one there.\<close>

definition window_pixel :: "window \<Rightarrow> vec2 \<Rightarrow> vec2 \<Rightarrow> pixel_color option" where
  "window_pixel w pos p =
    (if in_rect p (Rect pos (win_size w)) then
       case transparent_color w of
         None \<Rightarrow> Some (pixel_at (shadow_buffer w) (p - pos))
       | Some tc \<Rightarrow> if win_data w (p - pos) = tc then None else Some (win_data w (p - pos))
     else None)"

text \<open>The window's shadow buffer fits it and has the format of the destination.\<close>

definition window_ok :: "pixel_format \<Rightarrow> window \<Rightarrow> bool" where
  "window_ok f w \<longleftrightarrow> config_ok (fb_config (shadow_buffer w)) \<and> pixel_format (fb_config (shadow_buffer w)) = f \<and>
     frame_buffer_size (fb_config (shadow_buffer w)) = win_size w \<and> 0 \<le> win_width w \<and> 0 \<le> win_height w"

lemma fold_write_config [simp]: "fb_config (fold write_pixel ws fb) = fb_config fb"
  by (induction ws arbitrary: fb) auto

lemma fold_write_pixels:
  assumes "config_ok (fb_config fb)" "\<forall>(q, c) \<in> set ws. in_rect q (screen fb) \<and> c = f q" "in_rect p (screen fb)"
  shows "pixel_at (fold write_pixel ws fb) p = (if p \<in> fst ` set ws then f p else pixel_at fb p)"
  using assms
proof (induction ws arbitrary: fb)
  case (Cons w ws)
  obtain q c where w: "w = (q, c)" by (cases w)
  have "pixel_at (write_pixel w fb) p = (if p = q then f q else pixel_at fb p)"
    using pixel_at_write [OF Cons.prems(1,3), of q c] Cons.prems(2) w by simp
  then show ?case using Cons.IH [of "write_pixel w fb"] Cons.prems w by auto
qed simp

lemma vec_cancel [simp]: "pos + Vec x y = pos + Vec x' y' \<longleftrightarrow> x = x' \<and> y = y'"
  by (cases pos) simp

lemma transparent_pixels_mem:
  "(q, c) \<in> set (transparent_pixels tc w pos dst) \<longleftrightarrow>
    in_rect q (Rect (Vec 0 0) (frame_buffer_size dst)) \<and> in_rect q (Rect pos (win_size w)) \<and>
    c = win_data w (q - pos) \<and> c \<noteq> tc"
proof -
  obtain u v where q: "q = pos + Vec u v"
    by (rule that [of "vx q - vx pos" "vy q - vy pos"]) (cases q; cases pos; simp)
  have m: "q - pos = Vec u v" using q by (cases pos) simp
  show ?thesis
    unfolding m by (auto simp: transparent_pixels_def q in_rect_def win_size_def split: if_splits)
qed

lemma win_draw_to_config [simp]: "fb_config (win_draw_to w pos area dst) = fb_config dst"
  by (simp add: win_draw_to_def fb_copy_def Let_def split: option.split)

text \<open>\<^verbatim>\<open>DrawTo\<close> at a pixel of the destination: inside the area, and everywhere for a window with a transparent
  colour, the window's pixel if it shows one.\<close>

lemma win_draw_to_pixel:
  assumes w: "window_ok (pixel_format (fb_config dst)) w" and d: "config_ok (fb_config dst)" and p: "in_rect p (screen dst)"
    and area: "0 \<le> vx (rsize area)" "0 \<le> vy (rsize area)"
  shows "pixel_at (win_draw_to w pos area dst) p =
    (if in_rect p area \<or> transparent_color w \<noteq> None
     then case window_pixel w pos p of None \<Rightarrow> pixel_at dst p | Some c \<Rightarrow> c
     else pixel_at dst p)"
proof (cases "transparent_color w")
  case None
  define r where "r = rect_inter area (Rect pos (win_size w))"
  have size: "0 \<le> vx (rsize r)" "0 \<le> vy (rsize r)"
    unfolding r_def using area w by (auto intro!: rect_inter_size simp: window_ok_def win_size_def)
  have q: "p - rpos r + (rpos r - pos) = p - pos" by (cases p; cases pos; cases "rpos r") simp
  have src: "in_rect (p - pos) (Rect (rpos r - pos) (rsize r)) \<longleftrightarrow> in_rect p r" by (auto simp: in_rect_def)
  have shadow: "in_rect (p - pos) (screen (shadow_buffer w)) \<longleftrightarrow> in_rect p (Rect pos (win_size w))"
    using w by (auto simp: in_rect_def window_ok_def)
  have "pixel_at (win_draw_to w pos area dst) p =
      (let q = p - rpos r + rpos (Rect (rpos r - pos) (rsize r))
       in if in_rect q (Rect (rpos r - pos) (rsize r)) \<and> in_rect q (screen (shadow_buffer w))
          then pixel_at (shadow_buffer w) q else pixel_at dst p)"
    unfolding win_draw_to_def None option.case Let_def [of "rect_inter area (Rect pos (win_size w))"] r_def [symmetric]
    using fb_copy_pixels_here w d size p by (auto simp: window_ok_def)
  then show ?thesis unfolding Let_def rect.sel q src shadow using None by (auto simp: r_def window_pixel_def)
next
  case (Some tc)
  have pts: "p \<in> fst ` set (transparent_pixels tc w pos (fb_config dst)) \<longleftrightarrow>
      in_rect p (Rect pos (win_size w)) \<and> win_data w (p - pos) \<noteq> tc"
    using p by (auto simp: transparent_pixels_mem image_iff Bex_def)
  have "pixel_at (win_draw_to w pos area dst) p =
      (if p \<in> fst ` set (transparent_pixels tc w pos (fb_config dst)) then win_data w (p - pos) else pixel_at dst p)"
    unfolding win_draw_to_def Some option.case
    by (rule fold_write_pixels [OF d _ p]) (auto simp: transparent_pixels_mem)
  then show ?thesis unfolding pts using Some by (simp add: window_pixel_def)
qed

end
