(* ===== verification/Layer.thy ===== *)
theory Layer imports Window Message Task "HOL-Library.Monad_Syntax" begin

text \<open>
  \<^verbatim>\<open>Kernel/layer.{hpp,cpp}\<close>: the layers, the order they are stacked in, drawing them through the back
  buffer to the screen, and the active layer. A \<^verbatim>\<open>Layer*\<close> is the layer's id, a shared window an index
  into \<open>windows\<close>. \<open>None\<close> is the use of a null pointer. \<open>garbage\<close> is the value of the uninitialised local
  \<^verbatim>\<open>window_area\<close> of \<^verbatim>\<open>Draw\<close>.
\<close>

(*@ Kernel/layer.hpp:29-32 Layer *)
record layer =
  layer_id :: nat
  layer_pos :: vec2
  layer_window :: "nat option"
  draggable :: bool

(*@ Kernel/layer.hpp:52-56 LayerManager *)
record layer_manager =
  screen_fb :: frame_buffer
  back_buffer :: frame_buffer
  layers :: "layer list"
  layer_stack :: "nat list"
  latest_layer_id :: nat
  windows :: "nat \<Rightarrow> window"
  garbage :: rect

definition window_of :: "layer_manager \<Rightarrow> layer \<Rightarrow> window option" where
  "window_of lm l = map_option (windows lm) (layer_window l)"

(*@ Kernel/layer.cpp:178-187 LayerManager::FindLayer *)
definition find_layer :: "layer_manager \<Rightarrow> nat \<Rightarrow> layer option" where
  "find_layer lm i = find (\<lambda>l. layer_id l = i) (layers lm)"

definition update_layer :: "nat \<Rightarrow> (layer \<Rightarrow> layer) \<Rightarrow> layer_manager \<Rightarrow> layer_manager" where
  "update_layer i f lm = lm\<lparr>layers := map (\<lambda>l. if layer_id l = i then f l else l) (layers lm)\<rparr>"

(*@ Kernel/layer.cpp:22-25 Layer::SetWindow *)
definition set_window :: "nat \<Rightarrow> layer \<Rightarrow> layer" where
  "set_window w l = l\<lparr>layer_window := Some w\<rparr>"

(*@ Kernel/layer.cpp:35-38 Layer::SetDraggable *)
definition set_draggable :: "bool \<Rightarrow> layer \<Rightarrow> layer" where
  "set_draggable d l = l\<lparr>draggable := d\<rparr>"

(*@ Kernel/layer.cpp:44-47 Layer::Move *)
definition layer_move_to :: "vec2 \<Rightarrow> layer \<Rightarrow> layer" where
  "layer_move_to p l = l\<lparr>layer_pos := p\<rparr>"

(*@ Kernel/layer.cpp:49-52 Layer::MoveRelative *)
definition layer_move_by :: "vec2 \<Rightarrow> layer \<Rightarrow> layer" where
  "layer_move_by d l = l\<lparr>layer_pos := layer_pos l + d\<rparr>"

(*@ Kernel/layer.cpp:54-58 Layer::DrawTo *)
definition layer_draw_to :: "layer_manager \<Rightarrow> layer \<Rightarrow> rect \<Rightarrow> frame_buffer \<Rightarrow> frame_buffer" where
  "layer_draw_to lm l area fb =
    (case window_of lm l of None \<Rightarrow> fb | Some w \<Rightarrow> win_draw_to w (layer_pos l) area fb)"

section \<open>The layer manager\<close>

(*@ Kernel/layer.cpp:61-67 LayerManager::SetWriter *)
definition set_writer :: "frame_buffer \<Rightarrow> layer_manager \<Rightarrow> layer_manager" where
  "set_writer scr lm =
    lm\<lparr>screen_fb := scr, back_buffer := snd (fb_initialize (\<lambda>_. 0) ((fb_config scr)\<lparr>frame_buffer_null := True\<rparr>))\<rparr>"

(*@ Kernel/layer.cpp:69-72 LayerManager::NewLayer *)
definition new_layer :: "layer_manager \<Rightarrow> nat \<times> layer_manager" where
  "new_layer lm =
    (let i = (latest_layer_id lm + 1) mod 2 ^ 32
     in (i, lm\<lparr>latest_layer_id := i,
          layers := layers lm @ [\<lparr>layer_id = i, layer_pos = Vec 0 0, layer_window = None, draggable = False\<rparr>]\<rparr>))"

definition draw_stacked :: "layer_manager \<Rightarrow> rect \<Rightarrow> nat \<Rightarrow> frame_buffer \<Rightarrow> frame_buffer" where
  "draw_stacked lm area i fb = (case find_layer lm i of None \<Rightarrow> fb | Some l \<Rightarrow> layer_draw_to lm l area fb)"

(*@ Kernel/layer.cpp:74-79 LayerManager::Draw *)
definition draw_area :: "rect \<Rightarrow> layer_manager \<Rightarrow> layer_manager" where
  "draw_area area lm =
    (let back = fold (draw_stacked lm area) (layer_stack lm) (back_buffer lm)
     in lm\<lparr>back_buffer := back, screen_fb := snd (fb_copy (rpos area) back area (screen_fb lm))\<rparr>)"

text \<open>The loop of the other \<^verbatim>\<open>Draw\<close>: \<open>draw\<close>, \<open>area\<close> and \<open>window_area\<close> are its local variables.\<close>

(*@ Kernel/layer.cpp:88-101 LayerManager::Draw *)
primrec draw_loop :: "layer_manager \<Rightarrow> nat \<Rightarrow> nat list \<Rightarrow> bool \<Rightarrow> rect \<Rightarrow> rect \<Rightarrow> frame_buffer \<Rightarrow> (frame_buffer \<times> rect) option" where
  "draw_loop lm i [] draw area window_area fb = Some (fb, window_area)"
| "draw_loop lm i (j # js) draw area window_area fb =
    (if j = i then do {
       l \<leftarrow> find_layer lm j;
       w \<leftarrow> window_of lm l;
       let whole = Rect (layer_pos l) (win_size w);
       if 0 \<le> vx (rsize area) \<or> 0 \<le> vy (rsize area) then
         let area1 = Rect (rpos area + rpos whole) (rsize area); wa = rect_inter whole area1
         in draw_loop lm i js True area1 wa (draw_stacked lm wa j fb)
       else draw_loop lm i js True area whole (draw_stacked lm whole j fb) }
     else draw_loop lm i js draw area window_area (if draw then draw_stacked lm window_area j fb else fb))"

(*@ Kernel/layer.cpp:85-103 LayerManager::Draw *)
definition draw_layer_area :: "nat \<Rightarrow> rect \<Rightarrow> layer_manager \<Rightarrow> layer_manager option" where
  "draw_layer_area i area lm =
    do { (back, wa) \<leftarrow> draw_loop lm i (layer_stack lm) False area (garbage lm) (back_buffer lm);
         Some (lm\<lparr>back_buffer := back, screen_fb := snd (fb_copy (rpos wa) back wa (screen_fb lm))\<rparr>) }"

(*@ Kernel/layer.cpp:81-83 LayerManager::Draw *)
definition draw_layer :: "nat \<Rightarrow> layer_manager \<Rightarrow> layer_manager option" where
  "draw_layer i lm = draw_layer_area i (Rect (Vec 0 0) (Vec (-1) (-1))) lm"

definition move_with :: "nat \<Rightarrow> (layer \<Rightarrow> layer) \<Rightarrow> layer_manager \<Rightarrow> layer_manager option" where
  "move_with i f lm =
    do { l \<leftarrow> find_layer lm i;
         w \<leftarrow> window_of lm l;
         draw_layer i (draw_area (Rect (layer_pos l) (win_size w)) (update_layer i f lm)) }"

(*@ Kernel/layer.cpp:105-112 LayerManager::Move *)
definition lm_move :: "nat \<Rightarrow> vec2 \<Rightarrow> layer_manager \<Rightarrow> layer_manager option" where
  "lm_move i new_pos lm = move_with i (layer_move_to new_pos) lm"

(*@ Kernel/layer.cpp:114-121 LayerManager::MoveRelative *)
definition lm_move_relative :: "nat \<Rightarrow> vec2 \<Rightarrow> layer_manager \<Rightarrow> layer_manager option" where
  "lm_move_relative i pos_diff lm = move_with i (layer_move_by pos_diff) lm"

definition insert_at :: "nat \<Rightarrow> 'a \<Rightarrow> 'a list \<Rightarrow> 'a list" where
  "insert_at k x xs = take k xs @ x # drop k xs"

(*@ Kernel/layer.cpp:149-155 LayerManager::Hide *)
definition lm_hide :: "nat \<Rightarrow> layer_manager \<Rightarrow> layer_manager" where
  "lm_hide i lm = (if find_layer lm i = None then lm else lm\<lparr>layer_stack := remove1 i (layer_stack lm)\<rparr>)"

text \<open>The erased element's place closes up before the insertion, at the same index of the vector.\<close>

(*@ Kernel/layer.cpp:123-147 LayerManager::UpDown *)
definition up_down :: "nat \<Rightarrow> int \<Rightarrow> layer_manager \<Rightarrow> layer_manager option" where
  "up_down i new_height lm =
    (if new_height < 0 then Some (lm_hide i lm)
     else if find_layer lm i = None then None
     else
       let n = length (layer_stack lm); h = min (nat new_height) n
       in if i \<notin> set (layer_stack lm) then Some (lm\<lparr>layer_stack := insert_at h i (layer_stack lm)\<rparr>)
          else Some (lm\<lparr>layer_stack := insert_at (if h = n then h - 1 else h) i (remove1 i (layer_stack lm))\<rparr>))"

(*@ Kernel/layer.cpp:157-176 LayerManager::FindLayerByPosition *)
definition find_layer_by_position :: "vec2 \<Rightarrow> nat \<Rightarrow> layer_manager \<Rightarrow> nat option" where
  "find_layer_by_position pos exclude_id lm =
    find (\<lambda>i. i \<noteq> exclude_id \<and>
        (case find_layer lm i of None \<Rightarrow> False
         | Some l \<Rightarrow> (case window_of lm l of None \<Rightarrow> False | Some w \<Rightarrow> in_rect pos (Rect (layer_pos l) (win_size w)))))
      (rev (layer_stack lm))"

(*@ Kernel/layer.cpp:189-196 LayerManager::GetHeight *)
definition get_height :: "nat \<Rightarrow> layer_manager \<Rightarrow> int" where
  "get_height i lm =
    (case find (\<lambda>h. layer_stack lm ! h = i) [0..<length (layer_stack lm)] of None \<Rightarrow> -1 | Some h \<Rightarrow> int h)"

(*@ Kernel/layer.cpp:198-205 LayerManager::RemoveLayer *)
definition remove_layer :: "nat \<Rightarrow> layer_manager \<Rightarrow> layer_manager" where
  "remove_layer i lm = (let lm1 = lm_hide i lm in lm1\<lparr>layers := filter (\<lambda>l. layer_id l \<noteq> i) (layers lm1)\<rparr>)"

section \<open>The active layer\<close>

(*@ Kernel/layer.hpp:62-72 ActiveLayer *)
record gui =
  manager :: layer_manager
  active_layer :: nat
  mouse_layer :: nat
  layer_task_map :: "nat \<rightharpoonup> nat"
  gui_tasks :: task_manager

(*@ Kernel/layer.cpp:210-218 SendWindowActiveMessage *)
definition send_window_active_message :: "nat \<Rightarrow> int \<Rightarrow> gui \<Rightarrow> error_code \<times> gui" where
  "send_window_active_message i activate g =
    (case layer_task_map g i of
       None \<Rightarrow> (kNoSuchTask, g)
     | Some tid \<Rightarrow>
         (let (err, tm) = send_message tid ((plain_message kWindowActive)\<lparr>msg_arg := Window_Active_Arg activate\<rparr>) (gui_tasks g)
          in (err, g\<lparr>gui_tasks := tm\<rparr>)))"

text \<open>\<^verbatim>\<open>layer->GetWindow()->Activate()\<close> or \<^verbatim>\<open>Deactivate()\<close>.\<close>

definition set_layer_active :: "fonts \<Rightarrow> bool \<Rightarrow> nat \<Rightarrow> layer_manager \<Rightarrow> layer_manager option" where
  "set_layer_active fonts active i lm =
    do { l \<leftarrow> find_layer lm i;
         h \<leftarrow> layer_window l;
         w \<leftarrow> win_set_active fonts active (windows lm h);
         Some (lm\<lparr>windows := (windows lm)(h := w)\<rparr>) }"

(*@ Kernel/layer.cpp:231-252 ActiveLayer::Activate *)
definition activate :: "fonts \<Rightarrow> nat \<Rightarrow> gui \<Rightarrow> gui option" where
  "activate fonts i g =
    (if active_layer g = i then Some g
     else do {
       g1 \<leftarrow>
         (if 0 < active_layer g then do {
            lm \<leftarrow> set_layer_active fonts False (active_layer g) (manager g);
            lm \<leftarrow> draw_layer (active_layer g) lm;
            Some (snd (send_window_active_message (active_layer g) 0 (g\<lparr>manager := lm\<rparr>))) }
          else Some g);
       let g2 = g1\<lparr>active_layer := i\<rparr>;
       if 0 < i then do {
         lm \<leftarrow> set_layer_active fonts True i (manager g2);
         lm \<leftarrow> up_down i 0 lm;
         lm \<leftarrow> up_down i (get_height (mouse_layer g2) lm - 1) lm;
         lm \<leftarrow> draw_layer i lm;
         Some (snd (send_window_active_message i 1 (g2\<lparr>manager := lm\<rparr>))) }
       else Some g2 })"

(*@ Kernel/layer.cpp:296-313 ProcessLayerMessage *)
definition process_layer_message :: "message \<Rightarrow> layer_manager \<Rightarrow> layer_manager option" where
  "process_layer_message msg lm =
    (case msg_arg msg of
       Layer_Arg op i x y w h \<Rightarrow>
         (case op of
            Op_Move \<Rightarrow> lm_move i (Vec x y) lm
          | Op_MoveRelative \<Rightarrow> lm_move_relative i (Vec x y) lm
          | Op_Draw \<Rightarrow> draw_layer i lm
          | Op_DrawArea \<Rightarrow> draw_layer_area i (Rect (Vec x y) (Vec w h)) lm)
     | _ \<Rightarrow> Some lm)"

(*@ Kernel/layer.hpp:82-92 MakeLayerMessage *)
definition make_layer_message :: "nat \<Rightarrow> nat \<Rightarrow> layer_operation \<Rightarrow> rect \<Rightarrow> message" where
  "make_layer_message tid i op area =
    \<lparr>msg_type = kLayer, msg_src_task = tid,
     msg_arg = Layer_Arg op i (vx (rpos area)) (vy (rpos area)) (vx (rsize area)) (vy (rsize area))\<rparr>"

(*@ Kernel/layer.cpp:315-333 CloseLayer *)
definition close_layer :: "fonts \<Rightarrow> nat \<Rightarrow> gui \<Rightarrow> (error_code \<times> gui) option" where
  "close_layer fonts i g =
    (case find_layer (manager g) i of
       None \<Rightarrow> Some (kNoSuchEntry, g)
     | Some l \<Rightarrow>
         do { w \<leftarrow> window_of (manager g) l;
              g1 \<leftarrow> activate fonts 0 g;
              Some (kSuccess,
                g1\<lparr>manager := draw_area (Rect (layer_pos l) (win_size w)) (remove_layer i (manager g1)),
                   layer_task_map := (layer_task_map g1)(i := None)\<rparr>) })"

end
