(* ===== verification/Layer_Draw.thy ===== *)
theory Layer_Draw imports Layer begin

text \<open>
  What the layer manager shows: \<open>topmost\<close> is the pixel of the topmost layer of a list that shows one at a
  point. \<open>shown\<close> says that the screen and the back buffer have the topmost pixel of the stack everywhere;
  drawing an area establishes it there, and moving a layer keeps it.
\<close>

section \<open>The topmost pixel\<close>

definition stack_pixel :: "layer_manager \<Rightarrow> vec2 \<Rightarrow> nat \<Rightarrow> pixel_color option" where
  "stack_pixel lm p i =
    (case find_layer lm i of None \<Rightarrow> None
     | Some l \<Rightarrow> (case window_of lm l of None \<Rightarrow> None | Some w \<Rightarrow> window_pixel w (layer_pos l) p))"

fun topmost :: "(nat \<Rightarrow> 'c option) \<Rightarrow> nat list \<Rightarrow> 'c option" where
  "topmost f [] = None"
| "topmost f (i # is) = (case topmost f is of Some c \<Rightarrow> Some c | None \<Rightarrow> f i)"

definition over :: "'c option \<Rightarrow> 'c \<Rightarrow> 'c" where
  "over t c = (case t of None \<Rightarrow> c | Some c' \<Rightarrow> c')"

lemma over_simps [simp]: "over None c = c" "over (Some d) c = d"
  by (simp_all add: over_def)

lemma topmost_append: "topmost f (xs @ ys) = (case topmost f ys of Some c \<Rightarrow> Some c | None \<Rightarrow> topmost f xs)"
  by (induction xs) (auto split: option.splits)

lemma topmost_cong: "\<forall>i \<in> set is. f i = g i \<Longrightarrow> topmost f is = topmost g is"
  by (induction "is") (auto split: option.splits)

lemma topmost_None_iff: "topmost f is = None \<longleftrightarrow> (\<forall>i \<in> set is. f i = None)"
  by (induction "is") (auto split: option.splits)

lemma topmost_filter: "\<forall>i \<in> set is. P i \<or> f i = None \<Longrightarrow> topmost f (filter P is) = topmost f is"
  by (induction "is") (auto split: option.splits)

lemma over_over: "over (topmost f ys) (over (topmost f (xs @ ys)) c) = over (topmost f (xs @ ys)) c"
  by (auto simp: over_def topmost_append split: option.splits)

section \<open>Drawing layers\<close>

definition is_transparent :: "layer_manager \<Rightarrow> nat \<Rightarrow> bool" where
  "is_transparent lm i =
    (case find_layer lm i of None \<Rightarrow> False
     | Some l \<Rightarrow> (case window_of lm l of None \<Rightarrow> False | Some w \<Rightarrow> transparent_color w \<noteq> None))"

text \<open>Screen and back buffer have one size and format, and every window fits its shadow buffer of that format.\<close>

definition lm_ok :: "layer_manager \<Rightarrow> bool" where
  "lm_ok lm \<longleftrightarrow> config_ok (fb_config (screen_fb lm)) \<and> config_ok (fb_config (back_buffer lm)) \<and>
     frame_buffer_size (fb_config (back_buffer lm)) = frame_buffer_size (fb_config (screen_fb lm)) \<and>
     pixel_format (fb_config (back_buffer lm)) = pixel_format (fb_config (screen_fb lm)) \<and>
     (\<forall>h. window_ok (pixel_format (fb_config (screen_fb lm))) (windows lm h))"

abbreviation on_screen :: "layer_manager \<Rightarrow> vec2 \<Rightarrow> bool" where
  "on_screen lm p \<equiv> in_rect p (screen (screen_fb lm))"

lemma draw_stacked_config [simp]: "fb_config (draw_stacked lm area i fb) = fb_config fb"
  by (simp add: draw_stacked_def layer_draw_to_def split: option.split)

lemma fold_draw_config [simp]: "fb_config (fold (draw_stacked lm area) is fb) = fb_config fb"
  by (induction "is" arbitrary: fb) auto

lemma draw_stacked_pixel:
  assumes "lm_ok lm" "fb_config fb = fb_config (back_buffer lm)" "on_screen lm p"
    and "0 \<le> vx (rsize area)" "0 \<le> vy (rsize area)"
  shows "pixel_at (draw_stacked lm area i fb) p =
    (if in_rect p area \<or> is_transparent lm i then over (stack_pixel lm p i) (pixel_at fb p) else pixel_at fb p)"
proof (cases "\<exists>l w. find_layer lm i = Some l \<and> window_of lm l = Some w")
  case True
  then obtain l w where l: "find_layer lm i = Some l" and w: "window_of lm l = Some w" by blast
  have "window_ok (pixel_format (fb_config fb)) w"
    using assms(1,2) w by (auto simp: lm_ok_def window_of_def)
  moreover have "config_ok (fb_config fb)" "in_rect p (screen fb)"
    using assms(1-3) by (auto simp: lm_ok_def)
  ultimately have "pixel_at (win_draw_to w (layer_pos l) area fb) p =
      (if in_rect p area \<or> transparent_color w \<noteq> None
       then case window_pixel w (layer_pos l) p of None \<Rightarrow> pixel_at fb p | Some c \<Rightarrow> c else pixel_at fb p)"
    using assms(4,5) by (rule win_draw_to_pixel)
  then show ?thesis
    using l w by (simp add: draw_stacked_def layer_draw_to_def stack_pixel_def is_transparent_def over_def)
next
  case False
  then show ?thesis
    by (auto simp: draw_stacked_def layer_draw_to_def stack_pixel_def split: option.splits)
qed

text \<open>Layers drawn in order: inside the area all of them count, outside only the transparent ones.\<close>

lemma fold_draw_pixel:
  assumes "lm_ok lm" "on_screen lm p" "0 \<le> vx (rsize area)" "0 \<le> vy (rsize area)"
  shows "fb_config fb = fb_config (back_buffer lm) \<Longrightarrow>
    pixel_at (fold (draw_stacked lm area) is fb) p =
      over (topmost (stack_pixel lm p) (if in_rect p area then is else filter (is_transparent lm) is)) (pixel_at fb p)"
proof (induction "is" arbitrary: fb)
  case (Cons i "is")
  have "fb_config (draw_stacked lm area i fb) = fb_config (back_buffer lm)" using Cons.prems by simp
  note IH = Cons.IH [OF this]
  show ?case
    using draw_stacked_pixel [OF assms(1) Cons.prems assms(2-4), of i] IH
    by (auto simp: over_def split: option.splits)
qed simp

lemma screen_copy_pixel:
  assumes "lm_ok lm" "fb_config bb = fb_config (back_buffer lm)" "on_screen lm p" "fb_config scr = fb_config (screen_fb lm)"
    and "0 \<le> vx (rsize area)" "0 \<le> vy (rsize area)"
  shows "pixel_at (snd (fb_copy (rpos area) bb area scr)) p =
    (if in_rect p area then pixel_at bb p else pixel_at scr p)"
proof -
  have "p - rpos area + rpos area = p" by (cases p; cases "rpos area") simp
  moreover have "in_rect p (screen bb)" using assms by (simp add: lm_ok_def)
  ultimately show ?thesis
    using fb_copy_pixels_here [of scr bb area p "rpos area"] assms by (simp add: lm_ok_def Let_def)
qed

lemma fb_copy_config [simp]: "fb_config (snd (fb_copy d s a fb)) = fb_config fb"
  by (simp add: fb_copy_def Let_def)

text \<open>\<^verbatim>\<open>Draw(area)\<close>.\<close>

lemma draw_area_pixels:
  assumes "lm_ok lm" "on_screen lm p" "0 \<le> vx (rsize area)" "0 \<le> vy (rsize area)"
  shows "pixel_at (back_buffer (draw_area area lm)) p =
      over (topmost (stack_pixel lm p) (if in_rect p area then layer_stack lm else filter (is_transparent lm) (layer_stack lm)))
        (pixel_at (back_buffer lm) p)"
    and "pixel_at (screen_fb (draw_area area lm)) p =
      (if in_rect p area then over (topmost (stack_pixel lm p) (layer_stack lm)) (pixel_at (back_buffer lm) p)
       else pixel_at (screen_fb lm) p)"
  using fold_draw_pixel [OF assms refl, of "layer_stack lm"]
    screen_copy_pixel [OF assms(1) _ assms(2) refl assms(3,4), where bb = "fold (draw_stacked lm area) (layer_stack lm) (back_buffer lm)"]
  by (simp_all add: draw_area_def Let_def)

text \<open>\<^verbatim>\<open>Draw(id)\<close>: only the layers from the given one up are drawn, in its window's place.\<close>

lemma draw_loop_drawing:
  "i \<notin> set js \<Longrightarrow> draw_loop lm i js True area wa fb = Some (fold (draw_stacked lm wa) js fb, wa)"
  by (induction js arbitrary: fb) auto

lemma draw_loop_skip:
  "i \<notin> set xs \<Longrightarrow> draw_loop lm i (xs @ ys) False area wa fb = draw_loop lm i ys False area wa fb"
  by (induction xs) auto

lemma draw_layer_eq:
  assumes "layer_stack lm = xs @ i # ys" "distinct (layer_stack lm)" "find_layer lm i = Some l" "window_of lm l = Some w"
  shows "draw_layer i lm =
    (let r = Rect (layer_pos l) (win_size w); bb = fold (draw_stacked lm r) (i # ys) (back_buffer lm)
     in Some (lm\<lparr>back_buffer := bb, screen_fb := snd (fb_copy (rpos r) bb r (screen_fb lm))\<rparr>))"
proof -
  have "i \<notin> set xs" "i \<notin> set ys" using assms(1,2) by auto
  then show ?thesis
    using assms by (simp add: draw_layer_def draw_layer_area_def draw_loop_skip draw_loop_drawing Let_def)
qed

section \<open>The whole screen\<close>

text \<open>The stack: its layers exist and have windows, the lowest covers the screen, and the transparent
  ones are on top.\<close>

definition stack_ok :: "layer_manager \<Rightarrow> bool" where
  "stack_ok lm \<longleftrightarrow> distinct (layer_stack lm) \<and>
     (\<exists>os ts. layer_stack lm = os @ ts \<and> (\<forall>i \<in> set os. \<not> is_transparent lm i) \<and> (\<forall>i \<in> set ts. is_transparent lm i)) \<and>
     layer_stack lm \<noteq> [] \<and> (\<forall>p. on_screen lm p \<longrightarrow> stack_pixel lm p (hd (layer_stack lm)) \<noteq> None)"

definition shown :: "layer_manager \<Rightarrow> bool" where
  "shown lm \<longleftrightarrow> (\<forall>p. on_screen lm p \<longrightarrow>
     Some (pixel_at (screen_fb lm) p) = topmost (stack_pixel lm p) (layer_stack lm) \<and>
     pixel_at (back_buffer lm) p = pixel_at (screen_fb lm) p)"

lemma stack_ok_covered:
  assumes "stack_ok lm" "on_screen lm p"
  shows "topmost (stack_pixel lm p) (layer_stack lm) \<noteq> None"
proof -
  have "layer_stack lm \<noteq> []" "stack_pixel lm p (hd (layer_stack lm)) \<noteq> None"
    using assms by (auto simp: stack_ok_def)
  then show ?thesis by (meson list.set_sel(1) topmost_None_iff)
qed

text \<open>C32: \<^verbatim>\<open>LayerManager::Draw(area)\<close>: every pixel of the screen inside the area becomes the pixel of the
  topmost layer that shows one there (a window with a transparent colour shows none where it has that
  colour), and the screen outside the area is unchanged.\<close>

theorem draw_area_shows_topmost:
  assumes "lm_ok lm" "stack_ok lm" "on_screen lm p" "0 \<le> vx (rsize area)" "0 \<le> vy (rsize area)"
  shows "Some (pixel_at (screen_fb (draw_area area lm)) p) =
    (if in_rect p area then topmost (stack_pixel lm p) (layer_stack lm) else Some (pixel_at (screen_fb lm) p))"
  using draw_area_pixels(2) [OF assms(1,3-5)] stack_ok_covered [OF assms(2,3)] by (auto simp: over_def split: option.splits)

section \<open>Moving a layer\<close>

lemma find_update_layer:
  assumes "\<And>l. layer_id (f l) = layer_id l"
  shows "find_layer (update_layer i f lm) j = (if j = i then map_option f (find_layer lm j) else find_layer lm j)"
proof -
  have "find (\<lambda>l. layer_id l = j) (map (\<lambda>l. if layer_id l = i then f l else l) ls) =
      (if j = i then map_option f (find (\<lambda>l. layer_id l = j) ls) else find (\<lambda>l. layer_id l = j) ls)" for ls
    by (induction ls) (auto simp: assms)
  then show ?thesis by (simp add: find_layer_def update_layer_def)
qed

text \<open>The argument at one pixel. \<open>f0\<close> and \<open>f1\<close> are what the layers show before and after the move of \<open>i\<close>,
  \<open>r0\<close> and \<open>r1\<close> say whether the pixel is in its old and new place, \<open>b1\<close> and \<open>b2\<close> are the back buffer after
  the first and the second drawing.\<close>

lemma moved_pixel:
  assumes other: "\<forall>j. j \<noteq> i \<longrightarrow> f1 j = f0 j" and r: "f0 i \<noteq> None \<longrightarrow> r0" "f1 i \<noteq> None \<longrightarrow> r1"
    and opaque: "\<not> T i \<longrightarrow> r1 \<longrightarrow> f1 i \<noteq> None"
    and st: "distinct (os @ ts)" "\<forall>j \<in> set os. \<not> T j" "\<forall>j \<in> set ts. T j" "os @ ts = xs @ i # ys"
    and v: "topmost f0 (os @ ts) = Some v0" "topmost f1 (os @ ts) = Some v1"
    and b1: "b1 = over (topmost f1 (if r0 then os @ ts else filter T (os @ ts))) v0"
    and b2: "b2 = over (topmost f1 (if r1 then i # ys else filter T (i # ys))) b1"
  shows "b2 = v1" "(if r1 then b2 else if r0 then over (topmost f1 (os @ ts)) v0 else v0) = v1"
proof -
  have ft: "filter T (os @ ts) = ts" using st(2,3) by (simp add: filter_empty_conv filter_id_conv)
  have b1': "b1 = over (topmost f1 ts) v0" if "\<not> r0" using b1 that unfolding ft by simp
  have same: "v0 = v1" if "\<not> r0" "\<not> r1"
    using that v r other by (metis (no_types, lifting) option.inject topmost_cong)
  have b2v: "b2 = v1"
  proof (cases "T i")
    case True
    then have i: "i \<in> set ts" using st(2,4) by (metis Un_iff in_set_conv_decomp set_append)
    have ys: "filter T (i # ys) = i # ys"
    proof -
      obtain zs zs' where zs: "ts = zs @ i # zs'" using i by (meson split_list)
      have "distinct (xs @ i # ys)" using st(1) unfolding st(4) .
      then have xs: "i \<notin> set xs" by simp
      have "distinct ((os @ zs) @ i # zs')" using st(1) zs by simp
      then have "i \<notin> set (os @ zs)" "i \<notin> set zs'" by simp_all
      moreover have "(os @ zs) @ i # zs' = xs @ i # ys" using st(4) zs by simp
      ultimately have "ys = zs'" using xs append_Cons_eq_iff [of i "os @ zs" zs' xs ys] by auto
      then show ?thesis using st(3) zs by (simp add: filter_id_conv)
    qed
    have "b1 = v1"
    proof (cases r0)
      case True
      then show ?thesis using b1 v(2) by simp
    next
      case False
      then have none: "f0 i = None" using r by blast
      show ?thesis
      proof (cases "topmost f1 ts")
        case None
        then have "\<forall>j \<in> set ts. f0 j = None" using none other by (metis topmost_None_iff)
        then have "topmost f0 ts = None" by (simp add: topmost_None_iff)
        moreover have "i \<notin> set os" using i st(1) by auto
        then have "topmost f0 os = topmost f1 os" using other by (intro topmost_cong) auto
        ultimately show ?thesis using v None b1' [OF False] by (simp add: topmost_append)
      next
        case (Some c)
        then show ?thesis using v b1' [OF False] by (simp add: topmost_append)
      qed
    qed
    then show ?thesis using b2 v(2) over_over [of f1 "i # ys" xs v1] st(4) ys by (simp del: topmost.simps)
  next
    case False
    then have i: "i \<notin> set ts" using st(3) by blast
    have ys: "filter T (i # ys) = ts"
    proof -
      have "filter T (os @ ts) = filter T (xs @ i # ys)" using st(4) by simp
      moreover have "filter T xs = []"
      proof -
        have "i \<in> set os" using i st(4) by (metis Un_iff in_set_conv_decomp set_append)
        then obtain zs zs' where zs: "os = zs @ i # zs'" by (meson split_list)
        have "distinct (xs @ i # ys)" using st(1) unfolding st(4) .
        then have xs: "i \<notin> set xs" by simp
        have "distinct (zs @ i # zs' @ ts)" using st(1) zs by simp
        then have "i \<notin> set zs" "i \<notin> set (zs' @ ts)" by simp_all
        moreover have "zs @ i # (zs' @ ts) = xs @ i # ys" using st(4) zs by simp
        ultimately have "xs = zs" using xs append_Cons_eq_iff [of i zs "zs' @ ts" xs ys] by auto
        then show ?thesis using st(2) zs by (simp add: filter_empty_conv)
      qed
      ultimately show ?thesis using ft by simp
    qed
    have ts: "topmost f1 ts = topmost f0 ts" using other i by (intro topmost_cong) auto
    show ?thesis
    proof (cases r1)
      case True
      then have "topmost f1 (i # ys) \<noteq> None" unfolding topmost_None_iff using opaque False by simp
      then show ?thesis using b2 v(2) True st(4) by (auto simp: topmost_append split: option.splits)
    next
      case r1: False
      show ?thesis
      proof (cases r0)
        case True
        then have "b1 = v1" using b1 v(2) by simp
        then show ?thesis using b2 r1 ys v(2) over_over [of f1 ts os v1] by simp
      next
        case False
        then have "b1 = v0" using b1' ts over_over [of f0 ts os v0] v(1) by simp
        then show ?thesis using b2 r1 ys same [OF False r1] v(2) over_over [of f1 ts os v1] by simp
      qed
    qed
  qed
  then show "b2 = v1" .
  show "(if r1 then b2 else if r0 then over (topmost f1 (os @ ts)) v0 else v0) = v1"
    using b2v v(2) same by simp
qed

text \<open>A layer manager that differs only in layers and buffers of the same configuration.\<close>

lemma draw_area_ok [simp]: "lm_ok (draw_area area lm) = lm_ok lm"
  "layer_stack (draw_area area lm) = layer_stack lm" "layers (draw_area area lm) = layers lm"
  "windows (draw_area area lm) = windows lm" "garbage (draw_area area lm) = garbage lm"
  "fb_config (screen_fb (draw_area area lm)) = fb_config (screen_fb lm)"
  "fb_config (back_buffer (draw_area area lm)) = fb_config (back_buffer lm)"
  by (simp_all add: draw_area_def lm_ok_def Let_def)

lemma find_layer_cong: "layers lm' = layers lm \<Longrightarrow> find_layer lm' i = find_layer lm i"
  by (simp add: find_layer_def)

lemma window_of_cong: "windows lm' = windows lm \<Longrightarrow> window_of lm' = window_of lm"
  by (rule ext) (simp add: window_of_def)

lemma stack_pixel_cong:
  assumes "layers lm' = layers lm" "windows lm' = windows lm"
  shows "stack_pixel lm' p i = stack_pixel lm p i"
  unfolding stack_pixel_def find_layer_def window_of_cong [OF assms(2)] assms(1) ..

lemma is_transparent_cong:
  assumes "layers lm' = layers lm" "windows lm' = windows lm"
  shows "is_transparent lm' i = is_transparent lm i"
  unfolding is_transparent_def find_layer_def window_of_cong [OF assms(2)] assms(1) ..

text \<open>\<^verbatim>\<open>Move\<close> and \<^verbatim>\<open>MoveRelative\<close>.\<close>

lemma move_with_shown:
  assumes ok: "lm_ok lm" "stack_ok lm" "shown lm" and i: "i \<in> set (layer_stack lm)" "find_layer lm i = Some l" "window_of lm l = Some w"
    and f: "\<And>l. layer_id (f l) = layer_id l" "\<And>l. layer_window (f l) = layer_window l"
    and covers: "stack_ok (update_layer i f lm)"
  shows "\<exists>lm'. move_with i f lm = Some lm' \<and> shown lm' \<and> lm_ok lm' \<and> stack_ok lm' \<and>
    layers lm' = layers (update_layer i f lm) \<and> layer_stack lm' = layer_stack lm"
proof -
  define m where "m = update_layer i f lm"
  define r0 where "r0 = Rect (layer_pos l) (win_size w)"
  define r1 where "r1 = Rect (layer_pos (f l)) (win_size w)"
  define d where "d = draw_area r0 m"
  obtain xs ys where st: "layer_stack lm = xs @ i # ys" using i(1) by (meson split_list)
  obtain os ts where os: "layer_stack lm = os @ ts" "\<forall>j \<in> set os. \<not> is_transparent m j" "\<forall>j \<in> set ts. is_transparent m j"
    using covers by (auto simp: stack_ok_def m_def update_layer_def)
  have m: "layer_stack m = layer_stack lm" "windows m = windows lm" "screen_fb m = screen_fb lm" "back_buffer m = back_buffer lm"
    by (simp_all add: m_def update_layer_def)
  have find: "find_layer m j = (if j = i then Some (f l) else find_layer lm j)" for j
    using find_update_layer [of f i lm j] f i(2) by (simp add: m_def)
  have win: "window_of m (f l) = Some w" using i(3) f m by (simp add: window_of_def)
  have size: "0 \<le> vx (rsize r0)" "0 \<le> vy (rsize r0)" "rsize r1 = rsize r0" and wok: "window_ok (pixel_format (fb_config (screen_fb lm))) w"
    using ok(1) i(3) by (auto simp: r0_def r1_def lm_ok_def window_of_def window_ok_def win_size_def)
  have mok: "lm_ok m" using ok(1) m by (simp add: lm_ok_def)
  have dist: "distinct (layer_stack lm)" using ok(2) by (simp add: stack_ok_def)
  let ?bb = "fold (draw_stacked d r1) (i # ys) (back_buffer d)"
  define lm' where "lm' = d\<lparr>back_buffer := ?bb, screen_fb := snd (fb_copy (rpos r1) ?bb r1 (screen_fb d))\<rparr>"
  have dd: "layers d = layers m" "windows d = windows m" "layer_stack d = layer_stack lm" "lm_ok d"
    using mok m by (simp_all add: d_def)
  have "window_of d (f l) = Some w" "find_layer d i = Some (f l)"
    using win window_of_cong [OF dd(2)] find_layer_cong [OF dd(1)] find [of i] by simp_all
  then have "draw_layer i d = Some lm'"
    using draw_layer_eq [of d xs i ys "f l" w] st dist dd(3)
    by (simp add: r1_def [symmetric] lm'_def Let_def del: fold.simps)
  then have run: "move_with i f lm = Some lm'"
    using i by (simp add: move_with_def m_def [symmetric] r0_def [symmetric] d_def [symmetric])
  have px: "pixel_at (back_buffer lm') p = v \<and> pixel_at (screen_fb lm') p = v"
    if p: "on_screen lm p" and v: "topmost (stack_pixel m p) (layer_stack lm) = Some v" for p v
  proof -
    have pm: "on_screen m p" "on_screen d p" using p m by (simp_all add: d_def)
    obtain v0 where v0: "topmost (stack_pixel lm p) (layer_stack lm) = Some v0" "pixel_at (screen_fb lm) p = v0" "pixel_at (back_buffer lm) p = v0"
      using ok(3) p by (metis shown_def)
    have other: "\<forall>j. j \<noteq> i \<longrightarrow> stack_pixel m p j = stack_pixel lm p j"
      unfolding stack_pixel_def find window_of_cong [OF m(2)] by simp
    have old: "stack_pixel lm p i \<noteq> None \<longrightarrow> in_rect p r0"
      using i by (auto simp: stack_pixel_def window_pixel_def r0_def)
    have new: "stack_pixel m p i = window_pixel w (layer_pos (f l)) p" using find [of i] win by (simp add: stack_pixel_def)
    then have new_in: "stack_pixel m p i \<noteq> None \<longrightarrow> in_rect p r1" by (auto simp: window_pixel_def r1_def)
    have opq: "\<not> is_transparent m i \<longrightarrow> in_rect p r1 \<longrightarrow> stack_pixel m p i \<noteq> None"
      using new find [of i] win by (auto simp: is_transparent_def window_pixel_def r1_def)
    have sp: "stack_pixel d p = stack_pixel m p" and tr: "is_transparent d = is_transparent m"
      using stack_pixel_cong [OF dd(1,2)] is_transparent_cong [OF dd(1,2)] by auto
    note area = draw_area_pixels [OF mok pm(1) size(1,2), folded d_def]
    have b1: "pixel_at (back_buffer d) p = over (topmost (stack_pixel m p) (if in_rect p r0 then os @ ts else filter (is_transparent m) (os @ ts))) v0"
      using area(1) m v0(3) os(1) by simp
    have b2: "pixel_at ?bb p = over (topmost (stack_pixel m p) (if in_rect p r1 then i # ys else filter (is_transparent m) (i # ys))) (pixel_at (back_buffer d) p)"
      using fold_draw_pixel [OF dd(4) pm(2), of r1 "back_buffer d" "i # ys"] size sp tr by simp
    have cfg: "fb_config ?bb = fb_config (back_buffer d)" by (rule fold_draw_config)
    have scr: "pixel_at (screen_fb lm') p = (if in_rect p r1 then pixel_at ?bb p else pixel_at (screen_fb d) p)"
      using screen_copy_pixel [OF dd(4) cfg pm(2) refl, of r1] size by (simp add: lm'_def)
    have "os @ ts = xs @ i # ys" "distinct (os @ ts)" using os(1) st dist by simp_all
    from moved_pixel [where T = "is_transparent m", OF other old new_in opq this(2) os(2,3) this(1) _ _ b1 b2] v0(1) v os(1)
    have res: "pixel_at ?bb p = v" "(if in_rect p r1 then pixel_at ?bb p else if in_rect p r0 then over (topmost (stack_pixel m p) (os @ ts)) v0 else v0) = v"
      by auto
    have "pixel_at (screen_fb d) p = (if in_rect p r0 then over (topmost (stack_pixel m p) (os @ ts)) v0 else v0)"
      using area(2) m v0 os(1) by simp
    then show ?thesis using res scr by (simp add: lm'_def split: if_splits)
  qed
  have same: "layers lm' = layers m" "windows lm' = windows m" "layer_stack lm' = layer_stack lm"
      "fb_config (screen_fb lm') = fb_config (screen_fb lm)" "fb_config (back_buffer lm') = fb_config (back_buffer lm)"
    using dd m by (simp_all add: lm'_def d_def)
  have sp: "stack_pixel lm' = stack_pixel m" and tr: "is_transparent lm' = is_transparent m"
    using stack_pixel_cong [OF same(1,2)] is_transparent_cong [OF same(1,2)] by (auto simp: fun_eq_iff)
  have st': "stack_ok lm'" using covers same m sp tr by (simp add: stack_ok_def m_def [symmetric])
  have "shown lm'"
    unfolding shown_def
  proof (intro allI impI)
    fix p assume "on_screen lm' p"
    then have p: "on_screen lm p" "on_screen lm' p" using same by simp_all
    obtain v where v: "topmost (stack_pixel m p) (layer_stack lm) = Some v"
      using stack_ok_covered [OF st' p(2)] same sp by auto
    from px [OF p(1) v] show "Some (pixel_at (screen_fb lm') p) = topmost (stack_pixel lm' p) (layer_stack lm') \<and>
        pixel_at (back_buffer lm') p = pixel_at (screen_fb lm') p"
      using v same sp by simp
  qed
  moreover have "lm_ok lm'" using ok(1) same m by (simp add: lm_ok_def)
  ultimately show ?thesis using run st' same m_def by auto
qed

text \<open>C31: \<^verbatim>\<open>LayerManager::Move(id, new_pos)\<close> of a layer on the stack keeps the screen right: if every pixel
  of the screen showed the topmost layer before, then after it the layer is at the new place, everything
  else of the stack is unchanged, and every pixel of the screen shows the topmost layer again, where the
  window was, where it is now, and everywhere else.\<close>

theorem lm_move_keeps_screen:
  assumes "lm_ok lm" "stack_ok lm" "shown lm" "i \<in> set (layer_stack lm)" "find_layer lm i = Some l" "window_of lm l = Some w"
    and "stack_ok (update_layer i (layer_move_to pos) lm)"
  shows "\<exists>lm'. lm_move i pos lm = Some lm' \<and> shown lm' \<and> lm_ok lm' \<and> stack_ok lm' \<and>
    layers lm' = map (\<lambda>l. if layer_id l = i then l\<lparr>layer_pos := pos\<rparr> else l) (layers lm) \<and> layer_stack lm' = layer_stack lm"
  using move_with_shown [OF assms(1-6), of "layer_move_to pos"] assms(7)
  by (simp add: lm_move_def layer_move_to_def [abs_def] update_layer_def)

end
