(* ===== verification/Layer_Active.thy ===== *)
theory Layer_Active imports Layer_Draw begin

text \<open>
  The order of the layers: what \<^verbatim>\<open>UpDown\<close> does to the stack, where \<^verbatim>\<open>ActiveLayer::Activate\<close> puts a layer,
  and which layer \<^verbatim>\<open>FindLayerByPosition\<close> finds.
\<close>

section \<open>\<^verbatim>\<open>UpDown\<close>\<close>

lemma insert_at_append [simp]: "insert_at (length xs) x (xs @ ys) = xs @ x # ys"
  by (simp add: insert_at_def)

lemma up_down_bottom:
  assumes "find_layer lm i \<noteq> None" "m \<in> set (layer_stack lm)"
  shows "up_down i 0 lm = Some (lm\<lparr>layer_stack := i # remove1 i (layer_stack lm)\<rparr>)"
proof -
  have "layer_stack lm \<noteq> []" using assms(2) by auto
  then show ?thesis using assms(1) by (auto simp: up_down_def insert_at_def Let_def min_def remove1_idem)
qed

lemma up_down_to:
  assumes "find_layer lm i \<noteq> None" "layer_stack lm = i # xs @ m # ys" "i \<notin> set xs" "i \<noteq> m" "i \<notin> set ys"
  shows "up_down i (int (length xs)) lm = Some (lm\<lparr>layer_stack := xs @ i # m # ys\<rparr>)"
  using assms by (simp add: up_down_def Let_def min_def)

lemma find_index:
  "m \<notin> set xs \<Longrightarrow> find (\<lambda>h. (xs @ m # ys) ! h = m) [0..<length (xs @ m # ys)] = Some (length xs)"
proof -
  assume m: "m \<notin> set xs"
  have "\<forall>j<length xs. (xs @ m # ys) ! j \<noteq> m"
  proof (intro allI impI)
    fix j assume "j < length xs"
    then have "(xs @ m # ys) ! j \<in> set xs" by (simp add: nth_append)
    then show "(xs @ m # ys) ! j \<noteq> m" using m by metis
  qed
  then show ?thesis unfolding find_Some_iff by (intro exI [of _ "length xs"]) (auto simp del: upt_Suc)
qed

lemma get_height_of:
  assumes "layer_stack lm = xs @ m # ys" "m \<notin> set xs"
  shows "get_height m lm = int (length xs)"
  unfolding get_height_def assms(1) find_index [OF assms(2)] by simp

text \<open>The two calls of \<^verbatim>\<open>UpDown\<close> in \<^verbatim>\<open>Activate\<close> put the layer right below the mouse.\<close>

lemma raise_below_mouse:
  assumes "find_layer lm i \<noteq> None" "distinct (layer_stack lm)" "m \<in> set (layer_stack lm)" "i \<noteq> m"
  shows "\<exists>lm1 xs ys. up_down i 0 lm = Some lm1 \<and> remove1 i (layer_stack lm) = xs @ m # ys \<and>
    up_down i (get_height m lm1 - 1) lm1 = Some (lm\<lparr>layer_stack := xs @ i # m # ys\<rparr>)"
proof -
  have "m \<in> set (remove1 i (layer_stack lm))" using assms(3,4) by simp
  then obtain xs ys where xs: "remove1 i (layer_stack lm) = xs @ m # ys" by (meson split_list)
  define lm1 where "lm1 = lm\<lparr>layer_stack := i # xs @ m # ys\<rparr>"
  have "distinct (xs @ m # ys)" using assms(2) xs by (metis distinct_remove1)
  then have m: "m \<notin> set (i # xs)" using assms(4) by auto
  have i: "i \<notin> set (xs @ m # ys)" using assms(2) xs by (metis set_remove1_eq insert_Diff_single Diff_iff singletonI)
  have "layer_stack lm1 = (i # xs) @ m # ys" by (simp add: lm1_def)
  from get_height_of [OF this m] have "get_height m lm1 - 1 = int (length xs)" by simp
  moreover have "up_down i (int (length xs)) lm1 = Some (lm1\<lparr>layer_stack := xs @ i # m # ys\<rparr>)"
    using assms(1) i by (intro up_down_to) (auto simp: lm1_def find_layer_def)
  moreover have "up_down i 0 lm = Some lm1" using up_down_bottom [OF assms(1,3)] xs by (simp add: lm1_def)
  ultimately show ?thesis using xs by (auto simp: lm1_def)
qed

section \<open>\<^verbatim>\<open>Activate\<close>\<close>

lemma draw_loop_Some:
  assumes "find_layer lm i = Some l" "window_of lm l = Some w"
  shows "\<exists>r. draw_loop lm i js d a wa fb = Some r"
  using assms by (induction js arbitrary: d a wa fb) (auto simp: Let_def)

lemma draw_layer_Some:
  assumes "find_layer lm i = Some l" "window_of lm l = Some w"
  shows "\<exists>lm'. draw_layer i lm = Some lm' \<and> layer_stack lm' = layer_stack lm \<and> layers lm' = layers lm \<and> windows lm' = windows lm"
  using draw_loop_Some [OF assms, of "layer_stack lm" False "Rect (Vec 0 0) (Vec (-1) (-1))" "garbage lm" "back_buffer lm"]
  by (auto simp: draw_layer_def draw_layer_area_def)

definition titles_ok :: "fonts \<Rightarrow> layer_manager \<Rightarrow> bool" where
  "titles_ok fonts lm \<longleftrightarrow>
    (\<forall>h title width active. win_title (windows lm h) = Some title \<longrightarrow> draw_window_title fonts width title active \<noteq> None)"

lemma win_draw_title [simp]: "win_title (win_draw ds w) = win_title w"
  by (induction ds arbitrary: w) (simp_all add: win_draw_def win_write_def)

lemma set_layer_active_Some:
  assumes "find_layer lm i = Some l" "layer_window l = Some h" "titles_ok fonts lm"
  shows "\<exists>lm'. set_layer_active fonts a i lm = Some lm' \<and> layer_stack lm' = layer_stack lm \<and> layers lm' = layers lm \<and>
    titles_ok fonts lm'"
proof -
  obtain w where w: "win_set_active fonts a (windows lm h) = Some w" "win_title w = win_title (windows lm h)"
  proof (cases "win_title (windows lm h)")
    case (Some title)
    then have "draw_window_title fonts (win_width (windows lm h)) title a \<noteq> None"
      using assms(3) unfolding titles_ok_def by blast
    then obtain ds where "draw_window_title fonts (win_width (windows lm h)) title a = Some ds" by blast
    then show ?thesis using that Some by (auto simp: win_set_active_def)
  qed (use that in \<open>auto simp: win_set_active_def\<close>)
  then show ?thesis using assms by (auto simp: set_layer_active_def titles_ok_def)
qed

text \<open>\<^verbatim>\<open>ActiveLayer::Activate(id)\<close> of another existing layer, with the mouse layer on the stack: it
  returns, the layer becomes the active one and stands right below the mouse, and all other layers keep
  their order, whether the layer was on the stack before or not. (Titles must be valid UTF-8, and the layer
  that was active must still exist.)\<close>

theorem activate_below_mouse:
  assumes new: "active_layer g \<noteq> i" "0 < i" "i \<noteq> mouse_layer g" "find_layer (manager g) i = Some l" "layer_window l = Some h"
    and old: "active_layer g = 0 \<or> find_layer (manager g) (active_layer g) = Some l0 \<and> layer_window l0 = Some h0"
    and st: "distinct (layer_stack (manager g))" "mouse_layer g \<in> set (layer_stack (manager g))"
    and titles: "titles_ok fonts (manager g)"
  shows "\<exists>g' xs ys. activate fonts i g = Some g' \<and> active_layer g' = i \<and>
    remove1 i (layer_stack (manager g)) = xs @ mouse_layer g # ys \<and>
    layer_stack (manager g') = xs @ i # mouse_layer g # ys"
proof -
  define off where "off = (if 0 < active_layer g then do {
      lm \<leftarrow> set_layer_active fonts False (active_layer g) (manager g);
      lm \<leftarrow> draw_layer (active_layer g) lm;
      Some (snd (send_window_active_message (active_layer g) 0 (g\<lparr>manager := lm\<rparr>))) } else Some g)"
  have send: "manager (snd (send_window_active_message j a g)) = manager g"
      "mouse_layer (snd (send_window_active_message j a g)) = mouse_layer g"
      "active_layer (snd (send_window_active_message j a g)) = active_layer g" for j a g
    by (simp_all add: send_window_active_message_def split: option.split prod.split)
  obtain g1 where g1: "off = Some g1" "layer_stack (manager g1) = layer_stack (manager g)" "layers (manager g1) = layers (manager g)"
      "titles_ok fonts (manager g1)" "mouse_layer g1 = mouse_layer g"
  proof (cases "0 < active_layer g")
    case True
    then have o: "find_layer (manager g) (active_layer g) = Some l0" "layer_window l0 = Some h0" using old by auto
    obtain lm1 where lm1: "set_layer_active fonts False (active_layer g) (manager g) = Some lm1"
        "layer_stack lm1 = layer_stack (manager g)" "layers lm1 = layers (manager g)" "titles_ok fonts lm1"
      using set_layer_active_Some [OF o titles] by blast
    have "find_layer lm1 (active_layer g) = Some l0" "window_of lm1 l0 = Some (windows lm1 h0)"
      using o lm1(3) by (simp_all add: find_layer_def window_of_def)
    from draw_layer_Some [OF this] obtain lm2 where "draw_layer (active_layer g) lm1 = Some lm2"
        "layer_stack lm2 = layer_stack lm1" "layers lm2 = layers lm1" "windows lm2 = windows lm1" by blast
    then show ?thesis using that lm1 True by (auto simp: off_def send titles_ok_def)
  qed (use that titles in \<open>auto simp: off_def\<close>)
  have fi: "find_layer (manager g1) i = Some l" using new(4) g1(3) by (simp add: find_layer_def)
  obtain lm2 where lm2: "set_layer_active fonts True i (manager g1) = Some lm2" "layer_stack lm2 = layer_stack (manager g)"
      "layers lm2 = layers (manager g)"
    using set_layer_active_Some [OF fi new(5) g1(4)] g1 by fastforce
  have f2: "find_layer lm2 i = Some l" using new(4) lm2(3) by (simp add: find_layer_def)
  then obtain lm3 xs ys where up: "up_down i 0 lm2 = Some lm3" "remove1 i (layer_stack lm2) = xs @ mouse_layer g # ys"
      "up_down i (get_height (mouse_layer g) lm3 - 1) lm3 = Some (lm2\<lparr>layer_stack := xs @ i # mouse_layer g # ys\<rparr>)"
    using raise_below_mouse [of lm2 i "mouse_layer g"] st new(3) lm2(2) by auto
  have "find_layer (lm2\<lparr>layer_stack := xs @ i # mouse_layer g # ys\<rparr>) i = Some l"
      "window_of (lm2\<lparr>layer_stack := xs @ i # mouse_layer g # ys\<rparr>) l = Some (windows lm2 h)"
    using f2 new(5) by (simp_all add: find_layer_def window_of_def)
  from draw_layer_Some [OF this] obtain lm4 where lm4: "draw_layer i (lm2\<lparr>layer_stack := xs @ i # mouse_layer g # ys\<rparr>) = Some lm4"
      "layer_stack lm4 = xs @ i # mouse_layer g # ys" by auto
  have "activate fonts i g = Some (snd (send_window_active_message i 1 (g1\<lparr>active_layer := i, manager := lm4\<rparr>)))"
    unfolding activate_def off_def [symmetric] using new(1,2) g1(1,5) lm2(1) up(1,3) lm4(1) by simp
  then show ?thesis using up(2) lm2(2) lm4(2) by (auto simp: send)
qed

section \<open>\<^verbatim>\<open>FindLayerByPosition\<close>\<close>

definition window_covers :: "layer_manager \<Rightarrow> vec2 \<Rightarrow> nat \<Rightarrow> bool" where
  "window_covers lm p i \<longleftrightarrow>
    (\<exists>l w. find_layer lm i = Some l \<and> window_of lm l = Some w \<and> in_rect p (Rect (layer_pos l) (win_size w)))"

lemma find_split: "find P zs = Some i \<Longrightarrow> \<exists>xs ys. zs = xs @ i # ys \<and> P i \<and> (\<forall>j \<in> set xs. \<not> P j)"
proof (induction zs)
  case (Cons z zs)
  show ?case
  proof (cases "P z")
    case True
    then show ?thesis using Cons.prems by (intro exI [of _ "[]"] exI [of _ zs]) auto
  next
    case False
    then obtain xs ys where "zs = xs @ i # ys" "P i" "\<forall>j \<in> set xs. \<not> P j" using Cons by auto
    then show ?thesis using False by (intro exI [of _ "z # xs"] exI [of _ ys]) auto
  qed
qed simp

lemma find_layer_by_position_topmost:
  assumes "find_layer_by_position p x lm = Some i"
  shows "\<exists>lower upper. layer_stack lm = lower @ i # upper \<and> i \<noteq> x \<and> window_covers lm p i \<and>
    (\<forall>j \<in> set upper. j = x \<or> \<not> window_covers lm p j)"
proof -
  have cov: "(case find_layer lm i of None \<Rightarrow> False
         | Some l \<Rightarrow> (case window_of lm l of None \<Rightarrow> False | Some w \<Rightarrow> in_rect p (Rect (layer_pos l) (win_size w)))) =
      window_covers lm p i" for i
    by (auto simp: window_covers_def split: option.split)
  obtain xs ys where rev: "rev (layer_stack lm) = xs @ i # ys" and i: "i \<noteq> x \<and> window_covers lm p i"
      and xs: "\<forall>j \<in> set xs. \<not> (j \<noteq> x \<and> window_covers lm p j)"
    using find_split [OF assms [unfolded find_layer_by_position_def cov]] by blast
  have "layer_stack lm = rev ys @ i # rev xs" using arg_cong [OF rev, of rev] by simp
  then show ?thesis using i xs by (intro exI [of _ "rev ys"] exI [of _ "rev xs"]) auto
qed

end
