(* ===== verification/Mouse.thy ===== *)
theory Mouse imports Layer_Active begin

text \<open>
  \<^verbatim>\<open>Kernel/mouse.{hpp,cpp}\<close>: the mouse pointer, dragging windows, and the messages the active window's
  task gets. Displacements are signed bytes; the screen's size is that of \<^verbatim>\<open>screen_config\<close>.
\<close>

(*@ Kernel/mouse.hpp:24-28 Mouse *)
record mouse =
  mouse_layer_id :: nat
  position :: vec2
  drag_layer_id :: nat
  previous_buttons :: u8

(*@ Kernel/mouse.cpp:11-38 mouse_cursor_shape *)
definition mouse_cursor_shape :: "string list" where
  "mouse_cursor_shape =
    [''@              '', ''@@             '', ''@.@            '', ''@..@           '', ''@...@          '',
     ''@....@         '', ''@.....@        '', ''@......@       '', ''@.......@      '', ''@........@     '',
     ''@.........@    '', ''@..........@   '', ''@...........@  '', ''@............@ '', ''@......@@@@@@@@'',
     ''@......@       '', ''@....@@.@      '', ''@...@ @.@      '', ''@..@   @.@     '', ''@.@    @.@     '',
     ''@@      @.@    '', ''@       @.@    '', ''         @.@   '', ''         @@@   '']"

(*@ Kernel/mouse.hpp:10-10 kMouseTransparentColor *)
definition mouse_transparent_color :: pixel_color where
  "mouse_transparent_color = rgb 0 0 1"

(*@ Kernel/mouse.cpp:109-121 DrawMouseCursor *)
definition draw_mouse_cursor :: "vec2 \<Rightarrow> drawing" where
  "draw_mouse_cursor pos =
    concat (map (\<lambda>dy. map (\<lambda>dx.
        let b = mouse_cursor_shape ! dy ! dx
        in (pos + Vec (int dx) (int dy),
            if b = CHR ''@'' then rgb 0 0 0 else if b = CHR ''.'' then rgb 255 255 255 else mouse_transparent_color))
      [0..<15]) [0..<24])"

(*@ Kernel/mouse.cpp:40-55 FindActiveLayerTask *)
definition find_active_layer_task :: "gui \<Rightarrow> nat option \<times> nat" where
  "find_active_layer_task g =
    (if active_layer g = 0 then (None, 0)
     else case find_layer (manager g) (active_layer g) of
       None \<Rightarrow> (None, 0)
     | Some l \<Rightarrow> (case layer_task_map g (active_layer g) of None \<Rightarrow> (Some (layer_id l), 0) | Some tid \<Rightarrow> (Some (layer_id l), tid)))"

definition mouse_move_message :: "vec2 \<Rightarrow> vec2 \<Rightarrow> u8 \<Rightarrow> message" where
  "mouse_move_message rel diff buttons =
    (plain_message kMouseMove)\<lparr>msg_arg := Mouse_Move_Arg (vx rel) (vy rel) (vx diff) (vy diff) buttons\<rparr>"

definition mouse_button_message :: "vec2 \<Rightarrow> u8 \<Rightarrow> nat \<Rightarrow> message" where
  "mouse_button_message rel buttons i =
    (plain_message kMouseButton)\<lparr>msg_arg := Mouse_Button_Arg (vx rel) (vy rel) (if bit buttons i then 1 else 0) (int i)\<rparr>"

text \<open>The messages of \<^verbatim>\<open>SendMouseMessage\<close>, in the order they are sent: one for a movement, one for each button
  that changed.\<close>

(*@ Kernel/mouse.cpp:71-92 SendMouseMessage *)
definition mouse_messages :: "vec2 \<Rightarrow> vec2 \<Rightarrow> u8 \<Rightarrow> u8 \<Rightarrow> message list" where
  "mouse_messages rel diff buttons previous =
    (if vx diff \<noteq> 0 \<or> vy diff \<noteq> 0 then [mouse_move_message rel diff buttons] else []) @
    (if previous \<noteq> buttons
     then map (mouse_button_message rel buttons) (filter (bit (previous XOR buttons)) [0..<8]) else [])"

definition send_list :: "nat \<Rightarrow> message list \<Rightarrow> gui \<Rightarrow> gui" where
  "send_list tid ms g = g\<lparr>gui_tasks := fold (\<lambda>m tm. snd (send_message tid m tm)) ms (gui_tasks g)\<rparr>"

(*@ Kernel/mouse.cpp:57-94 SendMouseMessage *)
definition send_mouse_message :: "vec2 \<Rightarrow> vec2 \<Rightarrow> u8 \<Rightarrow> u8 \<Rightarrow> gui \<Rightarrow> gui option" where
  "send_mouse_message newpos posdiff buttons previous g =
    (if active_layer g = 0 then Some g
     else case layer_task_map g (active_layer g) of
       None \<Rightarrow> Some g
     | Some tid \<Rightarrow>
         do { l \<leftarrow> find_layer (manager g) (active_layer g);
              Some (send_list tid (mouse_messages (newpos - layer_pos l) posdiff buttons previous) g) })"

(*@ Kernel/mouse.cpp:98-107 SendCloseMessage *)
definition send_close_message :: "gui \<Rightarrow> gui" where
  "send_close_message g =
    (case find_active_layer_task g of
       (Some i, tid) \<Rightarrow>
         if tid = 0 then g else send_list tid [(plain_message kWindowClose)\<lparr>msg_arg := Window_Close_Arg i\<rparr>] g
     | (None, _) \<Rightarrow> g)"

(*@ Kernel/mouse.cpp:128-131 Mouse::SetPosition *)
definition set_position :: "vec2 \<Rightarrow> mouse \<times> gui \<Rightarrow> (mouse \<times> gui) option" where
  "set_position pos s =
    do { lm \<leftarrow> lm_move (mouse_layer_id (fst s)) pos (manager (snd s));
         Some ((fst s)\<lparr>position := pos\<rparr>, (snd s)\<lparr>manager := lm\<rparr>) }"

text \<open>A click with the left button: the layer under the pointer is activated; the drag and close layers that
  result.\<close>

(*@ Kernel/mouse.cpp:147-164 Mouse::OnInterrupt *)
definition mouse_press :: "fonts \<Rightarrow> mouse \<Rightarrow> gui \<Rightarrow> (nat \<times> nat \<times> gui) option" where
  "mouse_press fonts m g =
    (case find_layer_by_position (position m) (mouse_layer_id m) (manager g) of
       None \<Rightarrow> do { g1 \<leftarrow> activate fonts 0 g; Some (drag_layer_id m, 0, g1) }
     | Some i \<Rightarrow>
         do { l \<leftarrow> find_layer (manager g) i;
              if draggable l then do {
                w \<leftarrow> window_of (manager g) l;
                let r = window_region_at w (position m - layer_pos l);
                g1 \<leftarrow> activate fonts (layer_id l) g;
                Some (if r = kTitleBar then layer_id l else drag_layer_id m, if r = kCloseButton then layer_id l else 0, g1) }
              else do { g1 \<leftarrow> activate fonts 0 g; Some (drag_layer_id m, 0, g1) } })"

definition screen_size :: "gui \<Rightarrow> vec2" where
  "screen_size g = frame_buffer_size (fb_config (screen_fb (manager g)))"

text \<open>The unclamped position is what \<^verbatim>\<open>SendMouseMessage\<close> gets: \<^verbatim>\<open>newpos\<close> is only cut at the far edges.\<close>

(*@ Kernel/mouse.cpp:133-182 Mouse::OnInterrupt *)
definition on_interrupt :: "fonts \<Rightarrow> u8 \<Rightarrow> 8 word \<Rightarrow> 8 word \<Rightarrow> mouse \<times> gui \<Rightarrow> (mouse \<times> gui) option" where
  "on_interrupt fonts buttons dx dy s =
    (let m = fst s; g = snd s;
         newpos = element_min (position m + Vec (sint dx) (sint dy)) (screen_size g + Vec (-1) (-1));
         pos = element_max newpos (Vec 0 0);
         posdiff = pos - position m;
         was = bit (previous_buttons m) 0; left = bit buttons 0
     in do {
       lm \<leftarrow> lm_move (mouse_layer_id m) pos (manager g);
       let m1 = m\<lparr>position := pos\<rparr>;
       let g1 = g\<lparr>manager := lm\<rparr>;
       (drag, close, g2) \<leftarrow>
         (if \<not> was \<and> left then mouse_press fonts m1 g1
          else if was \<and> left then
            (if 0 < drag_layer_id m then do {
               lm \<leftarrow> lm_move_relative (drag_layer_id m) posdiff lm;
               Some (drag_layer_id m, 0, g1\<lparr>manager := lm\<rparr>) }
             else Some (drag_layer_id m, 0, g1))
          else if was then Some (0, 0, g1)
          else Some (drag_layer_id m, 0, g1));
       g3 \<leftarrow>
         (if drag = 0 then
            if close = 0 then send_mouse_message newpos posdiff buttons (previous_buttons m) g2
            else Some (send_close_message g2)
          else Some g2);
       Some (m1\<lparr>drag_layer_id := drag, previous_buttons := buttons\<rparr>, g3) })"

section \<open>The pointer and its messages\<close>

lemma lm_move_config:
  assumes "lm_move i p lm = Some lm'"
  shows "fb_config (screen_fb lm') = fb_config (screen_fb lm)"
  using assms by (auto simp: lm_move_def move_with_def draw_layer_def draw_layer_area_def bind_eq_Some_conv update_layer_def)

text \<open>However far the mouse reports to have moved, and whatever the buttons do, the pointer stays on
  the screen (at least one pixel large): after \<^verbatim>\<open>OnInterrupt\<close> its position is within the screen, it is the old
  position plus the displacement where that is on the screen, and the buttons are remembered.\<close>

theorem pointer_stays_on_screen:
  assumes "on_interrupt fonts buttons dx dy (m, g) = Some (m', g')"
    and "0 < vx (screen_size g)" "0 < vy (screen_size g)"
  shows "in_rect (position m') (Rect (Vec 0 0) (screen_size g)) \<and> previous_buttons m' = buttons \<and>
    (in_rect (position m + Vec (sint dx) (sint dy)) (Rect (Vec 0 0) (screen_size g)) \<longrightarrow>
      position m' = position m + Vec (sint dx) (sint dy))"
proof -
  have "position m' = element_max (element_min (position m + Vec (sint dx) (sint dy)) (screen_size g + Vec (-1) (-1))) (Vec 0 0)"
    "previous_buttons m' = buttons"
    using assms(1) by (auto simp: on_interrupt_def Let_def bind_eq_Some_conv split: if_splits)
  then show ?thesis
    using assms(2,3) by (auto simp: in_rect_def element_max_def element_min_def vec2.expand)
qed

text \<open>\<^verbatim>\<open>SendMouseMessage\<close> tells a task exactly what changed: a movement message with the displacement
  if and only if the pointer moved, then for every button whose state changed, in ascending order, one
  message with the button's number and its new state, and nothing for the others.\<close>

theorem mouse_messages_report_changes:
  "map (\<lambda>m. (mb_button (msg_arg m), mb_press (msg_arg m))) (filter (\<lambda>m. msg_type m = kMouseButton) (mouse_messages rel diff buttons previous)) =
     map (\<lambda>i. (int i, if bit buttons i then 1 else 0)) (filter (\<lambda>i. bit buttons i \<noteq> bit previous i) [0..<8])
   \<and> map msg_arg (filter (\<lambda>m. msg_type m = kMouseMove) (mouse_messages rel diff buttons previous)) =
     (if diff = Vec 0 0 then [] else [Mouse_Move_Arg (vx rel) (vy rel) (vx diff) (vy diff) buttons])"
proof -
  have bits: "filter (bit (previous XOR buttons)) [0..<8] = (if previous = buttons then [] else filter (\<lambda>i. bit buttons i \<noteq> bit previous i) [0..<8])"
    by (auto simp: bit_xor_iff intro: filter_cong)
  have none: "filter (\<lambda>i. bit buttons i \<noteq> bit buttons i) [0..<8] = []" by simp
  have d: "diff = Vec 0 0 \<longleftrightarrow> vx diff = 0 \<and> vy diff = 0" by (cases diff) simp
  have buttons: "filter (\<lambda>m. msg_type m = kMouseButton) (map (mouse_button_message rel buttons) is) = map (mouse_button_message rel buttons) is"
    "filter (\<lambda>m. msg_type m = kMouseMove) (map (mouse_button_message rel buttons) is) = []" for "is"
    by (induction "is") (simp_all add: mouse_button_message_def plain_message_def)
  have moves: "msg_type (mouse_move_message rel diff buttons) = kMouseMove"
    "msg_arg (mouse_move_message rel diff buttons) = Mouse_Move_Arg (vx rel) (vy rel) (vx diff) (vy diff) buttons"
    by (simp_all add: mouse_move_message_def plain_message_def)
  show ?thesis
  proof
    show "map (\<lambda>m. (mb_button (msg_arg m), mb_press (msg_arg m))) (filter (\<lambda>m. msg_type m = kMouseButton) (mouse_messages rel diff buttons previous)) =
     map (\<lambda>i. (int i, if bit buttons i then 1 else 0)) (filter (\<lambda>i. bit buttons i \<noteq> bit previous i) [0..<8])"
      unfolding mouse_messages_def bits filter_append buttons if_distrib [of "filter _"]
      by (auto simp: moves mouse_button_message_def plain_message_def)
    show "map msg_arg (filter (\<lambda>m. msg_type m = kMouseMove) (mouse_messages rel diff buttons previous)) =
     (if diff = Vec 0 0 then [] else [Mouse_Move_Arg (vx rel) (vy rel) (vx diff) (vy diff) buttons])"
      unfolding mouse_messages_def filter_append using d by (simp add: moves buttons)
  qed
qed

end
