(* ===== verification/Gui_Sample.thy ===== *)
theory Gui_Sample imports Mouse begin

text \<open>
  Small frame buffers and stacks of windows on which the theorems about drawing apply.
\<close>

section \<open>A sample buffer\<close>

definition small_config :: frame_buffer_config where
  "small_config = \<lparr>frame_buffer_null = True, pixels_per_scan_line = 0, horizontal_resolution = 2,
     vertical_resolution = 3, pixel_format = kPixelBGRResv8BitPerColor\<rparr>"

definition small_fb :: frame_buffer where
  "small_fb = write_pixel (Vec 1 2, rgb 1 2 3) (snd (fb_initialize (\<lambda>_. 0) small_config))"

lemma small_fb_config: "fb_config small_fb = small_config\<lparr>frame_buffer_null := False, pixels_per_scan_line := 2\<rparr>"
  by (simp add: small_fb_def fb_initialize_def small_config_def bytes_per_pixel_def)

lemma small_fb_ok: "config_ok (fb_config small_fb)"
  by (simp add: small_fb_config config_ok_def small_config_def word_le_def word_less_def)

lemma small_fb_screen: "frame_buffer_size (fb_config small_fb) = Vec 2 3"
  by (simp add: small_fb_config frame_buffer_size_def small_config_def)

lemma small_fb_pixel: "pixel_at small_fb (Vec 1 2) = rgb 1 2 3"
  unfolding small_fb_def
  by (subst pixel_at_write)
    (simp_all add: fb_initialize_def small_config_def bytes_per_pixel_def config_ok_def in_rect_def frame_buffer_size_def
      word_le_def word_less_def)

theorem fb_move_pixels_witness:
  "pixel_at (fb_move (Vec 0 0) (Rect (Vec 0 1) (Vec 2 2)) small_fb) (Vec 1 1) = rgb 1 2 3"
proof -
  have "pixel_at (fb_move (Vec 0 0) (Rect (Vec 0 1) (Vec 2 2)) small_fb) (Vec 1 1) =
      (if in_rect (Vec 1 1) (Rect (Vec 0 0) (rsize (Rect (Vec 0 1) (Vec 2 2))))
       then pixel_at small_fb (Vec 1 1 - Vec 0 0 + rpos (Rect (Vec 0 1) (Vec 2 2))) else pixel_at small_fb (Vec 1 1))"
    by (rule fb_move_pixels [OF small_fb_ok]) (simp_all add: in_rect_def small_fb_screen)
  then show ?thesis by (simp add: in_rect_def small_fb_pixel)
qed

theorem fb_copy_pixels_witness:
  "pixel_at (snd (fb_copy (Vec 0 1) small_fb (Rect (Vec 1 2) (Vec 5 5)) small_fb)) (Vec 0 1) = rgb 1 2 3"
proof -
  have "fst (fb_copy (Vec 0 1) small_fb (Rect (Vec 1 2) (Vec 5 5)) small_fb) = kSuccess \<and>
     pixel_at (snd (fb_copy (Vec 0 1) small_fb (Rect (Vec 1 2) (Vec 5 5)) small_fb)) (Vec 0 1) =
      (let q = Vec 0 1 - Vec 0 1 + rpos (Rect (Vec 1 2) (Vec 5 5))
       in if in_rect q (Rect (Vec 1 2) (Vec 5 5)) \<and> in_rect q (screen small_fb) then pixel_at small_fb q
          else pixel_at small_fb (Vec 0 1))"
    by (rule fb_copy_pixels [OF small_fb_ok small_fb_ok]) (simp_all add: in_rect_def small_fb_screen)
  then show ?thesis by (simp add: Let_def in_rect_def small_fb_pixel small_fb_screen)
qed

section \<open>A sample screen\<close>

text \<open>A screen of 4 by 3 pixels: the background (layer 4), a window of 2 by 2 pixels (layer 2) and a pointer
  of one pixel with a transparent colour (layer 3).\<close>

definition sample_window :: "nat \<Rightarrow> window" where
  "sample_window h =
    (if h = 0 then new_window 4 3 kPixelBGRResv8BitPerColor
     else if h = 5 then new_window 2 2 kPixelBGRResv8BitPerColor
     else (new_window 1 1 kPixelBGRResv8BitPerColor)\<lparr>transparent_color := Some (rgb 0 0 1)\<rparr>)"

definition sample_screen :: frame_buffer where
  "sample_screen = snd (fb_initialize (\<lambda>_. 0) \<lparr>frame_buffer_null = False, pixels_per_scan_line = 4,
     horizontal_resolution = 4, vertical_resolution = 3, pixel_format = kPixelBGRResv8BitPerColor\<rparr>)"

definition blank_manager :: layer_manager where
  "blank_manager = set_writer sample_screen
    \<lparr>screen_fb = sample_screen, back_buffer = sample_screen,
     layers = [\<lparr>layer_id = 4, layer_pos = Vec 0 0, layer_window = Some 0, draggable = False\<rparr>,
       \<lparr>layer_id = 2, layer_pos = Vec 1 0, layer_window = Some 5, draggable = True\<rparr>,
       \<lparr>layer_id = 3, layer_pos = Vec 3 2, layer_window = Some 2, draggable = False\<rparr>],
     layer_stack = [4, 2, 3], latest_layer_id = 4, windows = sample_window, garbage = Rect (Vec 0 0) (Vec 0 0)\<rparr>"

definition sample_manager :: layer_manager where
  "sample_manager = draw_area (Rect (Vec 0 0) (Vec 4 3)) blank_manager"

lemma sample_screen_config:
  "fb_config sample_screen = \<lparr>frame_buffer_null = False, pixels_per_scan_line = 4,
     horizontal_resolution = 4, vertical_resolution = 3, pixel_format = kPixelBGRResv8BitPerColor\<rparr>"
  by (simp add: sample_screen_def fb_initialize_def bytes_per_pixel_def)

lemma blank_configs:
  "fb_config (screen_fb blank_manager) = \<lparr>frame_buffer_null = False, pixels_per_scan_line = 4,
     horizontal_resolution = 4, vertical_resolution = 3, pixel_format = kPixelBGRResv8BitPerColor\<rparr>"
  "fb_config (back_buffer blank_manager) = \<lparr>frame_buffer_null = False, pixels_per_scan_line = 4,
     horizontal_resolution = 4, vertical_resolution = 3, pixel_format = kPixelBGRResv8BitPerColor\<rparr>"
  by (simp_all add: blank_manager_def set_writer_def sample_screen_config fb_initialize_def bytes_per_pixel_def)

lemma sample_windows_ok: "window_ok kPixelBGRResv8BitPerColor (sample_window h)"
  by (simp add: window_ok_def sample_window_def new_window_def fb_initialize_def bytes_per_pixel_def config_ok_def
      frame_buffer_size_def win_size_def word_le_def word_less_def)

lemma sample_on_screen: "on_screen blank_manager p \<longleftrightarrow> 0 \<le> vx p \<and> vx p < 4 \<and> 0 \<le> vy p \<and> vy p < 3"
  by (simp add: in_rect_def blank_configs frame_buffer_size_def)

lemma blank_ok: "lm_ok blank_manager"
  using sample_windows_ok
  by (simp add: lm_ok_def blank_configs config_ok_def word_le_def word_less_def)
    (simp add: blank_manager_def set_writer_def)

lemma blank_layers:
  "find_layer blank_manager 4 = Some \<lparr>layer_id = 4, layer_pos = Vec 0 0, layer_window = Some 0, draggable = False\<rparr>"
  "find_layer blank_manager 2 = Some \<lparr>layer_id = 2, layer_pos = Vec 1 0, layer_window = Some 5, draggable = True\<rparr>"
  "find_layer blank_manager 3 = Some \<lparr>layer_id = 3, layer_pos = Vec 3 2, layer_window = Some 2, draggable = False\<rparr>"
  "layer_stack blank_manager = [4, 2, 3]" "windows blank_manager = sample_window"
  by (simp_all add: find_layer_def blank_manager_def set_writer_def)

lemma window_facts:
  "transparent_color (sample_window 0) = None" "transparent_color (sample_window 5) = None"
  "transparent_color (sample_window 2) = Some (rgb 0 0 1)" "win_size (sample_window 0) = Vec 4 3"
  "win_title (sample_window h) = None"
  by (simp_all add: sample_window_def new_window_def win_size_def)

text \<open>Any manager with these layers, windows and stack, wherever layers 2 and 3 are.\<close>

lemma sample_stack_ok:
  assumes "layer_stack lm = [4, 2, 3]" "windows lm = sample_window" "fb_config (screen_fb lm) = fb_config (screen_fb blank_manager)"
    and "find_layer lm 4 = find_layer blank_manager 4" "\<exists>l. find_layer lm 2 = Some l \<and> layer_window l = Some 5"
    and "\<exists>l. find_layer lm 3 = Some l \<and> layer_window l = Some 2"
  shows "stack_ok lm"
proof -
  have "\<not> is_transparent lm 4" "\<not> is_transparent lm 2" "is_transparent lm 3"
    using assms by (auto simp: is_transparent_def window_of_def blank_layers(1) window_facts)
  then have "\<forall>i \<in> set [4, 2]. \<not> is_transparent lm i" "\<forall>i \<in> set [3]. is_transparent lm i" "layer_stack lm = [4, 2] @ [3]"
    using assms(1) by auto
  moreover have "stack_pixel lm p 4 \<noteq> None" if "on_screen lm p" for p
    using that assms(2,4) unfolding assms(3) sample_on_screen
    by (auto simp: stack_pixel_def blank_layers(1) window_of_def window_pixel_def window_facts in_rect_def)
  ultimately show ?thesis using assms(1) unfolding stack_ok_def by (intro conjI exI [of _ "[4, 2]"] exI [of _ "[3]"]) auto
qed

lemma blank_stack_ok: "stack_ok blank_manager"
  by (rule sample_stack_ok) (simp_all add: blank_layers)

lemma sample_facts: "lm_ok sample_manager" "stack_ok sample_manager" "shown sample_manager"
proof -
  show "lm_ok sample_manager" using blank_ok by (simp add: sample_manager_def)
  have find: "find_layer sample_manager i = find_layer blank_manager i" for i
    by (simp add: sample_manager_def find_layer_def)
  show "stack_ok sample_manager"
    by (rule sample_stack_ok) (simp_all add: find blank_layers, simp_all add: sample_manager_def blank_layers)
  have sp: "stack_pixel sample_manager = stack_pixel blank_manager"
    by (intro ext stack_pixel_cong) (simp_all add: sample_manager_def)
  have "Some (pixel_at (screen_fb sample_manager) p) = topmost (stack_pixel sample_manager p) (layer_stack sample_manager) \<and>
      pixel_at (back_buffer sample_manager) p = pixel_at (screen_fb sample_manager) p" if p: "on_screen sample_manager p" for p
  proof -
    have p': "on_screen blank_manager p" using p by (simp add: sample_manager_def)
    then have "in_rect p (Rect (Vec 0 0) (Vec 4 3))" unfolding sample_on_screen by (simp add: in_rect_def)
    then show ?thesis
      using draw_area_pixels [OF blank_ok p', of "Rect (Vec 0 0) (Vec 4 3)"] stack_ok_covered [OF blank_stack_ok p'] sp
      by (auto simp: sample_manager_def over_def split: option.splits)
  qed
  then show "shown sample_manager" by (simp add: shown_def)
qed

theorem draw_area_shows_topmost_witness:
  "Some (pixel_at (screen_fb (draw_area (Rect (Vec 1 1) (Vec 3 2)) blank_manager)) (Vec 1 2)) =
    topmost (stack_pixel blank_manager (Vec 1 2)) [4, 2, 3]"
  using draw_area_shows_topmost [OF blank_ok blank_stack_ok, of "Vec 1 2" "Rect (Vec 1 1) (Vec 3 2)"]
  by (simp add: sample_on_screen in_rect_def [of _ "Rect (Vec 1 1) (Vec 3 2)"] blank_layers)

lemma sample_moved:
  assumes "i = 2 \<or> i = 3"
  shows "stack_ok (update_layer i (layer_move_to p) sample_manager)"
proof (rule sample_stack_ok)
  have find: "find_layer (update_layer i (layer_move_to p) sample_manager) j =
      (if j = i then map_option (layer_move_to p) (find_layer blank_manager j) else find_layer blank_manager j)" for j
    using find_update_layer [of "layer_move_to p" i sample_manager j]
    by (simp add: layer_move_to_def sample_manager_def find_layer_def)
  show "find_layer (update_layer i (layer_move_to p) sample_manager) 4 = find_layer blank_manager 4"
    using assms by (auto simp: find)
  show "\<exists>l. find_layer (update_layer i (layer_move_to p) sample_manager) 2 = Some l \<and> layer_window l = Some 5"
    "\<exists>l. find_layer (update_layer i (layer_move_to p) sample_manager) 3 = Some l \<and> layer_window l = Some 2"
    by (auto simp: find blank_layers layer_move_to_def)
qed (simp_all add: update_layer_def sample_manager_def blank_layers)

lemma sample_find: "find_layer sample_manager i = find_layer blank_manager i"
  by (simp add: sample_manager_def find_layer_def)

lemma sample_stack: "layer_stack sample_manager = [4, 2, 3]" "windows sample_manager = sample_window"
  by (simp_all add: sample_manager_def blank_layers)

theorem lm_move_keeps_screen_witness:
  "\<exists>lm'. lm_move 2 (Vec 0 1) sample_manager = Some lm' \<and> shown lm' \<and> layer_stack lm' = [4, 2, 3]"
proof -
  have "2 \<in> set (layer_stack sample_manager)" "window_of sample_manager
      \<lparr>layer_id = 2, layer_pos = Vec 1 0, layer_window = Some 5, draggable = True\<rparr> = Some (sample_window 5)"
    by (simp_all add: sample_stack window_of_def)
  from lm_move_keeps_screen [OF sample_facts this(1) _ this(2), of "Vec 0 1"] sample_moved [of 2]
  show ?thesis by (auto simp: sample_find blank_layers sample_stack)
qed

definition sample_gui :: gui where
  "sample_gui = \<lparr>manager = sample_manager, active_layer = 0, mouse_layer = 3, layer_task_map = (\<lambda>_. None),
     gui_tasks = \<lparr>tasks = [], latest_id = 0, runq = (\<lambda>_. []), current_level = 0, level_changed = False,
       finish_tasks = Map.empty, finish_waiter = Map.empty\<rparr>\<rparr>"

theorem activate_below_mouse_witness:
  "\<exists>g' xs ys. activate ([], \<lambda>_. None) 4 sample_gui = Some g' \<and> [2, 3] = xs @ 3 # ys \<and> layer_stack (manager g') = xs @ 4 # 3 # ys"
proof -
  have t: "titles_ok ([], \<lambda>_. None) (manager sample_gui)"
    by (simp add: titles_ok_def sample_gui_def sample_stack window_facts)
  have "active_layer sample_gui \<noteq> 4" "0 < (4::nat)" "4 \<noteq> mouse_layer sample_gui"
    "find_layer (manager sample_gui) 4 = Some \<lparr>layer_id = 4, layer_pos = Vec 0 0, layer_window = Some 0, draggable = False\<rparr>"
    "layer_window \<lparr>layer_id = 4, layer_pos = Vec 0 0, layer_window = Some 0, draggable = False\<rparr> = Some 0"
    "active_layer sample_gui = 0 \<or> find_layer (manager sample_gui) (active_layer sample_gui) = Some undefined \<and> layer_window undefined = Some 0"
    "distinct (layer_stack (manager sample_gui))" "mouse_layer sample_gui \<in> set (layer_stack (manager sample_gui))"
    by (simp_all add: sample_gui_def sample_find blank_layers sample_stack)
  from activate_below_mouse [OF this t] show ?thesis by (auto simp: sample_gui_def sample_stack)
qed

theorem pointer_stays_on_screen_witness:
  "\<exists>m' g'. on_interrupt ([], \<lambda>_. None) 0 100 (- 100) (\<lparr>mouse_layer_id = 3, position = Vec 3 2, drag_layer_id = 0, previous_buttons = 0\<rparr>, sample_gui) =
      Some (m', g') \<and> in_rect (position m') (Rect (Vec 0 0) (Vec 4 3))"
proof -
  let ?m = "\<lparr>mouse_layer_id = 3, position = Vec 3 2, drag_layer_id = 0, previous_buttons = 0\<rparr>"
  have sz: "screen_size sample_gui = Vec 4 3"
    by (simp add: screen_size_def sample_gui_def sample_manager_def blank_configs frame_buffer_size_def)
  have "3 \<in> set (layer_stack sample_manager)" "window_of sample_manager
      \<lparr>layer_id = 3, layer_pos = Vec 3 2, layer_window = Some 2, draggable = False\<rparr> = Some (sample_window 2)"
    by (simp_all add: sample_stack window_of_def)
  from move_with_shown [OF sample_facts this(1) _ this(2), of "layer_move_to p" for p] sample_moved [of 3]
  have "lm_move 3 p sample_manager \<noteq> None" for p
    by (auto simp: lm_move_def sample_find blank_layers layer_move_to_def)
  then have "\<exists>m' g'. on_interrupt ([], \<lambda>_. None) 0 100 (- 100) (?m, sample_gui) = Some (m', g')"
    by (auto simp: on_interrupt_def Let_def send_mouse_message_def sample_gui_def split: bind_splits)
  then obtain m' g' where run: "on_interrupt ([], \<lambda>_. None) 0 100 (- 100) (?m, sample_gui) = Some (m', g')" by blast
  from pointer_stays_on_screen [OF run] show ?thesis using run by (auto simp: sz)
qed

end
