(* ===== verification/Keyboard.thy ===== *)
theory Keyboard imports File_Descriptor Scheduler begin

text \<open>
  \<^verbatim>\<open>Kernel/keyboard.{hpp,cpp}\<close> and \<^verbatim>\<open>Kernel/usb/classdriver/keyboard.cpp\<close>: from the reports of a USB
  keyboard to \<^verbatim>\<open>kKeyPush\<close> messages of the main task. A report has eight bytes: the modifier bits, a
  reserved byte, and the keycodes of up to six keys that are down.
\<close>

section \<open>Keycodes and characters\<close>

(*@ Kernel/keyboard.hpp:6-6 kLControlBitMask *)
definition kLControlBitMask :: u8 where "kLControlBitMask = 0b00000001"

(*@ Kernel/keyboard.hpp:7-7 kLShiftBitMask *)
definition kLShiftBitMask :: u8 where "kLShiftBitMask = 0b00000010"

(*@ Kernel/keyboard.hpp:10-10 kRControlBitMask *)
definition kRControlBitMask :: u8 where "kRControlBitMask = 0b00010000"

(*@ Kernel/keyboard.hpp:11-11 kRShiftBitMask *)
definition kRShiftBitMask :: u8 where "kRShiftBitMask = 0b00100000"

(*@ Kernel/keyboard.cpp:8-27 keycode_map *)
definition keycode_map :: "u8 list" where
  "keycode_map =
     [0, 0, 0, 0] @ bytes_of ''abcd'' @
     bytes_of ''efghijkl'' @
     bytes_of ''mnopqrst'' @
     bytes_of ''uvwxyz12'' @
     bytes_of ''34567890'' @
     [10, 8, 0x08, 9] @ bytes_of '' -=['' @
     bytes_of '']'' @ [92] @ bytes_of ''#;'' @ [39] @ bytes_of ''`,.'' @
     bytes_of ''/'' @ replicate 7 0 @
     replicate 8 0 @
     replicate 8 0 @
     replicate 4 0 @ bytes_of ''/*-+'' @
     [10] @ bytes_of ''1234567'' @
     bytes_of ''890.'' @ [92, 0, 0] @ bytes_of ''='' @
     replicate 8 0 @
     replicate 8 0 @
     replicate 8 0 @
     replicate 8 0 @
     [0, 92, 0, 0, 0, 0, 0, 0] @ replicate 112 0"

(*@ Kernel/keyboard.cpp:29-48 keycode_map_shifted *)
definition keycode_map_shifted :: "u8 list" where
  "keycode_map_shifted =
     [0, 0, 0, 0] @ bytes_of ''ABCD'' @
     bytes_of ''EFGHIJKL'' @
     bytes_of ''MNOPQRST'' @
     bytes_of ''UVWXYZ!@'' @
     bytes_of ''#$%^&*()'' @
     [10, 8, 0x08, 9] @ bytes_of '' _+{'' @
     bytes_of ''}|~:'' @ [34] @ bytes_of ''~<>'' @
     bytes_of ''?'' @ replicate 7 0 @
     replicate 8 0 @
     replicate 8 0 @
     replicate 4 0 @ bytes_of ''/*-+'' @
     [10] @ bytes_of ''1234567'' @
     bytes_of ''890.'' @ [92, 0, 0] @ bytes_of ''='' @
     replicate 8 0 @
     replicate 8 0 @
     replicate 8 0 @
     replicate 8 0 @
     [0] @ bytes_of ''|'' @ [0, 0, 0, 0, 0, 0] @ replicate 112 0"

(*@ Kernel/keyboard.cpp:57-61 InitializeKeyboard *)
definition key_to_ascii :: "u8 \<Rightarrow> u8 \<Rightarrow> u8" where
  "key_to_ascii modifier keycode =
    (let shift = modifier AND (kLShiftBitMask OR kRShiftBitMask) \<noteq> 0
     in if shift then keycode_map_shifted ! unat keycode else keycode_map ! unat keycode)"

(*@ Kernel/keyboard.cpp:62-66 InitializeKeyboard *)
definition key_message :: "u8 \<Rightarrow> u8 \<Rightarrow> bool \<Rightarrow> message" where
  "key_message modifier keycode press =
    \<lparr>msg_type = kKeyPush, msg_src_task = 0,
     msg_arg = Keyboard_Arg modifier keycode (key_to_ascii modifier keycode) press\<rparr>"

(*@ Kernel/keyboard.cpp:53-69 InitializeKeyboard *)
definition keyboard_observer :: "u8 \<Rightarrow> u8 \<Rightarrow> bool \<Rightarrow> task_manager \<Rightarrow> task_manager" where
  "keyboard_observer modifier keycode press tm = snd (send_message 1 (key_message modifier keycode press) tm)"

section \<open>Reports\<close>

text \<open>The bits set in one of the two \<^verbatim>\<open>std::bitset\<close>s.\<close>

(*@ Kernel/usb/classdriver/keyboard.cpp:14-18 HIDKeyboardDriver::OnDataReceived *)
definition keys_down :: "u8 list \<Rightarrow> nat \<Rightarrow> bool" where
  "keys_down buf key \<longleftrightarrow> key \<in> (\<lambda>i. unat (buf ! i)) ` set [2..<8]"

(*@ Kernel/usb/classdriver/keyboard.cpp:13-27 HIDKeyboardDriver::OnDataReceived *)
definition key_changes :: "u8 list \<Rightarrow> u8 list \<Rightarrow> (u8 \<times> u8 \<times> bool) list" where
  "key_changes previous_buffer buf =
    (let prev = keys_down previous_buffer;
         current = keys_down buf;
         changed = (\<lambda>key. prev key \<noteq> current key);
         pressed = (\<lambda>key. changed key \<and> current key)
     in map (\<lambda>key. (buf ! 0, of_nat key, pressed key)) (filter changed [1..<256]))"

text \<open>\<^verbatim>\<open>NotifyKeyPush\<close> with the one observer \<^verbatim>\<open>InitializeKeyboard\<close> installs as the default.\<close>

(*@ Kernel/usb/classdriver/keyboard.cpp:45-49 HIDKeyboardDriver::NotifyKeyPush *)
definition notify_key_push :: "(u8 \<Rightarrow> u8 \<Rightarrow> bool \<Rightarrow> 's \<Rightarrow> 's) list \<Rightarrow> u8 \<Rightarrow> u8 \<Rightarrow> bool \<Rightarrow> 's \<Rightarrow> 's" where
  "notify_key_push observers modifier keycode press s =
    fold (\<lambda>f. f modifier keycode press) observers s"

definition keyboard_report :: "u8 list \<Rightarrow> u8 list \<Rightarrow> task_manager \<Rightarrow> task_manager" where
  "keyboard_report previous_buffer buf tm =
    fold (\<lambda>(modifier, keycode, press). notify_key_push [keyboard_observer] modifier keycode press)
      (key_changes previous_buffer buf) tm"

section \<open>What the tables hold\<close>

lemma map_sizes: "length keycode_map = 256" "length keycode_map_shifted = 256"
  by (simp_all add: keycode_map_def keycode_map_shifted_def bytes_of_def)

lemma table_values:
  "set ([8..10] @ [32..126]) \<subseteq> set (map uint keycode_map) \<union> set (map uint keycode_map_shifted)"
  by (simp add: keycode_map_def keycode_map_shifted_def bytes_of_def)

lemma key_to_ascii_tables:
  "c \<in> set keycode_map \<union> set keycode_map_shifted \<Longrightarrow> \<exists>modifier keycode. key_to_ascii modifier keycode = c"
proof -
  assume "c \<in> set keycode_map \<union> set keycode_map_shifted"
  then consider i where "i < 256" "keycode_map ! i = c" | i where "i < 256" "keycode_map_shifted ! i = c"
    by (auto simp: in_set_conv_nth map_sizes)
  then show ?thesis
  proof cases
    case 1
    then have "key_to_ascii 0 (of_nat i) = c"
      by (simp add: key_to_ascii_def unat_of_nat)
    then show ?thesis by blast
  next
    case 2
    then have "key_to_ascii kLShiftBitMask (of_nat i) = c"
      by (simp add: key_to_ascii_def unat_of_nat kLShiftBitMask_def kRShiftBitMask_def)
    then show ?thesis by blast
  qed
qed

text \<open>Every printable ASCII character, and backspace, tab and the line feed, can be typed: some key
  with some modifiers yields it.\<close>

theorem keyboard_types_printable:
  assumes "8 \<le> uint c \<and> uint c \<le> 10 \<or> 32 \<le> uint c \<and> uint c \<le> 126"
  shows "\<exists>modifier keycode. key_to_ascii modifier keycode = c"
proof -
  have "uint c \<in> set ([8..10] @ [32..126])" using assms by (auto simp del: upto_rec_numeral)
  then have "uint c \<in> uint ` (set keycode_map \<union> set keycode_map_shifted)"
    using table_values by (auto simp del: upto_rec_numeral)
  then show ?thesis by (intro key_to_ascii_tables) (auto dest!: unsigned_word_eqI)
qed

theorem keyboard_types_printable_witness: "\<exists>modifier keycode. key_to_ascii modifier keycode = (0x7e :: u8)"
  using keyboard_types_printable [of "0x7e"] by simp

section \<open>Reports become messages\<close>

text \<open>What a listener knows of the keys that are down, after an event.\<close>

definition track_key :: "u8 \<times> u8 \<times> bool \<Rightarrow> u8 set \<Rightarrow> u8 set" where
  "track_key ev keys = (case ev of (modifier, keycode, press) \<Rightarrow> if press then insert keycode keys else keys - {keycode})"

definition report_keys :: "u8 list \<Rightarrow> u8 set" where
  "report_keys buf = {k. k \<noteq> 0 \<and> keys_down buf (unat k)}"

lemma track_keys_fold:
  assumes "distinct ks"
  shows "fold track_key (map (\<lambda>k. (m, k, P k)) ks) S = {k. if k \<in> set ks then P k else k \<in> S}"
  using assms by (induction ks arbitrary: S) (auto simp: track_key_def)

lemma key_changes_track: "fold track_key (key_changes prev buf) (report_keys prev) = report_keys buf"
proof -
  define ks :: "u8 list" where "ks = map of_nat (filter (\<lambda>k. keys_down prev k \<noteq> keys_down buf k) [1..<256])"
  let ?P = "\<lambda>k :: u8. keys_down prev (unat k) \<noteq> keys_down buf (unat k) \<and> keys_down buf (unat k)"
  have u: "unat (of_nat n :: u8) = n" if "n < 256" for n using that by (simp add: unat_of_nat)
  have "inj_on (of_nat :: nat \<Rightarrow> u8) (set (filter (\<lambda>k. keys_down prev k \<noteq> keys_down buf k) [1..<256]))"
    by (rule inj_onI) (metis (no_types, lifting) u atLeastLessThan_iff mem_Collect_eq set_filter set_upt)
  then have d: "distinct ks" by (simp add: ks_def distinct_map)
  have ch: "key_changes prev buf = map (\<lambda>k. (buf ! 0, k, ?P k)) ks"
    by (simp add: key_changes_def ks_def Let_def u)
  have mem: "k \<in> set ks \<longleftrightarrow> k \<noteq> 0 \<and> keys_down prev (unat k) \<noteq> keys_down buf (unat k)" for k
  proof
    show "k \<noteq> 0 \<and> keys_down prev (unat k) \<noteq> keys_down buf (unat k)" if "k \<in> set ks"
    proof -
      obtain n where n: "k = of_nat n" "1 \<le> n" "n < 256" "keys_down prev n \<noteq> keys_down buf n"
        using \<open>k \<in> set ks\<close> by (auto simp: ks_def)
      then have "unat k = n" "unat k \<noteq> unat (0 :: u8)" using u [of n] by simp_all
      then show ?thesis using n(4) by auto
    qed
    assume a: "k \<noteq> 0 \<and> keys_down prev (unat k) \<noteq> keys_down buf (unat k)"
    then have "1 \<le> unat k" "unat k < 256" using unat_gt_0 [of k] unsigned_less [of k] by simp_all
    then show "k \<in> set ks" using a by (auto simp: ks_def image_iff intro!: bexI [of _ "unat k"])
  qed
  show ?thesis
    unfolding ch track_keys_fold [OF d] report_keys_def by (auto simp: mem)
qed

lemma keyboard_report_send:
  "keyboard_report prev buf tm =
     mail.send_all (map (\<lambda>(m, k, p). (1, key_message m k p)) (key_changes prev buf)) tm"
  by (simp add: keyboard_report_def mail.send_all_def fold_map comp_def case_prod_unfold
      notify_key_push_def [abs_def] keyboard_observer_def [abs_def])

text \<open>For every report of the keyboard the main task gets, in its inbox and in no other, one message
  per key that went down or up since the report before, with the modifiers and the character of the
  key: a listener who follows the messages knows exactly the keys that are down.\<close>

theorem keyboard_report_messages:
  assumes "sched_inv tm" "inbox tm 1 = Some ms"
  shows "inbox (keyboard_report prev buf tm) =
      (inbox tm)(1 \<mapsto> ms @ map (\<lambda>(m, k, p). key_message m k p) (key_changes prev buf)) \<and>
    fold track_key (key_changes prev buf) (report_keys prev) = report_keys buf \<and>
    (is_running (keyboard_report prev buf tm) 1 \<or> key_changes prev buf = [])"
proof (intro conjI)
  let ?evs = "map (\<lambda>(m, k, p). (1, key_message m k p)) (key_changes prev buf)"
  have sel: "map snd (filter (\<lambda>x. fst x = i) ?evs) =
      (if i = 1 then map (\<lambda>(m, k, p). key_message m k p) (key_changes prev buf) else [])" for i :: nat
    by (auto simp: filter_map comp_def case_prod_beta)
  show "inbox (keyboard_report prev buf tm) =
      (inbox tm)(1 \<mapsto> ms @ map (\<lambda>(m, k, p). key_message m k p) (key_changes prev buf))"
    unfolding keyboard_report_send fun_eq_iff mail.send_all_inbox [OF assms(1)] sel
    using assms(2) by (auto simp: option.map_ident)
  show "fold track_key (key_changes prev buf) (report_keys prev) = report_keys buf"
    by (rule key_changes_track)
  show "is_running (keyboard_report prev buf tm) 1 \<or> key_changes prev buf = []"
    unfolding keyboard_report_send mail.send_all_runnable [OF assms(1)]
    using assms(2) by (cases "key_changes prev buf") auto
qed

text \<open>Shift and the key \<^verbatim>\<open>a\<close> go down together.\<close>

lemma shift_a_report: "key_changes (replicate 8 0) [2, 0, 4, 0, 0, 0, 0, 0] = [(2, 4, True)]"
proof -
  have down: "keys_down (replicate 8 0) k \<longleftrightarrow> k = 0" "keys_down [2, 0, 4, 0, 0, 0, 0, 0] k \<longleftrightarrow> k = 4 \<or> k = 0" for k
    by (auto simp: keys_down_def upt_rec)
  have "[1..<256] = [1..<4] @ [4..<256]" using upt_add_eq_append [of 1 4 252] by simp
  moreover have "[4..<256] = 4 # [Suc 4..<256]" by (rule upt_conv_Cons) simp
  ultimately have "[1..<256] = [1..<4] @ 4 # [Suc 4..<256]" by (simp only: append_Cons)
  then show ?thesis
    by (simp add: key_changes_def Let_def down filter_empty_conv del: upt_Suc)
qed

theorem keyboard_report_messages_witness:
  "inbox (keyboard_report (replicate 8 0) [2, 0, 4, 0, 0, 0, 0, 0] two_tasks) 1 =
     Some [\<lparr>msg_type = kKeyPush, msg_src_task = 0, msg_arg = Keyboard_Arg 2 4 65 True\<rparr>]"
proof -
  have inv: "sched_inv two_tasks" using reachable_inv [OF two_tasks_reachable] by simp
  have box: "inbox two_tasks 1 = Some []"
    by (simp add: inbox_def two_tasks_def wakeup_id_def wakeup_task_def task_eval)
  show ?thesis
    using keyboard_report_messages [OF inv box, of "replicate 8 0" "[2, 0, 4, 0, 0, 0, 0, 0]"]
    by (simp add: shift_a_report key_message_def key_to_ascii_def kLShiftBitMask_def kRShiftBitMask_def
        keycode_map_shifted_def bytes_of_def)
qed

end
