(* ===== verification/Pipe.thy ===== *)
theory Pipe imports File_Descriptor Scheduler begin

text \<open>
  \<^verbatim>\<open>PipeDescriptor\<close> of \<^verbatim>\<open>Kernel/terminal.{hpp,cpp}\<close>: the writing command sends its output in \<^verbatim>\<open>kPipe\<close>
  messages of at most 16 bytes to the task of the reading command, which keeps what it has not handed
  out yet in \<^verbatim>\<open>data_\<close>; a message of length 0 closes the pipe. A read that finds no message sleeps: it
  returns \<open>None\<close> with the messages it dropped consumed, and goes on where it was when the task wakes.

  \<open>pipe_step\<close> interleaves the writer, the reader and other senders; the invariant of its reachable
  states says that what was written is what was read followed by what is under way.
\<close>

section \<open>The operations\<close>

(*@ Kernel/terminal.hpp:89-93 PipeDescriptor *)
record pipe =
  pipe_task :: nat
  data16 :: bytes
  data_len :: nat
  closed :: bool

(*@ Kernel/terminal.cpp:834-836 PipeDescriptor::PipeDescriptor *)
definition new_pipe :: "nat \<Rightarrow> pipe" where
  "new_pipe tid = \<lparr>pipe_task = tid, data16 = replicate 16 0, data_len = 0, closed = False\<rparr>"

text \<open>\<^verbatim>\<open>memcpy\<close> and \<^verbatim>\<open>memmove\<close> to the start of an array.\<close>

definition put_front :: "bytes \<Rightarrow> bytes \<Rightarrow> bytes" where
  "put_front bs arr = bs @ drop (length bs) arr"

(*@ Kernel/terminal.cpp:853-876 PipeDescriptor::Read *)
function pipe_wait :: "nat \<Rightarrow> pipe \<Rightarrow> task \<Rightarrow> (bytes \<times> pipe) option \<times> task" where
  "pipe_wait len p t =
    (case receive_message t of
       (None, t1) \<Rightarrow> (None, t1)
     | (Some msg, t1) \<Rightarrow>
         if msg_type msg \<noteq> kPipe then pipe_wait len p t1
         else if pipe_len (msg_arg msg) = 0 then (Some ([], p\<lparr>closed := True\<rparr>), t1)
         else
           let mlen = pipe_len (msg_arg msg);
               copy_bytes = min mlen len;
               rest_len = mlen - copy_bytes
           in (Some (take copy_bytes (pipe_data (msg_arg msg)),
                     p\<lparr>data_len := rest_len,
                       data16 := put_front (take rest_len (drop copy_bytes (pipe_data (msg_arg msg)))) (data16 p)\<rparr>), t1))"
  by pat_completeness auto
termination
  by (relation "measure (\<lambda>(len, p, t). length (msgs t))") (auto simp: receive_message_def split: list.splits)

declare pipe_wait.simps [simp del]

(*@ Kernel/terminal.cpp:840-877 PipeDescriptor::Read *)
definition pipe_read :: "nat \<Rightarrow> pipe \<Rightarrow> task \<Rightarrow> (bytes \<times> pipe) option \<times> task" where
  "pipe_read len p t =
    (if 0 < data_len p then
       let copy_bytes = min (data_len p) len;
           len' = data_len p - copy_bytes
       in (Some (take copy_bytes (data16 p),
                 p\<lparr>data_len := len', data16 := put_front (take len' (drop copy_bytes (data16 p))) (data16 p)\<rparr>), t)
     else if closed p then (Some ([], p), t)
     else pipe_wait len p t)"

definition pipe_message :: "bytes \<Rightarrow> nat \<Rightarrow> message" where
  "pipe_message d l = \<lparr>msg_type = kPipe, msg_src_task = 0, msg_arg = Pipe_Arg d l\<rparr>"

text \<open>\<open>d\<close> is the array of the message on the writer's stack, which each round overwrites in part.\<close>

(*@ Kernel/terminal.cpp:883-890 PipeDescriptor::Write *)
function pipe_write_loop :: "nat \<Rightarrow> bytes \<Rightarrow> bytes \<Rightarrow> task_manager \<Rightarrow> task_manager" where
  "pipe_write_loop tid d bs tm =
    (if bs = [] then tm
     else let n = min (length bs) 16;
              d' = put_front (take n bs) d
          in pipe_write_loop tid d' (drop n bs) (snd (send_message tid (pipe_message d' n) tm)))"
  by pat_completeness auto
termination
  by (relation "measure (\<lambda>(tid, d, bs, tm). length bs)") auto

declare pipe_write_loop.simps [simp del]

(*@ Kernel/terminal.cpp:879-892 PipeDescriptor::Write *)
definition pipe_write :: "pipe \<Rightarrow> bytes \<Rightarrow> task_manager \<Rightarrow> nat \<times> task_manager" where
  "pipe_write p bs tm = (length bs, pipe_write_loop (pipe_task p) (replicate 16 0) bs tm)"

(*@ Kernel/terminal.cpp:893-899 PipeDescriptor::FinishWrite *)
definition pipe_finish_write :: "pipe \<Rightarrow> task_manager \<Rightarrow> task_manager" where
  "pipe_finish_write p tm = snd (send_message (pipe_task p) (pipe_message (replicate 16 0) 0) tm)"

text \<open>A read of the reading task, inside the task manager.\<close>

definition read_in :: "nat \<Rightarrow> pipe \<Rightarrow> task_manager \<Rightarrow> ((bytes \<times> pipe) option \<times> task_manager) option" where
  "read_in len p tm =
    (case find_task tm (pipe_task p) of
       None \<Rightarrow> None
     | Some t \<Rightarrow> (case pipe_read len p t of (r, t') \<Rightarrow> Some (r, update_task (pipe_task p) (\<lambda>u. u\<lparr>msgs := msgs t'\<rparr>) tm)))"

section \<open>The bytes under way\<close>

fun queue_bytes :: "message list \<Rightarrow> bytes" where
  "queue_bytes [] = []"
| "queue_bytes (m # ms) =
    (if msg_type m \<noteq> kPipe then queue_bytes ms
     else if pipe_len (msg_arg m) = 0 then []
     else take (pipe_len (msg_arg m)) (pipe_data (msg_arg m)) @ queue_bytes ms)"

definition is_close :: "message \<Rightarrow> bool" where
  "is_close m \<longleftrightarrow> msg_type m = kPipe \<and> pipe_len (msg_arg m) = 0"

definition message_ok :: "message \<Rightarrow> bool" where
  "message_ok m \<longleftrightarrow> (msg_type m = kPipe \<longrightarrow> pipe_len (msg_arg m) \<le> 16 \<and> length (pipe_data (msg_arg m)) = 16)"

definition pipe_ok :: "pipe \<Rightarrow> bool" where
  "pipe_ok p \<longleftrightarrow> length (data16 p) = 16 \<and> data_len p \<le> 16 \<and> (closed p \<longrightarrow> data_len p = 0)"

definition pending :: "pipe \<Rightarrow> message list \<Rightarrow> bytes" where
  "pending p ms = take (data_len p) (data16 p) @ (if closed p then [] else queue_bytes ms)"

lemma put_front_length: "length bs \<le> length arr \<Longrightarrow> length (put_front bs arr) = length arr"
  by (simp add: put_front_def)

lemma put_front_take: "take (length bs) (put_front bs arr) = bs"
  by (simp add: put_front_def)

lemma queue_bytes_append:
  "queue_bytes (ms @ ms') = queue_bytes ms @ (if \<exists>m \<in> set ms. is_close m then [] else queue_bytes ms')"
  by (induction ms) (auto simp: is_close_def)

text \<open>What one call of \<^verbatim>\<open>Read\<close> makes of the pipe and the queue.\<close>

definition read_result :: "nat \<Rightarrow> pipe \<Rightarrow> message list \<Rightarrow> (bytes \<times> pipe) option \<Rightarrow> message list \<Rightarrow> bool" where
  "read_result len p ms r ms' \<longleftrightarrow>
    (\<exists>dropped. ms = dropped @ ms' \<and>
      (case r of
         None \<Rightarrow> ms' = [] \<and> \<not> closed p \<and> data_len p = 0 \<and> (\<forall>m \<in> set ms. msg_type m \<noteq> kPipe)
       | Some (bs, p') \<Rightarrow>
           pipe_ok p' \<and> pipe_task p' = pipe_task p \<and> length bs \<le> len \<and>
           pending p ms = bs @ pending p' ms' \<and> (bs = [] \<and> 0 < len \<longrightarrow> closed p') \<and>
           (closed p' \<longleftrightarrow> closed p \<or> (\<exists>m \<in> set dropped. is_close m))))"

lemma read_result_skip:
  assumes "read_result len p ms r ms'" "msg_type m \<noteq> kPipe" "data_len p = 0"
  shows "read_result len p (m # ms) r ms'"
proof -
  obtain dropped where d: "ms = dropped @ ms'" and c: "case r of
         None \<Rightarrow> ms' = [] \<and> \<not> closed p \<and> data_len p = 0 \<and> (\<forall>m \<in> set ms. msg_type m \<noteq> kPipe)
       | Some (bs, p') \<Rightarrow>
           pipe_ok p' \<and> pipe_task p' = pipe_task p \<and> length bs \<le> len \<and>
           pending p ms = bs @ pending p' ms' \<and> (bs = [] \<and> 0 < len \<longrightarrow> closed p') \<and>
           (closed p' \<longleftrightarrow> closed p \<or> (\<exists>m \<in> set dropped. is_close m))"
    using assms(1) unfolding read_result_def by blast
  have "pending p (m # ms) = pending p ms" "\<not> is_close m" using assms(2) by (simp_all add: pending_def is_close_def)
  then show ?thesis
    unfolding read_result_def using d c assms(2,3)
    by (intro exI [of _ "m # dropped"]) (auto split: option.splits)
qed

lemma pipe_wait_read:
  assumes "pipe_ok p" "data_len p = 0" "\<not> closed p" "\<forall>m \<in> set (msgs t). message_ok m"
    and "pipe_wait len p t = (r, t')"
  shows "read_result len p (msgs t) r (msgs t') \<and> t' = t\<lparr>msgs := msgs t'\<rparr>"
  using assms
proof (induction len p t arbitrary: r t' rule: pipe_wait.induct)
  case (1 len p t)
  show ?case
  proof (cases "msgs t")
    case Nil
    then show ?thesis
      using 1 by (simp add: pipe_wait.simps [of len p t] receive_message_def read_result_def)
  next
    case (Cons m ms)
    let ?t = "t\<lparr>msgs := ms\<rparr>"
    have rec: "receive_message t = (Some m, ?t)" by (simp add: receive_message_def Cons)
    show ?thesis
    proof (cases "msg_type m = kPipe")
      case False
      have "read_result len p (msgs ?t) r (msgs t') \<and> t' = ?t\<lparr>msgs := msgs t'\<rparr>"
        by (rule 1(1) [OF rec [symmetric] refl False])
          (use 1(2-) Cons False rec in \<open>auto simp: pipe_wait.simps [of len p t]\<close>)
      then show ?thesis using read_result_skip [OF _ False 1(3)] Cons by auto
    next
      case True
      have ok: "pipe_len (msg_arg m) \<le> 16" "length (pipe_data (msg_arg m)) = 16"
        using 1(5) Cons True by (auto simp: message_ok_def)
      show ?thesis
        using 1(2-) Cons True rec ok
        unfolding read_result_def
        by (intro conjI exI [of _ "[m]"])
          (auto simp: pipe_wait.simps [of len p t] Let_def pipe_ok_def pending_def is_close_def put_front_def min_def
             take_add [symmetric] split: if_splits)
    qed
  qed
qed

lemma pipe_read_spec:
  assumes "pipe_ok p" "\<forall>m \<in> set (msgs t). message_ok m" "pipe_read len p t = (r, t')"
  shows "read_result len p (msgs t) r (msgs t')" "t' = t\<lparr>msgs := msgs t'\<rparr>"
proof -
  have "read_result len p (msgs t) r (msgs t') \<and> t' = t\<lparr>msgs := msgs t'\<rparr>"
  proof (cases "0 < data_len p")
    case True
    then show ?thesis
      using assms(1,3) unfolding read_result_def
      by (intro conjI exI [of _ "[]"])
        (auto simp: pipe_read_def Let_def pipe_ok_def pending_def put_front_def min_def take_add [symmetric] split: if_splits)
  next
    case False
    show ?thesis
    proof (cases "closed p")
      case True
      then show ?thesis
        using False assms(1,3) unfolding read_result_def
        by (intro conjI exI [of _ "[]"]) (auto simp: pipe_read_def pending_def)
    next
      case open_pipe: False
      then show ?thesis using False assms pipe_wait_read [of p t len r t'] by (simp add: pipe_read_def)
    qed
  qed
  then show "read_result len p (msgs t) r (msgs t')" "t' = t\<lparr>msgs := msgs t'\<rparr>" by simp_all
qed

section \<open>What the writer sends\<close>

lemma pipe_write_loop_spec:
  assumes "sched_inv tm" "inbox tm tid = Some ms" "length d = 16"
  shows "sched_inv (pipe_write_loop tid d bs tm) \<and>
    (\<exists>new. inbox (pipe_write_loop tid d bs tm) tid = Some (ms @ new) \<and> queue_bytes new = bs \<and>
      (\<forall>m \<in> set new. message_ok m \<and> \<not> is_close m))"
  using assms
proof (induction tid d bs tm arbitrary: ms rule: pipe_write_loop.induct)
  case (1 tid d bs tm)
  show ?case
  proof (cases "bs = []")
    case True
    have "pipe_write_loop tid d bs tm = tm" by (subst pipe_write_loop.simps) (simp add: True)
    then show ?thesis using 1(2,3) True by auto
  next
    case False
    define n where "n = min (length bs) 16"
    define d' where "d' = put_front (take n bs) d"
    define m where "m = pipe_message d' n"
    define tm1 where "tm1 = snd (send_message tid m tm)"
    have n: "0 < n" "n \<le> 16" using False by (simp_all add: n_def)
    have d': "length d' = 16" "take n d' = take n bs"
      using 1(4) put_front_length [of "take n bs" d] put_front_take [of "take n bs" d] by (simp_all add: d'_def n_def)
    have box: "inbox tm1 tid = Some (ms @ [m])" using 1(3) by (simp add: tm1_def mail.send_inbox [OF 1(2)])
    have inv: "sched_inv tm1" by (simp add: tm1_def mail.send_ok [OF 1(2)])
    obtain new where IH: "sched_inv (pipe_write_loop tid d' (drop n bs) tm1)"
      "inbox (pipe_write_loop tid d' (drop n bs) tm1) tid = Some ((ms @ [m]) @ new)"
      "queue_bytes new = drop n bs" "\<forall>m \<in> set new. message_ok m \<and> \<not> is_close m"
      using 1(1) [OF False n_def d'_def, folded m_def, folded tm1_def, OF inv box d'(1)] by blast
    have m: "message_ok m" "\<not> is_close m" "queue_bytes (m # new) = bs"
      using n d' IH(3) by (simp_all add: m_def message_ok_def is_close_def pipe_message_def)
    have step: "pipe_write_loop tid d bs tm = pipe_write_loop tid d' (drop n bs) tm1"
      using False by (simp add: pipe_write_loop.simps [of tid d bs tm] n_def d'_def m_def tm1_def Let_def)
    show ?thesis
      unfolding step using IH m by (intro conjI exI [of _ "m # new"]) auto
  qed
qed

section \<open>Writer, reader and other senders\<close>

record pipe_system =
  sys_pipe :: pipe
  sys_tm :: task_manager
  written :: bytes
  got :: bytes
  finished :: bool

text \<open>In \<open>Others\<close> the rest of the kernel does anything that leaves the reader's queue as it is, or
  appends a message of another type to it.\<close>

inductive pipe_step :: "pipe_system \<Rightarrow> pipe_system \<Rightarrow> bool" where
  Write: "\<not> finished s \<Longrightarrow> pipe_write (sys_pipe s) bs (sys_tm s) = (n, tm') \<Longrightarrow>
    pipe_step s (s\<lparr>sys_tm := tm', written := written s @ take n bs\<rparr>)"
| Finish: "\<not> finished s \<Longrightarrow>
    pipe_step s (s\<lparr>sys_tm := pipe_finish_write (sys_pipe s) (sys_tm s), finished := True\<rparr>)"
| Read: "read_in len (sys_pipe s) (sys_tm s) = Some (Some (bs, p'), tm') \<Longrightarrow>
    pipe_step s (s\<lparr>sys_pipe := p', sys_tm := tm', got := got s @ bs\<rparr>)"
| Sleep: "read_in len (sys_pipe s) (sys_tm s) = Some (None, tm') \<Longrightarrow> pipe_step s (s\<lparr>sys_tm := tm'\<rparr>)"
| Others: "sched_inv tm' \<Longrightarrow> msg_type m \<noteq> kPipe \<Longrightarrow>
    inbox tm' (pipe_task (sys_pipe s)) = inbox (sys_tm s) (pipe_task (sys_pipe s)) \<or>
    inbox tm' (pipe_task (sys_pipe s)) = map_option (\<lambda>ms. ms @ [m]) (inbox (sys_tm s) (pipe_task (sys_pipe s))) \<Longrightarrow>
    pipe_step s (s\<lparr>sys_tm := tm'\<rparr>)"

inductive pipe_reachable :: "pipe_system \<Rightarrow> bool" where
  Start: "sched_inv tm \<Longrightarrow> inbox tm tid = Some ms \<Longrightarrow> \<forall>m \<in> set ms. msg_type m \<noteq> kPipe \<Longrightarrow>
    pipe_reachable \<lparr>sys_pipe = new_pipe tid, sys_tm = tm, written = [], got = [], finished = False\<rparr>"
| Step: "pipe_reachable s \<Longrightarrow> pipe_step s s' \<Longrightarrow> pipe_reachable s'"

definition pipe_inv :: "pipe_system \<Rightarrow> bool" where
  "pipe_inv s \<longleftrightarrow> sched_inv (sys_tm s) \<and> pipe_ok (sys_pipe s) \<and>
    (\<exists>ms. inbox (sys_tm s) (pipe_task (sys_pipe s)) = Some ms \<and> (\<forall>m \<in> set ms. message_ok m) \<and>
       written s = got s @ pending (sys_pipe s) ms \<and>
       (closed (sys_pipe s) \<or> (\<exists>m \<in> set ms. is_close m) \<longleftrightarrow> finished s))"

lemma set_queue:
  assumes "sched_inv tm"
  shows "sched_inv (update_task i (\<lambda>u. u\<lparr>msgs := ms\<rparr>) tm)"
    "inbox (update_task i (\<lambda>u. u\<lparr>msgs := ms\<rparr>) tm) j = (if j = i then map_option (\<lambda>_. ms) (inbox tm j) else inbox tm j)"
  using assms by (simp_all add: sched_inv_update inbox_def find_task_update option.map_comp comp_def)

lemma read_in_spec:
  assumes "sched_inv tm" "pipe_ok p" "inbox tm (pipe_task p) = Some ms" "\<forall>m \<in> set ms. message_ok m"
    and "read_in len p tm = Some (r, tm')"
  shows "\<exists>ms'. read_result len p ms r ms' \<and> inbox tm' (pipe_task p) = Some ms' \<and> sched_inv tm'"
proof -
  obtain t where t: "find_task tm (pipe_task p) = Some t" "msgs t = ms" using assms(3) by (auto simp: inbox_def)
  obtain t' where t': "pipe_read len p t = (r, t')" "tm' = update_task (pipe_task p) (\<lambda>u. u\<lparr>msgs := msgs t'\<rparr>) tm"
    using assms(5) t(1) by (auto simp: read_in_def split: prod.splits)
  have "read_result len p ms r (msgs t')" using pipe_read_spec(1) [OF assms(2) _ t'(1)] assms(4) t(2) by simp
  then show ?thesis using set_queue [OF assms(1)] assms(3) t'(2) by auto
qed

lemma pipe_inv_step:
  assumes "pipe_inv s" "pipe_step s s'"
  shows "pipe_inv s'"
proof -
  let ?p = "sys_pipe s" and ?tm = "sys_tm s"
  obtain ms where ms: "inbox ?tm (pipe_task ?p) = Some ms" "\<forall>m \<in> set ms. message_ok m"
    "written s = got s @ pending ?p ms" "closed ?p \<or> (\<exists>m \<in> set ms. is_close m) \<longleftrightarrow> finished s"
    and inv: "sched_inv ?tm" and ok: "pipe_ok ?p"
    using assms(1) unfolding pipe_inv_def by blast
  show ?thesis
    using assms(2)
  proof cases
    case (Write bs n tm')
    obtain new where new: "inbox tm' (pipe_task ?p) = Some (ms @ new)" "queue_bytes new = bs" "sched_inv tm'"
      "\<forall>m \<in> set new. message_ok m \<and> \<not> is_close m" and n: "n = length bs"
      using pipe_write_loop_spec [OF inv ms(1), of "replicate 16 0" bs] Write(3) by (auto simp: pipe_write_def)
    show ?thesis
      using Write(1,2) new ms n ok
      by (auto simp: pipe_inv_def pending_def queue_bytes_append ball_Un)
  next
    case Finish
    let ?m = "pipe_message (replicate 16 0) 0"
    have "message_ok ?m" "is_close ?m" "queue_bytes (ms @ [?m]) = queue_bytes ms"
      by (simp_all add: message_ok_def is_close_def pipe_message_def queue_bytes_append)
    then show ?thesis
      using Finish ms ok mail.send_ok [OF inv, of "pipe_task ?p" ?m] mail.send_inbox [OF inv, of "pipe_task ?p" ?m]
      by (auto simp: pipe_inv_def pipe_finish_write_def pending_def)
  next
    case (Read len bs p' tm')
    obtain ms' where ms': "read_result len ?p ms (Some (bs, p')) ms'" "inbox tm' (pipe_task ?p) = Some ms'" "sched_inv tm'"
      using read_in_spec [OF inv ok ms(1,2) Read(2)] by blast
    then show ?thesis using Read(1) ms by (auto simp: pipe_inv_def read_result_def)
  next
    case (Sleep len tm')
    obtain ms' where ms': "read_result len ?p ms None ms'" "inbox tm' (pipe_task ?p) = Some ms'" "sched_inv tm'"
      using read_in_spec [OF inv ok ms(1,2) Sleep(2)] by blast
    have "queue_bytes ms = []" if "\<forall>m \<in> set ms. msg_type m \<noteq> kPipe" using that by (induction ms) auto
    then show ?thesis using Sleep(1) ms ms' ok by (auto simp: pipe_inv_def read_result_def pending_def is_close_def)
  next
    case (Others tm' m)
    have "message_ok m" "\<not> is_close m" "queue_bytes (ms @ [m]) = queue_bytes ms"
      using Others(3) by (simp_all add: message_ok_def is_close_def queue_bytes_append)
    then show ?thesis using Others ms ok by (auto simp: pipe_inv_def pending_def)
  qed
qed

lemma pipe_reachable_inv: "pipe_reachable s \<Longrightarrow> pipe_inv s"
proof (induction rule: pipe_reachable.induct)
  case (Start tm tid ms)
  have "queue_bytes ms = []" using Start(3) by (induction ms) auto
  then show ?case
    using Start by (auto simp: pipe_inv_def pipe_ok_def new_pipe_def message_ok_def pending_def is_close_def)
qed (rule pipe_inv_step)



section \<open>Reading lines from a pipe\<close>

text \<open>A pipe whose writer has finished: the close message is in the queue, or was read. Then a read never
  sleeps.\<close>

definition pipe_source_read :: "pipe \<times> task \<Rightarrow> nat \<Rightarrow> bytes \<times> (pipe \<times> task)" where
  "pipe_source_read s len =
    (case pipe_read len (fst s) (snd s) of
       (None, t') \<Rightarrow> ([], (fst s, t')) | (Some (bs, p'), t') \<Rightarrow> (bs, (p', t')))"

definition pipe_rest :: "pipe \<times> task \<Rightarrow> bytes" where
  "pipe_rest s = pending (fst s) (msgs (snd s))"

definition pipe_source_ok :: "pipe \<times> task \<Rightarrow> bool" where
  "pipe_source_ok s \<longleftrightarrow> pipe_ok (fst s) \<and> (\<forall>m \<in> set (msgs (snd s)). message_ok m) \<and>
     (closed (fst s) \<or> (\<exists>m \<in> set (msgs (snd s)). is_close m))"

lemma pipe_source_step:
  assumes "pipe_source_ok s"
  shows "\<exists>bs s'. pipe_source_read s n = (bs, s') \<and> pipe_source_ok s' \<and> length bs \<le> n \<and>
    pipe_rest s = bs @ pipe_rest s' \<and> (bs = [] \<and> 0 < n \<longrightarrow> pipe_rest s' = [])"
proof -
  obtain p t where s: "s = (p, t)" by fastforce
  obtain r t' where r: "pipe_read n p t = (r, t')" by fastforce
  have ok: "pipe_ok p" "\<forall>m \<in> set (msgs t). message_ok m" "closed p \<or> (\<exists>m \<in> set (msgs t). is_close m)"
    using assms by (simp_all add: s pipe_source_ok_def)
  obtain dropped where d: "msgs t = dropped @ msgs t'" and c: "case r of
         None \<Rightarrow> msgs t' = [] \<and> \<not> closed p \<and> data_len p = 0 \<and> (\<forall>m \<in> set (msgs t). msg_type m \<noteq> kPipe)
       | Some (bs, p') \<Rightarrow>
           pipe_ok p' \<and> pipe_task p' = pipe_task p \<and> length bs \<le> n \<and>
           pending p (msgs t) = bs @ pending p' (msgs t') \<and> (bs = [] \<and> 0 < n \<longrightarrow> closed p') \<and>
           (closed p' \<longleftrightarrow> closed p \<or> (\<exists>m \<in> set dropped. is_close m))"
    using pipe_read_spec(1) [OF ok(1,2) r] unfolding read_result_def by blast
  obtain bs p' where bs: "r = Some (bs, p')" using c ok(3) by (cases r) (auto simp: is_close_def)
  have "pending p' (msgs t') = []" if "closed p'" using c that by (simp add: bs pipe_ok_def pending_def)
  then show ?thesis
    using c ok r d
    by (intro exI [of _ bs] exI [of _ "(p', t')"]) (auto simp: s bs pipe_source_read_def pipe_source_ok_def pipe_rest_def)
qed

interpretation pipe_source: byte_reader pipe_source_read pipe_rest pipe_source_ok
proof unfold_locales
  fix s n assume ok: "pipe_source_ok s"
  obtain bs s' where r: "pipe_source_read s n = (bs, s')" "pipe_source_ok s'" "length bs \<le> n"
    "pipe_rest s = bs @ pipe_rest s'" "bs = [] \<and> 0 < n \<longrightarrow> pipe_rest s' = []"
    using pipe_source_step [OF ok, of n] by blast
  show "pipe_rest s = fst (pipe_source_read s n) @ pipe_rest (snd (pipe_source_read s n))"
    "length (fst (pipe_source_read s n)) \<le> n" "pipe_source_ok (snd (pipe_source_read s n))"
    "0 < n \<Longrightarrow> pipe_rest s \<noteq> [] \<Longrightarrow> fst (pipe_source_read s n) \<noteq> []"
    using r by auto
qed

text \<open>However the writer cut its output into pieces, \<^verbatim>\<open>ReadDelim\<close> on the pipe of a writer that has
  finished returns the next line of the output, with its delimiter, cut to the buffer less one byte, and
  the lines returned one after another make up the output.\<close>

theorem pipe_read_delim_line:
  assumes "pipe_source_ok s"
  shows "fst (read_delim pipe_source_read d len s) = take (len - 1) (first_line d (pipe_rest s)) \<and>
    pipe_rest s = fst (read_delim pipe_source_read d len s) @ pipe_rest (snd (read_delim pipe_source_read d len s)) \<and>
    pipe_source_ok (snd (read_delim pipe_source_read d len s))"
  using pipe_source.read_delim_line [OF assms, of d len] take_first_line [of "len - 1" d "pipe_rest s"]
  by (metis append_take_drop_id)

text \<open>\<^verbatim>\<open>ab\<close> and a line feed in two messages.\<close>

theorem pipe_read_delim_line_witness:
  "fst (read_delim pipe_source_read 10 9
     (new_pipe 3, (new_task_record 3)\<lparr>msgs := [pipe_message (put_front [97] (replicate 16 0)) 1,
        pipe_message (put_front [98, 10, 99] (replicate 16 0)) 3, pipe_message (replicate 16 0) 0]\<rparr>)) = [97, 98, 10]"
proof -
  let ?s = "(new_pipe 3, (new_task_record 3)\<lparr>msgs := [pipe_message (put_front [97] (replicate 16 0)) 1,
        pipe_message (put_front [98, 10, 99] (replicate 16 0)) 3, pipe_message (replicate 16 0) 0]\<rparr>)"
  have "pipe_source_ok ?s"
    by (simp add: pipe_source_ok_def pipe_ok_def new_pipe_def message_ok_def pipe_message_def is_close_def put_front_def)
  from pipe_read_delim_line [OF this, of 10 9] show ?thesis
    by (simp add: pipe_rest_def pending_def new_pipe_def pipe_message_def put_front_def)
qed

end
