(* ===== verification/Terminal.thy ===== *)
theory Terminal imports Layer begin

text \<open>
  \<^verbatim>\<open>Terminal\<close> of \<^verbatim>\<open>Kernel/terminal.{hpp,cpp}\<close>: the screen of a terminal, its cursor, the line being
  edited and the history. What a line does is \<open>Shell\<close>. The state is the terminal and the graphical
  interface its window belongs to; \<open>None\<close> is the use of the null \<^verbatim>\<open>window_\<close> of a terminal without one,
  or a string that is not UTF-8. A C string is the list of its bytes up to the closing zero.

  \<open>cursor_ok\<close> says that the cursor is on the grid of 60 columns and 15 rows, \<open>edit_ok\<close> that the edited
  line fits its buffer and the row.
\<close>

(*@ Kernel/terminal.hpp:28-28 Terminal::kRows, kColumns *)
definition kRows :: int where "kRows = 15"

definition kColumns :: int where "kColumns = 60"

(*@ Kernel/terminal.hpp:29-29 Terminal::kLineMax *)
definition kLineMax :: nat where "kLineMax = 128"

(*@ Kernel/terminal.hpp:41-65 Terminal *)
record terminal =
  term_window :: "nat option"
  term_layer :: nat
  term_task :: nat
  cursor :: vec2
  cursor_visible :: bool
  linebuf_index :: nat
  linebuf :: bytes
  cmd_history :: "bytes list"
  cmd_history_index :: int
  show_window :: bool
  term_files :: "nat list"
  last_exit_code :: int

section \<open>Drawing\<close>

text \<open>Pixels drawn on the terminal's window.\<close>

definition draw_on :: "terminal \<Rightarrow> drawing \<Rightarrow> gui \<Rightarrow> gui option" where
  "draw_on t ds g =
    (case term_window t of
       None \<Rightarrow> None
     | Some h \<Rightarrow> Some (g\<lparr>manager := (manager g)\<lparr>windows := (windows (manager g))(h := win_draw ds (windows (manager g) h))\<rparr>\<rparr>))"

(*@ Kernel/terminal.cpp:287-290 Terminal::CalcCursorPos *)
definition calc_cursor_pos :: "terminal \<Rightarrow> vec2" where
  "calc_cursor_pos t = top_left_margin + Vec (4 + 8 * vx (cursor t)) (4 + 16 * vy (cursor t))"

(*@ Kernel/terminal.cpp:280-285 Terminal::DrawCursor *)
definition draw_cursor :: "bool \<Rightarrow> terminal \<Rightarrow> gui \<Rightarrow> gui option" where
  "draw_cursor visible t g =
    (if show_window t then
       draw_on t (fill_rectangle (calc_cursor_pos t) (Vec 7 15) (if visible then to_color 0xffffff else to_color 0)) g
     else Some g)"

(*@ Kernel/terminal.cpp:273-278 Terminal::BlinkCursor *)
definition blink_cursor :: "terminal \<times> gui \<Rightarrow> (rect \<times> terminal \<times> gui) option" where
  "blink_cursor s =
    (let t = (fst s)\<lparr>cursor_visible := \<not> cursor_visible (fst s)\<rparr>
     in do { g \<leftarrow> draw_cursor (cursor_visible t) t (snd s);
             Some (Rect (calc_cursor_pos t) (Vec 7 15), t, g) })"

(*@ Kernel/terminal.cpp:346-354 Terminal::Scroll1 *)
definition scroll1 :: "terminal \<Rightarrow> gui \<Rightarrow> gui option" where
  "scroll1 t g =
    (case term_window t of
       None \<Rightarrow> None
     | Some h \<Rightarrow>
         let move_src = Rect (top_left_margin + Vec 4 (4 + 16)) (Vec (8 * kColumns) (16 * (kRows - 1)));
             w = win_move (top_left_margin + Vec 4 4) move_src (windows (manager g) h);
             g1 = g\<lparr>manager := (manager g)\<lparr>windows := (windows (manager g))(h := w)\<rparr>\<rparr>
         in draw_on t (inner_area (fill_rectangle (Vec 4 (4 + 16 * vy (cursor t))) (Vec (8 * kColumns) 16) (rgb 0 0 0))) g1)"

section \<open>Printing\<close>

(*@ Kernel/terminal.cpp:605-612 Terminal::Print *)
definition newline :: "terminal \<times> gui \<Rightarrow> (terminal \<times> gui) option" where
  "newline s =
    (let t = (fst s)\<lparr>cursor := Vec 0 (vy (cursor (fst s)))\<rparr> in
     if vy (cursor t) < kRows - 1 then Some (t\<lparr>cursor := Vec 0 (vy (cursor t) + 1)\<rparr>, snd s)
     else do { g \<leftarrow> scroll1 t (snd s); Some (t, g) })"

text \<open>Drawing a character at the cursor and moving the cursor on.\<close>

definition put_char :: "fonts \<Rightarrow> u32 \<Rightarrow> int \<Rightarrow> terminal \<times> gui \<Rightarrow> (terminal \<times> gui) option" where
  "put_char fonts c width s =
    (let t = fst s in
     do { g \<leftarrow> draw_on t (snd (write_unicode (fst fonts) (snd fonts) (calc_cursor_pos t) c (rgb 255 255 255))) (snd s);
          Some (t\<lparr>cursor := cursor t + Vec width 0\<rparr>, g) })"

(*@ Kernel/terminal.cpp:600-629 Terminal::Print *)
definition print_char :: "fonts \<Rightarrow> u32 \<Rightarrow> terminal \<times> gui \<Rightarrow> (terminal \<times> gui) option" where
  "print_char fonts c s =
    (if \<not> show_window (fst s) then Some s
     else if c = 10 then newline s
     else if is_hankaku c then
       do { s \<leftarrow> (if vx (cursor (fst s)) = kColumns then newline s else Some s); put_char fonts c 1 s }
     else
       do { s \<leftarrow> (if kColumns - 1 \<le> vx (cursor (fst s)) then newline s else Some s); put_char fonts c 2 s })"

text \<open>The loop over the characters; \<open>i\<close> is the index of the next byte. A missing length is the largest
  \<^verbatim>\<open>size_t\<close>, which no string reaches.\<close>

(*@ Kernel/terminal.cpp:635-642 Terminal::Print *)
function print_loop :: "fonts \<Rightarrow> bytes \<Rightarrow> nat option \<Rightarrow> nat \<Rightarrow> terminal \<times> gui \<Rightarrow> (terminal \<times> gui) option" where
  "print_loop fonts str len i s =
    (if i < length str \<and> (case len of None \<Rightarrow> True | Some l \<Rightarrow> i < l) then
       case convert_utf8_to_32 (drop i str) of
         None \<Rightarrow> None
       | Some (u32, n) \<Rightarrow>
           if n = 0 then None
           else case print_char fonts u32 s of
                  None \<Rightarrow> None
                | Some s' \<Rightarrow> print_loop fonts str len (i + n) s'
     else Some s)"
  by pat_completeness auto
termination
  by (relation "measure (\<lambda>(fonts, str, len, i, s). length str - i)") auto

declare print_loop.simps [simp del]

text \<open>The window's inner size; and a request to the main task to draw an area of the layer.\<close>

definition window_inner_size :: "terminal \<Rightarrow> gui \<Rightarrow> vec2 option" where
  "window_inner_size t g = map_option (\<lambda>h. inner_size (windows (manager g) h)) (term_window t)"

definition request_draw :: "terminal \<Rightarrow> rect \<Rightarrow> gui \<Rightarrow> gui" where
  "request_draw t area g =
    g\<lparr>gui_tasks := snd (send_message 1 (make_layer_message (term_task t) (term_layer t) Op_DrawArea area) (gui_tasks g))\<rparr>"

(*@ Kernel/terminal.cpp:631-658 Terminal::Print *)
definition print_string :: "fonts \<Rightarrow> bytes \<Rightarrow> nat option \<Rightarrow> terminal \<times> gui \<Rightarrow> (terminal \<times> gui) option" where
  "print_string fonts str len s =
    (let cursor_before = calc_cursor_pos (fst s) in
     do { g \<leftarrow> draw_cursor False (fst s) (snd s);
          (t, g) \<leftarrow> print_loop fonts str len 0 (fst s, g);
          g \<leftarrow> draw_cursor True t g;
          let cursor_after = calc_cursor_pos t;
          sz \<leftarrow> window_inner_size t g;
          let draw_area = Rect (Vec (vx top_left_margin) (vy cursor_before))
                               (Vec (vx sz) (vy cursor_after - vy cursor_before + 16));
          Some (t, request_draw t draw_area g) })"

(*@ Kernel/terminal.cpp:686-695 Terminal::Redraw *)
definition redraw :: "terminal \<times> gui \<Rightarrow> (terminal \<times> gui) option" where
  "redraw s =
    do { sz \<leftarrow> window_inner_size (fst s) (snd s);
         Some (fst s, request_draw (fst s) (Rect top_left_margin sz) (snd s)) }"

section \<open>Editing the line\<close>

text \<open>\<^verbatim>\<open>strcpy\<close> to the start of \<^verbatim>\<open>linebuf_\<close>, and the C string at its start.\<close>

definition line_copy :: "bytes \<Rightarrow> bytes \<Rightarrow> bytes" where
  "line_copy str buf = str @ 0 # drop (length str + 1) buf"

definition c_string :: "bytes \<Rightarrow> bytes" where
  "c_string bs = takeWhile (\<lambda>b. b \<noteq> 0) bs"

(*@ Kernel/terminal.cpp:673-676 Terminal::HistoryUpDown *)
definition history_entry :: "terminal \<Rightarrow> int \<Rightarrow> bytes" where
  "history_entry t i = (if 0 \<le> i then c_string (cmd_history t ! nat i) else [])"

(*@ Kernel/terminal.cpp:660-684 Terminal::HistoryUpDown *)
definition history_up_down :: "fonts \<Rightarrow> int \<Rightarrow> terminal \<times> gui \<Rightarrow> (rect \<times> terminal \<times> gui) option" where
  "history_up_down fonts direction s =
    (let t = fst s;
         index = (if direction = -1 \<and> 0 \<le> cmd_history_index t then cmd_history_index t - 1
                  else if direction = 1 \<and> cmd_history_index t + 1 < int (length (cmd_history t))
                  then cmd_history_index t + 1 else cmd_history_index t);
         t1 = t\<lparr>cmd_history_index := index, cursor := Vec 1 (vy (cursor t))\<rparr>;
         first_pos = calc_cursor_pos t1;
         draw_area = Rect first_pos (Vec (8 * (kColumns - 1)) 16);
         history = history_entry t index
     in do { g \<leftarrow> draw_on t1 (fill_rectangle (rpos draw_area) (rsize draw_area) (rgb 0 0 0)) (snd s);
             let t2 = t1\<lparr>linebuf := line_copy history (linebuf t1), linebuf_index := length history\<rparr>;
             ds \<leftarrow> write_string (fst fonts) (snd fonts) first_pos history (rgb 255 255 255);
             g \<leftarrow> draw_on t2 ds g;
             Some (draw_area, t2\<lparr>cursor := Vec (int (length history) + 1) (vy (cursor t2))\<rparr>, g) })"

text \<open>The branch for the line feed before the line is executed.\<close>

(*@ Kernel/terminal.cpp:299-311 Terminal::InputKey *)
definition end_line :: "terminal \<times> gui \<Rightarrow> (terminal \<times> gui) option" where
  "end_line s =
    (let t = (fst s)\<lparr>linebuf := (linebuf (fst s))[linebuf_index (fst s) := 0]\<rparr>;
         t1 = (if 0 < linebuf_index t then t\<lparr>cmd_history := linebuf t # butlast (cmd_history t)\<rparr> else t)
     in newline (t1\<lparr>linebuf_index := 0, cmd_history_index := -1\<rparr>, snd s))"

(*@ Kernel/terminal.cpp:317-326 Terminal::InputKey *)
definition erase_char :: "rect \<Rightarrow> terminal \<times> gui \<Rightarrow> (rect \<times> terminal \<times> gui) option" where
  "erase_char area s =
    (let t = fst s in
     if 0 < vx (cursor t) then
       let t1 = t\<lparr>cursor := cursor t - Vec 1 0\<rparr> in
       do { g \<leftarrow> (if show_window t1 then draw_on t1 (fill_rectangle (calc_cursor_pos t1) (Vec 8 16) (rgb 0 0 0)) (snd s)
                  else Some (snd s));
            Some (Rect (calc_cursor_pos t1) (rsize area), t1\<lparr>linebuf_index := linebuf_index t1 - 1\<rparr>, g) }
     else Some (area, s))"

(*@ Kernel/terminal.cpp:328-335 Terminal::InputKey *)
definition insert_char :: "fonts \<Rightarrow> u8 \<Rightarrow> terminal \<times> gui \<Rightarrow> (terminal \<times> gui) option" where
  "insert_char fonts ascii s =
    (let t = fst s in
     if vx (cursor t) < kColumns - 1 \<and> linebuf_index t < kLineMax - 1 then
       let t1 = t\<lparr>linebuf := (linebuf t)[linebuf_index t := ascii], linebuf_index := linebuf_index t + 1\<rparr> in
       do { g \<leftarrow> (if show_window t1 then
                    draw_on t1 (write_ascii (fst fonts) (calc_cursor_pos t1) ascii (rgb 255 255 255)) (snd s)
                  else Some (snd s));
            Some (t1\<lparr>cursor := cursor t1 + Vec 1 0\<rparr>, g) }
     else Some s)"

text \<open>\<^verbatim>\<open>InputKey\<close> for every key but the line feed.\<close>

(*@ Kernel/terminal.cpp:316-340 Terminal::InputKey *)
definition edit_key :: "fonts \<Rightarrow> u8 \<Rightarrow> u8 \<Rightarrow> rect \<Rightarrow> terminal \<times> gui \<Rightarrow> (rect \<times> terminal \<times> gui) option" where
  "edit_key fonts keycode ascii area s =
    (if ascii = 8 then erase_char area s
     else if ascii \<noteq> 0 then map_option (Pair area) (insert_char fonts ascii s)
     else if keycode = 0x51 then history_up_down fonts (-1) s
     else if keycode = 0x52 then history_up_down fonts 1 s
     else Some (area, s))"

section \<open>The cursor stays on the grid\<close>

definition cursor_ok :: "terminal \<Rightarrow> bool" where
  "cursor_ok t \<longleftrightarrow> 0 \<le> vx (cursor t) \<and> vx (cursor t) \<le> kColumns \<and> 0 \<le> vy (cursor t) \<and> vy (cursor t) < kRows"

lemmas grid_defs = kColumns_def kRows_def kLineMax_def

lemma draw_on_some: "term_window t = Some h \<Longrightarrow> \<exists>g'. draw_on t ds g = Some g'"
  by (simp add: draw_on_def)

lemma draw_cursor_some: "term_window t = Some h \<Longrightarrow> \<exists>g'. draw_cursor b t g = Some g'"
  by (simp add: draw_cursor_def draw_on_some)

lemma newline_cursor:
  assumes "newline (t, g) = Some (t', g')" "cursor_ok t"
  shows "cursor_ok t'" "vx (cursor t') = 0" "t' = t\<lparr>cursor := cursor t'\<rparr>"
  using assms by (auto simp: newline_def cursor_ok_def grid_defs Let_def split: if_splits bind_splits)

lemma newline_some: "term_window t = Some h \<Longrightarrow> \<exists>s'. newline (t, g) = Some s'"
  by (cases "vy (cursor t) < kRows - 1") (simp_all add: newline_def Let_def scroll1_def draw_on_def)

lemma put_char_cursor:
  assumes "put_char fonts c w (t, g) = Some (t', g')" "cursor_ok t" "0 \<le> w" "vx (cursor t) + w \<le> kColumns"
  shows "cursor_ok t' \<and> t' = t\<lparr>cursor := cursor t'\<rparr>"
  using assms by (auto simp: put_char_def cursor_ok_def Let_def plus_vec2_def split: bind_splits)

lemma print_char_cursor:
  assumes "print_char fonts c (t, g) = Some (t', g')" "cursor_ok t"
  shows "cursor_ok t' \<and> t' = t\<lparr>cursor := cursor t'\<rparr>"
proof -
  have put: "cursor_ok t' \<and> t' = t\<lparr>cursor := cursor t'\<rparr>"
    if r: "do { s \<leftarrow> (if b then newline (t, g) else Some (t, g)); put_char fonts c w s } = Some (t', g')"
      and w: "0 \<le> w" "w \<le> kColumns" "\<not> b \<Longrightarrow> vx (cursor t) + w \<le> kColumns" for b w
  proof (cases b)
    case True
    then obtain t1 g1 where n: "newline (t, g) = Some (t1, g1)" and p: "put_char fonts c w (t1, g1) = Some (t', g')"
      using r by (auto split: bind_splits)
    note nl = newline_cursor [OF n assms(2)]
    have "cursor_ok t' \<and> t' = t1\<lparr>cursor := cursor t'\<rparr>"
      by (rule put_char_cursor [OF p nl(1) w(1)]) (simp add: nl(2) w(2))
    moreover have "t1\<lparr>cursor := cursor t'\<rparr> = t\<lparr>cursor := cursor t'\<rparr>" by (subst nl(3)) simp
    ultimately show ?thesis by simp
  next
    case False
    then show ?thesis using r w put_char_cursor [OF _ assms(2) w(1)] by simp
  qed
  show ?thesis
    using assms newline_cursor [of t g t' g'] put [of "vx (cursor t) = kColumns" 1] put [of "kColumns - 1 \<le> vx (cursor t)" 2]
    by (auto simp: print_char_def cursor_ok_def grid_defs split: if_splits)
qed

lemma print_loop_cursor:
  "print_loop fonts str len i (t, g) = Some (t', g') \<Longrightarrow> cursor_ok t \<Longrightarrow> cursor_ok t' \<and> t' = t\<lparr>cursor := cursor t'\<rparr>"
proof (induction fonts str len i "(t, g)" arbitrary: t g rule: print_loop.induct)
  case (1 fonts str len i t g)
  show ?case
  proof (cases "i < length str \<and> (case len of None \<Rightarrow> True | Some l \<Rightarrow> i < l)")
    case False
    then have "(t, g) = (t', g')" using 1(2) by (subst (asm) print_loop.simps) (simp split: if_splits)
    then show ?thesis using 1(3) by simp
  next
    case True
    then obtain u n t1 g1 where u: "convert_utf8_to_32 (drop i str) = Some (u, n)" "n \<noteq> 0"
      "print_char fonts u (t, g) = Some (t1, g1)" "print_loop fonts str len (i + n) (t1, g1) = Some (t', g')"
      using 1(2) by (subst (asm) print_loop.simps) (auto split: option.splits if_splits prod.splits)
    have t1: "cursor_ok t1 \<and> t1 = t\<lparr>cursor := cursor t1\<rparr>" by (rule print_char_cursor [OF u(3) 1(3)])
    have "cursor_ok t' \<and> t' = t1\<lparr>cursor := cursor t'\<rparr>"
      by (rule 1(1) [OF True u(1) refl u(2) u(3) u(4)]) (rule conjunct1 [OF t1])
    moreover have "t1\<lparr>cursor := cursor t'\<rparr> = t\<lparr>cursor := cursor t'\<rparr>" by (subst conjunct2 [OF t1]) simp
    ultimately show ?thesis by simp
  qed
qed

lemma print_string_cursor:
  assumes "print_string fonts str len (t, g) = Some (t', g')" "cursor_ok t"
  shows "cursor_ok t' \<and> t' = t\<lparr>cursor := cursor t'\<rparr>"
  using assms print_loop_cursor [of fonts str len 0 t]
  by (auto simp: print_string_def Let_def split: bind_splits prod.splits)

section \<open>The edited line\<close>

definition ascii_bytes :: "bytes \<Rightarrow> bool" where
  "ascii_bytes bs \<longleftrightarrow> (\<forall>b \<in> set bs. b \<noteq> 0 \<and> b < 0x80)"

definition line :: "terminal \<Rightarrow> bytes" where
  "line t = take (linebuf_index t) (linebuf t)"

definition edit_ok :: "terminal \<Rightarrow> bool" where
  "edit_ok t \<longleftrightarrow> cursor_ok t \<and> int (linebuf_index t) \<le> vx (cursor t) \<and> linebuf_index t \<le> 59 \<and>
     length (linebuf t) = kLineMax \<and> ascii_bytes (line t) \<and>
     length (cmd_history t) = 8 \<and> -1 \<le> cmd_history_index t \<and> cmd_history_index t < 8 \<and>
     (\<forall>h \<in> set (cmd_history t). length h = kLineMax \<and> length (c_string h) \<le> 59 \<and> ascii_bytes (c_string h))"

text \<open>What the keys mean for the line.\<close>

definition edited :: "u8 \<Rightarrow> u8 \<Rightarrow> terminal \<Rightarrow> bytes" where
  "edited keycode ascii t =
    (if ascii = 8 then (if 0 < vx (cursor t) then butlast (line t) else line t)
     else if ascii \<noteq> 0 then (if vx (cursor t) < kColumns - 1 then line t @ [ascii] else line t)
     else if keycode = 0x51 then history_entry t (max (-1) (cmd_history_index t - 1))
     else if keycode = 0x52 then history_entry t (min 7 (cmd_history_index t + 1))
     else line t)"

lemma write_string_ascii: "ascii_bytes s \<Longrightarrow> \<exists>ds. write_string_from h f pos s c x = Some ds"
proof (induction s arbitrary: x)
  case (Cons b s)
  have b: "b < 0x80" "ascii_bytes s" using Cons.prems by (auto simp: ascii_bytes_def)
  have "(ucast (ucast b :: u32) :: u8) = b" by (rule bit_word_eqI) (simp add: bit_simps)
  then have "convert_utf8_to_32 (b # s) = Some (ucast b, 1)"
    using b(1) by (simp add: convert_utf8_to_32_def c_byte_def count_utf8_size_def)
  then show ?case
    using Cons.IH [OF b(2), of "x + 1"] Cons.IH [OF b(2), of "x + 2"]
    by (auto simp: write_string_from.simps [of h f pos "b # s"])
qed (simp add: write_string_from.simps)

lemma c_string_line_copy: "ascii_bytes str \<Longrightarrow> c_string (line_copy str buf) = str"
  by (simp add: c_string_def line_copy_def ascii_bytes_def takeWhile_append2)

lemma line_copy_length: "length str < length buf \<Longrightarrow> length (line_copy str buf) = length buf"
  by (simp add: line_copy_def)

lemma history_entry_ok:
  assumes "edit_ok t" "i < 8"
  shows "length (history_entry t i) \<le> 59" "ascii_bytes (history_entry t i)"
proof -
  have "0 \<le> i \<Longrightarrow> cmd_history t ! nat i \<in> set (cmd_history t)" using assms by (simp add: edit_ok_def)
  then show "length (history_entry t i) \<le> 59" "ascii_bytes (history_entry t i)"
    using assms(1) by (auto simp: history_entry_def edit_ok_def ascii_bytes_def)
qed

lemma history_up_down_line:
  assumes "edit_ok t" "term_window t = Some h" "direction = -1 \<or> direction = 1"
  shows "\<exists>area t' g'. history_up_down fonts direction (t, g) = Some (area, t', g') \<and> edit_ok t' \<and>
    line t' = history_entry t (if direction = -1 then max (-1) (cmd_history_index t - 1) else min 7 (cmd_history_index t + 1))"
proof -
  define i where "i = (if direction = -1 then max (-1) (cmd_history_index t - 1) else min 7 (cmd_history_index t + 1))"
  have len: "length (cmd_history t) = 8" and idx: "-1 \<le> cmd_history_index t" "cmd_history_index t < 8"
    using assms(1) by (simp_all add: edit_ok_def)
  have i: "(if direction = -1 \<and> 0 \<le> cmd_history_index t then cmd_history_index t - 1
      else if direction = 1 \<and> cmd_history_index t + 1 < int (length (cmd_history t))
      then cmd_history_index t + 1 else cmd_history_index t) = i"
    using assms(3) len idx by (auto simp: i_def)
  have i8: "i < 8" "-1 \<le> i" using idx by (auto simp: i_def)
  note e = history_entry_ok [OF assms(1) i8(1)]
  let ?t1 = "t\<lparr>cmd_history_index := i, cursor := Vec 1 (vy (cursor t))\<rparr>"
  obtain ds where ds: "write_string (fst fonts) (snd fonts) (calc_cursor_pos ?t1) (history_entry t i) (rgb 255 255 255) = Some ds"
    using write_string_ascii [OF e(2)] unfolding write_string_def by blast
  let ?t' = "?t1\<lparr>linebuf := line_copy (history_entry t i) (linebuf t), linebuf_index := length (history_entry t i),
    cursor := Vec (int (length (history_entry t i)) + 1) (vy (cursor t))\<rparr>"
  have l: "line ?t' = history_entry t i" by (simp add: line_def line_copy_def)
  have "edit_ok ?t'"
    using assms(1) e i8 l by (simp add: edit_ok_def cursor_ok_def line_copy_length grid_defs)
  moreover have "\<exists>area g'. history_up_down fonts direction (t, g) = Some (area, ?t', g')"
    using ds assms(2) by (simp add: history_up_down_def Let_def i draw_on_def)
  ultimately show ?thesis using l unfolding i_def [symmetric] by blast
qed

lemma line_length: "edit_ok t \<Longrightarrow> length (line t) = linebuf_index t"
  by (simp add: line_def edit_ok_def kLineMax_def)

lemma insert_char_line:
  assumes "edit_ok t" "term_window t = Some h" "ascii \<noteq> 0" "ascii < 0x80"
  shows "\<exists>t' g'. insert_char fonts ascii (t, g) = Some (t', g') \<and> edit_ok t' \<and>
    line t' = (if vx (cursor t) < kColumns - 1 then line t @ [ascii] else line t)"
proof (cases "vx (cursor t) < kColumns - 1")
  case True
  let ?t' = "t\<lparr>linebuf := (linebuf t)[linebuf_index t := ascii], linebuf_index := linebuf_index t + 1,
    cursor := cursor t + Vec 1 0\<rparr>"
  have room: "linebuf_index t < kLineMax - 1" using assms(1) by (simp add: edit_ok_def kLineMax_def)
  have l: "line ?t' = line t @ [ascii]"
    using room assms(1) by (simp add: line_def edit_ok_def take_Suc_conv_app_nth)
  have "\<exists>g'. insert_char fonts ascii (t, g) = Some (?t', g')"
    using True room assms(2) by (simp add: insert_char_def Let_def draw_on_def)
  moreover have "edit_ok ?t'"
    using assms True l by (auto simp: edit_ok_def cursor_ok_def grid_defs plus_vec2_def ascii_bytes_def)
  ultimately show ?thesis using l True by auto
qed (use assms in \<open>simp add: insert_char_def Let_def\<close>)

lemma erase_char_line:
  assumes "edit_ok t" "term_window t = Some h"
  shows "\<exists>area' t' g'. erase_char area (t, g) = Some (area', t', g') \<and> edit_ok t' \<and>
    line t' = (if 0 < vx (cursor t) then butlast (line t) else line t)"
proof (cases "0 < vx (cursor t)")
  case True
  let ?t' = "t\<lparr>cursor := cursor t - Vec 1 0, linebuf_index := linebuf_index t - 1\<rparr>"
  have l: "line ?t' = butlast (line t)"
    using assms(1) by (simp add: line_def edit_ok_def butlast_take kLineMax_def)
  have "\<exists>area' g'. erase_char area (t, g) = Some (area', ?t', g')"
    using True assms(2) by (simp add: erase_char_def Let_def draw_on_def)
  moreover have "edit_ok ?t'"
    using assms True l by (auto simp: edit_ok_def cursor_ok_def grid_defs minus_vec2_def ascii_bytes_def dest: in_set_butlastD)
  ultimately show ?thesis using l True by auto
qed (use assms in \<open>simp add: erase_char_def Let_def\<close>)


lemma c_string_line:
  assumes "edit_ok t"
  shows "c_string ((linebuf t)[linebuf_index t := 0]) = line t" "length ((linebuf t)[linebuf_index t := 0]) = kLineMax"
proof -
  have i: "linebuf_index t < length (linebuf t)" using assms by (simp add: edit_ok_def kLineMax_def)
  have "ascii_bytes (line t)" using assms by (simp add: edit_ok_def)
  then show "c_string ((linebuf t)[linebuf_index t := 0]) = line t"
    using i by (simp add: c_string_def line_def upd_conv_take_nth_drop ascii_bytes_def takeWhile_append2)
  show "length ((linebuf t)[linebuf_index t := 0]) = kLineMax" using assms by (simp add: edit_ok_def)
qed

lemma end_line_ok:
  assumes "edit_ok t" "term_window t = Some h"
  shows "\<exists>t' g'. end_line (t, g) = Some (t', g') \<and> edit_ok t' \<and> line t' = [] \<and> cmd_history_index t' = -1 \<and>
    term_window t' = Some h \<and>
    (if line t = [] then cmd_history t' = cmd_history t
     else c_string (hd (cmd_history t')) = line t \<and> tl (cmd_history t') = butlast (cmd_history t))"
proof -
  let ?b = "(linebuf t)[linebuf_index t := 0]"
  let ?t1 = "t\<lparr>linebuf := ?b, cmd_history := (if line t = [] then cmd_history t else ?b # butlast (cmd_history t)),
    linebuf_index := 0, cmd_history_index := -1\<rparr>"
  have nil: "linebuf_index t = 0 \<longleftrightarrow> line t = []" using line_length [OF assms(1)] by auto
  note b = c_string_line [OF assms(1)]
  have e: "end_line (t, g) = newline (?t1, g)"
    by (simp add: end_line_def Let_def nil [symmetric])
  obtain t' g' where n: "newline (?t1, g) = Some (t', g')" using newline_some [of ?t1 h g] assms(2) by fastforce
  have c: "cursor_ok ?t1" using assms(1) by (simp add: edit_ok_def cursor_ok_def)
  note nl = newline_cursor [OF n c]
  have hist: "\<forall>h \<in> set (cmd_history ?t1). length h = kLineMax \<and> length (c_string h) \<le> 59 \<and> ascii_bytes (c_string h)"
    using assms(1) b line_length [OF assms(1)] by (auto simp: edit_ok_def dest: in_set_butlastD)
  have t': "linebuf_index t' = 0" "cmd_history_index t' = -1" "linebuf t' = ?b" "term_window t' = Some h"
    "cmd_history t' = cmd_history ?t1"
    using assms(2) by (subst nl(3), simp)+
  have "edit_ok t'"
    unfolding edit_ok_def t'(1-3,5) using nl(1,2) hist assms(1) t'(1)
    by (simp add: edit_ok_def kLineMax_def line_def ascii_bytes_def)
  then show ?thesis using e n t' b(1) by (auto simp: line_def)
qed

text \<open>A line that was entered is recalled by the up arrow as it was typed.\<close>

theorem terminal_recalls_line:
  assumes "edit_ok t" "term_window t = Some h" "line t \<noteq> []" "end_line (t, g) = Some (t1, g1)"
  shows "\<exists>area' t2 g2. edit_key fonts 0x52 0 area (t1, g1') = Some (area', t2, g2) \<and> edit_ok t2 \<and> line t2 = line t"
proof -
  have t1: "edit_ok t1" "cmd_history_index t1 = -1" "term_window t1 = Some h" "c_string (hd (cmd_history t1)) = line t"
    using end_line_ok [OF assms(1,2), of g] assms(3,4) by auto
  have "length (cmd_history t1) = 8" using t1(1) by (simp add: edit_ok_def)
  then have "cmd_history t1 ! 0 = hd (cmd_history t1)" by (cases "cmd_history t1") auto
  then show ?thesis
    using history_up_down_line [OF t1(1,3), of 1] t1(2,4) by (auto simp: edit_key_def history_entry_def)
qed

section \<open>A sample terminal\<close>

definition sample_terminal :: terminal where
  "sample_terminal =
    \<lparr>term_window = Some 0, term_layer = 1, term_task = 3, cursor = Vec 3 14, cursor_visible = False,
     linebuf_index = 2, linebuf = [108, 115] @ replicate 126 0, cmd_history = replicate 8 (replicate 128 0),
     cmd_history_index = -1, show_window = True, term_files = [0, 1, 2], last_exit_code = 0\<rparr>"

lemma sample_terminal_ok:
  "edit_ok sample_terminal" "term_window sample_terminal = Some 0" "line sample_terminal = [108, 115]"
  by (simp_all add: edit_ok_def cursor_ok_def grid_defs sample_terminal_def line_def c_string_def ascii_bytes_def)


theorem terminal_recalls_line_witness:
  "\<forall>fonts area g. \<exists>area' t1 g1 t2 g2. end_line (sample_terminal, g) = Some (t1, g1) \<and>
     edit_key fonts 0x52 0 area (t1, g1) = Some (area', t2, g2) \<and> line t2 = [108, 115]"
proof (intro allI)
  fix fonts area g
  obtain t1 g1 where e: "end_line (sample_terminal, g) = Some (t1, g1)"
    using end_line_ok [OF sample_terminal_ok(1,2)] by blast
  show "\<exists>area' t1 g1 t2 g2. end_line (sample_terminal, g) = Some (t1, g1) \<and>
     edit_key fonts 0x52 0 area (t1, g1) = Some (area', t2, g2) \<and> line t2 = [108, 115]"
    using terminal_recalls_line [OF sample_terminal_ok(1,2) _ e] e sample_terminal_ok(3) by fastforce
qed

end
