(* ===== verification/Arg_Vector.thy ===== *)
theory Arg_Vector imports File_Descriptor Kernel_Error "HOL-Library.Monad_Syntax" begin

text \<open>
  \<^verbatim>\<open>MakeArgVector\<close> of \<^verbatim>\<open>Kernel/terminal.cpp\<close>: the command and the words of the rest of the line become the
  argument vector of a program. \<open>argv\<close> holds the offsets of the strings in \<open>argbuf\<close>; \<open>None\<close> is a
  \<^verbatim>\<open>strcpy\<close> behind the end of the buffer.
\<close>

text \<open>\<^verbatim>\<open>isspace\<close> of the C library in its default locale.\<close>

definition is_space :: "u8 \<Rightarrow> bool" where
  "is_space c \<longleftrightarrow> c = 32 \<or> 9 \<le> c \<and> c \<le> 13"

record args =
  argv :: "nat list"
  argbuf :: bytes
  argbuf_index :: nat

(*@ Kernel/terminal.cpp:25-35 MakeArgVector *)
definition push_to_argv :: "nat \<Rightarrow> bytes \<Rightarrow> args \<Rightarrow> (error_code \<times> args) option" where
  "push_to_argv argv_len s a =
    (if argv_len \<le> length (argv a) \<or> length (argbuf a) \<le> argbuf_index a then Some (kFull, a)
     else if length (argbuf a) < argbuf_index a + length s + 1 then None
     else Some (kSuccess,
       a\<lparr>argv := argv a @ [argbuf_index a],
         argbuf := take (argbuf_index a) (argbuf a) @ s @ [0] @ drop (argbuf_index a + length s + 1) (argbuf a),
         argbuf_index := argbuf_index a + length s + 1\<rparr>))"

(*@ Kernel/terminal.cpp:44-69 MakeArgVector *)
function push_words :: "nat \<Rightarrow> bytes \<Rightarrow> args \<Rightarrow> (error_code \<times> args) option" where
  "push_words argv_len p a =
    (let p1 = dropWhile is_space p in
     if p1 = [] then Some (kSuccess, a)
     else
       let arg = takeWhile (\<lambda>c. \<not> is_space c) p1;
           after = dropWhile (\<lambda>c. \<not> is_space c) p1;
           is_end = (after = [])
       in case push_to_argv argv_len arg a of
            None \<Rightarrow> None
          | Some (err, a1) \<Rightarrow>
              if is_error err then Some (err, a1)
              else if is_end then Some (kSuccess, a1)
              else push_words argv_len (tl after) a1)"
  by pat_completeness auto
termination
proof (relation "measure (\<lambda>(argv_len, p, a). length p)", simp, goal_cases)
  case (1 argv_len p a p1 arg after is_end res err a1)
  have "length after \<le> length p"
    using length_dropWhile_le [of "\<lambda>c. \<not> is_space c" p1] length_dropWhile_le [of is_space p] 1(1,4) by simp
  moreover have "after \<noteq> []" using 1 by blast
  ultimately have "length (tl after) < length p" by (cases after) simp_all
  then show ?case by simp
qed

declare push_words.simps [simp del]

(*@ Kernel/terminal.cpp:20-72 MakeArgVector *)
definition make_arg_vector :: "bytes \<Rightarrow> bytes option \<Rightarrow> nat \<Rightarrow> bytes \<Rightarrow> (error_code \<times> args) option" where
  "make_arg_vector command first_arg argv_len buf =
    (case push_to_argv argv_len command \<lparr>argv = [], argbuf = buf, argbuf_index = 0\<rparr> of
       None \<Rightarrow> None
     | Some (err, a) \<Rightarrow>
         if is_error err then Some (err, a)
         else case first_arg of
                None \<Rightarrow> Some (kSuccess, a)
              | Some p \<Rightarrow> push_words argv_len p a)"

section \<open>The words of a line\<close>

function words :: "bytes \<Rightarrow> bytes list" where
  "words p =
    (let p1 = dropWhile is_space p in
     if p1 = [] then []
     else takeWhile (\<lambda>c. \<not> is_space c) p1 # words (dropWhile (\<lambda>c. \<not> is_space c) p1))"
  by pat_completeness auto
termination
proof (relation "measure length", simp, goal_cases)
  case (1 p p1)
  have "p1 \<noteq> []" "\<not> is_space (hd p1)" using 1 hd_dropWhile [of is_space p] by simp_all
  then have "length (dropWhile (\<lambda>c. \<not> is_space c) p1) < length p1"
    by (cases p1) (auto simp: le_imp_less_Suc length_dropWhile_le)
  then show ?case using length_dropWhile_le [of is_space p] 1(1) by simp
qed

declare words.simps [simp del]

lemma words_cases:
  "dropWhile is_space p = [] \<Longrightarrow> words p = []"
  "dropWhile is_space p \<noteq> [] \<Longrightarrow> words p =
     takeWhile (\<lambda>c. \<not> is_space c) (dropWhile is_space p) # words (dropWhile (\<lambda>c. \<not> is_space c) (dropWhile is_space p))"
  by (subst words.simps, simp only: Let_def if_True if_False simp_thms)+

lemma words_no_zero: "0 \<notin> set p \<Longrightarrow> w \<in> set (words p) \<Longrightarrow> 0 \<notin> set w"
proof (induction p rule: words.induct)
  case (1 p)
  let ?p1 = "dropWhile is_space p"
  have "set ?p1 \<subseteq> set p" by (auto dest: set_dropWhileD)
  then have p1: "0 \<notin> set ?p1" using 1(2) by blast
  then have "0 \<notin> set (takeWhile (\<lambda>c. \<not> is_space c) ?p1)" "0 \<notin> set (dropWhile (\<lambda>c. \<not> is_space c) ?p1)"
    by (auto dest: set_takeWhileD set_dropWhileD)
  then show ?case
    using 1(1) [OF refl] 1(3) words_cases [of p] by (cases "?p1 = []") (simp_all del: dropWhile_eq_Nil_conv, blast)
qed

lemma words_skip: "words (dropWhile is_space p) = words p"
  by (simp add: words.simps [of p] words.simps [of "dropWhile is_space p"] dropWhile_idem)

text \<open>Words that are written one after another, with a space behind each, are read back.\<close>

lemma words_of_words:
  "\<forall>w \<in> set ws. w \<noteq> [] \<and> (\<forall>c \<in> set w. \<not> is_space c) \<Longrightarrow> words (concat (map (\<lambda>w. w @ [32]) ws)) = ws"
proof (induction ws)
  case Nil
  then show ?case by (simp add: words.simps)
next
  case (Cons w ws)
  let ?r = "concat (map (\<lambda>w. w @ [32]) ws)"
  have w: "w \<noteq> []" "\<forall>c \<in> set w. \<not> is_space c" using Cons.prems by simp_all
  then have d: "dropWhile is_space (w @ 32 # ?r) = w @ 32 # ?r" by (cases w) simp_all
  have s: "takeWhile (\<lambda>c. \<not> is_space c) (w @ 32 # ?r) = w" "dropWhile (\<lambda>c. \<not> is_space c) (w @ 32 # ?r) = 32 # ?r"
    using w(2) by (simp_all add: takeWhile_append2 dropWhile_append2 is_space_def)
  have "words (32 # ?r) = words ?r" using words_skip [of "32 # ?r"] words_skip [of ?r] by (simp add: is_space_def)
  then show ?case
    using Cons.IH Cons.prems w(1) by (simp add: words.simps [of "w @ 32 # ?r"] Let_def d s)
qed

section \<open>Strings in a buffer\<close>

text \<open>The string a pointer into the buffer stands for; strings one after another, and their offsets.\<close>

definition string_at :: "bytes \<Rightarrow> nat \<Rightarrow> bytes" where
  "string_at buf i = takeWhile (\<lambda>b. b \<noteq> 0) (drop i buf)"

definition arg_strings :: "args \<Rightarrow> bytes list" where
  "arg_strings a = map (string_at (argbuf a)) (argv a)"

definition packed :: "bytes list \<Rightarrow> bytes" where
  "packed strs = concat (map (\<lambda>s. s @ [0]) strs)"

fun offsets :: "nat \<Rightarrow> bytes list \<Rightarrow> nat list" where
  "offsets n [] = []"
| "offsets n (s # strs) = n # offsets (n + length s + 1) strs"

lemma packed_simps [simp]:
  "packed [] = []" "packed (s # strs) = s @ 0 # packed strs" "packed (xs @ ys) = packed xs @ packed ys"
  by (simp_all add: packed_def)

lemma offsets_append: "offsets n (xs @ ys) = offsets n xs @ offsets (n + length (packed xs)) ys"
  by (induction xs arbitrary: n) (auto simp: add.assoc)

lemma offsets_length [simp]: "length (offsets n xs) = length xs"
  by (induction xs arbitrary: n) auto

lemma strings_at_offsets:
  "\<forall>s \<in> set strs. 0 \<notin> set s \<Longrightarrow> map (string_at (pre @ packed strs @ rest)) (offsets (length pre) strs) = strs"
proof (induction strs arbitrary: pre)
  case (Cons s strs)
  have "string_at (pre @ packed (s # strs) @ rest) (length pre) = s"
    using Cons.prems
    by (simp add: string_at_def) (subst takeWhile_append2, auto)
  then show ?case
    using Cons.IH [of "pre @ s @ [0]"] Cons.prems by simp
qed simp

lemma packed_words_length: "length (packed (words p)) \<le> length p + 1"
proof (induction "length p" arbitrary: p rule: less_induct)
  case less
  let ?p1 = "dropWhile is_space p"
  let ?w = "takeWhile (\<lambda>c. \<not> is_space c) ?p1" and ?r = "dropWhile (\<lambda>c. \<not> is_space c) ?p1"
  have len: "length ?w + length ?r = length ?p1" "length ?p1 \<le> length p"
    using takeWhile_dropWhile_id [of "\<lambda>c. \<not> is_space c" ?p1] length_dropWhile_le [of is_space p]
    by (metis length_append, simp)
  show ?case
  proof (cases "?p1 = []")
    case True
    then show ?thesis by (simp only: words_cases) simp
  next
    case False
    note w = words_cases(2) [OF False]
    show ?thesis
    proof (cases ?r)
      case Nil
      have "words ?r = []" unfolding Nil by (simp add: words_cases)
      then show ?thesis using len w Nil by simp
    next
      case (Cons c r)
      have "is_space c" using Cons hd_dropWhile [of "\<lambda>c. \<not> is_space c" ?p1] by simp
      then have "words ?r = words r" using Cons words_skip [of ?r] words_skip [of r] by simp
      moreover have "length r < length p" using Cons len by simp
      ultimately show ?thesis using less [of r] len w Cons by simp
    qed
  qed
qed

section \<open>The argument vector\<close>

definition args_hold :: "bytes \<Rightarrow> bytes list \<Rightarrow> args \<Rightarrow> bool" where
  "args_hold buf strs a \<longleftrightarrow> argv a = offsets 0 strs \<and> argbuf_index a = length (packed strs) \<and>
     argbuf a = packed strs @ drop (length (packed strs)) buf \<and> length (packed strs) \<le> length buf"

lemma args_hold_strings:
  assumes "args_hold buf strs a" "\<forall>s \<in> set strs. 0 \<notin> set s"
  shows "arg_strings a = strs"
  using strings_at_offsets [OF assms(2), of "[]"] assms(1) by (simp add: arg_strings_def args_hold_def)

lemma push_to_argv_ok:
  assumes "args_hold buf strs a" "length (packed (strs @ [s])) \<le> length buf"
  shows "if argv_len \<le> length strs then push_to_argv argv_len s a = Some (kFull, a)
    else \<exists>a'. push_to_argv argv_len s a = Some (kSuccess, a') \<and> args_hold buf (strs @ [s]) a'"
  using assms by (auto simp: push_to_argv_def args_hold_def offsets_append add.commute)

lemma push_words_ok:
  assumes "args_hold buf strs a" "length (packed (strs @ words p)) \<le> length buf" "length strs \<le> argv_len"
  shows "\<exists>a'. push_words argv_len p a =
      Some (if length strs + length (words p) \<le> argv_len then kSuccess else kFull, a') \<and>
    args_hold buf (take argv_len (strs @ words p)) a'"
  using assms
proof (induction argv_len p a arbitrary: strs rule: push_words.induct)
  case (1 argv_len p a)
  let ?p1 = "dropWhile is_space p"
  let ?w = "takeWhile (\<lambda>c. \<not> is_space c) ?p1" and ?r = "dropWhile (\<lambda>c. \<not> is_space c) ?p1"
  show ?case
  proof (cases "?p1 = []")
    case True
    then show ?thesis using 1(2-) words_cases(1) [OF True] by (subst push_words.simps) (simp add: Let_def)
  next
    case False
    note w = words_cases(2) [OF False]
    have room: "length (packed (strs @ [?w])) \<le> length buf" using 1(3) w by simp
    show ?thesis
    proof (cases "argv_len \<le> length strs")
      case True
      then have "push_to_argv argv_len ?w a = Some (kFull, a)" using push_to_argv_ok [OF 1(2) room, of argv_len] by simp
      then show ?thesis
        using False True w 1(2,4)
        by (subst push_words.simps) (simp add: Let_def is_error_def del: dropWhile_eq_Nil_conv)
    next
      case more: False
      then obtain a1 where a1: "push_to_argv argv_len ?w a = Some (kSuccess, a1)" "args_hold buf (strs @ [?w]) a1"
        using push_to_argv_ok [OF 1(2) room, of argv_len] by auto
      show ?thesis
      proof (cases ?r)
        case Nil
        then show ?thesis
          using False w 1(3,4) a1 more
          by (subst push_words.simps) (simp add: Let_def is_error_def words_cases del: dropWhile_eq_Nil_conv)
      next
        case (Cons c r)
        have "is_space c" using Cons hd_dropWhile [of "\<lambda>c. \<not> is_space c" ?p1] by simp
        then have skip: "words ?r = words r" using Cons words_skip [of ?r] words_skip [of r] by simp
        have step: "push_words argv_len p a = push_words argv_len r a1"
          using False Cons a1(1) by (subst push_words.simps) (simp add: Let_def is_error_def del: dropWhile_eq_Nil_conv)
        have "\<exists>a'. push_words argv_len (tl ?r) a1 =
            Some (if length (strs @ [?w]) + length (words (tl ?r)) \<le> argv_len then kSuccess else kFull, a') \<and>
          args_hold buf (take argv_len ((strs @ [?w]) @ words (tl ?r))) a'"
          by (rule 1(1) [OF refl False refl refl refl a1(1) refl _ _ a1(2)])
            (use Cons more 1(3) w skip in \<open>simp_all add: is_error_def\<close>)
        then show ?thesis using step w skip Cons by simp
      qed
    qed
  qed
qed

text \<open>The argument vector of a program is the command followed by the words of the line, as long as the
  buffer can hold them all; when there are more of them than the vector has entries the call fails.\<close>

theorem make_arg_vector_words:
  assumes "0 \<notin> set command" "0 \<notin> set p" "length command + length p + 2 \<le> length buf" "0 < argv_len"
  shows "\<exists>a. make_arg_vector command (Some p) argv_len buf =
      Some (if length (command # words p) \<le> argv_len then kSuccess else kFull, a) \<and>
    arg_strings a = take argv_len (command # words p)"
proof -
  let ?a0 = "\<lparr>argv = [], argbuf = buf, argbuf_index = 0\<rparr>"
  have h0: "args_hold buf [] ?a0" by (simp add: args_hold_def)
  obtain a1 where a1: "push_to_argv argv_len command ?a0 = Some (kSuccess, a1)" "args_hold buf [command] a1"
    using push_to_argv_ok [OF h0, of command argv_len] assms(3,4) by auto
  obtain a where a: "push_words argv_len p a1 =
      Some (if length [command] + length (words p) \<le> argv_len then kSuccess else kFull, a)"
    "args_hold buf (take argv_len ([command] @ words p)) a"
    using push_words_ok [OF a1(2), of p argv_len] packed_words_length [of p] assms(3,4) by auto
  have "\<forall>s \<in> set (take argv_len (command # words p)). 0 \<notin> set s"
    using words_no_zero [OF assms(2)] assms(1) by (auto dest!: in_set_takeD)
  then have "arg_strings a = take argv_len (command # words p)" using args_hold_strings [OF a(2)] by simp
  then show ?thesis using a1(1) a(1) by (simp add: make_arg_vector_def is_error_def)
qed

text \<open>The line \<^verbatim>\<open>ls  a b\<close> and a vector of 32 entries.\<close>

theorem make_arg_vector_words_witness:
  "\<exists>a. make_arg_vector [108, 115] (Some [32, 97, 32, 98]) 32 (replicate 64 0) = Some (kSuccess, a) \<and>
     arg_strings a = [[108, 115], [97], [98]]"
proof -
  have w: "words [32, 97, 32, 98] = [[97], [98]]"
    by (simp add: words_cases is_space_def)
  show ?thesis
    using make_arg_vector_words [of "[108, 115]" "[32, 97, 32, 98]" "replicate 64 0" 32] by (simp add: w)
qed

end
