(* ===== verification/Virtual_Memory.thy ===== *)
theory Virtual_Memory imports Paging_Maps begin

text \<open>
  Bytes at virtual addresses, as the kernel reads and writes them through the page map in use: \<open>vread\<close> and
  \<open>vwrite\<close> go to the frame the page is mapped to, and to no frame (\<open>None\<close>) where it is not mapped. The
  locale \<open>byte_memory\<close> is what a user of memory relies on: a byte that was written is read back, every
  other byte stays. The mapped user half of a page map provides it.
\<close>

section \<open>Bytes in mapped memory\<close>

definition frame_byte :: "(nat \<Rightarrow> u64) \<Rightarrow> nat \<Rightarrow> u8" where
  "frame_byte fr off = ucast (get_field (8 * (off mod 8)) 8 (fr (off div 8)))"

definition set_frame_byte :: "nat \<Rightarrow> u8 \<Rightarrow> (nat \<Rightarrow> u64) \<Rightarrow> (nat \<Rightarrow> u64)" where
  "set_frame_byte off b fr = fr(off div 8 := put_field (8 * (off mod 8)) 8 (ucast b) (fr (off div 8)))"

definition vread :: "nat \<Rightarrow> u64 \<Rightarrow> paging_state \<Rightarrow> u8 option" where
  "vread cr3 addr st = map_option (\<lambda>f. frame_byte (pg_mem st f) (part 0 addr)) (walk (pg_mem st) cr3 (page_path addr))"

definition vwrite :: "nat \<Rightarrow> u64 \<Rightarrow> u8 \<Rightarrow> paging_state \<Rightarrow> paging_state option" where
  "vwrite cr3 addr b st =
    map_option (\<lambda>f. st\<lparr>pg_mem := (pg_mem st)(f := set_frame_byte (part 0 addr) b (pg_mem st f))\<rparr>)
      (walk (pg_mem st) cr3 (page_path addr))"

text \<open>\<^verbatim>\<open>memcpy\<close> and \<^verbatim>\<open>memset\<close>: the bytes one after another.\<close>

fun write_list :: "(u64 \<Rightarrow> u8 \<Rightarrow> 's \<Rightarrow> 's option) \<Rightarrow> u64 \<Rightarrow> u8 list \<Rightarrow> 's \<Rightarrow> 's option" where
  "write_list write addr [] s = Some s"
| "write_list write addr (b # bs) s =
    (case write addr b s of None \<Rightarrow> None | Some s1 \<Rightarrow> write_list write (addr + 1) bs s1)"

definition vwrite_bytes :: "nat \<Rightarrow> u64 \<Rightarrow> u8 list \<Rightarrow> paging_state \<Rightarrow> paging_state option" where
  "vwrite_bytes cr3 = write_list (vwrite cr3)"

section \<open>Memory as bytes\<close>

locale byte_memory =
  fixes fetch :: "u64 \<Rightarrow> 's \<Rightarrow> u8 option"
    and store :: "u64 \<Rightarrow> u8 \<Rightarrow> 's \<Rightarrow> 's option"
    and ok :: "'s \<Rightarrow> bool"
    and addr_ok :: "u64 \<Rightarrow> bool"
  assumes write_mapped: "ok s \<Longrightarrow> addr_ok a \<Longrightarrow> fetch a s \<noteq> None \<Longrightarrow>
    \<exists>s'. store a b s = Some s' \<and> ok s' \<and> (\<forall>c. addr_ok c \<longrightarrow> fetch c s' = (if c = a then Some b else fetch c s))"
begin

lemma write_list_mapped:
  assumes "ok s" "unat a + length bs \<le> 2 ^ 64"
    "\<And>c. unat a \<le> unat c \<Longrightarrow> unat c < unat a + length bs \<Longrightarrow> addr_ok c \<and> fetch c s \<noteq> None"
  shows "\<exists>s'. write_list store a bs s = Some s' \<and> ok s' \<and>
    (\<forall>c. addr_ok c \<longrightarrow> fetch c s' =
       (if unat a \<le> unat c \<and> unat c < unat a + length bs then Some (bs ! (unat c - unat a)) else fetch c s))"
  using assms
proof (induction bs arbitrary: a s)
  case (Cons b bs)
  obtain s1 where s1: "store a b s = Some s1" "ok s1" "\<And>c. addr_ok c \<Longrightarrow> fetch c s1 = (if c = a then Some b else fetch c s)"
    using write_mapped [OF Cons.prems(1), of a b] Cons.prems(3) [of a] by auto
  show ?case
  proof (cases "bs = []")
    case True
    have "unat a \<le> unat c \<and> unat c < unat a + 1 \<longleftrightarrow> c = a" for c
      using word_unat_eq_iff [of c a] by linarith
    then show ?thesis using s1 True by auto
  next
    case False
    then have len: "unat a + 1 + length bs \<le> 2 ^ 64" "unat a + 1 < 2 ^ 64"
      using Cons.prems(2) by (cases bs; simp)+
    have a1: "unat (a + 1) = unat a + 1" using len(2) by (simp add: unat_plus_if')
    have inner: "addr_ok c \<and> fetch c s1 \<noteq> None"
      if "unat (a + 1) \<le> unat c" "unat c < unat (a + 1) + length bs" for c
      using that a1 Cons.prems(3) [of c] s1(3) [of c] by auto
    have "unat (a + 1) + length bs \<le> 2 ^ 64" using a1 len(1) by simp
    from Cons.IH [OF s1(2) this inner] obtain s' where s': "write_list store (a + 1) bs s1 = Some s'" "ok s'"
      "\<And>c. addr_ok c \<Longrightarrow> fetch c s' = (if unat (a + 1) \<le> unat c \<and> unat c < unat (a + 1) + length bs
          then Some (bs ! (unat c - unat (a + 1))) else fetch c s1)"
      by blast
    have "fetch c s' = (if unat a \<le> unat c \<and> unat c < unat a + length (b # bs)
          then Some ((b # bs) ! (unat c - unat a)) else fetch c s)" if "addr_ok c" for c
    proof (cases "c = a")
      case True
      then show ?thesis using s'(3) [OF that] s1(3) [OF that] a1 by simp
    next
      case False
      then have "unat c \<noteq> unat a" by (simp add: word_unat_eq_iff)
      then show ?thesis using s'(3) [OF that] s1(3) [OF that] a1 False by (auto simp: nth_Cons' intro: arg_cong)
    qed
    then show ?thesis using s1(1) s'(1,2) by auto
  qed
qed auto

end

section \<open>The user half of a page map\<close>

text \<open>Canonical addresses of the upper half; there the low 48 bits tell addresses apart.\<close>

definition user_addr :: "u64 \<Rightarrow> bool" where
  "user_addr a \<longleftrightarrow> 0xffff800000000000 \<le> a"

lemma part_0: "part 0 a = unat a mod 4096"
  by (simp add: part.simps unat_get_field)

lemma user_addr_unat: "user_addr a \<longleftrightarrow> 0xffff800000000000 \<le> unat a"
  by (simp add: user_addr_def word_le_nat_alt)

lemma user_addr_part: "user_addr a \<Longrightarrow> 256 \<le> part 4 a"
proof -
  assume "user_addr a"
  then have lo: "0xffff800000000000 \<le> unat a" by (simp add: user_addr_unat)
  have hi: "unat a < 2 ^ 64" using unsigned_less [of a] by simp
  have d: "part 4 a = unat a div 2 ^ 39 mod 512" by (simp add: part_eq div_mult2_eq [symmetric])
  define k where "k = (unat a - 0xffff800000000000) div 2 ^ 39"
  have "unat a = 0x1ffff00 * 2 ^ 39 + (unat a - 0xffff800000000000)" using lo by simp
  then have "unat a div 2 ^ 39 = 0x1ffff00 + k"
    unfolding k_def by (metis div_mult_self3 power_not_zero zero_neq_numeral)
  moreover have "k < 256" using hi lo by (simp add: k_def less_mult_imp_div_less)
  moreover have "(0x1ffff00 + k) mod 512 = (65535 * 512 + (256 + k)) mod 512" by simp
  ultimately show ?thesis unfolding d mod_mult_self3 by simp
qed

lemma user_addr_inj:
  assumes "user_addr a" "user_addr b" "page_path a = page_path b" "part 0 a = part 0 b"
  shows "a = b"
proof -
  have page: "rel_page 4 a = rel_page 4 b"
    using digits_inj [OF rel_page_less rel_page_less] assms(3) by (simp add: page_path_digits)
  have split: "unat c = 0xffff * 2 ^ 48 + rel_page 4 c * 4096 + part 0 c" if "user_addr c" for c
  proof -
    have lo: "0xffff800000000000 \<le> unat c" using that by (simp add: user_addr_unat)
    have hi: "unat c < 2 ^ 64" using unsigned_less [of c] by simp
    have "unat c div 2 ^ 48 = 0xffff" using lo hi by (intro div_nat_eqI) simp_all
    then have "unat c div 4096 div 512 ^ 4 = 0xffff" by (simp add: div_mult2_eq [symmetric])
    then have "unat c div 4096 = 0xffff * 512 ^ 4 + rel_page 4 c"
      unfolding rel_page_def by (metis div_mult_mod_eq)
    then have "unat c = (0xffff * 512 ^ 4 + rel_page 4 c) * 4096 + part 0 c"
      unfolding part_0 by (metis div_mult_mod_eq)
    then show ?thesis by simp
  qed
  have "unat a = unat b" unfolding split [OF assms(1)] split [OF assms(2)] page assms(4) ..
  then show ?thesis by (simp add: word_unat_eq_iff)
qed

lemma frame_byte_set:
  assumes "off < 4096" "off' < 4096"
  shows "frame_byte (set_frame_byte off b fr) off' = (if off' = off then b else frame_byte fr off')"
proof (cases "off' = off")
  case True
  have "8 * (off mod 8) + 8 \<le> LENGTH(64)" by simp
  then have "get_field (8 * (off mod 8)) 8 (put_field (8 * (off mod 8)) 8 (ucast b) (fr (off div 8))) = (take_bit 8 (ucast b) :: u64)"
    by (rule get_put_field)
  moreover have "ucast (take_bit 8 (ucast b :: u64)) = b" by (rule bit_word_eqI) (simp add: bit_simps)
  ultimately show ?thesis using True by (simp add: frame_byte_def set_frame_byte_def)
next
  case False
  show ?thesis
  proof (cases "off' div 8 = off div 8")
    case True
    then have "off' mod 8 \<noteq> off mod 8" using False by (metis div_mult_mod_eq)
    then have "8 * (off' mod 8) + 8 \<le> 8 * (off mod 8) \<or> 8 * (off mod 8) + 8 \<le> 8 * (off' mod 8)" by linarith
    then show ?thesis
      using False True by (simp add: frame_byte_def set_frame_byte_def get_put_field_other)
  qed (use False in \<open>simp add: frame_byte_def set_frame_byte_def\<close>)
qed

text \<open>Changing the contents of a page changes no translation, as no page table is a page.\<close>

lemma walk_data_frame:
  assumes ok: "pages_ok cr3 st" and p: "user_path p" "length p = 4" "walk (pg_mem st) cr3 p = Some f"
    and mem': "\<And>g. g \<noteq> f \<Longrightarrow> mem' g = pg_mem st g"
  shows "user_path q \<Longrightarrow> length q \<le> 4 \<Longrightarrow> walk mem' cr3 q = walk (pg_mem st) cr3 q"
proof (induction q rule: rev_induct)
  case (snoc i q)
  have uq: "user_path q" "length q \<le> 3" using snoc.prems user_path_prefix by auto
  then have IH: "walk mem' cr3 q = walk (pg_mem st) cr3 q" using snoc.IH by simp
  have "g \<noteq> f" if "walk (pg_mem st) cr3 q = Some g" for g
    using pages_okD(4) [OF ok uq(1) _ p(1) _ that] uq(2) p(2,3) by auto
  then show ?case by (simp add: walk_snoc IH mem' split: option.split)
qed simp

lemma user_page: "user_addr a \<Longrightarrow> user_path (page_path a) \<and> length (page_path a) = 4"
  using user_page_path_va [OF user_addr_part] by (simp add: page_path_def)

lemma vwrite_mapped:
  assumes ok: "pages_ok cr3 st" and a: "user_addr a" "vread cr3 a st \<noteq> None"
  shows "\<exists>st'. vwrite cr3 a b st = Some st' \<and> pages_ok cr3 st' \<and> pg_alloc st' = pg_alloc st \<and>
    (\<forall>c. user_addr c \<longrightarrow> vread cr3 c st' = (if c = a then Some b else vread cr3 c st))"
proof -
  obtain f where f: "walk (pg_mem st) cr3 (page_path a) = Some f" using a(2) by (auto simp: vread_def)
  let ?fr = "set_frame_byte (part 0 a) b (pg_mem st f)"
  let ?st' = "st\<lparr>pg_mem := (pg_mem st)(f := ?fr)\<rparr>"
  have p: "user_path (page_path a)" "length (page_path a) = 4" using user_page [OF a(1)] by simp_all
  note w = walk_data_frame [OF ok p f, of "pg_mem ?st'", simplified]
  have "pages_ok cr3 ?st'"
    using ok unfolding pages_ok_def by (auto simp: w)
  moreover have "vread cr3 c ?st' = (if c = a then Some b else vread cr3 c st)" if c: "user_addr c" for c
  proof -
    have pc: "user_path (page_path c)" "length (page_path c) = 4" using user_page [OF c] by simp_all
    have wc: "walk (pg_mem ?st') cr3 (page_path c) = walk (pg_mem st) cr3 (page_path c)"
      using w [OF pc(1)] pc(2) by simp
    show ?thesis
    proof (cases "walk (pg_mem st) cr3 (page_path c) = Some f")
      case True
      have "page_path c = page_path a" using pages_okD(4) [OF ok pc(1) _ p(1) _ True f] pc(2) p(2) by simp
      then have "c = a \<longleftrightarrow> part 0 c = part 0 a" using user_addr_inj [OF c a(1)] by auto
      then show ?thesis
        using wc True frame_byte_set [of "part 0 a" "part 0 c" b "pg_mem st f"] by (simp add: vread_def part_0)
    next
      case False
      then have "c \<noteq> a" using f by auto
      then show ?thesis using wc False by (cases "walk (pg_mem st) cr3 (page_path c)") (auto simp: vread_def)
    qed
  qed
  ultimately show ?thesis using f by (simp add: vwrite_def)
qed

interpretation vmem: byte_memory "vread cr3" "vwrite cr3" "pages_ok cr3" user_addr for cr3
  by unfold_locales (use vwrite_mapped in blast)

lemma vwrite_bytes_mapped:
  assumes "pages_ok cr3 st" "unat a + length bs \<le> 2 ^ 64" "user_addr a"
    "\<And>c. unat a \<le> unat c \<Longrightarrow> unat c < unat a + length bs \<Longrightarrow> vread cr3 c st \<noteq> None"
  shows "\<exists>st'. vwrite_bytes cr3 a bs st = Some st' \<and> pages_ok cr3 st' \<and>
    (\<forall>c. user_addr c \<longrightarrow> vread cr3 c st' =
       (if unat a \<le> unat c \<and> unat c < unat a + length bs then Some (bs ! (unat c - unat a)) else vread cr3 c st))"
  unfolding vwrite_bytes_def
  by (rule vmem.write_list_mapped [OF assms(1,2)]) (use assms(3,4) in \<open>auto simp: user_addr_unat\<close>)

section \<open>Mapping pages\<close>

text \<open>Mapping pages makes their bytes readable, and keeps the bytes that could be read already.\<close>

lemma setup_page_maps_vread:
  assumes "pages_ok cr3 st" "user_addr a" "setup_page_maps cr3 a n w st = (err, st')"
  shows "pages_ok cr3 st'" "err = kSuccess \<or> err = kNoEnoughMemory"
    "user_addr c \<Longrightarrow> vread cr3 c st = Some b \<Longrightarrow> vread cr3 c st' = Some b"
    "err = kSuccess \<Longrightarrow> unat a \<le> unat c \<Longrightarrow> unat c div 4096 < unat a div 4096 + n \<Longrightarrow> vread cr3 c st' \<noteq> None"
proof -
  note r = setup_page_maps_correct_aux [OF assms(1) user_addr_part [OF assms(2)] assms(3)]
  show "pages_ok cr3 st'" "err = kSuccess \<or> err = kNoEnoughMemory" using r by blast+
  show "vread cr3 c st' = Some b" if c: "user_addr c" "vread cr3 c st = Some b"
  proof -
    obtain f where f: "walk (pg_mem st) cr3 (page_path c) = Some f" "b = frame_byte (pg_mem st f) (part 0 c)"
      using c(2) by (auto simp: vread_def)
    have p: "user_path (page_path c)" "length (page_path c) = 4" using user_page [OF c(1)] by simp_all
    have "f \<notin> Paging_Maps.tables cr3 st"
      using pages_okD(4) [OF assms(1) _ _ p(1) _ _ f(1)] p(2) by (fastforce simp: tables_def)
    moreover have "f \<in> used st" using pages_okD(3) [OF assms(1) p(1) _ f(1)] p(2) by simp
    ultimately have "pg_mem st' f = pg_mem st f" using r by blast
    moreover have "walk (pg_mem st') cr3 (page_path c) = Some f"
      using setup_page_maps_result [OF assms(1) user_addr_part [OF assms(2)] assms(3)] maps_extD(3) p f(1)
      by (metis order_refl)
    ultimately show ?thesis using f(2) by (simp add: vread_def)
  qed
  show "vread cr3 c st' \<noteq> None"
    if c: "err = kSuccess" "unat a \<le> unat c" "unat c div 4096 < unat a div 4096 + n"
  proof -
    have a: "0xffff800000000000 \<le> unat a" using assms(2) by (simp add: user_addr_unat)
    have hi: "unat c < 2 ^ 64" using unsigned_less [of c] by simp
    have page: "rel_page 4 x = unat x div 4096 - 0xffff * 512 ^ 4" if "0xffff800000000000 \<le> unat x" for x
    proof -
      have x: "unat x < 2 ^ 64" using unsigned_less [of x] by simp
      have "unat x div 4096 div 512 ^ 4 = 0xffff"
        using that x by (simp add: div_mult2_eq [symmetric])
      then show ?thesis
        unfolding rel_page_def using div_mult_mod_eq [of "unat x div 4096" "512 ^ 4"] by simp
    qed
    have le: "unat a div 4096 \<le> unat c div 4096" using c(2) by (rule div_le_mono)
    have "x - K \<le> y - K \<and> y - K < x - K + n" if "K \<le> x" "x \<le> y" "y < x + n" for K x y :: nat
      using that by linarith
    moreover have "0xffff * 512 ^ 4 \<le> unat a div 4096" using div_le_mono [OF a, of 4096] by simp
    ultimately have "rel_page 4 a \<le> rel_page 4 c" "rel_page 4 c < rel_page 4 a + n"
      unfolding page [OF a] page [OF order_trans [OF a c(2)]] using le c(3) by blast+
    then have "\<exists>f. walk (pg_mem st') cr3 (digits 4 (rel_page 4 c)) = Some f"
      using r c(1) rel_page_less [of 4 c] by blast
    then show ?thesis by (auto simp: vread_def page_path_digits)
  qed
qed

end
