(* ===== verification/App_Loader.thy ===== *)
theory App_Loader imports Virtual_Memory Fat begin

text \<open>
  \<^verbatim>\<open>Kernel/elf.hpp\<close> and the program loader of \<^verbatim>\<open>Kernel/terminal.cpp\<close>: the page map of a program, its ELF
  image copied to the addresses it was linked for, and the cache of loaded programs, whose pages are
  shared until they are written. The image is the list of the file's bytes; \<open>None\<close> is an access outside of
  it, or outside the mapped pages. The processor writes to read-only pages too in kernel mode, as
  \<^verbatim>\<open>InitializePaging\<close> has cleared \<^verbatim>\<open>CR0.WP\<close>.
\<close>

section \<open>ELF files\<close>

text \<open>An unsigned little-endian number of \<open>n\<close> bytes in the image.\<close>

fun le_nat :: "bytes \<Rightarrow> nat" where
  "le_nat [] = 0"
| "le_nat (b # bs) = unat b + 256 * le_nat bs"

definition get_le :: "bytes \<Rightarrow> nat \<Rightarrow> nat \<Rightarrow> nat" where
  "get_le img off n = le_nat (take n (drop off img))"

(*@ Kernel/elf.hpp:13-28 Elf64_Ehdr *)
record elf64_ehdr =
  e_ident :: bytes
  e_type :: u16
  e_machine :: u16
  e_version :: u32
  e_entry :: u64
  e_phoff :: u64
  e_shoff :: u64
  e_flags :: u32
  e_ehsize :: u16
  e_phentsize :: u16
  e_phnum :: u16
  e_shentsize :: u16
  e_shnum :: u16
  e_shstrndx :: u16

(*@ Kernel/elf.hpp:36-45 Elf64_Phdr *)
record elf64_phdr =
  p_type :: u32
  p_flags :: u32
  p_offset :: u64
  p_vaddr :: u64
  p_paddr :: u64
  p_filesz :: u64
  p_memsz :: u64
  p_align :: u64

(*@ Kernel/elf.hpp:32-32 ET_EXEC *)
definition ET_EXEC :: u16 where "ET_EXEC = 2"

(*@ Kernel/elf.hpp:48-48 PT_LOAD *)
definition PT_LOAD :: u32 where "PT_LOAD = 1"

text \<open>The structures at their offsets in the file.\<close>

definition get_ehdr :: "bytes \<Rightarrow> elf64_ehdr option" where
  "get_ehdr img =
    (if length img < 64 then None
     else Some \<lparr>e_ident = take 16 img,
       e_type = of_nat (get_le img 16 2), e_machine = of_nat (get_le img 18 2),
       e_version = of_nat (get_le img 20 4), e_entry = of_nat (get_le img 24 8),
       e_phoff = of_nat (get_le img 32 8), e_shoff = of_nat (get_le img 40 8),
       e_flags = of_nat (get_le img 48 4), e_ehsize = of_nat (get_le img 52 2),
       e_phentsize = of_nat (get_le img 54 2), e_phnum = of_nat (get_le img 56 2),
       e_shentsize = of_nat (get_le img 58 2), e_shnum = of_nat (get_le img 60 2),
       e_shstrndx = of_nat (get_le img 62 2)\<rparr>)"

(*@ Kernel/terminal.cpp:74-77 GetProgramHeader *)
definition get_program_header :: "bytes \<Rightarrow> elf64_ehdr \<Rightarrow> nat \<Rightarrow> elf64_phdr option" where
  "get_program_header img ehdr i =
    (let off = unat (e_phoff ehdr) + 56 * i in
     if length img < off + 56 then None
     else Some \<lparr>p_type = of_nat (get_le img off 4), p_flags = of_nat (get_le img (off + 4) 4),
       p_offset = of_nat (get_le img (off + 8) 8), p_vaddr = of_nat (get_le img (off + 16) 8),
       p_paddr = of_nat (get_le img (off + 24) 8), p_filesz = of_nat (get_le img (off + 32) 8),
       p_memsz = of_nat (get_le img (off + 40) 8), p_align = of_nat (get_le img (off + 48) 8)\<rparr>)"

(*@ Kernel/terminal.cpp:79-86 GetFirstLoadAddress *)
fun first_load_from :: "bytes \<Rightarrow> elf64_ehdr \<Rightarrow> nat list \<Rightarrow> u64 option" where
  "first_load_from img ehdr [] = Some 0"
| "first_load_from img ehdr (i # is) =
    do { phdr \<leftarrow> get_program_header img ehdr i;
         if p_type phdr \<noteq> PT_LOAD then first_load_from img ehdr is else Some (p_vaddr phdr) }"

definition get_first_load_address :: "bytes \<Rightarrow> elf64_ehdr \<Rightarrow> u64 option" where
  "get_first_load_address img ehdr = first_load_from img ehdr [0..<unat (e_phnum ehdr)]"

(*@ Kernel/terminal.cpp:99-99 CopyLoadSegments *)
definition num_4kpages :: "elf64_phdr \<Rightarrow> nat" where
  "num_4kpages phdr = unat ((p_memsz phdr + 4095) div 4096)"

text \<open>One round of the loop for a segment to load.\<close>

(*@ Kernel/terminal.cpp:96-108 CopyLoadSegments *)
definition copy_segment :: "nat \<Rightarrow> bytes \<Rightarrow> elf64_phdr \<Rightarrow> paging_state \<Rightarrow> (error_code \<times> paging_state) option" where
  "copy_segment cr3 img phdr st =
    (case setup_page_maps cr3 (p_vaddr phdr) (num_4kpages phdr) False st of
       (err, st1) \<Rightarrow>
         if is_error err then Some (err, st1)
         else if length img < unat (p_offset phdr) + unat (p_filesz phdr) then None
         else do {
           st2 \<leftarrow> vwrite_bytes cr3 (p_vaddr phdr) (take (unat (p_filesz phdr)) (drop (unat (p_offset phdr)) img)) st1;
           st3 \<leftarrow> vwrite_bytes cr3 (p_vaddr phdr + p_filesz phdr) (replicate (unat (p_memsz phdr - p_filesz phdr)) 0) st2;
           Some (kSuccess, st3) })"

(*@ Kernel/terminal.cpp:90-111 CopyLoadSegments *)
fun copy_load_from :: "nat \<Rightarrow> bytes \<Rightarrow> elf64_ehdr \<Rightarrow> nat list \<Rightarrow> u64 \<Rightarrow> paging_state \<Rightarrow> (u64 \<times> error_code \<times> paging_state) option" where
  "copy_load_from cr3 img ehdr [] last_addr st = Some (last_addr, kSuccess, st)"
| "copy_load_from cr3 img ehdr (i # is) last_addr st =
    do { phdr \<leftarrow> get_program_header img ehdr i;
         if p_type phdr \<noteq> PT_LOAD then copy_load_from cr3 img ehdr is last_addr st
         else do {
           let last_addr1 = max last_addr (p_vaddr phdr + p_memsz phdr);
           (err, st1) \<leftarrow> copy_segment cr3 img phdr st;
           if is_error err then Some (last_addr1, err, st1)
           else copy_load_from cr3 img ehdr is last_addr1 st1 } }"

definition copy_load_segments :: "nat \<Rightarrow> bytes \<Rightarrow> elf64_ehdr \<Rightarrow> paging_state \<Rightarrow> (u64 \<times> error_code \<times> paging_state) option" where
  "copy_load_segments cr3 img ehdr st = copy_load_from cr3 img ehdr [0..<unat (e_phnum ehdr)] 0 st"

(*@ Kernel/terminal.cpp:113-124 LoadELF *)
definition load_elf :: "nat \<Rightarrow> bytes \<Rightarrow> elf64_ehdr \<Rightarrow> paging_state \<Rightarrow> (u64 \<times> error_code \<times> paging_state) option" where
  "load_elf cr3 img ehdr st =
    (if e_type ehdr \<noteq> ET_EXEC then Some (0, kInvalidFormat, st)
     else do {
       addr_first \<leftarrow> get_first_load_address img ehdr;
       if addr_first < 0xffff800000000000 then Some (0, kInvalidFormat, st)
       else copy_load_segments cr3 img ehdr st })"

section \<open>Page maps of programs\<close>

(*@ Kernel/terminal.hpp:12-15 AppLoadInfo *)
record app_load_info =
  vaddr_end :: u64
  app_entry :: u64
  app_pml4 :: nat

text \<open>\<open>ld_cr3\<close> is the root page map in use, \<open>ld_task_cr3\<close> the one in the context of the running task.\<close>

record loader =
  ld_pages :: paging_state
  ld_cr3 :: nat
  ld_task_cr3 :: nat
  ld_apps :: "entry_ref \<rightharpoonup> app_load_info"

(*@ Kernel/terminal.cpp:126-139 SetupPML4 *)
definition setup_pml4 :: "loader \<Rightarrow> nat result \<times> loader" where
  "setup_pml4 ld =
    (case new_page_map (ld_pages ld) of
       (Inl err, st) \<Rightarrow> (Inl err, ld\<lparr>ld_pages := st\<rparr>)
     | (Inr pml4, st) \<Rightarrow>
         let current_pml4 = ld_cr3 ld;
             st1 = st\<lparr>pg_mem := (pg_mem st)(pml4 := (\<lambda>i. if i < 256 then pg_mem st current_pml4 i else pg_mem st pml4 i))\<rparr>
         in (Inr pml4, ld\<lparr>ld_pages := st1, ld_cr3 := pml4, ld_task_cr3 := pml4\<rparr>))"

text \<open>\<^verbatim>\<open>ResetCR3\<close> goes back to the kernel's own page map, an argument.\<close>

(*@ Kernel/terminal.cpp:141-147 FreePML4 *)
definition free_pml4 :: "nat \<Rightarrow> loader \<Rightarrow> error_code \<times> loader" where
  "free_pml4 kernel_pml4 ld =
    (let cr3 = ld_task_cr3 ld
     in (kSuccess, ld\<lparr>ld_task_cr3 := 0, ld_cr3 := kernel_pml4, ld_pages := free_page_map cr3 (ld_pages ld)\<rparr>))"

definition elf_magic :: bytes where "elf_magic = 0x7f # bytes_of ''ELF''"

definition no_app :: app_load_info where "no_app = \<lparr>vaddr_end = 0, app_entry = 0, app_pml4 = 0\<rparr>"

text \<open>\<^verbatim>\<open>LoadApp\<close> for a program that was loaded before: its page maps are copied, the pages shared.\<close>

(*@ Kernel/terminal.cpp:182-187 LoadApp *)
definition share_app :: "nat \<Rightarrow> app_load_info \<Rightarrow> loader \<Rightarrow> app_load_info \<times> error_code \<times> loader" where
  "share_app temp_pml4 app_load ld =
    (case copy_page_maps temp_pml4 (app_pml4 app_load) 4 256 (ld_pages ld) of
       (err, st) \<Rightarrow> (app_load\<lparr>app_pml4 := temp_pml4\<rparr>, err, ld\<lparr>ld_pages := st\<rparr>))"

text \<open>The file read into a zeroed vector, from which the header is taken.\<close>

(*@ Kernel/terminal.cpp:189-192 LoadApp *)
definition read_image :: "volume \<Rightarrow> dir_entry \<Rightarrow> bytes option" where
  "read_image v e =
    do { buf \<leftarrow> load_file v (file_size e) e; Some (buf @ replicate (file_size e - length buf) 0) }"

(*@ Kernel/terminal.cpp:174-213 LoadApp *)
definition load_app :: "volume \<Rightarrow> entry_ref \<Rightarrow> loader \<Rightarrow> (app_load_info \<times> error_code \<times> loader) option" where
  "load_app v file_entry ld =
    (case setup_pml4 ld of
       (Inl err, ld1) \<Rightarrow> Some (no_app, err, ld1)
     | (Inr temp_pml4, ld1) \<Rightarrow>
         (case ld_apps ld1 file_entry of
            Some app_load \<Rightarrow> Some (share_app temp_pml4 app_load ld1)
          | None \<Rightarrow>
              do { e \<leftarrow> get_entry v file_entry;
                   file_buf \<leftarrow> read_image v e;
                   elf_header \<leftarrow> get_ehdr file_buf;
                   if take 4 (e_ident elf_header) \<noteq> elf_magic then Some (no_app, kInvalidFile, ld1)
                   else do {
                     (last_addr, err_load, st) \<leftarrow> load_elf (ld_cr3 ld1) file_buf elf_header (ld_pages ld1);
                     let ld2 = ld1\<lparr>ld_pages := st\<rparr>;
                     if is_error err_load then Some (no_app, err_load, ld2)
                     else
                       let app_load = \<lparr>vaddr_end = last_addr, app_entry = e_entry elf_header, app_pml4 = temp_pml4\<rparr>;
                           ld3 = ld2\<lparr>ld_apps := (ld_apps ld2)(file_entry \<mapsto> app_load)\<rparr>
                       in (case setup_pml4 ld3 of
                             (Inl err, ld4) \<Rightarrow> Some (app_load, err, ld4)
                           | (Inr pml4, ld4) \<Rightarrow>
                               (case copy_page_maps pml4 temp_pml4 4 256 (ld_pages ld4) of
                                  (err, st1) \<Rightarrow> Some (app_load\<lparr>app_pml4 := pml4\<rparr>, err, ld4\<lparr>ld_pages := st1\<rparr>))) } }))"

section \<open>What is in memory after loading\<close>

text \<open>The bytes of a segment: the file's, then zeroes. A segment is well formed when it lies in the upper half
  and in the file, and does not need more pages than \<^verbatim>\<open>CopyLoadSegments\<close> maps.\<close>

definition in_segment :: "elf64_phdr \<Rightarrow> u64 \<Rightarrow> bool" where
  "in_segment ph a \<longleftrightarrow> unat (p_vaddr ph) \<le> unat a \<and> unat a < unat (p_vaddr ph) + unat (p_memsz ph)"

definition segment_byte :: "bytes \<Rightarrow> elf64_phdr \<Rightarrow> u64 \<Rightarrow> u8" where
  "segment_byte img ph a =
    (let k = unat a - unat (p_vaddr ph)
     in if k < unat (p_filesz ph) then img ! (unat (p_offset ph) + k) else 0)"

definition segment_ok :: "bytes \<Rightarrow> elf64_phdr \<Rightarrow> bool" where
  "segment_ok img ph \<longleftrightarrow> user_addr (p_vaddr ph) \<and> unat (p_vaddr ph) + unat (p_memsz ph) < 2 ^ 64 \<and>
     p_filesz ph \<le> p_memsz ph \<and> unat (p_offset ph) + unat (p_filesz ph) \<le> length img \<and>
     part 0 (p_vaddr ph) + unat (p_memsz ph) \<le> 4096 * num_4kpages ph"

lemma copy_segment_loads:
  assumes ok: "pages_ok cr3 st" and seg: "segment_ok img ph"
  shows "\<exists>err st'. copy_segment cr3 img ph st = Some (err, st') \<and> pages_ok cr3 st' \<and>
    (err = kSuccess \<and>
       (\<forall>a. in_segment ph a \<longrightarrow> vread cr3 a st' = Some (segment_byte img ph a)) \<and>
       (\<forall>a b. user_addr a \<and> \<not> in_segment ph a \<and> vread cr3 a st = Some b \<longrightarrow> vread cr3 a st' = Some b)
     \<or> err = kNoEnoughMemory)"
proof -
  let ?v = "unat (p_vaddr ph)" and ?m = "unat (p_memsz ph)" and ?f = "unat (p_filesz ph)" and ?o = "unat (p_offset ph)"
  have s: "user_addr (p_vaddr ph)" "?v + ?m < 2 ^ 64" "?f \<le> ?m" "?o + ?f \<le> length img"
    "?v mod 4096 + ?m \<le> 4096 * num_4kpages ph"
    using seg by (simp_all add: segment_ok_def word_le_nat_alt part_0)
  obtain err st1 where run: "setup_page_maps cr3 (p_vaddr ph) (num_4kpages ph) False st = (err, st1)" by fastforce
  note map = setup_page_maps_vread [OF ok s(1) run]
  show ?thesis
  proof (cases "is_error err")
    case True
    then show ?thesis using run map(1,2) by (auto simp: copy_segment_def is_error_def)
  next
    case False
    have mapped: "vread cr3 c st1 \<noteq> None" if c: "?v \<le> unat c" "unat c < ?v + ?m" for c
    proof -
      have "unat c < 4096 * (?v div 4096) + 4096 * num_4kpages ph"
        using c s(5) div_mult_mod_eq [of ?v 4096] by linarith
      then have "unat c div 4096 < ?v div 4096 + num_4kpages ph"
        by (intro less_mult_imp_div_less) (simp add: algebra_simps)
      then show ?thesis using map(4) [OF _ c(1)] False by (simp add: is_error_def)
    qed
    let ?data = "take ?f (drop ?o img)"
    have len: "length ?data = ?f" using s(4) by simp
    obtain st2 where st2: "vwrite_bytes cr3 (p_vaddr ph) ?data st1 = Some st2" "pages_ok cr3 st2"
      "\<And>c. user_addr c \<Longrightarrow> vread cr3 c st2 = (if ?v \<le> unat c \<and> unat c < ?v + ?f then Some (?data ! (unat c - ?v)) else vread cr3 c st1)"
      using vwrite_bytes_mapped [OF map(1), of "p_vaddr ph" ?data] mapped s len by auto
    have end_file: "unat (p_vaddr ph + p_filesz ph) = ?v + ?f" using s(2,3) by (simp add: unat_plus_if')
    have gap: "unat (p_memsz ph - p_filesz ph) = ?m - ?f" using s(3) by (simp add: unat_sub_if')
    have user_end: "user_addr (p_vaddr ph + p_filesz ph)" using s(1) end_file by (simp add: user_addr_unat)
    have user_c: "user_addr c" if "?v \<le> unat c" for c using s(1) that by (simp add: user_addr_unat)
    have mapped2: "vread cr3 c st2 \<noteq> None" if c: "?v \<le> unat c" "unat c < ?v + ?m" for c
      using mapped [OF c] st2(3) [OF user_c [OF c(1)]] by auto
    obtain st3 where st3: "vwrite_bytes cr3 (p_vaddr ph + p_filesz ph) (replicate (?m - ?f) 0) st2 = Some st3"
      "pages_ok cr3 st3"
      "\<And>c. user_addr c \<Longrightarrow> vread cr3 c st3 =
         (if ?v + ?f \<le> unat c \<and> unat c < ?v + ?m then Some (replicate (?m - ?f) 0 ! (unat c - (?v + ?f))) else vread cr3 c st2)"
      using vwrite_bytes_mapped [OF st2(2), of "p_vaddr ph + p_filesz ph" "replicate (?m - ?f) 0"]
        mapped2 s(2,3) user_end end_file by auto
    have "copy_segment cr3 img ph st = Some (kSuccess, st3)"
      using run False s(4) st2(1) st3(1) by (simp add: copy_segment_def gap)
    moreover have "vread cr3 a st3 = Some (segment_byte img ph a)" if a: "in_segment ph a" for a
      using a st3(3) [of a] st2(3) [of a] user_c [of a] s(4)
      by (auto simp: in_segment_def segment_byte_def Let_def nth_append)
    moreover have "vread cr3 a st3 = Some b" if a: "user_addr a" "\<not> in_segment ph a" "vread cr3 a st = Some b" for a b
      using a st3(3) [of a] st2(3) [of a] map(3) [OF a(1,3)] s(3) by (auto simp: in_segment_def)
    ultimately show ?thesis using st3(2) by auto
  qed
qed

text \<open>The program headers of an image, those to load, and the address behind the last segment.\<close>

definition headers_are :: "bytes \<Rightarrow> elf64_ehdr \<Rightarrow> elf64_phdr list \<Rightarrow> bool" where
  "headers_are img ehdr phs \<longleftrightarrow> length phs = unat (e_phnum ehdr) \<and>
     (\<forall>i < length phs. get_program_header img ehdr i = Some (phs ! i))"

definition loads :: "elf64_phdr list \<Rightarrow> elf64_phdr list" where
  "loads phs = filter (\<lambda>ph. p_type ph = PT_LOAD) phs"

definition end_of_loads :: "u64 \<Rightarrow> elf64_phdr list \<Rightarrow> u64" where
  "end_of_loads a phs = foldl max a (map (\<lambda>ph. p_vaddr ph + p_memsz ph) phs)"

definition apart :: "elf64_phdr \<Rightarrow> elf64_phdr \<Rightarrow> bool" where
  "apart p q \<longleftrightarrow> (\<forall>a. \<not> (in_segment p a \<and> in_segment q a))"

lemma copy_load_from_loads:
  assumes "pages_ok cr3 st" "\<forall>i \<in> set is. get_program_header img ehdr i = Some (ph i)"
    "\<forall>p \<in> set (loads (map ph is)). segment_ok img p" "sorted_wrt apart (loads (map ph is))"
  shows "\<exists>last_addr err st'. copy_load_from cr3 img ehdr is a st = Some (last_addr, err, st') \<and> pages_ok cr3 st' \<and>
    (err = kSuccess \<and> last_addr = end_of_loads a (loads (map ph is)) \<and>
       (\<forall>p \<in> set (loads (map ph is)). \<forall>c. in_segment p c \<longrightarrow> vread cr3 c st' = Some (segment_byte img p c)) \<and>
       (\<forall>c b. user_addr c \<and> (\<forall>p \<in> set (loads (map ph is)). \<not> in_segment p c) \<and> vread cr3 c st = Some b \<longrightarrow>
          vread cr3 c st' = Some b)
     \<or> err = kNoEnoughMemory)"
  using assms
proof (induction "is" arbitrary: a st)
  case (Cons i js)
  have hi: "get_program_header img ehdr i = Some (ph i)" using Cons.prems(2) by simp
  show ?case
  proof (cases "p_type (ph i) = PT_LOAD")
    case False
    then show ?thesis using Cons.IH [OF Cons.prems(1), of a] Cons.prems(2-) hi by (simp add: loads_def)
  next
    case True
    then have l: "loads (map ph (i # js)) = ph i # loads (map ph js)" by (simp add: loads_def)
    have seg: "segment_ok img (ph i)" using Cons.prems(3) l by simp
    let ?a = "max a (p_vaddr (ph i) + p_memsz (ph i))"
    obtain err st1 where c: "copy_segment cr3 img (ph i) st = Some (err, st1)" "pages_ok cr3 st1"
      and r: "err = kSuccess \<and>
         (\<forall>c. in_segment (ph i) c \<longrightarrow> vread cr3 c st1 = Some (segment_byte img (ph i) c)) \<and>
         (\<forall>c b. user_addr c \<and> \<not> in_segment (ph i) c \<and> vread cr3 c st = Some b \<longrightarrow> vread cr3 c st1 = Some b)
       \<or> err = kNoEnoughMemory"
      using copy_segment_loads [OF Cons.prems(1) seg] by blast
    show ?thesis
    proof (cases "is_error err")
      case bad: True
      then show ?thesis using hi True c r by (auto simp: is_error_def)
    next
      case False
      have step: "copy_load_from cr3 img ehdr (i # js) a st = copy_load_from cr3 img ehdr js ?a st1"
        using hi True c(1) False by simp
      obtain last_addr err' st' where rest: "copy_load_from cr3 img ehdr js ?a st1 = Some (last_addr, err', st')"
        "pages_ok cr3 st'" and r': "err' = kSuccess \<and> last_addr = end_of_loads ?a (loads (map ph js)) \<and>
         (\<forall>p \<in> set (loads (map ph js)). \<forall>c. in_segment p c \<longrightarrow> vread cr3 c st' = Some (segment_byte img p c)) \<and>
         (\<forall>c b. user_addr c \<and> (\<forall>p \<in> set (loads (map ph js)). \<not> in_segment p c) \<and> vread cr3 c st1 = Some b \<longrightarrow>
            vread cr3 c st' = Some b)
       \<or> err' = kNoEnoughMemory"
        using Cons.IH [OF c(2), of ?a] Cons.prems(2-) unfolding l by auto
      have kept: "vread cr3 c st' = Some (segment_byte img (ph i) c)" if "err' = kSuccess" "in_segment (ph i) c" for c
      proof -
        have "\<forall>p \<in> set (loads (map ph js)). \<not> in_segment p c"
          using Cons.prems(4) that(2) unfolding l by (auto simp: apart_def)
        moreover have "user_addr c" using seg that(2) by (auto simp: segment_ok_def in_segment_def user_addr_unat)
        ultimately show ?thesis using r r' False that by (auto simp: is_error_def)
      qed
      show ?thesis
        unfolding step l using rest r r' kept False
        by (auto simp: is_error_def end_of_loads_def)
    qed
  qed
qed (simp add: loads_def end_of_loads_def)

lemma first_load_from_loads:
  assumes "\<forall>i \<in> set is. get_program_header img ehdr i = Some (ph i)" "loads (map ph is) \<noteq> []"
  shows "first_load_from img ehdr is = Some (p_vaddr (hd (loads (map ph is))))"
  using assms by (induction "is") (auto simp: loads_def)


text \<open>An image with one segment of two bytes and one zero.\<close>

definition sample_image :: bytes where
  "sample_image =
    [127, 69, 76, 70, 2, 1, 1, 0, 0, 0, 0, 0, 0, 0, 0, 0, 2, 0, 62, 0, 1, 0, 0, 0, 0, 0, 0, 0, 0, 128,
     255, 255, 64, 0, 0, 0, 0, 0, 0, 0, 0, 0, 0, 0, 0, 0, 0, 0, 0, 0, 0, 0, 64, 0, 56, 0, 1, 0, 0, 0, 0,
     0, 0, 0, 1, 0, 0, 0, 5, 0, 0, 0, 120, 0, 0, 0, 0, 0, 0, 0, 0, 0, 0, 0, 0, 128, 255, 255, 0, 0, 0, 0,
     0, 0, 0, 0, 2, 0, 0, 0, 0, 0, 0, 0, 3, 0, 0, 0, 0, 0, 0, 0, 0, 16, 0, 0, 0, 0, 0, 0, 17, 34]"

definition sample_ehdr :: elf64_ehdr where
  "sample_ehdr =
    \<lparr>e_ident = [127, 69, 76, 70, 2, 1, 1, 0, 0, 0, 0, 0, 0, 0, 0, 0], e_type = 2, e_machine = 62, e_version = 1,
     e_entry = 0xffff800000000000, e_phoff = 64, e_shoff = 0, e_flags = 0, e_ehsize = 64, e_phentsize = 56, e_phnum = 1,
     e_shentsize = 0, e_shnum = 0, e_shstrndx = 0\<rparr>"

definition sample_phdr :: elf64_phdr where
  "sample_phdr =
    \<lparr>p_type = 1, p_flags = 5, p_offset = 120, p_vaddr = 0xffff800000000000, p_paddr = 0, p_filesz = 2, p_memsz = 3,
     p_align = 4096\<rparr>"

lemma sample_headers: "get_ehdr sample_image = Some sample_ehdr" "headers_are sample_image sample_ehdr [sample_phdr]"
  by (simp_all add: get_ehdr_def headers_are_def get_program_header_def get_le_def sample_image_def sample_ehdr_def
      sample_phdr_def)


end
