(* ===== verification/Bit_Layout.thy ===== *)
theory Bit_Layout imports Bit_Field begin

text \<open>
  Unions of a machine word with a packed struct of bit fields, as the USB and PCI code declares
  them for TRBs, contexts and registers. A layout lists the members of the struct in the order of
  their declaration with their widths; a member without a name is padding and has the empty name
  here. A member starts where the one before it ends. The lemmas show for every layout that fits
  its word: a member reads back what was written to it, cut at its width, and writing a member
  changes no other one, so the component theories never compute with masks.
\<close>

type_synonym layout = "(string \<times> nat) list"

fun member_pos :: "layout \<Rightarrow> string \<Rightarrow> nat \<Rightarrow> (nat \<times> nat) option" where
  "member_pos [] n off = None"
| "member_pos ((m, w) # L) n off = (if m = n then Some (off, w) else member_pos L n (off + w))"

definition layout_bits :: "layout \<Rightarrow> nat" where
  "layout_bits L = sum_list (map snd L)"

definition member_names :: "layout \<Rightarrow> string list" where
  "member_names L = filter (\<lambda>n. n \<noteq> []) (map fst L)"

definition get_member :: "layout \<Rightarrow> string \<Rightarrow> 'a::len word \<Rightarrow> 'a word" where
  "get_member L n x = (case member_pos L n 0 of Some (off, w) \<Rightarrow> get_field off w x | None \<Rightarrow> 0)"

definition put_member :: "layout \<Rightarrow> string \<Rightarrow> 'a::len word \<Rightarrow> 'a word \<Rightarrow> 'a word" where
  "put_member L n v x = (case member_pos L n 0 of Some (off, w) \<Rightarrow> put_field off w v x | None \<Rightarrow> x)"

definition member_width :: "layout \<Rightarrow> string \<Rightarrow> nat" where
  "member_width L n = (case member_pos L n 0 of Some (off, w) \<Rightarrow> w | None \<Rightarrow> 0)"

definition has_member :: "layout \<Rightarrow> string \<Rightarrow> bool" where
  "has_member L n \<longleftrightarrow> member_pos L n 0 \<noteq> None"

text \<open>Members of a word that is written and read as an array of 32-bit words.\<close>

definition get_dword :: "nat \<Rightarrow> 'a::len word \<Rightarrow> 'a word" where
  "get_dword i x = get_field (32 * i) 32 x"

definition put_dword :: "nat \<Rightarrow> 'a::len word \<Rightarrow> 'a word \<Rightarrow> 'a word" where
  "put_dword i v x = put_field (32 * i) 32 v x"

section \<open>Positions\<close>

lemma layout_bits_simps [simp]:
  "layout_bits [] = 0"
  "layout_bits ((m, w) # L) = w + layout_bits L"
  by (simp_all add: layout_bits_def)

lemma member_pos_bounds:
  "member_pos L n base = Some (off, w) \<Longrightarrow> base \<le> off \<and> off + w \<le> base + layout_bits L"
  by (induction L n base rule: member_pos.induct) (auto split: if_splits)

lemma member_pos_shift:
  "member_pos L n (base + k) = map_option (\<lambda>(off, w). (off + k, w)) (member_pos L n base)"
  by (induction L n base rule: member_pos.induct) (auto simp: algebra_simps)

lemma member_pos_disjoint:
  "member_pos L n base = Some (o1, w1) \<Longrightarrow> member_pos L m base = Some (o2, w2) \<Longrightarrow> n \<noteq> m \<Longrightarrow>
    o1 + w1 \<le> o2 \<or> o2 + w2 \<le> o1"
proof (induction L n base rule: member_pos.induct)
  case (2 k w L n base)
  then show ?case
    by (auto split: if_splits dest!: member_pos_bounds)
qed simp

section \<open>Reading and writing members\<close>

lemma get_put_member:
  fixes x :: "'a::len word"
  assumes "layout_bits L \<le> LENGTH('a)"
  shows "get_member L n (put_member L n v x) = take_bit (member_width L n) v"
proof (cases "member_pos L n 0")
  case None
  then show ?thesis by (simp add: get_member_def member_width_def)
next
  case (Some p)
  obtain off w where p: "p = (off, w)" by (cases p)
  have "off + w \<le> LENGTH('a)"
    using member_pos_bounds [of L n 0 off w] Some p assms by simp
  then show ?thesis
    using Some p by (simp add: get_member_def put_member_def member_width_def get_put_field)
qed

lemma get_put_member_other [simp]:
  "n \<noteq> m \<Longrightarrow> get_member L n (put_member L m v x) = get_member L n x"
  by (auto simp: get_member_def put_member_def split: option.splits
      intro!: get_put_field_other dest: member_pos_disjoint)

lemma get_member_zero [simp]: "get_member L n 0 = 0"
  by (auto simp: get_member_def get_field_zero split: option.splits)

lemma get_member_bound: "take_bit (member_width L n) (get_member L n x) = get_member L n x"
  by (auto simp: get_member_def member_width_def get_field_def split: option.splits)

lemma unat_get_member: "unat (get_member L n x) < 2 ^ member_width L n"
proof -
  have "unat (get_member L n x) = take_bit (member_width L n) (unat (get_member L n x))"
    by (metis get_member_bound unsigned_take_bit_eq)
  then show ?thesis by (metis take_bit_nat_less_exp)
qed

lemma get_dword_put_dword:
  fixes x :: "'a::len word"
  assumes "32 * Suc i \<le> LENGTH('a)"
  shows "get_dword j (put_dword i v x) = (if i = j then take_bit 32 v else get_dword j x)"
proof (cases "i = j")
  case True
  then show ?thesis using assms by (simp add: get_dword_def put_dword_def get_put_field)
next
  case False
  then have "32 * i + 32 \<le> 32 * j \<or> 32 * j + 32 \<le> 32 * i" by auto
  then show ?thesis using False by (simp add: get_dword_def put_dword_def get_put_field_other disj_commute)
qed

text \<open>A member inside one of the 32-bit words, when the others are written.\<close>

lemma get_field_put_dword_other:
  "off + w \<le> 32 * i \<or> 32 * Suc i \<le> off \<Longrightarrow> get_field off w (put_dword i v x) = get_field off w x"
  by (auto simp: put_dword_def intro!: get_put_field_other)

lemma get_field_put_dword:
  fixes x :: "'a::len word"
  assumes "32 * i \<le> off" "off + w \<le> 32 * Suc i" "32 * Suc i \<le> LENGTH('a)"
  shows "get_field off w (put_dword i v x) = get_field (off - 32 * i) w v"
proof (intro bit_eqI)
  fix k
  assume "possible_bit TYPE('a word) k"
  have "k < w \<Longrightarrow> off + k < 32 * i + 32 \<and> off + k < LENGTH('a) \<and> off + k - 32 * i = off - 32 * i + k"
    using assms by simp
  then show "bit (get_field off w (put_dword i v x)) k = bit (get_field (off - 32 * i) w v) k"
    using assms by (auto simp: bit_get_field put_dword_def bit_put_field)
qed

text \<open>A word of four 32-bit words is determined by them.\<close>

lemma four_dwords_eqI:
  fixes x y :: "128 word"
  assumes "\<forall>i < 4. get_dword i x = get_dword i y"
  shows "x = y"
proof (intro bit_eqI)
  fix n
  assume "possible_bit TYPE(128 word) n"
  then have "n div 32 < 4" by (simp add: less_mult_imp_div_less)
  then have "bit (get_dword (n div 32) x) (n mod 32) = bit (get_dword (n div 32) y) (n mod 32)"
    using assms by simp
  then show "bit x n = bit y n" by (simp add: get_dword_def bit_get_field)
qed

text \<open>An aligned pointer that is stored without its low bits.\<close>

lemma aligned_pointer:
  fixes p :: "'a::len word"
  assumes "take_bit k p = 0"
  shows "push_bit k (drop_bit k p) = p"
proof (intro bit_eqI)
  fix n
  have low: "\<not> bit p i" if "i < k" for i
    using that assms by (metis bit_0_eq bot_apply bot_bool_def bit_take_bit_iff)
  show "bit (push_bit k (drop_bit k p)) n = bit p n"
  proof (cases "n < k")
    case True
    then show ?thesis using low by (simp add: bit_push_bit_iff)
  next
    case False
    then show ?thesis by (auto simp: bit_push_bit_iff bit_drop_bit_eq dest: bit_imp_le_length)
  qed
qed

lemma pointer_stored:
  fixes p :: "'a::len word"
  assumes "take_bit k p = 0" "LENGTH('a) \<le> w + k"
  shows "push_bit k (take_bit w (drop_bit k p)) = p"
proof -
  have "bit p (k + n) \<Longrightarrow> n < w" for n
    using assms(2) by (drule_tac bit_imp_le_length) simp
  then have "take_bit w (drop_bit k p) = drop_bit k p"
    by (intro bit_eqI) (auto simp: bit_take_bit_iff bit_drop_bit_eq)
  then show ?thesis using aligned_pointer [OF assms(1)] by simp
qed

end
