(* ===== verification/Usb_Memory.thy ===== *)
theory Usb_Memory imports Prelude begin

text \<open>
  \<^verbatim>\<open>Kernel/usb/memory.cpp\<close>, \<^verbatim>\<open>memory.hpp\<close>: the memory the USB driver hands to the host
  controller. It is a bump allocator over a static pool: \<open>alloc_ptr\<close> only grows and freeing does
  nothing. Addresses are 64-bit words, as the code computes with them. The address of the pool is
  the linker's and is an argument.
\<close>

(*@ Kernel/usb/memory.hpp:13-13 kMemoryPoolSize *)
definition kMemoryPoolSize :: u64 where
  "kMemoryPoolSize = 4096 * 32"

text \<open>The alignment is an \<^verbatim>\<open>unsigned int\<close>: the subtraction is made at 32 bits and then widened.\<close>

(*@ Kernel/usb/memory.cpp:6-9 Ceil *)
definition Ceil :: "u64 \<Rightarrow> u32 \<Rightarrow> u64" where
  "Ceil v alignment = (v + ucast alignment - 1) AND NOT (ucast (alignment - 1))"

(*@ Kernel/usb/memory.cpp:21-40 AllocMem *)
definition alloc_mem :: "u64 \<Rightarrow> u64 \<Rightarrow> u64 \<Rightarrow> u32 \<Rightarrow> u32 \<Rightarrow> u64 option \<times> u64" where
  "alloc_mem memory_pool alloc_ptr siz alignment boundary =
    (let alloc_ptr = (if alignment > 0 then Ceil alloc_ptr alignment else alloc_ptr);
         alloc_ptr =
           (if boundary > 0 then
              let next_boundary = Ceil alloc_ptr boundary
              in if next_boundary < alloc_ptr + siz then next_boundary else alloc_ptr
            else alloc_ptr)
     in if memory_pool + kMemoryPoolSize < alloc_ptr + siz then (None, alloc_ptr)
        else (Some alloc_ptr, alloc_ptr + siz))"

text \<open>An array of objects of \<open>siz\<close> bytes each.\<close>

(*@ Kernel/usb/memory.hpp:28-32 AllocArray *)
definition alloc_array :: "u64 \<Rightarrow> u64 \<Rightarrow> u64 \<Rightarrow> u64 \<Rightarrow> u32 \<Rightarrow> u32 \<Rightarrow> u64 option \<times> u64" where
  "alloc_array memory_pool alloc_ptr siz num_obj alignment boundary =
    alloc_mem memory_pool alloc_ptr (siz * num_obj) alignment boundary"

section \<open>Rounding up to a power of two\<close>

lemma and_not_mask_unat:
  fixes x :: "'a::len word"
  shows "unat (x AND NOT (mask k)) = unat x div 2 ^ k * 2 ^ k"
proof -
  have "x AND NOT (mask k) = push_bit k (drop_bit k x)"
    by (intro bit_eqI)
      (auto simp: bit_and_iff bit_not_iff bit_mask_iff bit_push_bit_iff bit_drop_bit_eq
        dest: bit_imp_le_length)
  moreover have "unat x div 2 ^ k * 2 ^ k < 2 ^ LENGTH('a)"
    using unsigned_less [of x, where ?'a = nat] by (rule le_less_trans [rotated]) simp
  moreover have "unat (push_bit k (drop_bit k x)) = take_bit LENGTH('a) (unat x div 2 ^ k * 2 ^ k)"
    by (simp only: unsigned_push_bit_eq unsigned_drop_bit_eq) (simp add: push_bit_eq_mult drop_bit_eq_div take_bit_nat_eq_self unsigned_less)
  ultimately show ?thesis by (simp add: take_bit_nat_eq_self)
qed

lemma unat_mask_word: "unat (mask k :: 'a::len word) = 2 ^ min LENGTH('a) k - 1"
proof -
  have "unat (mask k :: 'a word) = nat (mask (min LENGTH('a) k))"
    by (simp only: unat_eq_nat_uint uint_mask_eq)
  then show ?thesis by (simp only: nat_mask_eq) (simp add: mask_eq_exp_minus_1)
qed

text \<open>The next multiple of \<open>m\<close>.\<close>

definition round_up :: "nat \<Rightarrow> nat \<Rightarrow> nat" where
  "round_up m x = (x + m - 1) div m * m"

lemma round_up_bounds:
  assumes "0 < m"
  shows "x \<le> round_up m x" "round_up m x < x + m" "m dvd round_up m x"
proof -
  have eq: "round_up m x = x + m - 1 - (x + m - 1) mod m"
    by (simp add: round_up_def minus_mod_eq_div_mult [symmetric])
  have "(x + m - 1) mod m < m" using assms by simp
  with eq assms show "x \<le> round_up m x" "round_up m x < x + m" by linarith+
  show "m dvd round_up m x" by (simp add: round_up_def)
qed

lemma round_up_least:
  assumes "0 < m" "m dvd y" "x \<le> y"
  shows "round_up m x \<le> y"
proof -
  obtain q where q: "y = q * m" using assms(2) by (metis dvd_def mult.commute)
  have "(x + m - 1) div m < Suc q"
    using assms(1,3) q by (simp add: div_less_iff_less_mult)
  then show ?thesis by (simp add: round_up_def q)
qed

lemma Ceil_round_up:
  assumes "unat v + 2 ^ k \<le> 2 ^ 64" "k < 32"
  shows "unat (Ceil v (2 ^ k)) = round_up (2 ^ k) (unat v)"
proof -
  have k64: "k < 64" using assms(2) by simp
  have m: "(2::u32) ^ k - 1 = mask k" by (simp add: mask_eq_exp_minus_1)
  have um: "(ucast (mask k :: u32) :: u64) = mask k"
    using assms(2) by (intro bit_eqI) (auto simp: bit_unsigned_iff bit_mask_iff)
  have up: "(ucast ((2::u32) ^ k) :: u64) = 2 ^ k"
    using assms(2) by (intro bit_eqI) (auto simp: bit_unsigned_iff bit_exp_iff)
  have vm: "v + 2 ^ k - 1 = v + mask k" by (simp add: mask_eq_decr_exp)
  have mk: "unat (mask k :: u64) = 2 ^ k - 1"
    using k64 by (simp add: unat_mask_word min_def)
  have "unat (v + mask k) = unat v + 2 ^ k - 1"
    using assms(1) mk by (simp only: unat_plus_if') simp
  then show ?thesis
    by (simp only: Ceil_def m um up vm and_not_mask_unat round_up_def)
qed

section \<open>What a block satisfies\<close>

lemma round_up_same: "0 < m \<Longrightarrow> m dvd x \<Longrightarrow> round_up m x = x"
  using round_up_bounds [of m x] round_up_least [of m x x] by simp

text \<open>A block that does not reach beyond the next multiple of the boundary lies between two
  neighbouring multiples.\<close>

lemma below_next_multiple:
  fixes p n b :: nat
  assumes "0 < b" "0 < n" "p + n \<le> round_up b p \<or> b dvd p \<and> n \<le> b"
  shows "p div b = (p + n - 1) div b"
proof -
  have "p + n - 1 < (p div b + 1) * b"
  proof (cases "b dvd p")
    case True
    then have "p = p div b * b" by simp
    moreover have "n \<le> b" using assms True round_up_same [of b p] by auto
    ultimately show ?thesis using assms(2) by (simp add: algebra_simps)
  next
    case False
    then have "p + n \<le> round_up b p" using assms(3) by simp
    moreover have "round_up b p \<le> (p div b + 1) * b"
    proof (rule round_up_least)
      have "p < (p div b + 1) * b" using assms(1) by (metis Suc_eq_plus1 dividend_less_div_times mult_Suc add.commute)
      then show "p \<le> (p div b + 1) * b" by simp
    qed (use assms(1) in auto)
    ultimately show ?thesis using assms(2) by linarith
  qed
  moreover have "p div b * b \<le> p + n - 1" using assms(2) div_times_less_eq_dividend [of p b] by linarith
  ultimately have "(p + n - 1) div b = p div b"
    by (intro div_nat_eqI) (simp_all add: algebra_simps)
  then show ?thesis by simp
qed

text \<open>A block \<open>AllocMem\<close> returns starts at a multiple of the asked alignment, does not cross a
  multiple of the boundary, lies between the old allocation pointer and the end of the pool, and
  the allocation pointer ends up right behind it, so blocks never overlap. Alignment and boundary
  are powers of two below \<open>2 ^ 32\<close>, the alignment is not above the boundary, the size is not above
  the boundary, and the pool does not end at the top of the address space.\<close>

theorem alloc_mem_block:
  assumes "alloc_mem memory_pool alloc_ptr siz (2 ^ a) (2 ^ b) = (Some p, alloc_ptr')"
    and "a \<le> b" "b < 32" "unat siz \<le> 2 ^ b" "0 < siz"
    and "unat memory_pool \<le> unat alloc_ptr" "unat alloc_ptr \<le> unat memory_pool + 131072"
    and "unat memory_pool + 131072 + 4 * 2 ^ b \<le> 2 ^ 64"
  shows "2 ^ a dvd unat p
       \<and> unat p div 2 ^ b = (unat p + unat siz - 1) div 2 ^ b
       \<and> unat alloc_ptr \<le> unat p \<and> unat p + unat siz \<le> unat memory_pool + 131072
       \<and> unat alloc_ptr' = unat p + unat siz"
proof -
  have a32: "a < 32" and ab: "(2::nat) ^ a \<le> 2 ^ b" "(2::nat) ^ a dvd 2 ^ b"
    using assms(2,3) by (auto simp: le_imp_power_dvd)
  have nz: "(2::u32) ^ a > 0" "(2::u32) ^ b > 0"
    using a32 assms(3) by (simp_all add: word_gt_0)
  define q where "q = Ceil alloc_ptr (2 ^ a)"
  define n where "n = Ceil q (2 ^ b)"
  have uq: "unat q = round_up (2 ^ a) (unat alloc_ptr)"
    unfolding q_def by (rule Ceil_round_up) (use assms(7,8) a32 ab(1) in linarith)+
  have qb: "unat alloc_ptr \<le> unat q" "unat q < unat alloc_ptr + 2 ^ a" "2 ^ a dvd unat q"
    using round_up_bounds [of "2 ^ a" "unat alloc_ptr"] uq by auto
  have un: "unat n = round_up (2 ^ b) (unat q)"
    unfolding n_def by (rule Ceil_round_up) (use assms(3,7,8) qb(2) ab(1) in linarith)+
  have nb: "unat q \<le> unat n" "unat n < unat q + 2 ^ b" "2 ^ b dvd unat n"
    using round_up_bounds [of "2 ^ b" "unat q"] un by auto
  define s where "s = (if n < q + siz then n else q)"
  have sum: "unat (q + siz) = unat q + unat siz"
  proof -
    have "unat q + unat siz < 2 ^ 64" using qb(2) assms(4,7,8) ab(1) by linarith
    then show ?thesis by (simp add: unat_plus_if')
  qed
  have "unat q < unat alloc_ptr + 2 * 2 ^ b" "unat n < unat alloc_ptr + 2 * 2 ^ b"
    using qb(2) nb(2) ab(1) by linarith+
  then have s3: "unat s < unat alloc_ptr + 2 * 2 ^ b" by (simp add: s_def)
  have s: "2 ^ a dvd unat s" "unat alloc_ptr \<le> unat s" "unat s < unat alloc_ptr + 2 * 2 ^ b"
    "unat s + unat siz \<le> round_up (2 ^ b) (unat s) \<or> 2 ^ b dvd unat s \<and> unat siz \<le> 2 ^ b"
    using s3 qb nb ab assms(4) un sum dvd_trans [OF ab(2) nb(3)]
    by (auto simp: s_def word_less_nat_alt)
  have ends: "unat (s + siz) = unat s + unat siz" "unat (memory_pool + kMemoryPoolSize) = unat memory_pool + 131072"
  proof -
    have "unat s + unat siz < 2 ^ 64" using s(3) assms(4,7,8) by linarith
    moreover have "unat memory_pool + 131072 < 2 ^ 64"
      using assms(8) zero_less_power [of "2::nat" b] by linarith
    ultimately show "unat (s + siz) = unat s + unat siz"
      "unat (memory_pool + kMemoryPoolSize) = unat memory_pool + 131072"
      by (simp_all add: unat_plus_if' kMemoryPoolSize_def)
  qed
  have "alloc_mem memory_pool alloc_ptr siz (2 ^ a) (2 ^ b) =
      (if memory_pool + kMemoryPoolSize < s + siz then (None, s) else (Some s, s + siz))"
    using nz by (simp add: alloc_mem_def Let_def q_def n_def s_def)
  with assms(1) have "p = s" "alloc_ptr' = s + siz" "\<not> memory_pool + kMemoryPoolSize < s + siz"
    by (auto split: if_splits)
  moreover have "unat s div 2 ^ b = (unat s + unat siz - 1) div 2 ^ b"
    by (rule below_next_multiple) (use s assms(5) in \<open>auto simp: word_gt_0 unat_gt_0\<close>)
  ultimately show ?thesis using s ends by (simp add: word_less_nat_alt)
qed

theorem alloc_mem_block_witness:
  "alloc_mem 0x100000 0x100010 512 64 4096 = (Some 0x100040, 0x100240)
   \<and> (2::nat) ^ 6 dvd unat (0x100040 :: u64)"
proof -
  have run: "alloc_mem 0x100000 0x100010 512 (2 ^ 6) (2 ^ 12) = (Some 0x100040, 0x100240)"
    by (simp add: alloc_mem_def Ceil_def kMemoryPoolSize_def)
  show ?thesis using alloc_mem_block [OF run] run by simp
qed

end
