(* ===== verification/Xhci_Register.thy ===== *)
theory Xhci_Register imports Bit_Layout begin

text \<open>
  \<^verbatim>\<open>Kernel/register.hpp\<close>, \<^verbatim>\<open>Kernel/usb/xhci/registers.hpp\<close>, \<^verbatim>\<open>registers.cpp\<close>: the memory-mapped
  registers of the xHCI host controller. Each bitmap of the source is a layout over the word that
  is read or written; a structure of registers is a layout as well, which gives the offset of each
  register. Register accesses are explicit: the value a read returns is the device's answer to the
  writes made so far (an argument of the model), and writes are recorded in order. Busy waits are
  partial functions, so that a device that never answers is the result \<^verbatim>\<open>None\<close>.
\<close>

section \<open>Access\<close>

text \<open>The device: the value it returns for a register, given the writes it has got, the number of
  reads before this one, and the register's address.\<close>

type_synonym device_regs = "(u64 \<times> u64) list \<Rightarrow> nat \<Rightarrow> u64 \<Rightarrow> u64"

record io =
  io_writes :: "(u64 \<times> u64) list"
  io_reads :: nat

(*@ Kernel/register.hpp:17-23 MemMapRegister::Read *)
definition reg_read :: "device_regs \<Rightarrow> u64 \<Rightarrow> io \<Rightarrow> u64 \<times> io" where
  "reg_read hw a s = (hw (io_writes s) (io_reads s) a, s\<lparr>io_reads := Suc (io_reads s)\<rparr>)"

(*@ Kernel/register.hpp:25-29 MemMapRegister::Write *)
definition reg_write :: "u64 \<Rightarrow> u64 \<Rightarrow> io \<Rightarrow> io" where
  "reg_write a v s = s\<lparr>io_writes := io_writes s @ [(a, v)]\<rparr>"

text \<open>The loops \<^verbatim>\<open>while (reg.Read().bits.x);\<close>.\<close>

partial_function (option) read_while ::
  "device_regs \<Rightarrow> (u64 \<Rightarrow> bool) \<Rightarrow> u64 \<Rightarrow> io \<Rightarrow> (u64 \<times> io) option" where
  "read_while hw P a s =
    (let (v, s) = reg_read hw a s in if P v then read_while hw P a s else Some (v, s))"

text \<open>The address of a register in a structure of registers.\<close>

definition reg_at :: "u64 \<Rightarrow> layout \<Rightarrow> string \<Rightarrow> u64" where
  "reg_at base L n = (case member_pos L n 0 of Some (off, w) \<Rightarrow> base + of_nat (off div 8) | None \<Rightarrow> base)"

(*@ Kernel/register.hpp:65-65 ArrayWrapper::operator[] *)
definition array_at :: "u64 \<Rightarrow> layout \<Rightarrow> u64 \<Rightarrow> u64" where
  "array_at base L index = base + of_nat (layout_bits L div 8) * index"

section \<open>Bitmaps\<close>

(*@ Kernel/usb/xhci/registers.hpp:12-19 HCSPARAMS1_Bitmap *)
definition HCSPARAMS1_Bitmap :: layout where
  "HCSPARAMS1_Bitmap =
    [(''max_device_slots'', 8), (''max_interrupters'', 11), ('''', 5), (''max_ports'', 8)]"

(*@ Kernel/usb/xhci/registers.hpp:22-31 HCSPARAMS2_Bitmap *)
definition HCSPARAMS2_Bitmap :: layout where
  "HCSPARAMS2_Bitmap =
    [(''isochronous_scheduling_threshold'', 4), (''event_ring_segment_table_max'', 4), ('''', 13),
     (''max_scratchpad_buffers_high'', 5), (''scratchpad_restore'', 1),
     (''max_scratchpad_buffers_low'', 5)]"

(*@ Kernel/usb/xhci/registers.hpp:34-40 HCSPARAMS3_Bitmap *)
definition HCSPARAMS3_Bitmap :: layout where
  "HCSPARAMS3_Bitmap =
    [(''u1_device_eixt_latency'', 8), ('''', 8), (''u2_device_eixt_latency'', 16)]"

(*@ Kernel/usb/xhci/registers.hpp:43-60 HCCPARAMS1_Bitmap *)
definition HCCPARAMS1_Bitmap :: layout where
  "HCCPARAMS1_Bitmap =
    [(''addressing_capability_64'', 1), (''bw_negotiation_capability'', 1), (''context_size'', 1),
     (''port_power_control'', 1), (''port_indicators'', 1), (''light_hc_reset_capability'', 1),
     (''latency_tolerance_messaging_capability'', 1), (''no_secondary_sid_support'', 1),
     (''parse_all_event_data'', 1), (''stopped_short_packet_capability'', 1),
     (''stopped_edtla_capability'', 1), (''contiguous_frame_id_capability'', 1),
     (''maximum_primary_stream_array_size'', 4), (''xhci_extended_capabilities_pointer'', 16)]"

(*@ Kernel/usb/xhci/registers.hpp:63-68 DBOFF_Bitmap *)
definition DBOFF_Bitmap :: layout where
  "DBOFF_Bitmap =
    [('''', 2), (''doorbell_array_offset'', 30)]"

(*@ Kernel/usb/xhci/registers.hpp:73-78 RTSOFF_Bitmap *)
definition RTSOFF_Bitmap :: layout where
  "RTSOFF_Bitmap =
    [('''', 5), (''runtime_register_space_offset'', 27)]"

(*@ Kernel/usb/xhci/registers.hpp:83-93 HCCPARAMS2_Bitmap *)
definition HCCPARAMS2_Bitmap :: layout where
  "HCCPARAMS2_Bitmap =
    [(''u3_entry_capability'', 1),
     (''configure_endpoint_command_max_exit_latency_too_large_capability'', 1),
     (''force_save_context_capability'', 1), (''compliance_transition_capability'', 1),
     (''large_esit_payload_capability'', 1), (''configuration_information_capability'', 1),
     ('''', 26)]"

(*@ Kernel/usb/xhci/registers.hpp:109-125 USBCMD_Bitmap *)
definition USBCMD_Bitmap :: layout where
  "USBCMD_Bitmap =
    [(''run_stop'', 1), (''host_controller_reset'', 1), (''interrupter_enable'', 1),
     (''host_system_error_enable'', 1), ('''', 3), (''lignt_host_controller_reset'', 1),
     (''controller_save_state'', 1), (''controller_restore_state'', 1),
     (''enable_wrap_event'', 1), (''enable_u3_mfindex_stop'', 1),
     (''stopped_short_packet_enable'', 1), (''cem_enable'', 1), ('''', 18)]"

(*@ Kernel/usb/xhci/registers.hpp:128-143 USBSTS_Bitmap *)
definition USBSTS_Bitmap :: layout where
  "USBSTS_Bitmap =
    [(''host_controller_halted'', 1), ('''', 1), (''host_system_error'', 1),
     (''event_interrupt'', 1), (''port_change_detect'', 1), ('''', 3), (''save_state_status'', 1),
     (''restore_state_status'', 1), (''save_restore_error'', 1), (''controller_not_ready'', 1),
     (''host_controller_error'', 1), ('''', 19)]"

(*@ Kernel/usb/xhci/registers.hpp:146-155 CRCR_Bitmap *)
definition CRCR_Bitmap :: layout where
  "CRCR_Bitmap =
    [(''ring_cycle_state'', 1), (''command_stop'', 1), (''command_abort'', 1),
     (''command_ring_running'', 1), ('''', 2), (''command_ring_pointer'', 58)]"

(*@ Kernel/usb/xhci/registers.hpp:168-173 DCBAAP_Bitmap *)
definition DCBAAP_Bitmap :: layout where
  "DCBAAP_Bitmap =
    [('''', 6), (''device_context_base_address_array_pointer'', 26)]"

(*@ Kernel/usb/xhci/registers.hpp:184-191 CONFIG_Bitmap *)
definition CONFIG_Bitmap :: layout where
  "CONFIG_Bitmap =
    [(''max_device_slots_enabled'', 8), (''u3_entry_enable'', 1),
     (''configuration_information_enable'', 1), ('''', 22)]"

(*@ Kernel/usb/xhci/registers.hpp:206-233 PORTSC_Bitmap *)
definition PORTSC_Bitmap :: layout where
  "PORTSC_Bitmap =
    [(''current_connect_status'', 1), (''port_enabled_disabled'', 1), ('''', 1),
     (''over_current_active'', 1), (''port_reset'', 1), (''port_link_state'', 4),
     (''port_power'', 1), (''port_speed'', 4), (''port_indicator_control'', 2),
     (''port_link_state_write_strobe'', 1), (''connect_status_change'', 1),
     (''port_enabled_disabled_change'', 1), (''warm_port_reset_change'', 1),
     (''over_current_change'', 1), (''port_reset_change'', 1), (''port_link_state_change'', 1),
     (''port_config_error_change'', 1), (''cold_attach_status'', 1),
     (''wake_on_connect_enable'', 1), (''wake_on_disconnect_enable'', 1),
     (''wake_on_over_current_enable'', 1), ('''', 2), (''device_removable'', 1),
     (''warm_port_reset'', 1)]"

(*@ Kernel/usb/xhci/registers.hpp:236-243 PORTPMSC_Bitmap *)
definition PORTPMSC_Bitmap :: layout where
  "PORTPMSC_Bitmap =
    [(''u1_timeout'', 8), (''u2_timeout'', 8), (''force_link_pm_accept'', 1), ('''', 15)]"

(*@ Kernel/usb/xhci/registers.hpp:246-253 PORTLI_Bitmap *)
definition PORTLI_Bitmap :: layout where
  "PORTLI_Bitmap =
    [(''link_error_count'', 16), (''rx_lane_count'', 4), (''tx_lane_count'', 4), ('''', 8)]"

(*@ Kernel/usb/xhci/registers.hpp:256-263 PORTHLPMC_Bitmap *)
definition PORTHLPMC_Bitmap :: layout where
  "PORTHLPMC_Bitmap =
    [(''host_initiated_resume_duration_mode'', 2), (''l1_timeout'', 8),
     (''best_effort_service_latency_deep'', 4), ('''', 18)]"

(*@ Kernel/usb/xhci/registers.hpp:275-281 IMAN_Bitmap *)
definition IMAN_Bitmap :: layout where
  "IMAN_Bitmap =
    [(''interrupt_pending'', 1), (''interrupt_enable'', 1), ('''', 30)]"

(*@ Kernel/usb/xhci/registers.hpp:284-289 IMOD_Bitmap *)
definition IMOD_Bitmap :: layout where
  "IMOD_Bitmap =
    [(''interrupt_moderation_interval'', 16), (''interrupt_moderation_counter'', 16)]"

(*@ Kernel/usb/xhci/registers.hpp:292-297 ERSTSZ_Bitmap *)
definition ERSTSZ_Bitmap :: layout where
  "ERSTSZ_Bitmap =
    [(''event_ring_segment_table_size'', 16), ('''', 16)]"

(*@ Kernel/usb/xhci/registers.hpp:308-313 ERSTBA_Bitmap *)
definition ERSTBA_Bitmap :: layout where
  "ERSTBA_Bitmap =
    [('''', 6), (''event_ring_segment_table_base_address'', 58)]"

(*@ Kernel/usb/xhci/registers.hpp:324-330 ERDP_Bitmap *)
definition ERDP_Bitmap :: layout where
  "ERDP_Bitmap =
    [(''dequeue_erst_segment_index'', 3), (''event_handler_busy'', 1),
     (''event_ring_dequeue_pointer'', 60)]"

(*@ Kernel/usb/xhci/registers.hpp:352-358 Doorbell_Bitmap *)
definition Doorbell_Bitmap :: layout where
  "Doorbell_Bitmap =
    [(''db_target'', 8), ('''', 8), (''db_stream_id'', 16)]"

(*@ Kernel/usb/xhci/registers.hpp:376-382 ExtendedRegister_Bitmap *)
definition ExtendedRegister_Bitmap :: layout where
  "ExtendedRegister_Bitmap =
    [(''capability_id'', 8), (''next_pointer'', 8), (''value'', 16)]"

(*@ Kernel/usb/xhci/registers.hpp:412-421 USBLEGSUP_Bitmap *)
definition USBLEGSUP_Bitmap :: layout where
  "USBLEGSUP_Bitmap =
    [(''capability_id'', 8), (''next_pointer'', 8), (''hc_bios_owned_semaphore'', 1), ('''', 7),
     (''hc_os_owned_semaphore'', 1), ('''', 7)]"

section \<open>Structures of registers\<close>

(*@ Kernel/usb/xhci/registers.hpp:96-107 CapabilityRegisters *)
definition CapabilityRegisters :: layout where
  "CapabilityRegisters =
    [(''CAPLENGTH'', 8), (''reserved1'', 8), (''HCIVERSION'', 16), (''HCSPARAMS1'', 32),
     (''HCSPARAMS2'', 32), (''HCSPARAMS3'', 32), (''HCCPARAMS1'', 32), (''DBOFF'', 32),
     (''RTSOFF'', 32), (''HCCPARAMS2'', 32)]"

(*@ Kernel/usb/xhci/registers.hpp:194-204 OperationalRegisters *)
definition OperationalRegisters :: layout where
  "OperationalRegisters =
    [(''USBCMD'', 32), (''USBSTS'', 32), (''PAGESIZE'', 32), (''reserved1'', 64), (''DNCTRL'', 32),
     (''CRCR'', 64), (''reserved2'', 128), (''DCBAAP'', 64), (''CONFIG'', 32)]"

(*@ Kernel/usb/xhci/registers.hpp:266-271 PortRegisterSet *)
definition PortRegisterSet :: layout where
  "PortRegisterSet = [(''PORTSC'', 32), (''PORTPMSC'', 32), (''PORTLI'', 32), (''PORTHLPMC'', 32)]"

(*@ Kernel/usb/xhci/registers.hpp:341-348 InterrupterRegisterSet *)
definition InterrupterRegisterSet :: layout where
  "InterrupterRegisterSet =
    [(''IMAN'', 32), (''IMOD'', 32), (''ERSTSZ'', 32), (''reserved'', 32), (''ERSTBA'', 64),
     (''ERDP'', 64)]"

section \<open>Pointers and offsets kept in bitmaps\<close>

(*@ Kernel/usb/xhci/registers.hpp:70-70 DBOFF_Bitmap::Offset *)
definition DBOFF_Offset :: "u64 \<Rightarrow> u64" where
  "DBOFF_Offset v = push_bit 2 (get_member DBOFF_Bitmap ''doorbell_array_offset'' v)"

(*@ Kernel/usb/xhci/registers.hpp:80-80 RTSOFF_Bitmap::Offset *)
definition RTSOFF_Offset :: "u64 \<Rightarrow> u64" where
  "RTSOFF_Offset v = push_bit 5 (get_member RTSOFF_Bitmap ''runtime_register_space_offset'' v)"

(*@ Kernel/usb/xhci/registers.hpp:157-160 CRCR_Bitmap::Pointer *)
definition CRCR_Pointer :: "u64 \<Rightarrow> u64" where
  "CRCR_Pointer v = push_bit 6 (get_member CRCR_Bitmap ''command_ring_pointer'' v)"

(*@ Kernel/usb/xhci/registers.hpp:162-165 CRCR_Bitmap::SetPointer *)
definition CRCR_SetPointer :: "u64 \<Rightarrow> u64 \<Rightarrow> u64" where
  "CRCR_SetPointer p = put_member CRCR_Bitmap ''command_ring_pointer'' (drop_bit 6 p)"

(*@ Kernel/usb/xhci/registers.hpp:175-177 DCBAAP_Bitmap::Pointer *)
definition DCBAAP_Pointer :: "u64 \<Rightarrow> u64" where
  "DCBAAP_Pointer v =
    push_bit 6 (get_member DCBAAP_Bitmap ''device_context_base_address_array_pointer'' v)"

(*@ Kernel/usb/xhci/registers.hpp:179-181 DCBAAP_Bitmap::SetPointer *)
definition DCBAAP_SetPointer :: "u64 \<Rightarrow> u64 \<Rightarrow> u64" where
  "DCBAAP_SetPointer p =
    put_member DCBAAP_Bitmap ''device_context_base_address_array_pointer'' (drop_bit 6 p)"

(*@ Kernel/usb/xhci/registers.hpp:299-301 ERSTSZ_Bitmap::Size *)
definition ERSTSZ_Size :: "u64 \<Rightarrow> u64" where
  "ERSTSZ_Size v = get_member ERSTSZ_Bitmap ''event_ring_segment_table_size'' v"

(*@ Kernel/usb/xhci/registers.hpp:303-305 ERSTSZ_Bitmap::SetSize *)
definition ERSTSZ_SetSize :: "u64 \<Rightarrow> u64 \<Rightarrow> u64" where
  "ERSTSZ_SetSize n = put_member ERSTSZ_Bitmap ''event_ring_segment_table_size'' n"

(*@ Kernel/usb/xhci/registers.hpp:315-317 ERSTBA_Bitmap::Pointer *)
definition ERSTBA_Pointer :: "u64 \<Rightarrow> u64" where
  "ERSTBA_Pointer v =
    push_bit 6 (get_member ERSTBA_Bitmap ''event_ring_segment_table_base_address'' v)"

(*@ Kernel/usb/xhci/registers.hpp:319-321 ERSTBA_Bitmap::SetPointer *)
definition ERSTBA_SetPointer :: "u64 \<Rightarrow> u64 \<Rightarrow> u64" where
  "ERSTBA_SetPointer p =
    put_member ERSTBA_Bitmap ''event_ring_segment_table_base_address'' (drop_bit 6 p)"

(*@ Kernel/usb/xhci/registers.hpp:332-334 ERDP_Bitmap::Pointer *)
definition ERDP_Pointer :: "u64 \<Rightarrow> u64" where
  "ERDP_Pointer v = push_bit 4 (get_member ERDP_Bitmap ''event_ring_dequeue_pointer'' v)"

(*@ Kernel/usb/xhci/registers.hpp:336-338 ERDP_Bitmap::SetPointer *)
definition ERDP_SetPointer :: "u64 \<Rightarrow> u64 \<Rightarrow> u64" where
  "ERDP_SetPointer p = put_member ERDP_Bitmap ''event_ring_dequeue_pointer'' (drop_bit 4 p)"

(*@ Kernel/usb/xhci/registers.hpp:365-370 DoorbellRegister::Ring *)
definition ring_doorbell :: "u64 \<Rightarrow> u8 \<Rightarrow> u16 \<Rightarrow> io \<Rightarrow> io" where
  "ring_doorbell reg target stream_id s =
    reg_write reg
      (put_member Doorbell_Bitmap ''db_stream_id'' (ucast stream_id)
        (put_member Doorbell_Bitmap ''db_target'' (ucast target) 0)) s"

section \<open>Extended capabilities\<close>

text \<open>Pointers to extended registers count 32-bit words; a zero displacement ends the list.\<close>

(*@ Kernel/usb/xhci/registers.cpp:5-7 AddOrNull *)
definition AddOrNull :: "u64 \<Rightarrow> u64 \<Rightarrow> u64" where
  "AddOrNull p d = (if d = 0 then 0 else p + 4 * d)"

(*@ Kernel/usb/xhci/registers.cpp:11-17 ExtendedRegisterList::Iterator::operator++ *)
definition ext_next :: "device_regs \<Rightarrow> u64 \<Rightarrow> io \<Rightarrow> u64 \<times> io" where
  "ext_next hw reg s =
    (if reg = 0 then (0, s)
     else let (v, s) = reg_read hw reg s
          in (AddOrNull reg (get_member ExtendedRegister_Bitmap ''next_pointer'' v), s))"

(*@ Kernel/usb/xhci/registers.cpp:19-22 ExtendedRegisterList *)
definition ext_first :: "u64 \<Rightarrow> u64 \<Rightarrow> u64" where
  "ext_first mmio_base hccp =
    AddOrNull mmio_base (get_member HCCPARAMS1_Bitmap ''xhci_extended_capabilities_pointer'' hccp)"

section \<open>Registers read back what was written\<close>

lemma read_while_now:
  "\<not> P (hw (io_writes s) (io_reads s) a) \<Longrightarrow>
    read_while hw P a s = Some (hw (io_writes s) (io_reads s) a, s\<lparr>io_reads := Suc (io_reads s)\<rparr>)"
  by (subst read_while.simps) (simp add: reg_read_def)

text \<open>A busy wait ends exactly when the device answers some read with a value that lets it end; it
  has read until the first such answer and written nothing.\<close>

lemma read_while_ends:
  assumes "\<not> P (hw (io_writes s) (io_reads s + n) a)"
  shows "\<exists>k \<le> n. read_while hw P a s =
      Some (hw (io_writes s) (io_reads s + k) a, s\<lparr>io_reads := Suc (io_reads s + k)\<rparr>)
    \<and> \<not> P (hw (io_writes s) (io_reads s + k) a)"
  using assms
proof (induction n arbitrary: s)
  case 0
  then show ?case using read_while_now [of P hw s a] by auto
next
  case (Suc n)
  show ?case
  proof (cases "P (hw (io_writes s) (io_reads s) a)")
    case False
    then show ?thesis using read_while_now [of P hw s a] by (intro exI [of _ 0]) simp
  next
    case True
    let ?s = "s\<lparr>io_reads := Suc (io_reads s)\<rparr>"
    have "\<not> P (hw (io_writes ?s) (io_reads ?s + n) a)" using Suc.prems by simp
    from Suc.IH [OF this] obtain k where "k \<le> n" and
      k: "read_while hw P a ?s = Some (hw (io_writes s) (Suc (io_reads s) + k) a,
        s\<lparr>io_reads := Suc (Suc (io_reads s) + k)\<rparr>) \<and> \<not> P (hw (io_writes s) (Suc (io_reads s) + k) a)"
      by auto
    have "read_while hw P a s = read_while hw P a ?s"
      using True by (subst read_while.simps) (simp add: reg_read_def)
    then show ?thesis using k \<open>k \<le> n\<close> by (intro exI [of _ "Suc k"]) simp
  qed
qed

lemma read_while_value:
  assumes "read_while hw P a s = Some y"
  shows "\<not> P (fst y) \<and> io_writes (snd y) = io_writes s"
proof -
  let ?Q = "\<lambda>x y. \<not> snd (fst (fst x)) (fst y) \<and> io_writes (snd y) = io_writes (snd x)"
  have "?Q (((hw, P), a), s) y"
    by (rule read_while.raw_induct [where Pa = ?Q, OF _ assms])
      (fastforce simp: reg_read_def split: if_splits)
  then show ?thesis by simp
qed

lemma ERDP_Pointer_SetPointer:
  assumes "take_bit 4 p = 0"
  shows "ERDP_Pointer (ERDP_SetPointer p v) = p"
proof -
  have "get_member ERDP_Bitmap ''event_ring_dequeue_pointer'' (ERDP_SetPointer p v) =
      take_bit 60 (drop_bit 4 p)"
    unfolding ERDP_SetPointer_def
    by (subst get_put_member) (simp_all add: ERDP_Bitmap_def member_width_def)
  then show ?thesis using pointer_stored [of 4 p 60] assms by (simp add: ERDP_Pointer_def)
qed

end
