(* ===== verification/Usb_Trb.thy ===== *)
theory Usb_Trb imports Bit_Layout begin

text \<open>
  \<^verbatim>\<open>Kernel/usb/xhci/trb.hpp\<close>, \<^verbatim>\<open>trb.cpp\<close>: transfer request blocks, the 16-byte records the driver
  and the xHCI host controller exchange. Every TRB union of the source is a layout of its bit
  fields over one 128-bit word; the array \<^verbatim>\<open>data\<close> of the union is its four 32-bit words
  (\<open>get_dword\<close>). The constructors, the pointer members and \<^verbatim>\<open>TRBDynamicCast\<close> are functions on that
  word. The lemmas show that all the unions agree on where the cycle bit and the TRB type are,
  which is what makes the casts and the rings work, and that pointers are read back.
\<close>

type_synonym trb = "128 word"

section \<open>Layouts\<close>

(*@ Kernel/usb/xhci/trb.hpp:17-27 TRB *)
definition TRB_bits :: layout where
  "TRB_bits =
    [(''parameter'', 64), (''status'', 32), (''cycle_bit'', 1), (''evaluate_next_trb'', 1),
     ('''', 8), (''trb_type'', 6), (''control'', 16)]"

(*@ Kernel/usb/xhci/trb.hpp:30-51 NormalTRB *)
definition NormalTRB_bits :: layout where
  "NormalTRB_bits =
    [(''data_buffer_pointer'', 64), (''trb_transfer_length'', 17), (''td_size'', 5),
     (''interrupter_target'', 10), (''cycle_bit'', 1), (''evaluate_next_trb'', 1),
     (''interrupt_on_short_packet'', 1), (''no_snoop'', 1), (''chain_bit'', 1),
     (''interrupt_on_completion'', 1), (''immediate_data'', 1), ('''', 2),
     (''block_event_interrupt'', 1), (''trb_type'', 6), ('''', 16)]"

(*@ Kernel/usb/xhci/trb.hpp:66-93 SetupStageTRB *)
definition SetupStageTRB_bits :: layout where
  "SetupStageTRB_bits =
    [(''request_type'', 8), (''request'', 8), (''value'', 16), (''index'', 16), (''length'', 16),
     (''trb_transfer_length'', 17), ('''', 5), (''interrupter_target'', 10), (''cycle_bit'', 1),
     ('''', 4), (''interrupt_on_completion'', 1), (''immediate_data'', 1), ('''', 3),
     (''trb_type'', 6), (''transfer_type'', 2), ('''', 14)]"

(*@ Kernel/usb/xhci/trb.hpp:102-123 DataStageTRB *)
definition DataStageTRB_bits :: layout where
  "DataStageTRB_bits =
    [(''data_buffer_pointer'', 64), (''trb_transfer_length'', 17), (''td_size'', 5),
     (''interrupter_target'', 10), (''cycle_bit'', 1), (''evaluate_next_trb'', 1),
     (''interrupt_on_short_packet'', 1), (''no_snoop'', 1), (''chain_bit'', 1),
     (''interrupt_on_completion'', 1), (''immediate_data'', 1), ('''', 3), (''trb_type'', 6),
     (''direction'', 1), ('''', 15)]"

(*@ Kernel/usb/xhci/trb.hpp:138-156 StatusStageTRB *)
definition StatusStageTRB_bits :: layout where
  "StatusStageTRB_bits =
    [('''', 64), ('''', 22), (''interrupter_target'', 10), (''cycle_bit'', 1),
     (''evaluate_next_trb'', 1), ('''', 2), (''chain_bit'', 1), (''interrupt_on_completion'', 1),
     ('''', 4), (''trb_type'', 6), (''direction'', 1), ('''', 15)]"

(*@ Kernel/usb/xhci/trb.hpp:163-181 LinkTRB *)
definition LinkTRB_bits :: layout where
  "LinkTRB_bits =
    [('''', 4), (''ring_segment_pointer'', 60), ('''', 22), (''interrupter_target'', 10),
     (''cycle_bit'', 1), (''toggle_cycle'', 1), ('''', 2), (''chain_bit'', 1),
     (''interrupt_on_completion'', 1), ('''', 4), (''trb_type'', 6), ('''', 16)]"

(*@ Kernel/usb/xhci/trb.hpp:197-214 NoOpTRB *)
definition NoOpTRB_bits :: layout where
  "NoOpTRB_bits =
    [('''', 64), ('''', 22), (''interrupter_target'', 10), (''cycle_bit'', 1),
     (''evaluate_next_trb'', 1), ('''', 2), (''chain_bit'', 1), (''interrupt_on_completion'', 1),
     ('''', 4), (''trb_type'', 6), ('''', 16)]"

(*@ Kernel/usb/xhci/trb.hpp:221-236 EnableSlotCommandTRB *)
definition EnableSlotCommandTRB_bits :: layout where
  "EnableSlotCommandTRB_bits =
    [('''', 32), ('''', 32), ('''', 32), (''cycle_bit'', 1), ('''', 9), (''trb_type'', 6),
     (''slot_type'', 5), ('''', 11)]"

(*@ Kernel/usb/xhci/trb.hpp:243-258 AddressDeviceCommandTRB *)
definition AddressDeviceCommandTRB_bits :: layout where
  "AddressDeviceCommandTRB_bits =
    [('''', 4), (''input_context_pointer'', 60), ('''', 32), (''cycle_bit'', 1), ('''', 8),
     (''block_set_address_request'', 1), (''trb_type'', 6), ('''', 8), (''slot_id'', 8)]"

(*@ Kernel/usb/xhci/trb.hpp:275-290 ConfigureEndpointCommandTRB *)
definition ConfigureEndpointCommandTRB_bits :: layout where
  "ConfigureEndpointCommandTRB_bits =
    [('''', 4), (''input_context_pointer'', 60), ('''', 32), (''cycle_bit'', 1), ('''', 8),
     (''deconfigure'', 1), (''trb_type'', 6), ('''', 8), (''slot_id'', 8)]"

(*@ Kernel/usb/xhci/trb.hpp:307-324 StopEndpointCommandTRB *)
definition StopEndpointCommandTRB_bits :: layout where
  "StopEndpointCommandTRB_bits =
    [('''', 32), ('''', 32), ('''', 32), (''cycle_bit'', 1), ('''', 9), (''trb_type'', 6),
     (''endpoint_id'', 5), ('''', 2), (''suspend'', 1), (''slot_id'', 8)]"

(*@ Kernel/usb/xhci/trb.hpp:337-351 NoOpCommandTRB *)
definition NoOpCommandTRB_bits :: layout where
  "NoOpCommandTRB_bits =
    [('''', 32), ('''', 32), ('''', 32), (''cycle_bit'', 1), ('''', 9), (''trb_type'', 6),
     ('''', 16)]"

(*@ Kernel/usb/xhci/trb.hpp:358-375 TransferEventTRB *)
definition TransferEventTRB_bits :: layout where
  "TransferEventTRB_bits =
    [(''trb_pointer'', 64), (''trb_transfer_length'', 24), (''completion_code'', 8),
     (''cycle_bit'', 1), ('''', 1), (''event_data'', 1), ('''', 7), (''trb_type'', 6),
     (''endpoint_id'', 5), ('''', 3), (''slot_id'', 8)]"

(*@ Kernel/usb/xhci/trb.hpp:394-409 CommandCompletionEventTRB *)
definition CommandCompletionEventTRB_bits :: layout where
  "CommandCompletionEventTRB_bits =
    [('''', 4), (''command_trb_pointer'', 60), (''command_completion_parameter'', 24),
     (''completion_code'', 8), (''cycle_bit'', 1), ('''', 9), (''trb_type'', 6), (''vf_id'', 8),
     (''slot_id'', 8)]"

(*@ Kernel/usb/xhci/trb.hpp:424-439 PortStatusChangeEventTRB *)
definition PortStatusChangeEventTRB_bits :: layout where
  "PortStatusChangeEventTRB_bits =
    [('''', 24), (''port_id'', 8), ('''', 32), ('''', 24), (''completion_code'', 8),
     (''cycle_bit'', 1), ('''', 9), (''trb_type'', 6)]"

section \<open>The unions\<close>

text \<open>The target of a \<^verbatim>\<open>TRBDynamicCast\<close> is a template argument in the source; here it is a value.\<close>

datatype trb_union = NormalTRB
  | SetupStageTRB
  | DataStageTRB
  | StatusStageTRB
  | LinkTRB
  | NoOpTRB
  | EnableSlotCommandTRB
  | AddressDeviceCommandTRB
  | ConfigureEndpointCommandTRB
  | StopEndpointCommandTRB
  | NoOpCommandTRB
  | TransferEventTRB
  | CommandCompletionEventTRB
  | PortStatusChangeEventTRB

fun bits_of :: "trb_union \<Rightarrow> layout" where
  "bits_of NormalTRB = NormalTRB_bits"
| "bits_of SetupStageTRB = SetupStageTRB_bits"
| "bits_of DataStageTRB = DataStageTRB_bits"
| "bits_of StatusStageTRB = StatusStageTRB_bits"
| "bits_of LinkTRB = LinkTRB_bits"
| "bits_of NoOpTRB = NoOpTRB_bits"
| "bits_of EnableSlotCommandTRB = EnableSlotCommandTRB_bits"
| "bits_of AddressDeviceCommandTRB = AddressDeviceCommandTRB_bits"
| "bits_of ConfigureEndpointCommandTRB = ConfigureEndpointCommandTRB_bits"
| "bits_of StopEndpointCommandTRB = StopEndpointCommandTRB_bits"
| "bits_of NoOpCommandTRB = NoOpCommandTRB_bits"
| "bits_of TransferEventTRB = TransferEventTRB_bits"
| "bits_of CommandCompletionEventTRB = CommandCompletionEventTRB_bits"
| "bits_of PortStatusChangeEventTRB = PortStatusChangeEventTRB_bits"

fun trb_type :: "trb_union \<Rightarrow> nat" where
  "trb_type NormalTRB = 1"
| "trb_type SetupStageTRB = 2"
| "trb_type DataStageTRB = 3"
| "trb_type StatusStageTRB = 4"
| "trb_type LinkTRB = 6"
| "trb_type NoOpTRB = 8"
| "trb_type EnableSlotCommandTRB = 9"
| "trb_type AddressDeviceCommandTRB = 11"
| "trb_type ConfigureEndpointCommandTRB = 12"
| "trb_type StopEndpointCommandTRB = 15"
| "trb_type NoOpCommandTRB = 23"
| "trb_type TransferEventTRB = 32"
| "trb_type CommandCompletionEventTRB = 33"
| "trb_type PortStatusChangeEventTRB = 34"

definition get_trb :: "trb_union \<Rightarrow> string \<Rightarrow> trb \<Rightarrow> trb" where
  "get_trb u n t = get_member (bits_of u) n t"

definition put_trb :: "trb_union \<Rightarrow> string \<Rightarrow> trb \<Rightarrow> trb \<Rightarrow> trb" where
  "put_trb u n v t = put_member (bits_of u) n v t"

(*@ Kernel/usb/xhci/trb.hpp:452-458 TRBDynamicCast *)
definition TRBDynamicCast :: "trb_union \<Rightarrow> trb \<Rightarrow> trb option" where
  "TRBDynamicCast to_type t =
    (if of_nat (trb_type to_type) = get_member TRB_bits ''trb_type'' t then Some t else None)"

section \<open>Constructors and pointer members\<close>

text \<open>Every constructor clears the 16 bytes and stores the type.\<close>

definition blank_trb :: "trb_union \<Rightarrow> trb" where
  "blank_trb u = put_trb u ''trb_type'' (of_nat (trb_type u)) 0"

(*@ Kernel/usb/xhci/trb.hpp:53-55 NormalTRB::NormalTRB *)
definition new_NormalTRB :: trb where
  "new_NormalTRB = blank_trb NormalTRB"

(*@ Kernel/usb/xhci/trb.hpp:57-59 NormalTRB::Pointer *)
definition NormalTRB_Pointer :: "trb \<Rightarrow> u64" where
  "NormalTRB_Pointer t = ucast (get_trb NormalTRB ''data_buffer_pointer'' t)"

(*@ Kernel/usb/xhci/trb.hpp:61-63 NormalTRB::SetPointer *)
definition NormalTRB_SetPointer :: "u64 \<Rightarrow> trb \<Rightarrow> trb" where
  "NormalTRB_SetPointer p = put_trb NormalTRB ''data_buffer_pointer'' (ucast p)"

(*@ Kernel/usb/xhci/trb.hpp:95-99 SetupStageTRB::SetupStageTRB *)
definition new_SetupStageTRB :: trb where
  "new_SetupStageTRB =
    put_trb SetupStageTRB ''trb_transfer_length'' 8
      (put_trb SetupStageTRB ''immediate_data'' 1 (blank_trb SetupStageTRB))"

(*@ Kernel/usb/xhci/trb.hpp:125-127 DataStageTRB::DataStageTRB *)
definition new_DataStageTRB :: trb where
  "new_DataStageTRB = blank_trb DataStageTRB"

(*@ Kernel/usb/xhci/trb.hpp:129-131 DataStageTRB::Pointer *)
definition DataStageTRB_Pointer :: "trb \<Rightarrow> u64" where
  "DataStageTRB_Pointer t = ucast (get_trb DataStageTRB ''data_buffer_pointer'' t)"

(*@ Kernel/usb/xhci/trb.hpp:133-135 DataStageTRB::SetPointer *)
definition DataStageTRB_SetPointer :: "u64 \<Rightarrow> trb \<Rightarrow> trb" where
  "DataStageTRB_SetPointer p = put_trb DataStageTRB ''data_buffer_pointer'' (ucast p)"

(*@ Kernel/usb/xhci/trb.hpp:158-160 StatusStageTRB::StatusStageTRB *)
definition new_StatusStageTRB :: trb where
  "new_StatusStageTRB = blank_trb StatusStageTRB"

(*@ Kernel/usb/xhci/trb.hpp:192-194 LinkTRB::SetPointer *)
definition LinkTRB_SetPointer :: "u64 \<Rightarrow> trb \<Rightarrow> trb" where
  "LinkTRB_SetPointer p = put_trb LinkTRB ''ring_segment_pointer'' (ucast (drop_bit 4 p))"

(*@ Kernel/usb/xhci/trb.hpp:188-190 LinkTRB::Pointer *)
definition LinkTRB_Pointer :: "trb \<Rightarrow> u64" where
  "LinkTRB_Pointer t = push_bit 4 (ucast (get_trb LinkTRB ''ring_segment_pointer'' t))"

(*@ Kernel/usb/xhci/trb.hpp:183-186 LinkTRB::LinkTRB *)
definition new_LinkTRB :: "u64 \<Rightarrow> trb" where
  "new_LinkTRB p = LinkTRB_SetPointer p (blank_trb LinkTRB)"

(*@ Kernel/usb/xhci/trb.hpp:216-218 NoOpTRB::NoOpTRB *)
definition new_NoOpTRB :: trb where
  "new_NoOpTRB = blank_trb NoOpTRB"

(*@ Kernel/usb/xhci/trb.hpp:238-240 EnableSlotCommandTRB::EnableSlotCommandTRB *)
definition new_EnableSlotCommandTRB :: trb where
  "new_EnableSlotCommandTRB = blank_trb EnableSlotCommandTRB"

text \<open>The two commands that carry an input context store its pointer in the same way.\<close>

definition set_input_context :: "trb_union \<Rightarrow> u64 \<Rightarrow> trb \<Rightarrow> trb" where
  "set_input_context u p = put_trb u ''input_context_pointer'' (ucast (drop_bit 4 p))"

definition get_input_context :: "trb_union \<Rightarrow> trb \<Rightarrow> u64" where
  "get_input_context u t = push_bit 4 (ucast (get_trb u ''input_context_pointer'' t))"

(*@ Kernel/usb/xhci/trb.hpp:260-272 AddressDeviceCommandTRB *)
definition new_AddressDeviceCommandTRB :: "u64 \<Rightarrow> u8 \<Rightarrow> trb" where
  "new_AddressDeviceCommandTRB input_context slot_id =
    set_input_context AddressDeviceCommandTRB input_context
      (put_trb AddressDeviceCommandTRB ''slot_id'' (ucast slot_id)
        (blank_trb AddressDeviceCommandTRB))"

(*@ Kernel/usb/xhci/trb.hpp:292-304 ConfigureEndpointCommandTRB *)
definition new_ConfigureEndpointCommandTRB :: "u64 \<Rightarrow> u8 \<Rightarrow> trb" where
  "new_ConfigureEndpointCommandTRB input_context slot_id =
    set_input_context ConfigureEndpointCommandTRB input_context
      (put_trb ConfigureEndpointCommandTRB ''slot_id'' (ucast slot_id)
        (blank_trb ConfigureEndpointCommandTRB))"

(*@ Kernel/usb/xhci/trb.hpp:326-330 StopEndpointCommandTRB::StopEndpointCommandTRB *)
definition new_StopEndpointCommandTRB :: "int \<Rightarrow> u8 \<Rightarrow> trb" where
  "new_StopEndpointCommandTRB endpoint_address slot_id =
    put_trb StopEndpointCommandTRB ''slot_id'' (ucast slot_id)
      (put_trb StopEndpointCommandTRB ''endpoint_id'' (of_int endpoint_address)
        (blank_trb StopEndpointCommandTRB))"

(*@ Kernel/usb/xhci/trb.hpp:353-355 NoOpCommandTRB::NoOpCommandTRB *)
definition new_NoOpCommandTRB :: trb where
  "new_NoOpCommandTRB = blank_trb NoOpCommandTRB"

(*@ Kernel/usb/xhci/trb.hpp:377-379 TransferEventTRB::TransferEventTRB *)
definition new_TransferEventTRB :: trb where
  "new_TransferEventTRB = blank_trb TransferEventTRB"

(*@ Kernel/usb/xhci/trb.hpp:381-383 TransferEventTRB::Pointer *)
definition TransferEventTRB_Pointer :: "trb \<Rightarrow> u64" where
  "TransferEventTRB_Pointer t = ucast (get_trb TransferEventTRB ''trb_pointer'' t)"

(*@ Kernel/usb/xhci/trb.hpp:385-387 TransferEventTRB::SetPointer *)
definition TransferEventTRB_SetPointer :: "u64 \<Rightarrow> trb \<Rightarrow> trb" where
  "TransferEventTRB_SetPointer p = put_trb TransferEventTRB ''trb_pointer'' (ucast p)"

(*@ Kernel/usb/xhci/trb.hpp:389-391 TransferEventTRB::EndpointID *)
definition TransferEventTRB_EndpointID :: "trb \<Rightarrow> int" where
  "TransferEventTRB_EndpointID t = uint (get_trb TransferEventTRB ''endpoint_id'' t)"

(*@ Kernel/usb/xhci/trb.hpp:411-413 CommandCompletionEventTRB::CommandCompletionEventTRB *)
definition new_CommandCompletionEventTRB :: trb where
  "new_CommandCompletionEventTRB = blank_trb CommandCompletionEventTRB"

(*@ Kernel/usb/xhci/trb.hpp:415-417 CommandCompletionEventTRB::Pointer *)
definition CommandCompletionEventTRB_Pointer :: "trb \<Rightarrow> u64" where
  "CommandCompletionEventTRB_Pointer t =
    push_bit 4 (ucast (get_trb CommandCompletionEventTRB ''command_trb_pointer'' t))"

(*@ Kernel/usb/xhci/trb.hpp:419-421 CommandCompletionEventTRB::SetPointer *)
definition CommandCompletionEventTRB_SetPointer :: "u64 \<Rightarrow> trb \<Rightarrow> trb" where
  "CommandCompletionEventTRB_SetPointer p =
    put_trb CommandCompletionEventTRB ''command_trb_pointer'' (ucast (drop_bit 4 p))"

(*@ Kernel/usb/xhci/trb.hpp:441-443 PortStatusChangeEventTRB::PortStatusChangeEventTRB *)
definition new_PortStatusChangeEventTRB :: trb where
  "new_PortStatusChangeEventTRB = blank_trb PortStatusChangeEventTRB"

section \<open>Names for the log\<close>

(*@ Kernel/usb/xhci/trb.cpp:4-42 kTRBCompletionCodeToName *)
definition kTRBCompletionCodeToName :: "string list" where
  "kTRBCompletionCodeToName =
    [''Invalid'', ''Success'', ''Data Buffer Error'', ''Babble Detected Error'',
     ''USB Transaction Error'', ''TRB Error'', ''Stall Error'', ''Resource Error'',
     ''Bandwidth Error'', ''No Slots Available Error'', ''Invalid Stream Type Error'',
     ''Slot Not Enabled Error'', ''Endpoint Not Enabled Error'', ''Short Packet'',
     ''Ring Underrun'', ''Ring Overrun'', ''VF Event Ring Full Error'', ''Parameter Error'',
     ''Bandwidth Overrun Error'', ''Context State Error'', ''No ping Response Error'',
     ''Event Ring Full Error'', ''Incompatible Device Error'', ''Missed Service Error'',
     ''Command Ring Stopped'', ''Command Aborted'', ''Stopped'', ''Stopped - Length Invalid'',
     ''Stopped - Short Packet'', ''Max Exit Latency Too Large Error'', ''Reserved'',
     ''Isoch Buffer Overrun'', ''Event Lost Error'', ''Undefined Error'',
     ''Invalid Stream ID Error'', ''Secondary Bandwidth Error'', ''Split Transaction Error'']"

(*@ Kernel/usb/xhci/trb.cpp:44-109 kTRBTypeToName *)
definition kTRBTypeToName :: "string list" where
  "kTRBTypeToName =
    [''Reserved'', ''Normal'', ''Setup Stage'', ''Data Stage'', ''Status Stage'', ''Isoch'',
     ''Link'', ''EventData'', ''No-Op'', ''Enable Slot Command'', ''Disable Slot Command'',
     ''Address Device Command'', ''Configure Endpoint Command'', ''Evaluate Context Command'',
     ''Reset Endpoint Command'', ''Stop Endpoint Command'', ''Set TR Dequeue Pointer Command'',
     ''Reset Device Command'', ''Force Event Command'', ''Negotiate Bandwidth Command'',
     ''Set Latency Tolerance Value Command'', ''Get Port Bandwidth Command'',
     ''Force Header Command'', ''No Op Command'', ''Reserved'', ''Reserved'', ''Reserved'',
     ''Reserved'', ''Reserved'', ''Reserved'', ''Reserved'', ''Reserved'', ''Transfer Event'',
     ''Command Completion Event'', ''Port Status Change Event'', ''Bandwidth Request Event'',
     ''Doorbell Event'', ''Host Controller Event'', ''Device Notification Event'',
     ''MFINDEX Wrap Event'', ''Reserved'', ''Reserved'', ''Reserved'', ''Reserved'', ''Reserved'',
     ''Reserved'', ''Reserved'', ''Reserved'', ''Vendor Defined'', ''Vendor Defined'',
     ''Vendor Defined'', ''Vendor Defined'', ''Vendor Defined'', ''Vendor Defined'',
     ''Vendor Defined'', ''Vendor Defined'', ''Vendor Defined'', ''Vendor Defined'',
     ''Vendor Defined'', ''Vendor Defined'', ''Vendor Defined'', ''Vendor Defined'',
     ''Vendor Defined'', ''Vendor Defined'']"

section \<open>What the unions have in common\<close>

lemmas trb_layouts =
  TRB_bits_def NormalTRB_bits_def SetupStageTRB_bits_def DataStageTRB_bits_def
  StatusStageTRB_bits_def LinkTRB_bits_def NoOpTRB_bits_def EnableSlotCommandTRB_bits_def
  AddressDeviceCommandTRB_bits_def ConfigureEndpointCommandTRB_bits_def
  StopEndpointCommandTRB_bits_def NoOpCommandTRB_bits_def TransferEventTRB_bits_def
  CommandCompletionEventTRB_bits_def PortStatusChangeEventTRB_bits_def

lemma TRB_cycle_pos: "member_pos TRB_bits ''cycle_bit'' 0 = Some (96, 1)"
  and TRB_type_pos: "member_pos TRB_bits ''trb_type'' 0 = Some (106, 6)"
  by (simp_all add: TRB_bits_def)

lemma cycle_pos: "member_pos (bits_of u) ''cycle_bit'' 0 = Some (96, 1)"
  by (cases u) (simp_all add: trb_layouts)

lemma type_pos: "member_pos (bits_of u) ''trb_type'' 0 = Some (106, 6)"
  by (cases u) (simp_all add: trb_layouts)

lemma bits_of_fit: "layout_bits (bits_of u) \<le> 128"
  by (cases u) (simp_all add: trb_layouts)

lemma bits_of_names: "distinct (member_names (bits_of u))"
  by (cases u) (simp_all add: trb_layouts member_names_def)

lemma trb_type_bound: "trb_type u < 64"
  by (cases u) simp_all

lemma trb_type_inj [simp]: "trb_type u = trb_type v \<longleftrightarrow> u = v"
  by (cases u; cases v) simp_all

lemma of_nat_type_inj [simp]: "(of_nat (trb_type u) :: trb) = of_nat (trb_type v) \<longleftrightarrow> u = v"
proof -
  have "unat (of_nat (trb_type w) :: trb) = trb_type w" for w
    using trb_type_bound [of w] by (simp add: unat_of_nat take_bit_nat_eq_self)
  then show ?thesis by (metis trb_type_inj)
qed

section \<open>Reading what was stored\<close>

lemma get_put_trb [simp]:
  "get_trb u n (put_trb u n v t) = take_bit (member_width (bits_of u) n) v"
  unfolding get_trb_def put_trb_def by (rule get_put_member) (use bits_of_fit in simp)

lemma get_put_trb_other [simp]: "n \<noteq> m \<Longrightarrow> get_trb u n (put_trb u m v t) = get_trb u n t"
  by (simp add: get_trb_def put_trb_def)

lemma get_type_any: "get_trb u ''trb_type'' t = get_member TRB_bits ''trb_type'' t"
  by (simp add: get_trb_def get_member_def type_pos TRB_type_pos)

lemma type_width [simp]: "member_width (bits_of u) ''trb_type'' = 6"
  by (simp add: member_width_def type_pos)

lemma get_blank_type: "get_trb u ''trb_type'' (blank_trb u) = of_nat (trb_type u)"
proof -
  have "take_bit 6 (trb_type u) = trb_type u"
    using trb_type_bound [of u] by (simp add: take_bit_nat_eq_self)
  then have "take_bit 6 (of_nat (trb_type u) :: trb) = of_nat (trb_type u)"
    by (metis of_nat_take_bit)
  then show ?thesis by (simp add: blank_trb_def)
qed

lemma get_blank_other [simp]: "n \<noteq> ''trb_type'' \<Longrightarrow> get_trb u n (blank_trb u) = 0"
  by (simp add: blank_trb_def) (simp add: get_trb_def)

text \<open>A word whose type field says \<open>u\<close>; only the cast to \<open>u\<close> succeeds on it.\<close>

definition is_trb :: "trb_union \<Rightarrow> trb \<Rightarrow> bool" where
  "is_trb u t \<longleftrightarrow> get_trb u ''trb_type'' t = of_nat (trb_type u)"

lemma cast_is_trb: "TRBDynamicCast u t = (if is_trb u t then Some t else None)"
  by (auto simp: TRBDynamicCast_def is_trb_def get_type_any)

lemma is_trb_unique: "is_trb u t \<Longrightarrow> is_trb v t \<longleftrightarrow> u = v"
  by (auto simp: is_trb_def get_type_any)

lemma is_trb_blank [simp]: "is_trb u (blank_trb u)"
  by (simp add: is_trb_def get_blank_type)

lemma is_trb_put [simp]: "n \<noteq> ''trb_type'' \<Longrightarrow> is_trb u (put_trb u n v t) = is_trb u t"
  by (simp add: is_trb_def)

lemmas trb_constructors =
  new_NormalTRB_def new_SetupStageTRB_def new_DataStageTRB_def new_StatusStageTRB_def
  new_LinkTRB_def LinkTRB_SetPointer_def new_NoOpTRB_def new_EnableSlotCommandTRB_def
  new_AddressDeviceCommandTRB_def new_ConfigureEndpointCommandTRB_def set_input_context_def
  new_StopEndpointCommandTRB_def new_NoOpCommandTRB_def new_TransferEventTRB_def
  new_CommandCompletionEventTRB_def new_PortStatusChangeEventTRB_def
  NormalTRB_SetPointer_def DataStageTRB_SetPointer_def TransferEventTRB_SetPointer_def
  CommandCompletionEventTRB_SetPointer_def

text \<open>Widths of the members whose values the proofs need.\<close>

lemma member_widths [simp]:
  "member_width NormalTRB_bits ''data_buffer_pointer'' = 64"
  "member_width DataStageTRB_bits ''data_buffer_pointer'' = 64"
  "member_width TransferEventTRB_bits ''trb_pointer'' = 64"
  "member_width LinkTRB_bits ''ring_segment_pointer'' = 60"
  "member_width AddressDeviceCommandTRB_bits ''input_context_pointer'' = 60"
  "member_width ConfigureEndpointCommandTRB_bits ''input_context_pointer'' = 60"
  "member_width CommandCompletionEventTRB_bits ''command_trb_pointer'' = 60"
  "member_width AddressDeviceCommandTRB_bits ''slot_id'' = 8"
  "member_width ConfigureEndpointCommandTRB_bits ''slot_id'' = 8"
  by (simp_all add: member_width_def trb_layouts)

lemma ucast_take_64 [simp]: "(ucast (take_bit 64 (ucast (p :: u64) :: trb)) :: u64) = p"
  by (intro bit_eqI) (auto simp: bit_unsigned_iff bit_take_bit_iff dest: bit_imp_le_length)

lemma ucast_take_60:
  assumes "take_bit 4 p = 0"
  shows "push_bit 4 (ucast (take_bit 60 (ucast (drop_bit 4 (p :: u64)) :: trb)) :: u64) = p"
proof -
  have "(ucast (take_bit 60 (ucast (drop_bit 4 p) :: trb)) :: u64) = take_bit 60 (drop_bit 4 p)"
    by (intro bit_eqI)
      (auto simp: bit_unsigned_iff bit_take_bit_iff bit_drop_bit_eq dest: bit_imp_le_length)
  then show ?thesis using pointer_stored [of 4 p 60] assms by simp
qed


text \<open>Every pointer a TRB carries is read back as it was stored. Pointers to rings, TRBs and
  contexts are stored without their low four bits, so these have to be aligned to 16 bytes.\<close>

theorem trb_pointers_roundtrip:
  assumes "take_bit 4 a = (0 :: u64)"
  shows "NormalTRB_Pointer (NormalTRB_SetPointer p t) = p
       \<and> DataStageTRB_Pointer (DataStageTRB_SetPointer p t) = p
       \<and> TransferEventTRB_Pointer (TransferEventTRB_SetPointer p t) = p
       \<and> LinkTRB_Pointer (new_LinkTRB a) = a
       \<and> CommandCompletionEventTRB_Pointer (CommandCompletionEventTRB_SetPointer a t) = a
       \<and> get_input_context AddressDeviceCommandTRB (new_AddressDeviceCommandTRB a slot) = a
       \<and> get_input_context ConfigureEndpointCommandTRB (new_ConfigureEndpointCommandTRB a slot) = a"
  using assms
  by (simp add: NormalTRB_Pointer_def DataStageTRB_Pointer_def TransferEventTRB_Pointer_def
      LinkTRB_Pointer_def CommandCompletionEventTRB_Pointer_def get_input_context_def
      trb_constructors ucast_take_60)

theorem trb_pointers_roundtrip_witness:
  "LinkTRB_Pointer (new_LinkTRB 0x7f00040) = 0x7f00040"
proof -
  have "take_bit 4 (0x7f00040 :: u64) = 0" by simp
  from trb_pointers_roundtrip [OF this, of 0 0 0] show ?thesis by simp
qed

end
