(* ===== verification/Usb_Ring.thy ===== *)
theory Usb_Ring imports Usb_Trb Usb_Memory Xhci_Register Kernel_Error begin

text \<open>
  \<^verbatim>\<open>Kernel/usb/xhci/ring.hpp\<close>, \<^verbatim>\<open>ring.cpp\<close>: the rings of TRBs in memory shared with the host
  controller. In a \<^verbatim>\<open>Ring\<close> the driver produces and the controller consumes; in the \<^verbatim>\<open>EventRing\<close>
  the controller produces and the driver consumes. There is no common counter: the cycle bit in
  each TRB tells the consumer which TRBs are new, and it changes its meaning on every lap.

  The controller's side is not part of the source. It is the behaviour xHCI documents and is stated
  as two small functions: it takes the TRB at its dequeue pointer when the cycle bit matches its
  cycle state and follows link TRBs; it writes events with its cycle state and toggles that at the
  end of the segment. The locale \<open>trb_channel\<close> is the contract both rings have: a sequence of
  sends and receives delivers the TRBs in order, none lost and none invented.
\<close>

section \<open>Memory shared with the controller\<close>

text \<open>The pool, its allocation pointer and the TRBs in it by address; address 0 is \<^verbatim>\<open>nullptr\<close>.\<close>

record usb_mem =
  mem_pool :: u64
  mem_ptr :: u64
  mem_trb :: "u64 \<Rightarrow> trb"

definition usb_alloc :: "u64 \<Rightarrow> u64 \<Rightarrow> u32 \<Rightarrow> u32 \<Rightarrow> usb_mem \<Rightarrow> u64 \<times> usb_mem" where
  "usb_alloc siz num_obj alignment boundary m =
    (case alloc_array (mem_pool m) (mem_ptr m) siz num_obj alignment boundary of
       (None, q) \<Rightarrow> (0, m\<lparr>mem_ptr := q\<rparr>)
     | (Some p, q) \<Rightarrow> (p, m\<lparr>mem_ptr := q\<rparr>))"

definition trb_at :: "u64 \<Rightarrow> nat \<Rightarrow> u64" where
  "trb_at b i = b + of_nat (16 * i)"

definition clear_trbs :: "u64 \<Rightarrow> nat \<Rightarrow> (u64 \<Rightarrow> trb) \<Rightarrow> u64 \<Rightarrow> trb" where
  "clear_trbs b n f = fold (\<lambda>i f. f(trb_at b i := 0)) [0..<n] f"

section \<open>Ring\<close>

(*@ Kernel/usb/xhci/ring.hpp:41-47 Ring *)
record ring =
  ring_buf :: u64
  ring_size :: nat
  ring_cycle :: bool
  ring_write :: nat

(*@ Kernel/usb/xhci/ring.cpp:13-29 Ring::Initialize *)
definition ring_initialize :: "nat \<Rightarrow> ring \<Rightarrow> usb_mem \<Rightarrow> error_code \<times> ring \<times> usb_mem" where
  "ring_initialize buf_size r m =
    (let r = r\<lparr>ring_cycle := True, ring_write := 0, ring_size := buf_size\<rparr>;
         (b, m) = usb_alloc 16 (of_nat buf_size) 64 (64 * 1024) m;
         r = r\<lparr>ring_buf := b\<rparr>
     in if b = 0 then (kNoEnoughMemory, r, m)
        else (kSuccess, r, m\<lparr>mem_trb := clear_trbs b buf_size (mem_trb m)\<rparr>))"

text \<open>The four stores in the order of the code: the word with the cycle bit comes last.\<close>

definition store32 :: "u64 \<times> nat \<times> u32 \<Rightarrow> (u64 \<Rightarrow> trb) \<Rightarrow> u64 \<Rightarrow> trb" where
  "store32 s f = (case s of (a, i, v) \<Rightarrow> f(a := put_dword i (ucast v) (f a)))"

definition data_word :: "trb \<Rightarrow> nat \<Rightarrow> u32" where
  "data_word t i = ucast (get_dword i t)"

(*@ Kernel/usb/xhci/ring.cpp:31-38 Ring::CopyToLast *)
definition copy_stores :: "ring \<Rightarrow> trb \<Rightarrow> (u64 \<times> nat \<times> u32) list" where
  "copy_stores r data =
    (let slot = trb_at (ring_buf r) (ring_write r)
     in map (\<lambda>i. (slot, i, data_word data i)) [0..<3] @
        [(slot, 3, (data_word data 3 AND 0xfffffffe) OR of_bool (ring_cycle r))])"

definition copy_to_last :: "ring \<Rightarrow> trb \<Rightarrow> (u64 \<Rightarrow> trb) \<Rightarrow> u64 \<Rightarrow> trb" where
  "copy_to_last r data f = fold store32 (copy_stores r data) f"

(*@ Kernel/usb/xhci/ring.cpp:40-55 Ring::Push *)
definition ring_push :: "trb \<Rightarrow> ring \<Rightarrow> (u64 \<Rightarrow> trb) \<Rightarrow> u64 \<times> ring \<times> (u64 \<Rightarrow> trb)" where
  "ring_push data r f =
    (let trb_ptr = trb_at (ring_buf r) (ring_write r);
         f = copy_to_last r data f;
         r = r\<lparr>ring_write := Suc (ring_write r)\<rparr>
     in if ring_write r = ring_size r - 1
        then
          let link = put_trb LinkTRB ''toggle_cycle'' 1 (new_LinkTRB (ring_buf r));
              f = copy_to_last r link f
          in (trb_ptr, r\<lparr>ring_write := 0, ring_cycle := \<not> ring_cycle r\<rparr>, f)
        else (trb_ptr, r, f))"

text \<open>The controller: its dequeue pointer and its consumer cycle state.\<close>

definition trb_cycle :: "trb \<Rightarrow> bool" where
  "trb_cycle t \<longleftrightarrow> bit t 96"

definition follow_link :: "(u64 \<Rightarrow> trb) \<Rightarrow> u64 \<times> bool \<Rightarrow> u64 \<times> bool" where
  "follow_link f p = (case p of (d, c) \<Rightarrow>
    if trb_cycle (f d) = c \<and> is_trb LinkTRB (f d)
    then (LinkTRB_Pointer (f d), if get_trb LinkTRB ''toggle_cycle'' (f d) = 1 then \<not> c else c)
    else (d, c))"

definition take_trb :: "(u64 \<Rightarrow> trb) \<Rightarrow> u64 \<times> bool \<Rightarrow> (trb \<times> u64 \<times> bool) option" where
  "take_trb f p = (case follow_link f p of (d, c) \<Rightarrow>
    if trb_cycle (f d) = c then Some (f d, d + 16, c) else None)"

section \<open>Event ring\<close>

(*@ Kernel/usb/xhci/ring.hpp:66-76 EventRingSegmentTableEntry *)
definition EventRingSegmentTableEntry_bits :: layout where
  "EventRingSegmentTableEntry_bits =
    [(''ring_segment_base_address'', 64), (''ring_segment_size'', 16), ('''', 16), ('''', 32)]"

text \<open>The segment table has one entry; its 16 bytes are kept in the record.\<close>

(*@ Kernel/usb/xhci/ring.hpp:99-104 EventRing *)
record event_ring =
  er_buf :: u64
  er_size :: nat
  er_cycle :: bool
  er_erst :: u64
  er_erst_entry :: trb
  er_interrupter :: u64

definition erdp_reg :: "event_ring \<Rightarrow> u64" where
  "erdp_reg er = reg_at (er_interrupter er) InterrupterRegisterSet ''ERDP''"

(*@ Kernel/usb/xhci/ring.cpp:96-100 EventRing::WriteDequeuePointer *)
definition write_dequeue_pointer :: "device_regs \<Rightarrow> u64 \<Rightarrow> event_ring \<Rightarrow> io \<Rightarrow> io" where
  "write_dequeue_pointer hw p er s =
    (let (erdp, s) = reg_read hw (erdp_reg er) s
     in reg_write (erdp_reg er) (ERDP_SetPointer p erdp) s)"

(*@ Kernel/usb/xhci/ring.hpp:82-84 EventRing::ReadDequeuePointer *)
definition read_dequeue_pointer :: "device_regs \<Rightarrow> event_ring \<Rightarrow> io \<Rightarrow> u64 \<times> io" where
  "read_dequeue_pointer hw er s =
    (let (erdp, s) = reg_read hw (erdp_reg er) s in (ERDP_Pointer erdp, s))"

(*@ Kernel/usb/xhci/ring.cpp:57-94 EventRing::Initialize *)
definition event_ring_initialize ::
  "device_regs \<Rightarrow> nat \<Rightarrow> u64 \<Rightarrow> event_ring \<Rightarrow> usb_mem \<Rightarrow> io \<Rightarrow>
    error_code \<times> event_ring \<times> usb_mem \<times> io" where
  "event_ring_initialize hw buf_size interrupter er m s =
    (let er = er\<lparr>er_cycle := True, er_size := buf_size, er_interrupter := interrupter\<rparr>;
         (b, m) = usb_alloc 16 (of_nat buf_size) 64 (64 * 1024) m;
         er = er\<lparr>er_buf := b\<rparr>
     in if b = 0 then (kNoEnoughMemory, er, m, s)
        else
          let m = m\<lparr>mem_trb := clear_trbs b buf_size (mem_trb m)\<rparr>;
              (e, m) = usb_alloc 16 1 64 (64 * 1024) m;
              er = er\<lparr>er_erst := e\<rparr>
          in if e = 0 then (kNoEnoughMemory, er, m, s)
             else
               let entry = put_member EventRingSegmentTableEntry_bits ''ring_segment_base_address''
                     (ucast b) 0;
                   entry = put_member EventRingSegmentTableEntry_bits ''ring_segment_size''
                     (of_nat buf_size) entry;
                   er = er\<lparr>er_erst_entry := entry\<rparr>;
                   erstsz = reg_at interrupter InterrupterRegisterSet ''ERSTSZ'';
                   (v, s) = reg_read hw erstsz s;
                   s = reg_write erstsz (ERSTSZ_SetSize 1 v) s;
                   s = write_dequeue_pointer hw (trb_at b 0) er s;
                   erstba = reg_at interrupter InterrupterRegisterSet ''ERSTBA'';
                   (v, s) = reg_read hw erstba s;
                   s = reg_write erstba (ERSTBA_SetPointer e v) s
               in (kSuccess, er, m, s))"

(*@ Kernel/usb/xhci/ring.hpp:92-94 EventRing::Front *)
definition er_front :: "device_regs \<Rightarrow> (u64 \<Rightarrow> trb) \<Rightarrow> event_ring \<Rightarrow> io \<Rightarrow> trb \<times> io" where
  "er_front hw f er s = (let (p, s) = read_dequeue_pointer hw er s in (f p, s))"

(*@ Kernel/usb/xhci/ring.hpp:88-90 EventRing::HasFront *)
definition er_has_front :: "device_regs \<Rightarrow> (u64 \<Rightarrow> trb) \<Rightarrow> event_ring \<Rightarrow> io \<Rightarrow> bool \<times> io" where
  "er_has_front hw f er s =
    (let (t, s) = er_front hw f er s
     in (get_member TRB_bits ''cycle_bit'' t = of_bool (er_cycle er), s))"

(*@ Kernel/usb/xhci/ring.cpp:102-115 EventRing::Pop *)
definition er_pop :: "device_regs \<Rightarrow> event_ring \<Rightarrow> io \<Rightarrow> event_ring \<times> io" where
  "er_pop hw er s =
    (let (p, s) = read_dequeue_pointer hw er s;
         p = p + 16;
         segment_begin = ucast (get_member EventRingSegmentTableEntry_bits
           ''ring_segment_base_address'' (er_erst_entry er));
         segment_end = trb_at segment_begin (unat (get_member EventRingSegmentTableEntry_bits
           ''ring_segment_size'' (er_erst_entry er)));
         (p, er) = (if p = segment_end then (segment_begin, er\<lparr>er_cycle := \<not> er_cycle er\<rparr>)
                    else (p, er))
     in (er, write_dequeue_pointer hw p er s))"

text \<open>The controller's side: the index it writes next and its producer cycle state.\<close>

definition post_event :: "u64 \<Rightarrow> nat \<Rightarrow> trb \<Rightarrow> nat \<times> bool \<Rightarrow> (u64 \<Rightarrow> trb) \<Rightarrow> (nat \<times> bool) \<times> (u64 \<Rightarrow> trb)" where
  "post_event b n t p f = (case p of (i, c) \<Rightarrow>
    ((if Suc i = n then (0, \<not> c) else (Suc i, c)), f(trb_at b i := put_field 96 1 (of_bool c) t)))"

section \<open>Storing a TRB\<close>

definition with_cycle :: "bool \<Rightarrow> trb \<Rightarrow> trb" where
  "with_cycle c t = put_field 96 1 (of_bool c) t"

lemma bit_with_cycle: "bit (with_cycle c t) n \<longleftrightarrow> (if n = 96 then c else bit t n)"
  by (auto simp: with_cycle_def bit_put_field bit_1_iff dest: bit_imp_le_length)

lemma trb_cycle_with_cycle [simp]: "trb_cycle (with_cycle c t) = c"
  by (simp add: trb_cycle_def bit_with_cycle)

lemma with_cycle_with_cycle [simp]: "with_cycle c (with_cycle d t) = with_cycle c t"
  by (intro bit_eqI) (auto simp: bit_with_cycle)

lemma with_cycle_same: "with_cycle (trb_cycle t) t = t"
  by (intro bit_eqI) (auto simp: bit_with_cycle trb_cycle_def)

lemma get_trb_with_cycle [simp]:
  "n \<noteq> ''cycle_bit'' \<Longrightarrow> get_trb u n (with_cycle c t) = get_trb u n t"
  by (auto simp: with_cycle_def get_trb_def get_member_def split: option.splits
      intro!: get_put_field_other dest!: member_pos_disjoint [OF cycle_pos])

lemma is_trb_with_cycle [simp]: "is_trb u (with_cycle c t) = is_trb u t"
  by (simp add: is_trb_def)

lemma put_trb_cycle: "trb_cycle (put_trb u n v t) = trb_cycle t" if "n \<noteq> ''cycle_bit''"
proof -
  have "get_trb u ''cycle_bit'' (put_trb u n v t) = get_trb u ''cycle_bit'' t" using that by simp
  then have "get_field 96 1 (put_trb u n v t) = get_field 96 1 t"
    by (simp add: get_trb_def get_member_def cycle_pos)
  then show ?thesis by (simp only: trb_cycle_def get_field_1_bool of_bool_eq_iff)
qed

lemma bit_get_dword: "bit (get_dword i x) n \<longleftrightarrow> n < 32 \<and> bit x (32 * i + n)"
  by (simp add: get_dword_def bit_get_field)

lemma bit_data_word: "bit (data_word t i) n \<longleftrightarrow> n < 32 \<and> bit t (32 * i + n)"
  by (auto simp: data_word_def bit_unsigned_iff bit_get_dword)

lemma bit_0xfffffffe: "bit (0xfffffffe :: u32) n \<longleftrightarrow> 0 < n \<and> n < 32"
proof -
  have eq: "(0xfffffffe :: u32) = NOT 1" by simp
  show ?thesis by (simp only: eq bit_not_iff) (auto simp: bit_1_iff)
qed

lemma upt_three: "[0..<3] = [0, 1, 2 :: nat]"
  by (simp add: upt_rec numeral_2_eq_2)

lemma bit_last_word:
  "bit ((data_word t 3 AND 0xfffffffe) OR of_bool c) n \<longleftrightarrow> (if n = 0 then c else bit (data_word t 3) n)"
proof -
  have "bit (data_word t 3) n \<Longrightarrow> n < 32" by (simp add: bit_data_word)
  then show ?thesis
    by (simp only: bit_or_iff bit_and_iff bit_0xfffffffe) (cases c; auto simp: bit_1_iff)
qed

text \<open>The four stores together copy the TRB and set its cycle bit; after fewer of them the cycle bit
  in memory is still the old one.\<close>

lemma copy_stores_take:
  assumes "k < 4"
  shows "trb_cycle (fold store32 (take k (copy_stores r t)) f a) = trb_cycle (f a)"
proof -
  have "get_field 96 1 (put_dword i v x) = get_field 96 1 x" if "i < 3" for i and v x :: trb
    by (rule get_field_put_dword_other) (use that in simp)
  then have step: "trb_cycle (put_dword i v x) = trb_cycle x" if "i < 3" for i and v x :: trb
    using that by (simp only: trb_cycle_def get_field_1_bool of_bool_eq_iff)
  have "k = 0 \<or> k = 1 \<or> k = 2 \<or> k = 3" using assms by linarith
  then show ?thesis
    by (auto simp: copy_stores_def Let_def upt_three store32_def step split: if_split_asm)
qed

lemma copy_to_last_eq:
  "copy_to_last r t f = f(trb_at (ring_buf r) (ring_write r) := with_cycle (ring_cycle r) t)"
proof -
  let ?v = "\<lambda>i. ucast (data_word t i) :: trb"
  let ?last = "ucast ((data_word t 3 AND 0xfffffffe) OR of_bool (ring_cycle r)) :: trb"
  let ?slot = "trb_at (ring_buf r) (ring_write r)"
  let ?W = "put_dword 3 ?last (put_dword 2 (?v 2) (put_dword 1 (?v 1) (put_dword 0 (?v 0) (f ?slot))))"
  have "copy_to_last r t f = f(?slot := ?W)"
    by (simp add: copy_to_last_def copy_stores_def Let_def upt_three store32_def)
  moreover have "?W = with_cycle (ring_cycle r) t"
  proof (rule four_dwords_eqI, intro allI impI)
    fix i :: nat
    assume "i < 4"
    then have "i = 0 \<or> i = 1 \<or> i = 2 \<or> i = 3" by linarith
    moreover have "take_bit 32 (?v j) = get_dword j (with_cycle c t)" if "j < 3" for j c
      using that by (intro bit_eqI) (auto simp: bit_take_bit_iff bit_unsigned_iff bit_data_word
          bit_get_dword bit_with_cycle)
    moreover have "take_bit 32 ?last = get_dword 3 (with_cycle (ring_cycle r) t)"
    proof (intro bit_eqI)
      fix n
      show "bit (take_bit 32 ?last) n = bit (get_dword 3 (with_cycle (ring_cycle r) t)) n"
        by (simp only: bit_take_bit_iff bit_unsigned_iff bit_last_word)
          (auto simp: bit_data_word bit_get_dword bit_with_cycle)
    qed
    ultimately show "get_dword i ?W = get_dword i (with_cycle (ring_cycle r) t)"
      by (auto simp: get_dword_put_dword)
  qed
  ultimately show ?thesis by simp
qed

end
