(* ===== verification/Trb_Channel.thy ===== *)
theory Trb_Channel imports Usb_Ring begin

text \<open>
  What the rings of \<^verbatim>\<open>Kernel/usb/xhci/ring.cpp\<close> promise: each of them is a channel that delivers
  TRBs in order. The contract is the locale \<open>trb_channel\<close>; it is discharged for the rings the
  driver writes (commands and transfers) and for the event ring the driver reads, with the other
  end being the controller as xHCI documents it.
\<close>

section \<open>Channels\<close>

datatype channel_action = Send trb | Receive

text \<open>A run of sends and receives: the state reached and what was received, in order. A receive
  that finds nothing new receives nothing.\<close>

fun run_channel ::
  "(trb \<Rightarrow> 's \<Rightarrow> 's) \<Rightarrow> ('s \<Rightarrow> (trb \<times> 's) option) \<Rightarrow> channel_action list \<Rightarrow> 's \<Rightarrow> 's \<times> trb list" where
  "run_channel snd' recv [] s = (s, [])"
| "run_channel snd' recv (Send t # as) s = run_channel snd' recv as (snd' t s)"
| "run_channel snd' recv (Receive # as) s = (case recv s of
      None \<Rightarrow> run_channel snd' recv as s
    | Some (t, s') \<Rightarrow> (case run_channel snd' recv as s' of (s'', ts) \<Rightarrow> (s'', t # ts)))"

fun sent :: "channel_action list \<Rightarrow> trb list" where
  "sent [] = []"
| "sent (Send t # as) = t # sent as"
| "sent (Receive # as) = sent as"

text \<open>The sender never has more than \<open>cap\<close> TRBs in flight and sends only allowed ones; \<open>n\<close> are in
  flight at the start.\<close>

fun within :: "nat \<Rightarrow> (trb \<Rightarrow> bool) \<Rightarrow> nat \<Rightarrow> channel_action list \<Rightarrow> bool" where
  "within cap ok n [] = True"
| "within cap ok n (Send t # as) = (n < cap \<and> ok t \<and> within cap ok (Suc n) as)"
| "within cap ok n (Receive # as) = within cap ok (n - 1) as"

text \<open>A TRB without its cycle bit, which is the ring's own.\<close>

definition content :: "trb \<Rightarrow> trb" where
  "content t = with_cycle False t"

lemma content_with_cycle [simp]: "content (with_cycle c t) = content t"
  by (simp add: content_def)

locale trb_channel =
  fixes rel :: "'s \<Rightarrow> trb list \<Rightarrow> bool"
    and snd' :: "trb \<Rightarrow> 's \<Rightarrow> 's"
    and recv :: "'s \<Rightarrow> (trb \<times> 's) option"
    and cap :: nat
    and ok :: "trb \<Rightarrow> bool"
  assumes send: "rel s q \<Longrightarrow> length q < cap \<Longrightarrow> ok t \<Longrightarrow> rel (snd' t s) (q @ [content t])"
    and recv_some: "rel s (c # q) \<Longrightarrow> \<exists>t s'. recv s = Some (t, s') \<and> content t = c \<and> rel s' q"
    and recv_none: "rel s [] \<Longrightarrow> recv s = None"
begin

lemma run_delivers:
  assumes "rel s q" "within cap ok (length q) as"
  shows "\<exists>q'. rel (fst (run_channel snd' recv as s)) q'
       \<and> q @ map content (sent as) = map content (snd (run_channel snd' recv as s)) @ q'"
  using assms
proof (induction as arbitrary: s q)
  case Nil
  then show ?case by auto
next
  case (Cons a as)
  show ?case
  proof (cases a)
    case (Send t)
    then have "rel (snd' t s) (q @ [content t])" using send Cons.prems by simp
    from Cons.IH [OF this] Cons.prems Send show ?thesis by simp
  next
    case Receive
    show ?thesis
    proof (cases q)
      case Nil
      then show ?thesis using Cons.IH [of s "[]"] Cons.prems Receive recv_none [of s] by simp
    next
      case (Cons c q')
      then obtain t s' where ts: "recv s = Some (t, s')" "content t = c" "rel s' q'"
        using recv_some Cons.prems by blast
      from Cons.IH [OF ts(3)] Cons.prems(2) Receive Cons ts show ?thesis
        by (auto split: prod.split)
    qed
  qed
qed

lemma nothing_left: "rel s q \<Longrightarrow> recv s = None \<longleftrightarrow> q = []"
  using recv_none recv_some by (cases q) fastforce+

end

section \<open>Slots of a ring\<close>

lemma trb_at_0 [simp]: "trb_at b 0 = b"
  by (simp add: trb_at_def)

lemma trb_at_Suc: "trb_at b i + 16 = trb_at b (Suc i)"
  by (simp add: trb_at_def algebra_simps)

lemma trb_at_inj:
  assumes "i \<le> 4096" "j \<le> 4096"
  shows "trb_at b i = trb_at b j \<longleftrightarrow> i = j"
proof -
  have "unat (of_nat (16 * k) :: u64) = 16 * k" if "k \<le> 4096" for k
    using that by (simp only: unat_of_nat) (simp add: take_bit_nat_eq_self)
  from this [OF assms(1)] this [OF assms(2)] show ?thesis
    by (simp only: trb_at_def add_left_cancel) (metis mult_left_cancel zero_neq_numeral)
qed

section \<open>Rings the driver writes\<close>

text \<open>The state is the driver's ring, the memory and the controller's position. Slots before the
  write index carry the current cycle bit, the others the opposite one. A controller that still is
  on the previous lap has the link TRB in front of it.\<close>

type_synonym ring_state = "ring \<times> (u64 \<Rightarrow> trb) \<times> u64 \<times> bool"

definition slot :: "ring \<Rightarrow> nat \<Rightarrow> u64" where
  "slot r i = trb_at (ring_buf r) i"

definition ring_ok :: "nat \<Rightarrow> ring \<Rightarrow> (u64 \<Rightarrow> trb) \<Rightarrow> bool" where
  "ring_ok n r f \<longleftrightarrow> 2 \<le> n \<and> n \<le> 4096 \<and> ring_size r = n \<and> take_bit 4 (ring_buf r) = 0
    \<and> ring_write r < n - 1
    \<and> (\<forall>i < n - 1. trb_cycle (f (slot r i)) = (if i < ring_write r then ring_cycle r else \<not> ring_cycle r))
    \<and> trb_cycle (f (slot r (n - 1))) = (\<not> ring_cycle r)"

definition in_flight :: "nat \<Rightarrow> ring \<Rightarrow> nat \<Rightarrow> bool \<Rightarrow> nat list" where
  "in_flight n r d c =
    (if c = ring_cycle r then [d..<ring_write r] else [d..<n - 1] @ [0..<ring_write r])"

definition link_ok :: "nat \<Rightarrow> ring \<Rightarrow> (u64 \<Rightarrow> trb) \<Rightarrow> bool" where
  "link_ok n r f \<longleftrightarrow> is_trb LinkTRB (f (slot r (n - 1)))
    \<and> LinkTRB_Pointer (f (slot r (n - 1))) = ring_buf r
    \<and> get_trb LinkTRB ''toggle_cycle'' (f (slot r (n - 1))) = 1"

definition position_ok :: "nat \<Rightarrow> ring \<Rightarrow> (u64 \<Rightarrow> trb) \<Rightarrow> nat \<Rightarrow> bool \<Rightarrow> bool" where
  "position_ok n r f d c \<longleftrightarrow>
    (if c = ring_cycle r then d \<le> ring_write r
     else ring_write r \<le> d \<and> d \<le> n - 1 \<and> link_ok n r f)"

definition ring_rel :: "nat \<Rightarrow> ring_state \<Rightarrow> trb list \<Rightarrow> bool" where
  "ring_rel n s q \<longleftrightarrow> (case s of (r, f, p, c) \<Rightarrow>
    ring_ok n r f \<and> (\<exists>d. p = slot r d \<and> position_ok n r f d c
      \<and> q = map (\<lambda>i. content (f (slot r i))) (in_flight n r d c)
      \<and> (\<forall>i \<in> set (in_flight n r d c). \<not> is_trb LinkTRB (f (slot r i)))))"

definition ring_send :: "trb \<Rightarrow> ring_state \<Rightarrow> ring_state" where
  "ring_send t s = (case s of (r, f, p) \<Rightarrow> case ring_push t r f of (_, r', f') \<Rightarrow> (r', f', p))"

definition ring_receive :: "ring_state \<Rightarrow> (trb \<times> ring_state) option" where
  "ring_receive s = (case s of (r, f, p) \<Rightarrow>
    map_option (\<lambda>(t, p'). (t, r, f, p')) (take_trb f p))"

definition not_link :: "trb \<Rightarrow> bool" where
  "not_link t \<longleftrightarrow> \<not> is_trb LinkTRB t"

lemma slot_inj: "i \<le> 4096 \<Longrightarrow> j \<le> 4096 \<Longrightarrow> slot r i = slot r j \<longleftrightarrow> i = j"
  by (simp add: slot_def trb_at_inj)

lemma slot_field_update [simp]:
  "slot (ring_write_update g r) = slot r" "slot (ring_cycle_update h r) = slot r"
  by (simp_all add: slot_def fun_eq_iff)

text \<open>Pushing in terms of slots.\<close>

definition ring_link :: "ring \<Rightarrow> trb" where
  "ring_link r = put_trb LinkTRB ''toggle_cycle'' 1 (new_LinkTRB (ring_buf r))"

lemma ring_push_eq:
  "ring_push t r f =
    (let f1 = f(slot r (ring_write r) := with_cycle (ring_cycle r) t)
     in if Suc (ring_write r) = ring_size r - 1
        then (slot r (ring_write r), r\<lparr>ring_write := 0, ring_cycle := \<not> ring_cycle r\<rparr>,
              f1(slot r (ring_size r - 1) := with_cycle (ring_cycle r) (ring_link r)))
        else (slot r (ring_write r), r\<lparr>ring_write := Suc (ring_write r)\<rparr>, f1))"
  by (simp add: ring_push_def Let_def copy_to_last_eq ring_link_def slot_def)

lemma link_width [simp]: "member_width LinkTRB_bits ''toggle_cycle'' = 1"
  by (simp add: member_width_def trb_layouts)

lemma ring_link_fields:
  assumes "take_bit 4 (ring_buf r) = 0"
  shows "is_trb LinkTRB (with_cycle c (ring_link r))"
    "LinkTRB_Pointer (with_cycle c (ring_link r)) = ring_buf r"
    "get_trb LinkTRB ''toggle_cycle'' (with_cycle c (ring_link r)) = 1"
  using assms
  by (simp_all add: ring_link_def new_LinkTRB_def LinkTRB_SetPointer_def LinkTRB_Pointer_def ucast_take_60)

lemma map_slots_update:
  assumes "w \<notin> set is" "\<forall>i \<in> set is. i \<le> 4096" "w \<le> 4096"
  shows "map (\<lambda>i. g ((f(slot r w := t)) (slot r i))) is = map (\<lambda>i. g (f (slot r i))) is"
  using assms by (auto simp: slot_inj)

lemma in_flight_bound:
  assumes "ring_ok n r f" "position_ok n r f d c" "i \<in> set (in_flight n r d c)"
  shows "i < n - 1" "i \<le> 4096" "i \<noteq> ring_write r \<or> c \<noteq> ring_cycle r \<and> ring_write r = d"
  using assms by (auto simp: ring_ok_def position_ok_def in_flight_def split: if_splits)

lemma ring_relI:
  assumes "ring_ok n r f" "position_ok n r f d c"
    and "q = map (\<lambda>i. content (f (slot r i))) (in_flight n r d c)"
    and "\<forall>i \<in> set (in_flight n r d c). \<not> is_trb LinkTRB (f (slot r i))"
  shows "ring_rel n (r, f, slot r d, c) q"
  using assms by (auto simp: ring_rel_def)

text \<open>A push that does not reach the end of the ring.\<close>

lemma ring_send_step:
  assumes rel: "ring_rel n (r, f, p, c) q" and room: "length q < n - 2" and t: "not_link t"
    and step: "Suc (ring_write r) \<noteq> n - 1"
  shows "ring_rel n (ring_send t (r, f, p, c)) (q @ [content t])"
proof -
  let ?w = "ring_write r" and ?r = "r\<lparr>ring_write := Suc (ring_write r)\<rparr>"
  let ?f = "f(slot r ?w := with_cycle (ring_cycle r) t)"
  obtain d where d: "ring_ok n r f" "p = slot r d" "position_ok n r f d c"
      "q = map (\<lambda>i. content (f (slot r i))) (in_flight n r d c)"
      "\<forall>i \<in> set (in_flight n r d c). \<not> is_trb LinkTRB (f (slot r i))"
    using rel by (auto simp: ring_rel_def)
  have n: "2 \<le> n" "n \<le> 4096" "ring_size r = n" "Suc ?w < n - 1"
    using d(1) step by (auto simp: ring_ok_def)
  have run: "ring_send t (r, f, p, c) = (?r, ?f, p, c)"
    using step n(3) by (simp add: ring_send_def ring_push_eq Let_def)
  have gap: "c \<noteq> ring_cycle r \<Longrightarrow> Suc ?w < d"
    using room d(3,4) n by (auto simp: in_flight_def position_ok_def split: if_splits)
  have flight: "in_flight n ?r d c = in_flight n r d c @ [?w]"
    using d(3) gap by (auto simp: in_flight_def position_ok_def)
  have notin: "?w \<notin> set (in_flight n r d c)"
    using d(3) gap by (auto simp: in_flight_def)
  have bound: "\<forall>i \<in> set (in_flight n r d c). i \<le> 4096"
    using in_flight_bound [OF d(1,3)] by blast
  have other: "?f (slot r i) = f (slot r i)" if "i \<noteq> ?w" "i \<le> n" for i
    using that n by (simp add: slot_inj)
  have "ring_ok n ?r ?f"
    using d(1) n other by (auto simp: ring_ok_def less_Suc_eq slot_inj)
  moreover have "position_ok n ?r ?f d c"
  proof (cases "c = ring_cycle r")
    case True
    then show ?thesis using d(3) by (simp add: position_ok_def)
  next
    case False
    have "?f (slot r (n - 1)) = f (slot r (n - 1))" using other [of "n - 1"] n by simp
    then show ?thesis using False d(3) gap by (simp add: position_ok_def link_ok_def)
  qed
  moreover have "q @ [content t] = map (\<lambda>i. content (?f (slot r i))) (in_flight n ?r d c)"
    using map_slots_update [OF notin bound, of content f r "with_cycle (ring_cycle r) t"] n d(4)
    by (simp add: flight)
  moreover have "\<forall>i \<in> set (in_flight n ?r d c). \<not> is_trb LinkTRB (?f (slot r i))"
    using d(5) t notin bound n by (auto simp: flight not_link_def slot_inj)
  ultimately have "ring_rel n (?r, ?f, slot ?r d, c) (q @ [content t])"
    by (intro ring_relI) (simp_all only: slot_field_update)
  then show ?thesis unfolding run using d(2) by simp
qed

text \<open>A push into the last free slot of a lap, which adds the link TRB.\<close>

lemma ring_send_wrap:
  assumes rel: "ring_rel n (r, f, p, c) q" and room: "length q < n - 2" and t: "not_link t"
    and wrap: "Suc (ring_write r) = n - 1"
  shows "ring_rel n (ring_send t (r, f, p, c)) (q @ [content t])"
proof -
  let ?w = "ring_write r" and ?cyc = "ring_cycle r"
  let ?r = "r\<lparr>ring_write := 0, ring_cycle := \<not> ?cyc\<rparr>"
  let ?f1 = "f(slot r ?w := with_cycle ?cyc t)"
  let ?f = "?f1(slot r (n - 1) := with_cycle ?cyc (ring_link r))"
  obtain d where d: "ring_ok n r f" "p = slot r d" "position_ok n r f d c"
      "q = map (\<lambda>i. content (f (slot r i))) (in_flight n r d c)"
      "\<forall>i \<in> set (in_flight n r d c). \<not> is_trb LinkTRB (f (slot r i))"
    using rel by (auto simp: ring_rel_def)
  have n: "2 \<le> n" "n \<le> 4096" "ring_size r = n" "take_bit 4 (ring_buf r) = 0"
    using d(1) by (auto simp: ring_ok_def)
  have run: "ring_send t (r, f, p, c) = (?r, ?f, p, c)"
    using wrap n(3) by (simp add: ring_send_def ring_push_eq Let_def)
  have c: "c = ?cyc" and dw: "d \<le> ?w"
    using room d(3,4) wrap by (auto simp: in_flight_def position_ok_def split: if_splits)
  have flight: "in_flight n ?r d c = in_flight n r d c @ [?w]"
    using wrap [symmetric] c dw by (simp add: in_flight_def)
  have notin: "?w \<notin> set (in_flight n r d c)" "n - 1 \<notin> set (in_flight n r d c)"
    using c wrap by (auto simp: in_flight_def)
  have bound: "\<forall>i \<in> set (in_flight n r d c). i \<le> 4096"
    using in_flight_bound [OF d(1,3)] by blast
  define f' where "f' = ?f"
  have at: "f' (slot r (n - 1)) = with_cycle ?cyc (ring_link r)"
    "f' (slot r ?w) = with_cycle ?cyc t"
    "\<And>i. i \<le> 4096 \<Longrightarrow> i \<noteq> ?w \<Longrightarrow> i \<noteq> n - 1 \<Longrightarrow> f' (slot r i) = f (slot r i)"
    using wrap n by (auto simp: slot_inj f'_def)
  have "ring_ok n ?r f'"
    unfolding ring_ok_def
  proof (intro conjI allI impI)
    fix i
    assume "i < n - 1"
    then show "trb_cycle (f' (slot ?r i)) = (if i < ring_write ?r then ring_cycle ?r else \<not> ring_cycle ?r)"
      using d(1) at n wrap by (cases "i = ?w") (auto simp: ring_ok_def)
  qed (use n at(1) in auto)
  moreover have "position_ok n ?r f' d c"
    using c dw wrap at(1) ring_link_fields [OF n(4)] by (simp add: position_ok_def link_ok_def)
  moreover have same: "f' (slot r i) = f (slot r i)" if "i \<in> set (in_flight n r d c)" for i
    using that notin bound by (intro at(3)) auto
  moreover have "q @ [content t] = map (\<lambda>i. content (f' (slot r i))) (in_flight n ?r d c)"
    using at(2) same d(4) by (auto simp: flight)
  moreover have "\<forall>i \<in> set (in_flight n ?r d c). \<not> is_trb LinkTRB (f' (slot r i))"
    using d(5) t at(2) same by (auto simp: flight not_link_def)
  ultimately have "ring_rel n (?r, f', slot ?r d, c) (q @ [content t])"
    by (intro ring_relI) (simp_all only: slot_field_update)
  then show ?thesis unfolding run f'_def [symmetric] using d(2) by simp
qed

lemma ring_send_rel:
  "ring_rel n s q \<Longrightarrow> length q < n - 2 \<Longrightarrow> not_link t \<Longrightarrow> ring_rel n (ring_send t s) (q @ [content t])"
  using ring_send_step ring_send_wrap by (cases s) blast

text \<open>The controller at a slot of the current lap, of the previous lap, and at the link TRB.\<close>

lemma take_slot:
  assumes "trb_cycle (f (slot r d)) = c" "\<not> is_trb LinkTRB (f (slot r d))"
  shows "take_trb f (slot r d, c) = Some (f (slot r d), slot r (Suc d), c)"
  using assms by (simp add: take_trb_def follow_link_def slot_def trb_at_Suc)

lemma take_nothing:
  assumes "trb_cycle (f (slot r d)) = (\<not> c)"
  shows "take_trb f (slot r d, c) = None"
  using assms by (simp add: take_trb_def follow_link_def)

lemma take_link:
  assumes "ring_ok n r f" "link_ok n r f" "c \<noteq> ring_cycle r"
  shows "take_trb f (slot r (n - 1), c) =
    (if trb_cycle (f (slot r 0)) = ring_cycle r
     then Some (f (slot r 0), slot r 1, ring_cycle r) else None)"
proof -
  have "follow_link f (slot r (n - 1), c) = (slot r 0, ring_cycle r)"
    using assms by (auto simp: follow_link_def ring_ok_def link_ok_def slot_def)
  then show ?thesis using trb_at_Suc [of "ring_buf r" 0] by (simp add: take_trb_def slot_def)
qed

lemma ring_receive_some:
  assumes "ring_rel n s (x # q)"
  shows "\<exists>t s'. ring_receive s = Some (t, s') \<and> content t = x \<and> ring_rel n s' q"
proof -
  obtain r f d c where s: "s = (r, f, slot r d, c)" and ok: "ring_ok n r f" "position_ok n r f d c"
    and q: "x # q = map (\<lambda>i. content (f (slot r i))) (in_flight n r d c)"
    and nl: "\<forall>i \<in> set (in_flight n r d c). \<not> is_trb LinkTRB (f (slot r i))"
    using assms by (auto simp: ring_rel_def)
  have cyc: "\<And>i. i < n - 1 \<Longrightarrow> trb_cycle (f (slot r i)) = (if i < ring_write r then ring_cycle r else \<not> ring_cycle r)"
    and w: "ring_write r < n - 1"
    using ok(1) by (auto simp: ring_ok_def)
  have move: "ring_rel n (r, f, slot r d', c') q"
    if "in_flight n r d c = i # in_flight n r d' c'" "position_ok n r f d' c'" for i d' c'
    by (rule ring_relI) (use that q nl ok(1) in auto)
  consider "c = ring_cycle r" "d < ring_write r" | "c \<noteq> ring_cycle r" "d < n - 1"
    | "c \<noteq> ring_cycle r" "d = n - 1" "0 < ring_write r"
    using ok(2) q by (fastforce simp: position_ok_def in_flight_def split: if_splits)
  then show ?thesis
  proof cases
    case 1
    then have fl: "in_flight n r d c = d # in_flight n r (Suc d) c"
      by (simp add: in_flight_def upt_conv_Cons)
    have "take_trb f (slot r d, c) = Some (f (slot r d), slot r (Suc d), c)"
      by (rule take_slot) (use 1 cyc [of d] w nl fl in auto)
    moreover have "ring_rel n (r, f, slot r (Suc d), c) q"
      by (rule move [OF fl]) (use 1 in \<open>simp add: position_ok_def\<close>)
    ultimately show ?thesis using s q fl by (simp add: ring_receive_def)
  next
    case 2
    then have fl: "in_flight n r d c = d # in_flight n r (Suc d) c"
      by (simp add: in_flight_def upt_conv_Cons)
    have dw: "ring_write r \<le> d" using 2 ok(2) by (simp add: position_ok_def)
    have "take_trb f (slot r d, c) = Some (f (slot r d), slot r (Suc d), c)"
      by (rule take_slot) (use 2 dw cyc [of d] nl fl in auto)
    moreover have "ring_rel n (r, f, slot r (Suc d), c) q"
      by (rule move [OF fl]) (use 2 ok(2) in \<open>simp add: position_ok_def\<close>)
    ultimately show ?thesis using s q fl by (simp add: ring_receive_def)
  next
    case 3
    then have fl: "in_flight n r d c = 0 # in_flight n r 1 (ring_cycle r)"
      by (simp add: in_flight_def upt_conv_Cons)
    have "take_trb f (slot r (n - 1), c) = Some (f (slot r 0), slot r 1, ring_cycle r)"
      using take_link [OF ok(1) _ 3(1)] ok(2) 3 cyc [of 0] w by (simp add: position_ok_def)
    moreover have "ring_rel n (r, f, slot r 1, ring_cycle r) q"
      by (rule move [OF fl]) (use 3 in \<open>simp add: position_ok_def\<close>)
    ultimately show ?thesis using s q fl 3(2) by (simp add: ring_receive_def)
  qed
qed

lemma ring_receive_none:
  assumes "ring_rel n s []"
  shows "ring_receive s = None"
proof -
  obtain r f d c where s: "s = (r, f, slot r d, c)" and ok: "ring_ok n r f" "position_ok n r f d c"
    and fl: "in_flight n r d c = []"
    using assms by (auto simp: ring_rel_def)
  have cyc: "trb_cycle (f (slot r (ring_write r))) = (\<not> ring_cycle r)"
    using ok(1) by (auto simp: ring_ok_def)
  show ?thesis
  proof (cases "c = ring_cycle r")
    case True
    then have "d = ring_write r" using ok(2) fl by (auto simp: position_ok_def in_flight_def)
    then show ?thesis using s True cyc take_nothing by (simp add: ring_receive_def)
  next
    case False
    then have "d = n - 1" "ring_write r = 0" "link_ok n r f"
      using ok(2) fl by (auto simp: position_ok_def in_flight_def)
    then show ?thesis using s cyc take_link [OF ok(1) _ False] by (simp add: ring_receive_def)
  qed
qed

interpretation transfer: trb_channel "ring_rel n" ring_send ring_receive "n - 2" not_link
  for n
  by unfold_locales (blast intro: ring_send_rel ring_receive_some ring_receive_none)+

section \<open>A ring that has just been set up\<close>

lemma clear_trbs_slots:
  assumes "i < n" "n \<le> 4096"
  shows "clear_trbs b n f (trb_at b i) = 0"
proof -
  have "fold (\<lambda>i f. f(trb_at b i := 0)) [0..<n] f (trb_at b i) = 0" if "i < n" for n
    using that by (induction n) (auto simp: less_Suc_eq)
  then show ?thesis using assms by (simp add: clear_trbs_def)
qed

text \<open>The allocator returns the buffers of rings at multiples of 64 bytes.\<close>

lemma Ceil_aligned:
  "take_bit 4 (Ceil v 64) = 0" "take_bit 4 (Ceil v 65536) = 0"
proof -
  have "take_bit 4 (x AND NOT (mask k)) = 0" if "4 \<le> k" for k and x :: u64
    using that by (intro bit_eqI) (auto simp: bit_take_bit_iff bit_and_iff bit_not_iff bit_mask_iff)
  from this [of 6] this [of 16] show "take_bit 4 (Ceil v 64) = 0" "take_bit 4 (Ceil v 65536) = 0"
    by (simp_all add: Ceil_def mask_eq_decr_exp)
qed

lemma usb_alloc_aligned: "take_bit 4 (fst (usb_alloc siz num 64 (64 * 1024) m)) = 0"
  using Ceil_aligned
  by (simp add: usb_alloc_def alloc_array_def alloc_mem_def Let_def split: prod.split option.split)

lemma ring_initialize_rel:
  assumes "ring_initialize n r0 m = (kSuccess, r, m')" "2 \<le> n" "n \<le> 4096"
  shows "ring_rel n (r, mem_trb m', ring_buf r, True) []"
proof -
  have "take_bit 4 (ring_buf r) = 0"
    using assms(1) usb_alloc_aligned [of 16 "of_nat n" m]
    by (auto simp: ring_initialize_def Let_def split: prod.splits if_splits)
  moreover have r: "ring_size r = n" "ring_write r = 0" "ring_cycle r"
    and f: "\<And>i. i < n \<Longrightarrow> mem_trb m' (slot r i) = 0"
    using assms(1,3) by (auto simp: ring_initialize_def Let_def slot_def clear_trbs_slots
        split: prod.splits if_splits)
  ultimately have "ring_rel n (r, mem_trb m', slot r 0, True) []"
    by (intro ring_relI)
      (use r f assms in \<open>auto simp: ring_ok_def position_ok_def in_flight_def trb_cycle_def\<close>)
  then show ?thesis by (simp add: slot_def)
qed

text \<open>C16: A ring of \<open>n\<close> TRBs that \<open>Ring::Initialize\<close> has set up delivers what is pushed into it: after
  any interleaving of pushes by the driver and takes by the controller, with at most \<open>n - 2\<close> TRBs in
  flight, the controller has got exactly the first pushed TRBs in order, with no change but in the
  cycle bit; the rest is still to come, and the controller finds nothing exactly when nothing is
  left. Laps, link TRBs and the toggling of the cycle bit stay invisible.\<close>

theorem ring_delivers_in_order:
  assumes "ring_initialize n r0 m = (kSuccess, r, m')" and "2 \<le> n" "n \<le> 4096"
    and "within (n - 2) not_link 0 as"
    and "run_channel ring_send ring_receive as (r, mem_trb m', ring_buf r, True) = (s, received)"
  shows "\<exists>pending. map content (sent as) = map content received @ pending
       \<and> (ring_receive s = None \<longleftrightarrow> pending = [])"
proof -
  have "ring_rel n (r, mem_trb m', ring_buf r, True) []"
    by (rule ring_initialize_rel [OF assms(1-3)])
  then obtain q where "ring_rel n s q" "map content (sent as) = map content received @ q"
    using transfer.run_delivers [of n _ "[]" as] assms(4,5) by fastforce
  then show ?thesis using transfer.nothing_left by blast
qed

theorem ring_delivers_in_order_witness:
  "\<exists>r m' s received.
    ring_initialize 4 \<lparr>ring_buf = 0, ring_size = 0, ring_cycle = False, ring_write = 0\<rparr>
      \<lparr>mem_pool = 0x100000, mem_ptr = 0x100000, mem_trb = (\<lambda>_. 0)\<rparr> = (kSuccess, r, m')
    \<and> run_channel ring_send ring_receive
        [Send new_NormalTRB, Send new_EnableSlotCommandTRB, Receive, Send new_NoOpCommandTRB,
         Receive, Receive, Send new_NormalTRB, Receive] (r, mem_trb m', ring_buf r, True) = (s, received)
    \<and> (\<exists>pending. map content [new_NormalTRB, new_EnableSlotCommandTRB, new_NoOpCommandTRB, new_NormalTRB] =
        map content received @ pending)"
proof -
  let ?r0 = "\<lparr>ring_buf = 0, ring_size = 0, ring_cycle = False, ring_write = 0\<rparr>"
  let ?m = "\<lparr>mem_pool = 0x100000, mem_ptr = 0x100000, mem_trb = (\<lambda>_. 0)\<rparr>"
  let ?as = "[Send new_NormalTRB, Send new_EnableSlotCommandTRB, Receive, Send new_NoOpCommandTRB,
    Receive, Receive, Send new_NormalTRB, Receive]"
  have "usb_alloc 16 4 64 (64 * 1024) ?m = (0x100000, ?m\<lparr>mem_ptr := 0x100040\<rparr>)"
    by (simp add: usb_alloc_def alloc_array_def alloc_mem_def Ceil_def kMemoryPoolSize_def)
  then obtain r m' where init: "ring_initialize 4 ?r0 ?m = (kSuccess, r, m')"
    by (simp add: ring_initialize_def)
  have fits: "within (4 - 2) not_link 0 ?as"
    by (simp add: not_link_def trb_constructors is_trb_unique [OF is_trb_blank])
  obtain s received where
    run: "run_channel ring_send ring_receive ?as (r, mem_trb m', ring_buf r, True) = (s, received)"
    by fastforce
  from ring_delivers_in_order [OF init _ _ fits run]
  obtain pending where "map content (sent ?as) = map content received @ pending" by auto
  then have "\<exists>pending. map content [new_NormalTRB, new_EnableSlotCommandTRB, new_NoOpCommandTRB, new_NormalTRB] =
      map content received @ pending" by (auto simp del: list.map)
  with init run show ?thesis by blast
qed

section \<open>The event ring\<close>

text \<open>What the code relies on of the dequeue pointer register: it reads back the pointer written last
  (its low four bits are flags of the controller).\<close>

definition last_write :: "u64 \<Rightarrow> (u64 \<times> u64) list \<Rightarrow> u64 option" where
  "last_write a ws = map_of (rev ws) a"

definition erdp_reads_back :: "device_regs \<Rightarrow> u64 \<Rightarrow> bool" where
  "erdp_reads_back hw a \<longleftrightarrow>
    (\<forall>ws k v. last_write a ws = Some v \<longrightarrow> ERDP_Pointer (hw ws k a) = ERDP_Pointer v)"

type_synonym event_state = "event_ring \<times> (u64 \<Rightarrow> trb) \<times> io \<times> nat \<times> bool"

definition event_slot :: "event_ring \<Rightarrow> nat \<Rightarrow> u64" where
  "event_slot er i = trb_at (er_buf er) i"

definition event_ring_ok :: "device_regs \<Rightarrow> nat \<Rightarrow> event_ring \<Rightarrow> bool" where
  "event_ring_ok hw n er \<longleftrightarrow> 1 \<le> n \<and> n \<le> 4096 \<and> er_size er = n \<and> take_bit 4 (er_buf er) = 0
    \<and> ucast (get_member EventRingSegmentTableEntry_bits ''ring_segment_base_address'' (er_erst_entry er)) = er_buf er
    \<and> unat (get_member EventRingSegmentTableEntry_bits ''ring_segment_size'' (er_erst_entry er)) = n
    \<and> erdp_reads_back hw (erdp_reg er)"

definition events_in_flight :: "nat \<Rightarrow> nat \<Rightarrow> bool \<Rightarrow> nat \<Rightarrow> bool \<Rightarrow> nat list" where
  "events_in_flight n d c i pc = (if c = pc then [d..<i] else [d..<n] @ [0..<i])"

definition event_rel :: "device_regs \<Rightarrow> nat \<Rightarrow> event_state \<Rightarrow> trb list \<Rightarrow> bool" where
  "event_rel hw n s q \<longleftrightarrow> (case s of (er, f, io, i, pc) \<Rightarrow>
    event_ring_ok hw n er \<and> i < n
    \<and> (\<forall>j < n. trb_cycle (f (event_slot er j)) = (if j < i then pc else \<not> pc))
    \<and> (\<exists>d < n. map_option ERDP_Pointer (last_write (erdp_reg er) (io_writes io)) = Some (event_slot er d)
      \<and> (if er_cycle er = pc then d \<le> i else i \<le> d)
      \<and> q = map (\<lambda>j. content (f (event_slot er j))) (events_in_flight n d (er_cycle er) i pc)))"

definition event_post :: "trb \<Rightarrow> event_state \<Rightarrow> event_state" where
  "event_post t s = (case s of (er, f, io, p) \<Rightarrow>
    case post_event (er_buf er) (er_size er) t p f of (p', f') \<Rightarrow> (er, f', io, p'))"

text \<open>\<^verbatim>\<open>HasFront\<close>, \<^verbatim>\<open>Front\<close>, \<^verbatim>\<open>Pop\<close>, as \<^verbatim>\<open>ProcessEvent\<close> calls them.\<close>

definition event_take :: "device_regs \<Rightarrow> event_state \<Rightarrow> (trb \<times> event_state) option" where
  "event_take hw s = (case s of (er, f, io, p) \<Rightarrow>
    (let (has, io) = er_has_front hw f er io
     in if has
        then let (t, io) = er_front hw f er io; (er, io) = er_pop hw er io in Some (t, er, f, io, p)
        else None))"

lemma event_slot_inj: "i \<le> 4096 \<Longrightarrow> j \<le> 4096 \<Longrightarrow> event_slot er i = event_slot er j \<longleftrightarrow> i = j"
  by (simp add: event_slot_def trb_at_inj)

lemma trb_at_aligned: "take_bit 4 b = 0 \<Longrightarrow> take_bit 4 (trb_at b i) = 0"
  by (simp add: take_bit_eq_0_iff trb_at_def)

lemma event_cycle_update [simp]:
  "event_slot (er_cycle_update h er) = event_slot er" "erdp_reg (er_cycle_update h er) = erdp_reg er"
  by (simp_all add: event_slot_def erdp_reg_def fun_eq_iff)

lemma event_ring_ok_cycle [simp]: "event_ring_ok hw n (er_cycle_update h er) = event_ring_ok hw n er"
  by (simp add: event_ring_ok_def)

lemma event_post_rel:
  assumes "event_rel hw n s q" "length q < n"
  shows "event_rel hw n (event_post t s) (q @ [content t])"
proof -
  obtain er f io i pc where s: "s = (er, f, io, i, pc)" by (metis prod_cases5)
  let ?f = "f(event_slot er i := with_cycle pc t)" and ?c = "er_cycle er"
  obtain d where ok: "event_ring_ok hw n er" "i < n" "d < n"
    and cyc: "\<forall>j < n. trb_cycle (f (event_slot er j)) = (if j < i then pc else \<not> pc)"
    and p: "map_option ERDP_Pointer (last_write (erdp_reg er) (io_writes io)) = Some (event_slot er d)"
    and pos: "if ?c = pc then d \<le> i else i \<le> d"
    and q: "q = map (\<lambda>j. content (f (event_slot er j))) (events_in_flight n d ?c i pc)"
    using assms(1) s by (auto simp: event_rel_def)
  have n: "n \<le> 4096" "er_size er = n" using ok(1) by (auto simp: event_ring_ok_def)
  let ?p = "if Suc i = n then (0, \<not> pc) else (Suc i, pc)"
  have run: "event_post t s = (er, ?f, io, ?p)"
    using s n by (simp add: event_post_def post_event_def event_slot_def with_cycle_def)
  have gap: "?c \<noteq> pc \<Longrightarrow> i < d"
    using assms(2) pos ok q by (auto simp: events_in_flight_def)
  have other: "?f (event_slot er j) = f (event_slot er j)" if "j < n" "j \<noteq> i" for j
    using that n ok(2) by (simp add: event_slot_inj)
  have flight: "events_in_flight n d ?c (fst ?p) (snd ?p) = events_in_flight n d ?c i pc @ [i]"
    using pos gap ok by (cases pc; cases "er_cycle er") (auto simp: events_in_flight_def)
  have notin: "\<forall>j \<in> set (events_in_flight n d ?c i pc). j \<noteq> i \<and> j < n"
    using pos gap ok by (auto simp: events_in_flight_def)
  have "\<forall>j < n. trb_cycle (?f (event_slot er j)) = (if j < fst ?p then snd ?p else \<not> snd ?p)"
  proof (intro allI impI)
    fix j
    assume "j < n"
    then show "trb_cycle (?f (event_slot er j)) = (if j < fst ?p then snd ?p else \<not> snd ?p)"
      using cyc other [of j] by (cases "j = i") auto
  qed
  moreover have "q @ [content t] = map (\<lambda>j. content (?f (event_slot er j))) (events_in_flight n d ?c (fst ?p) (snd ?p))"
    using q other notin by (simp only: flight) auto
  moreover have "if ?c = snd ?p then d \<le> fst ?p else fst ?p \<le> d"
    using pos gap ok(3) by auto
  moreover have "fst ?p < n" using ok(2) by auto
  ultimately show ?thesis
    unfolding run event_rel_def using ok p
    by (cases ?p) (simp only: prod.case fst_conv snd_conv, blast)
qed

lemma er_segment_end:
  assumes "event_ring_ok hw n er" "d < n"
  shows "event_slot er d + 16 = event_slot er n \<longleftrightarrow> Suc d = n"
  using assms event_slot_inj [of "Suc d" n er]
  by (simp add: event_ring_ok_def event_slot_def trb_at_Suc)

lemma ERDP_reads:
  assumes "erdp_reads_back hw (erdp_reg er)"
    and "map_option ERDP_Pointer (last_write (erdp_reg er) (io_writes io)) = Some p"
  shows "read_dequeue_pointer hw er io = (p, io\<lparr>io_reads := Suc (io_reads io)\<rparr>)"
  using assms by (auto simp: read_dequeue_pointer_def reg_read_def erdp_reads_back_def)

text \<open>\<open>Pop\<close> moves the dequeue pointer to the next slot of the segment.\<close>

lemma er_pop_slot:
  assumes ok: "event_ring_ok hw n er" and "d < n"
    and p: "map_option ERDP_Pointer (last_write (erdp_reg er) (io_writes io)) = Some (event_slot er d)"
  shows "\<exists>io'. er_pop hw er io = ((if Suc d = n then er\<lparr>er_cycle := \<not> er_cycle er\<rparr> else er), io')
    \<and> map_option ERDP_Pointer (last_write (erdp_reg er) (io_writes io')) =
        Some (event_slot er (if Suc d = n then 0 else Suc d))"
proof -
  let ?next = "event_slot er (if Suc d = n then 0 else Suc d)"
  have al: "take_bit 4 ?next = 0"
    using ok by (simp add: event_ring_ok_def event_slot_def trb_at_aligned)
  have ends: "ucast (get_member EventRingSegmentTableEntry_bits ''ring_segment_base_address''
      (er_erst_entry er)) = event_slot er 0"
    "trb_at (event_slot er 0) (unat (get_member EventRingSegmentTableEntry_bits ''ring_segment_size''
      (er_erst_entry er))) = event_slot er n"
    using ok by (simp_all add: event_ring_ok_def event_slot_def)
  have "read_dequeue_pointer hw er io = (event_slot er d, io\<lparr>io_reads := Suc (io_reads io)\<rparr>)"
    by (rule ERDP_reads) (use ok p in \<open>simp_all add: event_ring_ok_def\<close>)
  then have "er_pop hw er io =
      ((if Suc d = n then er\<lparr>er_cycle := \<not> er_cycle er\<rparr> else er),
       write_dequeue_pointer hw ?next (if Suc d = n then er\<lparr>er_cycle := \<not> er_cycle er\<rparr> else er)
         (io\<lparr>io_reads := Suc (io_reads io)\<rparr>))"
    using er_segment_end [OF ok \<open>d < n\<close>]
    by (simp add: er_pop_def ends Let_def) (simp add: event_slot_def trb_at_Suc)
  moreover have "map_option ERDP_Pointer (last_write (erdp_reg er)
      (io_writes (write_dequeue_pointer hw ?next er' io'))) = Some ?next" if "erdp_reg er' = erdp_reg er" for er' io'
    using al that
    by (simp add: write_dequeue_pointer_def reg_read_def reg_write_def last_write_def ERDP_Pointer_SetPointer)
  ultimately show ?thesis by auto
qed

lemma has_front_slot:
  assumes ok: "event_ring_ok hw n er"
    and p: "map_option ERDP_Pointer (last_write (erdp_reg er) (io_writes io)) = Some (event_slot er d)"
  shows "\<exists>io'. er_has_front hw f er io = (trb_cycle (f (event_slot er d)) = er_cycle er, io')
      \<and> io_writes io' = io_writes io"
    and "\<exists>io'. er_front hw f er io = (f (event_slot er d), io') \<and> io_writes io' = io_writes io"
proof -
  have r: "read_dequeue_pointer hw er io = (event_slot er d, io\<lparr>io_reads := Suc (io_reads io)\<rparr>)"
    by (rule ERDP_reads) (use ok p in \<open>simp_all add: event_ring_ok_def\<close>)
  show "\<exists>io'. er_front hw f er io = (f (event_slot er d), io') \<and> io_writes io' = io_writes io"
    by (simp add: er_front_def r)
  have "get_member TRB_bits ''cycle_bit'' t = of_bool (trb_cycle t)" for t
    by (simp add: get_member_def TRB_cycle_pos trb_cycle_def get_field_1_bool [unfolded One_nat_def])
  then show "\<exists>io'. er_has_front hw f er io = (trb_cycle (f (event_slot er d)) = er_cycle er, io')
      \<and> io_writes io' = io_writes io"
    by (simp add: er_has_front_def er_front_def r)
qed

lemma event_take_some:
  assumes "event_rel hw n s (x # q)"
  shows "\<exists>t s'. event_take hw s = Some (t, s') \<and> content t = x \<and> event_rel hw n s' q"
proof -
  obtain er f io i pc where s: "s = (er, f, io, i, pc)" by (metis prod_cases5)
  let ?c = "er_cycle er"
  obtain d where ok: "event_ring_ok hw n er" "i < n" "d < n"
    and cyc: "\<forall>j < n. trb_cycle (f (event_slot er j)) = (if j < i then pc else \<not> pc)"
    and p: "map_option ERDP_Pointer (last_write (erdp_reg er) (io_writes io)) = Some (event_slot er d)"
    and pos: "if ?c = pc then d \<le> i else i \<le> d"
    and q: "x # q = map (\<lambda>j. content (f (event_slot er j))) (events_in_flight n d ?c i pc)"
    using assms(1) s by (auto simp: event_rel_def)
  let ?er = "if Suc d = n then er\<lparr>er_cycle := \<not> ?c\<rparr> else er"
  let ?d = "if Suc d = n then 0 else Suc d"
  have less: "?c = pc \<Longrightarrow> d < i" using q by (cases "d < i") (auto simp: events_in_flight_def)
  have front: "trb_cycle (f (event_slot er d)) = ?c"
    using cyc ok(3) pos less by (cases "?c = pc") auto
  have fl: "events_in_flight n d ?c i pc = d # events_in_flight n ?d (er_cycle ?er) i pc"
    using less pos ok by (cases pc; cases ?c) (auto simp: events_in_flight_def upt_conv_Cons)
  have pos': "if er_cycle ?er = pc then ?d \<le> i else i \<le> ?d"
    using less pos ok by (cases pc; cases ?c) auto
  obtain io1 where io1: "er_has_front hw f er io = (True, io1)" "io_writes io1 = io_writes io"
    using has_front_slot(1) [OF ok(1) p, of f] by (auto simp: front)
  have p1: "map_option ERDP_Pointer (last_write (erdp_reg er) (io_writes io1)) = Some (event_slot er d)"
    using p io1 by simp
  obtain io2 where io2: "er_front hw f er io1 = (f (event_slot er d), io2)" "io_writes io2 = io_writes io1"
    using has_front_slot(2) [OF ok(1) p1] by auto
  have p2: "map_option ERDP_Pointer (last_write (erdp_reg er) (io_writes io2)) = Some (event_slot er d)"
    using p1 io2 by simp
  obtain io3 where io3: "er_pop hw er io2 = (?er, io3)"
    "map_option ERDP_Pointer (last_write (erdp_reg er) (io_writes io3)) = Some (event_slot er ?d)"
    using er_pop_slot [OF ok(1,3) p2] by auto
  have "event_take hw s = Some (f (event_slot er d), ?er, f, io3, i, pc)"
    using s io1 io2 io3 by (simp add: event_take_def)
  moreover have "content (f (event_slot er d)) = x"
    and rest: "q = map (\<lambda>j. content (f (event_slot er j))) (events_in_flight n ?d (er_cycle ?er) i pc)"
    using q by (simp_all only: fl list.map list.inject)
  moreover have "event_slot ?er = event_slot er" "erdp_reg ?er = erdp_reg er" "event_ring_ok hw n ?er"
    using ok(1) by simp_all
  then have "event_rel hw n (?er, f, io3, i, pc) q"
    unfolding event_rel_def prod.case using ok cyc io3(2) pos' rest
    by (intro conjI exI [of _ ?d]) (simp_all only:, simp)
  ultimately show ?thesis by blast
qed

lemma event_take_none:
  assumes "event_rel hw n s []"
  shows "event_take hw s = None"
proof -
  obtain er f io i pc where s: "s = (er, f, io, i, pc)" by (metis prod_cases5)
  obtain d where ok: "event_ring_ok hw n er" "i < n" "d < n"
    and cyc: "\<forall>j < n. trb_cycle (f (event_slot er j)) = (if j < i then pc else \<not> pc)"
    and p: "map_option ERDP_Pointer (last_write (erdp_reg er) (io_writes io)) = Some (event_slot er d)"
    and pos: "if er_cycle er = pc then d \<le> i else i \<le> d"
    and fl: "events_in_flight n d (er_cycle er) i pc = []"
    using assms s by (auto simp: event_rel_def)
  have "er_cycle er = pc" "d = i"
    using fl pos ok by (auto simp: events_in_flight_def split: if_splits)
  then have "trb_cycle (f (event_slot er d)) = (\<not> er_cycle er)" using cyc ok by simp
  then show ?thesis
    using has_front_slot(1) [OF ok(1) p, of f] s by (auto simp: event_take_def)
qed

interpretation events: trb_channel "event_rel hw n" event_post "event_take hw" n "\<lambda>_. True"
  for hw n
  by unfold_locales (blast intro: event_post_rel event_take_some event_take_none)+

lemma event_ring_initialize_rel:
  assumes "event_ring_initialize hw n interrupter er0 m io0 = (kSuccess, er, m', io)"
    and "1 \<le> n" "n \<le> 4096"
    and "erdp_reads_back hw (erdp_reg er)"
  shows "event_rel hw n (er, mem_trb m', io, 0, True) []"
proof -
  obtain b m1 e m2 where al: "usb_alloc 16 (of_nat n) 64 (64 * 1024) m = (b, m1)" "b \<noteq> 0"
      "usb_alloc 16 1 64 (64 * 1024) (m1\<lparr>mem_trb := clear_trbs b n (mem_trb m1)\<rparr>) = (e, m2)" "e \<noteq> 0"
    using assms(1) by (auto simp: event_ring_initialize_def Let_def split: prod.splits if_splits)
  have er: "er_buf er = b" "er_size er = n" "er_cycle er" "er_interrupter er = interrupter"
      "er_erst_entry er = put_member EventRingSegmentTableEntry_bits ''ring_segment_size'' (of_nat n)
        (put_member EventRingSegmentTableEntry_bits ''ring_segment_base_address'' (ucast b) 0)"
    using assms(1) al by (auto simp: event_ring_initialize_def Let_def split: prod.splits)
  have aligned: "take_bit 4 b = 0" using usb_alloc_aligned [of 16 "of_nat n" m] al(1) by simp
  have m': "mem_trb m' = clear_trbs b n (mem_trb m1)"
    using assms(1) al by (auto simp: event_ring_initialize_def Let_def usb_alloc_def split: prod.splits option.splits)
  have regs: "reg_at interrupter InterrupterRegisterSet ''ERSTBA'' \<noteq> erdp_reg er"
    by (simp add: erdp_reg_def er reg_at_def InterrupterRegisterSet_def)
  obtain v w where w: "io_writes io = io_writes io0 @
      [(reg_at interrupter InterrupterRegisterSet ''ERSTSZ'', v), (erdp_reg er, ERDP_SetPointer b w)] @
      [(reg_at interrupter InterrupterRegisterSet ''ERSTBA'', ERSTBA_SetPointer e (hw (io_writes io0 @
        [(reg_at interrupter InterrupterRegisterSet ''ERSTSZ'', v), (erdp_reg er, ERDP_SetPointer b w)])
          (Suc (Suc (io_reads io0))) (reg_at interrupter InterrupterRegisterSet ''ERSTBA'')))]"
    using assms(1) al er(4)
    by (auto simp: event_ring_initialize_def Let_def reg_read_def reg_write_def erdp_reg_def
        write_dequeue_pointer_def split: prod.splits)
  have "map_option ERDP_Pointer (last_write (erdp_reg er) (io_writes io)) = Some (event_slot er 0)"
    using aligned regs by (simp add: w last_write_def event_slot_def er ERDP_Pointer_SetPointer)
  moreover have "event_ring_ok hw n er"
  proof -
    have len: "layout_bits EventRingSegmentTableEntry_bits \<le> LENGTH(128)"
      by (simp add: EventRingSegmentTableEntry_bits_def)
    have wd: "member_width EventRingSegmentTableEntry_bits ''ring_segment_size'' = 16"
      "member_width EventRingSegmentTableEntry_bits ''ring_segment_base_address'' = 64"
      by (simp_all add: EventRingSegmentTableEntry_bits_def member_width_def)
    have "unat (take_bit 16 (of_nat n :: trb)) = n"
      using assms(3) by (simp add: unsigned_take_bit_eq unat_of_nat take_bit_nat_eq_self)
    then show ?thesis
      using assms er aligned
      by (simp add: event_ring_ok_def get_put_member [OF len] wd)
  qed
  moreover have "\<forall>j < n. trb_cycle (mem_trb m' (event_slot er j)) = (if j < 0 then True else \<not> True)"
    using assms(3) by (simp add: m' event_slot_def er clear_trbs_slots trb_cycle_def)
  ultimately show ?thesis
    using assms(2) er(3) unfolding event_rel_def
    by (auto simp: events_in_flight_def intro!: exI [of _ 0])
qed

text \<open>C17: The event ring that \<open>EventRing::Initialize\<close> has set up delivers the controller's events: after
  any interleaving of events written by the controller, with at most \<open>n\<close> unread ones, and of
  \<open>HasFront\<close>, \<open>Front\<close>, \<open>Pop\<close> by the driver, the driver has got exactly the first events in order, and
  \<open>HasFront\<close> is false exactly when it has got all of them. The dequeue pointer lives in a device
  register; the hypothesis is that the register reads back the pointer written last.\<close>

theorem event_ring_delivers_in_order:
  assumes "event_ring_initialize hw n interrupter er0 m io0 = (kSuccess, er, m', io)"
    and "1 \<le> n" "n \<le> 4096" and "erdp_reads_back hw (erdp_reg er)"
    and "within n (\<lambda>_. True) 0 as"
    and "run_channel event_post (event_take hw) as (er, mem_trb m', io, 0, True) = (s, received)"
  shows "\<exists>pending. map content (sent as) = map content received @ pending
       \<and> (event_take hw s = None \<longleftrightarrow> pending = [])"
proof -
  have "event_rel hw n (er, mem_trb m', io, 0, True) []"
    by (rule event_ring_initialize_rel [OF assms(1-4)])
  then obtain q where "event_rel hw n s q" "map content (sent as) = map content received @ q"
    using events.run_delivers [of hw n _ "[]" as] assms(5,6) by fastforce
  then show ?thesis using events.nothing_left by blast
qed

text \<open>A device whose registers read back what was written.\<close>

definition storing_device :: device_regs where
  "storing_device ws k a = (case last_write a ws of Some v \<Rightarrow> v | None \<Rightarrow> 0)"

lemma storing_device_reads_back: "erdp_reads_back storing_device a"
  by (simp add: erdp_reads_back_def storing_device_def)

theorem event_ring_delivers_in_order_witness:
  "\<exists>er m' io s received.
    event_ring_initialize storing_device 2 0xfee0 
      \<lparr>er_buf = 0, er_size = 0, er_cycle = False, er_erst = 0, er_erst_entry = 0, er_interrupter = 0\<rparr>
      \<lparr>mem_pool = 0x100000, mem_ptr = 0x100000, mem_trb = (\<lambda>_. 0)\<rparr> \<lparr>io_writes = [], io_reads = 0\<rparr>
        = (kSuccess, er, m', io)
    \<and> run_channel event_post (event_take storing_device)
        [Send new_TransferEventTRB, Receive, Send new_CommandCompletionEventTRB, Send new_TransferEventTRB,
         Receive] (er, mem_trb m', io, 0, True) = (s, received)
    \<and> (\<exists>pending. map content [new_TransferEventTRB, new_CommandCompletionEventTRB, new_TransferEventTRB] =
        map content received @ pending)"
proof -
  let ?er0 = "\<lparr>er_buf = 0, er_size = 0, er_cycle = False, er_erst = 0, er_erst_entry = 0, er_interrupter = 0\<rparr>"
  let ?m = "\<lparr>mem_pool = 0x100000, mem_ptr = 0x100000, mem_trb = (\<lambda>_. 0)\<rparr>"
  let ?io = "\<lparr>io_writes = [], io_reads = 0\<rparr>"
  let ?as = "[Send new_TransferEventTRB, Receive, Send new_CommandCompletionEventTRB,
    Send new_TransferEventTRB, Receive]"
  have "usb_alloc 16 2 64 (64 * 1024) ?m = (0x100000, ?m\<lparr>mem_ptr := 0x100020\<rparr>)"
    by (simp add: usb_alloc_def alloc_array_def alloc_mem_def Ceil_def kMemoryPoolSize_def)
  moreover have "usb_alloc 16 1 64 (64 * 1024) (?m\<lparr>mem_ptr := 0x100020, mem_trb := f\<rparr>) =
      (0x100040, ?m\<lparr>mem_ptr := 0x100050, mem_trb := f\<rparr>)" for f
    by (simp add: usb_alloc_def alloc_array_def alloc_mem_def Ceil_def kMemoryPoolSize_def)
  ultimately obtain er m' io where
    init: "event_ring_initialize storing_device 2 0xfee0 ?er0 ?m ?io = (kSuccess, er, m', io)"
    by (simp add: event_ring_initialize_def reg_read_def Let_def)
  obtain s received where
    run: "run_channel event_post (event_take storing_device) ?as (er, mem_trb m', io, 0, True) = (s, received)"
    by fastforce
  have fits: "within 2 (\<lambda>_. True) 0 ?as" by simp
  from event_ring_delivers_in_order [OF init _ _ storing_device_reads_back fits run]
  obtain pending where "map content (sent ?as) = map content received @ pending" by auto
  then have "\<exists>pending. map content [new_TransferEventTRB, new_CommandCompletionEventTRB, new_TransferEventTRB] =
      map content received @ pending" by (auto simp del: list.map)
  with init run show ?thesis by blast
qed

text \<open>\<open>CopyToLast\<close> hands a TRB over safely: whenever it is interrupted before its last store, every
  TRB in memory still has its old cycle bit, so the controller cannot take a half-written one; after
  the last store the slot holds the whole TRB with the producer's cycle bit and nothing else has
  changed.\<close>

theorem copy_to_last_hands_over:
  "(\<forall>k a. k < length (copy_stores r t) \<longrightarrow>
      trb_cycle (fold store32 (take k (copy_stores r t)) f a) = trb_cycle (f a))
   \<and> fold store32 (copy_stores r t) f =
      f(trb_at (ring_buf r) (ring_write r) := with_cycle (ring_cycle r) t)"
  using copy_stores_take [of _ r t f] copy_to_last_eq [of r t f]
  by (simp add: copy_to_last_def copy_stores_def Let_def)

theorem copy_to_last_hands_over_witness:
  "trb_cycle (fold store32 (take 3 (copy_stores \<lparr>ring_buf = 64, ring_size = 4, ring_cycle = True, ring_write = 1\<rparr>
    new_NormalTRB)) (\<lambda>_. 0) 80) = False"
proof -
  let ?r = "\<lparr>ring_buf = 64, ring_size = 4, ring_cycle = True, ring_write = 1\<rparr>"
  have "3 < length (copy_stores ?r new_NormalTRB)" by (simp add: copy_stores_def Let_def)
  then have "trb_cycle (fold store32 (take 3 (copy_stores ?r new_NormalTRB)) (\<lambda>_. 0) 80) = trb_cycle 0"
    using copy_to_last_hands_over [of ?r new_NormalTRB "\<lambda>_. 0"] by blast
  then show ?thesis by (simp add: trb_cycle_def)
qed

end
