(* ===== verification/Usb_Context.thy ===== *)
theory Usb_Context imports Usb_Trb begin

text \<open>
  \<^verbatim>\<open>Kernel/usb/endpoint.hpp\<close>, \<^verbatim>\<open>setupdata.hpp\<close>, \<^verbatim>\<open>xhci/context.hpp\<close>, \<^verbatim>\<open>xhci/speed.hpp\<close>: endpoint
  numbers, the setup packet of a control transfer, and the device and input contexts through which
  the driver describes a device to the controller. A context is eight 32-bit words, so 256 bits.
\<close>

section \<open>Endpoints\<close>

(*@ Kernel/usb/endpoint.hpp:12-17 EndpointType *)
datatype endpoint_type = EP_Control | EP_Isochronous | EP_Bulk | EP_Interrupt

text \<open>An \<^verbatim>\<open>EndpointID\<close> is its address \<open>addr_\<close>, twice the endpoint number plus the direction.\<close>

(*@ Kernel/usb/endpoint.hpp:30-30 EndpointID::EndpointID *)
definition endpoint_id :: "int \<Rightarrow> bool \<Rightarrow> int" where
  "endpoint_id ep_num dir_in = push_bit 1 ep_num OR of_bool dir_in"

(*@ Kernel/usb/endpoint.hpp:41-41 EndpointID::Number *)
definition ep_number :: "int \<Rightarrow> int" where
  "ep_number addr = drop_bit 1 addr"

(*@ Kernel/usb/endpoint.hpp:44-44 EndpointID::IsIn *)
definition ep_is_in :: "int \<Rightarrow> bool" where
  "ep_is_in addr \<longleftrightarrow> addr AND 1 \<noteq> 0"

(*@ Kernel/usb/endpoint.hpp:50-50 kDefaultControlPipeID *)
definition kDefaultControlPipeID :: int where
  "kDefaultControlPipeID = endpoint_id 0 True"

(*@ Kernel/usb/endpoint.hpp:52-64 EndpointConfig *)
record endpoint_config =
  ec_id :: int
  ec_type :: endpoint_type
  ec_max_packet_size :: int
  ec_interval :: int

section \<open>Setup packets\<close>

(*@ Kernel/usb/setupdata.hpp:70-77 SetupData::request_type *)
definition request_type_bits :: layout where
  "request_type_bits = [(''recipient'', 5), (''type'', 2), (''direction'', 1)]"

(*@ Kernel/usb/setupdata.hpp:69-82 SetupData *)
record setup_data =
  sd_request_type :: u8
  sd_request :: u8
  sd_value :: u16
  sd_index :: u16
  sd_length :: u16

text \<open>The constants of the source that the driver uses.\<close>

definition request_type :: "u8 \<Rightarrow> u8 \<Rightarrow> u8 \<Rightarrow> u8" where
  "request_type direction typ recipient =
    put_member request_type_bits ''recipient'' recipient
      (put_member request_type_bits ''type'' typ
        (put_member request_type_bits ''direction'' direction 0))"

(*@ Kernel/usb/setupdata.hpp:26-26 request::kGetDescriptor *)
definition kGetDescriptor :: u8 where "kGetDescriptor = 6"

(*@ Kernel/usb/setupdata.hpp:29-29 request::kSetConfiguration *)
definition kSetConfiguration :: u8 where "kSetConfiguration = 9"

(*@ Kernel/usb/setupdata.hpp:49-49 request::kSetProtocol *)
definition kSetProtocol :: u8 where "kSetProtocol = 11"

section \<open>Contexts\<close>

(*@ Kernel/usb/xhci/context.hpp:9-33 SlotContext *)
definition SlotContext_bits :: layout where
  "SlotContext_bits =
    [(''route_string'', 20), (''speed'', 4), ('''', 1), (''mtt'', 1), (''hub'', 1),
     (''context_entries'', 5), (''max_exit_latency'', 16), (''root_hub_port_num'', 8),
     (''num_ports'', 8), (''tt_hub_slot_id'', 8), (''tt_port_num'', 8), (''ttt'', 2), ('''', 4),
     (''interrupter_target'', 10), (''usb_device_address'', 8), ('''', 19), (''slot_state'', 5)]"

(*@ Kernel/usb/xhci/context.hpp:36-61 EndpointContext *)
definition EndpointContext_bits :: layout where
  "EndpointContext_bits =
    [(''ep_state'', 3), ('''', 5), (''mult'', 2), (''max_primary_streams'', 5),
     (''linear_stream_array'', 1), (''interval'', 8), (''max_esit_payload_hi'', 8), ('''', 1),
     (''error_count'', 2), (''ep_type'', 3), ('''', 1), (''host_initiate_disable'', 1),
     (''max_burst_size'', 8), (''max_packet_size'', 16), (''dequeue_cycle_state'', 1), ('''', 3),
     (''tr_dequeue_pointer'', 60), (''average_trb_length'', 16), (''max_esit_payload_lo'', 16)]"

(*@ Kernel/usb/xhci/context.hpp:63-65 EndpointContext::TransferRingBuffer *)
definition ep_TransferRingBuffer :: "256 word \<Rightarrow> u64" where
  "ep_TransferRingBuffer c =
    push_bit 4 (ucast (get_member EndpointContext_bits ''tr_dequeue_pointer'' c))"

(*@ Kernel/usb/xhci/context.hpp:67-69 EndpointContext::SetTransferRingBuffer *)
definition ep_SetTransferRingBuffer :: "u64 \<Rightarrow> 256 word \<Rightarrow> 256 word" where
  "ep_SetTransferRingBuffer buffer =
    put_member EndpointContext_bits ''tr_dequeue_pointer'' (ucast (drop_bit 4 buffer))"

text \<open>A \<^verbatim>\<open>DeviceContextIndex\<close> is a number from 1 to 31; for an endpoint it is the endpoint address.\<close>

(*@ Kernel/usb/xhci/context.hpp:78-79 DeviceContextIndex *)
definition dci_of_num :: "int \<Rightarrow> bool \<Rightarrow> int" where
  "dci_of_num ep_num dir_in = 2 * ep_num + (if ep_num = 0 then 1 else of_bool dir_in)"

(*@ Kernel/usb/xhci/context.hpp:76-76 DeviceContextIndex *)
definition dci_of_ep :: "int \<Rightarrow> int" where
  "dci_of_ep ep_id = ep_id"

(*@ Kernel/usb/xhci/context.hpp:85-88 DeviceContext *)
record device_context =
  dc_slot :: "256 word"
  dc_ep :: "256 word list"

(*@ Kernel/usb/xhci/context.hpp:90-103 InputContext *)
record input_context =
  ic_drop_flags :: u32
  ic_add_flags :: u32
  ic_slot :: "256 word"
  ic_ep :: "256 word list"

text \<open>\<^verbatim>\<open>memset\<close> of the input control context; the remaining fields of it are never set.\<close>

definition clear_control_context :: "input_context \<Rightarrow> input_context" where
  "clear_control_context c = c\<lparr>ic_drop_flags := 0, ic_add_flags := 0\<rparr>"

(*@ Kernel/usb/xhci/context.hpp:109-112 InputContext::EnableSlotContext *)
definition enable_slot_context :: "input_context \<Rightarrow> input_context" where
  "enable_slot_context c = c\<lparr>ic_add_flags := ic_add_flags c OR 1\<rparr>"

(*@ Kernel/usb/xhci/context.hpp:119-122 InputContext::EnableEndpoint *)
definition enable_endpoint :: "int \<Rightarrow> (256 word \<Rightarrow> 256 word) \<Rightarrow> input_context \<Rightarrow> input_context" where
  "enable_endpoint dci upd c =
    (let i = nat (dci - 1)
     in c\<lparr>ic_add_flags := ic_add_flags c OR push_bit (nat dci) 1,
         ic_ep := (ic_ep c)[i := upd (ic_ep c ! i)]\<rparr>)"

section \<open>Facts\<close>

lemma endpoint_id_eq: "endpoint_id n d = 2 * n + of_bool d"
proof -
  have "(2 * n) OR of_bool d = 2 * n + of_bool d"
    by (cases d) (simp_all add: or_one_eq)
  then show ?thesis by (simp add: endpoint_id_def push_bit_eq_mult mult.commute)
qed

lemma ep_number_endpoint_id [simp]: "ep_number (endpoint_id n d) = n"
  by (simp add: ep_number_def endpoint_id_eq drop_bit_eq_div)

lemma ep_is_in_endpoint_id [simp]: "ep_is_in (endpoint_id n d) = d"
  by (simp add: ep_is_in_def endpoint_id_eq and_one_eq)

lemma dci_of_endpoint: "n \<noteq> 0 \<or> d \<Longrightarrow> dci_of_num n d = dci_of_ep (endpoint_id n d)"
  by (auto simp: dci_of_num_def dci_of_ep_def endpoint_id_eq)

end
