(* ===== verification/Xhci_Port.thy ===== *)
theory Xhci_Port imports Xhci_Register Kernel_Error begin

text \<open>
  \<^verbatim>\<open>Kernel/usb/xhci/port.hpp\<close>, \<^verbatim>\<open>port.cpp\<close>: a root hub port, which is its number and the address of
  its register set. The port status register mixes plain bits with bits that are cleared by
  writing 1 to them, so each operation masks what it has read before writing it back.
\<close>

(*@ Kernel/usb/xhci/port.hpp:51-52 Port *)
record port =
  port_num :: u8
  port_regs :: u64

definition portsc_at :: "port \<Rightarrow> u64" where
  "portsc_at p = reg_at (port_regs p) PortRegisterSet ''PORTSC''"

definition portsc_member :: "device_regs \<Rightarrow> string \<Rightarrow> port \<Rightarrow> io \<Rightarrow> u64 \<times> io" where
  "portsc_member hw n p s =
    (let (v, s) = reg_read hw (portsc_at p) s in (get_member PORTSC_Bitmap n v, s))"

(*@ Kernel/usb/xhci/port.cpp:11-13 Port::IsConnected *)
definition is_connected :: "device_regs \<Rightarrow> port \<Rightarrow> io \<Rightarrow> bool \<times> io" where
  "is_connected hw p s = map_prod (\<lambda>v. v \<noteq> 0) (\<lambda>s. s) (portsc_member hw ''current_connect_status'' p s)"

(*@ Kernel/usb/xhci/port.cpp:15-17 Port::IsEnabled *)
definition is_enabled :: "device_regs \<Rightarrow> port \<Rightarrow> io \<Rightarrow> bool \<times> io" where
  "is_enabled hw p s = map_prod (\<lambda>v. v \<noteq> 0) (\<lambda>s. s) (portsc_member hw ''port_enabled_disabled'' p s)"

(*@ Kernel/usb/xhci/port.cpp:19-21 Port::IsConnectStatusChanged *)
definition is_connect_status_changed :: "device_regs \<Rightarrow> port \<Rightarrow> io \<Rightarrow> bool \<times> io" where
  "is_connect_status_changed hw p s =
    map_prod (\<lambda>v. v \<noteq> 0) (\<lambda>s. s) (portsc_member hw ''connect_status_change'' p s)"

(*@ Kernel/usb/xhci/port.cpp:23-25 Port::IsPortResetChanged *)
definition is_port_reset_changed :: "device_regs \<Rightarrow> port \<Rightarrow> io \<Rightarrow> bool \<times> io" where
  "is_port_reset_changed hw p s =
    map_prod (\<lambda>v. v \<noteq> 0) (\<lambda>s. s) (portsc_member hw ''port_reset_change'' p s)"

(*@ Kernel/usb/xhci/port.cpp:27-29 Port::Speed *)
definition port_speed :: "device_regs \<Rightarrow> port \<Rightarrow> io \<Rightarrow> u64 \<times> io" where
  "port_speed hw p s = portsc_member hw ''port_speed'' p s"

text \<open>The value \<^verbatim>\<open>Reset\<close> writes for the value it has read.\<close>

(*@ Kernel/usb/xhci/port.cpp:33-34 Port::Reset *)
definition reset_value :: "u64 \<Rightarrow> u64" where
  "reset_value portsc = (portsc AND 0x0e00c3e0) OR 0x00020010"

text \<open>The loop waits for the end of the reset; \<^verbatim>\<open>None\<close> is a port that never ends it.\<close>

(*@ Kernel/usb/xhci/port.cpp:31-38 Port::Reset *)
definition port_reset :: "device_regs \<Rightarrow> port \<Rightarrow> io \<Rightarrow> (error_code \<times> io) option" where
  "port_reset hw p s =
    (let (v, s) = reg_read hw (portsc_at p) s;
         s = reg_write (portsc_at p) (reset_value v) s
     in case read_while hw (\<lambda>v. get_member PORTSC_Bitmap ''port_reset'' v \<noteq> 0) (portsc_at p) s of
          None \<Rightarrow> None
        | Some (_, s) \<Rightarrow> Some (kSuccess, s))"

(*@ Kernel/usb/xhci/port.hpp:15-21 CLEAR_STATUS_BIT *)
definition clear_status_value :: "string \<Rightarrow> u64 \<Rightarrow> u64" where
  "clear_status_value bitname portsc =
    put_member PORTSC_Bitmap bitname 1 (portsc AND 0x0e01c3e0)"

definition clear_status_bit :: "device_regs \<Rightarrow> string \<Rightarrow> port \<Rightarrow> io \<Rightarrow> io" where
  "clear_status_bit hw bitname p s =
    (let (v, s) = reg_read hw (portsc_at p) s
     in reg_write (portsc_at p) (clear_status_value bitname v) s)"

(*@ Kernel/usb/xhci/port.hpp:43-45 Port::ClearConnectStatusChanged *)
definition clear_connect_status_changed :: "device_regs \<Rightarrow> port \<Rightarrow> io \<Rightarrow> io" where
  "clear_connect_status_changed hw = clear_status_bit hw ''connect_status_change''"

(*@ Kernel/usb/xhci/port.hpp:46-48 Port::ClearPortResetChange *)
definition clear_port_reset_change :: "device_regs \<Rightarrow> port \<Rightarrow> io \<Rightarrow> io" where
  "clear_port_reset_change hw = clear_status_bit hw ''port_reset_change''"

section \<open>What the writes do\<close>

text \<open>The bits that do something when they are written as 1, with their positions, and the plain
  settings.\<close>

definition action_bits :: "string list" where
  "action_bits =
    [''port_enabled_disabled'', ''port_reset'', ''connect_status_change'',
     ''port_enabled_disabled_change'', ''warm_port_reset_change'', ''over_current_change'',
     ''port_reset_change'', ''port_link_state_change'', ''port_config_error_change'',
     ''warm_port_reset'']"

definition setting_members :: "string list" where
  "setting_members =
    [''port_power'', ''port_indicator_control'', ''wake_on_connect_enable'',
     ''wake_on_disconnect_enable'', ''wake_on_over_current_enable'']"

lemma get_member_masked:
  "get_member L n ((v AND m) OR k) = (get_member L n v AND get_member L n m) OR get_member L n k"
proof -
  have "get_field off w ((v AND m) OR k) = (get_field off w v AND get_field off w m) OR get_field off w k"
    for off w
    by (intro bit_eqI) (auto simp: bit_get_field bit_or_iff bit_and_iff)
  then show ?thesis by (auto simp: get_member_def split: option.splits)
qed

lemma get_member_and: "get_member L n (v AND m) = get_member L n v AND get_member L n m"
  using get_member_masked [of L n v m 0] by simp

lemma get_member_full:
  "get_member L n m = mask (member_width L n) \<Longrightarrow> get_member L n v AND get_member L n m = get_member L n v"
  by (simp add: take_bit_eq_mask [symmetric] get_member_bound)

text \<open>The two masks and the constants that are set, member by member.\<close>

lemma portsc_masks:
  "map (\<lambda>n. get_member PORTSC_Bitmap n (0x0e00c3e0 :: u64)) action_bits = [0, 0, 0, 0, 0, 0, 0, 0, 0, 0]"
  "map (\<lambda>n. get_member PORTSC_Bitmap n (0x0e01c3e0 :: u64)) action_bits = [0, 0, 0, 0, 0, 0, 0, 0, 0, 0]"
  "map (\<lambda>n. get_member PORTSC_Bitmap n (0x00020010 :: u64)) action_bits = [0, 1, 1, 0, 0, 0, 0, 0, 0, 0]"
  "map (\<lambda>n. get_member PORTSC_Bitmap n (0x00020010 :: u64)) setting_members = [0, 0, 0, 0, 0]"
  "map (\<lambda>n. get_member PORTSC_Bitmap n (0x0e00c3e0 :: u64)) setting_members = [1, 3, 1, 1, 1]"
  "map (\<lambda>n. get_member PORTSC_Bitmap n (0x0e01c3e0 :: u64)) setting_members = [1, 3, 1, 1, 1]"
  "map (member_width PORTSC_Bitmap) setting_members = [1, 2, 1, 1, 1]"
  "map (member_width PORTSC_Bitmap) action_bits = [1, 1, 1, 1, 1, 1, 1, 1, 1, 1]"
  by (simp_all add: action_bits_def setting_members_def PORTSC_Bitmap_def get_member_def
      member_width_def get_field_def take_bit_eq_mod drop_bit_eq_div)

text \<open>The two operations that write a port's status register set exactly the action bits they
  mean to: \<open>Reset\<close> starts a port reset and clears the connect status change, and clearing the reset
  change clears that alone; neither disables the port or clears another change bit, whatever the
  register held. The power, indicator and wake settings are written back as they were read.\<close>

theorem port_writes_safe:
  "map (\<lambda>n. get_member PORTSC_Bitmap n (reset_value v)) action_bits =
     map (\<lambda>n. of_bool (n \<in> {''port_reset'', ''connect_status_change''})) action_bits
   \<and> map (\<lambda>n. get_member PORTSC_Bitmap n (clear_status_value ''port_reset_change'' v)) action_bits =
     map (\<lambda>n. of_bool (n = ''port_reset_change'')) action_bits
   \<and> map (\<lambda>n. get_member PORTSC_Bitmap n (reset_value v)) setting_members =
     map (\<lambda>n. get_member PORTSC_Bitmap n v) setting_members
   \<and> map (\<lambda>n. get_member PORTSC_Bitmap n (clear_status_value ''port_reset_change'' v)) setting_members =
     map (\<lambda>n. get_member PORTSC_Bitmap n v) setting_members"
proof -
  have mask3: "mask 2 = (3 :: u64)" by (simp add: mask_eq_exp_minus_1)
  have fit: "layout_bits PORTSC_Bitmap \<le> LENGTH(64)" by (simp add: PORTSC_Bitmap_def)
  note m = portsc_masks [unfolded action_bits_def setting_members_def list.map list.inject]
  have full: "get_member PORTSC_Bitmap n v AND 1 = get_member PORTSC_Bitmap n v"
    if "member_width PORTSC_Bitmap n = 1" for n
    using get_member_full [of PORTSC_Bitmap n 1 v] that get_member_bound [of PORTSC_Bitmap n v]
    by (simp add: take_bit_eq_mask)
  have full3: "get_member PORTSC_Bitmap n v AND 3 = get_member PORTSC_Bitmap n v"
    if "member_width PORTSC_Bitmap n = 2" for n
    using that get_member_bound [of PORTSC_Bitmap n v] by (simp add: take_bit_eq_mask mask3)
  show ?thesis
    unfolding action_bits_def setting_members_def list.map reset_value_def clear_status_value_def
    using m full full3
    by (simp add: get_member_masked get_member_and get_put_member [OF fit])
qed

text \<open>The port is reset once, and \<open>Reset\<close> comes back as soon as the device reports the end.\<close>

lemma port_reset_writes:
  assumes "port_reset hw p s = Some (err, s')"
  shows "err = kSuccess"
    "io_writes s' = io_writes s @ [(portsc_at p, reset_value (hw (io_writes s) (io_reads s) (portsc_at p)))]"
  using assms
  by (auto simp: port_reset_def Let_def reg_read_def reg_write_def split: option.splits
      dest!: read_while_value)

end
