(* ===== verification/Usb_Device.thy ===== *)
theory Usb_Device imports Usb_Context Usb_Ring Array_Map Keyboard "HOL-Library.Monad_Syntax" begin

text \<open>
  \<^verbatim>\<open>Kernel/usb/device.cpp\<close>, \<^verbatim>\<open>usb/xhci/device.cpp\<close>, \<^verbatim>\<open>usb/classdriver/hid.cpp\<close>, \<^verbatim>\<open>mouse.cpp\<close>,
  \<^verbatim>\<open>keyboard.cpp\<close>, \<^verbatim>\<open>usb/descriptor.hpp\<close>: a USB device and its class drivers. One record holds
  both the generic device and the xHCI device that extends it, with its drivers; the drivers call
  back into their device only. The environment is the memory shared with the controller (TRBs,
  and bytes for the buffers), the device registers, and what the observers of mouse and keyboard
  have been told.

  A request is a few TRBs on the transfer ring of its endpoint and a doorbell write; its completion
  comes back as a transfer event, which the device matches with the setup stage TRB it kept.
  \<open>None\<close> stands for an access outside an array or through a null pointer, or a loop that never ends.
\<close>

section \<open>State\<close>

datatype hid_kind = HID_Keyboard | HID_Mouse

datatype hid_event = Key_Push u8 u8 bool | Mouse_Move u8 u8 u8

text \<open>The observer of a driver is the default one, when it was set before the driver was made.\<close>

(*@ Kernel/usb/classdriver/hid.hpp:28-34 HIDBaseDriver *)
record hid_driver =
  hd_kind :: hid_kind
  hd_interface :: int
  hd_packet :: int
  hd_phase :: int
  hd_in :: int
  hd_out :: int
  hd_buf :: u64
  hd_previous :: "u8 list"
  hd_observed :: bool

(*@ Kernel/usb/device.hpp:48-72 Device *)
record usb_device =
  ud_class_drivers :: "nat option list"
  ud_buf :: u64
  ud_num_configurations :: u8
  ud_config_index :: u8
  ud_initialized :: bool
  ud_phase :: int
  ud_ep_configs :: "endpoint_config list"
  ud_num_ep_configs :: int
  ud_waiters :: "(setup_data, nat) array_map"
  ud_drivers :: "hid_driver list"

(*@ Kernel/usb/xhci/device.hpp:22-27 Device::State *)
datatype device_state = Dev_Invalid | Dev_Blank | Dev_SlotAssigning | Dev_SlotAssigned

(*@ Kernel/usb/xhci/device.hpp:60-73 Device *)
record xhci_device = usb_device +
  xd_ctx :: device_context
  xd_input :: input_context
  xd_input_addr :: u64
  xd_ctx_addr :: u64
  xd_slot :: u8
  xd_state :: device_state
  xd_doorbell :: u64
  xd_rings :: "ring option list"
  xd_setup_map :: "(u64, u64) array_map"

record usb_env =
  ue_mem :: usb_mem
  ue_bytes :: "u64 \<Rightarrow> u8"
  ue_io :: io
  ue_out :: "hid_event list"

text \<open>The addresses \<^verbatim>\<open>operator new\<close> gives the drivers' buffers, and which default observers are set,
  are the surroundings of a device.\<close>

record usb_setting =
  us_driver_buf :: "nat \<Rightarrow> u64"
  us_keyboard_observer :: bool
  us_mouse_observer :: bool

type_synonym dev_result = "(error_code \<times> xhci_device \<times> usb_env) option"

section \<open>Requests\<close>

text \<open>\<open>Push\<close> on one of the device's rings, with the ring put back. A ring without memory has a null
  buffer.\<close>

definition push_trb :: "nat \<Rightarrow> trb \<Rightarrow> xhci_device \<Rightarrow> usb_env \<Rightarrow> (u64 \<times> xhci_device \<times> usb_env) option" where
  "push_trb i t d e = (case xd_rings d ! i of
      None \<Rightarrow> None
    | Some r \<Rightarrow>
        if ring_buf r = 0 then None
        else case ring_push t r (mem_trb (ue_mem e)) of
          (p, r, f) \<Rightarrow> Some (p, d\<lparr>xd_rings := (xd_rings d)[i := Some r]\<rparr>,
            e\<lparr>ue_mem := (ue_mem e)\<lparr>mem_trb := f\<rparr>\<rparr>))"

text \<open>The ring of an endpoint: \<open>None\<close> for an index outside the array, \<open>Some None\<close> for a null pointer.\<close>

definition ring_index :: "int \<Rightarrow> xhci_device \<Rightarrow> (nat option) option" where
  "ring_index dci d =
    (if dci < 1 \<or> int (length (xd_rings d)) < dci then None
     else Some (if xd_rings d ! nat (dci - 1) = None then None else Some (nat (dci - 1))))"

text \<open>\<^verbatim>\<open>TRBDynamicCast\<close> of a pointer: the pointer itself or null.\<close>

definition cast_pointer :: "trb_union \<Rightarrow> u64 \<Rightarrow> usb_env \<Rightarrow> u64" where
  "cast_pointer u p e = (if TRBDynamicCast u (mem_trb (ue_mem e) p) = None then 0 else p)"

definition ring_bell :: "int \<Rightarrow> xhci_device \<Rightarrow> usb_env \<Rightarrow> usb_env" where
  "ring_bell target d e = e\<lparr>ue_io := ring_doorbell (xd_doorbell d) (of_int target) 0 (ue_io e)\<rparr>"

(*@ Kernel/usb/xhci/device.cpp:10-19 MakeSetupStageTRB *)
definition make_setup_stage :: "setup_data \<Rightarrow> trb \<Rightarrow> trb" where
  "make_setup_stage sd transfer_type =
    put_trb SetupStageTRB ''transfer_type'' transfer_type
    (put_trb SetupStageTRB ''length'' (ucast (sd_length sd))
    (put_trb SetupStageTRB ''index'' (ucast (sd_index sd))
    (put_trb SetupStageTRB ''value'' (ucast (sd_value sd))
    (put_trb SetupStageTRB ''request'' (ucast (sd_request sd))
    (put_trb SetupStageTRB ''request_type'' (ucast (sd_request_type sd)) new_SetupStageTRB)))))"

(*@ Kernel/usb/xhci/device.cpp:21-28 MakeDataStageTRB *)
definition make_data_stage :: "u64 \<Rightarrow> int \<Rightarrow> bool \<Rightarrow> trb" where
  "make_data_stage buf len dir_in =
    put_trb DataStageTRB ''direction'' (of_bool dir_in)
    (put_trb DataStageTRB ''td_size'' 0
    (put_trb DataStageTRB ''trb_transfer_length'' (of_int len)
    (DataStageTRB_SetPointer buf new_DataStageTRB)))"

text \<open>The base class only notes who issued the request.\<close>

(*@ Kernel/usb/device.cpp:107-121 Device::ControlIn *)
definition base_control :: "setup_data \<Rightarrow> nat option \<Rightarrow> xhci_device \<Rightarrow> xhci_device" where
  "base_control sd issuer d = (case issuer of
      None \<Rightarrow> d
    | Some k \<Rightarrow> d\<lparr>ud_waiters := am_put (ud_waiters d) sd k\<rparr>)"

definition remember_setup :: "u64 \<Rightarrow> u64 \<Rightarrow> xhci_device \<Rightarrow> xhci_device" where
  "remember_setup p setup d = d\<lparr>xd_setup_map := am_put (xd_setup_map d) p setup\<rparr>"

(*@ Kernel/usb/xhci/device.cpp:107-152 Device::ControlIn *)
definition control_in ::
  "int \<Rightarrow> setup_data \<Rightarrow> u64 \<Rightarrow> int \<Rightarrow> nat option \<Rightarrow> xhci_device \<Rightarrow> usb_env \<Rightarrow> dev_result" where
  "control_in ep sd buf len issuer d e =
    (let d = base_control sd issuer d
     in if ep_number ep < 0 \<or> 15 < ep_number ep then Some (kInvalidEndpointNumber, d, e)
        else case ring_index (dci_of_ep ep) d of
          None \<Rightarrow> None
        | Some None \<Rightarrow> Some (kTransferRingNotSet, d, e)
        | Some (Some i) \<Rightarrow>
            if buf \<noteq> 0
            then do {
              (sp, d, e) \<leftarrow> push_trb i (make_setup_stage sd 3) d e;
              sp \<leftarrow> Some (cast_pointer SetupStageTRB sp e);
              (dp, d, e) \<leftarrow> push_trb i (put_trb DataStageTRB ''interrupt_on_completion'' 1
                 (make_data_stage buf len True)) d e;
              (_, d, e) \<leftarrow> push_trb i new_StatusStageTRB d e;
              Some (kSuccess, remember_setup dp sp d, ring_bell (dci_of_ep ep) d e)
            }
            else do {
              (sp, d, e) \<leftarrow> push_trb i (make_setup_stage sd 0) d e;
              sp \<leftarrow> Some (cast_pointer SetupStageTRB sp e);
              (tp, d, e) \<leftarrow> push_trb i (put_trb StatusStageTRB ''interrupt_on_completion'' 1
                 (put_trb StatusStageTRB ''direction'' 1 new_StatusStageTRB)) d e;
              Some (kSuccess, remember_setup tp sp d, ring_bell (dci_of_ep ep) d e)
            })"

(*@ Kernel/usb/xhci/device.cpp:154-199 Device::ControlOut *)
definition control_out ::
  "int \<Rightarrow> setup_data \<Rightarrow> u64 \<Rightarrow> int \<Rightarrow> nat option \<Rightarrow> xhci_device \<Rightarrow> usb_env \<Rightarrow> dev_result" where
  "control_out ep sd buf len issuer d e =
    (let d = base_control sd issuer d;
         status = put_trb StatusStageTRB ''direction'' 1 new_StatusStageTRB
     in if ep_number ep < 0 \<or> 15 < ep_number ep then Some (kInvalidEndpointNumber, d, e)
        else case ring_index (dci_of_ep ep) d of
          None \<Rightarrow> None
        | Some None \<Rightarrow> Some (kTransferRingNotSet, d, e)
        | Some (Some i) \<Rightarrow>
            if buf \<noteq> 0
            then do {
              (sp, d, e) \<leftarrow> push_trb i (make_setup_stage sd 2) d e;
              sp \<leftarrow> Some (cast_pointer SetupStageTRB sp e);
              (dp, d, e) \<leftarrow> push_trb i (put_trb DataStageTRB ''interrupt_on_completion'' 1
                 (make_data_stage buf len False)) d e;
              (_, d, e) \<leftarrow> push_trb i status d e;
              Some (kSuccess, remember_setup dp sp d, ring_bell (dci_of_ep ep) d e)
            }
            else do {
              (sp, d, e) \<leftarrow> push_trb i (make_setup_stage sd 0) d e;
              sp \<leftarrow> Some (cast_pointer SetupStageTRB sp e);
              (tp, d, e) \<leftarrow> push_trb i (put_trb StatusStageTRB ''interrupt_on_completion'' 1 status) d e;
              Some (kSuccess, remember_setup tp sp d, ring_bell (dci_of_ep ep) d e)
            })"

(*@ Kernel/usb/xhci/device.cpp:201-223 Device::InterruptIn *)
definition interrupt_in :: "int \<Rightarrow> u64 \<Rightarrow> int \<Rightarrow> xhci_device \<Rightarrow> usb_env \<Rightarrow> dev_result" where
  "interrupt_in ep buf len d e =
    (case ring_index (dci_of_ep ep) d of
       None \<Rightarrow> None
     | Some None \<Rightarrow> Some (kTransferRingNotSet, d, e)
     | Some (Some i) \<Rightarrow> do {
         (_, d, e) \<leftarrow> push_trb i
           (put_trb NormalTRB ''interrupt_on_completion'' 1
             (put_trb NormalTRB ''interrupt_on_short_packet'' 1
               (put_trb NormalTRB ''trb_transfer_length'' (of_int len)
                 (NormalTRB_SetPointer buf new_NormalTRB)))) d e;
         Some (kSuccess, d, ring_bell (dci_of_ep ep) d e)
       })"

(*@ Kernel/usb/xhci/device.cpp:225-233 Device::InterruptOut *)
definition interrupt_out :: "int \<Rightarrow> u64 \<Rightarrow> int \<Rightarrow> xhci_device \<Rightarrow> usb_env \<Rightarrow> dev_result" where
  "interrupt_out ep buf len d e = Some (kNotImplemented, d, e)"

(*@ Kernel/usb/xhci/device.cpp:84-91 Device::Initialize *)
definition device_initialize :: "xhci_device \<Rightarrow> error_code \<times> xhci_device" where
  "device_initialize d = (kSuccess, d\<lparr>xd_state := Dev_Blank\<rparr>)"

(*@ Kernel/usb/xhci/device.cpp:93-95 Device::SelectForSlotAssignment *)
definition select_for_slot_assignment :: "xhci_device \<Rightarrow> xhci_device" where
  "select_for_slot_assignment d = d\<lparr>xd_state := Dev_SlotAssigning\<rparr>"

(*@ Kernel/usb/xhci/device.cpp:97-105 Device::AllocTransferRing *)
definition alloc_transfer_ring :: "int \<Rightarrow> nat \<Rightarrow> xhci_device \<Rightarrow> usb_env \<Rightarrow> xhci_device \<times> usb_env" where
  "alloc_transfer_ring dci buf_size d e =
    (let (tr, m) = usb_alloc 32 1 64 4096 (ue_mem e)
     in if tr = 0 then (d\<lparr>xd_rings := (xd_rings d)[nat (dci - 1) := None]\<rparr>, e\<lparr>ue_mem := m\<rparr>)
        else case ring_initialize buf_size \<lparr>ring_buf = 0, ring_size = 0, ring_cycle = False, ring_write = 0\<rparr> m of
          (_, r, m) \<Rightarrow> (d\<lparr>xd_rings := (xd_rings d)[nat (dci - 1) := Some r]\<rparr>, e\<lparr>ue_mem := m\<rparr>))"

(*@ Kernel/usb/device.cpp:257-269 GetDescriptor *)
definition get_descriptor :: "int \<Rightarrow> u8 \<Rightarrow> u8 \<Rightarrow> u64 \<Rightarrow> int \<Rightarrow> xhci_device \<Rightarrow> usb_env \<Rightarrow> dev_result" where
  "get_descriptor ep desc_type desc_index buf len d e =
    control_in ep
      \<lparr>sd_request_type = request_type 1 0 0, sd_request = kGetDescriptor,
       sd_value = push_bit 8 (ucast desc_type) OR ucast desc_index, sd_index = 0,
       sd_length = of_int len\<rparr> buf len None d e"

(*@ Kernel/usb/device.cpp:271-282 SetConfiguration *)
definition set_configuration :: "int \<Rightarrow> u8 \<Rightarrow> xhci_device \<Rightarrow> usb_env \<Rightarrow> dev_result" where
  "set_configuration ep config_value d e =
    control_out ep
      \<lparr>sd_request_type = request_type 0 0 0, sd_request = kSetConfiguration,
       sd_value = ucast config_value, sd_index = 0, sd_length = 0\<rparr> 0 0 None d e"

section \<open>Class drivers\<close>

(*@ Kernel/usb/classdriver/hid.cpp:18-25 HIDBaseDriver::SetEndpoint *)
definition set_endpoint :: "endpoint_config \<Rightarrow> hid_driver \<Rightarrow> hid_driver" where
  "set_endpoint c h =
    (if ec_type c = EP_Interrupt \<and> ep_is_in (ec_id c) then h\<lparr>hd_in := ec_id c\<rparr>
     else if ec_type c = EP_Interrupt \<and> \<not> ep_is_in (ec_id c) then h\<lparr>hd_out := ec_id c\<rparr>
     else h)"

text \<open>The drivers of a device are numbered; \<open>this\<close> is the number.\<close>

definition upd_driver :: "nat \<Rightarrow> (hid_driver \<Rightarrow> hid_driver) \<Rightarrow> xhci_device \<Rightarrow> xhci_device" where
  "upd_driver k f d = d\<lparr>ud_drivers := (ud_drivers d)[k := f (ud_drivers d ! k)]\<rparr>"

(*@ Kernel/usb/classdriver/hid.cpp:27-39 HIDBaseDriver::OnEndpointsConfigured *)
definition hid_on_endpoints_configured :: "nat \<Rightarrow> xhci_device \<Rightarrow> usb_env \<Rightarrow> dev_result" where
  "hid_on_endpoints_configured k d e =
    control_out kDefaultControlPipeID
      \<lparr>sd_request_type = request_type 0 1 1, sd_request = kSetProtocol, sd_value = 0,
       sd_index = of_int (hd_interface (ud_drivers d ! k)), sd_length = 0\<rparr> 0 0 (Some k)
      (upd_driver k (hd_phase_update (\<lambda>_. 1)) d) e"

(*@ Kernel/usb/classdriver/hid.cpp:41-51 HIDBaseDriver::OnControlCompleted *)
definition hid_on_control_completed :: "nat \<Rightarrow> xhci_device \<Rightarrow> usb_env \<Rightarrow> dev_result" where
  "hid_on_control_completed k d e =
    (let h = ud_drivers d ! k
     in if hd_phase h = 1
        then interrupt_in (hd_in h) (hd_buf h) (hd_packet h) (upd_driver k (hd_phase_update (\<lambda>_. 2)) d) e
        else Some (kNotImplemented, d, e))"

text \<open>The bytes the controller has put into a driver's buffer.\<close>

definition read_bytes :: "u64 \<Rightarrow> nat \<Rightarrow> usb_env \<Rightarrow> u8 list" where
  "read_bytes p n e = map (\<lambda>i. ue_bytes e (p + of_nat i)) [0..<n]"

text \<open>What the observer is told for a report: for the keyboard the keys that changed since the
  previous report (\<open>key_changes\<close>), for the mouse its buttons and displacement.\<close>

(*@ Kernel/usb/classdriver/mouse.cpp:13-20 HIDMouseDriver::OnDataReceived *)
definition on_data_received :: "hid_driver \<Rightarrow> u8 list \<Rightarrow> hid_event list" where
  "on_data_received h buf = (case hd_kind h of
      HID_Keyboard \<Rightarrow> map (\<lambda>(m, k, p). Key_Push m k p) (key_changes (hd_previous h) buf)
    | HID_Mouse \<Rightarrow> [Mouse_Move (buf ! 0) (buf ! 1) (buf ! 2)])"

(*@ Kernel/usb/classdriver/hid.cpp:53-61 HIDBaseDriver::OnInterruptCompleted *)
definition hid_on_interrupt_completed :: "int \<Rightarrow> int \<Rightarrow> nat \<Rightarrow> xhci_device \<Rightarrow> usb_env \<Rightarrow> dev_result" where
  "hid_on_interrupt_completed ep len k d e =
    (let h = ud_drivers d ! k; buf = read_bytes (hd_buf h) 1024 e
     in if ep_is_in ep
        then
          let e = e\<lparr>ue_out := ue_out e @ (if hd_observed h then on_data_received h buf else [])\<rparr>
          in if 1024 < len then None
             else interrupt_in (hd_in h) (hd_buf h) (hd_packet h)
               (upd_driver k (hd_previous_update (\<lambda>prev. take (nat len) buf @ drop (nat len) prev)) d) e
        else Some (kNotImplemented, d, e))"

end
