(* ===== verification/Usb_Init.thy ===== *)
theory Usb_Init imports Usb_Device begin

text \<open>
  \<^verbatim>\<open>Kernel/usb/device.cpp\<close>, \<^verbatim>\<open>usb/descriptor.hpp\<close>, \<^verbatim>\<open>usb/xhci/device.cpp\<close>: how a device gets from its
  address to working class drivers. It asks for the device descriptor, then for the configuration
  descriptor, in which it looks for an interface it has a driver for, then selects that
  configuration; each step is a control transfer whose completion event starts the next one. The
  completion handlers are here, down to the handler of transfer events.
\<close>

section \<open>Descriptors\<close>

text \<open>Descriptors are bytes in a buffer; byte 0 is the length and byte 1 the type.\<close>

type_synonym memory = "u64 \<Rightarrow> u8"

definition word16_at :: "memory \<Rightarrow> u64 \<Rightarrow> u16" where
  "word16_at mem p = ucast (mem p) OR push_bit 8 (ucast (mem (p + 1)))"

(*@ Kernel/usb/descriptor.hpp:13-30 DeviceDescriptor *)
definition DeviceDescriptor :: layout where
  "DeviceDescriptor =
    [(''length'', 8), (''descriptor_type'', 8), (''usb_release'', 16), (''device_class'', 8),
     (''device_sub_class'', 8), (''device_protocol'', 8), (''max_packet_size'', 8),
     (''vendor_id'', 16), (''product_id'', 16), (''device_release'', 16), (''manufacturer'', 8),
     (''product'', 8), (''serial_number'', 8), (''num_configurations'', 8)]"

(*@ Kernel/usb/descriptor.hpp:32-43 ConfigurationDescriptor *)
definition ConfigurationDescriptor :: layout where
  "ConfigurationDescriptor =
    [(''length'', 8), (''descriptor_type'', 8), (''total_length'', 16), (''num_interfaces'', 8),
     (''configuration_value'', 8), (''configuration_id'', 8), (''attributes'', 8), (''max_power'', 8)]"

(*@ Kernel/usb/descriptor.hpp:45-57 InterfaceDescriptor *)
definition InterfaceDescriptor :: layout where
  "InterfaceDescriptor =
    [(''length'', 8), (''descriptor_type'', 8), (''interface_number'', 8), (''alternate_setting'', 8),
     (''num_endpoints'', 8), (''interface_class'', 8), (''interface_sub_class'', 8),
     (''interface_protocol'', 8), (''interface_id'', 8)]"

(*@ Kernel/usb/descriptor.hpp:59-83 EndpointDescriptor *)
definition EndpointDescriptor :: layout where
  "EndpointDescriptor =
    [(''length'', 8), (''descriptor_type'', 8), (''number'', 4), ('''', 3), (''dir_in'', 1),
     (''transfer_type'', 2), (''sync_type'', 2), (''usage_type'', 2), ('''', 2),
     (''max_packet_size'', 16), (''interval'', 8)]"

text \<open>A member of a packed descriptor at address \<open>p\<close>: the bytes of the buffer as a little-endian
  number, cut to the member.\<close>

definition desc_member :: "layout \<Rightarrow> string \<Rightarrow> memory \<Rightarrow> u64 \<Rightarrow> nat" where
  "desc_member L n mem p = (case member_pos L n 0 of
      None \<Rightarrow> 0
    | Some (off, w) \<Rightarrow>
        (horner_sum unat 256 (map (\<lambda>i. mem (p + of_nat i)) [off div 8..<(off + w + 7) div 8])
          div 2 ^ (off mod 8)) mod 2 ^ w)"

definition kDeviceDescriptor :: u8 where "kDeviceDescriptor = 1"

definition kConfigurationDescriptor :: u8 where "kConfigurationDescriptor = 2"

definition kInterfaceDescriptor :: u8 where "kInterfaceDescriptor = 4"

definition kEndpointDescriptor :: u8 where "kEndpointDescriptor = 5"

text \<open>Whether the cast to a descriptor type gives a pointer other than null.\<close>

(*@ Kernel/usb/descriptor.hpp:129-135 DescriptorDynamicCast *)
definition is_descriptor :: "u8 \<Rightarrow> memory \<Rightarrow> u64 \<Rightarrow> bool" where
  "is_descriptor ty mem desc_data \<longleftrightarrow> mem (desc_data + 1) = ty"

section \<open>Walking through a configuration descriptor\<close>

text \<open>The reader's state is the pointer \<open>p_\<close>; a step moves it by the length byte it points to.\<close>

(*@ Kernel/usb/device.cpp:20-26 ConfigurationDescriptorReader::Next *)
definition desc_next :: "memory \<Rightarrow> u64 \<Rightarrow> int \<Rightarrow> u64 \<Rightarrow> u64 option \<times> u64" where
  "desc_next mem desc_buf len p =
    (let p = p + ucast (mem p) in (if p < desc_buf + of_int len then Some p else None, p))"

(*@ Kernel/usb/device.cpp:28-36 ConfigurationDescriptorReader::Next *)
partial_function (option) desc_next_of ::
  "u8 \<Rightarrow> memory \<Rightarrow> u64 \<Rightarrow> int \<Rightarrow> u64 \<Rightarrow> (u64 option \<times> u64) option" where
  "desc_next_of ty mem desc_buf len p =
    (case desc_next mem desc_buf len p of
       (None, p) \<Rightarrow> Some (None, p)
     | (Some n, p) \<Rightarrow> if is_descriptor ty mem n then Some (Some n, p) else desc_next_of ty mem desc_buf len p)"

text \<open>The enumeration of endpoint types in the order of its values.\<close>

definition endpoint_type_of :: "nat \<Rightarrow> endpoint_type" where
  "endpoint_type_of n =
    (if n = 0 then EP_Control else if n = 1 then EP_Isochronous else if n = 2 then EP_Bulk else EP_Interrupt)"

(*@ Kernel/usb/device.cpp:44-54 MakeEPConfig *)
definition make_ep_config :: "memory \<Rightarrow> u64 \<Rightarrow> endpoint_config" where
  "make_ep_config mem desc =
    \<lparr>ec_id = endpoint_id (int (desc_member EndpointDescriptor ''number'' mem desc))
       (desc_member EndpointDescriptor ''dir_in'' mem desc = 1),
     ec_type = endpoint_type_of (desc_member EndpointDescriptor ''transfer_type'' mem desc),
     ec_max_packet_size = int (desc_member EndpointDescriptor ''max_packet_size'' mem desc),
     ec_interval = int (desc_member EndpointDescriptor ''interval'' mem desc)\<rparr>"

text \<open>A new driver has the next number; \<open>None\<close> is an interface without a driver.\<close>

(*@ Kernel/usb/device.cpp:56-74 NewClassDriver *)
definition new_class_driver :: "usb_setting \<Rightarrow> memory \<Rightarrow> u64 \<Rightarrow> xhci_device \<Rightarrow> (nat \<times> xhci_device) option" where
  "new_class_driver us mem if_desc d =
    (if desc_member InterfaceDescriptor ''interface_class'' mem if_desc = 3 \<and>
        desc_member InterfaceDescriptor ''interface_sub_class'' mem if_desc = 1
     then
       let k = length (ud_drivers d);
           driver = (\<lambda>kind packet observed.
             \<lparr>hd_kind = kind,
              hd_interface = int (desc_member InterfaceDescriptor ''interface_number'' mem if_desc),
              hd_packet = packet, hd_phase = 0, hd_in = 0, hd_out = 0, hd_buf = us_driver_buf us k,
              hd_previous = replicate 1024 0, hd_observed = observed\<rparr>);
           protocol = desc_member InterfaceDescriptor ''interface_protocol'' mem if_desc
       in if protocol = 1
          then Some (k, d\<lparr>ud_drivers := ud_drivers d @ [driver HID_Keyboard 8 (us_keyboard_observer us)]\<rparr>)
          else if protocol = 2
          then Some (k, d\<lparr>ud_drivers := ud_drivers d @ [driver HID_Mouse 3 (us_mouse_observer us)]\<rparr>)
          else None
     else None)"

section \<open>The phases of the initialization\<close>

(*@ Kernel/usb/device.cpp:131-136 Device::StartInitialize *)
definition start_initialize :: "xhci_device \<Rightarrow> usb_env \<Rightarrow> dev_result" where
  "start_initialize d e =
    get_descriptor kDefaultControlPipeID kDeviceDescriptor 0 (ud_buf d) 256
      (d\<lparr>ud_initialized := False, ud_phase := 1\<rparr>) e"

(*@ Kernel/usb/device.cpp:191-200 Device::InitializePhase1 *)
definition initialize_phase1 :: "u64 \<Rightarrow> xhci_device \<Rightarrow> usb_env \<Rightarrow> dev_result" where
  "initialize_phase1 buf d e =
    (let d = d\<lparr>ud_num_configurations := of_nat (desc_member DeviceDescriptor ''num_configurations'' (ue_bytes e) buf),
               ud_config_index := 0, ud_phase := 2\<rparr>
     in get_descriptor kDefaultControlPipeID kConfigurationDescriptor (ud_config_index d) (ud_buf d) 256 d e)"

text \<open>The inner loop: the endpoints of the interface. A null descriptor is dereferenced, and the
  array of configurations has 16 places.\<close>

(*@ Kernel/usb/device.cpp:221-233 Device::InitializePhase2 *)
partial_function (option) read_endpoints ::
  "nat \<Rightarrow> nat \<Rightarrow> memory \<Rightarrow> u64 \<Rightarrow> int \<Rightarrow> u64 \<Rightarrow> xhci_device \<Rightarrow> (u64 \<times> xhci_device) option" where
  "read_endpoints k num_endpoints mem buf len p d =
    (if int num_endpoints \<le> ud_num_ep_configs d then Some (p, d)
     else case desc_next mem buf len p of
       (None, p) \<Rightarrow> None
     | (Some desc, p) \<Rightarrow>
         if is_descriptor kEndpointDescriptor mem desc
         then
           if 16 \<le> ud_num_ep_configs d then None
           else
             let conf = make_ep_config mem desc
             in read_endpoints k num_endpoints mem buf len p
               (d\<lparr>ud_ep_configs := (ud_ep_configs d)[nat (ud_num_ep_configs d) := conf],
                  ud_num_ep_configs := ud_num_ep_configs d + 1,
                  ud_class_drivers := (ud_class_drivers d)[nat (ep_number (ec_id conf)) := Some k]\<rparr>)
         else read_endpoints k num_endpoints mem buf len p d)"

text \<open>The outer loop: the first interface that has a driver, if there is one.\<close>

(*@ Kernel/usb/device.cpp:209-236 Device::InitializePhase2 *)
partial_function (option) find_interface ::
  "usb_setting \<Rightarrow> memory \<Rightarrow> u64 \<Rightarrow> int \<Rightarrow> u64 \<Rightarrow> xhci_device \<Rightarrow> (bool \<times> xhci_device) option" where
  "find_interface us mem buf len p d = do {
    (if_desc, p) \<leftarrow> desc_next_of kInterfaceDescriptor mem buf len p;
    (case if_desc of
       None \<Rightarrow> Some (False, d)
     | Some i \<Rightarrow>
        (case new_class_driver us mem i d of
           None \<Rightarrow> find_interface us mem buf len p d
         | Some (k, d) \<Rightarrow> do {
             (_, d) \<leftarrow> read_endpoints k (desc_member InterfaceDescriptor ''num_endpoints'' mem i) mem buf len p
               (d\<lparr>ud_num_ep_configs := 0\<rparr>);
             Some (True, d)
           }))
  }"

(*@ Kernel/usb/device.cpp:202-246 Device::InitializePhase2 *)
definition initialize_phase2 :: "usb_setting \<Rightarrow> u64 \<Rightarrow> int \<Rightarrow> xhci_device \<Rightarrow> usb_env \<Rightarrow> dev_result" where
  "initialize_phase2 us buf len d e =
    (if \<not> is_descriptor kConfigurationDescriptor (ue_bytes e) buf then Some (kInvalidDescriptor, d, e)
     else do {
       (found, d) \<leftarrow> find_interface us (ue_bytes e) buf len buf d;
       if \<not> found then Some (kSuccess, d, e)
       else set_configuration kDefaultControlPipeID
         (of_nat (desc_member ConfigurationDescriptor ''configuration_value'' (ue_bytes e) buf))
         (d\<lparr>ud_phase := 3\<rparr>) e
     })"

text \<open>The class driver of an endpoint that has none is a null pointer.\<close>

definition set_endpoint_of :: "endpoint_config \<Rightarrow> xhci_device \<Rightarrow> xhci_device option" where
  "set_endpoint_of c d = (case ud_class_drivers d ! nat (ep_number (ec_id c)) of
      None \<Rightarrow> None
    | Some k \<Rightarrow> Some (upd_driver k (set_endpoint c) d))"

fun set_endpoints :: "endpoint_config list \<Rightarrow> xhci_device \<Rightarrow> xhci_device option" where
  "set_endpoints [] d = Some d"
| "set_endpoints (c # cs) d = Option.bind (set_endpoint_of c d) (set_endpoints cs)"

(*@ Kernel/usb/device.cpp:248-255 Device::InitializePhase3 *)
definition initialize_phase3 :: "u8 \<Rightarrow> xhci_device \<Rightarrow> usb_env \<Rightarrow> dev_result" where
  "initialize_phase3 config_value d e = do {
    d \<leftarrow> set_endpoints (take (nat (ud_num_ep_configs d)) (ud_ep_configs d)) d;
    Some (kSuccess, d\<lparr>ud_phase := 4, ud_initialized := True\<rparr>, e)
  }"

text \<open>The loop over the class drivers stops at the first error.\<close>

fun endpoints_configured :: "nat option list \<Rightarrow> xhci_device \<Rightarrow> usb_env \<Rightarrow> dev_result" where
  "endpoints_configured [] d e = Some (kSuccess, d, e)"
| "endpoints_configured (None # ks) d e = endpoints_configured ks d e"
| "endpoints_configured (Some k # ks) d e = do {
    (err, d, e) \<leftarrow> hid_on_endpoints_configured k d e;
    if is_error err then Some (err, d, e) else endpoints_configured ks d e
  }"

(*@ Kernel/usb/device.cpp:138-147 Device::OnEndpointsConfigured *)
definition on_endpoints_configured :: "xhci_device \<Rightarrow> usb_env \<Rightarrow> dev_result" where
  "on_endpoints_configured d e = endpoints_configured (ud_class_drivers d) d e"

section \<open>Completions\<close>

(*@ Kernel/usb/device.cpp:149-181 Device::OnControlCompleted *)
definition on_control_completed ::
  "usb_setting \<Rightarrow> setup_data \<Rightarrow> u64 \<Rightarrow> int \<Rightarrow> xhci_device \<Rightarrow> usb_env \<Rightarrow> dev_result" where
  "on_control_completed us sd buf len d e =
    (if ud_initialized d
     then case am_get (ud_waiters d) sd of
         Some k \<Rightarrow> hid_on_control_completed k d e
       | None \<Rightarrow> Some (kNoWaiter, d, e)
     else if ud_phase d = 1
     then if sd_request sd = kGetDescriptor \<and> is_descriptor kDeviceDescriptor (ue_bytes e) buf
          then initialize_phase1 buf d e
          else Some (kInvalidPhase, d, e)
     else if ud_phase d = 2
     then if sd_request sd = kGetDescriptor \<and> is_descriptor kConfigurationDescriptor (ue_bytes e) buf
          then initialize_phase2 us buf len d e
          else Some (kInvalidPhase, d, e)
     else if ud_phase d = 3
     then if sd_request sd = kSetConfiguration
          then initialize_phase3 (ucast (sd_value sd AND 0xff)) d e
          else Some (kInvalidPhase, d, e)
     else Some (kNotImplemented, d, e))"

(*@ Kernel/usb/device.cpp:183-189 Device::OnInterruptCompleted *)
definition on_interrupt_completed :: "int \<Rightarrow> int \<Rightarrow> xhci_device \<Rightarrow> usb_env \<Rightarrow> dev_result" where
  "on_interrupt_completed ep len d e = (case ud_class_drivers d ! nat (ep_number ep) of
      Some k \<Rightarrow> hid_on_interrupt_completed ep len k d e
    | None \<Rightarrow> Some (kNoWaiter, d, e))"

text \<open>The residual length is subtracted in 32 bits and read as a signed number.\<close>

definition transferred :: "trb \<Rightarrow> trb \<Rightarrow> int" where
  "transferred asked residual = sint (ucast asked - ucast residual :: 32 word)"

definition setup_data_of :: "trb \<Rightarrow> setup_data" where
  "setup_data_of t =
    \<lparr>sd_request_type = ucast (get_trb SetupStageTRB ''request_type'' t),
     sd_request = ucast (get_trb SetupStageTRB ''request'' t),
     sd_value = ucast (get_trb SetupStageTRB ''value'' t),
     sd_index = ucast (get_trb SetupStageTRB ''index'' t),
     sd_length = ucast (get_trb SetupStageTRB ''length'' t)\<rparr>"

(*@ Kernel/usb/xhci/device.cpp:235-285 Device::OnTransferEventReceived *)
definition on_transfer_event :: "usb_setting \<Rightarrow> trb \<Rightarrow> xhci_device \<Rightarrow> usb_env \<Rightarrow> dev_result" where
  "on_transfer_event us t d e =
    (let residual_length = get_trb TransferEventTRB ''trb_transfer_length'' t;
         completion_code = get_trb TransferEventTRB ''completion_code'' t;
         ep = TransferEventTRB_EndpointID t;
         issuer = TransferEventTRB_Pointer t;
         issuer_trb = mem_trb (ue_mem e) issuer
     in if completion_code \<noteq> 1 \<and> completion_code \<noteq> 13 then Some (kTransferFailed, d, e)
        else case TRBDynamicCast NormalTRB issuer_trb of
          Some normal \<Rightarrow>
            on_interrupt_completed ep
              (transferred (get_trb NormalTRB ''trb_transfer_length'' normal) residual_length) d e
        | None \<Rightarrow>
            (case am_get (xd_setup_map d) issuer of
               None \<Rightarrow> Some (kNoCorrespondingSetupStage, d, e)
             | Some setup \<Rightarrow>
                 let d = d\<lparr>xd_setup_map := am_delete (xd_setup_map d) issuer\<rparr>;
                     sd = setup_data_of (mem_trb (ue_mem e) setup)
                 in case TRBDynamicCast DataStageTRB issuer_trb of
                      Some data \<Rightarrow>
                        on_control_completed us sd (DataStageTRB_Pointer data)
                          (transferred (get_trb DataStageTRB ''trb_transfer_length'' data) residual_length) d e
                    | None \<Rightarrow>
                        if TRBDynamicCast StatusStageTRB issuer_trb \<noteq> None
                        then on_control_completed us sd 0 0 d e
                        else Some (kNotImplemented, d, e)))"

end
