(* ===== verification/Xhci_Devices.thy ===== *)
theory Xhci_Devices imports Usb_Init begin

text \<open>
  \<^verbatim>\<open>Kernel/usb/xhci/devmgr.hpp\<close>, \<^verbatim>\<open>devmgr.cpp\<close>: the table of devices by slot and the array of device
  context pointers the controller reads. A slot without a device is a null pointer.
\<close>

(*@ Kernel/usb/xhci/devmgr.hpp:31-37 DeviceManager *)
record device_manager =
  dm_contexts_addr :: u64
  dm_contexts :: "u64 list"
  dm_max_slots :: nat
  dm_devices :: "xhci_device option list"

text \<open>The size of a \<^verbatim>\<open>Device\<close> object and the offsets of its members are the compiler's.\<close>

record device_layout =
  dl_size :: u64
  dl_ctx :: u64
  dl_input :: u64
  dl_buf :: u64

(*@ Kernel/usb/xhci/devmgr.cpp:6-26 DeviceManager::Initialize *)
definition dm_initialize :: "nat \<Rightarrow> device_manager \<Rightarrow> usb_mem \<Rightarrow> error_code \<times> device_manager \<times> usb_mem" where
  "dm_initialize max_slots dm m =
    (let dm = dm\<lparr>dm_max_slots := max_slots\<rparr>;
         (devices, m) = usb_alloc 8 (of_nat (max_slots + 1)) 0 0 m
     in if devices = 0 then (kNoEnoughMemory, dm, m)
        else
          let (ctxs, m) = usb_alloc 8 (of_nat (max_slots + 1)) 64 4096 m;
              dm = dm\<lparr>dm_contexts_addr := ctxs\<rparr>
          in if ctxs = 0 then (kNoEnoughMemory, dm, m)
             else (kSuccess,
               dm\<lparr>dm_devices := replicate (max_slots + 1) None, dm_contexts := replicate (max_slots + 1) 0\<rparr>,
               m))"

definition find_device :: "(xhci_device \<Rightarrow> bool) \<Rightarrow> device_manager \<Rightarrow> xhci_device option" where
  "find_device P dm =
    find P (List.map_filter (\<lambda>i. dm_devices dm ! i) [1..<dm_max_slots dm + 1])"

definition root_hub_port :: "xhci_device \<Rightarrow> u8" where
  "root_hub_port d = ucast (get_member SlotContext_bits ''root_hub_port_num'' (dc_slot (xd_ctx d)))"

text \<open>The route string is an argument of the source that its body does not use.\<close>

(*@ Kernel/usb/xhci/devmgr.cpp:32-41 DeviceManager::FindByPort *)
definition find_by_port :: "u8 \<Rightarrow> u32 \<Rightarrow> device_manager \<Rightarrow> xhci_device option" where
  "find_by_port port_num route_string dm = find_device (\<lambda>d. root_hub_port d = port_num) dm"

(*@ Kernel/usb/xhci/devmgr.cpp:43-52 DeviceManager::FindByState *)
definition find_by_state :: "device_state \<Rightarrow> device_manager \<Rightarrow> xhci_device option" where
  "find_by_state state dm = find_device (\<lambda>d. xd_state d = state) dm"

(*@ Kernel/usb/xhci/devmgr.cpp:54-59 DeviceManager::FindBySlot *)
definition find_by_slot :: "u8 \<Rightarrow> device_manager \<Rightarrow> xhci_device option" where
  "find_by_slot slot_id dm =
    (if dm_max_slots dm < unat slot_id then None else dm_devices dm ! unat slot_id)"

text \<open>The memory of a device comes from the cleared pool, so what its constructor does not set is 0.
  Constructing a device at a null pointer is \<open>None\<close>.\<close>

definition blank_device :: "device_layout \<Rightarrow> u64 \<Rightarrow> u8 \<Rightarrow> u64 \<Rightarrow> xhci_device" where
  "blank_device dl p slot_id dbreg =
    \<lparr>ud_class_drivers = replicate 16 None, ud_buf = p + dl_buf dl, ud_num_configurations = 0,
     ud_config_index = 0, ud_initialized = False, ud_phase = 0,
     ud_ep_configs = replicate 16 \<lparr>ec_id = 0, ec_type = EP_Control, ec_max_packet_size = 0, ec_interval = 0\<rparr>,
     ud_num_ep_configs = 0,
     ud_waiters = replicate 4 (None, 0), ud_drivers = [],
     xd_ctx = \<lparr>dc_slot = 0, dc_ep = replicate 31 0\<rparr>,
     xd_input = \<lparr>ic_drop_flags = 0, ic_add_flags = 0, ic_slot = 0, ic_ep = replicate 31 0\<rparr>,
     xd_input_addr = p + dl_input dl, xd_ctx_addr = p + dl_ctx dl, xd_slot = slot_id,
     xd_state = Dev_Invalid, xd_doorbell = dbreg, xd_rings = replicate 31 None,
     xd_setup_map = replicate 16 (None, 0)\<rparr>"

(*@ Kernel/usb/xhci/devmgr.cpp:70-82 DeviceManager::AllocDevice *)
definition alloc_device ::
  "device_layout \<Rightarrow> u8 \<Rightarrow> u64 \<Rightarrow> device_manager \<Rightarrow> usb_mem \<Rightarrow> (error_code \<times> device_manager \<times> usb_mem) option" where
  "alloc_device dl slot_id dbreg dm m =
    (if dm_max_slots dm < unat slot_id then Some (kInvalidSlotID, dm, m)
     else if dm_devices dm ! unat slot_id \<noteq> None then Some (kAlreadyAllocated, dm, m)
     else case usb_alloc (dl_size dl) 1 64 4096 m of
       (p, m) \<Rightarrow>
         if p = 0 then None
         else Some (kSuccess,
           dm\<lparr>dm_devices := (dm_devices dm)[unat slot_id := Some (blank_device dl p slot_id dbreg)]\<rparr>, m))"

(*@ Kernel/usb/xhci/devmgr.cpp:84-92 DeviceManager::LoadDCBAA *)
definition load_dcbaa :: "u8 \<Rightarrow> device_manager \<Rightarrow> (error_code \<times> device_manager) option" where
  "load_dcbaa slot_id dm =
    (if dm_max_slots dm < unat slot_id then Some (kInvalidSlotID, dm)
     else case dm_devices dm ! unat slot_id of
       None \<Rightarrow> None
     | Some dev \<Rightarrow> Some (kSuccess, dm\<lparr>dm_contexts := (dm_contexts dm)[unat slot_id := xd_ctx_addr dev]\<rparr>))"

(*@ Kernel/usb/xhci/devmgr.cpp:94-99 DeviceManager::Remove *)
definition remove_device :: "u8 \<Rightarrow> device_manager \<Rightarrow> (error_code \<times> device_manager) option" where
  "remove_device slot_id dm =
    (if dm_max_slots dm < unat slot_id then None
     else Some (kSuccess, dm\<lparr>dm_contexts := (dm_contexts dm)[unat slot_id := 0],
                             dm_devices := (dm_devices dm)[unat slot_id := None]\<rparr>))"

end
