(* ===== verification/Xhci.thy ===== *)
theory Xhci imports Xhci_Devices Xhci_Port begin

text \<open>
  \<^verbatim>\<open>Kernel/usb/xhci/xhci.cpp\<close>, \<^verbatim>\<open>xhci.hpp\<close>: the driver of the host controller once it runs. Every
  port goes through the phases of \<open>config_phase\<close>; commands go out through the command ring, and
  events (a port has changed, a command is done, a transfer is done) come in through the event
  ring and move the ports on. Between the reset of a port and the address of its device no other
  port may be in between, because an unaddressed device answers at address 0: \<open>addressing_port\<close> is
  the port that has the floor, and ports that come later wait.

  Globals of the source (\<^verbatim>\<open>port_config_phase\<close>, \<^verbatim>\<open>addressing_port\<close>) are members of the record
  \<open>controller\<close>. \<open>None\<close> is an access through a null pointer, or a wait that never ends.
\<close>

section \<open>State\<close>

(*@ Kernel/usb/xhci/xhci.cpp:25-34 ConfigPhase *)
datatype config_phase =
    kNotConnected | kWaitingAddressed | kResettingPort | kEnablingSlot | kAddressingDevice
  | kInitializingDevice | kConfiguringEndpoints | kConfigured

(*@ Kernel/usb/xhci/xhci.hpp:35-42 Controller *)
record controller =
  xc_mmio :: u64
  xc_op :: u64
  xc_max_ports :: u8
  xc_devmgr :: device_manager
  xc_cr :: ring
  xc_er :: event_ring
  xc_phase :: "config_phase list"
  xc_addressing :: u8
  xc_env :: usb_env

text \<open>What surrounds the driver: the device registers, the compiler's layout of a device, and the
  setting of the class drivers.\<close>

record xhci_setting =
  xs_regs :: device_regs
  xs_layout :: device_layout
  xs_usb :: usb_setting

type_synonym ctl_result = "(error_code \<times> controller) option"

abbreviation upd_env :: "(usb_env \<Rightarrow> usb_env) \<Rightarrow> controller \<Rightarrow> controller" where
  "upd_env f c \<equiv> c\<lparr>xc_env := f (xc_env c)\<rparr>"

definition ctl_io :: "controller \<Rightarrow> io" where
  "ctl_io c = ue_io (xc_env c)"

definition set_io :: "io \<Rightarrow> controller \<Rightarrow> controller" where
  "set_io s c = upd_env (ue_io_update (\<lambda>_. s)) c"

definition phase_of :: "controller \<Rightarrow> u8 \<Rightarrow> config_phase" where
  "phase_of c p = xc_phase c ! unat p"

definition set_phase :: "u8 \<Rightarrow> config_phase \<Rightarrow> controller \<Rightarrow> controller" where
  "set_phase p ph c = c\<lparr>xc_phase := (xc_phase c)[unat p := ph]\<rparr>"

definition put_device :: "u8 \<Rightarrow> xhci_device \<Rightarrow> controller \<Rightarrow> controller" where
  "put_device slot d c =
    c\<lparr>xc_devmgr := (xc_devmgr c)\<lparr>dm_devices := (dm_devices (xc_devmgr c))[unat slot := Some d]\<rparr>\<rparr>"

section \<open>Registers and commands\<close>

(*@ Kernel/usb/xhci/xhci.hpp:26-28 Controller::PortAt *)
definition port_at :: "controller \<Rightarrow> u8 \<Rightarrow> port" where
  "port_at c n = \<lparr>port_num = n, port_regs = array_at (xc_op c + 0x400) PortRegisterSet (ucast n - 1)\<rparr>"

(*@ Kernel/usb/xhci/xhci.cpp:436-438 Controller::DoorbellRegisterAt *)
definition doorbell_at :: "xhci_setting \<Rightarrow> u8 \<Rightarrow> controller \<Rightarrow> u64 \<times> controller" where
  "doorbell_at xs index c =
    (let (v, s) = reg_read (xs_regs xs) (reg_at (xc_mmio c) CapabilityRegisters ''DBOFF'') (ctl_io c)
     in (xc_mmio c + DBOFF_Offset v + 4 * ucast index, set_io s c))"

text \<open>\<^verbatim>\<open>CommandRing()->Push(cmd); DoorbellRegisterAt(0)->Ring(0);\<close>\<close>

definition issue_command :: "xhci_setting \<Rightarrow> trb \<Rightarrow> controller \<Rightarrow> controller" where
  "issue_command xs cmd c =
    (case ring_push cmd (xc_cr c) (mem_trb (ue_mem (xc_env c))) of (_, r, f) \<Rightarrow>
      let c = upd_env (ue_mem_update (mem_trb_update (\<lambda>_. f))) (c\<lparr>xc_cr := r\<rparr>);
          (db, c) = doorbell_at xs 0 c
      in set_io (ring_doorbell db 0 0 (ctl_io c)) c)"

section \<open>The steps of configuring a port\<close>

(*@ Kernel/usb/xhci/xhci.cpp:48-53 InitializeSlotContext *)
definition initialize_slot_context :: "u8 \<Rightarrow> u64 \<Rightarrow> 256 word \<Rightarrow> 256 word" where
  "initialize_slot_context port_number speed ctx =
    put_member SlotContext_bits ''speed'' (ucast speed)
    (put_member SlotContext_bits ''context_entries'' 1
    (put_member SlotContext_bits ''root_hub_port_num'' (ucast port_number)
    (put_member SlotContext_bits ''route_string'' 0 ctx)))"

(*@ Kernel/usb/xhci/xhci.cpp:55-64 DetermineMaxPacketSizeForControlPipe *)
definition determine_max_packet_size :: "256 word \<Rightarrow> 256 word" where
  "determine_max_packet_size slot_speed =
    (if slot_speed = 4 then 512 else if slot_speed = 3 then 64 else 8)"

(*@ Kernel/usb/xhci/xhci.cpp:77-89 InitializeEP0Context *)
definition initialize_ep0_context :: "u64 \<Rightarrow> 256 word \<Rightarrow> 256 word \<Rightarrow> 256 word" where
  "initialize_ep0_context ring_buffer max_packet_size ctx =
    put_member EndpointContext_bits ''error_count'' 3
    (put_member EndpointContext_bits ''mult'' 0
    (put_member EndpointContext_bits ''max_primary_streams'' 0
    (put_member EndpointContext_bits ''interval'' 0
    (put_member EndpointContext_bits ''dequeue_cycle_state'' 1
    (ep_SetTransferRingBuffer ring_buffer
    (put_member EndpointContext_bits ''max_burst_size'' 0
    (put_member EndpointContext_bits ''max_packet_size'' max_packet_size
    (put_member EndpointContext_bits ''ep_type'' 4 ctx))))))))"

(*@ Kernel/usb/xhci/xhci.cpp:91-113 ResetPort *)
definition ctl_reset_port :: "xhci_setting \<Rightarrow> port \<Rightarrow> controller \<Rightarrow> ctl_result" where
  "ctl_reset_port xs p c =
    (let (connected, s) = is_connected (xs_regs xs) p (ctl_io c); c = set_io s c
     in if \<not> connected then Some (kSuccess, c)
        else if xc_addressing c \<noteq> 0 then Some (kSuccess, set_phase (port_num p) kWaitingAddressed c)
        else if phase_of c (port_num p) \<noteq> kNotConnected \<and> phase_of c (port_num p) \<noteq> kWaitingAddressed
        then Some (kInvalidPhase, c)
        else
          let c = set_phase (port_num p) kResettingPort (c\<lparr>xc_addressing := port_num p\<rparr>)
          in case port_reset (xs_regs xs) p (ctl_io c) of
               None \<Rightarrow> None
             | Some (_, s) \<Rightarrow> Some (kSuccess, set_io s c))"

(*@ Kernel/usb/xhci/xhci.cpp:115-132 EnableSlot *)
definition enable_slot :: "xhci_setting \<Rightarrow> port \<Rightarrow> controller \<Rightarrow> error_code \<times> controller" where
  "enable_slot xs p c =
    (let (enabled, s) = is_enabled (xs_regs xs) p (ctl_io c);
         (reset_completed, s) = is_port_reset_changed (xs_regs xs) p s;
         c = set_io s c
     in if enabled \<and> reset_completed
        then (kSuccess,
          issue_command xs new_EnableSlotCommandTRB
            (set_phase (port_num p) kEnablingSlot
              (set_io (clear_port_reset_change (xs_regs xs) p (ctl_io c)) c)))
        else (kSuccess, c))"

text \<open>The error of \<^verbatim>\<open>AllocDevice\<close> is not looked at: a slot that already has a device keeps it.\<close>

(*@ Kernel/usb/xhci/xhci.cpp:134-167 AddressDevice *)
definition address_device :: "xhci_setting \<Rightarrow> u8 \<Rightarrow> u8 \<Rightarrow> controller \<Rightarrow> ctl_result" where
  "address_device xs port_id slot_id c =
    (let (db, c) = doorbell_at xs slot_id c
     in do {
       (_, dm, m) \<leftarrow> alloc_device (xs_layout xs) slot_id db (xc_devmgr c) (ue_mem (xc_env c));
       c \<leftarrow> Some (upd_env (ue_mem_update (\<lambda>_. m)) (c\<lparr>xc_devmgr := dm\<rparr>));
       (case find_by_slot slot_id (xc_devmgr c) of
          None \<Rightarrow> Some (kInvalidSlotID, c)
        | Some dev \<Rightarrow>
            let ep0_dci = dci_of_num 0 False;
                (speed, s) = port_speed (xs_regs xs) (port_at c port_id) (ctl_io c);
                c = set_io s c;
                ic = clear_control_context (xd_input dev);
                ic = enable_slot_context ic;
                ic = enable_endpoint ep0_dci (\<lambda>ctx. ctx) ic;
                ic = ic\<lparr>ic_slot := initialize_slot_context port_id speed (ic_slot ic)\<rparr>;
                (dev, env) = alloc_transfer_ring ep0_dci 32 dev (xc_env c);
                c = c\<lparr>xc_env := env\<rparr>
            in (case xd_rings dev ! nat (ep0_dci - 1) of
                  None \<Rightarrow> None
                | Some tr \<Rightarrow> do {
                    dev \<leftarrow> Some (dev\<lparr>xd_input := ic\<lparr>ic_ep := (ic_ep ic)[nat (ep0_dci - 1) :=
                      initialize_ep0_context (ring_buf tr)
                        (determine_max_packet_size (get_member SlotContext_bits ''speed'' (ic_slot ic)))
                        (ic_ep ic ! nat (ep0_dci - 1))]\<rparr>\<rparr>);
                    c \<leftarrow> Some (put_device slot_id dev c);
                    (_, dm) \<leftarrow> load_dcbaa slot_id (xc_devmgr c);
                    Some (kSuccess,
                      issue_command xs (new_AddressDeviceCommandTRB (xd_input_addr dev) slot_id)
                        (set_phase port_id kAddressingDevice (c\<lparr>xc_devmgr := dm\<rparr>)))
                  }))
     })"

(*@ Kernel/usb/xhci/xhci.cpp:169-181 InitializeDevice *)
definition initialize_device :: "u8 \<Rightarrow> u8 \<Rightarrow> controller \<Rightarrow> ctl_result" where
  "initialize_device port_id slot_id c =
    (case find_by_slot slot_id (xc_devmgr c) of
       None \<Rightarrow> Some (kInvalidSlotID, c)
     | Some dev \<Rightarrow> do {
         c \<leftarrow> Some (set_phase port_id kInitializingDevice c);
         (_, dev, env) \<leftarrow> start_initialize dev (xc_env c);
         Some (kSuccess, put_device slot_id dev (c\<lparr>xc_env := env\<rparr>))
       })"

(*@ Kernel/usb/xhci/xhci.cpp:183-195 CompleteConfiguration *)
definition complete_configuration :: "u8 \<Rightarrow> u8 \<Rightarrow> controller \<Rightarrow> ctl_result" where
  "complete_configuration port_id slot_id c =
    (case find_by_slot slot_id (xc_devmgr c) of
       None \<Rightarrow> Some (kInvalidSlotID, c)
     | Some dev \<Rightarrow> do {
         (_, dev, env) \<leftarrow> on_endpoints_configured dev (xc_env c);
         Some (kSuccess, set_phase port_id kConfigured (put_device slot_id dev (c\<lparr>xc_env := env\<rparr>)))
       })"

section \<open>Configuring the endpoints\<close>

text \<open>The position of the highest bit, as the \<^verbatim>\<open>bsr\<close> instruction gives it.\<close>

(*@ Kernel/usb/xhci/xhci.cpp:66-75 MostSignificantBit *)
definition most_significant_bit :: "u32 \<Rightarrow> int" where
  "most_significant_bit v = (if v = 0 then -1 else int (Max (set (filter (bit v) [0..<32]))))"

(*@ Kernel/usb/xhci/xhci.cpp:463-471 ConfigureEndpoints *)
definition convert_interval :: "u64 \<Rightarrow> endpoint_type \<Rightarrow> int \<Rightarrow> int" where
  "convert_interval speed typ interval =
    (if speed = 1 \<or> speed = 2
     then (if typ = EP_Isochronous then interval + 2 else most_significant_bit (of_int interval) + 3)
     else interval - 1)"

(*@ Kernel/usb/xhci/xhci.cpp:476-489 ConfigureEndpoints *)
definition context_ep_type :: "endpoint_config \<Rightarrow> 256 word" where
  "context_ep_type c = (case ec_type c of
      EP_Control \<Rightarrow> 4
    | EP_Isochronous \<Rightarrow> if ep_is_in (ec_id c) then 5 else 1
    | EP_Bulk \<Rightarrow> if ep_is_in (ec_id c) then 6 else 2
    | EP_Interrupt \<Rightarrow> if ep_is_in (ec_id c) then 7 else 3)"

definition fill_ep_context :: "u64 \<Rightarrow> endpoint_config \<Rightarrow> u64 \<Rightarrow> 256 word \<Rightarrow> 256 word" where
  "fill_ep_context speed c ring_buffer ctx =
    put_member EndpointContext_bits ''error_count'' 3
    (put_member EndpointContext_bits ''mult'' 0
    (put_member EndpointContext_bits ''max_primary_streams'' 0
    (put_member EndpointContext_bits ''dequeue_cycle_state'' 1
    (ep_SetTransferRingBuffer ring_buffer
    (put_member EndpointContext_bits ''average_trb_length'' 1
    (put_member EndpointContext_bits ''interval'' (of_int (convert_interval speed (ec_type c) (ec_interval c)))
    (put_member EndpointContext_bits ''max_packet_size'' (of_int (ec_max_packet_size c))
    (put_member EndpointContext_bits ''ep_type'' (context_ep_type c) ctx))))))))"

text \<open>One round of the loop. Index 0 would be the slot context and ring \<open>-1\<close>.\<close>

(*@ Kernel/usb/xhci/xhci.cpp:474-500 ConfigureEndpoints *)
definition configure_endpoint :: "u64 \<Rightarrow> endpoint_config \<Rightarrow> xhci_device \<times> usb_env \<Rightarrow> (xhci_device \<times> usb_env) option" where
  "configure_endpoint speed conf s = (case s of (dev, env) \<Rightarrow>
    let dci = dci_of_ep (ec_id conf)
    in if dci < 1 \<or> 31 < dci then None
       else
         let (dev, env) = alloc_transfer_ring dci 32 dev env
         in case xd_rings dev ! nat (dci - 1) of
              None \<Rightarrow> None
            | Some tr \<Rightarrow>
                Some (dev\<lparr>xd_input := enable_endpoint dci (fill_ep_context speed conf (ring_buf tr)) (xd_input dev)\<rparr>,
                      env))"

fun configure_each :: "u64 \<Rightarrow> endpoint_config list \<Rightarrow> xhci_device \<times> usb_env \<Rightarrow> (xhci_device \<times> usb_env) option" where
  "configure_each speed [] s = Some s"
| "configure_each speed (conf # cs) s = Option.bind (configure_endpoint speed conf s) (configure_each speed cs)"

(*@ Kernel/usb/xhci/xhci.cpp:447-510 ConfigureEndpoints *)
definition configure_endpoints :: "xhci_setting \<Rightarrow> u8 \<Rightarrow> xhci_device \<Rightarrow> controller \<Rightarrow> ctl_result" where
  "configure_endpoints xs slot dev c =
    (let configs = ud_ep_configs dev; len = ud_num_ep_configs dev;
         ic = clear_control_context (xd_input dev);
         ic = ic\<lparr>ic_slot := dc_slot (xd_ctx dev)\<rparr>;
         ic = enable_slot_context ic;
         ic = ic\<lparr>ic_slot := put_member SlotContext_bits ''context_entries'' 31 (ic_slot ic)\<rparr>;
         dev = dev\<lparr>xd_input := ic\<rparr>;
         c = put_device slot dev c;
         port_id = root_hub_port dev;
         (speed, s) = port_speed (xs_regs xs) (port_at c port_id) (ctl_io c);
         c = set_io s c
     in if speed = 0 \<or> 5 < speed then Some (kUnknownXHCISpeedID, c)
        else do {
          (dev, env) \<leftarrow> configure_each speed (take (nat len) configs) (dev, xc_env c);
          Some (kSuccess,
            issue_command xs (new_ConfigureEndpointCommandTRB (xd_input_addr dev) (xd_slot dev))
              (set_phase port_id kConfiguringEndpoints (put_device slot dev (c\<lparr>xc_env := env\<rparr>))))
        })"

section \<open>Events\<close>

(*@ Kernel/usb/xhci/xhci.cpp:197-210 OnEvent *)
definition on_port_status_change :: "xhci_setting \<Rightarrow> trb \<Rightarrow> controller \<Rightarrow> ctl_result" where
  "on_port_status_change xs t c =
    (let port_id = ucast (get_trb PortStatusChangeEventTRB ''port_id'' t); p = port_at c port_id
     in case phase_of c port_id of
          kNotConnected \<Rightarrow> ctl_reset_port xs p c
        | kResettingPort \<Rightarrow> Some (enable_slot xs p c)
        | _ \<Rightarrow> Some (kInvalidPhase, c))"

(*@ Kernel/usb/xhci/xhci.cpp:212-228 OnEvent *)
definition on_transfer :: "xhci_setting \<Rightarrow> trb \<Rightarrow> controller \<Rightarrow> ctl_result" where
  "on_transfer xs t c =
    (let slot_id = ucast (get_trb TransferEventTRB ''slot_id'' t)
     in case find_by_slot slot_id (xc_devmgr c) of
          None \<Rightarrow> Some (kInvalidSlotID, c)
        | Some dev \<Rightarrow> do {
            (err, dev, env) \<leftarrow> on_transfer_event (xs_usb xs) t dev (xc_env c);
            c \<leftarrow> Some (put_device slot_id dev (c\<lparr>xc_env := env\<rparr>));
            if is_error err then Some (err, c)
            else if ud_initialized dev \<and> phase_of c (root_hub_port dev) = kInitializingDevice
            then configure_endpoints xs slot_id dev c
            else Some (kSuccess, c)
          })"

text \<open>The first port that waits for its turn.\<close>

definition first_waiting :: "controller \<Rightarrow> u8 option" where
  "first_waiting c = map_option of_nat (find (\<lambda>i. xc_phase c ! i = kWaitingAddressed) [0..<256])"

(*@ Kernel/usb/xhci/xhci.cpp:257-268 OnEvent *)
definition on_device_addressed :: "xhci_setting \<Rightarrow> u8 \<Rightarrow> u8 \<Rightarrow> controller \<Rightarrow> ctl_result" where
  "on_device_addressed xs port_id slot_id c =
    (let c = c\<lparr>xc_addressing := 0\<rparr>
     in case first_waiting c of
          None \<Rightarrow> initialize_device port_id slot_id c
        | Some i \<Rightarrow> do {
            (err, c) \<leftarrow> ctl_reset_port xs (port_at c i) c;
            if is_error err then Some (err, c) else initialize_device port_id slot_id c
          })"

(*@ Kernel/usb/xhci/xhci.cpp:230-284 OnEvent *)
definition on_command_completion :: "xhci_setting \<Rightarrow> trb \<Rightarrow> controller \<Rightarrow> ctl_result" where
  "on_command_completion xs t c =
    (let issuer = mem_trb (ue_mem (xc_env c)) (CommandCompletionEventTRB_Pointer t);
         issuer_type = get_member TRB_bits ''trb_type'' issuer;
         slot_id = ucast (get_trb CommandCompletionEventTRB ''slot_id'' t)
     in if issuer_type = of_nat (trb_type EnableSlotCommandTRB)
        then
          if phase_of c (xc_addressing c) \<noteq> kEnablingSlot then Some (kInvalidPhase, c)
          else address_device xs (xc_addressing c) slot_id c
        else if issuer_type = of_nat (trb_type AddressDeviceCommandTRB)
        then (case find_by_slot slot_id (xc_devmgr c) of
            None \<Rightarrow> Some (kInvalidSlotID, c)
          | Some dev \<Rightarrow>
              if root_hub_port dev \<noteq> xc_addressing c then Some (kInvalidPhase, c)
              else if phase_of c (root_hub_port dev) \<noteq> kAddressingDevice then Some (kInvalidPhase, c)
              else on_device_addressed xs (root_hub_port dev) slot_id c)
        else if issuer_type = of_nat (trb_type ConfigureEndpointCommandTRB)
        then (case find_by_slot slot_id (xc_devmgr c) of
            None \<Rightarrow> Some (kInvalidSlotID, c)
          | Some dev \<Rightarrow>
              if phase_of c (root_hub_port dev) \<noteq> kConfiguringEndpoints then Some (kInvalidPhase, c)
              else complete_configuration (root_hub_port dev) slot_id c)
        else Some (kInvalidPhase, c))"

(*@ Kernel/usb/xhci/xhci.cpp:440-445 ConfigurePort *)
definition configure_port :: "xhci_setting \<Rightarrow> port \<Rightarrow> controller \<Rightarrow> ctl_result" where
  "configure_port xs p c =
    (if phase_of c (port_num p) = kNotConnected then ctl_reset_port xs p c else Some (kSuccess, c))"

definition on_event :: "xhci_setting \<Rightarrow> trb \<Rightarrow> controller \<Rightarrow> ctl_result" where
  "on_event xs t c =
    (if TRBDynamicCast TransferEventTRB t \<noteq> None then on_transfer xs t c
     else if TRBDynamicCast PortStatusChangeEventTRB t \<noteq> None then on_port_status_change xs t c
     else if TRBDynamicCast CommandCompletionEventTRB t \<noteq> None then on_command_completion xs t c
     else Some (kNotImplemented, c))"

(*@ Kernel/usb/xhci/xhci.cpp:512-529 ProcessEvent *)
definition process_event :: "xhci_setting \<Rightarrow> controller \<Rightarrow> ctl_result" where
  "process_event xs c =
    (let (has, s) = er_has_front (xs_regs xs) (mem_trb (ue_mem (xc_env c))) (xc_er c) (ctl_io c);
         c = set_io s c
     in if \<not> has then Some (kSuccess, c)
        else
          let (event_trb, s) = er_front (xs_regs xs) (mem_trb (ue_mem (xc_env c))) (xc_er c) (ctl_io c);
              c = set_io s c
          in do {
            (err, c) \<leftarrow> on_event xs event_trb c;
            (er, s) \<leftarrow> Some (er_pop (xs_regs xs) (xc_er c) (ctl_io c));
            Some (err, set_io s (c\<lparr>xc_er := er\<rparr>))
          })"

text \<open>The loop ends when the ring is empty; an error of one event does not stop it. The fuel bounds
  the number of events.\<close>

(*@ Kernel/usb/xhci/xhci.cpp:594-601 ProcessEvents *)
fun process_events :: "nat \<Rightarrow> xhci_setting \<Rightarrow> controller \<Rightarrow> controller option" where
  "process_events 0 xs c = None"
| "process_events (Suc n) xs c =
    (let (has, s) = er_has_front (xs_regs xs) (mem_trb (ue_mem (xc_env c))) (xc_er c) (ctl_io c);
         c = set_io s c
     in if has then do { (_, c) \<leftarrow> process_event xs c; process_events n xs c } else Some c)"

end
