(* ===== verification/Usb_Transfer.thy ===== *)
theory Usb_Transfer imports Xhci_Devices Trb_Channel begin

text \<open>
  Requests and their completions: what the controller finds on a transfer ring after \<open>ControlIn\<close>,
  and that the event for it leads back to the request. The device has no other record of its
  request than the TRBs in the ring and the map from the TRB that reports completion to the setup
  stage; the lemmas show that this is enough.
\<close>

section \<open>One push\<close>

definition next_slot :: "nat \<Rightarrow> nat \<Rightarrow> nat" where
  "next_slot n w = (if Suc w = n - 1 then 0 else Suc w)"

lemma ring_push_effect:
  assumes ok: "ring_ok n r f" and push: "ring_push t r f = (p, r', f')"
  shows "p = slot r (ring_write r)" "ring_buf r' = ring_buf r"
    "ring_write r' = next_slot n (ring_write r)"
    "f' p = with_cycle (ring_cycle r) t"
    "i < n - 1 \<Longrightarrow> i \<noteq> ring_write r \<Longrightarrow> f' (slot r i) = f (slot r i)"
    "ring_ok n r' f'"
proof -
  have n: "2 \<le> n" "n \<le> 4096" "ring_size r = n" "ring_write r < n - 1" "take_bit 4 (ring_buf r) = 0"
    using ok by (auto simp: ring_ok_def)
  let ?w = "ring_write r"
  have sep: "slot r j = slot r k \<longleftrightarrow> j = k" if "j < n" "k < n" for j k
    using that n by (simp add: slot_inj)
  show "p = slot r ?w" "ring_buf r' = ring_buf r" "ring_write r' = next_slot n ?w"
    using push n by (auto simp: ring_push_eq Let_def next_slot_def split: if_splits)
  show "f' p = with_cycle (ring_cycle r) t"
    using push n sep [of ?w "n - 1"] by (auto simp: ring_push_eq Let_def split: if_splits)
  have other: "i < n - 1 \<Longrightarrow> i \<noteq> ?w \<Longrightarrow> f' (slot r i) = f (slot r i)" for i
    using push n sep [of i ?w] sep [of i "n - 1"] by (auto simp: ring_push_eq Let_def split: if_splits)
  then show "i < n - 1 \<Longrightarrow> i \<noteq> ?w \<Longrightarrow> f' (slot r i) = f (slot r i)" .
  have slots: "slot r' = slot r"
    using push by (auto simp: ring_push_eq Let_def split: if_splits)
  have link: "f' (slot r (n - 1)) = (if Suc ?w = n - 1 then with_cycle (ring_cycle r) (ring_link r) else f (slot r (n - 1)))"
    using push n sep [of "n - 1" ?w] by (auto simp: ring_push_eq Let_def split: if_splits)
  have cyc: "ring_cycle r' = (if Suc ?w = n - 1 then \<not> ring_cycle r else ring_cycle r)" "ring_size r' = n"
    using push n by (auto simp: ring_push_eq Let_def split: if_splits)
  show "ring_ok n r' f'"
    unfolding ring_ok_def
  proof (intro conjI allI impI)
    fix j
    assume j: "j < n - 1"
    show "trb_cycle (f' (slot r' j)) = (if j < ring_write r' then ring_cycle r' else \<not> ring_cycle r')"
    proof (cases "j = ?w")
      case True
      then show ?thesis
        using \<open>f' p = _\<close> \<open>p = _\<close> \<open>ring_write r' = _\<close> by (auto simp: slots cyc next_slot_def)
    next
      case False
      then show ?thesis
        using other [OF j False] ok j n \<open>ring_write r' = _\<close> by (auto simp: slots cyc next_slot_def ring_ok_def)
    qed
  qed (use n ok link cyc \<open>ring_write r' = _\<close> \<open>ring_buf r' = _\<close> in
      \<open>auto simp: slots next_slot_def ring_ok_def\<close>)
qed

text \<open>The same on the ring of a device.\<close>

definition ring_of :: "nat \<Rightarrow> nat \<Rightarrow> xhci_device \<Rightarrow> usb_env \<Rightarrow> ring \<Rightarrow> bool" where
  "ring_of n i d e r \<longleftrightarrow> i < length (xd_rings d) \<and> xd_rings d ! i = Some r \<and> ring_buf r \<noteq> 0
    \<and> ring_ok n r (mem_trb (ue_mem e))"

lemma push_trb_effect:
  assumes "ring_of n i d e r"
  obtains r' f' where
    "push_trb i t d e = Some (slot r (ring_write r), d\<lparr>xd_rings := (xd_rings d)[i := Some r']\<rparr>,
       e\<lparr>ue_mem := (ue_mem e)\<lparr>mem_trb := f'\<rparr>\<rparr>)"
    "ring_of n i (d\<lparr>xd_rings := (xd_rings d)[i := Some r']\<rparr>) (e\<lparr>ue_mem := (ue_mem e)\<lparr>mem_trb := f'\<rparr>\<rparr>) r'"
    "slot r' = slot r" "ring_write r' = next_slot n (ring_write r)"
    "f' (slot r (ring_write r)) = with_cycle (ring_cycle r) t"
    "\<forall>j < n - 1. j \<noteq> ring_write r \<longrightarrow> f' (slot r j) = mem_trb (ue_mem e) (slot r j)"
proof -
  obtain p r' f' where push: "ring_push t r (mem_trb (ue_mem e)) = (p, r', f')" by (metis prod_cases3)
  have ok: "ring_ok n r (mem_trb (ue_mem e))" using assms by (simp add: ring_of_def)
  note eff = ring_push_effect [OF ok push]
  show ?thesis
  proof (rule that [of r' f'])
    show "slot r' = slot r" using eff(2) by (simp add: slot_def fun_eq_iff)
  qed (use assms push eff in \<open>auto simp: push_trb_def ring_of_def\<close>)
qed

section \<open>The setup packet in the ring\<close>

lemma ucast_take_ucast:
  fixes x :: "'a::len word"
  assumes "LENGTH('a) \<le> w" "w \<le> 128"
  shows "ucast (take_bit w (ucast x :: trb)) = x"
  by (intro bit_eqI)
    (use assms in \<open>auto simp: bit_unsigned_iff bit_take_bit_iff dest!: bit_imp_le_length [of x]\<close>)

lemma setup_widths [simp]:
  "member_width SetupStageTRB_bits ''request_type'' = 8"
  "member_width SetupStageTRB_bits ''request'' = 8"
  "member_width SetupStageTRB_bits ''value'' = 16"
  "member_width SetupStageTRB_bits ''index'' = 16"
  "member_width SetupStageTRB_bits ''length'' = 16"
  "member_width DataStageTRB_bits ''trb_transfer_length'' = 17"
  by (simp_all add: member_width_def trb_layouts)

lemma setup_data_roundtrip: "setup_data_of (with_cycle c (make_setup_stage sd tt)) = sd"
  by (simp add: setup_data_of_def make_setup_stage_def ucast_take_ucast)

lemma is_setup_stage [simp]: "is_trb SetupStageTRB (make_setup_stage sd tt)"
  by (simp add: make_setup_stage_def new_SetupStageTRB_def)

lemma is_data_stage [simp]: "is_trb DataStageTRB (make_data_stage buf len dir_in)"
  by (simp add: make_data_stage_def DataStageTRB_SetPointer_def new_DataStageTRB_def)

lemma data_stage_pointer:
  "DataStageTRB_Pointer (with_cycle c (put_trb DataStageTRB ''interrupt_on_completion'' 1 (make_data_stage buf len dir))) = buf"
  by (simp add: DataStageTRB_Pointer_def make_data_stage_def DataStageTRB_SetPointer_def)

lemma data_stage_length:
  "get_trb DataStageTRB ''trb_transfer_length''
    (with_cycle c (put_trb DataStageTRB ''interrupt_on_completion'' 1 (make_data_stage buf len dir))) =
   take_bit 17 (of_int len)"
  by (simp add: make_data_stage_def)

section \<open>A request with data\<close>

lemma ring_index_ring:
  assumes "ring_of n (nat (ep - 1)) d e r" "1 \<le> ep"
  shows "ring_index (dci_of_ep ep) d = Some (Some (nat (ep - 1)))"
  using assms by (auto simp: ring_index_def dci_of_ep_def ring_of_def)

lemma ep_number_range: "1 \<le> ep \<Longrightarrow> ep \<le> 31 \<Longrightarrow> \<not> (ep_number ep < 0 \<or> 15 < ep_number ep)"
  by (simp add: ep_number_def drop_bit_eq_div)

lemma ring_of_same:
  "ring_of n i (base_control sd issuer d) e r = ring_of n i d e r"
  "xd_setup_map (base_control sd issuer d) = xd_setup_map d"
  by (simp_all add: ring_of_def base_control_def split: option.splits)

text \<open>After \<open>ControlIn\<close> with a buffer, the data stage TRB and the setup stage TRB are in the ring and
  the map leads from the one to the other.\<close>

lemma control_in_data:
  assumes ring: "ring_of n (nat (ep - 1)) d e r" and ep: "1 \<le> ep" "ep \<le> 31" and n: "4 \<le> n"
    and buf: "buf \<noteq> 0"
  obtains d' e' dp sp c c' where
    "control_in ep sd buf len issuer d e = Some (kSuccess, d', e')"
    "dp = slot r (next_slot n (ring_write r))" "sp = slot r (ring_write r)"
    "xd_setup_map d' = am_put (xd_setup_map d) dp sp"
    "mem_trb (ue_mem e') sp = with_cycle c (make_setup_stage sd 3)"
    "mem_trb (ue_mem e') dp =
      with_cycle c' (put_trb DataStageTRB ''interrupt_on_completion'' 1 (make_data_stage buf len True))"
    "ud_initialized d' = ud_initialized d" "ud_phase d' = ud_phase d" "ud_buf d' = ud_buf d"
    "ue_bytes e' = ue_bytes e"
proof -
  let ?i = "nat (ep - 1)" and ?w = "ring_write r" and ?d = "base_control sd issuer d"
  have base: "ring_of n ?i ?d e r" using ring by (simp add: ring_of_same)
  have w: "?w < n - 1" using ring by (simp add: ring_of_def ring_ok_def)
  obtain r1 f1 where p1: "push_trb ?i (make_setup_stage sd 3) ?d e =
       Some (slot r ?w, ?d\<lparr>xd_rings := (xd_rings ?d)[?i := Some r1]\<rparr>, e\<lparr>ue_mem := (ue_mem e)\<lparr>mem_trb := f1\<rparr>\<rparr>)"
    and o1: "ring_of n ?i (?d\<lparr>xd_rings := (xd_rings ?d)[?i := Some r1]\<rparr>) (e\<lparr>ue_mem := (ue_mem e)\<lparr>mem_trb := f1\<rparr>\<rparr>) r1"
    and s1: "slot r1 = slot r" "ring_write r1 = next_slot n ?w"
    and m1: "f1 (slot r ?w) = with_cycle (ring_cycle r) (make_setup_stage sd 3)"
    by (rule push_trb_effect [OF base])
  let ?d1 = "?d\<lparr>xd_rings := (xd_rings ?d)[?i := Some r1]\<rparr>" and ?e1 = "e\<lparr>ue_mem := (ue_mem e)\<lparr>mem_trb := f1\<rparr>\<rparr>"
  let ?data = "put_trb DataStageTRB ''interrupt_on_completion'' 1 (make_data_stage buf len True)"
  obtain r2 f2 where p2: "push_trb ?i ?data ?d1 ?e1 =
       Some (slot r1 (ring_write r1), ?d1\<lparr>xd_rings := (xd_rings ?d1)[?i := Some r2]\<rparr>, ?e1\<lparr>ue_mem := (ue_mem ?e1)\<lparr>mem_trb := f2\<rparr>\<rparr>)"
    and o2: "ring_of n ?i (?d1\<lparr>xd_rings := (xd_rings ?d1)[?i := Some r2]\<rparr>) (?e1\<lparr>ue_mem := (ue_mem ?e1)\<lparr>mem_trb := f2\<rparr>\<rparr>) r2"
    and s2: "slot r2 = slot r1" "ring_write r2 = next_slot n (ring_write r1)"
    and m2: "f2 (slot r1 (ring_write r1)) = with_cycle (ring_cycle r1) ?data"
      "\<forall>j < n - 1. j \<noteq> ring_write r1 \<longrightarrow> f2 (slot r1 j) = f1 (slot r1 j)"
    by (rule push_trb_effect [OF o1]) simp
  let ?d2 = "?d1\<lparr>xd_rings := (xd_rings ?d1)[?i := Some r2]\<rparr>" and ?e2 = "?e1\<lparr>ue_mem := (ue_mem ?e1)\<lparr>mem_trb := f2\<rparr>\<rparr>"
  obtain r3 f3 where p3: "push_trb ?i new_StatusStageTRB ?d2 ?e2 =
       Some (slot r2 (ring_write r2), ?d2\<lparr>xd_rings := (xd_rings ?d2)[?i := Some r3]\<rparr>, ?e2\<lparr>ue_mem := (ue_mem ?e2)\<lparr>mem_trb := f3\<rparr>\<rparr>)"
    and m3: "\<forall>j < n - 1. j \<noteq> ring_write r2 \<longrightarrow> f3 (slot r2 j) = f2 (slot r2 j)"
    by (rule push_trb_effect [OF o2]) simp
  let ?d3 = "?d2\<lparr>xd_rings := (xd_rings ?d2)[?i := Some r3]\<rparr>" and ?e3 = "?e2\<lparr>ue_mem := (ue_mem ?e2)\<lparr>mem_trb := f3\<rparr>\<rparr>"
  let ?sp = "slot r ?w" and ?dp = "slot r (next_slot n ?w)"
  have sp: "?sp \<noteq> 0 \<or> True" by simp
  have cast: "cast_pointer SetupStageTRB ?sp ?e1 = ?sp"
    using m1 by (simp add: cast_pointer_def cast_is_trb)
  have run: "control_in ep sd buf len issuer d e =
      Some (kSuccess, remember_setup ?dp ?sp ?d3, ring_bell (dci_of_ep ep) ?d3 ?e3)"
    using ring_index_ring [OF base ep(1)] ep_number_range [OF ep] buf p1 p2 p3 s1 cast
    by (simp add: control_in_def Let_def)
  have dist: "?w \<noteq> next_slot n ?w" "next_slot n (next_slot n ?w) \<noteq> ?w"
    "next_slot n (next_slot n ?w) \<noteq> next_slot n ?w" "next_slot n ?w < n - 1"
    using w n by (auto simp: next_slot_def)
  have "f3 ?sp = with_cycle (ring_cycle r) (make_setup_stage sd 3)"
    using m1 m2(2) m3 s1 s2 w dist by simp
  moreover have "f3 ?dp = with_cycle (ring_cycle r1) ?data"
    using m2(1) m3 s1 s2 dist by simp
  ultimately show ?thesis
    by (intro that [OF run refl refl])
      (simp_all add: remember_setup_def ring_bell_def ring_of_same, simp_all add: base_control_def split: option.split)
qed

lemma uint_take_17: "0 \<le> len \<Longrightarrow> len < 2 ^ 17 \<Longrightarrow> uint (take_bit 17 (of_int len :: trb)) = len"
  by (simp add: unsigned_take_bit_eq uint_word_of_int_eq take_bit_int_eq_self)

lemma transferred_length:
  assumes "uint asked = len" "0 \<le> len" "len < 2 ^ 17" "unat residual \<le> nat len"
  shows "transferred asked residual = len - uint residual"
proof -
  have "nat (uint residual) \<le> nat len" using assms(4) by (simp only: unat_eq_nat_uint)
  then have r: "uint residual \<le> len" using assms(2) by linarith
  have nonneg: "0 \<le> uint residual" by simp
  have "ucast asked = (word_of_int len :: 32 word)" by (simp only: ucast_eq assms(1))
  moreover have "ucast residual = (word_of_int (uint residual) :: 32 word)" by (simp only: ucast_eq)
  ultimately have "ucast asked - ucast residual = (word_of_int (len - uint residual) :: 32 word)"
    by (simp only: wi_hom_sub)
  moreover have small: "signed_take_bit (LENGTH(32) - Suc 0) (len - u) = len - u" if "0 \<le> u" "u \<le> len" for u
    using that assms(3) by (simp add: signed_take_bit_int_eq_self)
  ultimately have "transferred asked residual = sint (word_of_int (len - uint residual) :: 32 word)"
    by (simp only: transferred_def)
  also have "\<dots> = len - uint residual"
    using small [OF nonneg r] by (simp only: sint_sbintrunc' One_nat_def)
  finally show ?thesis .
qed

text \<open>C21: A control transfer comes back to the one who asked for it. When the controller reports the
  completion of a request that \<open>ControlIn\<close> put on a ring, with success or as a short packet, the
  device finds the very setup packet, buffer and number of bytes transferred and hands them to
  \<open>OnControlCompleted\<close>; the request is then forgotten. The ring has at least four places, the map
  of pending requests has a free place, and the buffer's length fits the TRB's field.\<close>

theorem control_transfer_roundtrip:
  assumes "ring_of n (nat (ep - 1)) d e r" "1 \<le> ep" "ep \<le> 31" "4 \<le> n" "buf \<noteq> 0"
    and "am_inv (xd_setup_map d)" "0 < am_free (xd_setup_map d)"
    and "am_get (xd_setup_map d) (slot r (next_slot n (ring_write r))) = None"
    and "0 \<le> len" "len < 2 ^ 17" "unat residual \<le> nat len"
    and "TransferEventTRB_Pointer t = slot r (next_slot n (ring_write r))"
    and "get_trb TransferEventTRB ''completion_code'' t \<in> {1, 13}"
    and "get_trb TransferEventTRB ''trb_transfer_length'' t = residual"
  shows "\<exists>d' e' m. control_in ep sd buf len issuer d e = Some (kSuccess, d', e')
       \<and> am_get m = am_get (xd_setup_map d)
       \<and> on_transfer_event us t d' e' =
           on_control_completed us sd buf (len - uint residual) (d'\<lparr>xd_setup_map := m\<rparr>) e'"
proof -
  let ?dp = "slot r (next_slot n (ring_write r))" and ?sp = "slot r (ring_write r)"
  obtain d' e' c c' where run: "control_in ep sd buf len issuer d e = Some (kSuccess, d', e')"
    and mp: "xd_setup_map d' = am_put (xd_setup_map d) ?dp ?sp"
    and stp: "mem_trb (ue_mem e') ?sp = with_cycle c (make_setup_stage sd 3)"
    and data: "mem_trb (ue_mem e') ?dp =
      with_cycle c' (put_trb DataStageTRB ''interrupt_on_completion'' 1 (make_data_stage buf len True))"
    by (rule control_in_data [OF assms(1-5)]) blast
  let ?m = "am_delete (xd_setup_map d') ?dp"
  have get: "am_get (xd_setup_map d') ?dp = Some ?sp"
    using amap.get_put [OF assms(6,8,7)] mp by simp
  have forget: "am_get ?m = am_get (xd_setup_map d)"
    using amap.put_del_restores [OF assms(6,8,7)] mp by simp
  have is_data: "is_trb DataStageTRB (mem_trb (ue_mem e') ?dp)" using data by simp
  have len: "transferred (get_trb DataStageTRB ''trb_transfer_length'' (mem_trb (ue_mem e') ?dp)) residual
      = len - uint residual"
    using assms(9-11)
    by (intro transferred_length) (simp_all add: data data_stage_length uint_take_17)
  have ptr: "DataStageTRB_Pointer (mem_trb (ue_mem e') ?dp) = buf"
    by (simp add: data data_stage_pointer)
  have kind: "\<not> is_trb NormalTRB (mem_trb (ue_mem e') ?dp)" "is_trb DataStageTRB (mem_trb (ue_mem e') ?dp)"
    using is_data is_trb_unique [OF is_data] by blast+
  have "on_transfer_event us t d' e' =
      on_control_completed us sd buf (len - uint residual) (d'\<lparr>xd_setup_map := ?m\<rparr>) e'"
    using assms(12-14) get len ptr kind
    by (auto simp: on_transfer_event_def Let_def cast_is_trb stp setup_data_roundtrip)
  then show ?thesis using run forget by blast
qed

text \<open>A device with a fresh ring for its control endpoint, and events about the TRB at an address.\<close>

definition sample_ring :: ring where
  "sample_ring = \<lparr>ring_buf = 0x1000, ring_size = 32, ring_cycle = True, ring_write = 0\<rparr>"

definition sample_device :: xhci_device where
  "sample_device =
    (blank_device \<lparr>dl_size = 4096, dl_ctx = 0, dl_input = 1024, dl_buf = 2560\<rparr> 0x8000 1 0)
      \<lparr>xd_rings := (replicate 31 None)[0 := Some sample_ring]\<rparr>"

definition sample_env :: usb_env where
  "sample_env = \<lparr>ue_mem = \<lparr>mem_pool = 0, mem_ptr = 0, mem_trb = (\<lambda>_. 0)\<rparr>, ue_bytes = (\<lambda>_. 0),
     ue_io = \<lparr>io_writes = [], io_reads = 0\<rparr>, ue_out = []\<rparr>"

definition transfer_event :: "u64 \<Rightarrow> trb \<Rightarrow> trb" where
  "transfer_event p residual =
    put_trb TransferEventTRB ''trb_transfer_length'' residual
      (put_trb TransferEventTRB ''completion_code'' 1 (TransferEventTRB_SetPointer p new_TransferEventTRB))"

lemma sample_ring_of: "ring_of 32 0 sample_device sample_env sample_ring"
  by (simp add: ring_of_def sample_device_def blank_device_def sample_env_def ring_ok_def sample_ring_def trb_cycle_def)

lemma transfer_event_fields:
  "TransferEventTRB_Pointer (transfer_event p residual) = p"
  "get_trb TransferEventTRB ''completion_code'' (transfer_event p residual) = 1"
  "get_trb TransferEventTRB ''trb_transfer_length'' (transfer_event p residual) = take_bit 24 residual"
proof -
  have w: "member_width TransferEventTRB_bits ''trb_transfer_length'' = 24"
    "member_width TransferEventTRB_bits ''completion_code'' = 8"
    by (simp_all add: member_width_def trb_layouts)
  show "TransferEventTRB_Pointer (transfer_event p residual) = p"
    "get_trb TransferEventTRB ''completion_code'' (transfer_event p residual) = 1"
    "get_trb TransferEventTRB ''trb_transfer_length'' (transfer_event p residual) = take_bit 24 residual"
    by (simp_all add: transfer_event_def TransferEventTRB_Pointer_def TransferEventTRB_SetPointer_def w)
qed

theorem control_transfer_roundtrip_witness:
  "\<forall>us sd. \<exists>d' e' m.
     control_in 1 sd 0x8a00 256 None sample_device sample_env = Some (kSuccess, d', e')
   \<and> on_transfer_event us (transfer_event 0x1010 238) d' e' =
       on_control_completed us sd 0x8a00 18 (d'\<lparr>xd_setup_map := m\<rparr>) e'"
proof (intro allI)
  fix us and sd :: setup_data
  let ?t = "transfer_event 0x1010 238"
  have m: "xd_setup_map sample_device = replicate 16 (None, 0)"
    by (simp add: sample_device_def blank_device_def)
  have "am_keys (replicate n (None :: u64 option, 0 :: u64)) = []"
    "am_free (replicate n (None :: u64 option, 0 :: u64)) = n" for n
    by (induction n) simp_all
  then have inv: "am_inv (xd_setup_map sample_device)" "0 < am_free (xd_setup_map sample_device)"
    "am_get (xd_setup_map sample_device) (slot sample_ring (next_slot 32 (ring_write sample_ring))) = None"
    by (simp_all add: m am_inv_def am_get_None)
  have dp: "slot sample_ring (next_slot 32 (ring_write sample_ring)) = 0x1010"
    by (simp add: slot_def trb_at_def next_slot_def sample_ring_def)
  have ring: "ring_of 32 (nat (1 - 1)) sample_device sample_env sample_ring"
    using sample_ring_of by simp
  have f: "TransferEventTRB_Pointer ?t = slot sample_ring (next_slot 32 (ring_write sample_ring))"
    "get_trb TransferEventTRB ''completion_code'' ?t \<in> {1, 13}"
    "get_trb TransferEventTRB ''trb_transfer_length'' ?t = 238"
    by (simp_all add: transfer_event_fields dp take_bit_eq_mod)
  have "\<exists>d' e' m. control_in 1 sd 0x8a00 256 None sample_device sample_env = Some (kSuccess, d', e')
      \<and> am_get m = am_get (xd_setup_map sample_device)
      \<and> on_transfer_event us ?t d' e' =
        on_control_completed us sd 0x8a00 (256 - uint (238 :: trb)) (d'\<lparr>xd_setup_map := m\<rparr>) e'"
    by (rule control_transfer_roundtrip [OF ring _ _ _ _ inv _ _ _ f]) simp_all
  then show "\<exists>d' e' m. control_in 1 sd 0x8a00 256 None sample_device sample_env = Some (kSuccess, d', e')
      \<and> on_transfer_event us ?t d' e' = on_control_completed us sd 0x8a00 18 (d'\<lparr>xd_setup_map := m\<rparr>) e'"
    by auto
qed

end
