(* ===== verification/Xhci_Ports.thy ===== *)
theory Xhci_Ports imports Xhci Usb_Transfer begin

text \<open>
  The protocol of the root hub ports in \<^verbatim>\<open>Kernel/usb/xhci/xhci.cpp\<close>: at any time at most one port
  is between the start of its reset and the addressing of its device, and \<open>addressing_port\<close> names it.
  The steps are the calls the kernel makes (\<open>ConfigurePort\<close> at start-up, \<open>ProcessEvent\<close> later) and
  whatever the controller does to the memory it shares with the driver.
\<close>

definition busy :: "config_phase \<Rightarrow> bool" where
  "busy ph \<longleftrightarrow> ph = kResettingPort \<or> ph = kEnablingSlot \<or> ph = kAddressingDevice"

definition ports_ok :: "controller \<Rightarrow> bool" where
  "ports_ok c \<longleftrightarrow> length (xc_phase c) = 256 \<and> phase_of c 0 = kNotConnected
    \<and> (\<forall>p. busy (phase_of c p) \<longleftrightarrow> p = xc_addressing c \<and> xc_addressing c \<noteq> 0)"

text \<open>What the protocol is about; the other operations leave it alone.\<close>

definition ports :: "controller \<Rightarrow> config_phase list \<times> u8" where
  "ports c = (xc_phase c, xc_addressing c)"

lemma ports_simps [simp]:
  "ports (set_io s c) = ports c"
  "ports (put_device sl d c) = ports c"
  "ports (xc_env_update f c) = ports c"
  "ports (xc_devmgr_update g c) = ports c"
  "ports (xc_cr_update h c) = ports c"
  "ports (xc_er_update k c) = ports c"
  by (simp_all add: ports_def set_io_def put_device_def)

lemma phase_simps [simp]:
  "xc_phase (set_io s c) = xc_phase c" "xc_addressing (set_io s c) = xc_addressing c"
  "xc_phase (put_device sl d c) = xc_phase c" "xc_addressing (put_device sl d c) = xc_addressing c"
  "xc_addressing (set_phase p ph c) = xc_addressing c"
  "xc_phase (set_phase p ph c) = (xc_phase c)[unat p := ph]"
  by (simp_all add: set_io_def put_device_def set_phase_def)

lemma ports_doorbell_at [simp]: "doorbell_at xs i c = (db, c') \<Longrightarrow> ports c' = ports c"
  by (auto simp: doorbell_at_def Let_def split: prod.splits)

lemma ports_issue_command [simp]: "ports (issue_command xs cmd c) = ports c"
  by (auto simp: issue_command_def Let_def split: prod.split)

lemma ports_set_phase [simp]: "ports (set_phase p ph c) = ((xc_phase c)[unat p := ph], xc_addressing c)"
  by (simp add: ports_def set_phase_def)

lemma ports_ok_cong: "ports c = ports c' \<Longrightarrow> ports_ok c = ports_ok c'"
  by (simp add: ports_def ports_ok_def phase_of_def)

lemma phase_of_ports: "ports c = ports c' \<Longrightarrow> phase_of c = phase_of c'"
  by (simp add: ports_def phase_of_def fun_eq_iff)

lemma addressing_ports: "ports c = ports c' \<Longrightarrow> xc_addressing c = xc_addressing c'"
  by (simp add: ports_def)

lemma phase_of_set: "length (xc_phase c) = 256 \<Longrightarrow> ports c' = ((xc_phase c)[unat p := ph], a) \<Longrightarrow>
    phase_of c' q = (if q = p then ph else phase_of c q)"
  using unsigned_less [of p, where ?'a = nat]
  by (auto simp: ports_def phase_of_def nth_list_update word_unat_eq_iff)

text \<open>Moving a port on keeps the order when a busy phase is only given to the port that has the
  floor, and is taken from it only together with the floor.\<close>

lemma ports_ok_set:
  assumes "ports_ok c" "ports c' = ((xc_phase c)[unat p := ph], a)"
    and "\<And>q. q \<noteq> p \<Longrightarrow> (q = xc_addressing c \<and> xc_addressing c \<noteq> 0) = (q = a \<and> a \<noteq> 0)"
    and "busy ph = (p = a \<and> a \<noteq> 0)" and "p \<noteq> 0"
  shows "ports_ok c'"
proof -
  have len: "length (xc_phase c) = 256" using assms(1) by (simp add: ports_ok_def)
  have "xc_addressing c' = a" "length (xc_phase c') = 256"
    using assms(2) len by (auto simp: ports_def)
  then show ?thesis
    using assms phase_of_set [OF len assms(2)] by (auto simp: ports_ok_def)
qed

text \<open>A port in a phase that is neither the first one nor a busy one.\<close>

lemma settled_port:
  assumes "ports_ok c" "phase_of c p = ph" "ph \<noteq> kNotConnected" "\<not> busy ph"
  shows "p \<noteq> 0" "p \<noteq> xc_addressing c"
proof -
  have "busy (phase_of c p) \<longleftrightarrow> p = xc_addressing c \<and> xc_addressing c \<noteq> 0"
    using assms(1) by (simp add: ports_ok_def)
  moreover show "p \<noteq> 0" using assms by (auto simp: ports_ok_def)
  ultimately show "p \<noteq> xc_addressing c" using assms(2,4) by auto
qed

section \<open>The operations\<close>

lemma reset_port_ports:
  assumes "ctl_reset_port xs p c = Some (err, c')"
    and "phase_of c (port_num p) = kNotConnected \<or> phase_of c (port_num p) = kWaitingAddressed"
  shows "err = kSuccess" and "ports c' = ports c
    \<or> xc_addressing c \<noteq> 0 \<and> ports c' = ((xc_phase c)[unat (port_num p) := kWaitingAddressed], xc_addressing c)
    \<or> xc_addressing c = 0 \<and> ports c' = ((xc_phase c)[unat (port_num p) := kResettingPort], port_num p)"
proof -
  obtain con s where con: "is_connected (xs_regs xs) p (ctl_io c) = (con, s)" by fastforce
  let ?c = "set_io s c"
  have same: "phase_of ?c = phase_of c" "xc_addressing ?c = xc_addressing c" "xc_phase ?c = xc_phase c"
    by (simp_all add: phase_of_def set_io_def fun_eq_iff)
  have "err = kSuccess \<and> (ports c' = ports c
    \<or> xc_addressing c \<noteq> 0 \<and> ports c' = ((xc_phase c)[unat (port_num p) := kWaitingAddressed], xc_addressing c)
    \<or> xc_addressing c = 0 \<and> ports c' = ((xc_phase c)[unat (port_num p) := kResettingPort], port_num p))"
    using assms con same
    by (auto simp: ctl_reset_port_def Let_def split: if_splits option.splits prod.splits)
  then show "err = kSuccess" and "ports c' = ports c
    \<or> xc_addressing c \<noteq> 0 \<and> ports c' = ((xc_phase c)[unat (port_num p) := kWaitingAddressed], xc_addressing c)
    \<or> xc_addressing c = 0 \<and> ports c' = ((xc_phase c)[unat (port_num p) := kResettingPort], port_num p)"
    by blast+
qed

lemma reset_port_ok:
  assumes "ctl_reset_port xs p c = Some (err, c')" "ports_ok c"
    and "phase_of c (port_num p) = kNotConnected \<or> phase_of c (port_num p) = kWaitingAddressed"
    and "port_num p \<noteq> 0"
  shows "ports_ok c'"
proof -
  have nb: "port_num p \<noteq> xc_addressing c"
    using assms(2,3,4) unfolding ports_ok_def busy_def by (metis config_phase.distinct)
  from reset_port_ports(2) [OF assms(1,3)] consider "ports c' = ports c"
    | "xc_addressing c \<noteq> 0" "ports c' = ((xc_phase c)[unat (port_num p) := kWaitingAddressed], xc_addressing c)"
    | "xc_addressing c = 0" "ports c' = ((xc_phase c)[unat (port_num p) := kResettingPort], port_num p)"
    by blast
  then show ?thesis
  proof cases
    case 1
    then show ?thesis using assms(2) ports_ok_cong by blast
  next
    case 2
    show ?thesis
      by (rule ports_ok_set [OF assms(2) 2(2)]) (use 2 nb assms(4) in \<open>auto simp: busy_def\<close>)
  next
    case 3
    show ?thesis
      by (rule ports_ok_set [OF assms(2) 3(2)]) (use 3 assms(4) in \<open>auto simp: busy_def\<close>)
  qed
qed

lemma enable_slot_ok:
  assumes "ports_ok c" "phase_of c (port_num p) = kResettingPort"
  shows "ports_ok (snd (enable_slot xs p c))"
proof -
  have a: "port_num p = xc_addressing c" "xc_addressing c \<noteq> 0"
    using assms by (auto simp: ports_ok_def busy_def)
  have "ports (snd (enable_slot xs p c)) = ports c
      \<or> ports (snd (enable_slot xs p c)) = ((xc_phase c)[unat (port_num p) := kEnablingSlot], xc_addressing c)"
    by (auto simp: enable_slot_def Let_def set_io_def split: prod.split)
  then show ?thesis
  proof
    assume "ports (snd (enable_slot xs p c)) = ports c"
    then show ?thesis using assms(1) ports_ok_cong by blast
  next
    assume "ports (snd (enable_slot xs p c)) = ((xc_phase c)[unat (port_num p) := kEnablingSlot], xc_addressing c)"
    then show ?thesis by (rule ports_ok_set [OF assms(1)]) (use a in \<open>auto simp: busy_def\<close>)
  qed
qed

lemma address_device_ports:
  assumes "address_device xs p sl c = Some (err, c')"
  shows "ports c' = ports c \<or> ports c' = ((xc_phase c)[unat p := kAddressingDevice], xc_addressing c)"
proof -
  obtain db c1 where db: "doorbell_at xs sl c = (db, c1)" by fastforce
  have p1: "ports c1 = ports c" using db by simp
  obtain e dm m where al: "alloc_device (xs_layout xs) sl db (xc_devmgr c1) (ue_mem (xc_env c1)) = Some (e, dm, m)"
    using assms db by (auto simp: address_device_def bind_eq_Some_conv)
  let ?c2 = "upd_env (ue_mem_update (\<lambda>_. m)) (c1\<lparr>xc_devmgr := dm\<rparr>)"
  have "ports c' = ports ?c2 \<or> ports c' = ((fst (ports ?c2))[unat p := kAddressingDevice], snd (ports ?c2))"
    using assms db al
    by (auto simp: address_device_def Let_def bind_eq_Some_conv ports_def [of c1]
        split: option.splits prod.splits)
  then show ?thesis using p1 by (simp add: ports_def)
qed

lemma initialize_device_ports:
  assumes "initialize_device p sl c = Some (err, c')" "find_by_slot sl (xc_devmgr c) \<noteq> None"
  shows "ports c' = ((xc_phase c)[unat p := kInitializingDevice], xc_addressing c)"
  using assms
  by (auto simp: initialize_device_def bind_eq_Some_conv split: option.splits)

lemma complete_configuration_ports:
  assumes "complete_configuration p sl c = Some (err, c')"
  shows "ports c' = ports c \<or> ports c' = ((xc_phase c)[unat p := kConfigured], xc_addressing c)"
  using assms
  by (auto simp: complete_configuration_def bind_eq_Some_conv split: option.splits)

lemma configure_endpoints_ports:
  assumes "configure_endpoints xs sl dev c = Some (err, c')"
  shows "ports c' = ports c
    \<or> ports c' = ((xc_phase c)[unat (root_hub_port dev) := kConfiguringEndpoints], xc_addressing c)"
proof -
  have rp: "root_hub_port (xd_input_update f dev) = root_hub_port dev" for f
    by (simp add: root_hub_port_def)
  show ?thesis
    using assms
    by (auto simp: configure_endpoints_def Let_def bind_eq_Some_conv rp split: if_splits prod.splits)
qed

section \<open>Events\<close>

lemma reset_port_devmgr:
  "ctl_reset_port xs p c = Some (err, c') \<Longrightarrow> xc_devmgr c' = xc_devmgr c"
  by (auto simp: ctl_reset_port_def Let_def set_io_def set_phase_def split: if_splits option.splits prod.splits)

lemma first_waiting_some:
  assumes "first_waiting c = Some i"
  shows "phase_of c i = kWaitingAddressed"
proof -
  obtain k where k: "find (\<lambda>i. xc_phase c ! i = kWaitingAddressed) [0..<256] = Some k" "i = of_nat k"
    using assms by (auto simp: first_waiting_def)
  then have "k < 256" "xc_phase c ! k = kWaitingAddressed" by (auto simp: find_Some_iff)
  moreover have "unat (of_nat k :: u8) = k"
    using \<open>k < 256\<close> by (simp add: unat_of_nat take_bit_nat_eq_self)
  ultimately show ?thesis using k(2) by (simp add: phase_of_def)
qed

lemma port_num_port_at [simp]: "port_num (port_at c n) = n"
  by (simp add: port_at_def)

lemma on_device_addressed_ports:
  assumes "on_device_addressed xs p sl c = Some (err, c')" "find_by_slot sl (xc_devmgr c) \<noteq> None"
  shows "ports c' = ((xc_phase c)[unat p := kInitializingDevice], 0)
    \<or> (\<exists>i. first_waiting c = Some i
        \<and> ports c' = ((xc_phase c)[unat i := kResettingPort, unat p := kInitializingDevice], i))"
proof -
  let ?c = "c\<lparr>xc_addressing := 0\<rparr>"
  have fw: "first_waiting ?c = first_waiting c" by (simp add: first_waiting_def)
  show ?thesis
  proof (cases "first_waiting c")
    case None
    then show ?thesis
      using assms initialize_device_ports [of p sl ?c err c'] fw by (simp add: on_device_addressed_def)
  next
    case (Some i)
    then obtain e c2 where r: "ctl_reset_port xs (port_at ?c i) ?c = Some (e, c2)"
      using assms(1) fw by (auto simp: on_device_addressed_def Let_def bind_eq_Some_conv)
    have w: "phase_of ?c (port_num (port_at ?c i)) = kWaitingAddressed"
      using first_waiting_some [OF Some] by (simp add: phase_of_def)
    have e: "e = kSuccess" using reset_port_ports(1) [OF r] w by blast
    have c2: "ports c2 = ports ?c \<or> ports c2 = ((xc_phase c)[unat i := kResettingPort], i)"
      using reset_port_ports(2) [OF r] w by simp
    have "initialize_device p sl c2 = Some (err, c')"
      using assms(1) fw Some r e by (simp add: on_device_addressed_def is_error_def)
    moreover have "find_by_slot sl (xc_devmgr c2) \<noteq> None"
      using assms(2) reset_port_devmgr [OF r] by simp
    ultimately have "ports c' = ((xc_phase c2)[unat p := kInitializingDevice], xc_addressing c2)"
      by (rule initialize_device_ports)
    then show ?thesis using c2 Some by (auto simp: ports_def)
  qed
qed

lemma on_device_addressed_ok:
  assumes "on_device_addressed xs p sl c = Some (err, c')" "find_by_slot sl (xc_devmgr c) \<noteq> None"
    and ok: "ports_ok c" and p: "p = xc_addressing c" "phase_of c p = kAddressingDevice"
  shows "ports_ok c'"
proof -
  have len: "length (xc_phase c) = 256" and p0: "p \<noteq> 0"
    using ok p by (auto simp: ports_ok_def busy_def)
  from on_device_addressed_ports [OF assms(1,2)] consider
    "ports c' = ((xc_phase c)[unat p := kInitializingDevice], 0)"
    | i where "first_waiting c = Some i"
      "ports c' = ((xc_phase c)[unat i := kResettingPort, unat p := kInitializingDevice], i)"
    by blast
  then show ?thesis
  proof cases
    case 1
    show ?thesis
      by (rule ports_ok_set [OF ok 1]) (use p p0 in \<open>auto simp: busy_def\<close>)
  next
    case 2
    have w: "phase_of c i = kWaitingAddressed" by (rule first_waiting_some [OF 2(1)])
    then have i: "i \<noteq> p" "i \<noteq> 0" using p ok by (auto simp: ports_ok_def)
    let ?c = "c\<lparr>xc_phase := (xc_phase c)[unat i := kResettingPort], xc_addressing := i\<rparr>"
    have pc: "ports ?c = ((xc_phase c)[unat i := kResettingPort], i)" by (simp add: ports_def)
    have ph: "phase_of ?c q = (if q = i then kResettingPort else phase_of c q)" for q
      by (rule phase_of_set [OF len pc])
    have "phase_of c' q = (if q = p then kInitializingDevice else phase_of ?c q)" for q
      by (rule phase_of_set [of ?c c' p _ "i"]) (use len 2(2) in simp_all)
    moreover have "xc_addressing c' = i" "length (xc_phase c') = 256"
      using 2(2) len by (auto simp: ports_def)
    ultimately show ?thesis
      using ok p p0 i by (auto simp: ports_ok_def busy_def ph)
  qed
qed

text \<open>Every event keeps the order. xHCI numbers ports from 1.\<close>

definition port_event_ok :: "trb \<Rightarrow> bool" where
  "port_event_ok t \<longleftrightarrow>
    (is_trb PortStatusChangeEventTRB t \<longrightarrow> (ucast (get_trb PortStatusChangeEventTRB ''port_id'' t) :: u8) \<noteq> 0)"

lemma on_port_status_change_ok:
  assumes "on_port_status_change xs t c = Some (err, c')" "ports_ok c"
    and "(ucast (get_trb PortStatusChangeEventTRB ''port_id'' t) :: u8) \<noteq> 0"
  shows "ports_ok c'"
proof -
  let ?p = "ucast (get_trb PortStatusChangeEventTRB ''port_id'' t) :: u8"
  consider "phase_of c ?p = kNotConnected" | "phase_of c ?p = kResettingPort"
    | "phase_of c ?p \<noteq> kNotConnected" "phase_of c ?p \<noteq> kResettingPort" by blast
  then show ?thesis
  proof cases
    case 1
    then have "ctl_reset_port xs (port_at c ?p) c = Some (err, c')"
      using assms(1) by (simp add: on_port_status_change_def Let_def)
    then show ?thesis by (rule reset_port_ok) (use 1 assms in simp_all)
  next
    case 2
    then have "c' = snd (enable_slot xs (port_at c ?p) c)"
      using assms(1) by (simp add: on_port_status_change_def Let_def)
    then show ?thesis using enable_slot_ok [of c "port_at c ?p" xs] 2 assms(2) by simp
  next
    case 3
    then have "c' = c" using assms(1)
      by (simp add: on_port_status_change_def Let_def split: config_phase.splits)
    then show ?thesis using assms(2) by simp
  qed
qed

lemma on_transfer_ok:
  assumes "on_transfer xs t c = Some (err, c')" "ports_ok c"
  shows "ports_ok c'"
proof -
  let ?slot = "ucast (get_trb TransferEventTRB ''slot_id'' t) :: u8"
  show ?thesis
  proof (cases "find_by_slot ?slot (xc_devmgr c)")
    case None
    then show ?thesis using assms by (simp add: on_transfer_def)
  next
    case (Some dev)
    then obtain e d env where ev: "on_transfer_event (xs_usb xs) t dev (xc_env c) = Some (e, d, env)"
      using assms(1) by (auto simp: on_transfer_def Let_def bind_eq_Some_conv)
    let ?c = "put_device ?slot d (c\<lparr>xc_env := env\<rparr>)"
    have same: "ports ?c = ports c" by simp
    then have ok: "ports_ok ?c" using assms(2) ports_ok_cong by blast
    show ?thesis
    proof (cases "\<not> is_error e \<and> ud_initialized d \<and> phase_of ?c (root_hub_port d) = kInitializingDevice")
      case False
      then have "c' = ?c" using assms(1) Some ev by (auto simp: on_transfer_def Let_def split: if_splits)
      then show ?thesis using ok by simp
    next
      case True
      then have "configure_endpoints xs ?slot d ?c = Some (err, c')"
        using assms(1) Some ev by (simp add: on_transfer_def Let_def)
      from configure_endpoints_ports [OF this] show ?thesis
      proof
        assume "ports c' = ports ?c"
        then show ?thesis using ok ports_ok_cong by blast
      next
        assume "ports c' = ((xc_phase ?c)[unat (root_hub_port d) := kConfiguringEndpoints], xc_addressing ?c)"
        then show ?thesis
          by (rule ports_ok_set [OF ok])
            (use True settled_port [OF ok] in \<open>auto simp: busy_def\<close>)
      qed
    qed
  qed
qed

lemma on_command_completion_ok:
  assumes "on_command_completion xs t c = Some (err, c')" "ports_ok c"
  shows "ports_ok c'"
proof -
  let ?ty = "get_member TRB_bits ''trb_type'' (mem_trb (ue_mem (xc_env c)) (CommandCompletionEventTRB_Pointer t))"
  let ?slot = "ucast (get_trb CommandCompletionEventTRB ''slot_id'' t) :: u8"
  let ?dev = "find_by_slot ?slot (xc_devmgr c)"
  consider (enable) "phase_of c (xc_addressing c) = kEnablingSlot"
      "address_device xs (xc_addressing c) ?slot c = Some (err, c')"
    | (addressed) dev where "?dev = Some dev" "root_hub_port dev = xc_addressing c"
      "phase_of c (root_hub_port dev) = kAddressingDevice"
      "on_device_addressed xs (root_hub_port dev) ?slot c = Some (err, c')"
    | (configured) dev where "?dev = Some dev" "phase_of c (root_hub_port dev) = kConfiguringEndpoints"
      "complete_configuration (root_hub_port dev) ?slot c = Some (err, c')"
    | (other) "c' = c"
    using assms(1) unfolding on_command_completion_def Let_def
    by (auto split: if_splits option.splits)
  then show ?thesis
  proof cases
    case enable
    have a: "xc_addressing c \<noteq> 0"
      using assms(2) enable(1) by (auto simp: ports_ok_def busy_def)
    from address_device_ports [OF enable(2)] show ?thesis
    proof
      assume "ports c' = ports c"
      then show ?thesis using assms(2) ports_ok_cong by blast
    next
      assume "ports c' = ((xc_phase c)[unat (xc_addressing c) := kAddressingDevice], xc_addressing c)"
      then show ?thesis by (rule ports_ok_set [OF assms(2)]) (use a in \<open>auto simp: busy_def\<close>)
    qed
  next
    case addressed
    then show ?thesis
      using on_device_addressed_ok [OF addressed(4) _ assms(2)] by simp
  next
    case configured
    have p0: "root_hub_port dev \<noteq> 0" "root_hub_port dev \<noteq> xc_addressing c"
      using settled_port [OF assms(2) configured(2)] by (simp_all add: busy_def)
    from complete_configuration_ports [OF configured(3)] show ?thesis
    proof
      assume "ports c' = ports c"
      then show ?thesis using assms(2) ports_ok_cong by blast
    next
      assume "ports c' = ((xc_phase c)[unat (root_hub_port dev) := kConfigured], xc_addressing c)"
      then show ?thesis by (rule ports_ok_set [OF assms(2)]) (use p0 in \<open>auto simp: busy_def\<close>)
    qed
  next
    case other
    then show ?thesis using assms(2) by simp
  qed
qed

lemma on_event_ok:
  assumes "on_event xs t c = Some (err, c')" "ports_ok c" "port_event_ok t"
  shows "ports_ok c'"
proof -
  consider "on_transfer xs t c = Some (err, c')"
    | "is_trb PortStatusChangeEventTRB t" "on_port_status_change xs t c = Some (err, c')"
    | "on_command_completion xs t c = Some (err, c')" | "c' = c"
    using assms(1) unfolding on_event_def cast_is_trb by (simp split: if_splits)
  then show ?thesis
  proof cases
    case 1
    then show ?thesis using assms(2) by (rule on_transfer_ok)
  next
    case 2
    then show ?thesis using assms on_port_status_change_ok by (simp add: port_event_ok_def)
  next
    case 3
    then show ?thesis using assms(2) by (rule on_command_completion_ok)
  next
    case 4
    then show ?thesis using assms(2) by simp
  qed
qed

section \<open>Runs\<close>

text \<open>The controller may change the memory it shares with the driver, its registers are arguments of
  each step, and it may rewrite the device contexts: everything but the ports' protocol.\<close>

definition next_event :: "xhci_setting \<Rightarrow> controller \<Rightarrow> trb" where
  "next_event xs c =
    (let f = mem_trb (ue_mem (xc_env c)); (_, s) = er_has_front (xs_regs xs) f (xc_er c) (ctl_io c)
     in fst (er_front (xs_regs xs) f (xc_er c) s))"

inductive xhci_step :: "controller \<Rightarrow> controller \<Rightarrow> bool" where
  device: "ports c' = ports c \<Longrightarrow> xhci_step c c'"
| configure: "configure_port xs (port_at c n) c = Some (err, c') \<Longrightarrow> n \<noteq> 0 \<Longrightarrow> xhci_step c c'"
| event: "process_event xs c = Some (err, c') \<Longrightarrow> port_event_ok (next_event xs c) \<Longrightarrow> xhci_step c c'"

inductive_cases xhci_stepE: "xhci_step c c'"

lemma xhci_step_ok: "xhci_step c c' \<Longrightarrow> ports_ok c \<Longrightarrow> ports_ok c'"
proof (induction rule: xhci_step.induct)
  case (device c' c)
  then show ?case using ports_ok_cong by blast
next
  case (configure xs c n err c')
  then show ?case
    using reset_port_ok [of xs "port_at c n" c err c']
    by (auto simp: configure_port_def split: if_splits)
next
  case (event xs c err c')
  obtain has s where front: "er_has_front (xs_regs xs) (mem_trb (ue_mem (xc_env c))) (xc_er c) (ctl_io c) = (has, s)"
    by fastforce
  let ?c = "set_io s c"
  have ok: "ports_ok ?c" using event.prems ports_ok_cong [of ?c c] by simp
  show ?case
  proof (cases has)
    case False
    then show ?thesis using event.hyps(1) front ok by (simp add: process_event_def)
  next
    case True
    obtain t s' where t: "er_front (xs_regs xs) (mem_trb (ue_mem (xc_env ?c))) (xc_er ?c) (ctl_io ?c) = (t, s')"
      by fastforce
    have "t = next_event xs c"
      using t front by (simp add: next_event_def set_io_def ctl_io_def)
    then have pt: "port_event_ok t" using event.hyps(2) by blast
    have ok': "ports_ok (set_io s' ?c)" using event.prems ports_ok_cong [of "set_io s' ?c" c] by simp
    obtain e c2 where ev: "on_event xs t (set_io s' ?c) = Some (e, c2)"
      using event.hyps(1) front t True by (auto simp: process_event_def Let_def bind_eq_Some_conv)
    then have c': "ports c' = ports c2"
      using event.hyps(1) front t True by (auto simp: process_event_def Let_def split: prod.splits)
    have "ports_ok c2" by (rule on_event_ok [OF ev ok' pt])
    then show ?thesis using c' ports_ok_cong by blast
  qed
qed

definition fresh_ports :: "controller \<Rightarrow> bool" where
  "fresh_ports c \<longleftrightarrow> xc_phase c = replicate 256 kNotConnected \<and> xc_addressing c = 0"

lemma fresh_ports_ok: "fresh_ports c \<Longrightarrow> ports_ok c"
proof -
  assume f: "fresh_ports c"
  have "phase_of c p = kNotConnected" for p
    using f unsigned_less [of p, where ?'a = nat] by (simp add: fresh_ports_def phase_of_def)
  then show ?thesis using f by (simp add: ports_ok_def fresh_ports_def busy_def)
qed

text \<open>From the start, whatever events arrive in whatever order and whatever the device registers
  answer, at most one port is between the start of its reset and the addressing of its device, and
  that is the port \<open>addressing_port\<close> names; there is none exactly when \<open>addressing_port\<close> is 0. The
  events' port numbers are not 0, as xHCI numbers ports from 1.\<close>

theorem one_port_at_a_time:
  assumes "fresh_ports c" "xhci_step\<^sup>*\<^sup>* c c'"
  shows "(busy (phase_of c' p) \<longleftrightarrow> p = xc_addressing c' \<and> xc_addressing c' \<noteq> 0)
       \<and> (busy (phase_of c' p) \<and> busy (phase_of c' q) \<longrightarrow> p = q)"
proof -
  have "ports_ok c'"
    using assms(2,1) by (induction rule: rtranclp_induct) (auto intro: fresh_ports_ok xhci_step_ok)
  then show ?thesis by (auto simp: ports_ok_def)
qed

text \<open>A controller at start-up, and devices behind its ports that are connected and end a reset at
  once.\<close>

definition sample_controller :: controller where
  "sample_controller =
    \<lparr>xc_mmio = 0, xc_op = 0x20, xc_max_ports = 4,
     xc_devmgr = \<lparr>dm_contexts_addr = 0, dm_contexts = [], dm_max_slots = 8, dm_devices = replicate 9 None\<rparr>,
     xc_cr = \<lparr>ring_buf = 0x1000, ring_size = 32, ring_cycle = True, ring_write = 0\<rparr>,
     xc_er = \<lparr>er_buf = 0x2000, er_size = 32, er_cycle = True, er_erst = 0, er_erst_entry = 0, er_interrupter = 0x3000\<rparr>,
     xc_phase = replicate 256 kNotConnected, xc_addressing = 0,
     xc_env = \<lparr>ue_mem = \<lparr>mem_pool = 0, mem_ptr = 0, mem_trb = (\<lambda>_. 0)\<rparr>, ue_bytes = (\<lambda>_. 0),
       ue_io = \<lparr>io_writes = [], io_reads = 0\<rparr>, ue_out = []\<rparr>\<rparr>"

definition connected_setting :: xhci_setting where
  "connected_setting =
    \<lparr>xs_regs = (\<lambda>ws n a. 3), xs_layout = \<lparr>dl_size = 4096, dl_ctx = 0, dl_input = 1024, dl_buf = 2560\<rparr>,
     xs_usb = \<lparr>us_driver_buf = (\<lambda>_. 0), us_keyboard_observer = True, us_mouse_observer = True\<rparr>\<rparr>"

lemma connected_reads:
  "is_connected (xs_regs connected_setting) p s = (True, s\<lparr>io_reads := Suc (io_reads s)\<rparr>)"
  by (simp add: is_connected_def portsc_member_def reg_read_def connected_setting_def get_member_def
      PORTSC_Bitmap_def get_field_def take_bit_eq_mod)

lemma connected_resets:
  "\<exists>s'. port_reset (xs_regs connected_setting) p s = Some (kSuccess, s')"
proof -
  have "get_member PORTSC_Bitmap ''port_reset'' (3 :: u64) = 0"
    by (simp add: get_member_def PORTSC_Bitmap_def get_field_def take_bit_eq_mod drop_bit_eq_div)
  then show ?thesis
    by (simp add: port_reset_def reg_read_def reg_write_def connected_setting_def Let_def read_while_now)
qed

theorem one_port_at_a_time_witness:
  "\<exists>c'. configure_port connected_setting (port_at sample_controller 2) sample_controller = Some (kSuccess, c')
    \<and> phase_of c' 2 = kResettingPort \<and> xc_addressing c' = 2 \<and> \<not> busy (phase_of c' 3)"
proof -
  let ?c = sample_controller and ?p = "port_at sample_controller 2"
  have phases: "xc_phase ?c = replicate 256 kNotConnected" "xc_addressing ?c = 0"
    by (simp_all add: sample_controller_def)
  have p2: "phase_of ?c 2 = kNotConnected" by (simp add: phase_of_def phases)
  let ?c1 = "set_io (ctl_io ?c\<lparr>io_reads := Suc (io_reads (ctl_io ?c))\<rparr>) ?c"
  let ?c2 = "set_phase 2 kResettingPort (?c1\<lparr>xc_addressing := 2\<rparr>)"
  obtain s where s: "port_reset (xs_regs connected_setting) ?p (ctl_io ?c2) = Some (kSuccess, s)"
    using connected_resets by blast
  have run: "configure_port connected_setting ?p ?c = Some (kSuccess, set_io s ?c2)"
    using s p2 phases
    by (simp add: configure_port_def ctl_reset_port_def connected_reads phase_of_def)
  have step: "xhci_step\<^sup>*\<^sup>* ?c (set_io s ?c2)"
    by (rule r_into_rtranclp, rule xhci_step.configure [OF run]) simp
  have fresh: "fresh_ports ?c" by (simp add: fresh_ports_def phases)
  have "phase_of (set_io s ?c2) 2 = kResettingPort" "xc_addressing (set_io s ?c2) = 2"
    by (simp_all add: phase_of_def phases)
  with run one_port_at_a_time [OF fresh step, of 3 3] show ?thesis by auto
qed

section \<open>The floor is passed on\<close>

lemma reset_port_connected:
  assumes "ctl_reset_port xs p c = Some (err, c')" "xc_addressing c = 0"
    and "phase_of c (port_num p) = kWaitingAddressed" "fst (is_connected (xs_regs xs) p (ctl_io c))"
  shows "ports c' = ((xc_phase c)[unat (port_num p) := kResettingPort], port_num p)"
proof -
  obtain s where con: "is_connected (xs_regs xs) p (ctl_io c) = (True, s)"
    using assms(4) by (metis prod.collapse)
  have "phase_of (set_io s c) = phase_of c" by (simp add: phase_of_def fun_eq_iff)
  then show ?thesis
    using assms(1-3) con
    by (auto simp: ctl_reset_port_def Let_def split: if_splits option.splits)
qed

text \<open>C19: When the address of the device behind the port with the floor has been assigned, the
  driver starts to initialize that device and gives the floor to the first waiting port at once: its
  reset is under way, if something is still connected to it. Without a waiting port the floor is
  free. So a port that had to wait is served without any further event of its own.\<close>

theorem floor_passes_on:
  assumes "on_command_completion xs t c = Some (err, c')" and "ports_ok c"
    and "is_trb AddressDeviceCommandTRB (mem_trb (ue_mem (xc_env c)) (CommandCompletionEventTRB_Pointer t))"
    and "find_by_slot (ucast (get_trb CommandCompletionEventTRB ''slot_id'' t)) (xc_devmgr c) = Some dev"
    and "root_hub_port dev = xc_addressing c" and "phase_of c (xc_addressing c) = kAddressingDevice"
    and "\<forall>i. first_waiting c = Some i \<longrightarrow>
      fst (is_connected (xs_regs xs) (port_at c i) (ctl_io c))"
  shows "phase_of c' (xc_addressing c) = kInitializingDevice
       \<and> (case first_waiting c of
            None \<Rightarrow> xc_addressing c' = 0
          | Some i \<Rightarrow> xc_addressing c' = i \<and> phase_of c' i = kResettingPort)"
proof -
  let ?p = "xc_addressing c" and ?slot = "ucast (get_trb CommandCompletionEventTRB ''slot_id'' t) :: u8"
  have len: "length (xc_phase c) = 256" using assms(2) by (simp add: ports_ok_def)
  have ty: "get_member TRB_bits ''trb_type'' (mem_trb (ue_mem (xc_env c)) (CommandCompletionEventTRB_Pointer t))
      = of_nat (trb_type AddressDeviceCommandTRB)"
    using assms(3) by (simp add: is_trb_def get_type_any)
  have run: "on_device_addressed xs ?p ?slot c = Some (err, c')"
    using assms(1,4,5,6) ty unfolding on_command_completion_def Let_def
    by (simp only: of_nat_type_inj) simp
  have found: "find_by_slot ?slot (xc_devmgr c) \<noteq> None" using assms(4) by simp
  let ?c = "c\<lparr>xc_addressing := 0\<rparr>"
  have fw: "first_waiting ?c = first_waiting c" by (simp add: first_waiting_def)
  show ?thesis
  proof (cases "first_waiting c")
    case None
    then have "ports c' = ((xc_phase c)[unat ?p := kInitializingDevice], 0)"
      using run initialize_device_ports [of ?p ?slot ?c err c'] found fw
      by (simp add: on_device_addressed_def)
    then show ?thesis using None phase_of_set [OF len, of c' ?p] by (simp add: ports_def)
  next
    case (Some i)
    have w: "phase_of c i = kWaitingAddressed" by (rule first_waiting_some [OF Some])
    have ne: "i \<noteq> ?p" using w assms(6) by auto
    obtain e c2 where r: "ctl_reset_port xs (port_at c i) ?c = Some (e, c2)"
      using run fw Some by (auto simp: on_device_addressed_def Let_def bind_eq_Some_conv port_at_def)
    have w': "phase_of ?c (port_num (port_at c i)) = kWaitingAddressed" using w by (simp add: phase_of_def)
    have e: "e = kSuccess" using reset_port_ports(1) [OF r] w' by blast
    have p2: "ports c2 = ((xc_phase c)[unat i := kResettingPort], i)"
      using reset_port_connected [OF r] w' assms(7) Some by (simp add: ctl_io_def)
    have "initialize_device ?p ?slot c2 = Some (err, c')"
      using run fw Some r e by (simp add: on_device_addressed_def is_error_def port_at_def)
    then have p3: "ports c' = ((xc_phase c2)[unat ?p := kInitializingDevice], xc_addressing c2)"
      by (rule initialize_device_ports) (use found reset_port_devmgr [OF r] in simp)
    have "length (xc_phase c2) = 256" using p2 len by (simp add: ports_def)
    then have ph: "phase_of c' q = (if q = ?p then kInitializingDevice else phase_of c2 q)" for q
      using p3 by (rule phase_of_set)
    have "phase_of c2 i = kResettingPort" using phase_of_set [OF len p2, of i] by simp
    moreover have "xc_addressing c' = i" using p2 p3 by (simp add: ports_def)
    ultimately show ?thesis using Some ph ne by simp
  qed
qed


text \<open>Port 1 is addressing its device in slot 1, port 2 waits, and the command for slot 1 completes.\<close>

definition addressed_device :: xhci_device where
  "addressed_device = sample_device\<lparr>xd_ctx := (xd_ctx sample_device)
     \<lparr>dc_slot := put_member SlotContext_bits ''root_hub_port_num'' 1 0\<rparr>\<rparr>"

definition waiting_controller :: controller where
  "waiting_controller = sample_controller
    \<lparr>xc_devmgr := (xc_devmgr sample_controller)\<lparr>dm_devices := (replicate 9 None)[1 := Some addressed_device]\<rparr>,
     xc_phase := (replicate 256 kNotConnected)[1 := kAddressingDevice, 2 := kWaitingAddressed],
     xc_addressing := 1,
     xc_env := (xc_env sample_controller)\<lparr>ue_mem := (ue_mem (xc_env sample_controller))
       \<lparr>mem_trb := (\<lambda>_. 0)(0x5000 := new_AddressDeviceCommandTRB 0 1)\<rparr>\<rparr>\<rparr>"

definition addressed_event :: trb where
  "addressed_event = put_trb CommandCompletionEventTRB ''slot_id'' 1
     (CommandCompletionEventTRB_SetPointer 0x5000 new_CommandCompletionEventTRB)"

lemma addressed_event_fields:
  "CommandCompletionEventTRB_Pointer addressed_event = 0x5000"
  "get_trb CommandCompletionEventTRB ''slot_id'' addressed_event = 1"
proof -
  have "member_width CommandCompletionEventTRB_bits ''slot_id'' = 8"
    by (simp add: member_width_def trb_layouts)
  then show "CommandCompletionEventTRB_Pointer addressed_event = 0x5000"
    "get_trb CommandCompletionEventTRB ''slot_id'' addressed_event = 1"
    by (simp_all add: addressed_event_def CommandCompletionEventTRB_Pointer_def
        CommandCompletionEventTRB_SetPointer_def take_bit_eq_mod drop_bit_eq_div push_bit_eq_mult)
qed

lemma waiting_phases:
  "xc_phase waiting_controller = (replicate 256 kNotConnected)[1 := kAddressingDevice, 2 := kWaitingAddressed]"
  "xc_addressing waiting_controller = 1"
  by (simp_all add: waiting_controller_def)

lemma waiting_phase_of:
  "phase_of waiting_controller p =
    (if p = 1 then kAddressingDevice else if p = 2 then kWaitingAddressed else kNotConnected)"
  using unsigned_less [of p, where ?'a = nat]
  by (simp add: phase_of_def waiting_phases nth_list_update word_unat_eq_iff)

lemma waiting_ports_ok: "ports_ok waiting_controller"
  by (simp add: ports_ok_def waiting_phase_of busy_def) (simp add: waiting_phases)

lemma waiting_first: "first_waiting waiting_controller = Some 2"
proof -
  have "find (\<lambda>i. xc_phase waiting_controller ! i = kWaitingAddressed) [0..<256] = Some 2"
    by (simp add: find_Some_iff waiting_phases nth_list_update) (rule exI [of _ 2], auto)
  then show ?thesis by (simp add: first_waiting_def)
qed

lemma addressed_device_port: "root_hub_port addressed_device = 1"
proof -
  have "member_width SlotContext_bits ''root_hub_port_num'' = 8"
    by (simp add: member_width_def SlotContext_bits_def)
  moreover have "layout_bits SlotContext_bits \<le> LENGTH(256)"
    by (simp add: SlotContext_bits_def)
  ultimately show ?thesis
    by (simp add: root_hub_port_def addressed_device_def get_put_member take_bit_eq_mod)
qed

lemma waiting_device: "find_by_slot 1 (xc_devmgr waiting_controller) = Some addressed_device"
  by (simp add: find_by_slot_def waiting_controller_def sample_controller_def)


lemma waiting_reset:
  obtains s where "ctl_reset_port connected_setting (port_at waiting_controller 2)
      (waiting_controller\<lparr>xc_addressing := 0\<rparr>)
    = Some (kSuccess, set_io s (set_phase 2 kResettingPort (waiting_controller\<lparr>xc_addressing := 2\<rparr>)))"
proof -
  let ?p = "port_at waiting_controller 2" and ?c = "waiting_controller\<lparr>xc_addressing := 0\<rparr>"
  let ?c1 = "set_io (ctl_io ?c\<lparr>io_reads := Suc (io_reads (ctl_io ?c))\<rparr>) ?c"
  let ?c2 = "set_phase 2 kResettingPort (?c1\<lparr>xc_addressing := 2\<rparr>)"
  obtain s where s: "port_reset (xs_regs connected_setting) ?p (ctl_io ?c2) = Some (kSuccess, s)"
    using connected_resets by blast
  have "phase_of ?c1 2 = kWaitingAddressed"
    using waiting_phase_of [of 2] by (simp add: phase_of_def)
  then have "ctl_reset_port connected_setting ?p ?c = Some (kSuccess, set_io s ?c2)"
    using s by (simp add: ctl_reset_port_def connected_reads)
  then show ?thesis by (intro that) (simp add: set_io_def set_phase_def)
qed

lemma trb_cycle_get: "trb_cycle t \<longleftrightarrow> get_trb u ''cycle_bit'' t \<noteq> 0"
  by (simp add: trb_cycle_def get_trb_def get_member_def cycle_pos get_field_1_bool [unfolded One_nat_def])

lemma trb_cycle_0 [simp]: "\<not> trb_cycle 0"
  by (simp add: trb_cycle_def)

lemma waiting_ring:
  "ring_of 32 0 addressed_device (ue_io_update g (xc_env waiting_controller)) sample_ring"
proof -
  have "\<not> trb_cycle (new_AddressDeviceCommandTRB 0 1)"
    using trb_cycle_0 [unfolded trb_cycle_get [of _ AddressDeviceCommandTRB]]
    by (simp add: trb_cycle_get [of _ AddressDeviceCommandTRB] new_AddressDeviceCommandTRB_def
        set_input_context_def blank_trb_def)
  then have "\<not> trb_cycle (mem_trb (ue_mem (xc_env waiting_controller)) a)" for a
    by (simp add: waiting_controller_def)
  then show ?thesis
    by (simp add: ring_of_def addressed_device_def sample_device_def blank_device_def ring_ok_def sample_ring_def)
qed


theorem floor_passes_on_witness:
  "\<exists>c'. on_command_completion connected_setting addressed_event waiting_controller = Some (kSuccess, c')
      \<and> phase_of c' 1 = kInitializingDevice \<and> phase_of c' 2 = kResettingPort \<and> xc_addressing c' = 2"
proof -
  let ?c = waiting_controller
  obtain s where reset: "ctl_reset_port connected_setting (port_at ?c 2) (?c\<lparr>xc_addressing := 0\<rparr>)
    = Some (kSuccess, set_io s (set_phase 2 kResettingPort (?c\<lparr>xc_addressing := 2\<rparr>)))"
    by (rule waiting_reset)
  let ?c2 = "set_io s (set_phase 2 kResettingPort (?c\<lparr>xc_addressing := 2\<rparr>))"
  let ?d = "addressed_device\<lparr>ud_initialized := False, ud_phase := 1\<rparr>"
  have ring: "ring_of 32 (nat (1 - 1)) ?d (xc_env ?c2) sample_ring"
    using waiting_ring [of "\<lambda>_. s"] by (simp add: ring_of_def set_io_def set_phase_def)
  have buf: "ud_buf ?d \<noteq> 0" "kDefaultControlPipeID = 1"
    by (simp_all add: addressed_device_def sample_device_def blank_device_def kDefaultControlPipeID_def endpoint_id_def)
  obtain d' e' where init: "start_initialize addressed_device (xc_env ?c2) = Some (kSuccess, d', e')"
    unfolding start_initialize_def get_descriptor_def buf(2)
    by (rule control_in_data [OF ring _ _ _ buf(1)]) simp_all
  have dm: "xc_devmgr ?c2 = xc_devmgr ?c" by (simp add: set_io_def set_phase_def)
  have f: "find_by_slot 1 (xc_devmgr ?c2) = Some addressed_device" using waiting_device dm by simp
  have w: "first_waiting (?c\<lparr>xc_addressing := 0\<rparr>) = Some 2"
    using waiting_first by (simp add: first_waiting_def)
  have p: "port_at (?c\<lparr>xc_addressing := 0\<rparr>) 2 = port_at ?c 2" by (simp add: port_at_def)
  have "find_by_slot 1 (xc_devmgr (set_phase 1 kInitializingDevice ?c2)) = Some addressed_device"
    "xc_env (set_phase 1 kInitializingDevice ?c2) = xc_env ?c2"
    using f by (simp_all add: set_phase_def)
  then obtain c' where "initialize_device 1 1 ?c2 = Some (kSuccess, c')"
    using init f unfolding initialize_device_def by simp
  then have run: "on_device_addressed connected_setting 1 1 ?c = Some (kSuccess, c')"
    using reset w p by (simp add: on_device_addressed_def is_error_def)
  have type: "is_trb AddressDeviceCommandTRB (mem_trb (ue_mem (xc_env ?c)) 0x5000)"
    by (simp add: waiting_controller_def new_AddressDeviceCommandTRB_def set_input_context_def)
  then have "get_member TRB_bits ''trb_type'' (mem_trb (ue_mem (xc_env ?c)) 0x5000)
      = of_nat (trb_type AddressDeviceCommandTRB)"
    by (simp add: is_trb_def get_type_any)
  then have cmd: "on_command_completion connected_setting addressed_event ?c = Some (kSuccess, c')"
    using run waiting_device addressed_device_port waiting_phase_of [of 1]
    unfolding on_command_completion_def Let_def addressed_event_fields
    by (simp only: of_nat_type_inj) (simp add: waiting_phases)
  have "phase_of c' (xc_addressing ?c) = kInitializingDevice
       \<and> (case first_waiting ?c of None \<Rightarrow> xc_addressing c' = 0
          | Some i \<Rightarrow> xc_addressing c' = i \<and> phase_of c' i = kResettingPort)"
    by (rule floor_passes_on [OF cmd waiting_ports_ok, of addressed_device])
      (use type waiting_device addressed_device_port waiting_phase_of [of 1] in
        \<open>simp_all add: addressed_event_fields waiting_phases waiting_first connected_reads\<close>)
  then show ?thesis using cmd by (auto simp: waiting_phases waiting_first)
qed

end
