(* ===== verification/Pci.thy ===== *)
theory Pci imports Kernel_Error Bit_Layout begin

text \<open>
  \<^verbatim>\<open>Kernel/pci.cpp\<close> and \<^verbatim>\<open>pci.hpp\<close>: the search for PCI devices, base address registers, and the
  setting of message signalled interrupts. The configuration space is the argument \<open>conf\<close>: what
  CONFIG_DATA reads when CONFIG_ADDRESS holds an address; it is not assumed to be that of any real
  machine. What the driver writes to it is a list of addresses and values in the order of the
  writes. \<^verbatim>\<open>devices\<close> and \<^verbatim>\<open>num_device\<close> are one list of at most 32 devices.

  A bridge whose secondary bus is one that has been scanned before makes \<^verbatim>\<open>ScanBus\<close> recurse without
  end as far as the tree of buses goes; that the table of devices fills up is what ends it.
\<close>

type_synonym pci_conf = "u32 \<Rightarrow> u32"
type_synonym pci_writes = "(u32 \<times> u32) list"

(*@ Kernel/pci.hpp:29-40 ClassCode *)
record class_code =
  cc_base :: u8
  cc_sub :: u8
  cc_interface :: u8

(*@ Kernel/pci.hpp:47-50 Device *)
record pci_device =
  pd_bus :: u8
  pd_device :: u8
  pd_function :: u8
  pd_header_type :: u8
  pd_class :: class_code

section \<open>Registers\<close>

(*@ Kernel/pci.cpp:16-27 MakeAddress *)
definition make_address :: "u8 \<Rightarrow> u8 \<Rightarrow> u8 \<Rightarrow> u8 \<Rightarrow> u32" where
  "make_address bus device function reg_addr =
    push_bit 31 1 OR push_bit 16 (ucast bus) OR push_bit 11 (ucast device)
      OR push_bit 8 (ucast function) OR (ucast reg_addr AND 0xfc)"

(*@ Kernel/pci.cpp:200-203 ReadVendorId *)
definition read_vendor_id :: "pci_conf \<Rightarrow> u8 \<Rightarrow> u8 \<Rightarrow> u8 \<Rightarrow> u16" where
  "read_vendor_id conf bus device function = ucast (conf (make_address bus device function 0x00) AND 0xffff)"

(*@ Kernel/pci.cpp:205-208 ReadDeviceId *)
definition read_device_id :: "pci_conf \<Rightarrow> u8 \<Rightarrow> u8 \<Rightarrow> u8 \<Rightarrow> u16" where
  "read_device_id conf bus device function = ucast (drop_bit 16 (conf (make_address bus device function 0x00)))"

(*@ Kernel/pci.cpp:210-213 ReadHeaderType *)
definition read_header_type :: "pci_conf \<Rightarrow> u8 \<Rightarrow> u8 \<Rightarrow> u8 \<Rightarrow> u8" where
  "read_header_type conf bus device function =
    ucast (drop_bit 16 (conf (make_address bus device function 0x0c)) AND 0xff)"

(*@ Kernel/pci.cpp:215-226 ReadClassCode *)
definition read_class_code :: "pci_conf \<Rightarrow> u8 \<Rightarrow> u8 \<Rightarrow> u8 \<Rightarrow> class_code" where
  "read_class_code conf bus device function =
    (let reg = conf (make_address bus device function 0x08)
     in \<lparr>cc_base = ucast (drop_bit 24 reg AND 0xff), cc_sub = ucast (drop_bit 16 reg AND 0xff),
         cc_interface = ucast (drop_bit 8 reg AND 0xff)\<rparr>)"

(*@ Kernel/pci.cpp:228-231 ReadBusNumbers *)
definition read_bus_numbers :: "pci_conf \<Rightarrow> u8 \<Rightarrow> u8 \<Rightarrow> u8 \<Rightarrow> u32" where
  "read_bus_numbers conf bus device function = conf (make_address bus device function 0x18)"

(*@ Kernel/pci.cpp:233-235 IsSingleFunctionDevice *)
definition is_single_function_device :: "u8 \<Rightarrow> bool" where
  "is_single_function_device header_type \<longleftrightarrow> header_type AND 0x80 = 0"

(*@ Kernel/pci.cpp:256-259 ReadConfReg *)
definition read_conf_reg :: "pci_conf \<Rightarrow> pci_device \<Rightarrow> u8 \<Rightarrow> u32" where
  "read_conf_reg conf dev reg_addr = conf (make_address (pd_bus dev) (pd_device dev) (pd_function dev) reg_addr)"

(*@ Kernel/pci.cpp:261-264 WriteConfReg *)
definition write_conf_reg :: "pci_device \<Rightarrow> u8 \<Rightarrow> u32 \<Rightarrow> pci_writes \<Rightarrow> pci_writes" where
  "write_conf_reg dev reg_addr value ws =
    ws @ [(make_address (pd_bus dev) (pd_device dev) (pd_function dev) reg_addr, value)]"

section \<open>The search for devices\<close>

(*@ Kernel/pci.hpp:35-35 ClassCode::Match *)
definition class_match :: "u8 \<Rightarrow> u8 \<Rightarrow> class_code \<Rightarrow> bool" where
  "class_match b s c \<longleftrightarrow> b = cc_base c \<and> s = cc_sub c"

type_synonym scan = "pci_device list \<Rightarrow> (error_code \<times> pci_device list) option"

(*@ Kernel/pci.cpp:30-38 AddDevice *)
definition add_device :: "pci_device \<Rightarrow> pci_device list \<Rightarrow> error_code \<times> pci_device list" where
  "add_device dev devs = (if length devs = 32 then (kFull, devs) else (kSuccess, devs @ [dev]))"

definition device_at :: "pci_conf \<Rightarrow> u8 \<Rightarrow> u8 \<Rightarrow> u8 \<Rightarrow> pci_device" where
  "device_at conf bus device function =
    \<lparr>pd_bus = bus, pd_device = device, pd_function = function,
     pd_header_type = read_header_type conf bus device function,
     pd_class = read_class_code conf bus device function\<rparr>"

definition secondary_bus :: "pci_conf \<Rightarrow> u8 \<Rightarrow> u8 \<Rightarrow> u8 \<Rightarrow> u8" where
  "secondary_bus conf bus device function = ucast (drop_bit 8 (read_bus_numbers conf bus device function) AND 0xff)"

text \<open>The scan of the secondary bus is an argument of the scan of a function.\<close>

(*@ Kernel/pci.cpp:45-63 ScanFunction *)
definition scan_function :: "(u8 \<Rightarrow> scan) \<Rightarrow> pci_conf \<Rightarrow> u8 \<Rightarrow> u8 \<Rightarrow> u8 \<Rightarrow> scan" where
  "scan_function scan_bus conf bus device function devs =
    (let class_code = read_class_code conf bus device function;
         dev = device_at conf bus device function;
         (err, devs) = add_device dev devs
     in if is_error err then Some (err, devs)
        else if class_match 0x06 0x04 class_code then scan_bus (secondary_bus conf bus device function) devs
        else Some (kSuccess, devs))"

text \<open>A loop that returns the first error.\<close>

fun scan_each :: "('a \<Rightarrow> scan) \<Rightarrow> 'a list \<Rightarrow> scan" where
  "scan_each f [] devs = Some (kSuccess, devs)"
| "scan_each f (x # xs) devs =
    (case f x devs of
       None \<Rightarrow> None
     | Some (err, devs) \<Rightarrow> if is_error err then Some (err, devs) else scan_each f xs devs)"

definition if_present :: "pci_conf \<Rightarrow> u8 \<Rightarrow> u8 \<Rightarrow> u8 \<Rightarrow> scan \<Rightarrow> scan" where
  "if_present conf bus device function f devs =
    (if read_vendor_id conf bus device function = 0xffff then Some (kSuccess, devs) else f devs)"

(*@ Kernel/pci.cpp:68-88 ScanDevice *)
definition scan_device :: "(u8 \<Rightarrow> scan) \<Rightarrow> pci_conf \<Rightarrow> u8 \<Rightarrow> u8 \<Rightarrow> scan" where
  "scan_device scan_bus conf bus device devs =
    (case scan_function scan_bus conf bus device 0 devs of
       None \<Rightarrow> None
     | Some (err, devs) \<Rightarrow>
         if is_error err then Some (err, devs)
         else if is_single_function_device (read_header_type conf bus device 0) then Some (kSuccess, devs)
         else scan_each
           (\<lambda>function. if_present conf bus device function (scan_function scan_bus conf bus device function))
           (map of_nat [1..<8]) devs)"

text \<open>The fuel is the depth of the recursion.\<close>

(*@ Kernel/pci.cpp:93-103 ScanBus *)
fun scan_bus :: "nat \<Rightarrow> pci_conf \<Rightarrow> u8 \<Rightarrow> scan" where
  "scan_bus 0 conf bus devs = None"
| "scan_bus (Suc n) conf bus devs =
    scan_each (\<lambda>device. if_present conf bus device 0 (scan_device (scan_bus n conf) conf bus device))
      (map of_nat [0..<32]) devs"

(*@ Kernel/pci.cpp:237-254 ScanAllBus *)
definition scan_all_bus :: "nat \<Rightarrow> pci_conf \<Rightarrow> (error_code \<times> pci_device list) option" where
  "scan_all_bus n conf =
    (if is_single_function_device (read_header_type conf 0 0 0) then scan_bus n conf 0 []
     else scan_each (\<lambda>function. if_present conf 0 0 function (scan_bus n conf function)) (map of_nat [0..<8]) [])"

section \<open>Base address registers\<close>

(*@ Kernel/pci.hpp:100-102 CalcBarAddress *)
definition calc_bar_address :: "u32 \<Rightarrow> u8" where
  "calc_bar_address bar_index = ucast (0x10 + 4 * bar_index)"

(*@ Kernel/pci.cpp:266-288 ReadBar *)
definition read_bar :: "pci_conf \<Rightarrow> pci_device \<Rightarrow> u32 \<Rightarrow> u64 \<times> error_code" where
  "read_bar conf device bar_index =
    (if 6 \<le> bar_index then (0, kIndexOutOfRange)
     else
       let addr = calc_bar_address bar_index; bar = read_conf_reg conf device addr
       in if bar AND 4 = 0 then (ucast bar, kSuccess)
          else if 5 \<le> bar_index then (0, kIndexOutOfRange)
          else
            let bar_upper = read_conf_reg conf device (addr + 4)
            in (ucast bar OR push_bit 32 (ucast bar_upper), kSuccess))"

section \<open>Message signalled interrupts\<close>

(*@ Kernel/pci.hpp:107-114 CapabilityHeader *)
definition CapabilityHeader_bits :: layout where
  "CapabilityHeader_bits = [(''cap_id'', 8), (''next_ptr'', 8), (''cap'', 16)]"

(*@ Kernel/pci.hpp:116-116 kCapabilityMSI *)
definition kCapabilityMSI :: u32 where "kCapabilityMSI = 0x05"
(*@ Kernel/pci.hpp:117-117 kCapabilityMSIX *)
definition kCapabilityMSIX :: u32 where "kCapabilityMSIX = 0x11"

(*@ Kernel/pci.cpp:290-294 ReadCapabilityHeader *)
definition read_capability_header :: "pci_conf \<Rightarrow> pci_device \<Rightarrow> u8 \<Rightarrow> u32" where
  "read_capability_header conf dev addr = read_conf_reg conf dev addr"

(*@ Kernel/pci.hpp:134-143 MSICapability::header *)
definition MSIHeader_bits :: layout where
  "MSIHeader_bits =
    [(''cap_id'', 8), (''next_ptr'', 8), (''msi_enable'', 1), (''multi_msg_capable'', 3),
     (''multi_msg_enable'', 3), (''addr_64_capable'', 1), (''per_vector_mask_capable'', 1), ('''', 7)]"

(*@ Kernel/pci.hpp:131-151 MSICapability *)
record msi_capability =
  msi_header :: u32
  msi_msg_addr :: u32
  msi_msg_upper_addr :: u32
  msi_msg_data :: u32
  msi_mask_bits :: u32
  msi_pending_bits :: u32

(*@ Kernel/pci.cpp:110-130 ReadMSICapability *)
definition read_msi_capability :: "pci_conf \<Rightarrow> pci_device \<Rightarrow> u8 \<Rightarrow> msi_capability" where
  "read_msi_capability conf dev cap_addr =
    (let header = read_conf_reg conf dev cap_addr;
         wide = get_member MSIHeader_bits ''addr_64_capable'' header \<noteq> 0;
         mask = get_member MSIHeader_bits ''per_vector_mask_capable'' header \<noteq> 0;
         data_addr = (if wide then cap_addr + 12 else cap_addr + 8)
     in \<lparr>msi_header = header, msi_msg_addr = read_conf_reg conf dev (cap_addr + 4),
         msi_msg_upper_addr = (if wide then read_conf_reg conf dev (cap_addr + 8) else 0),
         msi_msg_data = read_conf_reg conf dev data_addr,
         msi_mask_bits = (if mask then read_conf_reg conf dev (data_addr + 4) else 0),
         msi_pending_bits = (if mask then read_conf_reg conf dev (data_addr + 8) else 0)\<rparr>)"

(*@ Kernel/pci.cpp:138-156 WriteMSICapability *)
definition write_msi_capability :: "pci_device \<Rightarrow> u8 \<Rightarrow> msi_capability \<Rightarrow> pci_writes \<Rightarrow> pci_writes" where
  "write_msi_capability dev cap_addr cap ws =
    (let wide = get_member MSIHeader_bits ''addr_64_capable'' (msi_header cap) \<noteq> 0;
         mask = get_member MSIHeader_bits ''per_vector_mask_capable'' (msi_header cap) \<noteq> 0;
         ws = write_conf_reg dev cap_addr (msi_header cap) ws;
         ws = write_conf_reg dev (cap_addr + 4) (msi_msg_addr cap) ws;
         ws = (if wide then write_conf_reg dev (cap_addr + 8) (msi_msg_upper_addr cap) ws else ws);
         data_addr = (if wide then cap_addr + 12 else cap_addr + 8);
         ws = write_conf_reg dev data_addr (msi_msg_data cap) ws
     in if mask
        then write_conf_reg dev (data_addr + 8) (msi_pending_bits cap)
          (write_conf_reg dev (data_addr + 4) (msi_mask_bits cap) ws)
        else ws)"

(*@ Kernel/pci.cpp:159-177 ConfigureMSIRegister *)
definition configure_msi_register ::
  "pci_conf \<Rightarrow> pci_device \<Rightarrow> u8 \<Rightarrow> u32 \<Rightarrow> u32 \<Rightarrow> u32 \<Rightarrow> pci_writes \<Rightarrow> error_code \<times> pci_writes" where
  "configure_msi_register conf dev cap_addr msg_addr msg_data num_vector_exponent ws =
    (let cap = read_msi_capability conf dev cap_addr; header = msi_header cap;
         capable = get_member MSIHeader_bits ''multi_msg_capable'' header;
         header = put_member MSIHeader_bits ''multi_msg_enable''
           (if capable \<le> num_vector_exponent then capable else num_vector_exponent) header;
         header = put_member MSIHeader_bits ''msi_enable'' 1 header
     in (kSuccess, write_msi_capability dev cap_addr
          (cap\<lparr>msi_header := header, msi_msg_addr := msg_addr, msi_msg_data := msg_data\<rparr>) ws))"

(*@ Kernel/pci.cpp:180-184 ConfigureMSIXRegister *)
definition configure_msix_register ::
  "pci_conf \<Rightarrow> pci_device \<Rightarrow> u8 \<Rightarrow> u32 \<Rightarrow> u32 \<Rightarrow> u32 \<Rightarrow> pci_writes \<Rightarrow> error_code \<times> pci_writes" where
  "configure_msix_register conf dev cap_addr msg_addr msg_data num_vector_exponent ws = (kNotImplemented, ws)"

text \<open>The walk over the capability list: the last capability of either kind. A list that leads back
  into itself is walked for ever.\<close>

(*@ Kernel/pci.cpp:300-308 ConfigureMSI *)
partial_function (option) find_msi :: "pci_conf \<Rightarrow> pci_device \<Rightarrow> u8 \<Rightarrow> u8 \<Rightarrow> u8 \<Rightarrow> (u8 \<times> u8) option" where
  [code]: "find_msi conf dev cap_addr msi msix =
    (if cap_addr = 0 then Some (msi, msix)
     else
       let header = read_capability_header conf dev cap_addr;
           cap_id = get_member CapabilityHeader_bits ''cap_id'' header;
           following = ucast (get_member CapabilityHeader_bits ''next_ptr'' header)
       in if cap_id = kCapabilityMSI then find_msi conf dev following cap_addr msix
          else if cap_id = kCapabilityMSIX then find_msi conf dev following msi cap_addr
          else find_msi conf dev following msi msix)"

(*@ Kernel/pci.cpp:296-317 ConfigureMSI *)
definition configure_msi ::
  "pci_conf \<Rightarrow> pci_device \<Rightarrow> u32 \<Rightarrow> u32 \<Rightarrow> u32 \<Rightarrow> pci_writes \<Rightarrow> (error_code \<times> pci_writes) option" where
  "configure_msi conf dev msg_addr msg_data num_vector_exponent ws =
    (case find_msi conf dev (ucast (read_conf_reg conf dev 0x34 AND 0xff)) 0 0 of
       None \<Rightarrow> None
     | Some (msi, msix) \<Rightarrow> Some (
         if msi \<noteq> 0 then configure_msi_register conf dev msi msg_addr msg_data num_vector_exponent ws
         else if msix \<noteq> 0 then configure_msix_register conf dev msix msg_addr msg_data num_vector_exponent ws
         else (kNoPCIMSI, ws)))"

(*@ Kernel/pci.hpp:163-166 MSITriggerMode *)
datatype msi_trigger_mode = MSI_kEdge | MSI_kLevel

(*@ Kernel/pci.hpp:168-175 MSIDeliveryMode *)
datatype msi_delivery_mode = MSI_kFixed | MSI_kLowestPriority | MSI_kSMI | MSI_kNMI | MSI_kINIT | MSI_kExtINT

fun delivery_value :: "msi_delivery_mode \<Rightarrow> u32" where
  "delivery_value MSI_kFixed = 0" | "delivery_value MSI_kLowestPriority = 1" | "delivery_value MSI_kSMI = 2"
| "delivery_value MSI_kNMI = 4" | "delivery_value MSI_kINIT = 5" | "delivery_value MSI_kExtINT = 7"

text \<open>\<^verbatim>\<open>apic_id << 12\<close> is computed as an int.\<close>

(*@ Kernel/pci.cpp:319-330 ConfigureMSIFixedDestination *)
definition configure_msi_fixed_destination ::
  "pci_conf \<Rightarrow> pci_device \<Rightarrow> u8 \<Rightarrow> msi_trigger_mode \<Rightarrow> msi_delivery_mode \<Rightarrow> u8 \<Rightarrow> u32 \<Rightarrow> pci_writes \<Rightarrow>
    (error_code \<times> pci_writes) option" where
  "configure_msi_fixed_destination conf dev apic_id trigger_mode delivery_mode vector num_vector_exponent ws =
    (let msg_addr = 0xfee00000 OR push_bit 12 (ucast apic_id);
         msg_data = push_bit 8 (delivery_value delivery_mode) OR ucast vector;
         msg_data = (if trigger_mode = MSI_kLevel then msg_data OR 0xc000 else msg_data)
     in configure_msi conf dev msg_addr msg_data num_vector_exponent ws)"

end
