(* ===== verification/Pci_Scan.thy ===== *)
theory Pci_Scan imports Pci begin

text \<open>
  What the search for PCI devices finds, that it always ends, and what the setting of message
  signalled interrupts writes.
\<close>

section \<open>The search ends\<close>

text \<open>A scan that starts with at least \<open>m\<close> devices in the table returns, keeps what was there, and
  fails only because the table is full.\<close>

definition scan_ends :: "nat \<Rightarrow> scan \<Rightarrow> bool" where
  "scan_ends m f \<longleftrightarrow> (\<forall>devs. m \<le> length devs \<and> length devs \<le> 32 \<longrightarrow>
    (\<exists>err ys. f devs = Some (err, devs @ ys) \<and> length (devs @ ys) \<le> 32
      \<and> (err = kSuccess \<or> err = kFull \<and> length (devs @ ys) = 32)))"

lemma scan_endsE:
  assumes "scan_ends m f" "m \<le> length devs" "length devs \<le> 32"
  obtains err ys where "f devs = Some (err, devs @ ys)" "length (devs @ ys) \<le> 32"
    "err = kSuccess \<or> err = kFull \<and> length (devs @ ys) = 32"
  using assms unfolding scan_ends_def by blast

lemma scan_function_ends:
  assumes "\<And>b. scan_ends (Suc m) (sb b)"
  shows "scan_ends m (scan_function sb conf bus device function)"
  unfolding scan_ends_def
proof (intro allI impI)
  fix devs :: "pci_device list"
  assume devs: "m \<le> length devs \<and> length devs \<le> 32"
  show "\<exists>err ys. scan_function sb conf bus device function devs = Some (err, devs @ ys)
      \<and> length (devs @ ys) \<le> 32 \<and> (err = kSuccess \<or> err = kFull \<and> length (devs @ ys) = 32)"
  proof (cases "length devs = 32")
    case True
    then show ?thesis by (simp add: scan_function_def add_device_def is_error_def)
  next
    case False
    then have len: "Suc m \<le> length (devs @ [device_at conf bus device function])"
      "length (devs @ [device_at conf bus device function]) \<le> 32"
      using devs by auto
    obtain err ys where "sb (secondary_bus conf bus device function) (devs @ [device_at conf bus device function])
        = Some (err, (devs @ [device_at conf bus device function]) @ ys)"
      "length ((devs @ [device_at conf bus device function]) @ ys) \<le> 32"
      "err = kSuccess \<or> err = kFull \<and> length ((devs @ [device_at conf bus device function]) @ ys) = 32"
      by (rule scan_endsE [OF assms len])
    then show ?thesis
      using False len by (auto simp: scan_function_def Let_def add_device_def is_error_def)
  qed
qed

lemma if_present_ends: "scan_ends m f \<Longrightarrow> scan_ends m (if_present conf bus device function f)"
  by (auto simp: scan_ends_def if_present_def)

text \<open>One scan after another that was successful.\<close>

definition scan_seq :: "scan \<Rightarrow> scan \<Rightarrow> scan" where
  "scan_seq f g devs = (case f devs of None \<Rightarrow> None
     | Some (err, devs) \<Rightarrow> if is_error err then Some (err, devs) else g devs)"

definition scan_done :: scan where
  "scan_done devs = Some (kSuccess, devs)"

lemma scan_each_seq: "scan_each f [] = scan_done" "scan_each f (x # xs) = scan_seq (f x) (scan_each f xs)"
  by (simp_all add: fun_eq_iff scan_seq_def scan_done_def)

lemma scan_device_seq:
  "scan_device sb conf bus device = scan_seq (scan_function sb conf bus device 0)
    (if is_single_function_device (read_header_type conf bus device 0) then scan_done
     else scan_each (\<lambda>function. if_present conf bus device function (scan_function sb conf bus device function))
       (map of_nat [1..<8]))"
  by (rule ext) (simp add: scan_device_def scan_seq_def scan_done_def split: option.split prod.split)

lemma scan_done_ends: "scan_ends m scan_done"
  by (simp add: scan_ends_def scan_done_def)

lemma scan_seq_ends:
  assumes "scan_ends m f" "scan_ends m g"
  shows "scan_ends m (scan_seq f g)"
  unfolding scan_ends_def
proof (intro allI impI)
  fix devs :: "pci_device list"
  assume devs: "m \<le> length devs \<and> length devs \<le> 32"
  obtain err ys where first: "f devs = Some (err, devs @ ys)" "length (devs @ ys) \<le> 32"
    "err = kSuccess \<or> err = kFull \<and> length (devs @ ys) = 32"
    by (rule scan_endsE [OF assms(1)]) (use devs in auto)
  have "m \<le> length (devs @ ys)" using devs by simp
  with assms(2) first(2) obtain err' ys' where rest: "g (devs @ ys) = Some (err', (devs @ ys) @ ys')"
    "length ((devs @ ys) @ ys') \<le> 32" "err' = kSuccess \<or> err' = kFull \<and> length ((devs @ ys) @ ys') = 32"
    by (metis scan_endsE)
  show "\<exists>err ys. scan_seq f g devs = Some (err, devs @ ys)
      \<and> length (devs @ ys) \<le> 32 \<and> (err = kSuccess \<or> err = kFull \<and> length (devs @ ys) = 32)"
    using first rest by (cases "err = kSuccess") (auto simp: is_error_def scan_seq_def)
qed

lemma scan_each_ends: "(\<And>x. x \<in> set xs \<Longrightarrow> scan_ends m (f x)) \<Longrightarrow> scan_ends m (scan_each f xs)"
  by (induction xs) (simp_all add: scan_each_seq scan_done_ends scan_seq_ends)

lemma scan_device_ends:
  assumes "\<And>b. scan_ends (Suc m) (sb b)"
  shows "scan_ends m (scan_device sb conf bus device)"
  unfolding scan_device_seq
  by (simp add: scan_seq_ends scan_done_ends scan_each_ends if_present_ends scan_function_ends assms)

lemma scan_bus_ends: "33 - m \<le> n \<Longrightarrow> m \<le> 32 \<Longrightarrow> scan_ends m (scan_bus n conf bus)"
proof (induction n arbitrary: m bus)
  case 0
  then show ?case by simp
next
  case (Suc n)
  have unfold: "scan_bus (Suc n) conf bus = scan_each (\<lambda>device. if_present conf bus device 0
      (scan_device (scan_bus n conf) conf bus device)) (map of_nat [0..<32])"
    by (simp add: fun_eq_iff)
  show ?case
  proof (cases "m = 32")
    case True
    have "scan_ends (Suc m) (scan_bus n conf b)" for b
      using True by (auto simp: scan_ends_def)
    then show ?thesis
      unfolding unfold by (simp add: scan_each_ends if_present_ends scan_device_ends)
  next
    case False
    then have "scan_ends (Suc m) (scan_bus n conf b)" for b
      using Suc by simp
    then show ?thesis
      unfolding unfold by (simp add: scan_each_ends if_present_ends scan_device_ends)
  qed
qed

text \<open>C30: The search for devices ends on every configuration space, also one whose bridges lead back
  to a bus that is being scanned: every level of the recursion adds a device, and the table has 32
  places. Thirty-three levels are enough and more make no difference to that. It fails only with
  \<open>kFull\<close>, and then the table is full.\<close>

theorem pci_scan_ends:
  "\<exists>err devs. scan_all_bus (33 + k) conf = Some (err, devs) \<and> length devs \<le> 32
    \<and> (err = kSuccess \<or> err = kFull \<and> length devs = 32)"
proof -
  have ends: "scan_ends 0 (scan_bus (33 + k) conf bus)" for bus
    by (rule scan_bus_ends) simp_all
  have "scan_ends 0 (scan_each (\<lambda>function. if_present conf 0 0 function (scan_bus (33 + k) conf function)) (map of_nat [0..<8]))"
    by (intro scan_each_ends if_present_ends ends)
  then show ?thesis
    using ends [of 0] unfolding scan_ends_def scan_all_bus_def by (auto dest: spec [of _ "[]"])
qed


section \<open>The search finds what answers\<close>

definition answers :: "pci_conf \<Rightarrow> u8 \<Rightarrow> u8 \<Rightarrow> u8 \<Rightarrow> bool" where
  "answers conf bus device function \<longleftrightarrow> device < 32 \<and> function < 8
    \<and> read_vendor_id conf bus device 0 \<noteq> 0xffff
    \<and> (function = 0 \<or> \<not> is_single_function_device (read_header_type conf bus device 0)
        \<and> read_vendor_id conf bus device function \<noteq> 0xffff)"

text \<open>A bridge that leads from one bus to another, and the buses at which the host's bridges begin.\<close>

definition bridged :: "pci_conf \<Rightarrow> u8 \<Rightarrow> u8 \<Rightarrow> bool" where
  "bridged conf b c \<longleftrightarrow> (\<exists>d f. answers conf b d f \<and> class_match 0x06 0x04 (read_class_code conf b d f)
    \<and> c = secondary_bus conf b d f)"

definition host_bus :: "pci_conf \<Rightarrow> u8 \<Rightarrow> bool" where
  "host_bus conf b \<longleftrightarrow> (if is_single_function_device (read_header_type conf 0 0 0) then b = 0
     else b < 8 \<and> read_vendor_id conf 0 0 b \<noteq> 0xffff)"

definition found_from :: "pci_conf \<Rightarrow> u8 \<Rightarrow> pci_device set" where
  "found_from conf r = {device_at conf b d f | b d f. (bridged conf)\<^sup>*\<^sup>* r b \<and> answers conf b d f}"

definition scan_finds :: "scan \<Rightarrow> pci_device set \<Rightarrow> bool" where
  "scan_finds f S \<longleftrightarrow> (\<forall>devs devs'. f devs = Some (kSuccess, devs') \<longrightarrow> set devs' = set devs \<union> S)"

lemma scan_done_finds: "scan_finds scan_done {}"
  by (simp add: scan_finds_def scan_done_def)

lemma scan_seq_finds: "scan_finds f S \<Longrightarrow> scan_finds g T \<Longrightarrow> scan_finds (scan_seq f g) (S \<union> T)"
  by (auto simp: scan_finds_def scan_seq_def is_error_def split: option.splits prod.splits if_splits)

lemma scan_each_finds: "(\<And>x. x \<in> set xs \<Longrightarrow> scan_finds (f x) (S x)) \<Longrightarrow> scan_finds (scan_each f xs) (\<Union>x\<in>set xs. S x)"
  by (induction xs) (simp_all add: scan_each_seq scan_done_finds scan_seq_finds)

lemma if_present_finds:
  "scan_finds f S \<Longrightarrow>
    scan_finds (if_present conf b d fn f) (if read_vendor_id conf b d fn = 0xffff then {} else S)"
  by (simp add: scan_finds_def if_present_def)

lemma scan_function_finds:
  assumes "\<And>b. scan_finds (sb b) (found_from conf b)"
  shows "scan_finds (scan_function sb conf b d f)
    (insert (device_at conf b d f)
      (if class_match 0x06 0x04 (read_class_code conf b d f) then found_from conf (secondary_bus conf b d f) else {}))"
  using assms by (auto simp: scan_finds_def scan_function_def Let_def add_device_def is_error_def split: if_splits)

lemma u8_upto:
  assumes "k \<le> 256"
  shows "set (map of_nat [j..<k]) = {d :: u8. j \<le> unat d \<and> unat d < k}"
proof (rule equalityI; rule subsetI)
  fix d :: u8
  assume "d \<in> set (map of_nat [j..<k])"
  then show "d \<in> {d. j \<le> unat d \<and> unat d < k}"
    using assms by (auto simp: unat_of_nat take_bit_nat_eq_self)
next
  fix d :: u8
  assume "d \<in> {d. j \<le> unat d \<and> unat d < k}"
  then have "unat d \<in> set [j..<k]" "of_nat (unat d) = d" by simp_all
  then show "d \<in> set (map of_nat [j..<k])" by (metis image_eqI set_map)
qed

definition below :: "pci_conf \<Rightarrow> u8 \<Rightarrow> u8 \<Rightarrow> u8 \<Rightarrow> pci_device set" where
  "below conf b d f = insert (device_at conf b d f)
      (if class_match 0x06 0x04 (read_class_code conf b d f) then found_from conf (secondary_bus conf b d f) else {})"

lemma found_from_unfold: "found_from conf b = (\<Union>(d, f) \<in> {(d, f). answers conf b d f}. below conf b d f)"
proof (rule equalityI; rule subsetI)
  fix x
  assume "x \<in> found_from conf b"
  then obtain c d f where x: "x = device_at conf c d f" "(bridged conf)\<^sup>*\<^sup>* b c" "answers conf c d f"
    by (auto simp: found_from_def)
  from x(2) show "x \<in> (\<Union>(d, f) \<in> {(d, f). answers conf b d f}. below conf b d f)"
  proof (cases rule: converse_rtranclpE)
    case base
    then show ?thesis using x by (auto simp: below_def)
  next
    case (step b')
    then show ?thesis using x by (fastforce simp: below_def bridged_def found_from_def)
  qed
next
  fix x
  assume "x \<in> (\<Union>(d, f) \<in> {(d, f). answers conf b d f}. below conf b d f)"
  then show "x \<in> found_from conf b"
    by (fastforce simp: below_def bridged_def found_from_def split: if_splits
        intro: converse_rtranclp_into_rtranclp)
qed

lemma scan_device_finds:
  assumes "\<And>b. scan_finds (sb b) (found_from conf b)" "d < 32" "read_vendor_id conf b d 0 \<noteq> 0xffff"
  shows "scan_finds (scan_device sb conf b d) (\<Union>f \<in> {f. answers conf b d f}. below conf b d f)"
proof -
  have fn: "scan_finds (scan_function sb conf b d f) (below conf b d f)" for f
    unfolding below_def by (rule scan_function_finds [OF assms(1)])
  let ?f = "\<lambda>f. if read_vendor_id conf b d f = 0xffff then {} else below conf b d f"
  let ?F = "{f :: u8. 1 \<le> unat f \<and> unat f < 8}"
  have upto: "set (map of_nat [1..<8]) = ?F" by (rule u8_upto) simp
  have rest: "scan_finds (scan_each (\<lambda>f. if_present conf b d f (scan_function sb conf b d f)) (map of_nat [1..<8]))
      (\<Union>f\<in>?F. ?f f)"
    unfolding upto [symmetric] by (intro scan_each_finds if_present_finds fn)
  let ?more = "if is_single_function_device (read_header_type conf b d 0) then {}
    else {f \<in> ?F. read_vendor_id conf b d f \<noteq> 0xffff}"
  have "{f. answers conf b d f} = insert 0 ?more"
    using assms(2,3) by (auto simp: answers_def word_less_nat_alt Suc_le_eq unat_gt_0)
  then have "(if is_single_function_device (read_header_type conf b d 0) then {} else \<Union>f\<in>?F. ?f f)
      \<union> below conf b d 0 = (\<Union>f \<in> {f. answers conf b d f}. below conf b d f)"
    by auto
  moreover have "scan_finds (scan_device sb conf b d) (below conf b d 0
      \<union> (if is_single_function_device (read_header_type conf b d 0) then {} else \<Union>f\<in>?F. ?f f))"
    unfolding scan_device_seq by (rule scan_seq_finds [OF fn]) (use rest scan_done_finds in simp)
  ultimately show ?thesis by (simp add: Un_commute)
qed


lemma scan_bus_finds: "scan_finds (scan_bus n conf b) (found_from conf b)"
proof (induction n arbitrary: b)
  case 0
  show ?case by (simp add: scan_finds_def)
next
  case (Suc n)
  let ?g = "\<lambda>d. if_present conf b d 0 (scan_device (scan_bus n conf) conf b d)"
  let ?S = "\<lambda>d. if read_vendor_id conf b d 0 = 0xffff then {} else \<Union>f \<in> {f. answers conf b d f}. below conf b d f"
  have upto: "set (map of_nat [0..<32]) = {d :: u8. 0 \<le> unat d \<and> unat d < 32}" by (rule u8_upto) simp
  have "scan_finds (?g d) (?S d)" if "d \<in> set (map of_nat [0..<32])" for d
  proof -
    have "d < 32" using that unfolding upto by (simp add: word_less_nat_alt)
    then show ?thesis
      using scan_device_finds [OF Suc] by (cases "read_vendor_id conf b d 0 = 0xffff") (simp_all add: scan_finds_def if_present_def)
  qed
  then have "scan_finds (scan_each ?g (map of_nat [0..<32])) (\<Union>d \<in> set (map of_nat [0..<32]). ?S d)"
    by (rule scan_each_finds)
  moreover have "(\<Union>d \<in> set (map of_nat [0..<32]). ?S d) = found_from conf b"
  proof -
    have "?S d = (\<Union>f \<in> {f. answers conf b d f}. below conf b d f)" for d
      by (auto simp: answers_def)
    moreover have "answers conf b d f \<Longrightarrow> unat d < 32" for d f
      by (simp add: answers_def word_less_nat_alt)
    ultimately show ?thesis
      unfolding upto found_from_unfold by auto blast
  qed
  moreover have "scan_bus (Suc n) conf b = scan_each ?g (map of_nat [0..<32])"
    by (simp add: fun_eq_iff)
  ultimately show ?case by simp
qed

text \<open>C29: When the search succeeds, the table holds exactly the functions that answer on the buses
  that can be reached: from the buses of the host bridges, over any number of PCI-to-PCI bridges.
  A function other than 0 counts only when the device says it has several.\<close>

theorem pci_scan_finds:
  assumes "scan_all_bus n conf = Some (kSuccess, devs)"
  shows "set devs = {device_at conf b d f | r b d f.
    host_bus conf r \<and> (bridged conf)\<^sup>*\<^sup>* r b \<and> answers conf b d f}"
proof -
  let ?S = "\<lambda>r. if read_vendor_id conf 0 0 r = 0xffff then {} else found_from conf r"
  have upto: "set (map of_nat [0..<8]) = {f :: u8. 0 \<le> unat f \<and> unat f < 8}" by (rule u8_upto) simp
  have "scan_finds (scan_each (\<lambda>r. if_present conf 0 0 r (scan_bus n conf r)) (map of_nat [0..<8]))
      (\<Union>r \<in> set (map of_nat [0..<8]). ?S r)"
    by (intro scan_each_finds if_present_finds scan_bus_finds)
  then have "set devs = (\<Union>r \<in> {r. host_bus conf r}. found_from conf r)"
    using assms scan_bus_finds [of n conf 0] unfolding upto
    by (auto simp: scan_all_bus_def scan_finds_def host_bus_def word_less_nat_alt split: if_splits)
  then show ?thesis by (auto simp: found_from_def)
qed

text \<open>A machine with a bridge at 0:1.0 and a network card behind it.\<close>

lemma bit_small_word:
  fixes w :: "'a::len word"
  assumes "unat w < 2 ^ k" "bit w m"
  shows "m < k"
proof (rule ccontr)
  assume "\<not> m < k"
  then have "(2 :: nat) ^ k \<le> 2 ^ m" by simp
  with assms(1) have "unat w < 2 ^ m" by linarith
  moreover have "bit (unat w) m" using assms(2) by (simp add: bit_unsigned_iff bit_imp_possible_bit)
  ultimately show False by (simp add: bit_iff_odd)
qed

lemma make_address_fields:
  assumes "d < 32" "f < 8"
  shows "get_field 16 8 (make_address b d f r) = ucast b"
    "get_field 11 5 (make_address b d f r) = ucast d"
    "get_field 8 3 (make_address b d f r) = ucast f"
    "get_field 0 8 (make_address b d f r) = ucast (r AND 0xfc)"
proof -
  have d: "bit d m \<Longrightarrow> m < 5" for m using bit_small_word [of d 5 m] assms(1) by (simp add: word_less_nat_alt)
  have f: "bit f m \<Longrightarrow> m < 3" for m using bit_small_word [of f 3 m] assms(2) by (simp add: word_less_nat_alt)
  have r: "bit (ucast r AND 0xfc :: u32) m \<longleftrightarrow> bit (r AND 0xfc) m" for m
  proof -
    have "ucast r AND 0xfc = (ucast (r AND 0xfc) :: u32)"
      by (intro bit_eqI) (auto simp: bit_and_iff bit_ucast_iff dest: bit_imp_le_length)
    then show ?thesis by (auto simp: bit_ucast_iff dest: bit_imp_le_length)
  qed
  have "bit (make_address b d f r) m \<longleftrightarrow> m = 31 \<or> m < 32 \<and>
      (16 \<le> m \<and> bit b (m - 16) \<or> 11 \<le> m \<and> bit d (m - 11) \<or> 8 \<le> m \<and> bit f (m - 8) \<or> bit (r AND 0xfc) m)" for m
    unfolding make_address_def
    by (simp only: bit_or_iff bit_push_bit_iff bit_ucast_iff r bit_1_iff)
      (auto dest: bit_imp_le_length)
  note bits = bit_get_field this bit_ucast_iff
  show "get_field 16 8 (make_address b d f r) = ucast b"
    by (intro bit_eqI) (auto simp: bits dest: d f bit_imp_le_length)
  show "get_field 11 5 (make_address b d f r) = ucast d"
    by (intro bit_eqI) (auto simp: bits dest: d f bit_imp_le_length)
  show "get_field 8 3 (make_address b d f r) = ucast f"
    by (intro bit_eqI) (auto simp: bits dest: d f bit_imp_le_length)
  show "get_field 0 8 (make_address b d f r) = ucast (r AND 0xfc)"
    by (intro bit_eqI) (auto simp: bits dest: d f bit_imp_le_length)
qed


definition sample_machine :: pci_conf where
  "sample_machine a =
    (let r = get_field 0 8 a in
     if get_field 16 8 a = 0 \<and> get_field 11 5 a = 1 \<and> get_field 8 3 a = 0
     then if r = 0x00 then 0x12378086 else if r = 0x08 then 0x06040000 else if r = 0x18 then 0x00010100 else 0
     else if get_field 16 8 a = 1 \<and> get_field 11 5 a = 0 \<and> get_field 8 3 a = 0
     then if r = 0x00 then 0x100e8086 else if r = 0x08 then 0x02000000 else 0
     else if r = 0x0c then 0 else 0xffffffff)"

lemma ucast_u8_eq: "(ucast x = (ucast y :: u32)) = (x = y)" for x y :: u8
proof -
  have "unat (ucast z :: u32) = unat z" for z :: u8
    using unsigned_less [of z, where ?'a = nat] by (simp add: unsigned_ucast_eq take_bit_nat_eq_self)
  then show ?thesis by (metis word_unat_eq_iff)
qed

lemma sample_registers:
  assumes "d < 32"
  shows "read_vendor_id sample_machine b d 0 = (if b = 0 \<and> d = 1 \<or> b = 1 \<and> d = 0 then 0x8086 else 0xffff)"
    "read_header_type sample_machine b d 0 = 0"
  using assms ucast_u8_eq [of _ 0] ucast_u8_eq [of _ 1]
  by (simp_all add: read_vendor_id_def read_header_type_def sample_machine_def make_address_fields)

lemma sample_classes:
  "class_match 0x06 0x04 (read_class_code sample_machine 0 1 0)"
  "\<not> class_match 0x06 0x04 (read_class_code sample_machine 1 0 0)"
  "secondary_bus sample_machine 0 1 0 = 1"
  by (simp_all add: read_class_code_def class_match_def
      secondary_bus_def read_bus_numbers_def sample_machine_def make_address_fields)

lemma scan_each_absent:
  "(\<And>d. d \<in> set ds \<Longrightarrow> read_vendor_id conf b d 0 = 0xffff) \<Longrightarrow>
    scan_each (\<lambda>d. if_present conf b d 0 (f d)) ds devs = Some (kSuccess, devs)"
  by (induction ds) (simp_all add: if_present_def is_error_def)

lemma scan_each_append:
  "scan_each f (xs @ ys) = scan_seq (scan_each f xs) (scan_each f ys)"
proof (induction xs)
  case Nil
  then show ?case by (simp add: fun_eq_iff scan_seq_def is_error_def)
next
  case (Cons x xs)
  then show ?case
    by (auto simp: fun_eq_iff scan_seq_def split: option.splits prod.splits)
qed

lemma sample_bus:
  "scan_bus (Suc n) sample_machine 1 [x] = Some (kSuccess, [x, device_at sample_machine 1 0 0])"
  "scan_bus (Suc (Suc n)) sample_machine 0 [] =
    Some (kSuccess, [device_at sample_machine 0 1 0, device_at sample_machine 1 0 0])"
proof -
  have split: "(map of_nat [0..<32] :: u8 list) = [0, 1] @ map of_nat [2..<32]"
    by (simp add: upt_rec)
  have tail: "d < 32 \<and> d \<noteq> 0 \<and> d \<noteq> 1" if "d \<in> set (map of_nat [2..<32])" for d :: u8
  proof -
    have "d \<in> {d. 2 \<le> unat d \<and> unat d < 32}" using that by (subst (asm) u8_upto) simp_all
    then show ?thesis by (auto simp: word_less_nat_alt)
  qed
  have rest: "scan_each (\<lambda>d. if_present sample_machine b d 0 (f d)) (map of_nat [2..<32]) devs = Some (kSuccess, devs)"
    for b f devs
    by (rule scan_each_absent) (use tail sample_registers(1) in simp)
  have single: "is_single_function_device 0" by (simp add: is_single_function_device_def)
  note eval = scan_each_append scan_seq_def if_present_def sample_registers sample_classes is_error_def scan_device_def
    scan_function_def add_device_def single split rest Let_def
  show one: "scan_bus (Suc n) sample_machine 1 [x] = Some (kSuccess, [x, device_at sample_machine 1 0 0])" for n x
    by (simp only: scan_bus.simps split) (simp add: eval del: upt_rec_numeral map_append)
  show "scan_bus (Suc (Suc n)) sample_machine 0 [] =
    Some (kSuccess, [device_at sample_machine 0 1 0, device_at sample_machine 1 0 0])"
    by (simp only: scan_bus.simps(2) [of "Suc n"] split) (simp add: eval one del: upt_rec_numeral map_append scan_bus.simps)
qed

theorem pci_scan_finds_witness:
  "{device_at sample_machine b d f | r b d f. host_bus sample_machine r
      \<and> (bridged sample_machine)\<^sup>*\<^sup>* r b \<and> answers sample_machine b d f}
    = {device_at sample_machine 0 1 0, device_at sample_machine 1 0 0}"
proof -
  have "scan_all_bus (Suc (Suc 0)) sample_machine =
      Some (kSuccess, [device_at sample_machine 0 1 0, device_at sample_machine 1 0 0])"
    using sample_registers(2) [of 0 0] sample_bus(2) [of 0]
    by (simp add: scan_all_bus_def is_single_function_device_def del: scan_bus.simps)
  from pci_scan_finds [OF this] show ?thesis by simp
qed

end
