(* ===== verification/Pci_Msi.thy ===== *)
theory Pci_Msi imports Pci begin

text \<open>
  What \<open>ConfigureMSI\<close> writes into a device, for every capability list that ends. A list is given
  by the addresses of its entries.
\<close>

definition next_cap :: "pci_conf \<Rightarrow> pci_device \<Rightarrow> u8 \<Rightarrow> u8" where
  "next_cap conf dev a =
    ucast (get_member CapabilityHeader_bits ''next_ptr'' (read_capability_header conf dev a))"

definition has_cap :: "u32 \<Rightarrow> pci_conf \<Rightarrow> pci_device \<Rightarrow> u8 \<Rightarrow> bool" where
  "has_cap c conf dev a \<longleftrightarrow>
    get_member CapabilityHeader_bits ''cap_id'' (read_capability_header conf dev a) = c"

fun cap_chain :: "pci_conf \<Rightarrow> pci_device \<Rightarrow> u8 \<Rightarrow> u8 list \<Rightarrow> bool" where
  "cap_chain conf dev a [] \<longleftrightarrow> a = 0"
| "cap_chain conf dev a (x # xs) \<longleftrightarrow> a = x \<and> a \<noteq> 0 \<and> cap_chain conf dev (next_cap conf dev a) xs"

definition last_cap :: "(u8 \<Rightarrow> bool) \<Rightarrow> u8 list \<Rightarrow> u8 \<Rightarrow> u8" where
  "last_cap P xs d = (if filter P xs = [] then d else last (filter P xs))"

lemma last_cap_simps [simp]:
  "last_cap P [] d = d"
  "last_cap P (x # xs) d = last_cap P xs (if P x then x else d)"
  by (simp_all add: last_cap_def)

lemma kinds_differ [simp]: "kCapabilityMSI \<noteq> kCapabilityMSIX" "kCapabilityMSIX \<noteq> kCapabilityMSI"
  by (simp_all add: kCapabilityMSI_def kCapabilityMSIX_def)

lemma find_msi_last:
  "cap_chain conf dev a caps \<Longrightarrow> find_msi conf dev a m x =
    Some (last_cap (has_cap kCapabilityMSI conf dev) caps m, last_cap (has_cap kCapabilityMSIX conf dev) caps x)"
proof (induction caps arbitrary: a m x)
  case Nil
  then show ?case by (simp add: find_msi.simps)
next
  case (Cons c caps)
  then have a: "a = c" "a \<noteq> 0" and rest: "cap_chain conf dev (next_cap conf dev a) caps" by auto
  show ?case
    using a Cons.IH [OF rest]
    unfolding find_msi.simps [of conf dev a] Let_def has_cap_def [symmetric] next_cap_def [symmetric]
    by (auto simp: has_cap_def)
qed

text \<open>An entry of the list is not at address 0, so a capability that was found is one that is used.\<close>

lemma chain_not_0: "cap_chain conf dev a caps \<Longrightarrow> x \<in> set caps \<Longrightarrow> x \<noteq> 0"
  by (induction caps arbitrary: a) auto

lemma last_cap_0:
  assumes "cap_chain conf dev a caps"
  shows "last_cap P caps 0 = 0 \<longleftrightarrow> filter P caps = []"
proof
  assume 0: "last_cap P caps 0 = 0"
  show "filter P caps = []"
  proof (rule ccontr)
    assume "filter P caps \<noteq> []"
    then have "last (filter P caps) \<in> set caps" using last_in_set by fastforce
    then show False
      using 0 chain_not_0 [OF assms] \<open>filter P caps \<noteq> []\<close> by (simp add: last_cap_def)
  qed
qed (simp add: last_cap_def)

section \<open>The header\<close>

lemma msi_header_fits: "layout_bits MSIHeader_bits \<le> LENGTH(32)"
  and msi_header_widths:
    "member_width MSIHeader_bits ''msi_enable'' = 1"
    "member_width MSIHeader_bits ''multi_msg_enable'' = 3"
    "member_width MSIHeader_bits ''multi_msg_capable'' = 3"
  by (simp_all add: MSIHeader_bits_def member_width_def)

lemma capable_bound: "take_bit 3 (get_member MSIHeader_bits ''multi_msg_capable'' h) =
    get_member MSIHeader_bits ''multi_msg_capable'' (h :: u32)"
  by (simp add: get_member_def MSIHeader_bits_def get_field_def)

lemma take_bit_below:
  fixes v w :: u32
  assumes "take_bit 3 w = w" "v \<le> w"
  shows "take_bit 3 v = v"
proof -
  have "unat w = unat w mod 8"
    using arg_cong [OF assms(1), of unat] by (simp add: unsigned_take_bit_eq flip: take_bit_eq_mod) (simp add: take_bit_eq_mod)
  then have "unat w < 8" by (metis mod_less_divisor zero_less_numeral)
  then have "unat v < 8" using assms(2) by (simp add: word_le_nat_alt)
  then show ?thesis
    by (simp add: word_unat_eq_iff unsigned_take_bit_eq take_bit_nat_eq_self)
qed

definition msi_header_of :: "u32 \<Rightarrow> u32 \<Rightarrow> u32" where
  "msi_header_of n h = put_member MSIHeader_bits ''msi_enable'' 1
    (put_member MSIHeader_bits ''multi_msg_enable''
      (min (get_member MSIHeader_bits ''multi_msg_capable'' h) n) h)"

lemma msi_header_members:
  "get_member MSIHeader_bits ''msi_enable'' (msi_header_of n h) = 1"
  "get_member MSIHeader_bits ''multi_msg_enable'' (msi_header_of n h) =
    min (get_member MSIHeader_bits ''multi_msg_capable'' h) n"
  "m \<noteq> ''msi_enable'' \<Longrightarrow> m \<noteq> ''multi_msg_enable'' \<Longrightarrow>
    get_member MSIHeader_bits m (msi_header_of n h) = get_member MSIHeader_bits m h"
proof -
  have "take_bit 3 (min (get_member MSIHeader_bits ''multi_msg_capable'' h) n) =
      min (get_member MSIHeader_bits ''multi_msg_capable'' h) n"
    by (rule take_bit_below [OF capable_bound [of h]]) simp
  then show "get_member MSIHeader_bits ''multi_msg_enable'' (msi_header_of n h) =
      min (get_member MSIHeader_bits ''multi_msg_capable'' h) n"
    by (simp add: msi_header_of_def get_put_member [OF msi_header_fits] msi_header_widths)
qed (simp_all add: msi_header_of_def get_put_member [OF msi_header_fits] msi_header_widths take_bit_eq_mod)

section \<open>What is written\<close>

definition reg_of :: "pci_device \<Rightarrow> u8 \<Rightarrow> u32" where
  "reg_of dev = make_address (pd_bus dev) (pd_device dev) (pd_function dev)"

definition header_flag :: "string \<Rightarrow> pci_conf \<Rightarrow> pci_device \<Rightarrow> u8 \<Rightarrow> bool" where
  "header_flag m conf dev cap \<longleftrightarrow> get_member MSIHeader_bits m (conf (reg_of dev cap)) \<noteq> 0"

text \<open>\<open>ConfigureMSI\<close> programs the last MSI capability of a device's list, whatever the list holds
  besides: the message address goes to the register behind the header, the message to the data
  register of the 32-bit or of the 64-bit variant, as the header says, and everything else is
  written back as it was read. The new header has MSI enabled and the number of vectors asked for,
  or what the device is capable of when that is less; its other members are unchanged.\<close>

theorem configure_msi_programs:
  assumes "cap_chain conf dev (ucast (conf (reg_of dev 0x34) AND 0xff)) caps"
    and "filter (has_cap kCapabilityMSI conf dev) caps \<noteq> []"
    and "cap = last (filter (has_cap kCapabilityMSI conf dev) caps)"
    and "data_reg = (if header_flag ''addr_64_capable'' conf dev cap then cap + 12 else cap + 8)"
  shows "\<exists>h. configure_msi conf dev addr data n ws = Some (kSuccess, ws
      @ [(reg_of dev cap, h), (reg_of dev (cap + 4), addr)]
      @ (if header_flag ''addr_64_capable'' conf dev cap
         then [(reg_of dev (cap + 8), conf (reg_of dev (cap + 8)))] else [])
      @ [(reg_of dev data_reg, data)]
      @ (if header_flag ''per_vector_mask_capable'' conf dev cap
         then [(reg_of dev (data_reg + 4), conf (reg_of dev (data_reg + 4))),
               (reg_of dev (data_reg + 8), conf (reg_of dev (data_reg + 8)))] else []))
    \<and> get_member MSIHeader_bits ''msi_enable'' h = 1
    \<and> get_member MSIHeader_bits ''multi_msg_enable'' h =
      min (get_member MSIHeader_bits ''multi_msg_capable'' (conf (reg_of dev cap))) n
    \<and> (\<forall>m. m \<noteq> ''msi_enable'' \<longrightarrow> m \<noteq> ''multi_msg_enable'' \<longrightarrow>
      get_member MSIHeader_bits m h = get_member MSIHeader_bits m (conf (reg_of dev cap)))"
proof (intro exI [of _ "msi_header_of n (conf (reg_of dev cap))"] conjI)
  have "last_cap (has_cap kCapabilityMSI conf dev) caps 0 = cap" using assms(2,3) by (simp add: last_cap_def)
  moreover have "cap \<noteq> 0" using last_cap_0 [OF assms(1)] assms(2) calculation by blast
  ultimately have run: "configure_msi conf dev addr data n ws = Some (configure_msi_register conf dev cap addr data n ws)"
    using find_msi_last [OF assms(1), of 0 0] by (simp add: configure_msi_def read_conf_reg_def reg_of_def)
  let ?h = "conf (reg_of dev cap)"
  have keep: "get_member MSIHeader_bits m (msi_header_of n ?h) = get_member MSIHeader_bits m ?h"
    if "m \<noteq> ''msi_enable''" "m \<noteq> ''multi_msg_enable''" for m
    using that by (rule msi_header_members(3))
  have hd: "put_member MSIHeader_bits ''msi_enable'' 1 (put_member MSIHeader_bits ''multi_msg_enable''
      (if get_member MSIHeader_bits ''multi_msg_capable'' ?h \<le> n
       then get_member MSIHeader_bits ''multi_msg_capable'' ?h else n) ?h) = msi_header_of n ?h"
    by (simp add: msi_header_of_def min_def)
  show "configure_msi conf dev addr data n ws = Some (kSuccess, ws
      @ [(reg_of dev cap, msi_header_of n ?h), (reg_of dev (cap + 4), addr)]
      @ (if header_flag ''addr_64_capable'' conf dev cap
         then [(reg_of dev (cap + 8), conf (reg_of dev (cap + 8)))] else [])
      @ [(reg_of dev data_reg, data)]
      @ (if header_flag ''per_vector_mask_capable'' conf dev cap
         then [(reg_of dev (data_reg + 4), conf (reg_of dev (data_reg + 4))),
               (reg_of dev (data_reg + 8), conf (reg_of dev (data_reg + 8)))] else []))"
    unfolding run configure_msi_register_def read_msi_capability_def write_msi_capability_def Let_def
      read_conf_reg_def write_conf_reg_def reg_of_def [symmetric] msi_capability.simps hd
    using assms(4) by (simp add: keep header_flag_def)
qed (simp_all add: msi_header_members)

text \<open>A device with one capability, an MSI one of the 64-bit variant for up to four vectors, and a
  device whose only capability is MSI-X.\<close>

definition sample_pci_device :: pci_device where
  "sample_pci_device = \<lparr>pd_bus = 0, pd_device = 1, pd_function = 0, pd_header_type = 0,
     pd_class = \<lparr>cc_base = 0x0c, cc_sub = 0x03, cc_interface = 0x30\<rparr>\<rparr>"

definition capability_conf :: "u32 \<Rightarrow> pci_conf" where
  "capability_conf header = (\<lambda>_. 0)(reg_of sample_pci_device 0x34 := 0x50, reg_of sample_pci_device 0x50 := header)"

lemma sample_reg_of: "reg_of sample_pci_device 0x34 = 0x80000834" "reg_of sample_pci_device 0x50 = 0x80000850"
  "reg_of sample_pci_device 0x54 = 0x80000854" "reg_of sample_pci_device 0x58 = 0x80000858"
  "reg_of sample_pci_device 0x5c = 0x8000085c"
  by (simp_all add: reg_of_def sample_pci_device_def make_address_def)

lemma capability_conf_simps: "capability_conf h 0x80000834 = 0x50" "capability_conf h 0x80000850 = h"
  "capability_conf h 0x80000858 = 0"
  by (simp_all add: capability_conf_def sample_reg_of)

lemma sample_chain:
  assumes "get_field 8 8 h = 0"
  shows "cap_chain (capability_conf h) sample_pci_device
    (ucast (capability_conf h (reg_of sample_pci_device 0x34) AND 0xff)) [0x50]"
  using assms
  by (simp add: sample_reg_of capability_conf_simps next_cap_def read_capability_header_def read_conf_reg_def
      reg_of_def [symmetric] get_member_def CapabilityHeader_bits_def)

lemma sample_has_cap: "has_cap c (capability_conf h) sample_pci_device 0x50 \<longleftrightarrow> get_field 0 8 h = c"
  by (simp add: has_cap_def read_capability_header_def read_conf_reg_def reg_of_def [symmetric] sample_reg_of
      capability_conf_simps get_member_def CapabilityHeader_bits_def)

theorem configure_msi_programs_witness:
  "\<exists>h. configure_msi (capability_conf 0x00840005) sample_pci_device 0xfee00000 0x4041 0 [] = Some (kSuccess,
      [(0x80000850, h), (0x80000854, 0xfee00000), (0x80000858, 0), (0x8000085c, 0x4041)])
    \<and> get_member MSIHeader_bits ''msi_enable'' h = 1"
proof -
  let ?c = "capability_conf 0x00840005"
  have ch: "cap_chain ?c sample_pci_device (ucast (?c (reg_of sample_pci_device 0x34) AND 0xff)) [0x50]"
    by (rule sample_chain) (simp add: get_field_def take_bit_eq_mod drop_bit_eq_div)
  have msi: "has_cap kCapabilityMSI ?c sample_pci_device 0x50"
    by (simp add: sample_has_cap get_field_def kCapabilityMSI_def take_bit_eq_mod)
  have flags: "header_flag ''addr_64_capable'' ?c sample_pci_device 0x50"
    "\<not> header_flag ''per_vector_mask_capable'' ?c sample_pci_device 0x50"
    by (simp_all add: header_flag_def sample_reg_of capability_conf_simps get_member_def MSIHeader_bits_def
        get_field_def take_bit_eq_mod drop_bit_eq_div)
  from configure_msi_programs [OF ch, of "0x50" "0x5c" "0xfee00000" "0x4041" 0 "[]"] show ?thesis
    by (auto simp: msi flags sample_reg_of capability_conf_simps)
qed

text \<open>A device without an MSI capability is left alone: nothing is written, and the error says
  that there is only MSI-X, which is not implemented, or neither.\<close>

theorem configure_msi_without_capability:
  assumes "cap_chain conf dev (ucast (conf (reg_of dev 0x34) AND 0xff)) caps"
    and "\<forall>a \<in> set caps. \<not> has_cap kCapabilityMSI conf dev a"
  shows "configure_msi conf dev addr data n ws =
    Some (if \<exists>a \<in> set caps. has_cap kCapabilityMSIX conf dev a then kNotImplemented else kNoPCIMSI, ws)"
proof -
  have none: "filter (has_cap kCapabilityMSI conf dev) caps = []" using assms(2) by (simp add: filter_empty_conv)
  have "last_cap (has_cap kCapabilityMSI conf dev) caps 0 = 0" by (simp add: last_cap_def none)
  moreover have "last_cap (has_cap kCapabilityMSIX conf dev) caps 0 \<noteq> 0 \<longleftrightarrow> (\<exists>a \<in> set caps. has_cap kCapabilityMSIX conf dev a)"
    unfolding last_cap_0 [OF assms(1)] by (auto simp: filter_empty_conv)
  ultimately show ?thesis
    using find_msi_last [OF assms(1), of 0 0]
    by (simp add: configure_msi_def read_conf_reg_def reg_of_def configure_msix_register_def)
qed

theorem configure_msi_without_capability_witness:
  "configure_msi (capability_conf 0x11) sample_pci_device 0xfee00000 0x4041 0 [] = Some (kNotImplemented, [])"
proof -
  let ?c = "capability_conf 0x11"
  have ch: "cap_chain ?c sample_pci_device (ucast (?c (reg_of sample_pci_device 0x34) AND 0xff)) [0x50]"
    by (rule sample_chain) (simp add: get_field_def take_bit_eq_mod drop_bit_eq_div)
  have "\<not> has_cap kCapabilityMSI ?c sample_pci_device 0x50" "has_cap kCapabilityMSIX ?c sample_pci_device 0x50"
    by (simp_all add: sample_has_cap get_field_def kCapabilityMSI_def kCapabilityMSIX_def take_bit_eq_mod)
  with configure_msi_without_capability [OF ch, of "0xfee00000" "0x4041" 0 "[]"] show ?thesis by simp
qed

end
