(* ===== verification/File_Object.thy ===== *)
theory File_Object imports Terminal Pipe App_Loader Timer Keyboard begin

text \<open>
  The descriptors a task reads and writes: the three classes that implement \<^verbatim>\<open>FileDescriptor\<close>
  (\<^verbatim>\<open>Kernel/file.hpp\<close>) and the virtual calls on them. A \<^verbatim>\<open>shared_ptr<FileDescriptor>\<close> is the index of
  the object in \<open>kn_files\<close>, so that tasks and terminals that share a descriptor share its position;
  a \<^verbatim>\<open>Terminal&\<close> is an index into \<open>kn_terms\<close>. The record \<open>kernel\<close> is the state system calls and the
  shell work on: windows, layers and tasks (\<open>gui\<close>), timers, the volume, page maps and loaded programs.

  An operation that finds no message puts its task to sleep and goes on where it was when the task
  runs again: it returns \<open>Sleeping\<close> with what the scheduler does. \<open>None\<close> is an access the code does not
  survive, as in the components.
\<close>

section \<open>State\<close>

(*@ Kernel/file.hpp:5-12 FileDescriptor *)
datatype file_object = Fat_File fat_fd | Pipe_File pipe | Terminal_File nat

text \<open>What a new terminal is started with; \<^verbatim>\<open>new TerminalDescriptor\<close> is the next place of \<open>kn_descs\<close>.\<close>

(*@ Kernel/terminal.hpp:19-24 TerminalDescriptor *)
record terminal_descriptor =
  td_command_line :: bytes
  td_exit_after_command :: bool
  td_show_window :: bool
  td_files :: "nat list"

record kernel =
  kn_gui :: gui
  kn_timers :: timer_manager
  kn_vol :: volume
  kn_files :: "file_object list"
  kn_terms :: "terminal list"
  kn_loader :: loader
  kn_next_window :: nat
  kn_descs :: "terminal_descriptor list"
  kn_stack :: "nat \<Rightarrow> u8"

abbreviation kn_tasks :: "kernel \<Rightarrow> task_manager" where
  "kn_tasks k \<equiv> gui_tasks (kn_gui k)"

definition set_tasks :: "task_manager \<Rightarrow> kernel \<Rightarrow> kernel" where
  "set_tasks tm k = k\<lparr>kn_gui := (kn_gui k)\<lparr>gui_tasks := tm\<rparr>\<rparr>"

definition set_manager :: "layer_manager \<Rightarrow> kernel \<Rightarrow> kernel" where
  "set_manager lm k = k\<lparr>kn_gui := (kn_gui k)\<lparr>manager := lm\<rparr>\<rparr>"

text \<open>\<^verbatim>\<open>task_manager->CurrentTask()\<close>, and changing it through the reference.\<close>

definition running_task :: "kernel \<Rightarrow> task option" where
  "running_task k = find_task (kn_tasks k) (current_task (kn_tasks k))"

definition update_running :: "(task \<Rightarrow> task) \<Rightarrow> kernel \<Rightarrow> kernel" where
  "update_running f k = set_tasks (update_task (current_task (kn_tasks k)) f (kn_tasks k)) k"

text \<open>The two ways an operation that may have to wait ends.\<close>

datatype 'a outcome = Done 'a kernel | Sleeping cpu_action kernel

definition go_to_sleep :: "nat \<Rightarrow> kernel \<Rightarrow> 'a outcome" where
  "go_to_sleep tid k = (case sleep_task tid (kn_tasks k) of (act, tm) \<Rightarrow> Sleeping act (set_tasks tm k))"

section \<open>The terminal as a descriptor\<close>

text \<open>Memory from a pointer on, as the C string at its start.\<close>

definition mem_string :: "(nat \<Rightarrow> u8) \<Rightarrow> nat \<Rightarrow> bytes" where
  "mem_string buf n = c_string (map buf [0..<n])"

text \<open>The loop takes the messages of the terminal's task and drops what is no key press. A key with
  Control is echoed with a caret; Control and D is the end of the input.\<close>

(*@ Kernel/terminal.cpp:791-822 TerminalFileDescriptor::Read *)
partial_function (option) terminal_read ::
    "fonts \<Rightarrow> terminal \<times> gui \<Rightarrow> (bytes option \<times> terminal \<times> gui) option" where
  "terminal_read fonts s =
    (case s of (t, g) \<Rightarrow>
     case find_task (gui_tasks g) (term_task t) of
       None \<Rightarrow> None
     | Some task \<Rightarrow>
         (case receive_message task of
            (None, _) \<Rightarrow> Some (None, t, g)
          | (Some msg, task') \<Rightarrow>
              let g = g\<lparr>gui_tasks := update_task (term_task t) (\<lambda>_. task') (gui_tasks g)\<rparr>
              in case msg_arg msg of
                   Keyboard_Arg modifier keycode ascii press \<Rightarrow>
                     if msg_type msg \<noteq> kKeyPush \<or> \<not> press then terminal_read fonts (t, g)
                     else if modifier AND (kLControlBitMask OR kRControlBitMask) \<noteq> 0
                     then do {
                       (t, g) \<leftarrow> print_string fonts (c_string [0x5e, to_upper ascii]) None (t, g);
                       if keycode = 7 then Some (Some [], t, g) else terminal_read fonts (t, g) }
                     else do {
                       s \<leftarrow> print_string fonts (c_string [ascii]) (Some 1) (t, g);
                       (t, g) \<leftarrow> redraw s;
                       Some (Some [ascii], t, g) }
                 | _ \<Rightarrow> terminal_read fonts (t, g)))"

text \<open>A character at the edge of the buffer is converted with the bytes behind it.\<close>

(*@ Kernel/terminal.cpp:824-828 TerminalFileDescriptor::Write *)
definition terminal_write :: "fonts \<Rightarrow> (nat \<Rightarrow> u8) \<Rightarrow> nat \<Rightarrow> terminal \<times> gui \<Rightarrow> (nat \<times> terminal \<times> gui) option" where
  "terminal_write fonts buf len s =
    do { s \<leftarrow> print_string fonts (mem_string buf (len + 4)) (Some len) s;
         (t, g) \<leftarrow> redraw s;
         Some (len, t, g) }"

section \<open>The virtual calls\<close>

definition set_file :: "nat \<Rightarrow> file_object \<Rightarrow> kernel \<Rightarrow> kernel" where
  "set_file h f k = k\<lparr>kn_files := (kn_files k)[h := f]\<rparr>"

definition set_term :: "nat \<Rightarrow> terminal \<Rightarrow> gui \<Rightarrow> kernel \<Rightarrow> kernel" where
  "set_term i t g k = k\<lparr>kn_terms := (kn_terms k)[i := t], kn_gui := g\<rparr>"

text \<open>\<^verbatim>\<open>make_shared\<close>: a new object.\<close>

definition new_file_object :: "file_object \<Rightarrow> kernel \<Rightarrow> nat \<times> kernel" where
  "new_file_object f k = (length (kn_files k), k\<lparr>kn_files := kn_files k @ [f]\<rparr>)"

(*@ Kernel/file.hpp:8-8 FileDescriptor::Read *)
definition file_read :: "fonts \<Rightarrow> nat \<Rightarrow> nat \<Rightarrow> kernel \<Rightarrow> bytes outcome option" where
  "file_read fonts h len k =
    (case kn_files k ! h of
       Fat_File fd \<Rightarrow> do { (bs, fd) \<leftarrow> fd_read (kn_vol k) fd len; Some (Done bs (set_file h (Fat_File fd) k)) }
     | Pipe_File p \<Rightarrow> do {
         (r, tm) \<leftarrow> read_in len p (kn_tasks k);
         case r of
           None \<Rightarrow> Some (go_to_sleep (pipe_task p) (set_tasks tm k))
         | Some (bs, p) \<Rightarrow> Some (Done bs (set_file h (Pipe_File p) (set_tasks tm k))) }
     | Terminal_File i \<Rightarrow> do {
         (r, t, g) \<leftarrow> terminal_read fonts (kn_terms k ! i, kn_gui k);
         case r of
           None \<Rightarrow> Some (go_to_sleep (term_task t) (set_term i t g k))
         | Some bs \<Rightarrow> Some (Done bs (set_term i t g k)) })"

(*@ Kernel/file.hpp:9-9 FileDescriptor::Write *)
definition file_write :: "fonts \<Rightarrow> nat \<Rightarrow> (nat \<Rightarrow> u8) \<Rightarrow> nat \<Rightarrow> kernel \<Rightarrow> (nat \<times> kernel) option" where
  "file_write fonts h buf len k =
    (case kn_files k ! h of
       Fat_File fd \<Rightarrow> do {
         (n, fd, vol) \<leftarrow> fd_write (kn_vol k) fd buf len;
         Some (n, set_file h (Fat_File fd) (k\<lparr>kn_vol := vol\<rparr>)) }
     | Pipe_File p \<Rightarrow>
         (case pipe_write p (map buf [0..<len]) (kn_tasks k) of (n, tm) \<Rightarrow> Some (n, set_tasks tm k))
     | Terminal_File i \<Rightarrow> do {
         (n, t, g) \<leftarrow> terminal_write fonts buf len (kn_terms k ! i, kn_gui k);
         Some (n, set_term i t g k) })"

(*@ Kernel/terminal.hpp:75-75 TerminalFileDescriptor::Size *)
definition terminal_size :: nat where "terminal_size = 0"

(*@ Kernel/terminal.hpp:86-86 PipeDescriptor::Size *)
definition pipe_size :: nat where "pipe_size = 0"

(*@ Kernel/file.hpp:10-10 FileDescriptor::Size *)
definition file_size_of :: "nat \<Rightarrow> kernel \<Rightarrow> nat option" where
  "file_size_of h k =
    (case kn_files k ! h of
       Fat_File fd \<Rightarrow> fd_size (kn_vol k) fd
     | Pipe_File _ \<Rightarrow> Some pipe_size
     | Terminal_File _ \<Rightarrow> Some terminal_size)"

(*@ Kernel/terminal.cpp:830-832 TerminalFileDescriptor::Load *)
definition terminal_load :: bytes where "terminal_load = []"

(*@ Kernel/terminal.hpp:87-87 PipeDescriptor::Load *)
definition pipe_load :: bytes where "pipe_load = []"

(*@ Kernel/file.hpp:11-11 FileDescriptor::Load *)
definition file_load :: "nat \<Rightarrow> nat \<Rightarrow> nat \<Rightarrow> kernel \<Rightarrow> bytes option" where
  "file_load h len offset k =
    (case kn_files k ! h of
       Fat_File fd \<Rightarrow> fd_load (kn_vol k) fd len offset
     | Pipe_File _ \<Rightarrow> Some pipe_load
     | Terminal_File _ \<Rightarrow> Some terminal_load)"

section \<open>Formatted output\<close>

text \<open>The string of \<^verbatim>\<open>vsprintf\<close> is an argument. It has to fit \<^verbatim>\<open>s[128]\<close> with its zero; what stands
  behind it on the stack is \<open>kn_stack\<close>.\<close>

definition stack_buffer :: "bytes \<Rightarrow> kernel \<Rightarrow> nat \<Rightarrow> u8" where
  "stack_buffer s k i = (if i < length s then s ! i else if i = length s then 0 else kn_stack k i)"

(*@ Kernel/file.cpp:5-16 PrintToFD *)
definition print_to_fd :: "fonts \<Rightarrow> nat \<Rightarrow> bytes \<Rightarrow> kernel \<Rightarrow> (nat \<times> kernel) option" where
  "print_to_fd fonts h s k =
    (if 128 \<le> length s then None
     else do { (_, k) \<leftarrow> file_write fonts h (stack_buffer s k) (length s) k; Some (length s, k) })"

end
