(* ===== verification/Syscall.thy ===== *)
theory Syscall imports File_Object begin

text \<open>
  \<^verbatim>\<open>Kernel/syscall.cpp\<close> and \<^verbatim>\<open>app_event.hpp\<close>: what programs ask of the kernel. Every system call takes
  up to six 64-bit words and returns a value and an error number. A pointer into the program's memory
  is given by what it points to: a C string as its bytes without the zero, a buffer to be written out
  as memory from the pointer on; what a call stores through a pointer is a result.
\<close>

section \<open>Numbers\<close>

(*@ Kernel/syscall.cpp:20-23 Result *)
record sys_result =
  sr_value :: u64
  sr_error :: int

text \<open>The numbers of the C library's \<^verbatim>\<open>errno.h\<close> and \<^verbatim>\<open>fcntl.h\<close>, newlib.\<close>

definition EPERM :: int where "EPERM = 1"
definition ENOENT :: int where "ENOENT = 2"
definition E2BIG :: int where "E2BIG = 7"
definition EBADF :: int where "EBADF = 9"
definition EFAULT :: int where "EFAULT = 14"
definition EISDIR :: int where "EISDIR = 21"
definition EINVAL :: int where "EINVAL = 22"
definition ENOSPC :: int where "ENOSPC = 28"
definition O_CREAT :: "32 word" where "O_CREAT = 0x200"

(*@ Kernel/timer.hpp:44-44 kTimerFreq *)
definition kTimerFreq :: u64 where "kTimerFreq = 100"

text \<open>\<^verbatim>\<open>const int n = arg;\<close>\<close>

definition to_int :: "u64 \<Rightarrow> int" where
  "to_int a = sint (ucast a :: 32 word)"

definition answer :: "u64 \<Rightarrow> int \<Rightarrow> sys_result" where
  "answer v e = \<lparr>sr_value = v, sr_error = e\<rparr>"

type_synonym sys_return = "(sys_result \<times> kernel) option"

section \<open>Output and the end of a program\<close>

text \<open>The message goes to the log, which is not part of the state.\<close>

(*@ Kernel/syscall.cpp:30-41 LogString *)
definition log_string :: "u64 \<Rightarrow> bytes \<Rightarrow> kernel \<Rightarrow> sys_return" where
  "log_string level s k =
    (if level \<noteq> 3 \<and> level \<noteq> 4 \<and> level \<noteq> 6 \<and> level \<noteq> 7 then Some (answer 0 EPERM, k)
     else if 1024 < length s then Some (answer 0 E2BIG, k)
     else Some (answer (of_nat (length s)) 0, k))"

text \<open>The descriptor a number stands for in the running task.\<close>

definition descriptor :: "kernel \<Rightarrow> nat \<Rightarrow> nat option" where
  "descriptor k fd =
    Option.bind (running_task k) (\<lambda>t. if length (task_files t) \<le> fd then None else task_files t ! fd)"

(*@ Kernel/syscall.cpp:43-59 PutString *)
definition put_string :: "fonts \<Rightarrow> u64 \<Rightarrow> (nat \<Rightarrow> u8) \<Rightarrow> u64 \<Rightarrow> kernel \<Rightarrow> sys_return" where
  "put_string fonts fd s len k =
    (if 1024 < len then Some (answer 0 E2BIG, k)
     else case descriptor k (unat fd) of
            None \<Rightarrow> Some (answer 0 EBADF, k)
          | Some h \<Rightarrow> do { (n, k) \<leftarrow> file_write fonts h s (unat len) k; Some (answer (of_nat n) 0, k) })"

(*@ Kernel/syscall.cpp:61-67 Exit *)
definition exit_app :: "u64 \<Rightarrow> kernel \<Rightarrow> sys_return" where
  "exit_app arg1 k = do { t \<leftarrow> running_task k; Some (answer (os_stack_ptr t) (to_int arg1), k) }"

section \<open>Windows\<close>

text \<open>A new window object.\<close>

definition new_window_object :: "window \<Rightarrow> kernel \<Rightarrow> nat \<times> kernel" where
  "new_window_object w k =
    (let h = kn_next_window k; lm = manager (kn_gui k)
     in (h, set_manager (lm\<lparr>windows := (windows lm)(h := w)\<rparr>) (k\<lparr>kn_next_window := Suc h\<rparr>)))"

definition screen_format :: "kernel \<Rightarrow> pixel_format" where
  "screen_format k = pixel_format (fb_config (screen_fb (manager (kn_gui k))))"

text \<open>A layer with a window, and the layer in the table of tasks, where an entry is not replaced.\<close>

definition window_layer :: "nat \<Rightarrow> bool \<Rightarrow> vec2 \<Rightarrow> layer_manager \<Rightarrow> nat \<times> layer_manager" where
  "window_layer h drag pos lm =
    (case new_layer lm of (i, lm) \<Rightarrow>
      (i, update_layer i (\<lambda>l. layer_move_to pos (set_draggable drag (set_window h l))) lm))"

definition insert_layer_task :: "nat \<Rightarrow> nat \<Rightarrow> gui \<Rightarrow> gui" where
  "insert_layer_task i tid g =
    (if layer_task_map g i = None then g\<lparr>layer_task_map := (layer_task_map g)(i \<mapsto> tid)\<rparr> else g)"

(*@ Kernel/syscall.cpp:69-88 OpenWindow *)
definition open_window :: "fonts \<Rightarrow> u64 \<Rightarrow> u64 \<Rightarrow> u64 \<Rightarrow> u64 \<Rightarrow> bytes \<Rightarrow> kernel \<Rightarrow> sys_return" where
  "open_window fonts w h x y title k =
    do { win \<leftarrow> new_toplevel_window fonts (to_int w) (to_int h) (screen_format k) title;
         (hd, k) \<leftarrow> Some (new_window_object win k);
         (layer_id, lm) \<leftarrow> Some (window_layer hd True (Vec (to_int x) (to_int y)) (manager (kn_gui k)));
         g \<leftarrow> activate fonts layer_id (kn_gui (set_manager lm k));
         t \<leftarrow> running_task (k\<lparr>kn_gui := g\<rparr>);
         Some (answer (of_nat layer_id) 0, k\<lparr>kn_gui := insert_layer_task layer_id (task_id t) g\<rparr>) }"

text \<open>The function that draws may fail to draw (a string that is not UTF-8); it returns no error.\<close>

(*@ Kernel/syscall.cpp:91-115 DoWinFunc *)
definition do_win_func :: "(window \<Rightarrow> window option) \<Rightarrow> u64 \<Rightarrow> kernel \<Rightarrow> sys_return" where
  "do_win_func f layer_id_flags k =
    (let layer_flags = drop_bit 32 layer_id_flags;
         layer_id = unat (layer_id_flags AND 0xffffffff);
         lm = manager (kn_gui k)
     in case find_layer lm layer_id of
          None \<Rightarrow> Some (answer 0 EBADF, k)
        | Some layer \<Rightarrow> do {
            h \<leftarrow> layer_window layer;
            w \<leftarrow> f (windows lm h);
            lm \<leftarrow> Some (lm\<lparr>windows := (windows lm)(h := w)\<rparr>);
            lm \<leftarrow> (if layer_flags AND 1 = 0 then draw_layer layer_id lm else Some lm);
            Some (answer 0 0, set_manager lm k) })"

(*@ Kernel/syscall.cpp:118-125 WinWriteString *)
definition win_write_string :: "fonts \<Rightarrow> u64 \<Rightarrow> u64 \<Rightarrow> u64 \<Rightarrow> u64 \<Rightarrow> bytes \<Rightarrow> kernel \<Rightarrow> sys_return" where
  "win_write_string fonts layer x y color s =
    do_win_func (\<lambda>win. map_option (\<lambda>ds. win_draw ds win)
      (write_string (fst fonts) (snd fonts) (Vec (to_int x) (to_int y)) s (to_color (ucast color)))) layer"

(*@ Kernel/syscall.cpp:127-134 WinFillRectangle *)
definition win_fill_rectangle :: "u64 \<Rightarrow> u64 \<Rightarrow> u64 \<Rightarrow> u64 \<Rightarrow> u64 \<Rightarrow> u64 \<Rightarrow> kernel \<Rightarrow> sys_return" where
  "win_fill_rectangle layer x y w h color =
    do_win_func (\<lambda>win. Some (win_draw (fill_rectangle (Vec (to_int x) (to_int y)) (Vec (to_int w) (to_int h))
      (to_color (ucast color))) win)) layer"

(*@ Kernel/syscall.cpp:136-138 GetCurrentTick *)
definition get_current_tick :: "kernel \<Rightarrow> sys_return" where
  "get_current_tick k = Some (answer (of_nat (tick (kn_timers k))) (uint kTimerFreq), k)"

(*@ Kernel/syscall.cpp:140-145 WinRedraw *)
definition win_redraw :: "u64 \<Rightarrow> kernel \<Rightarrow> sys_return" where
  "win_redraw layer = do_win_func Some layer"

text \<open>Lines are computed with \<^verbatim>\<open>double\<close>s, whose arithmetic is an argument.\<close>

record 'd floating =
  fl_of_int :: "int \<Rightarrow> 'd"
  fl_div :: "'d \<Rightarrow> 'd \<Rightarrow> 'd"
  fl_mul :: "'d \<Rightarrow> 'd \<Rightarrow> 'd"
  fl_add :: "'d \<Rightarrow> 'd \<Rightarrow> 'd"
  fl_floor :: "'d \<Rightarrow> 'd"
  fl_ceil :: "'d \<Rightarrow> 'd"
  fl_to_int :: "'d \<Rightarrow> int"

text \<open>The other coordinate at a distance from the start of the line.\<close>

definition line_at :: "'d floating \<Rightarrow> int \<Rightarrow> int \<Rightarrow> int \<Rightarrow> int \<Rightarrow> int \<Rightarrow> int" where
  "line_at fl num den start stop i =
    (let roundish = (if start \<le> stop then fl_floor fl else fl_ceil fl);
         m = fl_div fl (fl_of_int fl num) (fl_of_int fl den)
     in fl_to_int fl (roundish (fl_add fl (fl_mul fl m (fl_of_int fl i)) (fl_of_int fl start))))"

(*@ Kernel/syscall.cpp:151-187 WinDrawLine *)
definition draw_line :: "'d floating \<Rightarrow> int \<Rightarrow> int \<Rightarrow> int \<Rightarrow> int \<Rightarrow> pixel_color \<Rightarrow> drawing" where
  "draw_line fl x0 y0 x1 y1 color =
    (let dx = x1 - x0 + sgn (x1 - x0); dy = y1 - y0 + sgn (y1 - y0)
     in if dx = 0 \<and> dy = 0 then [(Vec x0 y0, color)]
        else if abs dy \<le> abs dx then
          let (x0, x1) = (if dx < 0 then (x1, x0) else (x0, x1));
              (y0, y1) = (if dx < 0 then (y1, y0) else (y0, y1))
          in map (\<lambda>x. (Vec x (line_at fl dy dx y0 y1 (x - x0)), color)) [x0..x1]
        else
          let (x0, x1) = (if dy < 0 then (x1, x0) else (x0, x1));
              (y0, y1) = (if dy < 0 then (y1, y0) else (y0, y1))
          in map (\<lambda>y. (Vec (line_at fl dx dy x0 x1 (y - y0)) y, color)) [y0..y1])"

(*@ Kernel/syscall.cpp:147-190 WinDrawLine *)
definition win_draw_line :: "'d floating \<Rightarrow> u64 \<Rightarrow> u64 \<Rightarrow> u64 \<Rightarrow> u64 \<Rightarrow> u64 \<Rightarrow> u64 \<Rightarrow> kernel \<Rightarrow> sys_return" where
  "win_draw_line fl layer x0 y0 x1 y1 color =
    do_win_func (\<lambda>win. Some (win_draw (draw_line fl (to_int x0) (to_int y0) (to_int x1) (to_int y1)
      (to_color (ucast color))) win)) layer"

(*@ Kernel/syscall.cpp:192-199 CloseWindow *)
definition close_window :: "fonts \<Rightarrow> u64 \<Rightarrow> kernel \<Rightarrow> sys_return" where
  "close_window fonts arg1 k =
    do { (err, g) \<leftarrow> close_layer fonts (unat (arg1 AND 0xffffffff)) (kn_gui k);
         Some (if err = kNoSuchEntry then answer (of_int EBADF) 0 else answer 0 0, k\<lparr>kn_gui := g\<rparr>) }"

section \<open>Events\<close>

(*@ Kernel/app_event.hpp:7-41 AppEvent *)
datatype app_event =
    Ev_Quit
  | Ev_Mouse_Move int int int int u8
  | Ev_Mouse_Button int int int int
  | Ev_Timer_Timeout nat int
  | Ev_Key_Push u8 u8 u8 bool

text \<open>The event a message becomes, if any, but for the closing of a window.\<close>

(*@ Kernel/syscall.cpp:226-268 ReadEvent *)
definition event_of_message :: "message \<Rightarrow> app_event option" where
  "event_of_message msg =
    (case (msg_type msg, msg_arg msg) of
       (kKeyPush, Keyboard_Arg modifier keycode ascii press) \<Rightarrow>
         Some (if keycode = 20 \<and> modifier AND (kLControlBitMask OR kRControlBitMask) \<noteq> 0 then Ev_Quit
               else Ev_Key_Push modifier keycode ascii press)
     | (kMouseMove, Mouse_Move_Arg x y dx dy buttons) \<Rightarrow> Some (Ev_Mouse_Move x y dx dy buttons)
     | (kMouseButton, Mouse_Button_Arg x y press button) \<Rightarrow> Some (Ev_Mouse_Button x y press button)
     | (kTimerTimeout, Timer_Arg t v) \<Rightarrow> if v < 0 then Some (Ev_Timer_Timeout t (- v)) else None
     | _ \<Rightarrow> None)"

text \<open>The loop over the task's messages; \<open>i\<close> events have been stored. The closing of a window is
  stored at index 1, whatever \<open>i\<close> is.\<close>

(*@ Kernel/syscall.cpp:213-273 ReadEvent *)
fun read_events :: "nat \<Rightarrow> message list \<Rightarrow> nat \<Rightarrow> (nat \<rightharpoonup> app_event) \<Rightarrow> nat \<times> (nat \<rightharpoonup> app_event) \<times> message list" where
  "read_events len [] i app_events = (i, app_events, [])"
| "read_events len (msg # ms) i app_events =
    (if len \<le> i then (i, app_events, msg # ms)
     else if msg_type msg = kWindowClose then read_events len ms (i + 1) (app_events(1 \<mapsto> Ev_Quit))
     else case event_of_message msg of
            Some ev \<Rightarrow> read_events len ms (i + 1) (app_events(i \<mapsto> ev))
          | None \<Rightarrow> read_events len ms i app_events)"

text \<open>Without an event the task sleeps, and starts over when it runs again.\<close>

(*@ Kernel/syscall.cpp:201-276 ReadEvent *)
definition read_event :: "u64 \<Rightarrow> u64 \<Rightarrow> kernel \<Rightarrow> (sys_result \<times> (nat \<rightharpoonup> app_event)) outcome option" where
  "read_event arg1 arg2 k =
    (if arg1 < 0x8000000000000000 then Some (Done (answer 0 EFAULT, Map.empty) k)
     else do {
       t \<leftarrow> running_task k;
       (i, evs, ms) \<leftarrow> Some (read_events (unat arg2) (msgs t) 0 Map.empty);
       k \<leftarrow> Some (update_running (\<lambda>t. t\<lparr>msgs := ms\<rparr>) k);
       Some (if i = 0 \<and> arg2 \<noteq> 0 then go_to_sleep (task_id t) k else Done (answer (of_nat i) 0, evs) k) })"

(*@ Kernel/syscall.cpp:278-298 CreateTimer *)
definition create_timer :: "u64 \<Rightarrow> u64 \<Rightarrow> u64 \<Rightarrow> kernel \<Rightarrow> sys_return" where
  "create_timer arg1 arg2 arg3 k =
    (let mode = (ucast arg1 :: 32 word); timer_value = to_int arg2
     in if timer_value \<le> 0 then Some (answer 0 EINVAL, k)
        else do {
          t \<leftarrow> running_task k;
          timeout \<leftarrow> Some (arg3 * kTimerFreq div 1000 + (if mode AND 1 \<noteq> 0 then of_nat (tick (kn_timers k)) else 0));
          Some (answer (timeout * 1000 div kTimerFreq) 0,
            k\<lparr>kn_timers := add_timer \<lparr>timeout = unat timeout, timer_val = - timer_value, timer_task = task_id t\<rparr> (kn_timers k)\<rparr>) })"

section \<open>Files\<close>

text \<open>The first free number, or a new one at the end.\<close>

(*@ Kernel/syscall.cpp:301-310 AllocateFD *)
definition allocate_fd :: "task \<Rightarrow> nat \<times> task" where
  "allocate_fd t =
    (let num_files = length (task_files t)
     in case find (\<lambda>i. task_files t ! i = None) [0..<num_files] of
          Some i \<Rightarrow> (i, t)
        | None \<Rightarrow> (num_files, t\<lparr>task_files := task_files t @ [None]\<rparr>))"

text \<open>Errors other than these three are taken for success, with a null pointer.\<close>

(*@ Kernel/syscall.cpp:312-320 CreateFile *)
definition sys_create_file :: "bytes \<Rightarrow> volume \<Rightarrow> ((entry_ref option \<times> int) \<times> volume) option" where
  "sys_create_file path v =
    (case create_file v path of
       None \<Rightarrow> None
     | Some (Inr r, v) \<Rightarrow> Some ((Some r, 0), v)
     | Some (Inl err, v) \<Rightarrow> Some ((None,
         (case err of kIsDirectory \<Rightarrow> EISDIR | kNoSuchEntry \<Rightarrow> ENOENT | kNoEnoughMemory \<Rightarrow> ENOSPC | _ \<Rightarrow> 0)), v))"

text \<open>The descriptor is put into the table of the running task.\<close>

(*@ Kernel/syscall.cpp:349-351 OpenFile *)
definition open_entry :: "entry_ref \<Rightarrow> kernel \<Rightarrow> sys_return" where
  "open_entry file k =
    do { t \<leftarrow> running_task k;
         (fd, t') \<leftarrow> Some (allocate_fd t);
         (h, k) \<leftarrow> Some (new_file_object (Fat_File (new_fd file)) k);
         Some (answer (of_nat fd) 0, update_running (\<lambda>_. t'\<lparr>task_files := (task_files t')[fd := Some h]\<rparr>) k) }"

(*@ Kernel/syscall.cpp:323-352 OpenFile *)
definition open_file :: "bytes \<Rightarrow> u64 \<Rightarrow> kernel \<Rightarrow> sys_return" where
  "open_file path flags k =
    (if path = bytes_of ''@stdin'' then Some (answer 0 0, k)
     else do {
       (file, post_slash) \<leftarrow> find_file (kn_vol k) path 0;
       case file of
         None \<Rightarrow>
           if ucast flags AND O_CREAT = 0 then Some (answer 0 ENOENT, k)
           else do {
             ((new_file, err), v) \<leftarrow> sys_create_file path (kn_vol k);
             k \<leftarrow> Some (k\<lparr>kn_vol := v\<rparr>);
             if err \<noteq> 0 then Some (answer 0 err, k)
             else do { r \<leftarrow> new_file; open_entry r k } }
       | Some r \<Rightarrow> do {
           e \<leftarrow> get_entry (kn_vol k) r;
           if entry_attr e \<noteq> attribute_directory \<and> post_slash then Some (answer 0 ENOENT, k)
           else open_entry r k } })"

text \<open>The number is taken as an int; what is read goes to the program's buffer.\<close>

definition int_descriptor :: "kernel \<Rightarrow> u64 \<Rightarrow> nat option" where
  "int_descriptor k arg = (if to_int arg < 0 then None else descriptor k (nat (to_int arg)))"

(*@ Kernel/syscall.cpp:354-367 ReadFile *)
definition read_file :: "fonts \<Rightarrow> u64 \<Rightarrow> u64 \<Rightarrow> kernel \<Rightarrow> (sys_result \<times> bytes) outcome option" where
  "read_file fonts fd len k =
    (case int_descriptor k fd of
       None \<Rightarrow> Some (Done (answer 0 EBADF, []) k)
     | Some h \<Rightarrow>
         (case file_read fonts h (unat len) k of
            None \<Rightarrow> None
          | Some (Sleeping act k) \<Rightarrow> Some (Sleeping act k)
          | Some (Done bs k) \<Rightarrow> Some (Done (answer (of_nat (length bs)) 0, bs) k)))"

(*@ Kernel/syscall.cpp:369-379 DemandPages *)
definition demand_pages :: "u64 \<Rightarrow> kernel \<Rightarrow> sys_return" where
  "demand_pages num_pages k =
    do { t \<leftarrow> running_task k;
         dp_end \<leftarrow> Some (dpaging_end t);
         Some (answer dp_end 0, update_running (\<lambda>t. t\<lparr>dpaging_end := dp_end + 4096 * num_pages\<rparr>) k) }"

text \<open>The size is stored through the second argument.\<close>

(*@ Kernel/syscall.cpp:381-400 MapFile *)
definition map_file :: "u64 \<Rightarrow> kernel \<Rightarrow> ((sys_result \<times> nat option) \<times> kernel) option" where
  "map_file fd k =
    (case int_descriptor k fd of
       None \<Rightarrow> Some ((answer 0 EBADF, None), k)
     | Some h \<Rightarrow> do {
         file_size \<leftarrow> file_size_of h k;
         t \<leftarrow> running_task k;
         vaddr_end \<leftarrow> Some (file_map_end t);
         vaddr_begin \<leftarrow> Some ((vaddr_end - of_nat file_size) AND 0xfffffffffffff000);
         Some ((answer vaddr_begin 0, Some file_size),
           update_running (\<lambda>t. t\<lparr>file_map_end := vaddr_begin,
             file_maps := file_maps t @ [\<lparr>fm_fd = nat (to_int fd), fm_vaddr_begin = vaddr_begin, fm_vaddr_end = vaddr_end\<rparr>]\<rparr>) k) })"

section \<open>Setting up\<close>

(*@ Kernel/msr.hpp:5-8 kIA32_EFER *)
definition msr_numbers :: "u32 list" where
  "msr_numbers = [0xc0000080, 0xc0000081, 0xc0000082, 0xc0000084]"

text \<open>The model specific registers that are written, with the address of the entry routine.\<close>

(*@ Kernel/syscall.cpp:426-432 InitializeSyscall *)
definition initialize_syscall :: "u64 \<Rightarrow> (u32 \<times> u64) list" where
  "initialize_syscall syscall_entry =
    [(msr_numbers ! 0, 0x0501),
     (msr_numbers ! 2, syscall_entry),
     (msr_numbers ! 1, push_bit 32 8 OR push_bit 48 (16 OR 3)),
     (msr_numbers ! 3, 0)]"

text \<open>The order of the table the entry routine indexes.\<close>

(*@ Kernel/syscall.cpp:407-424 syscall_table *)
definition syscall_table :: "string list" where
  "syscall_table =
    [''LogString'', ''PutString'', ''Exit'', ''OpenWindow'', ''WinWriteString'', ''WinFillRectangle'',
     ''GetCurrentTick'', ''WinRedraw'', ''WinDrawLine'', ''CloseWindow'', ''ReadEvent'', ''CreateTimer'',
     ''OpenFile'', ''ReadFile'', ''DemandPages'', ''MapFile'']"

end
