(* ===== verification/Shell.thy ===== *)
theory Shell imports Syscall Pci Arg_Vector "HOL-Library.Monad_Syntax" begin

text \<open>
  The shell in \<^verbatim>\<open>Kernel/terminal.cpp\<close>: what \<open>Terminal\<close> does with a line. A line is cut up in place in
  \<^verbatim>\<open>linebuf_\<close> by writing zeros, so the pieces are positions in the buffer and the strings from there on.
  A redirection replaces the standard output for the line, a pipe starts a second terminal without
  a window in a task of its own and makes its task's messages the standard output.

  What the code calls and this model does not hold is a field of \<open>shell_env\<close>: the program that \<^verbatim>\<open>CallApp\<close>
  runs, the other tasks while this one sleeps or waits, the configuration space of the PCI bus and
  the fonts. Reading a descriptor again after sleeping, reading lines and listing a directory are
  loops that need not end. \<open>None\<close> is what the code does not survive: the null \<^verbatim>\<open>window_\<close> of a terminal
  without one, a formatted line longer than the buffer of \<^verbatim>\<open>PrintToFD\<close>, a null command of \<^verbatim>\<open>noterm\<close>.
\<close>

record shell_env =
  ev_fonts :: fonts
  ev_call_app :: "Arg_Vector.args \<Rightarrow> u64 \<Rightarrow> u64 \<Rightarrow> kernel \<Rightarrow> (int \<times> kernel) option"
  ev_wait_finish :: "nat \<Rightarrow> kernel \<Rightarrow> ((int \<times> error_code) \<times> kernel) option"
  ev_sleep :: "cpu_action \<Rightarrow> kernel \<Rightarrow> kernel"
  ev_conf :: pci_conf
  ev_pci_devices :: "pci_device list"
  ev_kernel_pml4 :: nat
  ev_task_terminal :: u64
  ev_stack_end :: "nat \<Rightarrow> u64"
  ev_cr3 :: u64

section \<open>Numbers as text\<close>

text \<open>The conversions of \<^verbatim>\<open>vsprintf\<close> that are used.\<close>

fun digits_from :: "nat \<Rightarrow> nat \<Rightarrow> nat \<Rightarrow> bytes" where
  "digits_from 0 base n = []"
| "digits_from (Suc fuel) base n =
    (if n < base then [] else digits_from fuel base (n div base))
      @ [let d = n mod base in of_nat (if d < 10 then 48 + d else 87 + d)]"

definition fmt_nat :: "nat \<Rightarrow> bytes" where
  "fmt_nat n = digits_from 64 10 n"

definition fmt_int :: "int \<Rightarrow> bytes" where
  "fmt_int i = (if i < 0 then 45 # fmt_nat (nat (- i)) else fmt_nat (nat i))"

definition fmt_hex :: "nat \<Rightarrow> nat \<Rightarrow> bytes" where
  "fmt_hex width n = (let s = digits_from 64 16 n in replicate (width - length s) 48 @ s)"

section \<open>Positions in the line\<close>

definition str_at_pos :: "bytes \<Rightarrow> nat \<Rightarrow> bytes" where
  "str_at_pos buf p = c_string (drop p buf)"

text \<open>\<^verbatim>\<open>strchr\<close>, and skipping what \<^verbatim>\<open>isspace\<close> accepts.\<close>

definition strchr :: "u8 \<Rightarrow> bytes \<Rightarrow> nat option" where
  "strchr c buf = (let s = c_string buf in if c \<in> set s then Some (length (takeWhile (\<lambda>b. b \<noteq> c) s)) else None)"

definition skip_spaces :: "bytes \<Rightarrow> nat \<Rightarrow> nat" where
  "skip_spaces buf p = p + length (takeWhile is_space (drop p buf))"

section \<open>Reading\<close>

text \<open>A read that goes on when its task was woken.\<close>

partial_function (option) blocking_read :: "shell_env \<Rightarrow> nat \<Rightarrow> nat \<Rightarrow> kernel \<Rightarrow> (bytes \<times> kernel) option" where
  "blocking_read env h len k =
    (case file_read (ev_fonts env) h len k of
       None \<Rightarrow> None
     | Some (Done bs k) \<Rightarrow> Some (bs, k)
     | Some (Sleeping act k) \<Rightarrow> blocking_read env h len (ev_sleep env act k))"

text \<open>\<^verbatim>\<open>ReadDelim\<close> on such reads.\<close>

partial_function (option) read_line :: "shell_env \<Rightarrow> nat \<Rightarrow> u8 \<Rightarrow> nat \<Rightarrow> bytes \<Rightarrow> kernel \<Rightarrow> (bytes \<times> kernel) option" where
  "read_line env h delim len buf k =
    (if length buf < len - 1 then do {
       (bs, k) \<leftarrow> blocking_read env h 1 k;
       case bs of
         [] \<Rightarrow> Some (buf, k)
       | b # _ \<Rightarrow> if b = delim then Some (buf @ [b], k) else read_line env h delim len (buf @ [b]) k }
     else Some (buf, k))"

section \<open>Files\<close>

text \<open>The loop over clusters and the entries of each; the directory is read again for every entry.\<close>

(*@ Kernel/terminal.cpp:149-172 ListAllEntries *)
partial_function (option) list_entries_from :: "fonts \<Rightarrow> nat \<Rightarrow> nat \<Rightarrow> nat \<Rightarrow> kernel \<Rightarrow> kernel option" where
  "list_entries_from fonts h dir_cluster i k =
    (if i = 0 \<and> dir_cluster = end_of_clusterchain then Some k
     else if i < bytes_per_cluster (kn_vol k) div 32 then do {
       e \<leftarrow> get_entry (kn_vol k) (dir_cluster, i);
       if e ! 0 = 0 then Some k
       else if e ! 0 = 0xe5 \<or> entry_attr e = 0x0f then list_entries_from fonts h dir_cluster (i + 1) k
       else do {
         (_, k) \<leftarrow> print_to_fd fonts h (format_name e @ [10]) k;
         list_entries_from fonts h dir_cluster (i + 1) k } }
     else do {
       c \<leftarrow> next_cluster (kn_vol k) dir_cluster;
       list_entries_from fonts h c 0 k })"

definition list_all_entries :: "fonts \<Rightarrow> nat \<Rightarrow> nat \<Rightarrow> kernel \<Rightarrow> kernel option" where
  "list_all_entries fonts h dir_cluster k = list_entries_from fonts h dir_cluster 0 k"

text \<open>The search goes on in the directory \<^verbatim>\<open>apps\<close>; it never ends when that is its own first cluster 0.\<close>

(*@ Kernel/terminal.cpp:215-235 FindCommand *)
partial_function (option) find_command :: "volume \<Rightarrow> bytes \<Rightarrow> nat \<Rightarrow> entry_ref option option" where
  "find_command v command dir_cluster = do {
     (found, post_slash) \<leftarrow> find_file v command dir_cluster;
     case found of
       Some r \<Rightarrow> do {
         e \<leftarrow> get_entry v r;
         Some (if entry_attr e = attribute_directory \<or> post_slash then None else Some r) }
     | None \<Rightarrow>
         if dir_cluster \<noteq> 0 \<or> slash \<in> set command then Some None
         else do {
           (apps, _) \<leftarrow> find_file v (bytes_of ''apps'') 0;
           case apps of
             None \<Rightarrow> Some None
           | Some a \<Rightarrow> do {
               e \<leftarrow> get_entry v a;
               if entry_attr e \<noteq> attribute_directory then Some None
               else find_command v command (first_cluster e) } } }"

section \<open>Running a program\<close>

text \<open>The argument vector in the memory of the program: the pointers, then the strings.\<close>

definition le_bytes64 :: "u64 \<Rightarrow> bytes" where
  "le_bytes64 v = map (\<lambda>i. ucast (drop_bit (8 * i) v)) [0..<8]"

definition store_args :: "nat \<Rightarrow> u64 \<Rightarrow> Arg_Vector.args \<Rightarrow> paging_state \<Rightarrow> paging_state option" where
  "store_args cr3 frame a st = do {
     st \<leftarrow> vwrite_bytes cr3 frame (concat (map (\<lambda>p. le_bytes64 (frame + 256 + of_nat p)) (argv a))) st;
     vwrite_bytes cr3 (frame + 256) (argbuf a) st }"

definition set_pages :: "paging_state \<Rightarrow> kernel \<Rightarrow> kernel" where
  "set_pages st k = k\<lparr>kn_loader := (kn_loader k)\<lparr>ld_pages := st\<rparr>\<rparr>"

definition map_pages :: "u64 \<Rightarrow> nat \<Rightarrow> kernel \<Rightarrow> error_code \<times> kernel" where
  "map_pages vaddr n k =
    (case setup_page_maps (ld_cr3 (kn_loader k)) vaddr n True (ld_pages (kn_loader k)) of
       (err, st) \<Rightarrow> (err, set_pages st k))"

definition kArgsFrame :: u64 where "kArgsFrame = 0xfffffffffffff000"
definition kStackSize :: u64 where "kStackSize = 16 * 4096"

text \<open>The part after the loader: the argument page, the stack, the descriptors and regions of the
  task, the program itself, and clearing up.\<close>

(*@ Kernel/terminal.cpp:556-597 Terminal::ExecuteFile *)
definition run_loaded :: "shell_env \<Rightarrow> app_load_info \<Rightarrow> bytes \<Rightarrow> bytes option \<Rightarrow> nat list \<Rightarrow> kernel \<Rightarrow> ((int \<times> error_code) \<times> kernel) option" where
  "run_loaded env app command first_arg files k =
    (case map_pages kArgsFrame 1 k of (err, k) \<Rightarrow>
     if is_error err then Some ((0, err), k)
     else do {
       (err, a) \<leftarrow> make_arg_vector command first_arg 32 (replicate (4096 - 256) 0);
       if is_error err then Some ((0, err), k)
       else do {
         st \<leftarrow> store_args (ld_cr3 (kn_loader k)) kArgsFrame a (ld_pages (kn_loader k));
         (err, k) \<leftarrow> Some (map_pages (kArgsFrame - kStackSize) 16 (set_pages st k));
         if is_error err then Some ((0, err), k)
         else do {
           elf_next_page \<leftarrow> Some ((vaddr_end app + 4095) AND 0xfffffffffffff000);
           k \<leftarrow> Some (update_running (\<lambda>t. t\<lparr>task_files := task_files t @ map Some files,
             dpaging_begin := elf_next_page, dpaging_end := elf_next_page,
             file_map_end := kArgsFrame - kStackSize\<rparr>) k);
           (ret, k) \<leftarrow> ev_call_app env a (app_entry app) (kArgsFrame - kStackSize + kStackSize - 8) k;
           k \<leftarrow> Some (update_running (\<lambda>t. t\<lparr>task_files := [], file_maps := []\<rparr>) k);
           (err, st) \<leftarrow> Some (clean_page_maps (ld_cr3 (kn_loader k)) 0xffff800000000000 (ld_pages (kn_loader k)));
           k \<leftarrow> Some (set_pages st k);
           if is_error err then Some ((ret, err), k)
           else (case free_pml4 (ev_kernel_pml4 env) (kn_loader k) of
                   (err, ld) \<Rightarrow> Some ((ret, err), k\<lparr>kn_loader := ld\<rparr>)) } } })"

(*@ Kernel/terminal.cpp:545-598 Terminal::ExecuteFile *)
definition execute_file :: "shell_env \<Rightarrow> entry_ref \<Rightarrow> bytes \<Rightarrow> bytes option \<Rightarrow> nat list \<Rightarrow> kernel \<Rightarrow> ((int \<times> error_code) \<times> kernel) option" where
  "execute_file env r command first_arg files k = do {
     (app, err, ld) \<leftarrow> load_app (kn_vol k) r (kn_loader k);
     k \<leftarrow> Some (k\<lparr>kn_loader := ld\<rparr>);
     if is_error err then Some ((0, err), k)
     else run_loaded env app command first_arg files k }"


section \<open>Commands\<close>

text \<open>Terminals by their index; their standard descriptors are 0, 1 and 2 of \<^verbatim>\<open>files_\<close>.\<close>

definition term_at :: "nat \<Rightarrow> kernel \<Rightarrow> terminal" where
  "term_at i k = kn_terms k ! i"

definition with_term :: "nat \<Rightarrow> (terminal \<times> gui \<Rightarrow> (terminal \<times> gui) option) \<Rightarrow> kernel \<Rightarrow> kernel option" where
  "with_term i f k = do { (t, g) \<leftarrow> f (term_at i k, kn_gui k); Some (set_term i t g k) }"

definition upd_term :: "nat \<Rightarrow> (terminal \<Rightarrow> terminal) \<Rightarrow> kernel \<Rightarrow> kernel" where
  "upd_term i f k = set_term i (f (term_at i k)) (kn_gui k) k"

definition std_file :: "nat \<Rightarrow> nat \<Rightarrow> kernel \<Rightarrow> nat" where
  "std_file i n k = term_files (term_at i k) ! n"

definition say :: "shell_env \<Rightarrow> nat \<Rightarrow> nat \<Rightarrow> bytes \<Rightarrow> kernel \<Rightarrow> kernel option" where
  "say env i n s k = map_option snd (print_to_fd (ev_fonts env) (std_file i n k) s k)"

(*@ Kernel/terminal.cpp:421-429 Terminal::ExecuteLine *)
definition cmd_echo :: "shell_env \<Rightarrow> nat \<Rightarrow> bytes option \<Rightarrow> kernel \<Rightarrow> kernel option" where
  "cmd_echo env i first_arg k = do {
     k \<leftarrow> (case first_arg of
             Some (c # rest) \<Rightarrow>
               if c = 0x24 then
                 if rest = [0x3f] then say env i 1 (fmt_int (last_exit_code (term_at i k))) k else Some k
               else say env i 1 (c # rest) k
           | Some [] \<Rightarrow> say env i 1 [] k
           | None \<Rightarrow> Some k);
     say env i 1 [10] k }"

(*@ Kernel/terminal.cpp:430-435 Terminal::ExecuteLine *)
definition cmd_clear :: "nat \<Rightarrow> kernel \<Rightarrow> kernel option" where
  "cmd_clear i k = with_term i (\<lambda>(t, g). do {
     g \<leftarrow> (if show_window t
           then draw_on t (inner_area (fill_rectangle (Vec 4 4) (Vec (8 * kColumns) (16 * kRows)) (rgb 0 0 0))) g
           else Some g);
     Some (t\<lparr>cursor := Vec (vx (cursor t)) 0\<rparr>, g) }) k"

definition pci_line :: "pci_conf \<Rightarrow> pci_device \<Rightarrow> bytes" where
  "pci_line conf dev =
    (let hex = (\<lambda>w n. fmt_hex w n); c = pd_class dev
     in hex 2 (unat (pd_bus dev)) @ bytes_of '':'' @ hex 2 (unat (pd_device dev)) @ bytes_of ''.''
        @ fmt_nat (unat (pd_function dev)) @ bytes_of '' vend=''
        @ hex 4 (unat (read_vendor_id conf (pd_bus dev) (pd_device dev) (pd_function dev)))
        @ bytes_of '' head='' @ hex 2 (unat (pd_header_type dev)) @ bytes_of '' class=''
        @ hex 2 (unat (cc_base c)) @ bytes_of ''.'' @ hex 2 (unat (cc_sub c)) @ bytes_of ''.''
        @ hex 2 (unat (cc_interface c)) @ [10])"

(*@ Kernel/terminal.cpp:436-444 Terminal::ExecuteLine *)
fun cmd_lspci :: "shell_env \<Rightarrow> nat \<Rightarrow> pci_device list \<Rightarrow> kernel \<Rightarrow> kernel option" where
  "cmd_lspci env i [] k = Some k"
| "cmd_lspci env i (dev # devs) k = do { k \<leftarrow> say env i 1 (pci_line (ev_conf env) dev) k; cmd_lspci env i devs k }"

(*@ Kernel/terminal.cpp:445-465 Terminal::ExecuteLine *)
definition cmd_ls :: "shell_env \<Rightarrow> nat \<Rightarrow> bytes option \<Rightarrow> kernel \<Rightarrow> (int \<times> kernel) option" where
  "cmd_ls env i first_arg k =
    (if first_arg = None \<or> first_arg = Some [] then do {
       k \<leftarrow> list_all_entries (ev_fonts env) (std_file i 1 k) (unat (root_cluster (kn_vol k))) k; Some (0, k) }
     else do {
       arg \<leftarrow> first_arg;
       (dir, post_slash) \<leftarrow> find_file (kn_vol k) arg 0;
       case dir of
         None \<Rightarrow> do { k \<leftarrow> say env i 2 (bytes_of ''No such file or directory: '' @ arg @ [10]) k; Some (1, k) }
       | Some r \<Rightarrow> do {
           e \<leftarrow> get_entry (kn_vol k) r;
           if entry_attr e = attribute_directory then do {
             k \<leftarrow> list_all_entries (ev_fonts env) (std_file i 1 k) (first_cluster e) k; Some (0, k) }
           else if post_slash then do {
             k \<leftarrow> say env i 2 (format_name e @ bytes_of '' is not a directory'' @ [10]) k; Some (1, k) }
           else do { k \<leftarrow> say env i 1 (format_name e @ [10]) k; Some (0, k) } } })"

text \<open>The loop of \<^verbatim>\<open>cat\<close>: what stands before a zero of each line is printed.\<close>

(*@ Kernel/terminal.cpp:489-494 Terminal::ExecuteLine *)
partial_function (option) cat_loop :: "shell_env \<Rightarrow> nat \<Rightarrow> nat \<Rightarrow> kernel \<Rightarrow> kernel option" where
  "cat_loop env h i k = do {
     (u8buf, k) \<leftarrow> read_line env h 10 1024 [] k;
     if u8buf = [] then Some k
     else do { k \<leftarrow> say env i 1 (c_string u8buf) k; cat_loop env h i k } }"

text \<open>The descriptor to read, or the error.\<close>

(*@ Kernel/terminal.cpp:467-484 Terminal::ExecuteLine *)
definition cat_source :: "shell_env \<Rightarrow> nat \<Rightarrow> bytes option \<Rightarrow> kernel \<Rightarrow> (nat option \<times> kernel) option" where
  "cat_source env i first_arg k =
    (if first_arg = None \<or> first_arg = Some [] then Some (Some (std_file i 0 k), k)
     else do {
       arg \<leftarrow> first_arg;
       (found, post_slash) \<leftarrow> find_file (kn_vol k) arg 0;
       case found of
         None \<Rightarrow> do { k \<leftarrow> say env i 2 (bytes_of ''no such file: '' @ arg @ [10]) k; Some (None, k) }
       | Some r \<Rightarrow> do {
           e \<leftarrow> get_entry (kn_vol k) r;
           if entry_attr e \<noteq> attribute_directory \<and> post_slash then do {
             k \<leftarrow> say env i 2 (format_name e @ bytes_of '' is not a directory'' @ [10]) k; Some (None, k) }
           else (case new_file_object (Fat_File (new_fd r)) k of (h, k) \<Rightarrow> Some (Some h, k)) } })"

(*@ Kernel/terminal.cpp:466-496 Terminal::ExecuteLine *)
definition cmd_cat :: "shell_env \<Rightarrow> nat \<Rightarrow> bytes option \<Rightarrow> kernel \<Rightarrow> (int \<times> kernel) option" where
  "cmd_cat env i first_arg k = do {
     (fd, k) \<leftarrow> cat_source env i first_arg k;
     case fd of
       None \<Rightarrow> Some (1, k)
     | Some h \<Rightarrow> do {
         k \<leftarrow> with_term i (\<lambda>(t, g). map_option (Pair t) (draw_cursor False t g)) k;
         k \<leftarrow> cat_loop env h i k;
         k \<leftarrow> with_term i (\<lambda>(t, g). map_option (Pair t) (draw_cursor True t g)) k;
         Some (0, k) } }"

text \<open>A task for \<^verbatim>\<open>TaskTerminal\<close> with the descriptor of the new terminal. The pointer to it is its
  number counted from 1, as 0 is the null pointer.\<close>

definition start_task :: "shell_env \<Rightarrow> nat \<Rightarrow> terminal_descriptor \<Rightarrow> kernel \<Rightarrow> kernel" where
  "start_task env tid desc k =
    (let data = of_nat (Suc (length (kn_descs k)));
         tm = update_task tid (init_context (ev_stack_end env tid) (ev_cr3 env) (ev_task_terminal env) data) (kn_tasks k)
     in set_tasks (wakeup_task tid (- 1) tm) (k\<lparr>kn_descs := kn_descs k @ [desc]\<rparr>))"

(*@ Kernel/terminal.cpp:497-503 Terminal::ExecuteLine *)
definition cmd_noterm :: "shell_env \<Rightarrow> nat \<Rightarrow> bytes option \<Rightarrow> kernel \<Rightarrow> kernel option" where
  "cmd_noterm env i first_arg k = do {
     arg \<leftarrow> first_arg;
     (tid, tm) \<leftarrow> Some (new_task (kn_tasks k));
     Some (start_task env tid \<lparr>td_command_line = arg, td_exit_after_command = True, td_show_window = False,
       td_files = term_files (term_at i k)\<rparr> (set_tasks tm k)) }"

(*@ Kernel/terminal.cpp:504-512 Terminal::ExecuteLine *)
definition cmd_memstat :: "shell_env \<Rightarrow> nat \<Rightarrow> kernel \<Rightarrow> kernel option" where
  "cmd_memstat env i k =
    (let st = stat_frames (pg_alloc (ld_pages (kn_loader k)));
         line = (\<lambda>what n. bytes_of what @ fmt_nat n @ bytes_of '' frames ('' @ fmt_nat (n * 4096 div 1024 div 1024)
           @ bytes_of '' MiB)'' @ [10])
     in do { k \<leftarrow> say env i 1 (line ''Phys used : '' (allocated_frames st)) k;
             say env i 1 (line ''Phys total: '' (total_frames st)) k })"

(*@ Kernel/terminal.cpp:513-527 Terminal::ExecuteLine *)
definition cmd_program :: "shell_env \<Rightarrow> nat \<Rightarrow> bytes \<Rightarrow> bytes option \<Rightarrow> kernel \<Rightarrow> (int \<times> kernel) option" where
  "cmd_program env i command first_arg k = do {
     file_entry \<leftarrow> find_command (kn_vol k) command 0;
     case file_entry of
       None \<Rightarrow> do { k \<leftarrow> say env i 2 (bytes_of ''no such command: '' @ command @ [10]) k; Some (1, k) }
     | Some r \<Rightarrow> do {
         ((ec, err), k) \<leftarrow> execute_file env r command first_arg (term_files (term_at i k)) k;
         if is_error err then do {
           k \<leftarrow> say env i 2 (bytes_of ''failed to exec file: '' @ bytes_of (error_name err) @ [10]) k; Some (- ec, k) }
         else Some (ec, k) } }"

(*@ Kernel/terminal.cpp:421-527 Terminal::ExecuteLine *)
definition run_command :: "shell_env \<Rightarrow> nat \<Rightarrow> bytes \<Rightarrow> bytes option \<Rightarrow> kernel \<Rightarrow> (int \<times> kernel) option" where
  "run_command env i command first_arg k =
    (if command = bytes_of ''echo'' then map_option (Pair 0) (cmd_echo env i first_arg k)
     else if command = bytes_of ''clear'' then map_option (Pair 0) (cmd_clear i k)
     else if command = bytes_of ''lspci'' then map_option (Pair 0) (cmd_lspci env i (ev_pci_devices env) k)
     else if command = bytes_of ''ls'' then cmd_ls env i first_arg k
     else if command = bytes_of ''cat'' then cmd_cat env i first_arg k
     else if command = bytes_of ''noterm'' then map_option (Pair 0) (cmd_noterm env i first_arg k)
     else if command = bytes_of ''memstat'' then map_option (Pair 0) (cmd_memstat env i k)
     else if command \<noteq> [] then cmd_program env i command first_arg k
     else Some (0, k))"


section \<open>Lines\<close>

text \<open>The first argument of a line: the buffer with the space after the command zeroed, and where the
  argument begins.\<close>

(*@ Kernel/terminal.cpp:358-368 Terminal::ExecuteLine *)
definition split_command :: "bytes \<Rightarrow> bytes \<times> nat option" where
  "split_command buf =
    (case strchr 0x20 buf of
       None \<Rightarrow> (buf, None)
     | Some p \<Rightarrow> (let buf = buf[p := 0] in (buf, Some (skip_spaces buf (p + 1)))))"

text \<open>Opening the target of a redirection: \<open>Inl\<close> when the line is given up.\<close>

(*@ Kernel/terminal.cpp:374-394 Terminal::ExecuteLine *)
definition redirect :: "shell_env \<Rightarrow> nat \<Rightarrow> bytes \<Rightarrow> kernel \<Rightarrow> ((unit + nat) \<times> kernel) option" where
  "redirect env i redir_dest k = do {
     (file, post_slash) \<leftarrow> find_file (kn_vol k) redir_dest 0;
     case file of
       None \<Rightarrow> do {
         (res, v) \<leftarrow> create_file (kn_vol k) redir_dest;
         k \<leftarrow> Some (k\<lparr>kn_vol := v\<rparr>);
         (case res of
            Inl err \<Rightarrow> do {
              k \<leftarrow> say env i 2 (bytes_of ''failed to create a redirect file: '' @ bytes_of (error_name err) @ [10]) k;
              Some (Inl (), k) }
          | Inr r \<Rightarrow> (case new_file_object (Fat_File (new_fd r)) k of (h, k) \<Rightarrow> Some (Inr h, k))) }
     | Some r \<Rightarrow> do {
         e \<leftarrow> get_entry (kn_vol k) r;
         if entry_attr e = attribute_directory \<or> post_slash then do {
           k \<leftarrow> say env i 2 (bytes_of ''cannot redirect to a directory'' @ [10]) k; Some (Inl (), k) }
         else (case new_file_object (Fat_File (new_fd r)) k of (h, k) \<Rightarrow> Some (Inr h, k)) } }"

definition set_std_out :: "nat \<Rightarrow> nat \<Rightarrow> kernel \<Rightarrow> kernel" where
  "set_std_out i h k = upd_term i (\<lambda>t. t\<lparr>term_files := (term_files t)[1 := h]\<rparr>) k"

definition set_layer_task :: "nat \<Rightarrow> nat \<Rightarrow> kernel \<Rightarrow> kernel" where
  "set_layer_task l tid k =
    k\<lparr>kn_gui := (kn_gui k)\<lparr>layer_task_map := (layer_task_map (kn_gui k))(l \<mapsto> tid)\<rparr>\<rparr>"

text \<open>The pipe to the second command: its descriptor, and the task of the command.\<close>

(*@ Kernel/terminal.cpp:399-419 Terminal::ExecuteLine *)
definition start_pipe :: "shell_env \<Rightarrow> nat \<Rightarrow> bytes \<Rightarrow> kernel \<Rightarrow> nat \<times> nat \<times> kernel" where
  "start_pipe env i subcommand k =
    (let (tid, tm) = new_task (kn_tasks k);
         (h, k) = new_file_object (Pipe_File (new_pipe tid)) (set_tasks tm k);
         desc = \<lparr>td_command_line = subcommand, td_exit_after_command = True, td_show_window = False,
                 td_files = [h, std_file i 1 k, std_file i 2 k]\<rparr>;
         k = start_task env tid desc (set_std_out i h k)
     in (h, tid, set_layer_task (term_layer (term_at i k)) tid k))"

text \<open>Closing the pipe and waiting for the second command, whose exit code is that of the line.\<close>

(*@ Kernel/terminal.cpp:529-539 Terminal::ExecuteLine *)
definition finish_pipe :: "shell_env \<Rightarrow> nat \<Rightarrow> nat \<Rightarrow> nat \<Rightarrow> kernel \<Rightarrow> (int \<times> kernel) option" where
  "finish_pipe env i h tid k = do {
     k \<leftarrow> (case kn_files k ! h of
             Pipe_File p \<Rightarrow> Some (set_tasks (pipe_finish_write p (kn_tasks k)) k)
           | _ \<Rightarrow> None);
     ((ec, err), k) \<leftarrow> ev_wait_finish env tid k;
     Some (ec, set_layer_task (term_layer (term_at i k)) (term_task (term_at i k)) k) }"

(*@ Kernel/terminal.cpp:357-543 Terminal::ExecuteLine *)
definition execute_line :: "shell_env \<Rightarrow> nat \<Rightarrow> kernel \<Rightarrow> kernel option" where
  "execute_line env i k =
    (let buf = linebuf (term_at i k);
         redir_char = strchr 0x3e buf; pipe_char = strchr 0x7c buf;
         (buf, first_arg) = split_command buf;
         original_stdout = std_file i 1 k;
         buf1 = (case redir_char of None \<Rightarrow> buf | Some p \<Rightarrow> buf[p := 0])
     in do {
       (out, k) \<leftarrow> (case redir_char of
           None \<Rightarrow> Some (Inr original_stdout, k)
         | Some p \<Rightarrow> redirect env i (str_at_pos buf1 (skip_spaces buf1 (p + 1))) k);
       case out of
         Inl _ \<Rightarrow> Some (upd_term i (\<lambda>t. t\<lparr>linebuf := buf1\<rparr>) k)
       | Inr h \<Rightarrow> do {
           k \<leftarrow> Some (set_std_out i h k);
           (buf2, piped, k) \<leftarrow> Some (case pipe_char of
               None \<Rightarrow> (buf1, None, k)
             | Some p \<Rightarrow>
                 (let buf2 = buf1[p := 0]
                  in case start_pipe env i (str_at_pos buf2 (skip_spaces buf2 (p + 1))) k of
                       (ph, tid, k) \<Rightarrow> (buf2, Some (ph, tid), k)));
           k \<leftarrow> Some (upd_term i (\<lambda>t. t\<lparr>linebuf := buf2\<rparr>) k);
           (exit_code, k) \<leftarrow> run_command env i (str_at_pos buf2 0) (map_option (str_at_pos buf2) first_arg) k;
           (exit_code, k) \<leftarrow> (case piped of
               None \<Rightarrow> Some (exit_code, k)
             | Some (ph, tid) \<Rightarrow> finish_pipe env i ph tid k);
           Some (set_std_out i original_stdout (upd_term i (\<lambda>t. t\<lparr>last_exit_code := exit_code\<rparr>) k)) } })"

section \<open>Keys\<close>

text \<open>The branch for the line feed: the area to draw is the whole inner area.\<close>

(*@ Kernel/terminal.cpp:298-315 Terminal::InputKey *)
definition enter_key :: "shell_env \<Rightarrow> nat \<Rightarrow> kernel \<Rightarrow> (rect \<times> kernel) option" where
  "enter_key env i k = do {
     k \<leftarrow> with_term i end_line k;
     k \<leftarrow> execute_line env i k;
     k \<leftarrow> with_term i (print_string (ev_fonts env) (bytes_of ''>'') None) k;
     sz \<leftarrow> window_inner_size (term_at i k) (kn_gui k);
     Some (Rect top_left_margin sz, k) }"

(*@ Kernel/terminal.cpp:292-344 Terminal::InputKey *)
definition input_key :: "shell_env \<Rightarrow> nat \<Rightarrow> u8 \<Rightarrow> u8 \<Rightarrow> u8 \<Rightarrow> kernel \<Rightarrow> (rect \<times> kernel) option" where
  "input_key env i modifier keycode ascii k = do {
     k \<leftarrow> with_term i (\<lambda>(t, g). map_option (Pair t) (draw_cursor False t g)) k;
     draw_area \<leftarrow> Some (Rect (calc_cursor_pos (term_at i k)) (Vec (8 * 2) 16));
     (draw_area, k) \<leftarrow>
       (if ascii = 10 then enter_key env i k
        else do {
          (area, t, g) \<leftarrow> edit_key (ev_fonts env) keycode ascii draw_area (term_at i k, kn_gui k);
          Some (area, set_term i t g k) });
     k \<leftarrow> with_term i (\<lambda>(t, g). map_option (Pair t) (draw_cursor True t g)) k;
     Some (draw_area, k) }"


section \<open>The task of a terminal\<close>

text \<open>A terminal without a window has no layer; its number is whatever was in memory, 0 here.\<close>

definition blank_terminal :: "nat \<Rightarrow> bool \<Rightarrow> nat list \<Rightarrow> terminal" where
  "blank_terminal tid show_win files =
    \<lparr>term_window = None, term_layer = 0, term_task = tid, cursor = Vec 0 0, cursor_visible = False,
     linebuf_index = 0, linebuf = replicate kLineMax 0, cmd_history = replicate 8 (replicate kLineMax 0),
     cmd_history_index = -1, show_window = show_win, term_files = files, last_exit_code = 0\<rparr>"

text \<open>The window of a terminal and its layer.\<close>

(*@ Kernel/terminal.cpp:255-269 Terminal::Terminal *)
definition make_terminal_window :: "shell_env \<Rightarrow> nat \<Rightarrow> kernel \<Rightarrow> kernel option" where
  "make_terminal_window env i k = do {
     win \<leftarrow> new_toplevel_window (ev_fonts env)
       (kColumns * 8 + 8 + vx top_left_margin + vx bottom_right_margin)
       (kRows * 16 + 8 + vy top_left_margin + vy bottom_right_margin) (screen_format k) (bytes_of ''MikanTerm'');
     win \<leftarrow> Some (win_draw (inner_area (draw_terminal (Vec 0 0) (inner_size win))) win);
     (h, k) \<leftarrow> Some (new_window_object win k);
     (l, lm) \<leftarrow> Some (window_layer h True (Vec 0 0) (manager (kn_gui k)));
     k \<leftarrow> Some (upd_term i (\<lambda>t. t\<lparr>term_window := Some h, term_layer := l\<rparr>) (set_manager lm k));
     with_term i (print_string (ev_fonts env) (bytes_of ''>'') None) k }"

(*@ Kernel/terminal.cpp:240-271 Terminal::Terminal *)
definition make_terminal :: "shell_env \<Rightarrow> nat \<Rightarrow> terminal_descriptor option \<Rightarrow> kernel \<Rightarrow> (nat \<times> kernel) option" where
  "make_terminal env tid desc k =
    (let i = length (kn_terms k); n = length (kn_files k);
         k = (case desc of
                Some d \<Rightarrow> k\<lparr>kn_terms := kn_terms k @ [blank_terminal tid (td_show_window d) (td_files d)]\<rparr>
              | None \<Rightarrow> k\<lparr>kn_files := kn_files k @ replicate 3 (Terminal_File i),
                          kn_terms := kn_terms k @ [blank_terminal tid True [n, n + 1, n + 2]]\<rparr>)
     in if show_window (term_at i k) then map_option (Pair i) (make_terminal_window env i k) else Some (i, k))"

(*@ Kernel/terminal.cpp:728-731 TaskTerminal *)
definition add_blink_timer :: "nat \<Rightarrow> nat \<Rightarrow> kernel \<Rightarrow> kernel" where
  "add_blink_timer tid t k =
    k\<lparr>kn_timers := add_timer \<lparr>timeout = t + 50, timer_val = 1, timer_task = tid\<rparr> (kn_timers k)\<rparr>"

definition finish_terminal :: "nat \<Rightarrow> kernel \<Rightarrow> cpu_action \<times> kernel" where
  "finish_terminal i k =
    (case finish (last_exit_code (term_at i k)) (kn_tasks k) of (act, tm) \<Rightarrow> (act, set_tasks tm k))"

text \<open>A task of a terminal is in its loop, with the flag \<^verbatim>\<open>window_isactive\<close>, or has ended.\<close>

datatype terminal_task = In_Loop bool kernel | Ended cpu_action kernel

fun input_keys :: "shell_env \<Rightarrow> nat \<Rightarrow> bytes \<Rightarrow> kernel \<Rightarrow> kernel option" where
  "input_keys env i [] k = Some k"
| "input_keys env i (c # cs) k = do { (_, k) \<leftarrow> input_key env i 0 0 c k; input_keys env i cs k }"

(*@ Kernel/terminal.cpp:697-734 TaskTerminal *)
definition task_terminal_start :: "shell_env \<Rightarrow> nat \<Rightarrow> nat option \<Rightarrow> kernel \<Rightarrow> (nat \<times> terminal_task) option" where
  "task_terminal_start env tid data k =
    (let desc = map_option (\<lambda>p. kn_descs k ! p) data
     in do {
       (i, k) \<leftarrow> make_terminal env tid desc k;
       k \<leftarrow> (if show_window (term_at i k) then do {
               l \<leftarrow> Some (term_layer (term_at i k));
               lm \<leftarrow> lm_move l (Vec 100 200) (manager (kn_gui k));
               g \<leftarrow> activate (ev_fonts env) l (insert_layer_task l tid (kn_gui (set_manager lm k)));
               Some (k\<lparr>kn_gui := g\<rparr>) }
             else Some k);
       k \<leftarrow> (case desc of
               Some d \<Rightarrow> if td_command_line d \<noteq> [] then input_keys env i (td_command_line d @ [10]) k else Some k
             | None \<Rightarrow> Some k);
       if (case desc of Some d \<Rightarrow> td_exit_after_command d | None \<Rightarrow> False)
       then (case finish_terminal i k of (act, k) \<Rightarrow> Some (i, Ended act k))
       else Some (i, In_Loop False (add_blink_timer tid (tick (kn_timers k)) k)) })"

definition ask_to_draw :: "nat \<Rightarrow> rect \<Rightarrow> kernel \<Rightarrow> kernel" where
  "ask_to_draw i area k = k\<lparr>kn_gui := request_draw (term_at i k) area (kn_gui k)\<rparr>"

text \<open>What the loop does with a message.\<close>

(*@ Kernel/terminal.cpp:746-782 TaskTerminal *)
definition terminal_message :: "shell_env \<Rightarrow> nat \<Rightarrow> nat \<Rightarrow> message \<Rightarrow> bool \<Rightarrow> kernel \<Rightarrow> terminal_task option" where
  "terminal_message env tid i msg window_isactive k =
    (case (msg_type msg, msg_arg msg) of
       (kTimerTimeout, Timer_Arg t v) \<Rightarrow>
         (let k = add_blink_timer tid t k
          in if show_window (term_at i k) \<and> window_isactive then do {
               (area, t, g) \<leftarrow> blink_cursor (term_at i k, kn_gui k);
               Some (In_Loop window_isactive (ask_to_draw i area (set_term i t g k))) }
             else Some (In_Loop window_isactive k))
     | (kKeyPush, Keyboard_Arg modifier keycode ascii press) \<Rightarrow>
         if press then do {
           (area, k) \<leftarrow> input_key env i modifier keycode ascii k;
           Some (In_Loop window_isactive (if show_window (term_at i k) then ask_to_draw i area k else k)) }
         else Some (In_Loop window_isactive k)
     | (kWindowActive, Window_Active_Arg a) \<Rightarrow> Some (In_Loop (a \<noteq> 0) k)
     | (kWindowClose, Window_Close_Arg l) \<Rightarrow> do {
         (_, g) \<leftarrow> close_layer (ev_fonts env) l (kn_gui k);
         (act, k) \<leftarrow> Some (finish_terminal i (k\<lparr>kn_gui := g\<rparr>));
         Some (Ended act k) }
     | _ \<Rightarrow> Some (In_Loop window_isactive k))"

text \<open>One round of the loop: a message, or sleep.\<close>

(*@ Kernel/terminal.cpp:736-784 TaskTerminal *)
definition task_terminal_round :: "shell_env \<Rightarrow> nat \<Rightarrow> nat \<Rightarrow> bool \<Rightarrow> kernel \<Rightarrow> terminal_task outcome option" where
  "task_terminal_round env tid i window_isactive k = do {
     t \<leftarrow> find_task (kn_tasks k) tid;
     (case receive_message t of
        (None, _) \<Rightarrow> Some (go_to_sleep tid k)
      | (Some msg, t') \<Rightarrow> do {
          r \<leftarrow> terminal_message env tid i msg window_isactive
                 (set_tasks (update_task tid (\<lambda>_. t') (kn_tasks k)) k);
          Some (Done r (case r of In_Loop _ k \<Rightarrow> k | Ended _ k \<Rightarrow> k)) }) }"

end
