(* ===== verification/Console.thy ===== *)
theory Console imports Terminal begin

text \<open>
  \<^verbatim>\<open>Kernel/console.{hpp,cpp}\<close>: the console the kernel prints to. It writes to the screen until the
  layers are set up, then to a window of its own; \<open>ready\<close> says whether \<^verbatim>\<open>layer_manager\<close> exists already.
  The writers share the frame buffer's memory with the layer manager, whose record is the state here.
  The last section shows which lines the console holds during start-up.
\<close>

definition console_rows :: nat where "console_rows = 25"
definition console_columns :: nat where "console_columns = 80"

text \<open>The two writers the console is ever given.\<close>

datatype console_writer = Screen_Writer | Window_Writer nat

(*@ Kernel/console.hpp:7-28 Console *)
record console =
  con_writer :: "console_writer option"
  con_window :: "nat option"
  con_fg :: pixel_color
  con_bg :: pixel_color
  con_buffer :: "bytes list"
  con_row :: nat
  con_col :: nat
  con_layer :: nat

(*@ Kernel/console.cpp:13-16 Console::Console *)
definition new_console :: "pixel_color \<Rightarrow> pixel_color \<Rightarrow> console" where
  "new_console fg bg =
    \<lparr>con_writer = None, con_window = None, con_fg = fg, con_bg = bg,
     con_buffer = replicate console_rows (replicate (console_columns + 1) 0),
     con_row = 0, con_col = 0, con_layer = 0\<rparr>"

definition write_to :: "console_writer option \<Rightarrow> drawing \<Rightarrow> layer_manager \<Rightarrow> layer_manager option" where
  "write_to w ds lm =
    (case w of
       None \<Rightarrow> None
     | Some Screen_Writer \<Rightarrow> Some (lm\<lparr>screen_fb := fold write_pixel ds (screen_fb lm)\<rparr>)
     | Some (Window_Writer h) \<Rightarrow> Some (lm\<lparr>windows := (windows lm)(h := win_draw ds (windows lm h))\<rparr>))"

definition clear_console :: "console \<Rightarrow> layer_manager \<Rightarrow> layer_manager option" where
  "clear_console c lm =
    write_to (con_writer c)
      (fill_rectangle (Vec 0 0) (Vec (8 * int console_columns) (16 * int console_rows)) (con_bg c)) lm"

definition write_row :: "fonts \<Rightarrow> console \<Rightarrow> nat \<Rightarrow> layer_manager \<Rightarrow> layer_manager option" where
  "write_row fonts c row lm =
    do { ds \<leftarrow> write_string (fst fonts) (snd fonts) (Vec 0 (16 * int row)) (c_string (con_buffer c ! row)) (con_fg c);
         write_to (con_writer c) ds lm }"

primrec write_rows :: "fonts \<Rightarrow> console \<Rightarrow> nat list \<Rightarrow> layer_manager \<Rightarrow> layer_manager option" where
  "write_rows fonts c [] lm = Some lm"
| "write_rows fonts c (row # rows) lm = do { lm \<leftarrow> write_row fonts c row lm; write_rows fonts c rows lm }"

(*@ Kernel/console.cpp:80-85 Console::Refresh *)
definition con_refresh :: "fonts \<Rightarrow> console \<Rightarrow> layer_manager \<Rightarrow> layer_manager option" where
  "con_refresh fonts c lm =
    do { lm \<leftarrow> clear_console c lm; write_rows fonts c [0..<console_rows] lm }"

text \<open>Every row takes over the one below it and is drawn.\<close>

(*@ Kernel/console.cpp:72-75 Console::Newline *)
primrec scroll_rows :: "fonts \<Rightarrow> nat list \<Rightarrow> console \<Rightarrow> layer_manager \<Rightarrow> (console \<times> layer_manager) option" where
  "scroll_rows fonts [] c lm = Some (c, lm)"
| "scroll_rows fonts (row # rows) c lm =
    (let c = c\<lparr>con_buffer := (con_buffer c)[row := con_buffer c ! Suc row]\<rparr>
     in do { lm \<leftarrow> write_row fonts c row lm; scroll_rows fonts rows c lm })"

(*@ Kernel/console.cpp:59-78 Console::Newline *)
definition con_newline :: "fonts \<Rightarrow> console \<Rightarrow> layer_manager \<Rightarrow> (console \<times> layer_manager) option" where
  "con_newline fonts c lm =
    (let c = c\<lparr>con_col := 0\<rparr>
     in if con_row c < console_rows - 1 then Some (c\<lparr>con_row := con_row c + 1\<rparr>, lm)
        else case con_window c of
          Some h \<Rightarrow>
            let move_src = Rect (Vec 0 16) (Vec (8 * int console_columns) (16 * (int console_rows - 1)));
                lm = lm\<lparr>windows := (windows lm)(h := win_move (Vec 0 0) move_src (windows lm h))\<rparr>
            in do { lm \<leftarrow> write_to (con_writer c)
                      (fill_rectangle (Vec 0 (16 * (int console_rows - 1))) (Vec (8 * int console_columns) 16) (con_bg c)) lm;
                    Some (c, lm) }
        | None \<Rightarrow> do {
            lm \<leftarrow> clear_console c lm;
            (c, lm) \<leftarrow> scroll_rows fonts [0..<console_rows - 1] c lm;
            Some (c\<lparr>con_buffer := (con_buffer c)[console_rows - 1 := replicate (console_columns + 1) 0]\<rparr>, lm) })"

definition con_char :: "fonts \<Rightarrow> u8 \<Rightarrow> console \<Rightarrow> layer_manager \<Rightarrow> (console \<times> layer_manager) option" where
  "con_char fonts b c lm =
    (if b = 10 then con_newline fonts c lm
     else if con_col c < console_columns - 1 then do {
       lm \<leftarrow> write_to (con_writer c)
         (write_ascii (fst fonts) (Vec (8 * int (con_col c)) (16 * int (con_row c))) b (con_fg c)) lm;
       Some (c\<lparr>con_buffer := (con_buffer c)[con_row c := (con_buffer c ! con_row c)[con_col c := b]],
               con_col := con_col c + 1\<rparr>, lm) }
     else Some (c, lm))"

primrec con_chars :: "fonts \<Rightarrow> bytes \<Rightarrow> console \<Rightarrow> layer_manager \<Rightarrow> (console \<times> layer_manager) option" where
  "con_chars fonts [] c lm = Some (c, lm)"
| "con_chars fonts (b # bs) c lm = do { (c, lm) \<leftarrow> con_char fonts b c lm; con_chars fonts bs c lm }"

(*@ Kernel/console.cpp:18-32 Console::PutString *)
definition con_put_string :: "fonts \<Rightarrow> bool \<Rightarrow> bytes \<Rightarrow> console \<Rightarrow> layer_manager \<Rightarrow> (console \<times> layer_manager) option" where
  "con_put_string fonts ready s c lm =
    do { (c, lm) \<leftarrow> con_chars fonts s c lm;
         lm \<leftarrow> (if ready then draw_layer (con_layer c) lm else Some lm);
         Some (c, lm) }"

(*@ Kernel/console.cpp:34-41 Console::SetWriter *)
definition con_set_writer :: "fonts \<Rightarrow> console_writer option \<Rightarrow> console \<Rightarrow> layer_manager \<Rightarrow> (console \<times> layer_manager) option" where
  "con_set_writer fonts w c lm =
    (if w = con_writer c then Some (c, lm)
     else let c = c\<lparr>con_writer := w, con_window := None\<rparr>
          in do { lm \<leftarrow> con_refresh fonts c lm; Some (c, lm) })"

(*@ Kernel/console.cpp:43-51 Console::SetWindow *)
definition con_set_window :: "fonts \<Rightarrow> nat \<Rightarrow> console \<Rightarrow> layer_manager \<Rightarrow> (console \<times> layer_manager) option" where
  "con_set_window fonts h c lm =
    (if con_window c = Some h then Some (c, lm)
     else let c = c\<lparr>con_window := Some h, con_writer := Some (Window_Writer h)\<rparr>
          in do { lm \<leftarrow> con_refresh fonts c lm; Some (c, lm) })"

(*@ Kernel/console.cpp:52-54 Console::SetLayerID *)
definition con_set_layer_id :: "nat \<Rightarrow> console \<Rightarrow> console" where
  "con_set_layer_id i c = c\<lparr>con_layer := i\<rparr>"

(*@ Kernel/console.cpp:93-99 InitializeConsole *)
definition initialize_console :: "fonts \<Rightarrow> layer_manager \<Rightarrow> (console \<times> layer_manager) option" where
  "initialize_console fonts lm =
    con_set_writer fonts (Some Screen_Writer) (new_console desktop_fg_color desktop_bg_color) lm"

section \<open>The lines on the console\<close>

text \<open>A text as its lines; behind the last newline a new one begins.\<close>

primrec split_lines :: "bytes \<Rightarrow> bytes list" where
  "split_lines [] = [[]]"
| "split_lines (b # s) =
    (case split_lines s of [] \<Rightarrow> [] | l # ls \<Rightarrow> if b = 10 then [] # l # ls else (b # l) # ls)"

lemma split_lines_nonempty [simp]: "split_lines s \<noteq> []"
  by (induction s) (auto split: list.split)

lemma split_lines_snoc:
  "split_lines (s @ [b]) =
    (if b = 10 then split_lines s @ [[]] else butlast (split_lines s) @ [last (split_lines s) @ [b]])"
proof (induction s)
  case (Cons a s)
  obtain x xs where "split_lines s = x # xs" using split_lines_nonempty by (cases "split_lines s") auto
  then show ?case using Cons.IH by (cases xs) auto
qed simp

text \<open>What is seen of a text: the first 79 characters of each of the last 25 lines.\<close>

definition shown_lines :: "bytes \<Rightarrow> bytes list" where
  "shown_lines s = drop (length (split_lines s) - 25) (map (take 79) (split_lines s))"

definition padded :: "bytes \<Rightarrow> bytes" where
  "padded t = t @ replicate (81 - length t) 0"

definition console_shows :: "bytes \<Rightarrow> console \<Rightarrow> bool" where
  "console_shows s c \<longleftrightarrow>
     con_buffer c = map padded (shown_lines s) @ replicate (25 - length (shown_lines s)) (padded [])
   \<and> con_row c = length (shown_lines s) - 1 \<and> con_col c = length (last (shown_lines s))"

lemma length_shown: "length (shown_lines s) = min 25 (length (split_lines s))"
  by (simp add: shown_lines_def)

lemma shown_nonempty [simp]: "shown_lines s \<noteq> []" "0 < length (split_lines s)"
  using split_lines_nonempty [of s] by (auto simp: length_shown simp flip: length_greater_0_conv)

lemma last_shown: "last (shown_lines s) = take 79 (last (split_lines s))"
proof -
  have "length (split_lines s) - 25 < length (split_lines s)" by simp
  then show ?thesis by (simp add: shown_lines_def last_drop last_map)
qed

lemma shown_newline:
  "shown_lines (s @ [10]) = (if length (shown_lines s) < 25 then shown_lines s else tl (shown_lines s)) @ [[]]"
proof (cases "length (split_lines s) < 25")
  case False
  then have "length (split_lines s) - 24 = Suc (length (split_lines s) - 25)" by simp
  then show ?thesis using False by (simp add: length_shown) (simp add: shown_lines_def split_lines_snoc drop_Suc tl_drop)
qed (simp add: length_shown, simp add: shown_lines_def split_lines_snoc)

lemma shown_char:
  assumes "b \<noteq> 10"
  shows "shown_lines (s @ [b]) = butlast (shown_lines s) @
    [if length (last (shown_lines s)) < 79 then last (shown_lines s) @ [b] else last (shown_lines s)]"
proof -
  have n: "Suc (length (split_lines s) - Suc 0) = length (split_lines s)" by simp
  show ?thesis
    unfolding last_shown
    using assms by (auto simp: shown_lines_def split_lines_snoc n butlast_drop map_butlast)
qed

lemma padded_facts:
  "length t \<le> 81 \<Longrightarrow> length (padded t) = 81"
  "length t < 81 \<Longrightarrow> (padded t)[length t := b] = padded (t @ [b])"
  "ascii_bytes t \<Longrightarrow> c_string (padded t) = t"
proof -
  show "(padded t)[length t := b] = padded (t @ [b])" if t: "length t < 81"
  proof -
    obtain k where k: "81 - length t = Suc k" using t by (cases "81 - length t") auto
    then have "81 - length (t @ [b]) = k" by simp
    then show ?thesis by (simp add: padded_def k list_update_append)
  qed
  show "c_string (padded t) = t" if "ascii_bytes t"
  proof -
    have "takeWhile (\<lambda>b. b \<noteq> 0) t = t" using that by (simp add: ascii_bytes_def)
    then show ?thesis
      using that by (cases "81 - length t") (auto simp: padded_def c_string_def ascii_bytes_def)
  qed
qed (simp add: padded_def)

definition ascii_rows :: "bytes list \<Rightarrow> bool" where
  "ascii_rows buf \<longleftrightarrow> (\<forall>r \<in> set buf. ascii_bytes (c_string r))"

lemma write_row_ok:
  assumes "ascii_rows (con_buffer c)" "row < length (con_buffer c)" "con_writer c = Some w"
  shows "\<exists>lm'. write_row fonts c row lm = Some lm'"
proof -
  have "ascii_bytes (c_string (con_buffer c ! row))" using assms(1,2) by (simp add: ascii_rows_def)
  from write_string_ascii [OF this, of "fst fonts" "snd fonts" "Vec 0 (16 * int row)" "con_fg c" 0] show ?thesis
    by (cases w) (auto simp: write_row_def write_string_def write_to_def assms(3))
qed

lemma write_rows_ok:
  assumes "ascii_rows (con_buffer c)" "\<forall>row \<in> set rows. row < length (con_buffer c)" "con_writer c = Some w"
  shows "\<exists>lm'. write_rows fonts c rows lm = Some lm'"
  using assms(2)
proof (induction rows arbitrary: lm)
  case (Cons row rows)
  obtain lm1 where "write_row fonts c row lm = Some lm1"
    using write_row_ok [OF assms(1) _ assms(3), of row fonts lm] Cons.prems by auto
  then show ?case using Cons by simp
qed simp

lemma shift_row:
  assumes "j < m" "m < length xs"
  shows "take (Suc j) (xs[j := xs ! Suc j]) @ take (m - Suc j) (drop (Suc (Suc j)) (xs[j := xs ! Suc j])) @ drop m (xs[j := xs ! Suc j])
    = take j xs @ take (m - j) (drop (Suc j) xs) @ drop m xs"
proof -
  obtain d where m: "m = Suc (j + d)" using assms(1) less_iff_Suc_add by auto
  have "take (Suc j) (xs[j := xs ! Suc j]) = take j xs @ [xs ! Suc j]"
    using assms by (simp add: take_Suc_conv_app_nth)
  moreover have "take (Suc d) (drop (Suc j) xs) = xs ! Suc j # take d (drop (Suc (Suc j)) xs)"
    using assms m by (subst Cons_nth_drop_Suc [symmetric]) auto
  ultimately show ?thesis by (simp add: m)
qed

lemma scroll_rows_buffer:
  assumes "ascii_rows (con_buffer c)" "con_writer c = Some w" "j \<le> m" "m < length (con_buffer c)"
  shows "\<exists>lm'. scroll_rows fonts [j..<m] c lm =
    Some (c\<lparr>con_buffer := take j (con_buffer c) @ take (m - j) (drop (Suc j) (con_buffer c)) @ drop m (con_buffer c)\<rparr>, lm')"
  using assms
proof (induction "m - j" arbitrary: j c lm)
  case 0
  then show ?case by simp
next
  case (Suc d)
  let ?c = "c\<lparr>con_buffer := (con_buffer c)[j := con_buffer c ! Suc j]\<rparr>"
  have lt: "j < m" "Suc j < length (con_buffer c)" and d: "d = m - Suc j" using Suc by auto
  have asc: "ascii_rows (con_buffer ?c)"
    using Suc.prems(1) lt(2) set_update_subset_insert [of "con_buffer c" j "con_buffer c ! Suc j"]
    by (auto simp: ascii_rows_def)
  obtain lm1 where w: "write_row fonts ?c j lm = Some lm1"
    using write_row_ok [OF asc, of j w fonts lm] lt Suc.prems(2) by auto
  obtain lm' where rest: "scroll_rows fonts [Suc j..<m] ?c lm1 =
      Some (?c\<lparr>con_buffer := take (Suc j) (con_buffer ?c) @ take (m - Suc j) (drop (Suc (Suc j)) (con_buffer ?c)) @ drop m (con_buffer ?c)\<rparr>, lm')"
    using Suc.hyps(1) [of "Suc j" ?c lm1, OF d asc] Suc.prems lt by (simp del: drop_update_cancel) blast
  have "take (Suc j) (con_buffer ?c) @ take (m - Suc j) (drop (Suc (Suc j)) (con_buffer ?c)) @ drop m (con_buffer ?c)
    = take j (con_buffer c) @ take (m - j) (drop (Suc j) (con_buffer c)) @ drop m (con_buffer c)"
    using shift_row [OF lt(1) Suc.prems(4)] by simp
  then show ?case using w rest lt by (simp add: upt_conv_Cons)
qed

lemma console_shows_ascii:
  assumes "console_shows s c" "ascii_bytes s"
  shows "ascii_rows (con_buffer c)" "length (con_buffer c) = 25" "\<forall>t \<in> set (shown_lines s). ascii_bytes t"
proof -
  have lines: "\<forall>t \<in> set (split_lines s). ascii_bytes t" using assms(2)
  proof (induction s)
    case (Cons b s)
    obtain x xs where eq: "split_lines s = x # xs" using split_lines_nonempty by (cases "split_lines s") auto
    have b: "b \<noteq> 0 \<and> b < 0x80" and rest: "ascii_bytes s" using Cons.prems by (simp_all add: ascii_bytes_def)
    have "ascii_bytes x" "\<forall>t \<in> set xs. ascii_bytes t" using Cons.IH [OF rest] by (simp_all add: eq)
    then show ?case using b by (simp add: eq ascii_bytes_def)
  qed (simp add: ascii_bytes_def)
  show rows: "\<forall>t \<in> set (shown_lines s). ascii_bytes t"
  proof
    fix t assume "t \<in> set (shown_lines s)"
    then obtain t' where "t' \<in> set (split_lines s)" "t = take 79 t'"
      unfolding shown_lines_def by (metis imageE in_set_dropD list.set_map)
    moreover have "ascii_bytes t'" using lines calculation by blast
    ultimately show "ascii_bytes t" unfolding ascii_bytes_def by (metis in_set_takeD)
  qed
  show "length (con_buffer c) = 25" using assms(1) by (simp add: console_shows_def length_shown)
  have "ascii_bytes (c_string (padded t))" if "t \<in> set (shown_lines s) \<or> t = []" for t
  proof -
    have "ascii_bytes t" using that rows by (auto simp: ascii_bytes_def)
    then show ?thesis by (simp add: padded_facts(3))
  qed
  then show "ascii_rows (con_buffer c)"
    using assms(1) by (auto simp: ascii_rows_def console_shows_def)
qed

lemma write_to_ok: "con_writer c = Some w \<Longrightarrow> \<exists>lm'. write_to (con_writer c) ds lm = Some lm'"
  by (cases w) (simp_all add: write_to_def)

text \<open>The console before it has a window: where it writes is set, and it shows \<open>s\<close>.\<close>

definition boot_console :: "bytes \<Rightarrow> console \<Rightarrow> bool" where
  "boot_console s c \<longleftrightarrow> console_shows s c \<and> con_writer c \<noteq> None \<and> con_window c = None"

lemma newline_shows:
  assumes "boot_console s c" "ascii_bytes s"
  shows "\<exists>c' lm'. con_newline fonts c lm = Some (c', lm') \<and> boot_console (s @ [10]) c'"
proof -
  obtain w where w: "con_writer c = Some w" and sh: "console_shows s c" and win: "con_window c = None"
    using assms(1) by (auto simp: boot_console_def)
  let ?ls = "shown_lines s"
  have buf: "con_buffer c = map padded ?ls @ replicate (25 - length ?ls) (padded [])"
    and row: "con_row c = length ?ls - 1" using sh by (simp_all add: console_shows_def)
  have len: "0 < length ?ls" "length ?ls \<le> 25" by (simp_all add: length_shown)
  show ?thesis
  proof (cases "length ?ls < 25")
    case True
    then obtain k where k: "25 - length ?ls = Suc k" by (cases "25 - length ?ls") auto
    then have "25 - length (?ls @ [[]]) = k" by simp
    moreover have "Suc (con_row c) = length ?ls" "con_row c < 24" using row len True by auto
    ultimately show ?thesis using True buf w win k
      by (simp add: con_newline_def Let_def console_rows_def boot_console_def console_shows_def shown_newline)
  next
    case False
    then have full: "length ?ls = 25" using len by simp
    let ?c = "c\<lparr>con_col := 0\<rparr>"
    have asc: "ascii_rows (con_buffer ?c)" "length (con_buffer ?c) = 25"
      using console_shows_ascii [OF sh assms(2)] by simp_all
    obtain lm1 where clear: "clear_console ?c lm = Some lm1"
      using write_to_ok [of ?c w] w unfolding clear_console_def by auto
    obtain lm2 where scroll: "scroll_rows fonts [0..<24] ?c lm1 =
        Some (?c\<lparr>con_buffer := take 24 (drop 1 (con_buffer c)) @ drop 24 (con_buffer c)\<rparr>, lm2)"
      using scroll_rows_buffer [OF asc(1), of w 0 24 fonts lm1] asc(2) w by auto
    have "(take 24 (drop 1 (con_buffer c)) @ drop 24 (con_buffer c))[24 := replicate 81 0] =
        map padded (tl ?ls @ [[]])"
    proof -
      have "length (take 24 (drop 1 (con_buffer c))) = 24" using asc(2) by simp
      moreover have "drop 24 (con_buffer c) = [con_buffer c ! 24]"
        using asc(2) Cons_nth_drop_Suc [of 24 "con_buffer c"] by simp
      ultimately show ?thesis
        using full by (simp add: buf padded_def list_update_append drop_Suc map_tl take_tl)
    qed
    then show ?thesis using clear scroll full row w win
      by (auto simp: con_newline_def console_rows_def console_columns_def boot_console_def console_shows_def shown_newline)
  qed
qed

lemma char_shows:
  assumes "boot_console s c" "b \<noteq> 10"
  shows "\<exists>c' lm'. con_char fonts b c lm = Some (c', lm') \<and> boot_console (s @ [b]) c'"
proof -
  obtain w where w: "con_writer c = Some w" and win: "con_window c = None"
    using assms(1) by (auto simp: boot_console_def)
  let ?ls = "shown_lines s" and ?t = "last (shown_lines s)"
  have buf: "con_buffer c = map padded ?ls @ replicate (25 - length ?ls) (padded [])"
    and row: "con_row c = length ?ls - 1" and col: "con_col c = length ?t"
    using assms(1) by (simp_all add: boot_console_def console_shows_def)
  obtain ls where ls: "?ls = ls @ [?t]" by (metis append_butlast_last_id shown_nonempty(1))
  have at: "con_row c = length ls" using row arg_cong [OF ls, of length] by simp
  show ?thesis
  proof (cases "length ?t < 79")
    case True
    obtain lm1 where wr: "write_to (con_writer c) (write_ascii (fst fonts)
        (Vec (8 * int (con_col c)) (16 * int (con_row c))) b (con_fg c)) lm = Some lm1"
      using write_to_ok [of c w] w by auto
    have "con_buffer c = map padded ls @ padded ?t # replicate (24 - length ls) (padded [])"
      using buf arg_cong [OF ls, of "map padded"] arg_cong [OF ls, of length] by simp
    then have row_at: "con_buffer c ! con_row c = padded ?t"
      and upd: "(con_buffer c)[con_row c := r] = map padded ls @ r # replicate (24 - length ls) (padded [])" for r
      by (simp_all add: at list_update_append nth_append)
    have "shown_lines (s @ [b]) = ls @ [?t @ [b]]"
      using True shown_char [OF assms(2), of s] by (metis butlast_snoc ls)
    then show ?thesis using True w win wr assms(2) at col
      by (simp add: con_char_def console_columns_def boot_console_def console_shows_def upd [unfolded at]
          row_at [unfolded at] padded_facts(2))
  next
    case False
    then show ?thesis using assms col
      by (auto simp: con_char_def console_columns_def boot_console_def console_shows_def shown_char)
  qed
qed

lemma chars_show:
  assumes "boot_console s c" "ascii_bytes (s @ t)"
  shows "\<exists>c' lm'. con_chars fonts t c lm = Some (c', lm') \<and> boot_console (s @ t) c'"
  using assms
proof (induction t arbitrary: s c lm)
  case (Cons b t)
  have "ascii_bytes s" using Cons.prems(2) by (simp add: ascii_bytes_def)
  then obtain c1 lm1 where b: "con_char fonts b c lm = Some (c1, lm1)" "boot_console (s @ [b]) c1"
    using newline_shows [OF Cons.prems(1), of fonts lm] char_shows [OF Cons.prems(1), of b fonts lm]
    by (cases "b = 10") (auto simp: con_char_def)
  show ?case using Cons.IH [OF b(2), of lm1] Cons.prems(2) b(1) by simp
qed simp

lemma console_starts:
  "\<exists>c lm'. initialize_console fonts lm = Some (c, lm') \<and> boot_console [] c"
proof -
  let ?c = "(new_console desktop_fg_color desktop_bg_color)\<lparr>con_writer := Some Screen_Writer\<rparr>"
  obtain lm1 where clear: "clear_console ?c lm = Some lm1"
    using write_to_ok [of ?c Screen_Writer] unfolding clear_console_def by auto
  have sh: "boot_console [] ?c"
    by (simp add: boot_console_def console_shows_def shown_lines_def new_console_def console_rows_def
        console_columns_def padded_def flip: replicate_Suc)
  then obtain lm2 where "write_rows fonts ?c [0..<25] lm1 = Some lm2"
    using write_rows_ok [of ?c "[0..<25]" Screen_Writer fonts lm1] console_shows_ascii [of "[]" ?c]
    by (auto simp: boot_console_def ascii_bytes_def)
  then show ?thesis using clear sh
    by (simp add: initialize_console_def con_set_writer_def con_refresh_def console_rows_def new_console_def)
qed

primrec print_all :: "fonts \<Rightarrow> bytes list \<Rightarrow> console \<Rightarrow> layer_manager \<Rightarrow> (console \<times> layer_manager) option" where
  "print_all fonts [] c lm = Some (c, lm)"
| "print_all fonts (s # ss) c lm = do { (c, lm) \<leftarrow> con_put_string fonts False s c lm; print_all fonts ss c lm }"

lemma prints_show:
  assumes "boot_console s c" "ascii_bytes (s @ concat ss)"
  shows "\<exists>c' lm'. print_all fonts ss c lm = Some (c', lm') \<and> boot_console (s @ concat ss) c'"
  using assms
proof (induction ss arbitrary: s c lm)
  case (Cons t ss)
  have "ascii_bytes (s @ t)" using Cons.prems(2) by (auto simp: ascii_bytes_def)
  then obtain c1 lm1 where "con_chars fonts t c lm = Some (c1, lm1)" "boot_console (s @ t) c1"
    using chars_show [OF Cons.prems(1)] by blast
  then show ?case using Cons.IH [of "s @ t" c1 lm1] Cons.prems(2) by (simp add: con_put_string_def)
qed simp

text \<open>However much the kernel prints during start-up, in whatever pieces, the console works and holds
  the first 79 characters of each of the last 25 lines, the last of them on the row of the cursor.
  The text is ASCII.\<close>

theorem console_keeps_last_lines:
  assumes "ascii_bytes (concat texts)"
  shows "\<exists>c lm'. Option.bind (initialize_console fonts lm) (\<lambda>(c, lm). print_all fonts texts c lm) = Some (c, lm')
    \<and> map c_string (take (Suc (con_row c)) (con_buffer c)) = shown_lines (concat texts)"
proof -
  obtain c lm1 where start: "initialize_console fonts lm = Some (c, lm1)" "boot_console [] c"
    using console_starts by blast
  obtain c' lm2 where print: "print_all fonts texts c lm1 = Some (c', lm2)" "boot_console (concat texts) c'"
    using prints_show [OF start(2), of texts fonts lm1] assms by auto
  have sh: "console_shows (concat texts) c'" using print(2) by (simp add: boot_console_def)
  have "Suc (con_row c') = length (shown_lines (concat texts))"
    using sh shown_nonempty(1) [of "concat texts"] by (simp add: console_shows_def del: shown_nonempty)
  then have "map c_string (take (Suc (con_row c')) (con_buffer c')) =
      map (\<lambda>t. c_string (padded t)) (shown_lines (concat texts))"
    using sh by (simp add: console_shows_def)
  also have "\<dots> = shown_lines (concat texts)"
    using console_shows_ascii(3) [OF sh assms] by (simp add: map_idI padded_facts(3))
  finally show ?thesis using start(1) print(1) by auto
qed

theorem console_keeps_last_lines_witness:
  "\<forall>lm. \<exists>c lm'. Option.bind (initialize_console ([], \<lambda>_. None) lm)
      (\<lambda>(c, lm). print_all ([], \<lambda>_. None) [bytes_of ''Welcome to MikanOS_X'', [10]] c lm) = Some (c, lm')
    \<and> map c_string (take (Suc (con_row c)) (con_buffer c)) = [bytes_of ''Welcome to MikanOS_X'', []]"
proof -
  have "ascii_bytes (concat [bytes_of ''Welcome to MikanOS_X'', [10]])" by code_simp
  moreover have "shown_lines (concat [bytes_of ''Welcome to MikanOS_X'', [10]]) = [bytes_of ''Welcome to MikanOS_X'', []]"
    by code_simp
  ultimately show ?thesis
    using console_keeps_last_lines [of "[bytes_of ''Welcome to MikanOS_X'', [10]]" "([], \<lambda>_. None)"] by metis
qed

end
