(* ===== verification/Acpi.thy ===== *)
theory Acpi imports File_Descriptor "HOL-Library.Monad_Syntax" begin

text \<open>
  \<^verbatim>\<open>Kernel/acpi.{hpp,cpp}\<close>: finding the fixed ACPI description table, and waiting by the power
  management timer that it names. The tables are bytes of memory at their addresses; the timer's
  port is given by the values that successive reads of it return. The last section shows that a wait
  ends, and how long it lasts.
\<close>

section \<open>Tables\<close>

type_synonym acpi_mem = "u64 \<Rightarrow> u8"

definition bytes_from :: "acpi_mem \<Rightarrow> u64 \<Rightarrow> nat \<Rightarrow> bytes" where
  "bytes_from mem a n = map (\<lambda>i. mem (a + of_nat i)) [0..<n]"

definition le_word :: "bytes \<Rightarrow> 'w::len word" where
  "le_word bs = foldr (\<lambda>b w. ucast b + 256 * w) bs 0"

text \<open>A packed structure as the list of its members with their sizes.\<close>

(*@ Kernel/acpi.hpp:7-19 RSDP *)
definition RSDP :: "(string \<times> nat) list" where
  "RSDP =
    [(''signature'', 8), (''checksum'', 1), (''oem_id'', 6), (''revision'', 1), (''rsdt_address'', 4),
     (''length'', 4), (''xsdt_address'', 8), (''extended_checksum'', 1), (''reserved'', 3)]"

(*@ Kernel/acpi.hpp:21-33 DescriptionHeader *)
definition DescriptionHeader :: "(string \<times> nat) list" where
  "DescriptionHeader =
    [(''signature'', 4), (''length'', 4), (''revision'', 1), (''checksum'', 1), (''oem_id'', 6),
     (''oem_table_id'', 8), (''oem_revision'', 4), (''creator_id'', 4), (''creator_revision'', 4)]"

definition struct_size :: "(string \<times> nat) list \<Rightarrow> nat" where
  "struct_size fs = sum_list (map snd fs)"

(*@ Kernel/acpi.hpp:42-50 FADT *)
definition FADT :: "(string \<times> nat) list" where
  "FADT =
    [(''header'', struct_size DescriptionHeader), (''reserved1'', 76 - struct_size DescriptionHeader),
     (''pm_tmr_blk'', 4), (''reserved2'', 112 - 80), (''flags'', 4), (''reserved3'', 276 - 116)]"

primrec member_at :: "(string \<times> nat) list \<Rightarrow> string \<Rightarrow> acpi_mem \<Rightarrow> u64 \<Rightarrow> bytes" where
  "member_at [] f mem a = []"
| "member_at (m # fs) f mem a =
    (if fst m = f then bytes_from mem a (snd m) else member_at fs f mem (a + of_nat (snd m)))"

lemma struct_sizes: "struct_size RSDP = 36" "struct_size DescriptionHeader = 36" "struct_size FADT = 276"
  by (simp_all add: struct_size_def RSDP_def DescriptionHeader_def FADT_def)

(*@ Kernel/acpi.cpp:14-21 SumBytes *)
definition sum_bytes :: "bytes \<Rightarrow> u8" where
  "sum_bytes data = fold (\<lambda>b sum. sum + b) data 0"

(*@ Kernel/acpi.cpp:26-44 RSDP::IsValid *)
definition rsdp_is_valid :: "acpi_mem \<Rightarrow> u64 \<Rightarrow> bool" where
  "rsdp_is_valid mem a \<longleftrightarrow>
     (if member_at RSDP ''signature'' mem a \<noteq> bytes_of ''RSD PTR '' then False
      else if member_at RSDP ''revision'' mem a \<noteq> [2] then False
      else if sum_bytes (bytes_from mem a 20) \<noteq> 0 then False
      else sum_bytes (bytes_from mem a 36) = 0)"

definition header_length :: "acpi_mem \<Rightarrow> u64 \<Rightarrow> u32" where
  "header_length mem a = le_word (member_at DescriptionHeader ''length'' mem a)"

(*@ Kernel/acpi.cpp:46-56 DescriptionHeader::IsValid *)
definition header_is_valid :: "string \<Rightarrow> acpi_mem \<Rightarrow> u64 \<Rightarrow> bool" where
  "header_is_valid expected_signature mem a \<longleftrightarrow>
     (if member_at DescriptionHeader ''signature'' mem a \<noteq> bytes_of expected_signature then False
      else sum_bytes (bytes_from mem a (unat (header_length mem a))) = 0)"

(*@ Kernel/acpi.cpp:58-61 XSDT::operator[] *)
definition xsdt_entry :: "acpi_mem \<Rightarrow> u64 \<Rightarrow> nat \<Rightarrow> u64" where
  "xsdt_entry mem xsdt i = le_word (bytes_from mem (xsdt + of_nat (struct_size DescriptionHeader) + 8 * of_nat i) 8)"

text \<open>A subtraction of unsigned 64-bit numbers.\<close>

(*@ Kernel/acpi.cpp:63-65 XSDT::Count *)
definition xsdt_count :: "acpi_mem \<Rightarrow> u64 \<Rightarrow> u64" where
  "xsdt_count mem xsdt = (ucast (header_length mem xsdt) - of_nat (struct_size DescriptionHeader)) div 8"

text \<open>The index is an \<^verbatim>\<open>int\<close>; \<open>n\<close> is how many entries are left.\<close>

(*@ Kernel/acpi.cpp:95-101 Initialize *)
fun find_fadt :: "acpi_mem \<Rightarrow> u64 \<Rightarrow> nat \<Rightarrow> nat \<Rightarrow> u64 option option" where
  "find_fadt mem xsdt i 0 = Some None"
| "find_fadt mem xsdt i (Suc n) =
    (if 2 ^ 31 \<le> i then None
     else if header_is_valid ''FACP'' mem (xsdt_entry mem xsdt i) then Some (Some (xsdt_entry mem xsdt i))
     else find_fadt mem xsdt (Suc i) n)"

text \<open>\<open>Inl\<close> is the exit code of a kernel that gives up, \<open>Inr\<close> the address for \<^verbatim>\<open>fadt\<close>.\<close>

(*@ Kernel/acpi.cpp:82-107 Initialize *)
definition acpi_initialize :: "acpi_mem \<Rightarrow> u64 \<Rightarrow> (int + u64) option" where
  "acpi_initialize mem rsdp =
    (if \<not> rsdp_is_valid mem rsdp then Some (Inl 1)
     else
       let xsdt = le_word (member_at RSDP ''xsdt_address'' mem rsdp)
       in if \<not> header_is_valid ''XSDT'' mem xsdt then Some (Inl 1)
          else do {
            fadt \<leftarrow> find_fadt mem xsdt 0 (unat (xsdt_count mem xsdt));
            Some (case fadt of None \<Rightarrow> Inl 1 | Some a \<Rightarrow> Inr a) })"

section \<open>Waiting\<close>

(*@ Kernel/acpi.hpp:53-53 kPMTimerFreq *)
definition kPMTimerFreq :: u64 where "kPMTimerFreq = 3579545"

definition fadt_flags :: "acpi_mem \<Rightarrow> u64 \<Rightarrow> u32" where
  "fadt_flags mem fadt = le_word (member_at FADT ''flags'' mem fadt)"

text \<open>\<open>pm k\<close> is what read number \<open>k\<close> of the timer's port returns. A wait gives the number of reads
  done.\<close>

partial_function (option) wait_while :: "(nat \<Rightarrow> u32) \<Rightarrow> (u32 \<Rightarrow> bool) \<Rightarrow> nat \<Rightarrow> nat option" where
  "wait_while pm P k = (if P (pm k) then wait_while pm P (Suc k) else Some (Suc k))"

(*@ Kernel/acpi.cpp:69-81 WaitMilliseconds *)
definition wait_milliseconds :: "(nat \<Rightarrow> u32) \<Rightarrow> u32 \<Rightarrow> u64 \<Rightarrow> nat option" where
  "wait_milliseconds pm flags msec =
    (let pm_timer_32 = bit flags 8;
         start = pm 0;
         end_tick = ucast (ucast start + kPMTimerFreq * msec div 1000);
         end_tick = (if \<not> pm_timer_32 then end_tick AND 0x00ffffff else end_tick)
     in do {
       k \<leftarrow> (if end_tick < start then wait_while pm (\<lambda>v. start \<le> v) 1 else Some 1);
       wait_while pm (\<lambda>v. v < end_tick) k })"

section \<open>What is found\<close>

lemma find_fadt_first:
  assumes "i + n \<le> 2 ^ 31"
  shows "find_fadt mem xsdt i n =
    Some (map_option (xsdt_entry mem xsdt) (find (\<lambda>j. header_is_valid ''FACP'' mem (xsdt_entry mem xsdt j)) [i..<i + n]))"
  using assms
proof (induction n arbitrary: i)
  case (Suc n)
  then show ?case using Suc.IH [of "Suc i"] by (simp add: upt_conv_Cons del: upt_Suc)
qed simp

lemma find_hd:
  "map_option f (find (\<lambda>x. P (f x)) xs) = (if filter P (map f xs) = [] then None else Some (hd (filter P (map f xs))))"
  by (induction xs) auto

text \<open>\<^verbatim>\<open>Initialize\<close> takes the first entry of a valid extended system description table that is a valid
  fixed description table, and gives up otherwise. The table is not shorter than its header.\<close>

lemma acpi_initialize_first:
  assumes "xsdt = le_word (member_at RSDP ''xsdt_address'' mem rsdp)"
    and "36 \<le> header_length mem xsdt"
    and "fadts = filter (header_is_valid ''FACP'' mem)
      (map (xsdt_entry mem xsdt) [0..<(unat (header_length mem xsdt) - 36) div 8])"
  shows "acpi_initialize mem rsdp = Some
    (if rsdp_is_valid mem rsdp \<and> header_is_valid ''XSDT'' mem xsdt \<and> fadts \<noteq> [] then Inr (hd fadts) else Inl 1)"
proof -
  let ?n = "(unat (header_length mem xsdt) - 36) div 8"
  have len: "unat (header_length mem xsdt) < 2 ^ 32" using unsigned_less [of "header_length mem xsdt"] by simp
  have "unat (xsdt_count mem xsdt) = ?n"
    using assms(2) len
    by (simp add: xsdt_count_def struct_sizes unat_div unat_sub_if_size word_le_nat_alt unsigned_ucast_eq take_bit_nat_eq_self word_size)
  moreover have "?n \<le> 2 ^ 31" using len by simp
  ultimately have "find_fadt mem xsdt 0 (unat (xsdt_count mem xsdt)) = Some (if fadts = [] then None else Some (hd fadts))"
    unfolding assms(3) find_hd [symmetric] by (simp add: find_fadt_first)
  then show ?thesis by (simp add: acpi_initialize_def Let_def assms(1))
qed

section \<open>How long a wait lasts\<close>

lemma wait_while_first:
  assumes "k \<le> m" "\<not> P (pm m)" "\<forall>j. k \<le> j \<and> j < m \<longrightarrow> P (pm j)"
  shows "wait_while pm P k = Some (Suc m)"
  using assms
proof (induction "m - k" arbitrary: k)
  case 0
  then show ?case by (simp add: wait_while.simps)
next
  case (Suc d)
  then have "wait_while pm P (Suc k) = Some (Suc m)" by simp
  then show ?case using Suc by (subst wait_while.simps) auto
qed

text \<open>The first read from \<open>a\<close> on that is not before \<open>x\<close>, and how far behind it it can be.\<close>

lemma first_reaching:
  fixes t :: "nat \<Rightarrow> nat"
  assumes "\<forall>y. \<exists>k. y \<le> t k" "mono t" "\<forall>k. t (Suc k) \<le> t k + d"
  obtains k where "a \<le> k" "x \<le> t k" "\<forall>j. a \<le> j \<and> j < k \<longrightarrow> t j < x" "t k \<le> max (t a) (x + d)"
proof -
  obtain k0 where "x \<le> t k0" using assms(1) by blast
  then have ex: "a \<le> max a k0 \<and> x \<le> t (max a k0)"
    using monoD [OF assms(2), of k0 "max a k0"] by simp
  define k where "k = (LEAST k. a \<le> k \<and> x \<le> t k)"
  have k: "a \<le> k \<and> x \<le> t k" unfolding k_def using ex by (rule LeastI)
  have before: "\<forall>j. a \<le> j \<and> j < k \<longrightarrow> t j < x"
    unfolding k_def by (metis (mono_tags, lifting) not_less_Least not_le)
  have "t k \<le> max (t a) (x + d)"
  proof (cases "k = a")
    case False
    then obtain j where j: "k = Suc j" "a \<le> j" using k by (cases k) auto
    then have "t j < x" using before by simp
    then show ?thesis using assms(3) j(1) by (metis add_le_mono1 le_max_iff_disj less_imp_le_nat order_trans)
  qed simp
  with k before show ?thesis using that by blast
qed

lemma end_tick:
  fixes flags :: u32
  assumes "w = (if bit flags 8 then 32 else 24)" "c < 2 ^ w" "N = 3579545 * unat msec div 1000" "N < 2 ^ w"
  shows "(let e = ucast (ucast (of_nat c :: u32) + kPMTimerFreq * msec div 1000)
          in if \<not> bit flags 8 then e AND 0x00ffffff else e) = (of_nat ((c + N) mod 2 ^ w) :: u32)"
proof -
  have w: "w = 32 \<and> bit flags 8 \<or> w = 24 \<and> \<not> bit flags 8" using assms(1) by auto
  have small: "3579545 * unat msec < 2 ^ 64" "N < 2 ^ 32" "c < 2 ^ 32" using assms w by auto
  have "kPMTimerFreq * msec = of_nat (3579545 * unat msec)" by (simp add: kPMTimerFreq_def)
  then have "unat (kPMTimerFreq * msec) = 3579545 * unat msec"
    using small(1) by (simp only: unat_of_nat) (simp add: take_bit_nat_eq_self)
  then have "unat (kPMTimerFreq * msec div 1000) = N" using assms(3) by (simp add: unat_div)
  then have "kPMTimerFreq * msec div 1000 = of_nat N" by (metis of_nat_unat ucast_id)
  moreover have "(ucast (of_nat c :: u32) :: u64) = of_nat c"
    using small(3) by (simp add: unsigned_of_nat take_bit_nat_eq_self)
  ultimately have e: "ucast (ucast (of_nat c :: u32) + kPMTimerFreq * msec div 1000) = (of_nat (c + N) :: u32)"
    using small(2,3) by (simp add: unsigned_of_nat take_bit_nat_eq_self flip: of_nat_add)
  have "(0x00ffffff :: u32) = mask 24" by (simp add: mask_eq_exp_minus_1)
  then have "(of_nat (c + N) :: u32) AND 0x00ffffff = take_bit 24 (of_nat (c + N))"
    by (simp only: take_bit_eq_mask)
  then have "(of_nat (c + N) :: u32) AND 0x00ffffff = of_nat (take_bit 24 (c + N))"
    by (simp only: take_bit_of_nat)
  moreover have "(of_nat (c + N) :: u32) = of_nat ((c + N) mod 2 ^ 32)"
    by (simp only: word_of_nat_eq_iff) (simp add: take_bit_eq_mod)
  ultimately show ?thesis using w
    by (auto simp: e Let_def take_bit_eq_mod simp del: of_nat_add)
qed

text \<open>A wait ends, and lasts as long as asked for: at least the asked number of ticks of the timer
  and at most two reads longer. The timer counts modulo \<open>2 ^ 32\<close> or \<open>2 ^ 24\<close>, whichever the description
  table says, from any value on, also over its end; \<open>t k\<close> is the ticks from the first read to read
  number \<open>k\<close>, and at most \<open>d\<close> of them pass from one read to the next. The end of the wait must not be
  within two reads of the timer's last value, which the loop would miss, and the first read not within
  one of its first where the wait goes over the end.\<close>

theorem wait_milliseconds_lasts:
  fixes t :: "nat \<Rightarrow> nat"
  assumes "w = (if bit flags 8 then 32 else 24)" "c < 2 ^ w"
    and "pm = (\<lambda>k. of_nat ((c + t k) mod 2 ^ w))"
    and "t 0 = 0" "mono t" "\<forall>y. \<exists>k. y \<le> t k" "\<forall>k. t (Suc k) \<le> t k + d"
    and "N = 3579545 * unat msec div 1000" "N < 2 ^ w"
    and "(c + N) mod 2 ^ w + 2 * d < 2 ^ w" "2 ^ w \<le> c + N \<longrightarrow> d < c"
  shows "\<exists>m. wait_milliseconds pm flags msec = Some (Suc m) \<and> N \<le> t m \<and> t m \<le> N + 2 * d"
proof -
  let ?e = "(c + N) mod 2 ^ w"
  have w: "w = 32 \<or> w = 24" using assms(1) by auto
  then have le: "(2::nat) ^ w \<le> 2 ^ 32" by auto
  have word_less: "(of_nat a :: u32) < of_nat b \<longleftrightarrow> a < b" if "a < 2 ^ w" "b < 2 ^ w" for a b
    using that le by (simp add: word_less_nat_alt unat_of_nat take_bit_nat_eq_self)
  have tick: "pm k < of_nat x \<longleftrightarrow> (c + t k) mod 2 ^ w < x" if "x < 2 ^ w" for k x
    unfolding assms(3) using that by (intro word_less) auto
  have start: "pm 0 = of_nat c" using assms(2-4) by simp
  have run: "wait_milliseconds pm flags msec =
      Option.bind (if ?e < c then wait_while pm (\<lambda>v. of_nat c \<le> v) 1 else Some 1)
        (wait_while pm (\<lambda>v. v < of_nat ?e))"
    using end_tick [OF assms(1,2,8,9)] word_less [of ?e c] assms(2)
    by (simp add: wait_milliseconds_def start Let_def)
  have t1: "t 1 \<le> d" using assms(4,7) by (metis One_nat_def add_0)
  show ?thesis
  proof (cases "c + N < 2 ^ w")
    case True
    then have e: "?e = c + N" by simp
    obtain m where m: "1 \<le> m" "N \<le> t m" "\<forall>j. 1 \<le> j \<and> j < m \<longrightarrow> t j < N" "t m \<le> max (t 1) (N + d)"
      by (rule first_reaching [OF assms(6,5,7)])
    have "wait_while pm (\<lambda>v. v < of_nat ?e) 1 = Some (Suc m)"
    proof (rule wait_while_first [OF m(1)])
      have "c + t m < 2 ^ w" using m(4) t1 assms(10) e by auto
      then show "\<not> pm m < of_nat ?e" using m(2) e by (simp add: tick del: of_nat_add)
      show "\<forall>j. 1 \<le> j \<and> j < m \<longrightarrow> pm j < of_nat ?e"
        using m(3) True e by (auto simp: tick simp del: of_nat_add)
    qed
    then show ?thesis using run m(2,4) t1 e by auto
  next
    case False
    then have e: "?e = c + N - 2 ^ w" using assms(2,9) by (simp add: mod_if)
    let ?x = "2 ^ w - c"
    obtain k where k: "1 \<le> k" "?x \<le> t k" "\<forall>j. 1 \<le> j \<and> j < k \<longrightarrow> t j < ?x" "t k \<le> max (t 1) (?x + d)"
      by (rule first_reaching [OF assms(6,5,7)])
    have first: "wait_while pm (\<lambda>v. of_nat c \<le> v) 1 = Some (Suc k)"
    proof (rule wait_while_first [OF k(1)])
      have "(c + t k) mod 2 ^ w < c" using k(2,4) t1 assms(2,11) False by (auto simp: mod_if)
      then show "\<not> of_nat c \<le> pm k" using assms(2) by (simp add: tick not_le)
      have "\<not> (c + t j) mod 2 ^ w < c" if "1 \<le> j" "j < k" for j using k(3) that by auto
      then show "\<forall>j. 1 \<le> j \<and> j < k \<longrightarrow> of_nat c \<le> pm j"
        using assms(2) by (auto simp: tick not_less [symmetric])
    qed
    have "t (Suc k) \<le> t k + d" using assms(7) by blast
    then have tk: "t (Suc k) \<le> N + 2 * d" using k(4) t1 assms(2) False by (auto simp: max_def split: if_splits)
    obtain m where m: "Suc k \<le> m" "N \<le> t m" "\<forall>j. Suc k \<le> j \<and> j < m \<longrightarrow> t j < N" "t m \<le> max (t (Suc k)) (N + d)"
      by (rule first_reaching [OF assms(6,5,7)])
    have "wait_while pm (\<lambda>v. v < of_nat ?e) (Suc k) = Some (Suc m)"
    proof (rule wait_while_first [OF m(1)])
      have "c + t m - 2 ^ w < 2 ^ w" "2 ^ w \<le> c + t m" using m(2,4) tk assms(10) e False by auto
      then have "\<not> (c + t m) mod 2 ^ w < ?e" using m(2) e by (simp add: mod_if)
      then show "\<not> pm m < of_nat ?e" by (subst tick) auto
      have "(c + t j) mod 2 ^ w < ?e" if j: "Suc k \<le> j" "j < m" for j
      proof -
        have "?x \<le> t j" using k(2) monoD [OF assms(5), of k j] j by simp
        moreover have "t j < N" using m(3) j by blast
        ultimately show ?thesis using e assms(2,9) by (auto simp: mod_if)
      qed
      then show "\<forall>j. Suc k \<le> j \<and> j < m \<longrightarrow> pm j < of_nat ?e" by (auto simp: tick simp del: of_nat_add)
    qed
    moreover have "?e < c" using e assms(9) False by simp
    ultimately show ?thesis using run first m(2,4) tk by auto
  qed
qed

text \<open>One millisecond on a 24-bit timer that has five ticks to its end.\<close>

theorem wait_milliseconds_lasts_witness:
  "\<exists>m. wait_milliseconds (\<lambda>k. of_nat ((16777211 + k) mod 2 ^ 24)) 0 1 = Some (Suc m) \<and> 3579 \<le> m \<and> m \<le> 3579 + 2 * 1"
  by (rule wait_milliseconds_lasts [where t = "\<lambda>k. k" and flags = 0 and msec = 1]) (auto simp: mono_def)

end
