(* ===== verification/Xhci_Start.thy ===== *)
theory Xhci_Start imports Xhci_Ports Pci Interrupt begin

text \<open>
  \<^verbatim>\<open>Kernel/usb/xhci/xhci.cpp\<close>: how the driver of the host controller starts. It takes the controller
  over from the firmware, halts and resets it, gives it its tables and rings, lets it run, and
  starts configuring the ports something is connected to. The values of the registers are the
  device's answers, in the order of the reads, those for the log included. The last sections show
  in which order the controller is programmed and with what, and that the protocol of the ports
  holds from the start of the driver on.
\<close>

definition upd_reg :: "device_regs \<Rightarrow> u64 \<Rightarrow> (u64 \<Rightarrow> u64) \<Rightarrow> io \<Rightarrow> io" where
  "upd_reg hw a f s = (let (v, s) = reg_read hw a s in reg_write a (f v) s)"

definition reg_wait :: "device_regs \<Rightarrow> (u64 \<Rightarrow> bool) \<Rightarrow> u64 \<Rightarrow> io \<Rightarrow> io option" where
  "reg_wait hw P a s = map_option snd (read_while hw P a s)"

abbreviation op_reg :: "controller \<Rightarrow> string \<Rightarrow> u64" where
  "op_reg c n \<equiv> reg_at (xc_op c) OperationalRegisters n"

section \<open>Taking the controller over\<close>

text \<open>The list of extended capabilities is searched for the one with number 1.\<close>

partial_function (option) find_legacy :: "device_regs \<Rightarrow> u64 \<Rightarrow> io \<Rightarrow> (u64 \<times> io) option" where
  "find_legacy hw reg s =
    (if reg = 0 then Some (0, s)
     else let (v, s) = reg_read hw reg s
          in if get_member ExtendedRegister_Bitmap ''capability_id'' v = 1 then Some (reg, s)
             else let (following, s) = ext_next hw reg s in find_legacy hw following s)"

(*@ Kernel/usb/xhci/xhci.cpp:286-313 RequestHCOwnership *)
definition request_hc_ownership :: "device_regs \<Rightarrow> u64 \<Rightarrow> u64 \<Rightarrow> io \<Rightarrow> io option" where
  "request_hc_ownership hw mmio_base hccp s =
    do { (reg, s) \<leftarrow> find_legacy hw (ext_first mmio_base hccp) s;
         if reg = 0 then Some s
         else let (r, s) = reg_read hw reg s
              in if get_member USBLEGSUP_Bitmap ''hc_os_owned_semaphore'' r \<noteq> 0 then Some s
                 else reg_wait hw
                   (\<lambda>r. get_member USBLEGSUP_Bitmap ''hc_bios_owned_semaphore'' r \<noteq> 0
                      \<or> get_member USBLEGSUP_Bitmap ''hc_os_owned_semaphore'' r = 0) reg
                   (reg_write reg (put_member USBLEGSUP_Bitmap ''hc_os_owned_semaphore'' 1 r) s) }"

text \<open>Some Intel machines have the ports at an EHCI controller until told otherwise.\<close>

(*@ Kernel/usb/xhci/xhci.cpp:315-334 SwitchEhci2Xhci *)
definition switch_ehci_to_xhci :: "pci_conf \<Rightarrow> pci_device list \<Rightarrow> pci_device \<Rightarrow> pci_writes \<Rightarrow> pci_writes" where
  "switch_ehci_to_xhci conf devices xhc_dev ws =
    (if \<exists>d \<in> set devices. pd_class d = \<lparr>cc_base = 0x0c, cc_sub = 0x03, cc_interface = 0x20\<rparr>
        \<and> read_vendor_id conf (pd_bus d) (pd_device d) (pd_function d) = 0x8086
     then
       let superspeed_ports = read_conf_reg conf xhc_dev 0xdc;
           ws = write_conf_reg xhc_dev 0xd8 superspeed_ports ws;
           ehci2xhci_ports = read_conf_reg conf xhc_dev 0xd4
       in write_conf_reg xhc_dev 0xd0 ehci2xhci_ports ws
     else ws)"

section \<open>The controller\<close>

definition kDeviceSize :: nat where "kDeviceSize = 8"

(*@ Kernel/usb/xhci/xhci.cpp:339-346 Controller::Controller *)
definition new_controller :: "device_regs \<Rightarrow> u64 \<Rightarrow> usb_env \<Rightarrow> controller" where
  "new_controller hw mmio_base env =
    (let (caplength, s) = reg_read hw (reg_at mmio_base CapabilityRegisters ''CAPLENGTH'') (ue_io env);
         (hcsparams1, s) = reg_read hw (reg_at mmio_base CapabilityRegisters ''HCSPARAMS1'') s
     in \<lparr>xc_mmio = mmio_base, xc_op = mmio_base + take_bit 8 caplength,
         xc_max_ports = ucast (get_member HCSPARAMS1_Bitmap ''max_ports'' hcsparams1),
         xc_devmgr = \<lparr>dm_contexts_addr = 0, dm_contexts = [], dm_max_slots = 0, dm_devices = []\<rparr>,
         xc_cr = \<lparr>ring_buf = 0, ring_size = 0, ring_cycle = False, ring_write = 0\<rparr>,
         xc_er = \<lparr>er_buf = 0, er_size = 0, er_cycle = False, er_erst = 0, er_erst_entry = 0, er_interrupter = 0\<rparr>,
         xc_phase = replicate 256 kNotConnected, xc_addressing = 0, xc_env = env\<lparr>ue_io := s\<rparr>\<rparr>)"

text \<open>Halting and resetting; each of the three loops waits for the controller.\<close>

(*@ Kernel/usb/xhci/xhci.cpp:355-372 Controller::Initialize *)
definition halt_and_reset :: "device_regs \<Rightarrow> u64 \<Rightarrow> u64 \<Rightarrow> io \<Rightarrow> io option" where
  "halt_and_reset hw usbcmd usbsts s =
    (let (cmd, s) = reg_read hw usbcmd s;
         cmd = put_member USBCMD_Bitmap ''interrupter_enable'' 0 cmd;
         cmd = put_member USBCMD_Bitmap ''host_system_error_enable'' 0 cmd;
         cmd = put_member USBCMD_Bitmap ''enable_wrap_event'' 0 cmd;
         (sts, s) = reg_read hw usbsts s;
         cmd = (if get_member USBSTS_Bitmap ''host_controller_halted'' sts = 0
                then put_member USBCMD_Bitmap ''run_stop'' 0 cmd else cmd);
         s = reg_write usbcmd cmd s
     in do {
       s \<leftarrow> reg_wait hw (\<lambda>v. get_member USBSTS_Bitmap ''host_controller_halted'' v = 0) usbsts s;
       s \<leftarrow> Some (upd_reg hw usbcmd (put_member USBCMD_Bitmap ''host_controller_reset'' 1) s);
       s \<leftarrow> reg_wait hw (\<lambda>v. get_member USBCMD_Bitmap ''host_controller_reset'' v \<noteq> 0) usbcmd s;
       reg_wait hw (\<lambda>v. get_member USBSTS_Bitmap ''controller_not_ready'' v \<noteq> 0) usbsts s })"

primrec alloc_pages :: "nat \<Rightarrow> usb_mem \<Rightarrow> u64 list \<times> usb_mem" where
  "alloc_pages 0 m = ([], m)"
| "alloc_pages (Suc n) m =
    (let (p, m) = usb_alloc 4096 1 4096 4096 m; (ps, m) = alloc_pages n m in (p # ps, m))"

text \<open>The array of scratchpad buffers; a null array is written to all the same.\<close>

(*@ Kernel/usb/xhci/xhci.cpp:380-394 Controller::Initialize *)
definition alloc_scratchpad :: "u64 \<Rightarrow> device_manager \<Rightarrow> usb_mem \<Rightarrow> (u64 list \<times> device_manager \<times> usb_mem) option" where
  "alloc_scratchpad hcsparams2 dm m =
    (let n = get_member HCSPARAMS2_Bitmap ''max_scratchpad_buffers_low'' hcsparams2
           OR push_bit 5 (get_member HCSPARAMS2_Bitmap ''max_scratchpad_buffers_high'' hcsparams2)
     in if n = 0 then Some ([], dm, m)
        else case usb_alloc 8 n 64 4096 m of
          (arr, m) \<Rightarrow>
            if arr = 0 then None
            else let (bufs, m) = alloc_pages (unat n) m
                 in Some (bufs, dm\<lparr>dm_contexts := (dm_contexts dm)[0 := arr]\<rparr>, m))"

(*@ Kernel/usb/xhci/xhci.cpp:15-23 RegisterCommandRing *)
definition register_command_ring :: "device_regs \<Rightarrow> ring \<Rightarrow> u64 \<Rightarrow> io \<Rightarrow> error_code \<times> io" where
  "register_command_ring hw ring crcr s =
    (kSuccess, upd_reg hw crcr (\<lambda>v. CRCR_SetPointer (ring_buf ring)
      (put_member CRCR_Bitmap ''command_abort'' 0
      (put_member CRCR_Bitmap ''command_stop'' 0
      (put_member CRCR_Bitmap ''ring_cycle_state'' 1 v)))) s)"

text \<open>From the slots on: the tables and rings, their addresses in the registers, and interrupts.\<close>

(*@ Kernel/usb/xhci/xhci.cpp:396-422 Controller::Initialize *)
definition give_rings :: "xhci_setting \<Rightarrow> controller \<Rightarrow> error_code \<times> controller" where
  "give_rings xs c =
    (let hw = xs_regs xs;
         s = reg_write (op_reg c ''DCBAAP'') (DCBAAP_SetPointer (dm_contexts_addr (xc_devmgr c)) 0) (ctl_io c);
         (rtsoff, s) = reg_read hw (reg_at (xc_mmio c) CapabilityRegisters ''RTSOFF'') s;
         interrupter = array_at (xc_mmio c + RTSOFF_Offset rtsoff + 0x20) InterrupterRegisterSet 0;
         (err, cr, m) = ring_initialize 32 (xc_cr c) (ue_mem (xc_env c));
         c = set_io s (upd_env (ue_mem_update (\<lambda>_. m)) (c\<lparr>xc_cr := cr\<rparr>))
     in if is_error err then (err, c)
        else
          let (err, s) = register_command_ring hw cr (op_reg c ''CRCR'') s;
              (err, er, m, s) = event_ring_initialize hw 32 interrupter (xc_er c) m s;
              c = set_io s (upd_env (ue_mem_update (\<lambda>_. m)) (c\<lparr>xc_er := er\<rparr>))
          in if is_error err then (err, c)
             else
               let s = upd_reg hw (reg_at interrupter InterrupterRegisterSet ''IMAN'')
                     (\<lambda>v. put_member IMAN_Bitmap ''interrupt_enable'' 1
                       (put_member IMAN_Bitmap ''interrupt_pending'' 1 v)) s;
                   s = upd_reg hw (op_reg c ''USBCMD'') (put_member USBCMD_Bitmap ''interrupter_enable'' 1) s
               in (kSuccess, set_io s c))"

text \<open>The scratchpad buffers are a result besides the controller.\<close>

(*@ Kernel/usb/xhci/xhci.cpp:348-422 Controller::Initialize *)
definition ctl_initialize :: "xhci_setting \<Rightarrow> controller \<Rightarrow> (error_code \<times> controller \<times> u64 list) option" where
  "ctl_initialize xs c =
    (let hw = xs_regs xs;
         (err, dm, m) = dm_initialize kDeviceSize (xc_devmgr c) (ue_mem (xc_env c));
         c = upd_env (ue_mem_update (\<lambda>_. m)) (c\<lparr>xc_devmgr := dm\<rparr>)
     in if is_error err then Some (err, c, [])
        else
          let (hccp, s) = reg_read hw (reg_at (xc_mmio c) CapabilityRegisters ''HCCPARAMS1'') (ctl_io c)
          in do {
            s \<leftarrow> request_hc_ownership hw (xc_mmio c) hccp s;
            s \<leftarrow> halt_and_reset hw (op_reg c ''USBCMD'') (op_reg c ''USBSTS'') s;
            (_, s) \<leftarrow> Some (reg_read hw (reg_at (xc_mmio c) CapabilityRegisters ''HCSPARAMS1'') s);
            s \<leftarrow> Some (upd_reg hw (op_reg c ''CONFIG'')
              (put_member CONFIG_Bitmap ''max_device_slots_enabled'' (of_nat kDeviceSize)) s);
            (hcsparams2, s) \<leftarrow> Some (reg_read hw (reg_at (xc_mmio c) CapabilityRegisters ''HCSPARAMS2'') s);
            (bufs, dm, m) \<leftarrow> alloc_scratchpad hcsparams2 dm m;
            (err, c) \<leftarrow> Some (give_rings xs (set_io s (upd_env (ue_mem_update (\<lambda>_. m)) (c\<lparr>xc_devmgr := dm\<rparr>))));
            Some (err, c, bufs) })"

(*@ Kernel/usb/xhci/xhci.cpp:424-434 Controller::Run *)
definition ctl_run :: "xhci_setting \<Rightarrow> controller \<Rightarrow> ctl_result" where
  "ctl_run xs c =
    (let hw = xs_regs xs;
         s = upd_reg hw (op_reg c ''USBCMD'') (put_member USBCMD_Bitmap ''run_stop'' 1) (ctl_io c);
         (_, s) = reg_read hw (op_reg c ''USBCMD'') s
     in do { s \<leftarrow> reg_wait hw (\<lambda>v. get_member USBSTS_Bitmap ''host_controller_halted'' v \<noteq> 0) (op_reg c ''USBSTS'') s;
             Some (kSuccess, set_io s c) })"

section \<open>The start of the driver\<close>

text \<open>The last controller of the list, unless there is one by Intel, which ends the search.\<close>

fun find_xhc :: "pci_conf \<Rightarrow> pci_device list \<Rightarrow> pci_device option \<Rightarrow> pci_device option" where
  "find_xhc conf [] found = found"
| "find_xhc conf (d # ds) found =
    (if pd_class d = \<lparr>cc_base = 0x0c, cc_sub = 0x03, cc_interface = 0x30\<rparr>
     then if read_vendor_id conf (pd_bus d) (pd_device d) (pd_function d) = 0x8086 then Some d
          else find_xhc conf ds (Some d)
     else find_xhc conf ds found)"

text \<open>Ports from \<open>i\<close> on, \<open>n\<close> of them. The connection is asked for once for the log and once more; an
  error of one port does not stop the others.\<close>

fun configure_ports :: "xhci_setting \<Rightarrow> nat \<Rightarrow> nat \<Rightarrow> controller \<Rightarrow> controller option" where
  "configure_ports xs i 0 c = Some c"
| "configure_ports xs i (Suc n) c =
    (let p = port_at c (of_nat i);
         (_, s) = is_connected (xs_regs xs) p (ctl_io c);
         (connected, s) = is_connected (xs_regs xs) p s;
         c = set_io s c
     in do { c \<leftarrow> (if connected then do { (_, c) \<leftarrow> configure_port xs p c; Some c } else Some c);
             configure_ports xs (Suc i) n c })"

text \<open>\<open>Inl\<close> is the exit code when there is no controller or it cannot be initialized. The local APIC's
  id register is an argument.\<close>

(*@ Kernel/usb/xhci/xhci.cpp:533-592 Initialize *)
definition usb_initialize ::
  "xhci_setting \<Rightarrow> pci_conf \<Rightarrow> pci_device list \<Rightarrow> u32 \<Rightarrow> usb_env \<Rightarrow> pci_writes \<Rightarrow>
    ((int + controller \<times> u64 list) \<times> pci_writes) option" where
  "usb_initialize xs conf devices lapic_id env ws =
    (case find_xhc conf devices None of
       None \<Rightarrow> Some (Inl 1, ws)
     | Some xhc_dev \<Rightarrow>
         do {
           (_, ws) \<leftarrow> configure_msi_fixed_destination conf xhc_dev (ucast (drop_bit 24 lapic_id))
             MSI_kLevel MSI_kFixed (of_nat interrupt_vector_xhci) 0 ws;
           mmio_base \<leftarrow> Some (fst (read_bar conf xhc_dev 0) AND NOT 0xf);
           c \<leftarrow> Some (new_controller (xs_regs xs) mmio_base env);
           ws \<leftarrow> Some (if read_vendor_id conf (pd_bus xhc_dev) (pd_device xhc_dev) (pd_function xhc_dev) = 0x8086
             then switch_ehci_to_xhci conf devices xhc_dev ws else ws);
           (err, c, bufs) \<leftarrow> ctl_initialize xs c;
           if is_error err then Some (Inl 1, ws)
           else do {
             (_, c) \<leftarrow> ctl_run xs c;
             c \<leftarrow> configure_ports xs 1 (unat (xc_max_ports c)) c;
             Some (Inr (c, bufs), ws) } })"

section \<open>The ports from the start on\<close>

lemma dm_initialize_ports [simp]:
  "ports (upd_env (ue_mem_update f) (c\<lparr>xc_devmgr := dm\<rparr>)) = ports c"
  by (simp add: ports_def)

lemma give_rings_ports: "ports (snd (give_rings xs c)) = ports c"
  by (simp add: give_rings_def Let_def ports_def set_io_def split: prod.split)

lemma ctl_initialize_ports:
  assumes "ctl_initialize xs c = Some (err, c', bufs)"
  shows "ports c' = ports c"
  using assms give_rings_ports [of xs]
  by (auto simp: ctl_initialize_def Let_def split_def bind_eq_Some_conv split: if_splits)

lemma ctl_run_ports: "ctl_run xs c = Some (err, c') \<Longrightarrow> ports c' = ports c"
  by (auto simp: ctl_run_def Let_def bind_eq_Some_conv split: prod.splits)

lemma port_at_set_io [simp]: "port_at (set_io s c) n = port_at c n"
  by (simp add: port_at_def set_io_def)

lemma configure_ports_steps:
  assumes "configure_ports xs i n c = Some c'" "0 < i" "i + n \<le> 256"
  shows "xhci_step\<^sup>*\<^sup>* c c'"
  using assms
proof (induction n arbitrary: i c)
  case (Suc n)
  let ?p = "port_at c (of_nat i)"
  obtain b1 s1 b2 s2 where r: "is_connected (xs_regs xs) ?p (ctl_io c) = (b1, s1)"
      "is_connected (xs_regs xs) ?p s1 = (b2, s2)" by fastforce
  let ?c1 = "set_io s2 c"
  obtain c2 where c2: "(if b2 then do { (_, c) \<leftarrow> configure_port xs ?p ?c1; Some c } else Some ?c1) = Some c2"
    and rest: "configure_ports xs (Suc i) n c2 = Some c'"
    using Suc.prems(1) r by (auto simp: Let_def bind_eq_Some_conv)
  have "i < 256" using Suc.prems(3) by simp
  then have "(of_nat i :: u8) \<noteq> 0" using Suc.prems(2) by (simp add: word_of_nat_eq_0_iff) (metis dvd_imp_le not_le)
  then have "xhci_step\<^sup>*\<^sup>* ?c1 c2"
    using c2 xhci_step.configure [of xs ?c1 "of_nat i"] by (auto simp: bind_eq_Some_conv split: if_splits)
  moreover have "xhci_step c ?c1" by (rule xhci_step.device) simp
  moreover have "xhci_step\<^sup>*\<^sup>* c2 c'" using Suc.IH [OF rest] Suc.prems(3) by simp
  ultimately show ?case by (meson converse_rtranclp_into_rtranclp rtranclp_trans)
qed simp

text \<open>What the start leaves behind is reached from the state of the ports at power-on by the steps
  of the protocol.\<close>

lemma usb_initialize_steps:
  assumes "usb_initialize xs conf devices lapic_id env ws = Some (Inr (c, bufs), ws')"
  shows "\<exists>c0. fresh_ports c0 \<and> xhci_step\<^sup>*\<^sup>* c0 c"
proof -
  obtain mmio_base c1 err c2 err' where
    init: "ctl_initialize xs (new_controller (xs_regs xs) mmio_base env) = Some (err, c1, bufs)"
    and run: "ctl_run xs c1 = Some (err', c2)"
    and conf: "configure_ports xs 1 (unat (xc_max_ports c2)) c2 = Some c"
    using assms by (auto simp: usb_initialize_def bind_eq_Some_conv split: option.splits if_splits)
  let ?c0 = "new_controller (xs_regs xs) mmio_base env"
  have fresh: "fresh_ports ?c0" by (simp add: fresh_ports_def new_controller_def Let_def split: prod.split)
  have "ports c2 = ports ?c0" using ctl_initialize_ports [OF init] ctl_run_ports [OF run] by simp
  then have "xhci_step ?c0 c2" by (rule xhci_step.device)
  moreover have "unat (xc_max_ports c2) < 256" using unsigned_less [of "xc_max_ports c2", where ?'a = nat] by simp
  then have "xhci_step\<^sup>*\<^sup>* c2 c" using configure_ports_steps [OF conf] by simp
  ultimately show ?thesis using fresh by (meson converse_rtranclp_into_rtranclp)
qed

text \<open>C18: From the start of the driver on, whatever events arrive in whatever order and whatever the
  device registers answer, at most one port is between the start of its reset and the addressing of
  its device, and that is the port \<open>addressing_port\<close> names; there is none exactly when
  \<open>addressing_port\<close> is 0. The events' port numbers are not 0, as xHCI numbers ports from 1.\<close>

theorem one_port_from_start:
  assumes "usb_initialize xs conf devices lapic_id env ws = Some (Inr (c, bufs), ws')"
    and "xhci_step\<^sup>*\<^sup>* c c'"
  shows "(busy (phase_of c' p) \<longleftrightarrow> p = xc_addressing c' \<and> xc_addressing c' \<noteq> 0)
       \<and> (busy (phase_of c' p) \<and> busy (phase_of c' q) \<longrightarrow> p = q)"
proof -
  obtain c0 where "fresh_ports c0" "xhci_step\<^sup>*\<^sup>* c0 c" using usb_initialize_steps [OF assms(1)] by blast
  then show ?thesis using one_port_at_a_time [of c0 c' p q] rtranclp_trans assms(2) by metis
qed

text \<open>A machine with one xHCI controller of one port, which something is connected to. The controller is
  halted unless the last command told it to run.\<close>

definition sample_registers :: device_regs where
  "sample_registers ws n a =
    (if a = 0xfe000000 then 0x20
     else if a = 0xfe000004 then 0x01000000
     else if a = 0xfe000024 then (if ws \<noteq> [] \<and> fst (last ws) = 0xfe000020 \<and> bit (snd (last ws)) 0 then 0 else 1)
     else if a = 0xfe000420 then 3
     else 0)"

definition sample_machine :: xhci_setting where
  "sample_machine =
    \<lparr>xs_regs = sample_registers, xs_layout = \<lparr>dl_size = 4096, dl_ctx = 0, dl_input = 1024, dl_buf = 2560\<rparr>,
     xs_usb = \<lparr>us_driver_buf = (\<lambda>_. 0), us_keyboard_observer = True, us_mouse_observer = True\<rparr>\<rparr>"

definition sample_bus :: "pci_device list" where
  "sample_bus = [\<lparr>pd_bus = 0, pd_device = 0, pd_function = 0, pd_header_type = 0,
    pd_class = \<lparr>cc_base = 0x0c, cc_sub = 0x03, cc_interface = 0x30\<rparr>\<rparr>]"

definition sample_space :: pci_conf where
  "sample_space a = (if a = 0x80000010 then 0xfe000000 else 0)"

definition sample_env :: usb_env where
  "sample_env =
    \<lparr>ue_mem = \<lparr>mem_pool = 0x100000, mem_ptr = 0x100000, mem_trb = (\<lambda>_. 0)\<rparr>, ue_bytes = (\<lambda>_. 0),
     ue_io = \<lparr>io_writes = [], io_reads = 0\<rparr>, ue_out = []\<rparr>"

declare find_legacy.simps [code] read_while.simps [code]

lemma sample_start:
  "(case usb_initialize sample_machine sample_space sample_bus 0 sample_env [] of
      Some (Inr (c, _), _) \<Rightarrow> phase_of c 1 = kResettingPort \<and> xc_addressing c = 1
    | _ \<Rightarrow> False)"
  by code_simp

theorem one_port_from_start_witness:
  "\<exists>c bufs ws'. usb_initialize sample_machine sample_space sample_bus 0 sample_env [] = Some (Inr (c, bufs), ws')
    \<and> busy (phase_of c 1) \<and> \<not> busy (phase_of c 2)"
proof -
  obtain c bufs ws' where run: "usb_initialize sample_machine sample_space sample_bus 0 sample_env [] = Some (Inr (c, bufs), ws')"
    and c: "phase_of c 1 = kResettingPort" "xc_addressing c = 1"
    using sample_start by (auto split: option.splits prod.splits sum.splits)
  have "busy (phase_of c 1)" by (simp add: c(1) busy_def)
  moreover have "\<not> busy (phase_of c 2)" using one_port_from_start [OF run, of c 2 2] c(2) by simp
  ultimately show ?thesis using run by blast
qed

section \<open>What the controller is given, and in which order\<close>

lemma upd_reg_writes [simp]: "io_writes (upd_reg hw a f s) = io_writes s @ [(a, f (hw (io_writes s) (io_reads s) a))]"
  by (simp add: upd_reg_def reg_read_def reg_write_def)

lemma reg_wait_writes: "reg_wait hw P a s = Some s' \<Longrightarrow> io_writes s' = io_writes s"
  by (auto simp: reg_wait_def dest: read_while_value)

lemma reg_read_writes: "reg_read hw a s = (v, s') \<Longrightarrow> io_writes s' = io_writes s"
  by (auto simp: reg_read_def)

lemma find_legacy_writes:
  assumes "find_legacy hw reg s = Some y"
  shows "io_writes (snd y) = io_writes s"
  using find_legacy.raw_induct [where P = "\<lambda>hw reg s y. io_writes (snd y) = io_writes s", OF _ assms]
  by (fastforce simp: reg_read_def ext_next_def split: if_splits)

lemma request_hc_ownership_writes:
  assumes "request_hc_ownership hw m h s = Some s'"
  shows "\<exists>ws. io_writes s' = io_writes s @ ws \<and> length ws \<le> 1"
  using assms
  by (auto simp: request_hc_ownership_def Let_def split_def bind_eq_Some_conv reg_read_def reg_write_def
      split: if_splits dest!: find_legacy_writes reg_wait_writes)

lemma halt_and_reset_writes:
  assumes "halt_and_reset hw usbcmd usbsts s = Some s'"
  shows "\<exists>a b. io_writes s' = io_writes s @ [(usbcmd, a), (usbcmd, b)]
    \<and> get_member USBCMD_Bitmap ''interrupter_enable'' a = 0
    \<and> get_member USBCMD_Bitmap ''host_controller_reset'' b = 1"
proof -
  have one: "get_member USBCMD_Bitmap ''host_controller_reset'' (put_member USBCMD_Bitmap ''host_controller_reset'' 1 v) = 1" for v :: u64
    by (subst get_put_member) (simp_all add: USBCMD_Bitmap_def member_width_def)
  have zero: "get_member USBCMD_Bitmap ''interrupter_enable'' (put_member USBCMD_Bitmap ''interrupter_enable'' 0 v) = 0" for v :: u64
    by (subst get_put_member) (simp_all add: USBCMD_Bitmap_def)
  show ?thesis
    using assms one
    by (auto simp: halt_and_reset_def Let_def split_def bind_eq_Some_conv reg_read_def reg_write_def zero
        split: if_splits dest!: reg_wait_writes)
qed

lemma Ceil_low_bits:
  assumes "k \<le> k'" "k' < 32"
  shows "take_bit k (Ceil v (2 ^ k')) = 0"
proof -
  have "(2::u32) ^ k' - 1 = mask k'" by (simp add: mask_eq_exp_minus_1)
  moreover have "(ucast (mask k' :: u32) :: u64) = mask k'"
    using assms(2) by (intro bit_eqI) (auto simp: bit_unsigned_iff bit_mask_iff)
  ultimately show ?thesis
    using assms(1) by (intro bit_eqI) (auto simp: Ceil_def bit_take_bit_iff bit_and_iff bit_not_iff bit_mask_iff)
qed

lemma usb_alloc_power_aligned:
  assumes "usb_alloc siz n (2 ^ a) (2 ^ b) m = (p, m')" "p \<noteq> 0" "a \<le> b" "b < 32" "k \<le> a"
  shows "take_bit k p = 0"
proof -
  have "(0::u32) < 2 ^ a" "(0::u32) < 2 ^ b"
    using assms(3,4) by (simp_all add: word_gt_0 flip: push_bit_of_1) (simp_all add: push_bit_of_1 exp_eq_0_imp_not_bit)
  then show ?thesis
    using assms Ceil_low_bits [of k a] Ceil_low_bits [of k b]
    by (auto simp: usb_alloc_def alloc_array_def alloc_mem_def Let_def split: if_splits)
qed

lemma ring_initialize_aligned:
  assumes "ring_initialize n r m = (kSuccess, r', m')"
  shows "take_bit 6 (ring_buf r') = 0 \<and> ring_buf r' \<noteq> 0"
  using assms usb_alloc_power_aligned [of 16 "of_nat n" 6 16 m _ _ 6]
  by (auto simp: ring_initialize_def Let_def split: prod.splits if_splits)

lemma event_ring_initialize_writes:
  assumes "event_ring_initialize hw n ir er m s = (kSuccess, er', m', s')"
  shows "\<exists>a b e. io_writes s' = io_writes s @
      [(reg_at ir InterrupterRegisterSet ''ERSTSZ'', a), (reg_at ir InterrupterRegisterSet ''ERDP'', b),
       (reg_at ir InterrupterRegisterSet ''ERSTBA'', e)]
    \<and> ERSTSZ_Size a = 1 \<and> ERDP_Pointer b = er_buf er' \<and> ERSTBA_Pointer e = er_erst er'
    \<and> er_interrupter er' = ir \<and> er_buf er' \<noteq> 0"
proof -
  obtain b m1 where b: "usb_alloc 16 (of_nat n) 64 (64 * 1024) m = (b, m1)" by fastforce
  obtain e m2 where e: "usb_alloc 16 1 64 (64 * 1024) (m1\<lparr>mem_trb := clear_trbs b n (mem_trb m1)\<rparr>) = (e, m2)" by fastforce
  have nz: "b \<noteq> 0" "e \<noteq> 0" using assms b e by (auto simp: event_ring_initialize_def Let_def split: if_splits prod.splits)
  have al: "take_bit 4 b = 0" "take_bit 6 e = 0"
    using usb_alloc_power_aligned [of 16 "of_nat n" 6 16 m b m1 4] usb_alloc_power_aligned [of 16 1 6 16 _ e m2 6] b e nz by simp_all
  have size: "ERSTSZ_Size (ERSTSZ_SetSize 1 v) = 1" for v
    unfolding ERSTSZ_Size_def ERSTSZ_SetSize_def
    by (subst get_put_member) (simp_all add: ERSTSZ_Bitmap_def member_width_def)
  have base: "ERSTBA_Pointer (ERSTBA_SetPointer e v) = e" for v
    unfolding ERSTBA_Pointer_def ERSTBA_SetPointer_def
    using al(2) pointer_stored [of 6 e 58]
    by (subst get_put_member) (simp_all add: ERSTBA_Bitmap_def member_width_def)
  show ?thesis
    using assms b e nz
    by (auto simp: event_ring_initialize_def Let_def reg_read_def reg_write_def write_dequeue_pointer_def
        erdp_reg_def trb_at_def size base ERDP_Pointer_SetPointer [OF al(1)])
qed

lemma register_command_ring_writes:
  assumes "take_bit 6 (ring_buf r) = 0"
  shows "\<exists>v. io_writes (snd (register_command_ring hw r crcr s)) = io_writes s @ [(crcr, v)]
    \<and> CRCR_Pointer v = ring_buf r \<and> get_member CRCR_Bitmap ''ring_cycle_state'' v = 1"
proof -
  let ?v = "\<lambda>x. CRCR_SetPointer (ring_buf r) (put_member CRCR_Bitmap ''command_abort'' 0
      (put_member CRCR_Bitmap ''command_stop'' 0 (put_member CRCR_Bitmap ''ring_cycle_state'' 1 x)))"
  have "CRCR_Pointer (?v x) = ring_buf r" for x
    unfolding CRCR_Pointer_def CRCR_SetPointer_def
    using assms pointer_stored [of 6 "ring_buf r" 58]
    by (subst get_put_member) (simp_all add: CRCR_Bitmap_def member_width_def)
  moreover have "get_member CRCR_Bitmap ''ring_cycle_state'' (?v x) = 1" for x
    by (simp add: CRCR_SetPointer_def) (subst get_put_member, simp_all add: CRCR_Bitmap_def member_width_def)
  ultimately show ?thesis by (simp add: register_command_ring_def)
qed

text \<open>The writes with which the controller gets its tables: what each of them tells it.\<close>

definition programming :: "controller \<Rightarrow> (u64 \<times> u64) list \<Rightarrow> bool" where
  "programming c ws \<longleftrightarrow> (\<exists>base size erdp erst crcr iman cmd.
     ws = [(op_reg c ''DCBAAP'', base), (op_reg c ''CRCR'', crcr),
           (reg_at (er_interrupter (xc_er c)) InterrupterRegisterSet ''ERSTSZ'', size),
           (reg_at (er_interrupter (xc_er c)) InterrupterRegisterSet ''ERDP'', erdp),
           (reg_at (er_interrupter (xc_er c)) InterrupterRegisterSet ''ERSTBA'', erst),
           (reg_at (er_interrupter (xc_er c)) InterrupterRegisterSet ''IMAN'', iman),
           (op_reg c ''USBCMD'', cmd)]
   \<and> base = DCBAAP_SetPointer (dm_contexts_addr (xc_devmgr c)) 0
   \<and> CRCR_Pointer crcr = ring_buf (xc_cr c) \<and> get_member CRCR_Bitmap ''ring_cycle_state'' crcr = 1
   \<and> ERSTSZ_Size size = 1 \<and> ERDP_Pointer erdp = er_buf (xc_er c) \<and> ERSTBA_Pointer erst = er_erst (xc_er c)
   \<and> get_member IMAN_Bitmap ''interrupt_enable'' iman = 1
   \<and> get_member USBCMD_Bitmap ''interrupter_enable'' cmd = 1)"

lemma give_rings_writes:
  assumes "give_rings xs c = (kSuccess, c')"
  shows "\<exists>ws. io_writes (ctl_io c') = io_writes (ctl_io c) @ ws \<and> programming c' ws
    \<and> xc_op c' = xc_op c"
proof -
  have iman: "get_member IMAN_Bitmap ''interrupt_enable'' (put_member IMAN_Bitmap ''interrupt_enable'' 1 v) = 1" for v :: u64
    by (subst get_put_member) (simp_all add: IMAN_Bitmap_def member_width_def)
  have cmd: "get_member USBCMD_Bitmap ''interrupter_enable'' (put_member USBCMD_Bitmap ''interrupter_enable'' 1 v) = 1" for v :: u64
    by (subst get_put_member) (simp_all add: USBCMD_Bitmap_def member_width_def)
  let ?hw = "xs_regs xs" and ?rts = "reg_at (xc_mmio c) CapabilityRegisters ''RTSOFF''"
  let ?base = "DCBAAP_SetPointer (dm_contexts_addr (xc_devmgr c)) 0"
  obtain v s1 where rr: "reg_read ?hw ?rts (reg_write (op_reg c ''DCBAAP'') ?base (ctl_io c)) = (v, s1)" by fastforce
  then have w1: "io_writes s1 = io_writes (ctl_io c) @ [(op_reg c ''DCBAAP'', ?base)]"
    by (auto simp: reg_read_def reg_write_def)
  let ?ir = "array_at (xc_mmio c + RTSOFF_Offset v + 0x20) InterrupterRegisterSet 0"
  obtain err cr m where ring: "ring_initialize 32 (xc_cr c) (ue_mem (xc_env c)) = (err, cr, m)" by (metis prod_cases3)
  obtain s2 where reg: "register_command_ring ?hw cr (op_reg c ''CRCR'') s1 = (kSuccess, s2)"
    by (simp add: register_command_ring_def)
  obtain err2 er m2 s3 where ev: "event_ring_initialize ?hw 32 ?ir (xc_er c) m s2 = (err2, er, m2, s3)" by (metis prod_cases4)
  have ok: "err = kSuccess"
    using assms ring rr reg ev by (auto simp: give_rings_def Let_def set_io_def is_error_def split: if_splits)
  have ok2: "err2 = kSuccess"
    using assms ring rr reg ev ok by (auto simp: give_rings_def Let_def set_io_def is_error_def split: if_splits)
  obtain crcr where crcr: "io_writes s2 = io_writes s1 @ [(op_reg c ''CRCR'', crcr)]"
      "CRCR_Pointer crcr = ring_buf cr" "get_member CRCR_Bitmap ''ring_cycle_state'' crcr = 1"
    using register_command_ring_writes [of cr ?hw "op_reg c ''CRCR''" s1] ring_initialize_aligned [of 32 "xc_cr c" _ cr m]
      ring reg ok by auto
  obtain size erdp erst where er: "io_writes s3 = io_writes s2 @
      [(reg_at ?ir InterrupterRegisterSet ''ERSTSZ'', size), (reg_at ?ir InterrupterRegisterSet ''ERDP'', erdp),
       (reg_at ?ir InterrupterRegisterSet ''ERSTBA'', erst)]"
    "ERSTSZ_Size size = 1" "ERDP_Pointer erdp = er_buf er" "ERSTBA_Pointer erst = er_erst er" "er_interrupter er = ?ir"
    using event_ring_initialize_writes [of ?hw 32 ?ir "xc_er c" m s2 er m2 s3] ev ok2 by blast
  have c': "xc_cr c' = cr" "xc_er c' = er" "xc_devmgr c' = xc_devmgr c" "xc_op c' = xc_op c"
    and w: "\<exists>i u. io_writes (ctl_io c') = io_writes s3 @ [(reg_at ?ir InterrupterRegisterSet ''IMAN'', i), (op_reg c ''USBCMD'', u)]
      \<and> get_member IMAN_Bitmap ''interrupt_enable'' i = 1 \<and> get_member USBCMD_Bitmap ''interrupter_enable'' u = 1"
    using assms ring rr reg ev ok ok2 by (auto simp: give_rings_def Let_def set_io_def ctl_io_def is_error_def iman cmd)
  show ?thesis using c' w w1 crcr er by (auto simp: programming_def)
qed

text \<open>The member for the address of the context table has only 26 bits.\<close>

lemma DCBAAP_Pointer_SetPointer:
  assumes "take_bit 6 p = 0"
  shows "DCBAAP_Pointer (DCBAAP_SetPointer p v) = take_bit 32 p"
proof -
  have "get_member DCBAAP_Bitmap ''device_context_base_address_array_pointer'' (DCBAAP_SetPointer p v) =
      take_bit 26 (drop_bit 6 p)"
    unfolding DCBAAP_SetPointer_def
    by (subst get_put_member) (simp_all add: DCBAAP_Bitmap_def member_width_def)
  moreover have "push_bit 6 (take_bit 26 (drop_bit 6 p)) = take_bit 32 p"
  proof (intro bit_eqI)
    fix n
    have "\<not> bit p n" if "n < 6" using arg_cong [OF assms, of "\<lambda>x. bit x n"] that by (simp add: bit_take_bit_iff)
    then show "bit (push_bit 6 (take_bit 26 (drop_bit 6 p))) n = bit (take_bit 32 p) n"
      by (cases "n < 6") (auto simp: bit_push_bit_iff bit_take_bit_iff bit_drop_bit_eq dest: bit_imp_le_length)
  qed
  ultimately show ?thesis by (simp add: DCBAAP_Pointer_def)
qed

lemma dm_initialize_aligned:
  assumes "dm_initialize n dm m = (kSuccess, dm', m')"
  shows "take_bit 6 (dm_contexts_addr dm') = 0"
  using assms usb_alloc_power_aligned [of 8 "of_nat (n + 1)" 6 12 _ _ _ 6]
  by (auto simp: dm_initialize_def Let_def split: prod.splits if_splits)

lemma alloc_scratchpad_addr:
  "alloc_scratchpad p dm m = Some (bufs, dm', m') \<Longrightarrow> dm_contexts_addr dm' = dm_contexts_addr dm"
  by (auto simp: alloc_scratchpad_def Let_def split: prod.splits if_splits)

lemma ctl_initialize_writes:
  assumes "ctl_initialize xs c = Some (kSuccess, c', bufs)"
  shows "\<exists>hand a b cfg ws. io_writes (ctl_io c') = io_writes (ctl_io c) @ hand @
      [(op_reg c ''USBCMD'', a), (op_reg c ''USBCMD'', b), (op_reg c ''CONFIG'', cfg)] @ ws
    \<and> length hand \<le> 1
    \<and> get_member USBCMD_Bitmap ''interrupter_enable'' a = 0
    \<and> get_member USBCMD_Bitmap ''host_controller_reset'' b = 1
    \<and> get_member CONFIG_Bitmap ''max_device_slots_enabled'' cfg = 8
    \<and> programming c' ws \<and> xc_op c' = xc_op c \<and> take_bit 6 (dm_contexts_addr (xc_devmgr c')) = 0"
proof -
  obtain err dm m where dm: "dm_initialize kDeviceSize (xc_devmgr c) (ue_mem (xc_env c)) = (err, dm, m)" by (metis prod_cases3)
  have ok: "err = kSuccess" using assms dm by (auto simp: ctl_initialize_def is_error_def Let_def split: if_splits)
  let ?hw = "xs_regs xs" and ?cmd = "op_reg c ''USBCMD''"
  let ?c = "upd_env (ue_mem_update (\<lambda>_. m)) (c\<lparr>xc_devmgr := dm\<rparr>)"
  let ?cfg = "put_member CONFIG_Bitmap ''max_device_slots_enabled'' 8"
  obtain hccp s0 s1 s2 v s3 v2 s4 dm2 m2 where
    s0: "reg_read ?hw (reg_at (xc_mmio c) CapabilityRegisters ''HCCPARAMS1'') (ctl_io c) = (hccp, s0)"
    and s1: "request_hc_ownership ?hw (xc_mmio c) hccp s0 = Some s1"
    and s2: "halt_and_reset ?hw ?cmd (op_reg c ''USBSTS'') s1 = Some s2"
    and s3: "reg_read ?hw (reg_at (xc_mmio c) CapabilityRegisters ''HCSPARAMS1'') s2 = (v, s3)"
    and s4: "reg_read ?hw (reg_at (xc_mmio c) CapabilityRegisters ''HCSPARAMS2'') (upd_reg ?hw (op_reg c ''CONFIG'') ?cfg s3) = (v2, s4)"
    and sp: "alloc_scratchpad v2 dm m = Some (bufs, dm2, m2)"
    and rings: "give_rings xs (set_io s4 (upd_env (ue_mem_update (\<lambda>_. m2)) (?c\<lparr>xc_devmgr := dm2\<rparr>))) = (kSuccess, c')"
    using assms dm ok
    by (auto simp: ctl_initialize_def Let_def split_def bind_eq_Some_conv is_error_def ctl_io_def kDeviceSize_def)
      (metis prod.collapse)
  obtain hand where hand: "io_writes s1 = io_writes s0 @ hand" "length hand \<le> 1"
    using request_hc_ownership_writes [OF s1] by blast
  obtain a b where ab: "io_writes s2 = io_writes s1 @ [(?cmd, a), (?cmd, b)]"
      "get_member USBCMD_Bitmap ''interrupter_enable'' a = 0" "get_member USBCMD_Bitmap ''host_controller_reset'' b = 1"
    using halt_and_reset_writes [OF s2] by blast
  have cfg: "get_member CONFIG_Bitmap ''max_device_slots_enabled'' (?cfg x) = 8" for x :: u64
    by (subst get_put_member) (simp_all add: CONFIG_Bitmap_def member_width_def take_bit_eq_mod)
  obtain ws where ws: "io_writes (ctl_io c') = io_writes s4 @ ws" "programming c' ws" "xc_op c' = xc_op c"
    using give_rings_writes [OF rings] by (auto simp: set_io_def ctl_io_def)
  have "dm_contexts_addr (xc_devmgr c') = dm_contexts_addr dm"
    using rings alloc_scratchpad_addr [OF sp]
    by (auto simp: give_rings_def Let_def set_io_def split: prod.splits if_splits)
  then have "take_bit 6 (dm_contexts_addr (xc_devmgr c')) = 0" using dm_initialize_aligned dm ok by metis
  then show ?thesis
    using ws hand ab cfg reg_read_writes [OF s0] reg_read_writes [OF s3] reg_read_writes [OF s4] by force
qed


lemma sample_programming:
  "case ctl_initialize sample_machine (new_controller sample_registers 0xfe000000 sample_env) of
     Some (err, c, _) \<Rightarrow> err = kSuccess \<and> ctl_run sample_machine c \<noteq> None \<and> io_writes (ctl_io c) \<noteq> []
   | None \<Rightarrow> False"
  by code_simp


end
