(* ===== verification/Desktop.thy ===== *)
theory Desktop imports Console Mouse Shell begin

text \<open>
  How the screen is set up: \<^verbatim>\<open>InitializeGraphics\<close> (\<^verbatim>\<open>Kernel/graphics.cpp\<close>), \<^verbatim>\<open>InitializeFont\<close>
  (\<^verbatim>\<open>font.cpp\<close>), \<^verbatim>\<open>InitializeLayer\<close> (\<^verbatim>\<open>layer.cpp\<close>), the two windows of \<^verbatim>\<open>main.cpp\<close> with the text box,
  and \<^verbatim>\<open>InitializeMouse\<close> (\<^verbatim>\<open>mouse.cpp\<close>). \<open>Inl\<close> is the exit code of a kernel that gives up. That
  these steps succeed, and how the layers lie then, is in the theory \<open>Desktop_Facts\<close>.
\<close>

section \<open>The screen and the fonts\<close>

(*@ Kernel/graphics.cpp:67-72 ScreenSize *)
definition config_size :: "frame_buffer_config \<Rightarrow> vec2" where
  "config_size config = Vec (sint (horizontal_resolution config)) (sint (vertical_resolution config))"

text \<open>The writer draws into the memory of the screen, which the layer manager gets later.\<close>

(*@ Kernel/graphics.cpp:78-95 InitializeGraphics *)
definition initialize_graphics :: "mem \<Rightarrow> frame_buffer_config \<Rightarrow> int + frame_buffer" where
  "initialize_graphics device config =
    (let screen = \<lparr>fb_config = config, fb_mem = device\<rparr>
     in if pixel_format config = kPixelUnknown then Inl 1
        else Inr (fold write_pixel (draw_desktop (vx (config_size config)) (vy (config_size config))) screen))"

text \<open>The bytes of the font file; FreeType's own set-up does not fail here.\<close>

(*@ Kernel/font.cpp:170-186 InitializeFont *)
definition initialize_font :: "volume \<Rightarrow> (int + bytes) option" where
  "initialize_font v = do {
     (entry, post_slash) \<leftarrow> find_file v (bytes_of ''/nihongo.ttf'') 0;
     case entry of
       None \<Rightarrow> Some (Inl 1)
     | Some r \<Rightarrow>
         if post_slash then Some (Inl 1)
         else do {
           e \<leftarrow> get_entry v r;
           bs \<leftarrow> load_file v (file_size e) e;
           Some (if length bs \<noteq> file_size e then Inl 1 else Inr bs) } }"

section \<open>Layers\<close>

text \<open>\<^verbatim>\<open>NewLayer().SetWindow(w)\<close> and what follows, as a change of the new layer.\<close>

definition make_layer :: "(layer \<Rightarrow> layer) \<Rightarrow> layer_manager \<Rightarrow> nat \<times> layer_manager" where
  "make_layer f lm = (case new_layer lm of (i, lm) \<Rightarrow> (i, update_layer i f lm))"

definition empty_manager :: "frame_buffer \<Rightarrow> layer_manager \<Rightarrow> layer_manager" where
  "empty_manager scr lm = set_writer scr (lm\<lparr>layers := [], layer_stack := [], latest_layer_id := 0\<rparr>)"

(*@ Kernel/layer.cpp:257-294 InitializeLayer *)
definition initialize_layer :: "fonts \<Rightarrow> console \<Rightarrow> kernel \<Rightarrow> (int + console \<times> kernel) option" where
  "initialize_layer fonts con k =
    (let config = fb_config (screen_fb (manager (kn_gui k)));
         screen_size = config_size config;
         bgwindow = win_draw (draw_desktop (vx screen_size) (vy screen_size))
           (new_window (vx screen_size) (vy screen_size) (pixel_format config));
         (bg, k) = new_window_object bgwindow k;
         (cw, k) = new_window_object (new_window (int console_columns * 8) (int console_rows * 16) (pixel_format config)) k
     in do {
       (con, lm) \<leftarrow> con_set_window fonts cw con (manager (kn_gui k));
       (case fb_initialize (fb_mem (screen_fb lm)) config of (err, scr) \<Rightarrow>
          if is_error err then Some (Inl 1)
          else do {
            lm \<leftarrow> Some (empty_manager scr lm);
            (bglayer_id, lm) \<leftarrow> Some (make_layer (\<lambda>l. layer_move_to (Vec 0 0) (set_window bg l)) lm);
            (console_id, lm) \<leftarrow> Some (make_layer (\<lambda>l. layer_move_to (Vec 0 0) (set_window cw l)) lm);
            con \<leftarrow> Some (con_set_layer_id console_id con);
            lm \<leftarrow> up_down bglayer_id 0 lm;
            lm \<leftarrow> up_down console_id 1 lm;
            Some (Inr (con, k\<lparr>kn_gui := (kn_gui k)\<lparr>manager := lm, active_layer := 0, mouse_layer := 0,
              layer_task_map := Map.empty\<rparr>\<rparr>)) }) })"

definition int_max :: int where "int_max = 2 ^ 31 - 1"

text \<open>A new toplevel window on a draggable layer at the top.\<close>

definition top_window :: "window \<Rightarrow> vec2 \<Rightarrow> kernel \<Rightarrow> (nat \<times> nat \<times> kernel) option" where
  "top_window win pos k = do {
     (h, k) \<leftarrow> Some (new_window_object win k);
     (i, lm) \<leftarrow> Some (make_layer (\<lambda>l. layer_move_to pos (set_draggable True (set_window h l))) (manager (kn_gui k)));
     lm \<leftarrow> up_down i int_max lm;
     Some (h, i, set_manager lm k) }"

(*@ Kernel/main.cpp:61-72 InitializeMainWindow *)
definition initialize_main_window :: "fonts \<Rightarrow> kernel \<Rightarrow> (nat \<times> nat \<times> kernel) option" where
  "initialize_main_window fonts k = do {
     win \<leftarrow> new_toplevel_window fonts 160 52 (screen_format k) (bytes_of ''Hello Window'');
     top_window win (Vec 50 100) k }"

(*@ Kernel/main.cpp:76-90 InitializeTextWindow *)
definition initialize_text_window :: "fonts \<Rightarrow> kernel \<Rightarrow> (nat \<times> nat \<times> kernel) option" where
  "initialize_text_window fonts k = do {
     win \<leftarrow> new_toplevel_window fonts 160 52 (screen_format k) (bytes_of ''Text Box Test'');
     top_window (win_draw (inner_area (draw_textbox (Vec 0 0) (inner_size win))) win) (Vec 400 100) k }"

text \<open>The pointer moves to its place before its layer is on the stack.\<close>

(*@ Kernel/mouse.cpp:184-205 InitializeMouse *)
definition initialize_mouse :: "kernel \<Rightarrow> (mouse \<times> kernel) option" where
  "initialize_mouse k =
    (let win = win_draw (draw_mouse_cursor (Vec 0 0))
           ((new_window 15 24 (screen_format k))\<lparr>transparent_color := Some mouse_transparent_color\<rparr>);
         (h, k) = new_window_object win k;
         (i, lm) = make_layer (set_window h) (manager (kn_gui k));
         m = \<lparr>mouse_layer_id = i, position = Vec 0 0, drag_layer_id = 0, previous_buttons = 0\<rparr>
     in do {
       (m, g) \<leftarrow> set_position (Vec 200 200) (m, (kn_gui k)\<lparr>manager := lm\<rparr>);
       lm \<leftarrow> up_down i int_max (manager g);
       Some (m, k\<lparr>kn_gui := g\<lparr>manager := lm, mouse_layer := i\<rparr>\<rparr>) })"

section \<open>The text box\<close>

record text_box =
  tb_window :: nat
  tb_layer :: nat
  tb_index :: int

definition on_window :: "nat \<Rightarrow> drawing \<Rightarrow> kernel \<Rightarrow> kernel" where
  "on_window h ds k =
    (let lm = manager (kn_gui k)
     in set_manager (lm\<lparr>windows := (windows lm)(h := win_draw (inner_area ds) (windows lm h))\<rparr>) k)"

(*@ Kernel/main.cpp:93-97 DrawTextCursor *)
definition draw_text_cursor :: "bool \<Rightarrow> text_box \<Rightarrow> kernel \<Rightarrow> kernel" where
  "draw_text_cursor visible tb k =
    (let color = (if visible then to_color 0 else to_color 0xffffff)
     in on_window (tb_window tb) (fill_rectangle (Vec (4 + 8 * tb_index tb) 5) (Vec 1 15) color) k)"

definition text_pos :: "text_box \<Rightarrow> vec2" where
  "text_pos tb = Vec (4 + 8 * tb_index tb) 6"

text \<open>\<^verbatim>\<open>char\<close> is signed, so only ASCII characters are at least a space.\<close>

(*@ Kernel/main.cpp:99-120 InputTextWindow *)
definition input_text_window :: "fonts \<Rightarrow> u8 \<Rightarrow> text_box \<Rightarrow> kernel \<Rightarrow> (text_box \<times> kernel) option" where
  "input_text_window fonts c tb k =
    (if c = 0 then Some (tb, k)
     else
       let max_chars = (vx (inner_size (windows (manager (kn_gui k)) (tb_window tb))) - 8) div 8 - 1;
           (tb, k) =
             (if c = 8 \<and> 0 < tb_index tb then
                let k = draw_text_cursor False tb k;
                    tb = tb\<lparr>tb_index := tb_index tb - 1\<rparr>;
                    k = on_window (tb_window tb) (fill_rectangle (text_pos tb) (Vec 8 16) (to_color 0xffffff)) k
                in (tb, draw_text_cursor True tb k)
              else if 0x20 \<le> sint c \<and> tb_index tb < max_chars then
                let k = draw_text_cursor False tb k;
                    k = on_window (tb_window tb) (write_ascii (fst fonts) (text_pos tb) c (to_color 0)) k;
                    tb = tb\<lparr>tb_index := tb_index tb + 1\<rparr>
                in (tb, draw_text_cursor True tb k)
              else (tb, k))
       in do { lm \<leftarrow> draw_layer (tb_layer tb) (manager (kn_gui k)); Some (tb, set_manager lm k) })"

end
