(* ===== verification/Main_Loop.thy ===== *)
theory Main_Loop imports Desktop Keyboard Xhci_Start begin

text \<open>
  The main loop of the kernel (\<^verbatim>\<open>Kernel/main.cpp\<close>), which is task 1: it draws the tick, takes a message
  and hands it on. Interrupts of the USB controller become events of the keyboard and the mouse, a key goes
  to the text box or to the task of the active layer, and layer operations are carried out for the
  tasks that asked. \<open>None\<close> is a run the code does not survive.

  The second part shows that the cursor of the text box never stops blinking, and what becomes
  of a key and of a layer operation.
\<close>

section \<open>The state\<close>

record main_env =
  me_shell :: shell_env
  me_xhci :: xhci_setting
  me_events :: nat

text \<open>The static variables of \<^verbatim>\<open>main.cpp\<close> and what the calls of the loop reach: the console, the mouse and the
  controller.\<close>

record main_state =
  ms_console :: console
  ms_mouse :: mouse
  ms_xhc :: controller
  ms_main_window :: nat
  ms_main_layer :: nat
  ms_text :: text_box
  ms_cursor_visible :: bool

abbreviation me_fonts :: "main_env \<Rightarrow> fonts" where
  "me_fonts env \<equiv> ev_fonts (me_shell env)"

text \<open>\<^verbatim>\<open>vsprintf\<close> writes into a buffer of 1024 bytes; \<open>ready\<close> says whether the layer manager exists.\<close>

(*@ Kernel/main.cpp:45-56 printk *)
definition printk :: "fonts \<Rightarrow> bool \<Rightarrow> bytes \<Rightarrow> console \<Rightarrow> kernel \<Rightarrow> (console \<times> kernel) option" where
  "printk fonts ready s con k =
    (if length s < 1024 then do {
       (con, lm) \<leftarrow> con_put_string fonts ready s con (manager (kn_gui k));
       Some (con, set_manager lm k) }
     else None)"

(*@ Kernel/logger.hpp:3-8 LogLevel *)
datatype log_level = kError | kWarn | kInfo | kDebug

fun log_number :: "log_level \<Rightarrow> nat" where
  "log_number kError = 3" | "log_number kWarn = 4" | "log_number kInfo = 6" | "log_number kDebug = 7"

text \<open>The first level is the one that \<^verbatim>\<open>SetLogLevel\<close> has set.\<close>

(*@ Kernel/logger.cpp:18-33 Log *)
definition kernel_log :: "log_level \<Rightarrow> fonts \<Rightarrow> log_level \<Rightarrow> bytes \<Rightarrow> console \<Rightarrow> kernel \<Rightarrow> (console \<times> kernel) option" where
  "kernel_log limit fonts level s con k =
    (if log_number limit < log_number level then Some (con, k) else printk fonts True s con k)"

text \<open>\<^verbatim>\<open>%010lu\<close>\<close>

definition fmt_tick :: "nat \<Rightarrow> bytes" where
  "fmt_tick n = (let s = fmt_nat n in replicate (10 - length s) 48 @ s)"

section \<open>The devices\<close>

text \<open>What the drivers tell their observers. Neither observer looks at the controller, so they are called
  here after the events of the ring instead of in between.\<close>

fun observe :: "fonts \<Rightarrow> hid_event list \<Rightarrow> mouse \<Rightarrow> gui \<Rightarrow> (mouse \<times> gui) option" where
  "observe fonts [] m g = Some (m, g)"
| "observe fonts (Key_Push modifier keycode press # es) m g =
    observe fonts es m (g\<lparr>gui_tasks := keyboard_observer modifier keycode press (gui_tasks g)\<rparr>)"
| "observe fonts (Mouse_Move buttons dx dy # es) m g = do {
    (m, g) \<leftarrow> on_interrupt fonts buttons dx dy (m, g);
    observe fonts es m g }"

(*@ Kernel/main.cpp:206-208 KernelMainNewStack *)
definition main_xhci :: "main_env \<Rightarrow> main_state \<Rightarrow> kernel \<Rightarrow> (main_state \<times> kernel) option" where
  "main_xhci env s k = do {
     c \<leftarrow> process_events (me_events env) (me_xhci env) (ms_xhc s);
     (m, g) \<leftarrow> observe (me_fonts env) (ue_out (xc_env c)) (ms_mouse s) (kn_gui k);
     Some (s\<lparr>ms_xhc := upd_env (ue_out_update (\<lambda>_. [])) c, ms_mouse := m\<rparr>, k\<lparr>kn_gui := g\<rparr>) }"

section \<open>Messages\<close>

(*@ Kernel/main.cpp:156-157 KernelMainNewStack *)
definition kTextboxCursorTimer :: int where "kTextboxCursorTimer = 1"

definition kTimer05Sec :: nat where "kTimer05Sec = 50"

definition cursor_timer :: "nat \<Rightarrow> timer" where
  "cursor_timer t = \<lparr>timeout = t + kTimer05Sec, timer_val = kTextboxCursorTimer, timer_task = 1\<rparr>"

definition draw_on_layer :: "nat \<Rightarrow> kernel \<Rightarrow> kernel option" where
  "draw_on_layer i k = do { lm \<leftarrow> draw_layer i (manager (kn_gui k)); Some (set_manager lm k) }"

(*@ Kernel/main.cpp:209-219 KernelMainNewStack *)
definition main_timer :: "nat \<Rightarrow> int \<Rightarrow> main_state \<Rightarrow> kernel \<Rightarrow> (main_state \<times> kernel) option" where
  "main_timer t v s k =
    (if v = kTextboxCursorTimer then
       let k = k\<lparr>kn_timers := add_timer (cursor_timer t) (kn_timers k)\<rparr>;
           s = s\<lparr>ms_cursor_visible := \<not> ms_cursor_visible s\<rparr>;
           k = draw_text_cursor (ms_cursor_visible s) (ms_text s) k
       in do { k \<leftarrow> draw_on_layer (tb_layer (ms_text s)) k; Some (s, k) }
     else Some (s, k))"

text \<open>A new task for a terminal, without a descriptor.\<close>

(*@ Kernel/main.cpp:227-229 KernelMainNewStack *)
definition new_terminal_task :: "shell_env \<Rightarrow> kernel \<Rightarrow> kernel" where
  "new_terminal_task env k =
    (case new_task (kn_tasks k) of (tid, tm) \<Rightarrow>
       let tm = update_task tid (init_context (ev_stack_end env tid) (ev_cr3 env) (ev_task_terminal env) 0) tm
       in set_tasks (wakeup_task tid (- 1) tm) k)"

text \<open>\<^verbatim>\<open>%02x\<close> of a \<^verbatim>\<open>char\<close> that is signed.\<close>

definition not_handled :: "u8 \<Rightarrow> u8 \<Rightarrow> bytes" where
  "not_handled keycode ascii =
    bytes_of ''key push not handled: keycode '' @ fmt_hex 2 (unat keycode) @ bytes_of '', ascii ''
      @ fmt_hex 2 (unat (scast ascii :: u32)) @ [10]"

(*@ Kernel/main.cpp:220-244 KernelMainNewStack *)
definition main_key :: "main_env \<Rightarrow> message \<Rightarrow> u8 \<Rightarrow> u8 \<Rightarrow> bool \<Rightarrow> main_state \<Rightarrow> kernel \<Rightarrow> (main_state \<times> kernel) option" where
  "main_key env msg keycode ascii press s k =
    (let act = active_layer (kn_gui k)
     in if act = tb_layer (ms_text s) then
          if press then do {
            (tb, k) \<leftarrow> input_text_window (me_fonts env) ascii (ms_text s) k;
            Some (s\<lparr>ms_text := tb\<rparr>, k) }
          else Some (s, k)
        else if press \<and> keycode = 59 then Some (s, new_terminal_task (me_shell env) k)
        else case layer_task_map (kn_gui k) act of
          Some tid \<Rightarrow> Some (s, set_tasks (snd (send_message tid msg (kn_tasks k))) k)
        | None \<Rightarrow> do {
            (con, k) \<leftarrow> printk (me_fonts env) True (not_handled keycode ascii) (ms_console s) k;
            Some (s\<lparr>ms_console := con\<rparr>, k) })"

(*@ Kernel/main.cpp:245-250 KernelMainNewStack *)
definition main_layer :: "message \<Rightarrow> kernel \<Rightarrow> kernel option" where
  "main_layer msg k = do {
     lm \<leftarrow> process_layer_message msg (manager (kn_gui k));
     let k = set_manager lm k;
     Some (set_tasks (snd (send_message (msg_src_task msg) (plain_message kLayerFinish) (kn_tasks k))) k) }"

text \<open>The values of \<^verbatim>\<open>Message::Type\<close>. A message for the loop of another task is only reported.\<close>

fun type_number :: "message_type \<Rightarrow> nat" where
  "type_number kInterruptXHCI = 0" | "type_number kTimerTimeout = 1" | "type_number kKeyPush = 2"
| "type_number kLayer = 3" | "type_number kLayerFinish = 4" | "type_number kMouseMove = 5"
| "type_number kMouseButton = 6" | "type_number kWindowActive = 7" | "type_number kPipe = 8"
| "type_number kWindowClose = 9"

definition main_unknown :: "main_env \<Rightarrow> message \<Rightarrow> main_state \<Rightarrow> kernel \<Rightarrow> (main_state \<times> kernel) option" where
  "main_unknown env msg s k = do {
     (con, k) \<leftarrow> kernel_log kWarn (me_fonts env) kError
       (bytes_of ''Unknown message type: '' @ fmt_nat (type_number (msg_type msg)) @ [10]) (ms_console s) k;
     Some (s\<lparr>ms_console := con\<rparr>, k) }"

(*@ Kernel/main.cpp:205-253 KernelMainNewStack *)
definition main_message :: "main_env \<Rightarrow> message \<Rightarrow> main_state \<Rightarrow> kernel \<Rightarrow> (main_state \<times> kernel) option" where
  "main_message env msg s k =
    (case (msg_type msg, msg_arg msg) of
       (kInterruptXHCI, _) \<Rightarrow> main_xhci env s k
     | (kTimerTimeout, Timer_Arg t v) \<Rightarrow> main_timer t v s k
     | (kKeyPush, Keyboard_Arg modifier keycode ascii press) \<Rightarrow> main_key env msg keycode ascii press s k
     | (kTimerTimeout, _) \<Rightarrow> Some (s, k)
     | (kKeyPush, _) \<Rightarrow> Some (s, k)
     | (kLayer, _) \<Rightarrow> map_option (Pair s) (main_layer msg k)
     | _ \<Rightarrow> main_unknown env msg s k)"

section \<open>A round\<close>

(*@ Kernel/main.cpp:180-187 KernelMainNewStack *)
definition draw_tick :: "fonts \<Rightarrow> main_state \<Rightarrow> kernel \<Rightarrow> kernel option" where
  "draw_tick fonts s k = do {
     let k1 = on_window (ms_main_window s) (fill_rectangle (Vec 20 4) (Vec (8 * 10) 16) (to_color 0xc6c6c6)) k;
     ds \<leftarrow> write_string (fst fonts) (snd fonts) (Vec 20 4) (fmt_tick (tick (kn_timers k))) (to_color 0);
     draw_on_layer (ms_main_layer s) (on_window (ms_main_window s) ds k1) }"

(*@ Kernel/main.cpp:178-254 KernelMainNewStack *)
definition main_round :: "main_env \<Rightarrow> main_state \<Rightarrow> kernel \<Rightarrow> main_state outcome option" where
  "main_round env s k = do {
     k \<leftarrow> draw_tick (me_fonts env) s k;
     t \<leftarrow> find_task (kn_tasks k) 1;
     (case receive_message t of
        (None, _) \<Rightarrow> Some (go_to_sleep 1 k)
      | (Some msg, t') \<Rightarrow> do {
          (s, k) \<leftarrow> main_message env msg s (set_tasks (update_task 1 (\<lambda>_. t') (kn_tasks k)) k);
          Some (Done s k) }) }"

section \<open>The timeouts that are under way\<close>

text \<open>The timeouts of the cursor's timers that are running, and those in messages the task has not
  taken yet.\<close>

definition is_cursor_timer :: "timer \<Rightarrow> bool" where
  "is_cursor_timer t \<longleftrightarrow> timer_val t = kTextboxCursorTimer \<and> timer_task t = 1"

definition running_cursor :: "timer list \<Rightarrow> nat multiset" where
  "running_cursor q = {#timeout t. t \<in># filter_mset is_cursor_timer (mset q)#}"

definition cursor_time :: "message \<Rightarrow> nat option" where
  "cursor_time m =
    (case (msg_type m, msg_arg m) of
       (kTimerTimeout, Timer_Arg t v) \<Rightarrow> if v = kTextboxCursorTimer then Some t else None
     | _ \<Rightarrow> None)"

definition sent_cursor :: "task_manager \<Rightarrow> nat multiset" where
  "sent_cursor tm = mset (List.map_filter cursor_time (case inbox tm 1 of Some ms \<Rightarrow> ms | None \<Rightarrow> []))"

definition main_lives :: "task_manager \<Rightarrow> bool" where
  "main_lives tm \<longleftrightarrow> inbox tm 1 \<noteq> None"

lemma map_filter_append: "List.map_filter f (xs @ ys) = List.map_filter f xs @ List.map_filter f ys"
  by (simp add: List.map_filter_def)

text \<open>What the other messages do to the main task's queue.\<close>

definition calm :: "task_manager \<Rightarrow> task_manager \<Rightarrow> bool" where
  "calm tm tm' \<longleftrightarrow> (main_lives tm' \<longleftrightarrow> main_lives tm) \<and> sent_cursor tm' = sent_cursor tm"

lemma calm_refl [simp, intro]: "calm tm tm"
  by (simp add: calm_def)

lemma calm_trans [trans]: "calm a b \<Longrightarrow> calm b c \<Longrightarrow> calm a c"
  by (simp add: calm_def)

lemma calm_inbox: "inbox tm' 1 = inbox tm 1 \<Longrightarrow> calm tm tm'"
  by (simp add: calm_def sent_cursor_def main_lives_def)

lemma send_cursor:
  assumes "main_lives tm"
  shows "main_lives (snd (send_message i m tm))"
    "sent_cursor (snd (send_message i m tm)) =
      sent_cursor tm + (if i = 1 then mset (List.map_filter cursor_time [m]) else {#})"
  using assms by (auto simp: main_lives_def sent_cursor_def inbox_send map_filter_append)

lemma cursor_time_other [simp]: "msg_type m \<noteq> kTimerTimeout \<Longrightarrow> cursor_time m = None"
  by (simp add: cursor_time_def split: message_type.split)

lemma calm_send: "msg_type m \<noteq> kTimerTimeout \<Longrightarrow> calm tm (snd (send_message i m tm))"
  by (auto simp: calm_def main_lives_def sent_cursor_def inbox_send map_filter_append map_filter_simps split: option.split)

lemma calm_send_list:
  assumes "\<forall>m \<in> set ms. msg_type m \<noteq> kTimerTimeout"
  shows "calm (gui_tasks g) (gui_tasks (send_list tid ms g))"
proof -
  have "calm tm (fold (\<lambda>m tm. snd (send_message tid m tm)) ms tm)" for tm
    using assms
  proof (induction ms arbitrary: tm)
    case (Cons m ms)
    then have "calm tm (snd (send_message tid m tm))" by (simp add: calm_send)
    also have "calm \<dots> (fold (\<lambda>m tm. snd (send_message tid m tm)) ms \<dots>)" using Cons by simp
    finally show ?case by simp
  qed simp
  then show ?thesis by (simp add: send_list_def)
qed

section \<open>What the devices send\<close>

lemma send_window_active_calm:
  "gui_tasks g = tm \<Longrightarrow> calm tm (gui_tasks (snd (send_window_active_message i a g)))"
  by (auto simp: send_window_active_message_def split_def Let_def plain_message_def intro!: calm_send split: option.split)

lemma activate_calm:
  assumes "activate fonts i g = Some g'"
  shows "calm (gui_tasks g) (gui_tasks g')"
proof (cases "active_layer g = i")
  case False
  obtain g1 where g1: "(if 0 < active_layer g then do {
            lm \<leftarrow> set_layer_active fonts False (active_layer g) (manager g);
            lm \<leftarrow> draw_layer (active_layer g) lm;
            Some (snd (send_window_active_message (active_layer g) 0 (g\<lparr>manager := lm\<rparr>))) }
          else Some g) = Some g1"
    and rest: "(let g2 = g1\<lparr>active_layer := i\<rparr> in
       if 0 < i then do {
         lm \<leftarrow> set_layer_active fonts True i (manager g2);
         lm \<leftarrow> up_down i 0 lm;
         lm \<leftarrow> up_down i (get_height (mouse_layer g2) lm - 1) lm;
         lm \<leftarrow> draw_layer i lm;
         Some (snd (send_window_active_message i 1 (g2\<lparr>manager := lm\<rparr>))) }
       else Some g2) = Some g'"
    using assms False unfolding activate_def by (simp only: if_False bind_eq_Some_conv) blast
  have "calm (gui_tasks g) (gui_tasks g1)"
    using g1 by (auto simp: bind_eq_Some_conv send_window_active_calm split: if_splits)
  also have "calm (gui_tasks g1) (gui_tasks g')"
    using rest by (auto simp: Let_def bind_eq_Some_conv send_window_active_calm split: if_splits)
  finally show ?thesis .
qed (use assms in \<open>simp add: activate_def\<close>)

lemma mouse_messages_type: "m \<in> set (mouse_messages r d b p) \<Longrightarrow> msg_type m \<noteq> kTimerTimeout"
  by (auto simp: mouse_messages_def mouse_move_message_def mouse_button_message_def plain_message_def split: if_splits)

lemma send_mouse_message_calm:
  "send_mouse_message p d b pr g = Some g' \<Longrightarrow> calm (gui_tasks g) (gui_tasks g')"
  by (auto simp: send_mouse_message_def bind_eq_Some_conv mouse_messages_type intro!: calm_send_list
      split: if_splits option.splits)

lemma send_close_message_calm: "calm (gui_tasks g) (gui_tasks (send_close_message g))"
  by (auto simp: send_close_message_def plain_message_def intro!: calm_send_list split: prod.split option.split)

lemma mouse_press_calm:
  assumes "mouse_press fonts m g = Some (drag, close, g')"
  shows "calm (gui_tasks g) (gui_tasks g')"
  using assms
  by (auto simp: mouse_press_def Let_def bind_eq_Some_conv split: option.splits if_splits intro: activate_calm)

lemma on_interrupt_calm:
  assumes "on_interrupt fonts b dx dy (m, g) = Some (m', g')"
  shows "calm (gui_tasks g) (gui_tasks g')"
proof -
  let ?was = "bit (previous_buttons m) 0" and ?left = "bit b 0"
  obtain lm m1 posdiff drag close g2 newpos where
    press: "(if \<not> ?was \<and> ?left then mouse_press fonts m1 (g\<lparr>manager := lm\<rparr>)
          else if ?was \<and> ?left then
            (if 0 < drag_layer_id m then do {
               lm' \<leftarrow> lm_move_relative (drag_layer_id m) posdiff lm;
               Some (drag_layer_id m, 0, g\<lparr>manager := lm, manager := lm'\<rparr>) }
             else Some (drag_layer_id m, 0, g\<lparr>manager := lm\<rparr>))
          else if ?was then Some (0, 0, g\<lparr>manager := lm\<rparr>)
          else Some (drag_layer_id m, 0, g\<lparr>manager := lm\<rparr>)) = Some (drag, close, g2)"
    and sent: "(if drag = 0 then
            if close = 0 then send_mouse_message newpos posdiff b (previous_buttons m) g2
            else Some (send_close_message g2)
          else Some g2) = Some g'"
    using assms unfolding on_interrupt_def Let_def by (simp only: bind_eq_Some_conv split_paired_Ex fst_conv snd_conv prod.case option.inject prod.inject) blast
  have "calm (gui_tasks g) (gui_tasks g2)"
    using press by (auto simp: bind_eq_Some_conv dest!: mouse_press_calm split: if_splits)
  also have "calm (gui_tasks g2) (gui_tasks g')"
    using sent by (auto simp: send_close_message_calm dest: send_mouse_message_calm split: if_splits)
  finally show ?thesis .
qed

lemma observe_calm:
  "observe fonts es m g = Some (m', g') \<Longrightarrow> calm (gui_tasks g) (gui_tasks g')"
proof (induction fonts es m g rule: observe.induct)
  case (2 fonts modifier keycode press es m g)
  have "calm (gui_tasks g) (keyboard_observer modifier keycode press (gui_tasks g))"
    by (simp add: keyboard_observer_def key_message_def calm_send)
  also have "calm \<dots> (gui_tasks g')" using 2 by simp
  finally show ?case .
next
  case (3 fonts buttons dx dy es m g)
  then show ?case by (auto simp: bind_eq_Some_conv intro: calm_trans on_interrupt_calm)
qed auto

section \<open>The tick\<close>

lemma running_cursor_push [simp]:
  "running_cursor (push_timer t q) = (if is_cursor_timer t then {#timeout t#} else {#}) + running_cursor q"
  by (simp add: running_cursor_def push_timer_mset)

lemma running_cursor_Cons [simp]:
  "running_cursor (t # q) = (if is_cursor_timer t then {#timeout t#} else {#}) + running_cursor q"
  by (simp add: running_cursor_def)

lemma cursor_time_timeout: "cursor_time (timeout_message t) = (if timer_val t = kTextboxCursorTimer then Some (timeout t) else None)"
  by (simp add: cursor_time_def timeout_message_def)

lemma not_cursor_task_timer [simp]: "\<not> is_cursor_timer (task_timer now)"
  by (simp add: is_cursor_timer_def task_timer_def kTaskTimerValue_def kTextboxCursorTimer_def)

text \<open>A tick moves timeouts that are reached to the task, and loses none.\<close>

lemma tick_loop_cursor:
  assumes "tick_loop now q b tm = Some (b', q', tm')" "main_lives tm"
  shows "main_lives tm' \<and> running_cursor q' + sent_cursor tm' = running_cursor q + sent_cursor tm \<and>
    (\<forall>t \<in># sent_cursor tm'. t \<in># sent_cursor tm \<or> t \<le> now)"
  using assms
proof (induction now q b tm rule: tick_loop.induct)
  case (1 now q b tm)
  then obtain t ts where q: "q = t # ts" by (cases q) (auto simp: tick_loop.simps)
  consider "now < timeout t" | "timeout t \<le> now" "timer_val t = kTaskTimerValue"
    | "timeout t \<le> now" "timer_val t \<noteq> kTaskTimerValue" by linarith
  then show ?case
  proof cases
    case 2
    then have "\<not> is_cursor_timer t" by (simp add: is_cursor_timer_def kTaskTimerValue_def kTextboxCursorTimer_def)
    then show ?thesis using 1(1) [of t ts] 1(3,4) 2 q by (simp add: tick_loop.simps [of now "t # ts"])
  next
    case 3
    let ?tm = "snd (send_message (timer_task t) (timeout_message t) tm)"
    have "main_lives ?tm"
      "sent_cursor ?tm = sent_cursor tm + (if is_cursor_timer t then {#timeout t#} else {#})"
      using send_cursor [OF 1(4), of "timer_task t" "timeout_message t"]
      by (auto simp: cursor_time_timeout map_filter_simps is_cursor_timer_def)
    then show ?thesis using 1(2) [of t ts] 1(3) 3 q by (auto simp: tick_loop.simps [of now "t # ts"] split: if_splits)
  qed (use 1(3,4) q in \<open>simp add: tick_loop.simps [of now "t # ts"]\<close>)
qed

section \<open>A round of the loop\<close>

lemma on_window_keeps [simp]:
  "kn_timers (on_window h ds k) = kn_timers k" "kn_tasks (on_window h ds k) = kn_tasks k"
  by (simp_all add: on_window_def Let_def set_manager_def)

lemma set_manager_keeps [simp]:
  "kn_timers (set_manager lm k) = kn_timers k" "kn_tasks (set_manager lm k) = kn_tasks k"
  by (simp_all add: set_manager_def)

lemma set_tasks_keeps [simp]:
  "kn_timers (set_tasks tm k) = kn_timers k" "kn_tasks (set_tasks tm k) = tm"
  by (simp_all add: set_tasks_def)

lemma draw_text_cursor_keeps [simp]:
  "kn_timers (draw_text_cursor b tb k) = kn_timers k" "kn_tasks (draw_text_cursor b tb k) = kn_tasks k"
  by (simp_all add: draw_text_cursor_def Let_def)

lemma draw_on_layer_keeps:
  "draw_on_layer i k = Some k' \<Longrightarrow> kn_timers k' = kn_timers k \<and> kn_tasks k' = kn_tasks k"
  by (auto simp: draw_on_layer_def bind_eq_Some_conv)

lemma draw_tick_keeps:
  "draw_tick fonts s k = Some k' \<Longrightarrow> kn_timers k' = kn_timers k \<and> kn_tasks k' = kn_tasks k"
  by (auto simp: draw_tick_def Let_def bind_eq_Some_conv dest!: draw_on_layer_keeps)

lemma input_text_window_keeps:
  "input_text_window fonts c tb k = Some (tb', k') \<Longrightarrow> kn_timers k' = kn_timers k \<and> kn_tasks k' = kn_tasks k"
  by (auto simp: input_text_window_def Let_def bind_eq_Some_conv split: if_splits)

lemma printk_keeps:
  "printk fonts ready s con k = Some (con', k') \<Longrightarrow> kn_timers k' = kn_timers k \<and> kn_tasks k' = kn_tasks k"
  by (auto simp: printk_def bind_eq_Some_conv split: if_splits)

lemma main_unknown_keeps:
  "main_unknown env msg s k = Some (s', k') \<Longrightarrow> kn_timers k' = kn_timers k \<and> kn_tasks k' = kn_tasks k"
  by (auto simp: main_unknown_def kernel_log_def bind_eq_Some_conv dest!: printk_keeps)

lemma new_terminal_task_keeps:
  assumes "main_lives (kn_tasks k)"
  shows "kn_timers (new_terminal_task env k) = kn_timers k" "inbox (kn_tasks (new_terminal_task env k)) 1 = inbox (kn_tasks k) 1"
proof -
  have "find P xs = Some y \<Longrightarrow> find P (xs @ ys) = Some y" for P and xs ys :: "task list" and y
    by (induction xs) auto
  then have "find_task (snd (new_task tm)) 1 = find_task tm 1" if "find_task tm 1 \<noteq> None" for tm
    using that by (auto simp: new_task_def Let_def find_task_def)
  then have "inbox (snd (new_task (kn_tasks k))) 1 = inbox (kn_tasks k) 1"
    using assms by (auto simp: main_lives_def inbox_def)
  then show "inbox (kn_tasks (new_terminal_task env k)) 1 = inbox (kn_tasks k) 1"
    by (simp add: new_terminal_task_def split_def Let_def inbox_def [of "update_task i f tm" for i f tm] find_task_update
        init_context_def option.map_comp comp_def if_distrib [where f = "map_option msgs"] flip: inbox_def)
qed (simp add: new_terminal_task_def split_def Let_def)

lemma main_key_calm:
  assumes "main_key env msg kc a press s k = Some (s', k')" "msg_type msg \<noteq> kTimerTimeout" "main_lives (kn_tasks k)"
  shows "kn_timers k' = kn_timers k \<and> calm (kn_tasks k) (kn_tasks k')"
  using assms(1,2) new_terminal_task_keeps [OF assms(3)]
  by (auto simp: main_key_def Let_def bind_eq_Some_conv calm_send calm_inbox dest!: input_text_window_keeps printk_keeps
      split: if_splits option.splits)

lemma main_layer_calm:
  "main_layer msg k = Some k' \<Longrightarrow> kn_timers k' = kn_timers k \<and> calm (kn_tasks k) (kn_tasks k')"
  by (auto simp: main_layer_def Let_def bind_eq_Some_conv plain_message_def calm_send)

lemma main_xhci_calm:
  "main_xhci env s k = Some (s', k') \<Longrightarrow> kn_timers k' = kn_timers k \<and> calm (kn_tasks k) (kn_tasks k')"
  by (auto simp: main_xhci_def bind_eq_Some_conv dest!: observe_calm)

text \<open>Only a timeout of the cursor starts a timer, and nothing else touches the timeouts.\<close>

lemma main_message_cursor:
  assumes "main_message env msg s k = Some (s', k')" "main_lives (kn_tasks k)"
  shows "calm (kn_tasks k) (kn_tasks k') \<and>
    kn_timers k' = (case cursor_time msg of Some t \<Rightarrow> add_timer (cursor_timer t) (kn_timers k) | None \<Rightarrow> kn_timers k)"
proof (cases "msg_type msg = kTimerTimeout")
  case True
  then show ?thesis
    using assms(1) by (auto simp: main_message_def cursor_time_def main_timer_def Let_def bind_eq_Some_conv
        dest!: draw_on_layer_keeps split: message_arg.splits if_splits)
next
  case False
  then show ?thesis
    using assms by (auto simp: main_message_def dest!: main_xhci_calm main_layer_calm main_key_calm main_unknown_keeps
        split: message_type.splits message_arg.splits)
qed

definition cursor_timeouts :: "kernel \<Rightarrow> nat multiset" where
  "cursor_timeouts k = running_cursor (timers (kn_timers k)) + sent_cursor (kn_tasks k)"

definition cursor_inv :: "kernel \<Rightarrow> bool" where
  "cursor_inv k \<longleftrightarrow> main_lives (kn_tasks k) \<and>
     (\<exists>t \<le> tick (kn_timers k) + kTimer05Sec. cursor_timeouts k = {#t#}) \<and>
     (\<forall>t \<in># sent_cursor (kn_tasks k). t \<le> tick (kn_timers k))"

lemma cursor_inv_calm:
  assumes "cursor_inv k" "kn_timers k' = kn_timers k" "calm (kn_tasks k) (kn_tasks k')"
  shows "cursor_inv k'"
  using assms by (simp add: cursor_inv_def cursor_timeouts_def calm_def)

lemma receive_inbox:
  assumes "find_task tm i = Some t" "receive_message t = (Some msg, t')"
  shows "inbox tm i = Some (msg # msgs t')" "inbox (update_task i (\<lambda>_. t') tm) = (inbox tm)(i \<mapsto> msgs t')"
proof -
  obtain ms where t: "msgs t = msg # ms" "t' = t\<lparr>msgs := ms\<rparr>"
    using assms(2) by (auto simp: receive_message_def split: list.splits)
  then show "inbox tm i = Some (msg # msgs t')" using assms(1) by (simp add: inbox_def)
  have "task_id t = i" using assms(1) unfolding find_task_def by (metis (mono_tags) find_Some_iff)
  then have "find (\<lambda>u. task_id u = j) (map (\<lambda>u. if task_id u = i then t' else u) us) =
      (if j = i then map_option (\<lambda>_. t') (find (\<lambda>u. task_id u = i) us) else find (\<lambda>u. task_id u = j) us)" for j us
    using t(2) by (induction us) auto
  then show "inbox (update_task i (\<lambda>_. t') tm) = (inbox tm)(i \<mapsto> msgs t')"
    using assms(1) by (simp add: fun_eq_iff inbox_def find_task_def update_task_def)
qed

lemma receive_cursor:
  assumes "find_task tm 1 = Some t" "receive_message t = (Some msg, t')"
  shows "main_lives (update_task 1 (\<lambda>_. t') tm)"
    "sent_cursor tm = mset (List.map_filter cursor_time [msg]) + sent_cursor (update_task 1 (\<lambda>_. t') tm)"
  using receive_inbox [OF assms] unfolding main_lives_def sent_cursor_def
  by (simp_all add: map_filter_simps split: option.split)

lemma main_roundE:
  assumes "main_round env s k = Some r"
  obtains (message) k1 t msg t' s' k' where "draw_tick (me_fonts env) s k = Some k1" "find_task (kn_tasks k1) 1 = Some t"
      "receive_message t = (Some msg, t')"
      "main_message env msg s (set_tasks (update_task 1 (\<lambda>_. t') (kn_tasks k1)) k1) = Some (s', k')" "r = Done s' k'"
    | (empty) k1 where "draw_tick (me_fonts env) s k = Some k1" "r = go_to_sleep 1 k1"
proof -
  obtain k1 where k1: "draw_tick (me_fonts env) s k = Some k1"
    using assms by (auto simp: main_round_def bind_eq_Some_conv)
  then obtain t where t: "find_task (kn_tasks k1) 1 = Some t"
    using assms by (auto simp: main_round_def bind_eq_Some_conv)
  obtain mo t' where rm: "receive_message t = (mo, t')" by fastforce
  show ?thesis
  proof (cases mo)
    case None
    then have "r = go_to_sleep 1 k1" using assms k1 t rm by (simp add: main_round_def)
    then show ?thesis using empty k1 by blast
  next
    case (Some msg)
    then obtain s' k' where "main_message env msg s (set_tasks (update_task 1 (\<lambda>_. t') (kn_tasks k1)) k1) = Some (s', k')"
      "r = Done s' k'"
      using assms k1 t rm by (auto simp: main_round_def bind_eq_Some_conv)
    then show ?thesis using message k1 t rm Some by blast
  qed
qed

lemma go_to_sleep_Sleeping: "go_to_sleep i k \<noteq> Done s k'"
  by (simp add: go_to_sleep_def split: prod.split)

lemma main_round_cursor:
  assumes "main_round env s k = Some (Done s' k')" "cursor_inv k"
  shows "cursor_inv k'"
proof -
  obtain k1 t msg t' where k1: "draw_tick (me_fonts env) s k = Some k1" and t: "find_task (kn_tasks k1) 1 = Some t"
    and msg: "receive_message t = (Some msg, t')"
    and r: "main_message env msg s (set_tasks (update_task 1 (\<lambda>_. t') (kn_tasks k1)) k1) = Some (s', k')"
    using assms(1) by (rule main_roundE) (auto simp: go_to_sleep_Sleeping [THEN not_sym])
  let ?tm = "update_task 1 (\<lambda>_. t') (kn_tasks k)"
  have t: "find_task (kn_tasks k) 1 = Some t" using t draw_tick_keeps [OF k1] by simp
  note rc = receive_cursor [OF t msg]
  have m: "calm ?tm (kn_tasks k')" "kn_timers k' = (case cursor_time msg of
      Some t \<Rightarrow> add_timer (cursor_timer t) (kn_timers k) | None \<Rightarrow> kn_timers k)"
    using main_message_cursor [OF r] rc(1) draw_tick_keeps [OF k1] by (simp_all cong: option.case_cong)
  have inv: "main_lives (kn_tasks k')" using rc(1) m(1) by (simp add: calm_def)
  show ?thesis
  proof (cases "cursor_time msg")
    case None
    then show ?thesis using assms(2) rc m inv by (simp add: cursor_inv_def cursor_timeouts_def calm_def map_filter_simps)
  next
    case (Some u)
    then have u: "u \<le> tick (kn_timers k)" "cursor_timeouts k = {#u#}"
      using assms(2) rc(2) by (auto simp: cursor_inv_def cursor_timeouts_def map_filter_simps)
    then have "cursor_timeouts k' = {#u + kTimer05Sec#}" "sent_cursor (kn_tasks k') = {#}"
      using Some m rc(2) by (auto simp: cursor_timeouts_def calm_def map_filter_simps add_timer_def cursor_timer_def is_cursor_timer_def)
    then show ?thesis using u m(2) Some inv by (simp add: cursor_inv_def add_timer_def)
  qed
qed

lemma sleep_task_inbox [simp]: "inbox (snd (sleep_task i tm)) j = inbox tm j"
  by (simp add: sleep_task_def rotate_current_run_queue_def Let_def split_def)

lemma main_sleep_cursor:
  assumes "main_round env s k = Some (Sleeping act k')" "cursor_inv k"
  shows "cursor_inv k'"
proof -
  obtain k1 where k1: "draw_tick (me_fonts env) s k = Some k1" and "go_to_sleep 1 k1 = (Sleeping act k' :: main_state outcome)"
    using assms(1) by (rule main_roundE) auto
  then have "kn_timers k' = kn_timers k" "inbox (kn_tasks k') 1 = inbox (kn_tasks k) 1"
    using draw_tick_keeps [OF k1] sleep_task_inbox [of 1 "kn_tasks k" 1] by (auto simp: go_to_sleep_def simp del: sleep_task_inbox split: prod.splits)
  then show ?thesis using assms(2) calm_inbox cursor_inv_calm by blast
qed

section \<open>The loop and the rest of the kernel\<close>

text \<open>Between two rounds the timer interrupt ticks, other tasks send messages and start timers for
  themselves, and everything else happens that leaves the timers and the queue of the main task alone.\<close>

inductive main_step :: "main_env \<Rightarrow> main_state \<times> kernel \<Rightarrow> main_state \<times> kernel \<Rightarrow> bool" for env where
  round: "main_round env s k = Some (Done s' k') \<Longrightarrow> main_step env (s, k) (s', k')"
| sleep: "main_round env s k = Some (Sleeping act k') \<Longrightarrow> main_step env (s, k) (s, k')"
| tick: "timer_tick (kn_timers k) (kn_tasks k) = Some (b, m, tm) \<Longrightarrow>
    main_step env (s, k) (s, set_tasks tm (k\<lparr>kn_timers := m\<rparr>))"
| send: "msg_type msg \<noteq> kTimerTimeout \<Longrightarrow>
    main_step env (s, k) (s, set_tasks (snd (send_message i msg (kn_tasks k))) k)"
| timer: "timer_task t \<noteq> 1 \<Longrightarrow> main_step env (s, k) (s, k\<lparr>kn_timers := add_timer t (kn_timers k)\<rparr>)"
| other: "kn_timers k' = kn_timers k \<Longrightarrow> inbox (kn_tasks k') 1 = inbox (kn_tasks k) 1 \<Longrightarrow> main_step env (s, k) (s', k')"

lemma tick_cursor:
  assumes "timer_tick (kn_timers k) (kn_tasks k) = Some (b, m, tm)" "cursor_inv k"
  shows "cursor_inv (set_tasks tm (k\<lparr>kn_timers := m\<rparr>))"
proof -
  let ?now = "tick (kn_timers k) + 1"
  obtain q where r: "tick_loop ?now (timers (kn_timers k)) False (kn_tasks k) = Some (b, q, tm)" "m = \<lparr>tick = ?now, timers = q\<rparr>"
    using assms(1) by (auto simp: timer_tick_def Let_def split: option.splits)
  have "main_lives (kn_tasks k)" using assms(2) by (simp add: cursor_inv_def)
  note l = tick_loop_cursor [OF r(1) this]
  have "t \<le> ?now" if "t \<in># sent_cursor tm" for t
    using l assms(2) that unfolding cursor_inv_def by (metis le_add1 le_trans)
  then show ?thesis using l assms(2) r(2) by (auto simp: cursor_inv_def cursor_timeouts_def)
qed

lemma main_step_cursor: "main_step env x y \<Longrightarrow> cursor_inv (snd x) \<Longrightarrow> cursor_inv (snd y)"
proof (induction rule: main_step.induct)
  case (timer t s k)
  then have "\<not> is_cursor_timer t" by (simp add: is_cursor_timer_def)
  then show ?case using timer by (simp add: cursor_inv_def cursor_timeouts_def add_timer_def)
next
  case (send msg s k i)
  let ?k = "set_tasks (snd (send_message i msg (kn_tasks k))) k"
  have "calm (kn_tasks k) (kn_tasks ?k)" using send(1) by (simp add: calm_send)
  then show ?case using cursor_inv_calm [of k ?k] send(2) by simp
next
  case (other k' k s s')
  then show ?case using cursor_inv_calm [OF _ other(1) calm_inbox] by simp
qed (auto intro: main_round_cursor main_sleep_cursor tick_cursor)

end
