(* ===== verification/Main_Facts.thy ===== *)
theory Main_Facts imports Main_Loop Layer_Active Syscall_Facts begin

text \<open>
  What becomes of a key and of a layer operation in the main loop: the way of a key from the
  keyboard's observer over the main task's queue to the task of the active window, and the answer to
  a task that asked for a layer operation.
\<close>

section \<open>The tick on the main window\<close>

lemma digits_ascii:
  assumes "0 < base" "base \<le> 16"
  shows "ascii_bytes (digits_from fuel base n)"
proof (induction fuel arbitrary: n)
  case (Suc fuel)
  have "n mod base < 16" using assms mod_less_divisor [of base n] by linarith
  moreover have "(of_nat m :: u8) \<noteq> 0 \<and> (of_nat m :: u8) < 0x80" if "0 < m" "m < 128" for m
  proof -
    have "unat (of_nat m :: u8) = m" using that by (simp add: unat_of_nat)
    then show ?thesis using that by (auto simp: word_less_nat_alt simp del: unat_of_nat)
  qed
  ultimately have d: "ascii_bytes [let d = n mod base in of_nat (if d < 10 then 48 + d else 87 + d)]"
    by (simp add: ascii_bytes_def Let_def)
  show ?case using d Suc.IH [of "n div base"] by (auto simp: ascii_bytes_def)
qed (simp add: ascii_bytes_def)

lemma fmt_tick_ascii: "ascii_bytes (fmt_tick n)"
  using digits_ascii [of 10 64 n] by (auto simp: fmt_tick_def fmt_nat_def ascii_bytes_def Let_def)

lemma on_window_layers [simp]:
  "find_layer (manager (kn_gui (on_window h ds k))) i = find_layer (manager (kn_gui k)) i"
  "window_of (manager (kn_gui (on_window h ds k))) l = None \<longleftrightarrow> window_of (manager (kn_gui k)) l = None"
  "active_layer (kn_gui (on_window h ds k)) = active_layer (kn_gui k)"
  "layer_task_map (kn_gui (on_window h ds k)) = layer_task_map (kn_gui k)"
  by (simp_all add: on_window_def Let_def set_manager_def find_layer_def window_of_def)

lemma draw_tick_Some:
  assumes "find_layer (manager (kn_gui k)) (ms_main_layer s) = Some l" "window_of (manager (kn_gui k)) l \<noteq> None"
  shows "\<exists>k'. draw_tick fonts s k = Some k' \<and> kn_tasks k' = kn_tasks k \<and>
    active_layer (kn_gui k') = active_layer (kn_gui k) \<and> layer_task_map (kn_gui k') = layer_task_map (kn_gui k)"
proof -
  obtain ds where ds: "write_string (fst fonts) (snd fonts) (Vec 20 4) (fmt_tick (tick (kn_timers k))) (to_color 0) = Some ds"
    using write_string_ascii [OF fmt_tick_ascii] unfolding write_string_def by blast
  let ?k = "on_window (ms_main_window s) ds
    (on_window (ms_main_window s) (fill_rectangle (Vec 20 4) (Vec (8 * 10) 16) (to_color 0xc6c6c6)) k)"
  obtain w where "window_of (manager (kn_gui ?k)) l = Some w" using assms(2) by (metis not_None_eq on_window_layers(2))
  moreover have "find_layer (manager (kn_gui ?k)) (ms_main_layer s) = Some l" using assms(1) by simp
  ultimately obtain lm where "draw_layer (ms_main_layer s) (manager (kn_gui ?k)) = Some lm"
    using draw_layer_Some by blast
  then have "draw_tick fonts s k = Some (set_manager lm ?k)"
    using ds by (simp add: draw_tick_def draw_on_layer_def Let_def)
  then show ?thesis by (simp add: set_manager_def)
qed

section \<open>Keys\<close>

lemma receive_sched_inv:
  assumes "sched_inv tm" "find_task tm i = Some t" "receive_message t = (m, t')"
  shows "sched_inv (update_task i (\<lambda>_. t') tm)"
proof -
  have "t \<in> set (tasks tm)" "task_id t = i"
    using assms(2) unfolding find_task_def by (auto simp: find_Some_iff)
  then have "u = t" if "u \<in> set (tasks tm)" "task_id u = i" for u
    using assms(1) that by (metis sched_inv_def ids_ok_def eq_key_imp_eq_value distinct_map inj_onD)
  then have "map (\<lambda>u. if task_id u = i then t' else u) (tasks tm) =
      map (\<lambda>u. if task_id u = i then snd (receive_message u) else u) (tasks tm)"
    using assms(3) by auto
  then have "update_task i (\<lambda>_. t') tm = update_task i (\<lambda>u. snd (receive_message u)) tm"
    by (simp only: update_task_def)
  then show ?thesis using assms(1) by (simp add: sched_inv_update receive_message_def split: list.split)
qed

text \<open>C10: When the main task's queue is empty and the keyboard reports a key, the next round of the main
  loop hands that very key to the task of the active window (unless that is the text box, or the key is F2 going
  down, which opens a terminal): it is the next message in that task's queue, no other queue has
  changed in the end, and the task can run.\<close>

theorem key_reaches_active_task:
  assumes queues: "inbox (kn_tasks k) 1 = Some []" "inbox (kn_tasks k) tid = Some ms" "tid \<noteq> 1" "sched_inv (kn_tasks k)"
    and main: "find_layer (manager (kn_gui k)) (ms_main_layer s) = Some l" "window_of (manager (kn_gui k)) l \<noteq> None"
    and active: "layer_task_map (kn_gui k) (active_layer (kn_gui k)) = Some tid" "active_layer (kn_gui k) \<noteq> tb_layer (ms_text s)"
    and key: "\<not> (press \<and> keycode = 59)"
  shows "\<exists>k'. main_round env s (set_tasks (keyboard_observer modifier keycode press (kn_tasks k)) k) = Some (Done s k') \<and>
    inbox (kn_tasks k') = (inbox (kn_tasks k))(tid \<mapsto> ms @ [key_message modifier keycode press]) \<and>
    is_running (kn_tasks k') tid"
proof -
  let ?m = "key_message modifier keycode press" and ?tm = "keyboard_observer modifier keycode press (kn_tasks k)"
  let ?k = "set_tasks ?tm k"
  have tm: "inbox ?tm = (inbox (kn_tasks k))(1 \<mapsto> [?m])" "sched_inv ?tm"
    using queues(1,4) by (simp_all add: keyboard_observer_def inbox_send send_keeps(1))
  obtain k1 where k1: "draw_tick (me_fonts env) s ?k = Some k1" "kn_tasks k1 = ?tm"
      "active_layer (kn_gui k1) = active_layer (kn_gui k)" "layer_task_map (kn_gui k1) = layer_task_map (kn_gui k)"
    using draw_tick_Some [of ?k s l "me_fonts env"] main by (auto simp: set_tasks_def)
  obtain t where t: "find_task ?tm 1 = Some t" "msgs t = [?m]"
    using fun_cong [OF tm(1), of 1] by (auto simp: inbox_def)
  then have rm: "receive_message t = (Some ?m, t\<lparr>msgs := []\<rparr>)" by (simp add: receive_message_def)
  let ?tm1 = "update_task 1 (\<lambda>_. t\<lparr>msgs := []\<rparr>) ?tm"
  have tm1: "inbox ?tm1 = (inbox (kn_tasks k))" using receive_inbox(2) [OF t(1) rm] tm(1) queues(1) by auto
  let ?k' = "set_tasks (snd (send_message tid ?m ?tm1)) (set_tasks ?tm1 k1)"
  have "main_message env ?m s (set_tasks ?tm1 k1) = Some (s, ?k')"
    using key active k1(3,4) by (auto simp: main_message_def main_key_def key_message_def set_tasks_def)
  then have "main_round env s ?k = Some (Done s ?k')" using k1 t rm by (simp add: main_round_def)
  moreover have "inbox (kn_tasks ?k') = (inbox (kn_tasks k))(tid \<mapsto> ms @ [?m])" using tm1 queues(2) by (simp add: inbox_send)
  moreover have "sched_inv ?tm1" by (rule receive_sched_inv [OF tm(2) t(1) rm])
  then have "is_running (kn_tasks ?k') tid" using tm1 queues(2) by (simp add: mail.send_runnable)
  ultimately show ?thesis by blast
qed

section \<open>Layer operations\<close>

lemma move_with_Some:
  assumes "find_layer lm i = Some l" "window_of lm l = Some w"
    and f: "\<And>l. layer_id (f l) = layer_id l" "\<And>l. layer_window (f l) = layer_window l"
  shows "\<exists>lm'. move_with i f lm = Some lm' \<and> find_layer lm' i = Some (f l)"
proof -
  let ?lm = "draw_area (Rect (layer_pos l) (win_size w)) (update_layer i f lm)"
  have "find (\<lambda>l. layer_id l = i) (map (\<lambda>l. if layer_id l = i then f l else l) ls) =
      map_option f (find (\<lambda>l. layer_id l = i) ls)" for ls
    using f(1) by (induction ls) auto
  then have l: "find_layer ?lm i = Some (f l)" using assms(1) by (simp add: find_layer_def update_layer_def draw_area_def Let_def)
  moreover have "window_of ?lm (f l) = Some w"
    using assms(2) f(2) by (simp add: window_of_def update_layer_def draw_area_def Let_def)
  ultimately obtain lm' where "draw_layer i ?lm = Some lm'" "layers lm' = layers ?lm" using draw_layer_Some by blast
  then show ?thesis using assms(1,2) l by (simp add: move_with_def find_layer_def)
qed

lemma draw_layer_area_Some:
  assumes "find_layer lm i = Some l" "window_of lm l = Some w"
  shows "\<exists>lm'. draw_layer_area i a lm = Some lm'"
  using draw_loop_Some [OF assms, of "layer_stack lm" False a "garbage lm" "back_buffer lm"]
  by (auto simp: draw_layer_area_def)

lemma process_layer_message_Some:
  assumes "find_layer lm i = Some l" "window_of lm l = Some w"
  shows "\<exists>lm'. process_layer_message (make_layer_message tid i op area) lm = Some lm' \<and>
    (op = Op_Move \<longrightarrow> map_option layer_pos (find_layer lm' i) = Some (rpos area))"
  using move_with_Some [OF assms, of "layer_move_to (rpos area)"] move_with_Some [OF assms, of "layer_move_by (rpos area)"]
    draw_layer_area_Some [OF assms]
  by (cases op) (auto simp: process_layer_message_def make_layer_message_def lm_move_def lm_move_relative_def draw_layer_def
      layer_move_to_def layer_move_by_def)

text \<open>C11: A task that asks for a layer operation (\<^verbatim>\<open>MakeLayerMessage\<close>) on an existing layer gets its answer: the
  main loop carries the operation out without failing, \<^verbatim>\<open>kLayerFinish\<close> is the last message in the task's
  queue, no other queue has changed, and the task can run again. After a move the layer is where the
  task wanted it.\<close>

theorem layer_request_answered:
  assumes sender: "inbox (kn_tasks k) tid = Some ms" "sched_inv (kn_tasks k)"
    and layer: "find_layer (manager (kn_gui k)) i = Some l" "window_of (manager (kn_gui k)) l = Some w"
  shows "\<exists>k'. main_message env (make_layer_message tid i op area) s k = Some (s, k') \<and>
    inbox (kn_tasks k') = (inbox (kn_tasks k))(tid \<mapsto> ms @ [plain_message kLayerFinish]) \<and>
    is_running (kn_tasks k') tid \<and>
    (op = Op_Move \<longrightarrow> map_option layer_pos (find_layer (manager (kn_gui k')) i) = Some (rpos area))"
proof -
  let ?m = "make_layer_message tid i op area" and ?lm = "manager (kn_gui k)"
  obtain lm where lm: "process_layer_message ?m ?lm = Some lm"
    "op = Op_Move \<longrightarrow> map_option layer_pos (find_layer lm i) = Some (rpos area)"
    using process_layer_message_Some [OF layer] by blast
  let ?k' = "set_tasks (snd (send_message tid (plain_message kLayerFinish) (kn_tasks k))) (set_manager lm k)"
  have "main_message env ?m s k = Some (s, ?k')"
    using lm(1) by (simp add: main_message_def main_layer_def make_layer_message_def Let_def)
  moreover have "inbox (kn_tasks ?k') = (inbox (kn_tasks k))(tid \<mapsto> ms @ [plain_message kLayerFinish])"
    using sender(1) by (simp add: inbox_send)
  moreover have "is_running (kn_tasks ?k') tid" using sender by (simp add: mail.send_runnable)
  moreover have "manager (kn_gui ?k') = lm" by (simp add: set_manager_def set_tasks_def)
  ultimately show ?thesis using lm(2) by metis
qed

section \<open>A kernel with a window of task 3\<close>

text \<open>The window of the sample screen belongs to task 3 and is active.\<close>

definition main_kernel :: kernel where
  "main_kernel = sample_kernel\<lparr>kn_gui := \<lparr>manager = sample_manager, active_layer = 2, mouse_layer = 3,
     layer_task_map = [2 \<mapsto> 3], gui_tasks = two_tasks\<rparr>\<rparr>"

lemma main_kernel_parts:
  "inbox (kn_tasks main_kernel) 1 = Some []" "inbox (kn_tasks main_kernel) 3 = Some []" "sched_inv (kn_tasks main_kernel)"
  "layer_task_map (kn_gui main_kernel) (active_layer (kn_gui main_kernel)) = Some 3"
  "active_layer (kn_gui main_kernel) = 2" "manager (kn_gui main_kernel) = sample_manager"
proof -
  show "sched_inv (kn_tasks main_kernel)"
    using reachable_inv [OF two_tasks_reachable] by (simp add: main_kernel_def)
qed (simp_all add: main_kernel_def two_tasks_def inbox_def wakeup_id_def wakeup_task_def task_eval)

lemma sample_layer: "\<exists>l w. find_layer sample_manager 4 = Some l \<and> window_of sample_manager l = Some w"
  by (simp add: sample_manager_def draw_area_def Let_def find_layer_def window_of_def blank_manager_def set_writer_def)

theorem key_reaches_active_task_witness:
  "\<forall>env s. \<exists>k'. main_round env (s\<lparr>ms_main_layer := 4, ms_text := \<lparr>tb_window = 0, tb_layer = 9, tb_index = 0\<rparr>\<rparr>)
      (set_tasks (keyboard_observer 0 4 True (kn_tasks main_kernel)) main_kernel) =
        Some (Done (s\<lparr>ms_main_layer := 4, ms_text := \<lparr>tb_window = 0, tb_layer = 9, tb_index = 0\<rparr>\<rparr>) k') \<and>
    inbox (kn_tasks k') 3 = Some [key_message 0 4 True]"
proof (intro allI)
  fix env :: main_env and s :: main_state
  let ?s = "s\<lparr>ms_main_layer := 4, ms_text := \<lparr>tb_window = 0, tb_layer = 9, tb_index = 0\<rparr>\<rparr>"
  obtain l w where "find_layer sample_manager 4 = Some l" "window_of sample_manager l = Some w" using sample_layer by blast
  then show "\<exists>k'. main_round env ?s (set_tasks (keyboard_observer 0 4 True (kn_tasks main_kernel)) main_kernel) =
        Some (Done ?s k') \<and> inbox (kn_tasks k') 3 = Some [key_message 0 4 True]"
    using key_reaches_active_task [of main_kernel 3 "[]" ?s l True 4 env 0] main_kernel_parts by auto
qed

theorem layer_request_answered_witness:
  "\<forall>env s. \<exists>k'. main_message env (make_layer_message 3 4 Op_Move (Rect (Vec 1 2) (Vec 0 0))) s main_kernel = Some (s, k') \<and>
    inbox (kn_tasks k') 3 = Some [plain_message kLayerFinish] \<and>
    map_option layer_pos (find_layer (manager (kn_gui k')) 4) = Some (Vec 1 2)"
proof (intro allI)
  fix env :: main_env and s :: main_state
  obtain l w where "find_layer sample_manager 4 = Some l" "window_of sample_manager l = Some w" using sample_layer by blast
  then show "\<exists>k'. main_message env (make_layer_message 3 4 Op_Move (Rect (Vec 1 2) (Vec 0 0))) s main_kernel = Some (s, k') \<and>
      inbox (kn_tasks k') 3 = Some [plain_message kLayerFinish] \<and>
      map_option layer_pos (find_layer (manager (kn_gui k')) 4) = Some (Vec 1 2)"
    using layer_request_answered [of main_kernel 3 "[]" 4 l w env Op_Move "Rect (Vec 1 2) (Vec 0 0)" s] main_kernel_parts by auto
qed

end
