(* ===== verification/Kernel_Start.thy ===== *)
theory Kernel_Start imports Main_Loop Segment Interrupt Paging Acpi Pci begin

text \<open>
  How the kernel starts: \<^verbatim>\<open>InitializePCI\<close> (\<^verbatim>\<open>Kernel/pci.cpp\<close>), \<^verbatim>\<open>InitializeLAPICTimer\<close> (\<^verbatim>\<open>timer.cpp\<close>) and the
  calls of \<^verbatim>\<open>KernelMainNewStack\<close> (\<^verbatim>\<open>main.cpp\<close>) before its loop, in their order. \<open>Inl\<close> is the exit code of a kernel that
  gives up, \<open>None\<close> a start the code does not survive.

  What the machine answers (configuration space, tables, counters, the registers of the USB
  controller) and the addresses the linker and \<^verbatim>\<open>operator new\<close> choose are arguments. The devices of the shell's
  environment are those the bus scan finds.
\<close>

section \<open>Devices and the timer\<close>

(*@ Kernel/pci.cpp:333-347 InitializePCI *)
definition initialize_pci :: "nat \<Rightarrow> pci_conf \<Rightarrow> (int + pci_device list) option" where
  "initialize_pci fuel conf = do {
     (err, devices) \<leftarrow> scan_all_bus fuel conf;
     Some (if is_error err then Inl 1 else Inr devices) }"

definition lvt_timer :: u64 where "lvt_timer = 0xfee00320"
definition initial_count :: u64 where "initial_count = 0xfee00380"
definition divide_config :: u64 where "divide_config = 0xfee003e0"

text \<open>The registers that are written, \<^verbatim>\<open>lapic_timer_freq\<close> and the new timer manager. \<open>current_count k\<close> is what the
  counter reads when the timer of the wait has been read \<open>k\<close> times.\<close>

(*@ Kernel/timer.cpp:15-43 InitializeLAPICTimer *)
definition initialize_lapic_timer ::
  "(nat \<Rightarrow> u32) \<Rightarrow> u32 \<Rightarrow> (nat \<Rightarrow> u32) \<Rightarrow> ((u64 \<times> u32) list \<times> u64 \<times> timer_manager) option" where
  "initialize_lapic_timer pm flags current_count =
    (let kCountMax = 0xffffffff
     in do {
       k \<leftarrow> wait_milliseconds pm flags 100;
       elapsed \<leftarrow> Some (kCountMax - current_count k);
       lapic_timer_freq \<leftarrow> Some (ucast elapsed * 10 :: u64);
       Some ([(divide_config, 0b1011), (lvt_timer, push_bit 16 0b001),
              (initial_count, kCountMax), (initial_count, 0),
              (divide_config, 0b1011), (lvt_timer, push_bit 16 0b010 OR of_nat interrupt_vector_timer),
              (initial_count, ucast (lapic_timer_freq div kTimerFreq))],
             lapic_timer_freq, new_timer_manager) })"

section \<open>The start\<close>

record boot_env =
  be_main :: main_env
  be_bus_fuel :: nat
  be_acpi :: acpi_mem
  be_rsdp :: u64
  be_pm :: "nat \<Rightarrow> u32"
  be_count :: "nat \<Rightarrow> u32"
  be_lapic_id :: u32
  be_usb :: usb_env
  be_handlers :: "int_handler \<Rightarrow> u64"
  be_tss :: u64
  be_tables :: "u64 \<times> (nat \<Rightarrow> u64) \<times> identity_tables"
  be_idt :: "interrupt_descriptor list"
  be_syscall_entry :: u64
  be_task_idle :: u64
  be_garbage :: layer_manager
  be_pages :: phys_mem

text \<open>What the start leaves in the machine besides the kernel's own state.\<close>

record machine =
  mc_segments :: segment_tables
  mc_identity :: identity_tables
  mc_idt :: "interrupt_descriptor list"
  mc_heap :: heap
  mc_font :: bytes
  mc_devices :: "pci_device list"
  mc_fadt :: u64
  mc_lapic :: "(u64 \<times> u32) list"
  mc_msrs :: "(u32 \<times> u64) list"
  mc_pci :: pci_writes

abbreviation be_fonts :: "boot_env \<Rightarrow> fonts" where
  "be_fonts be \<equiv> me_fonts (be_main be)"

abbreviation be_shell :: "boot_env \<Rightarrow> shell_env" where
  "be_shell be \<equiv> me_shell (be_main be)"

text \<open>The kernel before anything is initialized: its pointers to managers are null, and the managers of the
  model are not looked at.\<close>

definition no_tasks :: task_manager where
  "no_tasks = \<lparr>tasks = [], latest_id = 0, runq = (\<lambda>_. []), current_level = 0, level_changed = False,
     finish_tasks = Map.empty, finish_waiter = Map.empty\<rparr>"

definition blank_kernel :: "boot_env \<Rightarrow> frame_buffer \<Rightarrow> volume \<Rightarrow> kernel" where
  "blank_kernel be fb v =
    \<lparr>kn_gui = \<lparr>manager = (be_garbage be)\<lparr>screen_fb := fb, layers := [], layer_stack := []\<rparr>, active_layer = 0,
       mouse_layer = 0, layer_task_map = Map.empty, gui_tasks = no_tasks\<rparr>,
     kn_timers = \<lparr>tick = 0, timers = []\<rparr>, kn_vol = v, kn_files = [], kn_terms = [],
     kn_loader = \<lparr>ld_pages = \<lparr>pg_mem = be_pages be, pg_alloc = new_memory_manager\<rparr>,
       ld_cr3 = ev_kernel_pml4 (be_shell be), ld_task_cr3 = ev_kernel_pml4 (be_shell be), ld_apps = Map.empty\<rparr>,
     kn_next_window = 0, kn_descs = [], kn_stack = (\<lambda>_. 0)\<rparr>"

text \<open>A step of the start that may give up: the rest runs when it does not.\<close>

definition unless_exit :: "(int + 'a) option \<Rightarrow> ('a \<Rightarrow> (int + 'b) option) \<Rightarrow> (int + 'b) option" where
  "unless_exit r f = do { x \<leftarrow> r; case x of Inl code \<Rightarrow> Some (Inl code) | Inr a \<Rightarrow> f a }"

lemma unless_exit_Inr [simp]:
  "unless_exit r f = Some (Inr x) \<longleftrightarrow> (\<exists>a. r = Some (Inr a) \<and> f a = Some (Inr x))"
  by (cases r) (auto simp: unless_exit_def split: sum.splits)

text \<open>The screen and the first line.\<close>

(*@ Kernel/main.cpp:133-136 KernelMainNewStack *)
definition start_screen :: "boot_env \<Rightarrow> mem \<Rightarrow> frame_buffer_config \<Rightarrow> volume \<Rightarrow> (int + console \<times> kernel) option" where
  "start_screen be device config v =
    unless_exit (Some (initialize_graphics device config)) (\<lambda>fb. do {
      k \<leftarrow> Some (blank_kernel be fb v);
      (con, lm) \<leftarrow> initialize_console (be_fonts be) (manager (kn_gui k));
      (con, k) \<leftarrow> printk (be_fonts be) False (bytes_of ''Welcome to MikanOS_X'' @ [10]) con (set_manager lm k);
      Some (Inr (con, k)) })"

text \<open>Segments, paging, memory and interrupts. The memory manager is the one the page maps are
  allocated from later.\<close>

(*@ Kernel/main.cpp:139-143 KernelMainNewStack *)
definition start_memory ::
  "boot_env \<Rightarrow> memory_descriptor list \<Rightarrow> int + segment_tables \<times> identity_tables \<times> heap \<times> memory_manager \<times> interrupt_descriptor list" where
  "start_memory be memory_map =
    (let seg = setup_segments zero_tables;
         identity = (case be_tables be of (pdp, dir, t) \<Rightarrow> setup_identity_page_table pdp dir t)
     in case initialize_memory_manager memory_map of
          None \<Rightarrow> Inl 1
        | Some (h, mm) \<Rightarrow>
            (case initialize_tss (be_tss be) mm seg of
               (Inl err, mm) \<Rightarrow> Inl 1
             | (Inr seg, mm) \<Rightarrow> Inr (seg, identity, h, mm, initialize_interrupt (be_handlers be) (be_idt be))))"

text \<open>The layers: the main window and the text box are drawn with the whole screen.\<close>

(*@ Kernel/main.cpp:148-151 KernelMainNewStack *)
definition start_layers :: "boot_env \<Rightarrow> console \<Rightarrow> kernel \<Rightarrow> (int + console \<times> (nat \<times> nat) \<times> text_box \<times> kernel) option" where
  "start_layers be con k =
    unless_exit (initialize_layer (be_fonts be) con k) (\<lambda>(con, k). do {
      (main_window, main_layer, k) \<leftarrow> initialize_main_window (be_fonts be) k;
      (text_window, text_layer, k) \<leftarrow> initialize_text_window (be_fonts be) k;
      lm \<leftarrow> Some (manager (kn_gui k));
      Some (Inr (con, (main_window, main_layer), \<lparr>tb_window = text_window, tb_layer = text_layer, tb_index = 0\<rparr>,
        set_manager (draw_area (Rect (Vec 0 0) (config_size (fb_config (screen_fb lm)))) lm) k)) })"

text \<open>The cursor's first timer is started before the main task exists.\<close>

(*@ Kernel/main.cpp:156-164 KernelMainNewStack *)
definition start_tasks :: "boot_env \<Rightarrow> timer_manager \<Rightarrow> kernel \<Rightarrow> (u32 \<times> u64) list \<times> kernel" where
  "start_tasks be tmr k =
    (let tmr = add_timer \<lparr>timeout = kTimer05Sec, timer_val = kTextboxCursorTimer, timer_task = 1\<rparr> tmr;
         msrs = initialize_syscall (be_syscall_entry be);
         (tm, tmr) = initialize_task (ev_stack_end (be_shell be) 2) (ev_cr3 (be_shell be)) (be_task_idle be) tmr
     in (msrs, set_tasks tm (k\<lparr>kn_timers := tmr\<rparr>)))"

(*@ Kernel/main.cpp:131-172 KernelMainNewStack *)
definition kernel_start ::
  "boot_env \<Rightarrow> mem \<Rightarrow> frame_buffer_config \<Rightarrow> memory_descriptor list \<Rightarrow> volume \<Rightarrow> (int + machine \<times> main_state \<times> kernel) option" where
  "kernel_start be device config memory_map v =
    unless_exit (start_screen be device config v) (\<lambda>(con, k).
    unless_exit (Some (start_memory be memory_map)) (\<lambda>(seg, identity, h, mm, idt).
    unless_exit (initialize_font v) (\<lambda>font.
    unless_exit (initialize_pci (be_bus_fuel be) (ev_conf (be_shell be))) (\<lambda>devices. do {
      k \<leftarrow> Some (k\<lparr>kn_loader := (kn_loader k)\<lparr>ld_pages := (ld_pages (kn_loader k))\<lparr>pg_alloc := mm\<rparr>\<rparr>\<rparr>);
      unless_exit (start_layers be con k) (\<lambda>(con, (main_window, main_layer), tb, k).
      unless_exit (acpi_initialize (be_acpi be) (be_rsdp be)) (\<lambda>fadt. do {
        (lapic, _, tmr) \<leftarrow> initialize_lapic_timer (be_pm be) (fadt_flags (be_acpi be) fadt) (be_count be);
        (msrs, k) \<leftarrow> Some (start_tasks be tmr k);
        (r, ws) \<leftarrow> usb_initialize (me_xhci (be_main be)) (ev_conf (be_shell be)) devices (be_lapic_id be) (be_usb be) [];
        unless_exit (Some r) (\<lambda>(c, _). do {
          (m, k) \<leftarrow> initialize_mouse k;
          k \<leftarrow> Some (new_terminal_task (be_shell be) k);
          Some (Inr (\<lparr>mc_segments = seg, mc_identity = identity, mc_idt = idt, mc_heap = h, mc_font = font,
                      mc_devices = devices, mc_fadt = fadt, mc_lapic = lapic, mc_msrs = msrs, mc_pci = ws\<rparr>,
                     \<lparr>ms_console = con, ms_mouse = m, ms_xhc = c, ms_main_window = main_window,
                      ms_main_layer = main_layer, ms_text = tb, ms_cursor_visible = False\<rparr>, k)) }) })) }))))"

section \<open>The cursor from the start on\<close>

text \<open>The states from the moment the main task exists.\<close>

definition main_reachable :: "boot_env \<Rightarrow> main_state \<times> kernel \<Rightarrow> bool" where
  "main_reachable be x \<longleftrightarrow>
    (\<exists>s k. (main_step (be_main be))\<^sup>*\<^sup>* (s, snd (start_tasks be new_timer_manager k)) x)"

lemma new_task_manager_inbox: "inbox (new_task_manager stack_end cr3 f) 1 = Some []"
  by (simp add: inbox_def new_task_manager_def new_task_def Let_def find_task_def set_running_def set_level_def
      update_task_def init_context_def set_runq_def new_task_record_def)

lemma add_timer_tick [simp]: "tick (add_timer t m) = tick m"
  by (simp add: add_timer_def)

lemma new_timer_manager_parts [simp]:
  "tick new_timer_manager = 0" "timers new_timer_manager = [\<lparr>timeout = timer_sentinel, timer_val = 0, timer_task = 0\<rparr>]"
  by (simp_all add: new_timer_manager_def)

lemma start_tasks_parts:
  "kn_timers (snd (start_tasks be new_timer_manager k)) =
    add_timer \<lparr>timeout = 2, timer_val = kTaskTimerValue, timer_task = 1\<rparr>
      (add_timer \<lparr>timeout = kTimer05Sec, timer_val = kTextboxCursorTimer, timer_task = 1\<rparr> new_timer_manager)"
  "inbox (kn_tasks (snd (start_tasks be new_timer_manager k))) 1 = Some []"
  using new_task_manager_inbox by (simp_all add: start_tasks_def initialize_task_def kTaskTimerPeriod_def numeral_2_eq_2)

lemma start_tasks_cursor: "cursor_inv (snd (start_tasks be new_timer_manager k))"
  by (simp add: cursor_inv_def cursor_timeouts_def start_tasks_parts [simplified] main_lives_def sent_cursor_def map_filter_simps
      add_timer_def is_cursor_timer_def kTaskTimerValue_def kTextboxCursorTimer_def running_cursor_def [of "[]"])

lemma main_reachable_cursor: "main_reachable be x \<Longrightarrow> cursor_inv (snd x)"
proof (unfold main_reachable_def, elim exE)
  fix s k
  assume "(main_step (be_main be))\<^sup>*\<^sup>* (s, snd (start_tasks be new_timer_manager k)) x"
  then show "cursor_inv (snd x)"
    by (induction rule: rtranclp_induct) (auto simp: start_tasks_cursor dest: main_step_cursor)
qed

lemma initialize_mouse_keeps:
  "initialize_mouse k = Some (m, k') \<Longrightarrow> kn_timers k' = kn_timers k \<and> kn_tasks k' = kn_tasks k"
  by (auto simp: initialize_mouse_def Let_def new_window_object_def set_manager_def set_position_def bind_eq_Some_conv
      split: prod.splits)

text \<open>A start that does not give up gets there.\<close>

lemma kernel_start_reachable:
  assumes "kernel_start be device config memory_map v = Some (Inr (mc, s, k))"
  shows "main_reachable be (s, k)"
proof -
  obtain pm flags k1 k2 l m where
    l: "initialize_lapic_timer pm flags (be_count be) = Some l"
    and k2: "initialize_mouse (snd (start_tasks be (snd (snd l)) k1)) = Some (m, k2)" and k: "k = new_terminal_task (be_shell be) k2"
    using assms unfolding kernel_start_def by (auto simp: bind_eq_Some_conv split_def)
  let ?k = "snd (start_tasks be new_timer_manager k1)"
  have "snd (snd l) = new_timer_manager" using l by (auto simp: initialize_lapic_timer_def Let_def bind_eq_Some_conv)
  then have keeps: "kn_timers k2 = kn_timers ?k" "kn_tasks k2 = kn_tasks ?k"
    using initialize_mouse_keeps [OF k2] by simp_all
  then have "main_lives (kn_tasks k2)"
    using start_tasks_parts(2) [of be k1] by (simp add: main_lives_def)
  then have "kn_timers k = kn_timers ?k" "inbox (kn_tasks k) 1 = inbox (kn_tasks ?k) 1"
    using new_terminal_task_keeps [of k2 "be_shell be"] k keeps by simp_all
  then have "main_step (be_main be) (s, ?k) (s, k)" by (rule main_step.other)
  then show ?thesis unfolding main_reachable_def by blast
qed

text \<open>C9: From the start on there is always exactly one timeout of the text box's cursor under way: one
  timer is running, and ends within half a second (50 ticks), or its message waits in the main task's queue.
  So the cursor never stops blinking and never blinks twice as fast, whatever keys, devices, layer operations, messages and
  timers of other tasks come in between.\<close>

theorem cursor_keeps_blinking:
  assumes "main_reachable be (s, k)"
  shows "inbox (kn_tasks k) 1 \<noteq> None \<and>
    (\<exists>t \<le> tick (kn_timers k) + 50.
      (running_cursor (timers (kn_timers k)) = {#t#} \<and> sent_cursor (kn_tasks k) = {#}) \<or>
      (running_cursor (timers (kn_timers k)) = {#} \<and> sent_cursor (kn_tasks k) = {#t#} \<and> t \<le> tick (kn_timers k)))"
proof -
  have inv: "cursor_inv k" using main_reachable_cursor [OF assms] by simp
  then obtain t where t: "t \<le> tick (kn_timers k) + 50"
    "running_cursor (timers (kn_timers k)) + sent_cursor (kn_tasks k) = {#t#}"
    by (auto simp: cursor_inv_def cursor_timeouts_def kTimer05Sec_def)
  then show ?thesis using inv by (auto simp: union_is_single cursor_inv_def main_lives_def)
qed

text \<open>The state after the start and a first tick.\<close>

lemma tick_after_start:
  fixes be k
  defines "k0 \<equiv> snd (start_tasks be new_timer_manager k)"
  shows "timer_tick (kn_timers k0) (kn_tasks k0) = Some (False, (kn_timers k0)\<lparr>tick := 1\<rparr>, kn_tasks k0)"
    "running_cursor (timers (kn_timers k0)) = {#50#}"
proof -
  have q: "timers (kn_timers k0) = [\<lparr>timeout = 2, timer_val = kTaskTimerValue, timer_task = 1\<rparr>,
      \<lparr>timeout = kTimer05Sec, timer_val = kTextboxCursorTimer, timer_task = 1\<rparr>,
      \<lparr>timeout = timer_sentinel, timer_val = 0, timer_task = 0\<rparr>]"
    unfolding k0_def start_tasks_parts
    by (simp add: add_timer_def timer_less_def kTimer05Sec_def timer_sentinel_def)
  moreover have "tick (kn_timers k0) = 0" by (simp add: k0_def start_tasks_parts [simplified])
  ultimately show "timer_tick (kn_timers k0) (kn_tasks k0) = Some (False, (kn_timers k0)\<lparr>tick := 1\<rparr>, kn_tasks k0)"
    by (simp add: timer_tick_def tick_loop.simps)
  show "running_cursor (timers (kn_timers k0)) = {#50#}"
    unfolding q by (simp add: running_cursor_def is_cursor_timer_def kTaskTimerValue_def kTextboxCursorTimer_def kTimer05Sec_def)
qed

theorem cursor_keeps_blinking_witness:
  "\<forall>be s k. \<exists>k'. main_reachable be (s, k') \<and> tick (kn_timers k') = 1 \<and> sent_cursor (kn_tasks k') = {#}"
proof (intro allI)
  fix be s k
  let ?k = "snd (start_tasks be new_timer_manager k)"
  let ?k' = "set_tasks (kn_tasks ?k) (?k\<lparr>kn_timers := (kn_timers ?k)\<lparr>tick := 1\<rparr>\<rparr>)"
  have "main_step (be_main be) (s, ?k) (s, ?k')" by (rule main_step.tick [OF tick_after_start(1)])
  then have r: "main_reachable be (s, ?k')" unfolding main_reachable_def by blast
  moreover have "sent_cursor (kn_tasks ?k') = {#}"
    using cursor_keeps_blinking [OF r] tick_after_start(2) [of be k] by auto
  ultimately show "\<exists>k'. main_reachable be (s, k') \<and> tick (kn_timers k') = 1 \<and> sent_cursor (kn_tasks k') = {#}"
    by (intro exI [of _ ?k']) simp
qed

end
