(* ===== verification/Desktop_Facts.thy ===== *)
theory Desktop_Facts imports Kernel_Start Layer_Active Layer_Draw Gui_Sample begin

text \<open>
  The screen after the start: with a pixel format the kernel knows, the console, the background, the two
  windows of the kernel and the pointer are set up without failing, on five layers in that order.
\<close>

section \<open>The console before the layers\<close>

abbreviation config_of :: "layer_manager \<Rightarrow> frame_buffer_config" where
  "config_of lm \<equiv> fb_config (screen_fb lm)"

lemma write_to_config: "write_to w ds lm = Some lm' \<Longrightarrow> config_of lm' = config_of lm"
  by (auto simp: write_to_def split: option.splits console_writer.splits)

lemma write_rows_config: "write_rows fonts c rows lm = Some lm' \<Longrightarrow> config_of lm' = config_of lm"
  by (induction rows arbitrary: lm) (auto simp: write_row_def bind_eq_Some_conv dest!: write_to_config)

lemma con_refresh_config: "con_refresh fonts c lm = Some lm' \<Longrightarrow> config_of lm' = config_of lm"
  by (auto simp: con_refresh_def clear_console_def bind_eq_Some_conv dest!: write_to_config write_rows_config)

lemma scroll_rows_config: "scroll_rows fonts rows c lm = Some (c', lm') \<Longrightarrow> config_of lm' = config_of lm"
  by (induction rows arbitrary: c lm) (auto simp: write_row_def Let_def bind_eq_Some_conv dest!: write_to_config)

lemma con_newline_config: "con_newline fonts c lm = Some (c', lm') \<Longrightarrow> config_of lm' = config_of lm"
  by (auto simp: con_newline_def Let_def clear_console_def bind_eq_Some_conv
      dest!: write_to_config scroll_rows_config split: if_splits option.splits)

lemma con_chars_config: "con_chars fonts bs c lm = Some (c', lm') \<Longrightarrow> config_of lm' = config_of lm"
  by (induction bs arbitrary: c lm)
    (auto simp: con_char_def bind_eq_Some_conv dest!: write_to_config con_newline_config split: if_splits)

text \<open>The first text appears on the console.\<close>

lemma start_screen_works:
  assumes "pixel_format config \<noteq> kPixelUnknown"
  shows "\<exists>con k. start_screen be device config v = Some (Inr (con, k)) \<and>
    boot_console (bytes_of ''Welcome to MikanOS_X'' @ [10]) con \<and> config_of (manager (kn_gui k)) = config \<and> kn_next_window k = 0"
proof -
  let ?s = "bytes_of ''Welcome to MikanOS_X'' @ [10]"
  obtain fb where fb: "initialize_graphics device config = Inr fb" "fb_config fb = config"
    using assms by (auto simp: initialize_graphics_def Let_def)
  let ?k = "blank_kernel be fb v"
  obtain con lm where start: "initialize_console (be_fonts be) (manager (kn_gui ?k)) = Some (con, lm)" "boot_console [] con"
    using console_starts by blast
  have "ascii_bytes ?s" by code_simp
  then obtain con' lm' where print: "con_chars (be_fonts be) ?s con lm = Some (con', lm')" "boot_console ?s con'"
    using chars_show [OF start(2), of ?s "be_fonts be" lm] by auto
  have "config_of lm = config"
    using start(1) fb(2) by (auto simp: initialize_console_def con_set_writer_def Let_def bind_eq_Some_conv blank_kernel_def
        dest!: con_refresh_config split: if_splits)
  then have "config_of lm' = config" using con_chars_config [OF print(1)] by simp
  moreover have "length ?s < 1024" by (simp add: bytes_of_def)
  ultimately show ?thesis
    using fb start print by (simp add: start_screen_def unless_exit_def printk_def con_put_string_def set_manager_def blank_kernel_def)
qed

section \<open>The layers\<close>

text \<open>What the layer manager holds.\<close>

definition holds :: "layer_manager \<Rightarrow> layer list \<Rightarrow> nat list \<Rightarrow> pixel_format \<Rightarrow> bool" where
  "holds lm ls st f \<longleftrightarrow> layers lm = ls \<and> layer_stack lm = st \<and> latest_layer_id lm = length ls \<and>
     pixel_format (config_of lm) = f"

abbreviation a_layer :: "nat \<Rightarrow> vec2 \<Rightarrow> nat \<Rightarrow> bool \<Rightarrow> layer" where
  "a_layer i pos h d \<equiv> \<lparr>layer_id = i, layer_pos = pos, layer_window = Some h, draggable = d\<rparr>"

lemma update_new_layer:
  assumes "\<forall>l \<in> set ls. layer_id l \<noteq> i"
  shows "map (\<lambda>l. if layer_id l = i then f l else l) ls = ls"
    "find (\<lambda>l. layer_id l = i) (ls @ l # ls') = find (\<lambda>l. layer_id l = i) (l # ls')"
  using assms by (induction ls) auto

lemma make_layer_holds:
  assumes "holds lm ls st f" "n = Suc (length ls)" "n < 4294967296" "\<forall>l \<in> set ls. layer_id l \<noteq> n"
    and g: "\<And>l. layer_id (g l) = layer_id l"
  shows "\<exists>lm'. make_layer g lm = (n, lm') \<and>
    holds lm' (ls @ [g \<lparr>layer_id = n, layer_pos = Vec 0 0, layer_window = None, draggable = False\<rparr>]) st f \<and>
    find_layer lm' n \<noteq> None"
proof -
  have "Suc (length ls) mod 2 ^ 32 = n" using assms(2,3) by simp
  then show ?thesis
    using assms update_new_layer [OF assms(4)]
    by (simp add: make_layer_def new_layer_def holds_def update_layer_def find_layer_def Let_def)
qed

lemma up_down_top:
  assumes "find_layer lm i \<noteq> None" "i \<notin> set (layer_stack lm)" "int (length (layer_stack lm)) \<le> h"
  shows "up_down i h lm = Some (lm\<lparr>layer_stack := layer_stack lm @ [i]\<rparr>)"
  using assms by (auto simp: up_down_def Let_def min_def insert_at_def)

lemma holds_stack [simp]: "holds lm ls st f \<Longrightarrow> holds (lm\<lparr>layer_stack := st'\<rparr>) ls st' f"
  by (simp add: holds_def)

lemma holds_windows [simp]: "holds (lm\<lparr>windows := ws\<rparr>) ls st f = holds lm ls st f"
  by (simp add: holds_def)

lemma top_window_works:
  assumes "holds (manager (kn_gui k)) ls st f" "n = Suc (length ls)" "n < 4294967296" "\<forall>l \<in> set ls. layer_id l \<noteq> n"
    "int (length st) \<le> int_max" "n \<notin> set st"
  shows "\<exists>k'. top_window w pos k = Some (kn_next_window k, n, k') \<and>
    holds (manager (kn_gui k')) (ls @ [a_layer n pos (kn_next_window k) True]) (st @ [n]) f \<and>
    kn_next_window k' = Suc (kn_next_window k) \<and> active_layer (kn_gui k') = active_layer (kn_gui k)"
proof -
  let ?lm = "(manager (kn_gui k))\<lparr>windows := (windows (manager (kn_gui k)))(kn_next_window k := w)\<rparr>"
  let ?g = "\<lambda>l. layer_move_to pos (set_draggable True (set_window (kn_next_window k) l))"
  have "holds ?lm ls st f" using assms(1) by simp
  from make_layer_holds [OF this assms(2-4), of ?g]
  obtain lm' where m: "make_layer ?g ?lm = (n, lm')" "find_layer lm' n \<noteq> None"
      "holds lm' (ls @ [a_layer n pos (kn_next_window k) True]) st f"
    by (auto simp: layer_move_to_def set_draggable_def set_window_def)
  then have "up_down n int_max lm' = Some (lm'\<lparr>layer_stack := st @ [n]\<rparr>)"
    using up_down_top [of lm' n int_max] assms(5,6) by (simp add: holds_def)
  then show ?thesis using m by (simp add: top_window_def new_window_object_def set_manager_def Let_def)
qed

lemma ascii_titles: "ascii_bytes (bytes_of ''Hello Window'')" "ascii_bytes (bytes_of ''Text Box Test'')"
  by code_simp+

lemma new_toplevel_window_ascii:
  assumes "ascii_bytes title"
  shows "\<exists>w. new_toplevel_window fonts a b f title = Some w"
proof -
  obtain ds where "write_string (fst fonts) (snd fonts) (Vec 24 4) title (to_color 0xffffff) = Some ds"
    using write_string_ascii [OF assms] unfolding write_string_def by blast
  then show ?thesis by (simp add: new_toplevel_window_def draw_window_def draw_window_title_def)
qed

lemma initialize_layer_works:
  assumes "pixel_format (config_of (manager (kn_gui k))) = f" "f \<noteq> kPixelUnknown" "kn_next_window k = 0"
    and con: "boot_console s con" "ascii_bytes s"
  shows "\<exists>con' k'. initialize_layer fonts con k = Some (Inr (con', k')) \<and> con_layer con' = 2 \<and>
    holds (manager (kn_gui k')) [a_layer 1 (Vec 0 0) 0 False, a_layer 2 (Vec 0 0) 1 False] [1, 2] f \<and>
    kn_next_window k' = 2 \<and> active_layer (kn_gui k') = 0"
proof -
  let ?con = "con\<lparr>con_window := Some 1, con_writer := Some (Window_Writer 1)\<rparr>"
  have asc: "ascii_rows (con_buffer ?con)" "length (con_buffer ?con) = 25"
    using console_shows_ascii [of s con] con by (simp_all add: boot_console_def)
  have "\<exists>lm'. con_refresh fonts ?con lm = Some lm'" for lm
  proof -
    obtain lm1 where "clear_console ?con lm = Some lm1"
      using write_to_ok [of ?con "Window_Writer 1"] unfolding clear_console_def by auto
    then show ?thesis using write_rows_ok [OF asc(1), of "[0..<25]" "Window_Writer 1" fonts lm1] asc(2)
      by (auto simp: con_refresh_def console_rows_def)
  qed
  moreover have "con_window con = None" using con(1) by (simp add: boot_console_def)
  ultimately have win: "\<exists>lm'. con_set_window fonts 1 con lm = Some (?con, lm') \<and> config_of lm' = config_of lm" for lm
    using con_refresh_config [of fonts ?con lm] by (fastforce simp: con_set_window_def Let_def)
  let ?config = "config_of (manager (kn_gui k))"
  let ?bg = "win_draw (draw_desktop (vx (config_size ?config)) (vy (config_size ?config)))
    (new_window (vx (config_size ?config)) (vy (config_size ?config)) f)"
  let ?cw = "new_window (int console_columns * 8) (int console_rows * 16) f"
  let ?lm = "(manager (kn_gui k))\<lparr>windows := (windows (manager (kn_gui k)))(0 := ?bg, 1 := ?cw)\<rparr>"
  obtain lm where lm: "con_set_window fonts 1 con ?lm = Some (?con, lm)" using win by blast
  obtain scr where scr: "fb_initialize (fb_mem (screen_fb lm)) ?config = (kSuccess, scr)" "pixel_format (fb_config scr) = f"
    using assms(1,2) by (cases f; cases "frame_buffer_null ?config") (auto simp: fb_initialize_def bytes_per_pixel_def)
  have "holds (empty_manager scr lm) [] [] f" using scr(2) by (simp add: holds_def empty_manager_def set_writer_def)
  from make_layer_holds [OF this, of 1 "\<lambda>l. layer_move_to (Vec 0 0) (set_window 0 l)"]
  obtain lm1 where m1: "make_layer (\<lambda>l. layer_move_to (Vec 0 0) (set_window 0 l)) (empty_manager scr lm) = (1, lm1)"
      "holds lm1 [a_layer 1 (Vec 0 0) 0 False] [] f"
    by (auto simp: layer_move_to_def set_window_def)
  from make_layer_holds [OF m1(2), of 2 "\<lambda>l. layer_move_to (Vec 0 0) (set_window 1 l)"]
  obtain lm2 where m2: "make_layer (\<lambda>l. layer_move_to (Vec 0 0) (set_window 1 l)) lm1 = (2, lm2)"
      "holds lm2 [a_layer 1 (Vec 0 0) 0 False, a_layer 2 (Vec 0 0) 1 False] [] f"
    by (auto simp: layer_move_to_def set_window_def)
  have "up_down 1 0 lm2 = Some (lm2\<lparr>layer_stack := [1]\<rparr>)"
    using m2(2) up_down_top [of lm2 1 0] by (simp add: holds_def find_layer_def)
  moreover have "up_down 2 1 (lm2\<lparr>layer_stack := [1]\<rparr>) = Some (lm2\<lparr>layer_stack := [1, 2]\<rparr>)"
    using m2(2) up_down_top [of "lm2\<lparr>layer_stack := [1]\<rparr>" 2 1] by (simp add: holds_def find_layer_def)
  ultimately show ?thesis
    using lm scr m1(1) m2 assms(1,3)
    by (simp add: initialize_layer_def new_window_object_def set_manager_def con_set_layer_id_def is_error_def Let_def)
qed

lemma draw_area_holds [simp]: "holds (draw_area r lm) ls st f = holds lm ls st f"
  by (simp add: holds_def draw_area_def Let_def)

text \<open>A known pixel format, whatever the fonts: the start of the screen succeeds.\<close>

lemma start_layers_works:
  assumes "pixel_format (config_of (manager (kn_gui k))) = f" "f \<noteq> kPixelUnknown" "kn_next_window k = 0"
    and con: "boot_console s con" "ascii_bytes s"
  shows "\<exists>con' tb k'. start_layers be con k = Some (Inr (con', (2, 3), tb, k')) \<and> con_layer con' = 2 \<and>
    tb_window tb = 3 \<and> tb_layer tb = 4 \<and> tb_index tb = 0 \<and>
    holds (manager (kn_gui k')) [a_layer 1 (Vec 0 0) 0 False, a_layer 2 (Vec 0 0) 1 False, a_layer 3 (Vec 50 100) 2 True,
      a_layer 4 (Vec 400 100) 3 True] [1, 2, 3, 4] f \<and> kn_next_window k' = 4 \<and> active_layer (kn_gui k') = 0"
proof -
  obtain con' k1 where k1: "initialize_layer (be_fonts be) con k = Some (Inr (con', k1))" "con_layer con' = 2"
      "holds (manager (kn_gui k1)) [a_layer 1 (Vec 0 0) 0 False, a_layer 2 (Vec 0 0) 1 False] [1, 2] f"
      "kn_next_window k1 = 2" "active_layer (kn_gui k1) = 0"
    using initialize_layer_works [OF assms] by blast
  obtain w where w: "new_toplevel_window (be_fonts be) 160 52 (screen_format k1) (bytes_of ''Hello Window'') = Some w"
    using new_toplevel_window_ascii [OF ascii_titles(1)] by blast
  obtain k2 where k2: "top_window w (Vec 50 100) k1 = Some (2, 3, k2)"
      "holds (manager (kn_gui k2)) [a_layer 1 (Vec 0 0) 0 False, a_layer 2 (Vec 0 0) 1 False, a_layer 3 (Vec 50 100) 2 True] [1, 2, 3] f"
      "kn_next_window k2 = 3" "active_layer (kn_gui k2) = 0"
    using top_window_works [OF k1(3), of 3 w "Vec 50 100"] k1(4,5) by (auto simp: int_max_def)
  obtain w' where w': "new_toplevel_window (be_fonts be) 160 52 (screen_format k2) (bytes_of ''Text Box Test'') = Some w'"
    using new_toplevel_window_ascii [OF ascii_titles(2)] by blast
  let ?w = "win_draw (inner_area (draw_textbox (Vec 0 0) (inner_size w'))) w'"
  obtain k3 where k3: "top_window ?w (Vec 400 100) k2 = Some (3, 4, k3)"
      "holds (manager (kn_gui k3)) [a_layer 1 (Vec 0 0) 0 False, a_layer 2 (Vec 0 0) 1 False, a_layer 3 (Vec 50 100) 2 True,
        a_layer 4 (Vec 400 100) 3 True] [1, 2, 3, 4] f"
      "kn_next_window k3 = 4" "active_layer (kn_gui k3) = 0"
    using top_window_works [OF k2(2), of 4 ?w "Vec 400 100"] k2(3,4) by (auto simp: int_max_def)
  show ?thesis
    using k1 k2(1) k3 w w'
    by (simp add: start_layers_def unless_exit_def initialize_main_window_def initialize_text_window_def set_manager_def)
qed

section \<open>The pointer\<close>

lemma move_new_layer:
  assumes "holds lm ls st f" "find_layer lm i = Some l" "window_of lm l = Some w"
  shows "\<exists>lm'. lm_move i pos lm = Some lm' \<and> layer_stack lm' = st \<and>
    layers lm' = map (\<lambda>l. if layer_id l = i then layer_move_to pos l else l) ls"
proof -
  let ?lm = "draw_area (Rect (layer_pos l) (win_size w)) (update_layer i (layer_move_to pos) lm)"
  have "find (\<lambda>l. layer_id l = i) (map (\<lambda>l. if layer_id l = i then layer_move_to pos l else l) ls) =
      map_option (layer_move_to pos) (find (\<lambda>l. layer_id l = i) ls)" for ls
    by (induction ls) (auto simp: layer_move_to_def)
  then have "find_layer ?lm i = Some (layer_move_to pos l)"
    using assms(2) by (simp add: find_layer_def update_layer_def draw_area_def Let_def)
  moreover have "window_of ?lm (layer_move_to pos l) = Some w"
    using assms(3) by (simp add: window_of_def update_layer_def draw_area_def layer_move_to_def Let_def)
  ultimately obtain lm' where "draw_layer i ?lm = Some lm'" "layer_stack lm' = layer_stack ?lm" "layers lm' = layers ?lm"
    using draw_layer_Some by blast
  then show ?thesis using assms by (simp add: lm_move_def move_with_def holds_def draw_area_def update_layer_def Let_def)
qed

lemma initialize_mouse_works:
  assumes "holds (manager (kn_gui k)) ls st f" "n = Suc (length ls)" "n < 4294967296" "\<forall>l \<in> set ls. layer_id l \<noteq> n"
    "int (length st) \<le> int_max" "n \<notin> set st"
  shows "\<exists>m k'. initialize_mouse k = Some (m, k') \<and> mouse_layer (kn_gui k') = n \<and> mouse_layer_id m = n \<and>
    position m = Vec 200 200 \<and> layer_stack (manager (kn_gui k')) = st @ [n] \<and>
    layers (manager (kn_gui k')) = ls @ [a_layer n (Vec 200 200) (kn_next_window k) False] \<and>
    active_layer (kn_gui k') = active_layer (kn_gui k)"
proof -
  let ?h = "kn_next_window k"
  let ?w = "win_draw (draw_mouse_cursor (Vec 0 0)) ((new_window 15 24 (screen_format k))\<lparr>transparent_color := Some mouse_transparent_color\<rparr>)"
  let ?lm = "(manager (kn_gui k))\<lparr>windows := (windows (manager (kn_gui k)))(?h := ?w)\<rparr>"
  have "holds ?lm ls st f" using assms(1) by simp
  from make_layer_holds [OF this assms(2-4), of "set_window ?h"]
  obtain lm1 where m: "make_layer (set_window ?h) ?lm = (n, lm1)" "holds lm1 (ls @ [a_layer n (Vec 0 0) ?h False]) st f"
    by (auto simp: set_window_def)
  have l: "find_layer lm1 n = Some (a_layer n (Vec 0 0) ?h False)"
    using m(2) update_new_layer(2) [OF assms(4)] by (simp add: holds_def find_layer_def)
  obtain lm2 where mv: "lm_move n (Vec 200 200) lm1 = Some lm2" "layer_stack lm2 = st"
      "layers lm2 = ls @ [a_layer n (Vec 200 200) ?h False]"
    using move_new_layer [OF m(2) l, of "windows lm1 ?h" "Vec 200 200"] update_new_layer(1) [OF assms(4)]
    by (auto simp: window_of_def layer_move_to_def)
  have "find_layer lm2 n \<noteq> None" using mv(3) update_new_layer(2) [OF assms(4)] by (simp add: find_layer_def)
  then have "up_down n int_max lm2 = Some (lm2\<lparr>layer_stack := st @ [n]\<rparr>)"
    using up_down_top [of lm2 n int_max] mv(2) assms(5,6) by simp
  then show ?thesis
    using m(1) mv by (simp add: initialize_mouse_def new_window_object_def set_manager_def set_position_def Let_def)
qed



end
