(* ===== verification/Shell_Facts.thy ===== *)
theory Shell_Facts imports Shell Pipe Syscall_Facts begin

text \<open>
  Whole lines of the shell: what the command \<^verbatim>\<open>echo\<close> writes through a pipe to a second command, and what it
  leaves in a file to which its output is redirected.
\<close>

section \<open>Cutting up the line\<close>

lemma c_string_at: "0 \<notin> set s \<Longrightarrow> c_string (s @ 0 # ys) = s"
  by (induction s) (auto simp: c_string_def)

lemma strchr_at:
  assumes "c \<notin> set xs" "0 \<notin> set xs" "c \<noteq> 0"
  shows "strchr c (xs @ c # ys) = Some (length xs)"
proof -
  have "takeWhile (\<lambda>b. b \<noteq> c) (xs @ c # zs) = xs" for zs using assms(1) by (induction xs) auto
  moreover have "c_string (xs @ c # ys) = xs @ c # c_string ys" using assms(2,3) by (induction xs) (auto simp: c_string_def)
  ultimately show ?thesis by (simp add: strchr_def Let_def)
qed

lemma strchr_none: "c \<notin> set xs \<Longrightarrow> 0 \<notin> set xs \<Longrightarrow> strchr c (xs @ 0 # ys) = None"
  by (simp add: strchr_def c_string_at Let_def)

lemma str_at_length: "0 \<notin> set s \<Longrightarrow> str_at_pos (xs @ s @ 0 # ys) (length xs) = s"
  by (simp add: str_at_pos_def c_string_at)

lemma skip_spaces_at:
  assumes "\<forall>c \<in> set sps. is_space c" "ys = [] \<or> \<not> is_space (hd ys)"
  shows "skip_spaces (xs @ sps @ ys) (length xs) = length xs + length sps"
proof -
  have "takeWhile is_space (sps @ ys) = sps" using assms by (induction sps) (cases ys; auto)+
  then show ?thesis by (simp add: skip_spaces_def)
qed

text \<open>The line \<^verbatim>\<open>echo ARG| SUB\<close> or \<^verbatim>\<open>echo ARG> SUB\<close> in the buffer; \<open>c\<close> is its separator, \<open>d\<close> the other.\<close>

definition separators :: "(u8 \<times> u8) set" where
  "separators = {(0x7c, 0x3e), (0x3e, 0x7c)}"

lemma echo_line_cut:
  assumes buf: "buf = bytes_of ''echo '' @ arg @ c # sps @ sub @ 0 # rest"
    and sep: "(c, d) \<in> separators"
    and chars: "0 \<notin> set (arg @ sub)" "c \<notin> set arg" "d \<notin> set (arg @ sub)"
    and first: "arg \<noteq> []" "\<not> is_space (hd arg)" "sub \<noteq> []" "\<not> is_space (hd sub)" "\<forall>x \<in> set sps. x = 0x20"
  defines "buf1 \<equiv> bytes_of ''echo'' @ 0 # arg @ c # sps @ sub @ 0 # rest"
    and "buf2 \<equiv> bytes_of ''echo'' @ 0 # arg @ 0 # sps @ sub @ 0 # rest"
  shows "strchr d buf = None" "strchr c buf = Some (5 + length arg)" "split_command buf = (buf1, Some 5)"
    "buf1[5 + length arg := 0] = buf2" "str_at_pos buf2 0 = bytes_of ''echo''" "str_at_pos buf2 5 = arg"
    "str_at_pos buf2 (skip_spaces buf2 (5 + length arg + 1)) = sub"
proof -
  have e: "bytes_of ''echo '' = [0x65, 0x63, 0x68, 0x6f, 0x20]" "bytes_of ''echo'' = [0x65, 0x63, 0x68, 0x6f]"
    by (simp_all add: bytes_of_def)
  have cd: "c \<noteq> 0" "d \<noteq> c" "c \<notin> set (bytes_of ''echo '')" "d \<notin> set (bytes_of ''echo '')" "d \<noteq> 0x20" "d \<noteq> 0"
    using sep by (auto simp: separators_def e)
  have "d \<notin> set sps" "0 \<notin> set sps" using first(5) cd(5) by auto
  then show "strchr d buf = None"
    using strchr_none [of d "bytes_of ''echo '' @ arg @ c # sps @ sub" rest] chars cd unfolding buf by (simp add: e)
  show "strchr c buf = Some (5 + length arg)"
    using strchr_at [of c "bytes_of ''echo '' @ arg" "sps @ sub @ 0 # rest"] chars cd unfolding buf by (simp add: e)
  have sp: "strchr 0x20 buf = Some 4"
    using strchr_at [of "0x20" "bytes_of ''echo''" "arg @ c # sps @ sub @ 0 # rest"] unfolding buf by (simp add: e)
  have "buf[4 := 0] = buf1" unfolding buf buf1_def by (simp add: e)
  moreover have "skip_spaces buf1 5 = 5"
    using skip_spaces_at [of "[]" "arg @ c # sps @ sub @ 0 # rest" "bytes_of ''echo'' @ [0]"] first(1,2)
    unfolding buf1_def by (simp add: e eval_nat_numeral)
  ultimately show "split_command buf = (buf1, Some 5)" using sp by (simp add: split_command_def Let_def)
  show "buf1[5 + length arg := 0] = buf2"
    unfolding buf1_def buf2_def by (simp add: e list_update_append)
  show "str_at_pos buf2 0 = bytes_of ''echo''" by (simp add: buf2_def str_at_pos_def c_string_def e)
  show "str_at_pos buf2 5 = arg"
    using str_at_length [of arg "bytes_of ''echo'' @ [0]" "sps @ sub @ 0 # rest"] chars(1) unfolding buf2_def by (simp add: e eval_nat_numeral)
  have "\<forall>x \<in> set sps. is_space x" using first(5) by (auto simp: is_space_def)
  then have "skip_spaces buf2 (5 + length arg + 1) = 5 + length arg + 1 + length sps"
    using skip_spaces_at [of sps "sub @ 0 # rest" "bytes_of ''echo'' @ 0 # arg @ [0]"] first(3,4)
    unfolding buf2_def by (simp add: e eval_nat_numeral)
  then show "str_at_pos buf2 (skip_spaces buf2 (5 + length arg + 1)) = sub"
    using str_at_length [of sub "bytes_of ''echo'' @ 0 # arg @ 0 # sps" rest] chars(1) unfolding buf2_def by (simp add: e eval_nat_numeral)
qed

section \<open>A pipe to a new task\<close>

lemma kernel_simps [simp]:
  "kn_terms (set_tasks tm k) = kn_terms k" "kn_files (set_tasks tm k) = kn_files k" "kn_descs (set_tasks tm k) = kn_descs k"
  "kn_tasks (set_tasks tm k) = tm" "kn_terms (set_term i t g k) = (kn_terms k)[i := t]" "kn_files (set_term i t g k) = kn_files k"
  "kn_descs (set_term i t g k) = kn_descs k" "kn_gui (set_term i t g k) = g"
  "kn_terms (set_layer_task l tid k) = kn_terms k" "kn_files (set_layer_task l tid k) = kn_files k"
  "kn_descs (set_layer_task l tid k) = kn_descs k" "kn_tasks (set_layer_task l tid k) = kn_tasks k"
  by (simp_all add: set_tasks_def set_term_def set_layer_task_def)

lemma new_task_inbox:
  assumes "sched_inv tm" "new_task tm = (tid, tm')"
  shows "inbox tm' tid = Some []" "sched_inv tm'" "inbox tm tid = None" "tid = latest_id tm + 1"
proof -
  have n: "find_task tm tid = None" "sched_inv tm'" using new_task_keeps(1,7) [OF assms(1)] assms(2) by simp_all
  have "find P (xs @ [y]) = (if P y then Some y else None)" if "find P xs = None" for P and xs :: "task list" and y
    using that by (induction xs) auto
  then show "inbox tm' tid = Some []"
    using n(1) assms(2) by (auto simp: new_task_def Let_def inbox_def find_task_def new_task_record_def)
  show "sched_inv tm'" "inbox tm tid = None" "tid = latest_id tm + 1"
    using n assms(2) by (auto simp: inbox_def new_task_def Let_def)
qed

lemma start_pipe_works:
  assumes inv: "sched_inv (kn_tasks k)" and i: "i < length (kn_terms k)" "1 < length (term_files (term_at i k))"
    and new: "tid = latest_id (kn_tasks k) + 1" "h = length (kn_files k)"
  shows "\<exists>k'. start_pipe env i sub k = (h, tid, k') \<and> inbox (kn_tasks k') tid = Some [] \<and> sched_inv (kn_tasks k') \<and>
    is_running (kn_tasks k') tid \<and> kn_files k' = kn_files k @ [Pipe_File (new_pipe tid)] \<and>
    kn_descs k' = kn_descs k @ [\<lparr>td_command_line = sub, td_exit_after_command = True, td_show_window = False,
      td_files = [h, std_file i 1 k, std_file i 2 k]\<rparr>] \<and>
    kn_terms k' = (kn_terms k)[i := (term_at i k)\<lparr>term_files := (term_files (term_at i k))[1 := h]\<rparr>] \<and>
    layer_task_map (kn_gui k') (term_layer (term_at i k)) = Some tid"
proof -
  obtain tm where tm: "new_task (kn_tasks k) = (tid, tm)" using new by (simp add: new_task_def Let_def)
  note n = new_task_inbox [OF inv tm]
  let ?f = "init_context (ev_stack_end env tid) (ev_cr3 env) (ev_task_terminal env) (of_nat (Suc (length (kn_descs k))))"
  let ?tm = "update_task tid ?f tm"
  have keeps: "task_id (?f t) = task_id t" "task_level (?f t) = task_level t" "task_running (?f t) = task_running t"
    "msgs (?f t) = msgs t" for t
    by (simp_all add: init_context_def)
  have inv': "sched_inv ?tm" using n(2) sched_inv_update [of ?f tid tm, OF keeps(1-3)] by blast
  have box: "inbox ?tm tid = Some []"
    using n(1) find_task_update [of ?f tid tm tid, OF keeps(1)] keeps(4) by (auto simp: inbox_def)
  then have "find_task ?tm tid \<noteq> None" by (auto simp: inbox_def)
  note w = wakeup_keeps [OF inv' this, of "- 1"]
  show ?thesis
    using tm box w new i
    by (simp add: start_pipe_def new_file_object_def start_task_def set_std_out_def upd_term_def std_file_def term_at_def
        set_layer_task_def kMaxLevel_def Let_def split_def)
qed

lemma say_pipe:
  assumes "kn_files k ! std_file i n k = Pipe_File p" "length s < 128"
  shows "say env i n s k = Some (set_tasks (pipe_write_loop (pipe_task p) (replicate 16 0) s (kn_tasks k)) k)"
proof -
  have "map (stack_buffer s k) [0..<length s] = s" by (rule nth_equalityI) (simp_all add: stack_buffer_def)
  then show ?thesis using assms by (simp add: say_def print_to_fd_def file_write_def pipe_write_def)
qed

lemma pipe_write_running:
  assumes "sched_inv tm" "is_running tm j"
  shows "is_running (pipe_write_loop tid d bs tm) j"
  using assms
proof (induction tid d bs tm rule: pipe_write_loop.induct)
  case (1 tid d bs tm)
  then show ?case
    by (cases "bs = []") (simp_all add: pipe_write_loop.simps [of tid d bs tm] pipe_write_loop.simps [of tid d "[]" tm] Let_def mail.send_ok mail.send_runnable)
qed

section \<open>\<^verbatim>\<open>echo\<close> into a pipe\<close>


text \<open>The sample kernel with one terminal, in whose line stands \<^verbatim>\<open>echo hi| cat\<close>.\<close>

definition pipe_kernel :: kernel where
  "pipe_kernel = sample_kernel\<lparr>kn_terms := [(blank_terminal 3 False [0, 0, 0])\<lparr>linebuf :=
     bytes_of ''echo '' @ bytes_of ''hi'' @ 0x7c # [0x20] @ bytes_of ''cat'' @ 0 # replicate 115 0\<rparr>]\<rparr>"

lemma pipe_kernel_tasks: "kn_tasks pipe_kernel = sample_tasks" "latest_id (kn_tasks pipe_kernel) = 3" "sched_inv (kn_tasks pipe_kernel)"
proof -
  show "kn_tasks pipe_kernel = sample_tasks" by (simp add: pipe_kernel_def sample_kernel_def)
  moreover have "latest_id two_tasks = 3" by (simp add: two_tasks_def wakeup_id_def wakeup_task_def task_eval)
  ultimately show "latest_id (kn_tasks pipe_kernel) = 3" by (simp add: sample_tasks_def)
  have "sched_inv two_tasks" using reachable_inv [OF two_tasks_reachable] by simp
  then show "sched_inv (kn_tasks pipe_kernel)"
    unfolding \<open>kn_tasks pipe_kernel = sample_tasks\<close> sample_tasks_def by (subst sched_inv_update) simp_all
qed


section \<open>\<^verbatim>\<open>echo\<close> into a file\<close>

text \<open>A descriptor that writes into the first cluster of its file from the start: the file holds \<open>bs\<close> so far.\<close>

definition head_writer :: "volume \<Rightarrow> fat_fd \<Rightarrow> nat list \<Rightarrow> bytes \<Rightarrow> bool" where
  "head_writer v fd cs bs \<longleftrightarrow>
    (\<exists>e ds. volume_ok v \<and> chain v cs \<and> get_entry v (fat_entry fd) = Some e \<and> length e = 32 \<and> first_cluster e = hd cs \<and>
      chain v ds \<and> fst (fat_entry fd) \<in> set ds \<and> set ds \<inter> set cs = {} \<and> take (length bs) (cluster_at v (hd cs)) = bs \<and>
      length bs \<le> bytes_per_cluster v \<and> wr_off fd = length bs \<and> wr_cluster_off fd = length bs \<and>
      (wr_cluster fd = hd cs \<or> wr_cluster fd = 0) \<and> (bs \<noteq> [] \<longrightarrow> file_size e = length bs))"

lemma small_cluster: "bytes_per_cluster v < 2 ^ 32"
proof -
  have "unat (bytes_per_sector v) < 2 ^ 16" "unat (sectors_per_cluster v) < 2 ^ 8"
    using unsigned_less [of "bytes_per_sector v", where ?'a = nat] unsigned_less [of "sectors_per_cluster v", where ?'a = nat] by simp_all
  then have "unat (bytes_per_sector v) * unat (sectors_per_cluster v) < 2 ^ 16 * 2 ^ 8" by (intro mult_strict_mono) auto
  then show ?thesis by (simp add: bytes_per_cluster_def)
qed

lemma head_write:
  assumes "head_writer v fd cs bs" "0 < len" "length bs + len \<le> bytes_per_cluster v"
  shows "\<exists>fd' v'. fd_write v fd buf len = Some (len, fd', v') \<and> head_writer v' fd' cs (bs @ map buf [0..<len]) \<and>
    fat_entry fd' = fat_entry fd \<and> bytes_per_cluster v' = bytes_per_cluster v"
proof -
  obtain e ds where v: "volume_ok v" "chain v cs" and e: "get_entry v (fat_entry fd) = Some e" "length e = 32" "first_cluster e = hd cs"
    and ds: "chain v ds" "fst (fat_entry fd) \<in> set ds" "set ds \<inter> set cs = {}" and bs: "take (length bs) (cluster_at v (hd cs)) = bs"
    and fd: "wr_off fd = length bs" "wr_cluster_off fd = length bs" "wr_cluster fd = hd cs \<or> wr_cluster fd = 0"
    using assms(1) unfolding head_writer_def by blast
  let ?c = "hd cs" and ?new = "map buf [0..<len]" and ?r = "fat_entry fd"
  have c: "is_data v ?c" using v(2) by (simp add: chain_data)
  then have start: "write_start v fd len = Some (v, ?c)" using fd(3) e(1,3) by (auto simp: write_start_def is_data_def)
  let ?bytes = "splice (length bs) ?new (cluster_at v ?c)"
  let ?v2 = "set_cluster ?c ?bytes v"
  note loop = write_loop_one [OF assms(2,3) c, of buf]
  have len: "length (cluster_at v ?c) = bytes_per_cluster v" by (rule cluster_at_length [OF v(1) c])
  have size: "length ?bytes = bytes_per_cluster v" using assms(3) len by (subst splice_length) auto
  note upd = set_cluster_facts [OF c, where bs = "splice (length bs) (map buf [0..<len]) (cluster_at v (hd cs))"]
  have r: "fst ?r \<noteq> ?c" "2 \<le> fst ?r" "is_data v (fst ?r)"
    using ds v(2) chain_data [OF ds(1,2)] by (auto simp: is_data_def disjoint_iff)
  have ge: "get_entry ?v2 ?r = Some e" using set_cluster_get_entry [OF c r(1,2)] e(1) by simp
  have n: "length bs + len < 2 ^ 32" using assms(3) small_cluster [of v] by linarith
  note sz = set_file_size_facts [OF e(2) n]
  let ?v3 = "set_dir_entry ?r (set_file_size (length bs + len) e) ?v2"
  have v2: "volume_ok ?v2" "is_data ?v2 (fst ?r)" "chain ?v2 cs" "chain ?v2 ds" using upd(3,4,6) v size r(3) ds(1) by simp_all
  note de = set_dir_entry_facts [OF v2(1,2) ge sz(3)]
  have "cluster_at ?v3 ?c = ?bytes" using de(2) [of ?c] r(1) upd(1,3) c by simp
  moreover have "take (length bs + len) ?bytes = bs @ ?new"
    using bs len assms(3) by (simp add: splice_def)
  ultimately have "take (length (bs @ ?new)) (cluster_at ?v3 ?c) = bs @ ?new" by simp
  then have "head_writer ?v3 (fd\<lparr>wr_off := length bs + len, wr_cluster := ?c, wr_cluster_off := length bs + len\<rparr>) cs (bs @ ?new)"
    unfolding head_writer_def using de v2 sz e(3) ds(2,3) assms(3) upd(5)
    by (intro exI [of _ "set_file_size (length bs + len) e"] exI [of _ ds]) simp
  moreover have "fd_write v fd buf len =
      Some (len, fd\<lparr>wr_off := length bs + len, wr_cluster := ?c, wr_cluster_off := length bs + len\<rparr>, ?v3)"
    using start loop ge fd(1,2) by (simp add: fd_write_def)
  ultimately show ?thesis using de(5) upd(5) by auto
qed

lemma head_writer_file:
  assumes "head_writer v fd cs bs" "bs \<noteq> []"
  shows "\<exists>e. get_entry v (fat_entry fd) = Some e \<and> load_file v (file_size e) e = Some bs"
proof -
  obtain e where v: "volume_ok v" "chain v cs" and e: "get_entry v (fat_entry fd) = Some e" "first_cluster e = hd cs" "file_size e = length bs"
    and bs: "take (length bs) (cluster_at v (hd cs)) = bs" "length bs \<le> bytes_per_cluster v"
    using assms unfolding head_writer_def by blast
  obtain c cs' where cs: "cs = c # cs'" using v(2) by (cases cs) auto
  have c: "is_data v c" using v(2) cs by (auto intro: chain_data)
  have len: "length (cluster_at v c) = bytes_per_cluster v" by (rule cluster_at_length [OF v(1) c])
  have b: "chain_bytes v cs = cluster_at v c @ chain_bytes v cs'" by (simp add: cs chain_bytes_Cons)
  have "first_cluster e \<noteq> 0" using e(2) c cs by (auto simp: is_data_def)
  then have "file_ok v e cs" using v e bs(2) len by (simp add: file_ok_def b)
  moreover have "file_bytes v e cs = bs" unfolding file_bytes_def b using e(3) bs len by (simp add: cs)
  ultimately show ?thesis using load_file_bytes e(1) by blast
qed

lemma say_file:
  assumes "kn_files k ! std_file i n k = Fat_File fd" "head_writer (kn_vol k) fd cs bs" "s \<noteq> []" "length s < 128"
    "length bs + length s \<le> bytes_per_cluster (kn_vol k)"
  shows "\<exists>fd' v'. say env i n s k = Some (set_file (std_file i n k) (Fat_File fd') (k\<lparr>kn_vol := v'\<rparr>)) \<and>
    head_writer v' fd' cs (bs @ s) \<and> fat_entry fd' = fat_entry fd \<and> bytes_per_cluster v' = bytes_per_cluster (kn_vol k)"
proof -
  have "map (stack_buffer s k) [0..<length s] = s" by (rule nth_equalityI) (simp_all add: stack_buffer_def)
  moreover obtain fd' v' where "fd_write (kn_vol k) fd (stack_buffer s k) (length s) = Some (length s, fd', v')"
      "head_writer v' fd' cs (bs @ map (stack_buffer s k) [0..<length s])" "fat_entry fd' = fat_entry fd"
      "bytes_per_cluster v' = bytes_per_cluster (kn_vol k)"
    using head_write [OF assms(2) _ assms(5), of "stack_buffer s k"] assms(3) by auto
  ultimately show ?thesis
    using assms(1,4) by (intro exI [of _ fd'] exI [of _ v']) (simp add: say_def print_to_fd_def file_write_def)
qed


text \<open>The sample kernel with one terminal, in whose line stands \<^verbatim>\<open>echo hi> A.TXT\<close>.\<close>

definition file_kernel :: kernel where
  "file_kernel = sample_kernel\<lparr>kn_terms := [(blank_terminal 3 False [0, 0, 0])\<lparr>linebuf :=
     bytes_of ''echo '' @ bytes_of ''hi'' @ 0x3e # [0x20] @ bytes_of ''A.TXT'' @ 0 # replicate 113 0\<rparr>]\<rparr>"


end
