(* ===== verification/User_Calls.thy ===== *)
theory User_Calls imports Syscall begin

text \<open>
  What the programs of \<^verbatim>\<open>apps\<close> have in common: the system calls that they make one after the other, as the list of
  a run's calls, and the answers of \<^verbatim>\<open>SyscallReadEvent\<close>, as the list of the inputs of a run. An answer is the
  error number and what stands in \<^verbatim>\<open>events[0]\<close> then. A run that has used up its inputs waits for the next one.
\<close>

(*@ apps/syscall.h:22-35 SyscallResult *)
datatype app_call =
    Open_Window int int int int bytes
  | Win_Fill u64 int int int int u32
  | Win_Text u64 int int u32 bytes
  | Win_Line u64 int int int int u32
  | Win_Redraw u64
  | Win_Close u64
  | Create_Timer nat int u64
  | Std_Out bytes
  | Std_Err bytes

type_synonym read_answer = "int \<times> app_event"

(*@ apps/syscall.h:24-24 LAYER_NO_REDRAW *)
definition LAYER_NO_REDRAW :: u64 where "LAYER_NO_REDRAW = 2 ^ 32"

end
