(* ===== verification/Text_Viewer.thy ===== *)
theory Text_Viewer imports User_Calls Shell begin

text \<open>
  \<^verbatim>\<open>apps/tview/tview.cpp\<close>: the viewer that shows a file in a window, one screen of lines at a time. The file is
  mapped: \<open>mem\<close> is what the program reads from the start of the mapping on, the first \<open>size\<close> bytes of it the file. A
  line is the pair of its position and its length. \<open>None\<close> of \<open>copy_utf8_string\<close> is a run that does not survive.
\<close>

section \<open>The lines of the file\<close>

(*@ apps/tview/tview.cpp:54-59 FindLines *)
definition next_lf :: "bytes \<Rightarrow> nat \<Rightarrow> nat" where
  "next_lf content s = s + length (takeWhile (\<lambda>b. b \<noteq> 10) (drop s content))"

text \<open>The loop of \<^verbatim>\<open>FindLines\<close> from the position \<open>p\<close> on, with what comes after it.\<close>

(*@ apps/tview/tview.cpp:61-69 FindLines *)
function find_lines_from :: "bytes \<Rightarrow> nat \<Rightarrow> (nat \<times> nat) list" where
  "find_lines_from content p =
    (let lf = next_lf content p
     in if lf < length content then (p, lf - p) # find_lines_from content (lf + 1)
        else if p < length content then [(p, length content - p)] else [])"
  by pat_completeness auto
termination by (relation "measure (\<lambda>(content, p). length content - p)") (auto simp: next_lf_def)

declare find_lines_from.simps [simp del]

(*@ apps/tview/tview.cpp:50-72 FindLines *)
definition find_lines :: "bytes \<Rightarrow> (nat \<times> nat) list" where
  "find_lines content = find_lines_from content 0"

definition line_text :: "bytes \<Rightarrow> nat \<times> nat \<Rightarrow> bytes" where
  "line_text content l = take (snd l) (drop (fst l) content)"

section \<open>A line for the screen\<close>

(*@ apps/tview/tview.cpp:74-85 CountUTFSize *)
definition count_utf_size :: "u8 \<Rightarrow> nat" where
  "count_utf_size c =
    (if c < 0x80 then 1
     else if 0xc0 \<le> c \<and> c < 0xe0 then 2
     else if 0xe0 \<le> c \<and> c < 0xf0 then 3
     else if 0xf0 \<le> c \<and> c < 0xf8 then 4
     else 0)"

text \<open>The loop of \<^verbatim>\<open>copyUTF8String\<close>: \<open>out\<close> is what stands in the buffer so far, \<open>src\<close> the position that is read
  next, \<open>x\<close> the column. A width of a tabulator of zero divides by zero, a negative one fills with a huge count. The
  result is the string in the buffer.\<close>

(*@ apps/tview/tview.cpp:94-125 copyUTF8String *)
function copy_loop :: "nat \<Rightarrow> (nat \<Rightarrow> u8) \<Rightarrow> nat \<Rightarrow> int \<Rightarrow> int \<Rightarrow> nat \<Rightarrow> int \<Rightarrow> bytes \<Rightarrow> bytes option" where
  "copy_loop dst_size mem src_end w tab src x out =
    (if mem src = 0 then Some out
     else if mem src = 9 then
       if tab \<le> 0 then None
       else
         let spaces = nat (tab - x mod tab)
         in if dst_size \<le> length out + spaces then Some out
            else copy_loop dst_size mem src_end w tab (src + 1) (x + int spaces) (out @ replicate spaces 32)
     else
       let x = x + (if mem src < 0x80 then 1 else 2)
       in if w \<le> x then Some out
          else
            let c = count_utf_size (mem src)
            in if src_end < src + c \<or> dst_size \<le> length out + c then Some out
               else copy_loop dst_size mem src_end w tab (src + c) x (out @ map mem [src..<src + c]))"
  by pat_completeness auto
termination
proof (relation "measure (\<lambda>(dst_size, mem, src_end, w, tab, src, x, out). (dst_size - length out) + nat (w - x))", goal_cases)
  case (2 dst_size mem src_end w tab src x out spaces)
  have "x mod tab < tab" using 2(3) by simp
  then have "1 \<le> spaces" using 2(4) by simp
  then show ?case using 2(5) by simp
qed (auto split: if_splits)

declare copy_loop.simps [simp del]

(*@ apps/tview/tview.cpp:87-126 copyUTF8String *)
definition copy_utf8_string :: "nat \<Rightarrow> (nat \<Rightarrow> u8) \<Rightarrow> nat \<Rightarrow> nat \<Rightarrow> int \<Rightarrow> int \<Rightarrow> bytes option" where
  "copy_utf8_string dst_size mem src src_size w tab = copy_loop dst_size mem (src + src_size) w tab src 0 []"

text \<open>The rows of one picture; a row without a line is left out.\<close>

(*@ apps/tview/tview.cpp:133-141 DrawLines *)
fun draw_rows :: "(nat \<Rightarrow> u8) \<Rightarrow> (nat \<times> nat) list \<Rightarrow> int \<Rightarrow> u64 \<Rightarrow> int \<Rightarrow> int \<Rightarrow> nat list \<Rightarrow> app_call list option" where
  "draw_rows mem lines start_line lid w tab [] = Some []"
| "draw_rows mem lines start_line lid w tab (i # is) =
    (let line_index = start_line + int i
     in if line_index < 0 \<or> int (length lines) \<le> line_index then draw_rows mem lines start_line lid w tab is
        else
          let (line, line_len) = lines ! nat line_index
          in do {
            buf \<leftarrow> copy_utf8_string 1024 mem line line_len w tab;
            calls \<leftarrow> draw_rows mem lines start_line lid w tab is;
            Some (Win_Text lid 4 (24 + 16 * int i) 0 buf # calls) })"

(*@ apps/tview/tview.cpp:128-142 DrawLines *)
definition draw_lines :: "(nat \<Rightarrow> u8) \<Rightarrow> (nat \<times> nat) list \<Rightarrow> int \<Rightarrow> u64 \<Rightarrow> int \<Rightarrow> int \<Rightarrow> int \<Rightarrow> app_call list option" where
  "draw_lines mem lines start_line lid w h tab = do {
     calls \<leftarrow> draw_rows mem lines start_line lid w tab [0..<nat h];
     Some (Win_Fill lid 4 24 (8 * w) (16 * h) 0xffffff # calls) }"

section \<open>Keys\<close>

text \<open>What is printed, and \<^verbatim>\<open>{quit, keycode}\<close> with the inputs that are left; \<open>None\<close> waits for an input.\<close>

(*@ apps/tview/tview.cpp:144-159 WaitEvent *)
fun wait_event :: "(int \<Rightarrow> bytes) \<Rightarrow> read_answer list \<Rightarrow> app_call list \<times> ((bool \<times> int) \<times> read_answer list) option" where
  "wait_event strerror [] = ([], None)"
| "wait_event strerror ((err, ev) # inputs) =
    (if err \<noteq> 0 then
       ([Std_Err (bytes_of ''ReadEvent failed: '' @ strerror err @ [10])], Some ((False, 0), inputs))
     else case ev of
       Ev_Quit \<Rightarrow> ([], Some ((True, 0), inputs))
     | Ev_Key_Push modifier keycode ascii press \<Rightarrow>
         if press then ([], Some ((False, uint keycode), inputs)) else wait_event strerror inputs
     | _ \<Rightarrow> wait_event strerror inputs)"

lemma wait_event_shorter: "wait_event strerror inputs = (out, Some (r, inputs')) \<Longrightarrow> length inputs' < length inputs"
  by (induction inputs) (auto split: if_splits app_event.splits)

(*@ apps/tview/tview.cpp:172-180 UpdateStartLine *)
definition line_diff :: "int \<Rightarrow> int \<Rightarrow> int option" where
  "line_diff height keycode =
    (if keycode = 75 then Some (- (height div 2))
     else if keycode = 78 then Some (height div 2)
     else if keycode = 81 then Some 1
     else if keycode = 82 then Some (- 1)
     else None)"

text \<open>One key that is not \<^verbatim>\<open>Quit\<close>: the new first line, or \<open>None\<close> when the loop goes on. A negative height is huge as a
  \<^verbatim>\<open>size_t\<close>, so only heights from 0 to the number of lines come to the switch.\<close>

(*@ apps/tview/tview.cpp:168-193 UpdateStartLine *)
definition key_start_line :: "int \<Rightarrow> int \<Rightarrow> int \<Rightarrow> int \<Rightarrow> int option" where
  "key_start_line start_line height num_lines keycode =
    (if height < 0 \<or> num_lines < height then None
     else do {
       diff \<leftarrow> line_diff height keycode;
       if diff < 0 \<and> start_line = 0 \<or> 0 < diff \<and> start_line = num_lines - height then None
       else
         let start_line = start_line + diff
         in Some (if start_line < 0 then 0
                  else if num_lines - height < start_line then num_lines - height else start_line) })"

text \<open>The result is what is printed, and \<open>Inl\<close> for the end or \<open>Inr\<close> of the new first line, with the inputs left.\<close>

(*@ apps/tview/tview.cpp:161-195 UpdateStartLine *)
function update_start_line :: "(int \<Rightarrow> bytes) \<Rightarrow> int \<Rightarrow> int \<Rightarrow> int \<Rightarrow> read_answer list \<Rightarrow>
    app_call list \<times> ((unit + int) \<times> read_answer list) option" where
  "update_start_line strerror start_line height num_lines inputs =
    (case wait_event strerror inputs of
       (out, None) \<Rightarrow> (out, None)
     | (out, Some ((quit, keycode), inputs')) \<Rightarrow>
         if quit then (out, Some (Inl (), inputs'))
         else case key_start_line start_line height num_lines keycode of
                Some start_line' \<Rightarrow> (out, Some (Inr start_line', inputs'))
              | None \<Rightarrow>
                  (case update_start_line strerror start_line height num_lines inputs' of
                     (out', r) \<Rightarrow> (out @ out', r)))"
  by pat_completeness auto
termination
  by (relation "measure (\<lambda>(strerror, start_line, height, num_lines, inputs). length inputs)")
    (auto dest: wait_event_shorter [OF sym])

declare update_start_line.simps [simp del]

lemma update_start_line_shorter:
  "update_start_line strerror start_line height num_lines inputs = (out, Some (r, inputs')) \<Longrightarrow> length inputs' < length inputs"
proof (induction strerror start_line height num_lines inputs arbitrary: out rule: update_start_line.induct)
  case (1 strerror start_line height num_lines inputs)
  note unfold = update_start_line.simps [of strerror start_line height num_lines inputs]
  show ?case using 1 unfolding unfold
    by (auto split: prod.splits option.splits if_splits dest: wait_event_shorter) (metis wait_event_shorter less_trans)
qed

section \<open>The program\<close>

text \<open>The pictures and the keys between them; the flag tells that the program has left the loop.\<close>

(*@ apps/tview/tview.cpp:229-235 main *)
function tview_loop :: "(int \<Rightarrow> bytes) \<Rightarrow> (nat \<Rightarrow> u8) \<Rightarrow> (nat \<times> nat) list \<Rightarrow> u64 \<Rightarrow> int \<Rightarrow> int \<Rightarrow> int \<Rightarrow> int \<Rightarrow> read_answer list \<Rightarrow>
    (app_call list \<times> bool) option" where
  "tview_loop strerror mem lines lid w h tab start_line inputs = do {
     drawn \<leftarrow> draw_lines mem lines start_line lid w h tab;
     (case update_start_line strerror start_line h (int (length lines)) inputs of
        (out, None) \<Rightarrow> Some (drawn @ out, False)
      | (out, Some (Inl _, inputs')) \<Rightarrow> Some (drawn @ out, True)
      | (out, Some (Inr start_line', inputs')) \<Rightarrow> do {
          (calls, quit) \<leftarrow> tview_loop strerror mem lines lid w h tab start_line' inputs';
          Some (drawn @ out @ calls, quit) }) }"
  by pat_completeness auto
termination
  by (relation "measure (\<lambda>(strerror, mem, lines, lid, w, h, tab, start_line, inputs). length inputs)")
    (auto dest: update_start_line_shorter [OF sym])

declare tview_loop.simps [simp del]

text \<open>The answers that the program gets before it shows anything: the first result of \<^verbatim>\<open>getopt\<close> and \<^verbatim>\<open>optind\<close>, those of
  the system calls that open and map the file and open the window, and the texts of \<^verbatim>\<open>strerror\<close>.\<close>

record tview_env =
  tv_getopt :: int
  tv_optind :: nat
  tv_open_file :: "bytes \<Rightarrow> sys_result"
  tv_map_file :: "int \<Rightarrow> sys_result \<times> nat \<times> (nat \<Rightarrow> u8)"
  tv_open_window :: sys_result
  tv_strerror :: "int \<Rightarrow> bytes"

text \<open>\<open>Inl\<close> is what the program prints before it exits with code 1.\<close>

(*@ apps/tview/tview.cpp:11-27 MapFile *)
definition tview_map_file :: "tview_env \<Rightarrow> bytes \<Rightarrow> app_call list + (nat \<times> (nat \<Rightarrow> u8))" where
  "tview_map_file env filepath =
    (let res = tv_open_file env filepath
     in if sr_error res \<noteq> 0 then
          Inl [Std_Err (tv_strerror env (sr_error res) @ bytes_of '': '' @ filepath @ [10])]
        else
          case tv_map_file env (sint (ucast (sr_value res) :: 32 word)) of
            (res, filesize, mem) \<Rightarrow>
              if sr_error res \<noteq> 0 then Inl [Std_Err (tv_strerror env (sr_error res) @ [10])]
              else Inr (filesize, mem))"

(*@ apps/tview/tview.cpp:29-46 OpenTextWindow *)
definition open_text_window :: "tview_env \<Rightarrow> int \<Rightarrow> int \<Rightarrow> bytes \<Rightarrow> app_call list \<times> u64 option" where
  "open_text_window env w h title =
    (let res = tv_open_window env;
         opening = Open_Window (8 + 8 * w) (28 + 16 * h) 10 10 title;
         lid = sr_value res
     in if sr_error res \<noteq> 0 then ([opening, Std_Err (tv_strerror env (sr_error res) @ [10])], None)
        else
          ([opening,
            Win_Fill lid 3 23 (1 + 8 * w) 1 0x666666,
            Win_Fill lid 3 24 1 (1 + 16 * h) 0x666666,
            Win_Fill lid 4 (25 + 16 * h) (1 + 8 * w) 1 0xcccccc,
            Win_Fill lid (5 + 8 * w) 24 1 (1 + 16 * h) 0xcccccc], Some lid))"

(*@ apps/tview/tview.cpp:198-201 main *)
definition print_help :: "bytes list \<Rightarrow> app_call" where
  "print_help av =
    Std_Err (bytes_of ''Usage: '' @ av ! 0 @ bytes_of '' [-w WIDTH] [-h HEIGHT] [-t TAB] <file>'' @ [10])"

(*@ apps/tview/tview.cpp:224-225 main *)
definition file_title :: "bytes \<Rightarrow> bytes" where
  "file_title filepath = rev (takeWhile (\<lambda>c. c \<noteq> 0x2f) (rev filepath))"

text \<open>The calls of a run and the exit code, if the program has come to its end. The assignment in the condition
  of the loop over the options is of the comparison, so \<^verbatim>\<open>opt\<close> is 1 for every option and the program only prints
  its usage; width, height and width of a tabulator always stay 80, 20 and 8.\<close>

(*@ apps/tview/tview.cpp:197-239 main *)
definition tview_main :: "tview_env \<Rightarrow> bytes list \<Rightarrow> read_answer list \<Rightarrow> (app_call list \<times> int option) option" where
  "tview_main env av inputs =
    (if tv_getopt env \<noteq> - 1 \<or> length av \<le> tv_optind env then Some ([print_help av], Some 1)
     else
       let filepath = av ! tv_optind env
       in case tview_map_file env filepath of
            Inl out \<Rightarrow> Some (out, Some 1)
          | Inr (filesize, mem) \<Rightarrow>
              (case open_text_window env 80 20 (file_title filepath) of
                 (opened, None) \<Rightarrow> Some (opened, Some 1)
               | (opened, Some lid) \<Rightarrow> do {
                   (calls, quit) \<leftarrow> tview_loop (tv_strerror env) mem (find_lines (map mem [0..<filesize])) lid 80 20 8 0 inputs;
                   Some (if quit then (opened @ calls @ [Win_Close lid], Some 0) else (opened @ calls, None)) }))"

section \<open>Properties\<close>

lemma next_lf_unfold: "drop p bs = take (next_lf bs p - p) (drop p bs) @ drop (next_lf bs p) bs"
  using append_take_drop_id [of "length (takeWhile (\<lambda>b. b \<noteq> 10) (drop p bs))" "drop p bs", symmetric]
  by (simp add: next_lf_def add.commute)

lemma next_lf_facts:
  assumes "p \<le> length bs"
  shows "p \<le> next_lf bs p" "next_lf bs p \<le> length bs" "10 \<notin> set (take (next_lf bs p - p) (drop p bs))"
    "next_lf bs p < length bs \<Longrightarrow> bs ! next_lf bs p = 10"
proof -
  let ?t = "takeWhile (\<lambda>b. b \<noteq> 10) (drop p bs)"
  have len: "length ?t \<le> length (drop p bs)" by (rule length_takeWhile_le)
  then show "p \<le> next_lf bs p" "next_lf bs p \<le> length bs" using assms by (auto simp: next_lf_def)
  have "take (next_lf bs p - p) (drop p bs) = ?t" by (simp add: next_lf_def takeWhile_eq_take [symmetric])
  then show "10 \<notin> set (take (next_lf bs p - p) (drop p bs))" by (auto dest: set_takeWhileD)
  show "next_lf bs p < length bs \<Longrightarrow> bs ! next_lf bs p = 10"
    using nth_length_takeWhile [of "\<lambda>b. b \<noteq> 10" "drop p bs"] assms len by (simp add: next_lf_def)
qed

text \<open>What a list of lines stands for: every line with its line feed.\<close>

definition lines_bytes :: "bytes \<Rightarrow> (nat \<times> nat) list \<Rightarrow> bytes" where
  "lines_bytes content ls = concat (map (\<lambda>l. line_text content l @ [10]) ls)"

lemma find_lines_from_spec:
  assumes "p \<le> length bs"
  shows "lines_bytes bs (find_lines_from bs p) =
      (if drop p bs = [] \<or> last bs = 10 then drop p bs else drop p bs @ [10]) \<and>
    (\<forall>l \<in> set (find_lines_from bs p). 10 \<notin> set (line_text bs l) \<and> fst l + snd l \<le> length bs)"
  using assms
proof (induction bs p rule: find_lines_from.induct)
  case (1 bs p)
  let ?lf = "next_lf bs p"
  note f = next_lf_facts [OF 1(2)] and u = next_lf_unfold [of p bs] and s = find_lines_from.simps [of bs p]
  show ?case
  proof (cases "?lf < length bs")
    case True
    then have d: "drop p bs = take (?lf - p) (drop p bs) @ 10 # drop (Suc ?lf) bs"
      using u f(4) by (metis Cons_nth_drop_Suc)
    have "drop (Suc ?lf) bs = [] \<Longrightarrow> last bs = 10"
      using True f(4) by (metis Suc_leI append_Nil2 append_take_drop_id id_take_nth_drop last_snoc)
    with 1 True f d show ?thesis by (auto simp: s Let_def lines_bytes_def line_text_def split: if_splits)
  next
    case False
    then have "?lf = length bs" using f(2) by simp
    moreover have "drop p bs \<noteq> [] \<Longrightarrow> last bs \<in> set (drop p bs)"
      by (metis append_take_drop_id last_appendR last_in_set)
    ultimately show ?thesis using 1 f(3) by (auto simp: s Let_def lines_bytes_def line_text_def)
  qed
qed

lemma find_lines_inside: "l \<in> set (find_lines bs) \<Longrightarrow> fst l + snd l \<le> length bs"
  using find_lines_from_spec [of 0 bs] by (simp add: find_lines_def)

text \<open>Cutting a file into lines loses nothing: put one after the other, each with its line feed, the lines are the
  file, with a line feed added at its end if there is none. No line holds a line feed, and every line lies in the file.\<close>

theorem find_lines_roundtrip:
  "lines_bytes bs (find_lines bs) = (if bs = [] \<or> last bs = 10 then bs else bs @ [10]) \<and>
   (\<forall>l \<in> set (find_lines bs). 10 \<notin> set (line_text bs l) \<and> fst l + snd l \<le> length bs)"
  using find_lines_from_spec [of 0 bs] by (simp add: find_lines_def)

theorem find_lines_roundtrip_witness:
  "lines_bytes [97, 10, 10, 98] (find_lines [97, 10, 10, 98]) = [97, 10, 10, 98, 10]"
  using find_lines_roundtrip [of "[97, 10, 10, 98]"] by simp

lemma copy_loop_fits:
  assumes "0 < tab" "length out < dst_size"
  shows "\<exists>s. copy_loop dst_size mem src_end w tab src x out = Some s \<and> length s < dst_size"
  using assms
proof (induction dst_size mem src_end w tab src x out rule: copy_loop.induct)
  case (1 dst_size mem src_end w tab src x out)
  then show ?case
    by (subst copy_loop.simps) (auto simp: Let_def not_le split: if_splits)
qed

text \<open>The keys that are pressed before the program is told to quit, and whether it is; and the first lines of the
  pictures that the keys lead to.\<close>

fun viewer_keys :: "read_answer list \<Rightarrow> int list \<times> bool" where
  "viewer_keys [] = ([], False)"
| "viewer_keys ((err, ev) # inputs) =
    (case ev of
       Ev_Quit \<Rightarrow> ([], True)
     | Ev_Key_Push modifier keycode ascii press \<Rightarrow>
         if press then (uint keycode # fst (viewer_keys inputs), snd (viewer_keys inputs)) else viewer_keys inputs
     | _ \<Rightarrow> viewer_keys inputs)"

fun first_lines :: "int \<Rightarrow> int \<Rightarrow> int \<Rightarrow> int list \<Rightarrow> int list" where
  "first_lines h n s [] = [s]"
| "first_lines h n s (k # ks) =
    (case key_start_line s h n k of None \<Rightarrow> first_lines h n s ks | Some s' \<Rightarrow> s # first_lines h n s' ks)"

definition no_errors :: "read_answer list \<Rightarrow> bool" where
  "no_errors inputs \<longleftrightarrow> fst ` set inputs \<subseteq> {0}"

fun waited :: "((bool \<times> int) \<times> read_answer list) option \<Rightarrow> int list \<times> bool \<Rightarrow> bool" where
  "waited None keys \<longleftrightarrow> keys = ([], False)"
| "waited (Some ((quit, k), inputs)) keys \<longleftrightarrow> no_errors inputs \<and>
     keys = (if quit then ([], True) else (k # fst (viewer_keys inputs), snd (viewer_keys inputs)))"

fun moved :: "((unit + int) \<times> read_answer list) option \<Rightarrow> int \<Rightarrow> int \<Rightarrow> int \<Rightarrow> int list \<times> bool \<Rightarrow> bool" where
  "moved None h n s keys \<longleftrightarrow> first_lines h n s (fst keys) = [s] \<and> \<not> snd keys"
| "moved (Some (Inl x, inputs)) h n s keys \<longleftrightarrow> first_lines h n s (fst keys) = [s] \<and> snd keys"
| "moved (Some (Inr s', inputs)) h n s keys \<longleftrightarrow> no_errors inputs \<and> snd keys = snd (viewer_keys inputs) \<and>
     first_lines h n s (fst keys) = s # first_lines h n s' (fst (viewer_keys inputs))"

lemma wait_event_keys:
  "no_errors inputs \<Longrightarrow> \<exists>r. wait_event strerror inputs = ([], r) \<and> waited r (viewer_keys inputs)"
  by (induction inputs) (auto simp: no_errors_def split: app_event.splits)

lemma key_start_line_range:
  assumes "key_start_line s h n k = Some s'" "0 \<le> s" "s = 0 \<or> s + h \<le> n"
  shows "0 \<le> s'" "s' + h \<le> n" "0 \<le> h"
  using assms by (auto simp: key_start_line_def Let_def split: if_splits Option.bind_splits)

lemma first_lines_range:
  assumes "0 \<le> s" "s = 0 \<or> s + h \<le> n" "s' \<in> set (first_lines h n s ks)"
  shows "0 \<le> s' \<and> (s' = 0 \<or> s' + h \<le> n)"
  using assms
proof (induction ks arbitrary: s)
  case (Cons k ks)
  then show ?case using key_start_line_range [of s h n k] by (auto split: option.splits)
qed auto

lemma moved_skip: "key_start_line s h n k = None \<Longrightarrow> moved r h n s (k # fst keys, snd keys) = moved r h n s keys"
  by (cases "(r, h, n, s, keys)" rule: moved.cases) auto

lemma update_start_line_keys:
  "no_errors inputs \<Longrightarrow> \<exists>r. update_start_line strerror s h n inputs = ([], r) \<and> moved r h n s (viewer_keys inputs)"
proof (induction strerror s h n inputs rule: update_start_line.induct)
  case (1 strerror s h n inputs)
  obtain r where r: "wait_event strerror inputs = ([], r)" "waited r (viewer_keys inputs)"
    using wait_event_keys [OF 1(2), of strerror] by blast
  note u = update_start_line.simps [of strerror s h n inputs]
  show ?case
  proof (cases r)
    case None
    then show ?thesis using r by (simp add: u)
  next
    case (Some a)
    obtain quit k inputs' where a: "a = ((quit, k), inputs')" by (metis prod.exhaust)
    show ?thesis
    proof (cases "quit \<or> key_start_line s h n k \<noteq> None")
      case True
      then show ?thesis using r Some a by (auto simp: u)
    next
      case False
      then have "\<exists>r. update_start_line strerror s h n inputs' = ([], r) \<and> moved r h n s (viewer_keys inputs')"
        using 1(1) [OF r(1) [symmetric] Some a [symmetric] refl] r(2) Some a by simp
      moreover have "moved r' h n s (viewer_keys inputs) = moved r' h n s (viewer_keys inputs')" for r'
        using False r(2) Some a by (simp add: moved_skip)
      ultimately show ?thesis using False r Some a by (auto simp: u)
    qed
  qed
qed

text \<open>A picture of the plain lines from \<open>s\<close> on: the inner area white, and below each other as many lines as there
  are and the window has rows.\<close>

definition picture :: "bytes \<Rightarrow> u64 \<Rightarrow> int \<Rightarrow> int \<Rightarrow> int \<Rightarrow> app_call list" where
  "picture content lid w h s =
    Win_Fill lid 4 24 (8 * w) (16 * h) 0xffffff #
    map (\<lambda>i. Win_Text lid 4 (24 + 16 * int i) 0 (line_text content (find_lines content ! (nat s + i))))
      [0..<min (nat h) (length (find_lines content) - nat s)]"

definition plain :: "u8 \<Rightarrow> bool" where
  "plain b \<longleftrightarrow> 0x20 \<le> b \<and> b < 0x80"

text \<open>Files whose lines fit into the window; behind the last line stands a zero byte, as in the rest of a page.\<close>

definition plain_file :: "(nat \<Rightarrow> u8) \<Rightarrow> nat \<Rightarrow> int \<Rightarrow> bool" where
  "plain_file mem fsize w \<longleftrightarrow> mem fsize = 0 \<and> w \<le> 1024 \<and>
    list_all (\<lambda>l. int (snd l) < w \<and> list_all plain (line_text (map mem [0..<fsize]) l)) (find_lines (map mem [0..<fsize]))"

lemma copy_loop_plain:
  assumes "\<forall>i \<in> {src..<src + m}. plain (mem i)" "mem (src + m) = 0 \<or> mem (src + m) = 10"
    "length out + m < dst_size" "int (length out + m) < w"
  shows "copy_loop dst_size mem (src + m) w tab src (int (length out)) out = Some (out @ map mem [src..<src + m])"
  using assms
proof (induction m arbitrary: src out)
  case 0
  have "count_utf_size 10 = 1" by (simp add: count_utf_size_def)
  with 0 show ?case by (subst copy_loop.simps) (elim disjE; simp add: Let_def)
next
  case (Suc m)
  have p: "plain (mem src)" using Suc.prems(1) by simp
  then have b: "mem src \<noteq> 0" "mem src \<noteq> 9" "mem src < 0x80" "count_utf_size (mem src) = 1"
    by (auto simp: plain_def count_utf_size_def)
  have "map mem [src..<src + Suc m] = mem src # map mem [Suc src..<Suc src + m]" by (simp add: upt_conv_Cons del: upt_Suc)
  then show ?case
    using Suc.IH [of "Suc src" "out @ [mem src]"] Suc.prems b
      copy_loop.simps [of dst_size mem "src + Suc m" w tab src "int (length out)" out]
      upt_conv_Cons [of src "Suc src"]
    by (simp add: Let_def add.commute del: upt_Suc)
qed

lemma find_lines_end:
  assumes "p \<le> length bs" "l \<in> set (find_lines_from bs p)"
  shows "fst l + snd l = length bs \<or> fst l + snd l < length bs \<and> bs ! (fst l + snd l) = 10"
  using assms
proof (induction bs p rule: find_lines_from.induct)
  case (1 bs p)
  note f = next_lf_facts [OF 1(2)]
  from 1(3) show ?case
    using 1(1,2) f by (subst (asm) find_lines_from.simps) (auto simp: Let_def split: if_splits)
qed

lemma copy_plain_line:
  assumes "plain_file mem fsize w" "l \<in> set (find_lines (map mem [0..<fsize]))"
  shows "copy_utf8_string 1024 mem (fst l) (snd l) w tab = Some (line_text (map mem [0..<fsize]) l)"
proof -
  let ?c = "map mem [0..<fsize]" and ?e = "fst l + snd l"
  have l: "?e \<le> fsize" using find_lines_inside [OF assms(2)] by simp
  have tx: "map mem [fst l..<?e] = line_text ?c l"
    using l by (intro nth_equalityI) (auto simp: line_text_def)
  have f: "int (snd l) < w" "list_all plain (line_text ?c l)" "mem fsize = 0" "w \<le> 1024"
    using assms by (auto simp: plain_file_def list_all_iff)
  have "\<forall>i \<in> {fst l..<fst l + snd l}. plain (mem i)" using f(2) unfolding tx [symmetric] by (simp add: list_all_iff)
  moreover have "mem ?e = 0 \<or> mem ?e = 10"
    using find_lines_end [of 0 ?c l] assms(2) f(3) by (auto simp: find_lines_def)
  moreover have "length ([] :: bytes) + snd l < 1024" "int (length ([] :: bytes) + snd l) < w" using f(1,4) by auto
  ultimately have "copy_loop 1024 mem ?e w tab (fst l) (int (length ([] :: bytes))) [] = Some ([] @ map mem [fst l..<?e])"
    by (rule copy_loop_plain)
  then show ?thesis by (simp add: copy_utf8_string_def tx)
qed

lemma draw_lines_picture:
  assumes "plain_file mem fsize w" "0 \<le> s" "s = 0 \<or> s + h \<le> int (length (find_lines (map mem [0..<fsize])))"
  shows "draw_lines mem (find_lines (map mem [0..<fsize])) s lid w h tab = Some (picture (map mem [0..<fsize]) lid w h s)"
proof -
  let ?c = "map mem [0..<fsize]"
  let ?n = "length (find_lines ?c)"
  let ?row = "\<lambda>i. Win_Text lid 4 (24 + 16 * int i) 0 (line_text ?c (find_lines ?c ! (nat s + i)))"
  have rows: "draw_rows mem (find_lines ?c) s lid w tab is = Some (map ?row (filter (\<lambda>i. nat s + i < ?n) is))" for "is"
  proof (induction "is")
    case (Cons i "is")
    have "nat (s + int i) = nat s + i" using assms(2) by simp
    moreover obtain p n where l: "find_lines ?c ! (nat s + i) = (p, n)" by fastforce
    moreover have "copy_utf8_string 1024 mem p n w tab = Some (line_text ?c (p, n))" if "nat s + i < ?n"
      using copy_plain_line [OF assms(1) nth_mem [OF that], of tab] l by simp
    moreover have "int ?n \<le> s + int i \<longleftrightarrow> \<not> nat s + i < ?n" "\<not> s + int i < 0" using assms(2) by auto
    ultimately show ?case using Cons by simp
  qed simp
  have "filter (\<lambda>i. nat s + i < ?n) [0..<m] = [0..<min m (?n - nat s)]" for m
    by (induction m) (auto simp: min_def intro!: arg_cong [of _ _ "upt 0"])
  then show ?thesis using rows by (simp add: draw_lines_def picture_def)
qed

lemma first_lines_start: "s \<in> set (first_lines h n s ks)"
  by (induction ks arbitrary: s) (auto split: option.splits)

lemma tview_loop_pictures:
  assumes file_plain: "plain_file mem fsize w"
  defines "c \<equiv> map mem [0..<fsize]"
  defines "n \<equiv> int (length (find_lines c))"
  shows "no_errors inputs \<Longrightarrow> 0 \<le> s \<Longrightarrow> s = 0 \<or> s + h \<le> n \<Longrightarrow>
    tview_loop strerror mem (find_lines c) lid w h tab s inputs =
      Some (concat (map (picture c lid w h) (first_lines h n s (fst (viewer_keys inputs)))), snd (viewer_keys inputs))"
proof (induction "length inputs" arbitrary: inputs s rule: less_induct)
  case less
  note d = draw_lines_picture [OF file_plain less(3), of h lid tab, folded c_def, folded n_def, OF less(4)]
  obtain r where r: "update_start_line strerror s h n inputs = ([], r)" "moved r h n s (viewer_keys inputs)"
    using update_start_line_keys [OF less(2), of strerror s h n] by blast
  note l = tview_loop.simps [of strerror mem "find_lines c" lid w h tab s inputs, folded n_def]
  consider "r = None" | x inputs' where "r = Some (Inl x, inputs')" | s' inputs' where "r = Some (Inr s', inputs')"
    by (metis option.exhaust prod.exhaust sum.exhaust)
  then show ?case
  proof cases
    case (3 s' inputs')
    note m = r(2) [unfolded 3, simplified]
    have "length inputs' < length inputs" using update_start_line_shorter r(1) 3 by blast
    moreover have "s' \<in> set (first_lines h n s (fst (viewer_keys inputs)))"
      using m first_lines_start by simp
    then have "0 \<le> s'" "s' = 0 \<or> s' + h \<le> n" using first_lines_range [OF less(3,4)] by auto
    ultimately show ?thesis using less(1) [of inputs' s'] m r(1) d 3 by (simp add: l)
  qed (use r d in \<open>simp_all add: l\<close>)
qed


text \<open>A file of 22 lines; the key for the next line is pressed, and then the program is told to quit.\<close>

definition viewer_mem :: "nat \<Rightarrow> u8" where
  "viewer_mem i = (if 44 \<le> i then 0 else if even i then 97 else 10)"

definition viewer_env :: tview_env where
  "viewer_env = \<lparr>tv_getopt = - 1, tv_optind = 1, tv_open_file = (\<lambda>_. answer 3 0), tv_map_file = (\<lambda>_. (answer 0 0, 44, viewer_mem)),
     tv_open_window = answer 7 0, tv_strerror = (\<lambda>_. [])\<rparr>"

definition viewer_inputs :: "read_answer list" where
  "viewer_inputs = [(0, Ev_Key_Push 0 81 0 True), (0, Ev_Quit)]"


end
