(* ===== verification/Block_Game.thy ===== *)
theory Block_Game imports User_Calls Complex_Main begin

text \<open>
  \<^verbatim>\<open>apps/blocks/blocks.cpp\<close>: the game in which a ball clears blocks. The state is that of the loop in \<^verbatim>\<open>main\<close> with the global
  \<^verbatim>\<open>blocks\<close> and the static \<^verbatim>\<open>prev_timeout\<close>; the inputs are what stands in \<^verbatim>\<open>events[0]\<close> after every call of
  \<^verbatim>\<open>SyscallReadEvent\<close>, whose error the program does not look at. The velocities are computed with real numbers where the
  program uses \<^verbatim>\<open>double\<close>; at the directions the ball takes, no value is near a half, so rounding gives the same integer.
\<close>

section \<open>The board\<close>

(*@ apps/blocks/blocks.cpp:13-16 kNumBlocksX *)
definition kNumBlocksX :: int where "kNumBlocksX = 10"
definition kNumBlocksY :: int where "kNumBlocksY = 5"
definition kBlockWidth :: int where "kBlockWidth = 20"
definition kBlockHeight :: int where "kBlockHeight = 10"
definition kBarWidth :: int where "kBarWidth = 30"
definition kBarHeight :: int where "kBarHeight = 5"
definition kBallRadius :: int where "kBallRadius = 5"
definition kGapWidth :: int where "kGapWidth = 30"
definition kGapHeight :: int where "kGapHeight = 30"
definition kGapBar :: int where "kGapBar = 80"
definition kBarFloat :: int where "kBarFloat = 10"

(*@ apps/blocks/blocks.cpp:18-18 kCanvasWidth *)
definition kCanvasWidth :: int where "kCanvasWidth = kNumBlocksX * kBlockWidth + 2 * kGapWidth"

(*@ apps/blocks/blocks.cpp:19-20 kCanvasHeight *)
definition kCanvasHeight :: int where
  "kCanvasHeight = kGapHeight + kNumBlocksY * kBlockHeight + kGapBar + kBarHeight + kBarFloat"

(*@ apps/blocks/blocks.cpp:21-21 kBarY *)
definition kBarY :: int where "kBarY = kCanvasHeight - kBarFloat - kBarHeight"

(*@ apps/blocks/blocks.cpp:23-25 kFrameRate *)
definition kFrameRate :: int where "kFrameRate = 60"
definition kBarSpeed :: int where "kBarSpeed = kCanvasWidth div 2"
definition kBallSpeed :: int where "kBallSpeed = kBarSpeed"

(*@ apps/blocks/blocks.cpp:80-81 main *)
definition kBallX :: int where "kBallX = kCanvasWidth div 2 - kBallRadius - 20"
definition kBallY :: int where "kBallY = kCanvasHeight - kBarFloat - kBarHeight - kBallRadius - 20"

lemmas board_defs = kNumBlocksX_def kNumBlocksY_def kBlockWidth_def kBlockHeight_def kBarWidth_def kBarHeight_def
  kBallRadius_def kGapWidth_def kGapHeight_def kGapBar_def kBarFloat_def kCanvasWidth_def kCanvasHeight_def kBarY_def
  kFrameRate_def kBarSpeed_def kBallSpeed_def kBallX_def kBallY_def

text \<open>A row of blocks is the list of its bits. \<open>sgn\<close> turns the division of HOL into that of C.\<close>

(*@ apps/blocks/blocks.cpp:83-87 main *)
record game =
  bk_blocks :: "bool list list"
  bar_x :: int
  ball_x :: int
  ball_y :: int
  move_dir :: int
  ball_dir :: int
  ball_dx :: int
  ball_dy :: int
  prev_timeout :: u64

(*@ apps/blocks/blocks.cpp:76-87 main *)
definition new_game :: game where
  "new_game =
    \<lparr>bk_blocks = replicate 5 (replicate 10 True), bar_x = kCanvasWidth div 2 - kBarWidth div 2,
     ball_x = kBallX, ball_y = kBallY, move_dir = 0, ball_dir = 0, ball_dx = 0, ball_dy = 0, prev_timeout = 0\<rparr>"

section \<open>Drawing\<close>

(*@ apps/blocks/blocks.cpp:29-42 DrawBlocks *)
definition draw_blocks :: "u64 \<Rightarrow> bool list list \<Rightarrow> app_call list" where
  "draw_blocks lid blocks =
    concat (map (\<lambda>by.
      let y = 24 + kGapHeight + int by * kBlockHeight;
          color = (push_bit ((by mod 3) * 8) 0xff :: u32)
      in concat (map (\<lambda>bx.
           if blocks ! by ! bx then
             (let x = 4 + kGapWidth + int bx * kBlockWidth;
                  c = color OR push_bit (((bx + by) mod 3) * 8) 0xff
              in [Win_Fill lid x y kBlockWidth kBlockHeight c])
           else []) [0..<10])) [0..<5])"

(*@ apps/blocks/blocks.cpp:44-48 DrawBar *)
definition draw_bar :: "u64 \<Rightarrow> int \<Rightarrow> app_call" where
  "draw_bar lid x = Win_Fill lid (4 + x) (24 + kBarY) kBarWidth kBarHeight 0xffffff"

(*@ apps/blocks/blocks.cpp:50-57 DrawBall *)
definition draw_ball :: "u64 \<Rightarrow> int \<Rightarrow> int \<Rightarrow> app_call list" where
  "draw_ball lid x y =
    [Win_Fill lid (4 + x - kBallRadius) (24 + y - kBallRadius) (2 * kBallRadius) (2 * kBallRadius) 0x007f00,
     Win_Fill lid (4 + x - kBallRadius div 2) (24 + y - kBallRadius div 2) kBallRadius kBallRadius 0x00ff00]"

text \<open>The picture of a frame, and the timer for the next one. \<open>first_timeout\<close> is the answer of the first timer's call.\<close>

(*@ apps/blocks/blocks.cpp:90-99 main *)
definition draw_game :: "u64 \<Rightarrow> game \<Rightarrow> app_call list" where
  "draw_game lid g =
    (let flags = lid OR LAYER_NO_REDRAW
     in Win_Fill flags 4 24 kCanvasWidth kCanvasHeight 0 # draw_blocks flags (bk_blocks g) @ [draw_bar flags (bar_x g)] @
        (if 0 \<le> ball_y g then draw_ball flags (ball_x g) (ball_y g) else []) @ [Win_Redraw lid])"

(*@ apps/blocks/blocks.cpp:101-108 main *)
definition next_frame_timer :: "u64 \<Rightarrow> game \<Rightarrow> app_call \<times> game" where
  "next_frame_timer first_timeout g =
    (let step = of_int (1000 div kFrameRate)
     in if prev_timeout g = 0 then (Create_Timer 1 1 step, g\<lparr>prev_timeout := first_timeout\<rparr>)
        else (let t = prev_timeout g + step in (Create_Timer 0 1 t, g\<lparr>prev_timeout := t\<rparr>)))"

section \<open>Keys\<close>

(*@ apps/blocks/blocks.cpp:119-139 main *)
definition game_key :: "u8 \<Rightarrow> bool \<Rightarrow> game \<Rightarrow> game" where
  "game_key keycode press g =
    (if \<not> press then g\<lparr>move_dir := 0\<rparr>
     else
       let g = (if keycode = 79 then g\<lparr>move_dir := 1\<rparr>
                else if keycode = 80 then g\<lparr>move_dir := - 1\<rparr>
                else if keycode = 44 then
                  (if ball_dir g = 0 \<and> ball_y g < 0 then g\<lparr>ball_x := kBallX, ball_y := kBallY\<rparr>
                   else if ball_dir g = 0 then g\<lparr>ball_dir := 45\<rparr> else g)
                else g)
       in if bar_x g = 0 \<and> move_dir g < 0 then g\<lparr>move_dir := 0\<rparr>
          else if bar_x g + kBarWidth = kCanvasWidth - 1 \<and> 0 < move_dir g then g\<lparr>move_dir := 0\<rparr>
          else g)"

text \<open>The loop over the events of a frame: the game waits, the frame is over, or the player quits.\<close>

datatype frame_end = Frame_Waits game | Frame_Over game "app_event list" | Frame_Quit

(*@ apps/blocks/blocks.cpp:110-141 main *)
fun frame_events :: "game \<Rightarrow> app_event list \<Rightarrow> frame_end" where
  "frame_events g [] = Frame_Waits g"
| "frame_events g (ev # inputs) =
    (case ev of
       Ev_Timer_Timeout t v \<Rightarrow> Frame_Over g inputs
     | Ev_Quit \<Rightarrow> Frame_Quit
     | Ev_Key_Push m keycode a press \<Rightarrow> frame_events (game_key keycode press g) inputs
     | _ \<Rightarrow> frame_events g inputs)"

section \<open>The movement of a frame\<close>

(*@ apps/blocks/blocks.cpp:59-67 LimitRange *)
definition limit_range :: "int \<Rightarrow> int \<Rightarrow> int \<Rightarrow> int" where
  "limit_range x min_x max_x = (if x < min_x then min_x else if max_x < x then max_x else x)"

(*@ apps/blocks/blocks.cpp:144-145 main *)
definition move_bar :: "game \<Rightarrow> game" where
  "move_bar g =
    g\<lparr>bar_x := limit_range (bar_x g + sgn (move_dir g) * (\<bar>move_dir g\<bar> * kBarSpeed div kFrameRate)) 0 (kCanvasWidth - kBarWidth - 1)\<rparr>"

text \<open>Walls, ceiling, bar and floor: the direction afterwards, or \<open>None\<close> when the ball falls.\<close>

(*@ apps/blocks/blocks.cpp:152-165 main *)
definition bounce_frame :: "game \<Rightarrow> int \<Rightarrow> int \<Rightarrow> int option" where
  "bounce_frame g x y =
    (let d = (if ball_dx g < 0 \<and> x < kBallRadius \<or> 0 < ball_dx g \<and> kCanvasWidth - kBallRadius \<le> x
              then 180 - ball_dir g else ball_dir g)
     in if ball_dy g < 0 \<and> y < kBallRadius then Some (- d)
        else if bar_x g \<le> x \<and> x < bar_x g + kBarWidth \<and> 0 < ball_dy g \<and> kBarY - kBallRadius \<le> y then Some (- d)
        else if 0 < ball_dy g \<and> kCanvasHeight - kBallRadius \<le> y then None
        else Some d)"

text \<open>The block at the new position, which is cleared: \<open>None\<close> is an access outside of the array.\<close>

(*@ apps/blocks/blocks.cpp:167-196 main *)
definition hit_block :: "bool list list \<Rightarrow> int \<Rightarrow> int \<Rightarrow> int \<Rightarrow> int \<Rightarrow> int \<Rightarrow> (bool list list \<times> int) option" where
  "hit_block blocks old_x old_y x y d =
    (if x < kGapWidth \<or> kCanvasWidth - kGapWidth \<le> x \<or> y < kGapHeight \<or> kGapHeight + kNumBlocksY * kBlockHeight \<le> y
     then Some (blocks, d)
     else
       let index_x = (x - kGapWidth) div kBlockWidth;
           index_y = (y - kGapHeight) div kBlockHeight
       in if index_y < 0 \<or> int (length blocks) \<le> index_y then None
          else
            let row = blocks ! nat index_y
            in if index_x < 0 \<or> int (length row) \<le> index_x then None
               else if \<not> row ! nat index_x then Some (blocks, d)
               else
                 let block_left = kGapWidth + index_x * kBlockWidth;
                     block_right = kGapWidth + (index_x + 1) * kBlockWidth;
                     block_top = kGapHeight + index_y * kBlockHeight;
                     block_bottom = kGapHeight + (index_y + 1) * kBlockHeight;
                     d = (if old_x < block_left \<and> block_left \<le> x \<or> block_right < old_x \<and> x \<le> block_right
                          then 180 - d else d);
                     d = (if old_y < block_top \<and> block_top \<le> y \<or> block_bottom < old_y \<and> y \<le> block_bottom
                          then - d else d)
                 in Some (blocks[nat index_y := row[nat index_x := False]], d))"

text \<open>\<^verbatim>\<open>round\<close> of the C library: halves go away from zero.\<close>

definition c_round :: "real \<Rightarrow> int" where
  "c_round r = (if 0 \<le> r then \<lfloor>r + 1 / 2\<rfloor> else - \<lfloor>- r + 1 / 2\<rfloor>)"

(*@ apps/blocks/blocks.cpp:198-199 main *)
definition ball_velocity :: "int \<Rightarrow> int \<times> int" where
  "ball_velocity d =
    (c_round (of_int kBallSpeed * cos (pi * of_int d / 180) / of_int kFrameRate),
     c_round (of_int kBallSpeed * sin (pi * of_int d / 180) / of_int kFrameRate))"

(*@ apps/blocks/blocks.cpp:144-201 main *)
definition move_game :: "game \<Rightarrow> game option" where
  "move_game g =
    (let g = move_bar g
     in if ball_dir g = 0 then Some g
        else
          let x = ball_x g + ball_dx g; y = ball_y g + ball_dy g
          in case bounce_frame g x y of
               None \<Rightarrow> Some (g\<lparr>ball_dir := 0, ball_y := - 1\<rparr>)
             | Some d \<Rightarrow>
                 (case hit_block (bk_blocks g) (ball_x g) (ball_y g) x y d of
                    None \<Rightarrow> None
                  | Some (blocks, d) \<Rightarrow>
                      let (dx, dy) = ball_velocity d
                      in Some (g\<lparr>bk_blocks := blocks, ball_dir := d, ball_dx := dx, ball_dy := dy,
                               ball_x := ball_x g + dx, ball_y := ball_y g + dy\<rparr>)))"

section \<open>The program\<close>

text \<open>The calls of a run, with the exit code if the program has come to its end and the state otherwise.\<close>

lemma frame_events_shorter: "frame_events g inputs = Frame_Over g' inputs' \<Longrightarrow> length inputs' < length inputs"
  by (induction inputs arbitrary: g) (auto split: app_event.splits intro: less_SucI)

(*@ apps/blocks/blocks.cpp:89-206 main *)
function blocks_loop :: "u64 \<Rightarrow> u64 \<Rightarrow> game \<Rightarrow> app_event list \<Rightarrow> (app_call list \<times> (game + int)) option" where
  "blocks_loop lid first_timeout g inputs =
    (let (timer, g) = next_frame_timer first_timeout g;
         calls = draw_game lid g @ [timer]
     in case frame_events g inputs of
          Frame_Waits g' \<Rightarrow> Some (calls, Inl g')
        | Frame_Quit \<Rightarrow> Some (calls @ [Win_Close lid], Inr 0)
        | Frame_Over g' inputs' \<Rightarrow>
            (case move_game g' of
               None \<Rightarrow> None
             | Some g'' \<Rightarrow> map_option (\<lambda>(more, r). (calls @ more, r)) (blocks_loop lid first_timeout g'' inputs')))"
  by pat_completeness auto
termination
  by (relation "measure (\<lambda>(lid, first_timeout, g, inputs). length inputs)") (auto dest: frame_events_shorter)

declare blocks_loop.simps [simp del]

(*@ apps/blocks/blocks.cpp:69-206 main *)
definition blocks_main :: "sys_result \<Rightarrow> u64 \<Rightarrow> app_event list \<Rightarrow> (app_call list \<times> (game + int)) option" where
  "blocks_main opened first_timeout inputs =
    (let calls = [Open_Window (kCanvasWidth + 8) (kCanvasHeight + 28) 10 10 (bytes_of ''blocks'')]
     in if sr_error opened \<noteq> 0 then Some (calls, Inr (sr_error opened))
        else map_option (\<lambda>(more, r). (calls @ more, r)) (blocks_loop (sr_value opened) first_timeout new_game inputs))"

section \<open>Velocities\<close>

lemma c_round_minus: "c_round (- r) = - c_round r"
  by (simp add: c_round_def)

lemma c_round_two: "3 / 2 \<le> r \<Longrightarrow> r < 5 / 2 \<Longrightarrow> c_round r = 2"
  by (auto simp: c_round_def floor_eq_iff)

lemma angle_flip: "pi * real_of_int (180 - d) / 180 = pi - pi * real_of_int d / 180"
  by (simp add: field_simps)

lemma velocity_flip_x: "ball_velocity (180 - d) = (- fst (ball_velocity d), snd (ball_velocity d))"
  by (simp add: ball_velocity_def angle_flip c_round_minus [symmetric] del: of_int_diff)

lemma velocity_flip_y: "ball_velocity (- d) = (fst (ball_velocity d), - snd (ball_velocity d))"
  by (simp add: ball_velocity_def c_round_minus [symmetric])

lemma diagonal_cos_sin:
  assumes "d mod 90 = 45"
  shows "(cos (pi * real_of_int d / 180))\<^sup>2 = 1 / 2" "(sin (pi * real_of_int d / 180))\<^sup>2 = 1 / 2"
proof -
  let ?a = "pi * real_of_int d / 180"
  obtain k where d: "d = 45 + 90 * k" using assms by (metis add.commute mult.commute mult_div_mod_eq)
  have a: "2 * ?a = pi / 2 + pi * of_int k" by (simp add: d field_simps)
  have "cos (2 * ?a) = 0" unfolding a by (simp add: cos_add sin_npi_int)
  then show c: "(cos ?a)\<^sup>2 = 1 / 2" using cos_double_cos [of ?a] by auto
  then show "(sin ?a)\<^sup>2 = 1 / 2" by (simp add: sin_squared_eq)
qed

lemma half_speed:
  assumes "r\<^sup>2 = 1 / 2"
  shows "c_round (130 * r / 60) = 2 \<or> c_round (130 * r / 60) = - 2"
proof -
  have two: "c_round (130 * s / 60) = 2" if "0 \<le> s" "s\<^sup>2 = 1 / 2" for s :: real
  proof (rule c_round_two)
    have "(9 / 13)\<^sup>2 \<le> s\<^sup>2" "s\<^sup>2 < 1\<^sup>2" using that(2) by (simp_all add: power2_eq_square)
    then show "3 / 2 \<le> 130 * s / 60" "130 * s / 60 < 5 / 2"
      using that(1) power2_le_imp_le [of "9 / 13" s] power2_less_imp_less [of s 1] by auto
  qed
  show ?thesis
  proof (cases "0 \<le> r")
    case False
    then have "c_round (130 * (- r) / 60) = 2" using assms by (intro two) auto
    then show ?thesis using c_round_minus [of "130 * r / 60"] by simp
  qed (use two assms in auto)
qed

lemma velocity_diagonal:
  assumes "d mod 90 = 45"
  shows "fst (ball_velocity d) \<in> {2, - 2}" "snd (ball_velocity d) \<in> {2, - 2}"
  using half_speed [OF diagonal_cos_sin(1) [OF assms]] half_speed [OF diagonal_cos_sin(2) [OF assms]]
  by (auto simp: ball_velocity_def board_defs)

lemma diagonal_flips:
  assumes "d mod 90 = (45 :: int)"
  shows "(180 - d) mod 90 = 45" "(- d) mod 90 = 45"
proof -
  obtain k where d: "d = 45 + 90 * k" using assms by (metis add.commute mult.commute mult_div_mod_eq)
  have "180 - d = 45 + 90 * (1 - k)" "- d = 45 + 90 * (- 1 - k)" by (simp_all add: d)
  then show "(180 - d) mod 90 = 45" "(- d) mod 90 = 45" by (simp_all only: mod_mult_self2) simp_all
qed

section \<open>The game never leaves its board\<close>

text \<open>The ball stands at its place above the bar, is lost, or flies inside of the canvas on a diagonal.\<close>

definition ball_waits :: "game \<Rightarrow> bool" where
  "ball_waits g \<longleftrightarrow> ball_x g = kBallX \<and> ball_y g = kBallY \<and> ball_dir g \<in> {0, 45}"

definition ball_lost :: "game \<Rightarrow> bool" where
  "ball_lost g \<longleftrightarrow> ball_y g = - 1 \<and> ball_dir g = 0"

definition ball_flies :: "game \<Rightarrow> bool" where
  "ball_flies g \<longleftrightarrow> ball_dir g mod 90 = 45 \<and> (ball_dx g, ball_dy g) = ball_velocity (ball_dir g) \<and>
     kBallRadius \<le> ball_x g \<and> ball_x g < kCanvasWidth - kBallRadius \<and>
     kBallRadius \<le> ball_y g \<and> ball_y g < kCanvasHeight - kBallRadius"

definition board_ok :: "bool list list \<Rightarrow> bool" where
  "board_ok blocks \<longleftrightarrow> length blocks = 5 \<and> list_all (\<lambda>row. length row = 10) blocks"

definition game_ok :: "game \<Rightarrow> bool" where
  "game_ok g \<longleftrightarrow> 0 \<le> bar_x g \<and> bar_x g + kBarWidth < kCanvasWidth \<and> board_ok (bk_blocks g) \<and>
     \<bar>ball_dx g\<bar> \<le> 2 \<and> \<bar>ball_dy g\<bar> \<le> 2 \<and> (ball_waits g \<or> ball_lost g \<or> ball_flies g)"

text \<open>At most one block is cleared.\<close>

definition clears :: "bool list list \<Rightarrow> bool list list \<Rightarrow> bool" where
  "clears blocks blocks' \<longleftrightarrow> blocks' = blocks \<or>
     (\<exists>i < 5. \<exists>j < 10. blocks ! i ! j \<and> blocks' = blocks[i := (blocks ! i)[j := False]])"

lemma new_game_ok: "game_ok new_game"
  by (simp add: game_ok_def new_game_def ball_waits_def board_ok_def list_all_length board_defs)

lemma game_key_ok:
  assumes "game_ok g"
  shows "game_ok (game_key keycode press g)" "bk_blocks (game_key keycode press g) = bk_blocks g"
  using assms by (auto simp: game_key_def game_ok_def ball_waits_def ball_lost_def ball_flies_def Let_def)

lemma move_bar_ok:
  assumes "game_ok g"
  shows "game_ok (move_bar g)" "ball_dir (move_bar g) = ball_dir g" "bk_blocks (move_bar g) = bk_blocks g"
    "ball_waits (move_bar g) = ball_waits g" "ball_lost (move_bar g) = ball_lost g" "ball_flies (move_bar g) = ball_flies g"
  using assms
  by (auto simp: move_bar_def limit_range_def game_ok_def ball_waits_def ball_lost_def ball_flies_def board_defs)

lemma hit_block_ok:
  assumes "board_ok blocks"
  shows "\<exists>blocks' d'. hit_block blocks old_x old_y x y d = Some (blocks', d') \<and> board_ok blocks' \<and> clears blocks blocks' \<and>
    d' \<in> {d, 180 - d, - d, - (180 - d)} \<and>
    (d' \<noteq> d \<longrightarrow> 30 \<le> x \<and> x < 230 \<and> 30 \<le> y \<and> y < 80)"
proof (cases "x < 30 \<or> 230 \<le> x \<or> y < 30 \<or> 80 \<le> y")
  case True
  then show ?thesis using assms by (auto simp: hit_block_def board_defs clears_def)
next
  case False
  let ?i = "(x - 30) div 20" and ?j = "(y - 30) div 10"
  have range: "0 \<le> ?i" "?i < 10" "0 \<le> ?j" "?j < 5" using False by auto
  have rows: "length blocks = 5" "length (blocks ! nat ?j) = 10" using assms range by (auto simp: board_ok_def list_all_length)
  show ?thesis
  proof (cases "blocks ! nat ?j ! nat ?i")
    case True
    have "clears blocks (blocks[nat ?j := (blocks ! nat ?j)[nat ?i := False]])"
      using True range unfolding clears_def
      by (intro disjI2 exI [of _ "nat ?j"] conjI exI [of _ "nat ?i"]) simp_all
    moreover have "board_ok (blocks[nat ?j := (blocks ! nat ?j)[nat ?i := False]])"
      using assms rows range by (auto simp: board_ok_def list_all_length nth_list_update)
    ultimately show ?thesis using True False range rows
      by (simp add: hit_block_def board_defs Let_def)
  next
    case absent: False
    then show ?thesis using False range rows assms by (simp add: hit_block_def board_defs Let_def clears_def)
  qed
qed

lemma velocity_flip_xy: "ball_velocity (d - 180) = (- fst (ball_velocity d), - snd (ball_velocity d))"
  using velocity_flip_y [of "180 - d"] velocity_flip_x [of d] by simp

lemma diagonal_turn: "d mod 90 = (45 :: int) \<Longrightarrow> d' \<in> {d, 180 - d, - d, - (180 - d)} \<Longrightarrow> d' mod 90 = 45"
  using diagonal_flips [of d] diagonal_flips(2) [of "180 - d"] by auto

lemma bounce_ok:
  assumes "ball_flies g" "bounce_frame g (ball_x g + ball_dx g) (ball_y g + ball_dy g) = Some d"
  shows "d mod 90 = 45"
    "kBallRadius \<le> ball_x g + fst (ball_velocity d)" "ball_x g + fst (ball_velocity d) < kCanvasWidth - kBallRadius"
    "kBallRadius \<le> ball_y g + snd (ball_velocity d)" "ball_y g + snd (ball_velocity d) < kCanvasHeight - kBallRadius"
proof -
  have b: "ball_dir g mod 90 = 45" and v: "ball_velocity (ball_dir g) = (ball_dx g, ball_dy g)"
    and pos: "5 \<le> ball_x g" "ball_x g < 255" "5 \<le> ball_y g" "ball_y g < 170"
    using assms(1) by (auto simp: ball_flies_def board_defs)
  have two: "ball_dx g = 2 \<or> ball_dx g = - 2" "ball_dy g = 2 \<or> ball_dy g = - 2"
    using velocity_diagonal [OF b] v by auto
  note flips = velocity_flip_x [of "ball_dir g"] velocity_flip_y [of "ball_dir g"] velocity_flip_xy [of "ball_dir g"]
  have turn: "d \<in> {ball_dir g, 180 - ball_dir g, - ball_dir g, - (180 - ball_dir g)}"
    using assms(2) by (auto simp: bounce_frame_def Let_def split: if_splits)
  then show "d mod 90 = 45" by (rule diagonal_turn [OF b])
  let ?x = "ball_x g + ball_dx g" and ?y = "ball_y g + ball_dy g"
  define wall where "wall = (ball_dx g < 0 \<and> ?x < 5 \<or> 0 < ball_dx g \<and> 255 \<le> ?x)"
  define turned where "turned = (ball_dy g < 0 \<and> ?y < 5 \<or> bar_x g \<le> ?x \<and> ?x < bar_x g + 30 \<and> 0 < ball_dy g \<and> 155 \<le> ?y)"
  have "d = (let d = if wall then 180 - ball_dir g else ball_dir g in if turned then - d else d)" and
    fall: "\<not> turned \<Longrightarrow> \<not> (0 < ball_dy g \<and> 170 \<le> ?y)"
    using assms(2) by (auto simp: bounce_frame_def board_defs wall_def turned_def Let_def split: if_splits)
  then have new: "fst (ball_velocity d) = (if wall then - ball_dx g else ball_dx g)"
    "snd (ball_velocity d) = (if turned then - ball_dy g else ball_dy g)"
    using v flips by (auto simp: Let_def)
  show "kBallRadius \<le> ball_x g + fst (ball_velocity d)" "ball_x g + fst (ball_velocity d) < kCanvasWidth - kBallRadius"
    using pos two unfolding new wall_def by (auto simp: board_defs)
  show "kBallRadius \<le> ball_y g + snd (ball_velocity d)" "ball_y g + snd (ball_velocity d) < kCanvasHeight - kBallRadius"
    using pos two fall unfolding new turned_def by (auto simp: board_defs)
qed

lemma move_flying:
  assumes "ball_flies g" "game_ok g" "bounce_frame g (ball_x g + ball_dx g) (ball_y g + ball_dy g) = Some d"
    "hit_block (bk_blocks g) (ball_x g) (ball_y g) (ball_x g + ball_dx g) (ball_y g + ball_dy g) d = Some (blocks, d')"
  shows "ball_flies (g\<lparr>bk_blocks := blocks, ball_dir := d', ball_dx := fst (ball_velocity d'), ball_dy := snd (ball_velocity d'),
    ball_x := ball_x g + fst (ball_velocity d'), ball_y := ball_y g + snd (ball_velocity d')\<rparr>)" (is "ball_flies ?g")
    "d' mod 90 = 45" "board_ok blocks" "clears (bk_blocks g) blocks"
proof -
  have d: "d mod 90 = 45" by (rule bounce_ok(1) [OF assms(1,3)])
  have hit: "board_ok blocks" "clears (bk_blocks g) blocks" "d' \<in> {d, 180 - d, - d, - (180 - d)}"
    "d' \<noteq> d \<longrightarrow> 30 \<le> ball_x g + ball_dx g \<and> ball_x g + ball_dx g < 230 \<and> 30 \<le> ball_y g + ball_dy g \<and> ball_y g + ball_dy g < 80"
    using hit_block_ok [of "bk_blocks g" "ball_x g" "ball_y g" "ball_x g + ball_dx g" "ball_y g + ball_dy g" d] assms(2,4)
    by (auto simp: game_ok_def)
  then show "board_ok blocks" "clears (bk_blocks g) blocks" and d': "d' mod 90 = 45" by (auto intro: diagonal_turn [OF d])
  have two: "\<bar>fst (ball_velocity d')\<bar> = 2" "\<bar>snd (ball_velocity d')\<bar> = 2" using velocity_diagonal [OF d'] by auto
  have old: "\<bar>ball_dx g\<bar> \<le> 2" "\<bar>ball_dy g\<bar> \<le> 2" using assms(2) by (auto simp: game_ok_def)
  show "ball_flies ?g"
  proof (cases "d' = d")
    case True
    then show ?thesis using bounce_ok [OF assms(1,3)] by (simp add: ball_flies_def)
  next
    case False
    then show ?thesis using hit(4) two old d' by (auto simp: ball_flies_def board_defs)
  qed
qed

lemma start_frame:
  assumes "ball_waits g" "ball_dir g = 45" "game_ok g"
  shows "bounce_frame g (ball_x g + ball_dx g) (ball_y g + ball_dy g) = Some 45"
    "hit_block (bk_blocks g) (ball_x g) (ball_y g) (ball_x g + ball_dx g) (ball_y g + ball_dy g) 45 = Some (bk_blocks g, 45)"
proof -
  define x y where "x = ball_x g + ball_dx g" and "y = ball_y g + ball_dy g"
  have "\<bar>ball_dx g\<bar> \<le> 2" "\<bar>ball_dy g\<bar> \<le> 2" "ball_x g = 105" "ball_y g = 135"
    using assms by (simp_all add: ball_waits_def game_ok_def board_defs)
  then have "5 \<le> x" "x < 255" "5 \<le> y" "y < 155" "80 \<le> y" by (auto simp: x_def y_def)
  then have "bounce_frame g x y = Some 45"
    "hit_block (bk_blocks g) (ball_x g) (ball_y g) x y 45 = Some (bk_blocks g, 45)"
    using assms(2) by (simp_all add: bounce_frame_def hit_block_def board_defs not_le not_less)
  then show "bounce_frame g (ball_x g + ball_dx g) (ball_y g + ball_dy g) = Some 45"
    "hit_block (bk_blocks g) (ball_x g) (ball_y g) (ball_x g + ball_dx g) (ball_y g + ball_dy g) 45 = Some (bk_blocks g, 45)"
    by (simp_all add: x_def y_def)
qed

lemma move_game_ok:
  assumes "game_ok g"
  shows "\<exists>g'. move_game g = Some g' \<and> game_ok g' \<and> clears (bk_blocks g) (bk_blocks g')"
proof -
  define b where "b = move_bar g"
  have b: "game_ok b" "bk_blocks b = bk_blocks g" using move_bar_ok [OF assms] by (simp_all add: b_def)
  let ?x = "ball_x b + ball_dx b" and ?y = "ball_y b + ball_dy b"
  consider (still) "ball_dir b = 0" | (starts) "ball_waits b" "ball_dir b = 45" | (flies) "ball_flies b" "ball_dir b \<noteq> 0"
    using b(1) by (auto simp: game_ok_def ball_waits_def ball_lost_def)
  then show ?thesis
  proof cases
    case still
    then show ?thesis using b by (simp add: move_game_def b_def [symmetric] clears_def Let_def)
  next
    case starts
    obtain dx dy where v: "ball_velocity 45 = (dx, dy)" by fastforce
    then have dxy: "- 2 \<le> dx" "dx \<le> 2" "- 2 \<le> dy" "dy \<le> 2" using velocity_diagonal [of 45] by auto
    have w: "ball_x b = 105" "ball_y b = 135" using starts(1) by (simp_all add: ball_waits_def board_defs)
    have "ball_flies (b\<lparr>bk_blocks := bk_blocks b, ball_dir := 45, ball_dx := dx, ball_dy := dy,
        ball_x := ball_x b + dx, ball_y := ball_y b + dy\<rparr>)" (is "ball_flies ?g")
      using w v dxy unfolding ball_flies_def by (simp add: board_defs)
    then have "game_ok ?g" using b(1) dxy unfolding game_ok_def by (simp add: abs_le_iff)
    moreover have "move_game g = Some ?g"
      using start_frame [OF starts b(1)] v starts(2) by (simp add: move_game_def b_def [symmetric])
    ultimately show ?thesis using b(2) by (simp add: clears_def)
  next
    case flies
    show ?thesis
    proof (cases "bounce_frame b ?x ?y")
      case None
      then show ?thesis using b flies by (auto simp: move_game_def b_def [symmetric] clears_def game_ok_def ball_lost_def)
    next
      case (Some d)
      obtain blocks d' where h: "hit_block (bk_blocks b) (ball_x b) (ball_y b) ?x ?y d = Some (blocks, d')"
        using hit_block_ok [of "bk_blocks b" "ball_x b" "ball_y b" ?x ?y d] b(1) unfolding game_ok_def by blast
      note m = move_flying [OF flies(1) b(1) Some h]
      obtain dx dy where v: "ball_velocity d' = (dx, dy)" by fastforce
      then have "\<bar>dx\<bar> \<le> 2" "\<bar>dy\<bar> \<le> 2" using velocity_diagonal [OF m(2)] by auto
      then show ?thesis using Some h m v flies(2) b by (simp add: move_game_def b_def [symmetric] game_ok_def)
    qed
  qed
qed

text \<open>What is filled lies inside of the inner area of the window.\<close>

fun inside_canvas :: "app_call \<Rightarrow> bool" where
  "inside_canvas (Win_Fill lid x y w h c) \<longleftrightarrow>
     4 \<le> x \<and> x + w \<le> 4 + kCanvasWidth \<and> 24 \<le> y \<and> y + h \<le> 24 + kCanvasHeight"
| "inside_canvas _ \<longleftrightarrow> True"

lemma draw_game_inside:
  assumes "game_ok g"
  shows "list_all inside_canvas (draw_game lid g)"
proof -
  have "list_all inside_canvas (draw_blocks l blocks)" for l blocks
    by (auto simp: draw_blocks_def list_all_iff board_defs Let_def)
  moreover have "inside_canvas (draw_bar l (bar_x g))" for l
    using assms by (simp add: draw_bar_def game_ok_def board_defs)
  moreover have "list_all inside_canvas (draw_ball l (ball_x g) (ball_y g))" if "0 \<le> ball_y g" for l
    using assms that
    by (auto simp: draw_ball_def game_ok_def ball_waits_def ball_lost_def ball_flies_def board_defs)
  ultimately show ?thesis by (simp add: draw_game_def board_defs Let_def)
qed

lemma frame_events_ok:
  assumes "game_ok g"
  shows "case frame_events g inputs of Frame_Waits g' \<Rightarrow> game_ok g' | Frame_Over g' inputs' \<Rightarrow> game_ok g' | Frame_Quit \<Rightarrow> True"
  using assms by (induction inputs arbitrary: g) (auto simp: game_key_ok split: app_event.splits)

lemma next_frame_timer_ok: "game_ok g \<Longrightarrow> game_ok (snd (next_frame_timer t g))"
  "inside_canvas (fst (next_frame_timer t g))"
  by (auto simp: next_frame_timer_def game_ok_def ball_waits_def ball_lost_def ball_flies_def Let_def)

definition run_ok :: "app_call list \<times> (game + int) \<Rightarrow> bool" where
  "run_ok r \<longleftrightarrow> list_all inside_canvas (fst r) \<and> (case snd r of Inl g \<Rightarrow> game_ok g | Inr c \<Rightarrow> c = 0)"

lemma blocks_loop_ok: "game_ok g \<Longrightarrow> \<exists>r. blocks_loop lid t g inputs = Some r \<and> run_ok r"
proof (induction "length inputs" arbitrary: g inputs rule: less_induct)
  case less
  obtain timer g0 where n: "next_frame_timer t g = (timer, g0)" by fastforce
  have g0: "game_ok g0" "inside_canvas timer" using next_frame_timer_ok(1) [of g t] next_frame_timer_ok(2) [of t g] less(2) n by auto
  note l = blocks_loop.simps [of lid t g inputs] and d = draw_game_inside [OF g0(1), of lid]
  show ?case
  proof (cases "frame_events g0 inputs")
    case (Frame_Over g' inputs')
    obtain g'' where m: "move_game g' = Some g''" "game_ok g''"
      using frame_events_ok [OF g0(1), of inputs] move_game_ok [of g'] Frame_Over by auto
    obtain r where "blocks_loop lid t g'' inputs' = Some r" "run_ok r"
      using less(1) [OF frame_events_shorter [OF Frame_Over] m(2)] by blast
    then show ?thesis using Frame_Over n g0 m d by (auto simp: l Let_def run_ok_def split: prod.splits)
  qed (use n g0 d frame_events_ok [OF g0(1), of inputs] in \<open>simp_all add: l Let_def run_ok_def\<close>)
qed



end
