(* ===== verification/Calculator.thy ===== *)
theory Calculator imports Shell begin

text \<open>
  \<^verbatim>\<open>apps/rpn/rpn.cpp\<close>: the calculator for terms in reverse Polish notation, whose words are the program's arguments. A
  \<^verbatim>\<open>long\<close> is a 64-bit word read as a signed number, and overflow wraps as the processor's instructions do. \<open>None\<close> is an
  access outside of the stack's array, or a division that traps.
\<close>

section \<open>The stack\<close>

(*@ apps/rpn/rpn.cpp:6-7 stack *)
record rpn =
  stack_ptr :: int
  stack :: "u64 list"

(*@ apps/rpn/rpn.cpp:9-13 Pop *)
definition rpn_pop :: "rpn \<Rightarrow> (u64 \<times> rpn) option" where
  "rpn_pop s =
    (if stack_ptr s < 0 \<or> int (length (stack s)) \<le> stack_ptr s then None
     else Some (stack s ! nat (stack_ptr s), s\<lparr>stack_ptr := stack_ptr s - 1\<rparr>))"

(*@ apps/rpn/rpn.cpp:15-18 Push *)
definition rpn_push :: "u64 \<Rightarrow> rpn \<Rightarrow> rpn option" where
  "rpn_push v s =
    (let p = stack_ptr s + 1
     in if p < 0 \<or> int (length (stack s)) \<le> p then None
        else Some (s\<lparr>stack_ptr := p, stack := (stack s)[nat p := v]\<rparr>))"

section \<open>Numbers\<close>

text \<open>Division of signed numbers, towards zero.\<close>

definition s_div :: "u64 \<Rightarrow> u64 \<Rightarrow> u64 option" where
  "s_div a b =
    (if b = 0 \<or> sint a = - (2 ^ 63) \<and> sint b = - 1 then None
     else Some (word_of_int (sgn (sint a) * sgn (sint b) * (\<bar>sint a\<bar> div \<bar>sint b\<bar>))))"

text \<open>\<^verbatim>\<open>atol\<close> of the C library: white space, a sign, and digits up to the first other character; a number that is too
  large becomes the largest.\<close>

definition c_atol :: "bytes \<Rightarrow> u64" where
  "c_atol word =
    (let s = dropWhile is_space word;
         neg = (s \<noteq> [] \<and> hd s = 45);
         s = (if s \<noteq> [] \<and> hd s \<in> {45, 43} then tl s else s);
         n = foldl (\<lambda>n d. 10 * n + (uint d - 48)) 0 (takeWhile (\<lambda>c. 48 \<le> c \<and> c \<le> 57) s)
     in word_of_int (max (- (2 ^ 63)) (min (2 ^ 63 - 1) (if neg then - n else n))))"

section \<open>The program\<close>

definition rpn_operation :: "(u64 \<Rightarrow> u64 \<Rightarrow> u64 option) \<Rightarrow> rpn \<Rightarrow> rpn option" where
  "rpn_operation f s = do { (b, s) \<leftarrow> rpn_pop s; (a, s) \<leftarrow> rpn_pop s; v \<leftarrow> f a b; rpn_push v s }"

(*@ apps/rpn/rpn.cpp:24-43 main *)
definition rpn_word :: "bytes \<Rightarrow> rpn \<Rightarrow> rpn option" where
  "rpn_word word s =
    (if word = [43] then rpn_operation (\<lambda>a b. Some (a + b)) s
     else if word = [45] then rpn_operation (\<lambda>a b. Some (a - b)) s
     else if word = [42] then rpn_operation (\<lambda>a b. Some (a * b)) s
     else if word = [47] then rpn_operation s_div s
     else rpn_push (c_atol word) s)"

(*@ apps/rpn/rpn.cpp:23-44 main *)
fun rpn_run :: "bytes list \<Rightarrow> rpn \<Rightarrow> rpn option" where
  "rpn_run [] s = Some s"
| "rpn_run (word # ws) s = Option.bind (rpn_word word s) (rpn_run ws)"

text \<open>The arguments behind the program's name; what is printed, and the exit code.\<close>

(*@ apps/rpn/rpn.cpp:20-53 main *)
definition rpn_main :: "bytes list \<Rightarrow> u64 list \<Rightarrow> (bytes \<times> int) option" where
  "rpn_main av old_stack = do {
     s \<leftarrow> rpn_run av \<lparr>stack_ptr = - 1, stack = old_stack\<rparr>;
     (result, s) \<leftarrow> (if 0 \<le> stack_ptr s then rpn_pop s else Some (0, s));
     Some (fmt_int (sint result) @ [10], sint (ucast result :: 32 word)) }"

section \<open>Terms\<close>

text \<open>Terms with their value, the notation the program reads, and the room on the stack that it takes.\<close>

datatype operator = Plus_Op | Minus_Op | Times_Op | Divide_Op

datatype expression = Number bytes | Operation operator expression expression

fun operator_word :: "operator \<Rightarrow> bytes" where
  "operator_word Plus_Op = [43]"
| "operator_word Minus_Op = [45]"
| "operator_word Times_Op = [42]"
| "operator_word Divide_Op = [47]"

fun operator_value :: "operator \<Rightarrow> u64 \<Rightarrow> u64 \<Rightarrow> u64 option" where
  "operator_value Plus_Op a b = Some (a + b)"
| "operator_value Minus_Op a b = Some (a - b)"
| "operator_value Times_Op a b = Some (a * b)"
| "operator_value Divide_Op a b = s_div a b"

fun expression_value :: "expression \<Rightarrow> u64 option" where
  "expression_value (Number word) = (if word \<in> {[43], [45], [42], [47]} then None else Some (c_atol word))"
| "expression_value (Operation f x y) =
    do { a \<leftarrow> expression_value x; b \<leftarrow> expression_value y; operator_value f a b }"

fun postfix :: "expression \<Rightarrow> bytes list" where
  "postfix (Number word) = [word]"
| "postfix (Operation f x y) = postfix x @ postfix y @ [operator_word f]"

fun room :: "expression \<Rightarrow> nat" where
  "room (Number word) = 1"
| "room (Operation f x y) = max (room x) (Suc (room y))"

text \<open>The values on the stack, from the bottom up.\<close>

definition rpn_values :: "rpn \<Rightarrow> u64 list" where
  "rpn_values s = take (nat (stack_ptr s + 1)) (stack s)"

definition rpn_ok :: "rpn \<Rightarrow> bool" where
  "rpn_ok s \<longleftrightarrow> length (stack s) = 100 \<and> - 1 \<le> stack_ptr s \<and> stack_ptr s < 100"

lemma rpn_push_ok:
  assumes "rpn_ok s" "length (rpn_values s) < 100"
  shows "\<exists>s'. rpn_push v s = Some s' \<and> rpn_ok s' \<and> rpn_values s' = rpn_values s @ [v]"
proof -
  define n where "n = nat (stack_ptr s + 1)"
  have n: "stack_ptr s = int n - 1" "n < 100" "length (stack s) = 100" using assms by (auto simp: rpn_ok_def rpn_values_def n_def)
  then have "take (Suc n) ((stack s)[n := v]) = take n (stack s) @ [v]" by (simp add: take_Suc_conv_app_nth)
  then show ?thesis using n by (auto simp: rpn_push_def rpn_ok_def rpn_values_def nat_add_distrib)
qed

lemma rpn_pop_ok:
  assumes "rpn_ok s" "rpn_values s = vs @ [v]"
  shows "\<exists>s'. rpn_pop s = Some (v, s') \<and> rpn_ok s' \<and> rpn_values s' = vs"
proof -
  define n where "n = nat (stack_ptr s)"
  have "stack_ptr s \<noteq> - 1" using assms(2) by (auto simp: rpn_values_def)
  then have n: "stack_ptr s = int n" "n < 100" "length (stack s) = 100" using assms by (auto simp: rpn_ok_def n_def)
  then have "take n (stack s) @ [stack s ! n] = vs @ [v]"
    using assms(2) by (simp add: rpn_values_def nat_add_distrib take_Suc_conv_app_nth)
  then show ?thesis using n by (auto simp: rpn_pop_def rpn_ok_def rpn_values_def)
qed

lemma rpn_operation_ok:
  assumes "rpn_ok s" "rpn_values s = vs @ [a, b]" "f a b = Some v"
  shows "\<exists>s'. rpn_operation f s = Some s' \<and> rpn_ok s' \<and> rpn_values s' = vs @ [v]"
proof -
  obtain s1 where s1: "rpn_pop s = Some (b, s1)" "rpn_ok s1" "rpn_values s1 = vs @ [a]"
    using rpn_pop_ok [of s "vs @ [a]" b] assms by auto
  obtain s2 where s2: "rpn_pop s1 = Some (a, s2)" "rpn_ok s2" "rpn_values s2 = vs"
    using rpn_pop_ok [OF s1(2,3)] by blast
  have "length (rpn_values s) \<le> 100" using assms(1) by (simp add: rpn_values_def rpn_ok_def)
  then have "length vs < 100" using assms(2) by simp
  then obtain s3 where "rpn_push v s2 = Some s3" "rpn_ok s3" "rpn_values s3 = vs @ [v]"
    using rpn_push_ok [OF s2(2), of v] s2(3) by auto
  then show ?thesis using s1(1) s2(1) assms(3) by (simp add: rpn_operation_def)
qed

lemma rpn_operator_ok:
  assumes "rpn_ok s" "rpn_values s = vs @ [a, b]" "operator_value f a b = Some v"
  shows "\<exists>s'. rpn_word (operator_word f) s = Some s' \<and> rpn_ok s' \<and> rpn_values s' = vs @ [v]"
proof -
  have "rpn_word (operator_word f) s = rpn_operation (operator_value f) s"
    by (cases f) (simp_all add: rpn_word_def rpn_operation_def)
  then show ?thesis using rpn_operation_ok [OF assms(1,2), of "operator_value f" v, OF assms(3)] by simp
qed

lemma rpn_run_append: "rpn_run (xs @ ys) s = Option.bind (rpn_run xs s) (rpn_run ys)"
  by (induction xs arbitrary: s) (auto split: Option.bind_splits)

lemma rpn_run_postfix:
  assumes "expression_value e = Some v" "rpn_ok s" "length (rpn_values s) + room e \<le> 100"
  shows "\<exists>s'. rpn_run (postfix e) s = Some s' \<and> rpn_ok s' \<and> rpn_values s' = rpn_values s @ [v]"
  using assms
proof (induction e arbitrary: v s)
  case (Number w)
  then have "rpn_word w s = rpn_push v s" by (simp add: rpn_word_def split: if_splits)
  then show ?case using rpn_push_ok [of s v] Number by (auto split: if_splits)
next
  case (Operation f x y)
  obtain a b where ab: "expression_value x = Some a" "expression_value y = Some b" "operator_value f a b = Some v"
    using Operation.prems(1) by (auto simp: bind_eq_Some_conv)
  have r: "length (rpn_values s) + room x \<le> 100" "length (rpn_values s) + Suc (room y) \<le> 100"
    using Operation.prems(3) by (simp_all add: max_def split: if_splits)
  obtain s1 where s1: "rpn_run (postfix x) s = Some s1" "rpn_ok s1" "rpn_values s1 = rpn_values s @ [a]"
    using Operation.IH(1) [OF ab(1) Operation.prems(2) r(1)] by auto
  obtain s2 where s2: "rpn_run (postfix y) s1 = Some s2" "rpn_ok s2" "rpn_values s2 = rpn_values s @ [a, b]"
    using Operation.IH(2) [OF ab(2) s1(2)] r(2) s1(3) by auto
  show ?case using rpn_operator_ok [OF s2(2,3) ab(3)] s1(1) s2(1) by (auto simp: rpn_run_append)
qed

text \<open>C39: The calculator refines the meaning of terms: given the words of a term in postfix notation, of which no part divides by
  zero and no number is one of the four operators, and which takes no more than the 100 places of the stack, the program
  prints the value of the term, in 64-bit arithmetic, and a newline, and exits with the value's low 32 bits,
  whatever stood on the stack before.\<close>

theorem rpn_computes_value:
  assumes "expression_value e = Some v" "room e \<le> 100" "length old_stack = 100"
  shows "rpn_main (postfix e) old_stack = Some (fmt_int (sint v) @ [10], sint (ucast v :: 32 word))"
proof -
  let ?s = "\<lparr>stack_ptr = - 1, stack = old_stack\<rparr>"
  have "rpn_ok ?s" "rpn_values ?s = []" using assms(3) by (simp_all add: rpn_ok_def rpn_values_def)
  then obtain s where s: "rpn_run (postfix e) ?s = Some s" "rpn_ok s" "rpn_values s = [] @ [v]"
    using rpn_run_postfix [OF assms(1), of ?s] assms(2) by auto
  obtain s' where "rpn_pop s = Some (v, s')" using rpn_pop_ok [OF s(2,3)] by blast
  moreover from this have "0 \<le> stack_ptr s" by (auto simp: rpn_pop_def split: if_splits)
  ultimately show ?thesis using s(1) by (simp add: rpn_main_def)
qed

theorem rpn_computes_value_witness:
  "rpn_main [[50, 48], [45, 51], [47], [53], [42]] (replicate 100 0) = Some ([45, 51, 48, 10], - 30)"
proof -
  let ?e = "Operation Times_Op (Operation Divide_Op (Number [50, 48]) (Number [45, 51])) (Number [53])"
  have n: "c_atol [50, 48] = 20" "c_atol [45, 51] = - 3" "c_atol [53] = 5"
    by (simp_all add: c_atol_def is_space_def)
  have "s_div 20 (- 3) = Some (- 6)" by (simp add: s_div_def)
  then have "expression_value ?e = Some (- 30)" by (simp add: n)
  moreover have "fmt_int (- 30) = [45, 51, 48]" by code_simp
  ultimately show ?thesis using rpn_computes_value [of ?e "- 30" "replicate 100 0"] by simp
qed

end
