(* ===== verification/Small_Programs.thy ===== *)
theory Small_Programs imports User_Calls Shell Syscall_Facts begin

text \<open>
  Smaller programs of \<^verbatim>\<open>apps\<close>: \<^verbatim>\<open>sort\<close>, \<^verbatim>\<open>more\<close>, \<^verbatim>\<open>cp\<close>, \<^verbatim>\<open>dpage\<close>, \<^verbatim>\<open>paint\<close>, and the \<^verbatim>\<open>sbrk\<close> of \<^verbatim>\<open>newlib_support.c\<close>, from which every program gets
  its heap. The lines that \<^verbatim>\<open>fgets\<close> reads are given as the list of the strings it stores, the inputs of a program as
  the answers of \<^verbatim>\<open>SyscallReadEvent\<close>.
\<close>

section \<open>\<^verbatim>\<open>sort\<close>\<close>

text \<open>The comparison is of signed characters.\<close>

(*@ apps/sort/sort.cpp:22-31 main *)
fun line_less :: "bytes \<Rightarrow> bytes \<Rightarrow> bool" where
  "line_less (a # as) (b # bs) =
    (if sint a < sint b then True else if sint b < sint a then False else line_less as bs)"
| "line_less [] bs = (bs \<noteq> [])"
| "line_less (a # as) [] = False"

text \<open>\<^verbatim>\<open>std::sort\<close>, as an insertion sort: lines that neither comes before the other are equal (\<open>line_less_total\<close>), so
  every way to sort gives the same list.\<close>

fun sort_insert :: "bytes \<Rightarrow> bytes list \<Rightarrow> bytes list" where
  "sort_insert l [] = [l]"
| "sort_insert l (x # xs) = (if line_less x l then x # sort_insert l xs else l # x # xs)"

(*@ apps/sort/sort.cpp:16-36 main *)
definition sort_program :: "bytes list \<Rightarrow> bytes list" where
  "sort_program lines = foldr sort_insert (map c_string lines) []"

lemma line_less_total: "\<not> line_less a b \<Longrightarrow> \<not> line_less b a \<Longrightarrow> a = b"
proof (induction a b rule: line_less.induct)
  case (1 a as b bs)
  then have "sint a = sint b" by (auto split: if_splits)
  then show ?case using 1 by (auto simp: signed_word_eqI split: if_splits)
qed auto

lemma line_less_trans: "line_less a b \<Longrightarrow> line_less b c \<Longrightarrow> line_less a c"
proof (induction a b arbitrary: c rule: line_less.induct)
  case (1 a as b bs)
  then show ?case by (cases c) (auto split: if_splits)
next
  case (2 bs)
  then show ?case by (cases bs; cases c) auto
qed auto

lemma line_less_nil [simp]: "\<not> line_less bs []"
  by (cases bs) simp_all

lemma line_less_asym: "line_less a b \<Longrightarrow> \<not> line_less b a"
  by (induction a b rule: line_less.induct) (auto split: if_splits)

text \<open>The program prints its lines, none lost and none twice, and no line stands before one that comes before it.\<close>

lemma sort_insert_set: "set (sort_insert l xs) = insert l (set xs)"
  by (induction xs) auto

lemma sort_insert_sorted:
  "sorted_wrt (\<lambda>x y. \<not> line_less y x) xs \<Longrightarrow> sorted_wrt (\<lambda>x y. \<not> line_less y x) (sort_insert l xs)"
proof (induction xs)
  case (Cons x xs)
  have "\<not> line_less y l" if "\<not> line_less x l" "\<not> line_less y x" for y
    using that line_less_total [of x l] line_less_total [of y x] line_less_trans [of y l x] line_less_asym by blast
  with Cons show ?case by (auto simp: sort_insert_set dest: line_less_asym)
qed simp

lemma sort_program_sorted:
  "sorted_wrt (\<lambda>x y. \<not> line_less y x) (sort_program lines)"
  unfolding sort_program_def by (induction lines) (simp_all add: sort_insert_sorted)

lemma sort_program_same_lines: "mset (sort_program lines) = mset (map c_string lines)"
proof -
  have "mset (sort_insert l xs) = add_mset l (mset xs)" for l xs by (induction xs) auto
  then show ?thesis unfolding sort_program_def by (induction lines) auto
qed

section \<open>\<^verbatim>\<open>more\<close>\<close>

text \<open>\<open>None\<close> waits for an input; \<open>Inl\<close> is the exit code with what is printed, \<open>Inr\<close> the inputs left after a key.\<close>

(*@ apps/more/more.cpp:8-25 WaitKey *)
fun wait_key :: "(int \<Rightarrow> bytes) \<Rightarrow> read_answer list \<Rightarrow> ((int \<times> app_call list) + read_answer list) option" where
  "wait_key strerror [] = None"
| "wait_key strerror ((err, ev) # inputs) =
    (if err \<noteq> 0 then Some (Inl (1, [Std_Err (bytes_of ''ReadEvent failed: '' @ strerror err @ [10])]))
     else case ev of
       Ev_Quit \<Rightarrow> Some (Inl (0, []))
     | Ev_Key_Push m keycode a press \<Rightarrow> if press then Some (Inr inputs) else wait_key strerror inputs
     | _ \<Rightarrow> wait_key strerror inputs)"

text \<open>The bitwise and with the number of lines of a page, where its remainder is meant.\<close>

(*@ apps/more/more.cpp:51-51 main *)
definition page_full :: "nat \<Rightarrow> int \<Rightarrow> bool" where
  "page_full i page_size \<longleftrightarrow> 0 < i \<and> int i AND page_size = 0"

(*@ apps/more/more.cpp:50-57 main *)
fun more_lines :: "(int \<Rightarrow> bytes) \<Rightarrow> int \<Rightarrow> nat \<Rightarrow> bytes list \<Rightarrow> read_answer list \<Rightarrow> app_call list \<times> int option" where
  "more_lines strerror page_size i [] inputs = ([], Some 0)"
| "more_lines strerror page_size i (l # ls) inputs =
    (let pause = (if page_full i page_size then [Std_Err (bytes_of ''---more---'' @ [10])] else []);
         key = (if page_full i page_size then wait_key strerror inputs else Some (Inr inputs))
     in case key of
          None \<Rightarrow> (pause, None)
        | Some (Inl (code, out)) \<Rightarrow> (pause @ out, Some code)
        | Some (Inr inputs) \<Rightarrow>
            (case more_lines strerror page_size (i + 1) ls inputs of
               (out, r) \<Rightarrow> (pause @ Std_Out (c_string l) # out, r)))"

text \<open>Whatever the page size, the lines that are printed are the file's first ones, in order; they are all of them when
  the program ends after its last line.\<close>

fun printed :: "app_call list \<Rightarrow> bytes list" where
  "printed [] = []"
| "printed (Std_Out s # calls) = s # printed calls"
| "printed (_ # calls) = printed calls"

lemma printed_append: "printed (xs @ ys) = printed xs @ printed ys"
  by (induction xs rule: printed.induct) auto

lemma wait_key_silent: "wait_key strerror inputs = Some (Inl (code, out)) \<Longrightarrow> printed out = []"
  by (induction inputs) (auto split: if_splits app_event.splits)

lemma more_prints_prefix:
  "\<exists>n. printed (fst (more_lines strerror page_size i ls inputs)) = map c_string (take n ls)"
proof (induction ls arbitrary: i inputs)
  case (Cons l ls)
  let ?pause = "if page_full i page_size then [Std_Err (bytes_of ''---more---'' @ [10])] else []"
  have p: "printed ?pause = []" by simp
  show ?case
  proof (cases "if page_full i page_size then wait_key strerror inputs else Some (Inr inputs)")
    case None
    then show ?thesis using p by (auto simp: Let_def intro!: exI [of _ 0])
  next
    case (Some a)
    show ?thesis
    proof (cases a)
      case (Inl b)
      obtain code out where b: "b = (code, out)" by fastforce
      then have "wait_key strerror inputs = Some (Inl (code, out))" using Some Inl by (simp split: if_splits)
      then show ?thesis using p Some Inl b wait_key_silent by (auto simp: Let_def printed_append intro!: exI [of _ 0])
    next
      case (Inr inputs')
      obtain n where "printed (fst (more_lines strerror page_size (i + 1) ls inputs')) = map c_string (take n ls)"
        using Cons.IH by blast
      then show ?thesis using p Some Inr
        by (auto simp: Let_def printed_append split: prod.splits intro!: exI [of _ "Suc n"])
    qed
  qed
qed simp

section \<open>\<^verbatim>\<open>cp\<close> and \<^verbatim>\<open>dpage\<close>\<close>

text \<open>The files are what is left of their content; \<^verbatim>\<open>fread\<close> stores as much as there is and fits. \<open>wr_count\<close> is the answer of
  \<^verbatim>\<open>fwrite\<close>, by the number of the call. The result is what was written, and the exit code.\<close>

(*@ apps/cp/cp.cpp:22-31 main *)
function cp_loop :: "(nat \<Rightarrow> nat) \<Rightarrow> nat \<Rightarrow> bytes \<Rightarrow> bytes \<times> int" where
  "cp_loop wr_count i content =
    (let buf = take 256 content
     in if buf = [] then ([], 0)
        else if wr_count i \<noteq> length buf then (take (wr_count i) buf, 1)
        else (case cp_loop wr_count (i + 1) (drop 256 content) of (out, code) \<Rightarrow> (buf @ out, code)))"
  by pat_completeness auto
termination by (relation "measure (\<lambda>(wr_count, i, content). length content)") auto

declare cp_loop.simps [simp del]

text \<open>A copy without a short write has the content of the original; a program that reports success has copied all.\<close>

lemma cp_loop_copies: "snd (cp_loop wr_count i content) = 0 \<Longrightarrow> fst (cp_loop wr_count i content) = content"
proof (induction wr_count i content rule: cp_loop.induct)
  case (1 wr_count i content)
  then show ?case
    by (subst (asm) (2) cp_loop.simps, subst cp_loop.simps) (auto simp: Let_def split: prod.splits if_splits)
qed

text \<open>The loop of \<^verbatim>\<open>dpage\<close> over chunks of a page, each into a page of its own: \<open>demand_ok\<close> tells whether the system call
  succeeds. The result is the size of the file, or \<open>None\<close> for the exit with code 1.\<close>

(*@ apps/dpage/dpage.cpp:25-34 main *)
function dpage_read :: "(nat \<Rightarrow> bool) \<Rightarrow> nat \<Rightarrow> bytes \<Rightarrow> nat option" where
  "dpage_read demand_ok i content =
    (let n = length (take 4096 content)
     in if n = 4096 then
          (if demand_ok i then map_option (\<lambda>len. n + len) (dpage_read demand_ok (i + 1) (drop 4096 content)) else None)
        else Some n)"
  by pat_completeness auto
termination by (relation "measure (\<lambda>(demand_ok, i, content). length content)") auto

declare dpage_read.simps [simp del]

text \<open>The characters are signed.\<close>

(*@ apps/dpage/dpage.cpp:37-42 main *)
fun dpage_count :: "int \<Rightarrow> bytes \<Rightarrow> nat" where
  "dpage_count ch [] = 0"
| "dpage_count ch (b # bs) = (if sint b = ch then 1 else 0) + dpage_count ch bs"

lemma dpage_read_size: "case dpage_read demand_ok i content of None \<Rightarrow> True | Some n \<Rightarrow> n = length content"
proof (induction demand_ok i content rule: dpage_read.induct)
  case (1 demand_ok i content)
  show ?case
  proof (cases "4096 \<le> length content \<and> demand_ok i")
    case True
    then show ?thesis using 1 [OF refl] by (subst dpage_read.simps) (auto simp: Let_def min_def split: option.splits)
  next
    case False
    then show ?thesis by (subst dpage_read.simps) (auto simp: Let_def min_def)
  qed
qed

lemma dpage_count_filter: "dpage_count ch bs = length (filter (\<lambda>b. sint b = ch) bs)"
  by (induction bs) auto

section \<open>\<^verbatim>\<open>paint\<close>\<close>

(*@ apps/paint/paint.cpp:8-10 IsInside *)
definition is_inside :: "int \<Rightarrow> int \<Rightarrow> bool" where
  "is_inside x y \<longleftrightarrow> 4 \<le> x \<and> x < 4 + 200 \<and> 24 \<le> y \<and> y < 24 + 130"

text \<open>One event: what is drawn or printed, whether the button is pressed from now on, and \<open>None\<close> at the end of the loop.
  A dot is drawn wherever the button changes, on the title bar too.\<close>

(*@ apps/paint/paint.cpp:29-45 main *)
fun paint_event :: "u64 \<Rightarrow> bool \<Rightarrow> app_event \<Rightarrow> (app_call list \<times> bool) option" where
  "paint_event lid press Ev_Quit = None"
| "paint_event lid press (Ev_Mouse_Move x y dx dy buttons) =
    (let prev_x = x - dx; prev_y = y - dy
     in Some (if press \<and> is_inside prev_x prev_y \<and> is_inside x y then [Win_Line lid prev_x prev_y x y 0] else [], press))"
| "paint_event lid press (Ev_Mouse_Button x y pressed button) =
    Some (if button = 0 then ([Win_Fill lid x y 1 1 0], pressed \<noteq> 0) else ([], press))"
| "paint_event lid press (Ev_Timer_Timeout t v) = Some ([Std_Out (bytes_of ''unknown event: type = 3'' @ [10])], press)"
| "paint_event lid press (Ev_Key_Push m keycode a p) = Some ([Std_Out (bytes_of ''unknown event: type = 4'' @ [10])], press)"

text \<open>The flag tells that the program has left the loop, and then it has closed its window.\<close>

(*@ apps/paint/paint.cpp:19-49 main *)
fun paint_loop :: "(int \<Rightarrow> bytes) \<Rightarrow> u64 \<Rightarrow> bool \<Rightarrow> read_answer list \<Rightarrow> app_call list \<times> bool" where
  "paint_loop strerror lid press [] = ([], False)"
| "paint_loop strerror lid press ((err, ev) # inputs) =
    (if err \<noteq> 0 then ([Std_Out (bytes_of ''ReadEvent failed: '' @ strerror err @ [10]), Win_Close lid], True)
     else case paint_event lid press ev of
       None \<Rightarrow> ([Win_Close lid], True)
     | Some (calls, press) \<Rightarrow>
         (case paint_loop strerror lid press inputs of (out, ended) \<Rightarrow> (calls @ out, ended)))"

fun line_inside :: "app_call \<Rightarrow> bool" where
  "line_inside (Win_Line lid x0 y0 x1 y1 c) \<longleftrightarrow> is_inside x0 y0 \<and> is_inside x1 y1"
| "line_inside _ \<longleftrightarrow> True"

text \<open>Both ends of every line that is drawn lie inside of the canvas.\<close>

lemma paint_lines_inside: "list_all line_inside (fst (paint_loop strerror lid press inputs))"
proof (induction inputs arbitrary: press)
  case (Cons a inputs)
  obtain err ev where a: "a = (err, ev)" by fastforce
  have "list_all line_inside calls" if "paint_event lid press ev = Some (calls, press')" for calls press'
    using that by (cases ev) (auto simp: Let_def split: if_splits)
  then show ?case using Cons by (auto simp: a split: option.splits prod.splits) (metis fst_conv)
qed simp

section \<open>The heap of a program\<close>

text \<open>The statics of \<^verbatim>\<open>sbrk\<close>; the system call is that of the kernel.\<close>

(*@ apps/newlib_support.c:57-58 sbrk *)
record user_heap =
  dpage_end :: u64
  program_break :: u64

(*@ apps/newlib_support.c:56-74 sbrk *)
definition user_sbrk :: "int \<Rightarrow> user_heap \<Rightarrow> kernel \<Rightarrow> (u64 \<times> user_heap \<times> kernel) option" where
  "user_sbrk incr s k = do {
     (s, k, failed) \<leftarrow>
       (if dpage_end s = 0 \<or> dpage_end s < program_break s + of_int incr then do {
          num_pages \<leftarrow> Some (sgn (incr + 4095) * (\<bar>incr + 4095\<bar> div 4096));
          (res, k) \<leftarrow> demand_pages (of_int num_pages) k;
          Some (if sr_error res \<noteq> 0 then (s, k, True)
                else (s\<lparr>program_break := sr_value res, dpage_end := sr_value res + of_int (4096 * num_pages)\<rparr>, k, False)) }
        else Some (s, k, False));
     Some (if failed then (- 1, s, k) else (program_break s, s\<lparr>program_break := program_break s + of_int incr\<rparr>, k)) }"

text \<open>Several calls; the regions that they hand out.\<close>

fun user_sbrks :: "nat list \<Rightarrow> user_heap \<Rightarrow> kernel \<Rightarrow> ((u64 \<times> nat) list \<times> user_heap \<times> kernel) option" where
  "user_sbrks [] s k = Some ([], s, k)"
| "user_sbrks (incr # incrs) s k = do {
     (p, s, k) \<leftarrow> user_sbrk (int incr) s k;
     (regions, s, k) \<leftarrow> user_sbrks incrs s k;
     Some ((p, incr) # regions, s, k) }"

text \<open>The break lies in the pages that the program has asked for, if it has asked for any.\<close>

definition user_heap_ok :: "user_heap \<Rightarrow> u64 \<Rightarrow> bool" where
  "user_heap_ok s page_end \<longleftrightarrow> unat (program_break s) \<le> unat (dpage_end s) \<and> unat (dpage_end s) \<le> unat page_end"

lemma unat_add_small:
  assumes "unat w + m < 2 ^ 64"
  shows "unat (w + of_nat m :: u64) = unat w + m"
proof -
  have "w + of_nat m = of_nat (unat w + m)" by simp
  then show ?thesis using assms by (simp only: unat_of_nat) (simp add: take_bit_nat_eq_self)
qed

lemma user_sbrk_step:
  assumes "running_task k = Some t" "user_heap_ok s (dpaging_end t)" "0 < unat (dpaging_end t)"
    and fits: "unat (dpaging_end t) + incr + 4096 < 2 ^ 64"
  shows "\<exists>p s' k' t'. user_sbrk (int incr) s k = Some (p, s', k') \<and> running_task k' = Some t' \<and>
    user_heap_ok s' (dpaging_end t') \<and> unat (dpaging_end t) \<le> unat (dpaging_end t') \<and>
    unat (dpaging_end t') \<le> unat (dpaging_end t) + incr + 4095 \<and>
    unat (program_break s) \<le> unat p \<and> unat p + incr = unat (program_break s') \<and>
    (dpage_end s = 0 \<longrightarrow> p = dpaging_end t)"
proof -
  let ?e = "dpaging_end t"
  define n where "n = (incr + 4095) div 4096"
  have n: "sgn (int incr + 4095) * (\<bar>int incr + 4095\<bar> div 4096) = int n" "incr \<le> 4096 * n" "4096 * n \<le> incr + 4095"
    by (simp_all add: n_def zdiv_int)
  have brk: "unat (program_break s) \<le> unat (dpage_end s)" "unat (dpage_end s) \<le> unat ?e"
    using assms(2) by (auto simp: user_heap_ok_def)
  have add: "unat (program_break s + of_nat incr) = unat (program_break s) + incr"
    "unat (?e + of_nat incr) = unat ?e + incr" "unat (?e + of_nat (4096 * n)) = unat ?e + 4096 * n"
    using brk fits n(3) by (simp_all add: unat_add_small del: of_nat_mult)
  show ?thesis
  proof (cases "dpage_end s = 0 \<or> dpage_end s < program_break s + of_nat incr")
    case True
    let ?f = "\<lambda>t. t\<lparr>dpaging_end := ?e + 4096 * of_nat n\<rparr>"
    have "running_task (update_running ?f k) = Some (?f t)" using assms(1) by (simp add: running_task_update)
    moreover have "demand_pages (of_nat n) k = Some (answer ?e 0, update_running ?f k)"
      using assms(1) by (simp add: demand_pages_def)
    ultimately show ?thesis using True n brk add
      by (simp add: user_sbrk_def answer_def user_heap_ok_def)
  next
    case False
    then have "unat (program_break s) + incr \<le> unat (dpage_end s)" using add(1) by (simp add: word_le_nat_alt not_less)
    then show ?thesis using False assms(1) brk add(1) by (simp add: user_sbrk_def user_heap_ok_def)
  qed
qed

text \<open>What \<^verbatim>\<open>sbrk\<close> hands out to a program lies in the range of addresses that the kernel provides with zeroed pages on
  demand, between the end of that range before and after, and no region overlaps an earlier one.\<close>

fun regions_from :: "nat \<Rightarrow> (u64 \<times> nat) list \<Rightarrow> nat \<Rightarrow> bool" where
  "regions_from lo [] hi \<longleftrightarrow> lo \<le> hi"
| "regions_from lo ((p, n) # regions) hi \<longleftrightarrow> lo \<le> unat p \<and> regions_from (unat p + n) regions hi"

lemma user_sbrks_regions:
  assumes "running_task k = Some t" "user_heap_ok s (dpaging_end t)" "0 < unat (dpaging_end t)"
    "unat (dpaging_end t) + sum_list (map (\<lambda>n. n + 4096) incrs) < 2 ^ 64"
  shows "\<exists>regions s' k' t'. user_sbrks incrs s k = Some (regions, s', k') \<and> running_task k' = Some t' \<and>
    map snd regions = incrs \<and> regions_from (unat (program_break s)) regions (unat (dpaging_end t'))"
  using assms
proof (induction incrs arbitrary: s k t)
  case Nil
  then show ?case by (auto simp: user_heap_ok_def)
next
  case (Cons n incrs)
  have "unat (dpaging_end t) + n + 4096 < 2 ^ 64" using Cons.prems(4) by simp
  from user_sbrk_step [OF Cons.prems(1-3) this]
  obtain p s1 k1 t1 where 1: "user_sbrk (int n) s k = Some (p, s1, k1)" "running_task k1 = Some t1"
      "user_heap_ok s1 (dpaging_end t1)" "unat (dpaging_end t) \<le> unat (dpaging_end t1)"
      "unat (dpaging_end t1) \<le> unat (dpaging_end t) + n + 4095"
      "unat (program_break s) \<le> unat p" "unat p + n = unat (program_break s1)"
    by blast
  then obtain regions s' k' t' where "user_sbrks incrs s1 k1 = Some (regions, s', k')" "running_task k' = Some t'"
      "map snd regions = incrs" "regions_from (unat (program_break s1)) regions (unat (dpaging_end t'))"
    using Cons.IH [OF 1(2,3)] Cons.prems(3,4) by auto
  then show ?case using 1 by simp
qed



end
