(* ===== verification/Boot_Loader.thy ===== *)
theory Boot_Loader imports App_Loader Memory_Manager Frame_Buffer begin

text \<open>
  \<^verbatim>\<open>MikanXLoaderPkg/Main.c\<close>: the boot loader, from the call by the firmware to the call of the kernel. UEFI is outside of the
  repository: the answers of its services are the fields of \<open>uefi\<close>. A status is an error when its highest bit is set.
  The files' contents are lists of bytes and the memory that the kernel is loaded to a function of its addresses; the
  firmware gives the pool and the pages to different places. \<open>Inl\<close> is the message with which the loader halts, \<open>None\<close> a run
  that does not survive.
\<close>

section \<open>The ELF image of the kernel\<close>

text \<open>The loop over the program headers: the lowest and the highest address.\<close>

(*@ MikanXLoaderPkg/Main.c:196-201 CalcLoadAddressRange *)
fun load_range_from :: "bytes \<Rightarrow> elf64_ehdr \<Rightarrow> nat list \<Rightarrow> u64 \<Rightarrow> u64 \<Rightarrow> (u64 \<times> u64) option" where
  "load_range_from img ehdr [] lo hi = Some (lo, hi)"
| "load_range_from img ehdr (i # is) lo hi = do {
     phdr \<leftarrow> get_program_header img ehdr i;
     if p_type phdr \<noteq> PT_LOAD then load_range_from img ehdr is lo hi
     else load_range_from img ehdr is (min lo (p_vaddr phdr)) (max hi (p_vaddr phdr + p_memsz phdr)) }"

(*@ MikanXLoaderPkg/Main.c:186-202 CalcLoadAddressRange *)
definition calc_load_address_range :: "bytes \<Rightarrow> elf64_ehdr \<Rightarrow> (u64 \<times> u64) option" where
  "calc_load_address_range img ehdr = load_range_from img ehdr [0..<unat (e_phnum ehdr)] (- 1) 0"

text \<open>\<^verbatim>\<open>CopyMem\<close> and \<^verbatim>\<open>SetMem\<close>, byte by byte.\<close>

fun write_memory :: "u64 \<Rightarrow> bytes \<Rightarrow> (u64 \<Rightarrow> u8) \<Rightarrow> u64 \<Rightarrow> u8" where
  "write_memory a [] m = m"
| "write_memory a (b # bs) m = write_memory (a + 1) bs (m(a := b))"

text \<open>A segment whose file part is larger than its memory makes \<^verbatim>\<open>remain_bytes\<close> wrap around.\<close>

(*@ MikanXLoaderPkg/Main.c:213-217 CopyLoadSegments *)
definition boot_copy_segment :: "bytes \<Rightarrow> elf64_phdr \<Rightarrow> (u64 \<Rightarrow> u8) \<Rightarrow> (u64 \<Rightarrow> u8) option" where
  "boot_copy_segment img phdr m =
    (if length img < unat (p_offset phdr) + unat (p_filesz phdr) \<or> p_memsz phdr < p_filesz phdr then None
     else
       let m = write_memory (p_vaddr phdr) (take (unat (p_filesz phdr)) (drop (unat (p_offset phdr)) img)) m;
           remain_bytes = p_memsz phdr - p_filesz phdr
       in Some (write_memory (p_vaddr phdr + p_filesz phdr) (replicate (unat remain_bytes) 0) m))"

(*@ MikanXLoaderPkg/Main.c:204-219 CopyLoadSegments *)
fun boot_copy_from :: "bytes \<Rightarrow> elf64_ehdr \<Rightarrow> nat list \<Rightarrow> (u64 \<Rightarrow> u8) \<Rightarrow> (u64 \<Rightarrow> u8) option" where
  "boot_copy_from img ehdr [] m = Some m"
| "boot_copy_from img ehdr (i # is) m = do {
     phdr \<leftarrow> get_program_header img ehdr i;
     if p_type phdr \<noteq> PT_LOAD then boot_copy_from img ehdr is m
     else do { m \<leftarrow> boot_copy_segment img phdr m; boot_copy_from img ehdr is m } }"

section \<open>The services of the firmware\<close>

(*@ MikanXLoaderPkg/Main.c:26-39 GetMemoryMap *)
record firmware_map =
  map_key :: u64
  efi_descriptors :: "(memory_descriptor \<times> u64) list"

text \<open>A descriptor comes with its attribute. \<open>ue_memory_map\<close> and \<open>ue_exit\<close> get the number of the call. \<open>ue_row\<close> is
  \<^verbatim>\<open>AsciiSPrint\<close> of a row of the file \<^verbatim>\<open>memmap\<close>, from the index, the descriptor, the name of its type and the attribute;
  \<open>ue_write\<close> is the status of the call with that number.\<close>

record gop_info =
  gop_base_null :: bool
  gop_scan_line :: u32
  gop_horizontal :: u32
  gop_vertical :: u32
  gop_format :: nat

record uefi =
  ue_memory_map :: "nat \<Rightarrow> u64 \<times> firmware_map"
  ue_loaded_image :: u64
  ue_file_system :: u64
  ue_open_volume :: u64
  ue_open :: "bytes \<Rightarrow> u64"
  ue_row :: "nat \<Rightarrow> memory_descriptor \<Rightarrow> bytes \<Rightarrow> u64 \<Rightarrow> bytes"
  ue_write :: "nat \<Rightarrow> bytes \<Rightarrow> u64"
  ue_close :: u64
  ue_gop :: "u64 \<times> u64 \<times> gop_info"
  ue_file :: "bytes \<Rightarrow> u64 \<times> u64 \<times> u64 \<times> bytes"
  ue_allocate_pages :: "u64 \<Rightarrow> u64 \<Rightarrow> u64"
  ue_free_pool :: u64
  ue_block_io :: "u64 \<times> u64"
  ue_block_size :: u32
  ue_last_block :: u64
  ue_read_blocks :: "u64 \<Rightarrow> u64 \<times> u64 \<times> bytes"
  ue_exit :: "nat \<Rightarrow> u64 \<Rightarrow> u64"
  ue_tables :: "(bool \<times> u64) list"
  ue_memory :: "u64 \<Rightarrow> u8"

definition efi_error :: "u64 \<Rightarrow> bool" where
  "efi_error status \<longleftrightarrow> 2 ^ 63 \<le> status"

text \<open>The names of \<^verbatim>\<open>EFI_MEMORY_TYPE\<close>, in the order of its numbers.\<close>

(*@ MikanXLoaderPkg/Main.c:40-60 GetMemoryTypeUnicode *)
definition memory_type_name :: "nat \<Rightarrow> bytes" where
  "memory_type_name type =
    (let names = [''EfiReservedMemoryType'', ''EfiLoaderCode'', ''EfiLoaderData'', ''EfiBootServicesCode'',
       ''EfiBootServicesData'', ''EfiRuntimeServicesCode'', ''EfiRuntimeServicesData'', ''EfiConventionalMemory'',
       ''EfiUnusableMemory'', ''EfiACPIReclaimMemory'', ''EfiACPIMemoryNVS'', ''EfiMemoryMappedIO'',
       ''EfiMemoryMappedIOPortSpace'', ''EfiPalCode'', ''EfiPersistentMemory'', ''EfiMaxMemoryType'']
     in bytes_of (if type < length names then names ! type else ''InvalidMemoryType''))"

text \<open>The rows from the index \<open>i\<close> on: what is written into the file, and the last status.\<close>

(*@ MikanXLoaderPkg/Main.c:78-97 SaveMemoryMap *)
fun save_rows :: "uefi \<Rightarrow> nat \<Rightarrow> (memory_descriptor \<times> u64) list \<Rightarrow> bytes \<times> u64" where
  "save_rows ue i [] = ([], 0)"
| "save_rows ue i ((desc, attribute) # ds) =
    (let buf = ue_row ue i desc (memory_type_name (unat (md_type desc))) (attribute AND 0xfffff);
         status = ue_write ue (i + 1) buf
     in if efi_error status then ([], status)
        else (case save_rows ue (i + 1) ds of (out, status) \<Rightarrow> (buf @ out, status)))"

(*@ MikanXLoaderPkg/Main.c:62-98 SaveMemoryMap *)
definition save_memory_map :: "uefi \<Rightarrow> firmware_map \<Rightarrow> bytes \<times> u64" where
  "save_memory_map ue m =
    (let header = bytes_of ''Index, Type, Type(name), PhisicalStart, NumberOfPages, Attribute'' @ [10];
         status = ue_write ue 0 header
     in if efi_error status then ([], status)
        else (case save_rows ue 0 (efi_descriptors m) of (out, status) \<Rightarrow> (header @ out, status)))"

text \<open>The status of \<^verbatim>\<open>OpenVolume\<close> is not looked at; without the volume the next call goes through a wild pointer.\<close>

(*@ MikanXLoaderPkg/Main.c:100-130 OpenRootDir *)
definition open_root_dir :: "uefi \<Rightarrow> u64 option" where
  "open_root_dir ue =
    (if efi_error (ue_loaded_image ue) then Some (ue_loaded_image ue)
     else if efi_error (ue_file_system ue) then Some (ue_file_system ue)
     else if efi_error (ue_open_volume ue) then None
     else Some 0)"

(*@ MikanXLoaderPkg/Main.c:132-163 OpenGOP *)
definition open_gop :: "uefi \<Rightarrow> gop_info option" where
  "open_gop ue =
    (case ue_gop ue of (located, opened, gop) \<Rightarrow> if efi_error located \<or> efi_error opened then None else Some gop)"

(*@ MikanXLoaderPkg/Main.c:221-243 ReadFile *)
definition boot_read_file :: "uefi \<Rightarrow> bytes \<Rightarrow> u64 \<times> bytes" where
  "boot_read_file ue name =
    (case ue_file ue name of
       (info, pool, read, content) \<Rightarrow>
         if efi_error info then (info, []) else if efi_error pool then (pool, []) else (read, content))"

(*@ MikanXLoaderPkg/Main.c:245-270 OpenBlockIoProtocolForLoadedImage *)
definition open_block_io :: "uefi \<Rightarrow> u64" where
  "open_block_io ue =
    (case ue_block_io ue of (loaded, block_io) \<Rightarrow> if efi_error loaded then loaded else block_io)"

(*@ MikanXLoaderPkg/Main.c:272-289 ReadBlocks *)
definition boot_read_blocks :: "uefi \<Rightarrow> u64 \<Rightarrow> u64 \<times> bytes" where
  "boot_read_blocks ue read_bytes =
    (case ue_read_blocks ue read_bytes of (pool, read, volume) \<Rightarrow> if efi_error pool then (pool, []) else (read, volume))"

section \<open>The boot loader\<close>

text \<open>What the kernel's entry point is called with, and the memory at that time.\<close>

(*@ MikanXLoaderPkg/Main.c:466-471 UefiMain *)
record handover =
  ho_entry :: u64
  ho_config :: frame_buffer_config
  ho_map :: firmware_map
  ho_acpi :: u64
  ho_volume :: bytes
  ho_memory :: "u64 \<Rightarrow> u8"

(*@ MikanXLoaderPkg/Main.c:299-338 UefiMain *)
definition boot_save_map :: "uefi \<Rightarrow> (string + firmware_map) option" where
  "boot_save_map ue =
    (case ue_memory_map ue 0 of
       (status, memmap) \<Rightarrow>
         if efi_error status then Some (Inl ''failed to get memory map'')
         else do {
           status \<leftarrow> open_root_dir ue;
           Some (if efi_error status then Inl ''failed to open root directory''
                 else if efi_error (ue_open ue (bytes_of ''memmap'')) then Inl ''failed to open file memmap''
                 else if efi_error (snd (save_memory_map ue memmap)) then Inl ''failed to save memory map''
                 else if efi_error (ue_close ue) then Inl ''failed to close memory map''
                 else Inr memmap) })"

text \<open>The kernel's file read and its segments copied: the first address and the memory.\<close>

(*@ MikanXLoaderPkg/Main.c:347-380 UefiMain *)
definition boot_load_kernel :: "uefi \<Rightarrow> (string + u64 \<times> (u64 \<Rightarrow> u8)) option" where
  "boot_load_kernel ue =
    (if efi_error (ue_open ue (bytes_of ''Kernel.elf'')) then Some (Inl ''failed to open file kernel.elf'')
     else case boot_read_file ue (bytes_of ''Kernel.elf'') of
       (status, kernel_buffer) \<Rightarrow>
         if efi_error status then Some (Inl ''error'')
         else do {
           ehdr \<leftarrow> get_ehdr kernel_buffer;
           (lo, hi) \<leftarrow> calc_load_address_range kernel_buffer ehdr;
           let num_pages = (hi - lo + 0xfff) div 0x1000;
           if efi_error (ue_allocate_pages ue lo num_pages) then Some (Inl ''failed to allocate pages'')
           else do {
             m \<leftarrow> boot_copy_from kernel_buffer ehdr [0..<unat (e_phnum ehdr)] (ue_memory ue);
             Some (if efi_error (ue_free_pool ue) then Inl ''failed to free pool'' else Inr (lo, m)) } })"

(*@ MikanXLoaderPkg/Main.c:382-415 UefiMain *)
definition boot_load_volume :: "uefi \<Rightarrow> string + bytes" where
  "boot_load_volume ue =
    (if ue_open ue (bytes_of ''fat_disk'') = 0 then
       (case boot_read_file ue (bytes_of ''fat_disk'') of
          (status, volume) \<Rightarrow> if efi_error status then Inl ''failed to read volume file'' else Inr volume)
     else if efi_error (open_block_io ue) then Inl ''failed to open Block I/O''
     else
       let volume_bytes = min (ucast (ue_block_size ue) * (ue_last_block ue + 1)) (32 * 1024 * 1024)
       in case boot_read_blocks ue volume_bytes of
            (status, volume) \<Rightarrow>
              if efi_error status then Inl ''failed to read blocks'' else Inr volume)"

text \<open>Leaving the firmware, with the map that it accepts the key of.\<close>

(*@ MikanXLoaderPkg/Main.c:418-431 UefiMain *)
definition boot_exit_services :: "uefi \<Rightarrow> firmware_map \<Rightarrow> string + firmware_map" where
  "boot_exit_services ue memmap =
    (if efi_error (ue_exit ue 0 (map_key memmap)) then
       (case ue_memory_map ue 1 of
          (status, memmap) \<Rightarrow>
            if efi_error status then Inl ''failed to get memory map''
            else if efi_error (ue_exit ue 1 (map_key memmap)) then Inl ''could not exit boot service''
            else Inr memmap)
     else Inr memmap)"

(*@ MikanXLoaderPkg/Main.c:436-455 UefiMain *)
definition boot_config :: "gop_info \<Rightarrow> string + frame_buffer_config" where
  "boot_config gop =
    (if gop_format gop \<le> 1 then
       Inr \<lparr>frame_buffer_null = gop_base_null gop, pixels_per_scan_line = gop_scan_line gop,
         horizontal_resolution = gop_horizontal gop, vertical_resolution = gop_vertical gop,
         pixel_format = (if gop_format gop = 0 then kPixelRGBResv8BitPerColor else kPixelBGRResv8BitPerColor)\<rparr>
     else Inl ''Unimplemented pixel format'')"

(*@ MikanXLoaderPkg/Main.c:457-464 UefiMain *)
definition boot_acpi_table :: "uefi \<Rightarrow> u64" where
  "boot_acpi_table ue = (case find fst (ue_tables ue) of Some (_, table) \<Rightarrow> table | None \<Rightarrow> 0)"

text \<open>The entry point is read from the loaded memory, where the ELF header is expected at the lowest address. That
  \<^verbatim>\<open>OpenGOP\<close> has failed is not noticed before the pointer is used.\<close>

(*@ MikanXLoaderPkg/Main.c:291-477 UefiMain *)
definition uefi_main :: "uefi \<Rightarrow> (string + handover) option" where
  "uefi_main ue = do {
     saved \<leftarrow> boot_save_map ue;
     (case saved of
        Inl msg \<Rightarrow> Some (Inl msg)
      | Inr memmap \<Rightarrow> do {
          loaded \<leftarrow> boot_load_kernel ue;
          (case loaded of
             Inl msg \<Rightarrow> Some (Inl msg)
           | Inr (lo, m) \<Rightarrow>
               (case boot_load_volume ue of
                  Inl msg \<Rightarrow> Some (Inl msg)
                | Inr volume \<Rightarrow>
                    (case boot_exit_services ue memmap of
                       Inl msg \<Rightarrow> Some (Inl msg)
                     | Inr memmap \<Rightarrow> do {
                         gop \<leftarrow> open_gop ue;
                         Some (case boot_config gop of
                           Inl msg \<Rightarrow> Inl msg
                         | Inr config \<Rightarrow>
                             Inr \<lparr>ho_entry = of_nat (le_nat (map (\<lambda>i. m (lo + 24 + of_nat i)) [0..<8])),
                               ho_config = config, ho_map = memmap, ho_acpi = boot_acpi_table ue,
                               ho_volume = volume, ho_memory = m\<rparr>) }))) }) }"

section \<open>The loaded image\<close>

lemma unat_succ:
  assumes "unat a + 1 < 2 ^ 64"
  shows "unat (a + 1 :: u64) = unat a + 1"
proof -
  have "a + 1 = of_nat (unat a + 1)" by simp
  then show ?thesis using assms by (simp only: unat_of_nat) (simp add: take_bit_nat_eq_self)
qed

lemma write_memory_at:
  "unat a + length bs \<le> 2 ^ 64 \<Longrightarrow> write_memory a bs m x =
    (if unat a \<le> unat x \<and> unat x < unat a + length bs then bs ! (unat x - unat a) else m x)"
proof (induction bs arbitrary: a m)
  case (Cons b bs)
  show ?case
  proof (cases "bs = []")
    case True
    have "unat a \<le> unat x \<and> unat x < unat a + 1 \<longleftrightarrow> x = a" by (auto simp: word_unat_eq_iff)
    then show ?thesis using True by auto
  next
    case False
    then have "unat a + 1 < 2 ^ 64" using Cons.prems by (cases bs) auto
    note s = unat_succ [OF this]
    have eq: "x = a \<longleftrightarrow> unat x = unat a" by (simp add: word_unat_eq_iff)
    have "write_memory (a + 1) bs (m(a := b)) x =
        (if unat a + 1 \<le> unat x \<and> unat x < unat a + 1 + length bs then bs ! (unat x - (unat a + 1)) else (m(a := b)) x)"
      by (subst Cons.IH) (use Cons.prems s in simp_all)
    then show ?thesis by (cases "unat x" "unat a" rule: linorder_cases) (auto simp: eq nth_Cons')
  qed
qed auto

text \<open>The addresses of a segment in memory, and the byte that belongs to an address of it.\<close>

definition segment :: "elf64_phdr \<Rightarrow> nat set" where
  "segment p = {unat (p_vaddr p)..<unat (p_vaddr p) + unat (p_memsz p)}"

definition segment_byte :: "bytes \<Rightarrow> elf64_phdr \<Rightarrow> u64 \<Rightarrow> u8" where
  "segment_byte img p x =
    (let i = unat x - unat (p_vaddr p) in if i < unat (p_filesz p) then img ! (unat (p_offset p) + i) else 0)"

definition segment_fits :: "bytes \<Rightarrow> elf64_phdr \<Rightarrow> bool" where
  "segment_fits img p \<longleftrightarrow> unat (p_offset p) + unat (p_filesz p) \<le> length img \<and> p_filesz p \<le> p_memsz p \<and>
     unat (p_vaddr p) + unat (p_memsz p) < 2 ^ 64"

lemma boot_copy_segment_at:
  assumes "segment_fits img p"
  shows "boot_copy_segment img p m = Some (\<lambda>x. if unat x \<in> segment p then segment_byte img p x else m x)"
proof -
  have f: "unat (p_offset p) + unat (p_filesz p) \<le> length img" "unat (p_filesz p) \<le> unat (p_memsz p)"
    "unat (p_vaddr p) + unat (p_memsz p) < 2 ^ 64"
    using assms by (auto simp: segment_fits_def word_le_nat_alt)
  then have a: "unat (p_vaddr p + p_filesz p) = unat (p_vaddr p) + unat (p_filesz p)"
    by (subst unat_plus_simple [THEN iffD1]) (simp_all add: no_olen_add_nat)
  have r: "unat (p_memsz p - p_filesz p) = unat (p_memsz p) - unat (p_filesz p)"
    using f(2) by (simp add: unat_sub word_le_nat_alt)
  show ?thesis
    using assms f a r
    by (auto simp: boot_copy_segment_def segment_fits_def not_le not_less Let_def fun_eq_iff write_memory_at segment_def segment_byte_def)
qed

definition boot_segments :: "bytes \<Rightarrow> elf64_ehdr \<Rightarrow> nat list \<Rightarrow> elf64_phdr list" where
  "boot_segments img ehdr is = filter (\<lambda>p. p_type p = PT_LOAD) (map (\<lambda>i. the (get_program_header img ehdr i)) is)"

text \<open>Segments that lie in the file and that do not overlap in memory.\<close>

definition segments_ok :: "bytes \<Rightarrow> elf64_phdr list \<Rightarrow> bool" where
  "segments_ok img ps \<longleftrightarrow> list_all (segment_fits img) ps \<and> sorted_wrt (\<lambda>p q. segment p \<inter> segment q = {}) ps"

lemma boot_copy_from_at:
  assumes "list_all (\<lambda>i. get_program_header img ehdr i \<noteq> None) is" "segments_ok img (boot_segments img ehdr is)"
  shows "\<exists>m'. boot_copy_from img ehdr is m = Some m' \<and>
    (\<forall>p \<in> set (boot_segments img ehdr is). \<forall>x. unat x \<in> segment p \<longrightarrow> m' x = segment_byte img p x) \<and>
    (\<forall>x. (\<forall>p \<in> set (boot_segments img ehdr is). unat x \<notin> segment p) \<longrightarrow> m' x = m x)"
  using assms
proof (induction "is" arbitrary: m)
  case (Cons i "is")
  obtain p where p: "get_program_header img ehdr i = Some p" using Cons.prems(1) by auto
  show ?case
  proof (cases "p_type p = PT_LOAD")
    case True
    have segs: "boot_segments img ehdr (i # is) = p # boot_segments img ehdr is" using p True by (simp add: boot_segments_def)
    have ok: "segment_fits img p" "segments_ok img (boot_segments img ehdr is)"
      "\<forall>q \<in> set (boot_segments img ehdr is). segment p \<inter> segment q = {}"
      using Cons.prems(2) by (auto simp: segs segments_ok_def)
    let ?m = "\<lambda>x. if unat x \<in> segment p then segment_byte img p x else m x"
    obtain m' where m': "boot_copy_from img ehdr is ?m = Some m'"
      "\<forall>q \<in> set (boot_segments img ehdr is). \<forall>x. unat x \<in> segment q \<longrightarrow> m' x = segment_byte img q x"
      "\<forall>x. (\<forall>q \<in> set (boot_segments img ehdr is). unat x \<notin> segment q) \<longrightarrow> m' x = ?m x"
      using Cons.IH [of ?m] Cons.prems(1) ok(2) by auto
    have "m' x = segment_byte img p x" if "unat x \<in> segment p" for x
      using m'(3) ok(3) that by (auto simp: disjoint_iff)
    then show ?thesis using m' p True boot_copy_segment_at [OF ok(1)] by (auto simp: segs)
  next
    case False
    then have "boot_segments img ehdr (i # is) = boot_segments img ehdr is" using p by (simp add: boot_segments_def)
    then show ?thesis using Cons p False by simp
  qed
qed (simp add: boot_segments_def)

text \<open>The lowest address, when no address is beyond it and one segment begins there.\<close>

lemma load_range_from_low:
  assumes "list_all (\<lambda>i. get_program_header img ehdr i \<noteq> None) is"
  shows "\<exists>hi'. load_range_from img ehdr is lo hi = Some (foldr min (map p_vaddr (boot_segments img ehdr is)) lo, hi')"
  using assms
proof (induction "is" arbitrary: lo hi)
  case (Cons i "is")
  obtain p where p: "get_program_header img ehdr i = Some p" using Cons.prems by auto
  have f: "foldr min xs (min a b) = min a (foldr min xs b)" for xs and a b :: u64
    by (induction xs) (simp_all add: min.left_commute)
  show ?case
    using p Cons.IH [of lo hi] Cons.IH [of "min lo (p_vaddr p)" "max hi (p_vaddr p + p_memsz p)"] Cons.prems f [of _ "p_vaddr p" lo]
    by (cases "p_type p = PT_LOAD") (auto simp: boot_segments_def min.commute)
qed (simp add: boot_segments_def)

lemma foldr_min_le: "(x :: u64) \<in> set xs \<Longrightarrow> foldr min xs a \<le> x"
  by (induction xs) (auto simp: min.coboundedI1 min.coboundedI2)

lemma foldr_min_ge: "\<forall>x \<in> set xs. y \<le> x \<Longrightarrow> y \<le> a \<Longrightarrow> (y :: u64) \<le> foldr min xs a"
  by (induction xs) auto

text \<open>A kernel that can be loaded: its headers and segments lie in the file, the segments do not overlap, and the lowest
  one begins with the ELF header.\<close>

definition loadable :: "bytes \<Rightarrow> elf64_ehdr \<Rightarrow> elf64_phdr \<Rightarrow> bool" where
  "loadable img ehdr p \<longleftrightarrow> get_ehdr img = Some ehdr \<and>
     list_all (\<lambda>i. get_program_header img ehdr i \<noteq> None) [0..<unat (e_phnum ehdr)] \<and>
     segments_ok img (boot_segments img ehdr [0..<unat (e_phnum ehdr)]) \<and>
     p \<in> set (boot_segments img ehdr [0..<unat (e_phnum ehdr)]) \<and> p_offset p = 0 \<and> 32 \<le> p_filesz p \<and>
     list_all (\<lambda>q. p_vaddr p \<le> p_vaddr q) (boot_segments img ehdr [0..<unat (e_phnum ehdr)])"

text \<open>A firmware that answers without errors, except that it may refuse the first key.\<close>

definition firmware_ok :: "uefi \<Rightarrow> bytes \<Rightarrow> bool" where
  "firmware_ok ue img \<longleftrightarrow> \<not> efi_error (fst (ue_memory_map ue 0)) \<and> \<not> efi_error (ue_loaded_image ue) \<and>
     \<not> efi_error (ue_file_system ue) \<and> \<not> efi_error (ue_open_volume ue) \<and>
     \<not> efi_error (ue_open ue (bytes_of ''memmap'')) \<and> \<not> efi_error (snd (save_memory_map ue (snd (ue_memory_map ue 0)))) \<and>
     \<not> efi_error (ue_close ue) \<and> (\<exists>gop. open_gop ue = Some gop \<and> gop_format gop \<le> 1) \<and>
     \<not> efi_error (ue_open ue (bytes_of ''Kernel.elf'')) \<and>
     (\<exists>status. boot_read_file ue (bytes_of ''Kernel.elf'') = (status, img) \<and> \<not> efi_error status) \<and>
     (\<forall>lo n. \<not> efi_error (ue_allocate_pages ue lo n)) \<and> \<not> efi_error (ue_free_pool ue) \<and>
     (\<exists>volume. boot_load_volume ue = Inr volume) \<and>
     (efi_error (ue_exit ue 0 (map_key (snd (ue_memory_map ue 0)))) \<longrightarrow>
        \<not> efi_error (fst (ue_memory_map ue 1)) \<and> \<not> efi_error (ue_exit ue 1 (map_key (snd (ue_memory_map ue 1)))))"

lemma entry_in_memory:
  assumes "loadable img ehdr p" "\<forall>x. unat x \<in> segment p \<longrightarrow> m x = segment_byte img p x"
  shows "of_nat (le_nat (map (\<lambda>i. m (p_vaddr p + 24 + of_nat i)) [0..<8])) = e_entry ehdr"
proof -
  have f: "segment_fits img p" and o: "p_offset p = 0" "32 \<le> unat (p_filesz p)"
    using assms(1) by (auto simp: loadable_def segments_ok_def list_all_iff word_le_nat_alt)
  have len: "64 \<le> length img" and e: "e_entry ehdr = of_nat (get_le img 24 8)"
    using assms(1) by (auto simp: loadable_def get_ehdr_def split: if_splits)
  have "m (p_vaddr p + 24 + of_nat i) = img ! (24 + i)" if "i < 8" for i
  proof -
    have b: "unat (p_vaddr p) + (24 + i) < 2 ^ 64" "unat (p_filesz p) \<le> unat (p_memsz p)"
      using f o that by (auto simp: segment_fits_def word_le_nat_alt)
    have "p_vaddr p + 24 + of_nat i = of_nat (unat (p_vaddr p) + (24 + i))" by simp
    then have u: "unat (p_vaddr p + 24 + of_nat i) = unat (p_vaddr p) + (24 + i)"
      using b(1) by (simp only: unat_of_nat) (simp add: take_bit_nat_eq_self)
    moreover have "unat (p_vaddr p + 24 + of_nat i) \<in> segment p" using u b o that by (simp add: segment_def)
    ultimately show ?thesis using assms(2) o that by (simp add: segment_byte_def)
  qed
  then have "map (\<lambda>i. m (p_vaddr p + 24 + of_nat i)) [0..<8] = take 8 (drop 24 img)"
    using len by (intro nth_equalityI) auto
  then show ?thesis by (simp add: e get_le_def)
qed

text \<open>C35: The way from the firmware into the kernel. If the firmware answers without errors and the kernel's file is one that
  can be loaded, the boot loader calls the kernel: at the entry point that the ELF header names, with every segment's bytes
  at the addresses it was linked for, the rest of the segment zeroed and no other byte of the memory changed, and with the memory map
  whose key the firmware has accepted when its services were left, the new one if the first key was refused.\<close>

theorem boot_enters_kernel:
  assumes "firmware_ok ue img" "loadable img ehdr p"
  defines "segs \<equiv> boot_segments img ehdr [0..<unat (e_phnum ehdr)]"
  shows "\<exists>h n. uefi_main ue = Some (Inr h) \<and> ho_entry h = e_entry ehdr \<and>
    (\<forall>q \<in> set segs. \<forall>x. unat x \<in> segment q \<longrightarrow> ho_memory h x = segment_byte img q x) \<and>
    (\<forall>x. (\<forall>q \<in> set segs. unat x \<notin> segment q) \<longrightarrow> ho_memory h x = ue_memory ue x) \<and>
    ho_map h = snd (ue_memory_map ue n) \<and> \<not> efi_error (ue_exit ue n (map_key (ho_map h)))"
proof -
  let ?map = "snd (ue_memory_map ue 0)" and ?is = "[0..<unat (e_phnum ehdr)]"
  note ok = assms(1) [unfolded firmware_ok_def] and l = assms(2) [unfolded loadable_def]
  have e0: "\<not> efi_error 0" by (simp add: efi_error_def)
  have saved: "boot_save_map ue = Some (Inr ?map)"
    using ok e0 by (simp add: boot_save_map_def open_root_dir_def case_prod_beta)
  obtain m where m: "boot_copy_from img ehdr ?is (ue_memory ue) = Some m"
    "\<forall>q \<in> set segs. \<forall>x. unat x \<in> segment q \<longrightarrow> m x = segment_byte img q x"
    "\<forall>x. (\<forall>q \<in> set segs. unat x \<notin> segment q) \<longrightarrow> m x = ue_memory ue x"
    using boot_copy_from_at [of img ehdr ?is "ue_memory ue"] l segs_def by auto
  obtain hi where range: "calc_load_address_range img ehdr = Some (foldr min (map p_vaddr segs) (- 1), hi)"
    using load_range_from_low [of img ehdr ?is "- 1" 0] l by (auto simp: calc_load_address_range_def segs_def)
  have p: "p \<in> set segs" "\<forall>q \<in> set segs. p_vaddr p \<le> p_vaddr q" using l by (auto simp: segs_def list_all_iff)
  have lo: "foldr min (map p_vaddr segs) (- 1) = p_vaddr p"
    using p by (intro antisym foldr_min_le foldr_min_ge) auto
  have loaded: "boot_load_kernel ue = Some (Inr (p_vaddr p, m))"
    using ok l m(1) range lo by (auto simp: boot_load_kernel_def)
  obtain n where n: "boot_exit_services ue ?map = Inr (snd (ue_memory_map ue n))"
      "\<not> efi_error (ue_exit ue n (map_key (snd (ue_memory_map ue n))))"
  proof (cases "efi_error (ue_exit ue 0 (map_key ?map))")
    case True
    then show ?thesis using ok that [of 1] by (simp add: boot_exit_services_def case_prod_beta)
  next
    case False
    then show ?thesis using that [of 0] by (simp add: boot_exit_services_def)
  qed
  obtain gop config where g: "open_gop ue = Some gop" "boot_config gop = Inr config"
    using ok by (auto simp: boot_config_def)
  obtain volume where v: "boot_load_volume ue = Inr volume" using ok by blast
  have "of_nat (le_nat (map (\<lambda>i. m (p_vaddr p + 24 + of_nat i)) [0..<8])) = e_entry ehdr"
    using m(2) p(1) by (intro entry_in_memory [OF assms(2)]) blast
  then show ?thesis using saved loaded v n g m(2,3)
    by (intro exI [of _ "\<lparr>ho_entry = e_entry ehdr, ho_config = config, ho_map = snd (ue_memory_map ue n),
      ho_acpi = boot_acpi_table ue, ho_volume = volume, ho_memory = m\<rparr>"] exI [of _ n])
      (simp add: uefi_main_def)
qed

text \<open>A kernel of one segment of 120 bytes in the file and 200 in memory, on a firmware that refuses the first key.\<close>

definition tiny_kernel :: bytes where
  "tiny_kernel = replicate 24 0 @ [0x40, 0, 0x10, 0, 0, 0, 0, 0] @ [64, 0, 0, 0, 0, 0, 0, 0] @ replicate 16 0 @ [1, 0] @ replicate 6 0 @
    [1, 0, 0, 0] @ replicate 12 0 @ [0, 0, 0x10, 0, 0, 0, 0, 0] @ replicate 8 0 @ [120, 0, 0, 0, 0, 0, 0, 0] @
    [200, 0, 0, 0, 0, 0, 0, 0] @ replicate 8 0"

definition tiny_segment :: elf64_phdr where
  "tiny_segment = \<lparr>p_type = 1, p_flags = 0, p_offset = 0, p_vaddr = 0x100000, p_paddr = 0, p_filesz = 120, p_memsz = 200, p_align = 0\<rparr>"

definition tiny_firmware :: uefi where
  "tiny_firmware = \<lparr>ue_memory_map = (\<lambda>n. (0, \<lparr>map_key = of_nat n, efi_descriptors = []\<rparr>)), ue_loaded_image = 0, ue_file_system = 0,
     ue_open_volume = 0, ue_open = (\<lambda>_. 0), ue_row = (\<lambda>_ _ _ _. []), ue_write = (\<lambda>_ _. 0), ue_close = 0,
     ue_gop = (0, 0, \<lparr>gop_base_null = False, gop_scan_line = 800, gop_horizontal = 800, gop_vertical = 600, gop_format = 1\<rparr>),
     ue_file = (\<lambda>_. (0, 0, 0, tiny_kernel)), ue_allocate_pages = (\<lambda>_ _. 0), ue_free_pool = 0, ue_block_io = (0, 0),
     ue_block_size = 512, ue_last_block = 0, ue_read_blocks = (\<lambda>_. (0, 0, [])), ue_exit = (\<lambda>n _. if n = 0 then - 1 else 0),
     ue_tables = [], ue_memory = (\<lambda>_. 0xcc)\<rparr>"

lemma le_nat_zeros: "le_nat (replicate n 0) = 0"
  by (induction n) simp_all

lemma tiny_bytes:
  "length tiny_kernel = 120" "get_le tiny_kernel 24 8 = 0x100040" "get_le tiny_kernel 32 8 = 64" "get_le tiny_kernel 56 2 = 1"
  "get_le tiny_kernel 64 4 = 1" "get_le tiny_kernel 68 4 = 0" "get_le tiny_kernel 72 8 = 0" "get_le tiny_kernel 80 8 = 0x100000"
  "get_le tiny_kernel 88 8 = 0" "get_le tiny_kernel 96 8 = 120" "get_le tiny_kernel 104 8 = 200" "get_le tiny_kernel 112 8 = 0"
  by (simp_all add: tiny_kernel_def get_le_def le_nat_zeros)

lemma tiny_ehdr:
  obtains ehdr where "get_ehdr tiny_kernel = Some ehdr" "e_phnum ehdr = 1" "e_phoff ehdr = 64" "e_entry ehdr = 0x100040"
  by (simp add: get_ehdr_def tiny_bytes)

lemma tiny_phdr: "e_phoff ehdr = 64 \<Longrightarrow> get_program_header tiny_kernel ehdr 0 = Some tiny_segment"
  by (simp add: get_program_header_def tiny_bytes tiny_segment_def)

theorem boot_enters_kernel_witness:
  "\<exists>h n. uefi_main tiny_firmware = Some (Inr h) \<and> ho_entry h = 0x100040 \<and>
    (\<forall>x. unat x \<in> segment tiny_segment \<longrightarrow> ho_memory h x = segment_byte tiny_kernel tiny_segment x)"
proof -
  have f: "firmware_ok tiny_firmware tiny_kernel"
    by (simp add: firmware_ok_def tiny_firmware_def efi_error_def save_memory_map_def open_gop_def boot_read_file_def
        boot_load_volume_def Let_def)
  obtain ehdr where e: "get_ehdr tiny_kernel = Some ehdr" "e_phnum ehdr = 1" "e_phoff ehdr = 64" "e_entry ehdr = 0x100040"
    by (rule tiny_ehdr)
  note p = tiny_phdr [OF e(3)]
  have segs: "boot_segments tiny_kernel ehdr [0..<unat (e_phnum ehdr)] = [tiny_segment]"
    using p e(2) by (simp add: boot_segments_def tiny_segment_def PT_LOAD_def)
  have "loadable tiny_kernel ehdr tiny_segment"
    using e p unfolding loadable_def segs by (simp add: segments_ok_def segment_fits_def tiny_segment_def tiny_bytes)
  from boot_enters_kernel [OF f this] show ?thesis unfolding segs e(4) by (simp del: split_paired_Ex) blast
qed

end
