(* ===== verification/Spec2Isabelle.thy ===== *)
theory Spec2Isabelle imports Prelude Bit_Field Kernel_Error Array_Queue Array_Map Memory_Manager Segment Interrupt
  Message Task Scheduler Timer Page_Table Paging Paging_Maps File_Descriptor Fat Fat_Chain
  Fat_Name Fat_Read Fat_Create Fat_Write Fat_Sample
  Graphics Frame_Buffer Window Layer Layer_Draw Layer_Active Mouse Gui_Sample Keyboard Pipe Terminal Arg_Vector App_Loader Bit_Layout Usb_Memory Xhci_Register Usb_Trb Usb_Ring Trb_Channel Usb_Context Xhci_Port
  Usb_Device Usb_Init Xhci_Devices Xhci Usb_Transfer Xhci_Ports Pci Pci_Scan Pci_Msi File_Object Syscall Syscall_Facts Shell
  Console Acpi Xhci_Start Desktop Main_Loop Main_Facts Kernel_Start Desktop_Facts Shell_Facts User_Calls
  Text_Viewer Block_Game Calculator Small_Programs Boot_Loader
begin

text \<open>
  MikanOS X, a small operating system for x86-64 machines: a model of its kernel (\<^verbatim>\<open>src/Kernel\<close>), its
  boot loader and some of its programs in Isabelle/HOL, and the theorems about them.

  The program. The boot loader hands the kernel a memory map and a frame buffer. The kernel takes over
  the memory, sets up segments, interrupts and page maps, finds the USB host controller on the PCI
  bus, starts the timer and the tasks, and turns what the keyboard, the mouse, the timer and the host
  controller report into messages to tasks. A task runs a terminal: a window, a line editor and a
  shell whose commands read and write files of a FAT volume in memory, start programs and connect
  them by pipes. Programs call back into the kernel by system calls. The parts meet in a few places:
  every wait is a task that sleeps until a message arrives; everything a program reads or writes goes
  through a file descriptor; everything on the screen is a window on a layer; and all memory comes
  from one frame allocator through page maps.

  How the code is translated. One theory holds one component, in the order of the code: its state as
  a record, its data as datatypes, one definition for each function, whose guards and early returns
  are those of the function. Fixed-width unsigned integers are words, \<^verbatim>\<open>int\<close> is the integers where no
  overflow is reachable, sizes and indices of containers are natural numbers. Fallible functions
  return the code's own error codes, \<open>kSuccess\<close> being no error. The result \<open>None\<close> of an option type
  stands for a run the code does not survive: an access outside of an array, a null pointer that is
  followed, or a loop that is never left. Global objects are fields of explicit states. Comments of
  the form \<^verbatim>\<open>(*@ path:first-last symbol *)\<close> name the source lines of a definition.

  The theories:

  \<^item> \<^theory_text>\<open>Prelude\<close>, \<^theory_text>\<open>Bit_Field\<close>, \<^theory_text>\<open>Bit_Layout\<close>: shared types and facts; fields of a machine word, and
    unions of a word with a packed struct, for which reading after writing is proved once and for all.
  \<^item> \<^theory_text>\<open>Kernel_Error\<close> (\<^verbatim>\<open>error.hpp\<close>), \<^theory_text>\<open>Array_Queue\<close> (\<^verbatim>\<open>queue.hpp\<close>), \<^theory_text>\<open>Array_Map\<close> (\<^verbatim>\<open>usb/arraymap.hpp\<close>):
    error codes; the ring queue as a bounded queue (locale \<open>bounded_fifo\<close>); the table of pending
    requests as a map (locale \<open>waiter_map\<close>).
  \<^item> \<^theory_text>\<open>Memory_Manager\<close> (\<^verbatim>\<open>memory_manager.cpp\<close>, \<^verbatim>\<open>memory_map.hpp\<close>, \<^verbatim>\<open>sbrk\<close>): the bitmap allocator refines
    a set of free frames (locale \<open>frame_allocator\<close>), and its search is the first fit.
  \<^item> \<^theory_text>\<open>Segment\<close>, \<^theory_text>\<open>Interrupt\<close> (\<^verbatim>\<open>segment.cpp\<close>, \<^verbatim>\<open>interrupt.cpp\<close>): descriptors decode to what they were
    made from; the gates of all vectors.
  \<^item> \<^theory_text>\<open>Message\<close>, \<^theory_text>\<open>Task\<close>, \<^theory_text>\<open>Scheduler\<close> (\<^verbatim>\<open>message.hpp\<close>, \<^verbatim>\<open>task.cpp\<close>): tasks and run queues; the invariant
    under every operation, priority and turn of the scheduler, no lost wake-up, inboxes as queues
    (locale \<open>mailbox\<close>).
  \<^item> \<^theory_text>\<open>Timer\<close> (\<^verbatim>\<open>timer.cpp\<close>): the timer queue (locale \<open>min_queue\<close>) and the tick.
  \<^item> \<^theory_text>\<open>Page_Table\<close>, \<^theory_text>\<open>Paging\<close>, \<^theory_text>\<open>Paging_Maps\<close>, \<^theory_text>\<open>Virtual_Memory\<close> (\<^verbatim>\<open>paging.cpp\<close>): page maps in physical frames
    and the translation they give; building, copying and cleaning them and the page fault handler;
    bytes at virtual addresses (locale \<open>byte_memory\<close>).
  \<^item> \<^theory_text>\<open>File_Descriptor\<close> (\<^verbatim>\<open>file.cpp\<close>), \<^theory_text>\<open>Fat\<close>, \<^theory_text>\<open>Fat_Chain\<close>, \<^theory_text>\<open>Fat_Name\<close>, \<^theory_text>\<open>Fat_Read\<close>, \<^theory_text>\<open>Fat_Create\<close>, \<^theory_text>\<open>Fat_Write\<close>,
    \<^theory_text>\<open>Fat_Sample\<close> (\<^verbatim>\<open>fat.cpp\<close>): cluster chains, names, directories; reading gives the bytes of the chain,
    writing appends to them, a created file is found. \<open>ReadDelim\<close> is proved over the locales
    \<open>byte_reader\<close> and \<open>byte_source\<close>, which files and pipes both interpret.
  \<^item> \<^theory_text>\<open>Graphics\<close>, \<^theory_text>\<open>Frame_Buffer\<close>, \<^theory_text>\<open>Window\<close>, \<^theory_text>\<open>Layer\<close>, \<^theory_text>\<open>Layer_Draw\<close>, \<^theory_text>\<open>Layer_Active\<close>, \<^theory_text>\<open>Mouse\<close>, \<^theory_text>\<open>Gui_Sample\<close>
    (\<^verbatim>\<open>graphics.cpp\<close>, \<^verbatim>\<open>font.cpp\<close>, \<^verbatim>\<open>frame_buffer.cpp\<close>, \<^verbatim>\<open>window.cpp\<close>, \<^verbatim>\<open>layer.cpp\<close>, \<^verbatim>\<open>mouse.cpp\<close>): copying
    and drawing to the pixel; the screen shows the topmost window everywhere, also after a move.
  \<^item> \<^theory_text>\<open>Keyboard\<close> (\<^verbatim>\<open>keyboard.cpp\<close>, \<^verbatim>\<open>usb/classdriver/keyboard.cpp\<close>).
  \<^item> \<^theory_text>\<open>Usb_Memory\<close>, \<^theory_text>\<open>Xhci_Register\<close>, \<^theory_text>\<open>Usb_Trb\<close>, \<^theory_text>\<open>Usb_Ring\<close>, \<^theory_text>\<open>Trb_Channel\<close>, \<^theory_text>\<open>Usb_Context\<close>, \<^theory_text>\<open>Xhci_Port\<close>,
    \<^theory_text>\<open>Usb_Device\<close>, \<^theory_text>\<open>Usb_Init\<close>, \<^theory_text>\<open>Usb_Transfer\<close>, \<^theory_text>\<open>Xhci_Devices\<close>, \<^theory_text>\<open>Xhci\<close>, \<^theory_text>\<open>Xhci_Ports\<close> (\<^verbatim>\<open>usb/\<close>,
    \<^verbatim>\<open>register.hpp\<close>): the memory shared with the host controller, its rings as channels that lose and
    reorder nothing (locale \<open>trb_channel\<close>, interpreted on the transfer and on the event ring), control
    transfers that come back to who asked, and the protocol by which one port at a time is reset.
  \<^item> \<^theory_text>\<open>Pci\<close>, \<^theory_text>\<open>Pci_Scan\<close>, \<^theory_text>\<open>Pci_Msi\<close> (\<^verbatim>\<open>pci.cpp\<close>): the search for devices ends and finds the reachable ones;
    what the set-up of interrupts writes.
  \<^item> \<^theory_text>\<open>Console\<close> (\<^verbatim>\<open>console.cpp\<close>), \<^theory_text>\<open>Acpi\<close> (\<^verbatim>\<open>acpi.cpp\<close>), \<^theory_text>\<open>Xhci_Start\<close> (the rest of \<^verbatim>\<open>usb/xhci/xhci.cpp\<close>): the lines the
    console holds; the tables that are looked through and the wait on the power management timer; how the
    host controller is taken over, programmed and run, and that the protocol of the ports holds from there on.
  \<^item> \<^theory_text>\<open>Desktop\<close>, \<^theory_text>\<open>Kernel_Start\<close>, \<^theory_text>\<open>Desktop_Facts\<close> (\<^verbatim>\<open>main.cpp\<close> and the \<open>Initialize\<close> functions it calls): the start of
    the kernel from the boot loader's call to the first terminal task, with every way to give up; the screen
    that it leaves.
  \<^item> \<^theory_text>\<open>Main_Loop\<close>, \<^theory_text>\<open>Main_Facts\<close> (\<^verbatim>\<open>main.cpp\<close>, \<^verbatim>\<open>logger.cpp\<close>): the loop of task 1, as rounds on the state of the kernel
    and as a step relation together with the timer interrupt and the other tasks (\<open>main_step\<close>); the cursor that never
    stops blinking, the way of a key to the active window, the answers to layer operations.
  \<^item> \<^theory_text>\<open>Boot_Loader\<close> (\<^verbatim>\<open>MikanXLoaderPkg/Main.c\<close>): the way from the firmware into the kernel, with every way to halt; that the
    kernel's image stands in memory as its program headers say, and with which memory map it is called.
  \<^item> \<^theory_text>\<open>User_Calls\<close>, \<^theory_text>\<open>Text_Viewer\<close>, \<^theory_text>\<open>Block_Game\<close>, \<^theory_text>\<open>Calculator\<close>, \<^theory_text>\<open>Small_Programs\<close> (\<^verbatim>\<open>apps\<close>): programs as functions from what the
    system calls answer to the calls they make: the file viewer and the lines it shows, the game whose ball never leaves
    the board, the calculator that refines the value of terms, sorting, paging, copying and painting, and the heap
    that a program gets from the kernel's pages on demand.
  \<^item> \<^theory_text>\<open>Pipe\<close>, \<^theory_text>\<open>Terminal\<close>, \<^theory_text>\<open>Arg_Vector\<close>, \<^theory_text>\<open>App_Loader\<close>, \<^theory_text>\<open>File_Object\<close>, \<^theory_text>\<open>Syscall\<close>, \<^theory_text>\<open>Syscall_Facts\<close>, \<^theory_text>\<open>Shell\<close>,
    \<^theory_text>\<open>Shell_Facts\<close> (\<^verbatim>\<open>terminal.cpp\<close>, \<^verbatim>\<open>elf.hpp\<close>, \<^verbatim>\<open>syscall.cpp\<close>, \<^verbatim>\<open>app_event.hpp\<close>): pipes over messages, the line editor, the
    program's image and argument vector, the state of the whole kernel (\<open>kernel\<close>) with the sum of the
    descriptor classes, all system calls, and the commands, redirections and pipes of the shell, with two
    whole lines: \<^verbatim>\<open>echo\<close> into a pipe and into a file.

  Loops. A loop over a container or a range is recursion over it. A loop whose end depends on data
  is a \<open>partial_function\<close> in the option monad (cluster chains, descriptors, capability lists, waits),
  whose \<open>None\<close> is the run that does not end, and the theorems say when it ends. Two recursions have
  fuel: \<open>scan_bus\<close>, whose 33 levels are enough because each of them adds a device to a table of 32
  (\<open>pci_scan_ends\<close>), and \<open>process_events\<close>, whose fuel is the number of events handled in one run. The
  64 digits of \<open>digits_from\<close> are enough for a 64-bit number in any base.

  Arguments of the model. What is not C++ of this repository is an argument of the definitions that
  use it: the values device registers and the PCI configuration space answer, the glyphs FreeType
  draws, the instructions a program executes and the system calls it makes on the way
  (\<open>call_app\<close>), the effect of the other tasks on the state while a task sleeps, the conversion of
  doubles in the line drawing, the addresses the linker and the heap give to objects, and what the
  firmware's services answer to the boot loader.

  Not modelled: the assembly (context switch, interrupt entry, register access), of the user programs
  under \<^verbatim>\<open>apps\<close> those that are arithmetic on \<^verbatim>\<open>double\<close> (\<^verbatim>\<open>cube\<close>, \<^verbatim>\<open>eye\<close>, \<^verbatim>\<open>line\<close>), a random number generator (\<^verbatim>\<open>stars\<close>), a library
  for regular expressions (\<^verbatim>\<open>grep\<close>) or images (\<^verbatim>\<open>gview\<close> with the vendored \<^verbatim>\<open>stb_image.h\<close>) or a few calls in a
  row, what the components write to the log, and the stubs the C and C++ libraries ask for.
\<close>

end
